(* ===== verification/Prelude.thy ===== *)
theory Prelude
  imports Main "HOL-Library.AList"
begin

text \<open>
  The vocabulary every component theory shares: how a C++ member function that mutates
  \<open>this\<close> and may throw becomes a HOL function, the loops the code uses, association lists
  for \<open>std::map\<close> and \<open>std::unordered_map\<close> members, and the rules by which the component
  proofs run over them.
\<close>

section \<open>Faults, and state-passing operations that may throw\<close>

text \<open>
  \<open>Throw\<close> is \<open>SWSS_LOG_THROW\<close> (a \<open>std::runtime_error\<close>; the string names the site),
  \<open>Null_Deref\<close> and \<open>Signed_Overflow\<close> are undefined behaviour of the C++ source,
  \<open>Out_Of_Fuel\<close> is the artefact of a bounded model of a recursion, proved unreachable where
  it is used.
\<close>

datatype fault = Throw string | Null_Deref string | Signed_Overflow | Out_Of_Fuel

text \<open>
  An operation on a state: it returns a value or a fault, and in both cases the state it leaves
  behind. A throw in the middle of a member function keeps the member updates done before it.
\<close>

type_synonym ('s, 'a) op = "'s \<Rightarrow> (fault + 'a) \<times> 's"

definition ret :: "'a \<Rightarrow> ('s, 'a) op" where
  "ret x = (\<lambda>s. (Inr x, s))"

definition raise :: "fault \<Rightarrow> ('s, 'a) op" where
  "raise e = (\<lambda>s. (Inl e, s))"

definition seq :: "('s, 'a) op \<Rightarrow> ('a \<Rightarrow> ('s, 'b) op) \<Rightarrow> ('s, 'b) op" where
  "seq m f = (\<lambda>s. case m s of (Inl e, s') \<Rightarrow> (Inl e, s') | (Inr x, s') \<Rightarrow> f x s')"

definition gets :: "('s \<Rightarrow> 'a) \<Rightarrow> ('s, 'a) op" where
  "gets f = (\<lambda>s. (Inr (f s), s))"

definition modify :: "('s \<Rightarrow> 's) \<Rightarrow> ('s, unit) op" where
  "modify f = (\<lambda>s. (Inr (), f s))"

text \<open>A \<open>for\<close> loop over the elements of a container; a throw leaves the loop.\<close>

fun forM :: "('a \<Rightarrow> ('s, unit) op) \<Rightarrow> 'a list \<Rightarrow> ('s, unit) op" where
  "forM f [] = ret ()"
| "forM f (x # xs) = seq (f x) (\<lambda>_. forM f xs)"

text \<open>
  Run an operation of a member object inside the operation of the object that owns it, with the
  field read by \<open>get\<close> and written back by \<open>put\<close>.
\<close>

definition zoom :: "('s \<Rightarrow> 'f) \<Rightarrow> ('f \<Rightarrow> 's \<Rightarrow> 's) \<Rightarrow> ('f, 'a) op \<Rightarrow> ('s, 'a) op" where
  "zoom get put m = (\<lambda>s. case m (get s) of (r, f) \<Rightarrow> (r, put f s))"

text \<open>A pure computation that may throw, inside an operation; and two such in sequence.\<close>

definition lift :: "fault + 'a \<Rightarrow> ('s, 'a) op" where
  "lift r = (\<lambda>s. (r, s))"

definition bindE :: "fault + 'a \<Rightarrow> ('a \<Rightarrow> fault + 'b) \<Rightarrow> fault + 'b" where
  "bindE r f = (case r of Inl e \<Rightarrow> Inl e | Inr x \<Rightarrow> f x)"

lemma bindE_simps [simp]: "bindE (Inl e) f = Inl e" "bindE (Inr x) f = f x"
  by (simp_all add: bindE_def)

lemma bindE_Inr: "bindE r f = Inr y \<longleftrightarrow> (\<exists>x. r = Inr x \<and> f x = Inr y)"
  by (cases r) auto

lemmas op_defs = lift_def ret_def raise_def seq_def gets_def modify_def zoom_def

lemma seq_Inr: "seq m f s = (Inr y, s') \<longleftrightarrow> (\<exists>x s1. m s = (Inr x, s1) \<and> f x s1 = (Inr y, s'))"
  by (auto simp: seq_def split: prod.splits sum.splits)

lemma forM_Cons_Inr: "forM f (x # xs) s = (Inr (), s') \<longleftrightarrow> (\<exists>s1. f x s = (Inr (), s1) \<and> forM f xs s1 = (Inr (), s'))"
  by (auto simp: seq_def split: prod.splits sum.splits)

lemma forM_append: "forM f (xs @ ys) = seq (forM f xs) (\<lambda>_. forM f ys)"
  by (induction xs) (auto simp: op_defs fun_eq_iff split: prod.splits sum.splits)

section \<open>Hoare triples\<close>

text \<open>
  \<open>hoare P m Q E\<close>: from a state with \<open>P\<close>, a normal return leaves \<open>Q\<close> and a fault leaves \<open>E\<close>.
  Total: \<open>E\<close> constantly false says that no fault can happen.
\<close>

definition hoare ::
  "('s \<Rightarrow> bool) \<Rightarrow> ('s, 'a) op \<Rightarrow> ('a \<Rightarrow> 's \<Rightarrow> bool) \<Rightarrow> (fault \<Rightarrow> 's \<Rightarrow> bool) \<Rightarrow> bool" where
  "hoare P m Q E \<longleftrightarrow>
     (\<forall>s. P s \<longrightarrow> (case m s of (Inl e, s') \<Rightarrow> E e s' | (Inr x, s') \<Rightarrow> Q x s'))"

named_theorems hoare_rules

lemma hoare_ret [hoare_rules]: "(\<And>s. P s \<Longrightarrow> Q x s) \<Longrightarrow> hoare P (ret x) Q E"
  by (simp add: hoare_def ret_def)

lemma hoare_raise [hoare_rules]: "(\<And>s. P s \<Longrightarrow> E e s) \<Longrightarrow> hoare P (raise e) Q E"
  by (simp add: hoare_def raise_def)

lemma hoare_gets [hoare_rules]: "(\<And>s. P s \<Longrightarrow> Q (f s) s) \<Longrightarrow> hoare P (gets f) Q E"
  by (simp add: hoare_def gets_def)

lemma hoare_modify [hoare_rules]: "(\<And>s. P s \<Longrightarrow> Q () (f s)) \<Longrightarrow> hoare P (modify f) Q E"
  by (simp add: hoare_def modify_def)

lemma hoare_lift [hoare_rules]:
  "(\<And>e s. P s \<Longrightarrow> r = Inl e \<Longrightarrow> E e s) \<Longrightarrow> (\<And>x s. P s \<Longrightarrow> r = Inr x \<Longrightarrow> Q x s) \<Longrightarrow>
     hoare P (lift r) Q E"
  by (simp add: hoare_def lift_def split: sum.splits)

lemma hoare_seq:
  assumes "hoare P m R E" and "\<And>x. hoare (R x) (f x) Q E"
  shows "hoare P (seq m f) Q E"
  using assms by (fastforce simp: hoare_def seq_def split: prod.splits sum.splits)

lemma hoare_conseq:
  assumes "hoare P' m Q' E'" and "\<And>s. P s \<Longrightarrow> P' s"
    and "\<And>x s. Q' x s \<Longrightarrow> Q x s" and "\<And>e s. E' e s \<Longrightarrow> E e s"
  shows "hoare P m Q E"
  using assms by (fastforce simp: hoare_def split: prod.splits sum.splits)

text \<open>A loop: the invariant speaks of the elements still to come.\<close>

lemma hoare_forM:
  assumes "\<And>x rest. hoare (I (x # rest)) (f x) (\<lambda>_. I rest) E"
  shows "hoare (I xs) (forM f xs) (\<lambda>_. I []) E"
proof (induction xs)
  case Nil
  show ?case by (simp add: hoare_ret)
next
  case (Cons x xs)
  show ?case
    by (simp, rule hoare_seq [where R = "\<lambda>_. I xs"]) (use assms Cons.IH in auto)
qed

lemma hoare_zoom:
  assumes "\<And>s. P s \<Longrightarrow>
     (case m (get s) of (Inl e, f) \<Rightarrow> E e (put f s) | (Inr x, f) \<Rightarrow> Q x (put f s))"
  shows "hoare P (zoom get put m) Q E"
  using assms by (auto simp: hoare_def zoom_def split_beta split: sum.splits)

text \<open>An operation that keeps a state predicate whatever it returns.\<close>

definition keeps :: "('s \<Rightarrow> bool) \<Rightarrow> ('s, 'a) op \<Rightarrow> bool" where
  "keeps P m \<longleftrightarrow> hoare P m (\<lambda>_. P) (\<lambda>_. P)"

lemma keeps_alt: "keeps P m \<longleftrightarrow> (\<forall>s. P s \<longrightarrow> P (snd (m s)))"
  by (auto simp: keeps_def hoare_def split_beta split: sum.splits)

section \<open>Association lists as the containers of the code\<close>

text \<open>
  A \<open>std::map\<close> or \<open>std::unordered_map\<close> member is an association list with distinct keys, in
  some order the proofs do not rely on: \<open>map_of\<close> is \<open>find\<close>, \<open>AList.update\<close> is
  \<open>m[k] = v\<close>, \<open>AList.delete\<close> is \<open>erase\<close>.
\<close>

type_synonym ('k, 'v) alist = "('k \<times> 'v) list"

definition keys :: "('k, 'v) alist \<Rightarrow> 'k list" where
  "keys al = map fst al"

definition has_key :: "('k, 'v) alist \<Rightarrow> 'k \<Rightarrow> bool" where
  "has_key al k = (map_of al k \<noteq> None)"

abbreviation wf_alist :: "('k, 'v) alist \<Rightarrow> bool" where
  "wf_alist al \<equiv> distinct (keys al)"

lemma set_keys: "set (keys al) = dom (map_of al)"
  by (simp add: keys_def dom_map_of_conv_image_fst)

lemma has_key_iff: "has_key al k \<longleftrightarrow> k \<in> set (keys al)"
  by (auto simp: has_key_def set_keys)

lemma has_key_obtain: "has_key al k \<Longrightarrow> (\<And>v. map_of al k = Some v \<Longrightarrow> P) \<Longrightarrow> P"
  by (auto simp: has_key_def)

lemma map_of_update_alist [simp]:
  "map_of (AList.update k v al) k' = (if k' = k then Some v else map_of al k')"
  by (simp add: AList.update_conv')

lemma map_of_delete_alist [simp]:
  "map_of (AList.delete k al) k' = (if k' = k then None else map_of al k')"
  by (simp add: AList.delete_conv')

lemma has_key_update [simp]: "has_key (AList.update k v al) k' \<longleftrightarrow> k' = k \<or> has_key al k'"
  by (simp add: has_key_def)

lemma has_key_delete [simp]: "has_key (AList.delete k al) k' \<longleftrightarrow> k' \<noteq> k \<and> has_key al k'"
  by (simp add: has_key_def)

lemma has_key_Nil [simp]: "\<not> has_key [] k"
  by (simp add: has_key_def)

lemma wf_update [simp]: "wf_alist al \<Longrightarrow> wf_alist (AList.update k v al)"
  by (simp add: keys_def AList.distinct_update)

lemma wf_delete [simp]: "wf_alist al \<Longrightarrow> wf_alist (AList.delete k al)"
  by (simp add: keys_def AList.distinct_delete)

lemma wf_filter [simp]: "wf_alist al \<Longrightarrow> wf_alist (filter Q al)"
  by (simp add: keys_def distinct_map_filter)

lemma keys_Nil [simp]: "keys [] = []"
  by (simp add: keys_def)

lemma map_of_filter_key:
  "map_of (filter (\<lambda>(k, v). Q k) al) k = (if Q k then map_of al k else None)"
  by (induction al) auto

text \<open>Sums over the entries of a container, as the reference counts are.\<close>

definition alist_sum :: "('k \<Rightarrow> 'v \<Rightarrow> nat) \<Rightarrow> ('k, 'v) alist \<Rightarrow> nat" where
  "alist_sum f al = sum_list (map (\<lambda>(k, v). f k v) al)"

definition at_key :: "('k \<Rightarrow> 'v \<Rightarrow> nat) \<Rightarrow> ('k, 'v) alist \<Rightarrow> 'k \<Rightarrow> nat" where
  "at_key f al k = (case map_of al k of None \<Rightarrow> 0 | Some v \<Rightarrow> f k v)"

lemma at_key_simps [simp]:
  "map_of al k = None \<Longrightarrow> at_key f al k = 0"
  "map_of al k = Some v \<Longrightarrow> at_key f al k = f k v"
  by (simp_all add: at_key_def)

lemma alist_sum_Nil [simp]: "alist_sum f [] = 0"
  by (simp add: alist_sum_def)

lemma alist_sum_Cons [simp]: "alist_sum f ((k, v) # al) = f k v + alist_sum f al"
  by (simp add: alist_sum_def)

lemma at_key_Cons: "at_key f ((k, v) # al) k' = (if k' = k then f k v else at_key f al k')"
  by (simp add: at_key_def)

lemma alist_sum_update:
  "alist_sum f (AList.update k v al) + at_key f al k = alist_sum f al + f k v"
  by (induction al) (auto simp: at_key_Cons)

lemma alist_delete_Cons:
  "AList.delete k ((k', v) # al) = (if k' = k then AList.delete k al else (k', v) # AList.delete k al)"
  by (simp add: AList.delete_eq)

lemma alist_sum_delete_notin: "map_of al k = None \<Longrightarrow> alist_sum f (AList.delete k al) = alist_sum f al"
  by (induction al) (auto simp: alist_delete_Cons split: if_splits)

lemma alist_sum_delete:
  "wf_alist al \<Longrightarrow> alist_sum f (AList.delete k al) + at_key f al k = alist_sum f al"
proof (induction al)
  case Nil
  then show ?case by (simp add: at_key_def AList.delete_eq)
next
  case (Cons p al)
  obtain k' v where p: "p = (k', v)" by (cases p)
  show ?case
  proof (cases "k' = k")
    case True
    with Cons.prems p have "map_of al k = None"
      by (auto simp: keys_def map_of_eq_None_iff)
    with True p show ?thesis by (simp add: alist_delete_Cons at_key_Cons alist_sum_delete_notin)
  next
    case False
    with Cons p show ?thesis by (simp add: alist_delete_Cons at_key_Cons keys_def)
  qed
qed

lemma alist_sum_ge: "wf_alist al \<Longrightarrow> map_of al k = Some v \<Longrightarrow> f k v \<le> alist_sum f al"
  using alist_sum_delete [of al f k] by simp

lemma alist_sum_pos:
  "0 < alist_sum f al \<Longrightarrow> \<exists>k v. (k, v) \<in> set al \<and> 0 < f k v"
proof (induction al)
  case (Cons p al)
  then show ?case by (cases p) (auto simp: alist_sum_def)
qed simp

lemma alist_sum_zeroI: "(\<And>k v. (k, v) \<in> set al \<Longrightarrow> f k v = 0) \<Longrightarrow> alist_sum f al = 0"
  by (metis alist_sum_pos not_gr_zero)

lemma map_of_mem_wf: "wf_alist al \<Longrightarrow> (k, v) \<in> set al \<Longrightarrow> map_of al k = Some v"
  by (simp add: keys_def)

lemma alist_sum_filter:
  "(\<And>k v. (k, v) \<in> set al \<Longrightarrow> \<not> Q (k, v) \<Longrightarrow> f k v = 0) \<Longrightarrow>
     alist_sum f (filter Q al) = alist_sum f al"
  by (induction al) auto

end
