(* ===== verification/Sai_Types.thy ===== *)
theory Sai_Types
  imports Prelude "HOL-Library.Word"
begin

unbundle bit_operations_syntax

text \<open>
  The SAI types every component uses: object ids, object types, status codes, and the record of
  what the SAI headers and the SAI metadata library supply. Neither the headers nor the metadata
  library (a git submodule) is part of the repository, so everything taken from them is a
  parameter: a value of the record \<open>sai_headers\<close>.
\<close>

section \<open>Object ids and object types\<close>

text \<open>
  \<open>sai_object_id_t\<close> is 64 bits wide (the code asserts it), \<open>sai_object_type_t\<close> is a C enum
  kept here at 32 bits. The code compares both with zero: \<open>SAI_NULL_OBJECT_ID\<close> and
  \<open>SAI_OBJECT_TYPE_NULL\<close> are used interchangeably for types in \<open>meta/Meta.cpp\<close>.
\<close>

type_synonym oid = "64 word"
type_synonym object_type = "32 word"
type_synonym u32 = "32 word"
type_synonym u64 = "64 word"

abbreviation (input) SAI_NULL_OBJECT_ID :: oid where
  "SAI_NULL_OBJECT_ID \<equiv> 0"

abbreviation (input) SAI_OBJECT_TYPE_NULL :: object_type where
  "SAI_OBJECT_TYPE_NULL \<equiv> 0"

text \<open>
  What the SAI headers say of object types: which are valid, where the extension range starts, and
  the number of the switch type.
\<close>

record sai_headers =
  object_type_valid :: "object_type \<Rightarrow> bool"
  ext_range_start :: object_type
  ot_switch :: object_type

text \<open>
  The documented facts of the headers the id managers rely on. The second and the third are the
  static assertions at the top of \<open>lib/VirtualObjectIdManager.cpp\<close>: a base object type and the
  offset of an extension type both fit into one byte.
\<close>

definition headers_ok :: "('x) sai_headers_scheme \<Rightarrow> bool" where
  "headers_ok h \<longleftrightarrow>
     \<not> object_type_valid h SAI_OBJECT_TYPE_NULL \<and>
     256 \<le> ext_range_start h \<and>
     (\<forall>t. object_type_valid h t \<longrightarrow>
        (if ext_range_start h \<le> t then t - ext_range_start h < 256 else t < 256)) \<and>
     object_type_valid h (ot_switch h) \<and> ot_switch h < 256"

lemma headers_okD:
  assumes "headers_ok h"
  shows "\<not> object_type_valid h 0" "256 \<le> ext_range_start h"
    "object_type_valid h t \<Longrightarrow> ext_range_start h \<le> t \<Longrightarrow> t - ext_range_start h < 256"
    "object_type_valid h t \<Longrightarrow> \<not> ext_range_start h \<le> t \<Longrightarrow> t < 256"
    "object_type_valid h (ot_switch h)" "ot_switch h < 256"
  using assms by (auto simp: headers_ok_def split: if_splits)

text \<open>A small concrete instance of the headers, for evaluating the model on examples.\<close>

definition demo_headers :: sai_headers where
  "demo_headers = \<lparr>object_type_valid = (\<lambda>t. t = 1 \<or> t = 3 \<or> t = 33 \<or> t = 0x20000000),
     ext_range_start = 0x20000000, ot_switch = 33\<rparr>"

lemma demo_headers_ok: "headers_ok demo_headers"
  by (auto simp: headers_ok_def demo_headers_def word_le_nat_alt)

section \<open>Status codes\<close>

text \<open>
  The \<open>sai_status_t\<close> values the repository itself returns; any other code comes from the vendor
  library and is carried as its number.
\<close>

datatype sai_status =
    SAI_STATUS_SUCCESS
  | SAI_STATUS_FAILURE
  | SAI_STATUS_INVALID_PARAMETER
  | SAI_STATUS_ITEM_NOT_FOUND
  | SAI_STATUS_ITEM_ALREADY_EXISTS
  | SAI_STATUS_OBJECT_IN_USE
  | SAI_STATUS_MANDATORY_ATTRIBUTE_MISSING
  | SAI_STATUS_NOT_EXECUTED
  | SAI_STATUS_NOT_IMPLEMENTED
  | SAI_STATUS_NOT_SUPPORTED
  | SAI_STATUS_UNINITIALIZED
  | SAI_STATUS_BUFFER_OVERFLOW
  | SAI_STATUS_INVALID_OBJECT_ID
  | SAI_STATUS_VENDOR int

text \<open>A status computed by code that may throw on the way.\<close>

type_synonym checked = "fault + sai_status"

abbreviation (input) ok :: checked where
  "ok \<equiv> Inr SAI_STATUS_SUCCESS"

abbreviation (input) status :: "sai_status \<Rightarrow> checked" where
  "status s \<equiv> Inr s"

text \<open>
  \<open>CHECK_STATUS_SUCCESS\<close>: go on when the status is success, return it otherwise; a throw leaves
  too.
\<close>

definition check_then :: "checked \<Rightarrow> checked \<Rightarrow> checked" where
  "check_then r k = (if r = ok then k else r)"

text \<open>The same in a loop: the first status that is not success leaves the function.\<close>

fun check_all :: "('a \<Rightarrow> checked) \<Rightarrow> 'a list \<Rightarrow> checked" where
  "check_all f [] = ok"
| "check_all f (x # xs) = check_then (f x) (check_all f xs)"

lemma check_then_ok [simp]: "check_then r k = ok \<longleftrightarrow> r = ok \<and> k = ok"
  by (auto simp: check_then_def)

lemma check_then_simps [simp]:
  "check_then ok k = k" "r \<noteq> ok \<Longrightarrow> check_then r k = r" "check_then (Inl e) k = Inl e"
  by (auto simp: check_then_def)

lemma check_all_ok: "check_all f xs = ok \<longleftrightarrow> (\<forall>x \<in> set xs. f x = ok)"
  by (induction xs) auto

lemma check_all_append: "check_all f (xs @ ys) = check_then (check_all f xs) (check_all f ys)"
  by (induction xs) (auto simp: check_then_def)

section \<open>64-bit sums that do not wrap\<close>

lemma unat_plus64:
  fixes v n :: u64
  assumes "unat v + unat n < 2 ^ 64"
  shows "unat (v + n) = unat v + unat n"
  using assms by (intro iffD1 [OF unat_add_lem]) simp

lemma unat_plus64_1:
  fixes v :: u64
  assumes "unat v + 1 < 2 ^ 64"
  shows "unat (v + 1) = unat v + 1"
  using unat_plus64 [of v 1] assms by simp

section \<open>32-bit values in 64 bits\<close>

lemma ucast_32_64_32 [simp]: "(ucast (ucast x :: u64) :: u32) = x"
  by (rule bit_word_eqI) (auto simp: bit_simps)

lemma ucast_32_64_inj: "(ucast x :: u64) = ucast y \<Longrightarrow> x = (y :: u32)"
  by (metis ucast_32_64_32)

lemma unat_ucast_32_64: "unat (ucast (x :: u32) :: u64) = unat x"
proof -
  have "unat x < 2 ^ 32" using unsigned_less [of x] by simp
  then show ?thesis by (simp add: unsigned_ucast_eq take_bit_nat_eq_self)
qed

lemma ucast_byte: "(x :: u32) < 256 \<Longrightarrow> (ucast x :: u64) < 2 ^ 8"
  by (simp add: word_less_nat_alt unat_ucast_32_64)

lemma unat_of_nat64: "n < 2 ^ 64 \<Longrightarrow> unat (of_nat n :: u64) = n"
  by (simp add: unsigned_of_nat take_bit_nat_eq_self)

lemma unat_p2: "n < 64 \<Longrightarrow> unat (2 ^ n :: u64) = 2 ^ n"
  by transfer (simp add: take_bit_int_eq_self)

section \<open>Bit fields of a word\<close>

text \<open>A word below \<open>2 ^ n\<close> has no bit at or above \<open>n\<close>.\<close>

lemma bit_less_pow2:
  fixes x :: "'a::len word"
  assumes "x < 2 ^ n"
  shows "bit x m \<Longrightarrow> m < n"
proof -
  assume "bit x m"
  have "x AND mask n = x"
    using assms by (rule less_mask_eq)
  with \<open>bit x m\<close> show "m < n" by (metis bit_and_iff bit_mask_iff)
qed

end
