(* ===== verification/Ref_Counter.thy ===== *)
theory Ref_Counter
  imports Sai_Types
begin

text \<open>
  \<open>meta/OidRefCounter.cpp\<close>: for every object id in the metadata database, how many attribute values
  and entry keys refer to it. The counters are \<open>int32_t\<close>; stepping past their range is undefined
  behaviour of the source and the fault \<open>Signed_Overflow\<close> of the model.
\<close>

section \<open>The operations\<close>

type_synonym ref_counter = "(oid, int) alist"

definition INT32_MAX :: int where
  "INT32_MAX = 2147483647"

definition INT32_MIN :: int where
  "INT32_MIN = -2147483648"

definition ref_clear :: "(ref_counter, unit) op" where
  "ref_clear = modify (\<lambda>_. [])"

definition objectReferenceExists :: "ref_counter \<Rightarrow> oid \<Rightarrow> bool" where
  "objectReferenceExists m oid = has_key m oid"

text \<open>The references are kept by value: \<open>the (map_of m oid)\<close> is \<open>m_hash[oid]\<close> after the existence test.\<close>

definition ref_at :: "ref_counter \<Rightarrow> oid \<Rightarrow> int" where
  "ref_at m oid = the (map_of m oid)"

definition objectReferenceIncrement :: "oid \<Rightarrow> (ref_counter, unit) op" where
  "objectReferenceIncrement oid = (\<lambda>m.
     if oid = SAI_NULL_OBJECT_ID then (Inr (), m)
     else if \<not> objectReferenceExists m oid then
       (Inl (Throw ''FATAL: object oid not in reference map''), m)
     else if ref_at m oid = INT32_MAX then (Inl Signed_Overflow, m)
     else (Inr (), AList.update oid (ref_at m oid + 1) m))"

definition objectReferenceDecrement :: "oid \<Rightarrow> (ref_counter, unit) op" where
  "objectReferenceDecrement oid = (\<lambda>m.
     if oid = SAI_NULL_OBJECT_ID then (Inr (), m)
     else if \<not> objectReferenceExists m oid then
       (Inl (Throw ''FATAL: object oid not in reference map''), m)
     else if ref_at m oid = INT32_MIN then (Inl Signed_Overflow, m)
     else
       let m' = AList.update oid (ref_at m oid - 1) m
       in if ref_at m' oid < 0
          then (Inl (Throw ''FATAL: object oid reference count is negative!''), m')
          else (Inr (), m'))"

text \<open>
  A \<open>sai_object_list_t\<close> is a count and a pointer. \<open>Null_List n\<close> is a null pointer with count \<open>n\<close>;
  \<open>Sai_List xs\<close> is a pointer to the \<open>count = length xs\<close> elements \<open>xs\<close>. Running over the first with
  a positive count dereferences null.
\<close>

datatype 'a sai_list = Null_List u32 | Sai_List "'a list"

fun list_count :: "'a sai_list \<Rightarrow> nat" where
  "list_count (Null_List n) = unat n"
| "list_count (Sai_List xs) = length xs"

fun list_null :: "'a sai_list \<Rightarrow> bool" where
  "list_null (Null_List n) = True"
| "list_null (Sai_List xs) = False"

fun list_elems :: "'a sai_list \<Rightarrow> fault + 'a list" where
  "list_elems (Null_List n) = (if n = 0 then Inr [] else Inl (Null_Deref ''list.list''))"
| "list_elems (Sai_List xs) = Inr xs"

definition objectReferenceIncrement_list :: "oid sai_list \<Rightarrow> (ref_counter, unit) op" where
  "objectReferenceIncrement_list l = seq (lift (list_elems l)) (forM objectReferenceIncrement)"

definition objectReferenceDecrement_list :: "oid sai_list \<Rightarrow> (ref_counter, unit) op" where
  "objectReferenceDecrement_list l = seq (lift (list_elems l)) (forM objectReferenceDecrement)"

definition objectReferenceInsert :: "oid \<Rightarrow> (ref_counter, unit) op" where
  "objectReferenceInsert oid = (\<lambda>m.
     if objectReferenceExists m oid then
       (Inl (Throw ''FATAL: object oid already in reference map''), m)
     else (Inr (), AList.update oid 0 m))"

definition getObjectReferenceCount :: "ref_counter \<Rightarrow> oid \<Rightarrow> fault + int" where
  "getObjectReferenceCount m oid =
     (if objectReferenceExists m oid then Inr (ref_at m oid)
      else Inl (Throw ''FATAL: object oid reference not in map''))"

definition objectReferenceRemove :: "oid \<Rightarrow> (ref_counter, unit) op" where
  "objectReferenceRemove oid = (\<lambda>m.
     if objectReferenceExists m oid then
       (if 0 < ref_at m oid
        then (Inl (Throw ''FATAL: removing object oid but reference count is positive''), m)
        else (Inr (), AList.delete oid m))
     else (Inl (Throw ''FATAL: object oid reference not in map''), m))"

definition isObjectInUse :: "ref_counter \<Rightarrow> oid \<Rightarrow> fault + bool" where
  "isObjectInUse m oid = bindE (getObjectReferenceCount m oid) (\<lambda>c. Inr (0 < c))"

definition getAllOids :: "ref_counter \<Rightarrow> oid list" where
  "getAllOids m = map fst m"

definition objectReferenceClear :: "oid \<Rightarrow> (ref_counter, unit) op" where
  "objectReferenceClear oid = (\<lambda>m.
     if objectReferenceExists m oid then (Inr (), AList.delete oid m)
     else (Inl (Throw ''FATAL: object oid reference not in map''), m))"

section \<open>What the counters count\<close>

text \<open>
  \<open>counted f m\<close>: \<open>m\<close> holds the count \<open>f oid\<close> of each of its ids. Null ids are never counted.
\<close>

definition counted :: "(oid \<Rightarrow> nat) \<Rightarrow> ref_counter \<Rightarrow> bool" where
  "counted f m \<longleftrightarrow> wf_alist m \<and> \<not> has_key m 0 \<and> (\<forall>oid c. map_of m oid = Some c \<longrightarrow> c = int (f oid))"

text \<open>The non-null elements of a list all have counters.\<close>

definition refs_exist :: "ref_counter \<Rightarrow> oid list \<Rightarrow> bool" where
  "refs_exist m xs \<longleftrightarrow> (\<forall>x \<in> set xs. x \<noteq> 0 \<longrightarrow> has_key m x)"

lemma refs_exist_simps [simp]:
  "refs_exist m []"
  "refs_exist m (x # xs) \<longleftrightarrow> (x \<noteq> 0 \<longrightarrow> has_key m x) \<and> refs_exist m xs"
  "refs_exist m (xs @ ys) \<longleftrightarrow> refs_exist m xs \<and> refs_exist m ys"
  by (auto simp: refs_exist_def)

lemma refs_exist_mono: "refs_exist m xs \<Longrightarrow> (\<And>x. has_key m x \<Longrightarrow> has_key m' x) \<Longrightarrow> refs_exist m' xs"
  by (auto simp: refs_exist_def)

lemma counted_cong: "counted f m \<Longrightarrow> (\<And>oid. has_key m oid \<Longrightarrow> f oid = g oid) \<Longrightarrow> counted g m"
  by (auto simp: counted_def has_key_def)

lemma counted_at: "counted f m \<Longrightarrow> has_key m oid \<Longrightarrow> ref_at m oid = int (f oid)"
  by (auto simp: counted_def has_key_def ref_at_def)

lemma count_Cons: "count_list (x # xs) y = (if x = y then 1 else 0) + count_list xs y"
  by simp

text \<open>Running the increments of a list adds its multiplicities.\<close>

lemma increment_all:
  assumes "counted f m" "refs_exist m xs" "\<And>oid. oid \<noteq> 0 \<Longrightarrow> f oid + count_list xs oid \<le> nat INT32_MAX"
  shows "\<exists>m'. forM objectReferenceIncrement xs m = (Inr (), m') \<and>
     counted (\<lambda>oid. f oid + count_list xs oid) m' \<and> (\<forall>oid. has_key m' oid = has_key m oid)"
  using assms
proof (induction xs arbitrary: f m)
  case Nil
  then show ?case by (simp add: ret_def)
next
  case (Cons x xs)
  show ?case
  proof (cases "x = 0")
    case True
    have c: "counted f m" "refs_exist m xs" using Cons.prems by auto
    have b: "f oid + count_list xs oid \<le> nat INT32_MAX" if "oid \<noteq> 0" for oid
      using Cons.prems(3) [OF that] by (auto split: if_splits)
    from Cons.IH [OF c b] obtain m' where m': "forM objectReferenceIncrement xs m = (Inr (), m')"
      "counted (\<lambda>oid. f oid + count_list xs oid) m'" "\<forall>oid. has_key m' oid = has_key m oid" by blast
    have "counted (\<lambda>oid. f oid + count_list (x # xs) oid) m'"
      by (rule counted_cong [OF m'(2)]) (use True m'(2) in \<open>auto simp: counted_def\<close>)
    moreover have "objectReferenceIncrement x m = (Inr (), m)"
      using True by (simp add: objectReferenceIncrement_def)
    ultimately show ?thesis using m'(1,3) by (intro exI [of _ m']) (simp add: seq_def)
  next
    case False
    let ?f = "\<lambda>oid. f oid + (if x = oid then 1 else 0)"
    let ?m = "AList.update x (ref_at m x + 1) m"
    have k: "has_key m x" using Cons.prems(2) False by simp
    have at: "ref_at m x = int (f x)" by (rule counted_at [OF Cons.prems(1) k])
    have "f x + 1 \<le> nat INT32_MAX" using Cons.prems(3) [OF False] by simp
    then have lt: "ref_at m x \<noteq> INT32_MAX" unfolding at by (auto simp: INT32_MAX_def)
    have c: "counted ?f ?m" using Cons.prems(1) at False by (auto simp: counted_def split: if_splits)
    have e: "refs_exist ?m xs" using Cons.prems(2) by (auto simp: refs_exist_def)
    have b: "?f oid + count_list xs oid \<le> nat INT32_MAX" if "oid \<noteq> 0" for oid
      using Cons.prems(3) [OF that] by (auto split: if_splits)
    from Cons.IH [OF c e b] obtain m' where m': "forM objectReferenceIncrement xs ?m = (Inr (), m')"
      "counted (\<lambda>oid. ?f oid + count_list xs oid) m'" "\<forall>oid. has_key m' oid = has_key ?m oid" by blast
    have "counted (\<lambda>oid. f oid + count_list (x # xs) oid) m'"
      by (rule counted_cong [OF m'(2)]) auto
    moreover have "\<forall>oid. has_key m' oid = has_key m oid" using m'(3) k by auto
    moreover have "objectReferenceIncrement x m = (Inr (), ?m)"
      using False k lt by (simp add: objectReferenceIncrement_def objectReferenceExists_def)
    ultimately show ?thesis using m'(1) by (intro exI [of _ m']) (simp add: seq_def)
  qed
qed

text \<open>Running the decrements of a list takes its multiplicities away, when they are there.\<close>

lemma decrement_all:
  assumes "counted f m" "refs_exist m xs" "\<And>oid. oid \<noteq> 0 \<Longrightarrow> count_list xs oid \<le> f oid"
  shows "\<exists>m'. forM objectReferenceDecrement xs m = (Inr (), m') \<and>
     counted (\<lambda>oid. f oid - count_list xs oid) m' \<and> (\<forall>oid. has_key m' oid = has_key m oid)"
  using assms
proof (induction xs arbitrary: f m)
  case Nil
  then show ?case by (simp add: ret_def)
next
  case (Cons x xs)
  show ?case
  proof (cases "x = 0")
    case True
    have c: "counted f m" "refs_exist m xs" using Cons.prems by auto
    have b: "count_list xs oid \<le> f oid" if "oid \<noteq> 0" for oid
      using Cons.prems(3) [OF that] by (auto split: if_splits)
    from Cons.IH [OF c b] obtain m' where m': "forM objectReferenceDecrement xs m = (Inr (), m')"
      "counted (\<lambda>oid. f oid - count_list xs oid) m'" "\<forall>oid. has_key m' oid = has_key m oid" by blast
    have "counted (\<lambda>oid. f oid - count_list (x # xs) oid) m'"
      by (rule counted_cong [OF m'(2)]) (use True m'(2) in \<open>auto simp: counted_def\<close>)
    moreover have "objectReferenceDecrement x m = (Inr (), m)"
      using True by (simp add: objectReferenceDecrement_def)
    ultimately show ?thesis using m'(1,3) by (intro exI [of _ m']) (simp add: seq_def)
  next
    case False
    let ?f = "\<lambda>oid. f oid - (if x = oid then 1 else 0)"
    let ?m = "AList.update x (ref_at m x - 1) m"
    have k: "has_key m x" using Cons.prems(2) False by simp
    have at: "ref_at m x = int (f x)" by (rule counted_at [OF Cons.prems(1) k])
    have pos: "1 \<le> f x" using Cons.prems(3) [OF False] by simp
    have "ref_at ?m x = ref_at m x - 1" by (simp add: ref_at_def)
    with pos at have ge: "ref_at m x \<noteq> INT32_MIN" "\<not> ref_at ?m x < 0"
      by (auto simp: INT32_MIN_def)
    have c: "counted ?f ?m" using Cons.prems(1) at False pos by (auto simp: counted_def split: if_splits)
    have e: "refs_exist ?m xs" using Cons.prems(2) by (auto simp: refs_exist_def)
    have b: "count_list xs oid \<le> ?f oid" if "oid \<noteq> 0" for oid
      using Cons.prems(3) [OF that] by (auto split: if_splits)
    from Cons.IH [OF c e b] obtain m' where m': "forM objectReferenceDecrement xs ?m = (Inr (), m')"
      "counted (\<lambda>oid. ?f oid - count_list xs oid) m'" "\<forall>oid. has_key m' oid = has_key ?m oid" by blast
    have "counted (\<lambda>oid. f oid - count_list (x # xs) oid) m'"
      by (rule counted_cong [OF m'(2)]) auto
    moreover have "\<forall>oid. has_key m' oid = has_key m oid" using m'(3) k by auto
    moreover have "objectReferenceDecrement x m = (Inr (), ?m)"
      using False k ge by (simp add: objectReferenceDecrement_def objectReferenceExists_def Let_def)
    ultimately show ?thesis using m'(1) by (intro exI [of _ m']) (simp add: seq_def)
  qed
qed

lemma counted_insert:
  "counted f m \<Longrightarrow> \<not> has_key m oid \<Longrightarrow> oid \<noteq> 0 \<Longrightarrow> f oid = 0 \<Longrightarrow> counted f (AList.update oid 0 m)"
  by (auto simp: counted_def split: if_splits)

lemma counted_delete: "counted f m \<Longrightarrow> counted f (AList.delete oid m)"
  by (auto simp: counted_def split: if_splits)

end
