(* ===== verification/Meta_Types.thy ===== *)
theory Meta_Types
  imports Ref_Counter
begin

text \<open>
  The data of the metadata layer (\<open>meta/Meta.cpp\<close> and its helpers): attribute values, attribute
  metadata, keys of objects, and the environment record that stands for the SAI metadata library,
  the SAI constants and the interface the layer is built on.
\<close>

section \<open>Attribute values\<close>

text \<open>
  \<open>sai_attr_value_type_t\<close>: every constant \<open>SAI_ATTR_VALUE_TYPE_*\<close> that \<open>meta/Meta.cpp\<close> names;
  grouped by the prefix or suffix of its name (\<open>SAI_ATTR_VALUE_TYPE_ACL_FIELD_DATA_MAC\<close> is
  \<open>VT_ACL_FIELD_DATA AD_MAC\<close>, \<open>SAI_ATTR_VALUE_TYPE_UINT8_LIST\<close> is \<open>VT_LIST LT_UINT8\<close>);
  \<open>VT_OTHER\<close> is any further one of the headers (the \<open>default\<close> branches).
\<close>

datatype prim_type =
    PT_BOOL | PT_UINT8 | PT_INT8 | PT_UINT16 | PT_INT16 | PT_UINT32 | PT_INT32 | PT_UINT64 | PT_INT64
  | PT_MAC | PT_IPV4 | PT_IPV6 | PT_POINTER

datatype acl_data_type =
    AD_BOOL | AD_UINT8 | AD_INT8 | AD_UINT16 | AD_INT16 | AD_UINT32 | AD_INT32 | AD_UINT64
  | AD_MAC | AD_IPV4 | AD_IPV6 | AD_OBJECT_ID | AD_OBJECT_LIST | AD_UINT8_LIST

datatype list_type =
    LT_UINT8 | LT_INT8 | LT_UINT16 | LT_INT16 | LT_UINT32 | LT_INT32 | LT_QOS_MAP | LT_MAP
  | LT_ACL_RESOURCE | LT_IP_ADDRESS | LT_SEGMENT | LT_JSON | LT_SYSTEM_PORT_CONFIG | LT_IP_PREFIX
  | LT_PORT_LANE_LATCH_STATUS | LT_PORT_ILT_LANE_TRAINING_STATUS | LT_PORT_SNR | LT_TAPS

datatype range_type = RT_UINT16 | RT_UINT32 | RT_INT32 | RT_UINT64

datatype macsec_type = MT_SAK | MT_AUTH_KEY | MT_SALT | MT_SCI | MT_SSCI

datatype value_type =
    VT_PRIM prim_type
  | VT_CHARDATA
  | VT_IP_ADDRESS
  | VT_IP_PREFIX
  | VT_OBJECT_ID
  | VT_OBJECT_LIST
  | VT_VLAN_LIST
  | VT_ACL_FIELD_DATA acl_data_type
  | VT_ACL_ACTION_DATA acl_data_type
  | VT_ACL_CAPABILITY
  | VT_LIST list_type
  | VT_UINT16_RANGE_LIST
  | VT_UINT64_RANGE_LIST
  | VT_RANGE range_type
  | VT_MACSEC macsec_type
  | VT_SYSTEM_PORT_CONFIG
  | VT_OTHER nat

text \<open>The parameter of an ACL field or action: \<open>sai_acl_field_data_t\<close>, \<open>sai_acl_action_data_t\<close>.\<close>

record acl_data =
  acl_enable :: bool
  acl_oid :: oid
  acl_objlist :: "oid sai_list"
  acl_s32 :: "32 word"

text \<open>
  \<open>sai_attribute_value_t\<close> is a union. A value of the record gives what reading each member of the
  union yields, for the members the code reads; \<open>v_lists\<close> gives, for the list members whose
  elements are never read, the count and whether the pointer is null.
\<close>

record attr_value =
  v_booldata :: bool
  v_chardata :: "8 word list"
  v_u8 :: "8 word"
  v_u16 :: "16 word"
  v_u32 :: u32
  v_s32 :: "32 word"
  v_oid :: oid
  v_objlist :: "oid sai_list"
  v_ipaddr_family :: u32
  v_ipprefix_family :: u32
  v_aclfield :: acl_data
  v_aclaction :: acl_data
  v_u32list :: "u32 sai_list"
  v_s32list :: "32 word sai_list"
  v_u16rangelist :: "(16 word \<times> 16 word) sai_list"
  v_u64rangelist :: "(u64 \<times> u64) sai_list"
  v_u32range :: "u32 \<times> u32"
  v_s32range :: "32 word \<times> 32 word"
  v_vlanlist :: "16 word sai_list"
  v_aclcapability_list :: "nat \<times> bool"
  v_lists :: "list_type \<Rightarrow> nat \<times> bool"

record sai_attribute =
  a_id :: u32
  a_value :: attr_value

text \<open>Count and null test of the list member a list type selects.\<close>

definition list_header :: "attr_value \<Rightarrow> list_type \<Rightarrow> nat \<times> bool" where
  "list_header v lt =
     (if lt = LT_UINT32 then (list_count (v_u32list v), list_null (v_u32list v))
      else if lt = LT_INT32 then (list_count (v_s32list v), list_null (v_s32list v))
      else v_lists v lt)"

section \<open>Keys\<close>

text \<open>
  \<open>sai_object_meta_key_t\<close>: the object type and the key union. The first member of the union is the
  object id, and of every entry structure the switch id: \<open>object_id\<close> reads both. The other fields
  are the members of entry structures the code looks at, and \<open>k_other\<close> the rest of them.
\<close>

record meta_key =
  objecttype :: object_type
  object_id :: oid
  k_bv_id :: oid
  k_rif_id :: oid
  k_vr_id :: oid
  k_type :: u32
  k_ip_family :: u32
  k_destination_family :: u32
  k_destination_mask6 :: "8 word list"
  k_source_family :: u32
  k_other :: "u64 list"

text \<open>The key of an object id object.\<close>

definition oid_key :: "object_type \<Rightarrow> oid \<Rightarrow> meta_key" where
  "oid_key t oid = \<lparr>objecttype = t, object_id = oid, k_bv_id = 0, k_rif_id = 0, k_vr_id = 0,
     k_type = 0, k_ip_family = 0, k_destination_family = 0, k_destination_mask6 = [],
     k_source_family = 0, k_other = []\<rparr>"

lemma oid_key_sel [simp]: "objecttype (oid_key t oid) = t" "object_id (oid_key t oid) = oid"
  by (simp_all add: oid_key_def)

lemma oid_key_inj [simp]: "oid_key t oid = oid_key t' oid' \<longleftrightarrow> t = t' \<and> oid = oid'"
  by (auto simp: oid_key_def)

section \<open>Metadata\<close>

text \<open>\<open>sai_attr_metadata_t\<close>: the fields the code reads; the flags word is split into its bits.\<close>

record attr_md =
  md_objecttype :: object_type
  md_attrid :: u32
  md_attridname :: string
  md_attrvaluetype :: value_type
  md_flag_key :: bool
  md_flag_read_only :: bool
  md_flag_mandatory_on_create :: bool
  md_flag_create_only :: bool
  md_isreadonly :: bool
  md_isoidattribute :: bool
  md_allownullobjectid :: bool
  md_isenum :: bool
  md_isenumlist :: bool
  md_isconditional :: bool
  md_isconditionrelaxed :: bool
  md_isdeprecated :: bool
  md_default_s32 :: "32 word"

record struct_member =
  sm_membervaluetype :: value_type
  sm_getoid :: "meta_key \<Rightarrow> oid"
  sm_setoid :: "oid \<Rightarrow> meta_key \<Rightarrow> meta_key"
  sm_allowedobjecttypes :: "object_type list"

record ot_info =
  isnonobjectid :: bool
  structmembers :: "struct_member list"
  attrmetadata :: "attr_md list"

text \<open>The types with an entry structure as key, one for each \<open>meta_sai_validate_*_entry\<close>.\<close>

datatype entry_name =
    FDB_ENTRY | MCAST_FDB_ENTRY | NEIGHBOR_ENTRY | ROUTE_ENTRY | L2MC_ENTRY | IPMC_ENTRY | NAT_ENTRY
  | INSEG_ENTRY | MY_SID_ENTRY | DIRECTION_LOOKUP_ENTRY | ENI_ETHER_ADDRESS_MAP_ENTRY | VIP_ENTRY
  | INBOUND_ROUTING_ENTRY | PA_VALIDATION_ENTRY | OUTBOUND_ROUTING_ENTRY | OUTBOUND_CA_TO_PA_ENTRY
  | FLOW_ENTRY | METER_BUCKET_ENTRY | PREFIX_COMPRESSION_ENTRY | OUTBOUND_PORT_MAP_PORT_RANGE_ENTRY
  | GLOBAL_TRUSTED_VNI_ENTRY | ENI_TRUSTED_VNI_ENTRY

text \<open>The object types and the attributes the code names.\<close>

datatype ot_name =
    OT_PORT | OT_HOSTIF | OT_BUFFER_PROFILE | OT_BUFFER_POOL | OT_ACL_TABLE | OT_SCHEDULER_GROUP
  | OT_BRIDGE | OT_VLAN | OT_ROUTER_INTERFACE | OT_VIRTUAL_ROUTER
  | OT_FDB_FLUSH | OT_ACL_COUNTER | OT_ENTRY entry_name

datatype attr_name =
    SWITCH_ATTR_INIT_SWITCH
  | PORT_ATTR_QOS_QUEUE_LIST | PORT_ATTR_QOS_SCHEDULER_GROUP_LIST
  | PORT_ATTR_INGRESS_PRIORITY_GROUP_LIST
  | HOSTIF_ATTR_NAME | HOSTIF_ATTR_GENETLINK_MCGRP_NAME
  | BUFFER_PROFILE_ATTR_SHARED_DYNAMIC_TH | BUFFER_PROFILE_ATTR_SHARED_STATIC_TH
  | BUFFER_PROFILE_ATTR_POOL_ID | BUFFER_POOL_ATTR_THRESHOLD_MODE
  | ACL_TABLE_ATTR_FIELD_ACL_RANGE_TYPE | SCHEDULER_GROUP_ATTR_SCHEDULER_PROFILE_ID
  | FDB_ENTRY_ATTR_TYPE | FDB_ENTRY_ATTR_BRIDGE_PORT_ID
  | ACL_COUNTER_ATTR_PACKETS | ACL_COUNTER_ATTR_BYTES | NAT_ENTRY_ATTR_HIT_BIT | NAT_ENTRY_ATTR_HIT_BIT_COR

datatype const_name =
    IP_ADDR_FAMILY_IPV4 | IP_ADDR_FAMILY_IPV6
  | L2MC_ENTRY_TYPE_SG | L2MC_ENTRY_TYPE_XG | IPMC_ENTRY_TYPE_SG | IPMC_ENTRY_TYPE_XG
  | BUFFER_POOL_THRESHOLD_MODE_STATIC | BUFFER_POOL_THRESHOLD_MODE_DYNAMIC
  | HOSTIF_NAME_SIZE | HOSTIF_GENETLINK_MCGRP_NAME_SIZE | MAXIMUM_VLAN_NUMBER

text \<open>
  The environment of the metadata layer: constants of the headers, functions of the SAI metadata
  library, the two queries of the interface below (\<open>m_implementation\<close>), the copy an
  \<open>SaiAttrWrapper\<close> makes of a value by serializing and deserializing it, and the printed form of keys.
\<close>

record sai_meta = sai_headers +
  ot :: "ot_name \<Rightarrow> object_type"
  attr_id :: "attr_name \<Rightarrow> u32"
  const :: "const_name \<Rightarrow> u32"
  get_attr_metadata :: "object_type \<Rightarrow> u32 \<Rightarrow> attr_md option"
  get_object_type_info :: "object_type \<Rightarrow> ot_info option"
  get_attr_by_id :: "u32 \<Rightarrow> sai_attribute list \<Rightarrow> sai_attribute option"
  is_condition_met :: "attr_md \<Rightarrow> sai_attribute list \<Rightarrow> bool"
  is_allowed_enum_value :: "attr_md \<Rightarrow> 32 word \<Rightarrow> bool"
  is_allowed_object_type :: "attr_md \<Rightarrow> object_type \<Rightarrow> bool"
  objectTypeQuery :: "oid \<Rightarrow> object_type"
  switchIdQuery :: "oid \<Rightarrow> oid"
  attr_copy :: "attr_md \<Rightarrow> attr_value \<Rightarrow> attr_value"
  serialize_meta_key :: "meta_key \<Rightarrow> string"
  deserialize_meta_key :: "string \<Rightarrow> meta_key option"

section \<open>Printed numbers\<close>

text \<open>\<open>std::to_string\<close> and the hexadecimal \<open>oid:0x\<close> form of \<open>sai_serialize_object_id\<close>.\<close>

definition digit_char :: "nat \<Rightarrow> char" where
  "digit_char d = ''0123456789abcdef'' ! d"

fun print_nat :: "nat \<Rightarrow> nat \<Rightarrow> string" where
  "print_nat base n =
     (if base < 2 \<or> n < base then [digit_char (n mod 16)]
      else print_nat base (n div base) @ [digit_char (n mod base)])"

declare print_nat.simps [simp del]

definition print_signed :: "32 word \<Rightarrow> string" where
  "print_signed w = (if sint w < 0 then CHR ''-'' # print_nat 10 (nat (- sint w))
                     else print_nat 10 (nat (sint w)))"

definition sai_serialize_object_id :: "oid \<Rightarrow> string" where
  "sai_serialize_object_id oid = ''oid:0x'' @ print_nat 16 (unat oid)"

end
