(* ===== verification/Object_Store.thy ===== *)
theory Object_Store
  imports Meta_Types
begin

text \<open>
  The containers of the metadata database: \<open>meta/SaiAttrWrapper.cpp\<close> and \<open>meta/SaiObject.cpp\<close> (an
  object and its stored attributes), \<open>meta/SaiObjectCollection.cpp\<close> (the objects by key),
  \<open>meta/AttrKeyMap.cpp\<close> (the key attributes in use) and \<open>meta/PortRelatedSet.cpp\<close> (the objects that
  go when their port goes).
\<close>

section \<open>Objects\<close>

text \<open>A stored attribute keeps its metadata and a copy of the attribute made by serialization.\<close>

record attr_wrapper =
  w_meta :: attr_md
  w_attr :: sai_attribute

definition attr_wrapper_new :: "sai_meta \<Rightarrow> attr_md \<Rightarrow> sai_attribute \<Rightarrow> attr_wrapper" where
  "attr_wrapper_new h md attr =
     \<lparr>w_meta = md, w_attr = \<lparr>a_id = a_id attr, a_value = attr_copy h md (a_value attr)\<rparr>\<rparr>"

record sai_object =
  m_metaKey :: meta_key
  m_attrs :: "(u32, attr_wrapper) alist"

definition sai_object_new :: "sai_meta \<Rightarrow> meta_key \<Rightarrow> fault + sai_object" where
  "sai_object_new h metaKey =
     (if \<not> object_type_valid h (objecttype metaKey) then Inl (Throw ''invalid object type'')
      else Inr \<lparr>m_metaKey = metaKey, m_attrs = []\<rparr>)"

definition getObjectType :: "sai_object \<Rightarrow> object_type" where
  "getObjectType obj = objecttype (m_metaKey obj)"

definition hasAttr :: "sai_object \<Rightarrow> u32 \<Rightarrow> bool" where
  "hasAttr obj aid = has_key (m_attrs obj) aid"

definition setAttr :: "sai_meta \<Rightarrow> attr_md \<Rightarrow> sai_attribute \<Rightarrow> sai_object \<Rightarrow> sai_object" where
  "setAttr h md attr obj =
     obj\<lparr>m_attrs := AList.update (a_id attr) (attr_wrapper_new h md attr) (m_attrs obj)\<rparr>"

definition getAttr :: "sai_object \<Rightarrow> u32 \<Rightarrow> attr_wrapper option" where
  "getAttr obj aid = map_of (m_attrs obj) aid"

definition getAttributes :: "sai_object \<Rightarrow> attr_wrapper list" where
  "getAttributes obj = map snd (m_attrs obj)"

section \<open>The collection\<close>

type_synonym object_collection = "(meta_key, sai_object) alist"

definition objectExists :: "object_collection \<Rightarrow> meta_key \<Rightarrow> bool" where
  "objectExists c metaKey = has_key c metaKey"

definition createObject :: "sai_meta \<Rightarrow> meta_key \<Rightarrow> (object_collection, unit) op" where
  "createObject h metaKey = (\<lambda>c.
     case sai_object_new h metaKey of
       Inl e \<Rightarrow> (Inl e, c)
     | Inr obj \<Rightarrow>
         if objectExists c metaKey then (Inl (Throw ''FATAL: object already exists''), c)
         else (Inr (), AList.update metaKey obj c))"

definition removeObject :: "meta_key \<Rightarrow> (object_collection, unit) op" where
  "removeObject metaKey = (\<lambda>c.
     if \<not> objectExists c metaKey then (Inl (Throw ''FATAL: object doesn't exist''), c)
     else (Inr (), AList.delete metaKey c))"

definition setObjectAttr ::
  "sai_meta \<Rightarrow> meta_key \<Rightarrow> attr_md \<Rightarrow> sai_attribute \<Rightarrow> (object_collection, unit) op" where
  "setObjectAttr h metaKey md attr = (\<lambda>c.
     case map_of c metaKey of
       None \<Rightarrow> (Inl (Throw ''FATAL: object doesn't exist''), c)
     | Some obj \<Rightarrow> (Inr (), AList.update metaKey (setAttr h md attr obj) c))"

definition getObjectAttr :: "object_collection \<Rightarrow> meta_key \<Rightarrow> u32 \<Rightarrow> attr_wrapper option" where
  "getObjectAttr c metaKey aid =
     (case map_of c metaKey of None \<Rightarrow> None | Some obj \<Rightarrow> getAttr obj aid)"

definition getObjectsByObjectType :: "object_collection \<Rightarrow> object_type \<Rightarrow> sai_object list" where
  "getObjectsByObjectType c t = filter (\<lambda>obj. getObjectType obj = t) (map snd c)"

definition getObject :: "object_collection \<Rightarrow> meta_key \<Rightarrow> fault + sai_object" where
  "getObject c metaKey =
     (case map_of c metaKey of
        None \<Rightarrow> Inl (Throw ''FATAL: object doesn't exist'')
      | Some obj \<Rightarrow> Inr obj)"

definition getAllKeys_objects :: "object_collection \<Rightarrow> meta_key list" where
  "getAllKeys_objects c = map fst c"

section \<open>The attribute keys\<close>

text \<open>
  For each object created with key attributes, the string that identifies them; no two objects of
  a switch may have the same.
\<close>

type_synonym attr_key_map = "(string, string) alist"

definition attrkey_insert :: "string \<Rightarrow> string \<Rightarrow> (attr_key_map, unit) op" where
  "attrkey_insert metaKey attrKey = modify (AList.update metaKey attrKey)"

definition eraseMetaKey :: "string \<Rightarrow> (attr_key_map, unit) op" where
  "eraseMetaKey metaKey = modify (AList.delete metaKey)"

definition attrKeyExists :: "attr_key_map \<Rightarrow> string \<Rightarrow> bool" where
  "attrKeyExists m attrKey = (attrKey \<in> set (map snd m))"

definition getAllKeys_attrkeys :: "attr_key_map \<Rightarrow> string list" where
  "getAllKeys_attrkeys m = map fst m"

text \<open>
  The value part of one key attribute. The separator goes after every element of a list but the
  last. \<open>std::map<int32_t, std::string>\<close> orders the parts by the attribute id read as signed.
\<close>

fun join_numbers :: "string list \<Rightarrow> string" where
  "join_numbers [] = []"
| "join_numbers [x] = x"
| "join_numbers (x # xs) = x @ '','' @ join_numbers xs"

definition key_value :: "attr_md \<Rightarrow> attr_value \<Rightarrow> fault + string" where
  "key_value md v =
     (case md_attrvaluetype md of
        VT_LIST LT_UINT32 \<Rightarrow>
          bindE (list_elems (v_u32list v)) (\<lambda>xs. Inr (join_numbers (map (\<lambda>n. print_nat 10 (unat n)) xs)))
      | VT_PRIM PT_INT32 \<Rightarrow> Inr (print_signed (v_s32 v))
      | VT_PRIM PT_UINT32 \<Rightarrow> Inr (print_nat 10 (unat (v_u32 v)))
      | VT_PRIM PT_UINT8 \<Rightarrow> Inr (print_nat 10 (unat (v_u8 v)))
      | VT_PRIM PT_UINT16 \<Rightarrow> Inr (print_nat 10 (unat (v_u16 v)))
      | VT_OBJECT_ID \<Rightarrow> Inr (sai_serialize_object_id (v_oid v))
      | _ \<Rightarrow> Inl (Throw ''FATAL: attribute marked as key, but have invalid serialization type, FIXME''))"

fun key_insert :: "int \<Rightarrow> string \<Rightarrow> (int \<times> string) list \<Rightarrow> (int \<times> string) list" where
  "key_insert k s [] = [(k, s)]"
| "key_insert k s ((k', s') # ks) =
     (if k < k' then (k, s) # (k', s') # ks
      else if k = k' then (k, s) # ks
      else (k', s') # key_insert k s ks)"

fun construct_parts ::
  "sai_meta \<Rightarrow> object_type \<Rightarrow> sai_attribute list \<Rightarrow> (int \<times> string) list \<Rightarrow> fault + (int \<times> string) list" where
  "construct_parts h t [] ks = Inr ks"
| "construct_parts h t (attr # attrs) ks =
     (case get_attr_metadata h t (a_id attr) of
        None \<Rightarrow> Inl (Throw ''failed to get metadata for object type and attr id'')
      | Some md \<Rightarrow>
          if \<not> md_flag_key md then construct_parts h t attrs ks
          else bindE (key_value md (a_value attr)) (\<lambda>v.
                 construct_parts h t attrs
                   (key_insert (sint (md_attrid md)) (md_attridname md @ '':'' @ v) ks)))"

definition constructKey :: "sai_meta \<Rightarrow> oid \<Rightarrow> meta_key \<Rightarrow> sai_attribute list \<Rightarrow> fault + string" where
  "constructKey h switchId metaKey attrs =
     (if switchId = SAI_NULL_OBJECT_ID then Inl (Throw ''switchId is NULL'')
      else bindE (construct_parts h (objecttype metaKey) attrs []) (\<lambda>ks.
             Inr (sai_serialize_object_id switchId @ '';'' @ concat (map (\<lambda>(k, s). s @ '';'') ks))))"

section \<open>The objects related to ports\<close>

text \<open>\<open>std::set<sai_object_id_t>\<close> as its sorted list of elements.\<close>

type_synonym port_related_set = "(oid, oid list) alist"

definition getPortRelatedObjects :: "port_related_set \<Rightarrow> oid \<Rightarrow> oid list" where
  "getPortRelatedObjects m portId = (case map_of m portId of None \<Rightarrow> [] | Some rel \<Rightarrow> rel)"

definition portrelated_insert :: "oid \<Rightarrow> oid \<Rightarrow> (port_related_set, unit) op" where
  "portrelated_insert portId relatedObjectId = (\<lambda>m.
     if relatedObjectId = SAI_NULL_OBJECT_ID then (Inr (), m)
     else if portId = SAI_NULL_OBJECT_ID then (Inl (Throw ''portId is NULL''), m)
     else (Inr (), AList.update portId
                     (insort_insert relatedObjectId (getPortRelatedObjects m portId)) m))"

definition removePort :: "oid \<Rightarrow> (port_related_set, unit) op" where
  "removePort portId = modify (AList.delete portId)"

definition getAllPorts :: "port_related_set \<Rightarrow> oid list" where
  "getAllPorts m = map fst m"

end
