(* ===== verification/Meta_Db.thy ===== *)
theory Meta_Db
  imports Object_Store
begin

text \<open>
  The state of the metadata layer (\<open>meta/Meta.h\<close>), the caching policy for DASH objects
  (\<open>meta/DashMeta.cpp\<close>), and the reads of the database the validations share.
\<close>

section \<open>The state\<close>

record meta_db =
  m_oids :: ref_counter
  m_saiObjectCollection :: object_collection
  m_attrKeys :: attr_key_map
  m_portRelatedSet :: port_related_set
  m_warmBoot :: bool
  m_unittestsEnabled :: bool
  m_meta_unittests_set_readonly_set :: "string set"

abbreviation on_oids :: "(ref_counter, 'a) op \<Rightarrow> (meta_db, 'a) op" where
  "on_oids \<equiv> zoom m_oids (\<lambda>x. m_oids_update (\<lambda>_. x))"

abbreviation on_objects :: "(object_collection, 'a) op \<Rightarrow> (meta_db, 'a) op" where
  "on_objects \<equiv> zoom m_saiObjectCollection (\<lambda>x. m_saiObjectCollection_update (\<lambda>_. x))"

abbreviation on_attrkeys :: "(attr_key_map, 'a) op \<Rightarrow> (meta_db, 'a) op" where
  "on_attrkeys \<equiv> zoom m_attrKeys (\<lambda>x. m_attrKeys_update (\<lambda>_. x))"

abbreviation on_ports :: "(port_related_set, 'a) op \<Rightarrow> (meta_db, 'a) op" where
  "on_ports \<equiv> zoom m_portRelatedSet (\<lambda>x. m_portRelatedSet_update (\<lambda>_. x))"

definition MAX_LIST_COUNT :: nat where
  "MAX_LIST_COUNT = 0x1000000"

text \<open>For evaluation: comparing with the limit as binary numbers.\<close>

lemma max_list_count_code [code_unfold]: "MAX_LIST_COUNT < n \<longleftrightarrow> 0x1000000 < int n"
  by (simp add: MAX_LIST_COUNT_def)

text \<open>The state the constructor leaves.\<close>

definition meta_new :: meta_db where
  "meta_new = \<lparr>m_oids = [], m_saiObjectCollection = [], m_attrKeys = [], m_portRelatedSet = [],
     m_warmBoot = False, m_unittestsEnabled = False, m_meta_unittests_set_readonly_set = {}\<rparr>"

definition meta_init_db :: "(meta_db, unit) op" where
  "meta_init_db = modify (\<lambda>s. s\<lparr>m_oids := [], m_saiObjectCollection := [], m_attrKeys := [],
     m_portRelatedSet := [], m_warmBoot := False\<rparr>)"

definition meta_warm_boot_notify :: "(meta_db, unit) op" where
  "meta_warm_boot_notify = modify (m_warmBoot_update (\<lambda>_. True))"

definition meta_isEmpty :: "meta_db \<Rightarrow> bool" where
  "meta_isEmpty s =
     (getAllPorts (m_portRelatedSet s) = [] \<and> getAllOids (m_oids s) = [] \<and>
      getAllKeys_attrkeys (m_attrKeys s) = [] \<and>
      getAllKeys_objects (m_saiObjectCollection s) = [])"

section \<open>The DASH caching policy\<close>

datatype dash_cache_mode = DASH_FULL | DASH_EXISTENCE_REFCOUNT | DASH_NONE

definition kDashCacheMode :: dash_cache_mode where
  "kDashCacheMode = DASH_EXISTENCE_REFCOUNT"

definition kDashTypes :: "sai_meta \<Rightarrow> object_type list" where
  "kDashTypes h = map (\<lambda>e. ot h (OT_ENTRY e))
     [OUTBOUND_CA_TO_PA_ENTRY, OUTBOUND_ROUTING_ENTRY, INBOUND_ROUTING_ENTRY, PA_VALIDATION_ENTRY]"

definition isDashObjectType :: "sai_meta \<Rightarrow> object_type \<Rightarrow> bool" where
  "isDashObjectType h t = (t \<in> set (kDashTypes h))"

definition bypassValidation :: "sai_meta \<Rightarrow> object_type \<Rightarrow> bool" where
  "bypassValidation h t = (if \<not> isDashObjectType h t then False else kDashCacheMode = DASH_NONE)"

definition shouldCacheAttribute :: "sai_meta \<Rightarrow> object_type \<Rightarrow> attr_md \<Rightarrow> bool" where
  "shouldCacheAttribute h t md =
     (if \<not> isDashObjectType h t then True
      else case kDashCacheMode of
        DASH_FULL \<Rightarrow> True
      | DASH_EXISTENCE_REFCOUNT \<Rightarrow> md_isoidattribute md
      | DASH_NONE \<Rightarrow> False)"

lemma bypassValidation_off [simp]: "bypassValidation h t = False"
  by (simp add: bypassValidation_def kDashCacheMode_def)

lemma shouldCache_iff: "shouldCacheAttribute h t md \<longleftrightarrow> isDashObjectType h t \<longrightarrow> md_isoidattribute md"
  by (simp add: shouldCacheAttribute_def kDashCacheMode_def)

section \<open>Reads of the database\<close>

definition get_object_previous_attr :: "meta_db \<Rightarrow> meta_key \<Rightarrow> attr_md \<Rightarrow> attr_wrapper option" where
  "get_object_previous_attr s metaKey md = getObjectAttr (m_saiObjectCollection s) metaKey (md_attrid md)"

text \<open>The vector of the metadata of all attributes; a type without info dereferences null.\<close>

definition get_attributes_metadata :: "sai_meta \<Rightarrow> object_type \<Rightarrow> fault + attr_md list" where
  "get_attributes_metadata h t =
     (case get_object_type_info h t of
        None \<Rightarrow> Inl (Null_Deref ''info'')
      | Some info \<Rightarrow> Inr (attrmetadata info))"

definition meta_extract_switch_id :: "sai_meta \<Rightarrow> meta_key \<Rightarrow> oid \<Rightarrow> fault + oid" where
  "meta_extract_switch_id h meta_key switch_id =
     (case get_object_type_info h (objecttype meta_key) of
        None \<Rightarrow> Inl (Null_Deref ''info'')
      | Some info \<Rightarrow> Inr (if isnonobjectid info then object_id meta_key else switch_id))"

text \<open>The test unit hook that lets a read-only attribute be set once.\<close>

definition meta_unittests_get_and_erase_set_readonly_flag :: "attr_md \<Rightarrow> (meta_db, bool) op" where
  "meta_unittests_get_and_erase_set_readonly_flag md = (\<lambda>s.
     if \<not> m_unittestsEnabled s then (Inr False, s)
     else if md_attridname md \<notin> m_meta_unittests_set_readonly_set s then (Inr False, s)
     else (Inr True, s\<lparr>m_meta_unittests_set_readonly_set :=
                         m_meta_unittests_set_readonly_set s - {md_attridname md}\<rparr>))"

definition meta_unittests_enable :: "bool \<Rightarrow> (meta_db, unit) op" where
  "meta_unittests_enable enable = modify (m_unittestsEnabled_update (\<lambda>_. enable))"

definition meta_unittests_allow_readonly_set_once ::
  "sai_meta \<Rightarrow> object_type \<Rightarrow> u32 \<Rightarrow> (meta_db, sai_status) op" where
  "meta_unittests_allow_readonly_set_once h object_type aid = (\<lambda>s.
     if \<not> m_unittestsEnabled s then (Inr SAI_STATUS_FAILURE, s)
     else case get_attr_metadata h object_type aid of
       None \<Rightarrow> (Inr SAI_STATUS_FAILURE, s)
     | Some md \<Rightarrow>
         if \<not> md_flag_read_only md then (Inr SAI_STATUS_FAILURE, s)
         else (Inr SAI_STATUS_SUCCESS, s\<lparr>m_meta_unittests_set_readonly_set :=
                 insert (md_attridname md) (m_meta_unittests_set_readonly_set s)\<rparr>))"

text \<open>Whether an attribute is one of the key attributes of its type.\<close>

definition attr_is_key :: "sai_meta \<Rightarrow> object_type \<Rightarrow> sai_attribute \<Rightarrow> bool" where
  "attr_is_key h t attr =
     (case get_attr_metadata h t (a_id attr) of None \<Rightarrow> False | Some md \<Rightarrow> md_flag_key md)"

section \<open>The references of an object\<close>

text \<open>
  What the code counts as a reference held by an attribute: the object ids read from it by its
  value type, those of an ACL field or action only when it is enabled.
\<close>

definition attr_ref_list :: "attr_md \<Rightarrow> attr_value \<Rightarrow> oid sai_list" where
  "attr_ref_list md v =
     (case md_attrvaluetype md of
        VT_OBJECT_ID \<Rightarrow> Sai_List [v_oid v]
      | VT_OBJECT_LIST \<Rightarrow> v_objlist v
      | VT_ACL_FIELD_DATA AD_OBJECT_ID \<Rightarrow>
          (if acl_enable (v_aclfield v) then Sai_List [acl_oid (v_aclfield v)] else Sai_List [])
      | VT_ACL_FIELD_DATA AD_OBJECT_LIST \<Rightarrow>
          (if acl_enable (v_aclfield v) then acl_objlist (v_aclfield v) else Sai_List [])
      | VT_ACL_ACTION_DATA AD_OBJECT_ID \<Rightarrow>
          (if acl_enable (v_aclaction v) then Sai_List [acl_oid (v_aclaction v)] else Sai_List [])
      | VT_ACL_ACTION_DATA AD_OBJECT_LIST \<Rightarrow>
          (if acl_enable (v_aclaction v) then acl_objlist (v_aclaction v) else Sai_List [])
      | _ \<Rightarrow> Sai_List [])"

text \<open>The elements of a list that can be run over.\<close>

definition list_ok :: "'a sai_list \<Rightarrow> bool" where
  "list_ok l \<longleftrightarrow> (\<exists>xs. list_elems l = Inr xs)"

definition elems :: "'a sai_list \<Rightarrow> 'a list" where
  "elems l = (case list_elems l of Inl e \<Rightarrow> [] | Inr xs \<Rightarrow> xs)"

lemma elems_simps [simp]: "elems (Sai_List xs) = xs" "elems (Null_List n) = []"
  by (auto simp: elems_def)

lemma list_ok_simps [simp]: "list_ok (Sai_List xs)" "list_ok (Null_List n) \<longleftrightarrow> n = 0"
  by (auto simp: list_ok_def)

lemma list_ok_elems: "list_ok l \<Longrightarrow> list_elems l = Inr (elems l)"
  by (auto simp: list_ok_def elems_def)

definition attr_refs :: "attr_md \<Rightarrow> attr_value \<Rightarrow> oid list" where
  "attr_refs md v = elems (attr_ref_list md v)"

definition wrapper_refs :: "attr_wrapper \<Rightarrow> oid list" where
  "wrapper_refs w = attr_refs (w_meta w) (a_value (w_attr w))"

text \<open>The object ids of an entry key, which count as references too.\<close>

definition member_oids :: "sai_meta \<Rightarrow> meta_key \<Rightarrow> oid list" where
  "member_oids h key =
     (case get_object_type_info h (objecttype key) of
        None \<Rightarrow> []
      | Some info \<Rightarrow>
          if isnonobjectid info
          then map (\<lambda>m. sm_getoid m key)
                 (filter (\<lambda>m. sm_membervaluetype m = VT_OBJECT_ID) (structmembers info))
          else [])"

definition attrs_refs_count :: "(u32, attr_wrapper) alist \<Rightarrow> oid \<Rightarrow> nat" where
  "attrs_refs_count attrs oid = alist_sum (\<lambda>_ w. count_list (wrapper_refs w) oid) attrs"

definition object_refs_count :: "sai_meta \<Rightarrow> meta_key \<Rightarrow> sai_object \<Rightarrow> oid \<Rightarrow> nat" where
  "object_refs_count h key obj oid =
     count_list (member_oids h key) oid + attrs_refs_count (m_attrs obj) oid"

text \<open>The number of references to an id in the whole database.\<close>

definition total_refs :: "sai_meta \<Rightarrow> object_collection \<Rightarrow> oid \<Rightarrow> nat" where
  "total_refs h c oid = alist_sum (\<lambda>key obj. object_refs_count h key obj oid) c"

end
