(* ===== verification/Meta_Validate.thy ===== *)
theory Meta_Validate
  imports Meta_Db
begin

text \<open>
  The validations of \<open>meta/Meta.cpp\<close> that run before the interface below is called: of single values,
  of object ids and entry structures, and the generic ones of create, set, get and remove.
\<close>

abbreviation (input) INVALID :: checked where
  "INVALID \<equiv> Inr SAI_STATUS_INVALID_PARAMETER"

section \<open>Lists\<close>

definition meta_genetic_validation_list :: "nat \<Rightarrow> bool \<Rightarrow> checked" where
  "meta_genetic_validation_list count null =
     (if MAX_LIST_COUNT < count then INVALID
      else if count = 0 \<and> \<not> null then INVALID
      else if null then (if count = 0 then ok else INVALID)
      else ok)"

definition VALIDATION_LIST :: "'a sai_list \<Rightarrow> checked" where
  "VALIDATION_LIST l = meta_genetic_validation_list (list_count l) (list_null l)"

definition VALIDATION_LIST_header :: "nat \<times> bool \<Rightarrow> checked" where
  "VALIDATION_LIST_header header = meta_genetic_validation_list (fst header) (snd header)"

text \<open>
  The loop of \<open>meta_generic_validation_objlist\<close>: the index, the ids seen so far and the type of the
  last id looked at.
\<close>

fun objlist_loop ::
  "sai_meta \<Rightarrow> meta_db \<Rightarrow> attr_md \<Rightarrow> oid \<Rightarrow> nat \<Rightarrow> oid list \<Rightarrow> object_type \<Rightarrow> oid list \<Rightarrow> checked" where
  "objlist_loop h s md switch_id i oids object_type [] = ok"
| "objlist_loop h s md switch_id i oids object_type (oid # rest) =
     (if oid \<in> set oids then INVALID
      else if oid = SAI_NULL_OBJECT_ID then
        (if md_allownullobjectid md then objlist_loop h s md switch_id (Suc i) oids object_type rest
         else INVALID)
      else
        let ty = objectTypeQuery h oid; query_switch_id = switchIdQuery h oid
        in if ty = SAI_OBJECT_TYPE_NULL then INVALID
           else if \<not> is_allowed_object_type h md ty then INVALID
           else if \<not> objectReferenceExists (m_oids s) oid then INVALID
           else if 1 < i \<and> object_type \<noteq> ty then INVALID
           else if \<not> objectReferenceExists (m_oids s) query_switch_id then INVALID
           else if query_switch_id \<noteq> switch_id then INVALID
           else objlist_loop h s md switch_id (Suc i) (oid # oids) ty rest)"

definition meta_generic_validation_objlist ::
  "sai_meta \<Rightarrow> meta_db \<Rightarrow> attr_md \<Rightarrow> oid \<Rightarrow> oid sai_list \<Rightarrow> checked" where
  "meta_generic_validation_objlist h s md switch_id l =
     (if MAX_LIST_COUNT < list_count l then INVALID
      else case l of
        Null_List n \<Rightarrow> (if n = 0 then ok else INVALID)
      | Sai_List xs \<Rightarrow> objlist_loop h s md switch_id 0 [] SAI_OBJECT_TYPE_NULL xs)"

section \<open>Single values\<close>

text \<open>\<open>strnlen\<close>, and the 32 bytes of \<open>sai_attribute_value_t::chardata\<close>.\<close>

definition strnlen :: "8 word list \<Rightarrow> nat \<Rightarrow> nat" where
  "strnlen cs n = length (takeWhile (\<lambda>c. c \<noteq> 0) (take n cs))"

definition chardata_size :: nat where
  "chardata_size = 32"

definition meta_generic_validation_chardata :: "8 word list \<Rightarrow> checked" where
  "meta_generic_validation_chardata chardata =
     check_all (\<lambda>c. if c < 0x20 \<or> c > 0x7e then INVALID else ok)
       (take (strnlen chardata chardata_size) chardata)"

definition meta_hostif_chardata_validation :: "sai_meta \<Rightarrow> attr_md \<Rightarrow> 8 word list \<Rightarrow> checked" where
  "meta_hostif_chardata_validation h md chardata =
     (let name_check = (\<lambda>name_size. let name_len = strnlen chardata name_size
            in if name_len = name_size then INVALID else if name_len = 0 then INVALID else ok)
      in if md_attrid md = attr_id h HOSTIF_ATTR_NAME
         then name_check (unat (const h HOSTIF_NAME_SIZE))
         else if md_attrid md = attr_id h HOSTIF_ATTR_GENETLINK_MCGRP_NAME
         then name_check (unat (const h HOSTIF_GENETLINK_MCGRP_NAME_SIZE))
         else status SAI_STATUS_FAILURE)"

definition family_check :: "sai_meta \<Rightarrow> u32 \<Rightarrow> checked" where
  "family_check h family =
     (if family = const h IP_ADDR_FAMILY_IPV4 \<or> family = const h IP_ADDR_FAMILY_IPV6 then ok else INVALID)"

definition range_check :: "'a::len word \<times> 'a word \<Rightarrow> checked" where
  "range_check r = (if fst r > snd r then INVALID else ok)"

definition signed_range_check :: "32 word \<times> 32 word \<Rightarrow> checked" where
  "signed_range_check r = (if sint (fst r) > sint (snd r) then INVALID else ok)"

definition range_list_check :: "('a::len word \<times> 'a word) sai_list \<Rightarrow> checked" where
  "range_list_check l = check_then (VALIDATION_LIST l) (check_all range_check (elems l))"

text \<open>The value an enum attribute holds, and the checks of enum values common to create and set.\<close>

definition enum_value :: "attr_md \<Rightarrow> attr_value \<Rightarrow> 32 word" where
  "enum_value md v =
     (case md_attrvaluetype md of
        VT_ACL_FIELD_DATA AD_INT32 \<Rightarrow> acl_s32 (v_aclfield v)
      | VT_ACL_ACTION_DATA AD_INT32 \<Rightarrow> acl_s32 (v_aclaction v)
      | _ \<Rightarrow> v_s32 v)"

definition enum_check :: "sai_meta \<Rightarrow> attr_md \<Rightarrow> attr_value \<Rightarrow> checked" where
  "enum_check h md v =
     (if md_isenum md \<and> \<not> is_allowed_enum_value h md (enum_value md v) then INVALID else ok)"

text \<open>The loop runs from the count to the count: \<open>for (i = count; i < count; ++i)\<close>.\<close>

definition enum_list_check :: "sai_meta \<Rightarrow> attr_md \<Rightarrow> attr_value \<Rightarrow> checked" where
  "enum_list_check h md v =
     (if \<not> md_isenumlist md then ok
      else if list_count (v_s32list v) \<noteq> 0 \<and> list_null (v_s32list v) then INVALID
      else check_all (\<lambda>i. if \<not> is_allowed_enum_value h md (elems (v_s32list v) ! i) then INVALID else ok)
             [list_count (v_s32list v) ..< list_count (v_s32list v)])"

section \<open>Object ids\<close>

text \<open>The pointer to the object id is \<open>None\<close> when it is null.\<close>

definition meta_sai_validate_oid ::
  "sai_meta \<Rightarrow> meta_db \<Rightarrow> object_type \<Rightarrow> oid option \<Rightarrow> bool \<Rightarrow> checked" where
  "meta_sai_validate_oid h s object_type oid_ptr create =
     (case get_object_type_info h object_type of
        None \<Rightarrow> INVALID
      | Some info \<Rightarrow>
          if isnonobjectid info then Inl (Throw ''invalid object type specified as generic'')
          else case oid_ptr of
            None \<Rightarrow> INVALID
          | Some oid \<Rightarrow>
              if create then ok
              else if oid = SAI_NULL_OBJECT_ID then INVALID
              else if objectTypeQuery h oid = SAI_OBJECT_TYPE_NULL then INVALID
              else if objectTypeQuery h oid \<noteq> object_type then INVALID
              else if \<not> objectExists (m_saiObjectCollection s) (oid_key object_type oid)
                   then status SAI_STATUS_ITEM_NOT_FOUND
              else ok)"

section \<open>Entry structures\<close>

text \<open>The last step of most: an entry to create must not exist, any other must.\<close>

definition entry_lookup :: "meta_db \<Rightarrow> meta_key \<Rightarrow> bool \<Rightarrow> checked" where
  "entry_lookup s key create =
     (if create
      then (if objectExists (m_saiObjectCollection s) key then status SAI_STATUS_ITEM_ALREADY_EXISTS else ok)
      else if \<not> objectExists (m_saiObjectCollection s) key then status SAI_STATUS_ITEM_NOT_FOUND
      else ok)"

text \<open>The same for the forwarding databases, where a get may ask for an entry that is not there.\<close>

definition fdb_lookup :: "meta_db \<Rightarrow> meta_key \<Rightarrow> bool \<Rightarrow> bool \<Rightarrow> checked" where
  "fdb_lookup s key create get =
     (if create
      then (if objectExists (m_saiObjectCollection s) key then status SAI_STATUS_ITEM_ALREADY_EXISTS else ok)
      else if \<not> objectExists (m_saiObjectCollection s) key \<and> \<not> get then status SAI_STATUS_ITEM_NOT_FOUND
      else ok)"

text \<open>An object id member that must be an existing object of one of some types.\<close>

definition member_check :: "sai_meta \<Rightarrow> meta_db \<Rightarrow> oid \<Rightarrow> object_type list \<Rightarrow> checked" where
  "member_check h s oid types =
     (if oid = SAI_NULL_OBJECT_ID then INVALID
      else if objectTypeQuery h oid = SAI_OBJECT_TYPE_NULL then INVALID
      else if objectTypeQuery h oid \<notin> set types then INVALID
      else if \<not> objectExists (m_saiObjectCollection s) (oid_key (objectTypeQuery h oid) oid)
           then status SAI_STATUS_ITEM_NOT_FOUND
      else ok)"

definition meta_sai_validate_fdb_entry ::
  "sai_meta \<Rightarrow> meta_db \<Rightarrow> meta_key option \<Rightarrow> bool \<Rightarrow> bool \<Rightarrow> checked" where
  "meta_sai_validate_fdb_entry h s entry create get =
     (if create \<and> get then Inl (Throw ''can't be create and get at the same time'')
      else case entry of None \<Rightarrow> INVALID | Some key \<Rightarrow> fdb_lookup s key create get)"

definition meta_sai_validate_mcast_fdb_entry ::
  "sai_meta \<Rightarrow> meta_db \<Rightarrow> meta_key option \<Rightarrow> bool \<Rightarrow> bool \<Rightarrow> checked" where
  "meta_sai_validate_mcast_fdb_entry h s entry create get =
     (case entry of None \<Rightarrow> INVALID
      | Some key \<Rightarrow> check_then (member_check h s (k_bv_id key) [ot h OT_BRIDGE, ot h OT_VLAN])
                      (fdb_lookup s key create get))"

definition meta_sai_validate_neighbor_entry ::
  "sai_meta \<Rightarrow> meta_db \<Rightarrow> meta_key option \<Rightarrow> bool \<Rightarrow> checked" where
  "meta_sai_validate_neighbor_entry h s entry create =
     (case entry of None \<Rightarrow> INVALID
      | Some key \<Rightarrow>
          check_then (family_check h (k_ip_family key))
            (check_then (member_check h s (k_rif_id key) [ot h OT_ROUTER_INTERFACE])
              (entry_lookup s key create)))"

text \<open>
  \<open>is_ipv6_mask_valid\<close>: the 128 bits of the mask, most significant of each byte first, and the flag
  that a zero has been seen.
\<close>

fun mask_bits_valid :: "bool \<Rightarrow> bool list \<Rightarrow> bool" where
  "mask_bits_valid zeros [] = True"
| "mask_bits_valid zeros (b # bs) = (if zeros \<and> b then False else mask_bits_valid (zeros \<or> \<not> b) bs)"

definition mask_bits :: "8 word list \<Rightarrow> bool list" where
  "mask_bits mask6 = map (\<lambda>i. bit (mask6 ! (i div 8)) (7 - i mod 8)) [0 ..< 128]"

definition is_ipv6_mask_valid :: "8 word list \<Rightarrow> bool" where
  "is_ipv6_mask_valid mask6 = mask_bits_valid False (mask_bits mask6)"

definition meta_sai_validate_route_entry ::
  "sai_meta \<Rightarrow> meta_db \<Rightarrow> meta_key option \<Rightarrow> bool \<Rightarrow> checked" where
  "meta_sai_validate_route_entry h s entry create =
     (case entry of None \<Rightarrow> INVALID
      | Some key \<Rightarrow>
          check_then
            (if k_destination_family key = const h IP_ADDR_FAMILY_IPV4 then ok
             else if k_destination_family key = const h IP_ADDR_FAMILY_IPV6
             then (if \<not> is_ipv6_mask_valid (k_destination_mask6 key) then INVALID else ok)
             else INVALID)
            (check_then (member_check h s (k_vr_id key) [ot h OT_VIRTUAL_ROUTER])
              (entry_lookup s key create)))"

definition meta_sai_validate_l2mc_entry ::
  "sai_meta \<Rightarrow> meta_db \<Rightarrow> meta_key option \<Rightarrow> bool \<Rightarrow> checked" where
  "meta_sai_validate_l2mc_entry h s entry create =
     (case entry of None \<Rightarrow> INVALID
      | Some key \<Rightarrow>
          if k_type key \<noteq> const h L2MC_ENTRY_TYPE_SG \<and> k_type key \<noteq> const h L2MC_ENTRY_TYPE_XG then INVALID
          else check_then (family_check h (k_destination_family key))
            (check_then (family_check h (k_source_family key))
              (check_then (member_check h s (k_bv_id key) [ot h OT_BRIDGE, ot h OT_VLAN])
                (entry_lookup s key create))))"

definition meta_sai_validate_ipmc_entry ::
  "sai_meta \<Rightarrow> meta_db \<Rightarrow> meta_key option \<Rightarrow> bool \<Rightarrow> checked" where
  "meta_sai_validate_ipmc_entry h s entry create =
     (case entry of None \<Rightarrow> INVALID
      | Some key \<Rightarrow>
          if k_type key \<noteq> const h IPMC_ENTRY_TYPE_SG \<and> k_type key \<noteq> const h IPMC_ENTRY_TYPE_XG then INVALID
          else check_then (family_check h (k_destination_family key))
            (check_then (family_check h (k_source_family key))
              (check_then (member_check h s (k_vr_id key) [ot h OT_VIRTUAL_ROUTER])
                (entry_lookup s key create))))"

text \<open>\<open>meta_sai_validate_nat_entry\<close> and \<open>meta_sai_validate_my_sid_entry\<close>.\<close>

definition meta_sai_validate_vr_entry ::
  "sai_meta \<Rightarrow> meta_db \<Rightarrow> meta_key option \<Rightarrow> bool \<Rightarrow> checked" where
  "meta_sai_validate_vr_entry h s entry create =
     (case entry of None \<Rightarrow> INVALID
      | Some key \<Rightarrow> check_then (member_check h s (k_vr_id key) [ot h OT_VIRTUAL_ROUTER])
                      (entry_lookup s key create))"

text \<open>The direction lookup, ether address map, VIP and PA validation entries.\<close>

definition meta_sai_validate_plain_entry :: "meta_db \<Rightarrow> meta_key option \<Rightarrow> bool \<Rightarrow> checked" where
  "meta_sai_validate_plain_entry s entry create =
     (case entry of None \<Rightarrow> INVALID | Some key \<Rightarrow> entry_lookup s key create)"

text \<open>The inbound and outbound routing and the CA to PA entries, which the DASH policy may bypass.\<close>

definition meta_sai_validate_dash_entry ::
  "sai_meta \<Rightarrow> meta_db \<Rightarrow> object_type \<Rightarrow> meta_key option \<Rightarrow> bool \<Rightarrow> checked" where
  "meta_sai_validate_dash_entry h s object_type entry create =
     (case entry of None \<Rightarrow> INVALID
      | Some key \<Rightarrow> if bypassValidation h object_type then ok else entry_lookup s key create)"

text \<open>Entries of which only the pointer is checked, and those not implemented.\<close>

definition meta_sai_validate_entry_pointer :: "meta_key option \<Rightarrow> sai_status \<Rightarrow> checked" where
  "meta_sai_validate_entry_pointer entry st = (case entry of None \<Rightarrow> INVALID | Some key \<Rightarrow> status st)"

text \<open>The validation of each of these entry types.\<close>

definition meta_sai_validate_nat_entry :: "sai_meta \<Rightarrow> meta_db \<Rightarrow> meta_key option \<Rightarrow> bool \<Rightarrow> checked" where
  "meta_sai_validate_nat_entry h s entry create = meta_sai_validate_vr_entry h s entry create"

definition meta_sai_validate_my_sid_entry :: "sai_meta \<Rightarrow> meta_db \<Rightarrow> meta_key option \<Rightarrow> bool \<Rightarrow> checked" where
  "meta_sai_validate_my_sid_entry h s entry create = meta_sai_validate_vr_entry h s entry create"

definition meta_sai_validate_direction_lookup_entry :: "meta_db \<Rightarrow> meta_key option \<Rightarrow> bool \<Rightarrow> checked" where
  "meta_sai_validate_direction_lookup_entry s entry create =
     meta_sai_validate_plain_entry s entry create"

definition meta_sai_validate_eni_ether_address_map_entry :: "meta_db \<Rightarrow> meta_key option \<Rightarrow> bool \<Rightarrow> checked" where
  "meta_sai_validate_eni_ether_address_map_entry s entry create =
     meta_sai_validate_plain_entry s entry create"

definition meta_sai_validate_vip_entry :: "meta_db \<Rightarrow> meta_key option \<Rightarrow> bool \<Rightarrow> checked" where
  "meta_sai_validate_vip_entry s entry create = meta_sai_validate_plain_entry s entry create"

definition meta_sai_validate_pa_validation_entry :: "meta_db \<Rightarrow> meta_key option \<Rightarrow> bool \<Rightarrow> checked" where
  "meta_sai_validate_pa_validation_entry s entry create =
     meta_sai_validate_plain_entry s entry create"

definition meta_sai_validate_inbound_routing_entry :: "sai_meta \<Rightarrow> meta_db \<Rightarrow> meta_key option \<Rightarrow> bool \<Rightarrow> checked" where
  "meta_sai_validate_inbound_routing_entry h s entry create =
     meta_sai_validate_dash_entry h s (ot h (OT_ENTRY INBOUND_ROUTING_ENTRY)) entry create"

definition meta_sai_validate_outbound_routing_entry :: "sai_meta \<Rightarrow> meta_db \<Rightarrow> meta_key option \<Rightarrow> bool \<Rightarrow> checked" where
  "meta_sai_validate_outbound_routing_entry h s entry create =
     meta_sai_validate_dash_entry h s (ot h (OT_ENTRY OUTBOUND_ROUTING_ENTRY)) entry create"

definition meta_sai_validate_outbound_ca_to_pa_entry :: "sai_meta \<Rightarrow> meta_db \<Rightarrow> meta_key option \<Rightarrow> bool \<Rightarrow> checked" where
  "meta_sai_validate_outbound_ca_to_pa_entry h s entry create =
     meta_sai_validate_dash_entry h s (ot h (OT_ENTRY OUTBOUND_CA_TO_PA_ENTRY)) entry create"

definition meta_sai_validate_inseg_entry :: "meta_key option \<Rightarrow> checked" where
  "meta_sai_validate_inseg_entry entry = meta_sai_validate_entry_pointer entry SAI_STATUS_SUCCESS"

definition meta_sai_validate_outbound_port_map_port_range_entry :: "meta_key option \<Rightarrow> checked" where
  "meta_sai_validate_outbound_port_map_port_range_entry entry =
     meta_sai_validate_entry_pointer entry SAI_STATUS_SUCCESS"

definition meta_sai_validate_global_trusted_vni_entry :: "meta_key option \<Rightarrow> checked" where
  "meta_sai_validate_global_trusted_vni_entry entry =
     meta_sai_validate_entry_pointer entry SAI_STATUS_SUCCESS"

definition meta_sai_validate_eni_trusted_vni_entry :: "meta_key option \<Rightarrow> checked" where
  "meta_sai_validate_eni_trusted_vni_entry entry =
     meta_sai_validate_entry_pointer entry SAI_STATUS_SUCCESS"

definition meta_sai_validate_flow_entry :: "meta_key option \<Rightarrow> checked" where
  "meta_sai_validate_flow_entry entry =
     meta_sai_validate_entry_pointer entry SAI_STATUS_NOT_IMPLEMENTED"

definition meta_sai_validate_meter_bucket_entry :: "meta_key option \<Rightarrow> checked" where
  "meta_sai_validate_meter_bucket_entry entry =
     meta_sai_validate_entry_pointer entry SAI_STATUS_NOT_IMPLEMENTED"

definition meta_sai_validate_prefix_compression_entry :: "meta_key option \<Rightarrow> checked" where
  "meta_sai_validate_prefix_compression_entry entry =
     meta_sai_validate_entry_pointer entry SAI_STATUS_NOT_IMPLEMENTED"

definition meta_sai_validate_entry ::
  "sai_meta \<Rightarrow> meta_db \<Rightarrow> entry_name \<Rightarrow> meta_key option \<Rightarrow> bool \<Rightarrow> bool \<Rightarrow> checked" where
  "meta_sai_validate_entry h s kind entry create get =
     (case kind of
        FDB_ENTRY \<Rightarrow> meta_sai_validate_fdb_entry h s entry create get
      | MCAST_FDB_ENTRY \<Rightarrow> meta_sai_validate_mcast_fdb_entry h s entry create get
      | NEIGHBOR_ENTRY \<Rightarrow> meta_sai_validate_neighbor_entry h s entry create
      | ROUTE_ENTRY \<Rightarrow> meta_sai_validate_route_entry h s entry create
      | L2MC_ENTRY \<Rightarrow> meta_sai_validate_l2mc_entry h s entry create
      | IPMC_ENTRY \<Rightarrow> meta_sai_validate_ipmc_entry h s entry create
      | NAT_ENTRY \<Rightarrow> meta_sai_validate_nat_entry h s entry create
      | MY_SID_ENTRY \<Rightarrow> meta_sai_validate_my_sid_entry h s entry create
      | DIRECTION_LOOKUP_ENTRY \<Rightarrow> meta_sai_validate_direction_lookup_entry s entry create
      | ENI_ETHER_ADDRESS_MAP_ENTRY \<Rightarrow> meta_sai_validate_eni_ether_address_map_entry s entry create
      | VIP_ENTRY \<Rightarrow> meta_sai_validate_vip_entry s entry create
      | PA_VALIDATION_ENTRY \<Rightarrow> meta_sai_validate_pa_validation_entry s entry create
      | INBOUND_ROUTING_ENTRY \<Rightarrow> meta_sai_validate_inbound_routing_entry h s entry create
      | OUTBOUND_ROUTING_ENTRY \<Rightarrow> meta_sai_validate_outbound_routing_entry h s entry create
      | OUTBOUND_CA_TO_PA_ENTRY \<Rightarrow> meta_sai_validate_outbound_ca_to_pa_entry h s entry create
      | INSEG_ENTRY \<Rightarrow> meta_sai_validate_inseg_entry entry
      | OUTBOUND_PORT_MAP_PORT_RANGE_ENTRY \<Rightarrow> meta_sai_validate_outbound_port_map_port_range_entry entry
      | GLOBAL_TRUSTED_VNI_ENTRY \<Rightarrow> meta_sai_validate_global_trusted_vni_entry entry
      | ENI_TRUSTED_VNI_ENTRY \<Rightarrow> meta_sai_validate_eni_trusted_vni_entry entry
      | FLOW_ENTRY \<Rightarrow> meta_sai_validate_flow_entry entry
      | METER_BUCKET_ENTRY \<Rightarrow> meta_sai_validate_meter_bucket_entry entry
      | PREFIX_COMPRESSION_ENTRY \<Rightarrow> meta_sai_validate_prefix_compression_entry entry)"

end
