(* ===== verification/Meta_Generic.thy ===== *)
theory Meta_Generic
  imports Meta_Validate
begin

text \<open>
  The generic validations of \<open>meta/Meta.cpp\<close>: \<open>meta_generic_validation_create\<close>, \<open>..._set\<close>, \<open>..._get\<close>
  and \<open>..._remove\<close>, with the steps each consists of.
\<close>

section \<open>Create\<close>

text \<open>
  The switch over the value type on create. The types it does not name reach the \<open>default\<close> branch
  and throw.
\<close>

definition create_value_check :: "sai_meta \<Rightarrow> meta_db \<Rightarrow> attr_md \<Rightarrow> oid \<Rightarrow> attr_value \<Rightarrow> checked" where
  "create_value_check h s md switch_id v =
     (case md_attrvaluetype md of
        VT_CHARDATA \<Rightarrow>
          check_then (meta_generic_validation_chardata (v_chardata v))
            (if md_objecttype md = ot h OT_HOSTIF \<and>
                (md_attrid md = attr_id h HOSTIF_ATTR_NAME \<or>
                 md_attrid md = attr_id h HOSTIF_ATTR_GENETLINK_MCGRP_NAME)
             then meta_hostif_chardata_validation h md (v_chardata v) else ok)
      | VT_PRIM p \<Rightarrow> ok
      | VT_IP_ADDRESS \<Rightarrow> family_check h (v_ipaddr_family v)
      | VT_OBJECT_ID \<Rightarrow> meta_generic_validation_objlist h s md switch_id (Sai_List [v_oid v])
      | VT_OBJECT_LIST \<Rightarrow> meta_generic_validation_objlist h s md switch_id (v_objlist v)
      | VT_ACL_FIELD_DATA d \<Rightarrow>
          (if d = AD_OBJECT_ID then
             (if \<not> acl_enable (v_aclfield v) then ok
              else meta_generic_validation_objlist h s md switch_id (Sai_List [acl_oid (v_aclfield v)]))
           else if d = AD_OBJECT_LIST then
             (if \<not> acl_enable (v_aclfield v) then ok
              else meta_generic_validation_objlist h s md switch_id (acl_objlist (v_aclfield v)))
           else if d = AD_UINT8_LIST then Inl (Throw ''serialization type is not supported yet FIXME'')
           else ok)
      | VT_ACL_ACTION_DATA d \<Rightarrow>
          (if d = AD_OBJECT_ID then
             (if \<not> acl_enable (v_aclaction v) then ok
              else meta_generic_validation_objlist h s md switch_id (Sai_List [acl_oid (v_aclaction v)]))
           else if d = AD_OBJECT_LIST then
             (if \<not> acl_enable (v_aclaction v) then ok
              else meta_generic_validation_objlist h s md switch_id (acl_objlist (v_aclaction v)))
           else if d = AD_UINT64 \<or> d = AD_UINT8_LIST then Inl (Throw ''serialization type is not supported yet FIXME'')
           else ok)
      | VT_LIST l \<Rightarrow> VALIDATION_LIST_header (list_header v l)
      | VT_UINT16_RANGE_LIST \<Rightarrow> range_list_check (v_u16rangelist v)
      | VT_UINT64_RANGE_LIST \<Rightarrow> range_list_check (v_u64rangelist v)
      | VT_RANGE r \<Rightarrow>
          (if r = RT_UINT32 then range_check (v_u32range v)
           else if r = RT_INT32 then signed_range_check (v_s32range v)
           else Inl (Throw ''serialization type is not supported yet FIXME''))
      | VT_IP_PREFIX \<Rightarrow> family_check h (v_ipprefix_family v)
      | VT_MACSEC k \<Rightarrow> ok
      | VT_SYSTEM_PORT_CONFIG \<Rightarrow> ok
      | VT_VLAN_LIST \<Rightarrow> Inl (Throw ''serialization type is not supported yet FIXME'')
      | VT_ACL_CAPABILITY \<Rightarrow> Inl (Throw ''serialization type is not supported yet FIXME'')
      | VT_OTHER n \<Rightarrow> Inl (Throw ''serialization type is not supported yet FIXME''))"

text \<open>One round of the loop over the attributes; \<open>attrs\<close> are the ids seen before.\<close>

definition create_attr_check ::
  "sai_meta \<Rightarrow> meta_db \<Rightarrow> meta_key \<Rightarrow> oid \<Rightarrow> u32 list \<Rightarrow> sai_attribute \<Rightarrow> checked" where
  "create_attr_check h s meta_key switch_id attrs attr =
     (case get_attr_metadata h (objecttype meta_key) (a_id attr) of
        None \<Rightarrow> status SAI_STATUS_FAILURE
      | Some md \<Rightarrow>
          if a_id attr \<in> set attrs then INVALID
          else if md_flag_read_only md then INVALID
          else check_then (create_value_check h s md switch_id (a_value attr))
                (check_then (enum_check h md (a_value attr)) (enum_list_check h md (a_value attr))))"

fun create_attrs_check ::
  "sai_meta \<Rightarrow> meta_db \<Rightarrow> meta_key \<Rightarrow> oid \<Rightarrow> u32 list \<Rightarrow> sai_attribute list \<Rightarrow> checked" where
  "create_attrs_check h s meta_key switch_id attrs [] = ok"
| "create_attrs_check h s meta_key switch_id attrs (attr # rest) =
     check_then (create_attr_check h s meta_key switch_id attrs attr)
       (create_attrs_check h s meta_key switch_id (a_id attr # attrs) rest)"

text \<open>Creating a switch: no object id attributes.\<close>

definition create_switch_check :: "sai_meta \<Rightarrow> sai_attribute list \<Rightarrow> checked" where
  "create_switch_check h attr_list =
     check_all (\<lambda>attr. case get_attr_metadata h (ot_switch h) (a_id attr) of
         None \<Rightarrow> INVALID
       | Some meta \<Rightarrow> if md_isoidattribute meta then INVALID else ok) attr_list"

text \<open>Creating anything else: on a switch that exists.\<close>

definition create_on_switch_check :: "sai_meta \<Rightarrow> meta_db \<Rightarrow> oid \<Rightarrow> checked" where
  "create_on_switch_check h s switch_id =
     (if switch_id = SAI_NULL_OBJECT_ID then INVALID
      else if objectTypeQuery h switch_id \<noteq> ot_switch h then INVALID
      else if \<not> objectExists (m_saiObjectCollection s) (oid_key (ot_switch h) switch_id) then INVALID
      else if \<not> objectReferenceExists (m_oids s) switch_id then INVALID
      else ok)"

definition non_object_member_check ::
  "sai_meta \<Rightarrow> meta_db \<Rightarrow> meta_key \<Rightarrow> oid \<Rightarrow> struct_member \<Rightarrow> checked" where
  "non_object_member_check h s meta_key switch_id m =
     (if sm_membervaluetype m \<noteq> VT_OBJECT_ID then ok
      else
        let oid = sm_getoid m meta_key
        in if oid = SAI_NULL_OBJECT_ID then INVALID
           else if \<not> objectReferenceExists (m_oids s) oid then INVALID
           else if objectTypeQuery h oid \<notin> set (sm_allowedobjecttypes m) then INVALID
           else if \<not> objectReferenceExists (m_oids s) (switchIdQuery h oid) then INVALID
           else if switch_id \<noteq> switchIdQuery h oid then INVALID
           else ok)"

definition meta_generic_validate_non_object_on_create ::
  "sai_meta \<Rightarrow> meta_db \<Rightarrow> meta_key \<Rightarrow> oid \<Rightarrow> checked" where
  "meta_generic_validate_non_object_on_create h s meta_key switch_id =
     (case get_object_type_info h (objecttype meta_key) of
        None \<Rightarrow> Inl (Null_Deref ''info'')
      | Some info \<Rightarrow>
          if \<not> isnonobjectid info then ok
          else check_all (non_object_member_check h s meta_key switch_id) (structmembers info))"

text \<open>
  The threshold attributes of a buffer profile are mandatory when the pool it refers to has their mode.
\<close>

definition buffer_profile_mandatory ::
  "sai_meta \<Rightarrow> meta_db \<Rightarrow> sai_attribute list \<Rightarrow> attr_md \<Rightarrow> fault + (sai_status + bool)" where
  "buffer_profile_mandatory h s attr_list md =
     (case get_attr_by_id h (attr_id h BUFFER_PROFILE_ATTR_POOL_ID) attr_list of
        None \<Rightarrow> Inr (Inl SAI_STATUS_MANDATORY_ATTRIBUTE_MISSING)
      | Some pool_id_attr \<Rightarrow>
          let pool_id = v_oid (a_value pool_id_attr) in
          if pool_id = SAI_NULL_OBJECT_ID then Inr (Inr False)
          else case get_attr_metadata h (ot h OT_BUFFER_POOL) (attr_id h BUFFER_POOL_ATTR_THRESHOLD_MODE) of
            None \<Rightarrow> Inl (Null_Deref ''pool_md'')
          | Some pool_md \<Rightarrow>
              let mode = (case get_object_previous_attr s (oid_key (ot h OT_BUFFER_POOL) pool_id) pool_md of
                            None \<Rightarrow> md_default_s32 pool_md
                          | Some prev \<Rightarrow> v_s32 (a_value (w_attr prev)))
              in Inr (Inr (mode = const h BUFFER_POOL_THRESHOLD_MODE_DYNAMIC \<and>
                             md_attrid md = attr_id h BUFFER_PROFILE_ATTR_SHARED_DYNAMIC_TH \<or>
                           mode = const h BUFFER_POOL_THRESHOLD_MODE_STATIC \<and>
                             md_attrid md = attr_id h BUFFER_PROFILE_ATTR_SHARED_STATIC_TH)))"

definition mandatory_check ::
  "sai_meta \<Rightarrow> meta_db \<Rightarrow> sai_attribute list \<Rightarrow> attr_md \<Rightarrow> checked" where
  "mandatory_check h s attr_list md =
     (let missing = (if md_attrid md = attr_id h ACL_TABLE_ATTR_FIELD_ACL_RANGE_TYPE \<and>
                        md_objecttype md = ot h OT_ACL_TABLE
                     then ok else status SAI_STATUS_MANDATORY_ATTRIBUTE_MISSING)
      in if \<not> md_flag_mandatory_on_create md then ok
         else if md_isconditional md then ok
         else if md_isdeprecated md then ok
         else if md_attrid md \<in> a_id ` set attr_list then ok
         else if md_objecttype md = ot h OT_BUFFER_PROFILE \<and>
                 (md_attrid md = attr_id h BUFFER_PROFILE_ATTR_SHARED_DYNAMIC_TH \<or>
                  md_attrid md = attr_id h BUFFER_PROFILE_ATTR_SHARED_STATIC_TH)
         then (case buffer_profile_mandatory h s attr_list md of
                 Inl e \<Rightarrow> Inl e
               | Inr (Inl st) \<Rightarrow> status st
               | Inr (Inr mandatory) \<Rightarrow> if mandatory then missing else ok)
         else missing)"

definition conditional_check :: "sai_meta \<Rightarrow> sai_attribute list \<Rightarrow> attr_md \<Rightarrow> checked" where
  "conditional_check h attr_list md =
     (if \<not> md_isconditional md then ok
      else if \<not> is_condition_met h md attr_list then
        (if md_attrid md \<in> a_id ` set attr_list
         then (if md_isconditionrelaxed md then ok else INVALID)
         else ok)
      else if md_attrid md \<notin> a_id ` set attr_list then status SAI_STATUS_MANDATORY_ATTRIBUTE_MISSING
      else ok)"

text \<open>A new entry must not exist; of a new object id there is nothing to check yet.\<close>

definition create_exists_check :: "sai_meta \<Rightarrow> meta_db \<Rightarrow> meta_key \<Rightarrow> checked" where
  "create_exists_check h s meta_key =
     (case get_object_type_info h (objecttype meta_key) of
        None \<Rightarrow> Inl (Null_Deref ''info'')
      | Some info \<Rightarrow>
          if isnonobjectid info \<and> objectExists (m_saiObjectCollection s) meta_key
          then status SAI_STATUS_ITEM_ALREADY_EXISTS else ok)"

definition create_metadata_check ::
  "sai_meta \<Rightarrow> meta_db \<Rightarrow> meta_key \<Rightarrow> sai_attribute list \<Rightarrow> checked" where
  "create_metadata_check h s meta_key attr_list =
     (case get_attributes_metadata h (objecttype meta_key) of
        Inl e \<Rightarrow> Inl e
      | Inr metadata \<Rightarrow>
          if metadata = [] then status SAI_STATUS_FAILURE
          else check_then (check_all (mandatory_check h s attr_list) metadata)
                 (check_all (conditional_check h attr_list) metadata))"

definition create_key_check ::
  "sai_meta \<Rightarrow> meta_db \<Rightarrow> meta_key \<Rightarrow> oid \<Rightarrow> sai_attribute list \<Rightarrow> checked" where
  "create_key_check h s meta_key switch_id attr_list =
     (if \<exists>attr \<in> set attr_list. attr_is_key h (objecttype meta_key) attr then
        (case constructKey h switch_id meta_key attr_list of
           Inl e \<Rightarrow> Inl e
         | Inr key \<Rightarrow> if attrKeyExists (m_attrKeys s) key then INVALID else ok)
      else ok)"

text \<open>The steps of create, on the switch the object is for (null when it is a switch).\<close>

definition create_steps ::
  "sai_meta \<Rightarrow> meta_db \<Rightarrow> meta_key \<Rightarrow> oid \<Rightarrow> sai_attribute list \<Rightarrow> checked" where
  "create_steps h s meta_key switch_id attr_list =
     check_then (meta_generic_validate_non_object_on_create h s meta_key switch_id)
      (check_then (create_attrs_check h s meta_key switch_id [] attr_list)
        (check_then (create_exists_check h s meta_key)
          (check_then (create_metadata_check h s meta_key attr_list)
            (create_key_check h s meta_key switch_id attr_list))))"

definition meta_generic_validation_create ::
  "sai_meta \<Rightarrow> meta_db \<Rightarrow> meta_key \<Rightarrow> oid \<Rightarrow> sai_attribute sai_list \<Rightarrow> checked" where
  "meta_generic_validation_create h s meta_key switch_id attr_list =
     (if bypassValidation h (objecttype meta_key) then ok
      else if MAX_LIST_COUNT < list_count attr_list then INVALID
      else if 0 < list_count attr_list \<and> list_null attr_list then INVALID
      else if objecttype meta_key = ot_switch h then
        check_then (create_switch_check h (elems attr_list))
          (create_steps h s meta_key SAI_NULL_OBJECT_ID (elems attr_list))
      else case meta_extract_switch_id h meta_key switch_id of
        Inl e \<Rightarrow> Inl e
      | Inr sw \<Rightarrow> check_then (create_on_switch_check h s sw) (create_steps h s meta_key sw (elems attr_list)))"

section \<open>Set\<close>

text \<open>The switch over the value type on set; compare the types it names with those of create.\<close>

definition set_value_check :: "sai_meta \<Rightarrow> meta_db \<Rightarrow> attr_md \<Rightarrow> oid \<Rightarrow> attr_value \<Rightarrow> checked" where
  "set_value_check h s md switch_id v =
     (case md_attrvaluetype md of
        VT_PRIM p \<Rightarrow> ok
      | VT_CHARDATA \<Rightarrow> meta_generic_validation_chardata (v_chardata v)
      | VT_IP_ADDRESS \<Rightarrow> family_check h (v_ipaddr_family v)
      | VT_OBJECT_ID \<Rightarrow>
          (if md_objecttype md = ot h OT_SCHEDULER_GROUP \<and>
              md_attrid md = attr_id h SCHEDULER_GROUP_ATTR_SCHEDULER_PROFILE_ID \<and>
              v_oid v = SAI_NULL_OBJECT_ID
           then ok
           else meta_generic_validation_objlist h s md switch_id (Sai_List [v_oid v]))
      | VT_OBJECT_LIST \<Rightarrow> meta_generic_validation_objlist h s md switch_id (v_objlist v)
      | VT_ACL_FIELD_DATA d \<Rightarrow>
          (if d = AD_OBJECT_ID then
             (if \<not> acl_enable (v_aclfield v) then ok
              else meta_generic_validation_objlist h s md switch_id (Sai_List [acl_oid (v_aclfield v)]))
           else if d = AD_OBJECT_LIST then
             (if \<not> acl_enable (v_aclfield v) then ok
              else meta_generic_validation_objlist h s md switch_id (acl_objlist (v_aclfield v)))
           else if d = AD_UINT64 \<or> d = AD_UINT8_LIST then Inl (Throw ''serialization type is not supported yet FIXME'')
           else ok)
      | VT_ACL_ACTION_DATA d \<Rightarrow>
          (if d = AD_OBJECT_ID then
             (if \<not> acl_enable (v_aclaction v) then ok
              else meta_generic_validation_objlist h s md switch_id (Sai_List [acl_oid (v_aclaction v)]))
           else if d = AD_OBJECT_LIST then
             (if \<not> acl_enable (v_aclaction v) then ok
              else meta_generic_validation_objlist h s md switch_id (acl_objlist (v_aclaction v)))
           else if d = AD_UINT64 \<or> d = AD_UINT8_LIST then Inl (Throw ''serialization type is not supported yet FIXME'')
           else ok)
      | VT_LIST l \<Rightarrow> VALIDATION_LIST_header (list_header v l)
      | VT_UINT16_RANGE_LIST \<Rightarrow> range_list_check (v_u16rangelist v)
      | VT_UINT64_RANGE_LIST \<Rightarrow> range_list_check (v_u64rangelist v)
      | VT_RANGE r \<Rightarrow>
          (if r = RT_UINT32 then range_check (v_u32range v)
           else if r = RT_INT32 then signed_range_check (v_s32range v)
           else Inl (Throw ''serialization type is not supported yet FIXME''))
      | VT_IP_PREFIX \<Rightarrow> family_check h (v_ipprefix_family v)
      | VT_ACL_CAPABILITY \<Rightarrow> VALIDATION_LIST_header (v_aclcapability_list v)
      | VT_SYSTEM_PORT_CONFIG \<Rightarrow> ok
      | VT_MACSEC k \<Rightarrow> Inl (Throw ''serialization type is not supported yet FIXME'')
      | VT_VLAN_LIST \<Rightarrow> Inl (Throw ''serialization type is not supported yet FIXME'')
      | VT_OTHER n \<Rightarrow> Inl (Throw ''serialization type is not supported yet FIXME''))"

text \<open>The object must be there, and the call be for its type.\<close>

definition existing_object_check :: "sai_meta \<Rightarrow> meta_db \<Rightarrow> ot_info \<Rightarrow> meta_key \<Rightarrow> checked" where
  "existing_object_check h s info meta_key =
     (if \<not> objectExists (m_saiObjectCollection s) meta_key then status SAI_STATUS_ITEM_NOT_FOUND
      else if isnonobjectid info then ok
      else if objectTypeQuery h (object_id meta_key) = SAI_OBJECT_TYPE_NULL then INVALID
      else if objectTypeQuery h (object_id meta_key) \<noteq> objecttype meta_key then INVALID
      else ok)"

text \<open>What follows the check of the read-only flag.\<close>

definition set_checks :: "sai_meta \<Rightarrow> meta_db \<Rightarrow> meta_key \<Rightarrow> attr_md \<Rightarrow> sai_attribute \<Rightarrow> checked" where
  "set_checks h s meta_key md attr =
     (if md_flag_create_only md then INVALID
      else if md_flag_key md then INVALID
      else case get_object_type_info h (objecttype meta_key) of
        None \<Rightarrow> Inl (Null_Deref ''info'')
      | Some info \<Rightarrow>
          if \<not> isnonobjectid info \<and> \<not> objectReferenceExists (m_oids s) (switchIdQuery h (object_id meta_key))
          then INVALID
          else
            let switch_id = (if isnonobjectid info then object_id meta_key else switchIdQuery h (object_id meta_key))
            in check_then (set_value_check h s md switch_id (a_value attr))
                (check_then (enum_check h md (a_value attr))
                  (check_then (enum_list_check h md (a_value attr))
                    (existing_object_check h s info meta_key))))"

definition meta_generic_validation_set ::
  "sai_meta \<Rightarrow> meta_key \<Rightarrow> sai_attribute option \<Rightarrow> (meta_db, sai_status) op" where
  "meta_generic_validation_set h meta_key attr_ptr =
     (if bypassValidation h (objecttype meta_key) then ret SAI_STATUS_SUCCESS
      else case attr_ptr of
        None \<Rightarrow> ret SAI_STATUS_INVALID_PARAMETER
      | Some attr \<Rightarrow>
          case get_attr_metadata h (objecttype meta_key) (a_id attr) of
            None \<Rightarrow> ret SAI_STATUS_FAILURE
          | Some md \<Rightarrow>
              seq (if md_flag_read_only md then meta_unittests_get_and_erase_set_readonly_flag md else ret True)
                (\<lambda>allowed.
                  if \<not> allowed then ret SAI_STATUS_INVALID_PARAMETER
                  else (\<lambda>s. (set_checks h s meta_key md attr, s))))"

section \<open>Get\<close>

text \<open>The checks of the buffers a get is given.\<close>

definition vlan_list_check :: "sai_meta \<Rightarrow> 16 word sai_list \<Rightarrow> checked" where
  "vlan_list_check h l =
     (if list_count l = 0 \<and> \<not> list_null l then INVALID
      else if list_count l \<noteq> 0 \<and> list_null l then INVALID
      else if unat (const h MAXIMUM_VLAN_NUMBER) < list_count l then INVALID
      else ok)"

definition get_value_check :: "sai_meta \<Rightarrow> attr_md \<Rightarrow> attr_value \<Rightarrow> checked" where
  "get_value_check h md v =
     (case md_attrvaluetype md of
        VT_PRIM p \<Rightarrow> ok
      | VT_CHARDATA \<Rightarrow> ok
      | VT_IP_ADDRESS \<Rightarrow> ok
      | VT_OBJECT_ID \<Rightarrow> ok
      | VT_OBJECT_LIST \<Rightarrow> VALIDATION_LIST (v_objlist v)
      | VT_VLAN_LIST \<Rightarrow> vlan_list_check h (v_vlanlist v)
      | VT_ACL_FIELD_DATA d \<Rightarrow>
          (if d = AD_OBJECT_LIST then VALIDATION_LIST (acl_objlist (v_aclfield v))
           else if d = AD_UINT64 \<or> d = AD_UINT8_LIST then Inl (Throw ''serialization type is not supported yet FIXME'')
           else ok)
      | VT_ACL_ACTION_DATA d \<Rightarrow>
          (if d = AD_OBJECT_LIST then VALIDATION_LIST (acl_objlist (v_aclaction v))
           else if d = AD_UINT64 \<or> d = AD_UINT8_LIST then Inl (Throw ''serialization type is not supported yet FIXME'')
           else ok)
      | VT_LIST l \<Rightarrow> VALIDATION_LIST_header (list_header v l)
      | VT_UINT16_RANGE_LIST \<Rightarrow> VALIDATION_LIST (v_u16rangelist v)
      | VT_UINT64_RANGE_LIST \<Rightarrow> VALIDATION_LIST (v_u64rangelist v)
      | VT_RANGE r \<Rightarrow> ok
      | VT_ACL_CAPABILITY \<Rightarrow> VALIDATION_LIST_header (v_aclcapability_list v)
      | VT_SYSTEM_PORT_CONFIG \<Rightarrow> ok
      | VT_IP_PREFIX \<Rightarrow> Inl (Throw ''serialization type is not supported yet FIXME'')
      | VT_MACSEC k \<Rightarrow> Inl (Throw ''serialization type is not supported yet FIXME'')
      | VT_OTHER n \<Rightarrow> Inl (Throw ''serialization type is not supported yet FIXME''))"

text \<open>The value of an enum is cleared in the caller's list before it goes down.\<close>

definition clear_enum :: "sai_meta \<Rightarrow> meta_key \<Rightarrow> sai_attribute \<Rightarrow> sai_attribute" where
  "clear_enum h meta_key attr =
     (case get_attr_metadata h (objecttype meta_key) (a_id attr) of
        None \<Rightarrow> attr
      | Some md \<Rightarrow> if md_isenum md then attr\<lparr>a_value := (a_value attr)\<lparr>v_s32 := 0\<rparr>\<rparr> else attr)"

definition get_attr_check :: "sai_meta \<Rightarrow> meta_key \<Rightarrow> sai_attribute \<Rightarrow> checked" where
  "get_attr_check h meta_key attr =
     (case get_attr_metadata h (objecttype meta_key) (a_id attr) of
        None \<Rightarrow> status SAI_STATUS_FAILURE
      | Some md \<Rightarrow> get_value_check h md (a_value (clear_enum h meta_key attr)))"

definition meta_generic_validation_get ::
  "sai_meta \<Rightarrow> meta_db \<Rightarrow> meta_key \<Rightarrow> sai_attribute sai_list \<Rightarrow> checked" where
  "meta_generic_validation_get h s meta_key attr_list =
     (if bypassValidation h (objecttype meta_key) then ok
      else if list_count attr_list < 1 then INVALID
      else if MAX_LIST_COUNT < list_count attr_list then INVALID
      else if list_null attr_list then INVALID
      else check_then (check_all (get_attr_check h meta_key) (elems attr_list))
        (if \<not> objectExists (m_saiObjectCollection s) meta_key then status SAI_STATUS_ITEM_NOT_FOUND
         else case get_object_type_info h (objecttype meta_key) of
           None \<Rightarrow> Inl (Null_Deref ''info'')
         | Some info \<Rightarrow> existing_object_check h s info meta_key))"

section \<open>Remove\<close>

text \<open>No object id but null in the attributes that can hold one.\<close>

definition default_state_attr :: "attr_wrapper \<Rightarrow> fault + bool" where
  "default_state_attr w =
     (let md = w_meta w; v = a_value (w_attr w) in
      if md_isreadonly md then Inr True
      else if \<not> md_isoidattribute md then Inr True
      else if md_attrvaluetype md = VT_OBJECT_ID then Inr (v_oid v = SAI_NULL_OBJECT_ID)
      else if md_attrvaluetype md = VT_OBJECT_LIST then
        bindE (list_elems (v_objlist v)) (\<lambda>xs. Inr (\<forall>x \<in> set xs. x = SAI_NULL_OBJECT_ID))
      else Inr False)"

fun default_state_attrs :: "attr_wrapper list \<Rightarrow> fault + bool" where
  "default_state_attrs [] = Inr True"
| "default_state_attrs (w # ws) =
     bindE (default_state_attr w) (\<lambda>b. if b then default_state_attrs ws else Inr False)"

definition meta_is_object_in_default_state :: "sai_meta \<Rightarrow> meta_db \<Rightarrow> oid \<Rightarrow> fault + bool" where
  "meta_is_object_in_default_state h s oid =
     (if oid = SAI_NULL_OBJECT_ID then Inl (Throw ''not expected NULL object id'')
      else if \<not> objectReferenceExists (m_oids s) oid then Inr False
      else case map_of (m_saiObjectCollection s) (oid_key (objectTypeQuery h oid) oid) of
        None \<Rightarrow> Inr False
      | Some obj \<Rightarrow> default_state_attrs (getAttributes obj))"

definition related_remove_check :: "sai_meta \<Rightarrow> meta_db \<Rightarrow> oid \<Rightarrow> checked" where
  "related_remove_check h s oid =
     bindE (getObjectReferenceCount (m_oids s) oid) (\<lambda>count.
       if count \<noteq> 0 then status SAI_STATUS_OBJECT_IN_USE
       else bindE (meta_is_object_in_default_state h s oid) (\<lambda>b.
         if \<not> b then status SAI_STATUS_OBJECT_IN_USE else ok))"

definition meta_port_remove_validation :: "sai_meta \<Rightarrow> meta_db \<Rightarrow> meta_key \<Rightarrow> checked" where
  "meta_port_remove_validation h s meta_key =
     (let port_id = object_id meta_key;
          relatedObjects = getPortRelatedObjects (m_portRelatedSet s) port_id
      in if relatedObjects = [] then ok
         else bindE (meta_is_object_in_default_state h s port_id) (\<lambda>b.
           if \<not> b then status SAI_STATUS_OBJECT_IN_USE
           else check_all (related_remove_check h s) relatedObjects))"

definition remove_oid_check :: "sai_meta \<Rightarrow> meta_db \<Rightarrow> meta_key \<Rightarrow> checked" where
  "remove_oid_check h s meta_key =
     (let oid = object_id meta_key; object_type = objectTypeQuery h oid
      in if oid = SAI_NULL_OBJECT_ID then INVALID
         else if object_type = SAI_OBJECT_TYPE_NULL then INVALID
         else if object_type \<noteq> objecttype meta_key then INVALID
         else if \<not> objectReferenceExists (m_oids s) oid then INVALID
         else bindE (getObjectReferenceCount (m_oids s) oid) (\<lambda>count.
           if count \<noteq> 0 then
             (if object_type = ot_switch h then ok else status SAI_STATUS_OBJECT_IN_USE)
           else if objecttype meta_key = ot h OT_PORT then meta_port_remove_validation h s meta_key
           else ok))"

definition meta_generic_validation_remove :: "sai_meta \<Rightarrow> meta_db \<Rightarrow> meta_key \<Rightarrow> checked" where
  "meta_generic_validation_remove h s meta_key =
     (if bypassValidation h (objecttype meta_key) then ok
      else if \<not> objectExists (m_saiObjectCollection s) meta_key then status SAI_STATUS_ITEM_NOT_FOUND
      else case get_object_type_info h (objecttype meta_key) of
        None \<Rightarrow> Inl (Null_Deref ''info'')
      | Some info \<Rightarrow> if isnonobjectid info then ok else remove_oid_check h s meta_key)"

end
