(* ===== verification/Meta_Post.thy ===== *)
theory Meta_Post
  imports Meta_Db
begin

text \<open>
  What the metadata layer does to its database after the interface below has answered success:
  \<open>meta_generic_validation_post_create\<close>, \<open>..._post_set\<close>, \<open>..._post_remove\<close> with
  \<open>clean_after_switch_remove\<close> and \<open>post_port_remove\<close>, and \<open>..._post_get\<close>, all of \<open>meta/Meta.cpp\<close>.
\<close>

section \<open>After create\<close>

definition post_create_connect :: "sai_meta \<Rightarrow> meta_key \<Rightarrow> sai_attribute list \<Rightarrow> bool" where
  "post_create_connect h meta_key attr_list =
     (objecttype meta_key = ot_switch h \<and>
      (case get_attr_by_id h (attr_id h SWITCH_ATTR_INIT_SWITCH) attr_list of
         None \<Rightarrow> False
       | Some attr \<Rightarrow> v_booldata (a_value attr) = False))"

definition post_create_object :: "sai_meta \<Rightarrow> meta_key \<Rightarrow> bool \<Rightarrow> (meta_db, unit) op" where
  "post_create_object h meta_key connectToSwitch =
     seq (gets m_warmBoot) (\<lambda>warmBoot.
       if warmBoot \<and> objecttype meta_key = ot_switch h then ret ()
       else if connectToSwitch then ret ()
       else on_objects (createObject h meta_key))"

text \<open>
  The reference of a new object id. Each of the checks that fail only logs and leaves the block:
  the object then has no reference entry.
\<close>

definition post_create_reference ::
  "sai_meta \<Rightarrow> meta_key \<Rightarrow> oid \<Rightarrow> bool \<Rightarrow> (meta_db, unit) op" where
  "post_create_reference h meta_key switch_id connectToSwitch = (\<lambda>s.
     let oid = object_id meta_key;
         object_type = objectTypeQuery h oid;
         query_switch_id = switchIdQuery h (object_id meta_key)
     in if oid = SAI_NULL_OBJECT_ID then (Inr (), s)
        else if object_type = SAI_OBJECT_TYPE_NULL then (Inr (), s)
        else if object_type \<noteq> objecttype meta_key then (Inr (), s)
        else if objecttype meta_key \<noteq> ot_switch h \<and>
                (\<not> objectReferenceExists (m_oids s) query_switch_id \<or> switch_id \<noteq> query_switch_id)
             then (Inr (), s)
        else if m_warmBoot s \<and> objecttype meta_key = ot_switch h then (Inr (), s)
        else if connectToSwitch then (Inr (), s)
        else on_oids (objectReferenceInsert oid) s)"

definition increment_members :: "ot_info \<Rightarrow> meta_key \<Rightarrow> (meta_db, unit) op" where
  "increment_members info meta_key =
     forM (\<lambda>m. if sm_membervaluetype m \<noteq> VT_OBJECT_ID then ret ()
               else on_oids (objectReferenceIncrement (sm_getoid m meta_key)))
       (structmembers info)"

text \<open>The switch over the value type of an attribute on create.\<close>

definition post_create_attr_refs :: "attr_md \<Rightarrow> attr_value \<Rightarrow> (ref_counter, unit) op" where
  "post_create_attr_refs md v =
     (case md_attrvaluetype md of
        VT_PRIM p \<Rightarrow> ret ()
      | VT_CHARDATA \<Rightarrow> ret ()
      | VT_IP_ADDRESS \<Rightarrow> ret ()
      | VT_IP_PREFIX \<Rightarrow> ret ()
      | VT_OBJECT_ID \<Rightarrow> objectReferenceIncrement (v_oid v)
      | VT_OBJECT_LIST \<Rightarrow> objectReferenceIncrement_list (v_objlist v)
      | VT_VLAN_LIST \<Rightarrow> ret ()
      | VT_ACL_FIELD_DATA d \<Rightarrow>
          (if d = AD_OBJECT_ID then
             (if acl_enable (v_aclfield v) then objectReferenceIncrement (acl_oid (v_aclfield v)) else ret ())
           else if d = AD_OBJECT_LIST then
             (if acl_enable (v_aclfield v) then objectReferenceIncrement_list (acl_objlist (v_aclfield v)) else ret ())
           else if d = AD_UINT8_LIST then raise (Throw ''serialization type is not supported yet FIXME'')
           else ret ())
      | VT_ACL_ACTION_DATA d \<Rightarrow>
          (if d = AD_OBJECT_ID then
             (if acl_enable (v_aclaction v) then objectReferenceIncrement (acl_oid (v_aclaction v)) else ret ())
           else if d = AD_OBJECT_LIST then
             (if acl_enable (v_aclaction v) then objectReferenceIncrement_list (acl_objlist (v_aclaction v)) else ret ())
           else if d = AD_UINT64 \<or> d = AD_UINT8_LIST then raise (Throw ''serialization type is not supported yet FIXME'')
           else ret ())
      | VT_LIST l \<Rightarrow>
          (if l \<in> {LT_PORT_LANE_LATCH_STATUS, LT_PORT_ILT_LANE_TRAINING_STATUS, LT_PORT_SNR, LT_TAPS}
           then raise (Throw ''serialization type is not supported yet FIXME'') else ret ())
      | VT_UINT16_RANGE_LIST \<Rightarrow> ret ()
      | VT_UINT64_RANGE_LIST \<Rightarrow> ret ()
      | VT_RANGE r \<Rightarrow> ret ()
      | VT_MACSEC k \<Rightarrow> ret ()
      | VT_SYSTEM_PORT_CONFIG \<Rightarrow> ret ()
      | VT_ACL_CAPABILITY \<Rightarrow> raise (Throw ''serialization type is not supported yet FIXME'')
      | VT_OTHER n \<Rightarrow> raise (Throw ''serialization type is not supported yet FIXME''))"

definition post_create_attr :: "sai_meta \<Rightarrow> meta_key \<Rightarrow> sai_attribute \<Rightarrow> (meta_db, unit) op" where
  "post_create_attr h meta_key attr =
     (case get_attr_metadata h (objecttype meta_key) (a_id attr) of
        None \<Rightarrow> raise (Null_Deref ''mdp'')
      | Some md \<Rightarrow>
          seq (on_oids (post_create_attr_refs md (a_value attr))) (\<lambda>_.
            if shouldCacheAttribute h (objecttype meta_key) md
            then on_objects (setObjectAttr h meta_key md attr) else ret ()))"

text \<open>The references of the object itself: its entry members, or its own new entry.\<close>

definition post_create_references ::
  "sai_meta \<Rightarrow> meta_key \<Rightarrow> oid \<Rightarrow> bool \<Rightarrow> (meta_db, unit) op" where
  "post_create_references h meta_key switch_id connectToSwitch =
     (case get_object_type_info h (objecttype meta_key) of
        None \<Rightarrow> raise (Null_Deref ''info'')
      | Some info \<Rightarrow>
          if isnonobjectid info then increment_members info meta_key
          else post_create_reference h meta_key switch_id connectToSwitch)"

text \<open>The loop over the attributes and what follows it; the warm boot flag is used up before.\<close>

definition post_create_attributes ::
  "sai_meta \<Rightarrow> meta_key \<Rightarrow> oid \<Rightarrow> sai_attribute list \<Rightarrow> (meta_db, unit) op" where
  "post_create_attributes h meta_key switch_id attr_list =
     seq (modify (m_warmBoot_update (\<lambda>_. False))) (\<lambda>_.
     seq (forM (post_create_attr h meta_key) attr_list) (\<lambda>_.
     if \<exists>attr \<in> set attr_list. attr_is_key h (objecttype meta_key) attr then
       seq (lift (constructKey h switch_id meta_key attr_list)) (\<lambda>attrKey.
         on_attrkeys (attrkey_insert (serialize_meta_key h meta_key) attrKey))
     else ret ()))"

definition meta_generic_validation_post_create ::
  "sai_meta \<Rightarrow> meta_key \<Rightarrow> oid \<Rightarrow> sai_attribute list \<Rightarrow> (meta_db, unit) op" where
  "meta_generic_validation_post_create h meta_key switch_id attr_list =
     (if bypassValidation h (objecttype meta_key) then ret ()
      else
        let connectToSwitch = post_create_connect h meta_key attr_list in
        seq (post_create_object h meta_key connectToSwitch) (\<lambda>_.
        seq (post_create_references h meta_key switch_id connectToSwitch) (\<lambda>_.
        post_create_attributes h meta_key switch_id attr_list)))"

section \<open>After set\<close>

text \<open>The two steps on the references of a changed attribute: release the old ones, take the new ones.\<close>

definition release_previous ::
  "attr_wrapper option \<Rightarrow> (attr_value \<Rightarrow> (ref_counter, unit) op) \<Rightarrow> (ref_counter, unit) op" where
  "release_previous prev dec = (case prev of None \<Rightarrow> ret () | Some w \<Rightarrow> dec (a_value (w_attr w)))"

definition post_set_attr_refs ::
  "attr_wrapper option \<Rightarrow> attr_md \<Rightarrow> attr_value \<Rightarrow> (ref_counter, unit) op" where
  "post_set_attr_refs prev md v =
     (case md_attrvaluetype md of
        VT_PRIM p \<Rightarrow> ret ()
      | VT_CHARDATA \<Rightarrow> ret ()
      | VT_IP_ADDRESS \<Rightarrow> ret ()
      | VT_IP_PREFIX \<Rightarrow> ret ()
      | VT_OBJECT_ID \<Rightarrow>
          seq (release_previous prev (\<lambda>p. objectReferenceDecrement (v_oid p)))
            (\<lambda>_. objectReferenceIncrement (v_oid v))
      | VT_OBJECT_LIST \<Rightarrow>
          seq (release_previous prev (\<lambda>p. objectReferenceDecrement_list (v_objlist p)))
            (\<lambda>_. objectReferenceIncrement_list (v_objlist v))
      | VT_ACL_FIELD_DATA d \<Rightarrow>
          (if d = AD_OBJECT_ID then
             seq (release_previous prev (\<lambda>p. if acl_enable (v_aclfield p)
                    then objectReferenceDecrement (acl_oid (v_aclfield p)) else ret ()))
               (\<lambda>_. if acl_enable (v_aclfield v) then objectReferenceIncrement (acl_oid (v_aclfield v)) else ret ())
           else if d = AD_OBJECT_LIST then
             seq (release_previous prev (\<lambda>p. if acl_enable (v_aclfield p)
                    then objectReferenceDecrement_list (acl_objlist (v_aclfield p)) else ret ()))
               (\<lambda>_. if acl_enable (v_aclfield v) then objectReferenceIncrement_list (acl_objlist (v_aclfield v)) else ret ())
           else if d = AD_UINT64 \<or> d = AD_UINT8_LIST then raise (Throw ''serialization type is not supported yet FIXME'')
           else ret ())
      | VT_ACL_ACTION_DATA d \<Rightarrow>
          (if d = AD_OBJECT_ID then
             seq (release_previous prev (\<lambda>p. if acl_enable (v_aclaction p)
                    then objectReferenceDecrement (acl_oid (v_aclaction p)) else ret ()))
               (\<lambda>_. if acl_enable (v_aclaction v) then objectReferenceIncrement (acl_oid (v_aclaction v)) else ret ())
           else if d = AD_OBJECT_LIST then
             seq (release_previous prev (\<lambda>p. if acl_enable (v_aclaction p)
                    then objectReferenceDecrement_list (acl_objlist (v_aclaction p)) else ret ()))
               (\<lambda>_. if acl_enable (v_aclaction v) then objectReferenceIncrement_list (acl_objlist (v_aclaction v)) else ret ())
           else if d = AD_UINT64 \<or> d = AD_UINT8_LIST then raise (Throw ''serialization type is not supported yet FIXME'')
           else ret ())
      | VT_LIST l \<Rightarrow>
          (if l \<in> {LT_PORT_LANE_LATCH_STATUS, LT_PORT_ILT_LANE_TRAINING_STATUS, LT_PORT_SNR, LT_TAPS}
           then raise (Throw ''serialization type is not supported yet FIXME'') else ret ())
      | VT_UINT16_RANGE_LIST \<Rightarrow> ret ()
      | VT_UINT64_RANGE_LIST \<Rightarrow> ret ()
      | VT_RANGE r \<Rightarrow> ret ()
      | VT_ACL_CAPABILITY \<Rightarrow> ret ()
      | VT_SYSTEM_PORT_CONFIG \<Rightarrow> ret ()
      | VT_VLAN_LIST \<Rightarrow> raise (Throw ''serialization type is not supported yet FIXME'')
      | VT_MACSEC k \<Rightarrow> raise (Throw ''serialization type is not supported yet FIXME'')
      | VT_OTHER n \<Rightarrow> raise (Throw ''serialization type is not supported yet FIXME''))"

definition meta_generic_validation_post_set ::
  "sai_meta \<Rightarrow> meta_key \<Rightarrow> sai_attribute \<Rightarrow> (meta_db, unit) op" where
  "meta_generic_validation_post_set h meta_key attr =
     (if bypassValidation h (objecttype meta_key) then ret ()
      else case get_attr_metadata h (objecttype meta_key) (a_id attr) of
        None \<Rightarrow> raise (Null_Deref ''mdp'')
      | Some md \<Rightarrow>
          seq (gets (\<lambda>s. get_object_previous_attr s meta_key md)) (\<lambda>prev.
          seq (on_oids (post_set_attr_refs prev md (a_value attr))) (\<lambda>_.
            if shouldCacheAttribute h (objecttype meta_key) md
            then on_objects (setObjectAttr h meta_key md attr) else ret ())))"

section \<open>After remove\<close>

definition clean_after_switch_remove :: "sai_meta \<Rightarrow> oid \<Rightarrow> (meta_db, unit) op" where
  "clean_after_switch_remove h switchId =
     (if objectTypeQuery h switchId \<noteq> ot_switch h then raise (Throw ''oid is not SWITCH!'')
      else
        seq (gets (\<lambda>s. getAllPorts (m_portRelatedSet s))) (\<lambda>ports.
        seq (forM (\<lambda>port. if switchIdQuery h port = switchId
                          then on_ports (removePort port) else ret ()) ports) (\<lambda>_.
        seq (gets (\<lambda>s. getAllOids (m_oids s))) (\<lambda>oids.
        seq (forM (\<lambda>oid. if switchIdQuery h oid = switchId
                         then on_oids (objectReferenceClear oid) else ret ()) oids) (\<lambda>_.
        seq (gets (\<lambda>s. getAllKeys_attrkeys (m_attrKeys s))) (\<lambda>keys.
        seq (forM (\<lambda>key. case deserialize_meta_key h key of
                           None \<Rightarrow> raise (Throw ''sai_deserialize_object_meta_key'')
                         | Some mk \<Rightarrow> if switchIdQuery h (object_id mk) = switchId
                                      then on_attrkeys (eraseMetaKey key) else ret ()) keys) (\<lambda>_.
        seq (gets (\<lambda>s. getAllKeys_objects (m_saiObjectCollection s))) (\<lambda>mks.
        forM (\<lambda>mk. if switchIdQuery h (object_id mk) = switchId
                   then on_objects (removeObject mk) else ret ()) mks))))))))"

definition post_remove_attr_refs :: "attr_md \<Rightarrow> attr_value \<Rightarrow> (ref_counter, unit) op" where
  "post_remove_attr_refs md v =
     (case md_attrvaluetype md of
        VT_PRIM p \<Rightarrow> ret ()
      | VT_CHARDATA \<Rightarrow> ret ()
      | VT_IP_ADDRESS \<Rightarrow> ret ()
      | VT_IP_PREFIX \<Rightarrow> ret ()
      | VT_OBJECT_ID \<Rightarrow> objectReferenceDecrement (v_oid v)
      | VT_OBJECT_LIST \<Rightarrow> objectReferenceDecrement_list (v_objlist v)
      | VT_ACL_FIELD_DATA d \<Rightarrow>
          (if d = AD_OBJECT_ID then
             (if acl_enable (v_aclfield v) then objectReferenceDecrement (acl_oid (v_aclfield v)) else ret ())
           else if d = AD_OBJECT_LIST then
             (if acl_enable (v_aclfield v) then objectReferenceDecrement_list (acl_objlist (v_aclfield v)) else ret ())
           else if d = AD_UINT8_LIST then raise (Throw ''serialization type is not supported yet FIXME'')
           else ret ())
      | VT_ACL_ACTION_DATA d \<Rightarrow>
          (if d = AD_OBJECT_ID then
             (if acl_enable (v_aclaction v) then objectReferenceDecrement (acl_oid (v_aclaction v)) else ret ())
           else if d = AD_OBJECT_LIST then
             (if acl_enable (v_aclaction v) then objectReferenceDecrement_list (acl_objlist (v_aclaction v)) else ret ())
           else if d = AD_UINT64 \<or> d = AD_UINT8_LIST then raise (Throw ''serialization type is not supported yet FIXME'')
           else ret ())
      | VT_LIST l \<Rightarrow> ret ()
      | VT_UINT16_RANGE_LIST \<Rightarrow> ret ()
      | VT_UINT64_RANGE_LIST \<Rightarrow> ret ()
      | VT_RANGE r \<Rightarrow> ret ()
      | VT_MACSEC k \<Rightarrow> ret ()
      | VT_SYSTEM_PORT_CONFIG \<Rightarrow> ret ()
      | VT_VLAN_LIST \<Rightarrow> raise (Throw ''serialization type is not supported yet FIXME'')
      | VT_ACL_CAPABILITY \<Rightarrow> raise (Throw ''serialization type is not supported yet FIXME'')
      | VT_OTHER n \<Rightarrow> raise (Throw ''serialization type is not supported yet FIXME''))"

definition decrement_members :: "ot_info \<Rightarrow> meta_key \<Rightarrow> (meta_db, unit) op" where
  "decrement_members info meta_key =
     forM (\<lambda>m. if sm_membervaluetype m \<noteq> VT_OBJECT_ID then ret ()
               else on_oids (objectReferenceDecrement (sm_getoid m meta_key)))
       (structmembers info)"

definition post_remove_attribute :: "sai_meta \<Rightarrow> meta_key \<Rightarrow> attr_wrapper \<Rightarrow> (meta_db, unit) op" where
  "post_remove_attribute h meta_key it =
     (case get_attr_metadata h (objecttype meta_key) (a_id (w_attr it)) of
        None \<Rightarrow> raise (Null_Deref ''mdp'')
      | Some md \<Rightarrow> on_oids (post_remove_attr_refs md (a_value (w_attr it))))"

definition post_remove_references :: "sai_meta \<Rightarrow> meta_key \<Rightarrow> (meta_db, unit) op" where
  "post_remove_references h meta_key =
     (case get_object_type_info h (objecttype meta_key) of
        None \<Rightarrow> raise (Null_Deref ''info'')
      | Some info \<Rightarrow>
          if isnonobjectid info then decrement_members info meta_key
          else on_oids (objectReferenceRemove (object_id meta_key)))"

text \<open>The removal of one object that is not a switch, up to what its port takes along.\<close>

definition post_remove_object :: "sai_meta \<Rightarrow> meta_key \<Rightarrow> (meta_db, unit) op" where
  "post_remove_object h meta_key =
     seq (gets m_saiObjectCollection) (\<lambda>c.
     seq (lift (getObject c meta_key)) (\<lambda>obj.
     seq (forM (post_remove_attribute h meta_key) (getAttributes obj)) (\<lambda>_.
     seq (post_remove_references h meta_key) (\<lambda>_.
     seq (on_objects (removeObject meta_key)) (\<lambda>_.
     on_attrkeys (eraseMetaKey (serialize_meta_key h meta_key)))))))"

text \<open>
  \<open>post_port_remove\<close> calls back into the removal of objects; the calls are the argument \<open>again\<close>.
\<close>

definition post_port_remove ::
  "sai_meta \<Rightarrow> (meta_key \<Rightarrow> (meta_db, unit) op) \<Rightarrow> meta_key \<Rightarrow> (meta_db, unit) op" where
  "post_port_remove h again meta_key =
     (let port_id = object_id meta_key in
      seq (gets (\<lambda>s. getPortRelatedObjects (m_portRelatedSet s) port_id)) (\<lambda>relatedObjects.
      if relatedObjects = [] then ret ()
      else seq (forM (\<lambda>oid. again (oid_key (objectTypeQuery h oid) oid)) relatedObjects) (\<lambda>_.
           on_ports (removePort port_id))))"

text \<open>
  The recursion removes an object of the database before it calls itself, so a depth above the
  number of objects is never reached.
\<close>

primrec meta_generic_validation_post_remove ::
  "sai_meta \<Rightarrow> nat \<Rightarrow> meta_key \<Rightarrow> (meta_db, unit) op" where
  "meta_generic_validation_post_remove h 0 = (\<lambda>meta_key. raise Out_Of_Fuel)"
| "meta_generic_validation_post_remove h (Suc n) = (\<lambda>meta_key.
     if bypassValidation h (objecttype meta_key) then ret ()
     else if objecttype meta_key = ot_switch h then
       clean_after_switch_remove h (object_id meta_key)
     else
       seq (post_remove_object h meta_key) (\<lambda>_.
         if objecttype meta_key = ot h OT_PORT
         then post_port_remove h (meta_generic_validation_post_remove h n) meta_key
         else ret ()))"

end
