(* ===== verification/Meta_Inv.thy ===== *)
theory Meta_Inv
  imports Meta_Post
begin

text \<open>
  The consistency of the metadata database: its reference counters count exactly the references
  that are stored, no stored reference dangles, and references stay within one switch. The theory
  holds the laws of the environment, the invariant, and the effect of the operations of
  \<open>Meta_Post\<close> on it.
\<close>

section \<open>The queries of the interface below\<close>

text \<open>
  What the layer relies on of \<open>objectTypeQuery\<close> and \<open>switchIdQuery\<close>: types are valid or null, and
  a switch is its own switch.
\<close>

locale oid_queries =
  fixes env_ok :: bool
    and valid :: "object_type \<Rightarrow> bool"
    and switch_type :: object_type
    and type_of :: "oid \<Rightarrow> object_type"
    and switch_of :: "oid \<Rightarrow> oid"
  assumes type_null: "env_ok \<Longrightarrow> type_of 0 = 0"
    and type_valid: "env_ok \<Longrightarrow> type_of oid \<noteq> 0 \<Longrightarrow> valid (type_of oid)"
    and switch_self: "env_ok \<Longrightarrow> type_of oid = switch_type \<Longrightarrow> switch_of oid = oid"
    and switch_is_switch: "env_ok \<Longrightarrow> switch_of oid = 0 \<or> type_of (switch_of oid) = switch_type"
    and switch_null: "env_ok \<Longrightarrow> switch_of 0 = 0"
    and switch_type_valid: "env_ok \<Longrightarrow> valid switch_type \<and> switch_type \<noteq> 0"
begin

lemma switch_idem: "env_ok \<Longrightarrow> switch_of (switch_of oid) = switch_of oid"
  using switch_is_switch [of oid] switch_self [of "switch_of oid"] switch_null by auto

lemma switch_not_null: "env_ok \<Longrightarrow> type_of oid = switch_type \<Longrightarrow> oid \<noteq> 0"
  using type_null switch_type_valid by auto

end

section \<open>The laws of the environment\<close>

definition oid_value_type :: "value_type \<Rightarrow> bool" where
  "oid_value_type vt \<longleftrightarrow> vt \<in> {VT_OBJECT_ID, VT_OBJECT_LIST, VT_ACL_FIELD_DATA AD_OBJECT_ID,
     VT_ACL_FIELD_DATA AD_OBJECT_LIST, VT_ACL_ACTION_DATA AD_OBJECT_ID, VT_ACL_ACTION_DATA AD_OBJECT_LIST}"

text \<open>
  The documented facts of the SAI metadata: the metadata found under a type and an id is of that
  type and id; an attribute whose values hold object ids is marked so; attributes of the capability
  type belong to the switch; every valid type has its info, and the switch is an object id type.
\<close>

definition metadata_ok :: "sai_meta \<Rightarrow> bool" where
  "metadata_ok h \<longleftrightarrow>
     (\<forall>t a md. get_attr_metadata h t a = Some md \<longrightarrow>
        md_attrid md = a \<and> md_objecttype md = t \<and>
        (oid_value_type (md_attrvaluetype md) \<longrightarrow> md_isoidattribute md) \<and>
        (md_attrvaluetype md = VT_ACL_CAPABILITY \<longrightarrow> t = ot_switch h)) \<and>
     (\<forall>t. object_type_valid h t \<longrightarrow> get_object_type_info h t \<noteq> None) \<and>
     (\<forall>info. get_object_type_info h (ot_switch h) = Some info \<longrightarrow> \<not> isnonobjectid info) \<and>
     (\<forall>info. get_object_type_info h (ot h OT_PORT) = Some info \<longrightarrow> \<not> isnonobjectid info) \<and>
     (\<forall>e info. get_object_type_info h (ot h (OT_ENTRY e)) = Some info \<longrightarrow> isnonobjectid info)"

text \<open>A value survives the serialization round trip as far as the object ids in it go.\<close>

definition copy_ok :: "sai_meta \<Rightarrow> bool" where
  "copy_ok h \<longleftrightarrow>
     (\<forall>md v. list_ok (attr_ref_list md v) \<longrightarrow>
        list_ok (attr_ref_list md (attr_copy h md v)) \<and> attr_refs md (attr_copy h md v) = attr_refs md v)"

definition queries_ok :: "sai_meta \<Rightarrow> bool" where
  "queries_ok h = oid_queries True (object_type_valid h) (ot_switch h) (objectTypeQuery h) (switchIdQuery h)"

definition keys_ok :: "sai_meta \<Rightarrow> bool" where
  "keys_ok h \<longleftrightarrow> (\<forall>mk. deserialize_meta_key h (serialize_meta_key h mk) = Some mk)"

definition meta_ok :: "sai_meta \<Rightarrow> bool" where
  "meta_ok h \<longleftrightarrow> metadata_ok h \<and> copy_ok h \<and> queries_ok h \<and> keys_ok h \<and> ot h OT_PORT \<noteq> ot_switch h"

lemma metadata_okD:
  assumes "metadata_ok h"
  shows "get_attr_metadata h t a = Some md \<Longrightarrow> md_attrid md = a"
    "get_attr_metadata h t a = Some md \<Longrightarrow> md_objecttype md = t"
    "get_attr_metadata h t a = Some md \<Longrightarrow> oid_value_type (md_attrvaluetype md) \<Longrightarrow> md_isoidattribute md"
    "get_attr_metadata h t a = Some md \<Longrightarrow> md_attrvaluetype md = VT_ACL_CAPABILITY \<Longrightarrow> t = ot_switch h"
    "object_type_valid h t \<Longrightarrow> \<exists>info. get_object_type_info h t = Some info"
    "get_object_type_info h (ot_switch h) = Some info \<Longrightarrow> \<not> isnonobjectid info"
    "get_object_type_info h (ot h OT_PORT) = Some info \<Longrightarrow> \<not> isnonobjectid info"
    "get_object_type_info h (ot h (OT_ENTRY e)) = Some info \<Longrightarrow> isnonobjectid info"
  using assms by (auto simp: metadata_ok_def)

lemma meta_okD:
  assumes "meta_ok h"
  shows "metadata_ok h" "copy_ok h"
    "oid_queries True (object_type_valid h) (ot_switch h) (objectTypeQuery h) (switchIdQuery h)"
    "deserialize_meta_key h (serialize_meta_key h mk) = Some mk" "ot h OT_PORT \<noteq> ot_switch h"
  using assms by (auto simp: meta_ok_def queries_ok_def keys_ok_def)

section \<open>The reference switches as list operations\<close>

text \<open>The value types each of the three switches accepts.\<close>

definition creatable :: "value_type \<Rightarrow> bool" where
  "creatable vt = (case vt of
     VT_ACL_FIELD_DATA d \<Rightarrow> d \<noteq> AD_UINT8_LIST
   | VT_ACL_ACTION_DATA d \<Rightarrow> d \<noteq> AD_UINT64 \<and> d \<noteq> AD_UINT8_LIST
   | VT_LIST l \<Rightarrow> l \<notin> {LT_PORT_LANE_LATCH_STATUS, LT_PORT_ILT_LANE_TRAINING_STATUS, LT_PORT_SNR, LT_TAPS}
   | VT_ACL_CAPABILITY \<Rightarrow> False | VT_OTHER n \<Rightarrow> False | _ \<Rightarrow> True)"

definition settable :: "value_type \<Rightarrow> bool" where
  "settable vt = (case vt of
     VT_ACL_FIELD_DATA d \<Rightarrow> d \<noteq> AD_UINT64 \<and> d \<noteq> AD_UINT8_LIST
   | VT_ACL_ACTION_DATA d \<Rightarrow> d \<noteq> AD_UINT64 \<and> d \<noteq> AD_UINT8_LIST
   | VT_LIST l \<Rightarrow> l \<notin> {LT_PORT_LANE_LATCH_STATUS, LT_PORT_ILT_LANE_TRAINING_STATUS, LT_PORT_SNR, LT_TAPS}
   | VT_VLAN_LIST \<Rightarrow> False | VT_MACSEC m \<Rightarrow> False | VT_OTHER n \<Rightarrow> False | _ \<Rightarrow> True)"

definition removable :: "value_type \<Rightarrow> bool" where
  "removable vt = (case vt of
     VT_ACL_FIELD_DATA d \<Rightarrow> d \<noteq> AD_UINT8_LIST
   | VT_ACL_ACTION_DATA d \<Rightarrow> d \<noteq> AD_UINT64 \<and> d \<noteq> AD_UINT8_LIST
   | VT_VLAN_LIST \<Rightarrow> False | VT_ACL_CAPABILITY \<Rightarrow> False | VT_OTHER n \<Rightarrow> False | _ \<Rightarrow> True)"

lemma seq_ret_unit [simp]: "seq m ret = m"
  by (auto simp: seq_def ret_def fun_eq_iff split: prod.splits sum.splits)

lemma seq_lift_Inr [simp]: "seq (lift (Inr x)) f = f x"
  by (simp add: seq_def lift_def fun_eq_iff)

lemma inc_list_simps [simp]:
  "objectReferenceIncrement_list (Sai_List []) = ret ()"
  "objectReferenceIncrement_list (Sai_List [x]) = objectReferenceIncrement x"
  "objectReferenceDecrement_list (Sai_List []) = ret ()"
  "objectReferenceDecrement_list (Sai_List [x]) = objectReferenceDecrement x"
  by (simp_all add: objectReferenceIncrement_list_def objectReferenceDecrement_list_def)

lemma create_refs_eq:
  "post_create_attr_refs md v =
     (if creatable (md_attrvaluetype md) then objectReferenceIncrement_list (attr_ref_list md v)
      else raise (Throw ''serialization type is not supported yet FIXME''))"
  by (auto simp: post_create_attr_refs_def creatable_def attr_ref_list_def
      split: value_type.splits acl_data_type.splits)

lemma remove_refs_eq:
  "post_remove_attr_refs md v =
     (if removable (md_attrvaluetype md) then objectReferenceDecrement_list (attr_ref_list md v)
      else raise (Throw ''serialization type is not supported yet FIXME''))"
  by (auto simp: post_remove_attr_refs_def removable_def attr_ref_list_def
      split: value_type.splits acl_data_type.splits)

lemma release_ret [simp]: "release_previous prev (\<lambda>p. ret ()) = ret ()"
  by (simp add: release_previous_def split: option.splits)

lemma seq_ret_first [simp]: "seq (ret x) f = f x"
  by (simp add: seq_def ret_def fun_eq_iff)

lemma set_refs_eq:
  "post_set_attr_refs prev md v =
     (if settable (md_attrvaluetype md)
      then seq (release_previous prev (\<lambda>p. objectReferenceDecrement_list (attr_ref_list md p)))
             (\<lambda>_. objectReferenceIncrement_list (attr_ref_list md v))
      else raise (Throw ''serialization type is not supported yet FIXME''))"
proof (cases "md_attrvaluetype md")
  case (VT_ACL_FIELD_DATA d)
  then show ?thesis
    by (cases d; simp add: post_set_attr_refs_def settable_def attr_ref_list_def
        if_distrib [of objectReferenceDecrement_list] if_distrib [of objectReferenceIncrement_list]
        cong: if_cong)
next
  case (VT_ACL_ACTION_DATA d)
  then show ?thesis
    by (cases d; simp add: post_set_attr_refs_def settable_def attr_ref_list_def
        if_distrib [of objectReferenceDecrement_list] if_distrib [of objectReferenceIncrement_list]
        cong: if_cong)
qed (simp_all add: post_set_attr_refs_def settable_def attr_ref_list_def)

section \<open>The invariant\<close>

definition object_oids :: "sai_meta \<Rightarrow> meta_key \<Rightarrow> sai_object \<Rightarrow> oid list" where
  "object_oids h key obj = member_oids h key @ concat (map (\<lambda>(a, w). wrapper_refs w) (m_attrs obj))"

definition wrapper_ok :: "sai_meta \<Rightarrow> meta_key \<Rightarrow> u32 \<Rightarrow> attr_wrapper \<Rightarrow> bool" where
  "wrapper_ok h key aid w \<longleftrightarrow>
     get_attr_metadata h (objecttype key) aid = Some (w_meta w) \<and> a_id (w_attr w) = aid \<and>
     list_ok (attr_ref_list (w_meta w) (a_value (w_attr w))) \<and>
     (objecttype key \<noteq> ot_switch h \<longrightarrow> removable (md_attrvaluetype (w_meta w)))"

text \<open>References of an object: existing ids of the object's own switch.\<close>

definition refs_local :: "sai_meta \<Rightarrow> ref_counter \<Rightarrow> oid \<Rightarrow> oid list \<Rightarrow> bool" where
  "refs_local h m sw xs \<longleftrightarrow> (\<forall>r \<in> set xs. r \<noteq> 0 \<longrightarrow> has_key m r \<and> switchIdQuery h r = sw)"

definition key_switch :: "sai_meta \<Rightarrow> meta_key \<Rightarrow> oid" where
  "key_switch h key = switchIdQuery h (object_id key)"

definition object_ok :: "sai_meta \<Rightarrow> ref_counter \<Rightarrow> meta_key \<Rightarrow> sai_object \<Rightarrow> bool" where
  "object_ok h m key obj \<longleftrightarrow>
     object_type_valid h (objecttype key) \<and> m_metaKey obj = key \<and> wf_alist (m_attrs obj) \<and>
     (\<forall>aid w. map_of (m_attrs obj) aid = Some w \<longrightarrow> wrapper_ok h key aid w) \<and>
     refs_local h m (key_switch h key) (object_oids h key obj)"

definition db_inv :: "sai_meta \<Rightarrow> meta_db \<Rightarrow> bool" where
  "db_inv h s \<longleftrightarrow>
     wf_alist (m_saiObjectCollection s) \<and>
     counted (total_refs h (m_saiObjectCollection s)) (m_oids s) \<and>
     (\<forall>key obj. map_of (m_saiObjectCollection s) key = Some obj \<longrightarrow> object_ok h (m_oids s) key obj)"

lemma refs_local_simps [simp]:
  "refs_local h m sw []"
  "refs_local h m sw (xs @ ys) \<longleftrightarrow> refs_local h m sw xs \<and> refs_local h m sw ys"
  by (auto simp: refs_local_def)

lemma refs_local_exist: "refs_local h m sw xs \<Longrightarrow> refs_exist m xs"
  by (auto simp: refs_local_def refs_exist_def)

lemma refs_local_mono:
  "refs_local h m sw xs \<Longrightarrow> (\<And>x. has_key m x \<Longrightarrow> x \<in> set xs \<Longrightarrow> has_key m' x) \<Longrightarrow> refs_local h m' sw xs"
  by (auto simp: refs_local_def)

lemma refs_local_subset: "refs_local h m sw xs \<Longrightarrow> set ys \<subseteq> set xs \<Longrightarrow> refs_local h m sw ys"
  by (auto simp: refs_local_def)

lemma object_ok_mono:
  "object_ok h m key obj \<Longrightarrow> (\<And>x. has_key m x \<Longrightarrow> x \<in> set (object_oids h key obj) \<Longrightarrow> has_key m' x) \<Longrightarrow>
     object_ok h m' key obj"
  by (auto simp: object_ok_def intro: refs_local_mono)

subsection \<open>Counting\<close>

lemma count_concat: "count_list (concat xss) x = sum_list (map (\<lambda>xs. count_list xs x) xss)"
  by (induction xss) auto

lemma object_refs_count_oids: "object_refs_count h key obj x = count_list (object_oids h key obj) x"
  by (simp add: object_refs_count_def attrs_refs_count_def alist_sum_def object_oids_def count_concat
      o_def split_def)

lemma total_ge: 
  assumes "wf_alist c" "map_of c key = Some obj"
  shows "object_refs_count h key obj x \<le> total_refs h c x"
  unfolding total_refs_def using alist_sum_ge [OF assms, of "\<lambda>key obj. object_refs_count h key obj x"] .

lemma total_refs_new:
  "map_of c key = None \<Longrightarrow>
     total_refs h (AList.update key obj c) x = total_refs h c x + object_refs_count h key obj x"
  using alist_sum_update [of "\<lambda>key obj. object_refs_count h key obj x" key obj c]
  by (simp add: total_refs_def)

lemma total_refs_delete:
  "wf_alist c \<Longrightarrow> map_of c key = Some obj \<Longrightarrow>
     total_refs h (AList.delete key c) x + object_refs_count h key obj x = total_refs h c x"
  using alist_sum_delete [of c "\<lambda>key obj. object_refs_count h key obj x" key]
  by (simp add: total_refs_def)

definition prev_refs :: "attr_wrapper option \<Rightarrow> oid list" where
  "prev_refs prev = (case prev of None \<Rightarrow> [] | Some w \<Rightarrow> wrapper_refs w)"

lemma prev_refs_simps [simp]: "prev_refs None = []" "prev_refs (Some w) = wrapper_refs w"
  by (simp_all add: prev_refs_def)

lemma attrs_refs_update:
  "attrs_refs_count (AList.update aid w attrs) x + count_list (prev_refs (map_of attrs aid)) x =
     attrs_refs_count attrs x + count_list (wrapper_refs w) x"
  using alist_sum_update [of "\<lambda>_ w. count_list (wrapper_refs w) x" aid w attrs]
  by (simp add: attrs_refs_count_def at_key_def prev_refs_def split: option.splits)

lemma total_refs_setAttr:
  assumes "map_of c key = Some obj"
  shows "total_refs h (AList.update key (setAttr h md attr obj) c) x +
      count_list (prev_refs (getAttr obj (a_id attr))) x =
    total_refs h c x + count_list (wrapper_refs (attr_wrapper_new h md attr)) x"
proof -
  let ?obj = "setAttr h md attr obj"
  have "object_refs_count h key ?obj x + count_list (prev_refs (getAttr obj (a_id attr))) x =
      object_refs_count h key obj x + count_list (wrapper_refs (attr_wrapper_new h md attr)) x"
    using attrs_refs_update [of "a_id attr" "attr_wrapper_new h md attr" "m_attrs obj" x]
    by (simp add: object_refs_count_def setAttr_def getAttr_def)
  moreover have "total_refs h (AList.update key ?obj c) x + object_refs_count h key obj x =
      total_refs h c x + object_refs_count h key ?obj x"
    using alist_sum_update [of "\<lambda>key obj. object_refs_count h key obj x" key ?obj c] assms
    by (simp add: total_refs_def at_key_def)
  ultimately show ?thesis by simp
qed

lemma wrapper_refs_new:
  "copy_ok h \<Longrightarrow> list_ok (attr_ref_list md (a_value attr)) \<Longrightarrow>
     wrapper_refs (attr_wrapper_new h md attr) = attr_refs md (a_value attr)"
  by (simp add: copy_ok_def wrapper_refs_def attr_wrapper_new_def)

lemma object_oids_setAttr:
  "set (object_oids h key (setAttr h md attr obj)) \<subseteq>
     set (object_oids h key obj) \<union> set (wrapper_refs (attr_wrapper_new h md attr))"
proof -
  have "set (AList.update k v al) \<subseteq> insert (k, v) (set al)" for k :: u32 and v :: attr_wrapper and al
    by (induction al) auto
  from this [of "a_id attr" "attr_wrapper_new h md attr" "m_attrs obj"]
  show ?thesis by (fastforce simp: object_oids_def setAttr_def)
qed

lemma prev_refs_oids:
  "getAttr obj aid = Some w \<Longrightarrow> set (wrapper_refs w) \<subseteq> set (object_oids h key obj)"
  by (force simp: object_oids_def getAttr_def dest: map_of_SomeD)

lemma prev_refs_count:
  "wf_alist (m_attrs obj) \<Longrightarrow>
     count_list (prev_refs (getAttr obj aid)) x \<le> object_refs_count h key obj x"
  using alist_sum_ge [of "m_attrs obj" aid _ "\<lambda>_ w. count_list (wrapper_refs w) x"]
  by (cases "getAttr obj aid")
    (auto simp: object_refs_count_def attrs_refs_count_def getAttr_def trans_le_add2)

text \<open>An id without a counter is not referred to.\<close>

lemma total_refs_absent:
  assumes "db_inv h s" "\<not> has_key (m_oids s) x" "x \<noteq> 0"
  shows "total_refs h (m_saiObjectCollection s) x = 0"
  unfolding total_refs_def
proof (rule alist_sum_zeroI)
  fix key obj
  assume "(key, obj) \<in> set (m_saiObjectCollection s)"
  then have "map_of (m_saiObjectCollection s) key = Some obj"
    using assms(1) by (simp add: db_inv_def map_of_mem_wf)
  then have "refs_local h (m_oids s) (key_switch h key) (object_oids h key obj)"
    using assms(1) by (simp add: db_inv_def object_ok_def)
  with assms(2,3) have "x \<notin> set (object_oids h key obj)" by (auto simp: refs_local_def)
  then show "object_refs_count h key obj x = 0"
    by (simp add: object_refs_count_oids count_list_0_iff)
qed

lemma total_refs_zero:
  assumes "wf_alist c" "map_of c key = Some obj" "total_refs h c x = 0"
  shows "x \<notin> set (object_oids h key obj)"
  using total_ge [OF assms(1,2), of h x] assms(3)
  by (simp add: object_refs_count_oids count_list_0_iff)

subsection \<open>Running over reference lists\<close>

text \<open>No counter leaves its range: what the database and a call hold together.\<close>

definition refs_bound :: "sai_meta \<Rightarrow> object_collection \<Rightarrow> oid list \<Rightarrow> bool" where
  "refs_bound h c xs \<longleftrightarrow> (\<forall>x. x \<noteq> 0 \<longrightarrow> total_refs h c x + count_list xs x \<le> nat INT32_MAX)"

lemma increment_list_ok:
  assumes "list_ok l" "counted f m" "refs_exist m (elems l)"
    "\<And>x. x \<noteq> 0 \<Longrightarrow> f x + count_list (elems l) x \<le> nat INT32_MAX"
  shows "\<exists>m'. objectReferenceIncrement_list l m = (Inr (), m') \<and>
     counted (\<lambda>x. f x + count_list (elems l) x) m' \<and> (\<forall>x. has_key m' x = has_key m x)"
  using increment_all [OF assms(2-4)] list_ok_elems [OF assms(1)]
  by (simp add: objectReferenceIncrement_list_def)

lemma decrement_list_ok:
  assumes "list_ok l" "counted f m" "refs_exist m (elems l)"
    "\<And>x. x \<noteq> 0 \<Longrightarrow> count_list (elems l) x \<le> f x"
  shows "\<exists>m'. objectReferenceDecrement_list l m = (Inr (), m') \<and>
     counted (\<lambda>x. f x - count_list (elems l) x) m' \<and> (\<forall>x. has_key m' x = has_key m x)"
  using decrement_all [OF assms(2-4)] list_ok_elems [OF assms(1)]
  by (simp add: objectReferenceDecrement_list_def)

end
