(* ===== verification/Meta_Keep.thy ===== *)
theory Meta_Keep
  imports Meta_Inv
begin

text \<open>
  The operations of \<open>Meta_Post\<close> keep the invariant of \<open>Meta_Inv\<close>: also when they throw in the middle
  (an unsupported value type, a missing object), as long as what they are given has been validated.
\<close>

section \<open>Reading and storing an attribute\<close>

lemma not_oid_no_refs: "\<not> oid_value_type (md_attrvaluetype md) \<Longrightarrow> attr_refs md v = []"
  by (auto simp: oid_value_type_def attr_refs_def attr_ref_list_def
      split: value_type.splits acl_data_type.splits)

lemma not_isoid_no_refs:
  "metadata_ok h \<Longrightarrow> get_attr_metadata h t a = Some md \<Longrightarrow> \<not> md_isoidattribute md \<Longrightarrow> attr_refs md v = []"
  using metadata_okD(3) not_oid_no_refs by blast

lemma db_inv_object:
  "db_inv h s \<Longrightarrow> map_of (m_saiObjectCollection s) key = Some obj \<Longrightarrow> object_ok h (m_oids s) key obj"
  by (simp add: db_inv_def)

lemma db_inv_wf: "db_inv h s \<Longrightarrow> wf_alist (m_saiObjectCollection s)"
  by (simp add: db_inv_def)

lemma db_inv_counted: "db_inv h s \<Longrightarrow> counted (total_refs h (m_saiObjectCollection s)) (m_oids s)"
  by (simp add: db_inv_def)

lemma previous_ok:
  assumes "db_inv h s" "getObjectAttr (m_saiObjectCollection s) key aid = Some w"
  shows "get_attr_metadata h (objecttype key) aid = Some (w_meta w)"
    "list_ok (attr_ref_list (w_meta w) (a_value (w_attr w)))"
    "refs_local h (m_oids s) (key_switch h key) (wrapper_refs w)"
    "count_list (wrapper_refs w) x \<le> total_refs h (m_saiObjectCollection s) x"
proof -
  from assms(2) obtain obj where o: "map_of (m_saiObjectCollection s) key = Some obj"
    and w: "getAttr obj aid = Some w"
    by (auto simp: getObjectAttr_def split: option.splits)
  note ok = db_inv_object [OF assms(1) o]
  from ok w show "get_attr_metadata h (objecttype key) aid = Some (w_meta w)"
    "list_ok (attr_ref_list (w_meta w) (a_value (w_attr w)))"
    by (auto simp: object_ok_def wrapper_ok_def getAttr_def)
  show "refs_local h (m_oids s) (key_switch h key) (wrapper_refs w)"
    using ok prev_refs_oids [OF w] refs_local_subset by (auto simp: object_ok_def)
  have "count_list (wrapper_refs w) x \<le> object_refs_count h key obj x"
    using prev_refs_count [of obj aid x] ok w by (simp add: object_ok_def)
  also have "\<dots> \<le> total_refs h (m_saiObjectCollection s) x"
    by (rule total_ge [OF db_inv_wf [OF assms(1)] o])
  finally show "count_list (wrapper_refs w) x \<le> total_refs h (m_saiObjectCollection s) x" .
qed

text \<open>What validation has established of an attribute about to be stored under a key.\<close>

definition attr_ready :: "sai_meta \<Rightarrow> meta_db \<Rightarrow> meta_key \<Rightarrow> sai_attribute \<Rightarrow> attr_md \<Rightarrow> bool" where
  "attr_ready h s key attr md \<longleftrightarrow>
     get_attr_metadata h (objecttype key) (a_id attr) = Some md \<and>
     list_ok (attr_ref_list md (a_value attr)) \<and>
     refs_local h (m_oids s) (key_switch h key) (attr_refs md (a_value attr)) \<and>
     (objecttype key \<noteq> ot_switch h \<longrightarrow> removable (md_attrvaluetype md)) \<and>
     (objectExists (m_saiObjectCollection s) key \<or> attr_refs md (a_value attr) = [])"

definition store_attr :: "sai_meta \<Rightarrow> meta_key \<Rightarrow> attr_md \<Rightarrow> sai_attribute \<Rightarrow> (meta_db, unit) op" where
  "store_attr h key md attr =
     (if shouldCacheAttribute h (objecttype key) md then on_objects (setObjectAttr h key md attr) else ret ())"

lemma store_missing:
  "\<not> objectExists (m_saiObjectCollection s) key \<Longrightarrow> snd (store_attr h key md attr s) = s"
  by (auto simp: store_attr_def zoom_def setObjectAttr_def objectExists_def has_key_def ret_def)

lemma store_present:
  "map_of (m_saiObjectCollection s) key = Some obj \<Longrightarrow>
     store_attr h key md attr s = (Inr (),
       if shouldCacheAttribute h (objecttype key) md
       then s\<lparr>m_saiObjectCollection := AList.update key (setAttr h md attr obj) (m_saiObjectCollection s)\<rparr>
       else s)"
  by (simp add: store_attr_def zoom_def setObjectAttr_def ret_def)

lemma setAttr_ok:
  assumes "copy_ok h" "object_ok h m key obj" "attr_ready h s key attr md" "m = m_oids s"
  shows "object_ok h m key (setAttr h md attr obj)"
proof -
  have w: "wrapper_ok h key (a_id attr) (attr_wrapper_new h md attr)"
    using assms(1,3) by (simp add: wrapper_ok_def attr_wrapper_new_def attr_ready_def copy_ok_def)
  have "wrapper_refs (attr_wrapper_new h md attr) = attr_refs md (a_value attr)"
    using assms(1,3) by (intro wrapper_refs_new) (auto simp: attr_ready_def)
  then have "refs_local h m (key_switch h key)
      (object_oids h key obj @ wrapper_refs (attr_wrapper_new h md attr))"
    using assms(2-4) by (simp add: attr_ready_def object_ok_def)
  then have "refs_local h m (key_switch h key) (object_oids h key (setAttr h md attr obj))"
    by (rule refs_local_subset) (use object_oids_setAttr [of h key md attr obj] in simp)
  with assms(2) w show ?thesis
    by (auto simp: object_ok_def setAttr_def)
qed

text \<open>
  Storing an attribute of an object, with the counters moved from the attribute's previous references
  to the new ones.
\<close>

lemma set_attr_keeps:
  assumes "meta_ok h" "db_inv h s" "attr_ready h s key attr md" "map_of (m_saiObjectCollection s) key = Some obj"
    and "counted (\<lambda>x. total_refs h (m_saiObjectCollection s) x
            - count_list (prev_refs (getObjectAttr (m_saiObjectCollection s) key (a_id attr))) x
            + count_list (attr_refs md (a_value attr)) x) m"
    and "\<forall>x. has_key m x = has_key (m_oids s) x"
  shows "db_inv h (s\<lparr>m_oids := m, m_saiObjectCollection :=
     AList.update key (setAttr h md attr obj) (m_saiObjectCollection s)\<rparr>)"
proof -
  let ?c = "m_saiObjectCollection s"
  let ?prev = "getObjectAttr ?c key (a_id attr)"
  note ok = meta_okD(2) [OF assms(1)]
  have lo: "list_ok (attr_ref_list md (a_value attr))" using assms(3) by (auto simp: attr_ready_def)
  have objs: "object_ok h m k o'" if "map_of ?c k = Some o'" for k o'
    using db_inv_object [OF assms(2) that] assms(6) by (auto intro: object_ok_mono)
  have prev: "?prev = getAttr obj (a_id attr)" using assms(4) by (simp add: getObjectAttr_def)
  have le: "count_list (prev_refs ?prev) x \<le> total_refs h ?c x" for x
    using previous_ok(4) [OF assms(2)] by (cases ?prev) auto
  have "total_refs h (AList.update key (setAttr h md attr obj) ?c) x =
      total_refs h ?c x - count_list (prev_refs ?prev) x + count_list (attr_refs md (a_value attr)) x" for x
    using total_refs_setAttr [OF assms(4), of h md attr x] le [of x]
    by (simp add: prev wrapper_refs_new [OF ok lo])
  then have "counted (total_refs h (AList.update key (setAttr h md attr obj) ?c)) m"
    using counted_cong [OF assms(5)] by simp
  moreover have "object_ok h m key (setAttr h md attr obj)"
  proof (rule setAttr_ok [OF ok objs [OF assms(4)], of "s\<lparr>m_oids := m\<rparr>"])
    show "attr_ready h (s\<lparr>m_oids := m\<rparr>) key attr md"
      using assms(3,6) by (auto simp: attr_ready_def refs_local_def)
  qed simp
  ultimately show ?thesis
    using objs db_inv_wf [OF assms(2)] by (simp add: db_inv_def)
qed

text \<open>
  The step shared by create and set: with the counters moved from the previous references of the
  attribute to the new ones, storing the attribute (or not storing it, when the cache policy says
  so, or failing because there is no object) restores the invariant.
\<close>

lemma store_keeps:
  assumes "meta_ok h" "db_inv h s" "attr_ready h s key attr md"
    and "counted (\<lambda>x. total_refs h (m_saiObjectCollection s) x
            - count_list (prev_refs (getObjectAttr (m_saiObjectCollection s) key (a_id attr))) x
            + count_list (attr_refs md (a_value attr)) x) m"
    and "\<forall>x. has_key m x = has_key (m_oids s) x"
  shows "db_inv h (snd (store_attr h key md attr (s\<lparr>m_oids := m\<rparr>)))"
proof -
  let ?c = "m_saiObjectCollection s"
  let ?prev = "getObjectAttr ?c key (a_id attr)"
  note ok = meta_okD(1,2) [OF assms(1)]
  have md: "get_attr_metadata h (objecttype key) (a_id attr) = Some md"
    and lo: "list_ok (attr_ref_list md (a_value attr))"
    using assms(3) by (auto simp: attr_ready_def)
  have objs: "object_ok h m k o'" if "map_of ?c k = Some o'" for k o'
    using db_inv_object [OF assms(2) that] assms(5) by (auto intro: object_ok_mono)
  have same: "db_inv h (s\<lparr>m_oids := m\<rparr>)"
    if "prev_refs ?prev = []" "attr_refs md (a_value attr) = []"
    using assms(4) that objs db_inv_wf [OF assms(2)] by (simp add: db_inv_def)
  show ?thesis
  proof (cases "map_of ?c key")
    case None
    then have "prev_refs ?prev = []" "attr_refs md (a_value attr) = []"
      using assms(3) by (auto simp: attr_ready_def objectExists_def has_key_def getObjectAttr_def)
    then show ?thesis
      using same store_missing [of "s\<lparr>m_oids := m\<rparr>"] None by (simp add: objectExists_def has_key_def)
  next
    case (Some obj)
    show ?thesis
    proof (cases "shouldCacheAttribute h (objecttype key) md")
      case False
      then have "\<not> md_isoidattribute md" by (simp add: shouldCache_iff)
      then have none: "attr_refs md v = []" for v
        by (rule not_isoid_no_refs [OF ok(1) md])
      have "prev_refs ?prev = []"
        using previous_ok(1) [OF assms(2), of key "a_id attr"] md none
        by (cases ?prev) (auto simp: wrapper_refs_def)
      with none same False Some show ?thesis by (simp add: store_present)
    next
      case True
      with set_attr_keeps [OF assms(1-3) Some assms(4,5)] Some show ?thesis by (simp add: store_present)
    qed
  qed
qed

lemma store_success:
  assumes "store_attr h key md attr s = (Inr (), s')"
  shows "m_oids s' = m_oids s"
    "objectExists (m_saiObjectCollection s') k = objectExists (m_saiObjectCollection s) k"
    "a \<noteq> a_id attr \<Longrightarrow>
       getObjectAttr (m_saiObjectCollection s') key a = getObjectAttr (m_saiObjectCollection s) key a"
    "m_saiObjectCollection s' = m_saiObjectCollection s \<and> \<not> shouldCacheAttribute h (objecttype key) md \<or>
     (\<exists>obj. map_of (m_saiObjectCollection s) key = Some obj \<and>
        m_saiObjectCollection s' = AList.update key (setAttr h md attr obj) (m_saiObjectCollection s))"
  using assms
  by (auto simp: store_attr_def zoom_def setObjectAttr_def ret_def getObjectAttr_def objectExists_def
      setAttr_def getAttr_def has_key_def split: if_splits option.splits)

section \<open>Create\<close>

definition attr_oids :: "sai_meta \<Rightarrow> meta_key \<Rightarrow> sai_attribute \<Rightarrow> oid list" where
  "attr_oids h key attr =
     (case get_attr_metadata h (objecttype key) (a_id attr) of
        None \<Rightarrow> [] | Some md \<Rightarrow> attr_refs md (a_value attr))"

lemma post_create_attr_eq:
  "get_attr_metadata h (objecttype key) (a_id attr) = Some md \<Longrightarrow>
     post_create_attr h key attr =
       seq (on_oids (post_create_attr_refs md (a_value attr))) (\<lambda>_. store_attr h key md attr)"
  by (simp add: post_create_attr_def store_attr_def)

text \<open>
  Ready to run over the attributes still to come: none of them has a stored value with references,
  their ids are distinct, and their references have room.
\<close>

definition create_ready :: "sai_meta \<Rightarrow> meta_key \<Rightarrow> sai_attribute list \<Rightarrow> meta_db \<Rightarrow> bool" where
  "create_ready h key attrs s \<longleftrightarrow>
     db_inv h s \<and> distinct (map a_id attrs) \<and>
     (\<forall>attr \<in> set attrs. \<exists>md. attr_ready h s key attr md) \<and>
     (\<forall>attr \<in> set attrs. prev_refs (getObjectAttr (m_saiObjectCollection s) key (a_id attr)) = []) \<and>
     refs_bound h (m_saiObjectCollection s) (concat (map (attr_oids h key) attrs))"

lemma create_attr_step:
  assumes "meta_ok h" "create_ready h key (attr # attrs) s" "post_create_attr h key attr s = (r, s')"
  shows "db_inv h s' \<and> (r = Inr () \<longrightarrow> create_ready h key attrs s')"
proof -
  let ?c = "m_saiObjectCollection s"
  from assms(2) obtain md where rdy: "attr_ready h s key attr md" by (auto simp: create_ready_def)
  have inv: "db_inv h s" and noprev: "prev_refs (getObjectAttr ?c key (a_id attr)) = []"
    using assms(2) by (auto simp: create_ready_def)
  have md: "get_attr_metadata h (objecttype key) (a_id attr) = Some md"
    using rdy by (simp add: attr_ready_def)
  have oids: "attr_oids h key attr = attr_refs md (a_value attr)" by (simp add: attr_oids_def md)
  show ?thesis
  proof (cases "creatable (md_attrvaluetype md)")
    case False
    with assms(3) inv show ?thesis
      by (auto simp: post_create_attr_eq [OF md] create_refs_eq zoom_def raise_def seq_def)
  next
    case True
    have lo: "list_ok (attr_ref_list md (a_value attr))"
      and loc: "refs_local h (m_oids s) (key_switch h key) (attr_refs md (a_value attr))"
      using rdy by (auto simp: attr_ready_def)
    have b: "total_refs h ?c x + count_list (attr_refs md (a_value attr)) x \<le> nat INT32_MAX" if "x \<noteq> 0" for x
      using assms(2) that by (auto simp: create_ready_def refs_bound_def oids trans_le_add2
          dest!: spec [of _ x])
    from increment_list_ok [OF lo db_inv_counted [OF inv]] b refs_local_exist [OF loc]
    obtain m where m: "objectReferenceIncrement_list (attr_ref_list md (a_value attr)) (m_oids s) = (Inr (), m)"
      "counted (\<lambda>x. total_refs h ?c x + count_list (attr_refs md (a_value attr)) x) m"
      "\<forall>x. has_key m x = has_key (m_oids s) x"
      by (auto simp: attr_refs_def)
    have st: "(r, s') = store_attr h key md attr (s\<lparr>m_oids := m\<rparr>)"
      using assms(3) True m(1) by (simp add: post_create_attr_eq [OF md] create_refs_eq zoom_def seq_def)
    have "db_inv h (snd (store_attr h key md attr (s\<lparr>m_oids := m\<rparr>)))"
      by (rule store_keeps [OF assms(1) inv rdy]) (use m noprev in simp_all)
    then have inv': "db_inv h s'" using st by (metis snd_conv)
    have "create_ready h key attrs s'" if "r = Inr ()"
    proof -
      from st that have "store_attr h key md attr (s\<lparr>m_oids := m\<rparr>) = (Inr (), s')" by simp
      note ss = store_success [OF this, simplified]
      have tot: "total_refs h (m_saiObjectCollection s') x =
          total_refs h ?c x + count_list (attr_refs md (a_value attr)) x" for x
        using ss(4)
      proof (elim disjE conjE exE)
        assume "m_saiObjectCollection s' = ?c" "\<not> shouldCacheAttribute h (objecttype key) md"
        then show ?thesis
          using not_isoid_no_refs [OF meta_okD(1) [OF assms(1)] md] by (simp add: shouldCache_iff)
      next
        fix obj
        assume o: "map_of ?c key = Some obj"
          "m_saiObjectCollection s' = AList.update key (setAttr h md attr obj) ?c"
        then have "prev_refs (getAttr obj (a_id attr)) = []"
          using noprev by (simp add: getObjectAttr_def)
        with total_refs_setAttr [OF o(1), of h md attr x] show ?thesis
          by (simp add: o(2) wrapper_refs_new [OF meta_okD(2) [OF assms(1)] lo])
      qed
      have "\<exists>md. attr_ready h s' key at md" if "at \<in> set attrs" for at
      proof -
        have "\<exists>md'. attr_ready h s key at md'" using assms(2) that by (simp add: create_ready_def)
        then obtain md' where "attr_ready h s key at md'" ..
        then have "attr_ready h s' key at md'"
          using ss(1,2) m(3) by (auto simp: attr_ready_def refs_local_def)
        then show ?thesis ..
      qed
      moreover have "a_id at \<noteq> a_id attr" if "at \<in> set attrs" for at
      proof -
        have "a_id attr \<notin> a_id ` set attrs" using assms(2) by (simp add: create_ready_def)
        with that show ?thesis by (metis imageI)
      qed
      ultimately show ?thesis
        using assms(2) inv' ss(3) tot
        by (auto simp: create_ready_def refs_bound_def oids add.assoc)
    qed
    with inv' show ?thesis by blast
  qed
qed

lemma create_attrs_keep:
  assumes "meta_ok h"
  shows "create_ready h key attrs s \<Longrightarrow> db_inv h (snd (forM (post_create_attr h key) attrs s))"
proof (induction attrs arbitrary: s)
  case Nil
  then show ?case by (simp add: ret_def create_ready_def)
next
  case (Cons attr attrs)
  obtain r s' where st: "post_create_attr h key attr s = (r, s')" by fastforce
  note step = create_attr_step [OF assms Cons.prems st]
  show ?case
    using step Cons.IH [of s'] by (cases r) (simp_all add: st seq_def)
qed

text \<open>What the validation of a create call establishes of its arguments.\<close>

definition create_args_ok :: "sai_meta \<Rightarrow> meta_db \<Rightarrow> meta_key \<Rightarrow> sai_attribute list \<Rightarrow> bool" where
  "create_args_ok h s key attrs \<longleftrightarrow>
     distinct (map a_id attrs) \<and>
     refs_local h (m_oids s) (key_switch h key) (member_oids h key) \<and>
     (\<forall>attr \<in> set attrs. \<exists>md.
        get_attr_metadata h (objecttype key) (a_id attr) = Some md \<and>
        list_ok (attr_ref_list md (a_value attr)) \<and>
        refs_local h (m_oids s) (key_switch h key) (attr_refs md (a_value attr)) \<and>
        (if objecttype key = ot_switch h then \<not> md_isoidattribute md else removable (md_attrvaluetype md)))"

lemma db_inv_cong:
  "m_oids s' = m_oids s \<Longrightarrow> m_saiObjectCollection s' = m_saiObjectCollection s \<Longrightarrow> db_inv h s' = db_inv h s"
  by (simp add: db_inv_def)

lemma zoom_forM:
  assumes "\<And>s x. get (put x s) = x" "\<And>s. put (get s) s = s" "\<And>s x y. put x (put y s) = put x s"
  shows "forM (\<lambda>x. zoom get put (f x)) xs = zoom get put (forM f xs)"
proof (induction xs)
  case Nil
  show ?case using assms(2) by (simp add: ret_def zoom_def fun_eq_iff)
next
  case (Cons x xs)
  then show ?case
    using assms by (simp add: zoom_def seq_def fun_eq_iff split: prod.splits sum.splits)
qed

lemma forM_filter: "forM (\<lambda>x. if P x then ret () else f x) xs = forM f (filter (\<lambda>x. \<not> P x) xs)"
  by (induction xs) simp_all

lemma forM_map: "forM f (map g xs) = forM (\<lambda>x. f (g x)) xs"
  by (induction xs) auto

lemma on_oids_forM: "forM (\<lambda>x. on_oids (f x)) xs = on_oids (forM f xs)"
  by (rule zoom_forM) simp_all

lemma increment_members_eq:
  assumes "get_object_type_info h (objecttype key) = Some info" "isnonobjectid info"
  shows "increment_members info key = on_oids (forM objectReferenceIncrement (member_oids h key))"
  using assms
  by (simp add: increment_members_def member_oids_def forM_filter forM_map on_oids_forM)

lemma decrement_members_eq:
  assumes "get_object_type_info h (objecttype key) = Some info" "isnonobjectid info"
  shows "decrement_members info key = on_oids (forM objectReferenceDecrement (member_oids h key))"
  using assms
  by (simp add: decrement_members_def member_oids_def forM_filter forM_map on_oids_forM)

lemma member_oids_oid_type:
  "get_object_type_info h (objecttype key) = Some info \<Longrightarrow> \<not> isnonobjectid info \<Longrightarrow> member_oids h key = []"
  by (simp add: member_oids_def)

lemma new_object_simps [simp]:
  "object_refs_count h key \<lparr>m_metaKey = k, m_attrs = []\<rparr> x = count_list (member_oids h key) x"
  "object_oids h key \<lparr>m_metaKey = k, m_attrs = []\<rparr> = member_oids h key"
  by (simp_all add: object_refs_count_def attrs_refs_count_def object_oids_def)

lemma objectReferenceIncrement_keys: "has_key (snd (objectReferenceIncrement x m)) y = has_key m y"
  by (auto simp: objectReferenceIncrement_def objectReferenceExists_def)

text \<open>The object is there and its entry members are counted.\<close>

lemma entry_members_counted:
  assumes "db_inv h s" "map_of (m_saiObjectCollection s) key = None" "object_type_valid h (objecttype key)"
    and "refs_local h (m_oids s) (key_switch h key) (member_oids h key)"
    and "c = AList.update key \<lparr>m_metaKey = key, m_attrs = []\<rparr> (m_saiObjectCollection s)"
    and "counted (\<lambda>x. total_refs h (m_saiObjectCollection s) x + count_list (member_oids h key) x) m"
    and "\<forall>x. has_key m x = has_key (m_oids s) x"
  shows "db_inv h (s\<lparr>m_saiObjectCollection := c, m_oids := m\<rparr>)"
proof -
  have "counted (total_refs h c) m"
    by (rule counted_cong [OF assms(6)]) (simp add: assms(5) total_refs_new [OF assms(2)])
  moreover have "object_ok h m k o'" if "map_of c k = Some o'" for k o'
  proof (cases "k = key")
    case True
    with that have "o' = \<lparr>m_metaKey = key, m_attrs = []\<rparr>" by (simp add: assms(5))
    with True assms(3,4,7) show ?thesis by (auto simp: object_ok_def refs_local_def)
  next
    case False
    with that have "map_of (m_saiObjectCollection s) k = Some o'" by (simp add: assms(5))
    from db_inv_object [OF assms(1) this] assms(7) show ?thesis by (auto intro: object_ok_mono)
  qed
  ultimately show ?thesis
    using db_inv_wf [OF assms(1)] by (simp add: db_inv_def assms(5))
qed

lemma create_entry_members:
  assumes "db_inv h s" "map_of (m_saiObjectCollection s) key = None" "object_type_valid h (objecttype key)"
    and "refs_local h (m_oids s) (key_switch h key) (member_oids h key)"
    and "refs_bound h (m_saiObjectCollection s) (member_oids h key)"
    and "c = AList.update key \<lparr>m_metaKey = key, m_attrs = []\<rparr> (m_saiObjectCollection s)"
  shows "\<exists>m. forM objectReferenceIncrement (member_oids h key) (m_oids s) = (Inr (), m) \<and>
     db_inv h (s\<lparr>m_saiObjectCollection := c, m_oids := m\<rparr>) \<and> (\<forall>x. has_key m x = has_key (m_oids s) x)"
proof -
  have b: "total_refs h (m_saiObjectCollection s) x + count_list (member_oids h key) x \<le> nat INT32_MAX"
    if "x \<noteq> 0" for x using assms(5) that by (simp add: refs_bound_def)
  from increment_all [OF db_inv_counted [OF assms(1)] refs_local_exist [OF assms(4)] b]
  obtain m where m: "forM objectReferenceIncrement (member_oids h key) (m_oids s) = (Inr (), m)"
    "counted (\<lambda>x. total_refs h (m_saiObjectCollection s) x + count_list (member_oids h key) x) m"
    "\<forall>x. has_key m x = has_key (m_oids s) x" by blast
  with entry_members_counted [OF assms(1-4,6)] show ?thesis by blast
qed

text \<open>A new id with no references to it yet gets the count zero.\<close>

lemma insert_reference_keeps:
  assumes "db_inv h s" "oid \<noteq> 0"
  shows "db_inv h (snd (on_oids (objectReferenceInsert oid) s))"
proof (cases "has_key (m_oids s) oid")
  case True
  then show ?thesis
    using assms(1) by (simp add: zoom_def objectReferenceInsert_def objectReferenceExists_def)
next
  case False
  from total_refs_absent [OF assms(1) False assms(2)] False assms db_inv_counted [OF assms(1)]
  have "counted (total_refs h (m_saiObjectCollection s)) (AList.update oid 0 (m_oids s))"
    by (intro counted_insert) auto
  moreover have "object_ok h (AList.update oid 0 (m_oids s)) k o'"
    if "map_of (m_saiObjectCollection s) k = Some o'" for k o'
    by (rule object_ok_mono [OF db_inv_object [OF assms(1) that]]) simp
  ultimately show ?thesis
    using False db_inv_wf [OF assms(1)]
    by (simp add: zoom_def objectReferenceInsert_def objectReferenceExists_def db_inv_def)
qed

lemma post_create_reference_keeps:
  assumes "db_inv h s"
  shows "db_inv h (snd (post_create_reference h key sw connect s))"
    "has_key (m_oids s) x \<Longrightarrow> has_key (m_oids (snd (post_create_reference h key sw connect s))) x"
    "m_saiObjectCollection (snd (post_create_reference h key sw connect s)) = m_saiObjectCollection s"
proof -
  show "db_inv h (snd (post_create_reference h key sw connect s))"
    using assms insert_reference_keeps [OF assms]
    by (auto simp: post_create_reference_def Let_def)
qed (auto simp: post_create_reference_def Let_def zoom_def objectReferenceInsert_def)

lemma snd_seq:
  "snd (seq m f s) = (case m s of (Inl e, s') \<Rightarrow> s' | (Inr x, s') \<Rightarrow> snd (f x s'))"
  by (auto simp: seq_def split: prod.splits sum.splits)

lemma db_inv_seqI:
  assumes "db_inv h (snd (m s))" "\<And>x s'. m s = (Inr x, s') \<Longrightarrow> db_inv h (snd (f x s'))"
  shows "db_inv h (snd (seq m f s))"
  using assms by (auto simp: snd_seq split: prod.splits sum.splits)

lemma db_inv_attrkeys [simp]: "db_inv h (snd (on_attrkeys m s)) = db_inv h s"
  by (auto simp: zoom_def split_beta intro!: db_inv_cong)

lemma db_inv_ports [simp]: "db_inv h (snd (on_ports m s)) = db_inv h s"
  by (auto simp: zoom_def split_beta intro!: db_inv_cong)

lemma create_ready_warm: "create_ready h key attrs (s\<lparr>m_warmBoot := b\<rparr>) = create_ready h key attrs s"
  by (simp add: create_ready_def attr_ready_def db_inv_def)

lemma create_readyI:
  assumes "db_inv h s" "create_args_ok h s0 key attrs"
    and "\<And>x. has_key (m_oids s0) x \<Longrightarrow> has_key (m_oids s) x"
    and "\<And>attr md. attr \<in> set attrs \<Longrightarrow> get_attr_metadata h (objecttype key) (a_id attr) = Some md \<Longrightarrow>
       list_ok (attr_ref_list md (a_value attr)) \<Longrightarrow>
       (objecttype key \<noteq> ot_switch h \<longrightarrow> objectExists (m_saiObjectCollection s) key) \<and>
       (objecttype key = ot_switch h \<longrightarrow> attr_refs md (a_value attr) = []) \<and>
       prev_refs (getObjectAttr (m_saiObjectCollection s) key (a_id attr)) = []"
    and "refs_bound h (m_saiObjectCollection s) (concat (map (attr_oids h key) attrs))"
  shows "create_ready h key attrs s"
  unfolding create_ready_def
proof (intro conjI ballI)
  show "db_inv h s" "distinct (map a_id attrs)"
    "refs_bound h (m_saiObjectCollection s) (concat (map (attr_oids h key) attrs))"
    using assms by (auto simp: create_args_ok_def)
  fix attr
  assume a: "attr \<in> set attrs"
  with assms(2) obtain md where md: "get_attr_metadata h (objecttype key) (a_id attr) = Some md"
    "list_ok (attr_ref_list md (a_value attr))"
    "refs_local h (m_oids s0) (key_switch h key) (attr_refs md (a_value attr))"
    "objecttype key \<noteq> ot_switch h \<longrightarrow> removable (md_attrvaluetype md)"
    unfolding create_args_ok_def by metis
  have "refs_local h (m_oids s) (key_switch h key) (attr_refs md (a_value attr))"
    by (rule refs_local_mono [OF md(3)]) (use assms(3) in auto)
  with md assms(4) [OF a md(1,2)] show "\<exists>md. attr_ready h s key attr md"
    unfolding attr_ready_def by metis
  show "prev_refs (getObjectAttr (m_saiObjectCollection s) key (a_id attr)) = []"
    using assms(4) [OF a md(1,2)] by blast
qed

lemma post_create_attributes_keep:
  assumes "meta_ok h" "create_ready h key attrs s"
  shows "db_inv h (snd (post_create_attributes h key switch_id attrs s))"
  unfolding post_create_attributes_def
proof (rule db_inv_seqI)
  have inv: "db_inv h s" using assms(2) by (simp add: create_ready_def)
  show "db_inv h (snd (modify (m_warmBoot_update (\<lambda>_. False)) s))"
    using inv by (simp add: modify_def db_inv_def)
  fix x s'
  assume "modify (m_warmBoot_update (\<lambda>_. False)) s = (Inr x, s')"
  then have "create_ready h key attrs s'"
    using assms(2) create_ready_warm by (auto simp: modify_def)
  from create_attrs_keep [OF assms(1) this]
  have fin: "db_inv h (snd (forM (post_create_attr h key) attrs s'))" .
  show "db_inv h (snd (seq (forM (post_create_attr h key) attrs) (\<lambda>_.
            if \<exists>attr \<in> set attrs. attr_is_key h (objecttype key) attr then
              seq (lift (constructKey h switch_id key attrs)) (\<lambda>attrKey.
                on_attrkeys (attrkey_insert (serialize_meta_key h key) attrKey))
            else ret ()) s'))"
    using fin
    by (intro db_inv_seqI) (auto simp: ret_def lift_def intro!: db_inv_seqI)
qed

lemma refs_bound_append1: "refs_bound h c (xs @ ys) \<Longrightarrow> refs_bound h c xs"
  by (fastforce simp: refs_bound_def)

lemma refs_bound_mono:
  assumes "refs_bound h c (xs @ ys)" "\<And>x. total_refs h c' x \<le> total_refs h c x + count_list xs x"
  shows "refs_bound h c' ys"
  unfolding refs_bound_def
proof (intro allI impI)
  fix x :: oid
  assume "x \<noteq> 0"
  with assms(1) have "total_refs h c x + (count_list xs x + count_list ys x) \<le> nat INT32_MAX"
    by (simp add: refs_bound_def)
  with assms(2) [of x] show "total_refs h c' x + count_list ys x \<le> nat INT32_MAX" by linarith
qed

text \<open>
  Creating: the switch that is only connected to, or found again after a warm boot, keeps its
  object; anything else gets a new one.
\<close>

lemma post_create_switch_ready:
  assumes "meta_ok h" "db_inv h s" "create_args_ok h s key attrs" "objecttype key = ot_switch h"
    and "refs_bound h (m_saiObjectCollection s) (concat (map (attr_oids h key) attrs))"
  shows "create_ready h key attrs s"
proof (rule create_readyI [OF assms(2,3)])
  fix attr md
  assume a: "attr \<in> set attrs" "get_attr_metadata h (objecttype key) (a_id attr) = Some md"
  with assms(3,4) have "\<not> md_isoidattribute md" by (auto simp: create_args_ok_def)
  then have none: "attr_refs md v = []" for v
    by (rule not_isoid_no_refs [OF meta_okD(1) [OF assms(1)] a(2)])
  have "prev_refs (getObjectAttr (m_saiObjectCollection s) key (a_id attr)) = []"
    using previous_ok(1) [OF assms(2), of key "a_id attr"] a(2) none
    by (cases "getObjectAttr (m_saiObjectCollection s) key (a_id attr)") (auto simp: wrapper_refs_def)
  with none assms(4)
  show "(objecttype key \<noteq> ot_switch h \<longrightarrow> objectExists (m_saiObjectCollection s) key) \<and>
       (objecttype key = ot_switch h \<longrightarrow> attr_refs md (a_value attr) = []) \<and>
       prev_refs (getObjectAttr (m_saiObjectCollection s) key (a_id attr)) = []" by simp
qed (use assms(5) in auto)

lemma create_args_mono:
  assumes "create_args_ok h s key attrs" "\<And>x. has_key (m_oids s) x \<Longrightarrow> has_key (m_oids s') x"
  shows "create_args_ok h s' key attrs"
proof -
  have r: "refs_local h (m_oids s') sw xs" if "refs_local h (m_oids s) sw xs" for sw xs
    using that assms(2) by (rule refs_local_mono)
  show ?thesis
    unfolding create_args_ok_def
  proof (intro conjI ballI)
    show "distinct (map a_id attrs)" "refs_local h (m_oids s') (key_switch h key) (member_oids h key)"
      using assms(1) r by (auto simp: create_args_ok_def)
    fix attr
    assume "attr \<in> set attrs"
    with assms(1) r show "\<exists>md. get_attr_metadata h (objecttype key) (a_id attr) = Some md \<and>
        list_ok (attr_ref_list md (a_value attr)) \<and>
        refs_local h (m_oids s') (key_switch h key) (attr_refs md (a_value attr)) \<and>
        (if objecttype key = ot_switch h then \<not> md_isoidattribute md else removable (md_attrvaluetype md))"
      unfolding create_args_ok_def by meson
  qed
qed

lemma create_args_switch_refs:
  assumes "meta_ok h" "create_args_ok h s key attrs" "objecttype key = ot_switch h"
    and "attr \<in> set attrs" "get_attr_metadata h (objecttype key) (a_id attr) = Some md"
  shows "attr_refs md v = []"
proof -
  from assms(2-5) have "\<not> md_isoidattribute md" by (auto simp: create_args_ok_def)
  then show ?thesis by (rule not_isoid_no_refs [OF meta_okD(1) [OF assms(1)] assms(5)])
qed

lemma post_create_object_cases:
  assumes "post_create_object h key connect s = (r, s1)"
    "connect \<Longrightarrow> objecttype key = ot_switch h"
  obtains (kept) "r = Inr ()" "s1 = s" "objecttype key = ot_switch h"
    | (failed) "\<exists>e. r = Inl e" "s1 = s"
    | (created) "r = Inr ()" "map_of (m_saiObjectCollection s) key = None" "object_type_valid h (objecttype key)"
        "s1 = s\<lparr>m_saiObjectCollection :=
                  AList.update key \<lparr>m_metaKey = key, m_attrs = []\<rparr> (m_saiObjectCollection s)\<rparr>"
proof (cases "m_warmBoot s \<and> objecttype key = ot_switch h \<or> connect")
  case True
  then have "r = Inr ()" "s1 = s"
    using assms(1) by (auto simp: post_create_object_def seq_def gets_def ret_def split: if_splits)
  with True assms(2) kept show ?thesis by blast
next
  case False
  then have eq: "(r, s1) = on_objects (createObject h key) s"
    using assms(1) by (auto simp: post_create_object_def seq_def gets_def)
  consider "\<not> object_type_valid h (objecttype key)" | "has_key (m_saiObjectCollection s) key"
    | "object_type_valid h (objecttype key)" "map_of (m_saiObjectCollection s) key = None"
    by (auto simp: has_key_def)
  then show ?thesis
  proof cases
    case 1
    with eq failed show ?thesis by (simp add: zoom_def createObject_def sai_object_new_def)
  next
    case 2
    have "(\<exists>e. r = Inl e) \<and> s1 = s"
      using eq 2 by (cases "object_type_valid h (objecttype key)")
        (simp_all add: zoom_def createObject_def sai_object_new_def objectExists_def)
    with failed show ?thesis by blast
  next
    case 3
    with eq created show ?thesis
      by (simp add: zoom_def createObject_def sai_object_new_def objectExists_def has_key_def)
  qed
qed

text \<open>What the second step leaves for the loop over the attributes.\<close>

definition references_done ::
  "sai_meta \<Rightarrow> meta_key \<Rightarrow> sai_attribute list \<Rightarrow> (fault + unit) \<times> meta_db \<Rightarrow> bool" where
  "references_done h key attrs rs \<longleftrightarrow>
     db_inv h (snd rs) \<and> (fst rs = Inr () \<longrightarrow> create_ready h key attrs (snd rs))"

lemma references_kept:
  assumes "meta_ok h" "db_inv h s" "create_args_ok h s key attrs" "objecttype key = ot_switch h"
    and "refs_bound h (m_saiObjectCollection s) (concat (map (attr_oids h key) attrs))"
  shows "references_done h key attrs (post_create_references h key sw connect s)"
proof (cases "get_object_type_info h (objecttype key)")
  case None
  with assms(2) show ?thesis by (simp add: references_done_def post_create_references_def raise_def)
next
  case (Some info)
  then have ni: "\<not> isnonobjectid info"
    using metadata_okD(6) [OF meta_okD(1) [OF assms(1)]] assms(4) by simp
  note keep = post_create_reference_keeps [OF assms(2), where key = key and sw = sw and connect = connect]
  let ?s = "snd (post_create_reference h key sw connect s)"
  have "create_ready h key attrs ?s"
    by (rule post_create_switch_ready [OF assms(1) keep(1) create_args_mono [OF assms(3) keep(2)] assms(4)])
      (use assms(5) keep(3) in auto)
  with keep(1) Some ni show ?thesis by (simp add: references_done_def post_create_references_def)
qed

lemma references_created:
  assumes "meta_ok h" "db_inv h s" "create_args_ok h s key attrs"
    and "refs_bound h (m_saiObjectCollection s) (member_oids h key @ concat (map (attr_oids h key) attrs))"
    and "map_of (m_saiObjectCollection s) key = None" "object_type_valid h (objecttype key)"
    and "s1 = s\<lparr>m_saiObjectCollection :=
                  AList.update key \<lparr>m_metaKey = key, m_attrs = []\<rparr> (m_saiObjectCollection s)\<rparr>"
  shows "references_done h key attrs (post_create_references h key sw connect s1)"
proof -
  let ?c = "AList.update key \<lparr>m_metaKey = key, m_attrs = []\<rparr> (m_saiObjectCollection s)"
  have "\<exists>info. get_object_type_info h (objecttype key) = Some info"
    by (rule metadata_okD(5) [OF meta_okD(1) [OF assms(1)] assms(6)])
  then obtain info where info: "get_object_type_info h (objecttype key) = Some info" ..
  have loc: "refs_local h (m_oids s) (key_switch h key) (member_oids h key)"
    using assms(3) by (simp add: create_args_ok_def)
  from create_entry_members [OF assms(2,5,6) loc refs_bound_append1 [OF assms(4)] refl]
  obtain m where m: "forM objectReferenceIncrement (member_oids h key) (m_oids s) = (Inr (), m)"
    "db_inv h (s\<lparr>m_saiObjectCollection := ?c, m_oids := m\<rparr>)"
    "\<forall>x. has_key m x = has_key (m_oids s) x" by blast
  have ready: "create_ready h key attrs s2"
    if "db_inv h s2" "\<And>y. has_key (m_oids s) y \<Longrightarrow> has_key (m_oids s2) y"
      "m_saiObjectCollection s2 = ?c" for s2
  proof (rule create_readyI [OF that(1) assms(3) that(2)])
    show "refs_bound h (m_saiObjectCollection s2) (concat (map (attr_oids h key) attrs))"
      unfolding that(3) using assms(4) by (rule refs_bound_mono) (simp add: total_refs_new [OF assms(5)])
    fix attr md
    assume a: "attr \<in> set attrs" "get_attr_metadata h (objecttype key) (a_id attr) = Some md"
    have "objecttype key = ot_switch h \<longrightarrow> attr_refs md (a_value attr) = []"
      using create_args_switch_refs [OF assms(1,3) _ a] by blast
    then show "(objecttype key \<noteq> ot_switch h \<longrightarrow> objectExists (m_saiObjectCollection s2) key) \<and>
       (objecttype key = ot_switch h \<longrightarrow> attr_refs md (a_value attr) = []) \<and>
       prev_refs (getObjectAttr (m_saiObjectCollection s2) key (a_id attr)) = []"
      by (simp add: that(3) getObjectAttr_def getAttr_def objectExists_def)
  qed
  show ?thesis
  proof (cases "isnonobjectid info")
    case True
    have "post_create_references h key sw connect s1 = (Inr (), s1\<lparr>m_oids := m\<rparr>)"
      using m(1) assms(7) info True
      by (simp add: post_create_references_def increment_members_eq [OF info True] zoom_def)
    moreover have inv: "db_inv h (s1\<lparr>m_oids := m\<rparr>)" using m(2) assms(7) by simp
    moreover have "create_ready h key attrs (s1\<lparr>m_oids := m\<rparr>)"
      by (rule ready [OF inv]) (use m(3) assms(7) in simp_all)
    ultimately show ?thesis by (simp add: references_done_def)
  next
    case False
    have "m = m_oids s" using m(1) member_oids_oid_type [OF info False] by (simp add: ret_def)
    then have inv1: "db_inv h s1" using m(2) assms(7) by (simp add: db_inv_def)
    note keep = post_create_reference_keeps [OF inv1, where key = key and sw = sw and connect = connect]
    have "create_ready h key attrs (snd (post_create_reference h key sw connect s1))"
      by (rule ready [OF keep(1)]) (use keep(2,3) assms(7) in simp_all)
    with keep(1) info False show ?thesis by (simp add: references_done_def post_create_references_def)
  qed
qed

lemma post_create_keeps:
  assumes "meta_ok h" "db_inv h s" "create_args_ok h s key attrs"
    and "refs_bound h (m_saiObjectCollection s) (member_oids h key @ concat (map (attr_oids h key) attrs))"
  shows "db_inv h (snd (meta_generic_validation_post_create h key switch_id attrs s))"
proof -
  let ?connect = "post_create_connect h key attrs"
  obtain r s1 where st: "post_create_object h key ?connect s = (r, s1)" by fastforce
  have con: "?connect \<Longrightarrow> objecttype key = ot_switch h" by (simp add: post_create_connect_def)
  have last: "db_inv h (snd (seq (post_create_references h key switch_id ?connect)
      (\<lambda>_. post_create_attributes h key switch_id attrs) s2))"
    if "references_done h key attrs (post_create_references h key switch_id ?connect s2)" for s2
  proof (rule db_inv_seqI)
    show "db_inv h (snd (post_create_references h key switch_id ?connect s2))"
      using that by (simp add: references_done_def)
    fix x s3
    assume "post_create_references h key switch_id ?connect s2 = (Inr x, s3)"
    with that have "create_ready h key attrs s3" by (simp add: references_done_def)
    then show "db_inv h (snd (post_create_attributes h key switch_id attrs s3))"
      by (rule post_create_attributes_keep [OF assms(1)])
  qed
  have "(\<exists>e. r = Inl e) \<and> db_inv h s1 \<or>
      r = Inr () \<and> references_done h key attrs (post_create_references h key switch_id ?connect s1)"
  proof (rule post_create_object_cases [OF st con])
    assume "r = Inr ()" "s1 = s" and sw: "objecttype key = ot_switch h"
    moreover have "refs_bound h (m_saiObjectCollection s) (concat (map (attr_oids h key) attrs))"
      using assms(4) by (rule refs_bound_mono) simp
    ultimately show ?thesis using references_kept [OF assms(1-3) sw] by blast
  next
    assume "\<exists>e. r = Inl e" "s1 = s"
    with assms(2) show ?thesis by simp
  next
    assume "r = Inr ()" "map_of (m_saiObjectCollection s) key = None" "object_type_valid h (objecttype key)"
      "s1 = s\<lparr>m_saiObjectCollection :=
              AList.update key \<lparr>m_metaKey = key, m_attrs = []\<rparr> (m_saiObjectCollection s)\<rparr>"
    with references_created [OF assms] show ?thesis by blast
  qed
  then show ?thesis
    using st last [of s1]
    by (cases r) (simp_all add: meta_generic_validation_post_create_def Let_def snd_seq [of "post_create_object _ _ _"])
qed

section \<open>Set\<close>

lemma release_previous_ok:
  assumes "db_inv h s" "get_attr_metadata h (objecttype key) aid = Some md"
    and "prev = getObjectAttr (m_saiObjectCollection s) key aid"
  shows "\<exists>m. release_previous prev (\<lambda>p. objectReferenceDecrement_list (attr_ref_list md p)) (m_oids s) = (Inr (), m) \<and>
     counted (\<lambda>x. total_refs h (m_saiObjectCollection s) x - count_list (prev_refs prev) x) m \<and>
     (\<forall>x. has_key m x = has_key (m_oids s) x)"
proof (cases prev)
  case None
  with db_inv_counted [OF assms(1)] show ?thesis by (simp add: release_previous_def ret_def)
next
  case (Some w)
  note p = previous_ok [OF assms(1), of key aid w] Some assms(3)
  have md: "w_meta w = md" using p(1) Some assms(2,3) by simp
  have lo: "list_ok (attr_ref_list md (a_value (w_attr w)))" using p(2) Some assms(3) md by simp
  have refs: "elems (attr_ref_list md (a_value (w_attr w))) = wrapper_refs w"
    by (simp add: wrapper_refs_def attr_refs_def md)
  have "refs_exist (m_oids s) (elems (attr_ref_list md (a_value (w_attr w))))"
    unfolding refs using p(3) Some assms(3) refs_local_exist by auto
  moreover have "count_list (elems (attr_ref_list md (a_value (w_attr w)))) x
      \<le> total_refs h (m_saiObjectCollection s) x" for x
    unfolding refs using previous_ok(4) [OF assms(1), of key aid w x] Some assms(3) by simp
  ultimately show ?thesis
    using decrement_list_ok [OF lo db_inv_counted [OF assms(1)]] Some
    by (simp add: release_previous_def refs)
qed

lemma post_set_keeps:
  assumes "meta_ok h" "db_inv h s" "attr_ready h s key attr md"
    and "refs_bound h (m_saiObjectCollection s) (attr_refs md (a_value attr))"
  shows "db_inv h (snd (meta_generic_validation_post_set h key attr s))"
proof -
  let ?c = "m_saiObjectCollection s"
  let ?prev = "getObjectAttr ?c key (a_id attr)"
  have md: "get_attr_metadata h (objecttype key) (a_id attr) = Some md"
    and lo: "list_ok (attr_ref_list md (a_value attr))"
    and loc: "refs_local h (m_oids s) (key_switch h key) (attr_refs md (a_value attr))"
    using assms(3) by (auto simp: attr_ready_def)
  have aid: "md_attrid md = a_id attr" by (rule metadata_okD(1) [OF meta_okD(1) [OF assms(1)] md])
  have unf: "meta_generic_validation_post_set h key attr s =
      seq (on_oids (post_set_attr_refs ?prev md (a_value attr))) (\<lambda>_. store_attr h key md attr) s"
    by (simp add: meta_generic_validation_post_set_def md get_object_previous_attr_def aid store_attr_def
        seq_def gets_def)
  show ?thesis
  proof (cases "settable (md_attrvaluetype md)")
    case False
    with assms(2) show ?thesis by (simp add: unf set_refs_eq snd_seq zoom_def raise_def)
  next
    case True
    from release_previous_ok [OF assms(2) md refl] obtain m1 where
      m1: "release_previous ?prev (\<lambda>p. objectReferenceDecrement_list (attr_ref_list md p)) (m_oids s) = (Inr (), m1)"
      "counted (\<lambda>x. total_refs h ?c x - count_list (prev_refs ?prev) x) m1"
      "\<forall>x. has_key m1 x = has_key (m_oids s) x" by blast
    have b: "total_refs h ?c x - count_list (prev_refs ?prev) x + count_list (elems (attr_ref_list md (a_value attr))) x
        \<le> nat INT32_MAX" if "x \<noteq> 0" for x
    proof -
      have "total_refs h ?c x + count_list (attr_refs md (a_value attr)) x \<le> nat INT32_MAX"
        using assms(4) that by (simp add: refs_bound_def)
      then show ?thesis unfolding attr_refs_def by linarith
    qed
    have ex: "refs_exist m1 (elems (attr_ref_list md (a_value attr)))"
      using refs_local_exist [OF loc] m1(3) by (auto simp: attr_refs_def refs_exist_def)
    from increment_list_ok [OF lo m1(2) ex b] obtain m2 where
      m2: "objectReferenceIncrement_list (attr_ref_list md (a_value attr)) m1 = (Inr (), m2)"
      "counted (\<lambda>x. total_refs h ?c x - count_list (prev_refs ?prev) x + count_list (attr_refs md (a_value attr)) x) m2"
      "\<forall>x. has_key m2 x = has_key m1 x" by (auto simp: attr_refs_def)
    have "snd (meta_generic_validation_post_set h key attr s) = snd (store_attr h key md attr (s\<lparr>m_oids := m2\<rparr>))"
      using True m1(1) m2(1) by (simp add: unf set_refs_eq snd_seq zoom_def seq_def)
    moreover have "db_inv h (snd (store_attr h key md attr (s\<lparr>m_oids := m2\<rparr>)))"
      by (rule store_keeps [OF assms(1-3) m2(2)]) (use m1(3) m2(3) in simp)
    ultimately show ?thesis by simp
  qed
qed

section \<open>Remove\<close>

definition all_refs :: "attr_wrapper list \<Rightarrow> oid list" where
  "all_refs ws = concat (map wrapper_refs ws)"

lemma all_refs_simps [simp]: "all_refs [] = []" "all_refs (w # ws) = wrapper_refs w @ all_refs ws"
  by (simp_all add: all_refs_def)

text \<open>Releasing what the attributes of an object hold.\<close>

lemma remove_attrs_run:
  assumes "objecttype key \<noteq> ot_switch h"
  shows "\<forall>w \<in> set ws. wrapper_ok h key (a_id (w_attr w)) w \<Longrightarrow> counted f (m_oids s) \<Longrightarrow>
    refs_exist (m_oids s) (all_refs ws) \<Longrightarrow> (\<And>x. x \<noteq> 0 \<Longrightarrow> count_list (all_refs ws) x \<le> f x) \<Longrightarrow>
    \<exists>m. forM (post_remove_attribute h key) ws s =
          (Inr (), s\<lparr>m_oids := m\<rparr>) \<and>
        counted (\<lambda>x. f x - count_list (all_refs ws) x) m \<and> (\<forall>x. has_key m x = has_key (m_oids s) x)"
proof (induction ws arbitrary: f s)
  case Nil
  then show ?case by (auto simp: ret_def intro!: exI [of _ "m_oids s"])
next
  case (Cons w ws)
  let ?md = "w_meta w"
  let ?l = "attr_ref_list ?md (a_value (w_attr w))"
  have w: "get_attr_metadata h (objecttype key) (a_id (w_attr w)) = Some ?md" "list_ok ?l"
    "removable (md_attrvaluetype ?md)"
    using Cons.prems(1) assms by (auto simp: wrapper_ok_def)
  have el: "elems ?l = wrapper_refs w" by (simp add: wrapper_refs_def attr_refs_def)
  have ex: "refs_exist (m_oids s) (elems ?l)" using Cons.prems(3) by (simp add: el)
  have le: "count_list (elems ?l) x \<le> f x" if "x \<noteq> 0" for x
    using Cons.prems(4) [OF that] by (simp add: el)
  from decrement_list_ok [OF w(2) Cons.prems(2) ex le] obtain m where
    m: "objectReferenceDecrement_list ?l (m_oids s) = (Inr (), m)"
    "counted (\<lambda>x. f x - count_list (wrapper_refs w) x) m" "\<forall>x. has_key m x = has_key (m_oids s) x"
    by (auto simp: el)
  let ?s = "s\<lparr>m_oids := m\<rparr>"
  have ih: "\<forall>w \<in> set ws. wrapper_ok h key (a_id (w_attr w)) w"
    "counted (\<lambda>x. f x - count_list (wrapper_refs w) x) (m_oids ?s)"
    "refs_exist (m_oids ?s) (all_refs ws)"
    using Cons.prems m(2,3) by (auto simp: refs_exist_def)
  have le': "count_list (all_refs ws) x \<le> f x - count_list (wrapper_refs w) x" if "x \<noteq> 0" for x
    using Cons.prems(4) [OF that] by simp
  from Cons.IH [OF ih le'] obtain m' where m':
    "forM (post_remove_attribute h key) ws ?s =
          (Inr (), ?s\<lparr>m_oids := m'\<rparr>)"
    "counted (\<lambda>x. f x - count_list (wrapper_refs w) x - count_list (all_refs ws) x) m'"
    "\<forall>x. has_key m' x = has_key (m_oids ?s) x" by blast
  have "on_oids (post_remove_attr_refs ?md (a_value (w_attr w))) s = (Inr (), ?s)"
    using w(3) m(1) by (simp add: remove_refs_eq zoom_def)
  then have "post_remove_attribute h key w s = (Inr (), ?s)"
    by (simp add: post_remove_attribute_def w(1))
  with m' m(3) show ?case by (intro exI [of _ m']) (simp add: seq_def)
qed

end
