(* ===== verification/Meta_Remove.thy ===== *)
theory Meta_Remove
  imports Meta_Keep
begin

text \<open>
  The removal of objects: \<open>meta_generic_validation_post_remove\<close> keeps the invariant and does not
  throw on an object that is not referred to, takes the objects related to a port along, and
  leaves nothing of a switch behind.
\<close>

section \<open>One object\<close>

lemma getAttributes_refs:
  "all_refs (getAttributes obj) = concat (map (\<lambda>(a, w). wrapper_refs w) (m_attrs obj))"
  by (simp add: all_refs_def getAttributes_def o_def split_def)

lemma object_oids_split: "object_oids h key obj = member_oids h key @ all_refs (getAttributes obj)"
  by (simp add: object_oids_def getAttributes_refs)

lemma object_ok_attributes:
  assumes "object_ok h m key obj" "w \<in> set (getAttributes obj)"
  shows "wrapper_ok h key (a_id (w_attr w)) w"
proof -
  from assms(2) obtain a where "(a, w) \<in> set (m_attrs obj)" by (auto simp: getAttributes_def)
  then have "map_of (m_attrs obj) a = Some w"
    using assms(1) by (simp add: object_ok_def map_of_mem_wf)
  then have "wrapper_ok h key a w" using assms(1) by (simp add: object_ok_def)
  then show ?thesis by (simp add: wrapper_ok_def)
qed

text \<open>Deleting an object with its references released, and its id when nobody refers to it.\<close>

lemma delete_object_inv:
  assumes "db_inv h s" "map_of (m_saiObjectCollection s) key = Some obj"
    and "counted (\<lambda>x. total_refs h (m_saiObjectCollection s) x - count_list (object_oids h key obj) x) m"
    and "\<And>x. has_key (m_oids s) x \<Longrightarrow> \<not> has_key m x \<Longrightarrow>
           x \<noteq> 0 \<and> total_refs h (m_saiObjectCollection s) x = 0"
  shows "db_inv h (s\<lparr>m_oids := m, m_saiObjectCollection := AList.delete key (m_saiObjectCollection s),
     m_attrKeys := ak\<rparr>)"
proof -
  let ?c = "m_saiObjectCollection s"
  have "total_refs h ?c x - count_list (object_oids h key obj) x = total_refs h (AList.delete key ?c) x" for x
    using total_refs_delete [OF db_inv_wf [OF assms(1)] assms(2), of h x]
    by (simp add: object_refs_count_oids)
  then have "counted (total_refs h (AList.delete key ?c)) m"
    using counted_cong [OF assms(3)] by simp
  moreover have "object_ok h m k o'" if "map_of (AList.delete key ?c) k = Some o'" for k o'
  proof -
    from that have o': "map_of ?c k = Some o'" by (simp split: if_splits)
    show ?thesis
    proof (rule object_ok_mono [OF db_inv_object [OF assms(1) o']])
      fix x assume "has_key (m_oids s) x" "x \<in> set (object_oids h k o')"
      then show "has_key m x"
        using assms(4) total_refs_zero [OF db_inv_wf [OF assms(1)] o'] by blast
    qed
  qed
  ultimately show ?thesis
    using db_inv_wf [OF assms(1)] by (simp add: db_inv_def)
qed

text \<open>What validation establishes of an object about to be removed.\<close>

definition remove_ready :: "sai_meta \<Rightarrow> meta_db \<Rightarrow> meta_key \<Rightarrow> bool" where
  "remove_ready h s key \<longleftrightarrow>
     objectExists (m_saiObjectCollection s) key \<and>
     (\<forall>info. get_object_type_info h (objecttype key) = Some info \<longrightarrow> \<not> isnonobjectid info \<longrightarrow>
        object_id key \<noteq> 0 \<and> objectReferenceExists (m_oids s) (object_id key) \<and>
        ref_at (m_oids s) (object_id key) = 0)"

definition removed_oid :: "sai_meta \<Rightarrow> meta_key \<Rightarrow> oid \<Rightarrow> bool" where
  "removed_oid h key x \<longleftrightarrow>
     (\<exists>info. get_object_type_info h (objecttype key) = Some info \<and> \<not> isnonobjectid info) \<and> x = object_id key"

lemma post_remove_object_ok:
  assumes "meta_ok h" "db_inv h s" "remove_ready h s key" "objecttype key \<noteq> ot_switch h"
  shows "\<exists>m. post_remove_object h key s = (Inr (),
       s\<lparr>m_oids := m, m_saiObjectCollection := AList.delete key (m_saiObjectCollection s),
         m_attrKeys := AList.delete (serialize_meta_key h key) (m_attrKeys s)\<rparr>) \<and>
     db_inv h (s\<lparr>m_oids := m, m_saiObjectCollection := AList.delete key (m_saiObjectCollection s),
         m_attrKeys := AList.delete (serialize_meta_key h key) (m_attrKeys s)\<rparr>) \<and>
     (\<forall>x. has_key m x \<longleftrightarrow> has_key (m_oids s) x \<and> \<not> removed_oid h key x)"
proof -
  let ?c = "m_saiObjectCollection s"
  let ?f = "total_refs h ?c"
  from assms(3) obtain obj where obj: "map_of ?c key = Some obj"
    by (auto simp: remove_ready_def objectExists_def elim: has_key_obtain)
  note ok = db_inv_object [OF assms(2) obj]
  have loc: "refs_local h (m_oids s) (key_switch h key) (object_oids h key obj)"
    using ok by (simp add: object_ok_def)
  have le: "count_list (object_oids h key obj) x \<le> ?f x" for x
    using total_ge [OF db_inv_wf [OF assms(2)] obj, of h x] by (simp add: object_refs_count_oids)
  from ok have "object_type_valid h (objecttype key)" by (simp add: object_ok_def)
  with metadata_okD(5) [OF meta_okD(1) [OF assms(1)]] obtain info
    where info: "get_object_type_info h (objecttype key) = Some info" by blast
  have ws: "\<forall>w \<in> set (getAttributes obj). wrapper_ok h key (a_id (w_attr w)) w"
    using object_ok_attributes [OF ok] by blast
  have ex: "refs_exist (m_oids s) (all_refs (getAttributes obj))" "refs_exist (m_oids s) (member_oids h key)"
    using refs_local_exist [OF loc] by (simp_all add: object_oids_split)
  have "count_list (all_refs (getAttributes obj)) x \<le> ?f x" for x
    using le [of x] by (simp add: object_oids_split)
  from remove_attrs_run [OF assms(4) ws db_inv_counted [OF assms(2)] ex(1) this]
  obtain m1 where m1: "forM (post_remove_attribute h key) (getAttributes obj) s =
          (Inr (), s\<lparr>m_oids := m1\<rparr>)"
    "counted (\<lambda>x. ?f x - count_list (all_refs (getAttributes obj)) x) m1"
    "\<forall>x. has_key m1 x = has_key (m_oids s) x" by blast
  have run: "post_remove_object h key s =
      seq (post_remove_references h key)
        (\<lambda>_. seq (on_objects (removeObject key)) (\<lambda>_. on_attrkeys (eraseMetaKey (serialize_meta_key h key))))
        (s\<lparr>m_oids := m1\<rparr>)"
    by (simp add: post_remove_object_def gets_def seq_def getObject_def obj lift_def m1(1))
  have rest: "(seq (on_objects (removeObject key)) (\<lambda>_. on_attrkeys (eraseMetaKey (serialize_meta_key h key))))
      (s\<lparr>m_oids := m\<rparr>) = (Inr (), s\<lparr>m_oids := m, m_saiObjectCollection := AList.delete key ?c,
         m_attrKeys := AList.delete (serialize_meta_key h key) (m_attrKeys s)\<rparr>)" for m
    by (simp add: seq_def zoom_def removeObject_def objectExists_def has_key_def obj eraseMetaKey_def modify_def)
  have "\<exists>m. post_remove_references h key (s\<lparr>m_oids := m1\<rparr>) = (Inr (), s\<lparr>m_oids := m\<rparr>) \<and>
      counted (\<lambda>x. ?f x - count_list (object_oids h key obj) x) m \<and>
      (\<forall>x. has_key m x \<longleftrightarrow> has_key (m_oids s) x \<and> \<not> removed_oid h key x) \<and>
      (\<forall>x. removed_oid h key x \<longrightarrow> x \<noteq> 0 \<and> ?f x = 0)"
  proof (cases "isnonobjectid info")
    case True
    have b: "count_list (member_oids h key) x \<le> ?f x - count_list (all_refs (getAttributes obj)) x" for x
      using le [of x] by (simp add: object_oids_split)
    have "refs_exist m1 (member_oids h key)" using ex(2) m1(3) by (auto simp: refs_exist_def)
    from decrement_all [OF m1(2) this b] obtain m where
      m: "forM objectReferenceDecrement (member_oids h key) m1 = (Inr (), m)"
      "counted (\<lambda>x. ?f x - count_list (all_refs (getAttributes obj)) x - count_list (member_oids h key) x) m"
      "\<forall>x. has_key m x = has_key m1 x" by blast
    have "counted (\<lambda>x. ?f x - count_list (object_oids h key obj) x) m"
      by (rule counted_cong [OF m(2)]) (simp add: object_oids_split)
    with m m1(3) True show ?thesis
      by (intro exI [of _ m])
        (simp add: post_remove_references_def decrement_members_eq [OF info True] zoom_def removed_oid_def info)
  next
    case False
    have rdy: "object_id key \<noteq> 0" "has_key (m_oids s) (object_id key)" "ref_at (m_oids s) (object_id key) = 0"
      using assms(3) info False by (auto simp: remove_ready_def objectReferenceExists_def)
    then have z: "?f (object_id key) = 0"
      using counted_at [OF db_inv_counted [OF assms(2)] rdy(2)] by simp
    have has: "has_key m1 (object_id key)" using rdy(2) m1(3) by simp
    have "ref_at m1 (object_id key) = 0" using counted_at [OF m1(2) has] z by simp
    then have "objectReferenceRemove (object_id key) m1 = (Inr (), AList.delete (object_id key) m1)"
      using has by (simp add: objectReferenceRemove_def objectReferenceExists_def)
    moreover have "counted (\<lambda>x. ?f x - count_list (object_oids h key obj) x) (AList.delete (object_id key) m1)"
      using counted_delete [OF m1(2)] member_oids_oid_type [OF info False] by (simp add: object_oids_split)
    ultimately show ?thesis
      using rdy(1) z m1(3) False
      by (intro exI [of _ "AList.delete (object_id key) m1"]) (auto simp: post_remove_references_def zoom_def removed_oid_def info)
  qed
  then obtain m where m: "post_remove_references h key (s\<lparr>m_oids := m1\<rparr>) = (Inr (), s\<lparr>m_oids := m\<rparr>)"
    "counted (\<lambda>x. ?f x - count_list (object_oids h key obj) x) m"
    "\<forall>x. has_key m x \<longleftrightarrow> has_key (m_oids s) x \<and> \<not> removed_oid h key x"
    "\<forall>x. removed_oid h key x \<longrightarrow> x \<noteq> 0 \<and> ?f x = 0" by blast
  have "post_remove_object h key s = (Inr (), s\<lparr>m_oids := m, m_saiObjectCollection := AList.delete key ?c,
         m_attrKeys := AList.delete (serialize_meta_key h key) (m_attrKeys s)\<rparr>)"
    unfolding run using m(1) rest [of m] by (simp add: seq_def)
  moreover have "db_inv h (s\<lparr>m_oids := m, m_saiObjectCollection := AList.delete key ?c,
         m_attrKeys := AList.delete (serialize_meta_key h key) (m_attrKeys s)\<rparr>)"
    by (rule delete_object_inv [OF assms(2) obj m(2)]) (use m(3,4) in blast)
  ultimately show ?thesis using m(3) by blast
qed

section \<open>The rest of the state\<close>

text \<open>
  Besides the counters: the keys of the attribute keys are printed object keys, and the objects
  related to a port are neither ports nor switches.
\<close>

definition attrkeys_ok :: "sai_meta \<Rightarrow> attr_key_map \<Rightarrow> bool" where
  "attrkeys_ok h m \<longleftrightarrow> wf_alist m \<and> set (keys m) \<subseteq> range (serialize_meta_key h)"

definition related_ok :: "sai_meta \<Rightarrow> oid list \<Rightarrow> bool" where
  "related_ok h rel \<longleftrightarrow> distinct rel \<and>
     (\<forall>x \<in> set rel. objectTypeQuery h x \<noteq> ot h OT_PORT \<and> objectTypeQuery h x \<noteq> ot_switch h)"

definition ports_ok :: "sai_meta \<Rightarrow> port_related_set \<Rightarrow> bool" where
  "ports_ok h m \<longleftrightarrow> wf_alist m \<and> (\<forall>p rel. map_of m p = Some rel \<longrightarrow> related_ok h rel)"

definition meta_inv :: "sai_meta \<Rightarrow> meta_db \<Rightarrow> bool" where
  "meta_inv h s \<longleftrightarrow> db_inv h s \<and> attrkeys_ok h (m_attrKeys s) \<and> ports_ok h (m_portRelatedSet s)"

lemma meta_invD:
  assumes "meta_inv h s"
  shows "db_inv h s" "attrkeys_ok h (m_attrKeys s)" "ports_ok h (m_portRelatedSet s)"
    "wf_alist (m_saiObjectCollection s)" "wf_alist (m_oids s)" "wf_alist (m_attrKeys s)"
    "wf_alist (m_portRelatedSet s)"
  using assms unfolding meta_inv_def db_inv_def attrkeys_ok_def ports_ok_def counted_def by blast+

lemma attrkeys_okI: "wf_alist m \<Longrightarrow> (\<And>k v. map_of m k = Some v \<Longrightarrow> k \<in> range (serialize_meta_key h)) \<Longrightarrow>
    attrkeys_ok h m"
  unfolding attrkeys_ok_def set_keys by blast

lemma attrkeys_okD: "attrkeys_ok h m \<Longrightarrow> map_of m k = Some v \<Longrightarrow> k \<in> range (serialize_meta_key h)"
  unfolding attrkeys_ok_def set_keys by blast

lemma attrkeys_ok_wf: "attrkeys_ok h m \<Longrightarrow> wf_alist m"
  by (simp add: attrkeys_ok_def)

lemma attrkeys_ok_delete [simp]:
  assumes "attrkeys_ok h m"
  shows "attrkeys_ok h (AList.delete k m)"
proof (rule attrkeys_okI)
  show "wf_alist (AList.delete k m)" using attrkeys_ok_wf [OF assms] by simp
  fix j v assume "map_of (AList.delete k m) j = Some v"
  then have "map_of m j = Some v" by (simp split: if_splits)
  then show "j \<in> range (serialize_meta_key h)" by (rule attrkeys_okD [OF assms])
qed

lemma attrkeys_ok_update [simp]:
  assumes "attrkeys_ok h m"
  shows "attrkeys_ok h (AList.update (serialize_meta_key h mk) v m)"
proof (rule attrkeys_okI)
  show "wf_alist (AList.update (serialize_meta_key h mk) v m)" using attrkeys_ok_wf [OF assms] by simp
  fix j w assume "map_of (AList.update (serialize_meta_key h mk) v m) j = Some w"
  then have "j = serialize_meta_key h mk \<or> map_of m j = Some w" by (simp split: if_splits)
  then show "j \<in> range (serialize_meta_key h)" using attrkeys_okD [OF assms] by blast
qed

lemma attrkeys_ok_filter [simp]:
  assumes "attrkeys_ok h m"
  shows "attrkeys_ok h (filter (\<lambda>(k, v). Q k) m)"
proof (rule attrkeys_okI)
  show "wf_alist (filter (\<lambda>(k, v). Q k) m)" using attrkeys_ok_wf [OF assms] by simp
  fix j w assume "map_of (filter (\<lambda>(k, v). Q k) m) j = Some w"
  then have "map_of m j = Some w" by (simp add: map_of_filter_key split: if_splits)
  then show "j \<in> range (serialize_meta_key h)" by (rule attrkeys_okD [OF assms])
qed

lemma ports_ok_wf: "ports_ok h m \<Longrightarrow> wf_alist m"
  by (simp add: ports_ok_def)

lemma ports_ok_related: "ports_ok h m \<Longrightarrow> map_of m p = Some rel \<Longrightarrow> related_ok h rel"
  by (simp add: ports_ok_def)

lemma ports_ok_delete [simp]: "ports_ok h m \<Longrightarrow> ports_ok h (AList.delete p m)"
  using ports_ok_wf [of h m] by (simp add: ports_ok_def [of _ "AList.delete p m"] ports_ok_related)

lemma ports_ok_filter [simp]: "ports_ok h m \<Longrightarrow> ports_ok h (filter (\<lambda>(k, v). Q k) m)"
  using ports_ok_wf [of h m]
  by (simp add: ports_ok_def [of _ "filter _ m"] map_of_filter_key ports_ok_related)

section \<open>A switch\<close>

lemma forM_cong: "(\<And>x. x \<in> set xs \<Longrightarrow> f x = g x) \<Longrightarrow> forM f xs = forM g xs"
  by (induction xs) auto

text \<open>A loop that deletes some keys of a container.\<close>

lemma forM_delete:
  assumes "\<And>k m. P k \<Longrightarrow> has_key m k \<Longrightarrow> op k m = (Inr (), AList.delete k m)"
  shows "distinct ks \<Longrightarrow> (\<forall>k \<in> set ks. has_key m k) \<Longrightarrow>
     forM (\<lambda>k. if P k then op k else ret ()) ks m = (Inr (), filter (\<lambda>(k, v). \<not> (P k \<and> k \<in> set ks)) m)"
proof (induction ks arbitrary: m)
  case Nil
  then show ?case by (simp add: ret_def)
next
  case (Cons k ks)
  show ?case
  proof (cases "P k")
    case True
    have "forM (\<lambda>k. if P k then op k else ret ()) ks (AList.delete k m) =
        (Inr (), filter (\<lambda>(j, v). \<not> (P j \<and> j \<in> set ks)) (AList.delete k m))"
      by (rule Cons.IH) (use Cons.prems in auto)
    moreover have "filter (\<lambda>(j, v). \<not> (P j \<and> j \<in> set ks)) (AList.delete k m) =
        filter (\<lambda>(j, v). \<not> (P j \<and> j \<in> set (k # ks))) m"
      using True by (auto simp: AList.delete_eq intro!: filter_cong)
    ultimately show ?thesis
      using True assms [OF True, of m] Cons.prems by (simp add: seq_def)
  next
    case False
    have "forM (\<lambda>k. if P k then op k else ret ()) ks m =
        (Inr (), filter (\<lambda>(j, v). \<not> (P j \<and> j \<in> set ks)) m)"
      by (rule Cons.IH) (use Cons.prems in auto)
    moreover have "filter (\<lambda>(j, v). \<not> (P j \<and> j \<in> set ks)) m =
        filter (\<lambda>(j, v). \<not> (P j \<and> j \<in> set (k # ks))) m"
      using False by (auto intro!: filter_cong)
    ultimately show ?thesis using False by simp
  qed
qed

lemma forM_delete_all:
  assumes "\<And>k m. P k \<Longrightarrow> has_key m k \<Longrightarrow> op k m = (Inr (), AList.delete k m)" "wf_alist m"
  shows "forM (\<lambda>k. if P k then op k else ret ()) (map fst m) m = (Inr (), filter (\<lambda>(k, v). \<not> P k) m)"
proof -
  have "filter (\<lambda>(k, v). \<not> (P k \<and> k \<in> set (map fst m))) m = filter (\<lambda>(k, v). \<not> P k) m"
    by (rule filter_cong) force+
  then show ?thesis
    using forM_delete [of P op "map fst m" m, OF assms(1)] assms(2)
    by (simp add: keys_def has_key_iff)
qed

lemma zoom_forM_if:
  assumes "\<And>s x. get (put x s) = x" "\<And>s. put (get s) s = s" "\<And>s x y. put x (put y s) = put x s"
  shows "forM (\<lambda>x. if P x then zoom get put (f x) else ret ()) xs =
     zoom get put (forM (\<lambda>x. if P x then f x else ret ()) xs)"
proof -
  have "(if P x then zoom get put (f x) else ret ()) = zoom get put (if P x then f x else ret ())" for x
    using assms(2) by (simp add: zoom_def ret_def fun_eq_iff)
  then show ?thesis using zoom_forM [of get put "\<lambda>x. if P x then f x else ret ()" xs, OF assms] by simp
qed

definition attrkey_on_switch :: "sai_meta \<Rightarrow> oid \<Rightarrow> string \<Rightarrow> bool" where
  "attrkey_on_switch h sw key =
     (case deserialize_meta_key h key of None \<Rightarrow> False | Some mk \<Rightarrow> key_switch h mk = sw)"

definition switch_cleaned :: "sai_meta \<Rightarrow> oid \<Rightarrow> meta_db \<Rightarrow> meta_db" where
  "switch_cleaned h sw s = s\<lparr>
     m_portRelatedSet := filter (\<lambda>(p, rel). switchIdQuery h p \<noteq> sw) (m_portRelatedSet s),
     m_oids := filter (\<lambda>(x, c). switchIdQuery h x \<noteq> sw) (m_oids s),
     m_attrKeys := filter (\<lambda>(k, a). \<not> attrkey_on_switch h sw k) (m_attrKeys s),
     m_saiObjectCollection := filter (\<lambda>(k, obj). key_switch h k \<noteq> sw) (m_saiObjectCollection s)\<rparr>"

lemma clean_run:
  assumes "meta_ok h" "meta_inv h s" "objectTypeQuery h sw = ot_switch h"
  shows "clean_after_switch_remove h sw s = (Inr (), switch_cleaned h sw s)"
proof -
  note inv = meta_invD [OF assms(2)]
  have ports: "forM (\<lambda>p. if switchIdQuery h p = sw then removePort p else ret ()) (map fst (m_portRelatedSet s))
      (m_portRelatedSet s) = (Inr (), filter (\<lambda>(p, rel). switchIdQuery h p \<noteq> sw) (m_portRelatedSet s))"
    by (rule forM_delete_all) (simp_all add: removePort_def modify_def inv)
  have oids: "forM (\<lambda>x. if switchIdQuery h x = sw then objectReferenceClear x else ret ()) (map fst (m_oids s))
      (m_oids s) = (Inr (), filter (\<lambda>(x, c). switchIdQuery h x \<noteq> sw) (m_oids s))"
    by (rule forM_delete_all) (simp_all add: objectReferenceClear_def objectReferenceExists_def inv)
  have objs: "forM (\<lambda>k. if switchIdQuery h (object_id k) = sw then removeObject k else ret ())
      (map fst (m_saiObjectCollection s)) (m_saiObjectCollection s) =
      (Inr (), filter (\<lambda>(k, obj). switchIdQuery h (object_id k) \<noteq> sw) (m_saiObjectCollection s))"
    by (rule forM_delete_all) (simp_all add: removeObject_def objectExists_def inv)
  have aks: "forM (\<lambda>k. if attrkey_on_switch h sw k then eraseMetaKey k else ret ()) (map fst (m_attrKeys s))
      (m_attrKeys s) = (Inr (), filter (\<lambda>(k, a). \<not> attrkey_on_switch h sw k) (m_attrKeys s))"
    by (rule forM_delete_all) (simp_all add: eraseMetaKey_def modify_def inv)
  have "forM (\<lambda>key. case deserialize_meta_key h key of
                           None \<Rightarrow> raise (Throw ''sai_deserialize_object_meta_key'')
                         | Some mk \<Rightarrow> if switchIdQuery h (object_id mk) = sw
                                      then on_attrkeys (eraseMetaKey key) else ret ()) (map fst (m_attrKeys s)) =
      forM (\<lambda>k. if attrkey_on_switch h sw k then on_attrkeys (eraseMetaKey k) else ret ()) (map fst (m_attrKeys s))"
  proof (rule forM_cong)
    fix k assume "k \<in> set (map fst (m_attrKeys s))"
    then have "k \<in> range (serialize_meta_key h)"
      using inv(2) unfolding attrkeys_ok_def keys_def by blast
    then obtain mk where "k = serialize_meta_key h mk" by blast
    then have "deserialize_meta_key h k = Some mk" using meta_okD(4) [OF assms(1)] by simp
    then show "(case deserialize_meta_key h k of None \<Rightarrow> raise (Throw ''sai_deserialize_object_meta_key'')
                 | Some mk \<Rightarrow> if switchIdQuery h (object_id mk) = sw then on_attrkeys (eraseMetaKey k) else ret ()) =
        (if attrkey_on_switch h sw k then on_attrkeys (eraseMetaKey k) else ret ())"
      by (simp add: attrkey_on_switch_def key_switch_def)
  qed
  then show ?thesis
    using assms(3) ports oids objs aks
    by (simp add: clean_after_switch_remove_def seq_def gets_def zoom_forM_if zoom_def
        getAllPorts_def getAllOids_def getAllKeys_attrkeys_def getAllKeys_objects_def switch_cleaned_def
        key_switch_def)
qed

lemma has_key_filter: "has_key (filter (\<lambda>(k, v). Q k) m) k \<longleftrightarrow> Q k \<and> has_key m k"
  by (simp add: has_key_def map_of_filter_key)

lemma switch_cleaned_refs:
  assumes "db_inv h s" "x \<noteq> 0" "switchIdQuery h x \<noteq> sw"
  shows "total_refs h (filter (\<lambda>(k, obj). key_switch h k \<noteq> sw) (m_saiObjectCollection s)) x =
     total_refs h (m_saiObjectCollection s) x"
  unfolding total_refs_def
proof (rule alist_sum_filter)
  fix k obj
  assume "(k, obj) \<in> set (m_saiObjectCollection s)" "\<not> (case (k, obj) of (k, obj) \<Rightarrow> key_switch h k \<noteq> sw)"
  then have o: "map_of (m_saiObjectCollection s) k = Some obj" and sw: "key_switch h k = sw"
    using db_inv_wf [OF assms(1)] by (simp_all add: map_of_mem_wf)
  have "refs_local h (m_oids s) sw (object_oids h k obj)"
    using db_inv_object [OF assms(1) o] sw by (simp add: object_ok_def)
  with assms(2,3) have "x \<notin> set (object_oids h k obj)" by (auto simp: refs_local_def)
  then show "object_refs_count h k obj x = 0" by (simp add: object_refs_count_oids count_list_0_iff)
qed

lemma switch_cleaned_inv:
  assumes "meta_inv h s" "sw \<noteq> 0"
  shows "meta_inv h (switch_cleaned h sw s)"
proof -
  note inv = meta_invD [OF assms(1)]
  let ?c = "filter (\<lambda>(k, obj). key_switch h k \<noteq> sw) (m_saiObjectCollection s)"
  let ?m = "filter (\<lambda>(x, c). switchIdQuery h x \<noteq> sw) (m_oids s)"
  have m_of: "map_of ?m x = (if switchIdQuery h x \<noteq> sw then map_of (m_oids s) x else None)" for x
    by (rule map_of_filter_key)
  have "counted (total_refs h ?c) ?m"
    unfolding counted_def
  proof (intro conjI allI impI)
    show "wf_alist ?m" using inv(5) by simp
    show "\<not> has_key ?m 0" using db_inv_counted [OF inv(1)] by (simp add: has_key_def m_of counted_def)
    fix x c assume "map_of ?m x = Some c"
    then have x: "switchIdQuery h x \<noteq> sw" "map_of (m_oids s) x = Some c"
      by (simp_all add: m_of split: if_splits)
    then have "x \<noteq> 0" "c = int (total_refs h (m_saiObjectCollection s) x)"
      using db_inv_counted [OF inv(1)] by (auto simp: counted_def has_key_def)
    then show "c = int (total_refs h ?c x)" using switch_cleaned_refs [OF inv(1) _ x(1)] by simp
  qed
  moreover have "object_ok h ?m k obj" if "map_of ?c k = Some obj" for k obj
  proof -
    have o: "map_of (m_saiObjectCollection s) k = Some obj" and sw: "key_switch h k \<noteq> sw"
      using that by (simp_all add: map_of_filter_key split: if_splits)
    note ok = db_inv_object [OF inv(1) o]
    have "refs_local h ?m (key_switch h k) (object_oids h k obj)"
      using ok sw by (auto simp: object_ok_def refs_local_def has_key_filter)
    with ok show ?thesis by (simp add: object_ok_def)
  qed
  ultimately have "db_inv h (switch_cleaned h sw s)"
    using inv(4) by (simp add: db_inv_def switch_cleaned_def)
  then show ?thesis using inv(2,3) by (simp add: meta_inv_def switch_cleaned_def)
qed

lemma switch_cleaned_nothing:
  "has_key (m_oids (switch_cleaned h sw s)) x \<Longrightarrow> switchIdQuery h x \<noteq> sw"
  "objectExists (m_saiObjectCollection (switch_cleaned h sw s)) k \<Longrightarrow> key_switch h k \<noteq> sw"
  "has_key (m_portRelatedSet (switch_cleaned h sw s)) p \<Longrightarrow> switchIdQuery h p \<noteq> sw"
  "has_key (m_attrKeys (switch_cleaned h sw s)) a \<Longrightarrow> \<not> attrkey_on_switch h sw a"
  by (simp_all add: switch_cleaned_def has_key_filter objectExists_def)

section \<open>The depth of the recursion\<close>

text \<open>Operations that never run out of fuel, and never add an object.\<close>

definition lean :: "(meta_db, unit) op \<Rightarrow> bool" where
  "lean m \<longleftrightarrow> (\<forall>s. fst (m s) \<noteq> Inl Out_Of_Fuel \<and>
     length (m_saiObjectCollection (snd (m s))) \<le> length (m_saiObjectCollection s))"

lemma leanD:
  assumes "lean m" "m s = (r, s')"
  shows "r \<noteq> Inl Out_Of_Fuel" "length (m_saiObjectCollection s') \<le> length (m_saiObjectCollection s)"
  using assms unfolding lean_def by (metis fst_conv snd_conv)+

lemma leanI:
  assumes "\<And>s r s'. m s = (r, s') \<Longrightarrow> r \<noteq> Inl Out_Of_Fuel \<and>
     length (m_saiObjectCollection s') \<le> length (m_saiObjectCollection s)"
  shows "lean m"
  unfolding lean_def using assms by (metis prod.collapse)

lemma lean_seq:
  assumes "lean m" "\<And>x. lean (f x)"
  shows "lean (seq m f)"
proof (rule leanI)
  fix s r s' assume run: "seq m f s = (r, s')"
  obtain r1 s1 where m: "m s = (r1, s1)" by fastforce
  show "r \<noteq> Inl Out_Of_Fuel \<and> length (m_saiObjectCollection s') \<le> length (m_saiObjectCollection s)"
  proof (cases r1)
    case (Inl e)
    with run m have "r = Inl e" "s' = s1" by (simp_all add: seq_def)
    with leanD [OF assms(1) m] Inl show ?thesis by simp
  next
    case (Inr x)
    with run m have "f x s1 = (r, s')" by (simp add: seq_def)
    from leanD [OF assms(2) this] leanD(2) [OF assms(1) m] show ?thesis by simp
  qed
qed

lemma lean_ret: "lean (ret ())"
  by (simp add: lean_def ret_def)

lemma lean_raise: "e \<noteq> Out_Of_Fuel \<Longrightarrow> lean (raise e)"
  by (simp add: lean_def raise_def)

lemma lean_forM: "(\<And>x. lean (f x)) \<Longrightarrow> lean (forM f xs)"
  by (induction xs) (simp_all add: lean_ret lean_seq)

lemma lean_seq_gets: "(\<And>x. lean (f x)) \<Longrightarrow> lean (seq (gets g) f)"
  by (simp add: lean_def seq_def gets_def)

lemma lean_seq_lift: "(\<And>x. lean (f x)) \<Longrightarrow> r \<noteq> Inl Out_Of_Fuel \<Longrightarrow> lean (seq (lift r) f)"
  by (cases r) (simp_all add: lean_def seq_def lift_def)

definition fuel_free :: "(ref_counter, unit) op \<Rightarrow> bool" where
  "fuel_free m \<longleftrightarrow> (\<forall>s. fst (m s) \<noteq> Inl Out_Of_Fuel)"

lemma fuel_free_seq: "fuel_free m \<Longrightarrow> (\<And>x. fuel_free (f x)) \<Longrightarrow> fuel_free (seq m f)"
  unfolding fuel_free_def seq_def
  by (intro allI) (simp split: prod.splits sum.splits, metis fst_conv)

lemma fuel_free_simps:
  "fuel_free (ret ())" "fuel_free (objectReferenceDecrement x)" "fuel_free (objectReferenceRemove x)"
  "fuel_free (objectReferenceClear x)" "e \<noteq> Out_Of_Fuel \<Longrightarrow> fuel_free (raise e)"
  by (simp_all add: fuel_free_def ret_def objectReferenceDecrement_def objectReferenceRemove_def
      objectReferenceClear_def raise_def Let_def)

lemma fuel_free_decrement_list: "fuel_free (objectReferenceDecrement_list l)"
proof -
  have "fuel_free (forM objectReferenceDecrement xs)" for xs
    by (induction xs) (simp_all add: fuel_free_simps fuel_free_seq)
  then show ?thesis
    by (cases l) (simp_all add: objectReferenceDecrement_list_def fuel_free_def seq_def lift_def ret_def)
qed

lemma lean_on_oids: "fuel_free m \<Longrightarrow> lean (on_oids m)"
  by (simp add: lean_def fuel_free_def zoom_def split_beta)

lemma lean_on_ports: "lean (on_ports (removePort p))"
  by (simp add: lean_def zoom_def removePort_def modify_def)

lemma lean_on_attrkeys: "lean (on_attrkeys (eraseMetaKey k))"
  by (simp add: lean_def zoom_def eraseMetaKey_def modify_def)

lemma lean_on_objects: "lean (on_objects (removeObject k))"
  by (simp add: lean_def zoom_def removeObject_def AList.length_delete_le)

lemma lean_clean: "lean (clean_after_switch_remove h sw)"
  unfolding clean_after_switch_remove_def
  by (auto intro!: lean_seq lean_forM lean_seq_gets lean_ret lean_raise lean_on_ports lean_on_attrkeys
      lean_on_objects lean_on_oids fuel_free_simps split: option.splits)

text \<open>Removing an object succeeds only when it was there, and then there is one object less.\<close>

definition shrinks :: "(meta_db, unit) op \<Rightarrow> bool" where
  "shrinks m \<longleftrightarrow> lean m \<and> (\<forall>s s'. m s = (Inr (), s') \<longrightarrow>
     length (m_saiObjectCollection s') < length (m_saiObjectCollection s))"

lemma shrinks_lean: "shrinks m \<Longrightarrow> lean m"
  by (simp add: shrinks_def)

lemma shrinks_first:
  assumes "shrinks m" "\<And>x. lean (f x)"
  shows "shrinks (seq m f)"
  unfolding shrinks_def
proof (intro conjI allI impI)
  show "lean (seq m f)" using assms lean_seq shrinks_lean by blast
  fix s s' assume "seq m f s = (Inr (), s')"
  then obtain s1 where m: "m s = (Inr (), s1)" and f: "f () s1 = (Inr (), s')"
    by (auto simp: seq_def split: prod.splits sum.splits)
  from assms(1) m have "length (m_saiObjectCollection s1) < length (m_saiObjectCollection s)"
    by (simp add: shrinks_def)
  with leanD(2) [OF assms(2) f] show "length (m_saiObjectCollection s') < length (m_saiObjectCollection s)"
    by simp
qed

lemma shrinks_last:
  assumes "lean m" "\<And>x. shrinks (f x)"
  shows "shrinks (seq m f)"
  unfolding shrinks_def
proof (intro conjI allI impI)
  show "lean (seq m f)" using assms lean_seq shrinks_lean by blast
  fix s s' assume "seq m f s = (Inr (), s')"
  then obtain s1 where m: "m s = (Inr (), s1)" and f: "f () s1 = (Inr (), s')"
    by (auto simp: seq_def split: prod.splits sum.splits)
  from assms(2) f have "length (m_saiObjectCollection s') < length (m_saiObjectCollection s1)"
    by (simp add: shrinks_def)
  with leanD(2) [OF assms(1) m] show "length (m_saiObjectCollection s') < length (m_saiObjectCollection s)"
    by simp
qed

lemma shrinks_seq_gets: "(\<And>x. shrinks (f x)) \<Longrightarrow> shrinks (seq (gets g) f)"
  by (simp add: shrinks_def lean_def seq_def gets_def)

lemma shrinks_removeObject: "shrinks (on_objects (removeObject key))"
proof -
  have "length (AList.delete key c) < length c" if "has_key c key" for c :: object_collection
  proof -
    have "AList.delete key c = filter (\<lambda>p. fst p \<noteq> key) c"
      by (auto simp: AList.delete_eq split_def intro!: filter_cong)
    moreover have "\<exists>p \<in> set c. fst p = key" using that by (auto simp: has_key_iff keys_def)
    then have "length (filter (\<lambda>p. fst p \<noteq> key) c) < length c"
      using length_filter_less [of _ c "\<lambda>p. fst p \<noteq> key"] by blast
    ultimately show ?thesis by simp
  qed
  then show ?thesis
    unfolding shrinks_def using lean_on_objects
    by (auto simp: zoom_def removeObject_def objectExists_def)
qed

lemma shrinks_seq_lift: "(\<And>x. shrinks (f x)) \<Longrightarrow> r \<noteq> Inl Out_Of_Fuel \<Longrightarrow> shrinks (seq (lift r) f)"
  unfolding shrinks_def using lean_seq_lift [of f r] by (cases r) (simp_all add: seq_def lift_def)

lemma fuel_free_remove_refs: "fuel_free (post_remove_attr_refs md v)"
  by (simp add: remove_refs_eq fuel_free_decrement_list fuel_free_simps)

lemma lean_decrement_members: "lean (decrement_members info key)"
  unfolding decrement_members_def by (auto intro!: lean_forM lean_ret lean_on_oids fuel_free_simps)

lemma lean_post_remove_attribute: "lean (post_remove_attribute h key it)"
  by (simp add: post_remove_attribute_def lean_raise lean_on_oids fuel_free_remove_refs split: option.splits)

lemma lean_post_remove_references: "lean (post_remove_references h key)"
  by (simp add: post_remove_references_def lean_raise lean_on_oids lean_decrement_members fuel_free_simps
      split: option.splits)

lemma shrinks_post_remove_object: "shrinks (post_remove_object h key)"
proof -
  have get: "getObject c key \<noteq> Inl Out_Of_Fuel" for c
    by (simp add: getObject_def split: option.splits)
  have "shrinks (seq (on_objects (removeObject key)) (\<lambda>_. on_attrkeys (eraseMetaKey (serialize_meta_key h key))))"
    by (rule shrinks_first [OF shrinks_removeObject lean_on_attrkeys])
  then have "shrinks (seq (post_remove_references h key) (\<lambda>_.
      seq (on_objects (removeObject key)) (\<lambda>_. on_attrkeys (eraseMetaKey (serialize_meta_key h key)))))"
    by (rule shrinks_last [OF lean_post_remove_references])
  then show ?thesis
    unfolding post_remove_object_def
    by (intro shrinks_seq_gets shrinks_seq_lift get shrinks_last [OF lean_forM] lean_post_remove_attribute)
qed

text \<open>The recursion at a depth above the number of objects.\<close>

definition lean_below :: "nat \<Rightarrow> (meta_db, unit) op \<Rightarrow> bool" where
  "lean_below n m \<longleftrightarrow> (\<forall>s. length (m_saiObjectCollection s) < n \<longrightarrow> fst (m s) \<noteq> Inl Out_Of_Fuel \<and>
     length (m_saiObjectCollection (snd (m s))) \<le> length (m_saiObjectCollection s))"

lemma lean_below_lean: "lean m \<Longrightarrow> lean_below n m"
  by (simp add: lean_def lean_below_def)

lemma lean_belowD:
  assumes "lean_below n m" "length (m_saiObjectCollection s) < n" "m s = (r, s')"
  shows "r \<noteq> Inl Out_Of_Fuel" "length (m_saiObjectCollection s') \<le> length (m_saiObjectCollection s)"
  using assms unfolding lean_below_def by (metis fst_conv snd_conv)+

lemma lean_below_seq:
  assumes "lean_below n m" "\<And>x. lean_below n (f x)"
  shows "lean_below n (seq m f)"
  unfolding lean_below_def
proof (intro allI impI)
  fix s :: meta_db assume n: "length (m_saiObjectCollection s) < n"
  obtain r1 s1 where m: "m s = (r1, s1)" by fastforce
  note m1 = lean_belowD [OF assms(1) n m]
  show "fst (seq m f s) \<noteq> Inl Out_Of_Fuel \<and>
      length (m_saiObjectCollection (snd (seq m f s))) \<le> length (m_saiObjectCollection s)"
  proof (cases r1)
    case (Inl e)
    with m m1 show ?thesis by (simp add: seq_def)
  next
    case (Inr x)
    obtain r s' where f: "f x s1 = (r, s')" by fastforce
    from m1(2) n have "length (m_saiObjectCollection s1) < n" by simp
    from lean_belowD [OF assms(2) this f] m1(2) Inr m f show ?thesis by (simp add: seq_def)
  qed
qed

lemma lean_below_forM: "(\<And>x. lean_below n (f x)) \<Longrightarrow> lean_below n (forM f xs)"
  by (induction xs) (simp_all add: lean_below_lean lean_ret lean_below_seq)

lemma lean_below_seq_gets: "(\<And>x. lean_below n (f x)) \<Longrightarrow> lean_below n (seq (gets g) f)"
  by (simp add: lean_below_def seq_def gets_def)

lemma lean_below_port:
  assumes "\<And>k. lean_below n (again k)"
  shows "lean_below n (post_port_remove h again key)"
proof -
  have "lean_below n (if rel = [] then ret ()
      else seq (forM (\<lambda>oid. again (oid_key (objectTypeQuery h oid) oid)) rel)
             (\<lambda>_. on_ports (removePort (object_id key))))" for rel
    by (simp add: lean_below_lean lean_ret lean_on_ports assms lean_below_seq lean_below_forM)
  then show ?thesis
    unfolding post_port_remove_def Let_def by (intro lean_below_seq_gets)
qed

lemma lean_below_post_remove:
  "lean_below n (meta_generic_validation_post_remove h n key)"
proof (induction n arbitrary: key)
  case 0
  show ?case by (simp add: lean_below_def)
next
  case (Suc n)
  have "lean_below (Suc n) (seq (post_remove_object h key) (\<lambda>_.
         if objecttype key = ot h OT_PORT
         then post_port_remove h (meta_generic_validation_post_remove h n) key else ret ()))"
    unfolding lean_below_def
  proof (intro allI impI)
    fix s :: meta_db assume n: "length (m_saiObjectCollection s) < Suc n"
    obtain r1 s1 where m: "post_remove_object h key s = (r1, s1)" by fastforce
    note sh = shrinks_post_remove_object [of h key]
    note m1 = leanD [OF shrinks_lean [OF sh] m]
    let ?k = "if objecttype key = ot h OT_PORT
         then post_port_remove h (meta_generic_validation_post_remove h n) key else ret ()"
    have k: "lean_below n ?k"
      using lean_below_port [OF Suc.IH] by (simp add: lean_below_lean lean_ret)
    show "fst (seq (post_remove_object h key) (\<lambda>_. ?k) s) \<noteq> Inl Out_Of_Fuel \<and>
       length (m_saiObjectCollection (snd (seq (post_remove_object h key) (\<lambda>_. ?k) s)))
         \<le> length (m_saiObjectCollection s)"
    proof (cases r1)
      case (Inl e)
      with m m1 show ?thesis by (simp add: seq_def)
    next
      case (Inr x)
      with m sh have "length (m_saiObjectCollection s1) < length (m_saiObjectCollection s)"
        by (simp add: shrinks_def)
      with n have lt: "length (m_saiObjectCollection s1) < n" by simp
      obtain r s' where "?k s1 = (r, s')" by fastforce
      from lean_belowD [OF k lt this] this m1(2) Inr m show ?thesis by (simp add: seq_def)
    qed
  qed
  then show ?case by (simp add: lean_below_lean lean_clean)
qed

section \<open>Removal of validated objects\<close>

text \<open>The database after the removal of one object.\<close>

definition object_gone :: "sai_meta \<Rightarrow> meta_key \<Rightarrow> meta_db \<Rightarrow> meta_db \<Rightarrow> bool" where
  "object_gone h key s s' \<longleftrightarrow>
     m_saiObjectCollection s' = AList.delete key (m_saiObjectCollection s) \<and>
     m_attrKeys s' = AList.delete (serialize_meta_key h key) (m_attrKeys s) \<and>
     m_portRelatedSet s' = m_portRelatedSet s \<and>
     (\<forall>x. has_key (m_oids s') x \<longleftrightarrow> has_key (m_oids s) x \<and> \<not> removed_oid h key x)"

lemma post_remove_object_gone:
  assumes "meta_ok h" "meta_inv h s" "remove_ready h s key" "objecttype key \<noteq> ot_switch h"
  shows "\<exists>s'. post_remove_object h key s = (Inr (), s') \<and> meta_inv h s' \<and> object_gone h key s s'"
proof -
  note inv = meta_invD [OF assms(2)]
  from post_remove_object_ok [OF assms(1) inv(1) assms(3,4)] obtain m where
    m: "post_remove_object h key s = (Inr (),
       s\<lparr>m_oids := m, m_saiObjectCollection := AList.delete key (m_saiObjectCollection s),
         m_attrKeys := AList.delete (serialize_meta_key h key) (m_attrKeys s)\<rparr>)"
    "db_inv h (s\<lparr>m_oids := m, m_saiObjectCollection := AList.delete key (m_saiObjectCollection s),
         m_attrKeys := AList.delete (serialize_meta_key h key) (m_attrKeys s)\<rparr>)"
    "\<forall>x. has_key m x \<longleftrightarrow> has_key (m_oids s) x \<and> \<not> removed_oid h key x" by blast
  then show ?thesis
    using inv(2,3) by (simp add: meta_inv_def object_gone_def)
qed

lemma remove_ready_kept:
  assumes "db_inv h s" "db_inv h s'" "object_gone h k1 s s'" "remove_ready h s k2" "k2 \<noteq> k1"
    and "\<not> removed_oid h k1 (object_id k2)"
  shows "remove_ready h s' k2"
proof -
  have objs: "m_saiObjectCollection s' = AList.delete k1 (m_saiObjectCollection s)"
    and oids: "\<And>x. has_key (m_oids s') x \<longleftrightarrow> has_key (m_oids s) x \<and> \<not> removed_oid h k1 x"
    using assms(3) by (auto simp: object_gone_def)
  have le: "total_refs h (m_saiObjectCollection s') x \<le> total_refs h (m_saiObjectCollection s) x" for x
    using alist_sum_delete [OF db_inv_wf [OF assms(1)], of "\<lambda>key obj. object_refs_count h key obj x" k1]
    by (simp add: objs total_refs_def)
  have "ref_at (m_oids s') x = 0" if "has_key (m_oids s) x" "has_key (m_oids s') x" "ref_at (m_oids s) x = 0" for x
    using le [of x] that(3)
    by (simp add: counted_at [OF db_inv_counted [OF assms(1)] that(1)]
        counted_at [OF db_inv_counted [OF assms(2)] that(2)])
  then show ?thesis
    using assms(4-6) by (simp add: remove_ready_def objs oids objectExists_def objectReferenceExists_def)
qed

text \<open>The objects related to a port.\<close>

lemma related_loop:
  assumes "meta_ok h"
  shows "meta_inv h s \<Longrightarrow> related_ok h rel \<Longrightarrow>
    (\<forall>x \<in> set rel. remove_ready h s (oid_key (objectTypeQuery h x) x)) \<Longrightarrow>
    \<exists>s'. forM (\<lambda>x. meta_generic_validation_post_remove h (Suc n) (oid_key (objectTypeQuery h x) x)) rel s =
        (Inr (), s') \<and> meta_inv h s' \<and> m_portRelatedSet s' = m_portRelatedSet s \<and>
      (\<forall>k. objectExists (m_saiObjectCollection s') k \<longleftrightarrow> objectExists (m_saiObjectCollection s) k \<and>
             (\<forall>x \<in> set rel. k \<noteq> oid_key (objectTypeQuery h x) x))"
proof (induction rel arbitrary: s)
  case Nil
  then show ?case by (simp add: ret_def)
next
  case (Cons x rel)
  let ?k = "oid_key (objectTypeQuery h x) x"
  have ty: "objectTypeQuery h x \<noteq> ot h OT_PORT" "objectTypeQuery h x \<noteq> ot_switch h" "x \<notin> set rel"
    "related_ok h rel"
    using Cons.prems(2) by (auto simp: related_ok_def)
  have rdy: "remove_ready h s ?k" using Cons.prems(3) by simp
  from post_remove_object_gone [OF assms Cons.prems(1) rdy] ty(2) obtain s1 where
    s1: "post_remove_object h ?k s = (Inr (), s1)" "meta_inv h s1" "object_gone h ?k s s1" by auto
  have run: "meta_generic_validation_post_remove h (Suc n) ?k s = (Inr (), s1)"
    using ty(1,2) s1(1) by (simp add: seq_def ret_def)
  have "\<forall>y \<in> set rel. remove_ready h s1 (oid_key (objectTypeQuery h y) y)"
  proof
    fix y assume y: "y \<in> set rel"
    then have "y \<noteq> x" using ty(3) by blast
    then have "\<not> removed_oid h ?k (object_id (oid_key (objectTypeQuery h y) y))"
      by (simp add: removed_oid_def)
    moreover have "oid_key (objectTypeQuery h y) y \<noteq> ?k" using \<open>y \<noteq> x\<close> by simp
    moreover have "remove_ready h s (oid_key (objectTypeQuery h y) y)" using Cons.prems(3) y by simp
    ultimately show "remove_ready h s1 (oid_key (objectTypeQuery h y) y)"
      using remove_ready_kept meta_invD(1) Cons.prems(1) s1(2,3) by blast
  qed
  from Cons.IH [OF s1(2) ty(4) this] obtain s' where
    s': "forM (\<lambda>x. meta_generic_validation_post_remove h (Suc n) (oid_key (objectTypeQuery h x) x)) rel s1 =
        (Inr (), s')" "meta_inv h s'" "m_portRelatedSet s' = m_portRelatedSet s1"
      "\<forall>k. objectExists (m_saiObjectCollection s') k \<longleftrightarrow> objectExists (m_saiObjectCollection s1) k \<and>
             (\<forall>x \<in> set rel. k \<noteq> oid_key (objectTypeQuery h x) x)" by blast
  have "forM (\<lambda>x. meta_generic_validation_post_remove h (Suc n) (oid_key (objectTypeQuery h x) x)) (x # rel) s =
      (Inr (), s')"
    using run s'(1) by (simp add: seq_def del: meta_generic_validation_post_remove.simps)
  then show ?case
    using s'(2-4) s1(3) by (auto simp: object_gone_def objectExists_def)
qed

text \<open>What \<open>meta_generic_validation_remove\<close> establishes when it answers success.\<close>

definition remove_validated :: "sai_meta \<Rightarrow> meta_db \<Rightarrow> meta_key \<Rightarrow> bool" where
  "remove_validated h s key \<longleftrightarrow>
     (if objecttype key = ot_switch h then objectTypeQuery h (object_id key) = ot_switch h
      else remove_ready h s key) \<and>
     (objecttype key = ot h OT_PORT \<longrightarrow> objectTypeQuery h (object_id key) = ot h OT_PORT \<and>
        (\<forall>x \<in> set (getPortRelatedObjects (m_portRelatedSet s) (object_id key)).
           remove_ready h s (oid_key (objectTypeQuery h x) x)))"

definition removed_keys :: "sai_meta \<Rightarrow> meta_db \<Rightarrow> meta_key \<Rightarrow> meta_key set" where
  "removed_keys h s key = insert key (if objecttype key = ot h OT_PORT
     then (\<lambda>x. oid_key (objectTypeQuery h x) x) ` set (getPortRelatedObjects (m_portRelatedSet s) (object_id key))
     else {})"

lemma post_remove_keeps:
  assumes "meta_ok h" "meta_inv h s" "remove_validated h s key" "objecttype key \<noteq> ot_switch h"
  shows "\<exists>s'. meta_generic_validation_post_remove h (Suc (Suc n)) key s = (Inr (), s') \<and> meta_inv h s' \<and>
     (\<forall>k. objectExists (m_saiObjectCollection s') k \<longleftrightarrow>
        objectExists (m_saiObjectCollection s) k \<and> k \<notin> removed_keys h s key)"
proof -
  have rdy: "remove_ready h s key" using assms(3,4) by (simp add: remove_validated_def)
  from post_remove_object_gone [OF assms(1,2) rdy assms(4)] obtain s1 where
    s1: "post_remove_object h key s = (Inr (), s1)" "meta_inv h s1" "object_gone h key s s1" by blast
  show ?thesis
  proof (cases "objecttype key = ot h OT_PORT")
    case False
    then have "meta_generic_validation_post_remove h (Suc (Suc n)) key s = (Inr (), s1)"
      using assms(4) s1(1) by (simp add: seq_def ret_def)
    moreover have "\<forall>k. objectExists (m_saiObjectCollection s1) k \<longleftrightarrow>
        objectExists (m_saiObjectCollection s) k \<and> k \<notin> removed_keys h s key"
      using s1(3) False by (auto simp: object_gone_def objectExists_def removed_keys_def)
    ultimately show ?thesis using s1(2) by blast
  next
    case True
    let ?rel = "getPortRelatedObjects (m_portRelatedSet s) (object_id key)"
    have ports: "m_portRelatedSet s1 = m_portRelatedSet s" using s1(3) by (simp add: object_gone_def)
    have run: "meta_generic_validation_post_remove h (Suc (Suc n)) key s =
        post_port_remove h (meta_generic_validation_post_remove h (Suc n)) key s1"
      using assms(4) True s1(1) by (simp add: seq_def)
    show ?thesis
    proof (cases "?rel = []")
      case none: True
      then have "meta_generic_validation_post_remove h (Suc (Suc n)) key s = (Inr (), s1)"
        by (simp add: run post_port_remove_def Let_def gets_def seq_def ports ret_def
            del: meta_generic_validation_post_remove.simps)
      moreover have "\<forall>k. objectExists (m_saiObjectCollection s1) k \<longleftrightarrow>
          objectExists (m_saiObjectCollection s) k \<and> k \<notin> removed_keys h s key"
        using s1(3) none by (auto simp: object_gone_def objectExists_def removed_keys_def)
      ultimately show ?thesis using s1(2) by blast
    next
      case False
      then obtain rel where "map_of (m_portRelatedSet s) (object_id key) = Some rel" "?rel = rel"
        by (auto simp: getPortRelatedObjects_def split: option.splits)
      then have rok: "related_ok h ?rel" using meta_invD(3) [OF assms(2)] ports_ok_related by fastforce
      have "\<forall>x \<in> set ?rel. remove_ready h s1 (oid_key (objectTypeQuery h x) x)"
      proof
        fix x assume x: "x \<in> set ?rel"
        then have "objectTypeQuery h x \<noteq> ot h OT_PORT" using rok by (simp add: related_ok_def)
        then have ne: "x \<noteq> object_id key" "oid_key (objectTypeQuery h x) x \<noteq> key"
          using assms(3) True by (auto simp: remove_validated_def)
        have "remove_ready h s (oid_key (objectTypeQuery h x) x)"
          using assms(3) True x by (simp add: remove_validated_def)
        moreover have "\<not> removed_oid h key (object_id (oid_key (objectTypeQuery h x) x))"
          using ne by (simp add: removed_oid_def)
        ultimately show "remove_ready h s1 (oid_key (objectTypeQuery h x) x)"
          using remove_ready_kept meta_invD(1) assms(2) s1(2,3) ne(2) by blast
      qed
      from related_loop [OF assms(1) s1(2) rok this] obtain s2 where
        s2: "forM (\<lambda>x. meta_generic_validation_post_remove h (Suc n) (oid_key (objectTypeQuery h x) x)) ?rel s1 =
          (Inr (), s2)" "meta_inv h s2"
          "\<forall>k. objectExists (m_saiObjectCollection s2) k \<longleftrightarrow> objectExists (m_saiObjectCollection s1) k \<and>
             (\<forall>x \<in> set ?rel. k \<noteq> oid_key (objectTypeQuery h x) x)" by blast
      let ?s3 = "s2\<lparr>m_portRelatedSet := AList.delete (object_id key) (m_portRelatedSet s2)\<rparr>"
      have "meta_generic_validation_post_remove h (Suc (Suc n)) key s = (Inr (), ?s3)"
        unfolding run using s2(1) False
        by (simp add: post_port_remove_def Let_def gets_def seq_def ports zoom_def removePort_def modify_def
            del: meta_generic_validation_post_remove.simps)
      moreover have "meta_inv h ?s3"
        using s2(2) by (simp add: meta_inv_def db_inv_def)
      moreover have "\<forall>k. objectExists (m_saiObjectCollection ?s3) k \<longleftrightarrow>
          objectExists (m_saiObjectCollection s) k \<and> k \<notin> removed_keys h s key"
        using s2(3) s1(3) True by (auto simp: object_gone_def objectExists_def removed_keys_def)
      ultimately show ?thesis by blast
    qed
  qed
qed

lemma post_remove_switch_keeps:
  assumes "meta_ok h" "meta_inv h s" "remove_validated h s key" "objecttype key = ot_switch h"
  shows "meta_generic_validation_post_remove h (Suc n) key s = (Inr (), switch_cleaned h (object_id key) s)"
    "meta_inv h (switch_cleaned h (object_id key) s)"
proof -
  have ty: "objectTypeQuery h (object_id key) = ot_switch h"
    using assms(3,4) by (simp add: remove_validated_def)
  show "meta_generic_validation_post_remove h (Suc n) key s = (Inr (), switch_cleaned h (object_id key) s)"
    using clean_run [OF assms(1,2) ty] assms(4) by simp
  have "object_id key \<noteq> 0"
    using oid_queries.switch_not_null [OF meta_okD(3) [OF assms(1)]] ty by blast
  then show "meta_inv h (switch_cleaned h (object_id key) s)" by (rule switch_cleaned_inv [OF assms(2)])
qed

end
