(* ===== verification/Meta_Get.thy ===== *)
theory Meta_Get
  imports Meta_Remove
begin

text \<open>
  \<open>meta_generic_validation_post_get\<close> of \<open>meta/Meta.cpp\<close>: what a successful get adds to the database.
  Object ids the vendor reports that the database does not know are inserted with their objects
  (the code calls it snooping), and the queues, scheduler groups and priority groups of a port are
  remembered as related to it.
\<close>

section \<open>Snooping\<close>

definition snoop_object :: "sai_meta \<Rightarrow> oid \<Rightarrow> (meta_db, unit) op" where
  "snoop_object h oid =
     (let key = oid_key (objectTypeQuery h oid) oid in
      seq (on_oids (objectReferenceInsert oid)) (\<lambda>_.
      seq (gets (\<lambda>s. objectExists (m_saiObjectCollection s) key)) (\<lambda>ex.
      if \<not> ex then on_objects (createObject h key) else ret ())))"

text \<open>
  The loop over the returned ids; the set of those seen is the accumulator. The further checks of the
  loop (allowed type, switch) only log.
\<close>

fun post_get_objlist_loop :: "sai_meta \<Rightarrow> oid set \<Rightarrow> oid list \<Rightarrow> (meta_db, unit) op" where
  "post_get_objlist_loop h oids [] = ret ()"
| "post_get_objlist_loop h oids (oid # rest) =
     (if oid \<in> oids then post_get_objlist_loop h oids rest
      else if oid = SAI_NULL_OBJECT_ID then post_get_objlist_loop h (insert oid oids) rest
      else if objectTypeQuery h oid = SAI_OBJECT_TYPE_NULL then post_get_objlist_loop h (insert oid oids) rest
      else seq (gets (\<lambda>s. objectReferenceExists (m_oids s) oid)) (\<lambda>ex.
           seq (if \<not> ex then snoop_object h oid else ret ()) (\<lambda>_.
           post_get_objlist_loop h (insert oid oids) rest)))"

text \<open>A null list is a query for the length.\<close>

definition post_get_objlist :: "sai_meta \<Rightarrow> oid sai_list \<Rightarrow> (meta_db, unit) op" where
  "post_get_objlist h l =
     (case l of Null_List n \<Rightarrow> ret () | Sai_List xs \<Rightarrow> post_get_objlist_loop h {} xs)"

text \<open>
  The switch over the value type on get. The range lists are run over whatever their pointer is; all
  other checks of values only log, as do the checks of enum values after the switch.
\<close>

definition post_get_value :: "sai_meta \<Rightarrow> attr_md \<Rightarrow> attr_value \<Rightarrow> (meta_db, unit) op" where
  "post_get_value h md v =
     (case md_attrvaluetype md of
        VT_PRIM p \<Rightarrow> ret ()
      | VT_CHARDATA \<Rightarrow> ret ()
      | VT_IP_ADDRESS \<Rightarrow> ret ()
      | VT_IP_PREFIX \<Rightarrow> ret ()
      | VT_OBJECT_ID \<Rightarrow> post_get_objlist h (Sai_List [v_oid v])
      | VT_OBJECT_LIST \<Rightarrow> post_get_objlist h (v_objlist v)
      | VT_VLAN_LIST \<Rightarrow> ret ()
      | VT_ACL_FIELD_DATA d \<Rightarrow>
          (if d = AD_OBJECT_ID then
             (if acl_enable (v_aclfield v) then post_get_objlist h (Sai_List [acl_oid (v_aclfield v)]) else ret ())
           else if d = AD_OBJECT_LIST then
             (if acl_enable (v_aclfield v) then post_get_objlist h (acl_objlist (v_aclfield v)) else ret ())
           else if d = AD_UINT64 \<or> d = AD_UINT8_LIST then raise (Throw ''serialization type is not supported yet FIXME'')
           else ret ())
      | VT_ACL_ACTION_DATA d \<Rightarrow>
          (if d = AD_OBJECT_ID then
             (if acl_enable (v_aclaction v) then post_get_objlist h (Sai_List [acl_oid (v_aclaction v)]) else ret ())
           else if d = AD_OBJECT_LIST then
             (if acl_enable (v_aclaction v) then post_get_objlist h (acl_objlist (v_aclaction v)) else ret ())
           else if d = AD_UINT64 \<or> d = AD_UINT8_LIST then raise (Throw ''serialization type is not supported yet FIXME'')
           else ret ())
      | VT_ACL_CAPABILITY \<Rightarrow> ret ()
      | VT_LIST l \<Rightarrow> ret ()
      | VT_UINT16_RANGE_LIST \<Rightarrow> seq (lift (list_elems (v_u16rangelist v))) (\<lambda>_. ret ())
      | VT_UINT64_RANGE_LIST \<Rightarrow> seq (lift (list_elems (v_u64rangelist v))) (\<lambda>_. ret ())
      | VT_RANGE r \<Rightarrow> ret ()
      | VT_SYSTEM_PORT_CONFIG \<Rightarrow> ret ()
      | VT_MACSEC k \<Rightarrow> raise (Throw ''serialization type is not supported yet FIXME'')
      | VT_OTHER n \<Rightarrow> raise (Throw ''serialization type is not supported yet FIXME''))"

definition post_get_attr :: "sai_meta \<Rightarrow> meta_key \<Rightarrow> sai_attribute \<Rightarrow> (meta_db, unit) op" where
  "post_get_attr h meta_key attr =
     (case get_attr_metadata h (objecttype meta_key) (a_id attr) of
        None \<Rightarrow> raise (Null_Deref ''mdp'')
      | Some md \<Rightarrow> post_get_value h md (a_value attr))"

section \<open>The objects of a port\<close>

definition meta_add_port_to_related_map :: "oid \<Rightarrow> oid sai_list \<Rightarrow> (port_related_set, unit) op" where
  "meta_add_port_to_related_map port_id l =
     seq (lift (list_elems l)) (forM (\<lambda>rel.
       if rel = SAI_NULL_OBJECT_ID then raise (Throw ''not expected NULL oid on the list'')
       else portrelated_insert port_id rel))"

definition port_list_attrs :: "sai_meta \<Rightarrow> u32 list" where
  "port_list_attrs h = map (attr_id h)
     [PORT_ATTR_QOS_QUEUE_LIST, PORT_ATTR_QOS_SCHEDULER_GROUP_LIST, PORT_ATTR_INGRESS_PRIORITY_GROUP_LIST]"

definition post_port_get_attr :: "sai_meta \<Rightarrow> meta_key \<Rightarrow> sai_attribute \<Rightarrow> (meta_db, unit) op" where
  "post_port_get_attr h meta_key attr =
     (case get_attr_metadata h (objecttype meta_key) (a_id attr) of
        None \<Rightarrow> raise (Null_Deref ''md'')
      | Some md \<Rightarrow>
          if md_attrid md \<in> set (port_list_attrs h)
          then on_ports (meta_add_port_to_related_map (object_id meta_key) (v_objlist (a_value attr)))
          else ret ())"

definition meta_post_port_get :: "sai_meta \<Rightarrow> meta_key \<Rightarrow> sai_attribute list \<Rightarrow> (meta_db, unit) op" where
  "meta_post_port_get h meta_key attr_list = forM (post_port_get_attr h meta_key) attr_list"

definition meta_generic_validation_post_get ::
  "sai_meta \<Rightarrow> meta_key \<Rightarrow> sai_attribute list \<Rightarrow> (meta_db, unit) op" where
  "meta_generic_validation_post_get h meta_key attr_list =
     (if bypassValidation h (objecttype meta_key) then ret ()
      else case get_object_type_info h (objecttype meta_key) of
        None \<Rightarrow> raise (Null_Deref ''info'')
      | Some info \<Rightarrow>
          seq (forM (post_get_attr h meta_key) attr_list) (\<lambda>_.
          if objecttype meta_key = ot h OT_PORT then meta_post_port_get h meta_key attr_list else ret ()))"

section \<open>Get keeps the invariant\<close>

text \<open>
  What the layer relies on of a vendor's answer: an id it reports is of an object id type, and the
  objects on the three lists of a port are neither ports nor switches.
\<close>

definition oid_type :: "sai_meta \<Rightarrow> object_type \<Rightarrow> bool" where
  "oid_type h t \<longleftrightarrow> (\<forall>info. get_object_type_info h t = Some info \<longrightarrow> \<not> isnonobjectid info)"

definition reported_ok :: "sai_meta \<Rightarrow> oid list \<Rightarrow> bool" where
  "reported_ok h xs \<longleftrightarrow> (\<forall>x \<in> set xs. oid_type h (objectTypeQuery h x))"

definition get_result_ok :: "sai_meta \<Rightarrow> meta_key \<Rightarrow> sai_attribute list \<Rightarrow> bool" where
  "get_result_ok h key attrs \<longleftrightarrow>
     (\<forall>attr \<in> set attrs. reported_ok h (attr_oids h key attr) \<and>
        (objecttype key = ot h OT_PORT \<longrightarrow> a_id attr \<in> set (port_list_attrs h) \<longrightarrow>
           (\<forall>x \<in> set (elems (v_objlist (a_value attr))).
              objectTypeQuery h x \<noteq> ot h OT_PORT \<and> objectTypeQuery h x \<noteq> ot_switch h)))"

text \<open>Operations that keep the invariant and leave the rest of the state alone.\<close>

definition adds_objects :: "sai_meta \<Rightarrow> (meta_db, unit) op \<Rightarrow> bool" where
  "adds_objects h m \<longleftrightarrow> (\<forall>s. db_inv h s \<longrightarrow> db_inv h (snd (m s)) \<and>
     m_attrKeys (snd (m s)) = m_attrKeys s \<and> m_portRelatedSet (snd (m s)) = m_portRelatedSet s)"

lemma adds_ret: "adds_objects h (ret ())"
  by (simp add: adds_objects_def ret_def)

lemma adds_raise: "adds_objects h (raise e)"
  by (simp add: adds_objects_def raise_def)

lemma adds_seq:
  assumes "adds_objects h m" "\<And>x. adds_objects h (f x)"
  shows "adds_objects h (seq m f)"
  unfolding adds_objects_def
proof (intro allI impI)
  fix s assume inv: "db_inv h s"
  obtain r s1 where m: "m s = (r, s1)" by fastforce
  from assms(1) inv have s1: "db_inv h s1" "m_attrKeys s1 = m_attrKeys s" "m_portRelatedSet s1 = m_portRelatedSet s"
    unfolding adds_objects_def using m by (metis snd_conv)+
  show "db_inv h (snd (seq m f s)) \<and> m_attrKeys (snd (seq m f s)) = m_attrKeys s \<and>
      m_portRelatedSet (snd (seq m f s)) = m_portRelatedSet s"
  proof (cases r)
    case (Inl e)
    with m s1 show ?thesis by (simp add: seq_def)
  next
    case (Inr x)
    with m s1 assms(2) [of x] show ?thesis by (simp add: seq_def adds_objects_def)
  qed
qed

lemma adds_seq_gets: "(\<And>x. adds_objects h (f x)) \<Longrightarrow> adds_objects h (seq (gets g) f)"
  by (simp add: adds_objects_def seq_def gets_def)

lemma adds_seq_lift: "(\<And>x. r = Inr x \<Longrightarrow> adds_objects h (f x)) \<Longrightarrow> adds_objects h (seq (lift r) f)"
  by (cases r) (simp_all add: adds_objects_def seq_def lift_def)

lemma adds_forM: "(\<And>x. x \<in> set xs \<Longrightarrow> adds_objects h (f x)) \<Longrightarrow> adds_objects h (forM f xs)"
  by (induction xs) (simp_all add: adds_ret adds_seq)

text \<open>An object without references to come.\<close>

lemma new_object_keeps:
  assumes "db_inv h s" "map_of (m_saiObjectCollection s) k = None" "member_oids h k = []"
    and "object_type_valid h (objecttype k)"
  shows "db_inv h (s\<lparr>m_saiObjectCollection :=
     AList.update k \<lparr>m_metaKey = k, m_attrs = []\<rparr> (m_saiObjectCollection s)\<rparr>)"
proof -
  let ?c = "AList.update k \<lparr>m_metaKey = k, m_attrs = []\<rparr> (m_saiObjectCollection s)"
  have "total_refs h ?c y = total_refs h (m_saiObjectCollection s) y" for y
    using total_refs_new [OF assms(2), of h _ y] by (simp add: assms(3))
  then have "counted (total_refs h ?c) (m_oids s)"
    using counted_cong [OF db_inv_counted [OF assms(1)]] by simp
  moreover have "object_ok h (m_oids s) k \<lparr>m_metaKey = k, m_attrs = []\<rparr>"
    using assms(4) by (simp add: object_ok_def assms(3))
  ultimately show ?thesis
    using assms(1) db_inv_wf [OF assms(1)] by (simp add: db_inv_def)
qed

lemma adds_create:
  assumes "member_oids h k = []" "object_type_valid h (objecttype k)"
  shows "adds_objects h (on_objects (createObject h k))"
  unfolding adds_objects_def
proof (intro allI impI)
  fix s assume inv: "db_inv h s"
  show "db_inv h (snd (on_objects (createObject h k) s)) \<and>
      m_attrKeys (snd (on_objects (createObject h k) s)) = m_attrKeys s \<and>
      m_portRelatedSet (snd (on_objects (createObject h k) s)) = m_portRelatedSet s"
  proof (cases "map_of (m_saiObjectCollection s) k")
    case None
    with assms(2) have "on_objects (createObject h k) s = (Inr (), s\<lparr>m_saiObjectCollection :=
        AList.update k \<lparr>m_metaKey = k, m_attrs = []\<rparr> (m_saiObjectCollection s)\<rparr>)"
      by (simp add: zoom_def createObject_def sai_object_new_def objectExists_def has_key_def)
    with new_object_keeps [OF inv None assms] show ?thesis by simp
  next
    case (Some obj)
    with assms(2) have "snd (on_objects (createObject h k) s) = s"
      by (simp add: zoom_def createObject_def sai_object_new_def objectExists_def has_key_def)
    with inv show ?thesis by simp
  qed
qed

lemma snoop_keeps:
  assumes "meta_ok h" "x \<noteq> 0" "objectTypeQuery h x \<noteq> 0" "oid_type h (objectTypeQuery h x)"
  shows "adds_objects h (snoop_object h x)"
proof -
  let ?k = "oid_key (objectTypeQuery h x) x"
  have valid: "object_type_valid h (objecttype ?k)"
    using oid_queries.type_valid [OF meta_okD(3) [OF assms(1)]] assms(3) by simp
  have mem: "member_oids h ?k = []"
    using assms(4) by (simp add: member_oids_def oid_type_def split: option.splits)
  have ins: "adds_objects h (on_oids (objectReferenceInsert x))"
    unfolding adds_objects_def using insert_reference_keeps [OF _ assms(2)]
    by (simp add: zoom_def split_beta)
  show ?thesis
    unfolding snoop_object_def Let_def
    by (intro adds_seq ins adds_seq_gets) (simp add: adds_ret adds_create [OF mem valid])
qed

lemma adds_objlist_loop:
  assumes "meta_ok h"
  shows "reported_ok h xs \<Longrightarrow> adds_objects h (post_get_objlist_loop h seen xs)"
proof (induction xs arbitrary: seen)
  case Nil
  show ?case by (simp add: adds_ret)
next
  case (Cons x xs)
  then have ih: "adds_objects h (post_get_objlist_loop h seen xs)" for seen
    by (simp add: reported_ok_def)
  have "oid_type h (objectTypeQuery h x)" using Cons.prems by (simp add: reported_ok_def)
  then show ?case
    by (auto intro!: ih adds_seq_gets adds_seq adds_ret snoop_keeps [OF assms])
qed

lemma adds_objlist: "meta_ok h \<Longrightarrow> reported_ok h (elems l) \<Longrightarrow> adds_objects h (post_get_objlist h l)"
  by (cases l) (simp_all add: post_get_objlist_def adds_ret adds_objlist_loop)

lemma adds_value:
  assumes "meta_ok h" "reported_ok h (attr_refs md v)"
  shows "adds_objects h (post_get_value h md v)"
proof -
  note list = adds_objlist [OF assms(1)]
  note defs = post_get_value_def attr_refs_def attr_ref_list_def adds_ret adds_raise adds_seq_lift list
  show ?thesis
  proof (cases "md_attrvaluetype md")
    case (VT_ACL_FIELD_DATA d)
    with assms(2) show ?thesis by (cases d) (simp_all add: defs split: if_splits)
  next
    case (VT_ACL_ACTION_DATA d)
    with assms(2) show ?thesis by (cases d) (simp_all add: defs split: if_splits)
  qed (use assms(2) in \<open>simp_all add: defs\<close>)
qed

lemma adds_attr:
  assumes "meta_ok h" "reported_ok h (attr_oids h key attr)"
  shows "adds_objects h (post_get_attr h key attr)"
  using assms adds_value [OF assms(1)]
  by (simp add: post_get_attr_def attr_oids_def adds_raise split: option.splits)

text \<open>The objects of a port stay distinct, and of the types they are allowed to be.\<close>

lemma ports_ok_update: 
  assumes "ports_ok h m" "related_ok h rel"
  shows "ports_ok h (AList.update p rel m)"
  unfolding ports_ok_def [of h "AList.update p rel m"]
proof (intro conjI allI impI)
  show "wf_alist (AList.update p rel m)" using ports_ok_wf [OF assms(1)] by simp
  fix q r assume "map_of (AList.update p rel m) q = Some r"
  then have "r = rel \<or> map_of m q = Some r" by (simp split: if_splits)
  then show "related_ok h r" using assms ports_ok_related by blast
qed

lemma related_insert_ok:
  assumes "ports_ok h m" "objectTypeQuery h x \<noteq> ot h OT_PORT" "objectTypeQuery h x \<noteq> ot_switch h"
  shows "ports_ok h (snd (portrelated_insert p x m))"
proof -
  have rel: "related_ok h (getPortRelatedObjects m p)"
  proof (cases "map_of m p")
    case None
    then show ?thesis by (simp add: getPortRelatedObjects_def related_ok_def)
  next
    case (Some rel)
    then show ?thesis using ports_ok_related [OF assms(1) Some] by (simp add: getPortRelatedObjects_def)
  qed
  have "set (insort_insert x xs) = insert x (set xs)" "distinct xs \<Longrightarrow> distinct (insort_insert x xs)" for xs
    by (simp_all add: set_insort_insert distinct_insort_insert)
  with rel assms(2,3) have "related_ok h (insort_insert x (getPortRelatedObjects m p))"
    by (simp add: related_ok_def)
  then show ?thesis
    using assms(1) ports_ok_update [OF assms(1)] by (simp add: portrelated_insert_def)
qed

lemma related_list_ok:
  assumes "ports_ok h m" "\<forall>x \<in> set (elems l). objectTypeQuery h x \<noteq> ot h OT_PORT \<and> objectTypeQuery h x \<noteq> ot_switch h"
  shows "ports_ok h (snd (meta_add_port_to_related_map p l m))"
proof -
  have "ports_ok h (snd (forM (\<lambda>rel. if rel = 0 then raise (Throw ''not expected NULL oid on the list'')
       else portrelated_insert p rel) xs m))"
    if "\<forall>x \<in> set xs. objectTypeQuery h x \<noteq> ot h OT_PORT \<and> objectTypeQuery h x \<noteq> ot_switch h" "ports_ok h m"
    for xs m
    using that
  proof (induction xs arbitrary: m)
    case (Cons x xs)
    then show ?case
      using related_insert_ok [of h m x p]
      by (auto simp: snd_seq raise_def split: prod.split sum.split)
  qed (simp add: ret_def)
  with assms show ?thesis
    by (cases l) (auto simp: meta_add_port_to_related_map_def seq_def lift_def ret_def)
qed

lemma meta_inv_seqI:
  assumes "meta_inv h (snd (m s))" "\<And>x s'. m s = (Inr x, s') \<Longrightarrow> meta_inv h (snd (f x s'))"
  shows "meta_inv h (snd (seq m f s))"
  using assms by (auto simp: snd_seq split: prod.splits sum.splits)

lemma post_port_get_ok:
  assumes "\<forall>attr \<in> set attrs. a_id attr \<in> set (port_list_attrs h) \<longrightarrow>
      (\<forall>x \<in> set (elems (v_objlist (a_value attr))).
         objectTypeQuery h x \<noteq> ot h OT_PORT \<and> objectTypeQuery h x \<noteq> ot_switch h)"
    and "metadata_ok h" "meta_inv h s"
  shows "meta_inv h (snd (meta_post_port_get h key attrs s))"
  using assms(1,3)
proof (induction attrs arbitrary: s)
  case Nil
  then show ?case by (simp add: meta_post_port_get_def ret_def)
next
  case (Cons attr attrs)
  have "meta_inv h (snd (post_port_get_attr h key attr s))"
  proof (cases "get_attr_metadata h (objecttype key) (a_id attr)")
    case None
    then show ?thesis using Cons.prems(2) by (simp add: post_port_get_attr_def raise_def)
  next
    case (Some md)
    have "md_attrid md = a_id attr" by (rule metadata_okD(1) [OF assms(2) Some])
    moreover have "ports_ok h (m_portRelatedSet s)" by (rule meta_invD(3) [OF Cons.prems(2)])
    ultimately show ?thesis
      using Some Cons.prems related_list_ok [of h "m_portRelatedSet s" "v_objlist (a_value attr)"]
      by (auto simp: post_port_get_attr_def zoom_def ret_def meta_inv_def db_inv_def split_beta)
  qed
  moreover have "meta_inv h (snd (meta_post_port_get h key attrs s'))" if "meta_inv h s'" for s'
    using Cons.IH Cons.prems(1) that by simp
  ultimately show ?case
    by (auto simp: meta_post_port_get_def intro!: meta_inv_seqI)
qed

lemma post_get_keeps:
  assumes "meta_ok h" "meta_inv h s" "get_result_ok h key attrs"
  shows "meta_inv h (snd (meta_generic_validation_post_get h key attrs s))"
proof (cases "get_object_type_info h (objecttype key)")
  case None
  then show ?thesis using assms(2) by (simp add: meta_generic_validation_post_get_def raise_def)
next
  case (Some info)
  have "adds_objects h (forM (post_get_attr h key) attrs)"
    using assms(1,3) by (intro adds_forM adds_attr) (simp_all add: get_result_ok_def)
  then have first: "meta_inv h (snd (forM (post_get_attr h key) attrs s))"
    using assms(2) by (simp add: adds_objects_def meta_inv_def)
  then show ?thesis
    using Some assms(3) meta_okD(1) [OF assms(1)]
    by (auto simp: meta_generic_validation_post_get_def get_result_ok_def ret_def
        intro!: meta_inv_seqI post_port_get_ok)
qed

end
