(* ===== verification/Meta_Api.thy ===== *)
theory Meta_Api
  imports Meta_Generic Meta_Get
begin

text \<open>
  The calls of the metadata layer (\<open>class Meta\<close>): each validates, hands the call to the interface below
  (\<open>m_implementation\<close>), and on success updates the database. The interface below is outside the
  layer: its answer is an argument of the call, and it is looked at only where the code calls it.
\<close>

section \<open>Steps\<close>

text \<open>A validation, and the rest of the call when it answers success.\<close>

definition guarded :: "(meta_db \<Rightarrow> checked) \<Rightarrow> (meta_db, sai_status) op \<Rightarrow> (meta_db, sai_status) op" where
  "guarded c k = (\<lambda>s. case c s of
      Inl e \<Rightarrow> (Inl e, s)
    | Inr st \<Rightarrow> if st = SAI_STATUS_SUCCESS then k s else (Inr st, s))"

text \<open>The answer of the interface below, and what is done when it is success.\<close>

definition on_success :: "sai_status \<Rightarrow> (meta_db, unit) op \<Rightarrow> (meta_db, sai_status) op" where
  "on_success st m = (if st = SAI_STATUS_SUCCESS then seq m (\<lambda>_. ret st) else ret st)"

text \<open>The depth the recursion of the removal is run with: above the number of objects.\<close>

definition post_remove :: "sai_meta \<Rightarrow> meta_key \<Rightarrow> (meta_db, unit) op" where
  "post_remove h key =
     (\<lambda>s. meta_generic_validation_post_remove h (Suc (length (m_saiObjectCollection s))) key s)"

section \<open>Object ids\<close>

definition meta_remove :: "sai_meta \<Rightarrow> sai_status \<Rightarrow> object_type \<Rightarrow> oid \<Rightarrow> (meta_db, sai_status) op" where
  "meta_remove h answer object_type oid =
     guarded (\<lambda>s. meta_sai_validate_oid h s object_type (Some oid) False)
      (guarded (\<lambda>s. meta_generic_validation_remove h s (oid_key object_type oid))
        (on_success answer (post_remove h (oid_key object_type oid))))"

text \<open>
  On create the pointer for the new id is \<open>None\<close> when it is null; the answer has the status and the new
  id. The switch of a new switch is itself.
\<close>

definition meta_create ::
  "sai_meta \<Rightarrow> sai_status \<times> oid \<Rightarrow> object_type \<Rightarrow> oid option \<Rightarrow> oid \<Rightarrow> sai_attribute sai_list \<Rightarrow>
     (meta_db, sai_status) op" where
  "meta_create h answer object_type oid_ptr switch_id attr_list =
     guarded (\<lambda>s. meta_sai_validate_oid h s object_type oid_ptr True)
      (guarded (\<lambda>s. meta_generic_validation_create h s (oid_key object_type SAI_NULL_OBJECT_ID) switch_id attr_list)
        (on_success (fst answer)
          (meta_generic_validation_post_create h (oid_key object_type (snd answer))
            (if object_type = ot_switch h then snd answer else switch_id) (elems attr_list))))"

definition meta_set ::
  "sai_meta \<Rightarrow> sai_status \<Rightarrow> object_type \<Rightarrow> oid \<Rightarrow> sai_attribute option \<Rightarrow> (meta_db, sai_status) op" where
  "meta_set h answer object_type oid attr =
     guarded (\<lambda>s. if \<not> objectReferenceExists (m_oids s) (switchIdQuery h oid) then INVALID else ok)
      (guarded (\<lambda>s. meta_sai_validate_oid h s object_type (Some oid) False)
        (seq (meta_generic_validation_set h (oid_key object_type oid) attr) (\<lambda>st.
          if st \<noteq> SAI_STATUS_SUCCESS then ret st
          else case attr of
            None \<Rightarrow> ret answer
          | Some a \<Rightarrow> on_success answer
                        (meta_generic_validation_post_set h (oid_key object_type oid) a))))"

text \<open>The answer of a get has the attributes as the interface below filled them in.\<close>

definition meta_get ::
  "sai_meta \<Rightarrow> sai_status \<times> sai_attribute list \<Rightarrow> object_type \<Rightarrow> oid \<Rightarrow> sai_attribute sai_list \<Rightarrow>
     (meta_db, sai_status) op" where
  "meta_get h answer object_type oid attr_list =
     guarded (\<lambda>s. meta_sai_validate_oid h s object_type (Some oid) False)
      (guarded (\<lambda>s. meta_generic_validation_get h s (oid_key object_type oid) attr_list)
        (on_success (fst answer)
          (meta_generic_validation_post_get h (oid_key object_type oid) (snd answer))))"

section \<open>Entries\<close>

text \<open>The key of an entry: its structure with the object type of the macro's argument.\<close>

definition entry_key :: "sai_meta \<Rightarrow> entry_name \<Rightarrow> meta_key \<Rightarrow> meta_key" where
  "entry_key h kind entry = entry\<lparr>objecttype := ot h (OT_ENTRY kind)\<rparr>"

definition entry_keyed :: "sai_meta \<Rightarrow> entry_name \<Rightarrow> meta_key option \<Rightarrow> meta_key option" where
  "entry_keyed h kind entry = map_option (entry_key h kind) entry"

text \<open>A null pointer has left before it is read.\<close>

definition with_entry :: "meta_key option \<Rightarrow> (meta_key \<Rightarrow> (meta_db, sai_status) op) \<Rightarrow> (meta_db, sai_status) op" where
  "with_entry entry k = (case entry of None \<Rightarrow> raise (Null_Deref ''entry'') | Some key \<Rightarrow> k key)"

definition meta_create_entry ::
  "sai_meta \<Rightarrow> sai_status \<Rightarrow> entry_name \<Rightarrow> meta_key option \<Rightarrow> sai_attribute sai_list \<Rightarrow> (meta_db, sai_status) op" where
  "meta_create_entry h answer kind entry attr_list =
     guarded (\<lambda>s. meta_sai_validate_entry h s kind (entry_keyed h kind entry) True False)
      (with_entry (entry_keyed h kind entry) (\<lambda>key.
        guarded (\<lambda>s. meta_generic_validation_create h s key (object_id key) attr_list)
          (on_success answer (meta_generic_validation_post_create h key (object_id key) (elems attr_list)))))"

definition meta_remove_entry ::
  "sai_meta \<Rightarrow> sai_status \<Rightarrow> entry_name \<Rightarrow> meta_key option \<Rightarrow> (meta_db, sai_status) op" where
  "meta_remove_entry h answer kind entry =
     guarded (\<lambda>s. meta_sai_validate_entry h s kind (entry_keyed h kind entry) False False)
      (with_entry (entry_keyed h kind entry) (\<lambda>key.
        guarded (\<lambda>s. meta_generic_validation_remove h s key)
          (on_success answer (post_remove h key))))"

definition meta_set_entry ::
  "sai_meta \<Rightarrow> sai_status \<Rightarrow> entry_name \<Rightarrow> meta_key option \<Rightarrow> sai_attribute option \<Rightarrow> (meta_db, sai_status) op" where
  "meta_set_entry h answer kind entry attr =
     guarded (\<lambda>s. meta_sai_validate_entry h s kind (entry_keyed h kind entry) False False)
      (with_entry (entry_keyed h kind entry) (\<lambda>key.
        seq (meta_generic_validation_set h key attr) (\<lambda>st.
          if st \<noteq> SAI_STATUS_SUCCESS then ret st
          else case attr of
            None \<Rightarrow> ret answer
          | Some a \<Rightarrow> on_success answer (meta_generic_validation_post_set h key a))))"

definition meta_get_entry ::
  "sai_meta \<Rightarrow> sai_status \<times> sai_attribute list \<Rightarrow> entry_name \<Rightarrow> meta_key option \<Rightarrow> sai_attribute sai_list \<Rightarrow>
     (meta_db, sai_status) op" where
  "meta_get_entry h answer kind entry attr_list =
     guarded (\<lambda>s. meta_sai_validate_entry h s kind (entry_keyed h kind entry) False True)
      (with_entry (entry_keyed h kind entry) (\<lambda>key.
        guarded (\<lambda>s. meta_generic_validation_get h s key attr_list)
          (on_success (fst answer) (meta_generic_validation_post_get h key (snd answer)))))"

section \<open>Bulk calls\<close>

text \<open>
  A bulk call validates all its objects on the database as it is, makes one call below, and then
  updates the database for each object whose status is success. \<open>bulk_update\<close> is the second loop.
\<close>

definition bulk_update ::
  "('k \<Rightarrow> (meta_db, unit) op) \<Rightarrow> ('k \<times> sai_status) list \<Rightarrow> (meta_db, unit) op" where
  "bulk_update post = forM (\<lambda>(k, st). if st = SAI_STATUS_SUCCESS then post k else ret ())"

text \<open>
  The arguments all bulk calls check first: the count and the mode. The arrays are lists here; that
  their pointers are not null, which the code checks with the same answer, is not represented.
\<close>

definition bulk_arguments :: "nat \<Rightarrow> bool \<Rightarrow> checked" where
  "bulk_arguments object_count mode_ok =
     (if object_count = 0 then INVALID else if \<not> mode_ok then INVALID else ok)"

definition meta_bulkRemove ::
  "sai_meta \<Rightarrow> sai_status \<times> sai_status list \<Rightarrow> object_type \<Rightarrow> oid list \<Rightarrow> bool \<Rightarrow> (meta_db, sai_status) op" where
  "meta_bulkRemove h answer object_type oids mode_ok =
     guarded (\<lambda>s. if \<not> object_type_valid h object_type then INVALID
                   else bulk_arguments (length oids) mode_ok)
      (guarded (\<lambda>s. check_all (\<lambda>oid. check_then (meta_sai_validate_oid h s object_type (Some oid) False)
                    (meta_generic_validation_remove h s (oid_key object_type oid))) oids)
        (seq (bulk_update (post_remove h) (zip (map (oid_key object_type) oids) (snd answer)))
          (\<lambda>_. ret (fst answer))))"

definition meta_bulkCreate ::
  "sai_meta \<Rightarrow> sai_status \<times> (oid \<times> sai_status) list \<Rightarrow> object_type \<Rightarrow> oid \<Rightarrow> sai_attribute sai_list list \<Rightarrow> bool \<Rightarrow>
     (meta_db, sai_status) op" where
  "meta_bulkCreate h answer object_type switchId attr_lists mode_ok =
     guarded (\<lambda>s. if \<not> object_type_valid h object_type then INVALID
                   else if objectTypeQuery h switchId \<noteq> ot_switch h then INVALID
                   else if length attr_lists = 0 then INVALID
                   else check_then
                     (check_all (\<lambda>l. if list_null l then INVALID
                                     else if object_type = ot_switch h then Inl (Throw ''create bulk switch not supported'')
                                     else ok) attr_lists)
                     (if \<not> mode_ok then INVALID else ok))
      (guarded (\<lambda>s. check_all (\<lambda>l. check_then (meta_sai_validate_oid h s object_type (Some SAI_NULL_OBJECT_ID) True)
                    (meta_generic_validation_create h s (oid_key object_type SAI_NULL_OBJECT_ID) switchId l)) attr_lists)
        (seq (bulk_update (\<lambda>(oid, l). meta_generic_validation_post_create h (oid_key object_type oid) switchId (elems l))
               (map2 (\<lambda>l (oid, st). ((oid, l), st)) attr_lists (snd answer)))
          (\<lambda>_. ret (fst answer))))"

definition meta_bulkCreate_entry ::
  "sai_meta \<Rightarrow> sai_status \<times> sai_status list \<Rightarrow> entry_name \<Rightarrow> (meta_key \<times> sai_attribute sai_list) list \<Rightarrow> bool \<Rightarrow>
     (meta_db, sai_status) op" where
  "meta_bulkCreate_entry h answer kind entries mode_ok =
     guarded (\<lambda>s. bulk_arguments (length entries) mode_ok)
      (guarded (\<lambda>s. check_all (\<lambda>(entry, l).
                    check_then (meta_sai_validate_entry h s kind (Some (entry_key h kind entry)) True False)
                      (meta_generic_validation_create h s (entry_key h kind entry) (object_id entry) l)) entries)
        (seq (bulk_update (\<lambda>(entry, l). meta_generic_validation_post_create h (entry_key h kind entry)
                             (object_id entry) (elems l)) (zip entries (snd answer)))
          (\<lambda>_. ret (fst answer))))"

definition meta_bulkRemove_entry ::
  "sai_meta \<Rightarrow> sai_status \<times> sai_status list \<Rightarrow> entry_name \<Rightarrow> meta_key list \<Rightarrow> bool \<Rightarrow> (meta_db, sai_status) op" where
  "meta_bulkRemove_entry h answer kind entries mode_ok =
     guarded (\<lambda>s. bulk_arguments (length entries) mode_ok)
      (guarded (\<lambda>s. check_all (\<lambda>entry.
                    check_then (meta_sai_validate_entry h s kind (Some (entry_key h kind entry)) False False)
                      (meta_generic_validation_remove h s (entry_key h kind entry))) entries)
        (seq (bulk_update (post_remove h) (zip (map (entry_key h kind) entries) (snd answer)))
          (\<lambda>_. ret (fst answer))))"

text \<open>Set may change the state while validating, so its first loop is an operation.\<close>

fun all_success :: "('a \<Rightarrow> (meta_db, sai_status) op) \<Rightarrow> 'a list \<Rightarrow> (meta_db, sai_status) op" where
  "all_success f [] = ret SAI_STATUS_SUCCESS"
| "all_success f (x # xs) =
     seq (f x) (\<lambda>st. if st = SAI_STATUS_SUCCESS then all_success f xs else ret st)"

definition bulk_set ::
  "sai_meta \<Rightarrow> sai_status \<times> sai_status list \<Rightarrow> (meta_db \<Rightarrow> meta_key \<Rightarrow> checked) \<Rightarrow>
     (meta_key \<times> sai_attribute) list \<Rightarrow> (meta_db, sai_status) op" where
  "bulk_set h answer validate items =
     seq (all_success (\<lambda>(key, attr).
            guarded (\<lambda>s. validate s key) (meta_generic_validation_set h key (Some attr))) items) (\<lambda>st.
       if st \<noteq> SAI_STATUS_SUCCESS then ret st
       else seq (bulk_update (\<lambda>(key, attr). meta_generic_validation_post_set h key attr) (zip items (snd answer)))
              (\<lambda>_. ret (fst answer)))"

definition meta_bulkSet ::
  "sai_meta \<Rightarrow> sai_status \<times> sai_status list \<Rightarrow> object_type \<Rightarrow> (oid \<times> sai_attribute) list \<Rightarrow> bool \<Rightarrow>
     (meta_db, sai_status) op" where
  "meta_bulkSet h answer object_type items mode_ok =
     guarded (\<lambda>s. if \<not> object_type_valid h object_type then INVALID
                  else bulk_arguments (length items) mode_ok)
      (bulk_set h answer (\<lambda>s key. meta_sai_validate_oid h s object_type (Some (object_id key)) False)
        (map (\<lambda>(oid, attr). (oid_key object_type oid, attr)) items))"

definition meta_bulkSet_entry ::
  "sai_meta \<Rightarrow> sai_status \<times> sai_status list \<Rightarrow> entry_name \<Rightarrow> (meta_key \<times> sai_attribute) list \<Rightarrow> bool \<Rightarrow>
     (meta_db, sai_status) op" where
  "meta_bulkSet_entry h answer kind items mode_ok =
     guarded (\<lambda>s. bulk_arguments (length items) mode_ok)
      (bulk_set h answer (\<lambda>s key. meta_sai_validate_entry h s kind (Some key) False False)
        (map (\<lambda>(entry, attr). (entry_key h kind entry, attr)) items))"

definition meta_bulkGet ::
  "sai_meta \<Rightarrow> sai_status \<times> (sai_attribute list \<times> sai_status) list \<Rightarrow> object_type \<Rightarrow>
     (oid \<times> sai_attribute sai_list) list \<Rightarrow> bool \<Rightarrow> (meta_db, sai_status) op" where
  "meta_bulkGet h answer object_type items mode_ok =
     guarded (\<lambda>s. if \<not> object_type_valid h object_type then INVALID
                  else bulk_arguments (length items) mode_ok)
      (guarded (\<lambda>s. check_all (\<lambda>(oid, l). check_then (meta_sai_validate_oid h s object_type (Some oid) False)
                    (meta_generic_validation_get h s (oid_key object_type oid) l)) items)
        (seq (bulk_update (\<lambda>(oid, attrs). meta_generic_validation_post_get h (oid_key object_type oid) attrs)
               (map2 (\<lambda>(oid, l) (attrs, st). ((oid, attrs), st)) items (snd answer)))
          (\<lambda>_. ret (fst answer))))"

text \<open>\<open>DECLARE_BULK_GET_ENTRY\<close>.\<close>

definition meta_bulkGet_entry :: "(meta_db, sai_status) op" where
  "meta_bulkGet_entry = ret SAI_STATUS_NOT_IMPLEMENTED"

end
