(* ===== verification/Meta_Correct.thy ===== *)
theory Meta_Correct
  imports Meta_Api
begin

text \<open>
  What the validations establish: a call that passes them meets the conditions under which the
  updates of the database keep its invariant; and that every call keeps it.
\<close>

section \<open>Object ids in values\<close>

lemma refs_local_Cons:
  "refs_local h m sw (x # xs) \<longleftrightarrow> (x \<noteq> 0 \<longrightarrow> has_key m x \<and> switchIdQuery h x = sw) \<and> refs_local h m sw xs"
  by (auto simp: refs_local_def)

lemma objlist_loop_ok:
  "objlist_loop h s md sw i seen ty xs = ok \<Longrightarrow> refs_local h (m_oids s) sw xs"
proof (induction xs arbitrary: i seen ty)
  case (Cons x xs)
  then show ?case
    by (simp add: refs_local_Cons Let_def objectReferenceExists_def split: if_splits)
qed simp

lemma objlist_ok:
  assumes "meta_generic_validation_objlist h s md sw l = ok"
  shows "list_ok l" "refs_local h (m_oids s) sw (elems l)"
  using assms objlist_loop_ok
  by (auto simp: meta_generic_validation_objlist_def split: if_splits sai_list.splits)

text \<open>The value switches look at the same object ids as the reference switches.\<close>

definition value_ok :: "sai_meta \<Rightarrow> meta_db \<Rightarrow> oid \<Rightarrow> attr_md \<Rightarrow> attr_value \<Rightarrow> bool" where
  "value_ok h s sw md v \<longleftrightarrow>
     list_ok (attr_ref_list md v) \<and> refs_local h (m_oids s) sw (attr_refs md v)"

lemma value_okI: "meta_generic_validation_objlist h s md sw (attr_ref_list md v) = ok \<Longrightarrow> value_ok h s sw md v"
  using objlist_ok by (auto simp: value_ok_def attr_refs_def)

lemma value_ok_none: "attr_ref_list md v = Sai_List [] \<Longrightarrow> value_ok h s sw md v"
  by (simp add: value_ok_def attr_refs_def)

lemma value_ok_null: "attr_ref_list md v = Sai_List [0] \<Longrightarrow> value_ok h s sw md v"
  by (simp add: value_ok_def attr_refs_def refs_local_def)

lemma create_value_ok:
  assumes "create_value_check h s md sw v = ok"
  shows "value_ok h s sw md v \<and> removable (md_attrvaluetype md)"
proof (cases "md_attrvaluetype md")
  case (VT_ACL_FIELD_DATA d)
  with assms show ?thesis
    by (cases d) (auto simp: create_value_check_def removable_def attr_ref_list_def
        intro: value_ok_none value_okI split: if_splits)
next
  case (VT_ACL_ACTION_DATA d)
  with assms show ?thesis
    by (cases d) (auto simp: create_value_check_def removable_def attr_ref_list_def
        intro: value_ok_none value_okI split: if_splits)
qed (use assms in \<open>auto simp: create_value_check_def removable_def attr_ref_list_def
       intro: value_ok_none value_okI split: if_splits\<close>)

lemma set_value_ok:
  assumes "set_value_check h s md sw v = ok"
  shows "value_ok h s sw md v \<and> (removable (md_attrvaluetype md) \<or> md_attrvaluetype md = VT_ACL_CAPABILITY)"
proof (cases "md_attrvaluetype md")
  case (VT_ACL_FIELD_DATA d)
  with assms show ?thesis
    by (cases d) (auto simp: set_value_check_def removable_def attr_ref_list_def
        intro: value_ok_none value_okI split: if_splits)
next
  case (VT_ACL_ACTION_DATA d)
  with assms show ?thesis
    by (cases d) (auto simp: set_value_check_def removable_def attr_ref_list_def
        intro: value_ok_none value_okI split: if_splits)
qed (use assms in \<open>auto simp: set_value_check_def removable_def attr_ref_list_def
       intro: value_ok_none value_ok_null value_okI split: if_splits\<close>)

section \<open>Create\<close>

lemma create_attr_ok:
  assumes "create_attr_check h s key sw seen attr = ok"
  shows "a_id attr \<notin> set seen"
    "\<exists>md. get_attr_metadata h (objecttype key) (a_id attr) = Some md \<and>
       value_ok h s sw md (a_value attr) \<and> removable (md_attrvaluetype md)"
  using assms create_value_ok
  by (auto simp: create_attr_check_def split: option.splits if_splits)

lemma create_attrs_ok:
  "create_attrs_check h s key sw seen attrs = ok \<Longrightarrow>
     distinct (map a_id attrs) \<and> a_id ` set attrs \<inter> set seen = {} \<and>
     (\<forall>attr \<in> set attrs. \<exists>md. get_attr_metadata h (objecttype key) (a_id attr) = Some md \<and>
        value_ok h s sw md (a_value attr) \<and> removable (md_attrvaluetype md))"
proof (induction attrs arbitrary: seen)
  case Nil
  then show ?case by simp
next
  case (Cons attr attrs)
  then have a: "create_attr_check h s key sw seen attr = ok"
    and r: "create_attrs_check h s key sw (a_id attr # seen) attrs = ok" by simp_all
  from Cons.IH [OF r] create_attr_ok [OF a] show ?case by auto
qed

lemma create_members_ok:
  assumes "meta_generic_validate_non_object_on_create h s key sw = ok"
  shows "refs_local h (m_oids s) sw (member_oids h key)"
proof (cases "get_object_type_info h (objecttype key)")
  case None
  then show ?thesis by (simp add: member_oids_def)
next
  case (Some info)
  show ?thesis
  proof (cases "isnonobjectid info")
    case True
    with assms Some have all: "\<forall>m \<in> set (structmembers info). non_object_member_check h s key sw m = ok"
      by (simp add: meta_generic_validate_non_object_on_create_def check_all_ok)
    have "has_key (m_oids s) (sm_getoid m key) \<and> switchIdQuery h (sm_getoid m key) = sw"
      if "m \<in> set (structmembers info)" "sm_membervaluetype m = VT_OBJECT_ID" for m
    proof -
      from all that(1) have "non_object_member_check h s key sw m = ok" by blast
      with that(2) show ?thesis
        by (simp add: non_object_member_check_def Let_def objectReferenceExists_def split: if_splits)
    qed
    with Some True show ?thesis by (auto simp: member_oids_def refs_local_def)
  next
    case False
    with Some show ?thesis by (simp add: member_oids_oid_type)
  qed
qed

text \<open>The switch a new object is for, and the key it will have.\<close>

definition create_key_ok :: "sai_meta \<Rightarrow> meta_key \<Rightarrow> oid \<Rightarrow> meta_key \<Rightarrow> bool" where
  "create_key_ok h key0 switch_id key \<longleftrightarrow>
     objecttype key = objecttype key0 \<and>
     (\<forall>info. get_object_type_info h (objecttype key) = Some info \<longrightarrow>
        (if isnonobjectid info then key = key0
         else objecttype key \<noteq> ot_switch h \<longrightarrow> switchIdQuery h (object_id key) = switch_id))"

lemma create_steps_objecttype:
  assumes "create_steps h s key0 sw attrs = ok"
  shows "create_attrs_check h s key0 sw [] attrs = ok"
    "meta_generic_validate_non_object_on_create h s key0 sw = ok"
    "get_object_type_info h (objecttype key0) \<noteq> None"
  using assms by (auto simp: create_steps_def meta_generic_validate_non_object_on_create_def
      split: option.splits)

lemma create_validated_switch:
  assumes "meta_ok h" "objecttype key = ot_switch h" "create_switch_check h attrs = ok"
    "create_attrs_check h s key0 sw [] attrs = ok" "objecttype key0 = objecttype key"
  shows "create_args_ok h s key attrs"
proof -
  note md_ok = meta_okD(1) [OF assms(1)]
  note attrs = create_attrs_ok [OF assms(4)]
  have "member_oids h key = []"
    using metadata_okD(6) [OF md_ok] assms(2) by (auto simp: member_oids_def split: option.splits)
  moreover have "\<exists>md. get_attr_metadata h (objecttype key) (a_id attr) = Some md \<and>
      list_ok (attr_ref_list md (a_value attr)) \<and>
      refs_local h (m_oids s) (key_switch h key) (attr_refs md (a_value attr)) \<and> \<not> md_isoidattribute md"
    if "attr \<in> set attrs" for attr
  proof -
    from attrs that obtain md where md: "get_attr_metadata h (objecttype key0) (a_id attr) = Some md"
      "value_ok h s sw md (a_value attr)" by blast
    have "(case get_attr_metadata h (ot_switch h) (a_id attr) of None \<Rightarrow> INVALID
        | Some meta \<Rightarrow> if md_isoidattribute meta then INVALID else ok) = ok"
      using assms(3) that by (simp add: create_switch_check_def check_all_ok)
    with md(1) assms(2,5) have "\<not> md_isoidattribute md" by (simp split: if_splits)
    with not_isoid_no_refs [OF md_ok md(1)] md assms(5) show ?thesis by (simp add: value_ok_def)
  qed
  ultimately show ?thesis using attrs assms(2) by (simp add: create_args_ok_def)
qed

lemma create_validated_object:
  assumes "meta_ok h" "objecttype key \<noteq> ot_switch h" "key_switch h key = sw"
    "create_attrs_check h s key0 sw [] attrs = ok" "objecttype key0 = objecttype key"
    "refs_local h (m_oids s) sw (member_oids h key)"
  shows "create_args_ok h s key attrs"
  using create_attrs_ok [OF assms(4)] assms(2,3,5,6)
  by (simp add: create_args_ok_def value_ok_def)

lemma create_validated:
  assumes "meta_ok h" "meta_generic_validation_create h s key0 switch_id l = ok"
    "create_key_ok h key0 switch_id key"
  shows "create_args_ok h s key (elems l)"
proof (cases "objecttype key = ot_switch h")
  case True
  with assms(2,3) have "create_switch_check h (elems l) = ok" "create_steps h s key0 0 (elems l) = ok"
    by (auto simp: meta_generic_validation_create_def create_key_ok_def split: if_splits)
  then show ?thesis
    using create_validated_switch [OF assms(1) True _ create_steps_objecttype(1)] assms(3)
    by (simp add: create_key_ok_def)
next
  case False
  have ty: "objecttype key0 = objecttype key" using assms(3) by (simp add: create_key_ok_def)
  with False assms(2) obtain sw where sw: "meta_extract_switch_id h key0 switch_id = Inr sw"
    "create_on_switch_check h s sw = ok" "create_steps h s key0 sw (elems l) = ok"
    by (auto simp: meta_generic_validation_create_def split: if_splits sum.splits)
  note steps = create_steps_objecttype [OF sw(3)]
  from steps(3) ty obtain info where info: "get_object_type_info h (objecttype key) = Some info" by auto
  have self: "switchIdQuery h sw = sw"
    using sw(2) oid_queries.switch_self [OF meta_okD(3) [OF assms(1)], of sw]
    by (auto simp: create_on_switch_check_def split: if_splits)
  have mem: "refs_local h (m_oids s) sw (member_oids h key0)" by (rule create_members_ok [OF steps(2)])
  show ?thesis
  proof (cases "isnonobjectid info")
    case True
    with info assms(3) have "key = key0" by (simp add: create_key_ok_def)
    moreover have "sw = object_id key0" using sw(1) True info ty by (simp add: meta_extract_switch_id_def)
    ultimately show ?thesis
      using create_validated_object [OF assms(1) False _ steps(1) ty] self mem by (simp add: key_switch_def)
  next
    case nonobj: False
    then have "sw = switch_id" using sw(1) info ty by (simp add: meta_extract_switch_id_def)
    moreover have "switchIdQuery h (object_id key) = switch_id"
      using assms(3) info nonobj False by (simp add: create_key_ok_def)
    ultimately show ?thesis
      using create_validated_object [OF assms(1) False _ steps(1) ty] member_oids_oid_type [OF info nonobj]
      by (simp add: key_switch_def)
  qed
qed

section \<open>Set\<close>

text \<open>The ids in a value of an entry are on the switch the entry is on.\<close>

lemma refs_local_switch:
  assumes "meta_ok h" "refs_local h m sw xs"
  shows "refs_local h m (switchIdQuery h sw) xs"
proof -
  have "switchIdQuery h (switchIdQuery h r) = switchIdQuery h r" for r
    by (rule oid_queries.switch_idem [OF meta_okD(3) [OF assms(1)] TrueI])
  with assms(2) show ?thesis unfolding refs_local_def by metis
qed

lemma set_validated:
  assumes "meta_ok h" "set_checks h s key md attr = ok"
    "get_attr_metadata h (objecttype key) (a_id attr) = Some md"
  shows "attr_ready h s key attr md" "objectExists (m_saiObjectCollection s) key"
proof -
  from assms(2) obtain info where info: "get_object_type_info h (objecttype key) = Some info"
    by (auto simp: set_checks_def split: if_splits option.splits)
  define sw where "sw = (if isnonobjectid info then object_id key else switchIdQuery h (object_id key))"
  have chk: "set_value_check h s md sw (a_value attr) = ok" "existing_object_check h s info key = ok"
    using assms(2) info by (auto simp: set_checks_def sw_def Let_def split: if_splits)
  from chk(2) show ex: "objectExists (m_saiObjectCollection s) key"
    by (simp add: existing_object_check_def split: if_splits)
  from set_value_ok [OF chk(1)] have v: "list_ok (attr_ref_list md (a_value attr))"
    "refs_local h (m_oids s) sw (attr_refs md (a_value attr))"
    "removable (md_attrvaluetype md) \<or> md_attrvaluetype md = VT_ACL_CAPABILITY"
    by (auto simp: value_ok_def)
  have "refs_local h (m_oids s) (key_switch h key) (attr_refs md (a_value attr))"
    using v(2) refs_local_switch [OF assms(1) v(2)] by (simp add: sw_def key_switch_def split: if_splits)
  moreover have "objecttype key \<noteq> ot_switch h \<longrightarrow> removable (md_attrvaluetype md)"
    using v(3) metadata_okD(4) [OF meta_okD(1) [OF assms(1)] assms(3)] by blast
  ultimately show "attr_ready h s key attr md"
    using v(1) ex assms(3) by (simp add: attr_ready_def)
qed

lemma validation_set_cases:
  assumes "meta_generic_validation_set h key attr s = (r, s')"
  shows "s' = s\<lparr>m_meta_unittests_set_readonly_set := m_meta_unittests_set_readonly_set s'\<rparr>"
    "r = Inr SAI_STATUS_SUCCESS \<Longrightarrow>
       \<exists>a md. attr = Some a \<and> get_attr_metadata h (objecttype key) (a_id a) = Some md \<and>
         set_checks h s' key md a = ok"
  using assms
  by (auto simp: meta_generic_validation_set_def ret_def seq_def
      meta_unittests_get_and_erase_set_readonly_flag_def split: option.splits if_splits)

section \<open>Remove\<close>

lemma related_remove_ok:
  assumes "related_remove_check h s x = ok"
  shows "remove_ready h s (oid_key (objectTypeQuery h x) x)"
proof -
  have c: "x \<noteq> 0" "objectReferenceExists (m_oids s) x" "ref_at (m_oids s) x = 0"
    "map_of (m_saiObjectCollection s) (oid_key (objectTypeQuery h x) x) \<noteq> None"
    using assms
    by (auto simp: related_remove_check_def getObjectReferenceCount_def meta_is_object_in_default_state_def
        split: if_splits option.splits)
  then show ?thesis by (simp add: remove_ready_def objectExists_def has_key_def)
qed

lemma remove_oid_ok:
  assumes "remove_oid_check h s key = ok"
  shows "object_id key \<noteq> 0" "objectTypeQuery h (object_id key) = objecttype key"
    "objectReferenceExists (m_oids s) (object_id key)"
    "objecttype key \<noteq> ot_switch h \<Longrightarrow> ref_at (m_oids s) (object_id key) = 0"
    "objecttype key \<noteq> ot_switch h \<Longrightarrow> objecttype key = ot h OT_PORT \<Longrightarrow>
       meta_port_remove_validation h s key = ok"
  using assms by (auto simp: remove_oid_check_def Let_def getObjectReferenceCount_def split: if_splits)

lemma port_remove_ok:
  assumes "meta_port_remove_validation h s key = ok"
    "x \<in> set (getPortRelatedObjects (m_portRelatedSet s) (object_id key))"
  shows "related_remove_check h s x = ok"
proof -
  from assms(2) have "getPortRelatedObjects (m_portRelatedSet s) (object_id key) \<noteq> []" by auto
  with assms(1) have "check_all (related_remove_check h s)
      (getPortRelatedObjects (m_portRelatedSet s) (object_id key)) = ok"
    by (auto simp: meta_port_remove_validation_def Let_def bindE_Inr split: if_splits)
  with assms(2) show ?thesis by (simp add: check_all_ok)
qed

lemma remove_validated_intro:
  assumes "meta_ok h" "meta_generic_validation_remove h s key = ok"
  shows "remove_validated h s key"
proof -
  note md_ok = meta_okD(1) [OF assms(1)]
  from assms(2) have ex: "objectExists (m_saiObjectCollection s) key"
    by (simp add: meta_generic_validation_remove_def split: if_splits)
  with assms(2) obtain info where info: "get_object_type_info h (objecttype key) = Some info"
    by (auto simp: meta_generic_validation_remove_def split: option.splits)
  show ?thesis
  proof (cases "isnonobjectid info")
    case True
    then have "objecttype key \<noteq> ot_switch h" "objecttype key \<noteq> ot h OT_PORT"
      using metadata_okD(6,7) [OF md_ok] info by auto
    with True ex info show ?thesis by (simp add: remove_validated_def remove_ready_def)
  next
    case False
    with assms(2) ex info have "remove_oid_check h s key = ok"
      by (simp add: meta_generic_validation_remove_def)
    note c = remove_oid_ok [OF this]
    have not_switch: "objecttype key = ot h OT_PORT \<Longrightarrow> objecttype key \<noteq> ot_switch h"
      using meta_okD(5) [OF assms(1)] by simp
    have "remove_ready h s key" if "objecttype key \<noteq> ot_switch h"
      using that c(1,3,4) ex info by (simp add: remove_ready_def)
    moreover have "remove_ready h s (oid_key (objectTypeQuery h x) x)"
      if "objecttype key = ot h OT_PORT" "x \<in> set (getPortRelatedObjects (m_portRelatedSet s) (object_id key))" for x
      using that c(5) not_switch port_remove_ok related_remove_ok by blast
    ultimately show ?thesis using c(2) by (simp add: remove_validated_def)
  qed
qed

section \<open>What create and set leave alone\<close>

definition frame :: "sai_meta \<Rightarrow> (meta_db, 'a) op \<Rightarrow> bool" where
  "frame h m \<longleftrightarrow> (\<forall>s. m_portRelatedSet (snd (m s)) = m_portRelatedSet s \<and>
     (attrkeys_ok h (m_attrKeys s) \<longrightarrow> attrkeys_ok h (m_attrKeys (snd (m s)))))"

lemma frame_seq:
  assumes "frame h m" "\<And>x. frame h (f x)"
  shows "frame h (seq m f)"
  unfolding frame_def
proof (intro allI)
  fix s
  obtain r s1 where m: "m s = (r, s1)" by fastforce
  have f: "m_portRelatedSet s1 = m_portRelatedSet s" "attrkeys_ok h (m_attrKeys s) \<longrightarrow> attrkeys_ok h (m_attrKeys s1)"
    using assms(1) m unfolding frame_def by (metis snd_conv)+
  show "m_portRelatedSet (snd (seq m f s)) = m_portRelatedSet s \<and>
     (attrkeys_ok h (m_attrKeys s) \<longrightarrow> attrkeys_ok h (m_attrKeys (snd (seq m f s))))"
  proof (cases r)
    case (Inl e)
    with m f show ?thesis by (simp add: seq_def)
  next
    case (Inr x)
    with m f assms(2) [of x] show ?thesis by (simp add: seq_def frame_def)
  qed
qed

lemma frame_simps:
  "frame h (ret x)" "frame h (raise e)" "frame h (lift r)" "frame h (gets g)"
  "frame h (modify (m_warmBoot_update b))" "frame h (on_oids m)" "frame h (on_objects m')"
  by (simp_all add: frame_def ret_def raise_def lift_def gets_def modify_def zoom_def split_beta)

lemma frame_forM: "(\<And>x. frame h (f x)) \<Longrightarrow> frame h (forM f xs)"
  by (induction xs) (simp_all add: frame_simps frame_seq)

lemma frame_attrkey: "frame h (on_attrkeys (attrkey_insert (serialize_meta_key h key) v))"
  by (simp add: frame_def zoom_def attrkey_insert_def modify_def)

lemma frame_post_create_attr: "frame h (post_create_attr h key attr)"
  unfolding post_create_attr_def
  by (auto intro!: frame_seq frame_simps split: option.split)

lemma frame_post_create: "frame h (meta_generic_validation_post_create h key sw attrs)"
proof -
  have "frame h (post_create_object h key c)" for c
    unfolding post_create_object_def by (auto intro!: frame_seq frame_simps)
  moreover have "frame h (post_create_reference h key sw c)" for c
    by (auto simp: frame_def post_create_reference_def Let_def zoom_def split_beta)
  then have "frame h (post_create_references h key sw c)" for c
    unfolding post_create_references_def increment_members_def
    by (auto intro!: frame_forM frame_simps split: option.split)
  moreover have "frame h (post_create_attributes h key sw attrs)"
    unfolding post_create_attributes_def
    by (auto intro!: frame_seq frame_simps frame_forM frame_post_create_attr frame_attrkey)
  ultimately show ?thesis
    unfolding meta_generic_validation_post_create_def Let_def by (auto intro!: frame_seq frame_simps)
qed

lemma frame_post_set: "frame h (meta_generic_validation_post_set h key attr)"
  unfolding meta_generic_validation_post_set_def
  by (auto intro!: frame_seq frame_simps split: option.split)

lemma frame_keeps:
  assumes "frame h m" "meta_inv h s" "db_inv h (snd (m s))"
  shows "meta_inv h (snd (m s))"
proof -
  from assms(1) have "m_portRelatedSet (snd (m s)) = m_portRelatedSet s"
    "attrkeys_ok h (m_attrKeys s) \<longrightarrow> attrkeys_ok h (m_attrKeys (snd (m s)))"
    unfolding frame_def by blast+
  with assms(2,3) show ?thesis by (simp add: meta_inv_def)
qed

text \<open>
  The calls of the metadata layer keep its database consistent, whatever they answer and wherever
  they throw; and what a successful removal does.
\<close>

section \<open>What is relied on of a call\<close>

text \<open>The counters are 32 bits wide: the references of a call and those stored stay below \<open>2 ^ 31\<close>.\<close>

definition create_room :: "sai_meta \<Rightarrow> meta_db \<Rightarrow> meta_key \<Rightarrow> sai_attribute list \<Rightarrow> bool" where
  "create_room h s key attrs =
     refs_bound h (m_saiObjectCollection s) (member_oids h key @ concat (map (attr_oids h key) attrs))"

definition set_room :: "sai_meta \<Rightarrow> meta_db \<Rightarrow> meta_key \<Rightarrow> sai_attribute \<Rightarrow> bool" where
  "set_room h s key attr = refs_bound h (m_saiObjectCollection s) (attr_oids h key attr)"

text \<open>The id the interface below returns for a new object belongs to the switch asked for.\<close>

definition new_oid_ok :: "sai_meta \<Rightarrow> object_type \<Rightarrow> oid \<Rightarrow> oid \<Rightarrow> bool" where
  "new_oid_ok h object_type switch_id oid \<longleftrightarrow> object_type \<noteq> ot_switch h \<longrightarrow> switchIdQuery h oid = switch_id"

section \<open>Rules for the shape of the calls\<close>

lemma guarded_keeps:
  assumes "meta_inv h s" "c s = ok \<Longrightarrow> meta_inv h (snd (k s))"
  shows "meta_inv h (snd (guarded c k s))"
  using assms by (auto simp: guarded_def split: sum.split)

lemma on_success_keeps:
  assumes "meta_inv h s" "st = SAI_STATUS_SUCCESS \<Longrightarrow> meta_inv h (snd (m s))"
  shows "meta_inv h (snd (on_success st m s))"
  using assms by (auto simp: on_success_def ret_def snd_seq split: prod.split sum.split)

section \<open>Create\<close>

lemma member_oids_ids:
  assumes "get_object_type_info h t = Some info" "\<not> isnonobjectid info"
  shows "member_oids h (oid_key t x) = []"
  using member_oids_oid_type [of h "oid_key t x"] assms by simp

lemma validate_oid_type:
  assumes "meta_sai_validate_oid h s t p c = ok"
  shows "\<exists>info. get_object_type_info h t = Some info \<and> \<not> isnonobjectid info"
  using assms by (auto simp: meta_sai_validate_oid_def split: option.splits if_splits)

lemma attr_oids_key: "objecttype k = objecttype k' \<Longrightarrow> attr_oids h k attr = attr_oids h k' attr"
  by (simp add: attr_oids_def)

lemma post_create_keeps_inv:
  assumes "meta_ok h" "meta_inv h s" "meta_generic_validation_create h s key0 sw l = ok"
    "create_key_ok h key0 sw key" "create_room h s key (elems l)"
  shows "meta_inv h (snd (meta_generic_validation_post_create h key switch_id (elems l) s))"
  using post_create_keeps [OF assms(1) meta_invD(1) [OF assms(2)] create_validated [OF assms(1,3,4)]] assms(5)
  by (intro frame_keeps [OF frame_post_create assms(2)]) (simp add: create_room_def)

lemma meta_create_keeps_inv:
  assumes "meta_ok h" "meta_inv h s" "create_room h s (oid_key t 0) (elems l)"
    and "new_oid_ok h t sw (snd answer)"
  shows "meta_inv h (snd (meta_create h answer t p sw l s))"
  unfolding meta_create_def
proof (intro guarded_keeps on_success_keeps assms(2))
  let ?key = "oid_key t (snd answer)"
  assume "meta_sai_validate_oid h s t p True = ok"
  from validate_oid_type [OF this] obtain info where
    info: "get_object_type_info h t = Some info" "\<not> isnonobjectid info" by blast
  assume v: "meta_generic_validation_create h s (oid_key t SAI_NULL_OBJECT_ID) sw l = ok"
  have "create_key_ok h (oid_key t 0) sw ?key"
    using assms(4) info by (simp add: create_key_ok_def new_oid_ok_def)
  moreover have "attr_oids h ?key = attr_oids h (oid_key t 0)" by (rule ext) (simp add: attr_oids_def)
  then have "create_room h s ?key (elems l)"
    using assms(3) member_oids_ids [OF info] by (simp add: create_room_def)
  ultimately show "meta_inv h (snd (meta_generic_validation_post_create h ?key
      (if t = ot_switch h then snd answer else sw) (elems l) s))"
    by (rule post_create_keeps_inv [OF assms(1,2) v])
qed

lemma meta_create_entry_keeps_inv:
  assumes "meta_ok h" "meta_inv h s"
    and "\<And>e. entry = Some e \<Longrightarrow> create_room h s (entry_key h kind e) (elems l)"
  shows "meta_inv h (snd (meta_create_entry h answer kind entry l s))"
proof (cases entry)
  case None
  then show ?thesis
    unfolding meta_create_entry_def
    by (intro guarded_keeps assms(2)) (simp add: with_entry_def entry_keyed_def raise_def assms(2))
next
  case (Some e)
  let ?key = "entry_key h kind e"
  have "create_key_ok h ?key (object_id ?key) ?key"
    using metadata_okD(8) [OF meta_okD(1) [OF assms(1)]] by (simp add: create_key_ok_def entry_key_def)
  then show ?thesis
    using assms(3) [OF Some] post_create_keeps_inv [OF assms(1,2)]
    by (auto simp: meta_create_entry_def with_entry_def entry_keyed_def Some
        intro!: guarded_keeps on_success_keeps assms(2))
qed

section \<open>Set\<close>

lemma meta_inv_unittests:
  "s' = s\<lparr>m_meta_unittests_set_readonly_set := x\<rparr> \<Longrightarrow> meta_inv h s' = meta_inv h s"
  by (simp add: meta_inv_def db_inv_def)

lemma set_step_keeps_inv:
  assumes "meta_ok h" "meta_inv h s" "\<And>a. attr = Some a \<Longrightarrow> set_room h s key a"
  shows "meta_inv h (snd (seq (meta_generic_validation_set h key attr) (\<lambda>st.
     if st \<noteq> SAI_STATUS_SUCCESS then ret st
     else case attr of
       None \<Rightarrow> ret answer
     | Some a \<Rightarrow> on_success answer (meta_generic_validation_post_set h key a)) s))"
proof (rule meta_inv_seqI)
  obtain r s1 where v: "meta_generic_validation_set h key attr s = (r, s1)" by fastforce
  have s1: "meta_inv h s1"
    using meta_inv_unittests [OF validation_set_cases(1) [OF v]] assms(2) by simp
  then show "meta_inv h (snd (meta_generic_validation_set h key attr s))" using v by simp
  fix x s'
  assume run: "meta_generic_validation_set h key attr s = (Inr x, s')"
  then have s': "meta_inv h s'" using s1 v by simp
  show "meta_inv h (snd ((if x \<noteq> SAI_STATUS_SUCCESS then ret x
     else case attr of None \<Rightarrow> ret answer
     | Some a \<Rightarrow> on_success answer (meta_generic_validation_post_set h key a)) s'))"
  proof (cases "x = SAI_STATUS_SUCCESS")
    case False
    with s' show ?thesis by (simp add: ret_def)
  next
    case True
    from validation_set_cases(2) [OF run] True obtain a md where
      a: "attr = Some a" "get_attr_metadata h (objecttype key) (a_id a) = Some md" "set_checks h s' key md a = ok"
      by blast
    have "m_saiObjectCollection s' = m_saiObjectCollection s"
      using validation_set_cases(1) [OF run] by (metis meta_db.select_convs(2) meta_db.surjective meta_db.update_convs(7))
    then have "refs_bound h (m_saiObjectCollection s') (attr_refs md (a_value a))"
      using assms(3) [OF a(1)] a(2) by (simp add: set_room_def attr_oids_def)
    from post_set_keeps [OF assms(1) meta_invD(1) [OF s'] set_validated(1) [OF assms(1) a(3,2)] this]
    have "meta_inv h (snd (meta_generic_validation_post_set h key a s'))"
      by (intro frame_keeps [OF frame_post_set s'])
    then show ?thesis using True a(1) s' by (simp add: on_success_keeps)
  qed
qed

lemma meta_set_keeps_inv:
  assumes "meta_ok h" "meta_inv h s" "\<And>a. attr = Some a \<Longrightarrow> set_room h s (oid_key t x) a"
  shows "meta_inv h (snd (meta_set h answer t x attr s))"
  unfolding meta_set_def
  by (intro guarded_keeps assms(2) set_step_keeps_inv [OF assms(1,2)] assms(3))

lemma meta_set_entry_keeps_inv:
  assumes "meta_ok h" "meta_inv h s"
    and "\<And>e a. entry = Some e \<Longrightarrow> attr = Some a \<Longrightarrow> set_room h s (entry_key h kind e) a"
  shows "meta_inv h (snd (meta_set_entry h answer kind entry attr s))"
proof (cases entry)
  case None
  then show ?thesis
    unfolding meta_set_entry_def
    by (intro guarded_keeps assms(2)) (simp add: with_entry_def entry_keyed_def raise_def assms(2))
next
  case (Some e)
  then show ?thesis
    unfolding meta_set_entry_def
    by (intro guarded_keeps assms(2))
      (simp add: with_entry_def entry_keyed_def set_step_keeps_inv [OF assms(1,2)] assms(3))
qed

section \<open>Get\<close>

lemma meta_get_keeps_inv:
  assumes "meta_ok h" "meta_inv h s" "get_result_ok h (oid_key t x) (snd answer)"
  shows "meta_inv h (snd (meta_get h answer t x l s))"
  unfolding meta_get_def
  by (intro guarded_keeps on_success_keeps assms(2) post_get_keeps [OF assms(1,2,3)])

lemma meta_get_entry_keeps_inv:
  assumes "meta_ok h" "meta_inv h s"
    and "\<And>e. entry = Some e \<Longrightarrow> get_result_ok h (entry_key h kind e) (snd answer)"
  shows "meta_inv h (snd (meta_get_entry h answer kind entry l s))"
proof (cases entry)
  case None
  then show ?thesis
    unfolding meta_get_entry_def
    by (intro guarded_keeps assms(2)) (simp add: with_entry_def entry_keyed_def raise_def assms(2))
next
  case (Some e)
  then show ?thesis
    using post_get_keeps [OF assms(1,2) assms(3) [OF Some]]
    by (auto simp: meta_get_entry_def with_entry_def entry_keyed_def
        intro!: guarded_keeps on_success_keeps assms(2))
qed

section \<open>Remove\<close>

text \<open>After a validated removal: what is left of the objects.\<close>

definition remove_left :: "sai_meta \<Rightarrow> meta_db \<Rightarrow> meta_key \<Rightarrow> meta_key \<Rightarrow> bool" where
  "remove_left h s key k \<longleftrightarrow> objectExists (m_saiObjectCollection s) k \<and>
     (if objecttype key = ot_switch h then key_switch h k \<noteq> object_id key else k \<notin> removed_keys h s key)"

lemma post_remove_validated:
  assumes "meta_ok h" "meta_inv h s" "meta_generic_validation_remove h s key = ok"
  shows "\<exists>s'. post_remove h key s = (Inr (), s') \<and> meta_inv h s' \<and>
     (\<forall>k. objectExists (m_saiObjectCollection s') k \<longleftrightarrow> remove_left h s key k)"
proof -
  note val = remove_validated_intro [OF assms(1,3)]
  have "objectExists (m_saiObjectCollection s) key"
    using assms(3) by (simp add: meta_generic_validation_remove_def split: if_splits)
  then have "m_saiObjectCollection s \<noteq> []" by (auto simp: objectExists_def)
  then obtain n where n: "length (m_saiObjectCollection s) = Suc n" by (cases "m_saiObjectCollection s") auto
  show ?thesis
  proof (cases "objecttype key = ot_switch h")
    case True
    let ?s' = "switch_cleaned h (object_id key) s"
    have "\<forall>k. objectExists (m_saiObjectCollection ?s') k \<longleftrightarrow> remove_left h s key k"
      using True by (auto simp: switch_cleaned_def objectExists_def has_key_filter remove_left_def)
    then show ?thesis
      using post_remove_switch_keeps(1) [OF assms(1,2) val True, where n = "length (m_saiObjectCollection s)"]
        post_remove_switch_keeps(2) [OF assms(1,2) val True]
      by (auto simp: post_remove_def simp del: meta_generic_validation_post_remove.simps)
  next
    case False
    then show ?thesis
      using post_remove_keeps [OF assms(1,2) val False, of n] n
      by (simp add: post_remove_def remove_left_def del: meta_generic_validation_post_remove.simps)
  qed
qed

lemma post_remove_keeps_inv:
  assumes "meta_ok h" "meta_inv h s" "meta_generic_validation_remove h s key = ok"
  shows "meta_inv h (snd (post_remove h key s))"
  using post_remove_validated [OF assms] by auto

lemma meta_remove_keeps_inv:
  assumes "meta_ok h" "meta_inv h s"
  shows "meta_inv h (snd (meta_remove h answer t x s))"
  unfolding meta_remove_def
  by (intro guarded_keeps on_success_keeps assms(2) post_remove_keeps_inv [OF assms])

lemma meta_remove_entry_keeps_inv:
  assumes "meta_ok h" "meta_inv h s"
  shows "meta_inv h (snd (meta_remove_entry h answer kind entry s))"
proof (cases entry)
  case None
  then show ?thesis
    unfolding meta_remove_entry_def
    by (intro guarded_keeps assms(2)) (simp add: with_entry_def entry_keyed_def raise_def assms(2))
next
  case (Some e)
  then show ?thesis
    using post_remove_keeps_inv [OF assms]
    by (auto simp: meta_remove_entry_def with_entry_def entry_keyed_def
        intro!: guarded_keeps on_success_keeps assms(2))
qed

end
