(* ===== verification/Meta_Populate.thy ===== *)
theory Meta_Populate
  imports Meta_Api Meta_Correct
begin

text \<open>
  \<open>Meta::populate\<close> of \<open>meta/Meta.cpp\<close>: a client that connects to a switch that is already running
  fills the database of the metadata layer from a dump of the ASIC database. After the functions, that
  they keep the invariant of the database.
\<close>

section \<open>References\<close>

text \<open>An id gets its counter when it is first met, as an object or as a reference.\<close>

definition populate_insert :: "oid \<Rightarrow> (ref_counter, unit) op" where
  "populate_insert oid =
     seq (gets (\<lambda>m. objectReferenceExists m oid)) (\<lambda>ex. if \<not> ex then objectReferenceInsert oid else ret ())"

definition populate_reference :: "oid \<Rightarrow> (ref_counter, unit) op" where
  "populate_reference oid = seq (populate_insert oid) (\<lambda>_. objectReferenceIncrement oid)"

text \<open>The switch over the value type: the ids of an attribute.\<close>

definition populate_list :: "attr_md \<Rightarrow> attr_value \<Rightarrow> fault + oid sai_list" where
  "populate_list md v =
     (let other = (if md_isoidattribute md then Inl (Throw ''missing process of oid attribute, FIXME'')
                   else Inr (Sai_List [])) in
      case md_attrvaluetype md of
        VT_OBJECT_ID \<Rightarrow> Inr (Sai_List [v_oid v])
      | VT_OBJECT_LIST \<Rightarrow> Inr (v_objlist v)
      | VT_ACL_FIELD_DATA d \<Rightarrow>
          (if d = AD_OBJECT_ID then Inr (if acl_enable (v_aclfield v) then Sai_List [acl_oid (v_aclfield v)] else Sai_List [])
           else if d = AD_OBJECT_LIST then Inr (if acl_enable (v_aclfield v) then acl_objlist (v_aclfield v) else Sai_List [])
           else other)
      | VT_ACL_ACTION_DATA d \<Rightarrow>
          (if d = AD_OBJECT_ID then Inr (if acl_enable (v_aclaction v) then Sai_List [acl_oid (v_aclaction v)] else Sai_List [])
           else if d = AD_OBJECT_LIST then Inr (if acl_enable (v_aclaction v) then acl_objlist (v_aclaction v) else Sai_List [])
           else other)
      | _ \<Rightarrow> other)"

section \<open>The loop\<close>

definition populate_attr :: "sai_meta \<Rightarrow> meta_key \<Rightarrow> sai_attribute \<Rightarrow> (meta_db, unit) op" where
  "populate_attr h mk attr =
     (case get_attr_metadata h (objecttype mk) (a_id attr) of
        None \<Rightarrow> raise (Null_Deref ''mdp'')
      | Some md \<Rightarrow>
          seq (lift (populate_list md (a_value attr))) (\<lambda>l.
          seq (lift (list_elems l)) (\<lambda>oids.
          seq (on_oids (forM populate_reference oids)) (\<lambda>_.
          on_objects (setObjectAttr h mk md attr)))))"

definition populate_object :: "sai_meta \<Rightarrow> meta_key \<Rightarrow> (meta_db, unit) op" where
  "populate_object h mk =
     seq (gets (\<lambda>s. objectExists (m_saiObjectCollection s) mk)) (\<lambda>ex.
     seq (if \<not> ex then on_objects (createObject h mk) else ret ()) (\<lambda>_.
     case get_object_type_info h (objecttype mk) of
       None \<Rightarrow> raise (Null_Deref ''info'')
     | Some info \<Rightarrow>
         if isnonobjectid info then
           on_oids (forM (\<lambda>m. if sm_membervaluetype m \<noteq> VT_OBJECT_ID then ret ()
                              else populate_reference (sm_getoid m mk)) (structmembers info))
         else on_oids (populate_insert (object_id mk))))"

definition populate_key :: "sai_meta \<Rightarrow> meta_key \<Rightarrow> sai_attribute list \<Rightarrow> (meta_db, unit) op" where
  "populate_key h mk attr_list =
     (if \<exists>attr \<in> set attr_list. attr_is_key h (objecttype mk) attr then
        seq (lift (constructKey h (switchIdQuery h (object_id mk)) mk attr_list)) (\<lambda>attrKey.
          on_attrkeys (attrkey_insert (serialize_meta_key h mk) attrKey))
      else ret ())"

definition populate_entry :: "sai_meta \<Rightarrow> meta_key \<times> sai_attribute list \<Rightarrow> (meta_db, unit) op" where
  "populate_entry h entry = (case entry of (mk, attr_list) \<Rightarrow>
     seq (populate_object h mk) (\<lambda>_.
     seq (forM (populate_attr h mk) attr_list) (\<lambda>_.
     populate_key h mk attr_list)))"

text \<open>
  The dump is what deserialization gives of each of its keys with its fields: the key of an object
  and its attributes, or what deserialization throws.
\<close>

definition meta_populate :: "sai_meta \<Rightarrow> (fault + (meta_key \<times> sai_attribute list)) list \<Rightarrow> (meta_db, unit) op" where
  "meta_populate h = forM (\<lambda>entry. seq (lift entry) (populate_entry h))"

text \<open>
  Populating makes the database consistent: the counters count the references of the dump, and the
  objects refer to known ids of their own switch. The null id is the exception: it gets a counter
  when the dump refers to it.
\<close>

section \<open>The counters\<close>

definition counted_nn :: "(oid \<Rightarrow> nat) \<Rightarrow> ref_counter \<Rightarrow> bool" where
  "counted_nn f m \<longleftrightarrow> wf_alist m \<and> (\<forall>x c. x \<noteq> 0 \<longrightarrow> map_of m x = Some c \<longrightarrow> c = int (f x)) \<and>
     (\<forall>x. x \<noteq> 0 \<longrightarrow> \<not> has_key m x \<longrightarrow> f x = 0)"

lemma counted_nn_delete: "counted_nn f m \<Longrightarrow> counted f (AList.delete 0 m)"
  by (auto simp: counted_nn_def counted_def has_key_def AList.delete_conv split: if_splits)

lemma counted_nn_cong: "counted_nn f m \<Longrightarrow> (\<And>x. x \<noteq> 0 \<Longrightarrow> f x = g x) \<Longrightarrow> counted_nn g m"
  by (simp add: counted_nn_def)

lemma populate_reference_run:
  assumes "counted_nn f m" "x \<noteq> 0 \<Longrightarrow> f x < nat INT32_MAX"
  shows "\<exists>m'. populate_reference x m = (Inr (), m') \<and> counted_nn (\<lambda>y. f y + (if x = y then 1 else 0)) m' \<and>
     (\<forall>y. has_key m' y \<longleftrightarrow> has_key m y \<or> y = x)"
proof -
  let ?m1 = "if has_key m x then m else AList.update x 0 m"
  have ins: "populate_insert x m = (Inr (), ?m1)"
    by (simp add: populate_insert_def seq_def gets_def ret_def objectReferenceExists_def objectReferenceInsert_def)
  have m1: "has_key ?m1 y \<longleftrightarrow> has_key m y \<or> y = x" for y by auto
  have c1: "counted_nn f ?m1"
    using assms(1) by (auto simp: counted_nn_def split: if_splits)
  show ?thesis
  proof (cases "x = 0")
    case True
    have "counted_nn (\<lambda>y. f y + (if x = y then 1 else 0)) ?m1"
      by (rule counted_nn_cong [OF c1]) (simp add: True)
    with ins m1 True show ?thesis
      by (intro exI [of _ ?m1]) (simp add: populate_reference_def seq_def objectReferenceIncrement_def)
  next
    case False
    have at: "ref_at ?m1 x = int (f x)"
      using c1 False m1 [of x] by (auto simp: counted_nn_def ref_at_def has_key_def)
    let ?m2 = "AList.update x (ref_at ?m1 x + 1) ?m1"
    have lt: "ref_at ?m1 x \<noteq> INT32_MAX" using assms(2) [OF False] unfolding at by (auto simp: INT32_MAX_def)
    have "objectReferenceIncrement x ?m1 = (Inr (), ?m2)"
      using False lt m1 [of x] by (simp only: objectReferenceIncrement_def objectReferenceExists_def) simp
    with ins have "populate_reference x m = (Inr (), ?m2)"
      by (simp only: populate_reference_def seq_def prod.case sum.case)
    moreover have "counted_nn (\<lambda>y. f y + (if x = y then 1 else 0)) ?m2"
      using c1 unfolding at by (auto simp: counted_nn_def split: if_splits)
    moreover have "\<forall>y. has_key ?m2 y \<longleftrightarrow> has_key m y \<or> y = x" by auto
    ultimately show ?thesis by blast
  qed
qed

lemma populate_references_run:
  "counted_nn f m \<Longrightarrow> (\<And>x. x \<noteq> 0 \<Longrightarrow> f x + count_list xs x \<le> nat INT32_MAX) \<Longrightarrow>
     \<exists>m'. forM populate_reference xs m = (Inr (), m') \<and> counted_nn (\<lambda>x. f x + count_list xs x) m' \<and>
       (\<forall>x. has_key m' x \<longleftrightarrow> has_key m x \<or> x \<in> set xs)"
proof (induction xs arbitrary: f m)
  case Nil
  then show ?case by (simp add: ret_def)
next
  case (Cons x xs)
  have "x \<noteq> 0 \<Longrightarrow> f x < nat INT32_MAX" using Cons.prems(2) [of x] by simp
  from populate_reference_run [OF Cons.prems(1) this] obtain m1 where
    m1: "populate_reference x m = (Inr (), m1)" "counted_nn (\<lambda>y. f y + (if x = y then 1 else 0)) m1"
      "\<forall>y. has_key m1 y \<longleftrightarrow> has_key m y \<or> y = x" by blast
  have "f y + (if x = y then 1 else 0) + count_list xs y \<le> nat INT32_MAX" if "y \<noteq> 0" for y
    using Cons.prems(2) [OF that] by (simp split: if_splits)
  from Cons.IH [OF m1(2) this] obtain m' where
    m': "forM populate_reference xs m1 = (Inr (), m')"
      "counted_nn (\<lambda>y. f y + (if x = y then 1 else 0) + count_list xs y) m'"
      "\<forall>y. has_key m' y \<longleftrightarrow> has_key m1 y \<or> y \<in> set xs" by blast
  have "counted_nn (\<lambda>y. f y + count_list (x # xs) y) m'"
    by (rule counted_nn_cong [OF m'(2)]) simp
  with m1(1,3) m'(1,3) show ?case by (auto simp: seq_def)
qed

section \<open>The invariant\<close>

text \<open>The database without the counter of the null id is consistent.\<close>

definition no_null :: "meta_db \<Rightarrow> meta_db" where
  "no_null s = s\<lparr>m_oids := AList.delete 0 (m_oids s)\<rparr>"

definition populate_inv :: "sai_meta \<Rightarrow> meta_db \<Rightarrow> bool" where
  "populate_inv h s \<longleftrightarrow> meta_inv h (no_null s) \<and> wf_alist (m_oids s)"

lemma no_null_sel [simp]:
  "m_saiObjectCollection (no_null s) = m_saiObjectCollection s" "m_attrKeys (no_null s) = m_attrKeys s"
  "m_portRelatedSet (no_null s) = m_portRelatedSet s"
  "has_key (m_oids (no_null s)) x \<longleftrightarrow> x \<noteq> 0 \<and> has_key (m_oids s) x"
  by (auto simp: no_null_def has_key_def AList.delete_conv)

lemma meta_inv_populate: "meta_inv h s \<Longrightarrow> populate_inv h s"
proof -
  assume inv: "meta_inv h s"
  then have "\<not> has_key (m_oids s) 0" using db_inv_counted [OF meta_invD(1)] by (simp add: counted_def)
  then have "AList.delete 0 (m_oids s) = m_oids s"
    by (intro delete_id) (simp add: has_key_def map_of_eq_None_iff)
  with inv meta_invD(5) [OF inv] show "populate_inv h s" by (simp add: populate_inv_def no_null_def)
qed

lemma populate_inv_counted:
  assumes "populate_inv h s"
  shows "counted_nn (total_refs h (m_saiObjectCollection s)) (m_oids s)"
proof -
  have inv: "db_inv h (no_null s)" using assms meta_invD(1) by (auto simp: populate_inv_def)
  have c: "counted (total_refs h (m_saiObjectCollection s)) (AList.delete 0 (m_oids s))"
    using db_inv_counted [OF inv] by (simp add: no_null_def)
  have "total_refs h (m_saiObjectCollection s) x = 0" if "x \<noteq> 0" "\<not> has_key (m_oids s) x" for x
    using total_refs_absent [OF inv, of x] that by simp
  with c assms show ?thesis
    by (auto simp: counted_nn_def counted_def populate_inv_def AList.delete_conv)
qed

text \<open>Counters for more ids.\<close>

lemma inserted_keeps:
  "db_inv h s \<Longrightarrow> \<exists>m. db_inv h (s\<lparr>m_oids := m\<rparr>) \<and> (\<forall>x. has_key m x \<longleftrightarrow> has_key (m_oids s) x \<or> x \<in> set xs \<and> x \<noteq> 0)"
proof (induction xs)
  case Nil
  then show ?case by (intro exI [of _ "m_oids s"]) simp
next
  case (Cons y xs)
  then obtain m where m: "db_inv h (s\<lparr>m_oids := m\<rparr>)"
    "\<forall>x. has_key m x \<longleftrightarrow> has_key (m_oids s) x \<or> x \<in> set xs \<and> x \<noteq> 0" by blast
  show ?case
  proof (cases "y = 0 \<or> has_key m y")
    case True
    with m show ?thesis by (intro exI [of _ m]) auto
  next
    case False
    have "db_inv h (snd (on_oids (objectReferenceInsert y) (s\<lparr>m_oids := m\<rparr>)))"
      by (rule insert_reference_keeps [OF m(1)]) (use False in simp)
    then have "db_inv h (s\<lparr>m_oids := AList.update y 0 m\<rparr>)"
      using False by (simp add: zoom_def objectReferenceInsert_def objectReferenceExists_def)
    with m(2) False show ?thesis by (intro exI [of _ "AList.update y 0 m"]) auto
  qed
qed

text \<open>The state between the references of an object or attribute and the object itself.\<close>

lemma referenced:
  assumes "populate_inv h s" "refs_bound h (m_saiObjectCollection s) xs"
  shows "\<exists>m' m1. forM populate_reference xs (m_oids s) = (Inr (), m') \<and> wf_alist m' \<and>
     counted (\<lambda>x. total_refs h (m_saiObjectCollection s) x + count_list xs x) (AList.delete 0 m') \<and>
     db_inv h (s\<lparr>m_oids := m1\<rparr>) \<and> (\<forall>x. has_key m1 x = has_key (AList.delete 0 m') x) \<and>
     (\<forall>x \<in> set xs. x \<noteq> 0 \<longrightarrow> has_key m1 x) \<and> (\<forall>x. has_key m' x \<longleftrightarrow> has_key (m_oids s) x \<or> x \<in> set xs)"
proof -
  have b: "total_refs h (m_saiObjectCollection s) x + count_list xs x \<le> nat INT32_MAX" if "x \<noteq> 0" for x
    using assms(2) that by (simp add: refs_bound_def)
  from populate_references_run [OF populate_inv_counted [OF assms(1)] b] obtain m' where
    m': "forM populate_reference xs (m_oids s) = (Inr (), m')"
      "counted_nn (\<lambda>x. total_refs h (m_saiObjectCollection s) x + count_list xs x) m'"
      "\<forall>x. has_key m' x \<longleftrightarrow> has_key (m_oids s) x \<or> x \<in> set xs" by blast
  have "db_inv h (no_null s)" using assms(1) meta_invD(1) by (auto simp: populate_inv_def)
  from inserted_keeps [OF this, of xs] obtain m1 where
    inv: "db_inv h (no_null s\<lparr>m_oids := m1\<rparr>)"
    and keys: "\<forall>x. has_key m1 x \<longleftrightarrow> has_key (m_oids (no_null s)) x \<or> x \<in> set xs \<and> x \<noteq> 0" by blast
  have m1: "has_key m1 x \<longleftrightarrow> x \<noteq> 0 \<and> has_key (m_oids s) x \<or> x \<in> set xs \<and> x \<noteq> 0" for x
    using keys by simp
  have "db_inv h (s\<lparr>m_oids := m1\<rparr>)" using inv by (simp add: no_null_def)
  moreover have "\<forall>x. has_key m1 x = has_key (AList.delete 0 m') x"
    using m1 m'(3) by (auto simp: has_key_def AList.delete_conv)
  moreover have "\<forall>x \<in> set xs. x \<noteq> 0 \<longrightarrow> has_key m1 x" using m1 by simp
  moreover have "wf_alist m'" using m'(2) by (simp add: counted_nn_def)
  ultimately show ?thesis
    using m'(1,3) counted_nn_delete [OF m'(2)]
    by (intro exI [of _ m'] exI [of _ m1]) simp
qed

section \<open>An entry of the dump\<close>

text \<open>What is relied on of an attribute and of an entry: they are what the layer itself would have stored.\<close>

definition dump_attr_ok :: "sai_meta \<Rightarrow> meta_key \<Rightarrow> sai_attribute \<Rightarrow> bool" where
  "dump_attr_ok h mk attr \<longleftrightarrow>
     (case get_attr_metadata h (objecttype mk) (a_id attr) of
        None \<Rightarrow> False
      | Some md \<Rightarrow>
          list_ok (attr_ref_list md (a_value attr)) \<and>
          (md_isoidattribute md \<longrightarrow> oid_value_type (md_attrvaluetype md)) \<and>
          (objecttype mk \<noteq> ot_switch h \<longrightarrow> removable (md_attrvaluetype md)) \<and>
          (\<forall>r \<in> set (attr_refs md (a_value attr)). r \<noteq> 0 \<longrightarrow> switchIdQuery h r = key_switch h mk))"

definition dump_entry_ok :: "sai_meta \<Rightarrow> object_collection \<Rightarrow> meta_key \<times> sai_attribute list \<Rightarrow> bool" where
  "dump_entry_ok h c entry \<longleftrightarrow> (case entry of (mk, attrs) \<Rightarrow>
     object_type_valid h (objecttype mk) \<and>
     (\<forall>r \<in> set (member_oids h mk). r \<noteq> 0 \<longrightarrow> switchIdQuery h r = key_switch h mk) \<and>
     (case map_of c mk of
        None \<Rightarrow> True
      | Some obj \<Rightarrow> m_attrs obj = [] \<and> \<not> (\<exists>info. get_object_type_info h (objecttype mk) = Some info \<and> isnonobjectid info)) \<and>
     distinct (map a_id attrs) \<and> (\<forall>attr \<in> set attrs. dump_attr_ok h mk attr) \<and>
     ((\<exists>attr \<in> set attrs. attr_is_key h (objecttype mk) attr) \<longrightarrow>
        (\<exists>k. constructKey h (switchIdQuery h (object_id mk)) mk attrs = Inr k)))"

definition dump_stored :: "sai_meta \<Rightarrow> meta_key \<Rightarrow> sai_attribute list \<Rightarrow> (u32, attr_wrapper) alist" where
  "dump_stored h mk attrs =
     map (\<lambda>a. (a_id a, attr_wrapper_new h (the (get_attr_metadata h (objecttype mk) (a_id a))) a)) attrs"

definition entry_refs :: "sai_meta \<Rightarrow> meta_key \<times> sai_attribute list \<Rightarrow> oid list" where
  "entry_refs h entry = (case entry of (mk, attrs) \<Rightarrow> member_oids h mk @ concat (map (attr_oids h mk) attrs))"

text \<open>The id of the object itself, and all ids that get a counter.\<close>

definition own_ids :: "sai_meta \<Rightarrow> meta_key \<Rightarrow> oid list" where
  "own_ids h mk = (case get_object_type_info h (objecttype mk) of
     None \<Rightarrow> [] | Some info \<Rightarrow> if isnonobjectid info then [] else [object_id mk])"

definition entry_ids :: "sai_meta \<Rightarrow> meta_key \<times> sai_attribute list \<Rightarrow> oid list" where
  "entry_ids h entry = own_ids h (fst entry) @ entry_refs h entry"

lemma refs_bound_step:
  assumes "refs_bound h c (xs @ ys)" "\<forall>x. total_refs h c' x = total_refs h c x + count_list xs x"
  shows "refs_bound h c' ys"
  using assms by (auto simp: refs_bound_def add.assoc)

lemma update_same: "map_of al k = Some v \<Longrightarrow> AList.update k v al = al"
  by (induction al) (auto split: if_splits)

lemma update_new: "map_of al k = None \<Longrightarrow> AList.update k v al = al @ [(k, v)]"
  by (induction al) (auto split: if_splits)

lemma populate_insert_keeps:
  assumes "populate_inv h s"
  shows "\<exists>m. populate_insert x (m_oids s) = (Inr (), m) \<and> populate_inv h (s\<lparr>m_oids := m\<rparr>) \<and>
     (\<forall>y. has_key m y \<longleftrightarrow> has_key (m_oids s) y \<or> y = x)"
proof (cases "has_key (m_oids s) x")
  case True
  with assms show ?thesis
    by (intro exI [of _ "m_oids s"]) (auto simp: populate_insert_def seq_def gets_def ret_def objectReferenceExists_def)
next
  case False
  let ?m = "AList.update x 0 (m_oids s)"
  have run: "populate_insert x (m_oids s) = (Inr (), ?m)"
    using False by (simp add: populate_insert_def seq_def gets_def objectReferenceExists_def objectReferenceInsert_def)
  have inv: "meta_inv h (no_null s)" "wf_alist (m_oids s)" using assms by (simp_all add: populate_inv_def)
  show ?thesis
  proof (cases "x = 0")
    case True
    then have "no_null (s\<lparr>m_oids := ?m\<rparr>) = no_null s" by (simp add: no_null_def delete_update_same)
    with run inv show ?thesis by (intro exI [of _ ?m]) (auto simp: populate_inv_def)
  next
    case nz: False
    have "db_inv h (snd (on_oids (objectReferenceInsert x) (no_null s)))"
      by (rule insert_reference_keeps [OF meta_invD(1) [OF inv(1)] nz])
    then have "db_inv h (no_null s\<lparr>m_oids := AList.update x 0 (m_oids (no_null s))\<rparr>)"
      using False nz by (simp add: zoom_def objectReferenceInsert_def objectReferenceExists_def)
    moreover have "no_null (s\<lparr>m_oids := ?m\<rparr>) = no_null s\<lparr>m_oids := AList.update x 0 (m_oids (no_null s))\<rparr>"
      using nz by (simp add: no_null_def delete_update)
    ultimately have "db_inv h (no_null (s\<lparr>m_oids := ?m\<rparr>))" by simp
    with run inv show ?thesis by (intro exI [of _ ?m]) (auto simp: populate_inv_def meta_inv_def)
  qed
qed

text \<open>The members of an entry key, as a list of ids.\<close>

lemma populate_members_eq:
  assumes "get_object_type_info h (objecttype mk) = Some info" "isnonobjectid info"
  shows "forM (\<lambda>m. if sm_membervaluetype m \<noteq> VT_OBJECT_ID then ret () else populate_reference (sm_getoid m mk)) (structmembers info) =
     forM populate_reference (member_oids h mk)"
  using assms by (simp add: member_oids_def forM_filter forM_map)

lemma populate_object_run:
  assumes "meta_ok h" "populate_inv h s" "dump_entry_ok h (m_saiObjectCollection s) (mk, attrs)"
    and "refs_bound h (m_saiObjectCollection s) (member_oids h mk)"
  shows "\<exists>s'. populate_object h mk s = (Inr (), s') \<and> populate_inv h s' \<and>
     m_saiObjectCollection s' = AList.update mk \<lparr>m_metaKey = mk, m_attrs = []\<rparr> (m_saiObjectCollection s) \<and>
     (\<forall>x. total_refs h (m_saiObjectCollection s') x = total_refs h (m_saiObjectCollection s) x + count_list (member_oids h mk) x) \<and>
     (\<forall>x. has_key (m_oids s') x \<longleftrightarrow> has_key (m_oids s) x \<or> x \<in> set (own_ids h mk @ member_oids h mk))"
proof -
  let ?c = "m_saiObjectCollection s"
  let ?o = "\<lparr>m_metaKey = mk, m_attrs = []\<rparr>"
  let ?c' = "AList.update mk ?o ?c"
  have inv: "meta_inv h (no_null s)" "wf_alist (m_oids s)" using assms(2) by (simp_all add: populate_inv_def)
  have valid: "object_type_valid h (objecttype mk)" using assms(3) by (simp add: dump_entry_ok_def)
  then obtain info where info: "get_object_type_info h (objecttype mk) = Some info"
    using metadata_okD(5) [OF meta_okD(1) [OF assms(1)]] by blast
  show ?thesis
  proof (cases "isnonobjectid info")
    case True
    have new: "map_of ?c mk = None"
      using assms(3) info True by (auto simp: dump_entry_ok_def split: option.splits)
    from referenced [OF assms(2,4)] obtain m' m1 where
      run: "forM populate_reference (member_oids h mk) (m_oids s) = (Inr (), m')" "wf_alist m'"
      and c: "counted (\<lambda>x. total_refs h ?c x + count_list (member_oids h mk) x) (AList.delete 0 m')"
      and m1: "db_inv h (s\<lparr>m_oids := m1\<rparr>)" "\<forall>x. has_key m1 x = has_key (AList.delete 0 m') x"
        "\<forall>x \<in> set (member_oids h mk). x \<noteq> 0 \<longrightarrow> has_key m1 x"
      and ids: "\<forall>x. has_key m' x \<longleftrightarrow> has_key (m_oids s) x \<or> x \<in> set (member_oids h mk)" by blast
    have "refs_local h m1 (key_switch h mk) (member_oids h mk)"
      using m1(3) assms(3) by (simp add: refs_local_def dump_entry_ok_def)
    then have "db_inv h (s\<lparr>m_oids := m1\<rparr>\<lparr>m_saiObjectCollection := ?c', m_oids := AList.delete 0 m'\<rparr>)"
      using new valid c m1 by (intro entry_members_counted [where key = mk]) auto
    then have "db_inv h (no_null (s\<lparr>m_saiObjectCollection := ?c', m_oids := m'\<rparr>))" by (simp add: no_null_def)
    then have "populate_inv h (s\<lparr>m_saiObjectCollection := ?c', m_oids := m'\<rparr>)"
      using inv(1) run(2) by (simp add: populate_inv_def meta_inv_def)
    moreover have "populate_object h mk s = (Inr (), s\<lparr>m_saiObjectCollection := ?c', m_oids := m'\<rparr>)"
      using new valid run(1) info True
      by (simp add: populate_object_def populate_members_eq seq_def gets_def zoom_def createObject_def sai_object_new_def
          objectExists_def has_key_def)
    moreover have "total_refs h ?c' x = total_refs h ?c x + count_list (member_oids h mk) x" for x
      using total_refs_new [OF new, of h ?o x] by simp
    ultimately show ?thesis
      using ids info True
      by (intro exI [of _ "s\<lparr>m_saiObjectCollection := ?c', m_oids := m'\<rparr>"]) (simp add: own_ids_def)
  next
    case False
    then have mem: "member_oids h mk = []" using info by (simp add: member_oids_oid_type)
    let ?s1 = "s\<lparr>m_saiObjectCollection := ?c'\<rparr>"
    have s1: "populate_inv h ?s1 \<and> (if \<not> objectExists ?c mk then on_objects (createObject h mk) else ret ()) s = (Inr (), ?s1) \<and>
        (\<forall>x. total_refs h ?c' x = total_refs h ?c x)"
    proof (cases "map_of ?c mk")
      case None
      have "db_inv h (no_null s\<lparr>m_saiObjectCollection := ?c'\<rparr>)"
        using new_object_keeps [OF meta_invD(1) [OF inv(1)], of mk] None mem valid by simp
      moreover have "no_null s\<lparr>m_saiObjectCollection := ?c'\<rparr> = no_null ?s1" by (simp add: no_null_def)
      ultimately have "populate_inv h ?s1" using inv by (simp add: populate_inv_def meta_inv_def)
      with None valid total_refs_new [OF None, of h ?o] mem show ?thesis
        by (simp add: zoom_def createObject_def sai_object_new_def objectExists_def has_key_def)
    next
      case (Some obj)
      then have "m_attrs obj = []" using assms(3) by (simp add: dump_entry_ok_def)
      moreover have "m_metaKey obj = mk"
        using db_inv_object [OF meta_invD(1) [OF inv(1)], of mk obj] Some by (simp add: object_ok_def)
      ultimately have "obj = ?o" by simp
      with Some have "?c' = ?c" by (simp add: update_same)
      with assms(2) Some show ?thesis by (simp add: objectExists_def has_key_def ret_def)
    qed
    from populate_insert_keeps [of h ?s1 "object_id mk"] s1 obtain m where
      m: "populate_insert (object_id mk) (m_oids s) = (Inr (), m)" "populate_inv h (?s1\<lparr>m_oids := m\<rparr>)"
        "\<forall>y. has_key m y \<longleftrightarrow> has_key (m_oids s) y \<or> y = object_id mk" by auto
    have "populate_object h mk s = (Inr (), ?s1\<lparr>m_oids := m\<rparr>)"
      using s1 m(1) info False by (simp add: populate_object_def seq_def gets_def zoom_def)
    with m(2,3) s1 mem info False show ?thesis
      by (intro exI [of _ "?s1\<lparr>m_oids := m\<rparr>"]) (simp add: own_ids_def)
  qed
qed

lemma populate_list_refs:
  assumes "md_isoidattribute md \<longrightarrow> oid_value_type (md_attrvaluetype md)"
  shows "populate_list md v = Inr (attr_ref_list md v)"
  using assms
  by (auto simp: populate_list_def attr_ref_list_def oid_value_type_def Let_def split: value_type.splits acl_data_type.splits)

lemma populate_attr_run:
  assumes "meta_ok h" "populate_inv h s" "dump_attr_ok h mk attr" "map_of (m_saiObjectCollection s) mk = Some obj"
    and "getAttr obj (a_id attr) = None" "refs_bound h (m_saiObjectCollection s) (attr_oids h mk attr)"
  shows "\<exists>s'. populate_attr h mk attr s = (Inr (), s') \<and> populate_inv h s' \<and>
     m_saiObjectCollection s' = AList.update mk
       (setAttr h (the (get_attr_metadata h (objecttype mk) (a_id attr))) attr obj) (m_saiObjectCollection s) \<and>
     (\<forall>x. total_refs h (m_saiObjectCollection s') x = total_refs h (m_saiObjectCollection s) x + count_list (attr_oids h mk attr) x) \<and>
     (\<forall>x. has_key (m_oids s') x \<longleftrightarrow> has_key (m_oids s) x \<or> x \<in> set (attr_oids h mk attr))"
proof -
  let ?c = "m_saiObjectCollection s"
  from assms(3) obtain md where
    md: "get_attr_metadata h (objecttype mk) (a_id attr) = Some md" "list_ok (attr_ref_list md (a_value attr))"
      "md_isoidattribute md \<longrightarrow> oid_value_type (md_attrvaluetype md)"
      "objecttype mk \<noteq> ot_switch h \<longrightarrow> removable (md_attrvaluetype md)"
      "\<forall>r \<in> set (attr_refs md (a_value attr)). r \<noteq> 0 \<longrightarrow> switchIdQuery h r = key_switch h mk"
    by (auto simp: dump_attr_ok_def split: option.splits)
  let ?xs = "attr_refs md (a_value attr)"
  let ?c' = "AList.update mk (setAttr h md attr obj) ?c"
  have oids: "attr_oids h mk attr = ?xs" using md(1) by (simp add: attr_oids_def)
  have inv: "meta_inv h (no_null s)" using assms(2) by (simp add: populate_inv_def)
  have prev: "getObjectAttr ?c mk (a_id attr) = None" using assms(4,5) by (simp add: getObjectAttr_def)
  from referenced [OF assms(2), of ?xs] assms(6) oids obtain m' m1 where
    run: "forM populate_reference ?xs (m_oids s) = (Inr (), m')" "wf_alist m'"
    and c: "counted (\<lambda>x. total_refs h ?c x + count_list ?xs x) (AList.delete 0 m')"
    and m1: "db_inv h (s\<lparr>m_oids := m1\<rparr>)" "\<forall>x. has_key m1 x = has_key (AList.delete 0 m') x"
      "\<forall>x \<in> set ?xs. x \<noteq> 0 \<longrightarrow> has_key m1 x"
    and ids: "\<forall>x. has_key m' x \<longleftrightarrow> has_key (m_oids s) x \<or> x \<in> set ?xs" by auto
  have "attr_ready h (s\<lparr>m_oids := m1\<rparr>) mk attr md"
    using md m1(3) assms(4) by (simp add: attr_ready_def refs_local_def objectExists_def has_key_def)
  from set_attr_keeps [OF assms(1) m1(1) this, of obj "AList.delete 0 m'"] assms(4) c m1(2) prev
  have "db_inv h (s\<lparr>m_oids := AList.delete 0 m', m_saiObjectCollection := ?c'\<rparr>)" by simp
  then have "db_inv h (no_null (s\<lparr>m_saiObjectCollection := ?c', m_oids := m'\<rparr>))"
    by (rule db_inv_cong [THEN iffD1, rotated -1]) (simp_all add: no_null_def)
  then have "populate_inv h (s\<lparr>m_saiObjectCollection := ?c', m_oids := m'\<rparr>)"
    using inv run(2) by (simp add: populate_inv_def meta_inv_def)
  moreover have "populate_attr h mk attr s = (Inr (), s\<lparr>m_saiObjectCollection := ?c', m_oids := m'\<rparr>)"
    using md(1,2) run(1) assms(4) list_ok_elems [OF md(2)]
    by (simp add: populate_attr_def populate_list_refs [OF md(3)] seq_def lift_def zoom_def setObjectAttr_def attr_refs_def)
  moreover have "total_refs h ?c' x = total_refs h ?c x + count_list (attr_oids h mk attr) x" for x
    using total_refs_setAttr [OF assms(4), of h md attr x] assms(5) wrapper_refs_new [OF meta_okD(2) [OF assms(1)] md(2)]
    by (simp add: oids)
  ultimately show ?thesis
    using md(1) ids oids by (intro exI [of _ "s\<lparr>m_saiObjectCollection := ?c', m_oids := m'\<rparr>"]) simp
qed

section \<open>The loops\<close>

lemma map_of_stored: "map_of (dump_stored h mk attrs) a = None \<longleftrightarrow> a \<notin> a_id ` set attrs"
  by (simp add: dump_stored_def map_of_eq_None_iff image_image)

lemma setAttr_stored:
  assumes "a_id attr \<notin> a_id ` set attrs"
  shows "setAttr h (the (get_attr_metadata h (objecttype mk) (a_id attr))) attr \<lparr>m_metaKey = mk, m_attrs = dump_stored h mk attrs\<rparr> =
     \<lparr>m_metaKey = mk, m_attrs = dump_stored h mk (attrs @ [attr])\<rparr>"
proof -
  have "map_of (dump_stored h mk attrs) (a_id attr) = None" using assms by (simp add: map_of_stored)
  from update_new [OF this] show ?thesis by (simp add: setAttr_def) (simp add: dump_stored_def)
qed

lemma populate_attrs_run:
  assumes "meta_ok h"
  shows "populate_inv h s \<Longrightarrow> (\<forall>attr \<in> set rest. dump_attr_ok h mk attr) \<Longrightarrow> distinct (map a_id (attrs @ rest)) \<Longrightarrow>
    map_of (m_saiObjectCollection s) mk = Some \<lparr>m_metaKey = mk, m_attrs = dump_stored h mk attrs\<rparr> \<Longrightarrow>
    refs_bound h (m_saiObjectCollection s) (concat (map (attr_oids h mk) rest)) \<Longrightarrow>
    \<exists>s'. forM (populate_attr h mk) rest s = (Inr (), s') \<and> populate_inv h s' \<and>
      map_of (m_saiObjectCollection s') mk = Some \<lparr>m_metaKey = mk, m_attrs = dump_stored h mk (attrs @ rest)\<rparr> \<and>
      (\<forall>k. k \<noteq> mk \<longrightarrow> map_of (m_saiObjectCollection s') k = map_of (m_saiObjectCollection s) k) \<and>
      (\<forall>x. total_refs h (m_saiObjectCollection s') x =
         total_refs h (m_saiObjectCollection s) x + count_list (concat (map (attr_oids h mk) rest)) x) \<and>
      (\<forall>x. has_key (m_oids s') x \<longleftrightarrow> has_key (m_oids s) x \<or> x \<in> set (concat (map (attr_oids h mk) rest)))"
proof (induction rest arbitrary: s attrs)
  case Nil
  then show ?case by (simp add: ret_def)
next
  case (Cons a rest)
  let ?o = "\<lparr>m_metaKey = mk, m_attrs = dump_stored h mk attrs\<rparr>"
  have new: "a_id a \<notin> a_id ` set attrs" using Cons.prems(3) by auto
  then have none: "getAttr ?o (a_id a) = None" by (simp add: getAttr_def map_of_stored)
  have b: "refs_bound h (m_saiObjectCollection s) (attr_oids h mk a @ concat (map (attr_oids h mk) rest))"
    using Cons.prems(5) by simp
  have ok: "dump_attr_ok h mk a" using Cons.prems(2) by simp
  from populate_attr_run [OF assms Cons.prems(1) ok Cons.prems(4) none refs_bound_append1 [OF b]] obtain s1 where
    s1: "populate_attr h mk a s = (Inr (), s1)" "populate_inv h s1"
      "m_saiObjectCollection s1 = AList.update mk \<lparr>m_metaKey = mk, m_attrs = dump_stored h mk (attrs @ [a])\<rparr> (m_saiObjectCollection s)"
      "\<forall>x. total_refs h (m_saiObjectCollection s1) x = total_refs h (m_saiObjectCollection s) x + count_list (attr_oids h mk a) x"
      "\<forall>x. has_key (m_oids s1) x \<longleftrightarrow> has_key (m_oids s) x \<or> x \<in> set (attr_oids h mk a)"
    by (auto simp: setAttr_stored [OF new])
  have "\<exists>s'. forM (populate_attr h mk) rest s1 = (Inr (), s') \<and> populate_inv h s' \<and>
      map_of (m_saiObjectCollection s') mk = Some \<lparr>m_metaKey = mk, m_attrs = dump_stored h mk ((attrs @ [a]) @ rest)\<rparr> \<and>
      (\<forall>k. k \<noteq> mk \<longrightarrow> map_of (m_saiObjectCollection s') k = map_of (m_saiObjectCollection s1) k) \<and>
      (\<forall>x. total_refs h (m_saiObjectCollection s') x =
         total_refs h (m_saiObjectCollection s1) x + count_list (concat (map (attr_oids h mk) rest)) x) \<and>
      (\<forall>x. has_key (m_oids s') x \<longleftrightarrow> has_key (m_oids s1) x \<or> x \<in> set (concat (map (attr_oids h mk) rest)))"
    using Cons.prems(2,3) s1(3) refs_bound_step [OF b s1(4)] by (intro Cons.IH [OF s1(2)]) auto
  then obtain s' where s': "forM (populate_attr h mk) rest s1 = (Inr (), s')" "populate_inv h s'"
      "map_of (m_saiObjectCollection s') mk = Some \<lparr>m_metaKey = mk, m_attrs = dump_stored h mk (attrs @ a # rest)\<rparr>"
      "\<forall>k. k \<noteq> mk \<longrightarrow> map_of (m_saiObjectCollection s') k = map_of (m_saiObjectCollection s1) k"
      "\<forall>x. total_refs h (m_saiObjectCollection s') x =
         total_refs h (m_saiObjectCollection s1) x + count_list (concat (map (attr_oids h mk) rest)) x"
      "\<forall>x. has_key (m_oids s') x \<longleftrightarrow> has_key (m_oids s1) x \<or> x \<in> set (concat (map (attr_oids h mk) rest))" by auto
  have "forM (populate_attr h mk) (a # rest) s = (Inr (), s')" using s1(1) s'(1) by (simp add: seq_def)
  with s' s1(3-5) show ?case by (intro exI [of _ s']) auto
qed

lemma populate_inv_attrkey:
  "populate_inv h s \<Longrightarrow> populate_inv h (s\<lparr>m_attrKeys := AList.update (serialize_meta_key h k) v (m_attrKeys s)\<rparr>)"
  by (simp add: populate_inv_def meta_inv_def no_null_def db_inv_def)

lemma populate_entry_run:
  assumes "meta_ok h" "populate_inv h s" "dump_entry_ok h (m_saiObjectCollection s) (mk, attrs)"
    and "refs_bound h (m_saiObjectCollection s) (entry_refs h (mk, attrs))"
  shows "\<exists>s'. populate_entry h (mk, attrs) s = (Inr (), s') \<and> populate_inv h s' \<and>
     map_of (m_saiObjectCollection s') mk = Some \<lparr>m_metaKey = mk, m_attrs = dump_stored h mk attrs\<rparr> \<and>
     (\<forall>k. k \<noteq> mk \<longrightarrow> map_of (m_saiObjectCollection s') k = map_of (m_saiObjectCollection s) k) \<and>
     (\<forall>x. total_refs h (m_saiObjectCollection s') x =
        total_refs h (m_saiObjectCollection s) x + count_list (entry_refs h (mk, attrs)) x) \<and>
     (\<forall>x. has_key (m_oids s') x \<longleftrightarrow> has_key (m_oids s) x \<or> x \<in> set (entry_ids h (mk, attrs)))"
proof -
  have b: "refs_bound h (m_saiObjectCollection s) (member_oids h mk @ concat (map (attr_oids h mk) attrs))"
    using assms(4) by (simp add: entry_refs_def)
  from populate_object_run [OF assms(1-3) refs_bound_append1 [OF b]] obtain s1 where
    s1: "populate_object h mk s = (Inr (), s1)" "populate_inv h s1"
      "m_saiObjectCollection s1 = AList.update mk \<lparr>m_metaKey = mk, m_attrs = []\<rparr> (m_saiObjectCollection s)"
      "\<forall>x. total_refs h (m_saiObjectCollection s1) x = total_refs h (m_saiObjectCollection s) x + count_list (member_oids h mk) x"
      "\<forall>x. has_key (m_oids s1) x \<longleftrightarrow> has_key (m_oids s) x \<or> x \<in> set (own_ids h mk @ member_oids h mk)"
    by blast
  have "\<exists>s'. forM (populate_attr h mk) attrs s1 = (Inr (), s') \<and> populate_inv h s' \<and>
      map_of (m_saiObjectCollection s') mk = Some \<lparr>m_metaKey = mk, m_attrs = dump_stored h mk ([] @ attrs)\<rparr> \<and>
      (\<forall>k. k \<noteq> mk \<longrightarrow> map_of (m_saiObjectCollection s') k = map_of (m_saiObjectCollection s1) k) \<and>
      (\<forall>x. total_refs h (m_saiObjectCollection s') x =
         total_refs h (m_saiObjectCollection s1) x + count_list (concat (map (attr_oids h mk) attrs)) x) \<and>
      (\<forall>x. has_key (m_oids s') x \<longleftrightarrow> has_key (m_oids s1) x \<or> x \<in> set (concat (map (attr_oids h mk) attrs)))"
    using assms(3) s1(3) refs_bound_step [OF b s1(4)]
    by (intro populate_attrs_run [OF assms(1) s1(2)]) (auto simp: dump_entry_ok_def dump_stored_def)
  then obtain s2 where s2: "forM (populate_attr h mk) attrs s1 = (Inr (), s2)" "populate_inv h s2"
      "map_of (m_saiObjectCollection s2) mk = Some \<lparr>m_metaKey = mk, m_attrs = dump_stored h mk attrs\<rparr>"
      "\<forall>k. k \<noteq> mk \<longrightarrow> map_of (m_saiObjectCollection s2) k = map_of (m_saiObjectCollection s1) k"
      "\<forall>x. total_refs h (m_saiObjectCollection s2) x =
         total_refs h (m_saiObjectCollection s1) x + count_list (concat (map (attr_oids h mk) attrs)) x"
      "\<forall>x. has_key (m_oids s2) x \<longleftrightarrow> has_key (m_oids s1) x \<or> x \<in> set (concat (map (attr_oids h mk) attrs))" by auto
  have "\<exists>s'. populate_key h mk attrs s2 = (Inr (), s') \<and> populate_inv h s' \<and>
      m_saiObjectCollection s' = m_saiObjectCollection s2 \<and> m_oids s' = m_oids s2"
    using assms(3) s2(2) populate_inv_attrkey [OF s2(2)]
    by (auto simp: populate_key_def dump_entry_ok_def ret_def seq_def lift_def zoom_def attrkey_insert_def modify_def)
  then obtain s' where s': "populate_key h mk attrs s2 = (Inr (), s')" "populate_inv h s'"
      "m_saiObjectCollection s' = m_saiObjectCollection s2" "m_oids s' = m_oids s2" by blast
  have "populate_entry h (mk, attrs) s = (Inr (), s')"
    using s1(1) s2(1) s'(1) by (simp add: populate_entry_def seq_def)
  with s' s2(3-6) s1(3-5) show ?thesis by (intro exI [of _ s']) (auto simp: entry_refs_def entry_ids_def)
qed

lemma populate_eq: "meta_populate h (map Inr dump) = forM (populate_entry h) dump"
  by (simp add: meta_populate_def forM_map)

lemma populate_run:
  assumes "meta_ok h"
  shows "populate_inv h s \<Longrightarrow> (\<forall>entry \<in> set dump. dump_entry_ok h (m_saiObjectCollection s) entry) \<Longrightarrow>
    distinct (map fst dump) \<Longrightarrow> refs_bound h (m_saiObjectCollection s) (concat (map (entry_refs h) dump)) \<Longrightarrow>
    \<exists>s'. forM (populate_entry h) dump s = (Inr (), s') \<and> populate_inv h s' \<and>
      (\<forall>k. map_of (m_saiObjectCollection s') k = (case map_of dump k of
         None \<Rightarrow> map_of (m_saiObjectCollection s) k
       | Some attrs \<Rightarrow> Some \<lparr>m_metaKey = k, m_attrs = dump_stored h k attrs\<rparr>)) \<and>
      (\<forall>x. total_refs h (m_saiObjectCollection s') x =
         total_refs h (m_saiObjectCollection s) x + count_list (concat (map (entry_refs h) dump)) x) \<and>
      (\<forall>x. has_key (m_oids s') x \<longleftrightarrow> has_key (m_oids s) x \<or> x \<in> set (concat (map (entry_ids h) dump)))"
proof (induction dump arbitrary: s)
  case Nil
  then show ?case by (simp add: ret_def)
next
  case (Cons entry dump)
  obtain mk attrs where e: "entry = (mk, attrs)" by fastforce
  have b: "refs_bound h (m_saiObjectCollection s) (entry_refs h (mk, attrs) @ concat (map (entry_refs h) dump))"
    using Cons.prems(4) e by simp
  have ok: "dump_entry_ok h (m_saiObjectCollection s) (mk, attrs)" using Cons.prems(2) e by simp
  from populate_entry_run [OF assms Cons.prems(1) ok refs_bound_append1 [OF b]] obtain s1 where
    s1: "populate_entry h (mk, attrs) s = (Inr (), s1)" "populate_inv h s1"
      "map_of (m_saiObjectCollection s1) mk = Some \<lparr>m_metaKey = mk, m_attrs = dump_stored h mk attrs\<rparr>"
      "\<forall>k. k \<noteq> mk \<longrightarrow> map_of (m_saiObjectCollection s1) k = map_of (m_saiObjectCollection s) k"
      "\<forall>x. total_refs h (m_saiObjectCollection s1) x =
         total_refs h (m_saiObjectCollection s) x + count_list (entry_refs h (mk, attrs)) x"
      "\<forall>x. has_key (m_oids s1) x \<longleftrightarrow> has_key (m_oids s) x \<or> x \<in> set (entry_ids h (mk, attrs))" by blast
  have "dump_entry_ok h (m_saiObjectCollection s1) e'" if "e' \<in> set dump" for e'
  proof -
    obtain k as where e': "e' = (k, as)" by fastforce
    have "k \<noteq> mk" using that Cons.prems(3) e e' by force
    with s1(4) Cons.prems(2) that e' show ?thesis by (auto simp: dump_entry_ok_def)
  qed
  with Cons.IH [OF s1(2)] Cons.prems(3) refs_bound_step [OF b s1(5)] obtain s' where
    s': "forM (populate_entry h) dump s1 = (Inr (), s')" "populate_inv h s'"
      "\<forall>k. map_of (m_saiObjectCollection s') k = (case map_of dump k of
         None \<Rightarrow> map_of (m_saiObjectCollection s1) k
       | Some attrs \<Rightarrow> Some \<lparr>m_metaKey = k, m_attrs = dump_stored h k attrs\<rparr>)"
      "\<forall>x. total_refs h (m_saiObjectCollection s') x =
         total_refs h (m_saiObjectCollection s1) x + count_list (concat (map (entry_refs h) dump)) x"
      "\<forall>x. has_key (m_oids s') x \<longleftrightarrow> has_key (m_oids s1) x \<or> x \<in> set (concat (map (entry_ids h) dump))" by auto
  have "map_of dump mk = None" using Cons.prems(3) e by (simp add: map_of_eq_None_iff)
  then have "map_of (m_saiObjectCollection s') k = (case map_of (entry # dump) k of
         None \<Rightarrow> map_of (m_saiObjectCollection s) k
       | Some attrs \<Rightarrow> Some \<lparr>m_metaKey = k, m_attrs = dump_stored h k attrs\<rparr>)" for k
    using s'(3) s1(3,4) e by (auto split: option.splits)
  with s1(1,5,6) s'(1,2,4,5) e show ?case by (intro exI [of _ s']) (auto simp: seq_def)
qed

end
