(* ===== verification/Meta_Bulk_Inv.thy ===== *)
theory Meta_Bulk_Inv
  imports Meta_Populate
begin

text \<open>
  The bulk calls of the metadata layer keep its database consistent, also where they throw in the middle: all objects of a
  call are validated on the database as it is before the call, and what one update of the loop does to the database leaves
  what was validated of the others in place.
\<close>

section \<open>What an update adds\<close>

text \<open>The references it may add are \<open>xs\<close>; ids and objects it knows stay known.\<close>

definition adds_refs :: "sai_meta \<Rightarrow> oid list \<Rightarrow> (meta_db, 'a) op \<Rightarrow> bool" where
  "adds_refs h xs m \<longleftrightarrow> (\<forall>s.
     (\<forall>x. total_refs h (m_saiObjectCollection (snd (m s))) x \<le> total_refs h (m_saiObjectCollection s) x + count_list xs x) \<and>
     (\<forall>x. has_key (m_oids s) x \<longrightarrow> has_key (m_oids (snd (m s))) x) \<and>
     (\<forall>k. objectExists (m_saiObjectCollection s) k \<longrightarrow> objectExists (m_saiObjectCollection (snd (m s))) k))"

named_theorems adds_rules

lemma adds_refsD:
  assumes "adds_refs h xs m"
  shows "total_refs h (m_saiObjectCollection (snd (m s))) x \<le> total_refs h (m_saiObjectCollection s) x + count_list xs x"
    "has_key (m_oids s) y \<Longrightarrow> has_key (m_oids (snd (m s))) y"
    "objectExists (m_saiObjectCollection s) k \<Longrightarrow> objectExists (m_saiObjectCollection (snd (m s))) k"
  using assms unfolding adds_refs_def by blast+

lemma counting_seq:
  assumes "adds_refs h xs m" "\<And>x. adds_refs h ys (f x)"
  shows "adds_refs h (xs @ ys) (seq m f)"
  unfolding adds_refs_def
proof (intro allI)
  fix s
  obtain r s1 where m: "m s = (r, s1)" by fastforce
  have 1: "total_refs h (m_saiObjectCollection s1) x \<le> total_refs h (m_saiObjectCollection s) x + count_list xs x"
    "has_key (m_oids s) x \<Longrightarrow> has_key (m_oids s1) x"
    "objectExists (m_saiObjectCollection s) k \<Longrightarrow> objectExists (m_saiObjectCollection s1) k" for x k
    using adds_refsD [OF assms(1), of s] m by simp_all
  show "(\<forall>x. total_refs h (m_saiObjectCollection (snd (seq m f s))) x
        \<le> total_refs h (m_saiObjectCollection s) x + count_list (xs @ ys) x) \<and>
     (\<forall>x. has_key (m_oids s) x \<longrightarrow> has_key (m_oids (snd (seq m f s))) x) \<and>
     (\<forall>k. objectExists (m_saiObjectCollection s) k \<longrightarrow> objectExists (m_saiObjectCollection (snd (seq m f s))) k)"
  proof (cases r)
    case (Inl e)
    with m 1 show ?thesis by (simp add: seq_def trans_le_add1 add.assoc [symmetric])
  next
    case (Inr y)
    note 2 = adds_refsD [OF assms(2) [of y], of s1]
    have "total_refs h (m_saiObjectCollection (snd (f y s1))) x
        \<le> total_refs h (m_saiObjectCollection s) x + count_list (xs @ ys) x" for x
      using 2(1) [of x] 1(1) [of x] by simp
    with m Inr 1 2(2,3) show ?thesis by (simp add: seq_def)
  qed
qed

lemma adds_none: "adds_refs h [] m \<Longrightarrow> adds_refs h xs m"
  by (simp add: adds_refs_def trans_le_add1)

lemma adds_seq_none: "adds_refs h [] m \<Longrightarrow> (\<And>x. adds_refs h ys (f x)) \<Longrightarrow> adds_refs h ys (seq m f)"
  using counting_seq [of h "[]" m ys f] by simp

lemma adds_then_none: "adds_refs h xs m \<Longrightarrow> (\<And>x. adds_refs h [] (f x)) \<Longrightarrow> adds_refs h xs (seq m f)"
  using counting_seq [of h xs m "[]" f] by simp

lemma counting_forM: "(\<And>x. x \<in> set xs \<Longrightarrow> adds_refs h (r x) (f x)) \<Longrightarrow> adds_refs h (concat (map r xs)) (forM f xs)"
  by (induction xs) (auto simp: adds_refs_def [of h "[]"] ret_def intro!: counting_seq)

lemma adds_simps [adds_rules]:
  "adds_refs h [] (ret x)" "adds_refs h [] (raise e)" "adds_refs h [] (lift r)" "adds_refs h [] (gets g)"
  "adds_refs h [] (modify (m_warmBoot_update b))" "adds_refs h [] (on_attrkeys m)" "adds_refs h [] (on_ports m')"
  by (simp_all add: adds_refs_def ret_def raise_def lift_def gets_def modify_def zoom_def split_beta)

lemma adds_forM_none: "(\<And>x. adds_refs h [] (f x)) \<Longrightarrow> adds_refs h [] (forM f xs)"
  by (induction xs) (simp_all add: adds_simps adds_seq_none)

lemma adds_if [adds_rules]: "adds_refs h xs m \<Longrightarrow> adds_refs h xs m' \<Longrightarrow> adds_refs h xs (if b then m else m')"
  by simp

text \<open>Operations on the counters that forget no id.\<close>

definition keeps_ids :: "(ref_counter, 'a) op \<Rightarrow> bool" where
  "keeps_ids m \<longleftrightarrow> (\<forall>c x. has_key c x \<longrightarrow> has_key (snd (m c)) x)"

lemma keeps_ids_seq: "keeps_ids m \<Longrightarrow> (\<And>x. keeps_ids (f x)) \<Longrightarrow> keeps_ids (seq m f)"
  unfolding keeps_ids_def seq_def by (simp split: prod.splits sum.splits) (metis snd_conv)

lemma keeps_ids_forM: "(\<And>x. keeps_ids (f x)) \<Longrightarrow> keeps_ids (forM f xs)"
  by (induction xs) (simp_all add: keeps_ids_seq, simp add: keeps_ids_def ret_def)

lemma keeps_ids_simps:
  "keeps_ids (ret x)" "keeps_ids (raise e)" "keeps_ids (lift r)" "keeps_ids (objectReferenceInsert y)"
  "keeps_ids (objectReferenceIncrement y)" "keeps_ids (objectReferenceDecrement y)"
  by (auto simp: keeps_ids_def ret_def raise_def lift_def objectReferenceInsert_def objectReferenceIncrement_def
      objectReferenceDecrement_def Let_def)

lemma keeps_ids_lists:
  "keeps_ids (objectReferenceIncrement_list l)" "keeps_ids (objectReferenceDecrement_list l)"
  unfolding objectReferenceIncrement_list_def objectReferenceDecrement_list_def
  by (intro keeps_ids_seq keeps_ids_forM keeps_ids_simps)+

lemma adds_on_oids [adds_rules]: "keeps_ids m \<Longrightarrow> adds_refs h [] (on_oids m)"
  by (simp add: adds_refs_def keeps_ids_def zoom_def split_beta)

lemma adds_createObject:
  "adds_refs h (member_oids h key) (on_objects (createObject h key))"
  unfolding adds_refs_def
proof (intro allI)
  fix s
  let ?s' = "snd (on_objects (createObject h key) s)"
  have "total_refs h (m_saiObjectCollection ?s') x \<le> total_refs h (m_saiObjectCollection s) x + count_list (member_oids h key) x" for x
    using total_refs_new [of "m_saiObjectCollection s" key h "\<lparr>m_metaKey = key, m_attrs = []\<rparr>" x]
    by (auto simp: zoom_def createObject_def sai_object_new_def objectExists_def has_key_def)
  then show "(\<forall>x. total_refs h (m_saiObjectCollection ?s') x
        \<le> total_refs h (m_saiObjectCollection s) x + count_list (member_oids h key) x) \<and>
     (\<forall>x. has_key (m_oids s) x \<longrightarrow> has_key (m_oids ?s') x) \<and>
     (\<forall>k. objectExists (m_saiObjectCollection s) k \<longrightarrow> objectExists (m_saiObjectCollection ?s') k)"
    by (auto simp: zoom_def createObject_def objectExists_def split_beta split: sum.split)
qed

lemma adds_store_attr:
  assumes "copy_ok h" "list_ok (attr_ref_list md (a_value attr))"
  shows "adds_refs h (attr_refs md (a_value attr)) (store_attr h key md attr)"
proof (cases "shouldCacheAttribute h (objecttype key) md")
  case False
  then show ?thesis by (simp add: store_attr_def adds_none adds_simps)
next
  case True
  have w: "wrapper_refs (attr_wrapper_new h md attr) = attr_refs md (a_value attr)"
    using assms by (rule wrapper_refs_new)
  have "total_refs h (AList.update key (setAttr h md attr obj) c) x \<le> total_refs h c x + count_list (attr_refs md (a_value attr)) x"
    if "map_of c key = Some obj" for c obj x
    using total_refs_setAttr [OF that, of h md attr x] w by simp
  with True show ?thesis
    by (auto simp: adds_refs_def store_attr_def zoom_def setObjectAttr_def objectExists_def split: option.splits)
qed

section \<open>Create and set\<close>

definition entry_oids :: "sai_meta \<Rightarrow> meta_key \<Rightarrow> sai_attribute list \<Rightarrow> oid list" where
  "entry_oids h key attrs = member_oids h key @ concat (map (attr_oids h key) attrs)"

lemma adds_post_create_attr:
  assumes "copy_ok h" "get_attr_metadata h (objecttype key) (a_id attr) = Some md" "list_ok (attr_ref_list md (a_value attr))"
  shows "adds_refs h (attr_oids h key attr) (post_create_attr h key attr)"
proof -
  have "adds_refs h [] (on_oids (post_create_attr_refs md (a_value attr)))"
    by (intro adds_on_oids) (simp add: create_refs_eq keeps_ids_simps keeps_ids_lists)
  then have "adds_refs h (attr_refs md (a_value attr))
      (seq (on_oids (post_create_attr_refs md (a_value attr))) (\<lambda>_. store_attr h key md attr))"
    by (rule adds_seq_none) (rule adds_store_attr [OF assms(1,3)])
  then show ?thesis by (simp add: post_create_attr_eq [OF assms(2)] attr_oids_def assms(2))
qed

lemma adds_post_create:
  assumes "meta_ok h" "create_args_ok h s key attrs"
  shows "adds_refs h (entry_oids h key attrs) (meta_generic_validation_post_create h key sw attrs)"
proof -
  have ids: "keeps_ids (objectReferenceInsert x)" "keeps_ids (objectReferenceIncrement x)" for x
    by (simp_all add: keeps_ids_simps)
  have obj: "adds_refs h (member_oids h key) (post_create_object h key c)" for c
    unfolding post_create_object_def
    by (intro adds_seq_none adds_if adds_createObject adds_rules adds_none [OF adds_simps(1)])
  have ref1: "adds_refs h [] (post_create_reference h key sw c)" for c
    using adds_on_oids [OF ids(1), of h]
    by (auto simp: adds_refs_def post_create_reference_def Let_def)
  have mem: "adds_refs h [] (increment_members info key)" for info
    unfolding increment_members_def by (intro adds_forM_none adds_rules ids(2))
  have refs: "adds_refs h [] (post_create_references h key sw c)" for c
    using mem ref1 by (auto simp: post_create_references_def adds_simps split: option.split)
  have "adds_refs h (attr_oids h key attr) (post_create_attr h key attr)" if "attr \<in> set attrs" for attr
    using assms(2) that adds_post_create_attr [OF meta_okD(2) [OF assms(1)]]
    unfolding create_args_ok_def by meson
  then have loop: "adds_refs h (concat (map (attr_oids h key) attrs)) (forM (post_create_attr h key) attrs)"
    by (rule counting_forM)
  have "adds_refs h (concat (map (attr_oids h key) attrs)) (post_create_attributes h key sw attrs)"
    unfolding post_create_attributes_def
    by (intro adds_seq_none adds_then_none loop adds_rules)
  then show ?thesis
    unfolding meta_generic_validation_post_create_def Let_def entry_oids_def bypassValidation_off if_False
    by (intro counting_seq adds_seq_none obj refs)
qed

lemma adds_post_set:
  assumes "meta_ok h" "attr_ready h s key attr md"
  shows "adds_refs h (attr_oids h key attr) (meta_generic_validation_post_set h key attr)"
proof -
  have md: "get_attr_metadata h (objecttype key) (a_id attr) = Some md"
    and lo: "list_ok (attr_ref_list md (a_value attr))"
    using assms(2) by (simp_all add: attr_ready_def)
  have "keeps_ids (release_previous prev (\<lambda>p. objectReferenceDecrement_list (attr_ref_list md p)))" for prev
    by (simp add: release_previous_def keeps_ids_simps keeps_ids_lists split: option.split)
  then have refs: "adds_refs h [] (on_oids (post_set_attr_refs prev md (a_value attr)))" for prev
    by (intro adds_on_oids) (simp add: set_refs_eq keeps_ids_simps keeps_ids_lists keeps_ids_seq)
  have "adds_refs h (attr_refs md (a_value attr)) (seq (gets (\<lambda>s. get_object_previous_attr s key md)) (\<lambda>prev.
          seq (on_oids (post_set_attr_refs prev md (a_value attr))) (\<lambda>_. store_attr h key md attr)))"
    by (intro adds_seq_none refs adds_rules adds_store_attr lo meta_okD(2) [OF assms(1)])
  then show ?thesis
    by (simp add: meta_generic_validation_post_set_def md attr_oids_def store_attr_def)
qed

section \<open>The loop of updates\<close>

lemma bulk_update_Nil: "bulk_update post [] = ret ()"
  by (simp add: bulk_update_def)

lemma bulk_update_Cons:
  "bulk_update post ((k, st) # items) = seq (if st = SAI_STATUS_SUCCESS then post k else ret ()) (\<lambda>_. bulk_update post items)"
  by (simp add: bulk_update_def)

text \<open>
  \<open>Q\<close> is what was validated of an object. An update keeps the invariant where \<open>Q\<close> holds of its own object and there is
  room for its references, and it keeps \<open>Q\<close> of the others.
\<close>

lemma bulk_update_keeps:
  assumes step: "\<And>k s. Q k s \<Longrightarrow> meta_inv h s \<Longrightarrow> refs_bound h (m_saiObjectCollection s) (r k) \<Longrightarrow> meta_inv h (snd (post k s))"
    and adds: "\<And>k s. Q k s \<Longrightarrow> adds_refs h (r k) (post k)"
    and other: "\<And>k s k'. Q k s \<Longrightarrow> Q k' s \<Longrightarrow> Q k' (snd (post k s))"
  shows "meta_inv h s \<Longrightarrow> (\<forall>(k, st) \<in> set items. st = SAI_STATUS_SUCCESS \<longrightarrow> Q k s) \<Longrightarrow>
    refs_bound h (m_saiObjectCollection s) (concat (map (\<lambda>(k, st). r k) items)) \<Longrightarrow>
    meta_inv h (snd (bulk_update post items s))"
proof (induction items arbitrary: s)
  case Nil
  then show ?case by (simp add: bulk_update_Nil ret_def)
next
  case (Cons item items)
  obtain k st where item: "item = (k, st)" by fastforce
  have room: "refs_bound h (m_saiObjectCollection s) (r k @ concat (map (\<lambda>(k, st). r k) items))"
    using Cons.prems(3) by (simp add: item)
  show ?case
  proof (cases "st = SAI_STATUS_SUCCESS")
    case False
    then have "bulk_update post (item # items) s = bulk_update post items s"
      by (simp add: item bulk_update_Cons)
    moreover have "meta_inv h (snd (bulk_update post items s))"
      by (rule Cons.IH [OF Cons.prems(1)]) (use Cons.prems(2) refs_bound_mono [OF room] in auto)
    ultimately show ?thesis by simp
  next
    case True
    then have q: "Q k s" using Cons.prems(2) by (simp add: item)
    note inv = step [OF q Cons.prems(1) refs_bound_append1 [OF room]]
    show ?thesis
      unfolding item bulk_update_Cons
    proof (rule meta_inv_seqI)
      show "meta_inv h (snd ((if st = SAI_STATUS_SUCCESS then post k else ret ()) s))" using inv True by simp
      fix x s'
      assume "(if st = SAI_STATUS_SUCCESS then post k else ret ()) s = (Inr x, s')"
      then have s': "s' = snd (post k s)" using True by simp
      show "meta_inv h (snd (bulk_update post items s'))"
      proof (rule Cons.IH)
        show "meta_inv h s'" using inv s' by simp
        show "\<forall>(k, st) \<in> set items. st = SAI_STATUS_SUCCESS \<longrightarrow> Q k s'"
          using Cons.prems(2) other [OF q] s' by auto
        show "refs_bound h (m_saiObjectCollection s') (concat (map (\<lambda>(k, st). r k) items))"
          using room by (rule refs_bound_mono) (simp add: s' adds_refsD(1) [OF adds [OF q]])
      qed
    qed
  qed
qed

lemma refs_bound_zip:
  assumes "refs_bound h c (concat (map r xs))"
  shows "refs_bound h c (concat (map (\<lambda>(k, st). r k) (zip xs ys)))"
proof -
  have "map (\<lambda>(k, st). r k) (zip xs ys) = map r (map fst (zip xs ys))" by (simp add: split_def)
  also have "map fst (zip xs ys) = take (length ys) xs"
    by (induction xs ys rule: list_induct2') simp_all
  finally have "map r xs = map (\<lambda>(k, st). r k) (zip xs ys) @ map r (drop (length ys) xs)"
    by (metis append_take_drop_id map_append)
  with assms show ?thesis by (simp add: refs_bound_append1)
qed

section \<open>Bulk create\<close>

lemma bulk_create_keeps:
  assumes "meta_ok h" "meta_inv h s" "refs_bound h (m_saiObjectCollection s) (concat (map (\<lambda>(k, st). entry_oids h (kf k) (af k)) items))"
    and "\<forall>(k, st) \<in> set items. st = SAI_STATUS_SUCCESS \<longrightarrow> create_args_ok h s (kf k) (af k)"
  shows "meta_inv h (snd (bulk_update (\<lambda>k. meta_generic_validation_post_create h (kf k) (swf k) (af k)) items s))"
proof (rule bulk_update_keeps [where Q = "\<lambda>k s. create_args_ok h s (kf k) (af k)" and r = "\<lambda>k. entry_oids h (kf k) (af k)"])
  fix k s
  assume k: "create_args_ok h s (kf k) (af k)"
  show "adds_refs h (entry_oids h (kf k) (af k)) (meta_generic_validation_post_create h (kf k) (swf k) (af k))"
    by (rule adds_post_create [OF assms(1) k])
  show "create_args_ok h (snd (meta_generic_validation_post_create h (kf k) (swf k) (af k) s)) (kf k') (af k')"
    if "create_args_ok h s (kf k') (af k')" for k'
    using that adds_refsD(2) [OF adds_post_create [OF assms(1) k]] by (rule create_args_mono)
  assume "meta_inv h s" "refs_bound h (m_saiObjectCollection s) (entry_oids h (kf k) (af k))"
  with k show "meta_inv h (snd (meta_generic_validation_post_create h (kf k) (swf k) (af k) s))"
    by (intro frame_keeps [OF frame_post_create] post_create_keeps [OF assms(1)])
      (simp_all add: entry_oids_def meta_invD(1))
qed (use assms in auto)

text \<open>What is relied on of a bulk create: room for all references, and ids on the switch that was asked for.\<close>

lemma meta_bulkCreate_keeps_inv:
  assumes "meta_ok h" "meta_inv h s"
    and "refs_bound h (m_saiObjectCollection s) (concat (map (\<lambda>l. concat (map (attr_oids h (oid_key t 0)) (elems l))) ls))"
    and "\<forall>(x, st) \<in> set (snd answer). st = SAI_STATUS_SUCCESS \<longrightarrow> new_oid_ok h t sw x"
  shows "meta_inv h (snd (meta_bulkCreate h answer t sw ls mode_ok s))"
  unfolding meta_bulkCreate_def
proof (intro guarded_keeps assms(2))
  let ?items = "map2 (\<lambda>l (oid, st). ((oid, l), st)) ls (snd answer)"
  assume val: "check_all (\<lambda>l. check_then (meta_sai_validate_oid h s t (Some SAI_NULL_OBJECT_ID) True)
      (meta_generic_validation_create h s (oid_key t SAI_NULL_OBJECT_ID) sw l)) ls = ok"
  have keys: "attr_oids h (oid_key t x) = attr_oids h (oid_key t 0)" for x by (rule ext) (simp add: attr_oids_def)
  show "meta_inv h (snd (seq (bulk_update (\<lambda>(oid, l). meta_generic_validation_post_create h (oid_key t oid) sw (elems l)) ?items)
      (\<lambda>_. ret (fst answer)) s))"
  proof (cases "ls = []")
    case True
    with assms(2) show ?thesis by (simp add: bulk_update_Nil seq_def ret_def)
  next
    case False
    have valid: "meta_sai_validate_oid h s t (Some SAI_NULL_OBJECT_ID) True = ok"
      "meta_generic_validation_create h s (oid_key t SAI_NULL_OBJECT_ID) sw l = ok" if "l \<in> set ls" for l
      using val that by (auto simp: check_all_ok)
    from False have "hd ls \<in> set ls" by simp
    from validate_oid_type [OF valid(1) [OF this]] obtain info where
      info: "get_object_type_info h t = Some info" "\<not> isnonobjectid info" by blast
    have refs: "entry_oids h (oid_key t x) as = concat (map (attr_oids h (oid_key t 0)) as)" for x as
      by (simp add: entry_oids_def member_oids_ids [OF info] keys [of x])
    have "map (\<lambda>(k, st). entry_oids h (oid_key t (fst k)) (elems (snd k))) ?items =
        map (\<lambda>(l, st). concat (map (attr_oids h (oid_key t 0)) (elems l))) (zip ls (snd answer))"
      unfolding map_map by (rule map_cong) (auto simp: refs)
    then have room: "refs_bound h (m_saiObjectCollection s)
        (concat (map (\<lambda>(k, st). entry_oids h (oid_key t (fst k)) (elems (snd k))) ?items))"
      using refs_bound_zip [OF assms(3), of "snd answer"] by (simp only:)
    have args: "\<forall>(k, st) \<in> set ?items. st = SAI_STATUS_SUCCESS \<longrightarrow> create_args_ok h s (oid_key t (fst k)) (elems (snd k))"
    proof (clarsimp)
      fix l x assume z: "(l, x, SAI_STATUS_SUCCESS) \<in> set (zip ls (snd answer))"
      then have l: "l \<in> set ls" and a: "(x, SAI_STATUS_SUCCESS) \<in> set (snd answer)"
        by (auto dest: set_zip_leftD set_zip_rightD)
      have "create_key_ok h (oid_key t 0) sw (oid_key t x)"
        using assms(4) a info by (auto simp: create_key_ok_def new_oid_ok_def)
      with create_validated [OF assms(1) valid(2) [OF l]] show "create_args_ok h s (oid_key t x) (elems l)" by simp
    qed
    have "meta_inv h (snd (bulk_update (\<lambda>k. meta_generic_validation_post_create h (oid_key t (fst k)) sw (elems (snd k))) ?items s))"
      by (rule bulk_create_keeps [OF assms(1,2) room args])
    then show ?thesis by (intro meta_inv_seqI) (simp_all add: split_def ret_def)
  qed
qed

lemma meta_bulkCreate_entry_keeps_inv:
  assumes "meta_ok h" "meta_inv h s"
    and "refs_bound h (m_saiObjectCollection s) (concat (map (\<lambda>(e, l). entry_oids h (entry_key h kind e) (elems l)) es))"
  shows "meta_inv h (snd (meta_bulkCreate_entry h answer kind es mode_ok s))"
  unfolding meta_bulkCreate_entry_def
proof (intro guarded_keeps assms(2))
  let ?items = "zip es (snd answer)"
  assume val: "check_all (\<lambda>(entry, l). check_then (meta_sai_validate_entry h s kind (Some (entry_key h kind entry)) True False)
      (meta_generic_validation_create h s (entry_key h kind entry) (object_id entry) l)) es = ok"
  have "create_args_ok h s (entry_key h kind e) (elems l)" if "(e, l) \<in> set es" for e l
  proof -
    have "create_key_ok h (entry_key h kind e) (object_id e) (entry_key h kind e)"
      using metadata_okD(8) [OF meta_okD(1) [OF assms(1)]] by (simp add: create_key_ok_def entry_key_def)
    moreover have "meta_generic_validation_create h s (entry_key h kind e) (object_id e) l = ok"
      using val that by (auto simp: check_all_ok)
    ultimately show ?thesis using create_validated [OF assms(1)] by blast
  qed
  then have args: "\<forall>(k, st) \<in> set ?items. st = SAI_STATUS_SUCCESS \<longrightarrow>
      create_args_ok h s (entry_key h kind (fst k)) (elems (snd k))"
    by (auto dest: set_zip_leftD)
  have room: "refs_bound h (m_saiObjectCollection s)
      (concat (map (\<lambda>(k, st). entry_oids h (entry_key h kind (fst k)) (elems (snd k))) ?items))"
    using refs_bound_zip [OF assms(3), of "snd answer"] by (simp add: split_def)
  have "meta_inv h (snd (bulk_update (\<lambda>k. meta_generic_validation_post_create h (entry_key h kind (fst k))
      (object_id (fst k)) (elems (snd k))) ?items s))"
    by (rule bulk_create_keeps [OF assms(1,2) room args])
  then show "meta_inv h (snd (seq (bulk_update (\<lambda>(entry, l). meta_generic_validation_post_create h (entry_key h kind entry)
      (object_id entry) (elems l)) ?items) (\<lambda>_. ret (fst answer)) s))"
    by (intro meta_inv_seqI) (simp_all add: split_def ret_def)
qed

section \<open>Bulk set and get\<close>

text \<open>The validations of a bulk set may use up hooks of the unit tests, which the rest of a set does not look at.\<close>

definition same_db :: "meta_db \<Rightarrow> meta_db \<Rightarrow> bool" where
  "same_db s s' \<longleftrightarrow> s' = s\<lparr>m_meta_unittests_set_readonly_set := m_meta_unittests_set_readonly_set s'\<rparr>"

lemma same_db_sel:
  assumes "same_db s s'"
  shows "m_oids s' = m_oids s" "m_saiObjectCollection s' = m_saiObjectCollection s" "meta_inv h s' = meta_inv h s"
    "attr_ready h s' key attr md = attr_ready h s key attr md"
proof -
  from assms obtain r where r: "s' = s\<lparr>m_meta_unittests_set_readonly_set := r\<rparr>" by (auto simp: same_db_def)
  then show "m_oids s' = m_oids s" "m_saiObjectCollection s' = m_saiObjectCollection s"
    "meta_inv h s' = meta_inv h s" "attr_ready h s' key attr md = attr_ready h s key attr md"
    by (simp_all add: meta_inv_unittests attr_ready_def)
qed

lemma same_db_trans: "same_db s s1 \<Longrightarrow> same_db s1 s2 \<Longrightarrow> same_db s s2"
  unfolding same_db_def by (metis meta_db.surjective meta_db.update_convs(7))

lemma same_db_refl: "same_db s s"
  by (simp add: same_db_def)

definition set_ready :: "sai_meta \<Rightarrow> meta_db \<Rightarrow> meta_key \<times> sai_attribute \<Rightarrow> bool" where
  "set_ready h s k \<longleftrightarrow> (\<exists>md. attr_ready h s (fst k) (snd k) md)"

lemma validate_set_step:
  assumes "meta_ok h"
    and "guarded (\<lambda>s. validate s key) (meta_generic_validation_set h key (Some attr)) s = (r, s')"
  shows "same_db s s'" "r = Inr SAI_STATUS_SUCCESS \<Longrightarrow> set_ready h s (key, attr)"
proof -
  have "validate s key = ok \<and> meta_generic_validation_set h key (Some attr) s = (r, s') \<or>
      s' = s \<and> r \<noteq> Inr SAI_STATUS_SUCCESS"
  proof (cases "validate s key")
    case (Inl e)
    with assms(2) show ?thesis by (auto simp: guarded_def)
  next
    case (Inr st)
    with assms(2) show ?thesis by (cases "st = SAI_STATUS_SUCCESS") (auto simp: guarded_def)
  qed
  then consider "validate s key = ok" "meta_generic_validation_set h key (Some attr) s = (r, s')"
    | "s' = s" "r \<noteq> Inr SAI_STATUS_SUCCESS" by blast
  then have "same_db s s' \<and> (r = Inr SAI_STATUS_SUCCESS \<longrightarrow> set_ready h s (key, attr))"
  proof cases
    case 1
    note c = validation_set_cases [OF 1(2)]
    have same: "same_db s s'" using c(1) by (simp add: same_db_def)
    have "set_ready h s (key, attr)" if ok: "r = Inr SAI_STATUS_SUCCESS"
    proof -
      from c(2) [OF ok] obtain md where "get_attr_metadata h (objecttype key) (a_id attr) = Some md"
        "set_checks h s' key md attr = ok" by auto
      then have "attr_ready h s' key attr md" using set_validated(1) [OF assms(1)] by blast
      then show ?thesis using same_db_sel(4) [OF same] by (auto simp: set_ready_def)
    qed
    with same show ?thesis by blast
  next
    case 2
    then show ?thesis by (simp add: same_db_refl)
  qed
  then show "same_db s s'" "r = Inr SAI_STATUS_SUCCESS \<Longrightarrow> set_ready h s (key, attr)" by blast+
qed

lemma set_ready_same: "same_db s s' \<Longrightarrow> set_ready h s' k = set_ready h s k"
  by (simp add: set_ready_def same_db_sel(4))

lemma validate_sets:
  assumes "meta_ok h"
  shows "all_success (\<lambda>(key, attr). guarded (\<lambda>s. validate s key) (meta_generic_validation_set h key (Some attr))) items s = (r, s') \<Longrightarrow>
    same_db s s' \<and> (r = Inr SAI_STATUS_SUCCESS \<longrightarrow> (\<forall>k \<in> set items. set_ready h s k))"
proof (induction items arbitrary: s)
  case Nil
  then show ?case by (simp add: ret_def same_db_refl)
next
  case (Cons item items)
  obtain key attr where item: "item = (key, attr)" by fastforce
  let ?f = "\<lambda>(key, attr). guarded (\<lambda>s. validate s key) (meta_generic_validation_set h key (Some attr))"
  obtain q s1 where first: "?f item s = (q, s1)" by fastforce
  note v = validate_set_step [OF assms, of validate key attr s q s1]
  have f: "guarded (\<lambda>s. validate s key) (meta_generic_validation_set h key (Some attr)) s = (q, s1)"
    using first by (simp add: item)
  have run: "(r, s') = (case q of Inl e \<Rightarrow> (Inl e, s1)
      | Inr st \<Rightarrow> (if st = SAI_STATUS_SUCCESS then all_success ?f items else ret st) s1)"
    using Cons.prems first by (auto simp: seq_def split: sum.splits)
  show ?case
  proof (cases "q = Inr SAI_STATUS_SUCCESS")
    case True
    with run have "all_success ?f items s1 = (r, s')" by simp
    note IH = Cons.IH [OF this]
    show ?thesis
      using IH v [OF f] True same_db_trans by (auto simp: item set_ready_same [OF v(1) [OF f]])
  next
    case False
    with run have "s' = s1" "r \<noteq> Inr SAI_STATUS_SUCCESS"
      by (auto simp: ret_def split: sum.splits if_splits)
    with v(1) [OF f] show ?thesis by simp
  qed
qed

lemma bulk_set_keeps_inv:
  assumes "meta_ok h" "meta_inv h s"
    and "refs_bound h (m_saiObjectCollection s) (concat (map (\<lambda>(key, attr). attr_oids h key attr) items))"
  shows "meta_inv h (snd (bulk_set h answer validate items s))"
  unfolding bulk_set_def
proof (rule meta_inv_seqI)
  let ?v = "all_success (\<lambda>(key, attr). guarded (\<lambda>s. validate s key) (meta_generic_validation_set h key (Some attr))) items"
  obtain r s1 where v: "?v s = (r, s1)" by fastforce
  note val = validate_sets [OF assms(1) v]
  have inv: "meta_inv h s1" using val assms(2) same_db_sel(3) by blast
  then show "meta_inv h (snd (?v s))" by (simp add: v)
  fix st s2
  assume st: "?v s = (Inr st, s2)"
  then have s2: "s2 = s1" "r = Inr st" using v by simp_all
  let ?post = "\<lambda>k. meta_generic_validation_post_set h (fst k) (snd k)"
  have "meta_inv h (snd (bulk_update ?post (zip items (snd answer)) s2))" if "st = SAI_STATUS_SUCCESS"
  proof (rule bulk_update_keeps [where Q = "\<lambda>k s. set_ready h s k" and r = "\<lambda>k. attr_oids h (fst k) (snd k)"])
    fix k s
    assume "set_ready h s k"
    then obtain md where md: "attr_ready h s (fst k) (snd k) md" by (auto simp: set_ready_def)
    note adds = adds_post_set [OF assms(1) md]
    show "adds_refs h (attr_oids h (fst k) (snd k)) (?post k)" by (rule adds)
    show "set_ready h (snd (?post k s)) k'" if "set_ready h s k'" for k'
    proof -
      from that obtain md' where "attr_ready h s (fst k') (snd k') md'" by (auto simp: set_ready_def)
      then have "attr_ready h (snd (?post k s)) (fst k') (snd k') md'"
        using adds_refsD(2,3) [OF adds, of s] by (auto simp: attr_ready_def refs_local_def)
      then show ?thesis by (auto simp: set_ready_def)
    qed
    assume inv: "meta_inv h s" and room: "refs_bound h (m_saiObjectCollection s) (attr_oids h (fst k) (snd k))"
    have "db_inv h (snd (?post k s))"
      by (rule post_set_keeps [OF assms(1) meta_invD(1) [OF inv] md])
        (use room md in \<open>simp add: attr_oids_def attr_ready_def\<close>)
    then show "meta_inv h (snd (?post k s))" by (rule frame_keeps [OF frame_post_set inv])
  next
    show "meta_inv h s2" using inv s2 by simp
    show "\<forall>(k, st) \<in> set (zip items (snd answer)). st = SAI_STATUS_SUCCESS \<longrightarrow> set_ready h s2 k"
      using val s2 that by (auto simp: set_ready_same dest: set_zip_leftD)
    have "refs_bound h (m_saiObjectCollection s2) (concat (map (\<lambda>k. attr_oids h (fst k) (snd k)) items))"
      using assms(3) val s2 same_db_sel(2) [of s s1] by (simp add: split_def)
    from refs_bound_zip [OF this]
    show "refs_bound h (m_saiObjectCollection s2) (concat (map (\<lambda>(k, st). attr_oids h (fst k) (snd k)) (zip items (snd answer))))" .
  qed
  then show "meta_inv h (snd ((if st \<noteq> SAI_STATUS_SUCCESS then ret st
       else seq (bulk_update (\<lambda>(key, attr). meta_generic_validation_post_set h key attr) (zip items (snd answer)))
              (\<lambda>_. ret (fst answer))) s2))"
    using inv s2 by (cases "st = SAI_STATUS_SUCCESS") (auto simp: split_def ret_def intro!: meta_inv_seqI)
qed

lemma meta_bulkSet_keeps_inv:
  assumes "meta_ok h" "meta_inv h s"
    and "refs_bound h (m_saiObjectCollection s) (concat (map (\<lambda>(x, attr). attr_oids h (oid_key t x) attr) items))"
  shows "meta_inv h (snd (meta_bulkSet h answer t items mode_ok s))"
  unfolding meta_bulkSet_def
  by (intro guarded_keeps assms(2) bulk_set_keeps_inv [OF assms(1,2)])
    (use assms(3) in \<open>simp add: o_def split_def\<close>)

lemma meta_bulkSet_entry_keeps_inv:
  assumes "meta_ok h" "meta_inv h s"
    and "refs_bound h (m_saiObjectCollection s) (concat (map (\<lambda>(e, attr). attr_oids h (entry_key h kind e) attr) items))"
  shows "meta_inv h (snd (meta_bulkSet_entry h answer kind items mode_ok s))"
  unfolding meta_bulkSet_entry_def
  by (intro guarded_keeps assms(2) bulk_set_keeps_inv [OF assms(1,2)])
    (use assms(3) in \<open>simp add: o_def split_def\<close>)

lemma meta_bulkGet_keeps_inv:
  assumes "meta_ok h" "meta_inv h s"
    and "\<forall>((x, l), attrs, st) \<in> set (zip items (snd answer)). get_result_ok h (oid_key t x) attrs"
  shows "meta_inv h (snd (meta_bulkGet h answer t items mode_ok s))"
proof -
  have "meta_inv h (snd (bulk_update (\<lambda>(x, attrs). meta_generic_validation_post_get h (oid_key t x) attrs) ps s))"
    if "meta_inv h s" "\<forall>((x, attrs), st) \<in> set ps. get_result_ok h (oid_key t x) attrs" for ps s
    using that
  proof (induction ps arbitrary: s)
    case Nil
    then show ?case by (simp add: bulk_update_Nil ret_def)
  next
    case (Cons p ps)
    obtain x attrs st where p: "p = ((x, attrs), st)" by (metis prod.collapse)
    have first: "meta_inv h (snd ((if st = SAI_STATUS_SUCCESS then meta_generic_validation_post_get h (oid_key t x) attrs else ret ()) s))"
      using Cons.prems post_get_keeps [OF assms(1) Cons.prems(1), of "oid_key t x" attrs] by (simp add: p ret_def)
    show ?case
      unfolding p bulk_update_Cons prod.case
    proof (rule meta_inv_seqI)
      show "meta_inv h (snd ((if st = SAI_STATUS_SUCCESS then meta_generic_validation_post_get h (oid_key t x) attrs else ret ()) s))"
        by (rule first)
      fix u s'
      assume "(if st = SAI_STATUS_SUCCESS then meta_generic_validation_post_get h (oid_key t x) attrs else ret ()) s = (Inr u, s')"
      with first have "meta_inv h s'" by simp
      then show "meta_inv h (snd (bulk_update (\<lambda>(x, attrs). meta_generic_validation_post_get h (oid_key t x) attrs) ps s'))"
        by (rule Cons.IH) (use Cons.prems(2) in auto)
    qed
  qed
  from this [OF assms(2), of "map2 (\<lambda>(x, l) (attrs, st). ((x, attrs), st)) items (snd answer)"] assms(3)
  have "meta_inv h (snd (bulk_update (\<lambda>(x, attrs). meta_generic_validation_post_get h (oid_key t x) attrs)
      (map2 (\<lambda>(x, l) (attrs, st). ((x, attrs), st)) items (snd answer)) s))"
    by fastforce
  then show ?thesis
    unfolding meta_bulkGet_def by (intro guarded_keeps assms(2) meta_inv_seqI) (simp_all add: ret_def)
qed

section \<open>Bulk remove\<close>

text \<open>
  Of the objects to be removed, and of those their ports take along, each is either gone already or still not referred to.
  No removal takes the id of another of them away.
\<close>

definition pending :: "sai_meta \<Rightarrow> meta_db \<Rightarrow> meta_key set \<Rightarrow> bool" where
  "pending h s K \<longleftrightarrow> (\<forall>k \<in> K. objectExists (m_saiObjectCollection s) k \<longrightarrow> remove_ready h s k)"

definition apart :: "sai_meta \<Rightarrow> meta_key set \<Rightarrow> bool" where
  "apart h K \<longleftrightarrow> (\<forall>k1 \<in> K. \<forall>k2 \<in> K. removed_oid h k1 (object_id k2) \<longrightarrow> k1 = k2)"

definition related_keys :: "sai_meta \<Rightarrow> meta_db \<Rightarrow> oid \<Rightarrow> meta_key set" where
  "related_keys h s p = (\<lambda>x. oid_key (objectTypeQuery h x) x) ` set (getPortRelatedObjects (m_portRelatedSet s) p)"

lemma post_remove_object_missing:
  "\<not> objectExists (m_saiObjectCollection s) key \<Longrightarrow> \<exists>e. post_remove_object h key s = (Inl e, s)"
  by (auto simp: post_remove_object_def seq_def gets_def lift_def getObject_def objectExists_def has_key_def
      split: option.splits)

lemma post_remove_object_pending:
  assumes "meta_ok h" "meta_inv h s" "pending h s K" "apart h K" "key \<in> K" "objecttype key \<noteq> ot_switch h"
    and "post_remove_object h key s = (r, s')"
  shows "meta_inv h s' \<and> pending h s' K \<and> m_portRelatedSet s' = m_portRelatedSet s"
proof (cases "objectExists (m_saiObjectCollection s) key")
  case False
  with post_remove_object_missing [of s key h] assms(2,3,7) show ?thesis by auto
next
  case True
  with assms(3,5) have "remove_ready h s key" by (simp add: pending_def)
  from post_remove_object_gone [OF assms(1,2) this assms(6)] assms(7) have
    s': "meta_inv h s'" "object_gone h key s s'" by auto
  have "remove_ready h s' k" if k: "k \<in> K" and ex: "objectExists (m_saiObjectCollection s') k" for k
  proof -
    have ne: "k \<noteq> key" and old: "objectExists (m_saiObjectCollection s) k"
      using ex s'(2) by (auto simp: object_gone_def objectExists_def)
    then have "\<not> removed_oid h key (object_id k)" using assms(4,5) k by (auto simp: apart_def)
    moreover have "remove_ready h s k" using assms(3) k old by (simp add: pending_def)
    ultimately show ?thesis
      using remove_ready_kept meta_invD(1) assms(2) s' ne by blast
  qed
  with s' show ?thesis by (simp add: pending_def object_gone_def)
qed

lemma related_pending:
  assumes "meta_ok h" "apart h K"
  shows "meta_inv h s \<Longrightarrow> pending h s K \<Longrightarrow>
    (\<forall>x \<in> set rel. objectTypeQuery h x \<noteq> ot h OT_PORT \<and> objectTypeQuery h x \<noteq> ot_switch h \<and> oid_key (objectTypeQuery h x) x \<in> K) \<Longrightarrow>
    forM (\<lambda>x. meta_generic_validation_post_remove h (Suc n) (oid_key (objectTypeQuery h x) x)) rel s = (r, s') \<Longrightarrow>
    meta_inv h s' \<and> pending h s' K \<and> m_portRelatedSet s' = m_portRelatedSet s"
proof (induction rel arbitrary: s)
  case Nil
  then show ?case by (simp add: ret_def)
next
  case (Cons x rel)
  let ?k = "oid_key (objectTypeQuery h x) x"
  let ?f = "\<lambda>x. meta_generic_validation_post_remove h (Suc n) (oid_key (objectTypeQuery h x) x)"
  obtain q s1 where first: "post_remove_object h ?k s = (q, s1)" by fastforce
  have x: "?k \<in> K" "objecttype ?k \<noteq> ot_switch h" "objecttype ?k \<noteq> ot h OT_PORT" using Cons.prems(3) by simp_all
  note k = post_remove_object_pending [OF assms(1) Cons.prems(1,2) assms(2) x(1,2) first]
  have run: "?f x s = (q, s1)"
    using first x(2,3) by (cases q) (simp_all add: seq_def ret_def)
  show ?case
  proof (cases q)
    case (Inl e)
    with Cons.prems(4) run k show ?thesis by (simp add: seq_def del: meta_generic_validation_post_remove.simps)
  next
    case (Inr u)
    with Cons.prems(4) run have "forM ?f rel s1 = (r, s')"
      by (simp add: seq_def del: meta_generic_validation_post_remove.simps)
    with Cons.IH [of s1] k Cons.prems(3) show ?thesis by simp
  qed
qed

lemma post_remove_pending:
  assumes "meta_ok h" "meta_inv h s" "pending h s K" "apart h K" "key \<in> K" "objecttype key \<noteq> ot_switch h"
    and "objecttype key = ot h OT_PORT \<Longrightarrow> related_keys h s (object_id key) \<subseteq> K"
    and "post_remove h key s = (r, s')"
  shows "meta_inv h s' \<and> pending h s' K \<and> (\<forall>p. related_keys h s' p \<subseteq> related_keys h s p)"
proof -
  obtain q s1 where first: "post_remove_object h key s = (q, s1)" by fastforce
  note k = post_remove_object_pending [OF assms(1-6) first]
  have rel1: "related_keys h s1 p = related_keys h s p" for p using k by (simp add: related_keys_def)
  have run: "(r, s') = (case q of Inl e \<Rightarrow> (Inl e, s1) | Inr u \<Rightarrow>
      (if objecttype key = ot h OT_PORT
       then post_port_remove h (meta_generic_validation_post_remove h (length (m_saiObjectCollection s))) key else ret ()) s1)"
    using assms(6,8) first by (cases q) (auto simp: post_remove_def seq_def)
  show ?thesis
  proof (cases "q = Inr () \<and> objecttype key = ot h OT_PORT")
    case False
    with run have "s' = s1" by (auto simp: ret_def split: sum.splits)
    with k rel1 show ?thesis by simp
  next
    case True
    let ?rel = "getPortRelatedObjects (m_portRelatedSet s) (object_id key)"
    let ?n = "length (m_saiObjectCollection s)"
    have port: "post_port_remove h (meta_generic_validation_post_remove h ?n) key s1 = (r, s')"
      using run True by simp
    have "?n \<noteq> 0"
    proof
      assume "?n = 0"
      then have "\<not> objectExists (m_saiObjectCollection s) key" by (simp add: objectExists_def has_key_def)
      with post_remove_object_missing [of s key h] first True show False by auto
    qed
    then obtain n where n: "?n = Suc n" by (cases ?n) auto
    show ?thesis
    proof (cases "?rel = []")
      case True
      with port k have "s' = s1" by (auto simp: post_port_remove_def Let_def seq_def gets_def ret_def)
      with k rel1 show ?thesis by simp
    next
      case no: False
      then obtain rel where "map_of (m_portRelatedSet s) (object_id key) = Some rel" "?rel = rel"
        by (auto simp: getPortRelatedObjects_def split: option.splits)
      then have "related_ok h ?rel" using meta_invD(3) [OF assms(2)] ports_ok_related by fastforce
      then have rok: "\<forall>x \<in> set ?rel. objectTypeQuery h x \<noteq> ot h OT_PORT \<and> objectTypeQuery h x \<noteq> ot_switch h \<and>
          oid_key (objectTypeQuery h x) x \<in> K"
        using assms(7) True by (auto simp: related_ok_def related_keys_def)
      obtain q2 s2 where loop: "forM (\<lambda>x. meta_generic_validation_post_remove h (Suc n) (oid_key (objectTypeQuery h x) x)) ?rel s1 = (q2, s2)"
        by fastforce
      have k1: "meta_inv h s1" "pending h s1 K" using k by simp_all
      note k2 = related_pending [OF assms(1,4) k1 rok loop]
      have "s' = s2 \<or> s' = s2\<lparr>m_portRelatedSet := AList.delete (object_id key) (m_portRelatedSet s2)\<rparr>"
        using port k no loop n
        by (cases q2) (auto simp: post_port_remove_def Let_def seq_def gets_def zoom_def removePort_def modify_def
            simp del: meta_generic_validation_post_remove.simps)
      then show ?thesis
      proof
        assume "s' = s2"
        with k2 k show ?thesis by (simp add: related_keys_def)
      next
        assume s': "s' = s2\<lparr>m_portRelatedSet := AList.delete (object_id key) (m_portRelatedSet s2)\<rparr>"
        have inv2: "meta_inv h s2" using k2 by simp
        note parts = meta_invD(1-3) [OF inv2]
        have "ports_ok h (m_portRelatedSet s')" using ports_ok_delete [OF parts(3)] by (simp add: s')
        moreover have "db_inv h s'" using parts(1) by (rule db_inv_cong [THEN iffD2, rotated -1]) (simp_all add: s')
        ultimately have "meta_inv h s'" using parts(2) by (simp add: meta_inv_def s')
        moreover have "pending h s' K" using k2 by (simp add: s' pending_def remove_ready_def)
        moreover have "related_keys h s' p \<subseteq> related_keys h s p" for p
          using k k2 by (auto simp: s' related_keys_def getPortRelatedObjects_def AList.delete_conv split: if_splits)
        ultimately show ?thesis by blast
      qed
    qed
  qed
qed

lemma bulk_remove_loop:
  assumes "meta_ok h" "apart h K"
  shows "meta_inv h s \<Longrightarrow> pending h s K \<Longrightarrow>
    (\<forall>(key, st) \<in> set items. key \<in> K \<and> objecttype key \<noteq> ot_switch h \<and>
       (objecttype key = ot h OT_PORT \<longrightarrow> related_keys h s (object_id key) \<subseteq> K)) \<Longrightarrow>
    meta_inv h (snd (bulk_update (post_remove h) items s))"
proof (induction items arbitrary: s)
  case Nil
  then show ?case by (simp add: bulk_update_Nil ret_def)
next
  case (Cons item items)
  obtain key st where item: "item = (key, st)" by fastforce
  let ?m = "if st = SAI_STATUS_SUCCESS then post_remove h key else ret ()"
  obtain r s1 where run: "?m s = (r, s1)" by fastforce
  have key: "key \<in> K" "objecttype key \<noteq> ot_switch h"
    "objecttype key = ot h OT_PORT \<Longrightarrow> related_keys h s (object_id key) \<subseteq> K"
    using Cons.prems(3) by (simp_all add: item)
  have s1: "meta_inv h s1 \<and> pending h s1 K \<and> (\<forall>p. related_keys h s1 p \<subseteq> related_keys h s p)"
  proof (cases "st = SAI_STATUS_SUCCESS")
    case True
    with run have "post_remove h key s = (r, s1)" by simp
    with post_remove_pending [OF assms(1) Cons.prems(1,2) assms(2) key] show ?thesis by blast
  next
    case False
    with run Cons.prems(1,2) show ?thesis by (simp add: ret_def)
  qed
  show ?case
    unfolding item bulk_update_Cons
  proof (rule meta_inv_seqI)
    show "meta_inv h (snd (?m s))" using run s1 by simp
    fix u s2
    assume "?m s = (Inr u, s2)"
    with run have s2: "s2 = s1" by simp
    show "meta_inv h (snd (bulk_update (post_remove h) items s2))"
      unfolding s2
    proof (rule Cons.IH)
      show "meta_inv h s1" "pending h s1 K" using s1 by simp_all
      show "\<forall>(key, st) \<in> set items. key \<in> K \<and> objecttype key \<noteq> ot_switch h \<and>
          (objecttype key = ot h OT_PORT \<longrightarrow> related_keys h s1 (object_id key) \<subseteq> K)"
        using Cons.prems(3) s1 by fastforce
    qed
  qed
qed

lemma bulk_remove_switches:
  assumes "meta_ok h"
  shows "meta_inv h s \<Longrightarrow> (\<forall>(key, st) \<in> set items. objecttype key = ot_switch h \<and> objectTypeQuery h (object_id key) = ot_switch h) \<Longrightarrow>
    meta_inv h (snd (bulk_update (post_remove h) items s))"
proof (induction items arbitrary: s)
  case Nil
  then show ?case by (simp add: bulk_update_Nil ret_def)
next
  case (Cons item items)
  obtain key st where item: "item = (key, st)" by fastforce
  have ty: "objecttype key = ot_switch h" "objectTypeQuery h (object_id key) = ot_switch h"
    using Cons.prems(2) by (simp_all add: item)
  have "object_id key \<noteq> 0"
    using oid_queries.switch_not_null [OF meta_okD(3) [OF assms] TrueI ty(2)] .
  then have clean: "meta_inv h (switch_cleaned h (object_id key) s)" by (rule switch_cleaned_inv [OF Cons.prems(1)])
  have run: "post_remove h key s = (Inr (), switch_cleaned h (object_id key) s)"
    using clean_run [OF assms Cons.prems(1) ty(2)] ty(1) by (simp add: post_remove_def)
  show ?case
    unfolding item bulk_update_Cons
    by (rule meta_inv_seqI) (use run clean Cons in \<open>auto simp: ret_def split: if_splits\<close>)
qed

lemma validated_ready:
  assumes "meta_ok h" "meta_generic_validation_remove h s key = ok" "objecttype key \<noteq> ot_switch h"
  shows "remove_ready h s key"
  using remove_validated_intro [OF assms(1,2)] assms(3) by (simp add: remove_validated_def)

lemma bulk_remove_keeps:
  assumes "meta_ok h" "meta_inv h s" "\<forall>(key, st) \<in> set items. meta_generic_validation_remove h s key = ok"
    and "\<forall>(key, st) \<in> set items. objecttype key \<noteq> ot_switch h"
    and "(\<forall>(key, st) \<in> set items. key = oid_key (objectTypeQuery h (object_id key)) (object_id key)) \<or>
       (\<forall>(key, st) \<in> set items. objecttype key \<noteq> ot h OT_PORT \<and> (\<forall>x. \<not> removed_oid h key x))"
  shows "meta_inv h (snd (bulk_update (post_remove h) items s))"
proof -
  let ?keys = "fst ` set items"
  define K where "K = ?keys \<union> (\<Union>k \<in> {k \<in> ?keys. objecttype k = ot h OT_PORT}. related_keys h s (object_id k))"
  note val = remove_validated_intro [OF assms(1)]
  have "pending h s K"
    unfolding pending_def
  proof (intro ballI impI)
    fix k assume "k \<in> K"
    then consider st where "(k, st) \<in> set items"
      | key st where "(key, st) \<in> set items" "objecttype key = ot h OT_PORT" "k \<in> related_keys h s (object_id key)"
      by (auto simp: K_def)
    then show "remove_ready h s k"
    proof cases
      case 1
      with assms(3,4) show ?thesis by (intro validated_ready [OF assms(1)]) auto
    next
      case 2
      with assms(3) val [of s key] show ?thesis by (auto simp: remove_validated_def related_keys_def)
    qed
  qed
  moreover have "apart h K"
    using assms(5)
  proof
    assume typed: "\<forall>(key, st) \<in> set items. key = oid_key (objectTypeQuery h (object_id key)) (object_id key)"
    have "k = oid_key (objectTypeQuery h (object_id k)) (object_id k)" if "k \<in> K" for k
      using that typed by (fastforce simp: K_def related_keys_def)
    then show ?thesis unfolding apart_def removed_oid_def by metis
  next
    assume "\<forall>(key, st) \<in> set items. objecttype key \<noteq> ot h OT_PORT \<and> (\<forall>x. \<not> removed_oid h key x)"
    then show ?thesis by (fastforce simp: K_def apart_def)
  qed
  moreover have "\<forall>(key, st) \<in> set items. key \<in> K \<and> objecttype key \<noteq> ot_switch h \<and>
       (objecttype key = ot h OT_PORT \<longrightarrow> related_keys h s (object_id key) \<subseteq> K)"
    using assms(4) by (force simp: K_def)
  ultimately show ?thesis using bulk_remove_loop [OF assms(1)] assms(2) by blast
qed

lemma validate_oid_queried: "meta_sai_validate_oid h s t (Some x) False = ok \<Longrightarrow> objectTypeQuery h x = t"
  by (auto simp: meta_sai_validate_oid_def split: option.splits if_splits)

lemma meta_bulkRemove_keeps_inv:
  assumes "meta_ok h" "meta_inv h s"
  shows "meta_inv h (snd (meta_bulkRemove h answer t oids mode_ok s))"
  unfolding meta_bulkRemove_def
proof (intro guarded_keeps assms(2))
  let ?items = "zip (map (oid_key t) oids) (snd answer)"
  assume val: "check_all (\<lambda>oid. check_then (meta_sai_validate_oid h s t (Some oid) False)
                    (meta_generic_validation_remove h s (oid_key t oid))) oids = ok"
  have x: "objectTypeQuery h x = t" "meta_generic_validation_remove h s (oid_key t x) = ok" if "x \<in> set oids" for x
  proof -
    have v: "meta_sai_validate_oid h s t (Some x) False = ok"
      and r: "meta_generic_validation_remove h s (oid_key t x) = ok"
      using val that by (simp_all add: check_all_ok)
    show "meta_generic_validation_remove h s (oid_key t x) = ok" by (rule r)
    show "objectTypeQuery h x = t" by (rule validate_oid_queried [OF v])
  qed
  have items: "\<exists>x \<in> set oids. key = oid_key t x" if "(key, st) \<in> set ?items" for key st
    using set_zip_leftD [OF that] by auto
  have "meta_inv h (snd (bulk_update (post_remove h) ?items s))"
  proof (cases "t = ot_switch h")
    case True
    with items x(1) show ?thesis by (intro bulk_remove_switches [OF assms]) fastforce
  next
    case False
    with items x show ?thesis by (intro bulk_remove_keeps [OF assms] disjI1) fastforce+
  qed
  then show "meta_inv h (snd (seq (bulk_update (post_remove h) ?items) (\<lambda>_. ret (fst answer)) s))"
    by (intro meta_inv_seqI) (simp_all add: ret_def)
qed

lemma meta_bulkRemove_entry_keeps_inv:
  assumes "meta_ok h" "meta_inv h s"
  shows "meta_inv h (snd (meta_bulkRemove_entry h answer kind entries mode_ok s))"
  unfolding meta_bulkRemove_entry_def
proof (intro guarded_keeps assms(2))
  let ?items = "zip (map (entry_key h kind) entries) (snd answer)"
  assume val: "check_all (\<lambda>entry. check_then (meta_sai_validate_entry h s kind (Some (entry_key h kind entry)) False False)
                      (meta_generic_validation_remove h s (entry_key h kind entry))) entries = ok"
  note md = meta_okD(1) [OF assms(1)]
  have e: "meta_generic_validation_remove h s key = ok" "objecttype key = ot h (OT_ENTRY kind)"
    if "(key, st) \<in> set ?items" for key st
    using val set_zip_leftD [OF that] by (auto simp: check_all_ok entry_key_def)
  have ty: "objecttype key \<noteq> ot_switch h" "objecttype key \<noteq> ot h OT_PORT" "\<not> removed_oid h key x"
    if "(key, st) \<in> set ?items" for key st x
  proof -
    from e(1) [OF that] obtain info where info: "get_object_type_info h (objecttype key) = Some info"
      by (auto simp: meta_generic_validation_remove_def split: option.splits if_splits)
    then have non: "isnonobjectid info" using metadata_okD(8) [OF md] e(2) [OF that] by simp
    show "objecttype key \<noteq> ot_switch h" using metadata_okD(6) [OF md] info non by auto
    show "objecttype key \<noteq> ot h OT_PORT" using metadata_okD(7) [OF md] info non by auto
    show "\<not> removed_oid h key x" using info non by (simp add: removed_oid_def)
  qed
  have "meta_inv h (snd (bulk_update (post_remove h) ?items s))"
  proof (rule bulk_remove_keeps [OF assms])
    show "\<forall>(key, st) \<in> set ?items. meta_generic_validation_remove h s key = ok"
      "\<forall>(key, st) \<in> set ?items. objecttype key \<noteq> ot_switch h"
      using e(1) ty(1) by (auto simp del: set_zip)
    have "\<forall>(key, st) \<in> set ?items. objecttype key \<noteq> ot h OT_PORT \<and> (\<forall>x. \<not> removed_oid h key x)"
      using ty(2,3) by (auto simp del: set_zip)
    then show "(\<forall>(key, st) \<in> set ?items. key = oid_key (objectTypeQuery h (object_id key)) (object_id key)) \<or>
       (\<forall>(key, st) \<in> set ?items. objecttype key \<noteq> ot h OT_PORT \<and> (\<forall>x. \<not> removed_oid h key x))" by blast
  qed
  then show "meta_inv h (snd (seq (bulk_update (post_remove h) ?items) (\<lambda>_. ret (fst answer)) s))"
    by (intro meta_inv_seqI) (simp_all add: ret_def)
qed

section \<open>Populating\<close>

text \<open>
  A dump of what the layer itself would have stored (\<open>dump_entry_ok\<close>), with room for its references, and without the null
  id: a dump that refers to it gives it a counter, which stays at zero.
\<close>

definition dump_ready :: "sai_meta \<Rightarrow> meta_db \<Rightarrow> (meta_key \<times> sai_attribute list) list \<Rightarrow> bool" where
  "dump_ready h s dump \<longleftrightarrow>
     (\<forall>entry \<in> set dump. dump_entry_ok h (m_saiObjectCollection s) entry) \<and> distinct (map fst dump) \<and>
     refs_bound h (m_saiObjectCollection s) (concat (map (entry_refs h) dump)) \<and>
     0 \<notin> set (concat (map (entry_ids h) dump))"

lemma populate_keeps_inv:
  assumes "meta_ok h" "meta_inv h s" "dump_ready h s dump"
  shows "meta_inv h (snd (meta_populate h (map Inr dump) s))"
proof -
  from populate_run [OF assms(1) meta_inv_populate [OF assms(2)], of dump] assms(3) obtain s' where
    run: "meta_populate h (map Inr dump) s = (Inr (), s')" and inv: "populate_inv h s'"
    and ids: "\<forall>x. has_key (m_oids s') x \<longleftrightarrow> has_key (m_oids s) x \<or> x \<in> set (concat (map (entry_ids h) dump))"
    unfolding dump_ready_def populate_eq by blast
  have "\<not> has_key (m_oids s) 0"
    using db_inv_counted [OF meta_invD(1) [OF assms(2)]] by (simp add: counted_def)
  with ids assms(3) have "\<not> has_key (m_oids s') 0" by (simp add: dump_ready_def)
  then have "AList.delete 0 (m_oids s') = m_oids s'" by (intro delete_id) (simp add: has_key_def map_of_eq_None_iff)
  then have "no_null s' = s'" by (simp add: no_null_def)
  with inv have "meta_inv h s'" by (simp add: populate_inv_def)
  with run show ?thesis by simp
qed

end
