(* ===== verification/Oid_Index.thy ===== *)
theory Oid_Index
  imports Sai_Types
begin

text \<open>
  The object index generators: the interface \<open>lib/OidIndexGenerator.h\<close> as a locale, and its two
  implementations, the in-process counter \<open>meta/NumberOidIndexGenerator.cpp\<close> and the redis
  counter \<open>lib/RedisVidIndexGenerator.cpp\<close>. The clients only need the laws of the locale: the
  indexes handed out are the successive values of one counter.
\<close>

section \<open>The interface\<close>

text \<open>
  \<open>env_ok\<close> is what an implementation needs of the libraries below it; \<open>counter\<close> is the last index
  handed out. Counters are 64 bits wide; the laws speak of the range below \<open>2 ^ 63\<close>, which
  is what a redis integer can hold.
\<close>

locale oid_index_generator =
  fixes env_ok :: bool
    and increment :: "('g, u64) op"
    and incrementBy :: "u64 \<Rightarrow> ('g, u64 list) op"
    and counter :: "'g \<Rightarrow> nat"
  assumes increment_next:
      "env_ok \<Longrightarrow> counter g + 1 < 2 ^ 63 \<Longrightarrow>
         \<exists>g'. increment g = (Inr (of_nat (counter g + 1)), g') \<and> counter g' = counter g + 1"
    and incrementBy_next:
      "env_ok \<Longrightarrow> counter g + unat n < 2 ^ 63 \<Longrightarrow>
         \<exists>g'. incrementBy n g = (Inr (map of_nat [counter g + 1 ..< counter g + 1 + unat n]), g')
              \<and> counter g' = counter g + unat n"
begin

text \<open>A batch is fresh: distinct indexes, all above every index handed out before.\<close>

lemma batch_fresh:
  assumes "env_ok" "counter g + unat n < 2 ^ 63" "incrementBy n g = (Inr xs, g')"
  shows "length xs = unat n" "distinct xs" "\<forall>x \<in> set xs. counter g < unat x \<and> unat x \<le> counter g'"
    "counter g' = counter g + unat n"
proof -
  from incrementBy_next [OF assms(1,2)] assms(3)
  have xs: "xs = map of_nat [counter g + 1 ..< counter g + 1 + unat n]"
    and c: "counter g' = counter g + unat n" by auto
  have u: "unat (of_nat i :: u64) = i" if "i < counter g + 1 + unat n" for i
    using that assms(2) by (simp add: unsigned_of_nat take_bit_nat_eq_self)
  show "length xs = unat n" by (simp add: xs)
  show "distinct xs"
    unfolding xs distinct_map
  proof (intro conjI inj_onI)
    fix x y
    assume "x \<in> set [counter g + 1 ..< counter g + 1 + unat n]"
      and "y \<in> set [counter g + 1 ..< counter g + 1 + unat n]" and "(of_nat x :: u64) = of_nat y"
    then show "x = y" by (metis u atLeastLessThan_iff set_upt)
  qed simp
  show "\<forall>x \<in> set xs. counter g < unat x \<and> unat x \<le> counter g'"
  proof
    fix x
    assume "x \<in> set xs"
    then obtain i where "x = of_nat i" and "i \<in> {counter g + 1 ..< counter g + 1 + unat n}"
      unfolding xs by (metis imageE list.set_map set_upt)
    with u [of i] c show "counter g < unat x \<and> unat x \<le> counter g'" by auto
  qed
  show "counter g' = counter g + unat n" by (rule c)
qed

text \<open>A batch of \<open>n\<close> is the same as \<open>n\<close> single increments.\<close>

lemma increment_value:
  assumes "env_ok" "counter g + 1 < 2 ^ 63" "increment g = (r, g')"
  shows "r = Inr (of_nat (counter g + 1))" "counter g' = counter g + 1"
  using increment_next [OF assms(1,2)] assms(3) by auto

end

section \<open>The in-process counter\<close>

record number_gen =
  m_index :: u64

definition number_reset :: "(number_gen, unit) op" where
  "number_reset = modify (m_index_update (\<lambda>_. 0))"

definition number_increment :: "(number_gen, u64) op" where
  "number_increment =
     seq (modify (m_index_update (\<lambda>i. i + 1))) (\<lambda>_. gets m_index)"

text \<open>The loop of \<open>incrementBy\<close>: \<open>count\<close> times \<open>push_back(++m_index)\<close>.\<close>

fun number_increment_loop :: "nat \<Rightarrow> (number_gen, u64 list) op" where
  "number_increment_loop 0 = ret []"
| "number_increment_loop (Suc n) =
     seq number_increment (\<lambda>i. seq (number_increment_loop n) (\<lambda>is. ret (i # is)))"

definition number_incrementBy :: "u64 \<Rightarrow> (number_gen, u64 list) op" where
  "number_incrementBy count = number_increment_loop (unat count)"

lemma number_increment_eq:
  "number_increment g = (Inr (m_index g + 1), g\<lparr>m_index := m_index g + 1\<rparr>)"
  by (simp add: number_increment_def op_defs)

lemma number_loop_eq:
  "number_increment_loop n g =
     (Inr (map (\<lambda>k. m_index g + of_nat k) [1 ..< n + 1]), g\<lparr>m_index := m_index g + of_nat n\<rparr>)"
proof (induction n arbitrary: g)
  case 0
  show ?case by (simp add: op_defs)
next
  case (Suc n)
  have shift: "[1 ..< Suc n + 1] = 1 # map Suc [1 ..< n + 1]"
    by (simp add: map_Suc_upt upt_conv_Cons del: upt_Suc)
  have "number_increment_loop (Suc n) g =
      (Inr ((m_index g + 1) # map (\<lambda>k. m_index g + 1 + of_nat k) [1 ..< n + 1]),
       g\<lparr>m_index := m_index g + 1 + of_nat n\<rparr>)"
    by (simp add: seq_def ret_def number_increment_eq Suc.IH del: upt_Suc)
  also have "(m_index g + 1) # map (\<lambda>k. m_index g + 1 + of_nat k) [1 ..< n + 1] =
      map (\<lambda>k. m_index g + of_nat k) [1 ..< Suc n + 1]"
    unfolding shift by (simp add: o_def add.assoc del: upt_Suc)
  finally show ?case by (simp add: add.assoc del: upt_Suc)
qed

interpretation number_gen: oid_index_generator True number_increment number_incrementBy
  "\<lambda>g. unat (m_index g)"
proof unfold_locales
  fix g :: number_gen
  assume "unat (m_index g) + 1 < 2 ^ 63"
  then have "unat (m_index g + 1) = unat (m_index g) + 1" by (intro unat_plus64_1) simp
  then show "\<exists>g'. number_increment g = (Inr (of_nat (unat (m_index g) + 1)), g') \<and>
      unat (m_index g') = unat (m_index g) + 1"
    by (simp add: number_increment_eq)
next
  fix g :: number_gen and n :: u64
  assume b: "unat (m_index g) + unat n < 2 ^ 63"
  have "map (\<lambda>k. m_index g + of_nat k) [1 ..< unat n + 1] =
      map of_nat [unat (m_index g) + 1 ..< unat (m_index g) + 1 + unat n]"
    by (rule nth_equalityI) (simp_all add: nth_upt del: upt_Suc)
  then have e: "number_incrementBy n g =
      (Inr (map of_nat [unat (m_index g) + 1 ..< unat (m_index g) + 1 + unat n]),
       g\<lparr>m_index := m_index g + n\<rparr>)"
    by (simp only: number_incrementBy_def number_loop_eq of_nat_unat ucast_id)
  have u: "unat (m_index (g\<lparr>m_index := m_index g + n\<rparr>)) = unat (m_index g) + unat n"
    using unat_plus64 [of "m_index g" n] b by simp
  show "\<exists>g'. number_incrementBy n g =
      (Inr (map of_nat [unat (m_index g) + 1 ..< unat (m_index g) + 1 + unat n]), g') \<and>
      unat (m_index g') = unat (m_index g) + unat n"
    by (rule exI, rule conjI, rule e, rule u)
qed

section \<open>The redis counter\<close>

text \<open>
  The counter lives in the redis database under \<open>m_vidCounterName\<close>, where \<open>syncd\<close> and \<open>sairedis\<close>
  both increment it; the \<open>swss::DBConnector\<close> is a library. Its command \<open>INCRBY name n\<close> is the
  parameter \<open>incrby\<close>: the reply is the value after the addition.
\<close>

type_synonym 'db incrby = "string \<Rightarrow> u64 \<Rightarrow> 'db \<Rightarrow> u64 \<times> 'db"

record 'db redis_gen =
  m_dbConnector :: 'db
  m_vidCounterName :: string

definition redis_increment :: "'db incrby \<Rightarrow> ('db redis_gen, u64) op" where
  "redis_increment incrby = (\<lambda>g.
     case incrby (m_vidCounterName g) 1 (m_dbConnector g) of
       (r, db) \<Rightarrow> (Inr r, g\<lparr>m_dbConnector := db\<rparr>))"

text \<open>
  \<open>for (i = first; i <= last; ++i)\<close>: with the numbers read as naturals, the interval from \<open>first\<close>
  to \<open>last\<close>. (A \<open>last\<close> of \<open>2 ^ 64 - 1\<close> would loop forever; redis counters are signed, so the reply
  never is.)
\<close>

definition redis_incrementBy :: "'db incrby \<Rightarrow> u64 \<Rightarrow> ('db redis_gen, u64 list) op" where
  "redis_incrementBy incrby count = (\<lambda>g.
     case incrby (m_vidCounterName g) count (m_dbConnector g) of
       (lastObjectIndex, db) \<Rightarrow>
         let firstObjectIndex = lastObjectIndex - count + 1
         in (Inr (map of_nat [unat firstObjectIndex ..< unat lastObjectIndex + 1]),
             g\<lparr>m_dbConnector := db\<rparr>))"

text \<open>The documented behaviour of \<open>INCRBY\<close>: \<open>stored db name\<close> is what the database holds.\<close>

definition incrby_ok :: "('db \<Rightarrow> string \<Rightarrow> u64) \<Rightarrow> 'db incrby \<Rightarrow> bool" where
  "incrby_ok stored incrby \<longleftrightarrow>
     (\<forall>name n db. fst (incrby name n db) = stored db name + n \<and>
                  stored (snd (incrby name n db)) name = stored db name + n)"

interpretation redis_gen: oid_index_generator "incrby_ok stored incrby" "redis_increment incrby"
  "redis_incrementBy incrby" "\<lambda>g. unat (stored (m_dbConnector g) (m_vidCounterName g))"
  for stored :: "'db \<Rightarrow> string \<Rightarrow> u64" and incrby
proof unfold_locales
  fix g :: "'db redis_gen"
  let ?v = "stored (m_dbConnector g) (m_vidCounterName g)"
  assume ok: "incrby_ok stored incrby" and b: "unat ?v + 1 < 2 ^ 63"
  obtain r db where i: "incrby (m_vidCounterName g) 1 (m_dbConnector g) = (r, db)" by fastforce
  with ok have "r = ?v + 1" "stored db (m_vidCounterName g) = ?v + 1"
    by (metis incrby_ok_def fst_conv, metis incrby_ok_def snd_conv)
  moreover have "unat (?v + 1) = unat ?v + 1" using b by (intro unat_plus64_1) simp
  ultimately
  show "\<exists>g'. redis_increment incrby g = (Inr (of_nat (unat ?v + 1)), g') \<and>
      unat (stored (m_dbConnector g') (m_vidCounterName g')) = unat ?v + 1"
    using i by (simp add: redis_increment_def)
next
  fix g :: "'db redis_gen" and n :: u64
  let ?v = "stored (m_dbConnector g) (m_vidCounterName g)"
  assume ok: "incrby_ok stored incrby" and b: "unat ?v + unat n < 2 ^ 63"
  obtain r db where i: "incrby (m_vidCounterName g) n (m_dbConnector g) = (r, db)" by fastforce
  with ok have r: "r = ?v + n" "stored db (m_vidCounterName g) = ?v + n"
    by (metis incrby_ok_def fst_conv, metis incrby_ok_def snd_conv)
  have u: "unat (?v + n) = unat ?v + unat n"
    using b by (intro unat_plus64) simp
  have idx: "[unat (?v + 1) ..< unat ?v + unat n + 1] = [unat ?v + 1 ..< unat ?v + 1 + unat n]"
  proof (cases "n = 0")
    case True
    from b have "unat (?v + 1) = unat ?v + 1" by (intro unat_plus64_1) simp
    then show ?thesis using True by simp
  next
    case False
    then have "0 < unat n" by (simp add: unat_gt_0)
    with b have "unat (?v + 1) = unat ?v + 1" by (intro unat_plus64_1) simp
    then show ?thesis by (simp add: add.commute)
  qed
  have e: "redis_incrementBy incrby n g =
      (Inr (map of_nat [unat ?v + 1 ..< unat ?v + 1 + unat n]), g\<lparr>m_dbConnector := db\<rparr>)"
    by (simp only: redis_incrementBy_def i r(1) u Let_def prod.case add_diff_cancel_right' idx)
  have v: "unat (stored (m_dbConnector (g\<lparr>m_dbConnector := db\<rparr>))
      (m_vidCounterName (g\<lparr>m_dbConnector := db\<rparr>))) = unat ?v + unat n"
    by (simp add: r(2) u)
  show "\<exists>g'. redis_incrementBy incrby n g =
      (Inr (map of_nat [unat ?v + 1 ..< unat ?v + 1 + unat n]), g') \<and>
      unat (stored (m_dbConnector g') (m_vidCounterName g')) = unat ?v + unat n"
    by (rule exI, rule conjI, rule e, rule v)
qed

end
