(* ===== verification/Oid_Layout.thy ===== *)
theory Oid_Layout
  imports Sai_Types
begin

text \<open>
  The contract the two object id managers share: \<open>lib/VirtualObjectIdManager.cpp\<close> (VIDs, what
  \<open>sairedis\<close> and \<open>syncd\<close> talk in) and \<open>vslib/RealObjectIdManager.cpp\<close> (RIDs of the virtual
  switch) pack an object type, a switch index, a global context and an object index into 64 bits
  with different layouts, and read type and switch back from the bits alone.
\<close>

text \<open>
  Type and flag as they are packed: a base type as itself, a type of the extension range as its
  offset with the flag set.
\<close>

definition ext_flag :: "sai_headers \<Rightarrow> object_type \<Rightarrow> bool" where
  "ext_flag h t = (ext_range_start h \<le> t)"

definition packed_type :: "sai_headers \<Rightarrow> object_type \<Rightarrow> object_type" where
  "packed_type h t = (if ext_flag h t then t - ext_range_start h else t)"

lemma packed_type_less: "headers_ok h \<Longrightarrow> object_type_valid h t \<Longrightarrow> packed_type h t < 256"
  using headers_okD(3,4) [of h t] by (auto simp: packed_type_def ext_flag_def)

locale oid_layout =
  fixes h :: sai_headers
    and index_bits :: nat
    and get_switch get_type get_context get_index :: "oid \<Rightarrow> u64"
    and get_ext :: "oid \<Rightarrow> bool"
    and construct :: "object_type \<Rightarrow> u32 \<Rightarrow> u64 \<Rightarrow> u32 \<Rightarrow> fault + oid"
    and type_query :: "oid \<Rightarrow> object_type"
    and switch_query :: "oid \<Rightarrow> fault + oid"
  assumes construct_fields:
      "headers_ok h \<Longrightarrow> object_type_valid h t \<Longrightarrow> s < 256 \<Longrightarrow> c < 256 \<Longrightarrow> i < 2 ^ index_bits \<Longrightarrow>
        \<exists>oid. construct t s i c = Inr oid \<and> oid \<noteq> 0 \<and> get_switch oid = ucast s \<and>
          get_context oid = ucast c \<and> get_index oid = i \<and> get_ext oid = ext_flag h t \<and>
          get_type oid = ucast (packed_type h t)"
    and construct_invalid: "\<not> object_type_valid h t \<Longrightarrow> \<exists>w. construct t s i c = Inl (Throw w)"
    and type_query_def':
      "type_query oid =
         (let t = (if get_ext oid then ucast (get_type oid) + ext_range_start h
                   else ucast (get_type oid))
          in if oid = 0 \<or> \<not> object_type_valid h t then 0 else t)"
    and switch_query_def':
      "switch_query oid =
         (if oid = 0 \<or> type_query oid = 0 then Inr 0
          else if type_query oid = ot_switch h then Inr oid
          else construct (ot_switch h) (ucast (get_switch oid)) (ucast (ucast (get_switch oid) :: u32))
                 (ucast (get_context oid)))"
    and field_bounds: "get_switch oid < 256" "get_context oid < 256"
    and index_bits_le: "8 \<le> index_bits" "index_bits < 64"
begin

lemma construct_fieldsE:
  assumes "headers_ok h" "object_type_valid h t" "s < 256" "c < 256" "i < 2 ^ index_bits"
    and "construct t s i c = Inr oid"
  shows "oid \<noteq> 0" "get_switch oid = ucast s" "get_context oid = ucast c" "get_index oid = i"
    "get_ext oid = ext_flag h t" "get_type oid = ucast (packed_type h t)"
  using construct_fields [OF assms(1-5)] assms(6) by auto

lemma construct_valid: "construct t s i c = Inr oid \<Longrightarrow> object_type_valid h t"
  using construct_invalid [of t s i c] by auto

text \<open>The type read back is the type packed.\<close>

lemma type_of_construct:
  assumes "headers_ok h" "s < 256" "c < 256" "i < 2 ^ index_bits" "construct t s i c = Inr oid"
  shows "type_query oid = t"
proof -
  have v: "object_type_valid h t" using assms(5) by (rule construct_valid)
  note f = construct_fieldsE [OF assms(1) v assms(2-5)]
  have "(if get_ext oid then ucast (get_type oid) + ext_range_start h else ucast (get_type oid)) = t"
    by (simp add: f(5,6) packed_type_def)
  with f(1) v show ?thesis by (simp add: type_query_def' Let_def)
qed

text \<open>Distinct arguments give distinct ids.\<close>

lemma construct_inj:
  assumes "headers_ok h" "s < 256" "c < 256" "i < 2 ^ index_bits" "construct t s i c = Inr oid"
    and "s' < 256" "c' < 256" "i' < 2 ^ index_bits" "construct t' s' i' c' = Inr oid"
  shows "t = t' \<and> s = s' \<and> i = i' \<and> c = c'"
proof -
  note f = construct_fieldsE [OF assms(1) construct_valid [OF assms(5)] assms(2-5)]
  note f' = construct_fieldsE [OF assms(1) construct_valid [OF assms(9)] assms(6-9)]
  have "t = t'" using type_of_construct assms by metis
  moreover have "(ucast s :: u64) = ucast s'" "(ucast c :: u64) = ucast c'" "i = i'"
    using f f' by auto
  then have "s = s'" "c = c'" "i = i'" by (auto dest: ucast_32_64_inj)
  ultimately show ?thesis by simp
qed

text \<open>
  The switch read back is the canonical switch id of the packed switch index: the one every object
  of that switch and context gives.
\<close>

lemma less_index: "s < 256 \<Longrightarrow> (ucast (s :: u32) :: u64) < 2 ^ index_bits"
proof -
  assume "s < 256"
  then have "unat s < 2 ^ 8" by (simp add: word_less_nat_alt)
  also have "(2::nat) ^ 8 \<le> 2 ^ index_bits" using index_bits_le by (intro power_increasing) auto
  finally show ?thesis using index_bits_le
    by (simp add: word_less_nat_alt unat_ucast_32_64 unat_p2)
qed

lemma switch_of_construct:
  assumes "headers_ok h" "s < 256" "c < 256" "i < 2 ^ index_bits" "construct t s i c = Inr oid"
    and "t \<noteq> ot_switch h"
  shows "switch_query oid = construct (ot_switch h) s (ucast s) c"
proof -
  note v = construct_valid [OF assms(5)]
  note f = construct_fieldsE [OF assms(1) v assms(2-5)]
  have "type_query oid = t" using assms(1-5) by (rule type_of_construct)
  moreover have "t \<noteq> 0" using v headers_okD(1) [OF assms(1)] by auto
  ultimately show ?thesis using f assms(6) by (simp add: switch_query_def')
qed

lemma switch_of_switch:
  assumes "headers_ok h" "s < 256" "c < 256" "construct (ot_switch h) s (ucast s) c = Inr oid"
  shows "switch_query oid = Inr oid"
proof -
  have "type_query oid = ot_switch h"
    using assms less_index type_of_construct by blast
  then show ?thesis using headers_okD(1,5) [OF assms(1)]
    by (auto simp: switch_query_def')
qed

text \<open>The query never fails, and what it returns is null or of switch type.\<close>

lemma switch_query_total:
  assumes "headers_ok h"
  obtains sw where "switch_query oid = Inr sw" "sw = 0 \<or> type_query sw = ot_switch h"
    "sw = 0 \<longleftrightarrow> type_query oid = 0"
proof (cases "oid = 0 \<or> type_query oid = 0 \<or> type_query oid = ot_switch h")
  case True
  moreover have "type_query 0 = 0" by (simp add: type_query_def')
  moreover have "ot_switch h \<noteq> 0" using headers_okD(1,5) [OF assms] by auto
  ultimately have "switch_query oid = Inr (if oid = 0 \<or> type_query oid = 0 then 0 else oid)"
    by (auto simp: switch_query_def')
  with \<open>type_query 0 = 0\<close> True show ?thesis by (intro that) (auto split: if_splits)
next
  case False
  have b: "(ucast (get_switch oid) :: u32) < 256" "(ucast (get_context oid) :: u32) < 256"
    using field_bounds [of oid]
    by (simp_all add: word_less_nat_alt unsigned_ucast_eq take_bit_nat_eq_self)
  from construct_fields [OF assms headers_okD(5) [OF assms] b less_index [OF b(1)]]
  obtain sw where c: "construct (ot_switch h) (ucast (get_switch oid))
      (ucast (ucast (get_switch oid) :: u32)) (ucast (get_context oid)) = Inr sw" "sw \<noteq> 0" by blast
  with False have "switch_query oid = Inr sw" by (simp add: switch_query_def')
  moreover have "type_query sw = ot_switch h"
    using type_of_construct [OF assms b less_index [OF b(1)] c(1)] .
  ultimately show ?thesis using that c(2) False by auto
qed

end

end
