(* ===== verification/Switch_Config.thy ===== *)
theory Switch_Config
  imports Sai_Types
begin

text \<open>
  The switch configurations of a context: \<open>lib/SwitchConfigContainer.cpp\<close>. Two maps index the same
  \<open>shared_ptr<SwitchConfig>\<close> objects, by switch index and by hardware info; the configurations are
  never changed after insertion, so the model keeps them by value.
\<close>

record switch_config =
  m_switchIndex :: u32
  m_hardwareInfo :: string

record switch_config_container =
  m_indexToConfig :: "(u32, switch_config) alist"
  m_hwinfoToConfig :: "(string, switch_config) alist"

definition config_insert :: "switch_config \<Rightarrow> (switch_config_container, unit) op" where
  "config_insert config = (\<lambda>s.
     if has_key (m_indexToConfig s) (m_switchIndex config) then
       (Inl (Throw ''switch with index already exists''), s)
     else if has_key (m_hwinfoToConfig s) (m_hardwareInfo config) then
       (Inl (Throw ''switch with hwinfo already exists''), s)
     else
       (Inr (), s\<lparr>m_indexToConfig := AList.update (m_switchIndex config) config (m_indexToConfig s),
                  m_hwinfoToConfig := AList.update (m_hardwareInfo config) config (m_hwinfoToConfig s)\<rparr>))"

definition getConfig_index :: "u32 \<Rightarrow> switch_config_container \<Rightarrow> switch_config option" where
  "getConfig_index switchIndex s = map_of (m_indexToConfig s) switchIndex"

definition getConfig_hwinfo :: "string \<Rightarrow> switch_config_container \<Rightarrow> switch_config option" where
  "getConfig_hwinfo hardwareInfo s = map_of (m_hwinfoToConfig s) hardwareInfo"

text \<open>The two indexes agree: both hold exactly the same configurations, each under its own key.\<close>

definition config_inv :: "switch_config_container \<Rightarrow> bool" where
  "config_inv s \<longleftrightarrow>
     (\<forall>i c. getConfig_index i s = Some c \<longrightarrow>
        m_switchIndex c = i \<and> getConfig_hwinfo (m_hardwareInfo c) s = Some c) \<and>
     (\<forall>w c. getConfig_hwinfo w s = Some c \<longrightarrow>
        m_hardwareInfo c = w \<and> getConfig_index (m_switchIndex c) s = Some c)"

definition config_empty :: switch_config_container where
  "config_empty = \<lparr>m_indexToConfig = [], m_hwinfoToConfig = []\<rparr>"

lemma config_inv_empty: "config_inv config_empty"
  by (simp add: config_inv_def config_empty_def getConfig_index_def getConfig_hwinfo_def)

lemma config_inv_insert: "keeps config_inv (config_insert config)"
  unfolding keeps_alt config_inv_def config_insert_def has_key_def getConfig_index_def
    getConfig_hwinfo_def
  by (auto split: if_splits) (metis option.distinct(1))+

text \<open>
  The hardware info determines the switch index and conversely: what makes the switch ids that
  \<open>allocateNewSwitchObjectId\<close> derives from a configuration distinct.
\<close>

lemma config_index_inj:
  assumes "config_inv s" "getConfig_hwinfo w s = Some c" "getConfig_hwinfo w' s = Some c'"
    and "m_switchIndex c = m_switchIndex c'"
  shows "w = w'"
  using assms by (auto simp: config_inv_def) metis

end
