(* ===== verification/Virtual_Oid.thy ===== *)
theory Virtual_Oid
  imports Oid_Index Oid_Layout Switch_Config
begin

text \<open>
  \<open>lib/VirtualObjectIdManager.cpp\<close>: the virtual object ids (VIDs) of \<open>sairedis\<close> and \<open>syncd\<close>, and
  \<open>syncd/VidManager.cpp\<close>, the throwing wrappers \<open>syncd\<close> uses. The index generator is the object of
  the theory \<open>Oid_Index\<close>: its two methods are arguments of the operations that call them.
\<close>

section \<open>The layout\<close>

text \<open>
  Bits 63..56 switch index, 55..48 object type, 47..40 global context, 39 the extensions flag,
  38..0 object index: the \<open>SAI_REDIS_GET_*\<close> macros.
\<close>

definition REDIS_GET_OBJECT_INDEX :: "oid \<Rightarrow> u64" where
  "REDIS_GET_OBJECT_INDEX oid = oid AND mask 39"

definition REDIS_GET_EXTENSIONS_FLAG :: "oid \<Rightarrow> bool" where
  "REDIS_GET_EXTENSIONS_FLAG oid = (drop_bit 39 oid AND mask 1 \<noteq> 0)"

definition REDIS_GET_GLOBAL_CONTEXT :: "oid \<Rightarrow> u64" where
  "REDIS_GET_GLOBAL_CONTEXT oid = drop_bit 40 oid AND mask 8"

definition REDIS_GET_OBJECT_TYPE :: "oid \<Rightarrow> u64" where
  "REDIS_GET_OBJECT_TYPE oid = drop_bit 48 oid AND mask 8"

definition REDIS_GET_SWITCH_INDEX :: "oid \<Rightarrow> u64" where
  "REDIS_GET_SWITCH_INDEX oid = drop_bit 56 oid AND mask 8"

definition redis_constructObjectId ::
  "sai_headers \<Rightarrow> object_type \<Rightarrow> u32 \<Rightarrow> u64 \<Rightarrow> u32 \<Rightarrow> fault + oid" where
  "redis_constructObjectId h objectType switchIndex objectIndex globalContext =
     (if \<not> object_type_valid h objectType then Inl (Throw ''FATAL: invalid object type'')
      else
        let extensionsFlag = ext_range_start h \<le> objectType;
            objectType' = (if extensionsFlag then objectType - ext_range_start h else objectType)
        in Inr (push_bit 56 (ucast switchIndex) OR push_bit 48 (ucast objectType') OR
                push_bit 40 (ucast globalContext) OR push_bit 39 (of_bool extensionsFlag) OR
                objectIndex))"

definition redis_objectTypeQuery :: "sai_headers \<Rightarrow> oid \<Rightarrow> object_type" where
  "redis_objectTypeQuery h objectId =
     (if objectId = SAI_NULL_OBJECT_ID then SAI_OBJECT_TYPE_NULL
      else
        let objectType =
              (if REDIS_GET_EXTENSIONS_FLAG objectId
               then ucast (REDIS_GET_OBJECT_TYPE objectId) + ext_range_start h
               else ucast (REDIS_GET_OBJECT_TYPE objectId))
        in if \<not> object_type_valid h objectType then SAI_OBJECT_TYPE_NULL else objectType)"

text \<open>The static query: an id with no valid type answers the null id.\<close>

definition redis_switchIdQuery :: "sai_headers \<Rightarrow> oid \<Rightarrow> fault + oid" where
  "redis_switchIdQuery h objectId =
     (if objectId = SAI_NULL_OBJECT_ID then Inr SAI_NULL_OBJECT_ID
      else
        let objectType = redis_objectTypeQuery h objectId
        in if objectType = SAI_OBJECT_TYPE_NULL then Inr SAI_NULL_OBJECT_ID
           else if objectType = ot_switch h then Inr objectId
           else
             let switchIndex = ucast (REDIS_GET_SWITCH_INDEX objectId) :: u32;
                 globalContext = ucast (REDIS_GET_GLOBAL_CONTEXT objectId) :: u32
             in redis_constructObjectId h (ot_switch h) switchIndex (ucast switchIndex) globalContext)"

text \<open>The member function of the same job throws where the static one answers null.\<close>

definition redis_saiObjectTypeQuery :: "sai_headers \<Rightarrow> oid \<Rightarrow> object_type" where
  "redis_saiObjectTypeQuery h objectId =
     (if objectId = SAI_NULL_OBJECT_ID then SAI_OBJECT_TYPE_NULL
      else
        let objectType =
              (if REDIS_GET_EXTENSIONS_FLAG objectId
               then ucast (REDIS_GET_OBJECT_TYPE objectId) + ext_range_start h
               else ucast (REDIS_GET_OBJECT_TYPE objectId))
        in if object_type_valid h objectType = False then SAI_OBJECT_TYPE_NULL else objectType)"

definition redis_saiSwitchIdQuery :: "sai_headers \<Rightarrow> oid \<Rightarrow> fault + oid" where
  "redis_saiSwitchIdQuery h objectId =
     (if objectId = SAI_NULL_OBJECT_ID then Inr SAI_NULL_OBJECT_ID
      else
        let objectType = redis_saiObjectTypeQuery h objectId
        in if objectType = SAI_OBJECT_TYPE_NULL then Inl (Throw ''invalid object type of oid'')
           else if objectType = ot_switch h then Inr objectId
           else
             let switchIndex = ucast (REDIS_GET_SWITCH_INDEX objectId) :: u32;
                 globalContext = ucast (REDIS_GET_GLOBAL_CONTEXT objectId) :: u32
             in redis_constructObjectId h (ot_switch h) switchIndex (ucast switchIndex) globalContext)"

definition redis_getSwitchIndex :: "sai_headers \<Rightarrow> oid \<Rightarrow> fault + u32" where
  "redis_getSwitchIndex h objectId =
     bindE (redis_switchIdQuery h objectId) (\<lambda>switchId. Inr (ucast (REDIS_GET_SWITCH_INDEX switchId)))"

definition redis_getGlobalContext :: "sai_headers \<Rightarrow> oid \<Rightarrow> fault + u32" where
  "redis_getGlobalContext h objectId =
     bindE (redis_switchIdQuery h objectId)
       (\<lambda>switchId. Inr (ucast (REDIS_GET_GLOBAL_CONTEXT switchId)))"

text \<open>The cast to \<open>uint32_t\<close> inside a function of result type \<open>uint64_t\<close> is the source's.\<close>

definition redis_getObjectIndex :: "oid \<Rightarrow> u64" where
  "redis_getObjectIndex objectId = ucast (ucast (REDIS_GET_OBJECT_INDEX objectId) :: u32)"

definition redis_updateObjectIndex :: "sai_headers \<Rightarrow> oid \<Rightarrow> u64 \<Rightarrow> fault + oid" where
  "redis_updateObjectIndex h objectId objectIndex =
     (if objectId = SAI_NULL_OBJECT_ID then
        Inl (Throw ''can't update object index on NULL_OBJECT_ID'')
      else if mask 39 < objectIndex then Inl (Throw ''object index over maximum'')
      else
        let objectType = redis_objectTypeQuery h objectId
        in if objectType = SAI_OBJECT_TYPE_NULL then Inl (Throw ''invalid object type of oid'')
           else redis_constructObjectId h objectType (ucast (REDIS_GET_SWITCH_INDEX objectId))
                  objectIndex (ucast (REDIS_GET_GLOBAL_CONTEXT objectId)))"

section \<open>The manager\<close>

record 'g vid_manager =
  vm_globalContext :: u32
  vm_container :: switch_config_container
  vm_oidIndexGenerator :: 'g
  vm_switchIndexes :: "u32 set"

definition vid_manager_new ::
  "u32 \<Rightarrow> switch_config_container \<Rightarrow> 'g \<Rightarrow> fault + 'g vid_manager" where
  "vid_manager_new globalContext scc oidIndexGenerator =
     (if 255 < globalContext then Inl (Throw ''specified globalContext > maximum global context'')
      else Inr \<lparr>vm_globalContext = globalContext, vm_container = scc,
                vm_oidIndexGenerator = oidIndexGenerator, vm_switchIndexes = {}\<rparr>)"

definition vid_clear :: "('g vid_manager, unit) op" where
  "vid_clear = modify (vm_switchIndexes_update (\<lambda>_. {}))"

definition vid_releaseSwitchIndex :: "u32 \<Rightarrow> ('g vid_manager, unit) op" where
  "vid_releaseSwitchIndex index = (\<lambda>s.
     if index \<notin> vm_switchIndexes s then
       (Inl (Throw ''switch index is invalid! programming error''), s)
     else (Inr (), s\<lparr>vm_switchIndexes := vm_switchIndexes s - {index}\<rparr>))"

abbreviation on_generator :: "('g, 'a) op \<Rightarrow> ('g vid_manager, 'a) op" where
  "on_generator \<equiv> zoom vm_oidIndexGenerator (\<lambda>g. vm_oidIndexGenerator_update (\<lambda>_. g))"

definition vid_allocateNewObjectId ::
  "sai_headers \<Rightarrow> ('g, u64) op \<Rightarrow> object_type \<Rightarrow> oid \<Rightarrow> ('g vid_manager, oid) op" where
  "vid_allocateNewObjectId h increment objectType switchId =
     (if \<not> object_type_valid h objectType then raise (Throw ''invalid object type'')
      else if objectType = ot_switch h then
        raise (Throw ''this function can't be used to allocate switch id'')
      else if redis_saiObjectTypeQuery h switchId \<noteq> ot_switch h then
        raise (Throw ''object type of switch should be SWITCH'')
      else
        seq (on_generator increment) (\<lambda>objectIndex.
          if mask 39 < objectIndex then raise (Throw ''no more object indexes available'')
          else
            seq (gets vm_globalContext) (\<lambda>globalContext.
              lift (redis_constructObjectId h objectType (ucast (REDIS_GET_SWITCH_INDEX switchId))
                      objectIndex globalContext))))"

text \<open>
  The batch version. It checks the types before it takes any index, and the limit on the last
  index of the batch only. \<open>objectTypes\<close> is the array with its length \<open>count\<close>.
\<close>

fun vid_check_types :: "sai_headers \<Rightarrow> object_type list \<Rightarrow> ('s, unit) op" where
  "vid_check_types h [] = ret ()"
| "vid_check_types h (t # ts) =
     (if \<not> object_type_valid h t then raise (Throw ''invalid object type'')
      else if t = ot_switch h then
        raise (Throw ''this function can't be used to allocate switch id'')
      else vid_check_types h ts)"

fun vid_construct_all ::
  "sai_headers \<Rightarrow> u32 \<Rightarrow> u32 \<Rightarrow> (object_type \<times> u64) list \<Rightarrow> fault + oid list" where
  "vid_construct_all h switchIndex globalContext [] = Inr []"
| "vid_construct_all h switchIndex globalContext ((t, i) # ps) =
     bindE (redis_constructObjectId h t switchIndex i globalContext)
       (\<lambda>oid. bindE (vid_construct_all h switchIndex globalContext ps) (\<lambda>oids. Inr (oid # oids)))"

definition vid_allocateNewObjectIds ::
  "sai_headers \<Rightarrow> (u64 \<Rightarrow> ('g, u64 list) op) \<Rightarrow> oid \<Rightarrow> object_type list \<Rightarrow> ('g vid_manager, oid list) op" where
  "vid_allocateNewObjectIds h incrementBy switchId objectTypes =
     (if objectTypes = [] then ret []
      else
        seq (vid_check_types h objectTypes) (\<lambda>_.
          if redis_saiObjectTypeQuery h switchId \<noteq> ot_switch h then
            raise (Throw ''object type of switch should be SWITCH'')
          else
            seq (on_generator (incrementBy (of_nat (length objectTypes)))) (\<lambda>objectIndexes.
              if mask 39 < last objectIndexes then
                raise (Throw ''no more object indexes available'')
              else
                seq (gets vm_globalContext) (\<lambda>globalContext.
                  lift (vid_construct_all h (ucast (REDIS_GET_SWITCH_INDEX switchId)) globalContext
                          (zip objectTypes objectIndexes))))))"

definition vid_allocateNewSwitchObjectId ::
  "sai_headers \<Rightarrow> string \<Rightarrow> ('g vid_manager, oid) op" where
  "vid_allocateNewSwitchObjectId h hardwareInfo = (\<lambda>s.
     case getConfig_hwinfo hardwareInfo (vm_container s) of
       None \<Rightarrow> (Inr SAI_NULL_OBJECT_ID, s)
     | Some config \<Rightarrow>
         let switchIndex = m_switchIndex config
         in if 255 < switchIndex then (Inl (Throw ''switch index > max''), s)
            else
              let s' = s\<lparr>vm_switchIndexes := insert switchIndex (vm_switchIndexes s)\<rparr>
              in (redis_constructObjectId h (ot_switch h) switchIndex (ucast switchIndex)
                    (vm_globalContext s'), s'))"

definition vid_releaseObjectId :: "sai_headers \<Rightarrow> oid \<Rightarrow> ('g vid_manager, unit) op" where
  "vid_releaseObjectId h objectId =
     (if redis_saiObjectTypeQuery h objectId = ot_switch h
      then vid_releaseSwitchIndex (ucast (REDIS_GET_SWITCH_INDEX objectId))
      else ret ())"

section \<open>The wrappers of syncd\<close>

definition vid_switchIdQuery :: "sai_headers \<Rightarrow> oid \<Rightarrow> fault + oid" where
  "vid_switchIdQuery h objectId =
     (if objectId = SAI_NULL_OBJECT_ID then Inr objectId
      else bindE (redis_switchIdQuery h objectId) (\<lambda>swid.
        if swid = SAI_NULL_OBJECT_ID then Inl (Throw ''invalid object id'') else Inr swid))"

definition vid_objectTypeQuery :: "sai_headers \<Rightarrow> oid \<Rightarrow> fault + object_type" where
  "vid_objectTypeQuery h objectId =
     (if objectId = SAI_NULL_OBJECT_ID then Inr SAI_OBJECT_TYPE_NULL
      else
        let ot = redis_objectTypeQuery h objectId
        in if ot = SAI_OBJECT_TYPE_NULL then Inl (Throw ''invalid object id'') else Inr ot)"

definition vid_getSwitchIndex :: "sai_headers \<Rightarrow> oid \<Rightarrow> fault + u32" where
  "vid_getSwitchIndex h objectId =
     bindE (vid_switchIdQuery h objectId) (\<lambda>swid.
       if swid \<noteq> SAI_NULL_OBJECT_ID then redis_getSwitchIndex h swid
       else Inl (Throw ''invalid obejct id, should be SWITCH''))"

definition vid_getGlobalContext :: "sai_headers \<Rightarrow> oid \<Rightarrow> fault + u32" where
  "vid_getGlobalContext h objectId =
     bindE (redis_switchIdQuery h objectId) (\<lambda>swid.
       if swid = SAI_NULL_OBJECT_ID then Inl (Throw ''invalid object id'')
       else redis_getGlobalContext h objectId)"

definition vid_getObjectIndex :: "sai_headers \<Rightarrow> oid \<Rightarrow> fault + u64" where
  "vid_getObjectIndex h objectId =
     bindE (redis_switchIdQuery h objectId) (\<lambda>swid.
       if swid = SAI_NULL_OBJECT_ID then Inl (Throw ''invalid object id'')
       else Inr (redis_getObjectIndex objectId))"

definition vid_updateObjectIndex :: "sai_headers \<Rightarrow> oid \<Rightarrow> u64 \<Rightarrow> fault + oid" where
  "vid_updateObjectIndex h objectId objectIndex = redis_updateObjectIndex h objectId objectIndex"


section \<open>The layout keeps its fields apart\<close>

lemma redis_fields:
  assumes "a < 2 ^ 8" "b < 2 ^ 8" "c < 2 ^ 8" "d < 2 ^ 1" "e < 2 ^ 39"
  defines "w \<equiv> push_bit 56 a OR push_bit 48 b OR push_bit 40 c OR push_bit 39 d OR e :: u64"
  shows "REDIS_GET_SWITCH_INDEX w = a" "REDIS_GET_OBJECT_TYPE w = b"
    "REDIS_GET_GLOBAL_CONTEXT w = c" "drop_bit 39 w AND mask 1 = d" "REDIS_GET_OBJECT_INDEX w = e"
  unfolding REDIS_GET_SWITCH_INDEX_def REDIS_GET_OBJECT_TYPE_def REDIS_GET_GLOBAL_CONTEXT_def
    REDIS_GET_OBJECT_INDEX_def w_def
  by (rule bit_word_eqI; auto simp: bit_simps dest: bit_less_pow2 [OF assms(1)]
      bit_less_pow2 [OF assms(2)] bit_less_pow2 [OF assms(3)] bit_less_pow2 [OF assms(4)]
      bit_less_pow2 [OF assms(5)])+

lemma redis_construct_fields:
  assumes "headers_ok h" "object_type_valid h t" "s < 256" "c < 256" "i < 2 ^ 39"
  shows "\<exists>oid. redis_constructObjectId h t s i c = Inr oid \<and> oid \<noteq> 0 \<and>
      REDIS_GET_SWITCH_INDEX oid = ucast s \<and> REDIS_GET_GLOBAL_CONTEXT oid = ucast c \<and>
      REDIS_GET_OBJECT_INDEX oid = i \<and> REDIS_GET_EXTENSIONS_FLAG oid = ext_flag h t \<and>
      REDIS_GET_OBJECT_TYPE oid = ucast (packed_type h t)"
proof -
  let ?p = "ucast (packed_type h t) :: u64"
  let ?oid = "push_bit 56 (ucast s) OR push_bit 48 ?p OR push_bit 40 (ucast c) OR
      push_bit 39 (of_bool (ext_flag h t)) OR i :: u64"
  have p: "?p < 2 ^ 8" by (rule ucast_byte, rule packed_type_less) (use assms in auto)
  have b: "(of_bool (ext_flag h t) :: u64) < 2 ^ 1" by simp
  note f = redis_fields [OF ucast_byte [OF assms(3)] p ucast_byte [OF assms(4)] b assms(5)]
  have c: "redis_constructObjectId h t s i c = Inr ?oid"
    using assms(2) by (simp add: redis_constructObjectId_def Let_def packed_type_def ext_flag_def)
  have "?oid \<noteq> 0"
  proof
    assume z: "?oid = 0"
    then have "(of_bool (ext_flag h t) :: u64) = 0" using f(4) by simp
    then have nf: "\<not> ext_flag h t" by simp
    from z have "?p = 0" using f(2) by (simp add: REDIS_GET_OBJECT_TYPE_def)
    then have "packed_type h t = 0" by (metis ucast_32_64_32 unsigned_0)
    with nf have "t = 0" by (simp add: packed_type_def)
    with assms(2) headers_okD(1) [OF assms(1)] show False by simp
  qed
  with c f show ?thesis by (auto simp: REDIS_GET_EXTENSIONS_FLAG_def)
qed

lemma redis_field_bounds: "REDIS_GET_SWITCH_INDEX oid < 256" "REDIS_GET_GLOBAL_CONTEXT oid < 256"
  using and_mask_less' [of 8 "drop_bit 56 oid"] and_mask_less' [of 8 "drop_bit 40 oid"]
  by (simp_all add: REDIS_GET_SWITCH_INDEX_def REDIS_GET_GLOBAL_CONTEXT_def)

interpretation redis_oid: oid_layout h 39 REDIS_GET_SWITCH_INDEX REDIS_GET_OBJECT_TYPE
  REDIS_GET_GLOBAL_CONTEXT REDIS_GET_OBJECT_INDEX REDIS_GET_EXTENSIONS_FLAG
  "redis_constructObjectId h" "redis_objectTypeQuery h" "redis_switchIdQuery h"
  for h
proof unfold_locales
  show "redis_objectTypeQuery h oid =
      (let t = (if REDIS_GET_EXTENSIONS_FLAG oid
                then ucast (REDIS_GET_OBJECT_TYPE oid) + ext_range_start h
                else ucast (REDIS_GET_OBJECT_TYPE oid))
       in if oid = 0 \<or> \<not> object_type_valid h t then 0 else t)" for oid
    by (simp add: redis_objectTypeQuery_def Let_def)
  show "redis_switchIdQuery h oid =
      (if oid = 0 \<or> redis_objectTypeQuery h oid = 0 then Inr 0
       else if redis_objectTypeQuery h oid = ot_switch h then Inr oid
       else redis_constructObjectId h (ot_switch h) (ucast (REDIS_GET_SWITCH_INDEX oid))
              (ucast (ucast (REDIS_GET_SWITCH_INDEX oid) :: u32))
              (ucast (REDIS_GET_GLOBAL_CONTEXT oid)))" for oid
    by (simp only: redis_switchIdQuery_def Let_def) auto
  show "\<exists>w. redis_constructObjectId h t s i c = Inl (Throw w)" if "\<not> object_type_valid h t" for t s i c
    using that by (simp add: redis_constructObjectId_def)
qed (rule redis_construct_fields redis_field_bounds | simp)+


section \<open>What an allocation does\<close>

lemma redis_saiObjectTypeQuery_eq: "redis_saiObjectTypeQuery h oid = redis_objectTypeQuery h oid"
  by (simp add: redis_saiObjectTypeQuery_def redis_objectTypeQuery_def)

definition alloc_type :: "sai_headers \<Rightarrow> object_type \<Rightarrow> bool" where
  "alloc_type h t = (object_type_valid h t \<and> t \<noteq> ot_switch h)"

text \<open>The id an allocation constructs, without the tests around it.\<close>

abbreviation vid_of :: "sai_headers \<Rightarrow> oid \<Rightarrow> u32 \<Rightarrow> object_type \<Rightarrow> u64 \<Rightarrow> fault + oid" where
  "vid_of h sw ctx t i \<equiv> redis_constructObjectId h t (ucast (REDIS_GET_SWITCH_INDEX sw)) i ctx"

lemma switch_index_byte: "(ucast (REDIS_GET_SWITCH_INDEX sw) :: u32) < 256"
  using redis_field_bounds(1) [of sw]
  by (simp add: word_less_nat_alt unsigned_ucast_eq take_bit_nat_eq_self)

lemma redis_construct_Inr: "object_type_valid h t \<Longrightarrow> \<exists>oid. redis_constructObjectId h t s i c = Inr oid"
  by (simp add: redis_constructObjectId_def Let_def)

lemma mask39_less: "\<not> mask 39 < (i :: u64) \<longleftrightarrow> i < 2 ^ 39"
  by (simp add: mask_eq_exp_minus_1 word_less_nat_alt word_le_nat_alt) arith

lemma mask39_of_nat: "n < 2 ^ 39 \<Longrightarrow> \<not> mask 39 < (of_nat n :: u64)"
  by (subst mask39_less, subst word_less_nat_alt, subst unat_p2)
    (simp_all add: unsigned_of_nat take_bit_nat_eq_self)

lemma alloc_throws:
  assumes "\<not> alloc_type h t \<or> redis_objectTypeQuery h sw \<noteq> ot_switch h"
  shows "\<exists>w. vid_allocateNewObjectId h inc t sw s = (Inl (Throw w), s)"
  using assms by (auto simp: vid_allocateNewObjectId_def alloc_type_def raise_def
      redis_saiObjectTypeQuery_eq)

lemma alloc_step:
  assumes "alloc_type h t" "redis_objectTypeQuery h sw = ot_switch h"
    and "inc (vm_oidIndexGenerator s) = (Inr i, g')"
  shows "vid_allocateNewObjectId h inc t sw s =
     (if mask 39 < i then Inl (Throw ''no more object indexes available'')
      else vid_of h sw (vm_globalContext s) t i, s\<lparr>vm_oidIndexGenerator := g'\<rparr>)"
  using assms by (auto simp: vid_allocateNewObjectId_def alloc_type_def op_defs
      redis_saiObjectTypeQuery_eq)

lemma check_types_eq:
  "vid_check_types h ts s =
     (if list_all (alloc_type h) ts then (Inr (), s)
      else (fst (vid_check_types h ts s), s))"
  "(\<exists>w. fst (vid_check_types h ts s) = Inl (Throw w)) \<longleftrightarrow> \<not> list_all (alloc_type h) ts"
  by (induction ts) (auto simp: op_defs alloc_type_def)

lemma construct_all_eq:
  "list_all (alloc_type h) (map fst ps) \<Longrightarrow>
     \<exists>oids. vid_construct_all h si c ps = Inr oids \<and>
       list_all2 (\<lambda>(t, i) oid. redis_constructObjectId h t si i c = Inr oid) ps oids"
proof (induction ps)
  case (Cons p ps)
  obtain t i where p: "p = (t, i)" by (cases p)
  with Cons.prems redis_construct_Inr obtain oid
    where "redis_constructObjectId h t si i c = Inr oid" by (auto simp: alloc_type_def) blast
  with Cons p show ?case by auto
qed simp

lemma batch_step:
  assumes "ts \<noteq> []" "list_all (alloc_type h) ts" "redis_objectTypeQuery h sw = ot_switch h"
    and "incBy (of_nat (length ts)) (vm_oidIndexGenerator s) = (Inr is, g')"
  shows "vid_allocateNewObjectIds h incBy sw ts s =
     (if mask 39 < last is then Inl (Throw ''no more object indexes available'')
      else vid_construct_all h (ucast (REDIS_GET_SWITCH_INDEX sw)) (vm_globalContext s) (zip ts is),
      s\<lparr>vm_oidIndexGenerator := g'\<rparr>)"
  using assms check_types_eq(1) [of h ts s]
  by (simp add: vid_allocateNewObjectIds_def op_defs redis_saiObjectTypeQuery_eq)

lemma batch_throws:
  assumes "ts \<noteq> []" "\<not> list_all (alloc_type h) ts \<or> redis_objectTypeQuery h sw \<noteq> ot_switch h"
  shows "\<exists>w. vid_allocateNewObjectIds h incBy sw ts s = (Inl (Throw w), s)"
proof (cases "list_all (alloc_type h) ts")
  case True
  with assms check_types_eq(1) [of h ts s] show ?thesis
    by (simp add: vid_allocateNewObjectIds_def op_defs redis_saiObjectTypeQuery_eq)
next
  case False
  with check_types_eq(2) [of h ts s] obtain w where "fst (vid_check_types h ts s) = Inl (Throw w)"
    by blast
  with False check_types_eq(1) [of h ts s] assms(1) show ?thesis
    by (simp add: vid_allocateNewObjectIds_def seq_def)
qed

section \<open>Singles and batches agree\<close>

fun vid_allocate_each ::
  "sai_headers \<Rightarrow> ('g, u64) op \<Rightarrow> oid \<Rightarrow> object_type list \<Rightarrow> ('g vid_manager, oid list) op" where
  "vid_allocate_each h inc sw [] = ret []"
| "vid_allocate_each h inc sw (t # ts) =
     seq (vid_allocateNewObjectId h inc t sw)
       (\<lambda>oid. seq (vid_allocate_each h inc sw ts) (\<lambda>oids. ret (oid # oids)))"


context oid_index_generator
begin

abbreviation count_of :: "'g vid_manager \<Rightarrow> nat" where
  "count_of s \<equiv> counter (vm_oidIndexGenerator s)"

lemma alloc_each_eq:
  assumes "env_ok" "redis_objectTypeQuery h sw = ot_switch h"
  shows "list_all (alloc_type h) ts \<Longrightarrow> count_of s + length ts < 2 ^ 39 \<Longrightarrow>
    fst (vid_allocate_each h increment sw ts s) =
      vid_construct_all h (ucast (REDIS_GET_SWITCH_INDEX sw)) (vm_globalContext s)
        (zip ts (map of_nat [count_of s + 1 ..< count_of s + 1 + length ts]))"
proof (induction ts arbitrary: s)
  case Nil
  show ?case by (simp add: ret_def)
next
  case (Cons t ts)
  let ?n = "count_of s + 1"
  from increment_next [OF assms(1), of "vm_oidIndexGenerator s"] Cons.prems obtain g'
    where g': "increment (vm_oidIndexGenerator s) = (Inr (of_nat ?n), g')" "counter g' = ?n"
    by fastforce
  let ?s' = "s\<lparr>vm_oidIndexGenerator := g'\<rparr>"
  have le: "\<not> mask 39 < (of_nat ?n :: u64)"
    using Cons.prems by (intro mask39_of_nat) simp
  have ats: "alloc_type h t" using Cons.prems by simp
  from redis_construct_Inr [of h t] ats obtain oid
    where oid: "vid_of h sw (vm_globalContext s) t (of_nat ?n) = Inr oid"
    unfolding alloc_type_def by blast
  have st: "vid_allocateNewObjectId h increment t sw s = (Inr oid, ?s')"
    using alloc_step [where inc = increment, OF ats assms(2), of s, OF g'(1)] le oid by (simp only: if_False)
  have ih: "fst (vid_allocate_each h increment sw ts ?s') =
      vid_construct_all h (ucast (REDIS_GET_SWITCH_INDEX sw)) (vm_globalContext s)
        (zip ts (map of_nat [?n + 1 ..< ?n + 1 + length ts]))"
    using Cons.IH [of ?s'] Cons.prems g'(2) by (simp del: upt_Suc)
  have "[?n ..< ?n + length (t # ts)] = ?n # [?n + 1 ..< ?n + 1 + length ts]"
    by (simp add: upt_conv_Cons del: upt_Suc)
  then show ?case
    using st ih oid
    by (simp add: seq_def ret_def bindE_def split_beta prod_eq_iff del: upt_Suc split: sum.splits)
qed

lemma alloc_batch_eq:
  assumes "env_ok" "redis_objectTypeQuery h sw = ot_switch h"
    and "list_all (alloc_type h) ts" "count_of s + length ts < 2 ^ 39"
  shows "fst (vid_allocateNewObjectIds h incrementBy sw ts s) =
      vid_construct_all h (ucast (REDIS_GET_SWITCH_INDEX sw)) (vm_globalContext s)
        (zip ts (map of_nat [count_of s + 1 ..< count_of s + 1 + length ts]))"
proof (cases "ts = []")
  case True
  then show ?thesis by (simp add: vid_allocateNewObjectIds_def ret_def)
next
  case False
  let ?n = "of_nat (length ts) :: u64"
  have u: "unat ?n = length ts" using assms(4) by (simp add: unsigned_of_nat take_bit_nat_eq_self)
  from incrementBy_next [OF assms(1), of "vm_oidIndexGenerator s" ?n] assms(4) u obtain g' where
    g': "incrementBy ?n (vm_oidIndexGenerator s) =
        (Inr (map of_nat [count_of s + 1 ..< count_of s + 1 + length ts]), g')"
    by auto
  have "last (map of_nat [count_of s + 1 ..< count_of s + 1 + length ts]) =
      (of_nat (count_of s + length ts) :: u64)"
    using False by (cases "length ts") (simp_all add: last_map)
  moreover have "\<not> mask 39 < (of_nat (count_of s + length ts) :: u64)"
    using assms(4) by (rule mask39_of_nat)
  ultimately show ?thesis
    using batch_step [where incBy = incrementBy, OF False assms(3,2), of s, OF g'] by simp
qed

lemma batch_eq_each:
  assumes "env_ok" "redis_objectTypeQuery h sw = ot_switch h"
    and "list_all (alloc_type h) ts" "count_of s + length ts < 2 ^ 39"
  shows "fst (vid_allocateNewObjectIds h incrementBy sw ts s) =
    fst (vid_allocate_each h increment sw ts s)"
  using alloc_batch_eq [OF assms] alloc_each_eq [OF assms] by simp

end


section \<open>Ids are never issued twice\<close>

text \<open>
  Any sequence of calls on one manager, failing calls included. What is recorded are the ids of
  non-switch objects it hands out (a switch id is determined by its configuration, and is handed
  out again when the switch is created again).
\<close>

datatype vid_call =
    Alloc_One object_type oid
  | Alloc_Batch oid "object_type list"
  | Alloc_Switch string
  | Release_Id oid
  | Clear_Switches

fun vid_requested :: "vid_call \<Rightarrow> nat" where
  "vid_requested (Alloc_One t sw) = 1"
| "vid_requested (Alloc_Batch sw ts) = length ts"
| "vid_requested _ = 0"

definition issued_one :: "fault + oid \<Rightarrow> oid list" where
  "issued_one r = (case r of Inl e \<Rightarrow> [] | Inr oid \<Rightarrow> [oid])"

definition issued_all :: "fault + oid list \<Rightarrow> oid list" where
  "issued_all r = (case r of Inl e \<Rightarrow> [] | Inr oids \<Rightarrow> oids)"

fun vid_call_step ::
  "sai_headers \<Rightarrow> ('g, u64) op \<Rightarrow> (u64 \<Rightarrow> ('g, u64 list) op) \<Rightarrow> vid_call \<Rightarrow>
     'g vid_manager \<Rightarrow> oid list \<times> 'g vid_manager" where
  "vid_call_step h inc incBy (Alloc_One t sw) s = apfst issued_one (vid_allocateNewObjectId h inc t sw s)"
| "vid_call_step h inc incBy (Alloc_Batch sw ts) s =
     apfst issued_all (vid_allocateNewObjectIds h incBy sw ts s)"
| "vid_call_step h inc incBy (Alloc_Switch hw) s = ([], snd (vid_allocateNewSwitchObjectId h hw s))"
| "vid_call_step h inc incBy (Release_Id oid) s = ([], snd (vid_releaseObjectId h oid s))"
| "vid_call_step h inc incBy Clear_Switches s = ([], snd (vid_clear s))"

fun vid_run ::
  "sai_headers \<Rightarrow> ('g, u64) op \<Rightarrow> (u64 \<Rightarrow> ('g, u64 list) op) \<Rightarrow> vid_call list \<Rightarrow>
     'g vid_manager \<Rightarrow> oid list" where
  "vid_run h inc incBy [] s = []"
| "vid_run h inc incBy (c # cs) s =
     (case vid_call_step h inc incBy c s of (oids, s') \<Rightarrow> oids @ vid_run h inc incBy cs s')"

lemma construct_all_index:
  assumes "headers_ok h" "si < 256" "c < 256"
  shows "\<forall>(t, i) \<in> set ps. i < 2 ^ 39 \<Longrightarrow> vid_construct_all h si c ps = Inr oids \<Longrightarrow>
    map REDIS_GET_OBJECT_INDEX oids = map snd ps"
proof (induction ps arbitrary: oids)
  case (Cons p ps)
  obtain t i where p: "p = (t, i)" by (cases p)
  from Cons.prems p obtain oid oids' where
    o: "redis_constructObjectId h t si i c = Inr oid" "vid_construct_all h si c ps = Inr oids'"
      "oids = oid # oids'"
    by (auto simp: bindE_Inr)
  have "REDIS_GET_OBJECT_INDEX oid = i"
    using redis_oid.construct_fieldsE(4) [OF assms(1) redis_oid.construct_valid [OF o(1)] assms(2,3) _ o(1)]
      Cons.prems(1) p by auto
  with Cons o p show ?case by auto
qed simp

lemma batch_all_below:
  assumes "\<not> mask 39 < last (map (of_nat :: nat \<Rightarrow> u64) [a + 1 ..< a + 1 + n])" "a + n < 2 ^ 63"
    and "i \<in> set (map (of_nat :: nat \<Rightarrow> u64) [a + 1 ..< a + 1 + n])"
  shows "i < 2 ^ 39"
proof -
  from assms(3) obtain k where k: "i = of_nat k" "a + 1 \<le> k" "k \<le> a + n"
    by (simp only: set_map set_upt) force
  then have "last (map (of_nat :: nat \<Rightarrow> u64) [a + 1 ..< a + 1 + n]) = of_nat (a + n)"
    by (cases n) (simp_all add: last_map)
  with assms(1) have "(of_nat (a + n) :: u64) < 2 ^ 39" by (simp only: mask39_less)
  then have "unat (of_nat (a + n) :: u64) < 2 ^ 39"
    by (subst (asm) word_less_nat_alt) (simp only: unat_p2)
  moreover have "unat (of_nat (a + n) :: u64) = a + n" "unat (of_nat k :: u64) = k"
    using assms(2) k by (auto intro!: unat_of_nat64 simp del: of_nat_add)
  ultimately have "unat i < 2 ^ 39" using k by simp
  then show ?thesis by (subst word_less_nat_alt) (simp only: unat_p2)
qed

lemma step_rest:
  assumes "case c of Alloc_One t sw \<Rightarrow> False | Alloc_Batch sw ts \<Rightarrow> False | _ \<Rightarrow> True"
  shows "fst (vid_call_step h inc incBy c s) = []"
    "vm_oidIndexGenerator (snd (vid_call_step h inc incBy c s)) = vm_oidIndexGenerator s"
    "vm_globalContext (snd (vid_call_step h inc incBy c s)) = vm_globalContext s"
  using assms
  by (cases c; simp add: vid_allocateNewSwitchObjectId_def vid_releaseObjectId_def
      vid_releaseSwitchIndex_def vid_clear_def op_defs Let_def split: option.splits)+

context oid_index_generator
begin

text \<open>The ids of one call have the index values its generator moved over.\<close>

definition issued_between :: "oid list \<Rightarrow> nat \<Rightarrow> nat \<Rightarrow> bool" where
  "issued_between oids a b \<longleftrightarrow> distinct oids \<and>
     (\<forall>oid \<in> set oids. a < unat (REDIS_GET_OBJECT_INDEX oid) \<and> unat (REDIS_GET_OBJECT_INDEX oid) \<le> b)"

lemma issued_between_Nil: "issued_between [] a b"
  by (simp add: issued_between_def)

lemma issued_between_append:
  "issued_between xs a b \<Longrightarrow> issued_between ys b c \<Longrightarrow> a \<le> b \<Longrightarrow> b \<le> c \<Longrightarrow> issued_between (xs @ ys) a c"
  by (fastforce simp: issued_between_def)

lemma issued_one_between:
  assumes "env_ok" "headers_ok h" "vm_globalContext s < 256" "count_of s + 1 < 2 ^ 63"
    and "vid_allocateNewObjectId h increment t sw s = (r, s')"
  shows "issued_between (issued_one r) (count_of s) (count_of s')"
    "count_of s \<le> count_of s'" "count_of s' \<le> count_of s + 1" "vm_globalContext s' = vm_globalContext s"
proof -
  let ?goal = "issued_between (issued_one r) (count_of s) (count_of s') \<and>
     count_of s \<le> count_of s' \<and> count_of s' \<le> count_of s + 1 \<and> vm_globalContext s' = vm_globalContext s"
  have ?goal
  proof (cases "alloc_type h t \<and> redis_objectTypeQuery h sw = ot_switch h")
    case False
    with alloc_throws [of h t sw increment s] assms(5) show ?thesis
      by (auto simp: issued_one_def issued_between_Nil)
  next
    case True
    from increment_next [OF assms(1,4)] obtain g' where
      g': "increment (vm_oidIndexGenerator s) = (Inr (of_nat (count_of s + 1)), g')"
        "counter g' = count_of s + 1" by blast
    let ?i = "of_nat (count_of s + 1) :: u64"
    have u: "unat ?i = count_of s + 1"
      using assms(4) by (intro unat_of_nat64) simp
    from alloc_step [where inc = increment, OF conjunct1 [OF True] conjunct2 [OF True], of s, OF g'(1)]
      assms(5)
    have rs: "r = (if mask 39 < ?i then Inl (Throw ''no more object indexes available'')
        else vid_of h sw (vm_globalContext s) t ?i)" "s' = s\<lparr>vm_oidIndexGenerator := g'\<rparr>"
      by (simp_all only: prod.inject)
    have "REDIS_GET_OBJECT_INDEX oid = ?i" if "r = Inr oid" for oid
    proof -
      from that rs(1) have "\<not> mask 39 < ?i" "vid_of h sw (vm_globalContext s) t ?i = Inr oid"
        by (auto split: if_splits simp del: of_nat_add)
      with redis_oid.construct_fieldsE(4) [OF assms(2) _ switch_index_byte assms(3)] True
      show ?thesis unfolding mask39_less alloc_type_def by blast
    qed
    with u rs(2) g'(2) show ?thesis
      by (auto simp: issued_one_def issued_between_def simp del: of_nat_add split: sum.splits)
  qed
  then show "issued_between (issued_one r) (count_of s) (count_of s')"
    "count_of s \<le> count_of s'" "count_of s' \<le> count_of s + 1" "vm_globalContext s' = vm_globalContext s"
    by auto
qed

lemma issued_all_between:
  assumes "env_ok" "headers_ok h" "vm_globalContext s < 256" "count_of s + length ts < 2 ^ 63"
    and "vid_allocateNewObjectIds h incrementBy sw ts s = (r, s')"
  shows "issued_between (issued_all r) (count_of s) (count_of s') \<and>
    count_of s \<le> count_of s' \<and> count_of s' \<le> count_of s + length ts \<and>
    vm_globalContext s' = vm_globalContext s"
proof (cases "ts \<noteq> [] \<and> list_all (alloc_type h) ts \<and> redis_objectTypeQuery h sw = ot_switch h")
  case False
  then show ?thesis
  proof (cases "ts = []")
    case True
    with assms(5) show ?thesis
      by (auto simp: vid_allocateNewObjectIds_def ret_def issued_all_def issued_between_Nil)
  next
    case ne: False
    with False batch_throws [of ts h sw incrementBy s] assms(5) show ?thesis
      by (auto simp: issued_all_def issued_between_Nil)
  qed
next
  case True
  let ?n = "of_nat (length ts) :: u64"
  have un: "unat ?n = length ts" using assms(4) by (intro unat_of_nat64) simp
  with assms(4) have b: "count_of s + unat ?n < 2 ^ 63" by simp
  define "is" where "is = map (of_nat :: nat \<Rightarrow> u64) [count_of s + 1 ..< count_of s + 1 + length ts]"
  from incrementBy_next [OF assms(1) b] obtain g' where
    g': "incrementBy ?n (vm_oidIndexGenerator s) = (Inr is, g')" by (auto simp: un is_def)
  note f = batch_fresh [OF assms(1) b g', unfolded un]
  from batch_step [where incBy = incrementBy, OF conjunct1 [OF True], of h sw s, OF _ _ g'] True assms(5)
  have rs: "r = (if mask 39 < last is then Inl (Throw ''no more object indexes available'')
      else vid_construct_all h (ucast (REDIS_GET_SWITCH_INDEX sw)) (vm_globalContext s) (zip ts is))"
    "s' = s\<lparr>vm_oidIndexGenerator := g'\<rparr>"
    by simp_all
  have idx: "map REDIS_GET_OBJECT_INDEX oids = is" if r: "r = Inr oids" for oids
  proof -
    from r rs(1) have l: "\<not> mask 39 < last is"
      and c: "vid_construct_all h (ucast (REDIS_GET_SWITCH_INDEX sw)) (vm_globalContext s) (zip ts is) = Inr oids"
      by (auto split: if_splits)
    have "i < 2 ^ 39" if "i \<in> set is" for i
      using batch_all_below [OF l [unfolded is_def]] that assms(4) unfolding is_def by simp
    then have "\<forall>(t, i) \<in> set (zip ts is). i < 2 ^ 39" by (auto dest: set_zip_rightD)
    from construct_all_index [OF assms(2) switch_index_byte assms(3) this c] f(1)
    show ?thesis by simp
  qed
  have "issued_between (issued_all r) (count_of s) (count_of s')"
  proof (cases r)
    case (Inl e)
    then show ?thesis by (simp add: issued_all_def issued_between_Nil)
  next
    case (Inr oids)
    from idx [OF Inr] f(2,3) rs(2) show ?thesis
      unfolding issued_between_def
      by (auto simp: issued_all_def Inr distinct_map)
  qed
  with rs(2) f(4) show ?thesis by simp
qed

lemma call_step_between:
  assumes "env_ok" "headers_ok h" "vm_globalContext s < 256" "count_of s + vid_requested c < 2 ^ 63"
    and "vid_call_step h increment incrementBy c s = (oids, s')"
  shows "issued_between oids (count_of s) (count_of s') \<and> count_of s \<le> count_of s' \<and>
    count_of s' \<le> count_of s + vid_requested c \<and> vm_globalContext s' = vm_globalContext s"
proof (cases c)
  case (Alloc_One t sw)
  obtain r s'' where a: "vid_allocateNewObjectId h increment t sw s = (r, s'')" by fastforce
  from Alloc_One assms(4) have "count_of s + 1 < 2 ^ 63" by simp
  from issued_one_between [OF assms(1-3) this a] Alloc_One a assms(5) show ?thesis by auto
next
  case (Alloc_Batch sw ts)
  obtain r s'' where a: "vid_allocateNewObjectIds h incrementBy sw ts s = (r, s'')" by fastforce
  from Alloc_Batch assms(4) have "count_of s + length ts < 2 ^ 63" by simp
  from issued_all_between [OF assms(1-3) this a] Alloc_Batch a assms(5) show ?thesis by auto
qed (use step_rest [of c h increment incrementBy s] assms(5) in \<open>auto simp: issued_between_Nil\<close>)

lemma run_issued_between:
  assumes "env_ok" "headers_ok h"
  shows "vm_globalContext s < 256 \<Longrightarrow> count_of s + sum_list (map vid_requested cs) < 2 ^ 63 \<Longrightarrow>
    issued_between (vid_run h increment incrementBy cs s) (count_of s)
      (count_of s + sum_list (map vid_requested cs))"
proof (induction cs arbitrary: s)
  case Nil
  show ?case by (simp add: issued_between_Nil)
next
  case (Cons c cs)
  obtain oids s' where st: "vid_call_step h increment incrementBy c s = (oids, s')" by fastforce
  from Cons.prems(2) have b: "count_of s + vid_requested c < 2 ^ 63" by simp
  note f = call_step_between [OF assms Cons.prems(1) b st]
  have "issued_between (vid_run h increment incrementBy cs s') (count_of s')
      (count_of s' + sum_list (map vid_requested cs))"
    by (rule Cons.IH) (use f Cons.prems in auto)
  with f show ?case
    by (auto simp: st issued_between_def) (meson le_less_trans not_less le_trans add_le_mono1)+
qed

end

lemma redis_update_fields:
  assumes "headers_ok h" and "redis_objectTypeQuery h oid \<noteq> 0" and "i < 2 ^ 39"
  shows "\<exists>oid'. redis_updateObjectIndex h oid i = Inr oid' \<and> REDIS_GET_OBJECT_INDEX oid' = i \<and>
    redis_objectTypeQuery h oid' = redis_objectTypeQuery h oid \<and>
    REDIS_GET_SWITCH_INDEX oid' = REDIS_GET_SWITCH_INDEX oid \<and>
    REDIS_GET_GLOBAL_CONTEXT oid' = REDIS_GET_GLOBAL_CONTEXT oid"
proof -
  let ?t = "redis_objectTypeQuery h oid"
  let ?s = "ucast (REDIS_GET_SWITCH_INDEX oid) :: u32"
  let ?c = "ucast (REDIS_GET_GLOBAL_CONTEXT oid) :: u32"
  have v: "object_type_valid h ?t" and nz: "oid \<noteq> 0"
    using assms(2) by (auto simp: redis_objectTypeQuery_def Let_def split: if_splits)
  have c: "?c < 256"
    using redis_field_bounds(2) [of oid]
    by (simp add: word_less_nat_alt unsigned_ucast_eq take_bit_nat_eq_self)
  have r: "ucast ?s = REDIS_GET_SWITCH_INDEX oid" "ucast ?c = REDIS_GET_GLOBAL_CONTEXT oid"
    by (rule bit_word_eqI; auto simp: bit_simps REDIS_GET_SWITCH_INDEX_def REDIS_GET_GLOBAL_CONTEXT_def)+
  from redis_construct_fields [OF assms(1) v switch_index_byte [of oid] c assms(3)] obtain oid'
    where o: "redis_constructObjectId h ?t ?s i ?c = Inr oid'"
      "REDIS_GET_OBJECT_INDEX oid' = i" "REDIS_GET_SWITCH_INDEX oid' = ucast ?s"
      "REDIS_GET_GLOBAL_CONTEXT oid' = ucast ?c" by blast
  have "redis_updateObjectIndex h oid i = Inr oid'"
    using o(1) nz assms(2) mask39_less [of i] assms(3) by (simp add: redis_updateObjectIndex_def Let_def)
  moreover have "redis_objectTypeQuery h oid' = ?t"
    using redis_oid.type_of_construct [OF assms(1) switch_index_byte c assms(3) o(1)] .
  ultimately show ?thesis using o r by simp
qed

section \<open>The properties\<close>

text \<open>A database of counters, and the manager of a context over it, to evaluate examples.\<close>

definition demo_incrby :: "(string \<Rightarrow> u64) incrby" where
  "demo_incrby name n db = (db name + n, db(name := db name + n))"

definition demo_vids :: "(string \<Rightarrow> u64) redis_gen vid_manager" where
  "demo_vids = \<lparr>vm_globalContext = 2,
     vm_container = \<lparr>m_indexToConfig = [(7, \<lparr>m_switchIndex = 7, m_hardwareInfo = ''hw''\<rparr>)],
                     m_hwinfoToConfig = [(''hw'', \<lparr>m_switchIndex = 7, m_hardwareInfo = ''hw''\<rparr>)]\<rparr>,
     vm_oidIndexGenerator = \<lparr>m_dbConnector = (\<lambda>_. 4), m_vidCounterName = ''VIDCOUNTER''\<rparr>,
     vm_switchIndexes = {}\<rparr>"

lemma demo_incrby_ok: "incrby_ok (\<lambda>db. db) demo_incrby"
  by (simp add: incrby_ok_def demo_incrby_def)

text \<open>
  C1: uniqueness of virtual ids. Whatever sequence of single allocations, batches, switch
  allocations, releases and clears runs on one manager, and whichever of them fail, no id of a
  non-switch object is handed out twice, as long as the shared redis counter stays below
  \<open>2 ^ 63\<close>; once the 39 bits of the index are used up the calls throw instead of wrapping.
\<close>

theorem vid_ids_unique:
  assumes "incrby_ok stored incrby" and "headers_ok h" and "vm_globalContext s < 256"
    and "unat (stored (m_dbConnector (vm_oidIndexGenerator s)) (m_vidCounterName (vm_oidIndexGenerator s)))
           + sum_list (map vid_requested cs) < 2 ^ 63"
  shows "distinct (vid_run h (redis_increment incrby) (redis_incrementBy incrby) cs s)"
  using redis_gen.run_issued_between [OF assms] by (simp add: redis_gen.issued_between_def)

theorem vid_ids_unique_witness:
  "let ids = vid_run demo_headers (redis_increment demo_incrby) (redis_incrementBy demo_incrby)
      [Alloc_One 3 0x0721020000000007, Alloc_Batch 0x0721020000000007 [1, 0x20000000],
       Alloc_One 9 0x0721020000000007, Alloc_One 3 0x0721020000000007] demo_vids
   in distinct ids \<and> length ids = 4"
proof -
  have "length (vid_run demo_headers (redis_increment demo_incrby) (redis_incrementBy demo_incrby)
     [Alloc_One 3 0x0721020000000007, Alloc_Batch 0x0721020000000007 [1, 0x20000000],
      Alloc_One 9 0x0721020000000007, Alloc_One 3 0x0721020000000007] demo_vids) = 4"
    by code_simp
  then show ?thesis
    unfolding Let_def
    by (intro conjI vid_ids_unique [OF demo_incrby_ok demo_headers_ok]) (simp_all add: demo_vids_def)
qed

text \<open>
  C2: an allocated id says what it is. It is not null; the type read from its bits is the type
  asked for, its global context is the manager's, and its switch is the switch it was allocated
  on, given that this is a switch id of the same context.
\<close>

theorem vid_allocated_decodes:
  assumes "headers_ok h" and "vm_globalContext s < 256" and "si < 256"
    and "redis_constructObjectId h (ot_switch h) si (ucast si) (vm_globalContext s) = Inr sw"
    and "vid_allocateNewObjectId h inc t sw s = (Inr oid, s')"
  shows "oid \<noteq> 0 \<and> redis_objectTypeQuery h oid = t \<and>
    REDIS_GET_GLOBAL_CONTEXT oid = ucast (vm_globalContext s) \<and> redis_switchIdQuery h oid = Inr sw"
proof -
  have t: "alloc_type h t" using alloc_throws [of h t sw inc s] assms(5) by auto
  have b: "(ucast si :: u64) < 2 ^ 39" by (rule redis_oid.less_index [OF assms(3)])
  have si: "ucast (REDIS_GET_SWITCH_INDEX sw) = si"
    using redis_oid.construct_fieldsE(2) [OF assms(1) headers_okD(5) [OF assms(1)] assms(3,2) b assms(4)]
    by simp
  from assms(5) t obtain i where "\<not> mask 39 < i"
    and k: "redis_constructObjectId h t si i (vm_globalContext s) = Inr oid"
    by (auto simp: vid_allocateNewObjectId_def alloc_type_def op_defs si
        split: if_splits prod.splits sum.splits)
  then have i: "i < 2 ^ 39" by (simp only: mask39_less)
  note i = i k
  note v = redis_oid.construct_valid [OF i(2)]
  show ?thesis
    using redis_oid.construct_fieldsE [OF assms(1) v assms(3,2) i]
      redis_oid.type_of_construct [OF assms(1,3,2) i]
      redis_oid.switch_of_construct [OF assms(1,3,2) i] t assms(4)
    by (simp add: alloc_type_def)
qed

theorem vid_allocated_decodes_witness:
  "let r = vid_allocateNewObjectId demo_headers (redis_increment demo_incrby) 0x20000000
             0x0721020000000007 demo_vids
   in \<exists>oid. fst r = Inr oid \<and> oid = 0x0700028000000005 \<and>
        redis_objectTypeQuery demo_headers oid = 0x20000000 \<and>
        redis_switchIdQuery demo_headers oid = Inr 0x0721020000000007"
proof -
  have c: "redis_constructObjectId demo_headers (ot_switch demo_headers) 7 (ucast (7 :: u32))
      (vm_globalContext demo_vids) = Inr 0x0721020000000007" by code_simp
  have b: "vm_globalContext demo_vids < 256" "(7 :: u32) < 256" by (simp_all add: demo_vids_def)
  have "fst (vid_allocateNewObjectId demo_headers (redis_increment demo_incrby) 0x20000000
      0x0721020000000007 demo_vids) = Inr 0x0700028000000005" by code_simp
  then obtain s' where r: "vid_allocateNewObjectId demo_headers (redis_increment demo_incrby)
      0x20000000 0x0721020000000007 demo_vids = (Inr 0x0700028000000005, s')"
    by (metis prod.collapse)
  from vid_allocated_decodes [OF demo_headers_ok b c r] r show ?thesis by simp
qed

text \<open>
  A batch is the sequence of single allocations. \<open>allocateNewObjectIds\<close>, which takes all its
  indexes from redis in one command, returns exactly the ids that allocating the objects one after
  another would have returned, on a valid switch and while indexes last.
\<close>

theorem vid_batch_equals_singles:
  assumes "incrby_ok stored incrby" and "redis_objectTypeQuery h sw = ot_switch h"
    and "list_all (alloc_type h) ts"
    and "unat (stored (m_dbConnector (vm_oidIndexGenerator s)) (m_vidCounterName (vm_oidIndexGenerator s)))
           + length ts < 2 ^ 39"
  shows "fst (vid_allocateNewObjectIds h (redis_incrementBy incrby) sw ts s) =
    fst (vid_allocate_each h (redis_increment incrby) sw ts s)"
  using assms by (rule redis_gen.batch_eq_each)

theorem vid_batch_equals_singles_witness:
  "fst (vid_allocateNewObjectIds demo_headers (redis_incrementBy demo_incrby) 0x0721020000000007
      [1, 0x20000000, 3] demo_vids) =
   fst (vid_allocate_each demo_headers (redis_increment demo_incrby) 0x0721020000000007
      [1, 0x20000000, 3] demo_vids)"
proof (rule vid_batch_equals_singles [OF demo_incrby_ok])
  show "redis_objectTypeQuery demo_headers 0x0721020000000007 = ot_switch demo_headers" by code_simp
  show "list_all (alloc_type demo_headers) [1, 0x20000000, 3]"
    by (simp add: alloc_type_def demo_headers_def)
qed (simp add: demo_vids_def)

text \<open>
  replacing the object index of an id, as \<open>syncd\<close> does for the ids it keeps across warm boot.
  For any id with a valid type, null excluded, and any index of at most 39 bits the call succeeds;
  the result has the new index and keeps the type, the switch and the global context.
\<close>

theorem vid_update_index:
  assumes "headers_ok h" and "redis_objectTypeQuery h oid \<noteq> 0" and "i < 2 ^ 39"
  shows "\<exists>oid'. vid_updateObjectIndex h oid i = Inr oid' \<and> REDIS_GET_OBJECT_INDEX oid' = i \<and>
    redis_objectTypeQuery h oid' = redis_objectTypeQuery h oid \<and>
    REDIS_GET_SWITCH_INDEX oid' = REDIS_GET_SWITCH_INDEX oid \<and>
    REDIS_GET_GLOBAL_CONTEXT oid' = REDIS_GET_GLOBAL_CONTEXT oid"
  using redis_update_fields [OF assms] by (simp add: vid_updateObjectIndex_def)

theorem vid_update_index_witness:
  "\<exists>oid'. vid_updateObjectIndex demo_headers 0x0700028000000005 0x7000000000 = Inr oid' \<and>
     REDIS_GET_OBJECT_INDEX oid' = 0x7000000000"
proof -
  have "redis_objectTypeQuery demo_headers 0x0700028000000005 \<noteq> 0" by code_simp
  moreover have "(0x7000000000 :: u64) < 2 ^ 39" by simp
  ultimately show ?thesis using vid_update_index [OF demo_headers_ok] by blast
qed

text \<open>
  reading the object index back loses its high bits. \<open>getObjectIndex\<close> has a 64-bit result but
  casts the 39-bit index to 32 bits on the way: what it returns for an id updated to index \<open>i\<close> is
  \<open>i\<close> modulo \<open>2 ^ 32\<close>, so it inverts \<open>updateObjectIndex\<close> only below that limit.
\<close>

theorem vid_get_index_truncates:
  assumes "headers_ok h" and "redis_objectTypeQuery h oid \<noteq> 0" and "i < 2 ^ 39"
  shows "\<exists>oid'. vid_updateObjectIndex h oid i = Inr oid' \<and> vid_getObjectIndex h oid' = Inr (i AND mask 32)"
proof -
  from redis_update_fields [OF assms] obtain oid' where
    o: "redis_updateObjectIndex h oid i = Inr oid'" "REDIS_GET_OBJECT_INDEX oid' = i"
      "redis_objectTypeQuery h oid' = redis_objectTypeQuery h oid" by blast
  from redis_oid.switch_query_total [OF assms(1), of oid'] obtain sw where
    "redis_switchIdQuery h oid' = Inr sw" "sw \<noteq> 0" using o(3) assms(2) by metis
  moreover have "redis_getObjectIndex oid' = i AND mask 32"
    unfolding redis_getObjectIndex_def o(2) by (rule bit_word_eqI) (auto simp: bit_simps)
  ultimately show ?thesis
    using o(1) by (simp add: vid_updateObjectIndex_def vid_getObjectIndex_def)
qed

theorem vid_get_index_truncates_witness:
  "\<exists>oid'. vid_updateObjectIndex demo_headers 0x0700028000000005 0x7000000009 = Inr oid' \<and>
     vid_getObjectIndex demo_headers oid' = Inr 9"
proof -
  have "redis_objectTypeQuery demo_headers 0x0700028000000005 \<noteq> 0" by code_simp
  moreover have "(0x7000000009 :: u64) < 2 ^ 39" by simp
  moreover have "(0x7000000009 AND mask 32 :: u64) = 9" by (simp add: mask_eq_exp_minus_1)
  ultimately show ?thesis using vid_get_index_truncates [OF demo_headers_ok] by metis
qed

end
