(* ===== verification/Real_Oid.thy ===== *)
theory Real_Oid
  imports Oid_Layout Switch_Config
begin

text \<open>
  \<open>vslib/RealObjectIdManager.cpp\<close>: the real object ids (RIDs) the virtual switch hands out. One
  counter per object type, and after a warm boot the counters are moved past every id read back
  from the saved state.
\<close>

section \<open>The layout\<close>

text \<open>
  Bits 63..56 zero, 55..48 global context, 47..40 switch index, 39..32 object type, 31 the
  extensions flag, 30..0 object index: the \<open>SAI_VS_GET_*\<close> macros.
\<close>

definition VS_GET_OBJECT_INDEX :: "oid \<Rightarrow> u64" where
  "VS_GET_OBJECT_INDEX oid = oid AND mask 31"

definition VS_GET_EXTENSIONS_FLAG :: "oid \<Rightarrow> bool" where
  "VS_GET_EXTENSIONS_FLAG oid = (drop_bit 31 oid AND mask 1 \<noteq> 0)"

definition VS_GET_OBJECT_TYPE :: "oid \<Rightarrow> u64" where
  "VS_GET_OBJECT_TYPE oid = drop_bit 32 oid AND mask 8"

definition VS_GET_SWITCH_INDEX :: "oid \<Rightarrow> u64" where
  "VS_GET_SWITCH_INDEX oid = drop_bit 40 oid AND mask 8"

definition VS_GET_GLOBAL_CONTEXT :: "oid \<Rightarrow> u64" where
  "VS_GET_GLOBAL_CONTEXT oid = drop_bit 48 oid AND mask 8"

definition vs_constructObjectId ::
  "sai_headers \<Rightarrow> object_type \<Rightarrow> u32 \<Rightarrow> u64 \<Rightarrow> u32 \<Rightarrow> fault + oid" where
  "vs_constructObjectId h objectType switchIndex objectIndex globalContext =
     (if \<not> object_type_valid h objectType then Inl (Throw ''FATAL: invalid object type'')
      else
        let extensionsFlag = ext_range_start h \<le> objectType;
            objectType' = (if extensionsFlag then objectType - ext_range_start h else objectType)
        in Inr (push_bit 48 (ucast globalContext) OR push_bit 40 (ucast switchIndex) OR
                push_bit 32 (ucast objectType') OR push_bit 31 (of_bool extensionsFlag) OR
                objectIndex))"

definition vs_objectTypeQuery :: "sai_headers \<Rightarrow> oid \<Rightarrow> object_type" where
  "vs_objectTypeQuery h objectId =
     (if objectId = SAI_NULL_OBJECT_ID then SAI_OBJECT_TYPE_NULL
      else
        let objectType =
              (if VS_GET_EXTENSIONS_FLAG objectId
               then ucast (VS_GET_OBJECT_TYPE objectId) + ext_range_start h
               else ucast (VS_GET_OBJECT_TYPE objectId))
        in if \<not> object_type_valid h objectType then SAI_OBJECT_TYPE_NULL else objectType)"

definition vs_switchIdQuery :: "sai_headers \<Rightarrow> oid \<Rightarrow> fault + oid" where
  "vs_switchIdQuery h objectId =
     (if objectId = SAI_NULL_OBJECT_ID then Inr SAI_NULL_OBJECT_ID
      else
        let objectType = vs_objectTypeQuery h objectId
        in if objectType = SAI_OBJECT_TYPE_NULL then Inr SAI_NULL_OBJECT_ID
           else if objectType = ot_switch h then Inr objectId
           else
             let switchIndex = ucast (VS_GET_SWITCH_INDEX objectId) :: u32;
                 globalContext = ucast (VS_GET_GLOBAL_CONTEXT objectId) :: u32
             in vs_constructObjectId h (ot_switch h) switchIndex (ucast switchIndex) globalContext)"

definition vs_saiObjectTypeQuery :: "sai_headers \<Rightarrow> oid \<Rightarrow> object_type" where
  "vs_saiObjectTypeQuery h objectId =
     (if objectId = SAI_NULL_OBJECT_ID then SAI_OBJECT_TYPE_NULL
      else
        let objectType =
              (if VS_GET_EXTENSIONS_FLAG objectId
               then ucast (VS_GET_OBJECT_TYPE objectId) + ext_range_start h
               else ucast (VS_GET_OBJECT_TYPE objectId))
        in if object_type_valid h objectType = False then SAI_OBJECT_TYPE_NULL else objectType)"

definition vs_getSwitchIndex :: "sai_headers \<Rightarrow> oid \<Rightarrow> fault + u32" where
  "vs_getSwitchIndex h objectId =
     bindE (vs_switchIdQuery h objectId) (\<lambda>switchId. Inr (ucast (VS_GET_SWITCH_INDEX switchId)))"

section \<open>The manager\<close>

record rid_manager =
  rm_globalContext :: u32
  rm_container :: switch_config_container
  rm_switchIndexes :: "u32 set"
  rm_indexer :: "(object_type, u64) alist"

text \<open>\<open>m_indexer[objectType]\<close>: a missing entry reads as zero.\<close>

definition rid_next :: "rid_manager \<Rightarrow> object_type \<Rightarrow> u64" where
  "rid_next s objectType = (case map_of (rm_indexer s) objectType of None \<Rightarrow> 0 | Some i \<Rightarrow> i)"

text \<open>A null container is refused too; \<open>None\<close> is the null pointer.\<close>

definition rid_manager_new :: "u32 \<Rightarrow> switch_config_container option \<Rightarrow> fault + rid_manager" where
  "rid_manager_new globalContext container =
     (if 255 < globalContext then Inl (Throw ''specified globalContext > maximum global context'')
      else case container of
        None \<Rightarrow> Inl (Throw ''switch config container cannot be nullptr'')
      | Some c \<Rightarrow> Inr \<lparr>rm_globalContext = globalContext, rm_container = c,
                       rm_switchIndexes = {}, rm_indexer = []\<rparr>)"

text \<open>The member query of the switch puts the manager's own context into the answer.\<close>

definition vs_saiSwitchIdQuery :: "sai_headers \<Rightarrow> rid_manager \<Rightarrow> oid \<Rightarrow> fault + oid" where
  "vs_saiSwitchIdQuery h s objectId =
     (if objectId = SAI_NULL_OBJECT_ID then Inr SAI_NULL_OBJECT_ID
      else
        let objectType = vs_saiObjectTypeQuery h objectId
        in if objectType = SAI_OBJECT_TYPE_NULL then Inl (Throw ''invalid object type of oid'')
           else if objectType = ot_switch h then Inr objectId
           else
             let switchIndex = ucast (VS_GET_SWITCH_INDEX objectId) :: u32
             in vs_constructObjectId h (ot_switch h) switchIndex (ucast switchIndex)
                  (rm_globalContext s))"

definition rid_clear :: "(rid_manager, unit) op" where
  "rid_clear = modify (\<lambda>s. s\<lparr>rm_switchIndexes := {}, rm_indexer := []\<rparr>)"

definition rid_releaseSwitchIndex :: "u32 \<Rightarrow> (rid_manager, unit) op" where
  "rid_releaseSwitchIndex index = (\<lambda>s.
     if index \<notin> rm_switchIndexes s then
       (Inl (Throw ''switch index is invalid! programming error''), s)
     else (Inr (), s\<lparr>rm_switchIndexes := rm_switchIndexes s - {index}\<rparr>))"

definition rid_allocateNewObjectId :: "sai_headers \<Rightarrow> object_type \<Rightarrow> oid \<Rightarrow> (rid_manager, oid) op" where
  "rid_allocateNewObjectId h objectType switchId = (\<lambda>s.
     if \<not> object_type_valid h objectType then (Inl (Throw ''invalid objct type''), s)
     else if objectType = ot_switch h then
       (Inl (Throw ''this function can't be used to allocate switch id''), s)
     else if vs_saiObjectTypeQuery h switchId \<noteq> ot_switch h then
       (Inl (Throw ''object type of switch should be SWITCH''), s)
     else
       let switchIndex = ucast (VS_GET_SWITCH_INDEX switchId) :: u32;
           objectIndex = rid_next s objectType;
           s' = s\<lparr>rm_indexer := AList.update objectType (objectIndex + 1) (rm_indexer s)\<rparr>
       in if mask 31 < objectIndex then (Inl (Throw ''no more object indexes available''), s')
          else (vs_constructObjectId h objectType switchIndex objectIndex (rm_globalContext s'), s'))"

definition rid_allocateNewSwitchObjectId :: "sai_headers \<Rightarrow> string \<Rightarrow> (rid_manager, oid) op" where
  "rid_allocateNewSwitchObjectId h hardwareInfo = (\<lambda>s.
     case getConfig_hwinfo hardwareInfo (rm_container s) of
       None \<Rightarrow> (Inr SAI_NULL_OBJECT_ID, s)
     | Some config \<Rightarrow>
         let switchIndex = m_switchIndex config
         in if 255 < switchIndex then (Inl (Throw ''switch index > max''), s)
            else
              let s' = s\<lparr>rm_switchIndexes := insert switchIndex (rm_switchIndexes s)\<rparr>
              in (vs_constructObjectId h (ot_switch h) switchIndex (ucast switchIndex)
                    (rm_globalContext s'), s'))"

definition rid_releaseObjectId :: "sai_headers \<Rightarrow> oid \<Rightarrow> (rid_manager, unit) op" where
  "rid_releaseObjectId h objectId =
     (if vs_saiObjectTypeQuery h objectId = ot_switch h
      then rid_releaseSwitchIndex (ucast (VS_GET_SWITCH_INDEX objectId))
      else ret ())"

definition rid_updateWarmBootObjectIndex :: "sai_headers \<Rightarrow> oid \<Rightarrow> (rid_manager, unit) op" where
  "rid_updateWarmBootObjectIndex h oid = (\<lambda>s.
     let objectType = vs_objectTypeQuery h oid
     in if objectType = SAI_OBJECT_TYPE_NULL then
          (Inl (Throw ''invalid object type on warm boot object''), s)
        else
          let s1 = (if objectType = ot_switch h
                    then s\<lparr>rm_switchIndexes :=
                             insert (ucast (VS_GET_SWITCH_INDEX oid)) (rm_switchIndexes s)\<rparr>
                    else s);
              index = VS_GET_OBJECT_INDEX oid
          in if rid_next s1 objectType \<le> index
             then (Inr (), s1\<lparr>rm_indexer := AList.update objectType (index + 1) (rm_indexer s1)\<rparr>)
             else (Inr (), s1))"

section \<open>The layout keeps its fields apart\<close>

lemma vs_fields:
  assumes "a < 2 ^ 8" "b < 2 ^ 8" "c < 2 ^ 8" "d < 2 ^ 1" "e < 2 ^ 31"
  defines "w \<equiv> push_bit 48 a OR push_bit 40 b OR push_bit 32 c OR push_bit 31 d OR e :: u64"
  shows "VS_GET_GLOBAL_CONTEXT w = a" "VS_GET_SWITCH_INDEX w = b"
    "VS_GET_OBJECT_TYPE w = c" "drop_bit 31 w AND mask 1 = d" "VS_GET_OBJECT_INDEX w = e"
  unfolding VS_GET_SWITCH_INDEX_def VS_GET_OBJECT_TYPE_def VS_GET_GLOBAL_CONTEXT_def
    VS_GET_OBJECT_INDEX_def w_def
  by (rule bit_word_eqI; auto simp: bit_simps dest: bit_less_pow2 [OF assms(1)]
      bit_less_pow2 [OF assms(2)] bit_less_pow2 [OF assms(3)] bit_less_pow2 [OF assms(4)]
      bit_less_pow2 [OF assms(5)])+

lemma vs_construct_fields:
  assumes "headers_ok h" "object_type_valid h t" "s < 256" "c < 256" "i < 2 ^ 31"
  shows "\<exists>oid. vs_constructObjectId h t s i c = Inr oid \<and> oid \<noteq> 0 \<and>
      VS_GET_SWITCH_INDEX oid = ucast s \<and> VS_GET_GLOBAL_CONTEXT oid = ucast c \<and>
      VS_GET_OBJECT_INDEX oid = i \<and> VS_GET_EXTENSIONS_FLAG oid = ext_flag h t \<and>
      VS_GET_OBJECT_TYPE oid = ucast (packed_type h t)"
proof -
  let ?p = "ucast (packed_type h t) :: u64"
  let ?oid = "push_bit 48 (ucast c) OR push_bit 40 (ucast s) OR push_bit 32 ?p OR
      push_bit 31 (of_bool (ext_flag h t)) OR i :: u64"
  have p: "?p < 2 ^ 8" by (rule ucast_byte, rule packed_type_less) (use assms in auto)
  have b: "(of_bool (ext_flag h t) :: u64) < 2 ^ 1" by simp
  note f = vs_fields [OF ucast_byte [OF assms(4)] ucast_byte [OF assms(3)] p b assms(5)]
  have c: "vs_constructObjectId h t s i c = Inr ?oid"
    using assms(2) by (simp add: vs_constructObjectId_def Let_def packed_type_def ext_flag_def)
  have "?oid \<noteq> 0"
  proof
    assume z: "?oid = 0"
    then have "(of_bool (ext_flag h t) :: u64) = 0" using f(4) by simp
    then have nf: "\<not> ext_flag h t" by simp
    from z have "?p = 0" using f(3) by (simp add: VS_GET_OBJECT_TYPE_def)
    then have "packed_type h t = 0" by (metis ucast_32_64_32 unsigned_0)
    with nf have "t = 0" by (simp add: packed_type_def)
    with assms(2) headers_okD(1) [OF assms(1)] show False by simp
  qed
  with c f show ?thesis by (auto simp: VS_GET_EXTENSIONS_FLAG_def)
qed

lemma vs_field_bounds: "VS_GET_SWITCH_INDEX oid < 256" "VS_GET_GLOBAL_CONTEXT oid < 256"
  using and_mask_less' [of 8 "drop_bit 40 oid"] and_mask_less' [of 8 "drop_bit 48 oid"]
  by (simp_all add: VS_GET_SWITCH_INDEX_def VS_GET_GLOBAL_CONTEXT_def)

interpretation vs_oid: oid_layout h 31 VS_GET_SWITCH_INDEX VS_GET_OBJECT_TYPE
  VS_GET_GLOBAL_CONTEXT VS_GET_OBJECT_INDEX VS_GET_EXTENSIONS_FLAG
  "vs_constructObjectId h" "vs_objectTypeQuery h" "vs_switchIdQuery h"
  for h
proof unfold_locales
  show "vs_objectTypeQuery h oid =
      (let t = (if VS_GET_EXTENSIONS_FLAG oid
                then ucast (VS_GET_OBJECT_TYPE oid) + ext_range_start h
                else ucast (VS_GET_OBJECT_TYPE oid))
       in if oid = 0 \<or> \<not> object_type_valid h t then 0 else t)" for oid
    by (simp add: vs_objectTypeQuery_def Let_def)
  show "vs_switchIdQuery h oid =
      (if oid = 0 \<or> vs_objectTypeQuery h oid = 0 then Inr 0
       else if vs_objectTypeQuery h oid = ot_switch h then Inr oid
       else vs_constructObjectId h (ot_switch h) (ucast (VS_GET_SWITCH_INDEX oid))
              (ucast (ucast (VS_GET_SWITCH_INDEX oid) :: u32))
              (ucast (VS_GET_GLOBAL_CONTEXT oid)))" for oid
    by (simp only: vs_switchIdQuery_def Let_def) auto
  show "\<exists>w. vs_constructObjectId h t s i c = Inl (Throw w)" if "\<not> object_type_valid h t" for t s i c
    using that by (simp add: vs_constructObjectId_def)
qed (rule vs_construct_fields vs_field_bounds | simp)+

section \<open>Fresh ids, also after a warm boot\<close>

text \<open>Requests of a type and a switch, one after another; the ids of those that succeed.\<close>

fun rid_run :: "sai_headers \<Rightarrow> (object_type \<times> oid) list \<Rightarrow> rid_manager \<Rightarrow> oid list" where
  "rid_run h [] s = []"
| "rid_run h ((t, sw) # rs) s =
     (case rid_allocateNewObjectId h t sw s of
        (Inl e, s') \<Rightarrow> rid_run h rs s'
      | (Inr oid, s') \<Rightarrow> oid # rid_run h rs s')"

text \<open>Ids in use are below the counters of their types, and the counters have room for \<open>n\<close> more.\<close>

definition rid_inv :: "sai_headers \<Rightarrow> oid set \<Rightarrow> nat \<Rightarrow> rid_manager \<Rightarrow> bool" where
  "rid_inv h K n s \<longleftrightarrow> rm_globalContext s < 256 \<and>
     (\<forall>oid \<in> K. VS_GET_OBJECT_INDEX oid < rid_next s (vs_objectTypeQuery h oid)) \<and>
     (\<forall>t. unat (rid_next s t) + n < 2 ^ 64)"

lemma rid_next_update [simp]:
  "rid_next (s\<lparr>rm_indexer := AList.update t i al\<rparr>) t' =
     (if t' = t then i else rid_next (s\<lparr>rm_indexer := al\<rparr>) t')"
  by (simp add: rid_next_def)

lemma rid_next_self [simp]: "rid_next (s\<lparr>rm_indexer := rm_indexer s\<rparr>) t = rid_next s t"
  by simp

lemma rid_inv_bump:
  assumes "rid_inv h K (Suc n) s"
  shows "rid_inv h K n (s\<lparr>rm_indexer := AList.update t (rid_next s t + 1) (rm_indexer s)\<rparr>)"
    "rid_next s t < rid_next s t + 1"
proof -
  have "unat (rid_next s t) + 1 < 2 ^ 64"
    using assms unfolding rid_inv_def by (metis add_Suc_right add_lessD1 Suc_eq_plus1 add_Suc)
  from unat_plus64_1 [OF this] have u: "unat (rid_next s t + 1) = unat (rid_next s t) + 1" .
  then show "rid_next s t < rid_next s t + 1" by (simp add: word_less_nat_alt)
  have b: "unat (rid_next s t') + Suc n < 2 ^ 64" for t'
    using assms by (simp add: rid_inv_def)
  have "\<forall>oid \<in> K. unat (VS_GET_OBJECT_INDEX oid) < unat (rid_next s (vs_objectTypeQuery h oid))"
    using assms by (simp add: rid_inv_def word_less_nat_alt)
  moreover have "unat (rid_next s t') + n < 2 ^ 64" for t' using b [of t'] by simp
  moreover have "unat (rid_next s t + 1) + n < 2 ^ 64" using b [of t] u by simp
  ultimately show "rid_inv h K n (s\<lparr>rm_indexer := AList.update t (rid_next s t + 1) (rm_indexer s)\<rparr>)"
    using assms u unfolding rid_inv_def word_less_nat_alt by auto
qed

lemma rid_inv_mono: "rid_inv h K (Suc n) s \<Longrightarrow> rid_inv h K n s"
  by (auto simp: rid_inv_def) (erule_tac x = t in allE, simp)

lemma vs_saiObjectTypeQuery_eq: "vs_saiObjectTypeQuery h oid = vs_objectTypeQuery h oid"
  by (simp add: vs_saiObjectTypeQuery_def vs_objectTypeQuery_def)

lemma mask31_less: "\<not> mask 31 < (i :: u64) \<longleftrightarrow> i < 2 ^ 31"
  by (simp add: mask_eq_exp_minus_1 word_less_nat_alt word_le_nat_alt) arith

lemma rid_alloc_inv:
  assumes "headers_ok h" "rid_inv h K (Suc n) s" "rid_allocateNewObjectId h t sw s = (r, s')"
  shows "case r of Inl e \<Rightarrow> rid_inv h K n s' | Inr oid \<Rightarrow> oid \<notin> K \<and> rid_inv h (insert oid K) n s'"
proof (cases "object_type_valid h t \<and> t \<noteq> ot_switch h \<and> vs_saiObjectTypeQuery h sw = ot_switch h")
  case False
  with assms(3) rid_inv_mono [OF assms(2)] show ?thesis
    by (auto simp: rid_allocateNewObjectId_def split: if_splits)
next
  case True
  let ?s = "s\<lparr>rm_indexer := AList.update t (rid_next s t + 1) (rm_indexer s)\<rparr>"
  let ?si = "ucast (VS_GET_SWITCH_INDEX sw) :: u32"
  have si: "?si < 256" using vs_field_bounds(1) [of sw]
    by (simp add: word_less_nat_alt unsigned_ucast_eq take_bit_nat_eq_self)
  have ctx: "rm_globalContext s < 256" using assms(2) by (simp add: rid_inv_def)
  note bump = rid_inv_bump [OF assms(2), of t]
  show ?thesis
  proof (cases "mask 31 < rid_next s t")
    case big: True
    with True assms(3) bump(1) show ?thesis by (auto simp: rid_allocateNewObjectId_def)
  next
    case False
    then have i: "rid_next s t < 2 ^ 31" by (simp only: mask31_less)
    from False True assms(3) have rs: "r = vs_constructObjectId h t ?si (rid_next s t) (rm_globalContext s)"
      "s' = ?s" by (auto simp: rid_allocateNewObjectId_def Let_def)
    from vs_construct_fields [OF assms(1) _ si ctx i] True rs(1) obtain oid where
      o: "r = Inr oid" "VS_GET_OBJECT_INDEX oid = rid_next s t" by metis
    have ty: "vs_objectTypeQuery h oid = t"
      using vs_oid.type_of_construct [OF assms(1) si ctx i] rs(1) o(1) by metis
    have "oid \<notin> K" using assms(2) o(2) ty by (auto simp: rid_inv_def)
    with bump o ty rs(2) show ?thesis by (auto simp: rid_inv_def)
  qed
qed

lemma rid_run_fresh:
  assumes "headers_ok h"
  shows "rid_inv h K (length rs) s \<Longrightarrow> distinct (rid_run h rs s) \<and> set (rid_run h rs s) \<inter> K = {}"
proof (induction rs arbitrary: K s)
  case (Cons p rs)
  obtain t sw where p: "p = (t, sw)" by (cases p)
  obtain r s' where a: "rid_allocateNewObjectId h t sw s = (r, s')" by fastforce
  have inv: "rid_inv h K (Suc (length rs)) s" using Cons.prems by simp
  note f = rid_alloc_inv [OF assms inv a]
  show ?case
  proof (cases r)
    case (Inl e)
    with f Cons.IH [of K s'] p a show ?thesis by simp
  next
    case (Inr oid)
    with f Cons.IH [of "insert oid K" s'] p a show ?thesis by auto
  qed
qed simp

lemma rid_warm_inv:
  assumes "rid_updateWarmBootObjectIndex h oid s = (Inr (), s')" "rid_inv h K n s" "n < 2 ^ 63"
  shows "rid_inv h (insert oid K) n s'"
proof -
  let ?t = "vs_objectTypeQuery h oid"
  let ?i = "VS_GET_OBJECT_INDEX oid"
  have "?i < 2 ^ 31" unfolding VS_GET_OBJECT_INDEX_def by (rule and_mask_less') simp
  then have i: "unat ?i < 2 ^ 31" by (simp add: word_less_nat_alt)
  then have u: "unat (?i + 1) = unat ?i + 1" by (intro unat_plus64_1) simp
  have inv: "\<forall>oid \<in> K. unat (VS_GET_OBJECT_INDEX oid) < unat (rid_next s (vs_objectTypeQuery h oid))"
    "\<forall>t. unat (rid_next s t) + n < 2 ^ 64" "unat (rm_globalContext s) < 256"
    using assms(2) by (simp_all add: rid_inv_def word_less_nat_alt)
  have nx: "rm_globalContext s' = rm_globalContext s"
    "rid_next s' t = (if t = ?t \<and> rid_next s ?t \<le> ?i then ?i + 1 else rid_next s t)" for t
    using assms(1) by (auto simp: rid_updateWarmBootObjectIndex_def Let_def rid_next_def split: if_splits)
  show ?thesis
    unfolding rid_inv_def word_less_nat_alt nx
    using inv i assms(3) by (auto simp: u word_le_nat_alt)
qed

lemma rid_warm_all_inv:
  "forM (rid_updateWarmBootObjectIndex h) ws s = (Inr (), s') \<Longrightarrow> rid_inv h K n s \<Longrightarrow> n < 2 ^ 63 \<Longrightarrow>
     rid_inv h (set ws \<union> K) n s'"
proof (induction ws arbitrary: K s)
  case Nil
  then show ?case by (simp add: ret_def)
next
  case (Cons w ws)
  from Cons.prems(1) obtain s1 where "rid_updateWarmBootObjectIndex h w s = (Inr (), s1)"
    "forM (rid_updateWarmBootObjectIndex h) ws s1 = (Inr (), s')"
    by (auto simp: seq_def split: prod.splits sum.splits)
  with rid_warm_inv Cons have "rid_inv h (set ws \<union> insert w K) n s'" by blast
  then show ?case by simp
qed

section \<open>The properties\<close>

text \<open>
  C3: warm boot keeps real ids unique. After the object counters have been moved past every id
  read from the saved state, a sequence of allocations of any length hands out ids that are
  pairwise distinct and distinct from all those read back, whatever types and switches they ask
  for and whichever of them fail.
\<close>

theorem rid_unique_after_warm_boot:
  assumes "headers_ok h" and "rm_globalContext s < 256" and "rm_indexer s = []"
    and "length rs < 2 ^ 63" and "forM (rid_updateWarmBootObjectIndex h) ws s = (Inr (), s')"
  shows "distinct (rid_run h rs s') \<and> set (rid_run h rs s') \<inter> set ws = {}"
proof -
  have "rid_inv h {} (length rs) s"
    using assms(2-4) by (simp add: rid_inv_def rid_next_def)
  from rid_warm_all_inv [OF assms(5) this assms(4)]
  have "rid_inv h (set ws) (length rs) s'" by simp
  from rid_run_fresh [OF assms(1) this] show ?thesis .
qed

definition demo_rids :: rid_manager where
  "demo_rids = \<lparr>rm_globalContext = 1, rm_container = config_empty, rm_switchIndexes = {}, rm_indexer = []\<rparr>"

theorem rid_unique_after_warm_boot_witness:
  "let s' = snd (forM (rid_updateWarmBootObjectIndex demo_headers)
                   [0x0001072100000007, 0x0001070300000004, 0x0001070300000002] demo_rids);
       ids = rid_run demo_headers
               [(3, 0x0001072100000007), (1, 0x0001072100000007), (3, 0x0001072100000007)] s'
   in distinct ids \<and> ids = [0x0001070300000005, 0x0001070100000000, 0x0001070300000006]"
proof -
  let ?ws = "[0x0001072100000007, 0x0001070300000004, 0x0001070300000002] :: oid list"
  let ?rs = "[(3, 0x0001072100000007), (1, 0x0001072100000007), (3, 0x0001072100000007)]
    :: (object_type \<times> oid) list"
  have "fst (forM (rid_updateWarmBootObjectIndex demo_headers) ?ws demo_rids) = Inr ()"
    by code_simp
  then obtain s' where w: "forM (rid_updateWarmBootObjectIndex demo_headers) ?ws demo_rids = (Inr (), s')"
    by (metis prod.collapse)
  have "rid_run demo_headers ?rs
      (snd (forM (rid_updateWarmBootObjectIndex demo_headers) ?ws demo_rids)) =
      [0x0001070300000005, 0x0001070100000000, 0x0001070300000006]" by code_simp
  moreover have "distinct (rid_run demo_headers ?rs s')"
    using rid_unique_after_warm_boot [OF demo_headers_ok _ _ _ w, of ?rs]
    by (simp add: demo_rids_def)
  ultimately show ?thesis by (simp add: w)
qed

text \<open>
  real ids decode. An id allocated by the manager has the type asked for, and its switch, read
  from the bits by the member query or by the static one, is the switch it was allocated on.
\<close>

theorem rid_allocated_decodes:
  assumes "headers_ok h" and "rm_globalContext s < 256" and "si < 256"
    and "vs_constructObjectId h (ot_switch h) si (ucast si) (rm_globalContext s) = Inr sw"
    and "rid_allocateNewObjectId h t sw s = (Inr oid, s')"
  shows "oid \<noteq> 0 \<and> vs_objectTypeQuery h oid = t \<and> vs_switchIdQuery h oid = Inr sw \<and>
    vs_saiSwitchIdQuery h s' oid = Inr sw"
proof -
  have b: "(ucast si :: u64) < 2 ^ 31" by (rule vs_oid.less_index [OF assms(3)])
  have si: "ucast (VS_GET_SWITCH_INDEX sw) = si"
    using vs_oid.construct_fieldsE(2) [OF assms(1) headers_okD(5) [OF assms(1)] assms(3,2) b assms(4)]
    by simp
  let ?i = "rid_next s t"
  from assms(5) have "\<not> mask 31 < ?i" and k: "vs_constructObjectId h t si ?i (rm_globalContext s) = Inr oid"
    and t: "object_type_valid h t" "t \<noteq> ot_switch h" and s': "rm_globalContext s' = rm_globalContext s"
    by (auto simp: rid_allocateNewObjectId_def si Let_def split: if_splits)
  then have i: "?i < 2 ^ 31" by (simp only: mask31_less)
  note f = vs_oid.construct_fieldsE [OF assms(1) t(1) assms(3,2) i k]
  have ty: "vs_objectTypeQuery h oid = t" using vs_oid.type_of_construct [OF assms(1,3,2) i k] .
  have sw: "vs_switchIdQuery h oid = Inr sw"
    using vs_oid.switch_of_construct [OF assms(1,3,2) i k t(2)] assms(4) by simp
  have "vs_saiObjectTypeQuery h oid = t"
    using ty by (simp add: vs_saiObjectTypeQuery_eq)
  moreover have "t \<noteq> 0" using t(1) headers_okD(1) [OF assms(1)] by auto
  ultimately have "vs_saiSwitchIdQuery h s' oid = Inr sw"
    using f(1,2) t(2) s' assms(4) by (simp add: vs_saiSwitchIdQuery_def Let_def)
  with f(1) ty sw show ?thesis by blast
qed

theorem rid_allocated_decodes_witness:
  "let r = rid_allocateNewObjectId demo_headers 0x20000000 0x0001072100000007 demo_rids
   in fst r = Inr 0x0001070080000000 \<and>
      vs_switchIdQuery demo_headers 0x0001070080000000 = Inr 0x0001072100000007"
proof -
  have c: "vs_constructObjectId demo_headers (ot_switch demo_headers) 7 (ucast (7 :: u32))
      (rm_globalContext demo_rids) = Inr 0x0001072100000007" by code_simp
  have b: "rm_globalContext demo_rids < 256" "(7 :: u32) < 256" by (simp_all add: demo_rids_def)
  have e: "fst (rid_allocateNewObjectId demo_headers 0x20000000 0x0001072100000007 demo_rids) =
      Inr 0x0001070080000000" by code_simp
  then obtain s' where r: "rid_allocateNewObjectId demo_headers 0x20000000 0x0001072100000007
      demo_rids = (Inr 0x0001070080000000, s')" by (metis prod.collapse)
  from rid_allocated_decodes [OF demo_headers_ok b c r] e show ?thesis by simp
qed

end
