(* ===== verification/Meta_Notify.thy ===== *)
theory Meta_Notify
  imports Meta_Api
begin

text \<open>
  What the metadata layer does with the forwarding database: \<open>flushFdbEntries\<close> and the handlers of the
  notifications \<open>meta_sai_on_fdb_event\<close> and \<open>meta_sai_on_nat_event\<close> of \<open>meta/Meta.cpp\<close>. The entries the
  switch learns, ages, moves and flushes by itself enter and leave the database here. After them, the
  handlers of the other notifications.
\<close>

section \<open>Constants and events\<close>

text \<open>
  The constants of the headers these functions compare with; whether the MAC address of an FDB entry
  is all zeros; and what an attribute value on the stack holds before a member of it is written.
\<close>

record fdb_env =
  FDB_EVENT_LEARNED :: u32
  FDB_EVENT_AGED :: u32
  FDB_EVENT_MOVE :: u32
  FDB_EVENT_FLUSHED :: u32
  FDB_ENTRY_TYPE_DYNAMIC :: "32 word"
  FDB_ENTRY_TYPE_STATIC :: "32 word"
  FDB_FLUSH_ATTR_BRIDGE_PORT_ID :: u32
  FDB_FLUSH_ATTR_BV_ID :: u32
  FDB_FLUSH_ATTR_ENTRY_TYPE :: u32
  FDB_FLUSH_ENTRY_TYPE_DYNAMIC :: "32 word"
  FDB_FLUSH_ENTRY_TYPE_STATIC :: "32 word"
  zero_mac :: "meta_key \<Rightarrow> bool"
  stack_value :: attr_value

text \<open>\<open>sai_fdb_event_notification_data_t\<close>.\<close>

record fdb_event =
  event_type :: u32
  fdb_entry :: meta_key
  fdb_attrs :: "sai_attribute sai_list"

definition fdb_key :: "sai_meta \<Rightarrow> fdb_event \<Rightarrow> meta_key" where
  "fdb_key h data = entry_key h FDB_ENTRY (fdb_entry data)"

section \<open>Flushing\<close>

text \<open>
  Whether an entry of the database is flushed: its type is the one of the event, and its bridge port
  and its VLAN or bridge are those of the event where the event names them. An entry without a type
  is left.
\<close>

definition flush_matches ::
  "sai_meta \<Rightarrow> fdb_event \<Rightarrow> sai_attribute option \<Rightarrow> sai_attribute \<Rightarrow> sai_object \<Rightarrow> bool" where
  "flush_matches h data bpid type fdb =
     (case getAttr fdb (attr_id h FDB_ENTRY_ATTR_TYPE) of
        None \<Rightarrow> False
      | Some fdbTypeAttr \<Rightarrow>
          if v_s32 (a_value (w_attr fdbTypeAttr)) \<noteq> v_s32 (a_value type) then False
          else if (case bpid of
                     None \<Rightarrow> False
                   | Some b \<Rightarrow> v_oid (a_value b) \<noteq> SAI_NULL_OBJECT_ID \<and>
                       (case getAttr fdb (attr_id h FDB_ENTRY_ATTR_BRIDGE_PORT_ID) of
                          None \<Rightarrow> True
                        | Some bpidAttr \<Rightarrow> v_oid (a_value (w_attr bpidAttr)) \<noteq> v_oid (a_value b)))
          then False
          else \<not> (k_bv_id (fdb_entry data) \<noteq> SAI_NULL_OBJECT_ID \<and>
                  k_bv_id (fdb_entry data) \<noteq> k_bv_id (m_metaKey fdb)))"

definition flush_toremove ::
  "sai_meta \<Rightarrow> fdb_event \<Rightarrow> sai_attribute option \<Rightarrow> sai_attribute \<Rightarrow> meta_db \<Rightarrow> meta_key list" where
  "flush_toremove h data bpid type s =
     map m_metaKey (filter (flush_matches h data bpid type)
       (getObjectsByObjectType (m_saiObjectCollection s) (ot h (OT_ENTRY FDB_ENTRY))))"

definition meta_sai_on_fdb_flush_event_consolidated :: "sai_meta \<Rightarrow> fdb_event \<Rightarrow> (meta_db, unit) op" where
  "meta_sai_on_fdb_flush_event_consolidated h data =
     seq (lift (list_elems (fdb_attrs data))) (\<lambda>attrs.
       let bpid = get_attr_by_id h (attr_id h FDB_ENTRY_ATTR_BRIDGE_PORT_ID) attrs
       in case get_attr_by_id h (attr_id h FDB_ENTRY_ATTR_TYPE) attrs of
            None \<Rightarrow> ret ()
          | Some type \<Rightarrow> seq (gets (flush_toremove h data bpid type)) (forM (post_remove h)))"

text \<open>The checks of the attributes of a flush; \<open>attrs\<close> are the ids seen before.\<close>

definition flush_attr_check ::
  "sai_meta \<Rightarrow> meta_db \<Rightarrow> oid \<Rightarrow> u32 list \<Rightarrow> sai_attribute \<Rightarrow> checked" where
  "flush_attr_check h s switch_id attrs attr =
     (case get_attr_metadata h (ot h OT_FDB_FLUSH) (a_id attr) of
        None \<Rightarrow> INVALID
      | Some md \<Rightarrow>
          if a_id attr \<in> set attrs then INVALID
          else case md_attrvaluetype md of
            VT_PRIM PT_INT32 \<Rightarrow>
              (if md_isenum md \<and> \<not> is_allowed_enum_value h md (v_s32 (a_value attr)) then INVALID else ok)
          | VT_OBJECT_ID \<Rightarrow> meta_generic_validation_objlist h s md switch_id (Sai_List [v_oid (a_value attr)])
          | _ \<Rightarrow> Inl (Throw ''value type is not supported yet, FIXME''))"

fun flush_attrs_check ::
  "sai_meta \<Rightarrow> meta_db \<Rightarrow> oid \<Rightarrow> u32 list \<Rightarrow> sai_attribute list \<Rightarrow> checked" where
  "flush_attrs_check h s switch_id attrs [] = ok"
| "flush_attrs_check h s switch_id attrs (attr # rest) =
     check_then (flush_attr_check h s switch_id attrs attr)
       (flush_attrs_check h s switch_id (a_id attr # attrs) rest)"

definition flush_check :: "sai_meta \<Rightarrow> meta_db \<Rightarrow> oid \<Rightarrow> sai_attribute sai_list \<Rightarrow> checked" where
  "flush_check h s switch_id attr_list =
     (if MAX_LIST_COUNT < list_count attr_list then INVALID
      else if list_count attr_list \<noteq> 0 \<and> list_null attr_list then INVALID
      else if objectTypeQuery h switch_id \<noteq> ot_switch h then INVALID
      else if \<not> objectReferenceExists (m_oids s) switch_id then INVALID
      else flush_attrs_check h s switch_id [] (elems attr_list))"

text \<open>The types of entries a flush covers: those asked for, or the dynamic ones.\<close>

definition flush_types :: "sai_meta \<Rightarrow> fdb_env \<Rightarrow> sai_attribute list \<Rightarrow> 32 word list" where
  "flush_types h f attrs =
     (case get_attr_by_id h (FDB_FLUSH_ATTR_ENTRY_TYPE f) attrs of
        Some et \<Rightarrow>
          if v_s32 (a_value et) = FDB_FLUSH_ENTRY_TYPE_DYNAMIC f then [FDB_ENTRY_TYPE_DYNAMIC f]
          else if v_s32 (a_value et) = FDB_FLUSH_ENTRY_TYPE_STATIC f then [FDB_ENTRY_TYPE_STATIC f]
          else [FDB_ENTRY_TYPE_DYNAMIC f, FDB_ENTRY_TYPE_STATIC f]
      | None \<Rightarrow> [FDB_ENTRY_TYPE_DYNAMIC f])"

definition null_or_oid :: "sai_attribute option \<Rightarrow> oid" where
  "null_or_oid a = (case a of None \<Rightarrow> SAI_NULL_OBJECT_ID | Some attr \<Rightarrow> v_oid (a_value attr))"

text \<open>The event a flush makes for each type; its entry is zeroed before the members are written.\<close>

definition flush_event ::
  "sai_meta \<Rightarrow> fdb_env \<Rightarrow> oid \<Rightarrow> sai_attribute list \<Rightarrow> 32 word \<Rightarrow> fdb_event" where
  "flush_event h f switch_id attrs type =
     \<lparr>event_type = FDB_EVENT_FLUSHED f,
      fdb_entry = (oid_key 0 switch_id)
        \<lparr>k_bv_id := null_or_oid (get_attr_by_id h (FDB_FLUSH_ATTR_BV_ID f) attrs)\<rparr>,
      fdb_attrs = Sai_List
        [\<lparr>a_id = attr_id h FDB_ENTRY_ATTR_BRIDGE_PORT_ID,
          a_value = stack_value f\<lparr>v_oid := null_or_oid (get_attr_by_id h (FDB_FLUSH_ATTR_BRIDGE_PORT_ID f) attrs)\<rparr>\<rparr>,
         \<lparr>a_id = attr_id h FDB_ENTRY_ATTR_TYPE, a_value = stack_value f\<lparr>v_s32 := type\<rparr>\<rparr>]\<rparr>"

definition flushFdbEntries ::
  "sai_meta \<Rightarrow> fdb_env \<Rightarrow> sai_status \<Rightarrow> oid \<Rightarrow> sai_attribute sai_list \<Rightarrow> (meta_db, sai_status) op" where
  "flushFdbEntries h f answer switch_id attr_list =
     guarded (\<lambda>s. flush_check h s switch_id attr_list)
       (on_success answer
         (forM (\<lambda>type. meta_sai_on_fdb_flush_event_consolidated h (flush_event h f switch_id (elems attr_list) type))
            (flush_types h f (elems attr_list))))"

section \<open>FDB events\<close>

text \<open>Ids an event mentions that the database does not know are inserted.\<close>

definition meta_fdb_event_snoop_oid :: "sai_meta \<Rightarrow> oid \<Rightarrow> (meta_db, unit) op" where
  "meta_fdb_event_snoop_oid h oid =
     (if oid = SAI_NULL_OBJECT_ID then ret ()
      else seq (gets (\<lambda>s. objectReferenceExists (m_oids s) oid)) (\<lambda>ex.
        if ex then ret ()
        else if objectTypeQuery h oid = SAI_OBJECT_TYPE_NULL then ret ()
        else snoop_object h oid))"

definition fdb_snoop_attr :: "sai_meta \<Rightarrow> sai_attribute \<Rightarrow> (meta_db, unit) op" where
  "fdb_snoop_attr h attr =
     (case get_attr_metadata h (ot h (OT_ENTRY FDB_ENTRY)) (a_id attr) of
        None \<Rightarrow> ret ()
      | Some meta \<Rightarrow>
          if md_attrvaluetype meta = VT_OBJECT_ID then meta_fdb_event_snoop_oid h (v_oid (a_value attr))
          else ret ())"

definition fdb_snoop :: "sai_meta \<Rightarrow> fdb_event \<Rightarrow> (meta_db, unit) op" where
  "fdb_snoop h data =
     seq (meta_fdb_event_snoop_oid h (k_bv_id (fdb_entry data))) (\<lambda>_.
     seq (lift (list_elems (fdb_attrs data))) (forM (fdb_snoop_attr h)))"

text \<open>A learned event with one attribute gets the type the vendor left out.\<close>

definition learned_attrs :: "sai_meta \<Rightarrow> fdb_env \<Rightarrow> sai_attribute sai_list \<Rightarrow> sai_attribute sai_list" where
  "learned_attrs h f attrs =
     (case attrs of
        Sai_List [attr] \<Rightarrow> Sai_List [attr, \<lparr>a_id = attr_id h FDB_ENTRY_ATTR_TYPE,
           a_value = stack_value f\<lparr>v_s32 := FDB_ENTRY_TYPE_DYNAMIC f\<rparr>\<rparr>]
      | _ \<Rightarrow> attrs)"

definition fdb_learned :: "sai_meta \<Rightarrow> fdb_env \<Rightarrow> fdb_event \<Rightarrow> (meta_db, unit) op" where
  "fdb_learned h f data = (\<lambda>s.
     let key = fdb_key h data; attrs = learned_attrs h f (fdb_attrs data) in
     if objectExists (m_saiObjectCollection s) key then (Inr (), s)
     else case meta_generic_validation_create h s key (object_id (fdb_entry data)) attrs of
       Inl e \<Rightarrow> (Inl e, s)
     | Inr st \<Rightarrow>
         if st = SAI_STATUS_SUCCESS
         then meta_generic_validation_post_create h key (object_id (fdb_entry data)) (elems attrs) s
         else (Inr (), s))"

definition if_exists :: "meta_key \<Rightarrow> (meta_db, unit) op \<Rightarrow> (meta_db, unit) op" where
  "if_exists key m =
     seq (gets (\<lambda>s. objectExists (m_saiObjectCollection s) key)) (\<lambda>ex. if ex then m else ret ())"

definition fdb_move_attr :: "sai_meta \<Rightarrow> meta_key \<Rightarrow> sai_attribute \<Rightarrow> (meta_db, unit) op" where
  "fdb_move_attr h key attr =
     seq (meta_generic_validation_set h key (Some attr)) (\<lambda>st.
       if st \<noteq> SAI_STATUS_SUCCESS then ret () else meta_generic_validation_post_set h key attr)"

definition meta_sai_on_fdb_event_single :: "sai_meta \<Rightarrow> fdb_env \<Rightarrow> fdb_event \<Rightarrow> (meta_db, unit) op" where
  "meta_sai_on_fdb_event_single h f data =
     seq (fdb_snoop h data) (\<lambda>_.
       if event_type data = FDB_EVENT_LEARNED f then fdb_learned h f data
       else if event_type data = FDB_EVENT_AGED f then
         if_exists (fdb_key h data) (post_remove h (fdb_key h data))
       else if event_type data = FDB_EVENT_FLUSHED f then
         (if zero_mac f (fdb_entry data) then meta_sai_on_fdb_flush_event_consolidated h data
          else if_exists (fdb_key h data) (post_remove h (fdb_key h data)))
       else if event_type data = FDB_EVENT_MOVE f then
         if_exists (fdb_key h data) (forM (fdb_move_attr h (fdb_key h data)) (elems (fdb_attrs data)))
       else ret ())"

text \<open>A notification: its count and data; a null pointer with a count is refused.\<close>

definition on_each :: "('a \<Rightarrow> (meta_db, unit) op) \<Rightarrow> 'a sai_list \<Rightarrow> (meta_db, unit) op" where
  "on_each f data = (if list_count data \<noteq> 0 \<and> list_null data then ret () else forM f (elems data))"

definition meta_sai_on_fdb_event :: "sai_meta \<Rightarrow> fdb_env \<Rightarrow> fdb_event sai_list \<Rightarrow> (meta_db, unit) op" where
  "meta_sai_on_fdb_event h f = on_each (meta_sai_on_fdb_event_single h f)"

text \<open>The NAT events only log: the entries are removed by the client.\<close>

definition meta_sai_on_nat_event_single :: "u32 \<times> meta_key \<Rightarrow> (meta_db, unit) op" where
  "meta_sai_on_nat_event_single data = ret ()"

definition meta_sai_on_nat_event :: "(u32 \<times> meta_key) sai_list \<Rightarrow> (meta_db, unit) op" where
  "meta_sai_on_nat_event = on_each meta_sai_on_nat_event_single"

text \<open>
  The other handlers of notifications of \<open>meta/Meta.cpp\<close>: each looks at the type of the id the vendor
  reports and inserts an id the database does not know. What they only log has no part here.
\<close>

section \<open>The environment\<close>

text \<open>
  The object types the handlers name; the values of the enums they look values up in; and the
  member table of two notification structures: the name of a member and the types it may have.
\<close>

record ntf_env =
  ntf_queue :: object_type
  ntf_bfd_session :: object_type
  ntf_ha_set :: object_type
  ntf_ha_scope :: object_type
  ntf_twamp_session :: object_type
  ntf_flow_bulk_get_session :: object_type
  ntf_tam_tel_type :: object_type
  port_host_tx_ready_statuses :: "u32 list"
  twamp_session_stats :: "u32 list"
  port_oper_status_members :: "(string \<times> object_type list) list"
  icmp_echo_session_members :: "(string \<times> object_type list) list"

text \<open>The search of a member table.\<close>

fun member_allows :: "string \<Rightarrow> object_type \<Rightarrow> (string \<times> object_type list) list \<Rightarrow> fault + bool" where
  "member_allows name t [] = Inl (Throw ''member not found'')"
| "member_allows name t ((n, allowed) # members) =
     (if n \<noteq> name then member_allows name t members else Inr (t \<in> set allowed))"

definition isPortObjectIdValid :: "ntf_env \<Rightarrow> object_type \<Rightarrow> fault + bool" where
  "isPortObjectIdValid n t = member_allows ''port_id'' t (port_oper_status_members n)"

definition isIcmpEchoSessionObjectIdValid :: "ntf_env \<Rightarrow> object_type \<Rightarrow> fault + bool" where
  "isIcmpEchoSessionObjectIdValid n t = member_allows ''icmp_echo_session_id'' t (icmp_echo_session_members n)"

section \<open>The handlers\<close>

text \<open>The step they share: an id of the right type that has no counter is inserted with its object.\<close>

definition notify_snoop :: "sai_meta \<Rightarrow> bool \<Rightarrow> oid \<Rightarrow> (meta_db, unit) op" where
  "notify_snoop h valid oid =
     seq (gets (\<lambda>s. objectReferenceExists (m_oids s) oid)) (\<lambda>ex.
       if valid \<and> \<not> ex then snoop_object h oid else ret ())"

definition meta_sai_on_port_host_tx_ready_change :: "sai_meta \<Rightarrow> ntf_env \<Rightarrow> oid \<Rightarrow> u32 \<Rightarrow> (meta_db, unit) op" where
  "meta_sai_on_port_host_tx_ready_change h n port_id host_tx_ready_status =
     (if host_tx_ready_status \<notin> set (port_host_tx_ready_statuses n) then ret ()
      else if objectTypeQuery h port_id \<noteq> ot h OT_PORT then ret ()
      else notify_snoop h True port_id)"

definition meta_sai_on_port_state_change_single :: "sai_meta \<Rightarrow> ntf_env \<Rightarrow> oid \<Rightarrow> (meta_db, unit) op" where
  "meta_sai_on_port_state_change_single h n port_id =
     seq (lift (isPortObjectIdValid n (objectTypeQuery h port_id))) (\<lambda>valid. notify_snoop h valid port_id)"

definition meta_sai_on_port_state_change :: "sai_meta \<Rightarrow> ntf_env \<Rightarrow> oid sai_list \<Rightarrow> (meta_db, unit) op" where
  "meta_sai_on_port_state_change h n = on_each (meta_sai_on_port_state_change_single h n)"

definition meta_sai_on_queue_pfc_deadlock_notification_single :: "sai_meta \<Rightarrow> ntf_env \<Rightarrow> oid \<Rightarrow> (meta_db, unit) op" where
  "meta_sai_on_queue_pfc_deadlock_notification_single h n queue_id =
     notify_snoop h (objectTypeQuery h queue_id = ntf_queue n) queue_id"

definition meta_sai_on_queue_pfc_deadlock_notification :: "sai_meta \<Rightarrow> ntf_env \<Rightarrow> oid sai_list \<Rightarrow> (meta_db, unit) op" where
  "meta_sai_on_queue_pfc_deadlock_notification h n =
     on_each (meta_sai_on_queue_pfc_deadlock_notification_single h n)"

definition meta_sai_on_bfd_session_state_change_single :: "sai_meta \<Rightarrow> ntf_env \<Rightarrow> oid \<Rightarrow> (meta_db, unit) op" where
  "meta_sai_on_bfd_session_state_change_single h n bfd_session_id =
     notify_snoop h (objectTypeQuery h bfd_session_id = ntf_bfd_session n) bfd_session_id"

definition meta_sai_on_bfd_session_state_change :: "sai_meta \<Rightarrow> ntf_env \<Rightarrow> oid sai_list \<Rightarrow> (meta_db, unit) op" where
  "meta_sai_on_bfd_session_state_change h n = on_each (meta_sai_on_bfd_session_state_change_single h n)"

definition meta_sai_on_ha_set_event_single :: "sai_meta \<Rightarrow> ntf_env \<Rightarrow> oid \<Rightarrow> (meta_db, unit) op" where
  "meta_sai_on_ha_set_event_single h n ha_set_id =
     notify_snoop h (objectTypeQuery h ha_set_id = ntf_ha_set n) ha_set_id"

definition meta_sai_on_ha_set_event :: "sai_meta \<Rightarrow> ntf_env \<Rightarrow> oid sai_list \<Rightarrow> (meta_db, unit) op" where
  "meta_sai_on_ha_set_event h n = on_each (meta_sai_on_ha_set_event_single h n)"

definition meta_sai_on_ha_scope_event_single :: "sai_meta \<Rightarrow> ntf_env \<Rightarrow> oid \<Rightarrow> (meta_db, unit) op" where
  "meta_sai_on_ha_scope_event_single h n ha_scope_id =
     notify_snoop h (objectTypeQuery h ha_scope_id = ntf_ha_scope n) ha_scope_id"

definition meta_sai_on_ha_scope_event :: "sai_meta \<Rightarrow> ntf_env \<Rightarrow> oid sai_list \<Rightarrow> (meta_db, unit) op" where
  "meta_sai_on_ha_scope_event h n = on_each (meta_sai_on_ha_scope_event_single h n)"

definition meta_sai_on_icmp_echo_session_state_change_single :: "sai_meta \<Rightarrow> ntf_env \<Rightarrow> oid \<Rightarrow> (meta_db, unit) op" where
  "meta_sai_on_icmp_echo_session_state_change_single h n icmp_echo_session_id =
     seq (lift (isIcmpEchoSessionObjectIdValid n (objectTypeQuery h icmp_echo_session_id)))
       (\<lambda>valid. notify_snoop h valid icmp_echo_session_id)"

definition meta_sai_on_icmp_echo_session_state_change :: "sai_meta \<Rightarrow> ntf_env \<Rightarrow> oid sai_list \<Rightarrow> (meta_db, unit) op" where
  "meta_sai_on_icmp_echo_session_state_change h n = on_each (meta_sai_on_icmp_echo_session_state_change_single h n)"

text \<open>A TWAMP event carries counters; one with a counter id that is not of the enum is dropped.\<close>

definition meta_sai_on_twamp_session_event_single ::
  "sai_meta \<Rightarrow> ntf_env \<Rightarrow> oid \<times> u32 sai_list \<Rightarrow> (meta_db, unit) op" where
  "meta_sai_on_twamp_session_event_single h n data =
     seq (lift (list_elems (snd data))) (\<lambda>counters_ids.
       if \<exists>c \<in> set counters_ids. c \<notin> set (twamp_session_stats n) then ret ()
       else notify_snoop h (objectTypeQuery h (fst data) = ntf_twamp_session n) (fst data))"

definition meta_sai_on_twamp_session_event ::
  "sai_meta \<Rightarrow> ntf_env \<Rightarrow> (oid \<times> u32 sai_list) sai_list \<Rightarrow> (meta_db, unit) op" where
  "meta_sai_on_twamp_session_event h n = on_each (meta_sai_on_twamp_session_event_single h n)"

text \<open>The data of a bulk session is a count and a pointer; only the session itself is looked at.\<close>

definition meta_sai_on_flow_bulk_get_session_event ::
  "sai_meta \<Rightarrow> ntf_env \<Rightarrow> oid \<Rightarrow> 'a sai_list \<Rightarrow> (meta_db, unit) op" where
  "meta_sai_on_flow_bulk_get_session_event h n flow_bulk_session_id data =
     (if list_count data \<noteq> 0 \<and> list_null data then ret ()
      else if flow_bulk_session_id = SAI_NULL_OBJECT_ID then ret ()
      else if objectTypeQuery h flow_bulk_session_id \<noteq> ntf_flow_bulk_get_session n then ret ()
      else notify_snoop h True flow_bulk_session_id)"

definition meta_sai_on_tam_tel_type_config_change :: "sai_meta \<Rightarrow> ntf_env \<Rightarrow> oid \<Rightarrow> (meta_db, unit) op" where
  "meta_sai_on_tam_tel_type_config_change h n m_tam_id =
     (if m_tam_id = SAI_NULL_OBJECT_ID then ret ()
      else if objectTypeQuery h m_tam_id \<noteq> ntf_tam_tel_type n then ret ()
      else notify_snoop h True m_tam_id)"

section \<open>A notification\<close>

text \<open>
  The notifications a vendor sends, and what the layer does with each. Those of the switch itself (its
  state, its health, a request to shut down) and of NAT entries change nothing.
\<close>

datatype notification =
    Ntf_Fdb "fdb_event sai_list"
  | Ntf_Nat "(u32 \<times> meta_key) sai_list"
  | Ntf_Host_Tx_Ready oid u32
  | Ntf_Port_State "oid sai_list"
  | Ntf_Queue_Deadlock "oid sai_list"
  | Ntf_Bfd "oid sai_list"
  | Ntf_Ha_Set "oid sai_list"
  | Ntf_Ha_Scope "oid sai_list"
  | Ntf_Icmp_Echo "oid sai_list"
  | Ntf_Twamp "(oid \<times> u32 sai_list) sai_list"
  | Ntf_Flow_Bulk oid "unit sai_list"
  | Ntf_Tam_Tel_Type oid

fun meta_on_notification :: "sai_meta \<Rightarrow> fdb_env \<Rightarrow> ntf_env \<Rightarrow> notification \<Rightarrow> (meta_db, unit) op" where
  "meta_on_notification h f n (Ntf_Fdb l) = meta_sai_on_fdb_event h f l"
| "meta_on_notification h f n (Ntf_Nat l) = meta_sai_on_nat_event l"
| "meta_on_notification h f n (Ntf_Host_Tx_Ready x st) = meta_sai_on_port_host_tx_ready_change h n x st"
| "meta_on_notification h f n (Ntf_Port_State l) = meta_sai_on_port_state_change h n l"
| "meta_on_notification h f n (Ntf_Queue_Deadlock l) = meta_sai_on_queue_pfc_deadlock_notification h n l"
| "meta_on_notification h f n (Ntf_Bfd l) = meta_sai_on_bfd_session_state_change h n l"
| "meta_on_notification h f n (Ntf_Ha_Set l) = meta_sai_on_ha_set_event h n l"
| "meta_on_notification h f n (Ntf_Ha_Scope l) = meta_sai_on_ha_scope_event h n l"
| "meta_on_notification h f n (Ntf_Icmp_Echo l) = meta_sai_on_icmp_echo_session_state_change h n l"
| "meta_on_notification h f n (Ntf_Twamp l) = meta_sai_on_twamp_session_event h n l"
| "meta_on_notification h f n (Ntf_Flow_Bulk x l) = meta_sai_on_flow_bulk_get_session_event h n x l"
| "meta_on_notification h f n (Ntf_Tam_Tel_Type x) = meta_sai_on_tam_tel_type_config_change h n x"

end
