(* ===== verification/Meta_Fdb_Inv.thy ===== *)
theory Meta_Fdb_Inv
  imports Meta_Correct Meta_Notify
begin

text \<open>
  The handlers of notifications and the flush of FDB entries keep the database consistent, and what
  a flush removes: the entries that match it, and no other object.
\<close>

section \<open>What is relied on of a notification\<close>

text \<open>
  The ids an FDB event mentions are of object id types, and there is room for the references it
  stores; the state is the one after the event's ids have been inserted.
\<close>

definition fdb_reported_ok :: "sai_meta \<Rightarrow> fdb_event \<Rightarrow> bool" where
  "fdb_reported_ok h data \<longleftrightarrow>
     reported_ok h (k_bv_id (fdb_entry data) # concat (map (attr_oids h (fdb_key h data)) (elems (fdb_attrs data))))"

fun move_room :: "sai_meta \<Rightarrow> meta_key \<Rightarrow> sai_attribute list \<Rightarrow> meta_db \<Rightarrow> bool" where
  "move_room h key [] s = True"
| "move_room h key (attr # attrs) s =
     (set_room h s key attr \<and> move_room h key attrs (snd (fdb_move_attr h key attr s)))"

definition fdb_room :: "sai_meta \<Rightarrow> fdb_env \<Rightarrow> fdb_event \<Rightarrow> meta_db \<Rightarrow> bool" where
  "fdb_room h f data s \<longleftrightarrow>
     (event_type data = FDB_EVENT_LEARNED f \<longrightarrow>
        create_room h s (fdb_key h data) (elems (learned_attrs h f (fdb_attrs data)))) \<and>
     (event_type data = FDB_EVENT_MOVE f \<longrightarrow> move_room h (fdb_key h data) (elems (fdb_attrs data)) s)"

fun fdb_events_ok :: "sai_meta \<Rightarrow> fdb_env \<Rightarrow> fdb_event list \<Rightarrow> meta_db \<Rightarrow> bool" where
  "fdb_events_ok h f [] s = True"
| "fdb_events_ok h f (data # rest) s =
     (fdb_reported_ok h data \<and> fdb_room h f data (snd (fdb_snoop h data s)) \<and>
      fdb_events_ok h f rest (snd (meta_sai_on_fdb_event_single h f data s)))"

text \<open>The types the handlers name are object id types.\<close>

definition ntf_types :: "sai_meta \<Rightarrow> ntf_env \<Rightarrow> object_type set" where
  "ntf_types h n = {ot h OT_PORT, ntf_queue n, ntf_bfd_session n, ntf_ha_set n, ntf_ha_scope n, ntf_twamp_session n,
     ntf_flow_bulk_get_session n, ntf_tam_tel_type n} \<union>
     \<Union> (set ` snd ` set (port_oper_status_members n @ icmp_echo_session_members n))"

definition ntf_ok :: "sai_meta \<Rightarrow> ntf_env \<Rightarrow> bool" where
  "ntf_ok h n \<longleftrightarrow> (\<forall>t \<in> ntf_types h n. t \<noteq> 0 \<and> oid_type h t)"

section \<open>Inserting the ids of a notification\<close>

lemma adds_meta_inv: "adds_objects h m \<Longrightarrow> meta_inv h s \<Longrightarrow> meta_inv h (snd (m s))"
  by (simp add: adds_objects_def meta_inv_def)

lemma adds_fdb_snoop_oid:
  assumes "meta_ok h" "oid_type h (objectTypeQuery h x)"
  shows "adds_objects h (meta_fdb_event_snoop_oid h x)"
  unfolding meta_fdb_event_snoop_oid_def
  by (auto intro!: adds_seq_gets adds_ret snoop_keeps assms)

lemma adds_fdb_snoop:
  assumes "meta_ok h" "fdb_reported_ok h data"
  shows "adds_objects h (fdb_snoop h data)"
proof -
  have rep: "oid_type h (objectTypeQuery h (k_bv_id (fdb_entry data)))"
    and attrs: "\<And>attr x. attr \<in> set (elems (fdb_attrs data)) \<Longrightarrow> x \<in> set (attr_oids h (fdb_key h data) attr) \<Longrightarrow>
      oid_type h (objectTypeQuery h x)"
    using assms(2) by (auto simp: fdb_reported_ok_def reported_ok_def)
  have one: "adds_objects h (fdb_snoop_attr h attr)" if "attr \<in> set (elems (fdb_attrs data))" for attr
  proof -
    have "oid_type h (objectTypeQuery h (v_oid (a_value attr)))"
      if "get_attr_metadata h (ot h (OT_ENTRY FDB_ENTRY)) (a_id attr) = Some md" "md_attrvaluetype md = VT_OBJECT_ID" for md
      using attrs [OF \<open>attr \<in> _\<close>, of "v_oid (a_value attr)"] that
      by (simp add: attr_oids_def fdb_key_def entry_key_def attr_refs_def attr_ref_list_def)
    then show ?thesis
      by (auto simp: fdb_snoop_attr_def adds_ret intro!: adds_fdb_snoop_oid assms(1) split: option.split)
  qed
  show ?thesis
    unfolding fdb_snoop_def
    by (intro adds_seq adds_fdb_snoop_oid assms(1) rep adds_seq_lift adds_forM one)
      (metis elems_def sum.simps(6))
qed

lemma adds_notify:
  assumes "meta_ok h" "ntf_ok h n" "valid \<Longrightarrow> objectTypeQuery h x \<in> ntf_types h n"
  shows "adds_objects h (notify_snoop h valid x)"
proof (cases valid)
  case True
  have t: "objectTypeQuery h x \<noteq> 0" "oid_type h (objectTypeQuery h x)"
    using assms(2,3) True by (auto simp: ntf_ok_def)
  then have "x \<noteq> 0" using oid_queries.type_null [OF meta_okD(3) [OF assms(1)]] by auto
  then show ?thesis
    unfolding notify_snoop_def by (auto intro!: adds_seq_gets adds_ret snoop_keeps assms(1) t)
next
  case False
  then show ?thesis by (simp add: notify_snoop_def adds_seq_gets adds_ret)
qed

lemma member_allows_mem: "member_allows name t ms = Inr True \<Longrightarrow> \<exists>m \<in> set ms. t \<in> set (snd m)"
  by (induction name t ms rule: member_allows.induct) (auto split: if_splits)

lemma adds_on_each: "(\<And>x. x \<in> set (elems l) \<Longrightarrow> adds_objects h (f x)) \<Longrightarrow> adds_objects h (on_each f l)"
  unfolding on_each_def by (auto intro!: adds_ret adds_forM)

lemmas notification_defs = meta_sai_on_nat_event_def meta_sai_on_nat_event_single_def
  meta_sai_on_port_host_tx_ready_change_def meta_sai_on_port_state_change_def meta_sai_on_port_state_change_single_def
  meta_sai_on_queue_pfc_deadlock_notification_def meta_sai_on_queue_pfc_deadlock_notification_single_def
  meta_sai_on_bfd_session_state_change_def meta_sai_on_bfd_session_state_change_single_def
  meta_sai_on_ha_set_event_def meta_sai_on_ha_set_event_single_def
  meta_sai_on_ha_scope_event_def meta_sai_on_ha_scope_event_single_def
  meta_sai_on_icmp_echo_session_state_change_def meta_sai_on_icmp_echo_session_state_change_single_def
  meta_sai_on_twamp_session_event_def meta_sai_on_twamp_session_event_single_def
  meta_sai_on_flow_bulk_get_session_event_def meta_sai_on_tam_tel_type_config_change_def

lemma adds_notification:
  assumes "meta_ok h" "ntf_ok h n" "\<And>l. ntf \<noteq> Ntf_Fdb l"
  shows "adds_objects h (meta_on_notification h f n ntf)"
proof -
  have port: "adds_objects h (seq (lift (isPortObjectIdValid n (objectTypeQuery h x))) (\<lambda>valid. notify_snoop h valid x))" for x
    by (rule adds_seq_lift, rule adds_notify [OF assms(1,2)])
      (auto simp: isPortObjectIdValid_def ntf_types_def dest!: member_allows_mem)
  have icmp: "adds_objects h (seq (lift (isIcmpEchoSessionObjectIdValid n (objectTypeQuery h x))) (\<lambda>valid. notify_snoop h valid x))" for x
    by (rule adds_seq_lift, rule adds_notify [OF assms(1,2)])
      (auto simp: isIcmpEchoSessionObjectIdValid_def ntf_types_def dest!: member_allows_mem)
  show ?thesis
    using assms(3)
    by (cases ntf)
      (auto simp: notification_defs intro!: adds_on_each adds_ret adds_notify [OF assms(1,2)] port icmp adds_seq_lift
        simp: ntf_types_def)
qed

section \<open>Removing entries\<close>

lemma entry_removable:
  assumes "meta_ok h" "meta_inv h s" "objectExists (m_saiObjectCollection s) key" "objecttype key = ot h (OT_ENTRY e)"
  shows "meta_generic_validation_remove h s key = ok"
proof -
  from assms(3) obtain obj where "map_of (m_saiObjectCollection s) key = Some obj"
    by (auto simp: objectExists_def has_key_def)
  then have "object_type_valid h (objecttype key)"
    using db_inv_object [OF meta_invD(1) [OF assms(2)]] by (simp add: object_ok_def)
  then obtain info where info: "get_object_type_info h (objecttype key) = Some info"
    using metadata_okD(5) [OF meta_okD(1) [OF assms(1)]] by blast
  then have "isnonobjectid info"
    using metadata_okD(8) [OF meta_okD(1) [OF assms(1)]] assms(4) by simp
  with info assms(3) show ?thesis by (simp add: meta_generic_validation_remove_def)
qed

lemma entry_type_not:
  assumes "meta_ok h" "meta_generic_validation_remove h s key = ok" "objecttype key = ot h (OT_ENTRY e)"
  shows "objecttype key \<noteq> ot_switch h" "objecttype key \<noteq> ot h OT_PORT"
proof -
  from assms(2) obtain info where info: "get_object_type_info h (objecttype key) = Some info"
    by (auto simp: meta_generic_validation_remove_def split: option.splits if_splits)
  have "isnonobjectid info"
    using metadata_okD(8) [OF meta_okD(1) [OF assms(1)]] info assms(3) by simp
  then show "objecttype key \<noteq> ot_switch h" "objecttype key \<noteq> ot h OT_PORT"
    using metadata_okD(6,7) [OF meta_okD(1) [OF assms(1)]] info by auto
qed

text \<open>One entry, and a list of different ones.\<close>

lemma remove_one_entry:
  assumes "meta_ok h" "meta_inv h s" "objectExists (m_saiObjectCollection s) key" "objecttype key = ot h (OT_ENTRY e)"
  shows "\<exists>s'. post_remove h key s = (Inr (), s') \<and> meta_inv h s' \<and>
     m_saiObjectCollection s' = AList.delete key (m_saiObjectCollection s)"
proof -
  note v = entry_removable [OF assms]
  note ty = entry_type_not [OF assms(1) v assms(4)]
  have "remove_ready h s key"
    using remove_validated_intro [OF assms(1) v] ty(1) by (simp add: remove_validated_def)
  from post_remove_object_gone [OF assms(1,2) this ty(1)] obtain s' where
    s': "post_remove_object h key s = (Inr (), s')" "meta_inv h s'" "object_gone h key s s'" by blast
  have "post_remove h key s = (Inr (), s')"
    using ty s'(1) by (simp add: post_remove_def seq_def ret_def)
  with s'(2,3) show ?thesis by (auto simp: object_gone_def)
qed

lemma remove_entries:
  assumes "meta_ok h"
  shows "meta_inv h s \<Longrightarrow> distinct ks \<Longrightarrow>
    (\<forall>k \<in> set ks. objectExists (m_saiObjectCollection s) k \<and> objecttype k = ot h (OT_ENTRY e)) \<Longrightarrow>
    \<exists>s'. forM (post_remove h) ks s = (Inr (), s') \<and> meta_inv h s' \<and>
      (\<forall>k. map_of (m_saiObjectCollection s') k = (if k \<in> set ks then None else map_of (m_saiObjectCollection s) k))"
proof (induction ks arbitrary: s)
  case Nil
  then show ?case by (simp add: ret_def)
next
  case (Cons k ks)
  from remove_one_entry [OF assms Cons.prems(1), of k e] Cons.prems(3) obtain s1 where
    s1: "post_remove h k s = (Inr (), s1)" "meta_inv h s1"
      "m_saiObjectCollection s1 = AList.delete k (m_saiObjectCollection s)" by auto
  have "\<forall>k' \<in> set ks. objectExists (m_saiObjectCollection s1) k' \<and> objecttype k' = ot h (OT_ENTRY e)"
    using Cons.prems(2,3) s1(3) by (auto simp: objectExists_def)
  from Cons.IH [OF s1(2) _ this] Cons.prems(2) obtain s' where
    "forM (post_remove h) ks s1 = (Inr (), s')" "meta_inv h s'"
    "\<forall>k'. map_of (m_saiObjectCollection s') k' = (if k' \<in> set ks then None else map_of (m_saiObjectCollection s1) k')"
    by auto
  with s1 show ?case by (auto simp: seq_def AList.delete_conv)
qed

section \<open>Flushing\<close>

lemma filter_keyed:
  assumes "\<forall>p \<in> set c. m_metaKey (snd p) = fst p"
  shows "map m_metaKey (filter Q (filter (\<lambda>obj. objecttype (m_metaKey obj) = t) (map snd c))) =
     map fst (filter (\<lambda>p. objecttype (fst p) = t \<and> Q (snd p)) c)"
  using assms by (induction c) simp_all

lemma flush_toremove_eq:
  assumes "meta_inv h s"
  shows "flush_toremove h data bpid type s =
     map fst (filter (\<lambda>p. objecttype (fst p) = ot h (OT_ENTRY FDB_ENTRY) \<and> flush_matches h data bpid type (snd p))
       (m_saiObjectCollection s))"
  unfolding flush_toremove_def getObjectsByObjectType_def getObjectType_def
proof (rule filter_keyed, rule ballI)
  fix p
  assume "p \<in> set (m_saiObjectCollection s)"
  then have "map_of (m_saiObjectCollection s) (fst p) = Some (snd p)"
    using map_of_mem_wf [OF meta_invD(4) [OF assms], of "fst p" "snd p"] by simp
  from db_inv_object [OF meta_invD(1) [OF assms] this]
  show "m_metaKey (snd p) = fst p" by (simp add: object_ok_def)
qed

lemma flush_toremove_mem:
  assumes "meta_inv h s"
  shows "k \<in> set (flush_toremove h data bpid type s) \<longleftrightarrow> objecttype k = ot h (OT_ENTRY FDB_ENTRY) \<and>
     (\<exists>obj. map_of (m_saiObjectCollection s) k = Some obj \<and> flush_matches h data bpid type obj)"
  unfolding flush_toremove_eq [OF assms]
  using map_of_mem_wf [OF meta_invD(4) [OF assms]] by (force dest: map_of_SomeD)

lemma flush_toremove_distinct: "meta_inv h s \<Longrightarrow> distinct (flush_toremove h data bpid type s)"
  using distinct_map_filter [of fst "m_saiObjectCollection s"] meta_invD(4) [of h s]
  by (simp add: flush_toremove_eq keys_def)

text \<open>What a consolidated flush removes.\<close>

definition flushed_by :: "sai_meta \<Rightarrow> fdb_event \<Rightarrow> meta_db \<Rightarrow> meta_key \<Rightarrow> bool" where
  "flushed_by h data s k \<longleftrightarrow>
     (\<exists>type. get_attr_by_id h (attr_id h FDB_ENTRY_ATTR_TYPE) (elems (fdb_attrs data)) = Some type \<and>
        k \<in> set (flush_toremove h data
              (get_attr_by_id h (attr_id h FDB_ENTRY_ATTR_BRIDGE_PORT_ID) (elems (fdb_attrs data))) type s))"

lemma consolidated_flush:
  assumes "meta_ok h" "meta_inv h s" "list_ok (fdb_attrs data)"
  shows "\<exists>s'. meta_sai_on_fdb_flush_event_consolidated h data s = (Inr (), s') \<and> meta_inv h s' \<and>
     (\<forall>k. map_of (m_saiObjectCollection s') k =
        (if flushed_by h data s k then None else map_of (m_saiObjectCollection s) k))"
proof (cases "get_attr_by_id h (attr_id h FDB_ENTRY_ATTR_TYPE) (elems (fdb_attrs data))")
  case None
  then show ?thesis
    using assms(2) list_ok_elems [OF assms(3)]
    by (simp add: meta_sai_on_fdb_flush_event_consolidated_def Let_def ret_def flushed_by_def)
next
  case (Some type)
  let ?bp = "get_attr_by_id h (attr_id h FDB_ENTRY_ATTR_BRIDGE_PORT_ID) (elems (fdb_attrs data))"
  let ?ks = "flush_toremove h data ?bp type s"
  have "\<forall>k \<in> set ?ks. objectExists (m_saiObjectCollection s) k \<and> objecttype k = ot h (OT_ENTRY FDB_ENTRY)"
    using flush_toremove_mem [OF assms(2)] by (auto simp: objectExists_def has_key_def)
  from remove_entries [OF assms(1,2) flush_toremove_distinct [OF assms(2)] this] Some list_ok_elems [OF assms(3)]
  show ?thesis
    by (auto simp: meta_sai_on_fdb_flush_event_consolidated_def Let_def seq_def gets_def lift_def flushed_by_def)
qed

text \<open>A list of them, one after the other.\<close>

lemma consolidated_flushes:
  assumes "meta_ok h"
  shows "meta_inv h s \<Longrightarrow> (\<forall>data \<in> set evs. list_ok (fdb_attrs data)) \<Longrightarrow>
    \<exists>s'. forM (meta_sai_on_fdb_flush_event_consolidated h) evs s = (Inr (), s') \<and> meta_inv h s' \<and>
      (\<forall>k. map_of (m_saiObjectCollection s') k =
         (if \<exists>data \<in> set evs. flushed_by h data s k then None else map_of (m_saiObjectCollection s) k))"
proof (induction evs arbitrary: s)
  case Nil
  then show ?case by (simp add: ret_def)
next
  case (Cons d evs)
  from consolidated_flush [OF assms Cons.prems(1), of d] Cons.prems(2) obtain s1 where
    s1: "meta_sai_on_fdb_flush_event_consolidated h d s = (Inr (), s1)" "meta_inv h s1"
      "\<forall>k. map_of (m_saiObjectCollection s1) k = (if flushed_by h d s k then None else map_of (m_saiObjectCollection s) k)"
    by auto
  from Cons.IH [OF s1(2)] Cons.prems(2) obtain s' where
    s': "forM (meta_sai_on_fdb_flush_event_consolidated h) evs s1 = (Inr (), s')" "meta_inv h s'"
      "\<forall>k. map_of (m_saiObjectCollection s') k =
         (if \<exists>data \<in> set evs. flushed_by h data s1 k then None else map_of (m_saiObjectCollection s1) k)" by auto
  have "flushed_by h data s1 k \<longleftrightarrow> flushed_by h data s k" if "\<not> flushed_by h d s k" for data k
  proof -
    have "map_of (m_saiObjectCollection s1) k = map_of (m_saiObjectCollection s) k" using that s1(3) by simp
    then show ?thesis
      by (simp add: flushed_by_def flush_toremove_mem [OF s1(2)] flush_toremove_mem [OF Cons.prems(1)])
  qed
  then have "map_of (m_saiObjectCollection s') k =
      (if \<exists>data \<in> set (d # evs). flushed_by h data s k then None else map_of (m_saiObjectCollection s) k)" for k
    using s'(3) s1(3) by auto
  with s1(1) s'(1,2) show ?case by (auto simp: seq_def)
qed

lemma consolidated_keeps:
  assumes "meta_ok h" "meta_inv h s"
  shows "meta_inv h (snd (meta_sai_on_fdb_flush_event_consolidated h data s))"
proof (cases "list_ok (fdb_attrs data)")
  case True
  from consolidated_flush [OF assms True] show ?thesis by auto
next
  case False
  then obtain e where "list_elems (fdb_attrs data) = Inl e"
    by (cases "list_elems (fdb_attrs data)") (auto simp: list_ok_def)
  with assms(2) show ?thesis
    by (simp add: meta_sai_on_fdb_flush_event_consolidated_def seq_def lift_def)
qed

lemma forM_keeps:
  "meta_inv h s \<Longrightarrow> (\<And>x s'. x \<in> set xs \<Longrightarrow> meta_inv h s' \<Longrightarrow> meta_inv h (snd (f x s'))) \<Longrightarrow>
     meta_inv h (snd (forM f xs s))"
proof (induction xs arbitrary: s)
  case Nil
  then show ?case by (simp add: ret_def)
next
  case (Cons x xs)
  have "meta_inv h (snd (f x s))" using Cons.prems by simp
  moreover have "meta_inv h (snd (forM f xs s'))" if "meta_inv h s'" for s'
    using Cons.prems(2) by (intro Cons.IH that) simp
  ultimately show ?case by (auto intro!: meta_inv_seqI)
qed

lemma flushFdbEntries_keeps_inv:
  assumes "meta_ok h" "meta_inv h s"
  shows "meta_inv h (snd (flushFdbEntries h f answer sw l s))"
  unfolding flushFdbEntries_def
  by (intro guarded_keeps on_success_keeps forM_keeps consolidated_keeps assms)

section \<open>Events\<close>

lemma if_exists_keeps:
  "meta_inv h s \<Longrightarrow> (objectExists (m_saiObjectCollection s) key \<Longrightarrow> meta_inv h (snd (m s))) \<Longrightarrow>
     meta_inv h (snd (if_exists key m s))"
  by (simp add: if_exists_def seq_def gets_def ret_def)

lemma remove_entry_keeps:
  assumes "meta_ok h" "meta_inv h s"
  shows "meta_inv h (snd (if_exists (fdb_key h data) (post_remove h (fdb_key h data)) s))"
proof (rule if_exists_keeps [OF assms(2)])
  assume "objectExists (m_saiObjectCollection s) (fdb_key h data)"
  moreover have "objecttype (fdb_key h data) = ot h (OT_ENTRY FDB_ENTRY)" by (simp add: fdb_key_def entry_key_def)
  ultimately obtain s' where "post_remove h (fdb_key h data) s = (Inr (), s')" "meta_inv h s'"
    using remove_one_entry [OF assms] by blast
  then show "meta_inv h (snd (post_remove h (fdb_key h data) s))" by simp
qed

lemma learned_keeps:
  assumes "meta_ok h" "meta_inv h s" "create_room h s (fdb_key h data) (elems (learned_attrs h f (fdb_attrs data)))"
  shows "meta_inv h (snd (fdb_learned h f data s))"
proof -
  let ?key = "fdb_key h data"
  have "create_key_ok h ?key (object_id (fdb_entry data)) ?key"
    using metadata_okD(8) [OF meta_okD(1) [OF assms(1)]]
    by (simp add: create_key_ok_def fdb_key_def entry_key_def)
  note post = post_create_keeps_inv [OF assms(1,2) _ this assms(3)]
  show ?thesis
  proof (cases "objectExists (m_saiObjectCollection s) ?key")
    case True
    with assms(2) show ?thesis by (simp add: fdb_learned_def)
  next
    case False
    then show ?thesis
      using assms(2) post by (simp add: fdb_learned_def Let_def split: sum.split)
  qed
qed

lemma move_attr_keeps:
  assumes "meta_ok h" "meta_inv h s" "set_room h s key attr"
  shows "meta_inv h (snd (fdb_move_attr h key attr s))"
proof -
  have "snd (fdb_move_attr h key attr s) = snd (seq (meta_generic_validation_set h key (Some attr)) (\<lambda>st.
     if st \<noteq> SAI_STATUS_SUCCESS then ret st
     else case Some attr of
       None \<Rightarrow> ret SAI_STATUS_SUCCESS
     | Some a \<Rightarrow> on_success SAI_STATUS_SUCCESS (meta_generic_validation_post_set h key a)) s)"
    by (auto simp: fdb_move_attr_def snd_seq on_success_def ret_def split: prod.split sum.split)
  with set_step_keeps_inv [OF assms(1,2), of "Some attr" key SAI_STATUS_SUCCESS] assms(3)
  show ?thesis by simp
qed

lemma move_attrs_keep:
  "meta_ok h \<Longrightarrow> meta_inv h s \<Longrightarrow> move_room h key attrs s \<Longrightarrow> meta_inv h (snd (forM (fdb_move_attr h key) attrs s))"
proof (induction attrs arbitrary: s)
  case Nil
  then show ?case by (simp add: ret_def)
next
  case (Cons attr attrs)
  from Cons.prems have s1: "meta_inv h (snd (fdb_move_attr h key attr s))"
    by (intro move_attr_keeps) simp_all
  then show ?case
    using Cons.IH [OF Cons.prems(1)] Cons.prems(3)
    by (auto intro!: meta_inv_seqI)
qed

lemma fdb_event_keeps_inv:
  assumes "meta_ok h" "meta_inv h s" "fdb_reported_ok h data" "fdb_room h f data (snd (fdb_snoop h data s))"
  shows "meta_inv h (snd (meta_sai_on_fdb_event_single h f data s))"
proof -
  have s1: "meta_inv h (snd (fdb_snoop h data s))"
    by (rule adds_meta_inv [OF adds_fdb_snoop [OF assms(1,3)] assms(2)])
  show ?thesis
    unfolding meta_sai_on_fdb_event_single_def
  proof (rule meta_inv_seqI)
    show "meta_inv h (snd (fdb_snoop h data s))" by (rule s1)
    fix x s'
    assume "fdb_snoop h data s = (Inr x, s')"
    with s1 assms(4) have s': "meta_inv h s'" "fdb_room h f data s'" by simp_all
    show "meta_inv h (snd ((if event_type data = FDB_EVENT_LEARNED f then fdb_learned h f data
       else if event_type data = FDB_EVENT_AGED f then
         if_exists (fdb_key h data) (post_remove h (fdb_key h data))
       else if event_type data = FDB_EVENT_FLUSHED f then
         (if zero_mac f (fdb_entry data) then meta_sai_on_fdb_flush_event_consolidated h data
          else if_exists (fdb_key h data) (post_remove h (fdb_key h data)))
       else if event_type data = FDB_EVENT_MOVE f then
         if_exists (fdb_key h data) (forM (fdb_move_attr h (fdb_key h data)) (elems (fdb_attrs data)))
       else ret ()) s'))"
      using s' learned_keeps [OF assms(1) s'(1)] remove_entry_keeps [OF assms(1) s'(1)]
        consolidated_keeps [OF assms(1) s'(1)] if_exists_keeps [OF s'(1)] move_attrs_keep [OF assms(1) s'(1)]
      by (simp add: fdb_room_def ret_def)
  qed
qed

lemma fdb_events_keep_inv:
  "meta_ok h \<Longrightarrow> meta_inv h s \<Longrightarrow> fdb_events_ok h f evs s \<Longrightarrow>
     meta_inv h (snd (forM (meta_sai_on_fdb_event_single h f) evs s))"
proof (induction evs arbitrary: s)
  case Nil
  then show ?case by (simp add: ret_def)
next
  case (Cons d evs)
  from Cons.prems have s1: "meta_inv h (snd (meta_sai_on_fdb_event_single h f d s))"
    by (intro fdb_event_keeps_inv) simp_all
  then show ?case
    using Cons.IH [OF Cons.prems(1)] Cons.prems(3)
    by (auto intro!: meta_inv_seqI)
qed

text \<open>Any notification, under what is relied on of its events.\<close>

definition notification_ok :: "sai_meta \<Rightarrow> fdb_env \<Rightarrow> ntf_env \<Rightarrow> meta_db \<Rightarrow> notification \<Rightarrow> bool" where
  "notification_ok h f n s ntf \<longleftrightarrow>
     ntf_ok h n \<and> (case ntf of Ntf_Fdb l \<Rightarrow> fdb_events_ok h f (elems l) s | _ \<Rightarrow> True)"

lemma notification_keeps_inv:
  assumes "meta_ok h" "meta_inv h s" "notification_ok h f n s ntf"
  shows "meta_inv h (snd (meta_on_notification h f n ntf s))"
proof (cases "\<exists>l. ntf = Ntf_Fdb l")
  case True
  then obtain l where l: "ntf = Ntf_Fdb l" by blast
  with assms(3) have "fdb_events_ok h f (elems l) s" by (simp add: notification_ok_def)
  with fdb_events_keep_inv [OF assms(1,2)] show ?thesis
    using assms(2) by (simp add: l meta_sai_on_fdb_event_def on_each_def ret_def)
next
  case False
  then show ?thesis
    using assms by (intro adds_meta_inv [OF adds_notification]) (auto simp: notification_ok_def)
qed

end
