(* ===== verification/Meta_Reach.thy ===== *)
theory Meta_Reach
  imports Meta_Bulk_Inv Virtual_Oid Real_Oid Meta_Fdb_Inv
begin

text \<open>
  The queries of the two object id managers meet the contract the metadata layer has for the
  interface below it; and a printed form of keys that can be read back. After it, the states the layer
  can get into, and that the invariant holds in all of them.
\<close>

section \<open>The object id managers as the interface below\<close>

text \<open>
  The switch an id is on, with null where the member function throws (an id whose type is not valid).
\<close>

definition switch_or_null :: "(oid \<Rightarrow> fault + oid) \<Rightarrow> oid \<Rightarrow> oid" where
  "switch_or_null q oid = (case q oid of Inl e \<Rightarrow> 0 | Inr sw \<Rightarrow> sw)"
context oid_layout
begin

lemma layout_queries:
  "oid_queries (headers_ok h) (object_type_valid h) (ot_switch h) type_query (switch_or_null switch_query)"
proof unfold_locales
  assume ok: "headers_ok h"
  show "type_query 0 = 0" by (simp add: type_query_def')
  show "type_query oid \<noteq> 0 \<Longrightarrow> object_type_valid h (type_query oid)" for oid
    by (simp add: type_query_def' Let_def split: if_splits)
  have sw: "ot_switch h \<noteq> 0" using headers_okD(1,5) [OF ok] by auto
  show "type_query oid = ot_switch h \<Longrightarrow> switch_or_null switch_query oid = oid" for oid
    using sw by (simp add: switch_or_null_def switch_query_def')
  show "switch_or_null switch_query oid = 0 \<or> type_query (switch_or_null switch_query oid) = ot_switch h" for oid
    by (rule switch_query_total [OF ok, of oid]) (auto simp: switch_or_null_def)
  show "switch_or_null switch_query 0 = 0" by (simp add: switch_or_null_def switch_query_def')
  show "object_type_valid h (ot_switch h) \<and> ot_switch h \<noteq> 0" using headers_okD(5) [OF ok] sw by simp
qed

end

text \<open>The member functions of the managers answer the same as the static ones.\<close>

lemma redis_switch_or_null:
  "switch_or_null (redis_saiSwitchIdQuery h) = switch_or_null (redis_switchIdQuery h)"
  by (rule ext) (simp add: switch_or_null_def redis_saiSwitchIdQuery_def redis_switchIdQuery_def
      redis_saiObjectTypeQuery_eq Let_def)

interpretation redis_queries: oid_queries "headers_ok h" "object_type_valid h" "ot_switch h"
  "redis_saiObjectTypeQuery h" "switch_or_null (redis_saiSwitchIdQuery h)"
  for h
  using redis_oid.layout_queries [of h]
  by (simp add: redis_switch_or_null redis_saiObjectTypeQuery_eq [abs_def])

interpretation vs_queries: oid_queries "headers_ok h" "object_type_valid h" "ot_switch h"
  "vs_objectTypeQuery h" "switch_or_null (vs_switchIdQuery h)"
  for h
  by (rule vs_oid.layout_queries)

text \<open>So an environment with either for its queries meets that part of the layer's conditions.\<close>

lemma redis_meta_queries:
  assumes "headers_ok m" "objectTypeQuery m = redis_saiObjectTypeQuery (sai_headers.truncate m)"
    "switchIdQuery m = switch_or_null (redis_saiSwitchIdQuery (sai_headers.truncate m))"
  shows "queries_ok m"
proof -
  have "headers_ok (sai_headers.truncate m)"
    using assms(1) by (simp add: headers_ok_def sai_headers.defs)
  moreover have "object_type_valid (sai_headers.truncate m) = object_type_valid m"
    "ot_switch (sai_headers.truncate m) = ot_switch m"
    by (simp_all add: sai_headers.defs)
  ultimately show ?thesis
    using redis_queries.oid_queries_axioms [of "sai_headers.truncate m"] assms(2,3)
    by (simp add: queries_ok_def)
qed

section \<open>Printed keys\<close>

text \<open>
  A printed form of keys that can be read back: the fields as bits, every element of a list after a
  set bit and a clear bit at its end. It stands in for the serialization of the metadata library.
\<close>

definition word_bits :: "'a::len word \<Rightarrow> bool list" where
  "word_bits w = map (bit w) [0 ..< LENGTH('a)]"

definition bits_word :: "bool list \<Rightarrow> 'a::len word" where
  "bits_word bs = horner_sum of_bool 2 bs"

lemma bits_word_bits [simp]: "bits_word (word_bits w) = w"
  by (simp add: bits_word_def word_bits_def horner_sum_bit_eq_take_bit take_bit_word_eq_self)

lemma length_word_bits [simp]: "length (word_bits (w :: 'a::len word)) = LENGTH('a)"
  by (simp add: word_bits_def)

fun list_bits :: "'a::len word list \<Rightarrow> bool list" where
  "list_bits [] = [False]"
| "list_bits (w # ws) = True # word_bits w @ list_bits ws"

text \<open>Reading a list back, with the number of elements as the bound.\<close>

fun bits_list :: "nat \<Rightarrow> bool list \<Rightarrow> 'a::len word list \<times> bool list" where
  "bits_list 0 bs = ([], tl bs)"
| "bits_list (Suc n) [] = ([], [])"
| "bits_list (Suc n) (b # bs) =
     (if b then (case bits_list n (drop LENGTH('a) bs) of (ws, r) \<Rightarrow> (bits_word (take LENGTH('a) bs) # ws, r))
      else ([], bs))"

lemma bits_list_bits: "length ws \<le> n \<Longrightarrow> bits_list n (list_bits ws @ r) = (ws :: 'a::len word list, r)"
proof (induction ws arbitrary: n)
  case Nil
  then show ?case by (cases n) auto
next
  case (Cons w ws)
  then obtain m where "n = Suc m" by (cases n) auto
  with Cons show ?case by simp
qed

lemma length_list_bits: "length ws \<le> length (list_bits ws)"
  by (induction ws) auto

definition key_bits :: "meta_key \<Rightarrow> bool list" where
  "key_bits k = word_bits (objecttype k) @ word_bits (object_id k) @ word_bits (k_bv_id k) @
     word_bits (k_rif_id k) @ word_bits (k_vr_id k) @ word_bits (k_type k) @ word_bits (k_ip_family k) @
     word_bits (k_destination_family k) @ word_bits (k_source_family k) @
     list_bits (k_destination_mask6 k) @ list_bits (k_other k)"

definition bits_key :: "bool list \<Rightarrow> meta_key" where
  "bits_key bs =
     (let w32 = (\<lambda>n. bits_word (take 32 (drop n bs)) :: u32);
          w64 = (\<lambda>n. bits_word (take 64 (drop n bs)) :: u64);
          (mask6, r) = bits_list (length bs) (drop 416 bs);
          (others, r') = bits_list (length bs) r
      in \<lparr>objecttype = w32 0, object_id = w64 32, k_bv_id = w64 96, k_rif_id = w64 160, k_vr_id = w64 224,
         k_type = w32 288, k_ip_family = w32 320, k_destination_family = w32 352,
         k_destination_mask6 = mask6, k_source_family = w32 384, k_other = others\<rparr>)"

lemma bits_key_bits: "bits_key (key_bits k) = k"
proof -
  let ?m = "list_bits (k_destination_mask6 k)"
  let ?o = "list_bits (k_other k)"
  have d: "drop 416 (key_bits k) = ?m @ ?o" by (simp add: key_bits_def)
  have l: "length (k_destination_mask6 k) \<le> length (key_bits k)" "length (k_other k) \<le> length (key_bits k)"
    using length_list_bits [of "k_destination_mask6 k"] length_list_bits [of "k_other k"]
    by (simp_all add: key_bits_def)
  have "bits_list (length (key_bits k)) (drop 416 (key_bits k)) = (k_destination_mask6 k, ?o)"
    unfolding d by (rule bits_list_bits [OF l(1)])
  moreover have "bits_list (length (key_bits k)) ?o = (k_other k, [])"
    using bits_list_bits [OF l(2), of "[]"] by simp
  ultimately show ?thesis
    by (simp add: bits_key_def) (simp add: key_bits_def)
qed

definition demo_print_key :: "meta_key \<Rightarrow> string" where
  "demo_print_key k = map (\<lambda>b. if b then CHR ''1'' else CHR ''0'') (key_bits k)"

definition demo_read_key :: "string \<Rightarrow> meta_key option" where
  "demo_read_key s = Some (bits_key (map (\<lambda>c. c = CHR ''1'') s))"

lemma demo_key_roundtrip: "demo_read_key (demo_print_key k) = Some k"
  by (simp add: demo_read_key_def demo_print_key_def o_def bits_key_bits)

text \<open>
  The states the metadata layer can get into by its calls and by the notifications of the vendor,
  whatever the interface below answers within its contract, and the properties of all of them.
\<close>

section \<open>Steps\<close>

inductive meta_step :: "sai_meta \<Rightarrow> meta_db \<Rightarrow> meta_db \<Rightarrow> bool" for h where
  step_create: "create_room h s (oid_key t 0) (elems l) \<Longrightarrow> new_oid_ok h t sw (snd answer) \<Longrightarrow>
    meta_step h s (snd (meta_create h answer t p sw l s))"
| step_create_entry: "(\<And>e. entry = Some e \<Longrightarrow> create_room h s (entry_key h kind e) (elems l)) \<Longrightarrow>
    meta_step h s (snd (meta_create_entry h st kind entry l s))"
| step_remove: "meta_step h s (snd (meta_remove h st t x s))"
| step_remove_entry: "meta_step h s (snd (meta_remove_entry h st kind entry s))"
| step_set: "(\<And>a. attr = Some a \<Longrightarrow> set_room h s (oid_key t x) a) \<Longrightarrow>
    meta_step h s (snd (meta_set h st t x attr s))"
| step_set_entry: "(\<And>e a. entry = Some e \<Longrightarrow> attr = Some a \<Longrightarrow> set_room h s (entry_key h kind e) a) \<Longrightarrow>
    meta_step h s (snd (meta_set_entry h st kind entry attr s))"
| step_get: "get_result_ok h (oid_key t x) (snd answer) \<Longrightarrow>
    meta_step h s (snd (meta_get h answer t x l s))"
| step_get_entry: "(\<And>e. entry = Some e \<Longrightarrow> get_result_ok h (entry_key h kind e) (snd answer)) \<Longrightarrow>
    meta_step h s (snd (meta_get_entry h answer kind entry l s))"
| step_bulk_create: "refs_bound h (m_saiObjectCollection s) (concat (map (\<lambda>l. concat (map (attr_oids h (oid_key t 0)) (elems l))) ls)) \<Longrightarrow>
    \<forall>(x, st) \<in> set (snd answer). st = SAI_STATUS_SUCCESS \<longrightarrow> new_oid_ok h t sw x \<Longrightarrow>
    meta_step h s (snd (meta_bulkCreate h answer t sw ls mode_ok s))"
| step_bulk_create_entry:
    "refs_bound h (m_saiObjectCollection s) (concat (map (\<lambda>(e, l). entry_oids h (entry_key h kind e) (elems l)) es)) \<Longrightarrow>
    meta_step h s (snd (meta_bulkCreate_entry h answers kind es mode_ok s))"
| step_bulk_remove: "meta_step h s (snd (meta_bulkRemove h answers t oids mode_ok s))"
| step_bulk_remove_entry: "meta_step h s (snd (meta_bulkRemove_entry h answers kind entries mode_ok s))"
| step_bulk_set: "refs_bound h (m_saiObjectCollection s) (concat (map (\<lambda>(x, attr). attr_oids h (oid_key t x) attr) items)) \<Longrightarrow>
    meta_step h s (snd (meta_bulkSet h answers t items mode_ok s))"
| step_bulk_set_entry:
    "refs_bound h (m_saiObjectCollection s) (concat (map (\<lambda>(e, attr). attr_oids h (entry_key h kind e) attr) entry_items)) \<Longrightarrow>
    meta_step h s (snd (meta_bulkSet_entry h answers kind entry_items mode_ok s))"
| step_bulk_get: "\<forall>((x, l), attrs, st) \<in> set (zip asked (snd got)). get_result_ok h (oid_key t x) attrs \<Longrightarrow>
    meta_step h s (snd (meta_bulkGet h got t asked mode_ok s))"
| step_bulk_get_entry: "meta_step h s (snd (meta_bulkGet_entry s))"
| step_populate: "dump_ready h s dump \<Longrightarrow> meta_step h s (snd (meta_populate h (map Inr dump) s))"
| step_flush: "meta_step h s (snd (flushFdbEntries h f st x l s))"
| step_notification: "notification_ok h f n s ntf \<Longrightarrow> meta_step h s (snd (meta_on_notification h f n ntf s))"
| step_warm_boot: "meta_step h s (snd (meta_warm_boot_notify s))"
| step_init_db: "meta_step h s (snd (meta_init_db s))"
| step_unittests: "meta_step h s (snd (meta_unittests_enable b s))"
| step_allow_readonly: "meta_step h s (snd (meta_unittests_allow_readonly_set_once h t a s))"

inductive meta_reachable :: "sai_meta \<Rightarrow> meta_db \<Rightarrow> bool" for h where
  reach_new: "meta_reachable h meta_new"
| reach_step: "meta_reachable h s \<Longrightarrow> meta_step h s s' \<Longrightarrow> meta_reachable h s'"

lemma meta_inv_empty:
  "m_oids s = [] \<Longrightarrow> m_saiObjectCollection s = [] \<Longrightarrow> m_attrKeys s = [] \<Longrightarrow> m_portRelatedSet s = [] \<Longrightarrow>
     meta_inv h s"
  by (simp add: meta_inv_def db_inv_def counted_def attrkeys_ok_def ports_ok_def)

lemma meta_step_inv:
  assumes "meta_ok h"
  shows "meta_step h s s' \<Longrightarrow> meta_inv h s \<Longrightarrow> meta_inv h s'"
proof (induction rule: meta_step.induct)
  case (step_create s t l sw answer p)
  then show ?case by (intro meta_create_keeps_inv [OF assms])
next
  case (step_create_entry entry s kind l st)
  then show ?case by (intro meta_create_entry_keeps_inv [OF assms])
next
  case (step_remove s st t x)
  then show ?case by (rule meta_remove_keeps_inv [OF assms])
next
  case (step_remove_entry s st kind entry)
  then show ?case by (rule meta_remove_entry_keeps_inv [OF assms])
next
  case (step_set attr s t x st)
  then show ?case by (intro meta_set_keeps_inv [OF assms])
next
  case (step_set_entry entry attr s kind st)
  then show ?case by (intro meta_set_entry_keeps_inv [OF assms])
next
  case (step_get t x answer s l)
  then show ?case by (intro meta_get_keeps_inv [OF assms])
next
  case (step_get_entry entry kind answer s l)
  then show ?case by (intro meta_get_entry_keeps_inv [OF assms])
next
  case (step_bulk_create s t ls answer sw mode_ok)
  then show ?case by (intro meta_bulkCreate_keeps_inv [OF assms])
next
  case (step_bulk_create_entry s kind es answers mode_ok)
  then show ?case by (intro meta_bulkCreate_entry_keeps_inv [OF assms])
next
  case (step_bulk_remove s answers t oids mode_ok)
  then show ?case by (rule meta_bulkRemove_keeps_inv [OF assms])
next
  case (step_bulk_remove_entry s answers kind entries mode_ok)
  then show ?case by (rule meta_bulkRemove_entry_keeps_inv [OF assms])
next
  case (step_bulk_set s t items answers mode_ok)
  then show ?case by (intro meta_bulkSet_keeps_inv [OF assms])
next
  case (step_bulk_set_entry s kind entry_items answers mode_ok)
  then show ?case by (intro meta_bulkSet_entry_keeps_inv [OF assms])
next
  case (step_bulk_get asked got t s mode_ok)
  then show ?case by (intro meta_bulkGet_keeps_inv [OF assms])
next
  case (step_bulk_get_entry s)
  then show ?case by (simp add: meta_bulkGet_entry_def ret_def)
next
  case (step_populate s dump)
  then show ?case by (intro populate_keeps_inv [OF assms])
next
  case (step_flush s f st x l)
  then show ?case by (rule flushFdbEntries_keeps_inv [OF assms])
next
  case (step_notification f n s ntf)
  then show ?case by (intro notification_keeps_inv [OF assms])
next
  case (step_warm_boot s)
  then show ?case by (simp add: meta_warm_boot_notify_def modify_def meta_inv_def db_inv_def)
next
  case (step_init_db s)
  show ?case by (rule meta_inv_empty) (simp_all add: meta_init_db_def modify_def)
next
  case (step_unittests s b)
  then show ?case by (simp add: meta_unittests_enable_def modify_def meta_inv_def db_inv_def)
next
  case (step_allow_readonly s t a)
  then show ?case
    by (simp add: meta_unittests_allow_readonly_set_once_def meta_inv_def db_inv_def split: option.split)
qed

lemma meta_reachable_inv:
  assumes "meta_ok h"
  shows "meta_reachable h s \<Longrightarrow> meta_inv h s"
proof (induction rule: meta_reachable.induct)
  case reach_new
  show ?case by (rule meta_inv_empty) (simp_all add: meta_new_def)
next
  case (reach_step s s')
  then show ?case using meta_step_inv [OF assms] by blast
qed

section \<open>Room for references, by evaluation\<close>

definition stored_refs :: "sai_meta \<Rightarrow> object_collection \<Rightarrow> nat" where
  "stored_refs h c = alist_sum (\<lambda>k obj. length (object_oids h k obj)) c"

lemma total_le_stored: "total_refs h c x \<le> stored_refs h c"
proof (induction c)
  case Nil
  show ?case by (simp add: total_refs_def stored_refs_def)
next
  case (Cons p c)
  have "count_list (object_oids h (fst p) (snd p)) x \<le> length (object_oids h (fst p) (snd p))"
    by (rule count_le_length)
  with Cons show ?case
    by (cases p) (simp add: total_refs_def stored_refs_def object_refs_count_oids)
qed

lemma refs_boundI:
  assumes "int (stored_refs h c + length xs) \<le> INT32_MAX"
  shows "refs_bound h c xs"
  unfolding refs_bound_def
proof (intro allI impI)
  fix x :: oid
  have "total_refs h c x + count_list xs x \<le> stored_refs h c + length xs"
    using total_le_stored [of h c x] count_le_length [of xs x] by linarith
  with assms show "total_refs h c x + count_list xs x \<le> nat INT32_MAX" by linarith
qed

end
