(* ===== verification/Meta_Demo.thy ===== *)
theory Meta_Demo
  imports Meta_Reach
begin

text \<open>
  A small concrete environment the properties of the metadata layer are applied in (a switch, ports
  with queues, virtual routers and routes), and a run of the layer on it.
\<close>

section \<open>A small environment\<close>

definition demo_md :: "object_type \<Rightarrow> u32 \<Rightarrow> string \<Rightarrow> value_type \<Rightarrow> attr_md" where
  "demo_md t a name vt = \<lparr>md_objecttype = t, md_attrid = a, md_attridname = name, md_attrvaluetype = vt,
     md_flag_key = False, md_flag_read_only = False, md_flag_mandatory_on_create = False,
     md_flag_create_only = False, md_isreadonly = False, md_isoidattribute = False,
     md_allownullobjectid = True, md_isenum = False, md_isenumlist = False, md_isconditional = False,
     md_isconditionrelaxed = False, md_isdeprecated = False, md_default_s32 = 0\<rparr>"

text \<open>A switch (33), ports (1), virtual routers (3), queues (21) and routes (27).\<close>

definition demo_attrs :: "attr_md list" where
  "demo_attrs = [
     demo_md 33 0 ''INIT_SWITCH'' (VT_PRIM PT_BOOL),
     (demo_md 33 1 ''DEFAULT_VR'' VT_OBJECT_ID)\<lparr>md_isoidattribute := True\<rparr>,
     (demo_md 1 0 ''HW_LANE_LIST'' (VT_LIST LT_UINT32))\<lparr>md_flag_mandatory_on_create := True, md_flag_key := True\<rparr>,
     (demo_md 1 1 ''QUEUE_LIST'' VT_OBJECT_LIST)\<lparr>md_isoidattribute := True, md_flag_read_only := True, md_isreadonly := True\<rparr>,
     (demo_md 1 2 ''VR'' VT_OBJECT_ID)\<lparr>md_isoidattribute := True\<rparr>,
     (demo_md 1 3 ''FEC_LIST'' (VT_LIST LT_INT32))\<lparr>md_isenumlist := True\<rparr>,
     demo_md 1 4 ''TAPS'' (VT_LIST LT_TAPS),
     demo_md 3 0 ''ADMIN_V4'' (VT_PRIM PT_BOOL),
     demo_md 21 0 ''TYPE'' (VT_PRIM PT_INT32),
     (demo_md 27 0 ''PACKET_ACTION'' (VT_PRIM PT_INT32))\<lparr>md_isenum := True\<rparr>,
     (demo_md 27 1 ''NEXT_HOP'' VT_OBJECT_ID)\<lparr>md_isoidattribute := True\<rparr>]"

definition demo_get_attr_metadata :: "object_type \<Rightarrow> u32 \<Rightarrow> attr_md option" where
  "demo_get_attr_metadata t a = find (\<lambda>md. md_objecttype md = t \<and> md_attrid md = a) demo_attrs"

definition demo_info :: "object_type \<Rightarrow> ot_info option" where
  "demo_info t =
     (if t = 33 \<or> t = 1 \<or> t = 3 \<or> t = 21 then
        Some \<lparr>isnonobjectid = False, structmembers = [],
              attrmetadata = filter (\<lambda>md. md_objecttype md = t) demo_attrs\<rparr>
      else if t = 27 then
        Some \<lparr>isnonobjectid = True,
              structmembers = [\<lparr>sm_membervaluetype = VT_OBJECT_ID, sm_getoid = object_id, sm_setoid = (\<lambda>x. object_id_update (\<lambda>_. x)), sm_allowedobjecttypes = [33]\<rparr>,
                \<lparr>sm_membervaluetype = VT_OBJECT_ID, sm_getoid = k_vr_id, sm_setoid = (\<lambda>x. k_vr_id_update (\<lambda>_. x)), sm_allowedobjecttypes = [3]\<rparr>,
                \<lparr>sm_membervaluetype = VT_IP_PREFIX, sm_getoid = (\<lambda>k. 0), sm_setoid = (\<lambda>x k. k), sm_allowedobjecttypes = []\<rparr>],
              attrmetadata = filter (\<lambda>md. md_objecttype md = 27) demo_attrs\<rparr>
      else None)"

definition demo_hdr :: sai_headers where
  "demo_hdr = \<lparr>object_type_valid = (\<lambda>t. t = 33 \<or> t = 1 \<or> t = 3 \<or> t = 21 \<or> t = 27),
     ext_range_start = 0x20000000, ot_switch = 33\<rparr>"

definition demo_meta :: sai_meta where
  "demo_meta = \<lparr>object_type_valid = (\<lambda>t. t = 33 \<or> t = 1 \<or> t = 3 \<or> t = 21 \<or> t = 27),
     ext_range_start = 0x20000000, ot_switch = 33,
     ot = (\<lambda>n. if n = OT_PORT then 1 else if n = OT_VIRTUAL_ROUTER then 3
               else if n = OT_ENTRY ROUTE_ENTRY then 27 else 200),
     attr_id = (\<lambda>n. if n = SWITCH_ATTR_INIT_SWITCH then 0 else if n = PORT_ATTR_QOS_QUEUE_LIST then 1 else 100),
     const = (\<lambda>n. if n = IP_ADDR_FAMILY_IPV4 then 0 else if n = IP_ADDR_FAMILY_IPV6 then 1 else 16),
     get_attr_metadata = demo_get_attr_metadata,
     get_object_type_info = demo_info,
     get_attr_by_id = (\<lambda>a l. find (\<lambda>attr. a_id attr = a) l),
     is_condition_met = (\<lambda>md l. False),
     is_allowed_enum_value = (\<lambda>md v. v = 0 \<or> v = 1),
     is_allowed_object_type = (\<lambda>md t. if md_attridname md = ''QUEUE_LIST'' then t = 21 else t = 1 \<or> t = 3),
     objectTypeQuery = redis_saiObjectTypeQuery demo_hdr,
     switchIdQuery = switch_or_null (redis_saiSwitchIdQuery demo_hdr),
     attr_copy = (\<lambda>md v. v),
     serialize_meta_key = demo_print_key,
     deserialize_meta_key = demo_read_key\<rparr>"

lemma demo_headers_meta_ok: "headers_ok demo_meta"
  by (auto simp: headers_ok_def demo_meta_def word_le_nat_alt word_less_nat_alt)

lemma demo_attr_cases:
  assumes "demo_get_attr_metadata t a = Some md"
  shows "md \<in> set demo_attrs" "md_objecttype md = t" "md_attrid md = a"
  using assms by (auto simp: demo_get_attr_metadata_def find_Some_iff)

lemma demo_metadata_ok: "metadata_ok demo_meta"
proof -
  have attrs: "(oid_value_type (md_attrvaluetype md) \<longrightarrow> md_isoidattribute md) \<and>
      md_attrvaluetype md \<noteq> VT_ACL_CAPABILITY" if "md \<in> set demo_attrs" for md
    using that by (auto simp: demo_attrs_def demo_md_def oid_value_type_def)
  show ?thesis
    using demo_attr_cases attrs
    by (auto simp: metadata_ok_def demo_meta_def demo_info_def split: if_splits)
qed

lemma demo_meta_ok: "meta_ok demo_meta"
proof -
  have "sai_headers.truncate demo_meta = demo_hdr"
    by (simp add: demo_meta_def demo_hdr_def sai_headers.defs)
  then have "queries_ok demo_meta"
    by (intro redis_meta_queries demo_headers_meta_ok) (simp_all add: demo_meta_def)
  moreover have "copy_ok demo_meta" by (simp add: copy_ok_def demo_meta_def)
  moreover have "keys_ok demo_meta" by (simp add: keys_ok_def demo_meta_def demo_key_roundtrip)
  ultimately show ?thesis
    using demo_metadata_ok by (simp add: meta_ok_def) (simp add: demo_meta_def)
qed

section \<open>A run\<close>

text \<open>The ids the manager hands out.\<close>

definition demo_switch :: oid where "demo_switch = 0x0021000000000000"
definition demo_vr :: oid where "demo_vr = 0x0003000000000001"
definition demo_port :: oid where "demo_port = 0x0001000000000002"
definition demo_queue :: oid where "demo_queue = 0x0015000000000003"

lemmas demo_ids = demo_switch_def demo_vr_def demo_port_def demo_queue_def

lemma demo_ids_simps [simp]:
  "demo_switch \<noteq> 0" "demo_vr \<noteq> 0" "demo_port \<noteq> 0" "demo_queue \<noteq> 0"
  "demo_switch \<noteq> demo_vr" "demo_switch \<noteq> demo_port" "demo_switch \<noteq> demo_queue" "demo_vr \<noteq> demo_port"
  "demo_vr \<noteq> demo_queue" "demo_port \<noteq> demo_queue"
  "demo_vr \<noteq> demo_switch" "demo_port \<noteq> demo_switch" "demo_queue \<noteq> demo_switch" "demo_port \<noteq> demo_vr"
  "demo_queue \<noteq> demo_vr" "demo_queue \<noteq> demo_port"
  by (simp_all add: demo_ids)

lemma demo_types [simp]:
  "objectTypeQuery demo_meta 0 = 0"
  "objectTypeQuery demo_meta demo_switch = 33" "objectTypeQuery demo_meta demo_vr = 3"
  "objectTypeQuery demo_meta demo_port = 1" "objectTypeQuery demo_meta demo_queue = 21"
  by code_simp+

lemma demo_switches [simp]:
  "switchIdQuery demo_meta 0 = 0"
  "switchIdQuery demo_meta demo_switch = demo_switch" "switchIdQuery demo_meta demo_vr = demo_switch"
  "switchIdQuery demo_meta demo_port = demo_switch" "switchIdQuery demo_meta demo_queue = demo_switch"
  by code_simp+

lemma demo_meta_sel [simp]:
  "object_type_valid demo_meta t \<longleftrightarrow> t = 33 \<or> t = 1 \<or> t = 3 \<or> t = 21 \<or> t = 27"
  "ot_switch demo_meta = 33" "ot demo_meta OT_PORT = 1" "ot demo_meta OT_VIRTUAL_ROUTER = 3"
  "ot demo_meta (OT_ENTRY ROUTE_ENTRY) = 27"
  "attr_id demo_meta SWITCH_ATTR_INIT_SWITCH = 0" "attr_id demo_meta PORT_ATTR_QOS_QUEUE_LIST = 1"
  "const demo_meta IP_ADDR_FAMILY_IPV4 = 0"
  "get_attr_metadata demo_meta = demo_get_attr_metadata"
  "get_object_type_info demo_meta = demo_info"
  "is_condition_met demo_meta md l = False"
  "is_allowed_enum_value demo_meta md v \<longleftrightarrow> v = 0 \<or> v = 1"
  "is_allowed_object_type demo_meta md t \<longleftrightarrow> (if md_attridname md = ''QUEUE_LIST'' then t = 21 else t = 1 \<or> t = 3)"
  "attr_copy demo_meta md x = x"
  "serialize_meta_key demo_meta = demo_print_key"
  "deserialize_meta_key demo_meta = demo_read_key"
  by (auto simp: demo_meta_def)

lemma demo_get_attr_by_id:
  "get_attr_by_id demo_meta a l = find (\<lambda>attr. a_id attr = a) l"
  by (simp add: demo_meta_def)

lemma demo_other_names [simp]:
  "ot demo_meta OT_HOSTIF = 200" "ot demo_meta OT_BUFFER_PROFILE = 200" "ot demo_meta OT_ACL_TABLE = 200"
  "ot demo_meta OT_SCHEDULER_GROUP = 200"
  "n \<noteq> SWITCH_ATTR_INIT_SWITCH \<Longrightarrow> n \<noteq> PORT_ATTR_QOS_QUEUE_LIST \<Longrightarrow> attr_id demo_meta n = 100"
  by (simp_all add: demo_meta_def)

lemma demo_not_dash [simp]:
  "isDashObjectType demo_meta t \<longleftrightarrow> t = 200"
  by (auto simp: demo_meta_def isDashObjectType_def kDashTypes_def)

definition demo_value :: attr_value where
  "demo_value = \<lparr>v_booldata = True, v_chardata = [], v_u8 = 0, v_u16 = 0, v_u32 = 0, v_s32 = 0, v_oid = 0,
     v_objlist = Null_List 0, v_ipaddr_family = 0, v_ipprefix_family = 0,
     v_aclfield = \<lparr>acl_enable = False, acl_oid = 0, acl_objlist = Null_List 0, acl_s32 = 0\<rparr>,
     v_aclaction = \<lparr>acl_enable = False, acl_oid = 0, acl_objlist = Null_List 0, acl_s32 = 0\<rparr>,
     v_u32list = Null_List 0, v_s32list = Null_List 0, v_u16rangelist = Null_List 0,
     v_u64rangelist = Null_List 0, v_u32range = (0, 0), v_s32range = (0, 0), v_vlanlist = Null_List 0,
     v_aclcapability_list = (0, True), v_lists = (\<lambda>l. (0, True))\<rparr>"

lemma demo_value_sel [simp]:
  "v_booldata demo_value" "v_oid demo_value = 0" "v_s32 demo_value = 0" "v_objlist demo_value = Null_List 0"
  "v_s32list demo_value = Null_List 0" "v_u32list demo_value = Null_List 0"
  "v_lists demo_value = (\<lambda>l. (0, True))"
  by (simp_all add: demo_value_def)

text \<open>The attributes of the run, and what is stored for each.\<close>

definition demo_a_init :: sai_attribute where "demo_a_init = \<lparr>a_id = 0, a_value = demo_value\<rparr>"
definition demo_a_lanes :: sai_attribute where
  "demo_a_lanes = \<lparr>a_id = 0, a_value = demo_value\<lparr>v_u32list := Sai_List [1, 2]\<rparr>\<rparr>"
definition demo_a_vr :: sai_attribute where
  "demo_a_vr = \<lparr>a_id = 2, a_value = demo_value\<lparr>v_oid := demo_vr\<rparr>\<rparr>"
definition demo_a_hop :: sai_attribute where "demo_a_hop = \<lparr>a_id = 1, a_value = demo_value\<rparr>"
definition demo_a_queues :: sai_attribute where
  "demo_a_queues = \<lparr>a_id = 1, a_value = demo_value\<lparr>v_objlist := Sai_List [demo_queue]\<rparr>\<rparr>"

lemmas demo_a_defs = demo_a_init_def demo_a_lanes_def demo_a_vr_def demo_a_hop_def demo_a_queues_def

definition demo_stored :: "object_type \<Rightarrow> sai_attribute \<Rightarrow> u32 \<times> attr_wrapper" where
  "demo_stored t a = (a_id a, \<lparr>w_meta = the (demo_get_attr_metadata t (a_id a)), w_attr = a\<rparr>)"

definition demo_object :: "meta_key \<Rightarrow> sai_attribute list \<Rightarrow> meta_key \<times> sai_object" where
  "demo_object k attrs = (k, \<lparr>m_metaKey = k, m_attrs = map (demo_stored (objecttype k)) attrs\<rparr>)"

definition demo_route :: meta_key where
  "demo_route = (oid_key 27 demo_switch)\<lparr>k_vr_id := demo_vr\<rparr>"

text \<open>
  The states of the run: a switch is created, a virtual router, a port that refers to the router, a
  route of the router, and the port is asked for its queues.
\<close>

definition demo_db1 :: meta_db where
  "demo_db1 = meta_new\<lparr>m_oids := [(demo_switch, 0)],
     m_saiObjectCollection := [demo_object (oid_key 33 demo_switch) [demo_a_init]]\<rparr>"

definition demo_db2 :: meta_db where
  "demo_db2 = meta_new\<lparr>m_oids := [(demo_switch, 0), (demo_vr, 0)],
     m_saiObjectCollection := [demo_object (oid_key 33 demo_switch) [demo_a_init],
       demo_object (oid_key 3 demo_vr) [demo_a_init]]\<rparr>"

definition demo_db3 :: meta_db where
  "demo_db3 = meta_new\<lparr>m_oids := [(demo_switch, 0), (demo_vr, 1), (demo_port, 0)],
     m_saiObjectCollection := [demo_object (oid_key 33 demo_switch) [demo_a_init],
       demo_object (oid_key 3 demo_vr) [demo_a_init],
       demo_object (oid_key 1 demo_port) [demo_a_lanes, demo_a_vr]],
     m_attrKeys := [(demo_print_key (oid_key 1 demo_port), ''oid:0x21000000000000;HW_LANE_LIST:1,2;'')]\<rparr>"

definition demo_db4 :: meta_db where
  "demo_db4 = demo_db3\<lparr>m_oids := [(demo_switch, 1), (demo_vr, 2), (demo_port, 0)],
     m_saiObjectCollection := m_saiObjectCollection demo_db3 @ [demo_object demo_route [demo_a_hop]]\<rparr>"

definition demo_db5 :: meta_db where
  "demo_db5 = demo_db4\<lparr>m_oids := m_oids demo_db4 @ [(demo_queue, 0)],
     m_saiObjectCollection := m_saiObjectCollection demo_db4 @ [demo_object (oid_key 21 demo_queue) []],
     m_portRelatedSet := [(demo_port, [demo_queue])]\<rparr>"

lemmas demo_metadata = demo_get_attr_metadata_def demo_attrs_def demo_md_def demo_info_def

lemmas demo_validation = guarded_def meta_sai_validate_oid_def meta_generic_validation_create_def
  create_switch_check_def create_steps_def meta_generic_validate_non_object_on_create_def
  create_attr_check_def create_value_check_def enum_check_def enum_list_check_def create_exists_check_def
  create_metadata_check_def get_attributes_metadata_def mandatory_check_def conditional_check_def
  create_key_check_def attr_is_key_def create_on_switch_check_def meta_extract_switch_id_def
  objectExists_def objectReferenceExists_def has_key_def check_all.simps

lemmas demo_update = on_success_def seq_def ret_def meta_generic_validation_post_create_def
  post_create_connect_def demo_get_attr_by_id post_create_object_def gets_def zoom_def createObject_def
  sai_object_new_def post_create_references_def post_create_reference_def objectReferenceInsert_def
  post_create_attributes_def modify_def post_create_attr_def post_create_attr_refs_def setObjectAttr_def
  setAttr_def attr_wrapper_new_def shouldCache_iff

lemma demo_create_switch:
  "meta_create demo_meta (SAI_STATUS_SUCCESS, demo_switch) 33 (Some 0) 0 (Sai_List [demo_a_init]) meta_new =
     (Inr SAI_STATUS_SUCCESS, demo_db1)"
  by (simp add: meta_create_def demo_validation demo_update demo_metadata demo_db1_def demo_object_def
      demo_stored_def demo_a_defs meta_new_def MAX_LIST_COUNT_def)

lemmas demo_states = demo_db1_def demo_db2_def demo_db3_def demo_db4_def demo_db5_def demo_object_def
  demo_stored_def demo_a_defs meta_new_def

lemma demo_create_vr:
  "meta_create demo_meta (SAI_STATUS_SUCCESS, demo_vr) 3 (Some 0) demo_switch (Sai_List [demo_a_init]) demo_db1 =
     (Inr SAI_STATUS_SUCCESS, demo_db2)"
  by (simp add: meta_create_def demo_validation demo_update demo_metadata demo_states MAX_LIST_COUNT_def)

lemma demo_print_switch: "sai_serialize_object_id demo_switch = ''oid:0x21000000000000''"
  by (simp add: sai_serialize_object_id_def demo_switch_def print_nat.simps digit_char_def)

lemma demo_print_digits: "print_nat 10 (unat (1 :: u32)) = ''1''" "print_nat 10 (unat (2 :: u32)) = ''2''"
  by code_simp+

lemma demo_port_key:
  "constructKey demo_meta demo_switch (oid_key 1 k) [demo_a_lanes, demo_a_vr] =
     Inr ''oid:0x21000000000000;HW_LANE_LIST:1,2;''"
  using demo_print_digits
  by (simp add: constructKey_def demo_metadata demo_a_defs key_value_def demo_print_switch)

lemma demo_port_validated:
  "meta_generic_validation_create demo_meta demo_db2 (oid_key 1 0) demo_switch (Sai_List [demo_a_lanes, demo_a_vr]) = ok"
proof -
  have keys: "create_key_check demo_meta demo_db2 (oid_key 1 0) demo_switch [demo_a_lanes, demo_a_vr] = ok"
    by (simp add: create_key_check_def demo_port_key attrKeyExists_def demo_db2_def meta_new_def)
  have attrs: "create_attrs_check demo_meta demo_db2 (oid_key 1 0) demo_switch [] [demo_a_lanes, demo_a_vr] = ok"
    by (simp add: demo_validation demo_metadata demo_states list_header_def VALIDATION_LIST_header_def
      meta_genetic_validation_list_def meta_generic_validation_objlist_def MAX_LIST_COUNT_def)
  have rest: "create_metadata_check demo_meta demo_db2 (oid_key 1 0) [demo_a_lanes, demo_a_vr] = ok"
    by (simp add: demo_validation demo_metadata demo_a_defs)
  show ?thesis
    using keys attrs rest
    by (simp add: meta_generic_validation_create_def create_steps_def meta_extract_switch_id_def
        create_on_switch_check_def meta_generic_validate_non_object_on_create_def create_exists_check_def
        demo_info_def MAX_LIST_COUNT_def)
       (simp add: demo_db2_def demo_object_def objectExists_def objectReferenceExists_def has_key_def)
qed

lemma demo_port_post:
  "meta_generic_validation_post_create demo_meta (oid_key 1 demo_port) demo_switch [demo_a_lanes, demo_a_vr] demo_db2 =
     (Inr (), demo_db3)"
proof -
  let ?objs = "m_saiObjectCollection demo_db2"
  let ?a = "demo_db2\<lparr>m_saiObjectCollection := ?objs @ [demo_object (oid_key 1 demo_port) []]\<rparr>"
  let ?b = "?a\<lparr>m_oids := [(demo_switch, 0), (demo_vr, 0), (demo_port, 0)]\<rparr>"
  let ?c = "?b\<lparr>m_saiObjectCollection := ?objs @ [demo_object (oid_key 1 demo_port) [demo_a_lanes]]\<rparr>"
  let ?d = "?b\<lparr>m_oids := [(demo_switch, 0), (demo_vr, 1), (demo_port, 0)],
    m_saiObjectCollection := ?objs @ [demo_object (oid_key 1 demo_port) [demo_a_lanes, demo_a_vr]]\<rparr>"
  have conn: "\<not> post_create_connect demo_meta (oid_key 1 demo_port) [demo_a_lanes, demo_a_vr]"
    by (simp add: post_create_connect_def)
  have obj: "post_create_object demo_meta (oid_key 1 demo_port) False demo_db2 = (Inr (), ?a)"
    by (simp add: demo_update demo_db2_def demo_object_def meta_new_def objectExists_def has_key_def)
  have refs: "post_create_references demo_meta (oid_key 1 demo_port) demo_switch False ?a = (Inr (), ?b)"
    by (simp add: demo_update demo_db2_def meta_new_def objectReferenceExists_def has_key_def demo_info_def)
  have lanes: "post_create_attr demo_meta (oid_key 1 demo_port) demo_a_lanes ?b = (Inr (), ?c)"
    by (simp add: demo_update demo_db2_def demo_a_lanes_def demo_metadata demo_object_def demo_stored_def)
  have vr: "post_create_attr demo_meta (oid_key 1 demo_port) demo_a_vr ?c = (Inr (), ?d)"
    by (simp add: demo_update demo_db2_def demo_a_vr_def demo_metadata demo_object_def demo_stored_def
        demo_a_lanes_def objectReferenceIncrement_def objectReferenceExists_def ref_at_def has_key_def INT32_MAX_def)
  have warm: "?b\<lparr>m_warmBoot := False\<rparr> = ?b" by (simp add: demo_db2_def meta_new_def)
  have key: "\<exists>attr \<in> set [demo_a_lanes, demo_a_vr]. attr_is_key demo_meta 1 attr"
    by (simp add: attr_is_key_def demo_metadata demo_a_lanes_def)
  have "post_create_attributes demo_meta (oid_key 1 demo_port) demo_switch [demo_a_lanes, demo_a_vr] ?b =
      (Inr (), ?d\<lparr>m_attrKeys := [(demo_print_key (oid_key 1 demo_port), ''oid:0x21000000000000;HW_LANE_LIST:1,2;'')]\<rparr>)"
    using warm lanes vr key
    by (simp add: post_create_attributes_def seq_def modify_def demo_port_key lift_def zoom_def attrkey_insert_def)
       (simp add: demo_db2_def meta_new_def ret_def)
  then show ?thesis
    using conn obj refs
    by (simp add: meta_generic_validation_post_create_def seq_def)
      (simp add: demo_db3_def demo_db2_def meta_new_def)
qed

lemma demo_create_port:
  "meta_create demo_meta (SAI_STATUS_SUCCESS, demo_port) 1 (Some 0) demo_switch
     (Sai_List [demo_a_lanes, demo_a_vr]) demo_db2 = (Inr SAI_STATUS_SUCCESS, demo_db3)"
  using demo_port_validated demo_port_post
  by (simp add: meta_create_def guarded_def meta_sai_validate_oid_def demo_info_def on_success_def seq_def ret_def)

lemma demo_route_sel [simp]:
  "objecttype demo_route = 27" "object_id demo_route = demo_switch" "k_vr_id demo_route = demo_vr"
  "k_destination_family demo_route = 0" "demo_route \<noteq> oid_key t k" "oid_key t k \<noteq> demo_route"
  "entry_key demo_meta ROUTE_ENTRY demo_route = demo_route"
  by (auto simp: demo_route_def oid_key_def entry_key_def)

lemma demo_route_validated:
  "meta_sai_validate_entry demo_meta demo_db3 ROUTE_ENTRY (Some demo_route) True False = ok"
  "meta_generic_validation_create demo_meta demo_db3 demo_route demo_switch (Sai_List [demo_a_hop]) = ok"
proof -
  show "meta_sai_validate_entry demo_meta demo_db3 ROUTE_ENTRY (Some demo_route) True False = ok"
    by (simp add: meta_sai_validate_entry_def meta_sai_validate_route_entry_def member_check_def
      entry_lookup_def objectExists_def has_key_def demo_db3_def demo_object_def)
  have member: "meta_generic_validate_non_object_on_create demo_meta demo_db3 demo_route demo_switch = ok"
    by (simp add: meta_generic_validate_non_object_on_create_def demo_info_def non_object_member_check_def
      check_all.simps objectReferenceExists_def has_key_def demo_db3_def)
  have attrs: "create_attrs_check demo_meta demo_db3 demo_route demo_switch [] [demo_a_hop] = ok"
    by (simp add: demo_validation demo_metadata demo_a_hop_def meta_generic_validation_objlist_def MAX_LIST_COUNT_def)
  have rest: "create_metadata_check demo_meta demo_db3 demo_route [demo_a_hop] = ok"
    by (simp add: demo_validation demo_metadata demo_a_defs)
  have key: "create_key_check demo_meta demo_db3 demo_route demo_switch [demo_a_hop] = ok"
    by (simp add: create_key_check_def attr_is_key_def demo_a_hop_def demo_metadata)
  show "meta_generic_validation_create demo_meta demo_db3 demo_route demo_switch (Sai_List [demo_a_hop]) = ok"
    using member attrs rest key
    by (simp add: meta_generic_validation_create_def create_steps_def meta_extract_switch_id_def
        create_on_switch_check_def create_exists_check_def demo_info_def MAX_LIST_COUNT_def)
       (simp add: demo_db3_def demo_object_def objectExists_def objectReferenceExists_def has_key_def)
qed

lemma demo_route_post:
  "meta_generic_validation_post_create demo_meta demo_route demo_switch [demo_a_hop] demo_db3 = (Inr (), demo_db4)"
proof -
  let ?objs = "m_saiObjectCollection demo_db3"
  let ?a = "demo_db3\<lparr>m_saiObjectCollection := ?objs @ [demo_object demo_route []]\<rparr>"
  let ?b = "?a\<lparr>m_oids := [(demo_switch, 1), (demo_vr, 2), (demo_port, 0)]\<rparr>"
  have conn: "\<not> post_create_connect demo_meta demo_route [demo_a_hop]"
    by (simp add: post_create_connect_def)
  have obj: "post_create_object demo_meta demo_route False demo_db3 = (Inr (), ?a)"
    by (simp add: demo_update demo_db3_def demo_object_def meta_new_def objectExists_def has_key_def)
  have refs: "post_create_references demo_meta demo_route demo_switch False ?a = (Inr (), ?b)"
    by (simp add: demo_update demo_db3_def meta_new_def objectReferenceExists_def has_key_def demo_info_def
      increment_members_def objectReferenceIncrement_def ref_at_def INT32_MAX_def)
  have hop: "post_create_attr demo_meta demo_route demo_a_hop ?b = (Inr (), demo_db4)"
    by (simp add: demo_update demo_db4_def demo_db3_def demo_a_hop_def demo_metadata demo_object_def demo_stored_def
        objectReferenceIncrement_def)
  have warm: "?b\<lparr>m_warmBoot := False\<rparr> = ?b" by (simp add: demo_db3_def meta_new_def)
  have key: "\<not> attr_is_key demo_meta 27 demo_a_hop"
    by (simp add: attr_is_key_def demo_metadata demo_a_hop_def)
  show ?thesis
    using conn obj refs warm hop key
    by (simp add: meta_generic_validation_post_create_def post_create_attributes_def seq_def modify_def ret_def)
qed

lemma demo_create_route:
  "meta_create_entry demo_meta SAI_STATUS_SUCCESS ROUTE_ENTRY (Some demo_route) (Sai_List [demo_a_hop]) demo_db3 =
     (Inr SAI_STATUS_SUCCESS, demo_db4)"
  using demo_route_validated demo_route_post
  by (simp add: meta_create_entry_def guarded_def entry_keyed_def with_entry_def on_success_def seq_def ret_def)

lemma demo_get_queues:
  "meta_get demo_meta (SAI_STATUS_SUCCESS, [demo_a_queues]) 1 demo_port (Sai_List [demo_a_queues]) demo_db4 =
     (Inr SAI_STATUS_SUCCESS, demo_db5)"
proof -
  have val: "meta_generic_validation_get demo_meta demo_db4 (oid_key 1 demo_port) (Sai_List [demo_a_queues]) = ok"
    by (simp add: meta_generic_validation_get_def MAX_LIST_COUNT_def get_attr_check_def clear_enum_def get_value_check_def
      demo_metadata demo_a_queues_def VALIDATION_LIST_def meta_genetic_validation_list_def objectExists_def has_key_def
      demo_db4_def demo_db3_def demo_object_def existing_object_check_def check_all.simps)
  have queue: "\<not> has_key (m_oids demo_db4) demo_queue"
    "\<not> has_key (m_saiObjectCollection demo_db4) (oid_key 21 demo_queue)"
    by (simp_all add: demo_db4_def demo_db3_def demo_object_def has_key_def)
  have obj: "AList.update (oid_key 21 demo_queue) \<lparr>m_metaKey = oid_key 21 demo_queue, m_attrs = []\<rparr>
      (m_saiObjectCollection demo_db4) = m_saiObjectCollection demo_db5"
    by (simp add: demo_db5_def demo_db4_def demo_db3_def demo_object_def)
  have oids: "AList.update demo_queue 0 (m_oids demo_db4) = m_oids demo_db5"
    by (simp add: demo_db5_def demo_db4_def)
  have db5: "demo_db4\<lparr>m_oids := m_oids demo_db5, m_saiObjectCollection := m_saiObjectCollection demo_db5\<rparr> =
      demo_db5\<lparr>m_portRelatedSet := []\<rparr>"
    by (simp add: demo_db5_def demo_db4_def demo_db3_def meta_new_def)
  have snoop: "post_get_attr demo_meta (oid_key 1 demo_port) demo_a_queues demo_db4 =
      (Inr (), demo_db5\<lparr>m_portRelatedSet := []\<rparr>)"
    using queue obj oids db5
    by (simp add: post_get_attr_def demo_metadata demo_a_queues_def post_get_value_def
      post_get_objlist_def seq_def gets_def snoop_object_def zoom_def objectReferenceInsert_def
      objectReferenceExists_def objectExists_def createObject_def sai_object_new_def ret_def Let_def)
  have ports: "meta_post_port_get demo_meta (oid_key 1 demo_port) [demo_a_queues] (demo_db5\<lparr>m_portRelatedSet := []\<rparr>) =
      (Inr (), demo_db5)"
    by (simp add: demo_metadata demo_a_queues_def meta_post_port_get_def post_port_get_attr_def port_list_attrs_def
      meta_add_port_to_related_map_def lift_def portrelated_insert_def getPortRelatedObjects_def seq_def zoom_def ret_def)
      (simp add: demo_db5_def insort_insert_key_def)
  have post: "meta_generic_validation_post_get demo_meta (oid_key 1 demo_port) [demo_a_queues] demo_db4 = (Inr (), demo_db5)"
    using snoop ports by (simp add: meta_generic_validation_post_get_def demo_info_def seq_def ret_def)
  have "meta_sai_validate_oid demo_meta demo_db4 1 (Some demo_port) False = ok"
    by (simp add: meta_sai_validate_oid_def demo_info_def demo_db4_def demo_db3_def demo_object_def objectExists_def has_key_def)
  then show ?thesis
    using val post by (simp add: meta_get_def guarded_def on_success_def seq_def ret_def)
qed

text \<open>The port is set to no router, which makes it removable.\<close>

definition demo_a_novr :: sai_attribute where "demo_a_novr = \<lparr>a_id = 2, a_value = demo_value\<rparr>"

definition demo_db6 :: meta_db where
  "demo_db6 = demo_db5\<lparr>m_oids := [(demo_switch, 1), (demo_vr, 1), (demo_port, 0), (demo_queue, 0)],
     m_saiObjectCollection := [demo_object (oid_key 33 demo_switch) [demo_a_init],
       demo_object (oid_key 3 demo_vr) [demo_a_init],
       demo_object (oid_key 1 demo_port) [demo_a_lanes, demo_a_novr],
       demo_object demo_route [demo_a_hop], demo_object (oid_key 21 demo_queue) []],
     m_portRelatedSet := [(demo_port, [demo_queue])]\<rparr>"

lemma demo_db5_sel:
  "m_oids demo_db5 = [(demo_switch, 1), (demo_vr, 2), (demo_port, 0), (demo_queue, 0)]"
  "m_saiObjectCollection demo_db5 = [demo_object (oid_key 33 demo_switch) [demo_a_init],
       demo_object (oid_key 3 demo_vr) [demo_a_init],
       demo_object (oid_key 1 demo_port) [demo_a_lanes, demo_a_vr],
       demo_object demo_route [demo_a_hop], demo_object (oid_key 21 demo_queue) []]"
  by (simp_all add: demo_db5_def demo_db4_def demo_db3_def)

lemma demo_set_novr:
  "meta_set demo_meta SAI_STATUS_SUCCESS 1 demo_port (Some demo_a_novr) demo_db5 = (Inr SAI_STATUS_SUCCESS, demo_db6)"
proof -
  have md: "demo_get_attr_metadata 1 2 = Some ((demo_md 1 2 ''VR'' VT_OBJECT_ID)\<lparr>md_isoidattribute := True\<rparr>)"
    by (simp add: demo_metadata)
  have val: "meta_generic_validation_set demo_meta (oid_key 1 demo_port) (Some demo_a_novr) demo_db5 =
      (Inr SAI_STATUS_SUCCESS, demo_db5)"
    using md by (simp add: meta_generic_validation_set_def demo_a_novr_def demo_md_def seq_def ret_def set_checks_def
      demo_info_def set_value_check_def meta_generic_validation_objlist_def MAX_LIST_COUNT_def enum_check_def
      enum_list_check_def existing_object_check_def demo_db5_sel objectReferenceExists_def objectExists_def has_key_def
      demo_object_def)
  have prev: "getObjectAttr (m_saiObjectCollection demo_db5) (oid_key 1 demo_port) 2 =
      Some \<lparr>w_meta = (demo_md 1 2 ''VR'' VT_OBJECT_ID)\<lparr>md_isoidattribute := True\<rparr>, w_attr = demo_a_vr\<rparr>"
    using md by (simp add: demo_db5_sel getObjectAttr_def getAttr_def demo_object_def demo_stored_def)
      (simp add: demo_a_defs)
  have refs: "post_set_attr_refs (Some \<lparr>w_meta = (demo_md 1 2 ''VR'' VT_OBJECT_ID)\<lparr>md_isoidattribute := True\<rparr>,
        w_attr = demo_a_vr\<rparr>) ((demo_md 1 2 ''VR'' VT_OBJECT_ID)\<lparr>md_isoidattribute := True\<rparr>) demo_value (m_oids demo_db5) =
      (Inr (), m_oids demo_db6)"
    by (simp add: post_set_attr_refs_def demo_md_def demo_a_vr_def release_previous_def seq_def
      objectReferenceDecrement_def objectReferenceIncrement_def objectReferenceExists_def has_key_def ref_at_def
      demo_db5_sel demo_db6_def INT32_MIN_def INT32_MAX_def)
  have obj: "setObjectAttr demo_meta (oid_key 1 demo_port) ((demo_md 1 2 ''VR'' VT_OBJECT_ID)\<lparr>md_isoidattribute := True\<rparr>)
      demo_a_novr (m_saiObjectCollection demo_db5) = (Inr (), m_saiObjectCollection demo_db6)"
    using md by (simp add: setObjectAttr_def demo_db5_sel demo_db6_def demo_object_def setAttr_def attr_wrapper_new_def
      demo_stored_def demo_a_lanes_def demo_a_vr_def demo_a_novr_def)
  have post: "meta_generic_validation_post_set demo_meta (oid_key 1 demo_port) demo_a_novr demo_db5 = (Inr (), demo_db6)"
    using md prev refs obj
    by (simp add: meta_generic_validation_post_set_def demo_a_novr_def seq_def gets_def get_object_previous_attr_def
      zoom_def shouldCache_iff demo_md_def) (simp add: demo_db6_def demo_db5_def)
  have exists: "objectReferenceExists (m_oids demo_db5) demo_switch"
    "meta_sai_validate_oid demo_meta demo_db5 1 (Some demo_port) False = ok"
    by (simp_all add: meta_sai_validate_oid_def demo_info_def demo_db5_sel demo_object_def objectExists_def
      objectReferenceExists_def has_key_def)
  show ?thesis
    using exists val post by (simp add: meta_set_def guarded_def on_success_def seq_def ret_def)
qed

section \<open>The states of the run are reachable\<close>

lemmas demo_ref_defs = object_oids_def wrapper_refs_def attr_refs_def attr_ref_list_def member_oids_def attr_oids_def

lemma demo_object_oids:
  "object_oids demo_meta (oid_key 33 k) (snd (demo_object (oid_key 33 k') [demo_a_init])) = []"
  "object_oids demo_meta (oid_key 3 k) (snd (demo_object (oid_key 3 k') [demo_a_init])) = []"
  "object_oids demo_meta (oid_key 1 k) (snd (demo_object (oid_key 1 k') [demo_a_lanes, demo_a_vr])) = [demo_vr]"
  "object_oids demo_meta demo_route (snd (demo_object demo_route [demo_a_hop])) = [demo_switch, demo_vr, 0]"
  "object_oids demo_meta (oid_key 21 k) (snd (demo_object (oid_key 21 k') [])) = []"
  by (simp_all add: demo_ref_defs demo_object_def demo_stored_def demo_metadata demo_a_defs)

lemma demo_object_key: "demo_object k attrs = (k, snd (demo_object k attrs))"
  by (simp add: demo_object_def)

lemma stored_refs_Cons: "stored_refs h (p # c) = length (object_oids h (fst p) (snd p)) + stored_refs h c"
  by (cases p) (simp add: stored_refs_def)

lemma demo_fst_object [simp]: "fst (demo_object k attrs) = k"
  by (simp add: demo_object_def)

lemma demo_stored_refs:
  "stored_refs demo_meta [] = 0"
  "stored_refs demo_meta (m_saiObjectCollection demo_db1) = 0"
  "stored_refs demo_meta (m_saiObjectCollection demo_db2) = 0"
  "stored_refs demo_meta (m_saiObjectCollection demo_db3) = 1"
  by (simp_all add: stored_refs_Cons demo_db1_def demo_db2_def demo_db3_def demo_object_oids)
     (simp_all add: stored_refs_def)

lemma demo_attr_oids:
  "attr_oids demo_meta (oid_key 33 k) demo_a_init = []" "attr_oids demo_meta (oid_key 3 k) demo_a_init = []"
  "attr_oids demo_meta (oid_key 1 k) demo_a_lanes = []" "attr_oids demo_meta (oid_key 1 k) demo_a_vr = [demo_vr]"
  "attr_oids demo_meta demo_route demo_a_hop = [0]"
  "attr_oids demo_meta (oid_key 1 k) demo_a_queues = [demo_queue]"
  by (simp_all add: demo_ref_defs demo_metadata demo_a_defs)

lemma demo_members:
  "member_oids demo_meta (oid_key 33 k) = []" "member_oids demo_meta (oid_key 3 k) = []"
  "member_oids demo_meta (oid_key 1 k) = []" "member_oids demo_meta demo_route = [demo_switch, demo_vr]"
  by (simp_all add: member_oids_def demo_info_def)

lemmas demo_room = create_room_def refs_boundI demo_stored_refs demo_attr_oids demo_members INT32_MAX_def

lemma demo_reachable:
  "meta_reachable demo_meta demo_db1" "meta_reachable demo_meta demo_db2" "meta_reachable demo_meta demo_db3"
  "meta_reachable demo_meta demo_db4" "meta_reachable demo_meta demo_db5"
proof -
  have "meta_step demo_meta meta_new demo_db1"
    using step_create [of demo_meta meta_new 33 "Sai_List [demo_a_init]" 0 "(SAI_STATUS_SUCCESS, demo_switch)" "Some 0"]
    by (simp add: demo_create_switch demo_room new_oid_ok_def) (simp add: meta_new_def demo_room)
  then show 1: "meta_reachable demo_meta demo_db1"
    by (rule reach_step [OF reach_new])
  have "meta_step demo_meta demo_db1 demo_db2"
    using step_create [of demo_meta demo_db1 3 "Sai_List [demo_a_init]" demo_switch "(SAI_STATUS_SUCCESS, demo_vr)" "Some 0"]
    by (simp add: demo_create_vr demo_room new_oid_ok_def)
  then show 2: "meta_reachable demo_meta demo_db2"
    by (rule reach_step [OF 1])
  have "meta_step demo_meta demo_db2 demo_db3"
    using step_create [of demo_meta demo_db2 1 "Sai_List [demo_a_lanes, demo_a_vr]" demo_switch
      "(SAI_STATUS_SUCCESS, demo_port)" "Some 0"]
    by (simp add: demo_create_port demo_room new_oid_ok_def)
  then show 3: "meta_reachable demo_meta demo_db3"
    by (rule reach_step [OF 2])
  have "meta_step demo_meta demo_db3 demo_db4"
    using step_create_entry [of "Some demo_route" demo_meta demo_db3 ROUTE_ENTRY "Sai_List [demo_a_hop]" SAI_STATUS_SUCCESS]
    by (simp add: demo_create_route demo_room)
  then show 4: "meta_reachable demo_meta demo_db4"
    by (rule reach_step [OF 3])
  have "get_result_ok demo_meta (oid_key 1 demo_port) [demo_a_queues]"
    by (simp add: get_result_ok_def reported_ok_def demo_attr_oids oid_type_def demo_info_def) (simp add: demo_a_queues_def)
  then have "meta_step demo_meta demo_db4 demo_db5"
    using step_get [of demo_meta 1 demo_port "(SAI_STATUS_SUCCESS, [demo_a_queues])" demo_db4 "Sai_List [demo_a_queues]"]
    by (simp add: demo_get_queues)
  then show "meta_reachable demo_meta demo_db5"
    by (rule reach_step [OF 4])
qed

lemma demo_reachable6: "meta_reachable demo_meta demo_db6"
proof -
  have "attr_oids demo_meta (oid_key 1 demo_port) demo_a_novr = [0]"
    by (simp add: demo_ref_defs demo_metadata demo_a_novr_def)
  moreover have "stored_refs demo_meta (m_saiObjectCollection demo_db5) = 4"
    by (simp add: stored_refs_Cons demo_db5_sel demo_object_oids) (simp add: stored_refs_def)
  ultimately have "meta_step demo_meta demo_db5 demo_db6"
    using step_set [of "Some demo_a_novr" demo_meta demo_db5 1 demo_port SAI_STATUS_SUCCESS]
    by (simp add: demo_set_novr set_room_def refs_boundI INT32_MAX_def)
  then show ?thesis by (rule reach_step [OF demo_reachable(5)])
qed

end
