(* ===== verification/Meta_Props.thy ===== *)
theory Meta_Props
  imports Meta_Demo
begin

text \<open>
  The properties of the metadata layer, each with an application in the small environment.
\<close>

section \<open>References\<close>

text \<open>
C4 reference counts are exact: in every state the layer can get into, the counter of an object id is the
number of times the id is referred to, counted over the object id attributes of all stored objects
and the object id members of all stored entry keys. The states are those reached from the new layer, in
any order, by the single and the bulk calls (create, remove, set and get, of object ids and of entries),
a flush of the fdb entries, the notifications of the vendor, warm boot, resetting the database, and
populating from a dump that can be restored and does not mention the null id.
\<close>
theorem refcounts_exact:
  assumes "meta_ok h" "meta_reachable h s" "map_of (m_oids s) x = Some c"
  shows "c = int (total_refs h (m_saiObjectCollection s) x)"
  using meta_invD(1) [OF meta_reachable_inv [OF assms(1,2)]] assms(3)
  by (auto simp: db_inv_def counted_def)

theorem refcounts_exact_witness:
  "total_refs demo_meta (m_saiObjectCollection demo_db4) demo_vr = 2"
  using refcounts_exact [OF demo_meta_ok demo_reachable(4), of demo_vr 2] by (simp add: demo_db4_def)

text \<open>
C5 no dangling references: in every state the layer can get into (by the steps named in C4: single and
bulk calls, flush, notifications, warm boot, reset, populating from a dump without the null id), every
non-null object id in a stored attribute or entry key is an id the database knows, and it is on the same
switch as the object that refers to it.
\<close>
theorem references_never_dangle:
  assumes "meta_ok h" "meta_reachable h s" "map_of (m_saiObjectCollection s) key = Some obj"
    and "x \<in> set (object_oids h key obj)" "x \<noteq> SAI_NULL_OBJECT_ID"
  shows "objectReferenceExists (m_oids s) x \<and> switchIdQuery h x = switchIdQuery h (object_id key)"
  using meta_invD(1) [OF meta_reachable_inv [OF assms(1,2)]] assms(3-5)
  by (auto simp: db_inv_def object_ok_def refs_local_def key_switch_def objectReferenceExists_def)

lemma demo_db4_route: "map_of (m_saiObjectCollection demo_db4) demo_route = Some (snd (demo_object demo_route [demo_a_hop]))"
  by (simp add: demo_db4_def demo_db3_def demo_object_def)

theorem references_never_dangle_witness:
  "objectReferenceExists (m_oids demo_db4) demo_vr \<and> switchIdQuery demo_meta demo_vr = demo_switch"
  using references_never_dangle [OF demo_meta_ok demo_reachable(4) demo_db4_route, of demo_vr]
  by (simp add: demo_object_oids)

section \<open>Removal\<close>








text \<open>
C7 a validated removal succeeds: in every state the layer can get into, a removal that passes the
validations and that the interface below accepts never throws, answers success, and leaves exactly
the objects it should: of a port, it takes the objects related to the port along; of a switch, all
objects of the switch; of anything else, only the object itself.
\<close>
theorem remove_succeeds:
  assumes "meta_ok h" "meta_reachable h s"
    and "meta_sai_validate_oid h s t (Some x) False = ok"
    and "meta_generic_validation_remove h s (oid_key t x) = ok"
  shows "\<exists>s'. meta_remove h SAI_STATUS_SUCCESS t x s = (Inr SAI_STATUS_SUCCESS, s') \<and>
    (\<forall>k. objectExists (m_saiObjectCollection s') k \<longleftrightarrow> remove_left h s (oid_key t x) k)"
proof -
  from post_remove_validated [OF assms(1) meta_reachable_inv [OF assms(1,2)] assms(4)] obtain s' where
    "post_remove h (oid_key t x) s = (Inr (), s')"
    "\<forall>k. objectExists (m_saiObjectCollection s') k \<longleftrightarrow> remove_left h s (oid_key t x) k" by blast
  then show ?thesis
    using assms(3,4) by (auto simp: meta_remove_def guarded_def on_success_def seq_def ret_def)
qed

lemma demo_port_removable:
  "meta_sai_validate_oid demo_meta demo_db6 1 (Some demo_port) False = ok"
  "meta_generic_validation_remove demo_meta demo_db6 (oid_key 1 demo_port) = ok"
proof -
  let ?c = "m_saiObjectCollection demo_db6"
  have look: "map_of ?c (oid_key 1 demo_port) = Some (snd (demo_object (oid_key 1 demo_port) [demo_a_lanes, demo_a_novr]))"
    "map_of ?c (oid_key 21 demo_queue) = Some (snd (demo_object (oid_key 21 demo_queue) []))"
    by (simp_all add: demo_db6_def demo_object_def)
  have oids: "m_oids demo_db6 = [(demo_switch, 1), (demo_vr, 1), (demo_port, 0), (demo_queue, 0)]"
    "m_portRelatedSet demo_db6 = [(demo_port, [demo_queue])]"
    by (simp_all add: demo_db6_def)
  have port: "meta_is_object_in_default_state demo_meta demo_db6 demo_port = Inr True"
    using look(1) by (simp add: meta_is_object_in_default_state_def oids objectReferenceExists_def has_key_def
      demo_object_def demo_stored_def getAttributes_def default_state_attr_def demo_metadata demo_a_defs demo_a_novr_def)
  have queue: "meta_is_object_in_default_state demo_meta demo_db6 demo_queue = Inr True"
    using look(2) by (simp add: meta_is_object_in_default_state_def oids objectReferenceExists_def has_key_def
      demo_object_def getAttributes_def)
  have "meta_port_remove_validation demo_meta demo_db6 (oid_key 1 demo_port) = ok"
    using port queue by (simp add: meta_port_remove_validation_def getPortRelatedObjects_def oids check_all.simps
      related_remove_check_def getObjectReferenceCount_def objectReferenceExists_def has_key_def ref_at_def)
  then show "meta_generic_validation_remove demo_meta demo_db6 (oid_key 1 demo_port) = ok"
    using look(1) by (simp add: meta_generic_validation_remove_def objectExists_def has_key_def demo_info_def
      remove_oid_check_def oids objectReferenceExists_def getObjectReferenceCount_def ref_at_def)
  show "meta_sai_validate_oid demo_meta demo_db6 1 (Some demo_port) False = ok"
    using look(1) by (simp add: meta_sai_validate_oid_def demo_info_def objectExists_def has_key_def)
qed

theorem remove_succeeds_witness:
  "\<exists>s'. meta_remove demo_meta SAI_STATUS_SUCCESS 1 demo_port demo_db6 = (Inr SAI_STATUS_SUCCESS, s') \<and>
     \<not> objectExists (m_saiObjectCollection s') (oid_key 1 demo_port) \<and>
     \<not> objectExists (m_saiObjectCollection s') (oid_key 21 demo_queue) \<and>
     objectExists (m_saiObjectCollection s') demo_route"
proof -
  have left: "\<not> remove_left demo_meta demo_db6 (oid_key 1 demo_port) (oid_key 1 demo_port)"
    "\<not> remove_left demo_meta demo_db6 (oid_key 1 demo_port) (oid_key 21 demo_queue)"
    "remove_left demo_meta demo_db6 (oid_key 1 demo_port) demo_route"
    by (auto simp: remove_left_def removed_keys_def getPortRelatedObjects_def demo_db6_def demo_db5_def demo_object_def
        objectExists_def has_key_def)
  from remove_succeeds [OF demo_meta_ok demo_reachable6 demo_port_removable] left show ?thesis by blast
qed

text \<open>
C8 removing a switch is the filter that drops what is on it: after a validated removal of a switch, which
the code does in four loops over copies of the keys of the four containers, the state is the one
before without the ports, counters, attribute keys and objects of the switch, everything of other
switches is kept as it was, and the invariant of the database holds.
\<close>
theorem remove_switch_is_filter:
  assumes "meta_ok h" "meta_reachable h s"
    and "meta_sai_validate_oid h s (ot_switch h) (Some sw) False = ok"
    and "meta_generic_validation_remove h s (oid_key (ot_switch h) sw) = ok"
  shows "meta_remove h SAI_STATUS_SUCCESS (ot_switch h) sw s = (Inr SAI_STATUS_SUCCESS, switch_cleaned h sw s) \<and>
    meta_inv h (switch_cleaned h sw s)"
proof -
  have inv: "meta_inv h s" by (rule meta_reachable_inv [OF assms(1,2)])
  note val = remove_validated_intro [OF assms(1,4)]
  note run = post_remove_switch_keeps(1) [OF assms(1) inv val, where n = "length (m_saiObjectCollection s)"]
  have "post_remove h (oid_key (ot_switch h) sw) s = (Inr (), switch_cleaned h sw s)"
    using run by (simp add: post_remove_def del: meta_generic_validation_post_remove.simps)
  then show ?thesis
    using post_remove_switch_keeps(2) [OF assms(1) inv val] assms(3,4) by (simp add: meta_remove_def guarded_def on_success_def seq_def ret_def)
qed

lemma demo_switch_removable:
  "meta_sai_validate_oid demo_meta demo_db5 33 (Some demo_switch) False = ok"
  "meta_generic_validation_remove demo_meta demo_db5 (oid_key 33 demo_switch) = ok"
  by (simp_all add: meta_sai_validate_oid_def demo_info_def demo_db5_sel objectExists_def has_key_def
      meta_generic_validation_remove_def remove_oid_check_def objectReferenceExists_def
      getObjectReferenceCount_def ref_at_def demo_object_def)

theorem remove_switch_is_filter_witness:
  "m_oids (snd (meta_remove demo_meta SAI_STATUS_SUCCESS 33 demo_switch demo_db5)) = [] \<and>
   m_portRelatedSet (snd (meta_remove demo_meta SAI_STATUS_SUCCESS 33 demo_switch demo_db5)) = []"
  using remove_switch_is_filter [OF demo_meta_ok demo_reachable(5), of demo_switch] demo_switch_removable
  by (simp add: switch_cleaned_def demo_db5_sel) (simp add: demo_db5_def)

section \<open>The recursion of the removal ends\<close>

text \<open>Where a bounded run does not run out, more depth changes nothing.\<close>

definition settled :: "(meta_db, 'a) op \<Rightarrow> (meta_db, 'a) op \<Rightarrow> bool" where
  "settled m m' \<longleftrightarrow> (\<forall>s. fst (m s) \<noteq> Inl Out_Of_Fuel \<longrightarrow> m' s = m s)"

lemma settled_refl: "settled m m"
  by (simp add: settled_def)

lemma settled_seq:
  assumes "settled m m'" "\<And>x. settled (f x) (f' x)"
  shows "settled (seq m f) (seq m' f')"
  unfolding settled_def
proof (intro allI impI)
  fix s assume run: "fst (seq m f s) \<noteq> Inl Out_Of_Fuel"
  obtain r s1 where m: "m s = (r, s1)" by fastforce
  show "seq m' f' s = seq m f s"
  proof (cases r)
    case (Inl e)
    with run m have "e \<noteq> Out_Of_Fuel" by (simp add: seq_def)
    with assms(1) m Inl have "m' s = m s" by (simp add: settled_def)
    with m Inl show ?thesis by (simp add: seq_def)
  next
    case (Inr x)
    with assms(1) m have m': "m' s = m s" by (simp add: settled_def)
    from run m Inr have "fst (f x s1) \<noteq> Inl Out_Of_Fuel" by (simp add: seq_def)
    with assms(2) [of x] have "f' x s1 = f x s1" by (simp add: settled_def)
    with m m' Inr show ?thesis by (simp add: seq_def)
  qed
qed

lemma settled_forM: "(\<And>x. settled (f x) (f' x)) \<Longrightarrow> settled (forM f xs) (forM f' xs)"
  by (induction xs) (simp_all add: settled_refl settled_seq)

lemma settled_port:
  assumes "\<And>k. settled (again k) (again' k)"
  shows "settled (post_port_remove h again key) (post_port_remove h again' key)"
  unfolding post_port_remove_def Let_def
  by (intro settled_seq settled_refl) (auto intro!: settled_refl settled_seq settled_forM assms)

lemma settled_more_depth:
  "settled (meta_generic_validation_post_remove h n key) (meta_generic_validation_post_remove h (n + d) key)"
proof (induction n arbitrary: key)
  case 0
  show ?case by (simp add: settled_def raise_def)
next
  case (Suc n)
  have "settled
      (seq (post_remove_object h key) (\<lambda>_. if objecttype key = ot h OT_PORT
         then post_port_remove h (meta_generic_validation_post_remove h n) key else ret ()))
      (seq (post_remove_object h key) (\<lambda>_. if objecttype key = ot h OT_PORT
         then post_port_remove h (meta_generic_validation_post_remove h (n + d)) key else ret ()))"
    by (intro settled_seq settled_refl) (simp add: settled_port [OF Suc.IH] settled_refl)
  then show ?case by (simp add: settled_refl)
qed

text \<open>
C9 the removal ends: \<open>meta_generic_validation_post_remove\<close> and \<open>post_port_remove\<close> call each other, but in
any state (reachable or not) the recursion is never deeper than the number of stored objects: at
every depth above it the bounded model gives the same result, and it is not the exhaustion of the
bound.
\<close>
theorem post_remove_terminates:
  assumes "length (m_saiObjectCollection s) < n"
  shows "meta_generic_validation_post_remove h n key s = post_remove h key s \<and>
    fst (post_remove h key s) \<noteq> Inl Out_Of_Fuel"
proof -
  let ?k = "Suc (length (m_saiObjectCollection s))"
  have "fst (meta_generic_validation_post_remove h ?k key s) \<noteq> Inl Out_Of_Fuel"
    using lean_below_post_remove [of ?k h key] by (simp add: lean_below_def del: meta_generic_validation_post_remove.simps)
  moreover have "settled (meta_generic_validation_post_remove h ?k key) (meta_generic_validation_post_remove h n key)"
    using settled_more_depth [of h ?k key "n - ?k"] assms
    by (simp del: meta_generic_validation_post_remove.simps)
  ultimately show ?thesis
    by (simp add: post_remove_def settled_def del: meta_generic_validation_post_remove.simps)
qed

theorem post_remove_terminates_witness:
  "meta_generic_validation_post_remove demo_meta 100 (oid_key 1 demo_port) demo_db6 =
     post_remove demo_meta (oid_key 1 demo_port) demo_db6"
  using post_remove_terminates [of demo_db6 100 demo_meta "oid_key 1 demo_port"]
  by (simp add: demo_db6_def del: meta_generic_validation_post_remove.simps)

section \<open>What create and set store\<close>

lemma zoom_oids_objects: "on_oids m s = (r, s') \<Longrightarrow> m_saiObjectCollection s' = m_saiObjectCollection s"
  by (auto simp: zoom_def split: prod.splits)

lemma post_create_attr_stores:
  assumes "post_create_attr h key attr s = (Inr (), s')"
  shows "\<exists>md. get_attr_metadata h (objecttype key) (a_id attr) = Some md \<and>
    (if shouldCacheAttribute h (objecttype key) md
     then \<exists>obj. map_of (m_saiObjectCollection s) key = Some obj \<and>
            m_saiObjectCollection s' = AList.update key (setAttr h md attr obj) (m_saiObjectCollection s)
     else m_saiObjectCollection s' = m_saiObjectCollection s)"
proof -
  from assms obtain md where md: "get_attr_metadata h (objecttype key) (a_id attr) = Some md"
    by (auto simp: post_create_attr_def raise_def split: option.splits)
  with assms obtain s1 where refs: "on_oids (post_create_attr_refs md (a_value attr)) s = (Inr (), s1)"
    and store: "(if shouldCacheAttribute h (objecttype key) md
        then on_objects (setObjectAttr h key md attr) else ret ()) s1 = (Inr (), s')"
    by (auto simp: post_create_attr_def seq_Inr)
  note keep = zoom_oids_objects [OF refs]
  show ?thesis
  proof (cases "shouldCacheAttribute h (objecttype key) md")
    case True
    with store keep have "\<exists>obj. map_of (m_saiObjectCollection s) key = Some obj \<and>
        m_saiObjectCollection s' = AList.update key (setAttr h md attr obj) (m_saiObjectCollection s)"
      by (auto simp: zoom_def setObjectAttr_def split: option.splits)
    with md True show ?thesis by auto
  next
    case False
    with store keep md show ?thesis by (auto simp: ret_def)
  qed
qed

text \<open>
  What the attributes of a list leave: those the caching policy keeps are stored, what was stored under
  other attributes stays, and other objects are as before.
\<close>

definition stored_after :: "sai_meta \<Rightarrow> meta_key \<Rightarrow> sai_attribute list \<Rightarrow> object_collection \<Rightarrow> u32 \<Rightarrow> attr_wrapper option" where
  "stored_after h key attrs c aid =
     (case (find (\<lambda>attr. a_id attr = aid) attrs, get_attr_metadata h (objecttype key) aid) of
        (Some attr, Some md) \<Rightarrow>
          if shouldCacheAttribute h (objecttype key) md then Some (attr_wrapper_new h md attr) else getObjectAttr c key aid
      | _ \<Rightarrow> getObjectAttr c key aid)"

lemma find_none: "aid \<notin> a_id ` set attrs \<Longrightarrow> find (\<lambda>attr. a_id attr = aid) attrs = None"
  by (auto simp: find_None_iff)

lemma create_attrs_store:
  assumes "forM (post_create_attr h key) attrs s = (Inr (), s')" "distinct (map a_id attrs)"
  shows "(\<forall>aid. getObjectAttr (m_saiObjectCollection s') key aid = stored_after h key attrs (m_saiObjectCollection s) aid) \<and>
    (\<forall>k. k \<noteq> key \<longrightarrow> map_of (m_saiObjectCollection s') k = map_of (m_saiObjectCollection s) k)"
  using assms
proof (induction attrs arbitrary: s)
  case Nil
  then show ?case by (simp add: ret_def stored_after_def)
next
  case (Cons attr attrs)
  from Cons.prems(1) obtain s1 where first: "post_create_attr h key attr s = (Inr (), s1)"
    and rest: "forM (post_create_attr h key) attrs s1 = (Inr (), s')" by (auto simp only: forM_Cons_Inr)
  have IH: "(\<forall>aid. getObjectAttr (m_saiObjectCollection s') key aid = stored_after h key attrs (m_saiObjectCollection s1) aid) \<and>
      (\<forall>k. k \<noteq> key \<longrightarrow> map_of (m_saiObjectCollection s') k = map_of (m_saiObjectCollection s1) k)"
    using Cons.IH [OF rest] Cons.prems(2) by simp
  from post_create_attr_stores [OF first] obtain md where
    md: "get_attr_metadata h (objecttype key) (a_id attr) = Some md"
    and st: "if shouldCacheAttribute h (objecttype key) md
     then \<exists>obj. map_of (m_saiObjectCollection s) key = Some obj \<and>
            m_saiObjectCollection s1 = AList.update key (setAttr h md attr obj) (m_saiObjectCollection s)
     else m_saiObjectCollection s1 = m_saiObjectCollection s" by blast
  have here: "getObjectAttr (m_saiObjectCollection s1) key (a_id attr) =
      (if shouldCacheAttribute h (objecttype key) md then Some (attr_wrapper_new h md attr)
       else getObjectAttr (m_saiObjectCollection s) key (a_id attr))"
    using st by (auto simp: getObjectAttr_def getAttr_def setAttr_def)
  have other: "aid \<noteq> a_id attr \<Longrightarrow>
      getObjectAttr (m_saiObjectCollection s1) key aid = getObjectAttr (m_saiObjectCollection s) key aid" for aid
    using st by (auto simp: getObjectAttr_def getAttr_def setAttr_def split: if_splits)
  have objs: "k \<noteq> key \<Longrightarrow> map_of (m_saiObjectCollection s1) k = map_of (m_saiObjectCollection s) k" for k
    using st by (auto split: if_splits)
  have "stored_after h key attrs (m_saiObjectCollection s1) aid = stored_after h key (attr # attrs) (m_saiObjectCollection s) aid" for aid
  proof (cases "aid = a_id attr")
    case True
    then have "find (\<lambda>a. a_id a = aid) attrs = None" using Cons.prems(2) by (intro find_none) auto
    with True md here show ?thesis by (simp add: stored_after_def)
  next
    case False
    with other [OF False] show ?thesis by (simp add: stored_after_def split: option.splits)
  qed
  with IH objs show ?case by simp
qed

lemma on_oids_reference:
  "m_saiObjectCollection (snd (post_create_references h key sw c s)) = m_saiObjectCollection s"
proof -
  have "m_saiObjectCollection (snd (forM (\<lambda>m. if sm_membervaluetype m \<noteq> VT_OBJECT_ID then ret ()
      else on_oids (objectReferenceIncrement (sm_getoid m key))) ms s)) = m_saiObjectCollection s" for ms
    by (induction ms arbitrary: s) (auto simp: seq_def ret_def zoom_def split: prod.splits sum.splits)
  then show ?thesis
    by (auto simp: post_create_references_def raise_def increment_members_def post_create_reference_def Let_def zoom_def
        split: option.splits prod.splits)
qed

lemma create_validated_distinct:
  "meta_generic_validation_create h s key sw l = ok \<Longrightarrow> distinct (map a_id (elems l))"
  using create_attrs_ok create_steps_objecttype(1)
  by (fastforce simp: meta_generic_validation_create_def split: if_splits sum.splits)

lemma post_create_stores:
  assumes "meta_generic_validation_post_create h key sw attrs s = (Inr (), s')" "objecttype key \<noteq> ot_switch h"
    and "distinct (map a_id attrs)"
  shows "\<not> objectExists (m_saiObjectCollection s) key \<and> objectExists (m_saiObjectCollection s') key \<and>
    (\<forall>aid. getObjectAttr (m_saiObjectCollection s') key aid = stored_after h key attrs [] aid) \<and>
    (\<forall>k. k \<noteq> key \<longrightarrow> map_of (m_saiObjectCollection s') k = map_of (m_saiObjectCollection s) k)"
proof -
  have nocon: "\<not> post_create_connect h key attrs" using assms(2) by (simp add: post_create_connect_def)
  from assms(1) nocon obtain s1 s2 where
    obj: "post_create_object h key False s = (Inr (), s1)"
    and refs: "post_create_references h key sw False s1 = (Inr (), s2)"
    and attrs: "post_create_attributes h key sw attrs s2 = (Inr (), s')"
    by (auto simp: meta_generic_validation_post_create_def seq_Inr)
  from obj assms(2) have new: "\<not> objectExists (m_saiObjectCollection s) key"
    "m_saiObjectCollection s1 = AList.update key \<lparr>m_metaKey = key, m_attrs = []\<rparr> (m_saiObjectCollection s)"
    by (auto simp: post_create_object_def seq_Inr gets_def zoom_def createObject_def sai_object_new_def split: if_splits)
  have keep: "m_saiObjectCollection s2 = m_saiObjectCollection s1"
    using on_oids_reference [of h key sw False s1] refs by simp
  from attrs obtain s3 where run: "forM (post_create_attr h key) attrs (m_warmBoot_update (\<lambda>_. False) s2) = (Inr (), s3)"
    and last: "m_saiObjectCollection s' = m_saiObjectCollection s3"
    by (auto simp: post_create_attributes_def seq_Inr modify_def lift_def zoom_def ret_def attrkey_insert_def split: if_splits)
  note store = create_attrs_store [OF run assms(3)]
  have start: "stored_after h key attrs (m_saiObjectCollection s2) aid = stored_after h key attrs [] aid" for aid
    using new(2) keep by (simp add: stored_after_def getObjectAttr_def getAttr_def split: option.splits)
  have "forM (post_create_attr h key) attrs a = (Inr (), b) \<Longrightarrow> objectExists (m_saiObjectCollection a) key \<Longrightarrow>
      objectExists (m_saiObjectCollection b) key" for attrs a b
    by (induction attrs arbitrary: a)
      (auto simp: ret_def seq_Inr objectExists_def dest!: post_create_attr_stores split: if_splits)
  from this [OF run] have "objectExists (m_saiObjectCollection s3) key"
    using new(2) keep by (simp add: objectExists_def)
  with new store start keep last show ?thesis by auto
qed

text \<open>The attributes of a list as the caching policy keeps them, and that an object is new and has just those.\<close>

definition kept_attribute :: "sai_meta \<Rightarrow> object_type \<Rightarrow> sai_attribute list \<Rightarrow> u32 \<Rightarrow> sai_attribute option" where
  "kept_attribute h t attrs aid =
     (case get_attr_metadata h t aid of
        None \<Rightarrow> None
      | Some md \<Rightarrow> if shouldCacheAttribute h t md then find (\<lambda>attr. a_id attr = aid) attrs else None)"

definition created_with :: "sai_meta \<Rightarrow> meta_key \<Rightarrow> sai_attribute list \<Rightarrow> object_collection \<Rightarrow> object_collection \<Rightarrow> bool" where
  "created_with h key attrs c c' \<longleftrightarrow>
     \<not> objectExists c key \<and> objectExists c' key \<and>
     (\<forall>aid. map_option w_attr (getObjectAttr c' key aid) = kept_attribute h (objecttype key) attrs aid) \<and>
     (\<forall>k. k \<noteq> key \<longrightarrow> map_of c' k = map_of c k)"

text \<open>The serializer's copy of a value, which is what is stored, is the value.\<close>

definition copies_exact :: "sai_meta \<Rightarrow> object_type \<Rightarrow> sai_attribute list \<Rightarrow> bool" where
  "copies_exact h t attrs \<longleftrightarrow>
     (\<forall>attr \<in> set attrs. \<forall>md. get_attr_metadata h t (a_id attr) = Some md \<longrightarrow> attr_copy h md (a_value attr) = a_value attr)"

lemma stored_after_kept:
  assumes "copies_exact h (objecttype key) attrs"
  shows "map_option w_attr (stored_after h key attrs [] aid) = kept_attribute h (objecttype key) attrs aid"
proof (cases "find (\<lambda>attr. a_id attr = aid) attrs")
  case None
  then show ?thesis by (simp add: stored_after_def kept_attribute_def getObjectAttr_def split: option.splits)
next
  case (Some attr)
  then have "attr \<in> set attrs" "a_id attr = aid" by (auto simp: find_Some_iff)
  with assms Some show ?thesis
    by (auto simp: stored_after_def kept_attribute_def getObjectAttr_def copies_exact_def attr_wrapper_new_def split: option.splits)
qed

lemma post_create_created:
  assumes "meta_generic_validation_post_create h key sw (elems l) s = (Inr (), s')" "objecttype key \<noteq> ot_switch h"
    and "meta_generic_validation_create h s key' sw' l = ok" "copies_exact h (objecttype key) (elems l)"
  shows "created_with h key (elems l) (m_saiObjectCollection s) (m_saiObjectCollection s')"
  using post_create_stores [OF assms(1,2) create_validated_distinct [OF assms(3)]] stored_after_kept [OF assms(4)]
  by (simp add: created_with_def)

text \<open>
C18 create stores what it was given: when a create of an object id object or of an entry answers success,
the object was not there before, is there now, its stored attributes are exactly the attributes of the
list that the caching policy keeps, with the values that were passed, and no other object has changed. It
is stated for lists whose values are unchanged by a round trip through the serializer, since the layer
stores what it reads back of the printed value (SaiAttrWrapper), and for objects other than a switch,
whose create may connect to one that is there.
\<close>
theorem create_stores:
  assumes "(key = oid_key t oid \<and>
         meta_create h (SAI_STATUS_SUCCESS, oid) t p sw l s = (Inr SAI_STATUS_SUCCESS, s')) \<or>
       (key = entry_key h kind entry \<and>
         meta_create_entry h SAI_STATUS_SUCCESS kind (Some entry) l s = (Inr SAI_STATUS_SUCCESS, s'))"
    and "objecttype key \<noteq> ot_switch h" "copies_exact h (objecttype key) (elems l)"
  shows "created_with h key (elems l) (m_saiObjectCollection s) (m_saiObjectCollection s')"
  using assms(1)
proof (elim disjE conjE)
  assume key: "key = oid_key t oid"
    and "meta_create h (SAI_STATUS_SUCCESS, oid) t p sw l s = (Inr SAI_STATUS_SUCCESS, s')"
  then have val: "meta_generic_validation_create h s (oid_key t 0) sw l = ok"
    and post: "meta_generic_validation_post_create h key sw (elems l) s = (Inr (), s')"
    using assms(2) by (auto simp: meta_create_def guarded_def on_success_def seq_Inr ret_def split: sum.splits if_splits)
  show ?thesis by (rule post_create_created [OF post assms(2) val assms(3)])
next
  assume key: "key = entry_key h kind entry"
    and "meta_create_entry h SAI_STATUS_SUCCESS kind (Some entry) l s = (Inr SAI_STATUS_SUCCESS, s')"
  then have val: "meta_generic_validation_create h s key (object_id key) l = ok"
    and post: "meta_generic_validation_post_create h key (object_id key) (elems l) s = (Inr (), s')"
    by (auto simp: meta_create_entry_def with_entry_def entry_keyed_def guarded_def on_success_def seq_Inr ret_def
        split: sum.splits if_splits)
  show ?thesis by (rule post_create_created [OF post assms(2) val assms(3)])
qed

theorem create_stores_witness:
  "map_option w_attr (getObjectAttr (m_saiObjectCollection demo_db3) (oid_key 1 demo_port) 0) = Some demo_a_lanes \<and>
   map_option w_attr (getObjectAttr (m_saiObjectCollection demo_db4) demo_route (a_id demo_a_hop)) = Some demo_a_hop"
proof -
  have exact: "copies_exact demo_meta t attrs" for t attrs by (simp add: copies_exact_def)
  have port: "created_with demo_meta (oid_key 1 demo_port) [demo_a_lanes, demo_a_vr]
      (m_saiObjectCollection demo_db2) (m_saiObjectCollection demo_db3)"
    using create_stores [of "oid_key 1 demo_port" 1 demo_port demo_meta "Some 0" demo_switch
      "Sai_List [demo_a_lanes, demo_a_vr]" demo_db2 demo_db3 ROUTE_ENTRY demo_route] demo_create_port exact by simp
  have route: "created_with demo_meta demo_route [demo_a_hop] (m_saiObjectCollection demo_db3) (m_saiObjectCollection demo_db4)"
    using create_stores [of demo_route 1 demo_port demo_meta "Some 0" demo_switch
      "Sai_List [demo_a_hop]" demo_db3 demo_db4 ROUTE_ENTRY demo_route] demo_create_route exact by simp
  show ?thesis
    using port route
    by (simp add: created_with_def kept_attribute_def shouldCache_iff demo_metadata) (simp add: demo_a_defs)
qed

text \<open>
set stores the new value: when a set of an attribute the caching policy keeps answers success, the
object has the new value for the attribute, and every other attribute of it and every other object
is as before.
\<close>
theorem set_stores:
  assumes "meta_set h SAI_STATUS_SUCCESS t x (Some attr) s = (Inr SAI_STATUS_SUCCESS, s')"
    and "get_attr_metadata h t (a_id attr) = Some md" "shouldCacheAttribute h t md"
  shows "getObjectAttr (m_saiObjectCollection s') (oid_key t x) (a_id attr) = Some (attr_wrapper_new h md attr) \<and>
    (\<forall>k aid. (k, aid) \<noteq> (oid_key t x, a_id attr) \<longrightarrow>
       getObjectAttr (m_saiObjectCollection s') k aid = getObjectAttr (m_saiObjectCollection s) k aid)"
proof -
  let ?k = "oid_key t x"
  from assms(1) obtain s1 where val: "meta_generic_validation_set h ?k (Some attr) s = (Inr SAI_STATUS_SUCCESS, s1)"
    and post: "meta_generic_validation_post_set h ?k attr s1 = (Inr (), s')"
    by (auto simp: meta_set_def guarded_def on_success_def seq_Inr ret_def split: sum.splits if_splits)
  have "m_saiObjectCollection s1 = m_saiObjectCollection s"
    using val by (auto simp: meta_generic_validation_set_def seq_Inr ret_def
      meta_unittests_get_and_erase_set_readonly_flag_def split: option.splits if_splits)
  moreover from post assms(2,3) obtain s2 where refs: "on_oids (post_set_attr_refs
      (get_object_previous_attr s1 ?k md) md (a_value attr)) s1 = (Inr (), s2)"
    and store: "on_objects (setObjectAttr h ?k md attr) s2 = (Inr (), s')"
    by (auto simp: meta_generic_validation_post_set_def seq_Inr gets_def)
  moreover have "m_saiObjectCollection s2 = m_saiObjectCollection s1" by (rule zoom_oids_objects [OF refs])
  moreover from store obtain obj where "map_of (m_saiObjectCollection s2) ?k = Some obj"
    "m_saiObjectCollection s' = AList.update ?k (setAttr h md attr obj) (m_saiObjectCollection s2)"
    by (auto simp: zoom_def setObjectAttr_def split: option.splits)
  ultimately show ?thesis
    by (simp add: getObjectAttr_def getAttr_def setAttr_def)
qed

theorem set_stores_witness:
  "getObjectAttr (m_saiObjectCollection demo_db6) (oid_key 1 demo_port) 2 =
     Some \<lparr>w_meta = the (demo_get_attr_metadata 1 2), w_attr = demo_a_novr\<rparr>"
  using set_stores [OF demo_set_novr, of "the (demo_get_attr_metadata 1 2)"]
  by (simp add: shouldCache_iff attr_wrapper_new_def demo_metadata demo_a_novr_def)

end
