(* ===== verification/Meta_Value_Props.thy ===== *)
theory Meta_Value_Props
  imports Meta_Props
begin

text \<open>
  What the validations of values accept: exact characterisations of the checks of object lists, masks,
  character data and enum lists.
\<close>

section \<open>Object lists\<close>

definition listable :: "sai_meta \<Rightarrow> meta_db \<Rightarrow> attr_md \<Rightarrow> oid \<Rightarrow> oid \<Rightarrow> bool" where
  "listable h s md switch_id x \<longleftrightarrow>
     objectTypeQuery h x \<noteq> SAI_OBJECT_TYPE_NULL \<and> is_allowed_object_type h md (objectTypeQuery h x) \<and>
     objectReferenceExists (m_oids s) x \<and> objectReferenceExists (m_oids s) (switchIdQuery h x) \<and>
     switchIdQuery h x = switch_id"

lemma objlist_loop_step:
  assumes "x \<noteq> SAI_NULL_OBJECT_ID"
  shows "objlist_loop h s md sw i seen ty (x # xs) = ok \<longleftrightarrow>
     x \<notin> set seen \<and> listable h s md sw x \<and> (1 < i \<longrightarrow> ty = objectTypeQuery h x) \<and>
     objlist_loop h s md sw (Suc i) (x # seen) (objectTypeQuery h x) xs = ok"
  using assms by (auto simp: listable_def Let_def)

lemma objlist_loop_accepts:
  assumes "SAI_NULL_OBJECT_ID \<notin> set xs"
  shows "objlist_loop h s md sw i seen ty xs = ok \<longleftrightarrow>
     distinct xs \<and> set xs \<inter> set seen = {} \<and> (\<forall>x \<in> set xs. listable h s md sw x) \<and>
     (\<forall>j < length xs. 1 < i + j \<longrightarrow>
        (if j = 0 then ty else objectTypeQuery h (xs ! (j - 1))) = objectTypeQuery h (xs ! j))"
  using assms
proof (induction xs arbitrary: i seen ty)
  case Nil
  show ?case by simp
next
  case (Cons x xs)
  have x: "x \<noteq> SAI_NULL_OBJECT_ID" and xs: "SAI_NULL_OBJECT_ID \<notin> set xs" using Cons.prems by auto
  have types: "(\<forall>j < length (x # xs). 1 < i + j \<longrightarrow>
        (if j = 0 then ty else objectTypeQuery h ((x # xs) ! (j - 1))) = objectTypeQuery h ((x # xs) ! j)) \<longleftrightarrow>
      (1 < i \<longrightarrow> ty = objectTypeQuery h x) \<and>
      (\<forall>j < length xs. 1 < Suc i + j \<longrightarrow>
        (if j = 0 then objectTypeQuery h x else objectTypeQuery h (xs ! (j - 1))) = objectTypeQuery h (xs ! j))"
    by (simp add: All_less_Suc2 nth_Cons' if_distrib [of "objectTypeQuery h"])
  show ?case
    unfolding objlist_loop_step [OF x] types Cons.IH [OF xs] by auto
qed

text \<open>
what an object list must be: a list of non-null object ids passes the check exactly when it is not too
long, its elements are pairwise distinct, each is of an allowed type, known, and on the switch
of the object, and from the third element on each has the type of the one before. The first two
elements may differ in type, although the check is there to reject lists of mixed types.
\<close>
theorem objlist_accepts_iff:
  assumes "SAI_NULL_OBJECT_ID \<notin> set xs"
  shows "meta_generic_validation_objlist h s md sw (Sai_List xs) = ok \<longleftrightarrow>
    length xs \<le> MAX_LIST_COUNT \<and> distinct xs \<and> (\<forall>x \<in> set xs. listable h s md sw x) \<and>
    (\<forall>j. 2 \<le> j \<and> j < length xs \<longrightarrow> objectTypeQuery h (xs ! (j - 1)) = objectTypeQuery h (xs ! j))"
  using objlist_loop_accepts [OF assms, of h s md sw 0 "[]" 0]
  by (auto simp: meta_generic_validation_objlist_def not_less)

theorem objlist_accepts_iff_witness:
  "meta_generic_validation_objlist demo_meta demo_db3 (demo_md 1 9 ''MIXED'' VT_OBJECT_LIST) demo_switch
     (Sai_List [demo_port, demo_vr]) = ok"
  using objlist_accepts_iff [of "[demo_port, demo_vr]" demo_meta demo_db3 "demo_md 1 9 ''MIXED'' VT_OBJECT_LIST" demo_switch]
  by (simp add: listable_def demo_md_def demo_db3_def objectReferenceExists_def has_key_def MAX_LIST_COUNT_def)

section \<open>Masks and characters\<close>

lemma mask_zeros: "mask_bits_valid True bs \<longleftrightarrow> bs = replicate (length bs) False"
  by (induction bs) auto

lemma mask_ones:
  "mask_bits_valid False bs \<longleftrightarrow> (\<exists>n \<le> length bs. bs = replicate n True @ replicate (length bs - n) False)"
proof (induction bs)
  case Nil
  show ?case by simp
next
  case (Cons b bs)
  show ?case
  proof (cases b)
    case True
    have "(\<exists>n \<le> length (b # bs). b # bs = replicate n True @ replicate (length (b # bs) - n) False) \<longleftrightarrow>
        (\<exists>n \<le> length bs. bs = replicate n True @ replicate (length bs - n) False)" (is "?l = ?r")
    proof
      assume ?l
      then obtain n where n: "n \<le> length (b # bs)" "b # bs = replicate n True @ replicate (length (b # bs) - n) False" by blast
      with True obtain m where "n = Suc m" by (cases n) auto
      with n show ?r by auto
    next
      assume ?r
      then obtain n where "n \<le> length bs" "bs = replicate n True @ replicate (length bs - n) False" by blast
      with True show ?l by (intro exI [of _ "Suc n"]) simp
    qed
    with Cons True show ?thesis by simp
  next
    case False
    have "(\<exists>n \<le> length (b # bs). b # bs = replicate n True @ replicate (length (b # bs) - n) False) \<longleftrightarrow>
        bs = replicate (length bs) False" (is "?l = ?r")
    proof
      assume ?l
      then obtain n where n: "b # bs = replicate n True @ replicate (length (b # bs) - n) False" by blast
      with False have "n = 0" by (cases n) auto
      with n False show ?r by simp
    next
      assume ?r
      with False show ?l by (intro exI [of _ 0]) simp
    qed
    with False show ?thesis by (simp add: mask_zeros)
  qed
qed

text \<open>
valid IPv6 masks: a mask is accepted exactly when its 128 bits, from the most significant bit of the
first byte on, are some number of ones followed by zeros.
\<close>
theorem ipv6_mask_valid_iff:
  "is_ipv6_mask_valid m \<longleftrightarrow> (\<exists>n \<le> 128. mask_bits m = replicate n True @ replicate (128 - n) False)"
proof -
  have "length (mask_bits m) = 128" by (simp add: mask_bits_def)
  then show ?thesis using mask_ones [of "mask_bits m"] by (simp add: is_ipv6_mask_valid_def)
qed

text \<open>
character data: accepted exactly when every character before the terminating zero, or before the end
of the 32 bytes when there is none, is printable.
\<close>
theorem chardata_accepts_iff:
  "meta_generic_validation_chardata cs = ok \<longleftrightarrow>
     (\<forall>c \<in> set (takeWhile (\<lambda>c. c \<noteq> 0) (take 32 cs)). 0x20 \<le> c \<and> c \<le> 0x7e)"
proof -
  have "take (strnlen cs 32) cs = takeWhile (\<lambda>c. c \<noteq> 0) (take 32 cs)"
  proof -
    let ?n = "length (takeWhile (\<lambda>c. c \<noteq> 0) (take 32 cs))"
    have "?n \<le> 32" using length_takeWhile_le [of "\<lambda>c. c \<noteq> 0" "take 32 cs"] by simp
    then have "take ?n cs = take ?n (take 32 cs)" by (simp add: min_absorb1)
    also have "\<dots> = takeWhile (\<lambda>c. c \<noteq> 0) (take 32 cs)" by (rule takeWhile_eq_take [symmetric])
    finally show ?thesis by (simp add: strnlen_def)
  qed
  then show ?thesis
    by (auto simp: meta_generic_validation_chardata_def chardata_size_def check_all_ok not_less split: if_splits)
qed

theorem chardata_accepts_iff_witness:
  "meta_generic_validation_chardata [0x45, 0x74, 0x68, 0x30, 0, 7] = ok \<and>
   meta_generic_validation_chardata [0x45, 7] \<noteq> ok"
  by (simp add: chardata_accepts_iff)

section \<open>Enum lists\<close>

text \<open>
enum lists are never looked at: the check of an enum list attribute accepts every list with a pointer,
whatever values it holds, because its loop starts at the count.
\<close>
theorem enum_list_unchecked:
  "enum_list_check h md v = ok \<longleftrightarrow>
     \<not> (md_isenumlist md \<and> list_null (v_s32list v) \<and> list_count (v_s32list v) \<noteq> 0)"
  by (auto simp: enum_list_check_def)

end
