(* ===== verification/Meta_Fault_Props.thy ===== *)
theory Meta_Fault_Props
  imports Meta_Props
begin

text \<open>
  Calls that are refused, and calls that fail after the interface below has done its part: a throw there
  leaves the vendor's objects and the database of the layer out of step.
\<close>

section \<open>Refused calls\<close>

text \<open>
  A call that answers an error has not changed the database, except that the unit test hook of a
  read-only attribute may be used up.
\<close>

definition harmless_when_refused :: "(meta_db, sai_status) op \<Rightarrow> bool" where
  "harmless_when_refused m \<longleftrightarrow> (\<forall>s st s'. m s = (Inr st, s') \<longrightarrow> st \<noteq> SAI_STATUS_SUCCESS \<longrightarrow>
     s' = s\<lparr>m_meta_unittests_set_readonly_set := m_meta_unittests_set_readonly_set s'\<rparr>)"

lemma harmless_guarded: "harmless_when_refused k \<Longrightarrow> harmless_when_refused (guarded c k)"
  by (auto simp: harmless_when_refused_def guarded_def split: sum.splits if_splits)

lemma harmless_on_success: "harmless_when_refused (on_success st m)"
  by (auto simp: harmless_when_refused_def on_success_def ret_def seq_Inr)

lemma harmless_with_entry: "(\<And>key. harmless_when_refused (k key)) \<Longrightarrow> harmless_when_refused (with_entry e k)"
  by (cases e) (simp_all add: with_entry_def harmless_when_refused_def raise_def)

lemma validation_set_hook:
  "meta_generic_validation_set h key attr s = (r, s') \<Longrightarrow>
     s' = s\<lparr>m_meta_unittests_set_readonly_set := m_meta_unittests_set_readonly_set s'\<rparr>"
  by (auto simp: meta_generic_validation_set_def ret_def seq_def meta_unittests_get_and_erase_set_readonly_flag_def
      split: option.splits if_splits prod.splits sum.splits)

lemma harmless_set:
  "harmless_when_refused (seq (meta_generic_validation_set h key attr) (\<lambda>st.
     if st \<noteq> SAI_STATUS_SUCCESS then ret st
     else case attr of None \<Rightarrow> ret answer
       | Some a \<Rightarrow> on_success answer (meta_generic_validation_post_set h key a)))"
  unfolding harmless_when_refused_def
proof (intro allI impI)
  fix s st s'
  assume run: "seq (meta_generic_validation_set h key attr) (\<lambda>st.
     if st \<noteq> SAI_STATUS_SUCCESS then ret st
     else case attr of None \<Rightarrow> ret answer
       | Some a \<Rightarrow> on_success answer (meta_generic_validation_post_set h key a)) s = (Inr st, s')"
    and bad: "st \<noteq> SAI_STATUS_SUCCESS"
  then obtain st1 s1 where v: "meta_generic_validation_set h key attr s = (Inr st1, s1)"
    and k: "(if st1 \<noteq> SAI_STATUS_SUCCESS then ret st1
     else case attr of None \<Rightarrow> ret answer
       | Some a \<Rightarrow> on_success answer (meta_generic_validation_post_set h key a)) s1 = (Inr st, s')"
    by (auto simp: seq_Inr)
  from k bad have "s' = s1"
    by (auto simp: ret_def on_success_def seq_Inr split: if_splits option.splits)
  with validation_set_hook [OF v]
  show "s' = s\<lparr>m_meta_unittests_set_readonly_set := m_meta_unittests_set_readonly_set s'\<rparr>" by simp
qed

subsection \<open>Bulk calls\<close>

text \<open>
  A bulk call updates the database for each object whose own status is success, whatever the status of the
  call is. So it leaves the database as it was in two cases: when it is refused before the interface below
  is asked, which shows in a status other than the one the interface answered, and when no object succeeded.
\<close>

definition bulk_harmless :: "sai_status \<Rightarrow> sai_status list \<Rightarrow> (meta_db, sai_status) op \<Rightarrow> bool" where
  "bulk_harmless answer sts m \<longleftrightarrow> (\<forall>s st s'. m s = (Inr st, s') \<longrightarrow> st \<noteq> answer \<or> SAI_STATUS_SUCCESS \<notin> set sts \<longrightarrow>
     s' = s\<lparr>m_meta_unittests_set_readonly_set := m_meta_unittests_set_readonly_set s'\<rparr>)"

lemma bulk_harmless_guarded: "bulk_harmless answer sts k \<Longrightarrow> bulk_harmless answer sts (guarded c k)"
  by (auto simp: bulk_harmless_def guarded_def split: sum.splits if_splits)

lemma bulk_update_none:
  "SAI_STATUS_SUCCESS \<notin> snd ` set xs \<Longrightarrow> bulk_update post xs s = (Inr (), s)"
  by (induction xs) (auto simp: bulk_update_def ret_def seq_def)

lemma bulk_harmless_update:
  "snd ` set xs \<subseteq> set sts \<Longrightarrow> bulk_harmless answer sts (seq (bulk_update post xs) (\<lambda>_. ret answer))"
  unfolding bulk_harmless_def
proof (intro allI impI)
  fix s st s'
  assume sub: "snd ` set xs \<subseteq> set sts" and run: "seq (bulk_update post xs) (\<lambda>_. ret answer) s = (Inr st, s')"
    and "st \<noteq> answer \<or> SAI_STATUS_SUCCESS \<notin> set sts"
  then have "SAI_STATUS_SUCCESS \<notin> snd ` set xs" by (auto simp: seq_Inr ret_def)
  from bulk_update_none [OF this, of post s] run
  show "s' = s\<lparr>m_meta_unittests_set_readonly_set := m_meta_unittests_set_readonly_set s'\<rparr>" by (simp add: seq_def ret_def)
qed

lemma all_success_hook:
  "all_success (\<lambda>(key, attr). guarded (\<lambda>s. validate s key) (meta_generic_validation_set h key (Some attr))) items s = (r, s') \<Longrightarrow>
     s' = s\<lparr>m_meta_unittests_set_readonly_set := m_meta_unittests_set_readonly_set s'\<rparr>"
proof (induction items arbitrary: s)
  case Nil
  then show ?case by (simp add: ret_def)
next
  case (Cons item items)
  obtain key attr where item: "item = (key, attr)" by fastforce
  obtain r1 s1 where first: "guarded (\<lambda>s. validate s key) (meta_generic_validation_set h key (Some attr)) s = (r1, s1)" by fastforce
  then have s1: "s1 = s\<lparr>m_meta_unittests_set_readonly_set := m_meta_unittests_set_readonly_set s1\<rparr>"
    using validation_set_hook [of h key "Some attr" s] by (auto simp: guarded_def split: sum.splits if_splits)
  show ?case
  proof (cases "r1 = Inr SAI_STATUS_SUCCESS")
    case True
    with Cons.prems item first
    have "all_success (\<lambda>(key, attr). guarded (\<lambda>s. validate s key) (meta_generic_validation_set h key (Some attr))) items s1 = (r, s')"
      by (simp add: seq_def)
    then obtain y where "s' = s1\<lparr>m_meta_unittests_set_readonly_set := y\<rparr>" using Cons.IH by blast
    moreover obtain x where "s1 = s\<lparr>m_meta_unittests_set_readonly_set := x\<rparr>" using s1 by blast
    ultimately show ?thesis by simp
  next
    case False
    with Cons.prems item first have "s' = s1" by (auto simp: seq_def ret_def split: sum.splits)
    with s1 show ?thesis by simp
  qed
qed

lemma bulk_harmless_set: "bulk_harmless (fst answer) (snd answer) (bulk_set h answer validate items)"
  unfolding bulk_harmless_def bulk_set_def
proof (intro allI impI)
  fix s st s'
  let ?all = "all_success (\<lambda>(key, attr). guarded (\<lambda>s. validate s key) (meta_generic_validation_set h key (Some attr))) items"
  let ?post = "bulk_update (\<lambda>(key, attr). meta_generic_validation_post_set h key attr) (zip items (snd answer))"
  assume run: "seq ?all (\<lambda>st. if st \<noteq> SAI_STATUS_SUCCESS then ret st else seq ?post (\<lambda>_. ret (fst answer))) s = (Inr st, s')"
    and none: "st \<noteq> fst answer \<or> SAI_STATUS_SUCCESS \<notin> set (snd answer)"
  then obtain st1 s1 where v: "?all s = (Inr st1, s1)"
    and k: "(if st1 \<noteq> SAI_STATUS_SUCCESS then ret st1 else seq ?post (\<lambda>_. ret (fst answer))) s1 = (Inr st, s')"
    by (auto simp: seq_Inr)
  have "SAI_STATUS_SUCCESS \<notin> set (snd answer) \<Longrightarrow> ?post s1 = (Inr (), s1)"
    by (rule bulk_update_none) (auto dest: set_zip_rightD)
  with k none have "s' = s1" by (auto simp: ret_def seq_Inr split: if_splits)
  with all_success_hook [OF v]
  show "s' = s\<lparr>m_meta_unittests_set_readonly_set := m_meta_unittests_set_readonly_set s'\<rparr>" by simp
qed

lemma map2_statuses: "snd ` set (map2 (\<lambda>x (y, st). ((f x y), st)) xs ys) \<subseteq> snd ` set ys"
  by (force dest: set_zip_rightD)

text \<open>
C19 refused calls are harmless: whichever of the validations or the interface below refuses it, a create,
remove, set or get of one object (an object id or an entry) that answers an error leaves objects, reference
counters, attribute keys, related objects and the warm boot flag as they were. So does a bulk call
that the layer refuses itself, which answers something else than the interface below did, and a bulk
call for which no object's own status is success; a bulk call that answers an error while some object
succeeded is not one of these, it updates the database for that object.
\<close>
theorem refused_calls_harmless:
  "harmless_when_refused (meta_create h answer t p sw l) \<and>
   harmless_when_refused (meta_create_entry h st kind entry l) \<and>
   harmless_when_refused (meta_remove h st t x) \<and>
   harmless_when_refused (meta_remove_entry h st kind entry) \<and>
   harmless_when_refused (meta_set h st t x attr) \<and>
   harmless_when_refused (meta_set_entry h st kind entry attr) \<and>
   harmless_when_refused (meta_get h answer' t x l) \<and>
   harmless_when_refused (meta_get_entry h answer' kind entry l) \<and>
   bulk_harmless (fst created) (map snd (snd created)) (meta_bulkCreate h created t sw ls mode_ok) \<and>
   bulk_harmless (fst answers) (snd answers) (meta_bulkCreate_entry h answers kind es mode_ok) \<and>
   bulk_harmless (fst answers) (snd answers) (meta_bulkRemove h answers t oids mode_ok) \<and>
   bulk_harmless (fst answers) (snd answers) (meta_bulkRemove_entry h answers kind entries mode_ok) \<and>
   bulk_harmless (fst answers) (snd answers) (meta_bulkSet h answers t items mode_ok) \<and>
   bulk_harmless (fst answers) (snd answers) (meta_bulkSet_entry h answers kind entry_items mode_ok) \<and>
   bulk_harmless (fst got) (map snd (snd got)) (meta_bulkGet h got t asked mode_ok)"
proof -
  have "harmless_when_refused (meta_create h answer t p sw l) \<and>
     harmless_when_refused (meta_create_entry h st kind entry l) \<and>
     harmless_when_refused (meta_remove h st t x) \<and>
     harmless_when_refused (meta_remove_entry h st kind entry) \<and>
     harmless_when_refused (meta_set h st t x attr) \<and>
     harmless_when_refused (meta_set_entry h st kind entry attr) \<and>
     harmless_when_refused (meta_get h answer' t x l) \<and>
     harmless_when_refused (meta_get_entry h answer' kind entry l)"
    unfolding meta_create_def meta_create_entry_def meta_remove_def meta_remove_entry_def meta_set_def
      meta_set_entry_def meta_get_def meta_get_entry_def
    by (intro conjI harmless_guarded harmless_with_entry harmless_on_success harmless_set)
  moreover have "bulk_harmless (fst created) (map snd (snd created)) (meta_bulkCreate h created t sw ls mode_ok)"
    unfolding meta_bulkCreate_def
    by (intro bulk_harmless_guarded bulk_harmless_update) (force dest: set_zip_rightD)
  moreover have "bulk_harmless (fst answers) (snd answers) (meta_bulkCreate_entry h answers kind es mode_ok)"
    "bulk_harmless (fst answers) (snd answers) (meta_bulkRemove h answers t oids mode_ok)"
    "bulk_harmless (fst answers) (snd answers) (meta_bulkRemove_entry h answers kind entries mode_ok)"
    unfolding meta_bulkCreate_entry_def meta_bulkRemove_def meta_bulkRemove_entry_def
    by (intro bulk_harmless_guarded bulk_harmless_update; force dest: set_zip_rightD)+
  moreover have "bulk_harmless (fst answers) (snd answers) (meta_bulkSet h answers t items mode_ok)"
    "bulk_harmless (fst answers) (snd answers) (meta_bulkSet_entry h answers kind entry_items mode_ok)"
    unfolding meta_bulkSet_def meta_bulkSet_entry_def by (intro bulk_harmless_guarded bulk_harmless_set)+
  moreover have "bulk_harmless (fst got) (map snd (snd got)) (meta_bulkGet h got t asked mode_ok)"
    unfolding meta_bulkGet_def
    by (intro bulk_harmless_guarded bulk_harmless_update) (force dest: set_zip_rightD)
  ultimately show ?thesis by (intro conjI) simp_all
qed

section \<open>Faults after the interface below has succeeded\<close>

lemma forM_fails:
  assumes "x \<in> set xs" "\<And>s. \<exists>e. fst (f x s) = Inl e"
  shows "\<exists>e. fst (forM f xs s) = Inl e"
  using assms(1)
proof (induction xs arbitrary: s)
  case (Cons y ys)
  obtain r s1 where y: "f y s = (r, s1)" by fastforce
  show ?case
  proof (cases r)
    case (Inl e)
    with y show ?thesis by (simp add: seq_def)
  next
    case (Inr u)
    with assms(2) [of s] y have "y \<noteq> x" by auto
    with Cons y Inr show ?thesis by (simp add: seq_def)
  qed
qed simp

lemma seq_fails: "(\<And>x s. \<exists>e. fst (f x s) = Inl e) \<Longrightarrow> \<exists>e. fst (seq m f s) = Inl e"
  by (cases "m s") (auto simp: seq_def split: sum.split)

lemma fails_first: "(\<And>s. \<exists>e. fst (m s) = Inl e) \<Longrightarrow> \<exists>e. fst (seq m f s) = Inl e"
proof -
  assume m: "\<And>s. \<exists>e. fst (m s) = Inl e"
  obtain r s1 where run: "m s = (r, s1)" by fastforce
  with m [of s] obtain e where "r = Inl e" by auto
  with run show ?thesis by (simp add: seq_def)
qed

lemma post_create_fails:
  assumes "attr \<in> set attrs" "\<And>s. \<exists>e. fst (post_create_attr h key attr s) = Inl e"
  shows "\<exists>e. fst (meta_generic_validation_post_create h key sw attrs s) = Inl e"
  unfolding meta_generic_validation_post_create_def Let_def post_create_attributes_def
    bypassValidation_off if_False
  by (intro seq_fails fails_first forM_fails [where x = attr] assms)

text \<open>
lists the layer accepts and then chokes on: for an attribute that is a list of lane latch, ILT
training or SNR statuses or of taps, create passes the validations and hands the object to the interface
below, and then throws after that has answered success.
\<close>
theorem create_unsupported_list_throws:
  assumes "meta_sai_validate_oid h s t p True = ok"
    and "meta_generic_validation_create h s (oid_key t SAI_NULL_OBJECT_ID) sw l = ok"
    and "attr \<in> set (elems l)" "get_attr_metadata h t (a_id attr) = Some md" "md_attrvaluetype md = VT_LIST lt"
    and "lt \<in> {LT_PORT_LANE_LATCH_STATUS, LT_PORT_ILT_LANE_TRAINING_STATUS, LT_PORT_SNR, LT_TAPS}"
  shows "\<exists>e. fst (meta_create h (SAI_STATUS_SUCCESS, oid) t p sw l s) = Inl e"
proof -
  have "\<exists>e. fst (post_create_attr h (oid_key t oid) attr s) = Inl e" for s
    using assms(4-6) by (simp add: post_create_attr_def post_create_attr_refs_def seq_def zoom_def raise_def)
  from post_create_fails [OF assms(3) this]
  obtain e where "fst (meta_generic_validation_post_create h (oid_key t oid)
      (if t = ot_switch h then oid else sw) (elems l) s) = Inl e" by blast
  then have "\<exists>e s'. meta_generic_validation_post_create h (oid_key t oid)
      (if t = ot_switch h then oid else sw) (elems l) s = (Inl e, s')"
    by (metis prod.collapse)
  then show ?thesis
    using assms(1,2) by (auto simp: meta_create_def guarded_def on_success_def seq_def)
qed

definition demo_a_taps :: sai_attribute where
  "demo_a_taps = \<lparr>a_id = 4, a_value = demo_value\<lparr>v_lists := (\<lambda>l. (1, False))\<rparr>\<rparr>"

lemma demo_taps_validated:
  "meta_generic_validation_create demo_meta demo_db2 (oid_key 1 0) demo_switch (Sai_List [demo_a_lanes, demo_a_taps]) = ok"
proof -
  have key: "constructKey demo_meta demo_switch (oid_key 1 0) [demo_a_lanes, demo_a_taps] =
      Inr ''oid:0x21000000000000;HW_LANE_LIST:1,2;''"
    using demo_print_digits
    by (simp add: constructKey_def demo_metadata demo_a_defs demo_a_taps_def key_value_def demo_print_switch)
  have keys: "create_key_check demo_meta demo_db2 (oid_key 1 0) demo_switch [demo_a_lanes, demo_a_taps] = ok"
    by (simp add: create_key_check_def key attrKeyExists_def demo_db2_def meta_new_def)
  have attrs: "create_attrs_check demo_meta demo_db2 (oid_key 1 0) demo_switch [] [demo_a_lanes, demo_a_taps] = ok"
    by (simp add: demo_validation demo_metadata demo_a_lanes_def demo_a_taps_def list_header_def
      VALIDATION_LIST_header_def meta_genetic_validation_list_def MAX_LIST_COUNT_def)
  have rest: "create_metadata_check demo_meta demo_db2 (oid_key 1 0) [demo_a_lanes, demo_a_taps] = ok"
    by (simp add: demo_validation demo_metadata demo_a_defs demo_a_taps_def)
  show ?thesis
    using keys attrs rest
    by (simp add: meta_generic_validation_create_def create_steps_def meta_extract_switch_id_def
        create_on_switch_check_def meta_generic_validate_non_object_on_create_def create_exists_check_def
        demo_info_def MAX_LIST_COUNT_def)
       (simp add: demo_db2_def demo_object_def objectExists_def objectReferenceExists_def has_key_def)
qed

theorem create_unsupported_list_throws_witness:
  "\<exists>e. fst (meta_create demo_meta (SAI_STATUS_SUCCESS, demo_port) 1 (Some 0) demo_switch
     (Sai_List [demo_a_lanes, demo_a_taps]) demo_db2) = Inl e"
proof (rule create_unsupported_list_throws [OF _ demo_taps_validated, where attr = demo_a_taps and md = "demo_md 1 4 ''TAPS'' (VT_LIST LT_TAPS)" and lt = LT_TAPS])
  show "meta_sai_validate_oid demo_meta demo_db2 1 (Some 0) True = ok"
    by (simp add: meta_sai_validate_oid_def demo_info_def)
qed (simp_all add: demo_metadata demo_a_taps_def)

text \<open>
a length query the interface below answers: when a get of one of the three related object lists of a port
is answered with a count and no list, which \<open>meta_generic_validation_post_get_objlist\<close> takes for the
answer to a query for the length, \<open>meta_add_port_to_related_map\<close> then reads the list that is not
there.
\<close>
theorem port_length_query_reads_null:
  assumes "meta_sai_validate_oid h s (ot h OT_PORT) (Some x) False = ok"
    and "meta_generic_validation_get h s (oid_key (ot h OT_PORT) x) l = ok"
    and "get_attr_metadata h (ot h OT_PORT) (a_id attr) = Some md" "md_attrvaluetype md = VT_OBJECT_LIST"
    and "md_attrid md \<in> set (port_list_attrs h)" "v_objlist (a_value attr) = Null_List n" "n \<noteq> 0"
  shows "meta_get h (SAI_STATUS_SUCCESS, [attr]) (ot h OT_PORT) x l s = (Inl (Null_Deref ''list.list''), s)"
proof -
  have "get_object_type_info h (ot h OT_PORT) \<noteq> None"
    using assms(1) by (auto simp: meta_sai_validate_oid_def split: option.splits)
  then have "meta_generic_validation_post_get h (oid_key (ot h OT_PORT) x) [attr] s = (Inl (Null_Deref ''list.list''), s)"
    using assms(3-7)
    by (auto simp: meta_generic_validation_post_get_def post_get_attr_def post_get_value_def post_get_objlist_def
        seq_def ret_def meta_post_port_get_def post_port_get_attr_def meta_add_port_to_related_map_def zoom_def lift_def)
  then show ?thesis
    using assms(1,2) by (simp add: meta_get_def guarded_def on_success_def seq_def)
qed

theorem port_length_query_reads_null_witness:
  "fst (meta_get demo_meta (SAI_STATUS_SUCCESS, [\<lparr>a_id = 1, a_value = demo_value\<lparr>v_objlist := Null_List 8\<rparr>\<rparr>]) 1 demo_port
     (Sai_List [\<lparr>a_id = 1, a_value = demo_value\<rparr>]) demo_db4) = Inl (Null_Deref ''list.list'')"
proof -
  have val: "meta_generic_validation_get demo_meta demo_db4 (oid_key 1 demo_port) (Sai_List [\<lparr>a_id = 1, a_value = demo_value\<rparr>]) = ok"
    by (simp add: meta_generic_validation_get_def MAX_LIST_COUNT_def get_attr_check_def clear_enum_def get_value_check_def
      demo_metadata VALIDATION_LIST_def meta_genetic_validation_list_def objectExists_def has_key_def
      demo_db4_def demo_db3_def demo_object_def existing_object_check_def check_all.simps)
  have oid: "meta_sai_validate_oid demo_meta demo_db4 1 (Some demo_port) False = ok"
    by (simp add: meta_sai_validate_oid_def demo_info_def demo_db4_def demo_db3_def demo_object_def objectExists_def has_key_def)
  from port_length_query_reads_null [of demo_meta demo_db4 demo_port "Sai_List [\<lparr>a_id = 1, a_value = demo_value\<rparr>]"
      "\<lparr>a_id = 1, a_value = demo_value\<lparr>v_objlist := Null_List 8\<rparr>\<rparr>"
      "(demo_md 1 1 ''QUEUE_LIST'' VT_OBJECT_LIST)\<lparr>md_isoidattribute := True, md_flag_read_only := True, md_isreadonly := True\<rparr>" 8]
  show ?thesis using val oid by (simp add: demo_metadata port_list_attrs_def)
qed

lemma entry_type_not_switch:
  assumes "meta_ok h"
  shows "ot h (OT_ENTRY kind) \<noteq> ot_switch h"
proof
  assume eq: "ot h (OT_ENTRY kind) = ot_switch h"
  note md = meta_okD(1) [OF assms]
  have "object_type_valid h (ot_switch h)"
    using oid_queries.switch_type_valid [OF meta_okD(3) [OF assms]] by simp
  then obtain info where "get_object_type_info h (ot_switch h) = Some info" using metadata_okD(5) [OF md] by blast
  with eq metadata_okD(6,8) [OF md] show False by metis
qed

text \<open>
an entry twice in one bulk create: the validation looks at the database before any of the batch is
stored, so a batch that has the same entry twice passes it and goes to the interface below; when that
answers success for both, the update of the database throws at the second.
\<close>
theorem bulk_create_twice_throws:
  assumes "meta_ok h"
    and "meta_sai_validate_entry h s kind (Some (entry_key h kind entry)) True False = ok"
    and "meta_generic_validation_create h s (entry_key h kind entry) (object_id entry) l = ok"
  shows "\<exists>e. fst (meta_bulkCreate_entry h (st, [SAI_STATUS_SUCCESS, SAI_STATUS_SUCCESS]) kind
    [(entry, l), (entry, l)] True s) = Inl e"
proof -
  let ?k = "entry_key h kind entry"
  let ?post = "meta_generic_validation_post_create h ?k (object_id entry) (elems l)"
  have ty: "objecttype ?k \<noteq> ot_switch h" using entry_type_not_switch [OF assms(1)] by (simp add: entry_key_def)
  have twice: "\<exists>e. fst (seq ?post (\<lambda>_. seq ?post f) s) = Inl e" for f
  proof -
    obtain r s1 where run: "?post s = (r, s1)" by fastforce
    show ?thesis
    proof (cases r)
      case (Inl e)
      with run show ?thesis by (simp add: seq_def)
    next
      case (Inr u)
      with run have "objectExists (m_saiObjectCollection s1) ?k"
        using post_create_stores [OF _ ty create_validated_distinct [OF assms(3)]] by simp
      then have "\<exists>e. fst (?post s1) = Inl e"
        using post_create_stores [OF _ ty create_validated_distinct [OF assms(3)], of "object_id entry" s1]
        by (cases "fst (?post s1)") (auto simp: prod_eq_iff)
      with run Inr show ?thesis by (auto simp: seq_def split: prod.splits sum.splits)
    qed
  qed
  have all: "check_all (\<lambda>(entry, l). check_then (meta_sai_validate_entry h s kind (Some (entry_key h kind entry)) True False)
      (meta_generic_validation_create h s (entry_key h kind entry) (object_id entry) l)) [(entry, l), (entry, l)] = ok"
    using assms(2,3) by (simp add: check_all.simps)
  from twice [of ret] show ?thesis
    using all by (auto simp: meta_bulkCreate_entry_def guarded_def bulk_arguments_def bulk_update_def seq_def
        split: prod.splits sum.splits)
qed

theorem bulk_create_twice_throws_witness:
  "\<exists>e. fst (meta_bulkCreate_entry demo_meta (SAI_STATUS_SUCCESS, [SAI_STATUS_SUCCESS, SAI_STATUS_SUCCESS]) ROUTE_ENTRY
     [(demo_route, Sai_List [demo_a_hop]), (demo_route, Sai_List [demo_a_hop])] True demo_db3) = Inl e"
  by (rule bulk_create_twice_throws [OF demo_meta_ok]) (simp_all add: demo_route_validated)

end
