(* ===== verification/Rid_Store.thy ===== *)
theory Rid_Store
  imports Meta_Types
begin

text \<open>
  Where \<open>syncd\<close> keeps the map between virtual and real object ids: the two hashes \<open>VIDTORID\<close> and
  \<open>RIDTOVID\<close> of the redis database with ids in their printed form (\<open>syncd/RedisClient.cpp\<close>), or nowhere
  (\<open>syncd/DisabledRedisClient.cpp\<close>); and the interface \<open>BaseRedisClient\<close> of both as a contract.
\<close>

section \<open>Reading printed object ids\<close>

text \<open>\<open>strtoull\<close> with base 16 on the digits: the value, or nothing when a character is no digit.\<close>

definition hex_digit :: "char \<Rightarrow> nat option" where
  "hex_digit c =
     (let n = of_char c in
      if 48 \<le> n \<and> n \<le> 57 then Some (n - 48)
      else if 97 \<le> n \<and> n \<le> 102 then Some (n - 87)
      else if 65 \<le> n \<and> n \<le> 70 then Some (n - 55)
      else None)"

fun read_hex :: "nat \<Rightarrow> string \<Rightarrow> nat option" where
  "read_hex a [] = Some a"
| "read_hex a (c # cs) = (case hex_digit c of None \<Rightarrow> None | Some d \<Rightarrow> read_hex (16 * a + d) cs)"

definition sai_deserialize_object_id :: "string \<Rightarrow> fault + oid" where
  "sai_deserialize_object_id s =
     (if take 6 s \<noteq> ''oid:0x'' then Inl (Throw ''invalid oid'')
      else if drop 6 s = [] then Inl (Throw ''invalid oid'')
      else case read_hex 0 (drop 6 s) of
        None \<Rightarrow> Inl (Throw ''invalid oid'')
      | Some n \<Rightarrow> if 2 ^ 64 \<le> n then Inl (Throw ''invalid oid'') else Inr (of_nat n))"

lemma less_16_cases: "d < 16 \<Longrightarrow> (d :: nat) \<in> {0, 1, 2, 3, 4, 5, 6, 7, 8, 9, 10, 11, 12, 13, 14, 15}"
  by (simp, presburger)

lemma hex_digit_char: "d < 16 \<Longrightarrow> hex_digit (digit_char d) = Some d"
  by (drule less_16_cases) (auto simp: hex_digit_def digit_char_def)

lemma read_hex_append: "read_hex a (xs @ ys) = (case read_hex a xs of None \<Rightarrow> None | Some b \<Rightarrow> read_hex b ys)"
  by (induction xs arbitrary: a) (auto split: option.split)

lemma read_hex_print: "read_hex 0 (print_nat 16 n) = Some n"
proof (induction n rule: less_induct)
  case (less n)
  show ?case
  proof (cases "n < 16")
    case True
    then show ?thesis by (subst print_nat.simps) (simp add: hex_digit_char)
  next
    case False
    then have "read_hex 0 (print_nat 16 (n div 16)) = Some (n div 16)" by (intro less.IH) simp
    with False show ?thesis by (subst print_nat.simps) (simp add: read_hex_append hex_digit_char)
  qed
qed

lemma print_nat_nonempty: "print_nat 16 n \<noteq> []"
  by (subst print_nat.simps) simp

lemma object_id_roundtrip: "sai_deserialize_object_id (sai_serialize_object_id x) = Inr x"
proof -
  have "unat x < 2 ^ 64" using unsigned_less [of x] by simp
  then show ?thesis
    by (simp add: sai_deserialize_object_id_def sai_serialize_object_id_def read_hex_print print_nat_nonempty)
qed

lemma serialize_inj [simp]: "sai_serialize_object_id x = sai_serialize_object_id y \<longleftrightarrow> x = y"
  by (metis object_id_roundtrip sum.inject(2))

section \<open>The clients\<close>

record redis_hashes =
  VIDTORID :: "(string, string) alist"
  RIDTOVID :: "(string, string) alist"

text \<open>The two implementations of \<open>BaseRedisClient\<close>.\<close>

datatype client = Redis redis_hashes | Disabled

definition hget_oid :: "(string, string) alist \<Rightarrow> oid \<Rightarrow> fault + oid" where
  "hget_oid hash x =
     (case map_of hash (sai_serialize_object_id x) of
        None \<Rightarrow> Inr SAI_NULL_OBJECT_ID
      | Some s \<Rightarrow> sai_deserialize_object_id s)"

fun isRedisEnabled :: "client \<Rightarrow> bool" where
  "isRedisEnabled (Redis db) = True"
| "isRedisEnabled Disabled = False"

fun getVidForRid :: "client \<Rightarrow> oid \<Rightarrow> fault + oid" where
  "getVidForRid (Redis db) rid = hget_oid (RIDTOVID db) rid"
| "getVidForRid Disabled rid = Inr SAI_NULL_OBJECT_ID"

fun getRidForVid :: "client \<Rightarrow> oid \<Rightarrow> fault + oid" where
  "getRidForVid (Redis db) vid = hget_oid (VIDTORID db) vid"
| "getRidForVid Disabled vid = Inr SAI_NULL_OBJECT_ID"

text \<open>
  One reply for all the ids asked for; a null reply is a null id. Redis answers an error to \<open>HMGET\<close> without
  fields, so the client throws for no ids.
\<close>

fun get_vids :: "client \<Rightarrow> oid list \<Rightarrow> fault + oid list" where
  "get_vids c [] = Inr []"
| "get_vids c (rid # rids) = bindE (getVidForRid c rid) (\<lambda>vid. bindE (get_vids c rids) (\<lambda>vids. Inr (vid # vids)))"

definition getVidsForRids :: "client \<Rightarrow> oid list \<Rightarrow> fault + oid list" where
  "getVidsForRids c rids =
     (if isRedisEnabled c \<and> rids = [] then Inl (Throw ''expected array reply'') else get_vids c rids)"

fun insertVidAndRid :: "oid \<Rightarrow> oid \<Rightarrow> client \<Rightarrow> client" where
  "insertVidAndRid vid rid (Redis db) = Redis
     (db\<lparr>VIDTORID := AList.update (sai_serialize_object_id vid) (sai_serialize_object_id rid) (VIDTORID db),
         RIDTOVID := AList.update (sai_serialize_object_id rid) (sai_serialize_object_id vid) (RIDTOVID db)\<rparr>)"
| "insertVidAndRid vid rid Disabled = Disabled"

fun insertVidsAndRids :: "(oid \<times> oid) list \<Rightarrow> client \<Rightarrow> client" where
  "insertVidsAndRids [] c = c"
| "insertVidsAndRids ((vid, rid) # ps) c = insertVidsAndRids ps (insertVidAndRid vid rid c)"

fun removeVidAndRid :: "oid \<Rightarrow> oid \<Rightarrow> client \<Rightarrow> client" where
  "removeVidAndRid vid rid (Redis db) = Redis
     (db\<lparr>VIDTORID := AList.delete (sai_serialize_object_id vid) (VIDTORID db),
         RIDTOVID := AList.delete (sai_serialize_object_id rid) (RIDTOVID db)\<rparr>)"
| "removeVidAndRid vid rid Disabled = Disabled"

section \<open>The contract\<close>

text \<open>
  What the translator relies on: lookups do not fail, a pair can be read back in both directions after
  it was inserted, and a removal forgets both ids. A client without a database knows nothing.
\<close>

locale rid_vid_store =
  fixes ok :: "'s \<Rightarrow> bool"
    and enabled :: "'s \<Rightarrow> bool"
    and get_vid :: "'s \<Rightarrow> oid \<Rightarrow> fault + oid"
    and get_rid :: "'s \<Rightarrow> oid \<Rightarrow> fault + oid"
    and insert_pair :: "oid \<Rightarrow> oid \<Rightarrow> 's \<Rightarrow> 's"
    and remove_pair :: "oid \<Rightarrow> oid \<Rightarrow> 's \<Rightarrow> 's"
  assumes total: "ok s \<Longrightarrow> (\<exists>v. get_vid s x = Inr v) \<and> (\<exists>r. get_rid s y = Inr r)"
    and insert_get: "ok s \<Longrightarrow> enabled s \<Longrightarrow>
      get_vid (insert_pair v r s) x = (if x = r then Inr v else get_vid s x) \<and>
      get_rid (insert_pair v r s) y = (if y = v then Inr r else get_rid s y)"
    and remove_get: "ok s \<Longrightarrow> enabled s \<Longrightarrow>
      get_vid (remove_pair v r s) x = (if x = r then Inr 0 else get_vid s x) \<and>
      get_rid (remove_pair v r s) y = (if y = v then Inr 0 else get_rid s y)"
    and disabled: "\<not> enabled s \<Longrightarrow> get_vid s x = Inr 0 \<and> get_rid s y = Inr 0"
    and keeps_ok: "ok s \<Longrightarrow> ok (insert_pair v r s) \<and> ok (remove_pair v r s)"
    and keeps_enabled: "enabled (insert_pair v r s) = enabled s \<and> enabled (remove_pair v r s) = enabled s"
begin

text \<open>What is known of an id, with null for nothing.\<close>

definition vid_of :: "'s \<Rightarrow> oid \<Rightarrow> oid" where
  "vid_of s x = (case get_vid s x of Inl e \<Rightarrow> 0 | Inr v \<Rightarrow> v)"

definition rid_of :: "'s \<Rightarrow> oid \<Rightarrow> oid" where
  "rid_of s x = (case get_rid s x of Inl e \<Rightarrow> 0 | Inr r \<Rightarrow> r)"

lemma get_eq:
  assumes "ok s"
  shows "get_vid s x = Inr (vid_of s x)" "get_rid s y = Inr (rid_of s y)"
proof -
  obtain v r where "get_vid s x = Inr v" "get_rid s y = Inr r" using total [OF assms, of x y] by blast
  then show "get_vid s x = Inr (vid_of s x)" "get_rid s y = Inr (rid_of s y)"
    by (simp_all add: vid_of_def rid_of_def)
qed

lemma insert_of:
  "ok s \<Longrightarrow> vid_of (insert_pair v r s) x = (if x = r \<and> enabled s then v else vid_of s x)"
  "ok s \<Longrightarrow> rid_of (insert_pair v r s) y = (if y = v \<and> enabled s then r else rid_of s y)"
  using insert_get [of s v r x y] disabled keeps_enabled [of v r s]
  by (cases "enabled s"; simp add: vid_of_def rid_of_def)+

lemma remove_of:
  "ok s \<Longrightarrow> vid_of (remove_pair v r s) x = (if x = r then 0 else vid_of s x)"
  "ok s \<Longrightarrow> rid_of (remove_pair v r s) y = (if y = v then 0 else rid_of s y)"
  using remove_get [of s v r x y] disabled keeps_enabled [of v r s]
  by (cases "enabled s"; simp add: vid_of_def rid_of_def)+

lemma disabled_of: "\<not> enabled s \<Longrightarrow> vid_of s x = 0" "\<not> enabled s \<Longrightarrow> rid_of s y = 0"
  using disabled by (simp_all add: vid_of_def rid_of_def)

end

text \<open>Every value of the hashes is a printed id.\<close>

definition hash_ok :: "(string, string) alist \<Rightarrow> bool" where
  "hash_ok hash \<longleftrightarrow> (\<forall>k s. map_of hash k = Some s \<longrightarrow> (\<exists>x. s = sai_serialize_object_id x))"

fun client_ok :: "client \<Rightarrow> bool" where
  "client_ok (Redis db) = (hash_ok (VIDTORID db) \<and> hash_ok (RIDTOVID db))"
| "client_ok Disabled = True"

lemma hget_total: "hash_ok hash \<Longrightarrow> \<exists>y. hget_oid hash x = Inr y"
  by (fastforce simp: hash_ok_def hget_oid_def object_id_roundtrip split: option.split)

lemma hash_ok_update: "hash_ok hash \<Longrightarrow> hash_ok (AList.update k (sai_serialize_object_id x) hash)"
  by (auto simp: hash_ok_def)

lemma hash_ok_delete: "hash_ok hash \<Longrightarrow> hash_ok (AList.delete k hash)"
  by (auto simp: hash_ok_def split: if_splits)

interpretation client: rid_vid_store client_ok isRedisEnabled getVidForRid getRidForVid insertVidAndRid
  removeVidAndRid
proof unfold_locales
  show "client_ok s \<Longrightarrow> (\<exists>v. getVidForRid s x = Inr v) \<and> (\<exists>r. getRidForVid s y = Inr r)" for s x y
    by (cases s) (simp_all add: hget_total)
  show "client_ok s \<Longrightarrow> isRedisEnabled s \<Longrightarrow>
      getVidForRid (insertVidAndRid v r s) x = (if x = r then Inr v else getVidForRid s x) \<and>
      getRidForVid (insertVidAndRid v r s) y = (if y = v then Inr r else getRidForVid s y)" for s v r x y
    by (cases s) (auto simp: hget_oid_def object_id_roundtrip)
  show "client_ok s \<Longrightarrow> isRedisEnabled s \<Longrightarrow>
      getVidForRid (removeVidAndRid v r s) x = (if x = r then Inr 0 else getVidForRid s x) \<and>
      getRidForVid (removeVidAndRid v r s) y = (if y = v then Inr 0 else getRidForVid s y)" for s v r x y
    by (cases s) (auto simp: hget_oid_def)
  show "\<not> isRedisEnabled s \<Longrightarrow> getVidForRid s x = Inr 0 \<and> getRidForVid s y = Inr 0" for s x y
    by (cases s) simp_all
  show "client_ok s \<Longrightarrow> client_ok (insertVidAndRid v r s) \<and> client_ok (removeVidAndRid v r s)" for s v r
    by (cases s) (simp_all add: hash_ok_update hash_ok_delete)
  show "isRedisEnabled (insertVidAndRid v r s) = isRedisEnabled s \<and>
      isRedisEnabled (removeVidAndRid v r s) = isRedisEnabled s" for s v r
    by (cases s) simp_all
qed

text \<open>
printed object ids read back: \<open>sai_deserialize_object_id\<close> of \<open>sai_serialize_object_id\<close> is the id itself.
\<close>
theorem printed_oid_roundtrip:
  "sai_deserialize_object_id (sai_serialize_object_id x) = Inr x"
  by (rule object_id_roundtrip)

end
