(* ===== verification/Vid_Translator.thy ===== *)
theory Vid_Translator
  imports Rid_Store Virtual_Oid
begin

text \<open>
  \<open>syncd/VirtualOidTranslator.cpp\<close>: the translation between the virtual ids \<open>sairedis\<close> works with and the
  real ids of the vendor, for single ids, lists, attributes and keys. An id the vendor reports for the first
  time gets a virtual id from the manager, and the pair goes into the local maps and to the client.
\<close>

section \<open>The state\<close>

text \<open>The mutex all operations take makes each of them one step.\<close>

record 'db translator =
  m_rid2vid :: "(oid, oid) alist"
  m_vid2rid :: "(oid, oid) alist"
  m_removedRid2vid :: "(oid, oid) alist"
  m_client :: client
  m_virtualObjectIdManager :: "'db redis_gen vid_manager"

abbreviation on_manager :: "('db redis_gen vid_manager, 'a) op \<Rightarrow> ('db translator, 'a) op" where
  "on_manager \<equiv> zoom m_virtualObjectIdManager (\<lambda>x. m_virtualObjectIdManager_update (\<lambda>_. x))"

text \<open>
  In what follows the query \<open>objectTypeQuery h\<close> of the environment is the one of the vendor's library
  (\<open>m_vendorSai\<close>).
\<close>

section \<open>From real to virtual\<close>

definition tryTranslateRidToVid :: "oid \<Rightarrow> ('db translator, bool \<times> oid) op" where
  "tryTranslateRidToVid rid = (\<lambda>s.
     if rid = SAI_NULL_OBJECT_ID then (Inr (True, SAI_NULL_OBJECT_ID), s)
     else case map_of (m_rid2vid s) rid of
       Some vid \<Rightarrow> (Inr (True, vid), s)
     | None \<Rightarrow> (bindE (getVidForRid (m_client s) rid) (\<lambda>vid. Inr (vid \<noteq> SAI_NULL_OBJECT_ID, vid)), s))"

text \<open>A new real id: its type from the vendor, its virtual id from the manager.\<close>

definition translate_new_rid ::
  "sai_meta \<Rightarrow> 'db incrby \<Rightarrow> oid \<Rightarrow> oid \<Rightarrow> ('db translator, oid) op" where
  "translate_new_rid h incrby rid switchVid =
     (if objectTypeQuery h rid = SAI_OBJECT_TYPE_NULL then raise (Throw ''objectTypeQuery returned NULL type'')
      else if objectTypeQuery h rid = ot_switch h
      then raise (Throw ''switch object, but not in local or redis db, bug!'')
      else
        seq (on_manager (vid_allocateNewObjectId (sai_headers.truncate h) (redis_increment incrby)
               (objectTypeQuery h rid) switchVid)) (\<lambda>vid.
        seq (modify (\<lambda>s. s\<lparr>m_client := insertVidAndRid vid rid (m_client s),
                           m_rid2vid := AList.update rid vid (m_rid2vid s),
                           m_vid2rid := AList.update vid rid (m_vid2rid s)\<rparr>)) (\<lambda>_.
        ret vid)))"

definition translateRidToVid ::
  "sai_meta \<Rightarrow> 'db incrby \<Rightarrow> oid \<Rightarrow> oid \<Rightarrow> bool \<Rightarrow> ('db translator, oid) op" where
  "translateRidToVid h incrby rid switchVid translateRemoved = (\<lambda>s.
     if rid = SAI_NULL_OBJECT_ID then (Inr SAI_NULL_OBJECT_ID, s)
     else case map_of (m_rid2vid s) rid of
       Some vid \<Rightarrow> (Inr vid, s)
     | None \<Rightarrow>
         case getVidForRid (m_client s) rid of
           Inl e \<Rightarrow> (Inl e, s)
         | Inr vid \<Rightarrow>
             if vid \<noteq> SAI_NULL_OBJECT_ID then (Inr vid, s)
             else case (if translateRemoved then map_of (m_removedRid2vid s) rid else None) of
               Some removed \<Rightarrow> (Inr removed, s)
             | None \<Rightarrow> translate_new_rid h incrby rid switchVid s)"

text \<open>
  A batch. First what the client knows, then what the local map knows; \<open>fill_new\<close> is the loop that puts
  the new ids in the places still null, in order.
\<close>

definition known_vid :: "(oid, oid) alist \<Rightarrow> oid \<Rightarrow> oid \<Rightarrow> oid" where
  "known_vid rid2vid rid vid =
     (if vid = SAI_NULL_OBJECT_ID
      then (case map_of rid2vid rid of None \<Rightarrow> SAI_NULL_OBJECT_ID | Some v \<Rightarrow> v) else vid)"

definition new_rids :: "(oid, oid) alist \<Rightarrow> oid list \<Rightarrow> oid list \<Rightarrow> oid list" where
  "new_rids rid2vid rids vids =
     map fst (filter (\<lambda>(rid, vid). vid = SAI_NULL_OBJECT_ID \<and> map_of rid2vid rid = None) (zip rids vids))"

fun fill_new :: "oid list \<Rightarrow> oid list \<Rightarrow> fault + oid list" where
  "fill_new [] newVids = Inr []"
| "fill_new (vid # vids) newVids =
     (if vid = SAI_NULL_OBJECT_ID then
        (case newVids of
           [] \<Rightarrow> Inl (Null_Deref ''newVids'')
         | n # ns \<Rightarrow> bindE (fill_new vids ns) (\<lambda>vs. Inr (n # vs)))
      else bindE (fill_new vids newVids) (\<lambda>vs. Inr (vid # vs)))"

fun cache_pairs :: "(oid \<times> oid) list \<Rightarrow> 'db translator \<Rightarrow> 'db translator" where
  "cache_pairs [] s = s"
| "cache_pairs ((rid, vid) # ps) s = cache_pairs ps
     (s\<lparr>m_rid2vid := AList.update rid vid (m_rid2vid s), m_vid2rid := AList.update vid rid (m_vid2rid s)\<rparr>)"

definition translateRidsToVids ::
  "sai_meta \<Rightarrow> 'db incrby \<Rightarrow> oid \<Rightarrow> oid list \<Rightarrow> ('db translator, oid list) op" where
  "translateRidsToVids h incrby switchVid rids =
     seq (gets (\<lambda>s. getVidsForRids (m_client s) rids)) (\<lambda>r.
     seq (lift r) (\<lambda>dbVids.
     seq (gets m_rid2vid) (\<lambda>rid2vid.
       let vids = map2 (known_vid rid2vid) rids dbVids;
           newRids = new_rids rid2vid rids dbVids
       in seq (on_manager (vid_allocateNewObjectIds (sai_headers.truncate h) (redis_incrementBy incrby)
                 switchVid (map (objectTypeQuery h) newRids))) (\<lambda>newVids.
          seq (modify (\<lambda>s. s\<lparr>m_client := insertVidsAndRids (zip newVids newRids) (m_client s)\<rparr>)) (\<lambda>_.
          seq (lift (fill_new vids newVids)) (\<lambda>vids'.
          seq (modify (cache_pairs (zip rids vids'))) (\<lambda>_.
          ret vids')))))))"

definition checkRidExists :: "'db translator \<Rightarrow> oid \<Rightarrow> bool \<Rightarrow> fault + bool" where
  "checkRidExists s rid checkRemoved =
     (if rid = SAI_NULL_OBJECT_ID then Inr True
      else if has_key (m_rid2vid s) rid then Inr True
      else bindE (getVidForRid (m_client s) rid) (\<lambda>vid.
        Inr (vid \<noteq> SAI_NULL_OBJECT_ID \<or> checkRemoved \<and> has_key (m_removedRid2vid s) rid)))"

section \<open>From virtual to real\<close>

text \<open>An id found with the client goes into the local map.\<close>

definition translateVidToRid :: "oid \<Rightarrow> ('db translator, oid) op" where
  "translateVidToRid vid = (\<lambda>s.
     if vid = SAI_NULL_OBJECT_ID then (Inr SAI_NULL_OBJECT_ID, s)
     else case map_of (m_vid2rid s) vid of
       Some rid \<Rightarrow> (Inr rid, s)
     | None \<Rightarrow>
         case getRidForVid (m_client s) vid of
           Inl e \<Rightarrow> (Inl e, s)
         | Inr rid \<Rightarrow>
             if rid = SAI_NULL_OBJECT_ID then
               (if \<not> isRedisEnabled (m_client s) then (Inr SAI_NULL_OBJECT_ID, s)
                else (Inl (Throw ''unable to get RID for VID''), s))
             else (Inr rid, s\<lparr>m_vid2rid := AList.update vid rid (m_vid2rid s)\<rparr>))"

definition tryTranslateVidToRid :: "oid \<Rightarrow> ('db translator, bool \<times> oid) op" where
  "tryTranslateVidToRid vid = (\<lambda>s.
     if vid = SAI_NULL_OBJECT_ID then (Inr (True, SAI_NULL_OBJECT_ID), s)
     else case map_of (m_vid2rid s) vid of
       Some rid \<Rightarrow> (Inr (True, rid), s)
     | None \<Rightarrow>
         case getRidForVid (m_client s) vid of
           Inl e \<Rightarrow> (Inl e, s)
         | Inr rid \<Rightarrow>
             if rid = SAI_NULL_OBJECT_ID then (Inr (False, SAI_NULL_OBJECT_ID), s)
             else (Inr (True, rid), s\<lparr>m_vid2rid := AList.update vid rid (m_vid2rid s)\<rparr>))"

section \<open>Lists, attributes and keys\<close>

fun mapM :: "('a \<Rightarrow> ('s, 'b) op) \<Rightarrow> 'a list \<Rightarrow> ('s, 'b list) op" where
  "mapM f [] = ret []"
| "mapM f (x # xs) = seq (f x) (\<lambda>y. seq (mapM f xs) (\<lambda>ys. ret (y # ys)))"

text \<open>
  The functions that overwrite a list, the values of attributes or the ids of a key in place return the
  new one here. A throw in the middle leaves the caller's list half translated, which is not represented.
\<close>

definition translate_list :: "(oid \<Rightarrow> ('s, oid) op) \<Rightarrow> oid sai_list \<Rightarrow> ('s, oid sai_list) op" where
  "translate_list f l =
     (case l of
        Null_List n \<Rightarrow> if n = 0 then ret l else raise (Null_Deref ''element.list'')
      | Sai_List xs \<Rightarrow> seq (mapM f xs) (\<lambda>ys. ret (Sai_List ys)))"

definition translate_value :: "(oid \<Rightarrow> ('s, oid) op) \<Rightarrow> attr_md \<Rightarrow> attr_value \<Rightarrow> ('s, attr_value) op" where
  "translate_value f md v =
     (let other = (if md_isoidattribute md then raise (Throw ''attribute is object id, but not processed, FIXME'')
                   else ret v);
          field = v_aclfield v; action = v_aclaction v
      in case md_attrvaluetype md of
        VT_OBJECT_ID \<Rightarrow> seq (f (v_oid v)) (\<lambda>x. ret (v\<lparr>v_oid := x\<rparr>))
      | VT_OBJECT_LIST \<Rightarrow> seq (translate_list f (v_objlist v)) (\<lambda>l. ret (v\<lparr>v_objlist := l\<rparr>))
      | VT_ACL_FIELD_DATA d \<Rightarrow>
          (if d = AD_OBJECT_ID then
             (if acl_enable field then seq (f (acl_oid field)) (\<lambda>x. ret (v\<lparr>v_aclfield := field\<lparr>acl_oid := x\<rparr>\<rparr>))
              else ret v)
           else if d = AD_OBJECT_LIST then
             (if acl_enable field
              then seq (translate_list f (acl_objlist field)) (\<lambda>l. ret (v\<lparr>v_aclfield := field\<lparr>acl_objlist := l\<rparr>\<rparr>))
              else ret v)
           else other)
      | VT_ACL_ACTION_DATA d \<Rightarrow>
          (if d = AD_OBJECT_ID then
             (if acl_enable action then seq (f (acl_oid action)) (\<lambda>x. ret (v\<lparr>v_aclaction := action\<lparr>acl_oid := x\<rparr>\<rparr>))
              else ret v)
           else if d = AD_OBJECT_LIST then
             (if acl_enable action
              then seq (translate_list f (acl_objlist action)) (\<lambda>l. ret (v\<lparr>v_aclaction := action\<lparr>acl_objlist := l\<rparr>\<rparr>))
              else ret v)
           else other)
      | _ \<Rightarrow> other)"

definition translate_attr ::
  "sai_meta \<Rightarrow> (oid \<Rightarrow> ('s, oid) op) \<Rightarrow> object_type \<Rightarrow> sai_attribute \<Rightarrow> ('s, sai_attribute) op" where
  "translate_attr h f objectType attr =
     (case get_attr_metadata h objectType (a_id attr) of
        None \<Rightarrow> raise (Throw ''unable to get metadata for object type'')
      | Some md \<Rightarrow> seq (translate_value f md (a_value attr)) (\<lambda>v. ret (attr\<lparr>a_value := v\<rparr>)))"

definition translateRidToVid_list ::
  "sai_meta \<Rightarrow> 'db incrby \<Rightarrow> oid sai_list \<Rightarrow> oid \<Rightarrow> bool \<Rightarrow> ('db translator, oid sai_list) op" where
  "translateRidToVid_list h incrby element switchVid translateRemoved =
     translate_list (\<lambda>rid. translateRidToVid h incrby rid switchVid translateRemoved) element"

definition translateRidToVid_attrs ::
  "sai_meta \<Rightarrow> 'db incrby \<Rightarrow> object_type \<Rightarrow> oid \<Rightarrow> sai_attribute list \<Rightarrow> bool \<Rightarrow>
     ('db translator, sai_attribute list) op" where
  "translateRidToVid_attrs h incrby objectType switchVid attrList translateRemoved =
     mapM (translate_attr h (\<lambda>rid. translateRidToVid h incrby rid switchVid translateRemoved) objectType) attrList"

definition translateVidToRid_list :: "oid sai_list \<Rightarrow> ('db translator, oid sai_list) op" where
  "translateVidToRid_list element = translate_list translateVidToRid element"

definition translateVidToRid_attrs ::
  "sai_meta \<Rightarrow> object_type \<Rightarrow> sai_attribute list \<Rightarrow> ('db translator, sai_attribute list) op" where
  "translateVidToRid_attrs h objectType attrList = mapM (translate_attr h translateVidToRid objectType) attrList"

text \<open>The object id members of an entry key, one after the other.\<close>

fun translate_members :: "struct_member list \<Rightarrow> meta_key \<Rightarrow> ('db translator, meta_key) op" where
  "translate_members [] key = ret key"
| "translate_members (m # ms) key =
     (if sm_membervaluetype m = VT_OBJECT_ID
      then seq (translateVidToRid (sm_getoid m key)) (\<lambda>rid. translate_members ms (sm_setoid m rid key))
      else translate_members ms key)"

definition translateVidToRid_key :: "sai_meta \<Rightarrow> meta_key \<Rightarrow> ('db translator, meta_key) op" where
  "translateVidToRid_key h key =
     (case get_object_type_info h (objecttype key) of
        None \<Rightarrow> raise (Null_Deref ''info'')
      | Some info \<Rightarrow>
          if \<not> isnonobjectid info
          then seq (translateVidToRid (object_id key)) (\<lambda>rid. ret (key\<lparr>object_id := rid\<rparr>))
          else translate_members (structmembers info) key)"

fun try_translate_members :: "struct_member list \<Rightarrow> meta_key \<Rightarrow> ('db translator, bool \<times> meta_key) op" where
  "try_translate_members [] key = ret (True, key)"
| "try_translate_members (m # ms) key =
     (if sm_membervaluetype m = VT_OBJECT_ID
      then seq (tryTranslateVidToRid (sm_getoid m key)) (\<lambda>(done, rid).
             if done then try_translate_members ms (sm_setoid m rid key) else ret (False, key))
      else try_translate_members ms key)"

definition tryTranslateVidToRid_key :: "sai_meta \<Rightarrow> meta_key \<Rightarrow> ('db translator, bool \<times> meta_key) op" where
  "tryTranslateVidToRid_key h key =
     (case get_object_type_info h (objecttype key) of
        None \<Rightarrow> raise (Null_Deref ''info'')
      | Some info \<Rightarrow>
          if \<not> isnonobjectid info
          then seq (tryTranslateVidToRid (object_id key)) (\<lambda>(done, rid). ret (done, key\<lparr>object_id := rid\<rparr>))
          else try_translate_members (structmembers info) key)"

section \<open>Pairs\<close>

definition insertRidAndVid :: "oid \<Rightarrow> oid \<Rightarrow> ('db translator, unit) op" where
  "insertRidAndVid rid vid = modify (\<lambda>s.
     s\<lparr>m_rid2vid := AList.update rid vid (m_rid2vid s), m_vid2rid := AList.update vid rid (m_vid2rid s),
       m_client := insertVidAndRid vid rid (m_client s)\<rparr>)"

definition insertRidsAndVids :: "(oid \<times> oid) list \<Rightarrow> ('db translator, unit) op" where
  "insertRidsAndVids pairs = modify (\<lambda>s.
     (cache_pairs pairs s)\<lparr>m_client := insertVidsAndRids (map (\<lambda>(rid, vid). (vid, rid)) pairs) (m_client s)\<rparr>)"

definition eraseRidAndVid :: "oid \<Rightarrow> oid \<Rightarrow> ('db translator, unit) op" where
  "eraseRidAndVid rid vid = modify (\<lambda>s.
     s\<lparr>m_client := removeVidAndRid vid rid (m_client s),
       m_rid2vid := AList.delete rid (m_rid2vid s), m_vid2rid := AList.delete vid (m_vid2rid s),
       m_removedRid2vid := AList.update rid vid (m_removedRid2vid s)\<rparr>)"

definition clearLocalCache :: "('db translator, unit) op" where
  "clearLocalCache = modify (\<lambda>s. s\<lparr>m_rid2vid := [], m_vid2rid := [], m_removedRid2vid := []\<rparr>)"

end
