(* ===== verification/Vid_Translator_Inv.thy ===== *)
theory Vid_Translator_Inv
  imports Vid_Translator
begin

text \<open>
  The invariant of the translator: the local maps and the client together are a bijection between the
  real and the virtual ids known, the virtual ids have the types of the objects, and none of them is an
  id the manager is still to hand out. Every operation keeps it.
\<close>

section \<open>What is known\<close>

definition vid_known :: "'db translator \<Rightarrow> oid \<Rightarrow> oid" where
  "vid_known s rid = (case map_of (m_rid2vid s) rid of Some v \<Rightarrow> v | None \<Rightarrow> client.vid_of (m_client s) rid)"

definition rid_known :: "'db translator \<Rightarrow> oid \<Rightarrow> oid" where
  "rid_known s vid = (case map_of (m_vid2rid s) vid of Some r \<Rightarrow> r | None \<Rightarrow> client.rid_of (m_client s) vid)"

text \<open>The number of indexes handed out; the redis counter both processes share.\<close>

definition issued :: "('db \<Rightarrow> string \<Rightarrow> u64) \<Rightarrow> 'db translator \<Rightarrow> nat" where
  "issued stored s =
     (let g = vm_oidIndexGenerator (m_virtualObjectIdManager s) in unat (stored (m_dbConnector g) (m_vidCounterName g)))"

definition local_ok :: "'db translator \<Rightarrow> bool" where
  "local_ok s \<longleftrightarrow>
     (\<forall>r v. map_of (m_rid2vid s) r = Some v \<longrightarrow> v \<noteq> 0 \<and> (isRedisEnabled (m_client s) \<longrightarrow> client.vid_of (m_client s) r = v)) \<and>
     (\<forall>v r. map_of (m_vid2rid s) v = Some r \<longrightarrow> r \<noteq> 0 \<and> (isRedisEnabled (m_client s) \<longrightarrow> client.rid_of (m_client s) v = r))"

definition undone_by :: "(oid \<Rightarrow> oid) \<Rightarrow> (oid \<Rightarrow> oid) \<Rightarrow> bool" where
  "undone_by f g \<longleftrightarrow> (\<forall>x. f x \<noteq> 0 \<longrightarrow> x \<noteq> 0 \<and> g (f x) = x)"

definition bijective :: "(oid \<Rightarrow> oid) \<Rightarrow> (oid \<Rightarrow> oid) \<Rightarrow> bool" where
  "bijective f g \<longleftrightarrow> undone_by f g \<and> undone_by g f"

definition tr_inv :: "('db \<Rightarrow> string \<Rightarrow> u64) \<Rightarrow> sai_meta \<Rightarrow> 'db translator \<Rightarrow> bool" where
  "tr_inv stored h s \<longleftrightarrow>
     client_ok (m_client s) \<and> vm_globalContext (m_virtualObjectIdManager s) < 256 \<and> local_ok s \<and>
     bijective (vid_known s) (rid_known s) \<and>
     (\<forall>v. rid_known s v \<noteq> 0 \<longrightarrow> unat (REDIS_GET_OBJECT_INDEX v) \<le> issued stored s) \<and>
     (\<forall>r. vid_known s r \<noteq> 0 \<longrightarrow>
        redis_objectTypeQuery (sai_headers.truncate h) (vid_known s r) = objectTypeQuery h r)"

lemma tr_invD:
  assumes "tr_inv stored h s"
  shows "client_ok (m_client s)" "vm_globalContext (m_virtualObjectIdManager s) < 256" "local_ok s"
    "bijective (vid_known s) (rid_known s)"
    "rid_known s v \<noteq> 0 \<Longrightarrow> unat (REDIS_GET_OBJECT_INDEX v) \<le> issued stored s"
    "vid_known s r \<noteq> 0 \<Longrightarrow> redis_objectTypeQuery (sai_headers.truncate h) (vid_known s r) = objectTypeQuery h r"
  using assms unfolding tr_inv_def by blast+

lemma undone_byD:
  assumes "undone_by f g"
  shows "f x \<noteq> 0 \<Longrightarrow> g (f x) = x" "f x \<noteq> 0 \<Longrightarrow> x \<noteq> 0"
  using assms unfolding undone_by_def by blast+

lemma undone_by_add:
  assumes "undone_by f g" "g y = 0" "x \<noteq> 0"
  shows "undone_by (f(x := y)) (g(y := x))"
  unfolding undone_by_def
proof (intro allI impI)
  fix a assume a: "(f(x := y)) a \<noteq> 0"
  show "a \<noteq> 0 \<and> (g(y := x)) ((f(x := y)) a) = a"
  proof (cases "a = x")
    case False
    with a undone_byD [OF assms(1), of a] assms(2) show ?thesis by auto
  qed (use assms(3) in simp)
qed

lemma undone_by_remove:
  assumes "undone_by f g" "f x = y" "y \<noteq> 0"
  shows "undone_by (f(x := 0)) (g(y := 0))"
  unfolding undone_by_def
proof (intro allI impI)
  fix a assume a: "(f(x := 0)) a \<noteq> 0"
  then have "a \<noteq> x" "f a \<noteq> 0" by (auto split: if_splits)
  moreover have "g y = x" using undone_byD(1) [OF assms(1), of x] assms(2,3) by simp
  ultimately show "a \<noteq> 0 \<and> (g(y := 0)) ((f(x := 0)) a) = a"
    using undone_byD [OF assms(1), of a] by auto
qed

lemma bijectiveD:
  assumes "bijective f g"
  shows "f x \<noteq> 0 \<Longrightarrow> g (f x) = x" "g y \<noteq> 0 \<Longrightarrow> f (g y) = y" "f x \<noteq> 0 \<Longrightarrow> x \<noteq> 0" "g y \<noteq> 0 \<Longrightarrow> y \<noteq> 0"
  using assms undone_byD unfolding bijective_def by blast+

lemma bijective_add:
  "bijective f g \<Longrightarrow> f x = 0 \<Longrightarrow> g y = 0 \<Longrightarrow> x \<noteq> 0 \<Longrightarrow> y \<noteq> 0 \<Longrightarrow> bijective (f(x := y)) (g(y := x))"
  unfolding bijective_def by (blast intro: undone_by_add)

lemma bijective_remove:
  assumes "bijective f g" "f x = y" "y \<noteq> 0"
  shows "bijective (f(x := 0)) (g(y := 0))"
proof -
  have "g y = x" "x \<noteq> 0" using bijectiveD [OF assms(1), of x] assms(2,3) by simp_all
  with assms show ?thesis unfolding bijective_def by (blast intro: undone_by_remove)
qed

text \<open>States that know the same and have issued the same.\<close>

lemma tr_inv_cong:
  assumes "tr_inv stored h s" "client_ok (m_client s')" "vm_globalContext (m_virtualObjectIdManager s') < 256"
    "local_ok s'" "vid_known s' = vid_known s" "rid_known s' = rid_known s" "issued stored s \<le> issued stored s'"
  shows "tr_inv stored h s'"
proof -
  note inv = tr_invD [OF assms(1)]
  have "unat (REDIS_GET_OBJECT_INDEX v) \<le> issued stored s'" if "rid_known s v \<noteq> 0" for v
    using inv(5) [OF that] assms(7) by simp
  with assms(2,3,4) inv(4,6) show ?thesis unfolding tr_inv_def assms(5,6) by blast
qed

section \<open>Adding and removing a pair\<close>

definition add_pair :: "oid \<Rightarrow> oid \<Rightarrow> 'db translator \<Rightarrow> 'db translator" where
  "add_pair r v s = s\<lparr>m_client := insertVidAndRid v r (m_client s), m_rid2vid := AList.update r v (m_rid2vid s),
     m_vid2rid := AList.update v r (m_vid2rid s)\<rparr>"

definition drop_pair :: "oid \<Rightarrow> oid \<Rightarrow> 'db translator \<Rightarrow> 'db translator" where
  "drop_pair r v s = s\<lparr>m_client := removeVidAndRid v r (m_client s), m_rid2vid := AList.delete r (m_rid2vid s),
     m_vid2rid := AList.delete v (m_vid2rid s), m_removedRid2vid := AList.update r v (m_removedRid2vid s)\<rparr>"

lemma pair_ops:
  "insertRidAndVid r v = modify (add_pair r v)" "eraseRidAndVid r v = modify (drop_pair r v)"
  by (simp_all add: insertRidAndVid_def eraseRidAndVid_def add_pair_def drop_pair_def fun_eq_iff modify_def)

lemma add_pair_known:
  assumes "client_ok (m_client s)"
  shows "vid_known (add_pair r v s) = (vid_known s)(r := v)" "rid_known (add_pair r v s) = (rid_known s)(v := r)"
  using assms by (auto simp: add_pair_def vid_known_def rid_known_def client.insert_of fun_eq_iff split: option.split)

lemma add_pair_local:
  assumes "client_ok (m_client s)" "local_ok s" "v \<noteq> 0" "r \<noteq> 0"
  shows "local_ok (add_pair r v s)"
  using assms client.keeps_enabled by (auto simp: add_pair_def local_ok_def client.insert_of split: if_splits)

lemma add_pair_inv:
  assumes "tr_inv stored h s" "r \<noteq> 0" "v \<noteq> 0" "vid_known s r = 0" "rid_known s v = 0"
    and "unat (REDIS_GET_OBJECT_INDEX v) \<le> issued stored s"
    and "redis_objectTypeQuery (sai_headers.truncate h) v = objectTypeQuery h r"
  shows "tr_inv stored h (add_pair r v s)" (is "tr_inv stored h ?s'")
proof -
  note inv = tr_invD [OF assms(1)]
  note known = add_pair_known [OF inv(1), of r v]
  have "bijective ((vid_known s)(r := v)) ((rid_known s)(v := r))"
    by (rule bijective_add [OF inv(4) assms(4,5,2,3)])
  moreover have "issued stored ?s' = issued stored s" by (simp add: issued_def add_pair_def)
  moreover have "local_ok ?s'" by (rule add_pair_local [OF inv(1,3) assms(3,2)])
  moreover have "client_ok (m_client ?s')" using inv(1) client.keeps_ok by (simp add: add_pair_def)
  moreover have "m_virtualObjectIdManager ?s' = m_virtualObjectIdManager s" by (simp add: add_pair_def)
  ultimately show ?thesis
    using inv(2,5,6) assms(6,7) unfolding tr_inv_def known by simp
qed

lemma drop_pair_known:
  assumes "client_ok (m_client s)"
  shows "vid_known (drop_pair r v s) = (vid_known s)(r := 0)" "rid_known (drop_pair r v s) = (rid_known s)(v := 0)"
  using assms by (auto simp: drop_pair_def vid_known_def rid_known_def client.remove_of fun_eq_iff split: option.split)

lemma drop_pair_local:
  assumes "client_ok (m_client s)" "local_ok s"
  shows "local_ok (drop_pair r v s)"
proof -
  have "isRedisEnabled (removeVidAndRid v r (m_client s)) = isRedisEnabled (m_client s)"
    by (rule conjunct2 [OF client.keeps_enabled])
  with assms show ?thesis
    by (simp add: drop_pair_def local_ok_def client.remove_of delete_conv')
qed

lemma drop_pair_inv:
  assumes "tr_inv stored h s" "vid_known s r = v" "v \<noteq> 0"
  shows "tr_inv stored h (drop_pair r v s)" (is "tr_inv stored h ?s'")
proof -
  note inv = tr_invD [OF assms(1)]
  note known = drop_pair_known [OF inv(1), of r v]
  have "bijective ((vid_known s)(r := 0)) ((rid_known s)(v := 0))"
    by (rule bijective_remove [OF inv(4) assms(2,3)])
  moreover have "issued stored ?s' = issued stored s" by (simp add: issued_def drop_pair_def)
  moreover have "local_ok ?s'" by (rule drop_pair_local [OF inv(1,3)])
  moreover have "client_ok (m_client ?s')" using inv(1) client.keeps_ok by (simp add: drop_pair_def)
  moreover have "m_virtualObjectIdManager ?s' = m_virtualObjectIdManager s" by (simp add: drop_pair_def)
  ultimately show ?thesis
    using inv(2,5,6) unfolding tr_inv_def known by simp
qed

text \<open>With a client that has a database the local maps are caches.\<close>

lemma enabled_known:
  assumes "local_ok s" "isRedisEnabled (m_client s)"
  shows "vid_known s = client.vid_of (m_client s)" "rid_known s = client.rid_of (m_client s)"
  using assms by (auto simp: vid_known_def rid_known_def local_ok_def fun_eq_iff split: option.split)

text \<open>Putting pairs that are known into the local maps.\<close>

lemma cache_inv:
  assumes "tr_inv stored h s" "m_client s' = m_client s"
    "m_virtualObjectIdManager s' = m_virtualObjectIdManager s"
    "vid_known s' = vid_known s" "rid_known s' = rid_known s"
    and "\<And>r v. map_of (m_rid2vid s') r = Some v \<Longrightarrow> v \<noteq> 0" "\<And>v r. map_of (m_vid2rid s') v = Some r \<Longrightarrow> r \<noteq> 0"
  shows "tr_inv stored h s'"
proof -
  note inv = tr_invD [OF assms(1)]
  have "client.vid_of (m_client s') r = v"
    if "isRedisEnabled (m_client s')" "map_of (m_rid2vid s') r = Some v" for r v
    using enabled_known(1) [OF inv(3)] assms(2,4) that by (auto simp: vid_known_def fun_eq_iff split: option.splits)
  moreover have "client.rid_of (m_client s') v = r"
    if "isRedisEnabled (m_client s')" "map_of (m_vid2rid s') v = Some r" for r v
    using enabled_known(2) [OF inv(3)] assms(2,5) that by (auto simp: rid_known_def fun_eq_iff split: option.splits)
  ultimately have "local_ok s'" using assms(6,7) unfolding local_ok_def by blast
  with assms(1-5) inv show ?thesis
    by (intro tr_inv_cong [OF assms(1)]) (simp_all add: issued_def)
qed

section \<open>Single translations\<close>

lemma rid2vid_known: "map_of (m_rid2vid s) r = Some v \<Longrightarrow> vid_known s r = v"
  by (simp add: vid_known_def)

lemma client_known: "map_of (m_rid2vid s) r = None \<Longrightarrow> vid_known s r = client.vid_of (m_client s) r"
  by (simp add: vid_known_def)

text \<open>An allocated id: of the type asked for, and new.\<close>

lemma alloc_new:
  assumes "incrby_ok stored incrby" "headers_ok H" "vm_globalContext m < 256"
    and "unat (stored (m_dbConnector (vm_oidIndexGenerator m)) (m_vidCounterName (vm_oidIndexGenerator m))) + 1 < 2 ^ 63"
    and "vid_allocateNewObjectId H (redis_increment incrby) t sw m = (Inr v, m')"
  shows "v \<noteq> 0" "redis_objectTypeQuery H v = t"
    "unat (stored (m_dbConnector (vm_oidIndexGenerator m)) (m_vidCounterName (vm_oidIndexGenerator m))) <
       unat (REDIS_GET_OBJECT_INDEX v)"
    "unat (REDIS_GET_OBJECT_INDEX v) \<le>
       unat (stored (m_dbConnector (vm_oidIndexGenerator m')) (m_vidCounterName (vm_oidIndexGenerator m')))"
    "vm_globalContext m' = vm_globalContext m"
proof -
  have t: "alloc_type H t" using alloc_throws [of H t sw "redis_increment incrby" m] assms(5) by auto
  from assms(5) t obtain i where "\<not> mask 39 < i"
    and k: "redis_constructObjectId H t (ucast (REDIS_GET_SWITCH_INDEX sw)) i (vm_globalContext m) = Inr v"
    by (auto simp: vid_allocateNewObjectId_def alloc_type_def op_defs split: if_splits prod.splits sum.splits)
  then have i: "i < 2 ^ 39" by (simp only: mask39_less)
  show "redis_objectTypeQuery H v = t"
    by (rule redis_oid.type_of_construct [OF assms(2) switch_index_byte assms(3) i k])
  show "v \<noteq> 0"
    by (rule redis_oid.construct_fieldsE(1) [OF assms(2) _ switch_index_byte assms(3) i k])
      (use t in \<open>simp add: alloc_type_def\<close>)
  from redis_gen.issued_one_between [OF assms(1,2,3,4,5)]
  show "unat (stored (m_dbConnector (vm_oidIndexGenerator m)) (m_vidCounterName (vm_oidIndexGenerator m))) <
       unat (REDIS_GET_OBJECT_INDEX v)"
    "unat (REDIS_GET_OBJECT_INDEX v) \<le>
       unat (stored (m_dbConnector (vm_oidIndexGenerator m')) (m_vidCounterName (vm_oidIndexGenerator m')))"
    "vm_globalContext m' = vm_globalContext m"
    by (auto simp: redis_gen.issued_between_def issued_one_def)
qed

lemma update_manager_known [simp]:
  "vid_known (s\<lparr>m_virtualObjectIdManager := m\<rparr>) = vid_known s"
  "rid_known (s\<lparr>m_virtualObjectIdManager := m\<rparr>) = rid_known s"
  by (auto simp: vid_known_def rid_known_def fun_eq_iff split: option.split)

lemma manager_inv:
  assumes "tr_inv stored h s" "vm_globalContext m < 256"
    "unat (stored (m_dbConnector (vm_oidIndexGenerator m)) (m_vidCounterName (vm_oidIndexGenerator m))) \<ge> issued stored s"
  shows "tr_inv stored h (s\<lparr>m_virtualObjectIdManager := m\<rparr>)"
  using tr_invD [OF assms(1)] assms(2,3)
  by (intro tr_inv_cong [OF assms(1)]) (simp_all add: issued_def Let_def local_ok_def)

lemma unknown_fresh:
  assumes "tr_inv stored h s" "issued stored s < unat (REDIS_GET_OBJECT_INDEX v)"
  shows "rid_known s v = 0"
  using tr_invD(5) [OF assms(1), of v] assms(2) by (cases "rid_known s v = 0") auto

text \<open>A real id the translator does not know yet.\<close>

lemma translate_new:
  assumes "tr_inv stored h s" "incrby_ok stored incrby" "headers_ok (sai_headers.truncate h)" "r \<noteq> 0"
    and "vid_known s r = 0" "issued stored s + 1 < 2 ^ 63"
    and "translate_new_rid h incrby r sw s = (Inr v, s')"
  shows "tr_inv stored h s'" "vid_known s' = (vid_known s)(r := v)" "rid_known s' = (rid_known s)(v := r)"
    "v \<noteq> 0" "rid_known s v = 0"
proof -
  note inv = tr_invD [OF assms(1)]
  let ?m = "m_virtualObjectIdManager s"
  let ?H = "sai_headers.truncate h"
  from assms(7) obtain m' where a:
    "vid_allocateNewObjectId ?H (redis_increment incrby) (objectTypeQuery h r) sw ?m = (Inr v, m')"
    and s': "s' = add_pair r v (s\<lparr>m_virtualObjectIdManager := m'\<rparr>)"
    by (auto simp: translate_new_rid_def op_defs add_pair_def split: if_splits prod.splits sum.splits)
  let ?s1 = "s\<lparr>m_virtualObjectIdManager := m'\<rparr>"
  note new = alloc_new [OF assms(2,3) inv(2) _ a]
  have b: "unat (stored (m_dbConnector (vm_oidIndexGenerator ?m)) (m_vidCounterName (vm_oidIndexGenerator ?m))) + 1 < 2 ^ 63"
    using assms(6) by (simp add: issued_def Let_def)
  have i1: "tr_inv stored h ?s1"
    by (rule manager_inv [OF assms(1)]) (use new(3-5) [OF b] inv(2) in \<open>simp_all add: issued_def Let_def\<close>)
  show z: "v \<noteq> 0" by (rule new(1) [OF b])
  show u: "rid_known s v = 0"
    by (rule unknown_fresh [OF assms(1)]) (use new(3) [OF b] in \<open>simp add: issued_def Let_def\<close>)
  show "tr_inv stored h s'" unfolding s'
    by (rule add_pair_inv [OF i1 assms(4) z])
      (use assms(5) u new(2,4) [OF b] in \<open>simp_all add: issued_def Let_def\<close>)
  show "vid_known s' = (vid_known s)(r := v)" "rid_known s' = (rid_known s)(v := r)"
    unfolding s' by (simp_all only: add_pair_known [OF tr_invD(1) [OF i1]] update_manager_known)
qed

text \<open>The result of a translation is what is known after it, and what was known before stays.\<close>

definition extends :: "'db translator \<Rightarrow> 'db translator \<Rightarrow> bool" where
  "extends s' s \<longleftrightarrow>
     (\<forall>r. vid_known s r \<noteq> 0 \<longrightarrow> vid_known s' r = vid_known s r) \<and>
     (\<forall>v. rid_known s v \<noteq> 0 \<longrightarrow> rid_known s' v = rid_known s v)"

lemma extends_refl: "extends s s"
  by (simp add: extends_def)

lemma extends_trans: "extends s'' s' \<Longrightarrow> extends s' s \<Longrightarrow> extends s'' s"
  unfolding extends_def by metis

lemma translate_known:
  assumes "tr_inv stored h s" "vid_known s r \<noteq> 0"
  shows "translateRidToVid h incrby r sw b s = (Inr (vid_known s r), s)"
proof -
  have "r \<noteq> 0" using bijectiveD(3) [OF tr_invD(4) [OF assms(1)] assms(2)] .
  with assms(2) show ?thesis
    using client.get_eq [OF tr_invD(1) [OF assms(1)], of r]
    by (auto simp: translateRidToVid_def vid_known_def split: option.splits)
qed

lemma translate_unknown:
  assumes "tr_inv stored h s" "vid_known s r = 0" "r \<noteq> 0"
  shows "translateRidToVid h incrby r sw False s = translate_new_rid h incrby r sw s"
proof -
  have "map_of (m_rid2vid s) r = None"
    using assms(2) tr_invD(3) [OF assms(1)] by (auto simp: vid_known_def local_ok_def split: option.splits)
  then show ?thesis
    using client.get_eq [OF tr_invD(1) [OF assms(1)], of r] assms(2,3)
    by (simp add: translateRidToVid_def vid_known_def)
qed

lemma rid_to_vid:
  assumes "tr_inv stored h s" "incrby_ok stored incrby" "headers_ok (sai_headers.truncate h)" "r \<noteq> 0"
    and "issued stored s + 1 < 2 ^ 63"
    and "translateRidToVid h incrby r sw False s = (Inr v, s')"
  shows "tr_inv stored h s'" "vid_known s' r = v" "v \<noteq> 0" "extends s' s"
proof -
  have "tr_inv stored h s' \<and> vid_known s' r = v \<and> v \<noteq> 0 \<and> extends s' s"
  proof (cases "vid_known s r = 0")
    case True
    with assms(6) translate_unknown [OF assms(1) True assms(4)]
    have "translate_new_rid h incrby r sw s = (Inr v, s')" by simp
    from translate_new [OF assms(1-4) True assms(5) this] True show ?thesis by (auto simp: extends_def)
  next
    case False
    have "v = vid_known s r" "s' = s" using translate_known [OF assms(1) False] assms(6) by auto
    with assms(1) False show ?thesis by (simp add: extends_refl)
  qed
  then show "tr_inv stored h s'" "vid_known s' r = v" "v \<noteq> 0" "extends s' s" by simp_all
qed

text \<open>Back to the real id. The local map is filled, nothing else changes.\<close>

lemma vid_to_rid:
  assumes "tr_inv stored h s" "rid_known s v \<noteq> 0"
  shows "\<exists>s'. translateVidToRid v s = (Inr (rid_known s v), s') \<and> tr_inv stored h s' \<and>
    vid_known s' = vid_known s \<and> rid_known s' = rid_known s \<and>
    m_virtualObjectIdManager s' = m_virtualObjectIdManager s"
proof (cases "map_of (m_vid2rid s) v")
  case None
  let ?r = "client.rid_of (m_client s) v"
  let ?s' = "s\<lparr>m_vid2rid := AList.update v ?r (m_vid2rid s)\<rparr>"
  have r: "rid_known s v = ?r" using None by (simp add: rid_known_def)
  have k: "vid_known ?s' = vid_known s" "rid_known ?s' = rid_known s"
    using None by (auto simp: vid_known_def rid_known_def fun_eq_iff split: option.split)
  have "tr_inv stored h ?s'"
    by (rule cache_inv [OF assms(1) _ _ k])
      (use assms r tr_invD(3) [OF assms(1)] in \<open>auto simp: local_ok_def split: if_splits\<close>)
  moreover have "v \<noteq> 0" using bijectiveD(4) [OF tr_invD(4) [OF assms(1)] assms(2)] .
  ultimately show ?thesis
    using None k r assms(2) client.get_eq(2) [OF tr_invD(1) [OF assms(1)], of v]
    by (simp add: translateVidToRid_def)
next
  case (Some r)
  moreover have "v \<noteq> 0" using bijectiveD(4) [OF tr_invD(4) [OF assms(1)] assms(2)] .
  ultimately show ?thesis using assms by (simp add: translateVidToRid_def rid_known_def)
qed

end
