(* ===== verification/Vid_Translator_Reach.thy ===== *)
theory Vid_Translator_Reach
  imports Vid_Translator_Inv
begin

text \<open>
  \<open>translateRidsToVids\<close>: a batch of real ids without duplicates. It ends in a state that knows the pairs
  adding the new ids one after the other would give. After it, the states calls of the translator reach.
\<close>

section \<open>The parts of the batch\<close>

lemma vids_for_rids:
  assumes "client_ok c"
  shows "getVidsForRids c rids =
    (if isRedisEnabled c \<and> rids = [] then Inl (Throw ''expected array reply'') else Inr (map (client.vid_of c) rids))"
proof -
  have "get_vids c rids = Inr (map (client.vid_of c) rids)"
    by (induction rids) (simp_all add: client.get_eq [OF assms])
  then show ?thesis by (simp add: getVidsForRids_def)
qed

lemma known_vids:
  assumes "local_ok s"
  shows "map2 (known_vid (m_rid2vid s)) rids (map (client.vid_of (m_client s)) rids) = map (vid_known s) rids"
    "new_rids (m_rid2vid s) rids (map (client.vid_of (m_client s)) rids) = filter (\<lambda>r. vid_known s r = 0) rids"
proof -
  have 1: "known_vid (m_rid2vid s) r (client.vid_of (m_client s) r) = vid_known s r" for r
    using assms client.disabled_of(1) [of "m_client s" r]
    by (cases "isRedisEnabled (m_client s)")
      (auto simp: known_vid_def vid_known_def local_ok_def split: option.split)
  have 2: "client.vid_of (m_client s) r = 0 \<and> map_of (m_rid2vid s) r = None \<longleftrightarrow> vid_known s r = 0" for r
    using assms by (auto simp: vid_known_def local_ok_def split: option.split)
  show "map2 (known_vid (m_rid2vid s)) rids (map (client.vid_of (m_client s)) rids) = map (vid_known s) rids"
    by (induction rids) (simp_all add: 1)
  show "new_rids (m_rid2vid s) rids (map (client.vid_of (m_client s)) rids) = filter (\<lambda>r. vid_known s r = 0) rids"
    by (induction rids) (auto simp: new_rids_def 2 [symmetric])
qed

text \<open>The places that were null get the new ids in order, the others keep what they had.\<close>

fun merge_new :: "(oid \<Rightarrow> oid) \<Rightarrow> oid list \<Rightarrow> oid list \<Rightarrow> (oid \<times> oid) list" where
  "merge_new f [] vs = []"
| "merge_new f (r # rs) vs =
     (if f r = 0 then (r, hd vs) # merge_new f rs (tl vs) else (r, f r) # merge_new f rs vs)"

lemma fill_new_merge:
  "length vs = length (filter (\<lambda>r. f r = 0) rids) \<Longrightarrow>
     fill_new (map f rids) vs = Inr (map snd (merge_new f rids vs))"
proof (induction rids arbitrary: vs)
  case (Cons r rids)
  then show ?case by (cases vs) (auto simp: length_Suc_conv)
qed simp

lemma merge_new_set:
  "length vs = length (filter (\<lambda>r. f r = 0) rids) \<Longrightarrow>
     set (merge_new f rids vs) =
       {(r, f r) |r. r \<in> set rids \<and> f r \<noteq> 0} \<union> set (zip (filter (\<lambda>r. f r = 0) rids) vs)"
proof (induction rids arbitrary: vs)
  case (Cons r rids)
  show ?case
  proof (cases "f r = 0")
    case True
    with Cons.prems obtain v vs' where "vs = v # vs'" by (cases vs) auto
    with True Cons show ?thesis by auto
  next
    case False
    with Cons show ?thesis by auto
  qed
qed simp

lemma merge_new_cong: "(\<And>r. r \<in> set rids \<Longrightarrow> f r = g r) \<Longrightarrow> merge_new f rids vs = merge_new g rids vs"
  by (induction rids arbitrary: vs) auto

lemma merge_new_fst [simp]: "map fst (merge_new f rids vs) = rids"
  by (induction rids arbitrary: vs) auto

lemma zip_snd: "map fst ps = rs \<Longrightarrow> zip rs (map snd ps) = ps"
  by (induction ps arbitrary: rs) auto

section \<open>Several pairs at once\<close>

fun add_pairs :: "(oid \<times> oid) list \<Rightarrow> 'db translator \<Rightarrow> 'db translator" where
  "add_pairs [] s = s"
| "add_pairs ((r, v) # ps) s = add_pairs ps (add_pair r v s)"

lemma add_pairs_client:
  "m_client (add_pairs ps s) = insertVidsAndRids (map (\<lambda>(r, v). (v, r)) ps) (m_client s)"
  "m_virtualObjectIdManager (add_pairs ps s) = m_virtualObjectIdManager s"
  by (induction ps arbitrary: s) (auto simp: add_pair_def)

lemma add_pairs_inv:
  assumes "tr_inv stored h s" "distinct (map fst ps)" "distinct (map snd ps)"
    and "\<And>r v. (r, v) \<in> set ps \<Longrightarrow> r \<noteq> 0 \<and> v \<noteq> 0 \<and> vid_known s r = 0 \<and> rid_known s v = 0 \<and>
      unat (REDIS_GET_OBJECT_INDEX v) \<le> issued stored s \<and>
      redis_objectTypeQuery (sai_headers.truncate h) v = objectTypeQuery h r"
  shows "tr_inv stored h (add_pairs ps s) \<and>
    (\<forall>r. vid_known (add_pairs ps s) r = (case map_of ps r of Some v \<Rightarrow> v | None \<Rightarrow> vid_known s r))"
  using assms
proof (induction ps arbitrary: s)
  case (Cons p ps)
  obtain r v where p: "p = (r, v)" by (cases p)
  have pre: "r \<noteq> 0 \<and> v \<noteq> 0 \<and> vid_known s r = 0 \<and> rid_known s v = 0 \<and>
      unat (REDIS_GET_OBJECT_INDEX v) \<le> issued stored s \<and>
      redis_objectTypeQuery (sai_headers.truncate h) v = objectTypeQuery h r"
    by (rule Cons.prems(4)) (simp add: p)
  then have inv: "tr_inv stored h (add_pair r v s)" using Cons.prems(1) by (blast intro: add_pair_inv)
  note known = add_pair_known [OF tr_invD(1) [OF Cons.prems(1)], of r v]
  have "tr_inv stored h (add_pairs ps (add_pair r v s)) \<and>
    (\<forall>x. vid_known (add_pairs ps (add_pair r v s)) x =
       (case map_of ps x of Some y \<Rightarrow> y | None \<Rightarrow> vid_known (add_pair r v s) x))"
  proof (rule Cons.IH [OF inv])
    show "distinct (map fst ps)" "distinct (map snd ps)" using Cons.prems by simp_all
    fix x y assume xy: "(x, y) \<in> set ps"
    have "x \<noteq> r" "y \<noteq> v" using Cons.prems(2,3) xy by (auto simp: p image_iff)
    moreover have "issued stored (add_pair r v s) = issued stored s" by (simp add: issued_def add_pair_def)
    ultimately show "x \<noteq> 0 \<and> y \<noteq> 0 \<and> vid_known (add_pair r v s) x = 0 \<and> rid_known (add_pair r v s) y = 0 \<and>
      unat (REDIS_GET_OBJECT_INDEX y) \<le> issued stored (add_pair r v s) \<and>
      redis_objectTypeQuery (sai_headers.truncate h) y = objectTypeQuery h x"
      using Cons.prems(4) [of x y] xy by (simp add: known)
  qed
  moreover have "map_of ps r = None" using Cons.prems(2) by (auto simp: p map_of_eq_None_iff)
  ultimately show ?case by (auto simp: p known split: option.split)
qed simp

lemma add_pairs_rid:
  "client_ok (m_client s) \<Longrightarrow> v \<notin> snd ` set ps \<Longrightarrow> rid_known (add_pairs ps s) v = rid_known s v"
proof (induction ps arbitrary: s)
  case (Cons p ps)
  obtain a b where p: "p = (a, b)" by (cases p)
  have "client_ok (m_client (add_pair a b s))" using client.keeps_ok Cons.prems(1) by (simp add: add_pair_def)
  with Cons p show ?case by (simp add: add_pair_known)
qed simp

lemma inserts_other:
  "client_ok c \<Longrightarrow> client_ok (insertVidsAndRids ps c) \<and>
     (r \<notin> snd ` set ps \<longrightarrow> client.vid_of (insertVidsAndRids ps c) r = client.vid_of c r) \<and>
     (v \<notin> fst ` set ps \<longrightarrow> client.rid_of (insertVidsAndRids ps c) v = client.rid_of c v)"
proof (induction ps arbitrary: c)
  case (Cons p ps)
  obtain a b where p: "p = (a, b)" by (cases p)
  have "client_ok (insertVidAndRid a b c)" using client.keeps_ok Cons.prems by blast
  with Cons p show ?case by (simp add: client.insert_of)
qed simp

text \<open>The local maps after the last loop.\<close>

lemma cache_pairs_fields:
  "m_client (cache_pairs ps s) = m_client s" "m_virtualObjectIdManager (cache_pairs ps s) = m_virtualObjectIdManager s"
  "m_removedRid2vid (cache_pairs ps s) = m_removedRid2vid s"
  by (induction ps arbitrary: s) auto

lemma cache_pairs_maps:
  "distinct (map fst ps) \<Longrightarrow> distinct (map snd ps) \<Longrightarrow>
    map_of (m_rid2vid (cache_pairs ps s)) r =
      (case map_of ps r of Some v \<Rightarrow> Some v | None \<Rightarrow> map_of (m_rid2vid s) r) \<and>
    map_of (m_vid2rid (cache_pairs ps s)) v =
      (case map_of (map (\<lambda>(r, v). (v, r)) ps) v of Some r \<Rightarrow> Some r | None \<Rightarrow> map_of (m_vid2rid s) v)"
proof (induction ps arbitrary: s)
  case (Cons p ps)
  obtain a b where p: "p = (a, b)" by (cases p)
  have "map_of ps a = None" "map_of (map (\<lambda>(r, v). (v, r)) ps) b = None"
    using Cons.prems by (force simp: p map_of_eq_None_iff)+
  with Cons.IH [of "s\<lparr>m_rid2vid := AList.update a b (m_rid2vid s), m_vid2rid := AList.update b a (m_vid2rid s)\<rparr>"]
    Cons.prems
  show ?case by (auto simp: p split: option.split)
qed simp

section \<open>The whole batch\<close>

text \<open>The ids of one allocation: new, distinct, and of the types asked for.\<close>

lemma construct_all_types:
  assumes "headers_ok h" "si < 256" "c < 256"
  shows "\<forall>(t, i) \<in> set ps. i < 2 ^ 39 \<Longrightarrow> vid_construct_all h si c ps = Inr oids \<Longrightarrow>
    list_all2 (\<lambda>t oid. oid \<noteq> 0 \<and> redis_objectTypeQuery h oid = t) (map fst ps) oids"
proof (induction ps arbitrary: oids)
  case (Cons p ps)
  obtain t i where p: "p = (t, i)" by (cases p)
  from Cons.prems p obtain oid oids' where
    o: "redis_constructObjectId h t si i c = Inr oid" "vid_construct_all h si c ps = Inr oids'"
      "oids = oid # oids'"
    by (auto simp: bindE_Inr)
  have i: "i < 2 ^ 39" using Cons.prems(1) p by simp
  have "oid \<noteq> 0 \<and> redis_objectTypeQuery h oid = t"
    using redis_oid.construct_fieldsE(1) [OF assms(1) redis_oid.construct_valid [OF o(1)] assms(2,3) i o(1)]
      redis_oid.type_of_construct [OF assms i o(1)] by blast
  with Cons o p show ?case by simp
qed simp

context oid_index_generator
begin

lemma alloc_all_types:
  assumes "env_ok" "headers_ok h" "vm_globalContext s < 256" "count_of s + length ts < 2 ^ 63"
    and "vid_allocateNewObjectIds h incrementBy sw ts s = (Inr oids, s')"
  shows "list_all2 (\<lambda>t oid. oid \<noteq> 0 \<and> redis_objectTypeQuery h oid = t) ts oids"
proof (cases "ts = []")
  case True
  with assms(5) show ?thesis by (simp add: vid_allocateNewObjectIds_def ret_def)
next
  case False
  let ?n = "of_nat (length ts) :: u64"
  have a: "list_all (alloc_type h) ts" "redis_objectTypeQuery h sw = ot_switch h"
    using batch_throws [OF False, of h sw incrementBy s] assms(5) by auto
  have un: "unat ?n = length ts" using assms(4) by (intro unat_of_nat64) simp
  with assms(4) have b: "count_of s + unat ?n < 2 ^ 63" by simp
  define "is" where "is = map (of_nat :: nat \<Rightarrow> u64) [count_of s + 1 ..< count_of s + 1 + length ts]"
  from incrementBy_next [OF assms(1) b] obtain g' where
    g': "incrementBy ?n (vm_oidIndexGenerator s) = (Inr is, g')" by (auto simp: un is_def)
  from batch_step [where incBy = incrementBy, OF False a, of s, OF g'] assms(5)
  have l: "\<not> mask 39 < last is"
    and c: "vid_construct_all h (ucast (REDIS_GET_SWITCH_INDEX sw)) (vm_globalContext s) (zip ts is) = Inr oids"
    by (simp_all split: if_splits)
  have "i < 2 ^ 39" if "i \<in> set is" for i
    using batch_all_below [OF l [unfolded is_def]] that assms(4) unfolding is_def by simp
  then have "\<forall>(t, i) \<in> set (zip ts is). i < 2 ^ 39" by (auto dest: set_zip_rightD)
  from construct_all_types [OF assms(2) switch_index_byte assms(3) this c]
  show ?thesis by (simp add: is_def del: upt_Suc)
qed

end

lemma batch_new:
  assumes "tr_inv stored h s" "incrby_ok stored incrby" "headers_ok (sai_headers.truncate h)"
    and "distinct rids" "\<And>r. r \<in> set rids \<Longrightarrow> r \<noteq> 0 \<and> vid_known s r = 0"
    and "issued stored s + length rids < 2 ^ 63"
    and "vid_allocateNewObjectIds (sai_headers.truncate h) (redis_incrementBy incrby) sw (map (objectTypeQuery h) rids)
       (m_virtualObjectIdManager s) = (Inr vs, m')"
  shows "length vs = length rids" "distinct vs" "\<And>v. v \<in> set vs \<Longrightarrow> v \<noteq> 0 \<and> rid_known s v = 0"
    "tr_inv stored h (add_pairs (zip rids vs) (s\<lparr>m_virtualObjectIdManager := m'\<rparr>))"
    "vid_known (add_pairs (zip rids vs) (s\<lparr>m_virtualObjectIdManager := m'\<rparr>)) r =
       (case map_of (zip rids vs) r of Some v \<Rightarrow> v | None \<Rightarrow> vid_known s r)"
proof -
  let ?s1 = "s\<lparr>m_virtualObjectIdManager := m'\<rparr>"
  note inv = tr_invD [OF assms(1)]
  have bound: "redis_gen.count_of stored (m_virtualObjectIdManager s) + length (map (objectTypeQuery h) rids) < 2 ^ 63"
    using assms(6) by (simp add: issued_def Let_def)
  from redis_gen.issued_all_between [OF assms(2,3) inv(2) bound assms(7)]
  have btw: "distinct vs" "\<And>v. v \<in> set vs \<Longrightarrow> issued stored s < unat (REDIS_GET_OBJECT_INDEX v)"
    "\<And>v. v \<in> set vs \<Longrightarrow> unat (REDIS_GET_OBJECT_INDEX v) \<le> issued stored ?s1"
    "issued stored s \<le> issued stored ?s1" "vm_globalContext m' = vm_globalContext (m_virtualObjectIdManager s)"
    by (auto simp: redis_gen.issued_between_def issued_all_def issued_def Let_def)
  from redis_gen.alloc_all_types [OF assms(2,3) inv(2) bound assms(7)]
  have ty: "list_all2 (\<lambda>r v. v \<noteq> 0 \<and> redis_objectTypeQuery (sai_headers.truncate h) v = objectTypeQuery h r) rids vs"
    by (simp add: list_all2_map1)
  show len: "length vs = length rids" using list_all2_lengthD [OF ty] by simp
  show "distinct vs" by (rule btw(1))
  show fresh: "v \<noteq> 0 \<and> rid_known s v = 0" if "v \<in> set vs" for v
    using unknown_fresh [OF assms(1) btw(2) [OF that]] ty that
    by (auto simp: list_all2_conv_all_nth in_set_conv_nth)
  have i1: "tr_inv stored h ?s1"
    by (rule manager_inv [OF assms(1)]) (use btw(4,5) inv(2) in \<open>simp_all add: issued_def Let_def\<close>)
  have "tr_inv stored h (add_pairs (zip rids vs) ?s1) \<and>
    (\<forall>r. vid_known (add_pairs (zip rids vs) ?s1) r =
       (case map_of (zip rids vs) r of Some v \<Rightarrow> v | None \<Rightarrow> vid_known ?s1 r))"
  proof (rule add_pairs_inv [OF i1])
    show "distinct (map fst (zip rids vs))" "distinct (map snd (zip rids vs))"
      using assms(4) btw(1) len by simp_all
    fix r v assume p: "(r, v) \<in> set (zip rids vs)"
    then have "v \<in> set vs" "r \<in> set rids" by (auto dest: set_zip_leftD set_zip_rightD)
    moreover have "redis_objectTypeQuery (sai_headers.truncate h) v = objectTypeQuery h r"
      using ty p by (auto simp: list_all2_iff)
    ultimately show "r \<noteq> 0 \<and> v \<noteq> 0 \<and> vid_known ?s1 r = 0 \<and> rid_known ?s1 v = 0 \<and>
      unat (REDIS_GET_OBJECT_INDEX v) \<le> issued stored ?s1 \<and>
      redis_objectTypeQuery (sai_headers.truncate h) v = objectTypeQuery h r"
      using assms(5) fresh btw(3) by simp
  qed
  then show "tr_inv stored h (add_pairs (zip rids vs) ?s1)"
    "vid_known (add_pairs (zip rids vs) ?s1) r =
       (case map_of (zip rids vs) r of Some v \<Rightarrow> v | None \<Rightarrow> vid_known s r)"
    by (simp_all only: update_manager_known)
qed

text \<open>
  The batch as a whole: the answer, and the state that knows the old and the new pairs. The two tests on
  the client and on the local map are one question to what is known.
\<close>

lemma translateRidsToVids_eq:
  assumes "client_ok (m_client s)" "local_ok s"
  shows "translateRidsToVids h incrby sw rids s =
    (if isRedisEnabled (m_client s) \<and> rids = [] then (Inl (Throw ''expected array reply''), s)
     else let newRids = filter (\<lambda>r. vid_known s r = 0) rids
     in case vid_allocateNewObjectIds (sai_headers.truncate h) (redis_incrementBy incrby) sw
           (map (objectTypeQuery h) newRids) (m_virtualObjectIdManager s) of
          (Inl e, m') \<Rightarrow> (Inl e, s\<lparr>m_virtualObjectIdManager := m'\<rparr>)
        | (Inr newVids, m') \<Rightarrow>
            let s2 = s\<lparr>m_virtualObjectIdManager := m', m_client := insertVidsAndRids (zip newVids newRids) (m_client s)\<rparr>
            in case fill_new (map (vid_known s) rids) newVids of
                 Inl e \<Rightarrow> (Inl e, s2)
               | Inr vids \<Rightarrow> (Inr vids, cache_pairs (zip rids vids) s2))"
  by (auto simp: translateRidsToVids_def op_defs vids_for_rids [OF assms(1)] known_vids [OF assms(2)] Let_def
      split: prod.split sum.split)

lemma batch_translate:
  assumes "tr_inv stored h s" "incrby_ok stored incrby" "headers_ok (sai_headers.truncate h)"
    and "distinct rids" "0 \<notin> set rids" "issued stored s + length rids < 2 ^ 63"
    and "translateRidsToVids h incrby sw rids s = (Inr vids, s')"
  shows "tr_inv stored h s'" "vids = map (vid_known s') rids" "0 \<notin> set vids" "extends s' s"
proof -
  note inv = tr_invD [OF assms(1)]
  define newRids where "newRids = filter (\<lambda>r. vid_known s r = 0) rids"
  from assms(7) [unfolded translateRidsToVids_eq [OF inv(1,3)]]
  obtain vs m' where alloc: "vid_allocateNewObjectIds (sai_headers.truncate h) (redis_incrementBy incrby) sw
      (map (objectTypeQuery h) newRids) (m_virtualObjectIdManager s) = (Inr vs, m')"
    and fill: "fill_new (map (vid_known s) rids) vs = Inr vids"
    and s': "s' = cache_pairs (zip rids vids)
      (s\<lparr>m_virtualObjectIdManager := m', m_client := insertVidsAndRids (zip vs newRids) (m_client s)\<rparr>)"
    by (auto simp: newRids_def Let_def split: if_splits prod.splits sum.splits)
  have new: "distinct newRids" "\<And>r. r \<in> set newRids \<Longrightarrow> r \<noteq> 0 \<and> vid_known s r = 0"
    "issued stored s + length newRids < 2 ^ 63" "set newRids \<subseteq> set rids"
    using assms(4,5) assms(6) [THEN le_less_trans [OF add_left_mono [OF length_filter_le]]]
    by (auto simp: newRids_def)
  note b = batch_new [OF assms(1,2,3) new(1,2,3) alloc]
  define s2 where "s2 = add_pairs (zip newRids vs) (s\<lparr>m_virtualObjectIdManager := m'\<rparr>)"
  have i2: "tr_inv stored h s2" unfolding s2_def by (rule b(4))
  define ps where "ps = merge_new (vid_known s) rids vs"
  have lenf: "length vs = length (filter (\<lambda>r. vid_known s r = 0) rids)" using b(1) by (simp add: newRids_def)
  have vids: "vids = map snd ps" using fill fill_new_merge [OF lenf] by (simp add: ps_def)
  have ps: "set ps = {(r, vid_known s r) |r. r \<in> set rids \<and> vid_known s r \<noteq> 0} \<union> set (zip newRids vs)"
    using merge_new_set [OF lenf] by (simp add: ps_def newRids_def)
  have fst: "map fst ps = rids" by (simp add: ps_def)
  have k2: "vid_known s2 r = (case map_of (zip newRids vs) r of Some v \<Rightarrow> v | None \<Rightarrow> vid_known s r)" for r
    unfolding s2_def by (rule b(5))
  have known2: "vid_known s2 r = v \<and> v \<noteq> 0" if "(r, v) \<in> set ps" for r v
  proof (cases "(r, v) \<in> set (zip newRids vs)")
    case True
    then have "map_of (zip newRids vs) r = Some v" using new(1) b(1) by (intro map_of_is_SomeI) simp_all
    with True b(3) [of v] show ?thesis by (auto simp: k2 dest: set_zip_rightD)
  next
    case False
    with that ps have "v = vid_known s r" "v \<noteq> 0" by auto
    moreover from this have "map_of (zip newRids vs) r = None"
      using b(1) by (simp add: newRids_def)
    ultimately show ?thesis by (simp add: k2)
  qed
  have rid2: "rid_known s2 v = r" if "(r, v) \<in> set ps" for r v
    using bijectiveD(1) [OF tr_invD(4) [OF i2], of r] known2 [OF that] by simp
  have nz: "r \<noteq> 0" if "(r, v) \<in> set ps" for r v
    using bijectiveD(3) [OF tr_invD(4) [OF i2], of r] known2 [OF that] by simp
  have dist: "distinct (map fst ps)" "distinct (map snd ps)"
  proof -
    show "distinct (map fst ps)" using fst assms(4) by simp
    then have "distinct ps" by (simp add: distinct_map)
    moreover have "inj_on snd (set ps)"
    proof (rule inj_onI)
      fix p q assume pq: "p \<in> set ps" "q \<in> set ps" "snd p = snd q"
      have "fst p = rid_known s2 (snd p)" "fst q = rid_known s2 (snd q)"
        using rid2 [of "fst p" "snd p"] rid2 [of "fst q" "snd q"] pq(1,2) by simp_all
      with pq(3) show "p = q" by (simp add: prod_eq_iff)
    qed
    ultimately show "distinct (map snd ps)" by (simp add: distinct_map)
  qed
  have zp: "zip rids vids = ps" unfolding vids by (rule zip_snd [OF fst])
  have swap: "zip vs newRids = map (\<lambda>(r, v). (v, r)) (zip newRids vs)" by (rule zip_commute)
  have fields: "m_client s' = m_client s2" "m_virtualObjectIdManager s' = m_virtualObjectIdManager s2"
    by (simp_all add: s' s2_def cache_pairs_fields add_pairs_client swap)
  have maps: "map_of (m_rid2vid s') r = (case map_of ps r of Some v \<Rightarrow> Some v | None \<Rightarrow> map_of (m_rid2vid s) r)"
    "map_of (m_vid2rid s') v =
       (case map_of (map (\<lambda>(r, v). (v, r)) ps) v of Some r \<Rightarrow> Some r | None \<Rightarrow> map_of (m_vid2rid s) v)" for r v
    using cache_pairs_maps [OF dist, where s = "s\<lparr>m_virtualObjectIdManager := m',
        m_client := insertVidsAndRids (zip vs newRids) (m_client s)\<rparr>" and r = r and v = v]
    by (auto simp: s' zp split: option.split)
  have client: "m_client s' = insertVidsAndRids (zip vs newRids) (m_client s)"
    by (simp add: s' cache_pairs_fields)
  have sets: "snd ` set (zip vs newRids) = set newRids" "fst ` set (zip vs newRids) = set vs"
    "snd ` set (zip newRids vs) = set vs"
    using b(1) by (simp_all flip: set_map)
  have kv: "vid_known s' r = vid_known s2 r" for r
  proof (cases "map_of ps r")
    case None
    then have r: "r \<notin> set newRids" using fst new(4) by (auto simp: map_of_eq_None_iff)
    then have "map_of (zip newRids vs) r = None" using b(1) by simp
    with None inserts_other [OF inv(1), of "zip vs newRids" r] r show ?thesis
      by (simp add: k2) (simp add: vid_known_def maps client sets split: option.split)
  next
    case (Some v)
    with known2 [OF map_of_SomeD [OF Some]] show ?thesis by (simp add: vid_known_def [of s'] maps)
  qed
  have kr: "rid_known s' v = rid_known s2 v" for v
  proof (cases "map_of (map (\<lambda>(r, v). (v, r)) ps) v")
    case None
    then have "v \<notin> snd ` set ps" by (force simp: map_of_eq_None_iff)
    moreover have "set vs \<subseteq> snd ` set ps" using ps sets(3) by auto
    ultimately have v: "v \<notin> set vs" by blast
    then have "rid_known s2 v = rid_known s v"
      using add_pairs_rid [of "s\<lparr>m_virtualObjectIdManager := m'\<rparr>" v "zip newRids vs"] inv(1)
      by (simp add: s2_def sets)
    with None inserts_other [OF inv(1), of "zip vs newRids" _ v] v show ?thesis
      by (simp add: rid_known_def maps client sets split: option.split)
  next
    case (Some r)
    from map_of_SomeD [OF Some] have "(r, v) \<in> set ps" by auto
    from rid2 [OF this] Some show ?thesis by (simp add: rid_known_def [of s'] maps)
  qed
  show "tr_inv stored h s'"
  proof (rule cache_inv [OF i2 fields])
    show "vid_known s' = vid_known s2" "rid_known s' = rid_known s2" using kv kr by auto
    show "v \<noteq> 0" if "map_of (m_rid2vid s') r = Some v" for r v
      using that inv(3) known2 by (auto simp: maps local_ok_def dest!: map_of_SomeD split: option.splits)
    show "r \<noteq> 0" if "map_of (m_vid2rid s') v = Some r" for r v
      using that inv(3) by (auto simp: maps local_ok_def dest!: map_of_SomeD dest: nz split: option.splits)
  qed
  have "map snd ps = map (\<lambda>p. vid_known s' (fst p)) ps"
    by (rule map_cong [OF refl]) (use known2 kv in auto)
  also have "\<dots> = map (vid_known s') rids" by (simp flip: fst)
  finally show "vids = map (vid_known s') rids" by (simp add: vids)
  show "0 \<notin> set vids" using known2 by (auto simp: vids)
  have "vid_known s' r = vid_known s r" if "vid_known s r \<noteq> 0" for r
  proof -
    have "map_of (zip newRids vs) r = None" using that b(1) by (simp add: newRids_def)
    then show ?thesis by (simp add: kv k2)
  qed
  moreover have "rid_known s' v = rid_known s v" if "rid_known s v \<noteq> 0" for v
  proof -
    have "v \<notin> snd ` set (zip newRids vs)" using that b(3) sets(3) by auto
    from add_pairs_rid [OF _ this, of "s\<lparr>m_virtualObjectIdManager := m'\<rparr>"] inv(1)
    show ?thesis by (simp add: kr s2_def)
  qed
  ultimately show "extends s' s" by (simp add: extends_def)
qed

text \<open>
  The states of the translator: the calls \<open>syncd\<close> makes on it, with what it guarantees for them, as a step
  relation, and the invariant in all the states reached.
\<close>

section \<open>The steps\<close>

text \<open>
  A new pair comes from a create (\<open>insertRidAndVid\<close>): the client library has taken the virtual id from the
  shared counter, for an object of the type created. \<open>others\<close> are the clients that advance the counter.
\<close>

inductive tr_step ::
  "('db \<Rightarrow> string \<Rightarrow> u64) \<Rightarrow> 'db incrby \<Rightarrow> sai_meta \<Rightarrow> 'db translator \<Rightarrow> 'db translator \<Rightarrow> bool"
  for stored incrby h where
    to_vid: "issued stored s + 1 < 2 ^ 63 \<Longrightarrow>
      tr_step stored incrby h s (snd (translateRidToVid h incrby r sw removed s))"
  | to_vids: "distinct rids \<Longrightarrow> 0 \<notin> set rids \<Longrightarrow> issued stored s + length rids < 2 ^ 63 \<Longrightarrow>
      tr_step stored incrby h s (snd (translateRidsToVids h incrby sw rids s))"
  | to_rid: "tr_step stored incrby h s (snd (translateVidToRid v s))"
  | try_rid: "tr_step stored incrby h s (snd (tryTranslateVidToRid v s))"
  | insert_pair: "r \<noteq> 0 \<Longrightarrow> v \<noteq> 0 \<Longrightarrow> vid_known s r = 0 \<Longrightarrow> rid_known s v = 0 \<Longrightarrow>
      unat (REDIS_GET_OBJECT_INDEX v) \<le> issued stored s \<Longrightarrow>
      redis_objectTypeQuery (sai_headers.truncate h) v = objectTypeQuery h r \<Longrightarrow>
      tr_step stored incrby h s (snd (insertRidAndVid r v s))"
  | erase_pair: "vid_known s r = v \<Longrightarrow> v \<noteq> 0 \<Longrightarrow> tr_step stored incrby h s (snd (eraseRidAndVid r v s))"
  | clear_cache: "tr_step stored incrby h s (snd (clearLocalCache s))"
  | others: "vm_globalContext m = vm_globalContext (m_virtualObjectIdManager s) \<Longrightarrow>
      issued stored s \<le> issued stored (s\<lparr>m_virtualObjectIdManager := m\<rparr>) \<Longrightarrow>
      tr_step stored incrby h s (s\<lparr>m_virtualObjectIdManager := m\<rparr>)"

text \<open>A translator starts with empty maps, over an empty database or none.\<close>

inductive tr_reachable ::
  "('db \<Rightarrow> string \<Rightarrow> u64) \<Rightarrow> 'db incrby \<Rightarrow> sai_meta \<Rightarrow> 'db translator \<Rightarrow> bool"
  for stored incrby h where
    start: "c = Redis \<lparr>VIDTORID = [], RIDTOVID = []\<rparr> \<or> c = Disabled \<Longrightarrow> vm_globalContext m < 256 \<Longrightarrow>
      tr_reachable stored incrby h
        \<lparr>m_rid2vid = [], m_vid2rid = [], m_removedRid2vid = [], m_client = c, m_virtualObjectIdManager = m\<rparr>"
  | step: "tr_reachable stored incrby h s \<Longrightarrow> tr_step stored incrby h s s' \<Longrightarrow> tr_reachable stored incrby h s'"

section \<open>Every step keeps the invariant\<close>

lemma start_inv:
  assumes "c = Redis \<lparr>VIDTORID = [], RIDTOVID = []\<rparr> \<or> c = Disabled" "vm_globalContext m < 256"
  shows "tr_inv stored h \<lparr>m_rid2vid = [], m_vid2rid = [], m_removedRid2vid = [], m_client = c, m_virtualObjectIdManager = m\<rparr>"
    (is "tr_inv stored h ?s")
proof -
  have "client.vid_of c r = 0" "client.rid_of c v = 0" for r v
    using assms(1) by (auto simp: client.vid_of_def client.rid_of_def hget_oid_def)
  then have "vid_known ?s = (\<lambda>_. 0)" "rid_known ?s = (\<lambda>_. 0)"
    by (simp_all add: vid_known_def rid_known_def fun_eq_iff)
  then show ?thesis
    using assms by (auto simp: tr_inv_def local_ok_def bijective_def undone_by_def hash_ok_def)
qed

lemma translate_new_fails:
  assumes "tr_inv stored h s" "incrby_ok stored incrby" "headers_ok (sai_headers.truncate h)" "issued stored s + 1 < 2 ^ 63"
    and "translate_new_rid h incrby r sw s = (Inl e, s')"
  shows "tr_inv stored h s' \<and> vid_known s' = vid_known s \<and> rid_known s' = rid_known s"
proof -
  let ?m = "m_virtualObjectIdManager s"
  from assms(5) obtain r m' where
    "s' = s \<or> vid_allocateNewObjectId (sai_headers.truncate h) (redis_increment incrby) (objectTypeQuery h r) sw ?m = (Inl e, m')
       \<and> s' = s\<lparr>m_virtualObjectIdManager := m'\<rparr>"
    by (auto simp: translate_new_rid_def op_defs split: if_splits prod.splits sum.splits)
  then show ?thesis
  proof
    assume a: "vid_allocateNewObjectId (sai_headers.truncate h) (redis_increment incrby) (objectTypeQuery h r) sw ?m = (Inl e, m')
       \<and> s' = s\<lparr>m_virtualObjectIdManager := m'\<rparr>"
    note inv = tr_invD [OF assms(1)]
    have b: "redis_gen.count_of stored ?m + 1 < 2 ^ 63" using assms(4) by (simp add: issued_def Let_def)
    note n = redis_gen.issued_one_between [OF assms(2,3) inv(2) b conjunct1 [OF a]]
    have "tr_inv stored h (s\<lparr>m_virtualObjectIdManager := m'\<rparr>)"
      by (rule manager_inv [OF assms(1)]) (use n inv(2) in \<open>simp_all add: issued_def Let_def\<close>)
    with a show ?thesis by simp
  qed (use assms(1) in simp)
qed

lemma translateRidToVid_cases:
  assumes "tr_inv stored h s"
  shows "snd (translateRidToVid h incrby r sw b s) = s \<or>
    r \<noteq> 0 \<and> vid_known s r = 0 \<and> translateRidToVid h incrby r sw b s = translate_new_rid h incrby r sw s"
proof (cases "r \<noteq> 0 \<and> vid_known s r = 0")
  case True
  then have "map_of (m_rid2vid s) r = None"
    using tr_invD(3) [OF assms] by (auto simp: vid_known_def local_ok_def split: option.splits)
  then show ?thesis
    using client.get_eq [OF tr_invD(1) [OF assms], of r] True
    by (auto simp: translateRidToVid_def vid_known_def split: option.split)
next
  case False
  then have "snd (translateRidToVid h incrby r sw b s) = s"
    using translate_known [OF assms, of r incrby sw b] by (cases "r = 0") (simp_all add: translateRidToVid_def)
  then show ?thesis ..
qed

lemma to_vid_inv:
  assumes "tr_inv stored h s" "incrby_ok stored incrby" "headers_ok (sai_headers.truncate h)" "issued stored s + 1 < 2 ^ 63"
  shows "tr_inv stored h (snd (translateRidToVid h incrby r sw b s))"
  using translateRidToVid_cases [OF assms(1), of incrby r sw b]
proof
  assume n: "r \<noteq> 0 \<and> vid_known s r = 0 \<and> translateRidToVid h incrby r sw b s = translate_new_rid h incrby r sw s"
  obtain x s' where x: "translate_new_rid h incrby r sw s = (x, s')" by fastforce
  show ?thesis
  proof (cases x)
    case (Inl e)
    with translate_new_fails [OF assms] x n show ?thesis by simp
  next
    case (Inr v)
    from n translate_new(1) [OF assms(1-3) _ _ assms(4) x [unfolded Inr]] have "tr_inv stored h s'" by blast
    with n x show ?thesis by simp
  qed
qed (use assms(1) in simp)

lemma batch_fails:
  assumes "tr_inv stored h s" "incrby_ok stored incrby" "headers_ok (sai_headers.truncate h)"
    and "distinct rids" "0 \<notin> set rids" "issued stored s + length rids < 2 ^ 63"
    and "translateRidsToVids h incrby sw rids s = (Inl e, s')"
  shows "tr_inv stored h s'"
proof -
  note inv = tr_invD [OF assms(1)]
  define newRids where "newRids = filter (\<lambda>r. vid_known s r = 0) rids"
  let ?ts = "map (objectTypeQuery h) newRids"
  obtain r m' where alloc: "vid_allocateNewObjectIds (sai_headers.truncate h) (redis_incrementBy incrby) sw ?ts
      (m_virtualObjectIdManager s) = (r, m')" by fastforce
  have b: "issued stored s + length newRids < 2 ^ 63"
    using assms(6) [THEN le_less_trans [OF add_left_mono [OF length_filter_le]]] by (simp add: newRids_def)
  show ?thesis
  proof (cases r)
    case (Inl e')
    have s': "s' = s \<or> s' = s\<lparr>m_virtualObjectIdManager := m'\<rparr>"
      using assms(7) alloc by (auto simp: translateRidsToVids_eq [OF inv(1,3)] Inl newRids_def Let_def split: if_splits)
    have "redis_gen.count_of stored (m_virtualObjectIdManager s) + length ?ts < 2 ^ 63"
      using b by (simp add: issued_def Let_def)
    from redis_gen.issued_all_between [OF assms(2,3) inv(2) this alloc]
    have "tr_inv stored h (s\<lparr>m_virtualObjectIdManager := m'\<rparr>)"
      by (intro manager_inv [OF assms(1)]) (use inv(2) in \<open>simp_all add: issued_def Let_def\<close>)
    with s' assms(1) show ?thesis by blast
  next
    case (Inr vs)
    have "\<And>r. r \<in> set newRids \<Longrightarrow> r \<noteq> 0 \<and> vid_known s r = 0" "distinct newRids"
      using assms(4,5) by (auto simp: newRids_def)
    from batch_new(1) [OF assms(1-3) this(2,1) b alloc [unfolded Inr]]
    have "fill_new (map (vid_known s) rids) vs = Inr (map snd (merge_new (vid_known s) rids vs))"
      by (intro fill_new_merge) (simp add: newRids_def)
    with assms(1,7) alloc show ?thesis
      by (auto simp: translateRidsToVids_eq [OF inv(1,3)] Inr newRids_def Let_def split: if_splits)
  qed
qed

lemma to_vids_inv:
  assumes "tr_inv stored h s" "incrby_ok stored incrby" "headers_ok (sai_headers.truncate h)"
    and "distinct rids" "0 \<notin> set rids" "issued stored s + length rids < 2 ^ 63"
  shows "tr_inv stored h (snd (translateRidsToVids h incrby sw rids s))"
proof -
  obtain x s' where x: "translateRidsToVids h incrby sw rids s = (x, s')" by fastforce
  then show ?thesis
    using batch_fails [OF assms] batch_translate(1) [OF assms] by (cases x) auto
qed

lemma to_rid_inv:
  assumes "tr_inv stored h s"
  shows "tr_inv stored h (snd (translateVidToRid v s))" "tr_inv stored h (snd (tryTranslateVidToRid v s))"
proof -
  have "snd (tryTranslateVidToRid v s) = snd (translateVidToRid v s)"
    by (auto simp: tryTranslateVidToRid_def translateVidToRid_def split: option.split sum.split)
  moreover show "tr_inv stored h (snd (translateVidToRid v s))"
  proof (cases "rid_known s v = 0")
    case True
    then have "map_of (m_vid2rid s) v = None \<and> client.rid_of (m_client s) v = 0"
      using tr_invD(3) [OF assms] by (auto simp: rid_known_def local_ok_def split: option.splits)
    then show ?thesis
      using client.get_eq(2) [OF tr_invD(1) [OF assms], of v] assms by (simp add: translateVidToRid_def)
  next
    case False
    from vid_to_rid [OF assms this] show ?thesis by auto
  qed
  ultimately show "tr_inv stored h (snd (tryTranslateVidToRid v s))" by simp
qed

lemma clear_inv:
  assumes "tr_inv stored h s"
  shows "tr_inv stored h (snd (clearLocalCache s))"
proof -
  note inv = tr_invD [OF assms]
  let ?s' = "s\<lparr>m_rid2vid := [], m_vid2rid := [], m_removedRid2vid := []\<rparr>"
  have "tr_inv stored h ?s'"
  proof (cases "isRedisEnabled (m_client s)")
    case True
    then have "vid_known ?s' = vid_known s" "rid_known ?s' = rid_known s"
      using enabled_known [OF inv(3) True] by (simp_all add: vid_known_def [of ?s'] rid_known_def [of ?s'] fun_eq_iff)
    with assms show ?thesis by (intro cache_inv [OF assms]) simp_all
  next
    case False
    then have "vid_known ?s' = (\<lambda>_. 0)" "rid_known ?s' = (\<lambda>_. 0)"
      by (simp_all add: vid_known_def rid_known_def client.disabled_of fun_eq_iff)
    with inv(1,2) show ?thesis by (auto simp: tr_inv_def local_ok_def bijective_def undone_by_def)
  qed
  then show ?thesis by (simp add: clearLocalCache_def modify_def)
qed

lemma tr_step_inv:
  assumes "incrby_ok stored incrby" "headers_ok (sai_headers.truncate h)"
  shows "tr_step stored incrby h s s' \<Longrightarrow> tr_inv stored h s \<Longrightarrow> tr_inv stored h s'"
proof (induction rule: tr_step.induct)
  case to_vid
  then show ?case by (blast intro: to_vid_inv assms)
next
  case to_vids
  then show ?case by (blast intro: to_vids_inv assms)
next
  case insert_pair
  then show ?case by (simp add: pair_ops modify_def add_pair_inv)
next
  case erase_pair
  then show ?case by (simp add: pair_ops modify_def drop_pair_inv)
next
  case (others m s)
  then show ?case using tr_invD(2) [OF others(3)] by (intro manager_inv) (simp_all add: issued_def Let_def)
qed (simp_all add: to_rid_inv clear_inv)

theorem reachable_inv:
  assumes "incrby_ok stored incrby" "headers_ok (sai_headers.truncate h)" "tr_reachable stored incrby h s"
  shows "tr_inv stored h s"
  using assms(3) by (induction rule: tr_reachable.induct) (blast intro: start_inv tr_step_inv [OF assms(1,2)])+

end
