(* ===== verification/Vid_Translator_Attrs.thy ===== *)
theory Vid_Translator_Attrs
  imports Vid_Translator_Reach
begin

text \<open>
  Attribute lists to virtual ids and back. The contract of a translation and its inverse over a growing
  state is a locale, which lifts from ids to lists of them and from attributes to lists of attributes.
\<close>

section \<open>A translation with its inverse\<close>

text \<open>
  \<open>there\<close> may extend the state, at a cost counted against a budget; what it answers is paired with what it
  was given, in the state it ends in and in all later ones; and \<open>undo\<close> answers the partner of what it is given.
\<close>

locale translation =
  fixes good :: "'s \<Rightarrow> nat \<Rightarrow> bool"
    and later :: "'s \<Rightarrow> 's \<Rightarrow> bool"
    and cost :: "'a \<Rightarrow> nat"
    and there :: "'a \<Rightarrow> ('s, 'b) op"
    and undo :: "'b \<Rightarrow> ('s, 'a) op"
    and paired :: "'s \<Rightarrow> 'a \<Rightarrow> 'b \<Rightarrow> bool"
  assumes there_paired: "good s (cost x + n) \<Longrightarrow> there x s = (Inr y, s') \<Longrightarrow>
      good s' n \<and> later s' s \<and> paired s' x y"
    and undo_paired: "good s n \<Longrightarrow> paired s x y \<Longrightarrow> \<exists>s'. undo y s = (Inr x, s') \<and> good s' n \<and> later s' s"
    and paired_later: "paired s x y \<Longrightarrow> later s' s \<Longrightarrow> paired s' x y"
    and later_refl: "later s s"
    and later_trans: "later s'' s' \<Longrightarrow> later s' s \<Longrightarrow> later s'' s"
begin

lemma list_later: "list_all2 (paired s) xs ys \<Longrightarrow> later s' s \<Longrightarrow> list_all2 (paired s') xs ys"
  by (erule list_all2_mono) (rule paired_later)

lemma list_there:
  "good s (sum_list (map cost xs) + n) \<Longrightarrow> mapM there xs s = (Inr ys, s') \<Longrightarrow>
     good s' n \<and> later s' s \<and> list_all2 (paired s') xs ys"
proof (induction xs arbitrary: s ys)
  case Nil
  then show ?case by (simp add: ret_def later_refl)
next
  case (Cons x xs)
  from Cons.prems(2) obtain y s1 ys' where
    1: "there x s = (Inr y, s1)" and 2: "mapM there xs s1 = (Inr ys', s')" and ys: "ys = y # ys'"
    by (auto simp: seq_def ret_def split: prod.splits sum.splits)
  have "good s (cost x + (sum_list (map cost xs) + n))" using Cons.prems(1) by (simp add: add.assoc)
  note f = there_paired [OF this 1]
  note r = Cons.IH [OF conjunct1 [OF f] 2]
  show ?case using f r paired_later later_trans by (auto simp: ys)
qed

lemma list_undo:
  "good s n \<Longrightarrow> list_all2 (paired s) xs ys \<Longrightarrow> \<exists>s'. mapM undo ys s = (Inr xs, s') \<and> good s' n \<and> later s' s"
proof (induction ys arbitrary: s xs)
  case Nil
  then show ?case by (simp add: ret_def later_refl)
next
  case (Cons y ys)
  from Cons.prems(2) obtain x xs' where x: "xs = x # xs'" "paired s x y" "list_all2 (paired s) xs' ys"
    by (auto simp: list_all2_Cons2)
  from undo_paired [OF Cons.prems(1) x(2)] obtain s1 where 1: "undo y s = (Inr x, s1)" "good s1 n" "later s1 s"
    by blast
  from Cons.IH [OF 1(2) list_later [OF x(3) 1(3)]] obtain s2 where
    2: "mapM undo ys s1 = (Inr xs', s2)" "good s2 n" "later s2 s1" by blast
  then show ?case using 1 later_trans by (auto simp: seq_def ret_def x(1))
qed

text \<open>There and back.\<close>

lemma round_trip:
  assumes "good s (sum_list (map cost xs))" "mapM there xs s = (Inr ys, s')"
  shows "fst (mapM undo ys s') = Inr xs"
  using list_there [of s xs 0 ys s'] list_undo [of s' 0 xs ys] assms by auto

end

section \<open>From ids to lists, values and attributes\<close>

text \<open>Two lists, values or attributes that differ in paired ids only.\<close>

definition list_paired :: "(oid \<Rightarrow> oid \<Rightarrow> bool) \<Rightarrow> oid sai_list \<Rightarrow> oid sai_list \<Rightarrow> bool" where
  "list_paired R l l' \<longleftrightarrow>
     (case l of Null_List n \<Rightarrow> n = 0 \<and> l' = l | Sai_List xs \<Rightarrow> \<exists>ys. l' = Sai_List ys \<and> list_all2 R xs ys)"

definition acl_paired :: "(oid \<Rightarrow> oid \<Rightarrow> bool) \<Rightarrow> attr_md \<Rightarrow> acl_data_type \<Rightarrow> acl_data \<Rightarrow> acl_data \<Rightarrow> bool" where
  "acl_paired R md d e e' \<longleftrightarrow>
     (if d = AD_OBJECT_ID \<and> acl_enable e then \<exists>y. R (acl_oid e) y \<and> e' = e\<lparr>acl_oid := y\<rparr>
      else if d = AD_OBJECT_LIST \<and> acl_enable e then \<exists>l. list_paired R (acl_objlist e) l \<and> e' = e\<lparr>acl_objlist := l\<rparr>
      else (d = AD_OBJECT_ID \<or> d = AD_OBJECT_LIST \<or> \<not> md_isoidattribute md) \<and> e' = e)"

definition value_paired :: "(oid \<Rightarrow> oid \<Rightarrow> bool) \<Rightarrow> attr_md \<Rightarrow> attr_value \<Rightarrow> attr_value \<Rightarrow> bool" where
  "value_paired R md v v' \<longleftrightarrow>
     (case md_attrvaluetype md of
        VT_OBJECT_ID \<Rightarrow> \<exists>y. R (v_oid v) y \<and> v' = v\<lparr>v_oid := y\<rparr>
      | VT_OBJECT_LIST \<Rightarrow> \<exists>l. list_paired R (v_objlist v) l \<and> v' = v\<lparr>v_objlist := l\<rparr>
      | VT_ACL_FIELD_DATA d \<Rightarrow> \<exists>e. acl_paired R md d (v_aclfield v) e \<and> v' = v\<lparr>v_aclfield := e\<rparr>
      | VT_ACL_ACTION_DATA d \<Rightarrow> \<exists>e. acl_paired R md d (v_aclaction v) e \<and> v' = v\<lparr>v_aclaction := e\<rparr>
      | _ \<Rightarrow> \<not> md_isoidattribute md \<and> v' = v)"

lemmas paired_defs = value_paired_def acl_paired_def

lemma acl_pairedE:
  assumes "acl_paired R md d e e'"
  obtains (oid) y where "d = AD_OBJECT_ID" "acl_enable e" "R (acl_oid e) y" "e' = e\<lparr>acl_oid := y\<rparr>"
    | (list) l where "d = AD_OBJECT_LIST" "acl_enable e" "list_paired R (acl_objlist e) l" "e' = e\<lparr>acl_objlist := l\<rparr>"
    | (same) "e' = e" "d = AD_OBJECT_ID \<or> d = AD_OBJECT_LIST \<Longrightarrow> \<not> acl_enable e"
        "d \<noteq> AD_OBJECT_ID \<Longrightarrow> d \<noteq> AD_OBJECT_LIST \<Longrightarrow> \<not> md_isoidattribute md"
  using assms unfolding acl_paired_def by (auto split: if_splits)

lemma ret_Inr: "ret x s = (Inr y, s') \<longleftrightarrow> y = x \<and> s' = s" "raise e s = (Inr y, s') \<longleftrightarrow> False"
  by (auto simp: ret_def raise_def)

definition attr_paired ::
  "sai_meta \<Rightarrow> object_type \<Rightarrow> (oid \<Rightarrow> oid \<Rightarrow> bool) \<Rightarrow> sai_attribute \<Rightarrow> sai_attribute \<Rightarrow> bool" where
  "attr_paired h t R a a' \<longleftrightarrow>
     (case get_attr_metadata h t (a_id a) of
        None \<Rightarrow> False
      | Some md \<Rightarrow> value_paired R md (a_value a) (a_value a') \<and> a' = a\<lparr>a_value := a_value a'\<rparr>)"

text \<open>A bound on the number of ids in an attribute.\<close>

fun list_size :: "'a sai_list \<Rightarrow> nat" where
  "list_size (Null_List n) = 0"
| "list_size (Sai_List xs) = length xs"

definition attr_ids :: "sai_attribute \<Rightarrow> nat" where
  "attr_ids a = 1 + list_size (v_objlist (a_value a)) + list_size (acl_objlist (v_aclfield (a_value a))) +
     list_size (acl_objlist (v_aclaction (a_value a)))"

locale id_translation = translation good later "\<lambda>_. 1" there undo paired
  for good :: "'s \<Rightarrow> nat \<Rightarrow> bool" and later and there :: "oid \<Rightarrow> ('s, oid) op" and undo and paired +
  assumes good_less: "good s n \<Longrightarrow> m \<le> n \<Longrightarrow> good s m"
begin

lemma sai_list_there:
  assumes "good s (list_size l + n)" "translate_list there l s = (Inr l', s')"
  shows "good s' n \<and> later s' s \<and> list_paired (paired s') l l'"
proof (cases l)
  case (Null_List k)
  with assms show ?thesis
    by (auto simp: translate_list_def op_defs list_paired_def later_refl split: if_splits)
next
  case (Sai_List xs)
  with assms(2) obtain ys where "mapM there xs s = (Inr ys, s')" "l' = Sai_List ys"
    by (auto simp: translate_list_def op_defs split: prod.splits sum.splits)
  with list_there [of s xs n ys s'] assms(1) Sai_List show ?thesis
    by (simp add: list_paired_def sum_list_triv)
qed

lemma sai_list_undo:
  assumes "good s n" "list_paired (paired s) l l'"
  shows "\<exists>s'. translate_list undo l' s = (Inr l, s') \<and> good s' n \<and> later s' s"
proof (cases l)
  case (Null_List k)
  with assms show ?thesis by (simp add: list_paired_def translate_list_def ret_def later_refl)
next
  case (Sai_List xs)
  with assms(2) obtain ys where ys: "l' = Sai_List ys" "list_all2 (paired s) xs ys" by (auto simp: list_paired_def)
  with list_undo [OF assms(1) ys(2)] Sai_List show ?thesis by (auto simp: translate_list_def op_defs)
qed

lemma sai_list_later: "list_paired (paired s) l l' \<Longrightarrow> later s' s \<Longrightarrow> list_paired (paired s') l l'"
  using list_later by (auto simp: list_paired_def split: sai_list.splits)

text \<open>The ways a value ends: an id or a list in it is replaced, or nothing is.\<close>

lemma there_oid:
  assumes "good s k" "n + 1 \<le> k" "seq (there x) (\<lambda>y. ret (c y)) s = (Inr r, s')"
  shows "good s' n \<and> later s' s \<and> (\<exists>y. paired s' x y \<and> r = c y)"
proof -
  from assms(3) obtain y where "there x s = (Inr y, s')" "r = c y"
    by (auto simp: op_defs split: prod.splits sum.splits)
  with there_paired [OF good_less [OF assms(1), of "1 + n"]] assms(2) show ?thesis by auto
qed

lemma there_list:
  assumes "good s k" "n + list_size l \<le> k" "seq (translate_list there l) (\<lambda>y. ret (c y)) s = (Inr r, s')"
  shows "good s' n \<and> later s' s \<and> (\<exists>y. list_paired (paired s') l y \<and> r = c y)"
proof -
  from assms(3) obtain y where "translate_list there l s = (Inr y, s')" "r = c y"
    by (auto simp: op_defs split: prod.splits sum.splits)
  with sai_list_there [OF good_less [OF assms(1), of "list_size l + n"]] assms(2) show ?thesis by auto
qed

lemma value_there:
  assumes "good s (attr_ids a + n)" "translate_value there md (a_value a) s = (Inr v', s')"
  shows "good s' n \<and> later s' s \<and> value_paired (paired s') md (a_value a) v'"
proof -
  note g = assms(1)
  have n: "good s n" using good_less [OF g] by simp
  note t = assms(2) [unfolded translate_value_def Let_def]
  have b: "n + 1 \<le> attr_ids a + n" "n + list_size (v_objlist (a_value a)) \<le> attr_ids a + n"
    "n + list_size (acl_objlist (v_aclfield (a_value a))) \<le> attr_ids a + n"
    "n + list_size (acl_objlist (v_aclaction (a_value a))) \<le> attr_ids a + n"
    by (simp_all add: attr_ids_def)
  note ends = there_oid [OF g b(1)] there_list [OF g b(2)] there_list [OF g b(3)] there_list [OF g b(4)]
  have keep: "good s' n \<and> later s' s" if "s' = s" using n later_refl that by simp
  show ?thesis
    using t keep
    by (auto simp: paired_defs ret_Inr dest!: ends split: value_type.splits if_splits)
qed

lemma value_undo:
  assumes "good s n" "value_paired (paired s) md v v'"
  shows "\<exists>s'. translate_value undo md v' s = (Inr v, s') \<and> good s' n \<and> later s' s"
proof (cases "md_attrvaluetype md")
  case VT_OBJECT_ID
  with assms(2) obtain y where y: "paired s (v_oid v) y" "v' = v\<lparr>v_oid := y\<rparr>" by (auto simp: value_paired_def)
  with undo_paired [OF assms(1) y(1)] VT_OBJECT_ID show ?thesis by (auto simp: translate_value_def Let_def op_defs)
next
  case VT_OBJECT_LIST
  with assms(2) obtain l where l: "list_paired (paired s) (v_objlist v) l" "v' = v\<lparr>v_objlist := l\<rparr>"
    by (auto simp: value_paired_def)
  with sai_list_undo [OF assms(1) l(1)] VT_OBJECT_LIST show ?thesis
    by (auto simp: translate_value_def Let_def op_defs)
next
  case (VT_ACL_FIELD_DATA d)
  with assms(2) obtain e where e: "acl_paired (paired s) md d (v_aclfield v) e" "v' = v\<lparr>v_aclfield := e\<rparr>"
    by (auto simp: value_paired_def)
  from e(1) show ?thesis
  proof (cases rule: acl_pairedE)
    case (oid y)
    from undo_paired [OF assms(1) oid(3)] oid VT_ACL_FIELD_DATA e(2) show ?thesis
      by (auto simp: translate_value_def Let_def op_defs)
  next
    case (list l)
    from sai_list_undo [OF assms(1) list(3)] list VT_ACL_FIELD_DATA e(2) show ?thesis
      by (auto simp: translate_value_def Let_def op_defs)
  next
    case same
    with VT_ACL_FIELD_DATA e(2) assms(1) later_refl show ?thesis by (auto simp: translate_value_def Let_def ret_def)
  qed
next
  case (VT_ACL_ACTION_DATA d)
  with assms(2) obtain e where e: "acl_paired (paired s) md d (v_aclaction v) e" "v' = v\<lparr>v_aclaction := e\<rparr>"
    by (auto simp: value_paired_def)
  from e(1) show ?thesis
  proof (cases rule: acl_pairedE)
    case (oid y)
    from undo_paired [OF assms(1) oid(3)] oid VT_ACL_ACTION_DATA e(2) show ?thesis
      by (auto simp: translate_value_def Let_def op_defs)
  next
    case (list l)
    from sai_list_undo [OF assms(1) list(3)] list VT_ACL_ACTION_DATA e(2) show ?thesis
      by (auto simp: translate_value_def Let_def op_defs)
  next
    case same
    with VT_ACL_ACTION_DATA e(2) assms(1) later_refl show ?thesis by (auto simp: translate_value_def Let_def ret_def)
  qed
qed (use assms in \<open>simp_all add: value_paired_def translate_value_def Let_def ret_def later_refl\<close>)

lemma value_mono:
  assumes "\<And>x y. R x y \<Longrightarrow> R' x y" "value_paired R md v v'"
  shows "value_paired R' md v v'"
proof -
  have "list_paired R' l l'" if "list_paired R l l'" for l l'
    using that list_all2_mono [of R _ _ R'] assms(1) by (auto simp: list_paired_def split: sai_list.splits)
  with assms have "acl_paired R' md d e e'" if "acl_paired R md d e e'" for d e e'
    using that unfolding acl_paired_def by (auto split: if_splits; blast)
  with assms \<open>\<And>l l'. list_paired R l l' \<Longrightarrow> list_paired R' l l'\<close> show ?thesis
    unfolding value_paired_def by (cases "md_attrvaluetype md") (auto; blast)+
qed

lemma value_later: "value_paired (paired s) md v v' \<Longrightarrow> later s' s \<Longrightarrow> value_paired (paired s') md v v'"
  by (rule value_mono) (rule paired_later)

lemma attr_there:
  assumes "good s (attr_ids a + n)" "translate_attr h there t a s = (Inr a', s')"
  shows "good s' n \<and> later s' s \<and> attr_paired h t (paired s') a a'"
proof -
  from assms(2) obtain md v' where md: "get_attr_metadata h t (a_id a) = Some md"
    and v: "translate_value there md (a_value a) s = (Inr v', s')" and a': "a' = a\<lparr>a_value := v'\<rparr>"
    by (auto simp: translate_attr_def op_defs split: option.splits prod.splits sum.splits)
  from value_there [OF assms(1) v] md show ?thesis by (simp add: attr_paired_def a')
qed

lemma attr_undo:
  assumes "good s n" "attr_paired h t (paired s) a a'"
  shows "\<exists>s'. translate_attr h undo t a' s = (Inr a, s') \<and> good s' n \<and> later s' s"
proof -
  from assms(2) obtain md where md: "get_attr_metadata h t (a_id a) = Some md"
    and v: "value_paired (paired s) md (a_value a) (a_value a')" and a': "a' = a\<lparr>a_value := a_value a'\<rparr>"
    by (auto simp: attr_paired_def split: option.splits)
  have "a_id a' = a_id a" by (subst a') simp
  moreover have "a'\<lparr>a_value := a_value a\<rparr> = a" by (subst a') simp
  ultimately show ?thesis using value_undo [OF assms(1) v] md by (auto simp: translate_attr_def op_defs)
qed

lemma attr_later: "attr_paired h t (paired s) a a' \<Longrightarrow> later s' s \<Longrightarrow> attr_paired h t (paired s') a a'"
  using value_later by (auto simp: attr_paired_def split: option.splits)

end

text \<open>So the translations of attributes are translations with inverse again.\<close>

sublocale id_translation \<subseteq> attrs: translation good later attr_ids "translate_attr h there t" "translate_attr h undo t"
  "\<lambda>s. attr_paired h t (paired s)" for h t
proof unfold_locales
  show "good s (attr_ids x + n) \<Longrightarrow> translate_attr h there t x s = (Inr y, s') \<Longrightarrow>
      good s' n \<and> later s' s \<and> attr_paired h t (paired s') x y" for s x n y s'
    by (rule attr_there)
  show "good s n \<Longrightarrow> attr_paired h t (paired s) x y \<Longrightarrow>
      \<exists>s'. translate_attr h undo t y s = (Inr x, s') \<and> good s' n \<and> later s' s" for s n x y
    by (rule attr_undo)
  show "attr_paired h t (paired s) x y \<Longrightarrow> later s' s \<Longrightarrow> attr_paired h t (paired s') x y" for s x y s'
    by (rule attr_later)
qed (rule later_refl, rule later_trans)

section \<open>Object ids\<close>

definition id_good ::
  "('db \<Rightarrow> string \<Rightarrow> u64) \<Rightarrow> 'db incrby \<Rightarrow> sai_meta \<Rightarrow> 'db translator \<Rightarrow> nat \<Rightarrow> bool" where
  "id_good stored incrby h s n \<longleftrightarrow> incrby_ok stored incrby \<and> headers_ok (sai_headers.truncate h) \<and>
     tr_inv stored h s \<and> issued stored s + n < 2 ^ 63"

definition id_paired :: "'db translator \<Rightarrow> oid \<Rightarrow> oid \<Rightarrow> bool" where
  "id_paired s r v \<longleftrightarrow> (if r = 0 then v = 0 else v \<noteq> 0 \<and> vid_known s r = v)"

lemma rid_to_vid_count:
  assumes "tr_inv stored h s" "incrby_ok stored incrby" "headers_ok (sai_headers.truncate h)" "issued stored s + 1 < 2 ^ 63"
  shows "issued stored (snd (translateRidToVid h incrby r sw b s)) \<le> issued stored s + 1"
  using translateRidToVid_cases [OF assms(1), of incrby r sw b]
proof
  let ?m = "m_virtualObjectIdManager s"
  assume "r \<noteq> 0 \<and> vid_known s r = 0 \<and> translateRidToVid h incrby r sw b s = translate_new_rid h incrby r sw s"
  moreover obtain x m' where a: "vid_allocateNewObjectId (sai_headers.truncate h) (redis_increment incrby)
      (objectTypeQuery h r) sw ?m = (x, m')" by fastforce
  have c: "redis_gen.count_of stored ?m + 1 < 2 ^ 63" using assms(4) by (simp add: issued_def Let_def)
  note redis_gen.issued_one_between(3) [OF assms(2,3) tr_invD(2) [OF assms(1)] c a]
  ultimately show ?thesis
    using a by (auto simp: translate_new_rid_def op_defs issued_def Let_def split: sum.split)
qed simp

interpretation ids: id_translation "id_good stored incrby h" extends
  "\<lambda>r. translateRidToVid h incrby r sw False" translateVidToRid id_paired
proof unfold_locales
  fix s r n v s'
  assume g: "id_good stored incrby h s (1 + n)" and t: "translateRidToVid h incrby r sw False s = (Inr v, s')"
  have inv: "tr_inv stored h s" "incrby_ok stored incrby" "headers_ok (sai_headers.truncate h)"
    "issued stored s + 1 < 2 ^ 63" using g by (auto simp: id_good_def)
  show "id_good stored incrby h s' n \<and> extends s' s \<and> id_paired s' r v"
  proof (cases "r = 0")
    case True
    then have "v = 0" "s' = s" using t by (auto simp: translateRidToVid_def)
    with True g show ?thesis by (simp add: id_good_def id_paired_def extends_refl)
  next
    case False
    note k = rid_to_vid [OF inv(1-3) False inv(4) t]
    have "issued stored s' \<le> issued stored s + 1" using rid_to_vid_count [OF inv, of r sw False] t by simp
    with k False g show ?thesis by (simp add: id_good_def id_paired_def)
  qed
next
  fix s n r v
  assume g: "id_good stored incrby h s n" and p: "id_paired s r v"
  have inv: "tr_inv stored h s" using g by (simp add: id_good_def)
  show "\<exists>s'. translateVidToRid v s = (Inr r, s') \<and> id_good stored incrby h s' n \<and> extends s' s"
  proof (cases "r = 0")
    case True
    with p g show ?thesis by (simp add: id_paired_def translateVidToRid_def extends_refl)
  next
    case False
    with p bijectiveD(1) [OF tr_invD(4) [OF inv], of r] have "rid_known s v = r" by (simp add: id_paired_def)
    with vid_to_rid [OF inv, of v] False g show ?thesis by (auto simp: id_good_def extends_def issued_def)
  qed
next
  show "id_paired s r v \<Longrightarrow> extends s' s \<Longrightarrow> id_paired s' r v" for s r v s'
    by (auto simp: id_paired_def extends_def split: if_splits)
next
  show "id_good stored incrby h s n \<Longrightarrow> m \<le> n \<Longrightarrow> id_good stored incrby h s m" for s n m
    by (simp add: id_good_def)
qed (rule extends_refl, rule extends_trans)

end
