(* ===== verification/Vid_Translator_Props.thy ===== *)
theory Vid_Translator_Props
  imports Vid_Translator_Attrs Meta_Demo
begin

text \<open>
  The properties of the translation of object ids, each applied on a small translator over the redis client.
\<close>

section \<open>A translator\<close>

definition demo_manager :: "(string \<Rightarrow> u64) redis_gen vid_manager" where
  "demo_manager = \<lparr>vm_globalContext = 0,
     vm_container = \<lparr>m_indexToConfig = [(0, \<lparr>m_switchIndex = 0, m_hardwareInfo = ''''\<rparr>)],
                     m_hwinfoToConfig = [('''', \<lparr>m_switchIndex = 0, m_hardwareInfo = ''''\<rparr>)]\<rparr>,
     vm_oidIndexGenerator = \<lparr>m_dbConnector = (\<lambda>_. 6), m_vidCounterName = ''VIDCOUNTER''\<rparr>,
     vm_switchIndexes = {0}\<rparr>"

definition demo_start :: "(string \<Rightarrow> u64) translator" where
  "demo_start = \<lparr>m_rid2vid = [], m_vid2rid = [], m_removedRid2vid = [],
     m_client = Redis \<lparr>VIDTORID = [], RIDTOVID = []\<rparr>, m_virtualObjectIdManager = demo_manager\<rparr>"

lemma demo_truncate: "sai_headers.truncate demo_meta = demo_hdr"
  by (simp add: sai_headers.truncate_def demo_meta_def demo_hdr_def)

lemma demo_hdr_ok: "headers_ok (sai_headers.truncate demo_meta)"
  unfolding demo_truncate by (auto simp: headers_ok_def demo_hdr_def word_le_nat_alt word_less_nat_alt)

lemma demo_start_reachable: "tr_reachable (\<lambda>db. db) demo_incrby demo_meta demo_start"
  unfolding demo_start_def by (rule tr_reachable.start) (simp_all add: demo_manager_def)

lemma demo_start_issued: "issued (\<lambda>db. db) demo_start = 6"
  by (simp add: issued_def demo_start_def demo_manager_def Let_def)

text \<open>Real ids of the vendor: a port, a virtual router and a queue.\<close>

definition demo_rid_port :: oid where "demo_rid_port = 0x0001000000000aaa"
definition demo_rid_vr :: oid where "demo_rid_vr = 0x0003000000000bbb"
definition demo_rid_queue :: oid where "demo_rid_queue = 0x0015000000000ccc"

lemmas demo_rids = demo_rid_port_def demo_rid_vr_def demo_rid_queue_def

lemma demo_objectTypeQuery: "objectTypeQuery demo_meta = redis_saiObjectTypeQuery demo_hdr"
  by (simp add: demo_meta_def)

lemma demo_alloc:
  "fst (vid_allocateNewObjectId demo_hdr (redis_increment demo_incrby) (redis_saiObjectTypeQuery demo_hdr demo_rid_port)
     demo_switch demo_manager) = Inr 0x0001000000000007"
  by code_simp

lemma demo_new:
  "fst (translate_new_rid demo_meta demo_incrby demo_rid_port demo_switch demo_start) = Inr 0x0001000000000007"
proof -
  have "redis_saiObjectTypeQuery demo_hdr demo_rid_port = 1" by code_simp
  then show ?thesis using demo_alloc
    by (simp add: translate_new_rid_def demo_objectTypeQuery demo_truncate op_defs demo_start_def split_beta
      split: sum.split)
qed

lemma demo_to_vid:
  "fst (translateRidToVid demo_meta demo_incrby demo_rid_port demo_switch False demo_start) = Inr 0x0001000000000007"
  using demo_new by (simp add: translateRidToVid_def demo_start_def hget_oid_def demo_rids)

section \<open>What the calls answer\<close>

lemma try_vid:
  assumes "tr_inv stored h s"
  shows "tryTranslateRidToVid r s = (Inr (if r = 0 then (True, 0) else (vid_known s r \<noteq> 0, vid_known s r)), s)"
  using client.get_eq(1) [OF tr_invD(1) [OF assms], of r] tr_invD(3) [OF assms]
  by (auto simp: tryTranslateRidToVid_def vid_known_def local_ok_def split: option.split)

lemma try_rid:
  assumes "tr_inv stored h s"
  shows "fst (tryTranslateVidToRid v s) = Inr (if v = 0 then (True, 0) else (rid_known s v \<noteq> 0, rid_known s v))"
  using client.get_eq(2) [OF tr_invD(1) [OF assms], of v] tr_invD(3) [OF assms]
  by (auto simp: tryTranslateVidToRid_def rid_known_def local_ok_def split: option.split)

lemma to_rid_eq:
  assumes "tr_inv stored h s" "rid_known s v = 0" "v \<noteq> 0"
  shows "translateVidToRid v s =
    (if isRedisEnabled (m_client s) then Inl (Throw ''unable to get RID for VID'') else Inr 0, s)"
proof -
  have "map_of (m_vid2rid s) v = None"
    using assms(2) tr_invD(3) [OF assms(1)] by (auto simp: rid_known_def local_ok_def split: option.splits)
  then show ?thesis
    using client.get_eq(2) [OF tr_invD(1) [OF assms(1)], of v] assms(2,3)
    by (simp add: translateVidToRid_def rid_known_def)
qed

section \<open>The two directions are inverse\<close>

text \<open>
C22 the translation is one to one. In every reachable state, a real id translates to a virtual id exactly
when this virtual id translates back to it, through whichever mix of local maps and database the two
answers come; so no two real ids share a virtual id and the other way round.
\<close>
theorem translations_inverse:
  assumes "incrby_ok stored incrby" and "headers_ok (sai_headers.truncate h)"
    and "tr_reachable stored incrby h s"
  shows "fst (tryTranslateRidToVid r s) = Inr (True, v) \<longleftrightarrow> fst (tryTranslateVidToRid v s) = Inr (True, r)"
proof -
  have inv: "tr_inv stored h s" by (rule reachable_inv [OF assms])
  note b = bijectiveD [OF tr_invD(4) [OF inv]]
  show ?thesis
    using b(1,3) [of r] b(2,4) [of v] by (auto simp: try_vid [OF inv] try_rid [OF inv])
qed

lemma demo_tr1_reachable:
  "tr_reachable (\<lambda>db. db) demo_incrby demo_meta
     (snd (translateRidToVid demo_meta demo_incrby demo_rid_port demo_switch False demo_start))"
  by (rule tr_reachable.step [OF demo_start_reachable tr_step.to_vid]) (simp add: demo_start_issued)

theorem translations_inverse_witness:
  "let s = snd (translateRidToVid demo_meta demo_incrby demo_rid_port demo_switch False demo_start)
   in fst (tryTranslateRidToVid demo_rid_port s) = Inr (True, 0x0001000000000007) \<longleftrightarrow>
      fst (tryTranslateVidToRid 0x0001000000000007 s) = Inr (True, demo_rid_port)"
  unfolding Let_def
  by (rule translations_inverse [OF demo_incrby_ok demo_hdr_ok demo_tr1_reachable])

text \<open>
Round trip of a translation. When \<open>translateRidToVid\<close> answers, for an id known or for one it has just
allocated a virtual id for, translating the answer back gives the real id, and translating the real id
again gives the same answer, for any switch and with or without removed ids.
\<close>
theorem translate_roundtrip:
  assumes "incrby_ok stored incrby" and "headers_ok (sai_headers.truncate h)"
    and "tr_reachable stored incrby h s" and "issued stored s + 1 < 2 ^ 63"
    and "translateRidToVid h incrby r sw False s = (Inr v, s')"
  shows "fst (translateVidToRid v s') = Inr r \<and> translateRidToVid h incrby r sw' removed s' = (Inr v, s')"
proof (cases "r = 0")
  case True
  with assms(5) show ?thesis by (auto simp: translateRidToVid_def translateVidToRid_def)
next
  case False
  note t = rid_to_vid [OF reachable_inv [OF assms(1-3)] assms(1,2) False assms(4,5)]
  have "rid_known s' v = r" using bijectiveD(1) [OF tr_invD(4) [OF t(1)], of r] t(2,3) by simp
  with vid_to_rid [OF t(1), of v] False have "fst (translateVidToRid v s') = Inr r" by auto
  with translate_known [OF t(1), of r] t(2,3) show ?thesis by simp
qed

theorem translate_roundtrip_witness:
  "let s' = snd (translateRidToVid demo_meta demo_incrby demo_rid_port demo_switch False demo_start)
   in fst (translateVidToRid 0x0001000000000007 s') = Inr demo_rid_port \<and>
      translateRidToVid demo_meta demo_incrby demo_rid_port 0 True s' = (Inr 0x0001000000000007, s')"
  unfolding Let_def
proof (rule translate_roundtrip [OF demo_incrby_ok demo_hdr_ok demo_start_reachable])
  show "issued (\<lambda>db. db) demo_start + 1 < 2 ^ 63" by (simp add: demo_start_issued)
  show "translateRidToVid demo_meta demo_incrby demo_rid_port demo_switch False demo_start =
    (Inr 0x0001000000000007, snd (translateRidToVid demo_meta demo_incrby demo_rid_port demo_switch False demo_start))"
    by (simp add: prod_eq_iff demo_to_vid)
qed

text \<open>
C23 translations keep the type. The virtual id a real id translates to has, read from its bits, the
object type the vendor reports for the real id.
\<close>
theorem translated_type:
  assumes "incrby_ok stored incrby" and "headers_ok (sai_headers.truncate h)"
    and "tr_reachable stored incrby h s" and "issued stored s + 1 < 2 ^ 63" and "r \<noteq> 0"
    and "translateRidToVid h incrby r sw False s = (Inr v, s')"
  shows "redis_objectTypeQuery (sai_headers.truncate h) v = objectTypeQuery h r"
proof -
  note t = rid_to_vid [OF reachable_inv [OF assms(1-3)] assms(1,2,5,4,6)]
  from tr_invD(6) [OF t(1), of r] t(2,3) show ?thesis by simp
qed

theorem translated_type_witness:
  "redis_objectTypeQuery (sai_headers.truncate demo_meta) 0x0001000000000007 = objectTypeQuery demo_meta demo_rid_port"
proof (rule translated_type [OF demo_incrby_ok demo_hdr_ok demo_start_reachable])
  show "issued (\<lambda>db. db) demo_start + 1 < 2 ^ 63" by (simp add: demo_start_issued)
  show "demo_rid_port \<noteq> 0" by (simp add: demo_rids)
  show "translateRidToVid demo_meta demo_incrby demo_rid_port demo_switch False demo_start =
    (Inr 0x0001000000000007, snd (translateRidToVid demo_meta demo_incrby demo_rid_port demo_switch False demo_start))"
    by (simp add: prod_eq_iff demo_to_vid)
qed

text \<open>
C24 round trip of attribute lists. Whatever ids an attribute list holds, in object ids, object lists and
the enabled data and parameters of ACL fields and actions, after \<open>translateRidToVid\<close> has translated the
list for a client \<open>translateVidToRid\<close> of the result is the list of the vendor again, null ids, empty
lists and attributes without ids included.
\<close>
theorem attributes_roundtrip:
  assumes "incrby_ok stored incrby" and "headers_ok (sai_headers.truncate h)"
    and "tr_reachable stored incrby h s" and "issued stored s + sum_list (map attr_ids attrs) < 2 ^ 63"
    and "translateRidToVid_attrs h incrby t sw attrs False s = (Inr attrs', s')"
  shows "fst (translateVidToRid_attrs h t attrs' s') = Inr attrs"
  unfolding translateVidToRid_attrs_def
proof (rule ids.attrs.round_trip)
  show "id_good stored incrby h s (sum_list (map attr_ids attrs))"
    using assms(1,2,4) reachable_inv [OF assms(1-3)] by (simp add: id_good_def)
  show "mapM (translate_attr h (\<lambda>r. translateRidToVid h incrby r sw False) t) attrs s = (Inr attrs', s')"
    using assms(5) by (simp add: translateRidToVid_attrs_def)
qed

definition demo_attr :: "oid \<Rightarrow> sai_attribute" where
  "demo_attr x = \<lparr>a_id = 2, a_value = demo_value\<lparr>v_oid := x\<rparr>\<rparr>"

theorem attributes_roundtrip_witness:
  "fst (translateVidToRid_attrs demo_meta 1 [demo_attr 0x0001000000000007, demo_attr 0]
     (snd (translateRidToVid_attrs demo_meta demo_incrby 1 demo_switch [demo_attr demo_rid_port, demo_attr 0] False demo_start))) =
   Inr [demo_attr demo_rid_port, demo_attr 0]"
proof (rule attributes_roundtrip [OF demo_incrby_ok demo_hdr_ok demo_start_reachable])
  let ?attrs = "[demo_attr demo_rid_port, demo_attr 0]"
  show "issued (\<lambda>db. db) demo_start + sum_list (map attr_ids ?attrs) < 2 ^ 63"
    by (simp add: demo_start_issued attr_ids_def demo_attr_def demo_value_def)
  have md: "demo_get_attr_metadata 1 2 = Some ((demo_md 1 2 ''VR'' VT_OBJECT_ID)\<lparr>md_isoidattribute := True\<rparr>)"
    by (simp add: demo_get_attr_metadata_def demo_attrs_def demo_md_def)
  have one: "translate_attr demo_meta f 1 (demo_attr x) = seq (f x) (\<lambda>y. ret (demo_attr y))"
    for f :: "oid \<Rightarrow> ((string \<Rightarrow> u64) translator, oid) op" and x
    by (rule ext) (auto simp: translate_attr_def demo_attr_def md translate_value_def Let_def demo_md_def op_defs
        split: prod.split sum.split)
  have "fst (translateRidToVid_attrs demo_meta demo_incrby 1 demo_switch ?attrs False demo_start) =
    Inr [demo_attr 0x0001000000000007, demo_attr 0]"
    using demo_to_vid
    by (auto simp: translateRidToVid_attrs_def one seq_def ret_def translateRidToVid_def [where rid = 0]
        split: prod.splits sum.splits)
  then show "translateRidToVid_attrs demo_meta demo_incrby 1 demo_switch ?attrs False demo_start =
    (Inr [demo_attr 0x0001000000000007, demo_attr 0],
     snd (translateRidToVid_attrs demo_meta demo_incrby 1 demo_switch ?attrs False demo_start))"
    by (simp add: prod_eq_iff)
qed

section \<open>Removed ids\<close>

text \<open>
a removed pair is forgotten, but for the calls that ask for removed ids. After
\<open>eraseRidAndVid\<close> of a pair the real id is unknown, and known again to \<open>checkRidExists\<close> and
\<open>translateRidToVid\<close> with the flag for removed ids, which answer the virtual id it had without a new
allocation; the virtual id cannot be translated any more.
\<close>
theorem erased_pair:
  assumes "incrby_ok stored incrby" and "headers_ok (sai_headers.truncate h)"
    and "tr_reachable stored incrby h s" and "r \<noteq> 0" and "tryTranslateRidToVid r s = (Inr (True, v), s)"
    and "eraseRidAndVid r v s = (Inr (), s')"
  shows "tryTranslateRidToVid r s' = (Inr (False, 0), s') \<and>
    checkRidExists s' r False = Inr False \<and> checkRidExists s' r True = Inr True \<and>
    translateRidToVid h incrby r sw True s' = (Inr v, s') \<and>
    translateVidToRid v s' =
      (if isRedisEnabled (m_client s') then Inl (Throw ''unable to get RID for VID'') else Inr 0, s')"
proof -
  have inv: "tr_inv stored h s" by (rule reachable_inv [OF assms(1-3)])
  have v: "vid_known s r = v" "v \<noteq> 0" using assms(4,5) by (auto simp: try_vid [OF inv])
  have s': "s' = drop_pair r v s" using assms(6) by (simp add: pair_ops modify_def)
  have inv': "tr_inv stored h s'" unfolding s' by (rule drop_pair_inv [OF inv v])
  have u: "vid_known s' r = 0" "rid_known s' v = 0"
    by (simp_all add: s' drop_pair_known [OF tr_invD(1) [OF inv]])
  have m: "map_of (m_rid2vid s') r = None" "map_of (m_removedRid2vid s') r = Some v"
    by (simp_all add: s' drop_pair_def)
  have c: "getVidForRid (m_client s') r = Inr 0"
    using client.get_eq(1) [OF tr_invD(1) [OF inv'], of r] u(1) m(1) by (simp add: vid_known_def)
  show ?thesis
    using try_vid [OF inv', of r] to_rid_eq [OF inv' u(2) v(2)] u(1) m c assms(4)
    by (simp add: checkRidExists_def translateRidToVid_def has_key_def)
qed

theorem erased_pair_witness:
  "let s = snd (translateRidToVid demo_meta demo_incrby demo_rid_port demo_switch False demo_start);
       v = 0x0001000000000007;
       s' = snd (eraseRidAndVid demo_rid_port v s)
   in tryTranslateRidToVid demo_rid_port s' = (Inr (False, 0), s') \<and>
      checkRidExists s' demo_rid_port False = Inr False \<and> checkRidExists s' demo_rid_port True = Inr True \<and>
      translateRidToVid demo_meta demo_incrby demo_rid_port 0 True s' = (Inr v, s') \<and>
      translateVidToRid v s' =
        (if isRedisEnabled (m_client s') then Inl (Throw ''unable to get RID for VID'') else Inr 0, s')"
  unfolding Let_def
proof (rule erased_pair [OF demo_incrby_ok demo_hdr_ok demo_tr1_reachable])
  let ?s = "snd (translateRidToVid demo_meta demo_incrby demo_rid_port demo_switch False demo_start)"
  show "demo_rid_port \<noteq> 0" by (simp add: demo_rids)
  have "translateRidToVid demo_meta demo_incrby demo_rid_port demo_switch False demo_start = (Inr 0x0001000000000007, ?s)"
    by (simp add: prod_eq_iff demo_to_vid)
  from rid_to_vid [OF reachable_inv [OF demo_incrby_ok demo_hdr_ok demo_start_reachable] demo_incrby_ok demo_hdr_ok _ _ this]
  show "tryTranslateRidToVid demo_rid_port ?s = (Inr (True, 0x0001000000000007), ?s)"
    by (simp only: try_vid [OF reachable_inv [OF demo_incrby_ok demo_hdr_ok demo_tr1_reachable]])
      (simp add: demo_start_issued demo_rids)
  show "eraseRidAndVid demo_rid_port 0x0001000000000007 ?s =
    (Inr (), snd (eraseRidAndVid demo_rid_port 0x0001000000000007 ?s))"
    by (simp add: eraseRidAndVid_def modify_def)
qed

section \<open>Batches\<close>

text \<open>One by one: the new ids in order, merged with the known ones.\<close>

lemma allocate_each_Cons:
  "fst (vid_allocate_each H inc sw (t # ts) m) = Inr vs \<Longrightarrow>
     \<exists>v vs' m'. vs = v # vs' \<and> vid_allocateNewObjectId H inc t sw m = (Inr v, m') \<and>
       fst (vid_allocate_each H inc sw ts m') = Inr vs'"
  by (auto simp: seq_def ret_def split: prod.splits sum.splits)

lemma mapM_Cons_fst:
  "f x s = (Inr y, s') \<Longrightarrow> fst (mapM f xs s') = Inr ys \<Longrightarrow> fst (mapM f (x # xs) s) = Inr (y # ys)"
  by (auto simp: seq_def ret_def split: prod.split sum.split)

lemma translate_each:
  assumes "incrby_ok stored incrby" "headers_ok (sai_headers.truncate h)"
  shows "tr_inv stored h s \<Longrightarrow> distinct rids \<Longrightarrow> 0 \<notin> set rids \<Longrightarrow> issued stored s + length rids < 2 ^ 63 \<Longrightarrow>
    fst (vid_allocate_each (sai_headers.truncate h) (redis_increment incrby) sw
       (map (objectTypeQuery h) (filter (\<lambda>r. vid_known s r = 0) rids)) (m_virtualObjectIdManager s)) = Inr vs \<Longrightarrow>
    fst (mapM (\<lambda>r. translateRidToVid h incrby r sw False) rids s) = Inr (map snd (merge_new (vid_known s) rids vs))"
proof (induction rids arbitrary: s vs)
  case Nil
  then show ?case by (simp add: ret_def)
next
  case (Cons r rids)
  let ?H = "sai_headers.truncate h"
  show ?case
  proof (cases "vid_known s r = 0")
    case False
    have "fst (mapM (\<lambda>r. translateRidToVid h incrby r sw False) rids s) = Inr (map snd (merge_new (vid_known s) rids vs))"
      by (rule Cons.IH) (use Cons.prems False in simp_all)
    from mapM_Cons_fst [where f = "\<lambda>r. translateRidToVid h incrby r sw False", OF translate_known [OF Cons.prems(1) False] this]
    show ?thesis using False by simp
  next
    case True
    from Cons.prems(5) True have "fst (vid_allocate_each ?H (redis_increment incrby) sw
         (objectTypeQuery h r # map (objectTypeQuery h) (filter (\<lambda>r. vid_known s r = 0) rids))
         (m_virtualObjectIdManager s)) = Inr vs" by simp
    from allocate_each_Cons [OF this] obtain v vs' m' where vs: "vs = v # vs'"
      and a: "vid_allocateNewObjectId ?H (redis_increment incrby) (objectTypeQuery h r) sw (m_virtualObjectIdManager s) = (Inr v, m')"
      and rest: "fst (vid_allocate_each ?H (redis_increment incrby) sw
         (map (objectTypeQuery h) (filter (\<lambda>r. vid_known s r = 0) rids)) m') = Inr vs'"
      by blast
    have "alloc_type ?H (objectTypeQuery h r)" 
      using alloc_throws [of ?H "objectTypeQuery h r" sw "redis_increment incrby" "m_virtualObjectIdManager s"] a by auto
    then have "objectTypeQuery h r \<noteq> 0" "objectTypeQuery h r \<noteq> ot_switch h"
      using headers_okD(1) [OF assms(2)] by (auto simp: alloc_type_def sai_headers.defs)
    then have n: "translate_new_rid h incrby r sw s = (Inr v, add_pair r v (s\<lparr>m_virtualObjectIdManager := m'\<rparr>))"
      using a by (simp add: translate_new_rid_def op_defs add_pair_def)
    let ?s1 = "add_pair r v (s\<lparr>m_virtualObjectIdManager := m'\<rparr>)"
    have r0: "r \<noteq> 0" and b: "issued stored s + 1 < 2 ^ 63" using Cons.prems(3,4) by auto
    note t = translate_new [OF Cons.prems(1) assms r0 True b n]
    have k: "vid_known ?s1 x = vid_known s x" if "x \<in> set rids" for x
      using that Cons.prems(2) by (auto simp: t(2))
    have f: "filter (\<lambda>x. vid_known ?s1 x = 0) rids = filter (\<lambda>x. vid_known s x = 0) rids"
      by (rule filter_cong [OF refl]) (simp only: k)
    have m: "m_virtualObjectIdManager ?s1 = m'" by (simp add: add_pair_def)
    have "redis_gen.count_of stored (m_virtualObjectIdManager s) + 1 < 2 ^ 63"
      using b by (simp add: issued_def Let_def)
    from redis_gen.issued_one_between(3) [OF assms tr_invD(2) [OF Cons.prems(1)] this a]
    have c: "issued stored ?s1 + length rids < 2 ^ 63"
      using Cons.prems(4) by (simp add: issued_def Let_def m)
    have "fst (mapM (\<lambda>r. translateRidToVid h incrby r sw False) rids ?s1) = Inr (map snd (merge_new (vid_known ?s1) rids vs'))"
      by (rule Cons.IH [OF t(1) _ _ c]) (use Cons.prems rest in \<open>simp_all add: f m\<close>)
    moreover have "merge_new (vid_known ?s1) rids vs' = merge_new (vid_known s) rids vs'"
      by (rule merge_new_cong) (rule k)
    ultimately show ?thesis
      using mapM_Cons_fst [where f = "\<lambda>r. translateRidToVid h incrby r sw False",
          OF trans [OF translate_unknown [OF Cons.prems(1) True r0] n]] True
      by (simp add: vs)
  qed
qed

text \<open>
C25 a batch is the sequence of its single translations. \<open>translateRidsToVids\<close>, which asks the database
once, allocates the missing ids in one command and fills them in, gives for distinct real ids exactly
what \<open>translateRidToVid\<close> on one after the other gives, while object indexes last.
\<close>
theorem batch_translation_equals_singles:
  assumes "incrby_ok stored incrby" and "headers_ok (sai_headers.truncate h)"
    and "tr_reachable stored incrby h s" and "distinct rids" and "0 \<notin> set rids"
    and "issued stored s + length rids < 2 ^ 39"
    and "fst (translateRidsToVids h incrby sw rids s) = Inr vids"
  shows "fst (mapM (\<lambda>r. translateRidToVid h incrby r sw False) rids s) = Inr vids"
proof -
  let ?H = "sai_headers.truncate h"
  have inv: "tr_inv stored h s" by (rule reachable_inv [OF assms(1-3)])
  let ?ts = "map (objectTypeQuery h) (filter (\<lambda>r. vid_known s r = 0) rids)"
  let ?m = "m_virtualObjectIdManager s"
  from assms(7) [unfolded translateRidsToVids_eq [OF tr_invD(1,3) [OF inv]]]
  obtain vs where alloc: "fst (vid_allocateNewObjectIds ?H (redis_incrementBy incrby) sw ?ts ?m) = Inr vs"
    and fill: "fill_new (map (vid_known s) rids) vs = Inr vids"
    by (auto simp: Let_def split: if_splits prod.splits sum.splits)
  have len: "redis_gen.count_of stored ?m + length ?ts < 2 ^ 39"
    using assms(6) [THEN le_less_trans [OF add_left_mono [OF length_filter_le]]] by (simp add: issued_def Let_def)
  have each: "fst (vid_allocate_each ?H (redis_increment incrby) sw ?ts ?m) = Inr vs"
  proof (cases "?ts = []")
    case True
    with alloc show ?thesis by (simp add: vid_allocateNewObjectIds_def ret_def)
  next
    case False
    with batch_throws [OF False, of ?H sw "redis_incrementBy incrby" ?m] alloc
    have "redis_objectTypeQuery ?H sw = ot_switch ?H" "list_all (alloc_type ?H) ?ts" by force+
    from redis_gen.batch_eq_each [OF assms(1) this len] alloc show ?thesis by simp
  qed
  from len have "redis_gen.count_of stored ?m + length ?ts < 2 ^ 63" by simp
  moreover obtain m' where "vid_allocateNewObjectIds ?H (redis_incrementBy incrby) sw ?ts ?m = (Inr vs, m')"
    using alloc by (metis prod.collapse)
  ultimately have "list_all2 (\<lambda>t v. v \<noteq> 0 \<and> redis_objectTypeQuery ?H v = t) ?ts vs"
    by (rule redis_gen.alloc_all_types [OF assms(1,2) tr_invD(2) [OF inv]])
  then have "length vs = length (filter (\<lambda>r. vid_known s r = 0) rids)" by (auto dest: list_all2_lengthD)
  from fill_new_merge [OF this] fill have "vids = map snd (merge_new (vid_known s) rids vs)" by simp
  with translate_each [OF assms(1,2) inv assms(4,5) _ each] assms(6) show ?thesis by simp
qed

abbreviation demo_batch :: "oid list" where
  "demo_batch \<equiv> [demo_rid_port, demo_rid_vr, demo_rid_queue]"

lemma demo_start_known: "vid_known demo_start r = 0"
  by (simp add: vid_known_def demo_start_def client.vid_of_def hget_oid_def)

lemma demo_batch_vids:
  "fst (translateRidsToVids demo_meta demo_incrby demo_switch demo_batch demo_start) =
     Inr [0x0001000000000007, 0x0003000000000008, 0x0015000000000009]"
proof -
  have "fst (vid_allocateNewObjectIds demo_hdr (redis_incrementBy demo_incrby) demo_switch
      (map (redis_saiObjectTypeQuery demo_hdr) demo_batch) demo_manager) =
    Inr [0x0001000000000007, 0x0003000000000008, 0x0015000000000009]"
    by code_simp
  moreover note inv = reachable_inv [OF demo_incrby_ok demo_hdr_ok demo_start_reachable]
  ultimately show ?thesis
    by (simp add: translateRidsToVids_eq [OF tr_invD(1,3) [OF inv]] demo_start_known demo_truncate
        demo_objectTypeQuery Let_def split_beta split: sum.split)
      (auto simp: demo_start_def)
qed

theorem batch_translation_equals_singles_witness:
  "fst (mapM (\<lambda>r. translateRidToVid demo_meta demo_incrby r demo_switch False) demo_batch demo_start) =
     Inr [0x0001000000000007, 0x0003000000000008, 0x0015000000000009]"
  by (rule batch_translation_equals_singles [OF demo_incrby_ok demo_hdr_ok demo_start_reachable _ _ _ demo_batch_vids])
    (simp_all add: demo_rids demo_start_issued)

text \<open>
a real id twice in one batch. \<open>translateRidsToVids\<close> does not notice that a new real id is repeated: it
allocates a virtual id for each occurrence, both translate back to the real id, and only the second is
what the real id translates to from then on.
\<close>
theorem batch_duplicate_two_vids:
  assumes "incrby_ok stored incrby" and "headers_ok (sai_headers.truncate h)"
    and "tr_reachable stored incrby h s" and "r \<noteq> 0" and "issued stored s + 2 < 2 ^ 63"
    and "fst (tryTranslateRidToVid r s) = Inr (False, 0)"
    and "translateRidsToVids h incrby sw [r, r] s = (Inr vids, s')"
  shows "\<exists>v1 v2. vids = [v1, v2] \<and> v1 \<noteq> v2 \<and>
    fst (translateVidToRid v1 s') = Inr r \<and> fst (translateVidToRid v2 s') = Inr r \<and>
    fst (tryTranslateRidToVid r s') = Inr (True, v2)"
proof -
  let ?H = "sai_headers.truncate h"
  have inv: "tr_inv stored h s" by (rule reachable_inv [OF assms(1-3)])
  have u: "vid_known s r = 0" using assms(4,6) by (simp add: try_vid [OF inv])
  let ?ts = "[objectTypeQuery h r, objectTypeQuery h r]"
  from assms(7) [unfolded translateRidsToVids_eq [OF tr_invD(1,3) [OF inv]]] u
  obtain vs m' where alloc: "vid_allocateNewObjectIds ?H (redis_incrementBy incrby) sw ?ts
      (m_virtualObjectIdManager s) = (Inr vs, m')"
    and fill: "fill_new [0, 0] vs = Inr vids"
    and s': "s' = cache_pairs (zip [r, r] vids)
      (s\<lparr>m_virtualObjectIdManager := m', m_client := insertVidsAndRids (zip vs [r, r]) (m_client s)\<rparr>)"
    by (auto simp: Let_def split: prod.splits sum.splits)
  have b: "redis_gen.count_of stored (m_virtualObjectIdManager s) + length ?ts < 2 ^ 63"
    using assms(5) by (simp add: issued_def Let_def)
  from redis_gen.alloc_all_types [OF assms(1,2) tr_invD(2) [OF inv] b alloc]
  obtain v1 v2 where vs: "vs = [v1, v2]" "v1 \<noteq> 0" "v2 \<noteq> 0" by (auto simp: list_all2_Cons1)
  from redis_gen.issued_all_between [OF assms(1,2) tr_invD(2) [OF inv] b alloc]
  have "v1 \<noteq> v2" by (simp add: redis_gen.issued_between_def issued_all_def vs)
  moreover have "vids = [v1, v2]" using fill vs by simp
  ultimately show ?thesis
    using vs assms(4) by (simp add: s' translateVidToRid_def tryTranslateRidToVid_def)
qed

theorem batch_duplicate_two_vids_witness:
  "let s' = snd (translateRidsToVids demo_meta demo_incrby demo_switch [demo_rid_port, demo_rid_port] demo_start)
   in \<exists>v1 v2. [0x0001000000000007, 0x0001000000000008] = [v1, v2] \<and> v1 \<noteq> v2 \<and>
      fst (translateVidToRid v1 s') = Inr demo_rid_port \<and> fst (translateVidToRid v2 s') = Inr demo_rid_port \<and>
      fst (tryTranslateRidToVid demo_rid_port s') = Inr (True, v2)"
  unfolding Let_def
proof (rule batch_duplicate_two_vids [OF demo_incrby_ok demo_hdr_ok demo_start_reachable])
  note inv = reachable_inv [OF demo_incrby_ok demo_hdr_ok demo_start_reachable]
  show "demo_rid_port \<noteq> 0" "issued (\<lambda>db. db) demo_start + 2 < 2 ^ 63"
    by (simp_all add: demo_rids demo_start_issued)
  show "fst (tryTranslateRidToVid demo_rid_port demo_start) = Inr (False, 0)"
    by (simp only: try_vid [OF inv]) (simp add: demo_start_known demo_rids)
  have "fst (vid_allocateNewObjectIds demo_hdr (redis_incrementBy demo_incrby) demo_switch
      (map (redis_saiObjectTypeQuery demo_hdr) [demo_rid_port, demo_rid_port]) demo_manager) =
    Inr [0x0001000000000007, 0x0001000000000008]"
    by code_simp
  then have "fst (translateRidsToVids demo_meta demo_incrby demo_switch [demo_rid_port, demo_rid_port] demo_start) =
    Inr [0x0001000000000007, 0x0001000000000008]"
    by (simp add: translateRidsToVids_eq [OF tr_invD(1,3) [OF inv]] demo_start_known demo_truncate
        demo_objectTypeQuery Let_def split_beta split: sum.split)
      (auto simp: demo_start_def)
  then show "translateRidsToVids demo_meta demo_incrby demo_switch [demo_rid_port, demo_rid_port] demo_start =
    (Inr [0x0001000000000007, 0x0001000000000008],
     snd (translateRidsToVids demo_meta demo_incrby demo_switch [demo_rid_port, demo_rid_port] demo_start))"
    by (simp add: prod_eq_iff)
qed

end
