(* ===== verification/Notification_Queue.thy ===== *)
theory Notification_Queue
  imports Prelude "HOL-Library.Word"
begin

text \<open>
  \<open>syncd/NotificationQueue.cpp\<close>: the queue between the vendor's notification callbacks and the thread that
  processes them, with the rule by which it drops notifications once it is long; the contract of such a
  queue; and how long the rule lets the queue grow.
\<close>

section \<open>The queue\<close>

text \<open>
  A \<open>swss::KeyOpFieldsValuesTuple\<close> with the data that may come with it. The counters are \<open>size_t\<close>; the
  size of the \<open>std::queue\<close> is the length of a list. The name of the FDB event notification is a constant
  of the SAI headers and an argument \<open>fdb\<close> here.
\<close>

record 'x notification_item =
  kfvKey :: string
  kfvOp :: string
  kfvFieldsValues :: "(string \<times> string) list"
  auxiliary_data :: "'x option"

record 'x notification_queue =
  m_queue :: "'x notification_item list"
  m_queueSizeLimit :: "64 word"
  m_thresholdLimit :: "64 word"
  m_dropCount :: "64 word"
  m_lastEventCount :: "64 word"
  m_lastEvent :: string

definition nq_new :: "string \<Rightarrow> 64 word \<Rightarrow> 64 word \<Rightarrow> 'x notification_queue" where
  "nq_new fdb queueLimit consecutiveThresholdLimit =
     \<lparr>m_queue = [], m_queueSizeLimit = queueLimit, m_thresholdLimit = consecutiveThresholdLimit,
       m_dropCount = 0, m_lastEventCount = 0, m_lastEvent = fdb\<rparr>"

text \<open>Counting events of one kind in a row.\<close>

definition nq_count :: "string \<Rightarrow> 'x notification_queue \<Rightarrow> 'x notification_queue" where
  "nq_count currentEvent q =
     (if currentEvent = m_lastEvent q then q\<lparr>m_lastEventCount := m_lastEventCount q + 1\<rparr>
      else q\<lparr>m_lastEventCount := 1, m_lastEvent := currentEvent\<rparr>)"

definition nq_enqueue ::
  "string \<Rightarrow> 'x notification_item \<Rightarrow> 'x notification_queue \<Rightarrow> bool \<times> 'x notification_queue" where
  "nq_enqueue fdb item q =
     (let currentEvent = kfvKey item;
          q1 = nq_count currentEvent q;
          candidateToDrop = (unat (m_queueSizeLimit q) \<le> length (m_queue q) \<and>
            (currentEvent = fdb \<or> m_thresholdLimit q \<le> m_lastEventCount q1))
      in if \<not> candidateToDrop then (True, q1\<lparr>m_queue := m_queue q @ [item]\<rparr>)
         else (False, q1\<lparr>m_dropCount := m_dropCount q + 1\<rparr>))"

text \<open>The queue that got empty is replaced by a new one, which only matters for memory.\<close>

definition nq_tryDequeue :: "'x notification_queue \<Rightarrow> 'x notification_item option \<times> 'x notification_queue" where
  "nq_tryDequeue q =
     (case m_queue q of
        [] \<Rightarrow> (None, q)
      | item # items \<Rightarrow> (Some item, q\<lparr>m_queue := items\<rparr>))"

definition nq_getQueueSize :: "'x notification_queue \<Rightarrow> nat" where
  "nq_getQueueSize q = length (m_queue q)"

section \<open>The contract of a lossy queue\<close>

datatype 'a queue_call = Push 'a | Pop

text \<open>A run of calls: the state after it, the items accepted in it, and the items it took out.\<close>

fun queue_run :: "('a \<Rightarrow> 's \<Rightarrow> bool \<times> 's) \<Rightarrow> ('s \<Rightarrow> 'a option \<times> 's) \<Rightarrow> 'a queue_call list \<Rightarrow> 's \<Rightarrow> 's" where
  "queue_run push pop [] s = s"
| "queue_run push pop (Push x # cs) s = queue_run push pop cs (snd (push x s))"
| "queue_run push pop (Pop # cs) s = queue_run push pop cs (snd (pop s))"

fun queue_accepted ::
  "('a \<Rightarrow> 's \<Rightarrow> bool \<times> 's) \<Rightarrow> ('s \<Rightarrow> 'a option \<times> 's) \<Rightarrow> 'a queue_call list \<Rightarrow> 's \<Rightarrow> 'a list" where
  "queue_accepted push pop [] s = []"
| "queue_accepted push pop (Push x # cs) s =
     (if fst (push x s) then [x] else []) @ queue_accepted push pop cs (snd (push x s))"
| "queue_accepted push pop (Pop # cs) s = queue_accepted push pop cs (snd (pop s))"

fun queue_delivered ::
  "('a \<Rightarrow> 's \<Rightarrow> bool \<times> 's) \<Rightarrow> ('s \<Rightarrow> 'a option \<times> 's) \<Rightarrow> 'a queue_call list \<Rightarrow> 's \<Rightarrow> 'a list" where
  "queue_delivered push pop [] s = []"
| "queue_delivered push pop (Push x # cs) s = queue_delivered push pop cs (snd (push x s))"
| "queue_delivered push pop (Pop # cs) s =
     (case fst (pop s) of None \<Rightarrow> [] | Some x \<Rightarrow> [x]) @ queue_delivered push pop cs (snd (pop s))"

definition pops :: "'a queue_call list \<Rightarrow> nat" where
  "pops cs = length (filter (\<lambda>c. c = Pop) cs)"

lemma pops_simps [simp]: "pops [] = 0" "pops (Push x # cs) = pops cs" "pops (Pop # cs) = Suc (pops cs)"
  by (simp_all add: pops_def)

locale lossy_queue =
  fixes items :: "'s \<Rightarrow> 'a list"
    and push :: "'a \<Rightarrow> 's \<Rightarrow> bool \<times> 's"
    and pop :: "'s \<Rightarrow> 'a option \<times> 's"
  assumes items_push: "items (snd (push x s)) = (if fst (push x s) then items s @ [x] else items s)"
    and pop_none: "items s = [] \<Longrightarrow> fst (pop s) = None \<and> items (snd (pop s)) = []"
    and pop_some: "items s = x # xs \<Longrightarrow> fst (pop s) = Some x \<and> items (snd (pop s)) = xs"
begin

text \<open>Nothing accepted is lost, doubled or reordered.\<close>

lemma fifo: "items s @ queue_accepted push pop cs s = queue_delivered push pop cs s @ items (queue_run push pop cs s)"
proof (induction cs arbitrary: s)
  case (Cons c cs)
  show ?case
  proof (cases c)
    case (Push x)
    with Cons [of "snd (push x s)"] show ?thesis by (simp add: items_push split: if_splits)
  next
    case Pop
    show ?thesis
    proof (cases "items s")
      case Nil
      with Pop Cons [of "snd (pop s)"] pop_none [of s] show ?thesis by simp
    next
      case (Cons x xs)
      with Pop \<open>\<And>s. items s @ queue_accepted push pop cs s = queue_delivered push pop cs s @ items (queue_run push pop cs s)\<close> [of "snd (pop s)"] pop_some [of s x xs]
      show ?thesis by simp
    qed
  qed
qed simp

text \<open>Whatever is pushed in between, an item is out after as many pops as there are items up to it.\<close>

lemma delivered_prefix:
  "take (pops cs) (items s) = take (length (items s)) (queue_delivered push pop cs s)"
proof (induction cs arbitrary: s)
  case (Cons c cs)
  show ?case
  proof (cases c)
    case (Push x)
    have "take (pops cs) (items s) =
        take (length (items s)) (take (pops cs) (items (snd (push x s))))"
      by (simp add: items_push min_def)
    also have "\<dots> = take (length (items s)) (take (length (items (snd (push x s)))) (queue_delivered push pop cs (snd (push x s))))"
      using Cons [of "snd (push x s)"] by simp
    also have "\<dots> = take (length (items s)) (queue_delivered push pop cs (snd (push x s)))"
      by (simp add: items_push min_def)
    finally show ?thesis using Push by simp
  next
    case Pop
    show ?thesis
    proof (cases "items s")
      case (Cons x xs)
      with Pop \<open>\<And>s. take (pops cs) (items s) = take (length (items s)) (queue_delivered push pop cs s)\<close> [of "snd (pop s)"]
        pop_some [of s x xs]
      show ?thesis by simp
    qed simp
  qed
qed simp

lemma delivered_in_time:
  assumes "k < length (items s)" "k < pops cs"
  shows "k < length (queue_delivered push pop cs s) \<and> queue_delivered push pop cs s ! k = items s ! k"
proof -
  let ?n = "pops cs"
  have e: "take ?n (items s) = take (length (items s)) (queue_delivered push pop cs s)" by (rule delivered_prefix)
  have "length (take ?n (items s)) = length (take (length (items s)) (queue_delivered push pop cs s))" by (simp only: e)
  then have "k < length (queue_delivered push pop cs s)" using assms by simp
  moreover have "take ?n (items s) ! k = take (length (items s)) (queue_delivered push pop cs s) ! k" by (simp only: e)
  ultimately show ?thesis using assms by simp
qed

end

interpretation nq: lossy_queue m_queue "nq_enqueue fdb" nq_tryDequeue
proof unfold_locales
  show "m_queue (snd (nq_enqueue fdb x s)) = (if fst (nq_enqueue fdb x s) then m_queue s @ [x] else m_queue s)" for x s
    by (simp add: nq_enqueue_def nq_count_def Let_def)
qed (simp_all add: nq_tryDequeue_def)

section \<open>Order and delivery\<close>

text \<open>
C30 first in, first out. Over any sequence of calls of \<open>enqueue\<close> and \<open>tryDequeue\<close>, what has been taken out followed
by what is in the queue is what was in the queue at the start followed by what was accepted since, in this
order; dropped items leave no trace.
\<close>
theorem notifications_in_order:
  "queue_delivered (nq_enqueue fdb) nq_tryDequeue cs q @ m_queue (queue_run (nq_enqueue fdb) nq_tryDequeue cs q) =
     m_queue q @ queue_accepted (nq_enqueue fdb) nq_tryDequeue cs q"
  by (rule nq.fifo [symmetric])

text \<open>
C31 every accepted notification is delivered. The notification at place \<open>k\<close> of the queue is delivered as
number \<open>k\<close> once there have been more than \<open>k\<close> calls of \<open>tryDequeue\<close>, however many notifications
are enqueued or dropped in between.
\<close>
theorem notification_delivered:
  assumes "k < length (m_queue q)" and "k < pops cs"
  shows "k < length (queue_delivered (nq_enqueue fdb) nq_tryDequeue cs q) \<and>
    queue_delivered (nq_enqueue fdb) nq_tryDequeue cs q ! k = m_queue q ! k"
  using assms by (rule nq.delivered_in_time)

definition demo_item :: "string \<Rightarrow> unit notification_item" where
  "demo_item event = \<lparr>kfvKey = event, kfvOp = '''', kfvFieldsValues = [], auxiliary_data = None\<rparr>"

theorem notification_delivered_witness:
  "let q = (nq_new ''fdb'' 2 3)\<lparr>m_queue := [demo_item ''fdb'', demo_item ''port'']\<rparr>;
       out = queue_delivered (nq_enqueue ''fdb'') nq_tryDequeue [Pop, Push (demo_item ''fdb''), Pop, Pop] q
   in 1 < length out \<and> out ! 1 = m_queue q ! 1"
  unfolding Let_def by (rule notification_delivered) (simp_all add: nq_new_def)

section \<open>How long the queue gets\<close>

text \<open>The number of times the kind of event changes to another one than FDB events.\<close>

fun event_changes :: "string \<Rightarrow> string \<Rightarrow> 'x notification_item queue_call list \<Rightarrow> nat" where
  "event_changes fdb prev [] = 0"
| "event_changes fdb prev (Push x # cs) =
     (if kfvKey x \<noteq> prev \<and> kfvKey x \<noteq> fdb then 1 else 0) + event_changes fdb (kfvKey x) cs"
| "event_changes fdb prev (Pop # cs) = event_changes fdb prev cs"

text \<open>
  The room an event of the current kind may still take is what is left of the threshold; \<open>r\<close> counts the
  changes so far.
\<close>

definition within :: "string \<Rightarrow> nat \<Rightarrow> 'x notification_queue \<Rightarrow> bool" where
  "within fdb r q \<longleftrightarrow>
     (let t = unat (m_thresholdLimit q) - 1; c = unat (m_lastEventCount q)
      in if m_lastEvent q = fdb then length (m_queue q) \<le> unat (m_queueSizeLimit q) + t * r
         else 0 < r \<and> length (m_queue q) + t \<le> unat (m_queueSizeLimit q) + t * r + min c t)"

lemma within_bound: "within fdb r q \<Longrightarrow>
  length (m_queue q) \<le> unat (m_queueSizeLimit q) + (unat (m_thresholdLimit q) - 1) * r"
  by (auto simp: within_def Let_def split: if_splits)

lemma within_push:
  assumes "within fdb r q" "unat (m_lastEventCount q) + 1 < 2 ^ 64"
  shows "within fdb (r + (if kfvKey x \<noteq> m_lastEvent q \<and> kfvKey x \<noteq> fdb then 1 else 0)) (snd (nq_enqueue fdb x q))"
    "m_lastEvent (snd (nq_enqueue fdb x q)) = kfvKey x"
    "unat (m_lastEventCount (snd (nq_enqueue fdb x q))) \<le> unat (m_lastEventCount q) + 1"
    "m_queueSizeLimit (snd (nq_enqueue fdb x q)) = m_queueSizeLimit q"
    "m_thresholdLimit (snd (nq_enqueue fdb x q)) = m_thresholdLimit q"
proof -
  have c: "unat (m_lastEventCount q + 1) = unat (m_lastEventCount q) + 1"
    using assms(2) by (simp add: unat_word_ariths(1))
  show "within fdb (r + (if kfvKey x \<noteq> m_lastEvent q \<and> kfvKey x \<noteq> fdb then 1 else 0)) (snd (nq_enqueue fdb x q))"
    using assms(1) c
    by (auto simp: within_def nq_enqueue_def nq_count_def Let_def word_le_nat_alt min_def split: if_splits)
qed (simp_all add: nq_enqueue_def nq_count_def Let_def unat_word_ariths(1))

lemma within_pop:
  "within fdb r q \<Longrightarrow> within fdb r (snd (nq_tryDequeue q))"
  "m_lastEvent (snd (nq_tryDequeue q)) = m_lastEvent q" "m_lastEventCount (snd (nq_tryDequeue q)) = m_lastEventCount q"
  "m_queueSizeLimit (snd (nq_tryDequeue q)) = m_queueSizeLimit q"
  "m_thresholdLimit (snd (nq_tryDequeue q)) = m_thresholdLimit q"
  by (auto simp: within_def nq_tryDequeue_def Let_def split: list.split if_splits)

lemma within_run:
  "within fdb r q \<Longrightarrow> unat (m_lastEventCount q) + length cs < 2 ^ 64 \<Longrightarrow>
     within fdb (r + event_changes fdb (m_lastEvent q) cs) (queue_run (nq_enqueue fdb) nq_tryDequeue cs q) \<and>
     m_queueSizeLimit (queue_run (nq_enqueue fdb) nq_tryDequeue cs q) = m_queueSizeLimit q \<and>
     m_thresholdLimit (queue_run (nq_enqueue fdb) nq_tryDequeue cs q) = m_thresholdLimit q"
proof (induction cs arbitrary: q r)
  case (Cons c cs)
  show ?case
  proof (cases c)
    case (Push x)
    have "unat (m_lastEventCount q) + 1 < 2 ^ 64" using Cons.prems(2) by simp
    note p = within_push [OF Cons.prems(1) this, of x]
    from p(3) Cons.prems(2) have "unat (m_lastEventCount (snd (nq_enqueue fdb x q))) + length cs < 2 ^ 64" by simp
    from Cons.IH [OF p(1) this] p(2,4,5) Push show ?thesis by (simp add: add.assoc)
  next
    case Pop
    with Cons.IH [OF within_pop(1) [OF Cons.prems(1)]] Cons.prems(2) show ?thesis by (simp add: within_pop)
  qed
qed simp

text \<open>
C32 the bound of the queue. Over any sequence of calls on a new queue its length exceeds the limit by at most the threshold less
one for each time the kind of event changed to one that is not an FDB event. So FDB events alone never
take it over the limit, and a storm of any one other event takes it less than the threshold over it.
\<close>
theorem queue_bounded:
  assumes "length cs < 2 ^ 64"
  shows "nq_getQueueSize (queue_run (nq_enqueue fdb) nq_tryDequeue cs (nq_new fdb limit threshold)) \<le>
    unat limit + (unat threshold - 1) * event_changes fdb fdb cs"
proof -
  have "within fdb 0 (nq_new fdb limit threshold)" by (simp add: within_def nq_new_def)
  from within_run [OF this, of cs] assms
  have "within fdb (event_changes fdb fdb cs) (queue_run (nq_enqueue fdb) nq_tryDequeue cs (nq_new fdb limit threshold))"
    and "m_queueSizeLimit (queue_run (nq_enqueue fdb) nq_tryDequeue cs (nq_new fdb limit threshold)) = limit"
    and "m_thresholdLimit (queue_run (nq_enqueue fdb) nq_tryDequeue cs (nq_new fdb limit threshold)) = threshold"
    by (simp_all add: nq_new_def)
  from within_bound [OF this(1)] this(2,3) show ?thesis by (simp add: nq_getQueueSize_def)
qed

theorem queue_bounded_witness:
  "nq_getQueueSize (queue_run (nq_enqueue ''fdb'') nq_tryDequeue
      [Push (demo_item ''fdb''), Push (demo_item ''port''), Push (demo_item ''port''), Push (demo_item ''port''),
       Push (demo_item ''fdb''), Pop, Push (demo_item ''port'')] (nq_new ''fdb'' 1 3)) \<le>
    unat (1 :: 64 word) + (unat (3 :: 64 word) - 1) * event_changes ''fdb'' ''fdb''
      [Push (demo_item ''fdb''), Push (demo_item ''port''), Push (demo_item ''port''), Push (demo_item ''port''),
       Push (demo_item ''fdb''), Pop, Push (demo_item ''port'')]"
  by (rule queue_bounded) simp

lemma changing_accepted:
  "successively (\<lambda>x y. kfvKey x \<noteq> kfvKey y) xs \<Longrightarrow> fdb \<notin> kfvKey ` set xs \<Longrightarrow> 2 \<le> m_thresholdLimit q \<Longrightarrow>
     (xs \<noteq> [] \<longrightarrow> kfvKey (hd xs) \<noteq> m_lastEvent q) \<Longrightarrow>
     m_queue (queue_run (nq_enqueue fdb) nq_tryDequeue (map Push xs) q) = m_queue q @ xs"
proof (induction xs arbitrary: q)
  case (Cons x xs)
  have c: "nq_count (kfvKey x) q = q\<lparr>m_lastEventCount := 1, m_lastEvent := kfvKey x\<rparr>"
    using Cons.prems(4) by (simp add: nq_count_def)
  have "\<not> m_thresholdLimit q \<le> 1"
  proof
    assume "m_thresholdLimit q \<le> 1"
    with Cons.prems(3) have "(2 :: 64 word) \<le> 1" by (rule order_trans)
    then show False by (simp add: word_le_nat_alt)
  qed
  then have e: "nq_enqueue fdb x q =
      (True, q\<lparr>m_lastEventCount := 1, m_lastEvent := kfvKey x, m_queue := m_queue q @ [x]\<rparr>)"
    using Cons.prems(2) c by (auto simp: nq_enqueue_def Let_def)
  have "successively (\<lambda>x y. kfvKey x \<noteq> kfvKey y) xs" "xs \<noteq> [] \<longrightarrow> kfvKey (hd xs) \<noteq> kfvKey x"
    using Cons.prems(1) by (auto simp: successively_Cons)
  with Cons.IH [of "q\<lparr>m_lastEventCount := 1, m_lastEvent := kfvKey x, m_queue := m_queue q @ [x]\<rparr>"] Cons.prems(2,3)
  show ?case by (simp add: e)
qed simp

text \<open>
events that take turns are never dropped. If successive notifications are of different kinds, none of
them FDB events, and the threshold is at least two, a new queue accepts all of them whatever its limit, so the queue of a
daemon that does not get to process them grows without bound.
\<close>
theorem changing_events_unbounded:
  assumes "successively (\<lambda>x y. kfvKey x \<noteq> kfvKey y) xs" and "fdb \<notin> kfvKey ` set xs" and "2 \<le> threshold"
  shows "m_queue (queue_run (nq_enqueue fdb) nq_tryDequeue (map Push xs) (nq_new fdb limit threshold)) = xs"
proof -
  have "xs \<noteq> [] \<longrightarrow> kfvKey (hd xs) \<noteq> fdb" using assms(2) hd_in_set by fastforce
  with changing_accepted [of xs fdb "nq_new fdb limit threshold"] assms show ?thesis by (simp add: nq_new_def)
qed

theorem changing_events_unbounded_witness:
  "m_queue (queue_run (nq_enqueue ''fdb'') nq_tryDequeue
     (map Push (concat (replicate 3 [demo_item ''port'', demo_item ''nat'']))) (nq_new ''fdb'' 1 1000)) =
   concat (replicate 3 [demo_item ''port'', demo_item ''nat''])"
  by (rule changing_events_unbounded) (simp_all add: numeral_3_eq_3 demo_item_def)

end
