(* ===== verification/Notification_Worker.thy ===== *)
theory Notification_Worker
  imports Notification_Queue
begin

text \<open>
  The thread of \<open>syncd/NotificationProcessor.cpp\<close> that processes notifications, and the callbacks of
  \<open>syncd/NotificationHandler.cpp\<close> that feed it, as a step relation of their atomic actions.
\<close>

section \<open>States and steps\<close>

text \<open>
  Where the thread is in \<open>ntf_process_function\<close>: before the test of \<open>m_runThread\<close>, before and in the wait on the
  condition variable, before \<open>tryDequeue\<close>, before \<open>processNotification\<close>, and at the end.
\<close>

datatype 'x worker_pc = Test | Before_Wait | Waiting | Dequeuing | Handling "'x notification_item" | Done

text \<open>
  \<open>ns_signals\<close> counts the threads that have accepted a notification, or stopped the worker, and have yet to
  call \<open>notify_all\<close>. The mutex the worker waits with is its own, so nothing orders this call and the wait.
\<close>

record 'x ntf_system =
  ns_queue :: "'x notification_queue"
  ns_pc :: "'x worker_pc"
  m_runThread :: bool
  ns_signals :: nat
  ns_handled :: "'x notification_item list"

datatype 'x ntf_event = Callback "'x notification_item" | Notify | Spurious_Wakeup | Worker | Stop

definition enqueueNotification ::
  "string \<Rightarrow> 'x notification_item \<Rightarrow> 'x ntf_system \<Rightarrow> 'x ntf_system" where
  "enqueueNotification fdb item s =
     (case nq_enqueue fdb item (ns_queue s) of
        (accepted, q) \<Rightarrow> s\<lparr>ns_queue := q, ns_signals := (if accepted then ns_signals s + 1 else ns_signals s)\<rparr>)"

definition notify_all :: "'x ntf_system \<Rightarrow> 'x ntf_system" where
  "notify_all s = s\<lparr>ns_signals := ns_signals s - 1, ns_pc := (if ns_pc s = Waiting then Dequeuing else ns_pc s)\<rparr>"

definition stop_thread :: "'x ntf_system \<Rightarrow> 'x ntf_system" where
  "stop_thread s = s\<lparr>m_runThread := False, ns_signals := ns_signals s + 1\<rparr>"

text \<open>The thread itself; it makes no step of its own while it waits or after its end.\<close>

definition ntf_process_step :: "'x ntf_system \<Rightarrow> 'x ntf_system option" where
  "ntf_process_step s =
     (case ns_pc s of
        Test \<Rightarrow> Some (s\<lparr>ns_pc := (if m_runThread s then Before_Wait else Done)\<rparr>)
      | Before_Wait \<Rightarrow> Some (s\<lparr>ns_pc := Waiting\<rparr>)
      | Waiting \<Rightarrow> None
      | Dequeuing \<Rightarrow>
          (case nq_tryDequeue (ns_queue s) of
             (None, q) \<Rightarrow> Some (s\<lparr>ns_queue := q, ns_pc := Test\<rparr>)
           | (Some item, q) \<Rightarrow> Some (s\<lparr>ns_queue := q, ns_pc := Handling item\<rparr>))
      | Handling item \<Rightarrow> Some (s\<lparr>ns_handled := ns_handled s @ [item], ns_pc := Dequeuing\<rparr>)
      | Done \<Rightarrow> None)"

inductive ntf_step :: "string \<Rightarrow> 'x ntf_event \<Rightarrow> 'x ntf_system \<Rightarrow> 'x ntf_system \<Rightarrow> bool" for fdb where
  callback: "ntf_step fdb (Callback item) s (enqueueNotification fdb item s)"
| notify: "0 < ns_signals s \<Longrightarrow> ntf_step fdb Notify s (notify_all s)"
| spurious: "ns_pc s = Waiting \<Longrightarrow> ntf_step fdb Spurious_Wakeup s (s\<lparr>ns_pc := Dequeuing\<rparr>)"
| worker: "ntf_process_step s = Some s' \<Longrightarrow> ntf_step fdb Worker s s'"
| stop: "m_runThread s \<Longrightarrow> ntf_step fdb Stop s (stop_thread s)"

inductive_simps callback_step [simp]: "ntf_step fdb (Callback item) s s'"
inductive_simps notify_step [simp]: "ntf_step fdb Notify s s'"
inductive_simps spurious_step [simp]: "ntf_step fdb Spurious_Wakeup s s'"
inductive_simps worker_step [simp]: "ntf_step fdb Worker s s'"
inductive_simps stop_step [simp]: "ntf_step fdb Stop s s'"

text \<open>Executions, with the notifications the queue accepted in them.\<close>

definition accepted_in :: "string \<Rightarrow> 'x ntf_event \<Rightarrow> 'x ntf_system \<Rightarrow> 'x notification_item list" where
  "accepted_in fdb e s =
     (case e of Callback item \<Rightarrow> if fst (nq_enqueue fdb item (ns_queue s)) then [item] else [] | _ \<Rightarrow> [])"

inductive ntf_run ::
  "string \<Rightarrow> 'x ntf_system \<Rightarrow> 'x ntf_event list \<Rightarrow> 'x notification_item list \<Rightarrow> 'x ntf_system \<Rightarrow> bool" for fdb where
  idle: "ntf_run fdb s [] [] s"
| more: "ntf_step fdb e s s' \<Longrightarrow> ntf_run fdb s' es acc s'' \<Longrightarrow> ntf_run fdb s (e # es) (accepted_in fdb e s @ acc) s''"

definition ntf_start :: "'x notification_queue \<Rightarrow> 'x ntf_system" where
  "ntf_start q = \<lparr>ns_queue = q, ns_pc = Test, m_runThread = True, ns_signals = 0, ns_handled = []\<rparr>"

section \<open>Nothing is lost or reordered\<close>

definition in_hand :: "'x ntf_system \<Rightarrow> 'x notification_item list" where
  "in_hand s = (case ns_pc s of Handling item \<Rightarrow> [item] | _ \<Rightarrow> [])"

definition pending :: "'x ntf_system \<Rightarrow> 'x notification_item list" where
  "pending s = in_hand s @ m_queue (ns_queue s)"

lemma step_order:
  "ntf_step fdb e s s' \<Longrightarrow> ns_handled s' @ pending s' = ns_handled s @ pending s @ accepted_in fdb e s"
proof (induction rule: ntf_step.induct)
  case (callback item s)
  then show ?case
    using nq.items_push [of fdb item "ns_queue s"]
    by (simp add: pending_def in_hand_def enqueueNotification_def accepted_in_def split_beta split: worker_pc.split)
next
  case (worker s s')
  then show ?case
    by (auto simp: ntf_process_step_def pending_def in_hand_def accepted_in_def nq_tryDequeue_def
        split: worker_pc.splits list.splits prod.splits if_splits)
qed (auto simp: pending_def in_hand_def notify_all_def stop_thread_def accepted_in_def split: worker_pc.splits)

lemma run_order:
  "ntf_run fdb s es acc s' \<Longrightarrow> ns_handled s' @ pending s' = ns_handled s @ pending s @ acc"
  by (induction rule: ntf_run.induct) (auto dest: step_order)

text \<open>
C33 notifications are processed in the order the callbacks enqueued them, each once: over any interleaving
of callbacks, signals and the thread, what it has processed, the notification it has in hand and the queue are, in this
order, the notifications accepted.
\<close>
theorem processed_in_order:
  assumes "ntf_run fdb (ntf_start (nq_new fdb limit threshold)) es acc s"
  shows "ns_handled s @ pending s = acc"
  using run_order [OF assms] by (simp add: ntf_start_def pending_def in_hand_def nq_new_def)

theorem processed_in_order_witness:
  "\<exists>s. ntf_run ''fdb'' (ntf_start (nq_new ''fdb'' 5 3)) [Worker, Callback (demo_item ''port'')] [demo_item ''port''] s \<and>
     ns_handled s @ pending s = [demo_item ''port'']"
proof -
  let ?s0 = "ntf_start (nq_new ''fdb'' 5 3) :: unit ntf_system"
  let ?s1 = "?s0\<lparr>ns_pc := Before_Wait\<rparr>"
  let ?s2 = "enqueueNotification ''fdb'' (demo_item ''port'') ?s1"
  have st: "ntf_step ''fdb'' Worker ?s0 ?s1" "ntf_step ''fdb'' (Callback (demo_item ''port'')) ?s1 ?s2"
    by (simp_all add: ntf_process_step_def ntf_start_def)
  have "ntf_run ''fdb'' ?s0 [Worker, Callback (demo_item ''port'')]
      (accepted_in ''fdb'' Worker ?s0 @ accepted_in ''fdb'' (Callback (demo_item ''port'')) ?s1 @ []) ?s2"
    by (rule ntf_run.more [OF st(1) ntf_run.more [OF st(2) ntf_run.idle]])
  then have r: "ntf_run ''fdb'' ?s0 [Worker, Callback (demo_item ''port'')] [demo_item ''port''] ?s2"
    by (simp add: accepted_in_def ntf_start_def nq_enqueue_def nq_count_def nq_new_def demo_item_def Let_def)
  with processed_in_order [OF r] show ?thesis by blast
qed

section \<open>Progress\<close>

text \<open>The worker steps that may pass before \<open>n\<close> of the pending notifications are processed.\<close>

definition awake :: "'x ntf_system \<Rightarrow> bool" where
  "awake s \<longleftrightarrow> (case ns_pc s of Dequeuing \<Rightarrow> True | Handling item \<Rightarrow> True | _ \<Rightarrow> False)"

definition steps_for :: "nat \<Rightarrow> 'x ntf_system \<Rightarrow> nat" where
  "steps_for n s = (if in_hand s = [] then 2 * n else 2 * n - 1)"

definition worker_steps :: "'x ntf_event list \<Rightarrow> nat" where
  "worker_steps es = length (filter (\<lambda>e. e = Worker) es)"

lemma worker_steps_simps [simp]:
  "worker_steps [] = 0" "worker_steps (e # es) = (if e = Worker then Suc (worker_steps es) else worker_steps es)"
  by (simp_all add: worker_steps_def)

lemma handled_grows: "ntf_step fdb e s s' \<Longrightarrow> length (ns_handled s) \<le> length (ns_handled s')"
  by (induction rule: ntf_step.induct)
    (auto simp: enqueueNotification_def notify_all_def stop_thread_def ntf_process_step_def
      split: worker_pc.splits prod.splits option.splits)

lemma run_handled_grows: "ntf_run fdb s es acc s' \<Longrightarrow> length (ns_handled s) \<le> length (ns_handled s')"
  by (induction rule: ntf_run.induct) (auto dest: handled_grows)

lemma awake_other:
  assumes "ntf_step fdb e s s'" "e \<noteq> Worker" "awake s"
  shows "awake s'" "in_hand s' = in_hand s" "ns_handled s' = ns_handled s" "length (pending s) \<le> length (pending s')"
  using assms nq.items_push [of fdb _ "ns_queue s"]
  by (cases rule: ntf_step.cases; auto simp: awake_def in_hand_def pending_def enqueueNotification_def notify_all_def
      stop_thread_def split_beta split: worker_pc.splits)+

lemma awake_worker:
  assumes "ntf_process_step s = Some s'" "awake s" "pending s \<noteq> []"
  shows "awake s'" "ns_handled s' @ pending s' = ns_handled s @ pending s"
    "in_hand s = [] \<Longrightarrow> in_hand s' \<noteq> [] \<and> ns_handled s' = ns_handled s \<and> pending s' = pending s"
    "in_hand s \<noteq> [] \<Longrightarrow> in_hand s' = [] \<and> ns_handled s' = ns_handled s @ [hd (pending s)] \<and> pending s' = tl (pending s)"
  using assms
  by (auto simp: awake_def pending_def in_hand_def ntf_process_step_def nq_tryDequeue_def
      split: worker_pc.splits list.splits)

lemma progress:
  "ntf_run fdb s es acc s' \<Longrightarrow> awake s \<Longrightarrow> n \<le> length (pending s) \<Longrightarrow> steps_for n s \<le> worker_steps es \<Longrightarrow>
     length (ns_handled s) + n \<le> length (ns_handled s')"
proof (induction arbitrary: n rule: ntf_run.induct)
  case (idle s)
  then have "n = 0" by (cases n) (auto simp: steps_for_def split: if_splits)
  then show ?case by simp
next
  case (more e s s1 es acc s')
  show ?case
  proof (cases "e = Worker \<and> n \<noteq> 0")
    case True
    with more.hyps(1) have st: "ntf_process_step s = Some s1" by simp
    from more.prems(2) True have "pending s \<noteq> []" by auto
    note w = awake_worker [OF st more.prems(1) this]
    show ?thesis
    proof (cases "in_hand s = []")
      case False
      have "length (ns_handled s1) + (n - 1) \<le> length (ns_handled s')"
        by (rule more.IH [OF w(1)]) (use w(4) [OF False] False more.prems(2,3) True in \<open>auto simp: steps_for_def\<close>)
      with w(4) [OF False] True show ?thesis by simp
    next
      case h: True
      have "length (ns_handled s1) + n \<le> length (ns_handled s')"
        by (rule more.IH [OF w(1)]) (use w(3) [OF h] h more.prems(2,3) True in \<open>auto simp: steps_for_def\<close>)
      with w(3) [OF h] show ?thesis by simp
    qed
  next
    case False
    show ?thesis
    proof (cases "n = 0")
      case True
      with run_handled_grows [OF ntf_run.more [OF more.hyps(1,2)]] show ?thesis by simp
    next
      case n: False
      with False have "e \<noteq> Worker" by simp
      note o = awake_other [OF more.hyps(1) this more.prems(1)]
      have "length (ns_handled s1) + n \<le> length (ns_handled s')"
        by (rule more.IH [OF o(1)]) (use o more.prems(2,3) \<open>e \<noteq> Worker\<close> in \<open>auto simp: steps_for_def\<close>)
      with o(3) show ?thesis by simp
    qed
  qed
qed

text \<open>
C34 a signal that reaches the waiting thread gets the queue processed. After it, once the thread has made two steps for each of
the first \<open>n\<close> notifications of the queue, these have been processed, in order, whatever callbacks,
signals and even a stop come in between.
\<close>
theorem signalled_notifications_processed:
  assumes "ns_pc s = Waiting" and "ntf_run fdb (notify_all s) es acc s'"
    and "n \<le> length (m_queue (ns_queue s))" and "2 * n \<le> worker_steps es"
  shows "\<exists>rest. ns_handled s' = ns_handled s @ take n (m_queue (ns_queue s)) @ rest"
proof -
  have p: "pending (notify_all s) = m_queue (ns_queue s)" "ns_handled (notify_all s) = ns_handled s"
    "awake (notify_all s)" "in_hand (notify_all s) = []"
    using assms(1) by (simp_all add: pending_def in_hand_def notify_all_def awake_def)
  have "length (ns_handled s) + n \<le> length (ns_handled s')"
    using progress [OF assms(2) p(3), of n] p assms(3,4) by (simp add: steps_for_def)
  moreover have "ns_handled s' @ pending s' = ns_handled s @ m_queue (ns_queue s) @ acc"
    using run_order [OF assms(2)] p by simp
  ultimately have "take (length (ns_handled s) + n) (ns_handled s') =
      take (length (ns_handled s) + n) (ns_handled s @ m_queue (ns_queue s) @ acc)"
    by (metis take_append diff_is_0_eq take_0 append_Nil2)
  then have "take (length (ns_handled s) + n) (ns_handled s') = ns_handled s @ take n (m_queue (ns_queue s))"
    using assms(3) by simp
  then show ?thesis by (metis append_take_drop_id append.assoc)
qed

definition demo_waiting :: "unit ntf_system" where
  "demo_waiting = (ntf_start (snd (nq_enqueue ''fdb'' (demo_item ''port'') (nq_new ''fdb'' 5 3))))
     \<lparr>ns_pc := Waiting, ns_signals := 1\<rparr>"

theorem signalled_notifications_processed_witness:
  "\<exists>s'. ntf_run ''fdb'' (notify_all demo_waiting) [Worker, Stop, Worker] [] s' \<and>
     (\<exists>rest. ns_handled s' = ns_handled demo_waiting @ take 1 (m_queue (ns_queue demo_waiting)) @ rest)"
proof -
  let ?s1 = "the (ntf_process_step (notify_all demo_waiting))"
  let ?s3 = "the (ntf_process_step (stop_thread ?s1))"
  have d: "ns_pc demo_waiting = Waiting" "m_queue (ns_queue demo_waiting) = [demo_item ''port'']" "m_runThread demo_waiting"
    by (simp_all add: demo_waiting_def ntf_start_def nq_new_def nq_enqueue_def nq_count_def demo_item_def Let_def)
  then have st: "ntf_step ''fdb'' Worker (notify_all demo_waiting) ?s1" "ntf_step ''fdb'' Stop ?s1 (stop_thread ?s1)"
    "ntf_step ''fdb'' Worker (stop_thread ?s1) ?s3"
    by (simp_all add: ntf_process_step_def notify_all_def nq_tryDequeue_def stop_thread_def)
  have "ntf_run ''fdb'' (notify_all demo_waiting) [Worker, Stop, Worker]
      (accepted_in ''fdb'' Worker (notify_all demo_waiting) @ accepted_in ''fdb'' Stop ?s1 @
       accepted_in ''fdb'' Worker (stop_thread ?s1) @ []) ?s3"
    by (rule ntf_run.more [OF st(1) ntf_run.more [OF st(2) ntf_run.more [OF st(3) ntf_run.idle]]])
  then have r: "ntf_run ''fdb'' (notify_all demo_waiting) [Worker, Stop, Worker] [] ?s3" by (simp add: accepted_in_def)
  have "\<exists>rest. ns_handled ?s3 = ns_handled demo_waiting @ take 1 (m_queue (ns_queue demo_waiting)) @ rest"
    by (rule signalled_notifications_processed [OF d(1) r]) (simp_all add: d)
  with r show ?thesis by blast
qed

section \<open>Lost signals\<close>

text \<open>
  The wait has no condition, and the signal is not under the mutex of the wait: it is lost when it comes
  between the last \<open>tryDequeue\<close> that found nothing, or the test of \<open>m_runThread\<close>, and the wait.
\<close>

definition waits_for_others :: "string \<Rightarrow> 'x ntf_system \<Rightarrow> bool" where
  "waits_for_others fdb s \<longleftrightarrow> ns_pc s = Waiting \<and> (\<forall>s'. \<not> ntf_step fdb Worker s s' \<and> \<not> ntf_step fdb Notify s s')"

text \<open>
C35 a signal can be lost. A notification that is accepted and signalled while the thread is about to wait
stays in the queue: the thread waits, no signal is on its way, and it takes a further callback, a stop or
a spurious wakeup for the notification to be processed.
\<close>
theorem signal_can_be_lost:
  assumes "fst (nq_enqueue fdb item (nq_new fdb limit threshold))"
  shows "\<exists>s. ntf_run fdb (ntf_start (nq_new fdb limit threshold)) [Worker, Callback item, Notify, Worker] [item] s \<and>
    m_queue (ns_queue s) = [item] \<and> ns_handled s = [] \<and> waits_for_others fdb s"
proof -
  let ?s0 = "ntf_start (nq_new fdb limit threshold)"
  let ?s1 = "?s0\<lparr>ns_pc := Before_Wait\<rparr>"
  let ?s2 = "enqueueNotification fdb item ?s1"
  let ?s3 = "notify_all ?s2"
  let ?s4 = "?s3\<lparr>ns_pc := Waiting\<rparr>"
  have q: "m_queue (snd (nq_enqueue fdb item (nq_new fdb limit threshold))) = [item]"
    using nq.items_push [of fdb item "nq_new fdb limit threshold"] assms by (simp add: nq_new_def)
  have s2: "ns_signals ?s2 = 1" "ns_pc ?s2 = Before_Wait" "ns_handled ?s2 = []" "m_queue (ns_queue ?s2) = [item]"
    using assms q by (simp_all add: enqueueNotification_def split_beta ntf_start_def)
  have steps: "ntf_step fdb Worker ?s0 ?s1" "ntf_step fdb (Callback item) ?s1 ?s2" "ntf_step fdb Notify ?s2 ?s3"
    "ntf_step fdb Worker ?s3 ?s4"
    using s2 by (simp_all add: ntf_process_step_def ntf_start_def notify_all_def)
  have "ntf_run fdb ?s0 [Worker, Callback item, Notify, Worker]
      (accepted_in fdb Worker ?s0 @ accepted_in fdb (Callback item) ?s1 @ accepted_in fdb Notify ?s2 @
       accepted_in fdb Worker ?s3 @ []) ?s4"
    by (rule ntf_run.more [OF steps(1) ntf_run.more [OF steps(2) ntf_run.more [OF steps(3) ntf_run.more [OF steps(4) ntf_run.idle]]]])
  then have "ntf_run fdb ?s0 [Worker, Callback item, Notify, Worker] [item] ?s4"
    using assms by (simp add: accepted_in_def ntf_start_def)
  moreover have "waits_for_others fdb ?s4" using s2 by (simp add: waits_for_others_def ntf_process_step_def notify_all_def)
  ultimately show ?thesis using s2 by (intro exI [of _ ?s4]) (simp add: notify_all_def)
qed

theorem signal_can_be_lost_witness:
  "\<exists>s. ntf_run ''fdb'' (ntf_start (nq_new ''fdb'' 5 3)) [Worker, Callback (demo_item ''port''), Notify, Worker]
      [demo_item ''port''] s \<and>
     m_queue (ns_queue s) = [demo_item ''port''] \<and> ns_handled s = [] \<and> waits_for_others ''fdb'' s"
  by (rule signal_can_be_lost) (simp add: nq_enqueue_def nq_new_def nq_count_def demo_item_def Let_def)

text \<open>
the stop can be lost too. When \<open>stopNotificationsProcessingThread\<close> runs while the thread is between the test
of \<open>m_runThread\<close> and the wait, the thread waits although it has been told to stop, with no signal on its way, so
the \<open>join\<close> that follows does not return by anything the two threads do.
\<close>
theorem stop_can_be_lost:
  "\<exists>s. ntf_run fdb (ntf_start q) [Worker, Stop, Notify, Worker] [] s \<and> \<not> m_runThread s \<and> waits_for_others fdb s"
proof -
  let ?s0 = "ntf_start q"
  let ?s1 = "?s0\<lparr>ns_pc := Before_Wait\<rparr>"
  let ?s2 = "stop_thread ?s1"
  let ?s3 = "notify_all ?s2"
  let ?s4 = "?s3\<lparr>ns_pc := Waiting\<rparr>"
  have steps: "ntf_step fdb Worker ?s0 ?s1" "ntf_step fdb Stop ?s1 ?s2" "ntf_step fdb Notify ?s2 ?s3" "ntf_step fdb Worker ?s3 ?s4"
    by (simp_all add: ntf_process_step_def ntf_start_def notify_all_def stop_thread_def)
  have "ntf_run fdb ?s0 [Worker, Stop, Notify, Worker]
      (accepted_in fdb Worker ?s0 @ accepted_in fdb Stop ?s1 @ accepted_in fdb Notify ?s2 @ accepted_in fdb Worker ?s3 @ []) ?s4"
    by (rule ntf_run.more [OF steps(1) ntf_run.more [OF steps(2) ntf_run.more [OF steps(3) ntf_run.more [OF steps(4) ntf_run.idle]]]])
  then have "ntf_run fdb ?s0 [Worker, Stop, Notify, Worker] [] ?s4" by (simp add: accepted_in_def)
  moreover have "\<not> m_runThread ?s4" "waits_for_others fdb ?s4"
    by (simp_all add: waits_for_others_def ntf_process_step_def notify_all_def stop_thread_def ntf_start_def)
  ultimately show ?thesis by blast
qed

end
