(* ===== verification/Asic_View.thy ===== *)
theory Asic_View
  imports Meta_Types Virtual_Oid
begin

text \<open>
  \<open>syncd/AsicView.cpp\<close> with \<open>SaiObj.cpp\<close>, \<open>SaiAttr.cpp\<close> and \<open>AsicOperation.cpp\<close>: the view of a switch \<open>syncd\<close>
  compares with another one, the reference counts of its virtual ids, and the operations on the vendor a
  change of the view records, with the order in which they are to be executed.
\<close>

section \<open>Objects and attributes\<close>

record sai_attr =
  m_str_attr_id :: string
  m_str_attr_value :: string
  sa_meta :: attr_md
  sa_attr :: sai_attribute

datatype object_status = NOT_PROCESSED | MATCHED | REMOVED | FINAL

record sai_obj =
  m_str_object_type :: string
  m_str_object_id :: string
  m_meta_key :: meta_key
  m_info :: ot_info
  m_attrs :: "(u32, sai_attr) alist"
  m_createdObject :: bool
  m_objectStatus :: object_status

definition elements_of :: "'a sai_list \<Rightarrow> fault + 'a list" where
  "elements_of l =
     (case l of Null_List n \<Rightarrow> if n = 0 then Inr [] else Inl (Null_Deref ''objectIdList'') | Sai_List xs \<Rightarrow> Inr xs)"

definition getOidListFromAttribute :: "sai_attr \<Rightarrow> fault + oid list" where
  "getOidListFromAttribute a =
     (let v = a_value (sa_attr a);
          other = (if md_isoidattribute (sa_meta a) then Inl (Throw ''attribute is oid attribute but not handled'')
                   else Inr [])
      in case md_attrvaluetype (sa_meta a) of
        VT_OBJECT_ID \<Rightarrow> Inr [v_oid v]
      | VT_OBJECT_LIST \<Rightarrow> elements_of (v_objlist v)
      | VT_ACL_FIELD_DATA d \<Rightarrow>
          (if d = AD_OBJECT_ID then Inr (if acl_enable (v_aclfield v) then [acl_oid (v_aclfield v)] else [])
           else if d = AD_OBJECT_LIST
           then (if acl_enable (v_aclfield v) then elements_of (acl_objlist (v_aclfield v)) else Inr [])
           else other)
      | VT_ACL_ACTION_DATA d \<Rightarrow>
          (if d = AD_OBJECT_ID then Inr (if acl_enable (v_aclaction v) then [acl_oid (v_aclaction v)] else [])
           else if d = AD_OBJECT_LIST
           then (if acl_enable (v_aclaction v) then elements_of (acl_objlist (v_aclaction v)) else Inr [])
           else other)
      | _ \<Rightarrow> other)"

definition isOidObject :: "sai_obj \<Rightarrow> bool" where
  "isOidObject o1 = (\<not> isnonobjectid (m_info o1))"

definition getVid :: "sai_obj \<Rightarrow> fault + oid" where
  "getVid o1 = (if isOidObject o1 then Inr (object_id (m_meta_key o1)) else Inl (Throw ''object is not object id type''))"

definition so_getObjectType :: "sai_obj \<Rightarrow> object_type" where
  "so_getObjectType o1 = objecttype (m_meta_key o1)"

definition so_hasAttr :: "sai_obj \<Rightarrow> u32 \<Rightarrow> bool" where
  "so_hasAttr o1 a = has_key (m_attrs o1) a"

definition tryGetSaiAttr :: "sai_obj \<Rightarrow> u32 \<Rightarrow> sai_attr option" where
  "tryGetSaiAttr o1 a = map_of (m_attrs o1) a"

definition getSaiAttr :: "sai_obj \<Rightarrow> u32 \<Rightarrow> fault + sai_attr" where
  "getSaiAttr o1 a = (case map_of (m_attrs o1) a of None \<Rightarrow> Inl (Throw ''object has no attribute'') | Some x \<Rightarrow> Inr x)"

definition so_setAttr :: "sai_attr \<Rightarrow> sai_obj \<Rightarrow> sai_obj" where
  "so_setAttr attr o1 = o1\<lparr>m_attrs := AList.update (a_id (sa_attr attr)) attr (m_attrs o1)\<rparr>"

definition setObjectStatus :: "object_status \<Rightarrow> sai_obj \<Rightarrow> sai_obj" where
  "setObjectStatus st o1 = o1\<lparr>m_objectStatus := st\<rparr>"

section \<open>The view\<close>

text \<open>A request to the vendor in its printed form, and an operation of the list.\<close>

record kco =
  kco_key :: string
  kco_op :: string
  kco_fields :: "(string \<times> string) list"

record asic_operation =
  m_opId :: nat
  m_vid :: oid
  m_isRemove :: bool
  m_op :: kco
  m_currentValue :: string

text \<open>
  Objects are shared by pointers: \<open>sv_heap\<close> is what they point to. The six hashes of entries (\<open>m_soFdbs\<close>,
  \<open>m_soNeighbors\<close>, \<open>m_soRoutes\<close>, \<open>m_soNatEntries\<close>, \<open>m_soInsegs\<close>, \<open>m_soMySidEntries\<close>) are \<open>m_soEntries\<close>
  with the kind of entry. The counters are \<open>int\<close>, and each reference they count is in memory.
\<close>

record asic_view =
  sv_heap :: "(nat, sai_obj) alist"
  m_soEntries :: "(entry_name \<times> string, nat) alist"
  m_soOids :: "(string, nat) alist"
  m_soAll :: "(string, nat) alist"
  m_sotAll :: "(object_type, (string, nat) alist) alist"
  m_oOids :: "(oid, nat) alist"
  m_ridToVid :: "(oid, oid) alist"
  m_vidToRid :: "(oid, oid) alist"
  m_removedVidToRid :: "(oid, oid) alist"
  m_vidReference :: "(oid, int) alist"
  m_asicOperationId :: nat
  m_vidToAsicOperationId :: "(oid, nat) alist"
  m_asicOperations :: "asic_operation list"
  m_asicRemoveOperationsNonObjectId :: "asic_operation list"

definition asic_view_new :: asic_view where
  "asic_view_new = \<lparr>sv_heap = [], m_soEntries = [], m_soOids = [], m_soAll = [], m_sotAll = [], m_oOids = [],
     m_ridToVid = [], m_vidToRid = [], m_removedVidToRid = [], m_vidReference = [], m_asicOperationId = 0,
     m_vidToAsicOperationId = [], m_asicOperations = [], m_asicRemoveOperationsNonObjectId = []\<rparr>"

definition deref :: "nat \<Rightarrow> (asic_view, sai_obj) op" where
  "deref p = seq (gets (\<lambda>v. map_of (sv_heap v) p)) (\<lambda>r.
     case r of None \<Rightarrow> raise (Null_Deref ''obj'') | Some x \<Rightarrow> ret x)"

section \<open>Reference counts\<close>

definition releaseVidReference :: "oid \<Rightarrow> (asic_view, unit) op" where
  "releaseVidReference vid = (\<lambda>v.
     if vid = SAI_NULL_OBJECT_ID then (Inr (), v)
     else case map_of (m_vidReference v) vid of
       None \<Rightarrow> (Inl (Throw ''vid doesn't exist in reference map''), v)
     | Some n \<Rightarrow>
         let v1 = v\<lparr>m_vidReference := AList.update vid (n - 1) (m_vidReference v)\<rparr>
         in if n - 1 < 0 then (Inl (Throw ''vid decreased reference count too many times''), v1)
            else if n - 1 = 0
            then (Inr (), v1\<lparr>m_vidToAsicOperationId :=
                     AList.update vid (m_asicOperationId v1) (m_vidToAsicOperationId v1)\<rparr>)
            else (Inr (), v1))"

definition bindNewVidReference :: "oid \<Rightarrow> (asic_view, unit) op" where
  "bindNewVidReference vid = (\<lambda>v.
     if vid = SAI_NULL_OBJECT_ID then (Inr (), v)
     else case map_of (m_vidReference v) vid of
       None \<Rightarrow> (Inl (Throw ''vid doesn't exist in reference map''), v)
     | Some n \<Rightarrow> (Inr (), v\<lparr>m_vidReference := AList.update vid (n + 1) (m_vidReference v)\<rparr>))"

definition releaseExistingLinks_attr :: "sai_attr \<Rightarrow> (asic_view, unit) op" where
  "releaseExistingLinks_attr attr = seq (lift (getOidListFromAttribute attr)) (forM releaseVidReference)"

definition releaseExistingLinks :: "sai_obj \<Rightarrow> (asic_view, unit) op" where
  "releaseExistingLinks o1 = forM (\<lambda>(a, attr). releaseExistingLinks_attr attr) (m_attrs o1)"

definition bindNewLinks_attr :: "sai_attr \<Rightarrow> (asic_view, unit) op" where
  "bindNewLinks_attr attr = seq (lift (getOidListFromAttribute attr)) (forM bindNewVidReference)"

definition bindNewLinks :: "sai_obj \<Rightarrow> (asic_view, unit) op" where
  "bindNewLinks o1 = forM (\<lambda>(a, attr). bindNewLinks_attr attr) (m_attrs o1)"

definition getVidReferenceCount :: "asic_view \<Rightarrow> oid \<Rightarrow> int" where
  "getVidReferenceCount v vid = (case map_of (m_vidReference v) vid of None \<Rightarrow> -1 | Some n \<Rightarrow> n)"

definition insertNewVidReference :: "oid \<Rightarrow> (asic_view, unit) op" where
  "insertNewVidReference vid = (\<lambda>v.
     if has_key (m_vidReference v) vid then (Inl (Throw ''vid already exist in reference map''), v)
     else (Inr (), v\<lparr>m_vidReference := AList.update vid 0 (m_vidReference v)\<rparr>))"

text \<open>\<open>m_vidReference[vid] += n\<close>, which inserts a zero first for a new id.\<close>

definition add_reference :: "oid \<Rightarrow> int \<Rightarrow> asic_view \<Rightarrow> asic_view" where
  "add_reference vid n v =
     (let old = (case map_of (m_vidReference v) vid of None \<Rightarrow> 0 | Some k \<Rightarrow> k)
      in v\<lparr>m_vidReference := AList.update vid (old + n) (m_vidReference v)\<rparr>)"

definition update_member_reference :: "int \<Rightarrow> oid \<Rightarrow> asic_view \<Rightarrow> asic_view" where
  "update_member_reference n vid v =
     (let v1 = add_reference vid n v
      in if map_of (m_vidReference v1) vid = Some 0
         then v1\<lparr>m_vidToAsicOperationId := AList.update vid (m_asicOperationId v1) (m_vidToAsicOperationId v1)\<rparr>
         else v1)"

definition updateNonObjectIdVidReferenceCountByValue :: "sai_obj \<Rightarrow> int \<Rightarrow> (asic_view, unit) op" where
  "updateNonObjectIdVidReferenceCountByValue currentObj n =
     forM (\<lambda>m. if sm_membervaluetype m = VT_OBJECT_ID
               then modify (update_member_reference n (sm_getoid m (m_meta_key currentObj))) else ret ())
       (structmembers (m_info currentObj))"

section \<open>Reading a dump\<close>

text \<open>
  The rows of the dump are given parsed: the object without attributes, and its attributes. Two attributes
  of ACL counters and two of NAT entries are left out, since the vendor changes them.
\<close>

definition ignored_attribute :: "sai_meta \<Rightarrow> object_type \<Rightarrow> u32 \<Rightarrow> bool" where
  "ignored_attribute h t a =
     (t = ot h OT_ACL_COUNTER \<and> (a = attr_id h ACL_COUNTER_ATTR_PACKETS \<or> a = attr_id h ACL_COUNTER_ATTR_BYTES) \<or>
      t = ot h (OT_ENTRY NAT_ENTRY) \<and> (a = attr_id h NAT_ENTRY_ATTR_HIT_BIT_COR \<or> a = attr_id h NAT_ENTRY_ATTR_HIT_BIT))"

definition update_obj :: "nat \<Rightarrow> (sai_obj \<Rightarrow> sai_obj) \<Rightarrow> (asic_view, unit) op" where
  "update_obj p f = seq (deref p) (\<lambda>o1. modify (\<lambda>v. v\<lparr>sv_heap := AList.update p (f o1) (sv_heap v)\<rparr>))"

definition populateAttributes :: "sai_meta \<Rightarrow> nat \<Rightarrow> sai_attr list \<Rightarrow> (asic_view, unit) op" where
  "populateAttributes h p attrs = forM (\<lambda>attr.
     seq (deref p) (\<lambda>o1.
       if ignored_attribute h (so_getObjectType o1) (md_attrid (sa_meta attr)) then ret ()
       else seq (update_obj p (so_setAttr attr)) (\<lambda>_.
            seq (lift (getOidListFromAttribute attr)) (forM (\<lambda>vid.
              if vid \<noteq> SAI_NULL_OBJECT_ID then modify (add_reference vid 1) else ret ()))))) attrs"

text \<open>The hashes an object is entered in, and taken from.\<close>

definition entry_table :: "sai_meta \<Rightarrow> object_type \<Rightarrow> entry_name option" where
  "entry_table h t = find (\<lambda>e. t = ot h (OT_ENTRY e))
     [FDB_ENTRY, NEIGHBOR_ENTRY, ROUTE_ENTRY, NAT_ENTRY, INSEG_ENTRY, MY_SID_ENTRY]"

definition sot_insert :: "object_type \<Rightarrow> string \<Rightarrow> nat \<Rightarrow> asic_view \<Rightarrow> asic_view" where
  "sot_insert t key p v =
     (let old = (case map_of (m_sotAll v) t of None \<Rightarrow> [] | Some m \<Rightarrow> m)
      in v\<lparr>m_soAll := AList.update key p (m_soAll v),
           m_sotAll := AList.update t (AList.update key p old) (m_sotAll v)\<rparr>)"

definition sot_erase :: "object_type \<Rightarrow> string \<Rightarrow> (asic_view, unit) op" where
  "sot_erase t key =
     seq (modify (\<lambda>v. v\<lparr>m_soAll := AList.delete key (m_soAll v)\<rparr>)) (\<lambda>_.
     seq (gets (\<lambda>v. map_of (m_sotAll v) t)) (\<lambda>r.
       case r of
         None \<Rightarrow> raise (Throw ''out_of_range'')
       | Some m \<Rightarrow> modify (\<lambda>v. v\<lparr>m_sotAll := AList.update t (AList.delete key m) (m_sotAll v)\<rparr>)))"

definition insert_oid_object :: "sai_obj \<Rightarrow> nat \<Rightarrow> asic_view \<Rightarrow> asic_view" where
  "insert_oid_object o1 p v = v\<lparr>m_soOids := AList.update (m_str_object_id o1) p (m_soOids v),
     m_oOids := AList.update (object_id (m_meta_key o1)) p (m_oOids v)\<rparr>"

definition fromDump_row :: "sai_meta \<Rightarrow> nat \<times> sai_obj \<times> sai_attr list \<Rightarrow> (asic_view, unit) op" where
  "fromDump_row h row = (case row of (p, o1, attrs) \<Rightarrow>
     seq (modify (\<lambda>v. v\<lparr>sv_heap := AList.update p o1 (sv_heap v)\<rparr>)) (\<lambda>_.
     seq (case entry_table h (so_getObjectType o1) of
            Some e \<Rightarrow> modify (\<lambda>v. v\<lparr>m_soEntries := AList.update (e, m_str_object_id o1) p (m_soEntries v)\<rparr>)
          | None \<Rightarrow>
              if isnonobjectid (m_info o1) then raise (Throw ''object is non object id, not handled'')
              else modify (insert_oid_object o1 p)) (\<lambda>_.
     seq (modify (sot_insert (so_getObjectType o1) (m_str_object_id o1) p)) (\<lambda>_.
     seq (if isnonobjectid (m_info o1) then updateNonObjectIdVidReferenceCountByValue o1 1
          else modify (add_reference (object_id (m_meta_key o1)) 0)) (\<lambda>_.
     populateAttributes h p attrs)))))"

definition fromDump :: "sai_meta \<Rightarrow> (nat \<times> sai_obj \<times> sai_attr list) list \<Rightarrow> (asic_view, unit) op" where
  "fromDump h dump =
     seq (forM (fromDump_row h) dump) (\<lambda>_.
       if length (filter (\<lambda>(p, o1, attrs). so_getObjectType o1 = ot_switch h) dump) \<noteq> 1
       then raise (Throw ''only one switch is expected in ASIC view'') else ret ())"

section \<open>Changes of the view\<close>

definition view_objects_of_type :: "object_type \<Rightarrow> asic_view \<Rightarrow> nat list" where
  "view_objects_of_type t v = (case map_of (m_sotAll v) t of None \<Rightarrow> [] | Some m \<Rightarrow> map snd m)"

definition is_not_processed :: "asic_view \<Rightarrow> nat \<Rightarrow> bool" where
  "is_not_processed v p = (case map_of (sv_heap v) p of None \<Rightarrow> False | Some o1 \<Rightarrow> m_objectStatus o1 = NOT_PROCESSED)"

definition getNotProcessedObjectsByObjectType :: "object_type \<Rightarrow> asic_view \<Rightarrow> nat list" where
  "getNotProcessedObjectsByObjectType t v = filter (is_not_processed v) (view_objects_of_type t v)"

definition getAllNotProcessedObjects :: "asic_view \<Rightarrow> nat list" where
  "getAllNotProcessedObjects v = filter (is_not_processed v) (map snd (m_soAll v))"

text \<open>\<open>p\<close> is the address of the new object; the name of the type is printed by \<open>print_type\<close>.\<close>

definition createDummyExistingObject ::
  "sai_meta \<Rightarrow> (object_type \<Rightarrow> string) \<Rightarrow> oid \<Rightarrow> oid \<Rightarrow> nat \<Rightarrow> (asic_view, nat) op" where
  "createDummyExistingObject h print_type rid vid p =
     seq (lift (vid_objectTypeQuery (sai_headers.truncate h) vid)) (\<lambda>object_type.
       if object_type = SAI_OBJECT_TYPE_NULL then raise (Throw ''got null object type from VID'')
       else case get_object_type_info h object_type of
         None \<Rightarrow> raise (Null_Deref ''m_info'')
       | Some info \<Rightarrow>
           let o1 = \<lparr>m_str_object_type = print_type object_type, m_str_object_id = sai_serialize_object_id vid,
                     m_meta_key = oid_key object_type vid, m_info = info, m_attrs = [],
                     m_createdObject = False, m_objectStatus = NOT_PROCESSED\<rparr>
           in seq (modify (\<lambda>v. v\<lparr>sv_heap := AList.update p o1 (sv_heap v)\<rparr>)) (\<lambda>_.
              seq (modify (insert_oid_object o1 p)) (\<lambda>_.
              seq (modify (add_reference vid 0)) (\<lambda>_.
              seq (modify (sot_insert object_type (m_str_object_id o1) p)) (\<lambda>_.
              seq (modify (\<lambda>v. v\<lparr>m_ridToVid := AList.update rid vid (m_ridToVid v),
                                   m_vidToRid := AList.update vid rid (m_vidToRid v)\<rparr>)) (\<lambda>_.
              ret p))))))"

definition next_operation :: "(asic_view, unit) op" where
  "next_operation = modify (\<lambda>v. v\<lparr>m_asicOperationId := m_asicOperationId v + 1\<rparr>)"

definition object_kco :: "sai_obj \<Rightarrow> string \<Rightarrow> (string \<times> string) list \<Rightarrow> kco" where
  "object_kco o1 name fvs =
     \<lparr>kco_key = m_str_object_type o1 @ '':'' @ m_str_object_id o1, kco_op = name, kco_fields = fvs\<rparr>"

definition operation_vid :: "sai_obj \<Rightarrow> oid" where
  "operation_vid o1 = (if isOidObject o1 then object_id (m_meta_key o1) else SAI_NULL_OBJECT_ID)"

definition push_operation :: "oid \<Rightarrow> bool \<Rightarrow> kco \<Rightarrow> string \<Rightarrow> (asic_view, unit) op" where
  "push_operation vid remove k old = modify (\<lambda>v. v\<lparr>m_asicOperations := m_asicOperations v @
     [\<lparr>m_opId = m_asicOperationId v, m_vid = vid, m_isRemove = remove, m_op = k, m_currentValue = old\<rparr>]\<rparr>)"

text \<open>The value printed again for the request is \<open>serialize_attr\<close> of the attribute.\<close>

definition asicSetAttribute ::
  "(object_type \<Rightarrow> sai_attribute \<Rightarrow> string \<times> string) \<Rightarrow> nat \<Rightarrow> sai_attr \<Rightarrow> (asic_view, unit) op" where
  "asicSetAttribute serialize_attr p attr =
     seq next_operation (\<lambda>_.
     seq (deref p) (\<lambda>currentObj.
       let attrid = md_attrid (sa_meta attr);
           currentAttr = tryGetSaiAttr currentObj attrid
       in seq (if md_isoidattribute (sa_meta attr) then
                 seq (if so_hasAttr currentObj attrid
                      then seq (lift (getSaiAttr currentObj attrid)) releaseExistingLinks_attr else ret ()) (\<lambda>_.
                 seq (update_obj p (so_setAttr attr)) (\<lambda>_.
                 seq (deref p) (\<lambda>o1.
                 seq (lift (getSaiAttr o1 attrid)) bindNewLinks_attr)))
               else update_obj p (so_setAttr attr)) (\<lambda>_.
          push_operation (operation_vid currentObj) False
            (object_kco currentObj ''set'' [serialize_attr (so_getObjectType currentObj) (sa_attr attr)])
            (case currentAttr of None \<Rightarrow> '''' | Some a \<Rightarrow> m_str_attr_value a))))"

definition create_fields :: "sai_obj \<Rightarrow> (string \<times> string) list" where
  "create_fields o1 =
     (let fvs = map (\<lambda>(a, attr). (m_str_attr_id attr, m_str_attr_value attr)) (m_attrs o1)
      in if fvs = [] then [(''NULL'', ''NULL'')] else fvs)"

definition asicCreateObject :: "sai_meta \<Rightarrow> nat \<Rightarrow> (asic_view, unit) op" where
  "asicCreateObject h p =
     seq (deref p) (\<lambda>currentObj.
     seq next_operation (\<lambda>_.
     seq (if isOidObject currentObj then
            seq (modify (insert_oid_object currentObj p)) (\<lambda>_.
            seq (modify (sot_insert (so_getObjectType currentObj) (m_str_object_id currentObj) p)) (\<lambda>_.
            modify (add_reference (object_id (m_meta_key currentObj)) 0)))
          else
            case entry_table h (so_getObjectType currentObj) of
              None \<Rightarrow> raise (Throw ''unsupported object type'')
            | Some e \<Rightarrow>
                seq (modify (\<lambda>v. v\<lparr>m_soEntries := AList.update (e, m_str_object_id currentObj) p (m_soEntries v)\<rparr>)) (\<lambda>_.
                seq (modify (sot_insert (so_getObjectType currentObj) (m_str_object_id currentObj) p)) (\<lambda>_.
                updateNonObjectIdVidReferenceCountByValue currentObj 1))) (\<lambda>_.
     seq (bindNewLinks currentObj) (\<lambda>_.
     push_operation (operation_vid currentObj) False (object_kco currentObj ''create'' (create_fields currentObj)) ''''))))"

definition asicRemoveObject :: "sai_meta \<Rightarrow> nat \<Rightarrow> (asic_view, unit) op" where
  "asicRemoveObject h p =
     seq (deref p) (\<lambda>currentObj.
     if m_objectStatus currentObj \<noteq> NOT_PROCESSED then raise (Throw ''removing object with status, logic error'')
     else
       let vid = object_id (m_meta_key currentObj)
       in seq next_operation (\<lambda>_.
          seq (if isOidObject currentObj then
                 seq (gets (\<lambda>v. getVidReferenceCount v vid)) (\<lambda>count.
                   if count \<noteq> 0 then raise (Throw ''can't remove existing object since reference count'')
                   else
                     seq (modify (\<lambda>v. v\<lparr>m_soOids := AList.delete (m_str_object_id currentObj) (m_soOids v),
                                          m_oOids := AList.delete vid (m_oOids v)\<rparr>)) (\<lambda>_.
                     seq (sot_erase (so_getObjectType currentObj) (m_str_object_id currentObj)) (\<lambda>_.
                     seq (modify (add_reference vid (- 1))) (\<lambda>_.
                     seq (gets (\<lambda>v. map_of (m_vidToRid v) vid)) (\<lambda>r.
                       case r of
                         None \<Rightarrow> raise (Throw ''out_of_range'')
                       | Some rid \<Rightarrow> modify (\<lambda>v. v\<lparr>m_ridToVid := AList.delete rid (m_ridToVid v),
                           m_vidToRid := AList.delete vid (m_vidToRid v),
                           m_removedVidToRid := AList.update vid rid (m_removedVidToRid v)\<rparr>))))))
               else
                 case entry_table h (so_getObjectType currentObj) of
                   None \<Rightarrow> raise (Throw ''unsupported object type'')
                 | Some e \<Rightarrow>
                     seq (modify (\<lambda>v. v\<lparr>m_soEntries := AList.delete (e, m_str_object_id currentObj) (m_soEntries v)\<rparr>)) (\<lambda>_.
                     seq (sot_erase (so_getObjectType currentObj) (m_str_object_id currentObj)) (\<lambda>_.
                     updateNonObjectIdVidReferenceCountByValue currentObj (- 1)))) (\<lambda>_.
          seq (releaseExistingLinks currentObj) (\<lambda>_.
          let k = object_kco currentObj ''remove'' []
          in if isOidObject currentObj then push_operation (operation_vid currentObj) True k ''''
             else modify (\<lambda>v. v\<lparr>m_asicRemoveOperationsNonObjectId := m_asicRemoveOperationsNonObjectId v @
               [\<lparr>m_opId = m_asicOperationId v, m_vid = operation_vid currentObj, m_isRemove = True, m_op = k,
                  m_currentValue = ''''\<rparr>]\<rparr>)))))"

section \<open>The list of operations\<close>

definition asicGetOperations :: "asic_view \<Rightarrow> asic_operation list" where
  "asicGetOperations v = m_asicRemoveOperationsNonObjectId v @ m_asicOperations v"

definition asicGetOperationsCount :: "asic_view \<Rightarrow> nat" where
  "asicGetOperationsCount v = length (m_asicOperations v) + length (m_asicRemoveOperationsNonObjectId v)"

definition insert_at :: "nat \<Rightarrow> 'a \<Rightarrow> 'a list \<Rightarrow> 'a list" where
  "insert_at i x xs = take i xs @ x # drop i xs"

fun find_op :: "nat \<Rightarrow> asic_operation list \<Rightarrow> nat option" where
  "find_op i [] = None"
| "find_op i (x # xs) = (if m_opId x = i then Some 0 else map_option Suc (find_op i xs))"

text \<open>One round of the loop: the list \<open>v\<close> built so far, and the place \<open>index\<close> up to which removals were moved.\<close>

definition optimize_step ::
  "sai_headers \<Rightarrow> (oid, nat) alist \<Rightarrow> asic_operation \<Rightarrow> asic_operation list \<times> nat \<Rightarrow> fault + asic_operation list \<times> nat" where
  "optimize_step H vidToAsicOperationId aop st = (case st of (v, index) \<Rightarrow>
     if \<not> m_isRemove aop then Inr (v @ [aop], index)
     else if m_vid aop = SAI_NULL_OBJECT_ID then Inl (Throw ''non object id remove not expected here'')
     else case map_of vidToAsicOperationId (m_vid aop) of
       None \<Rightarrow> bindE (vid_objectTypeQuery H (m_vid aop)) (\<lambda>t. Inr (insert_at index aop v, index + 1))
     | Some lastOpIdDecRef \<Rightarrow>
         case find_op lastOpIdDecRef v of
           None \<Rightarrow> Inl (Throw ''something wrong, vid in map, but not found on list!'')
         | Some i \<Rightarrow>
             if m_isRemove (v ! i) then Inr (v @ [aop], index)
             else
               let index' = (if index < i + 1 then i + 1 else index)
               in bindE (vid_objectTypeQuery H (m_vid aop)) (\<lambda>t. Inr (insert_at index' aop v, index' + 1)))"

fun optimize_loop ::
  "sai_headers \<Rightarrow> (oid, nat) alist \<Rightarrow> asic_operation list \<Rightarrow> asic_operation list \<times> nat \<Rightarrow> fault + asic_operation list" where
  "optimize_loop H m [] st = Inr (fst st)"
| "optimize_loop H m (aop # aops) st = bindE (optimize_step H m aop st) (optimize_loop H m aops)"

definition asicGetWithOptimizedRemoveOperations :: "sai_headers \<Rightarrow> asic_view \<Rightarrow> fault + asic_operation list" where
  "asicGetWithOptimizedRemoveOperations H v =
     (let first = m_asicRemoveOperationsNonObjectId v
      in optimize_loop H (m_vidToAsicOperationId v) (m_asicOperations v) (first, length first))"

section \<open>Queries\<close>

definition hasRid :: "asic_view \<Rightarrow> oid \<Rightarrow> bool" where
  "hasRid v rid = has_key (m_ridToVid v) rid"

definition hasVid :: "asic_view \<Rightarrow> oid \<Rightarrow> bool" where
  "hasVid v vid = has_key (m_vidToRid v) vid"

definition checkObjectsStatus :: "asic_view \<Rightarrow> fault + unit" where
  "checkObjectsStatus v =
     (if list_all (\<lambda>(key, p). case map_of (sv_heap v) p of None \<Rightarrow> False | Some o1 \<Rightarrow> m_objectStatus o1 = FINAL) (m_soAll v)
      then Inr () else Inl (Throw ''objects were not processed''))"

fun getSwitchVid_loop :: "sai_headers \<Rightarrow> object_type \<Rightarrow> oid list \<Rightarrow> fault + oid" where
  "getSwitchVid_loop H sw [] = Inl (Throw ''no SWITCH present in ASIC view, FATAL'')"
| "getSwitchVid_loop H sw (vid # vids) =
     bindE (vid_objectTypeQuery H vid) (\<lambda>t. if t = sw then Inr vid else getSwitchVid_loop H sw vids)"

definition getSwitchVid :: "sai_headers \<Rightarrow> asic_view \<Rightarrow> fault + oid" where
  "getSwitchVid H v = getSwitchVid_loop H (ot_switch H) (keys (m_vidToRid v))"

end
