(* ===== verification/Asic_Refs.thy ===== *)
theory Asic_Refs
  imports Asic_View
begin

text \<open>
  What the reference counts of an \<open>AsicView\<close> count: the virtual ids in the attributes of its objects and in the keys
  of its entries; and how each operation that counts changes them.
\<close>

section \<open>Uses of a virtual id\<close>

definition sa_oids :: "sai_attr \<Rightarrow> oid list" where
  "sa_oids attr = (case getOidListFromAttribute attr of Inl e \<Rightarrow> [] | Inr vids \<Rightarrow> vids)"

definition so_members :: "sai_obj \<Rightarrow> oid list" where
  "so_members o1 = map (\<lambda>m. sm_getoid m (m_meta_key o1))
     (filter (\<lambda>m. sm_membervaluetype m = VT_OBJECT_ID) (structmembers (m_info o1)))"

definition key_oids :: "sai_obj \<Rightarrow> oid list" where
  "key_oids o1 = (if isOidObject o1 then [] else so_members o1)"

definition attrs_oids :: "sai_obj \<Rightarrow> oid list" where
  "attrs_oids o1 = concat (map (\<lambda>x. sa_oids (snd x)) (m_attrs o1))"

definition obj_oids :: "sai_obj \<Rightarrow> oid list" where
  "obj_oids o1 = key_oids o1 @ attrs_oids o1"

definition uses_at :: "(nat, sai_obj) alist \<Rightarrow> oid \<Rightarrow> string \<Rightarrow> nat \<Rightarrow> nat" where
  "uses_at heap X key p = (case map_of heap p of None \<Rightarrow> 0 | Some o1 \<Rightarrow> count_list (obj_oids o1) X)"

definition uses :: "asic_view \<Rightarrow> oid \<Rightarrow> nat" where
  "uses v X = alist_sum (uses_at (sv_heap v) X) (m_soAll v)"

definition ref_count :: "asic_view \<Rightarrow> oid \<Rightarrow> int" where
  "ref_count v X = (case map_of (m_vidReference v) X of None \<Rightarrow> 0 | Some n \<Rightarrow> n)"

definition last_release :: "asic_view \<Rightarrow> oid \<Rightarrow> nat option" where
  "last_release v X = map_of (m_vidToAsicOperationId v) X"

section \<open>Changes of the counts\<close>

text \<open>
  From \<open>v\<close> to \<open>v'\<close> only counts and last releases have changed: the counts by \<open>\<delta>\<close>, and only those of \<open>M\<close>; an id
  of \<open>M\<close> that is not not_below any more was last released by the operation under way.
\<close>

definition count_change :: "asic_view \<Rightarrow> asic_view \<Rightarrow> (oid \<Rightarrow> int) \<Rightarrow> oid set \<Rightarrow> bool" where
  "count_change v v' \<delta> M \<longleftrightarrow>
     v' = v\<lparr>m_vidReference := m_vidReference v', m_vidToAsicOperationId := m_vidToAsicOperationId v'\<rparr> \<and>
     (\<forall>X. X \<noteq> 0 \<longrightarrow> ref_count v' X = ref_count v X + \<delta> X) \<and>
     (\<forall>X. X \<noteq> 0 \<longrightarrow> X \<notin> M \<longrightarrow> \<delta> X = 0) \<and>
     (\<forall>X. X \<noteq> 0 \<longrightarrow> last_release v' X = last_release v X \<or>
        X \<in> M \<and> last_release v' X = Some (m_asicOperationId v)) \<and>
     (\<forall>X\<in>M. X \<noteq> 0 \<longrightarrow> ref_count v' X \<le> 0 \<longrightarrow> last_release v' X = Some (m_asicOperationId v))"

lemma count_change_refl: "count_change v v (\<lambda>X. 0) {}"
  by (simp add: count_change_def)

lemma count_change_null:
  assumes "count_change v v' \<delta> M" shows "count_change v v' \<delta> (insert 0 M)"
  using assms by (auto simp: count_change_def)

lemma count_change_frame:
  assumes "count_change v v' \<delta> M"
  shows "sv_heap v' = sv_heap v" "m_soAll v' = m_soAll v" "m_asicOperationId v' = m_asicOperationId v"
    "m_asicOperations v' = m_asicOperations v" "m_removedVidToRid v' = m_removedVidToRid v"
    "m_asicRemoveOperationsNonObjectId v' = m_asicRemoveOperationsNonObjectId v"
proof -
  have v': "v' = v\<lparr>m_vidReference := m_vidReference v', m_vidToAsicOperationId := m_vidToAsicOperationId v'\<rparr>"
    using assms by (simp add: count_change_def)
  show "sv_heap v' = sv_heap v" by (subst v') simp
  show "m_soAll v' = m_soAll v" by (subst v') simp
  show "m_asicOperationId v' = m_asicOperationId v" by (subst v') simp
  show "m_asicOperations v' = m_asicOperations v" by (subst v') simp
  show "m_removedVidToRid v' = m_removedVidToRid v" by (subst v') simp
  show "m_asicRemoveOperationsNonObjectId v' = m_asicRemoveOperationsNonObjectId v" by (subst v') simp
qed

lemma frame_trans:
  "v1 = v\<lparr>m_vidReference := r, m_vidToAsicOperationId := l\<rparr> \<Longrightarrow>
     v2 = v1\<lparr>m_vidReference := r', m_vidToAsicOperationId := l'\<rparr> \<Longrightarrow>
     v2 = v\<lparr>m_vidReference := r', m_vidToAsicOperationId := l'\<rparr>"
  by simp

lemma count_change_trans:
  assumes a: "count_change v v1 \<delta> M" and b: "count_change v1 v2 \<epsilon> N"
  shows "count_change v v2 (\<lambda>X. \<delta> X + \<epsilon> X) (M \<union> N)"
proof -
  note opid = count_change_frame(3) [OF a]
  have v1: "v1 = v\<lparr>m_vidReference := m_vidReference v1, m_vidToAsicOperationId := m_vidToAsicOperationId v1\<rparr>"
    using a by (simp add: count_change_def)
  have v2: "v2 = v1\<lparr>m_vidReference := m_vidReference v2, m_vidToAsicOperationId := m_vidToAsicOperationId v2\<rparr>"
    using b by (simp add: count_change_def)
  note v2 = frame_trans [OF v1 v2]
  have at: "ref_count v2 X = ref_count v X + (\<delta> X + \<epsilon> X) \<and> (X \<notin> M \<union> N \<longrightarrow> \<delta> X + \<epsilon> X = 0) \<and>
    (last_release v2 X = last_release v X \<or> X \<in> M \<union> N \<and> last_release v2 X = Some (m_asicOperationId v)) \<and>
    (X \<in> M \<union> N \<longrightarrow> ref_count v2 X \<le> 0 \<longrightarrow> last_release v2 X = Some (m_asicOperationId v))" if "X \<noteq> 0" for X
  proof -
    from a that have "ref_count v1 X = ref_count v X + \<delta> X" "X \<notin> M \<Longrightarrow> \<delta> X = 0"
      "last_release v1 X = last_release v X \<or> X \<in> M \<and> last_release v1 X = Some (m_asicOperationId v)"
      "X \<in> M \<Longrightarrow> ref_count v1 X \<le> 0 \<Longrightarrow> last_release v1 X = Some (m_asicOperationId v)"
      by (simp_all add: count_change_def)
    moreover from b that have "ref_count v2 X = ref_count v1 X + \<epsilon> X" "X \<notin> N \<Longrightarrow> \<epsilon> X = 0"
      "last_release v2 X = last_release v1 X \<or> X \<in> N \<and> last_release v2 X = Some (m_asicOperationId v)"
      "X \<in> N \<Longrightarrow> ref_count v2 X \<le> 0 \<Longrightarrow> last_release v2 X = Some (m_asicOperationId v)"
      by (simp_all add: count_change_def opid)
    ultimately show ?thesis by (cases "X \<in> N") auto
  qed
  show ?thesis unfolding count_change_def using v2 at by blast
qed

section \<open>Releasing and binding\<close>

definition one :: "oid \<Rightarrow> oid \<Rightarrow> int" where
  "one vid = (\<lambda>X. if X = vid then 1 else 0)"

lemma release_change:
  assumes "releaseVidReference vid v = (Inr (), v')"
  shows "count_change v v' (\<lambda>X. - one vid X) {vid}"
proof (cases "vid = 0")
  case True
  with assms show ?thesis by (simp add: releaseVidReference_def count_change_def one_def)
next
  case False
  with assms obtain n where "map_of (m_vidReference v) vid = Some n" "0 \<le> n - 1"
    by (auto simp: releaseVidReference_def Let_def split: option.splits if_splits)
  with assms False show ?thesis
    by (auto simp: releaseVidReference_def count_change_def one_def ref_count_def last_release_def Let_def split: if_splits)
qed

lemma bind_change:
  assumes "bindNewVidReference vid v = (Inr (), v')" and "vid \<noteq> 0 \<longrightarrow> 0 \<le> ref_count v vid"
  shows "count_change v v' (one vid) {vid}"
proof (cases "vid = 0")
  case True
  with assms show ?thesis by (simp add: bindNewVidReference_def count_change_def one_def)
next
  case False
  with assms show ?thesis
    by (auto simp: bindNewVidReference_def count_change_def one_def ref_count_def last_release_def split: option.splits)
qed

lemma add_reference_change:
  assumes "vid \<noteq> 0 \<longrightarrow> 0 \<le> ref_count v vid" and "0 < n"
  shows "count_change v (add_reference vid n v) (\<lambda>X. n * one vid X) {vid}"
  using assms by (auto simp: add_reference_def count_change_def one_def ref_count_def last_release_def Let_def)

lemma update_member_change:
  assumes "vid \<noteq> 0 \<longrightarrow> 0 \<le> ref_count v vid + n"
  shows "count_change v (update_member_reference n vid v) (\<lambda>X. n * one vid X) {vid}"
  using assms
  by (auto simp: update_member_reference_def add_reference_def count_change_def one_def ref_count_def last_release_def Let_def)

text \<open>A loop whose rounds each change the counts, under a condition the rounds keep.\<close>

lemma loop_change:
  assumes "forM f xs v = (Inr (), v')" and "I v"
    and "\<And>x v v'. x \<in> set xs \<Longrightarrow> f x v = (Inr (), v') \<Longrightarrow> I v \<Longrightarrow> count_change v v' (\<delta> x) (M x) \<and> I v'"
  shows "count_change v v' (\<lambda>X. \<Sum>x\<leftarrow>xs. \<delta> x X) (\<Union>x\<in>set xs. M x) \<and> I v'"
  using assms
proof (induction xs arbitrary: v)
  case Nil
  then show ?case by (simp add: ret_def count_change_refl)
next
  case (Cons x xs)
  then obtain v1 where v1: "f x v = (Inr (), v1)" "forM f xs v1 = (Inr (), v')" by (auto simp only: forM_Cons_Inr)
  have first: "count_change v v1 (\<delta> x) (M x) \<and> I v1"
    using Cons.prems(3) [OF _ v1(1) Cons.prems(2)] by simp
  have "count_change v1 v' (\<lambda>X. \<Sum>x\<leftarrow>xs. \<delta> x X) (\<Union>x\<in>set xs. M x) \<and> I v'"
    using first by (intro Cons.IH [OF v1(2)] Cons.prems(3)) auto
  with first show ?case using count_change_trans by fastforce
qed

lemma sum_one: "(\<Sum>vid\<leftarrow>vids. one vid X) = int (count_list vids X)"
  by (induction vids) (auto simp: one_def)

definition not_below :: "asic_view \<Rightarrow> oid set \<Rightarrow> bool" where
  "not_below v M \<longleftrightarrow> (\<forall>X\<in>M. X \<noteq> 0 \<longrightarrow> 0 \<le> ref_count v X)"

lemma not_below_change:
  assumes "count_change v v' \<delta> N" "not_below v M" "\<And>X. 0 \<le> \<delta> X" shows "not_below v' M"
  using assms by (auto simp: not_below_def count_change_def)

lemma release_all_change:
  assumes "forM releaseVidReference vids v = (Inr (), v')"
  shows "count_change v v' (\<lambda>X. - int (count_list vids X)) (set vids)"
  using loop_change [OF assms, of "\<lambda>v. True" "\<lambda>vid X. - one vid X" "\<lambda>vid. {vid}"]
  by (simp add: release_change sum_one [symmetric] uminus_sum_list_map o_def)

lemma bind_all_change:
  assumes "forM bindNewVidReference vids v = (Inr (), v')" and "not_below v (set vids)"
  shows "count_change v v' (\<lambda>X. int (count_list vids X)) (set vids)"
proof -
  have "count_change v v' (one vid) {vid} \<and> not_below v' (set vids)"
    if "vid \<in> set vids" "bindNewVidReference vid v = (Inr (), v')" "not_below v (set vids)" for vid v v'
  proof -
    have "count_change v v' (one vid) {vid}" by (rule bind_change) (use that in \<open>auto simp: not_below_def\<close>)
    moreover from this have "not_below v' (set vids)" by (rule not_below_change) (use that in \<open>auto simp: one_def\<close>)
    ultimately show ?thesis ..
  qed
  from loop_change [OF assms(1), of "\<lambda>v. not_below v (set vids)" one "\<lambda>vid. {vid}", OF assms(2) this]
  show ?thesis by (simp add: sum_one)
qed

lemma release_attr_change:
  assumes "releaseExistingLinks_attr attr v = (Inr (), v')"
  shows "count_change v v' (\<lambda>X. - int (count_list (sa_oids attr) X)) (set (sa_oids attr))"
  using assms
  by (auto simp: releaseExistingLinks_attr_def seq_Inr lift_def sa_oids_def intro: release_all_change)

lemma bind_attr_change:
  assumes "bindNewLinks_attr attr v = (Inr (), v')" and "not_below v (set (sa_oids attr))"
  shows "count_change v v' (\<lambda>X. int (count_list (sa_oids attr) X)) (set (sa_oids attr))"
  using assms by (auto simp: bindNewLinks_attr_def seq_Inr lift_def sa_oids_def intro: bind_all_change)

lemma attrs_sum:
  "(\<Sum>x\<leftarrow>al. int (count_list (sa_oids (snd x)) X)) =
     int (count_list (concat (map (\<lambda>x. sa_oids (snd x)) al)) X)"
  by (induction al) auto

lemma attrs_oids_set: "set (attrs_oids o1) = (\<Union>x\<in>set (m_attrs o1). set (sa_oids (snd x)))"
  by (simp add: attrs_oids_def)

lemma release_links_change:
  assumes "releaseExistingLinks o1 v = (Inr (), v')"
  shows "count_change v v' (\<lambda>X. - int (count_list (attrs_oids o1) X)) (set (attrs_oids o1))"
proof -
  have loop: "forM (\<lambda>x. releaseExistingLinks_attr (snd x)) (m_attrs o1) v = (Inr (), v')"
    using assms by (simp add: releaseExistingLinks_def case_prod_beta')
  from loop_change [OF this, of "\<lambda>v. True" "\<lambda>x X. - int (count_list (sa_oids (snd x)) X)"
      "\<lambda>x. set (sa_oids (snd x))"]
  show ?thesis
    by (simp add: release_attr_change attrs_oids_def attrs_sum [symmetric] uminus_sum_list_map o_def)
qed

lemma bind_links_change:
  assumes "bindNewLinks o1 v = (Inr (), v')" and "not_below v (set (attrs_oids o1))"
  shows "count_change v v' (\<lambda>X. int (count_list (attrs_oids o1) X)) (set (attrs_oids o1))"
proof -
  let ?I = "\<lambda>v. not_below v (set (attrs_oids o1))"
  have loop: "forM (\<lambda>x. bindNewLinks_attr (snd x)) (m_attrs o1) v = (Inr (), v')"
    using assms by (simp add: bindNewLinks_def case_prod_beta')
  have "count_change v v' (\<lambda>X. int (count_list (sa_oids (snd x)) X)) (set (sa_oids (snd x))) \<and> ?I v'"
    if "x \<in> set (m_attrs o1)" "bindNewLinks_attr (snd x) v = (Inr (), v')" "?I v" for x v v'
  proof -
    have "not_below v (set (sa_oids (snd x)))" using that by (auto simp: not_below_def attrs_oids_set)
    with bind_attr_change that have
      c: "count_change v v' (\<lambda>X. int (count_list (sa_oids (snd x)) X)) (set (sa_oids (snd x)))" by blast
    with not_below_change [OF c that(3)] show ?thesis by simp
  qed
  from loop_change [OF loop, of ?I "\<lambda>x X. int (count_list (sa_oids (snd x)) X)" "\<lambda>x. set (sa_oids (snd x))",
      OF assms(2) this]
  show ?thesis by (simp add: attrs_oids_def attrs_sum)
qed

text \<open>The keys of entries, whose members are counted up or down.\<close>

lemma members_loop:
  "updateNonObjectIdVidReferenceCountByValue o1 n v = (r, v') \<longleftrightarrow>
     r = Inr () \<and> v' = fold (update_member_reference n) (so_members o1) v"
proof -
  have "forM (\<lambda>m. if sm_membervaluetype m = VT_OBJECT_ID
               then modify (update_member_reference n (sm_getoid m (m_meta_key o1))) else ret ()) ms v
      = (Inr (), fold (update_member_reference n) (map (\<lambda>m. sm_getoid m (m_meta_key o1))
          (filter (\<lambda>m. sm_membervaluetype m = VT_OBJECT_ID) ms)) v)" for ms v
    by (induction ms arbitrary: v) (auto simp: op_defs)
  then show ?thesis by (auto simp: updateNonObjectIdVidReferenceCountByValue_def so_members_def)
qed

lemma members_change:
  assumes "\<And>X. X \<noteq> 0 \<Longrightarrow> X \<in> set vids \<Longrightarrow> (if n = 1 then 0 else int (count_list vids X)) \<le> ref_count v X"
    and "n = 1 \<or> n = - 1"
  shows "count_change v (fold (update_member_reference n) vids v) (\<lambda>X. n * int (count_list vids X)) (set vids)"
  using assms
proof (induction vids arbitrary: v)
  case Nil
  then show ?case by (simp add: count_change_refl)
next
  case (Cons vid vids)
  let ?v = "update_member_reference n vid v"
  have first: "count_change v ?v (\<lambda>X. n * one vid X) {vid}"
    using Cons.prems(1) [of vid] Cons.prems(2) by (intro update_member_change) auto
  have "count_change ?v (fold (update_member_reference n) vids ?v) (\<lambda>X. n * int (count_list vids X)) (set vids)"
  proof (rule Cons.IH)
    fix X :: oid assume X: "X \<noteq> 0" "X \<in> set vids"
    moreover from first X have "ref_count ?v X = ref_count v X + n * one vid X" by (simp add: count_change_def)
    ultimately show "(if n = 1 then 0 else int (count_list vids X)) \<le> ref_count ?v X"
      using Cons.prems(1) [of X] Cons.prems(2) by (auto simp: one_def split: if_splits)
  qed (rule Cons.prems(2))
  moreover have "(\<lambda>X. n * one vid X + n * int (count_list vids X)) = (\<lambda>X. n * int (count_list (vid # vids) X))"
    by (auto simp: one_def algebra_simps)
  ultimately show ?case using count_change_trans [OF first, of _ "\<lambda>X. n * int (count_list vids X)" "set vids"] by simp
qed

end
