(* ===== verification/Asic_Order.thy ===== *)
theory Asic_Order
  imports Asic_View "HOL-Library.Sublist" "HOL-Library.Multiset"
begin

text \<open>
  The order \<open>AsicView::asicGetWithOptimizedRemoveOperations\<close> gives to the operations of a view: which lists of
  operations it does not fail on, and what it keeps of their order.
\<close>

section \<open>What precedes what in a list\<close>

definition precedes :: "'a list \<Rightarrow> 'a \<Rightarrow> 'a \<Rightarrow> bool" where
  "precedes xs a b = subseq [a, b] xs"

lemma subseq_insert_at: "subseq xs (insert_at i x xs)"
proof -
  have "subseq (take i xs @ drop i xs) (take i xs @ x # drop i xs)"
    by (rule list_emb_append_mono) (auto intro: list_emb.intros)
  then show ?thesis by (simp add: insert_at_def)
qed

lemma precedes_insert_at [intro]: "precedes xs a b \<Longrightarrow> precedes (insert_at i x xs) a b"
  unfolding precedes_def using subseq_insert_at subseq_order.trans by metis

lemma precedes_snoc [intro]: "precedes xs a b \<Longrightarrow> precedes (xs @ [x]) a b"
  using precedes_insert_at [of xs a b "length xs" x] by (simp add: insert_at_def)

lemma precedes_inserted: "a \<in> set (take i xs) \<Longrightarrow> precedes (insert_at i x xs) a x"
proof -
  assume "a \<in> set (take i xs)"
  then have "subseq ([a] @ [x]) (take i xs @ x # drop i xs)"
    by (intro list_emb_append_mono) (auto simp: subseq_singleton_left)
  then show ?thesis by (simp add: precedes_def insert_at_def)
qed

lemma precedes_last: "a \<in> set xs \<Longrightarrow> precedes (xs @ [x]) a x"
  using precedes_inserted [of a "length xs" xs x] by (simp add: insert_at_def)

lemma subseq_in_set: "subseq xs ys \<Longrightarrow> x \<in> set xs \<Longrightarrow> x \<in> set ys"
  by (induction rule: list_emb.induct) auto

lemma precedes_position:
  assumes "precedes xs a (xs ! k)" and "distinct xs" and "k < length xs"
  shows "a \<in> set (take k xs)"
proof -
  have xs: "xs = take k xs @ (xs ! k) # drop (Suc k) xs" using assms(3) by (rule id_take_nth_drop)
  with assms(2) have "xs ! k \<notin> set (drop (Suc k) xs)"
    by (metis distinct.simps(2) distinct_append)
  moreover from this have "\<not> subseq [a, xs ! k] (drop (Suc k) xs)"
    using subseq_in_set [of "[a, xs ! k]" _ "xs ! k"] by auto
  moreover have "subseq [a, xs ! k] (take k xs @ (xs ! k) # drop (Suc k) xs)"
    using assms(1) xs by (simp add: precedes_def)
  ultimately show ?thesis
    by (auto dest: subseq_in_set simp: subseq_append_iff subseq_Cons2_iff subseq_singleton_left Cons_eq_append_conv split: if_splits)
qed

lemma mset_insert_at [simp]: "mset (insert_at i x xs) = add_mset x (mset xs)"
  by (metis append_take_drop_id insert_at_def mset.simps(2) mset_append union_mset_add_mset_right)

lemma length_insert_at [simp]: "length (insert_at i x xs) = Suc (length xs)"
  by (metis mset_insert_at size_add_mset size_mset)

lemma filter_insert_at: "\<not> P x \<Longrightarrow> filter P (insert_at i x xs) = filter P xs"
  unfolding insert_at_def by (metis append_take_drop_id filter.simps(2) filter_append)

section \<open>The loop\<close>

lemma find_op_Some: "find_op i xs = Some k \<Longrightarrow> k < length xs \<and> m_opId (xs ! k) = i"
  by (induction xs arbitrary: k) (auto split: if_splits)

lemma find_op_exists: "i \<in> m_opId ` set xs \<Longrightarrow> \<exists>k. find_op i xs = Some k"
  by (induction xs) auto

text \<open>
  What the list of operations, the removals of entries \<open>first\<close> and the map of the last releases are to be, when
  \<open>refers a X\<close> says that the operation \<open>a\<close> has to come before the removal of \<open>X\<close>.
\<close>

definition operations_ok ::
  "sai_headers \<Rightarrow> (oid, nat) alist \<Rightarrow> (asic_operation \<Rightarrow> oid \<Rightarrow> bool) \<Rightarrow> asic_operation list \<Rightarrow> asic_operation list \<Rightarrow> bool" where
  "operations_ok H m refers first ops \<longleftrightarrow>
     distinct (map m_opId (first @ ops)) \<and> sorted_wrt (<) (map m_opId ops) \<and> list_all m_isRemove first \<and>
     (\<forall>r\<in>set ops. m_isRemove r \<longrightarrow>
        m_vid r \<noteq> 0 \<and> (\<exists>t. vid_objectTypeQuery H (m_vid r) = Inr t) \<and>
        (\<forall>i. map_of m (m_vid r) = Some i \<longrightarrow> i \<in> m_opId ` set (first @ ops) \<and> i < m_opId r) \<and>
        (\<forall>a\<in>set (first @ ops). refers a (m_vid r) \<longrightarrow>
           (\<exists>i. map_of m (m_vid r) = Some i \<and> m_opId a \<le> i)))"

definition loop_inv ::
  "(asic_operation \<Rightarrow> oid \<Rightarrow> bool) \<Rightarrow> asic_operation list \<Rightarrow> asic_operation list \<Rightarrow> asic_operation list \<times> nat \<Rightarrow> bool" where
  "loop_inv refers first Q st \<longleftrightarrow> (case st of (v, index) \<Rightarrow>
     mset v = mset (first @ Q) \<and> index \<le> length v \<and>
     filter (\<lambda>a. \<not> m_isRemove a) v = filter (\<lambda>a. \<not> m_isRemove a) Q \<and>
     (\<forall>s\<in>set Q. \<not> m_isRemove s \<longrightarrow>
        (\<forall>a\<in>set first. precedes v a s) \<and> (\<forall>a\<in>set Q. m_opId a < m_opId s \<longrightarrow> precedes v a s)) \<and>
     (\<forall>r\<in>set Q. m_isRemove r \<longrightarrow> (\<forall>a\<in>set (first @ Q). refers a (m_vid r) \<longrightarrow> precedes v a r)))"


lemma loop_inv_step:
  assumes inv: "loop_inv refers first Q (v, index)" and ok: "operations_ok H m refers first (Q @ aop # R)"
  shows "\<exists>st. optimize_step H m aop (v, index) = Inr st \<and> loop_inv refers first (Q @ [aop]) st"
proof -
  let ?ops = "Q @ aop # R"
  have mset_v: "mset v = mset (first @ Q)" and index: "index \<le> length v"
    using inv by (simp_all add: loop_inv_def)
  then have set_v: "set v = set first \<union> set Q" by (metis mset_eq_setD set_append)
  have earlier: "m_opId a < m_opId aop" if "a \<in> set Q" for a
    using ok that by (auto simp: operations_ok_def sorted_wrt_append)
  have later: "m_opId aop < m_opId a" if "a \<in> set R" for a
    using ok that by (auto simp: operations_ok_def sorted_wrt_append)
  have dist_ids: "distinct (map m_opId v)"
  proof -
    have "mset (map m_opId v) = mset (map m_opId (first @ Q))" using mset_v by simp
    moreover have "distinct (map m_opId (first @ Q))" using ok by (auto simp: operations_ok_def)
    ultimately show ?thesis by (metis mset_eq_imp_distinct_iff)
  qed
  have bound: "\<exists>i. map_of m (m_vid r) = Some i \<and> m_opId a \<le> i \<and> i < m_opId r"
    if "r \<in> set (Q @ [aop])" "m_isRemove r" "a \<in> set (first @ Q @ [aop])" "refers a (m_vid r)" for a r
  proof -
    have "r \<in> set (Q @ aop # R)" "a \<in> set (first @ Q @ aop # R)" using that(1,3) by auto
    with ok that(2,4) show ?thesis unfolding operations_ok_def by metis
  qed
  have no_later: "\<not> refers aop (m_vid r)" if "r \<in> set (Q @ [aop])" "m_isRemove r" for r
    using bound [OF that, of aop] earlier [of r] that(1) by (fastforce)
  have extend: "loop_inv refers first (Q @ [aop]) (w, k)"
    if w: "mset w = add_mset aop (mset v)" "filter (\<lambda>a. \<not> m_isRemove a) w = filter (\<lambda>a. \<not> m_isRemove a) (Q @ [aop])"
      and keep: "\<And>a b. precedes v a b \<Longrightarrow> precedes w a b" and k: "k \<le> length w"
      and last: "\<And>a. a \<in> set v \<Longrightarrow> m_isRemove aop \<longrightarrow> refers a (m_vid aop) \<Longrightarrow> precedes w a aop" for w k
    using inv earlier no_later w keep k last
    by (auto simp: loop_inv_def set_v dest: less_asym)
  show ?thesis
  proof (cases "m_isRemove aop")
    case False
    have "loop_inv refers first (Q @ [aop]) (v @ [aop], index)"
      by (rule extend) (use inv False index in \<open>auto simp: loop_inv_def intro: precedes_last\<close>)
    with False show ?thesis by (simp add: optimize_step_def)
  next
    case True
    have vid: "m_vid aop \<noteq> 0" and "\<exists>t. vid_objectTypeQuery H (m_vid aop) = Inr t"
      using ok True by (auto simp: operations_ok_def)
    then obtain t where t: "vid_objectTypeQuery H (m_vid aop) = Inr t" by blast
    have place: "loop_inv refers first (Q @ [aop]) (insert_at k aop v, k')"
      if "k' \<le> Suc (length v)" "\<And>a. a \<in> set v \<Longrightarrow> refers a (m_vid aop) \<Longrightarrow> a \<in> set (take k v)" for k k'
      by (rule extend) (use inv True that in \<open>auto simp: loop_inv_def filter_insert_at intro: precedes_inserted\<close>)
    show ?thesis
    proof (cases "map_of m (m_vid aop)")
      case None
      have "loop_inv refers first (Q @ [aop]) (insert_at index aop v, index + 1)"
        by (rule place) (use index bound [of aop] True None set_v in auto)
      with True vid t None show ?thesis by (auto simp: optimize_step_def)
    next
      case (Some i)
      have "i \<in> m_opId ` set (first @ Q)"
      proof -
        have "i \<in> m_opId ` set (first @ Q @ aop # R)" "i < m_opId aop"
          using ok True Some unfolding operations_ok_def by auto
        with later show ?thesis by force
      qed
      then obtain k where k: "find_op i v = Some k" using find_op_exists [of i v] set_v by auto
      then have kv: "k < length v" "m_opId (v ! k) = i" using find_op_Some by blast+
      show ?thesis
      proof (cases "m_isRemove (v ! k)")
        case rem: True
        have "loop_inv refers first (Q @ [aop]) (v @ [aop], index)"
          by (rule extend) (use inv True index in \<open>auto simp: loop_inv_def intro: precedes_last\<close>)
        with True vid Some k rem show ?thesis by (simp add: optimize_step_def)
      next
        case False
        let ?j = "if index < k + 1 then k + 1 else index"
        have "v ! k \<in> set Q"
          using ok False set_v kv(1) nth_mem [OF kv(1)] by (auto simp: operations_ok_def list_all_iff)
        have "a \<in> set (take (Suc k) v)" if a: "a \<in> set v" "refers a (m_vid aop)" for a
        proof -
          have "m_opId a \<le> i" using bound [of aop a] a True Some set_v by auto
          then have "a = v ! k \<or> precedes v a (v ! k)"
          proof (cases "m_opId a = i")
            case True
            then have "m_opId a = m_opId (v ! k)" using kv(2) by simp
            with dist_ids a(1) nth_mem [OF kv(1)] show ?thesis by (auto simp: distinct_map dest: inj_onD)
          next
            case False
            with \<open>m_opId a \<le> i\<close> inv \<open>v ! k \<in> set Q\<close> \<open>\<not> m_isRemove (v ! k)\<close> kv(2) a(1) set_v show ?thesis
              by (auto simp: loop_inv_def)
          qed
          then show ?thesis
            using precedes_position [of v a k] kv(1) dist_ids by (auto simp: take_Suc_conv_app_nth distinct_map)
        qed
        moreover have "set (take (Suc k) v) \<subseteq> set (take ?j v)" by (rule set_take_subset_set_take) simp
        ultimately have "a \<in> set (take ?j v)" if "a \<in> set v" "refers a (m_vid aop)" for a using that by blast
        then have "loop_inv refers first (Q @ [aop]) (insert_at ?j aop v, ?j + 1)"
          by (rule place [rotated]) (use index kv(1) in auto)
        with True vid t Some k False show ?thesis by (auto simp: optimize_step_def Let_def)
      qed
    qed
  qed
qed


lemma optimize_loop_inv:
  assumes "loop_inv refers first Q st" and "operations_ok H m refers first (Q @ R)"
  shows "\<exists>v k. optimize_loop H m R st = Inr v \<and> loop_inv refers first (Q @ R) (v, k)"
  using assms
proof (induction R arbitrary: Q st)
  case Nil
  then show ?case by (cases st) auto
next
  case (Cons aop R)
  obtain v index where st: "st = (v, index)" by (cases st)
  from loop_inv_step [of refers first Q v index H m aop R] Cons.prems st
  obtain st' where st': "optimize_step H m aop st = Inr st'" "loop_inv refers first (Q @ [aop]) st'" by auto
  from Cons.IH [OF st'(2)] Cons.prems(2) st'(1) show ?case by simp
qed

lemma optimized_operations:
  assumes "operations_ok H m refers first ops"
  shows "\<exists>v. optimize_loop H m ops (first, length first) = Inr v \<and> mset v = mset (first @ ops) \<and>
     filter (\<lambda>a. \<not> m_isRemove a) v = filter (\<lambda>a. \<not> m_isRemove a) ops \<and>
     (\<forall>r\<in>set v. m_isRemove r \<and> r \<in> set ops \<longrightarrow> (\<forall>a\<in>set v. refers a (m_vid r) \<longrightarrow> precedes v a r))"
proof -
  have "filter (\<lambda>a. \<not> m_isRemove a) first = []"
    using assms by (auto simp: operations_ok_def list_all_iff filter_empty_conv)
  then have "loop_inv refers first [] (first, length first)" by (simp add: loop_inv_def)
  from optimize_loop_inv [OF this, of H m ops] assms obtain v k where
    v: "optimize_loop H m ops (first, length first) = Inr v" "loop_inv refers first ops (v, k)" by auto
  from v(2) have "mset v = mset (first @ ops)" by (simp add: loop_inv_def)
  then have "set v = set (first @ ops)" by (rule mset_eq_setD)
  with v show ?thesis unfolding loop_inv_def by auto
qed

end
