(* ===== verification/Asic_Inv.thy ===== *)
theory Asic_Inv
  imports Asic_Refs Asic_Order
begin

text \<open>
  The invariant of an \<open>AsicView\<close>: its counts are the uses of the ids that are still there, and its map of last
  releases bounds the operations that have to come before a removal.
\<close>

section \<open>The invariant\<close>

text \<open>
  What the constructor of \<open>SaiAttr\<close> gives: the metadata of the attribute of that type of object, whose flag for
  attributes with object ids agrees with the kind of value, and a value whose list is there.
\<close>

definition attr_ok :: "sai_meta \<Rightarrow> object_type \<Rightarrow> sai_attr \<Rightarrow> bool" where
  "attr_ok h t attr \<longleftrightarrow>
     get_attr_metadata h t (a_id (sa_attr attr)) = Some (sa_meta attr) \<and>
     md_attrid (sa_meta attr) = a_id (sa_attr attr) \<and> (\<exists>vids. getOidListFromAttribute attr = Inr vids) \<and>
     (\<not> md_isoidattribute (sa_meta attr) \<longrightarrow>
        md_attrvaluetype (sa_meta attr) \<notin>
           {VT_OBJECT_ID, VT_OBJECT_LIST, VT_ACL_FIELD_DATA AD_OBJECT_ID, VT_ACL_FIELD_DATA AD_OBJECT_LIST,
            VT_ACL_ACTION_DATA AD_OBJECT_ID, VT_ACL_ACTION_DATA AD_OBJECT_LIST})"

definition obj_ok :: "sai_meta \<Rightarrow> sai_obj \<Rightarrow> bool" where
  "obj_ok h o1 \<longleftrightarrow>
     (\<forall>x\<in>set (m_attrs o1). fst x = a_id (sa_attr (snd x)) \<and> attr_ok h (so_getObjectType o1) (snd x)) \<and>
     (isOidObject o1 \<longrightarrow> object_id (m_meta_key o1) \<noteq> 0)"

definition in_view :: "asic_view \<Rightarrow> nat \<Rightarrow> sai_obj \<Rightarrow> bool" where
  "in_view v p o1 \<longleftrightarrow> map_of (sv_heap v) p = Some o1 \<and> map_of (m_soAll v) (m_str_object_id o1) = Some p"

definition removed :: "asic_view \<Rightarrow> oid \<Rightarrow> bool" where
  "removed v X = has_key (m_removedVidToRid v) X"

definition objects_ok :: "sai_meta \<Rightarrow> asic_view \<Rightarrow> bool" where
  "objects_ok h v \<longleftrightarrow> wf_alist (m_soAll v) \<and>
     (\<forall>key p. map_of (m_soAll v) key = Some p \<longrightarrow>
        (\<exists>o1. map_of (sv_heap v) p = Some o1 \<and> m_str_object_id o1 = key \<and> obj_ok h o1))"

definition counts_ok :: "asic_view \<Rightarrow> bool" where
  "counts_ok v \<longleftrightarrow> (\<forall>X. X \<noteq> 0 \<longrightarrow>
     ref_count v X = int (uses v X) - (if removed v X then 1 else 0) \<and> (removed v X \<longrightarrow> uses v X = 0))"

text \<open>\<open>log\<close> has the ids each operation refers to.\<close>

definition releases_ok :: "asic_view \<Rightarrow> (nat \<times> oid) list \<Rightarrow> bool" where
  "releases_ok v log \<longleftrightarrow>
     (\<forall>X j. X \<noteq> 0 \<longrightarrow> last_release v X = Some j \<longrightarrow> 1 \<le> j \<and> j \<le> m_asicOperationId v) \<and>
     (\<forall>x\<in>set log. fst x \<le> m_asicOperationId v \<and>
        (snd x \<noteq> 0 \<longrightarrow> ref_count v (snd x) \<le> 0 \<longrightarrow> (\<exists>j. last_release v (snd x) = Some j \<and> fst x \<le> j)))"

definition operations_listed :: "sai_headers \<Rightarrow> asic_view \<Rightarrow> bool" where
  "operations_listed H v \<longleftrightarrow>
     m_opId ` set (asicGetOperations v) = {1..m_asicOperationId v} \<and>
     distinct (map m_opId (asicGetOperations v)) \<and> sorted_wrt (<) (map m_opId (m_asicOperations v)) \<and>
     list_all m_isRemove (m_asicRemoveOperationsNonObjectId v) \<and>
     (\<forall>r\<in>set (m_asicOperations v). m_isRemove r \<longrightarrow>
        m_vid r \<noteq> 0 \<and> removed v (m_vid r) \<and> (\<exists>t. vid_objectTypeQuery H (m_vid r) = Inr t) \<and>
        (\<forall>j. last_release v (m_vid r) = Some j \<longrightarrow> j < m_opId r))"

definition view_inv :: "sai_meta \<Rightarrow> asic_view \<Rightarrow> (nat \<times> oid) list \<Rightarrow> bool" where
  "view_inv h v log \<longleftrightarrow> objects_ok h v \<and> counts_ok v \<and> releases_ok v log \<and>
     operations_listed (sai_headers.truncate h) v"

section \<open>What a call does, and that it keeps the invariant\<close>

text \<open>
  A call refers to the ids of \<open>M\<close>, changes their counts by \<open>\<delta>\<close> as it changes their uses, removes the ids of \<open>G\<close>,
  and adds one operation with the next number.
\<close>

definition new_operation :: "sai_headers \<Rightarrow> oid set \<Rightarrow> asic_view \<Rightarrow> asic_view \<Rightarrow> bool" where
  "new_operation H G v v' \<longleftrightarrow> (\<exists>a. m_opId a = Suc (m_asicOperationId v) \<and>
     (m_asicOperations v' = m_asicOperations v @ [a] \<and>
        m_asicRemoveOperationsNonObjectId v' = m_asicRemoveOperationsNonObjectId v \<and>
        (m_isRemove a \<longrightarrow> m_vid a \<in> G \<and> (\<exists>t. vid_objectTypeQuery H (m_vid a) = Inr t)) \<or>
      m_asicOperations v' = m_asicOperations v \<and>
        m_asicRemoveOperationsNonObjectId v' = m_asicRemoveOperationsNonObjectId v @ [a] \<and> m_isRemove a))"

definition call_effect :: "sai_headers \<Rightarrow> asic_view \<Rightarrow> asic_view \<Rightarrow> (oid \<Rightarrow> int) \<Rightarrow> oid set \<Rightarrow> oid set \<Rightarrow> bool" where
  "call_effect H v v' \<delta> M G \<longleftrightarrow>
     m_asicOperationId v' = Suc (m_asicOperationId v) \<and>
     (\<forall>X. X \<noteq> 0 \<longrightarrow>
        ref_count v' X = ref_count v X + \<delta> X - (if X \<in> G then 1 else 0) \<and>
        int (uses v' X) = int (uses v X) + \<delta> X \<and> (X \<notin> M \<longrightarrow> \<delta> X = 0) \<and>
        (last_release v' X = last_release v X \<or> X \<in> M \<and> last_release v' X = Some (Suc (m_asicOperationId v))) \<and>
        (X \<in> M \<longrightarrow> \<not> removed v X \<and> X \<notin> G \<and>
          (ref_count v' X \<le> 0 \<longrightarrow> last_release v' X = Some (Suc (m_asicOperationId v)))) \<and>
        (X \<in> G \<longrightarrow> uses v X = 0 \<and> \<not> removed v X) \<and> (removed v' X \<longleftrightarrow> removed v X \<or> X \<in> G)) \<and>
     0 \<notin> G \<and> new_operation H G v v'"

lemma counts_ok_call:
  assumes "counts_ok v" and "call_effect H v v' \<delta> M G"
  shows "counts_ok v'"
  unfolding counts_ok_def
proof (intro allI impI)
  fix X :: oid assume X: "X \<noteq> 0"
  with assms have "ref_count v X = int (uses v X) - (if removed v X then 1 else 0)" "removed v X \<longrightarrow> uses v X = 0"
    by (simp_all add: counts_ok_def)
  moreover from assms(2) X have "ref_count v' X = ref_count v X + \<delta> X - (if X \<in> G then 1 else 0)"
    "int (uses v' X) = int (uses v X) + \<delta> X" "X \<notin> M \<longrightarrow> \<delta> X = 0" "X \<in> M \<longrightarrow> \<not> removed v X \<and> X \<notin> G"
    "X \<in> G \<longrightarrow> uses v X = 0 \<and> \<not> removed v X" "removed v' X \<longleftrightarrow> removed v X \<or> X \<in> G"
    by (simp_all add: call_effect_def)
  ultimately show "ref_count v' X = int (uses v' X) - (if removed v' X then 1 else 0) \<and> (removed v' X \<longrightarrow> uses v' X = 0)"
    by (cases "X \<in> M"; cases "X \<in> G"; cases "removed v X") auto
qed

lemma releases_ok_call:
  assumes counts: "counts_ok v" and rel: "releases_ok v log" and call: "call_effect H v v' \<delta> M G" and "set ms \<subseteq> M"
  shows "releases_ok v' (log @ map (Pair (Suc (m_asicOperationId v))) ms)"
proof -
  have opid: "m_asicOperationId v' = Suc (m_asicOperationId v)" using call by (simp add: call_effect_def)
  have bound: "1 \<le> j \<and> j \<le> m_asicOperationId v'" if "X \<noteq> 0" "last_release v' X = Some j" for X j
  proof -
    from call that(1) have "last_release v' X = last_release v X \<or> last_release v' X = Some (Suc (m_asicOperationId v))"
      by (auto simp: call_effect_def)
    with rel that opid show ?thesis by (fastforce simp: releases_ok_def intro: le_SucI)
  qed
  have old: "\<exists>j. last_release v' X = Some j \<and> i \<le> j" if "(i, X) \<in> set log" "X \<noteq> 0" "ref_count v' X \<le> 0" for i X
  proof (cases "X \<in> M")
    case True
    with call that rel show ?thesis by (fastforce simp: call_effect_def releases_ok_def)
  next
    case False
    from call that(2) have c: "ref_count v' X = ref_count v X + \<delta> X - (if X \<in> G then 1 else 0)" "X \<notin> M \<longrightarrow> \<delta> X = 0"
      "last_release v' X = last_release v X \<or> X \<in> M" by (auto simp: call_effect_def)
    have "ref_count v X \<le> 0"
    proof (cases "X \<in> G")
      case True
      with call that(2) have "uses v X = 0" "\<not> removed v X" by (auto simp: call_effect_def)
      with counts that(2) show ?thesis by (simp add: counts_ok_def)
    qed (use c False that(3) in simp)
    with rel that c False show ?thesis by (auto simp: releases_ok_def)
  qed
  have new: "last_release v' X = Some (Suc (m_asicOperationId v))" if "X \<in> set ms" "X \<noteq> 0" "ref_count v' X \<le> 0" for X
    using call that assms(4) unfolding call_effect_def by blast
  have ids: "i \<le> m_asicOperationId v'" if "(i, X) \<in> set log" for i X
    using rel that opid by (auto simp: releases_ok_def)
  show ?thesis
    unfolding releases_ok_def using bound old new ids opid by auto
qed


lemma operations_listed_call:
  assumes inv: "operations_listed H v" "releases_ok v log" and call: "call_effect H v v' \<delta> M G"
  shows "operations_listed H v'"
proof -
  let ?n = "Suc (m_asicOperationId v)"
  from call obtain a where a: "m_opId a = ?n" and opid: "m_asicOperationId v' = ?n" and
    ops: "m_asicOperations v' = m_asicOperations v @ [a] \<and>
        m_asicRemoveOperationsNonObjectId v' = m_asicRemoveOperationsNonObjectId v \<and>
        (m_isRemove a \<longrightarrow> m_vid a \<in> G \<and> (\<exists>t. vid_objectTypeQuery H (m_vid a) = Inr t)) \<or>
      m_asicOperations v' = m_asicOperations v \<and>
        m_asicRemoveOperationsNonObjectId v' = m_asicRemoveOperationsNonObjectId v @ [a] \<and> m_isRemove a"
    by (auto simp: call_effect_def new_operation_def)
  have ids: "m_opId ` set (asicGetOperations v) = {1..m_asicOperationId v}" using inv(1) by (simp add: operations_listed_def)
  have less: "m_opId b < ?n" if "b \<in> set (asicGetOperations v)" for b
  proof -
    have "m_opId b \<in> {1..m_asicOperationId v}" using ids that by blast
    then show ?thesis by simp
  qed
  have perm: "mset (asicGetOperations v') = mset (a # asicGetOperations v)" using ops by (auto simp: asicGetOperations_def)
  then have set: "set (asicGetOperations v') = insert a (set (asicGetOperations v))" by (metis mset_eq_setD list.simps(15))
  from perm have "mset (map m_opId (asicGetOperations v')) = mset (map m_opId (a # asicGetOperations v))"
    by (metis mset_map)
  then have dist: "distinct (map m_opId (asicGetOperations v')) \<longleftrightarrow> distinct (map m_opId (a # asicGetOperations v))"
    by (rule mset_eq_imp_distinct_iff)
  have "m_opId ` set (asicGetOperations v') = {1..?n}"
    using ids a by (simp add: set atLeastAtMostSuc_conv)
  moreover have "distinct (map m_opId (asicGetOperations v'))"
    using inv(1) less a by (auto simp: dist operations_listed_def)
  moreover have "sorted_wrt (<) (map m_opId (m_asicOperations v'))"
    using inv(1) ops less a by (auto simp: operations_listed_def sorted_wrt_append asicGetOperations_def)
  moreover have "list_all m_isRemove (m_asicRemoveOperationsNonObjectId v')"
    using inv(1) ops by (auto simp: operations_listed_def)
  moreover have "m_vid r \<noteq> 0 \<and> removed v' (m_vid r) \<and> (\<exists>t. vid_objectTypeQuery H (m_vid r) = Inr t) \<and>
        (\<forall>j. last_release v' (m_vid r) = Some j \<longrightarrow> j < m_opId r)"
    if r: "r \<in> set (m_asicOperations v')" "m_isRemove r" for r
  proof (cases "r \<in> set (m_asicOperations v)")
    case True
    with inv(1) r(2) have old: "m_vid r \<noteq> 0" "removed v (m_vid r)" "\<exists>t. vid_objectTypeQuery H (m_vid r) = Inr t"
      "\<forall>j. last_release v (m_vid r) = Some j \<longrightarrow> j < m_opId r" by (auto simp: operations_listed_def)
    with call have "m_vid r \<notin> M" "removed v' (m_vid r)" "last_release v' (m_vid r) = last_release v (m_vid r)"
      unfolding call_effect_def by blast+
    with old show ?thesis by simp
  next
    case False
    with r ops have "r = a" "m_vid a \<in> G" "\<exists>t. vid_objectTypeQuery H (m_vid a) = Inr t" by auto
    moreover from this call have "m_vid a \<noteq> 0" by (auto simp: call_effect_def)
    moreover from this call \<open>m_vid a \<in> G\<close> have "removed v' (m_vid a)"
      "last_release v' (m_vid a) = last_release v (m_vid a)" unfolding call_effect_def by blast+
    moreover have "j < ?n" if "last_release v (m_vid a) = Some j" for j
      using inv(2) that \<open>m_vid a \<noteq> 0\<close> by (fastforce simp: releases_ok_def)
    ultimately show ?thesis using a by simp
  qed
  ultimately show ?thesis unfolding operations_listed_def using opid by simp
qed

lemma view_inv_call:
  assumes "view_inv h v log" and "call_effect (sai_headers.truncate h) v v' \<delta> M G" and "set ms \<subseteq> M" and "objects_ok h v'"
  shows "view_inv h v' (log @ map (Pair (m_asicOperationId v')) ms)"
proof -
  have "m_asicOperationId v' = Suc (m_asicOperationId v)" using assms(2) by (simp add: call_effect_def)
  with assms show ?thesis
    by (auto simp: view_inv_def intro: counts_ok_call operations_listed_call intro!: releases_ok_call)
qed

end
