(* ===== verification/Asic_Calls.thy ===== *)
theory Asic_Calls
  imports Asic_Inv
begin

text \<open>
  What \<open>asicSetAttribute\<close>, \<open>asicCreateObject\<close> and \<open>asicRemoveObject\<close> do to the counts and the uses of ids.
\<close>

section \<open>Uses after a change of the objects\<close>

lemma alist_sum_differ:
  assumes "wf_alist al" and "map_of al k = Some x" and "\<And>k' x'. (k', x') \<in> set al \<Longrightarrow> k' \<noteq> k \<Longrightarrow> f' k' x' = f k' x'"
  shows "alist_sum f' al + f k x = alist_sum f al + f' k x"
proof -
  have "alist_sum f' (AList.delete k al) = alist_sum f (AList.delete k al)"
    using assms(3) by (induction al) (auto simp: alist_delete_Cons)
  with alist_sum_delete [OF assms(1), of f k] alist_sum_delete [OF assms(1), of f' k] assms(2)
  show ?thesis by simp
qed

lemma uses_update_object:
  assumes ok: "objects_ok h v" and p: "in_view v p o1"
    and v': "m_soAll v' = m_soAll v" "sv_heap v' = AList.update p o2 (sv_heap v)"
  shows "uses v' X + count_list (obj_oids o1) X = uses v X + count_list (obj_oids o2) X"
proof -
  have at: "map_of (m_soAll v) (m_str_object_id o1) = Some p" "map_of (sv_heap v) p = Some o1"
    using p by (auto simp: in_view_def)
  have other: "p' \<noteq> p" if "(key, p') \<in> set (m_soAll v)" "key \<noteq> m_str_object_id o1" for key p'
  proof
    assume "p' = p"
    with that ok map_of_mem_wf [of "m_soAll v" key p'] at(2) show False by (fastforce simp: objects_ok_def)
  qed
  have "alist_sum (uses_at (sv_heap v') X) (m_soAll v) + uses_at (sv_heap v) X (m_str_object_id o1) p =
     alist_sum (uses_at (sv_heap v) X) (m_soAll v) + uses_at (sv_heap v') X (m_str_object_id o1) p"
    using ok at(1) other by (intro alist_sum_differ) (auto simp: objects_ok_def uses_at_def v'(2))
  then show ?thesis using at by (simp add: uses_def v' uses_at_def)
qed

lemma uses_insert_object:
  assumes "map_of (m_soAll v) key = None" and "map_of (sv_heap v) p = Some o1"
    and v': "m_soAll v' = AList.update key p (m_soAll v)" "sv_heap v' = sv_heap v"
  shows "uses v' X = uses v X + count_list (obj_oids o1) X"
  using alist_sum_update [of "uses_at (sv_heap v) X" key p "m_soAll v"] assms
  by (simp add: uses_def uses_at_def)

lemma uses_delete_object:
  assumes "objects_ok h v" and "in_view v p o1"
    and v': "m_soAll v' = AList.delete (m_str_object_id o1) (m_soAll v)" "sv_heap v' = sv_heap v"
  shows "uses v' X + count_list (obj_oids o1) X = uses v X"
  using alist_sum_delete [of "m_soAll v" "uses_at (sv_heap v) X" "m_str_object_id o1"] assms
  by (simp add: uses_def uses_at_def objects_ok_def in_view_def)

lemma objects_ok_update:
  assumes ok: "objects_ok h v" and p: "in_view v p o1"
    and o2: "obj_ok h o2" "m_str_object_id o2 = m_str_object_id o1"
    and v': "m_soAll v' = m_soAll v" "sv_heap v' = AList.update p o2 (sv_heap v)"
  shows "objects_ok h v'"
proof -
  have "\<exists>o1. map_of (sv_heap v') p' = Some o1 \<and> m_str_object_id o1 = key \<and> obj_ok h o1"
    if "map_of (m_soAll v) key = Some p'" for key p'
  proof (cases "p' = p")
    case True
    with ok that p have "m_str_object_id o1 = key" by (fastforce simp: objects_ok_def in_view_def)
    with True o2 v'(2) show ?thesis by simp
  next
    case False
    with ok that v'(2) show ?thesis by (auto simp: objects_ok_def)
  qed
  with ok v' show ?thesis by (simp add: objects_ok_def)
qed

lemma set_alist_update: "x \<in> set (AList.update k v al) \<Longrightarrow> x = (k, v) \<or> x \<in> set al"
  by (induction al) (auto split: if_splits)

lemma so_setAttr_ok:
  assumes "obj_ok h o1" and "attr_ok h (so_getObjectType o1) attr"
  shows "obj_ok h (so_setAttr attr o1)" "m_str_object_id (so_setAttr attr o1) = m_str_object_id o1"
    "so_getObjectType (so_setAttr attr o1) = so_getObjectType o1"
proof -
  have "fst x = a_id (sa_attr (snd x)) \<and> attr_ok h (so_getObjectType o1) (snd x)"
    if "x \<in> set (m_attrs (so_setAttr attr o1))" for x
  proof -
    have "x = (a_id (sa_attr attr), attr) \<or> x \<in> set (m_attrs o1)"
      using that by (auto simp: so_setAttr_def dest: set_alist_update)
    with assms show ?thesis by (auto simp: obj_ok_def)
  qed
  then show "obj_ok h (so_setAttr attr o1)"
    using assms by (simp add: obj_ok_def so_setAttr_def so_getObjectType_def isOidObject_def)
qed (simp_all add: so_setAttr_def so_getObjectType_def)

definition old_oids :: "sai_obj \<Rightarrow> u32 \<Rightarrow> oid list" where
  "old_oids o1 a = (case map_of (m_attrs o1) a of None \<Rightarrow> [] | Some attr \<Rightarrow> sa_oids attr)"

lemma attrs_oids_count: "count_list (attrs_oids o1) X = alist_sum (\<lambda>a attr. count_list (sa_oids attr) X) (m_attrs o1)"
proof -
  have "count_list (concat (map (\<lambda>x. sa_oids (snd x)) al)) X = alist_sum (\<lambda>a attr. count_list (sa_oids attr) X) al" for al
    by (induction al) auto
  then show ?thesis by (simp add: attrs_oids_def)
qed

lemma obj_oids_setAttr:
  "count_list (obj_oids (so_setAttr attr o1)) X + count_list (old_oids o1 (a_id (sa_attr attr))) X =
     count_list (obj_oids o1) X + count_list (sa_oids attr) X"
proof -
  let ?k = "a_id (sa_attr attr)"
  have "count_list (old_oids o1 ?k) X = at_key (\<lambda>a attr. count_list (sa_oids attr) X) (m_attrs o1) ?k"
    by (simp add: old_oids_def at_key_def split: option.splits)
  moreover have "key_oids (so_setAttr attr o1) = key_oids o1"
    by (simp add: key_oids_def so_setAttr_def isOidObject_def so_members_def)
  ultimately show ?thesis
    using alist_sum_update [of "\<lambda>a attr. count_list (sa_oids attr) X" ?k attr "m_attrs o1"]
    by (simp add: obj_oids_def attrs_oids_count so_setAttr_def)
qed

section \<open>Setting an attribute\<close>

lemma deref_Inr: "deref p v = (Inr x, v') \<longleftrightarrow> map_of (sv_heap v) p = Some x \<and> v' = v"
  by (auto simp: deref_def op_defs split: option.splits)

lemma update_obj_Inr:
  "update_obj p f v = (Inr (), v') \<longleftrightarrow>
     (\<exists>x. map_of (sv_heap v) p = Some x \<and> v' = v\<lparr>sv_heap := AList.update p (f x) (sv_heap v)\<rparr>)"
  by (auto simp: update_obj_def seq_Inr deref_Inr modify_def)

lemma push_operation_Inr:
  assumes "push_operation vid rem k old w = (Inr (), v')"
  shows "\<exists>a. m_opId a = m_asicOperationId w \<and> m_isRemove a = rem \<and> m_vid a = vid \<and>
     v' = w\<lparr>m_asicOperations := m_asicOperations w @ [a]\<rparr>"
  using assms
  by (intro exI [of _ "\<lparr>m_opId = m_asicOperationId w, m_vid = vid, m_isRemove = rem, m_op = k, m_currentValue = old\<rparr>"])
    (simp add: push_operation_def modify_def)

text \<open>The counts do not depend on the other members of the view.\<close>

lemma count_change_eq:
  assumes "count_change v v' \<delta> M" and "X \<noteq> 0"
  shows "ref_count v' X = ref_count v X + \<delta> X" "X \<notin> M \<Longrightarrow> \<delta> X = 0"
    "last_release v' X = last_release v X \<or> X \<in> M \<and> last_release v' X = Some (m_asicOperationId v)"
    "X \<in> M \<Longrightarrow> ref_count v' X \<le> 0 \<Longrightarrow> last_release v' X = Some (m_asicOperationId v)"
  using assms by (auto simp: count_change_def)

lemma count_change_heap:
  assumes "count_change (w\<lparr>sv_heap := hp\<rparr>) w' \<delta> M"
  shows "count_change w (w'\<lparr>sv_heap := sv_heap w\<rparr>) \<delta> M \<and> w' = w'\<lparr>sv_heap := hp\<rparr>"
proof
  have w': "w' = w\<lparr>sv_heap := hp, m_vidReference := m_vidReference w', m_vidToAsicOperationId := m_vidToAsicOperationId w'\<rparr>"
    using assms by (simp add: count_change_def)
  show "w' = w'\<lparr>sv_heap := hp\<rparr>" by (subst (1 2) w') simp
  have "w'\<lparr>sv_heap := sv_heap w\<rparr> = w\<lparr>m_vidReference := m_vidReference w', m_vidToAsicOperationId := m_vidToAsicOperationId w'\<rparr>"
    by (subst w') simp
  with assms show "count_change w (w'\<lparr>sv_heap := sv_heap w\<rparr>) \<delta> M"
    by (simp add: count_change_def ref_count_def last_release_def)
qed

definition view_counts :: "asic_view \<Rightarrow> (oid, int) alist \<times> (oid, nat) alist \<times> nat" where
  "view_counts v = (m_vidReference v, m_vidToAsicOperationId v, m_asicOperationId v)"

lemma view_countsD:
  assumes "view_counts v = view_counts w"
  shows "ref_count v X = ref_count w X" "last_release v X = last_release w X" "m_asicOperationId v = m_asicOperationId w"
  using assms by (simp_all add: view_counts_def ref_count_def last_release_def)


text \<open>What a call does to the counts: \<open>count_change\<close> with the number of the operation counted up.\<close>

definition counts_effect :: "oid set \<Rightarrow> asic_view \<Rightarrow> asic_view \<Rightarrow> (oid \<Rightarrow> int) \<Rightarrow> oid set \<Rightarrow> bool" where
  "counts_effect G v v' \<delta> M \<longleftrightarrow> m_asicOperationId v' = Suc (m_asicOperationId v) \<and> (\<forall>X. X \<noteq> 0 \<longrightarrow>
     ref_count v' X = ref_count v X + \<delta> X - (if X \<in> G then 1 else 0) \<and> (X \<notin> M \<longrightarrow> \<delta> X = 0) \<and>
     (last_release v' X = last_release v X \<or> X \<in> M \<and> last_release v' X = Some (Suc (m_asicOperationId v))) \<and>
     (X \<in> M \<longrightarrow> ref_count v' X \<le> 0 \<longrightarrow> last_release v' X = Some (Suc (m_asicOperationId v))))"

lemma counts_effect_change:
  assumes "count_change w w' \<delta> M" and "\<And>X. X \<noteq> 0 \<Longrightarrow> ref_count w X = ref_count v X - (if X \<in> G then 1 else 0)"
    and "last_release w = last_release v"
    and "m_asicOperationId w = Suc (m_asicOperationId v)" and "view_counts v' = view_counts w'"
  shows "counts_effect G v v' \<delta> M"
  using assms(1) count_change_frame(3) [OF assms(1)] view_countsD [OF assms(5)] assms(2-4)
  by (auto simp: counts_effect_def count_change_def)

lemma asicSetAttribute_effect:
  assumes call: "asicSetAttribute ser p attr v = (Inr (), v')" and o1: "map_of (sv_heap v) p = Some o1"
    and id: "md_attrid (sa_meta attr) = a_id (sa_attr attr)"
    and oid: "\<not> md_isoidattribute (sa_meta attr) \<longrightarrow> sa_oids attr = [] \<and> old_oids o1 (a_id (sa_attr attr)) = []"
    and enough: "\<And>X. X \<in> set (sa_oids attr) \<Longrightarrow> X \<noteq> 0 \<Longrightarrow>
      int (count_list (old_oids o1 (a_id (sa_attr attr))) X) \<le> ref_count v X"
  shows "m_soAll v' = m_soAll v \<and> sv_heap v' = AList.update p (so_setAttr attr o1) (sv_heap v) \<and>
     m_removedVidToRid v' = m_removedVidToRid v \<and> new_operation H {} v v' \<and>
     m_asicRemoveOperationsNonObjectId v' = m_asicRemoveOperationsNonObjectId v \<and>
     counts_effect {} v v' (\<lambda>X. int (count_list (sa_oids attr) X) - int (count_list (old_oids o1 (a_id (sa_attr attr))) X))
       (set (old_oids o1 (a_id (sa_attr attr))) \<union> set (sa_oids attr))"
proof -
  let ?k = "a_id (sa_attr attr)" and ?w = "v\<lparr>m_asicOperationId := Suc (m_asicOperationId v)\<rparr>"
  let ?h = "AList.update p (so_setAttr attr o1) (sv_heap v)"
  from call o1 obtain w' where set: "(if md_isoidattribute (sa_meta attr) then
                 seq (if so_hasAttr o1 ?k then seq (lift (getSaiAttr o1 ?k)) releaseExistingLinks_attr else ret ()) (\<lambda>_.
                 seq (update_obj p (so_setAttr attr)) (\<lambda>_.
                 seq (deref p) (\<lambda>o1.
                 seq (lift (getSaiAttr o1 ?k)) bindNewLinks_attr)))
               else update_obj p (so_setAttr attr)) ?w = (Inr (), w')"
    and push: "push_operation (operation_vid o1) False
            (object_kco o1 ''set'' [ser (so_getObjectType o1) (sa_attr attr)])
            (case tryGetSaiAttr o1 ?k of None \<Rightarrow> '''' | Some a \<Rightarrow> m_str_attr_value a) w' = (Inr (), v')"
    by (auto simp: asicSetAttribute_def seq_Inr deref_Inr next_operation_def modify_def id Let_def)
  from push_operation_Inr [OF push] obtain a where a: "m_opId a = m_asicOperationId w'" "\<not> m_isRemove a"
    and v': "v' = w'\<lparr>m_asicOperations := m_asicOperations w' @ [a]\<rparr>" by auto
  let ?\<delta> = "\<lambda>X. int (count_list (sa_oids attr) X) - int (count_list (old_oids o1 ?k) X)"
    and ?M = "set (old_oids o1 ?k) \<union> set (sa_oids attr)"
  have "\<exists>w1. count_change ?w w1 ?\<delta> ?M \<and> w' = w1\<lparr>sv_heap := ?h\<rparr>"
  proof (cases "md_isoidattribute (sa_meta attr)")
    case False
    with set oid o1 show ?thesis by (auto simp: update_obj_Inr intro: count_change_refl)
  next
    case True
    with set obtain w1 where rel: "(if so_hasAttr o1 ?k then seq (lift (getSaiAttr o1 ?k)) releaseExistingLinks_attr else ret ()) ?w
        = (Inr (), w1)"
      and rest: "seq (update_obj p (so_setAttr attr)) (\<lambda>_. seq (deref p) (\<lambda>o1. seq (lift (getSaiAttr o1 ?k)) bindNewLinks_attr)) w1
        = (Inr (), w')" by (auto simp: seq_Inr)
    have w1: "count_change ?w w1 (\<lambda>X. - int (count_list (old_oids o1 ?k) X)) (set (old_oids o1 ?k))"
      using rel by (auto simp: so_hasAttr_def has_key_def getSaiAttr_def seq_Inr lift_def ret_def old_oids_def
          split: if_splits intro: count_change_refl release_attr_change)
    note heap = count_change_frame(1) [OF w1]
    have bind: "bindNewLinks_attr attr (w1\<lparr>sv_heap := ?h\<rparr>) = (Inr (), w')"
      using rest heap o1 by (auto simp: seq_Inr update_obj_Inr deref_Inr lift_def getSaiAttr_def so_setAttr_def)
    have "count_change (w1\<lparr>sv_heap := ?h\<rparr>) w' (\<lambda>X. int (count_list (sa_oids attr) X)) (set (sa_oids attr))"
    proof (rule bind_attr_change [OF bind])
      show "not_below (w1\<lparr>sv_heap := ?h\<rparr>) (set (sa_oids attr))"
        unfolding not_below_def
      proof (intro ballI impI)
        fix X assume X: "X \<in> set (sa_oids attr)" "X \<noteq> 0"
        from count_change_eq(1) [OF w1 X(2)] enough [OF X]
        show "0 \<le> ref_count (w1\<lparr>sv_heap := ?h\<rparr>) X" by (simp add: ref_count_def)
      qed
    qed
    then have both: "count_change w1 (w'\<lparr>sv_heap := sv_heap w1\<rparr>) (\<lambda>X. int (count_list (sa_oids attr) X)) (set (sa_oids attr)) \<and>
      w' = w'\<lparr>sv_heap := ?h\<rparr>"
      by (rule count_change_heap)
    have "count_change ?w (w'\<lparr>sv_heap := sv_heap w1\<rparr>) ?\<delta> ?M"
      using count_change_trans [OF w1 conjunct1 [OF both]] by simp
    moreover have "w' = (w'\<lparr>sv_heap := sv_heap w1\<rparr>)\<lparr>sv_heap := ?h\<rparr>" using both by simp
    ultimately show ?thesis by blast
  qed
  then obtain w1 where w1: "count_change ?w w1 ?\<delta> ?M" "w' = w1\<lparr>sv_heap := ?h\<rparr>" by blast
  note frame = count_change_frame [OF w1(1)]
  have "counts_effect {} v v' ?\<delta> ?M"
    by (rule counts_effect_change [OF w1(1)])
      (simp_all add: fun_eq_iff ref_count_def last_release_def v' w1(2) view_counts_def)
  with a show ?thesis using frame by (auto simp: v' w1(2) new_operation_def)
qed

section \<open>Creating an object\<close>

text \<open>The hashes of objects are other members.\<close>

definition same_but_tables :: "asic_view \<Rightarrow> asic_view \<Rightarrow> bool" where
  "same_but_tables v w \<longleftrightarrow> sv_heap w = sv_heap v \<and> m_vidReference w = m_vidReference v \<and>
     m_vidToAsicOperationId w = m_vidToAsicOperationId v \<and> m_asicOperationId w = m_asicOperationId v \<and>
     m_asicOperations w = m_asicOperations v \<and> m_removedVidToRid w = m_removedVidToRid v \<and>
     m_asicRemoveOperationsNonObjectId w = m_asicRemoveOperationsNonObjectId v"

lemma count_change_same:
  assumes "v' = v\<lparr>m_vidReference := m_vidReference v', m_vidToAsicOperationId := m_vidToAsicOperationId v'\<rparr>"
    and "ref_count v' = ref_count v" and "last_release v' = last_release v"
  shows "count_change v v' (\<lambda>X. 0) {}"
  using assms by (simp add: count_change_def)

lemma declare_change: "count_change v (add_reference vid 0 v) (\<lambda>X. 0) {}"
  by (rule count_change_same) (auto simp: add_reference_def ref_count_def last_release_def fun_eq_iff Let_def)

lemma asicCreateObject_effect:
  assumes call: "asicCreateObject h p v = (Inr (), v')" and o1: "map_of (sv_heap v) p = Some o1"
    and not_below: "not_below v (set (obj_oids o1))"
  shows "m_soAll v' = AList.update (m_str_object_id o1) p (m_soAll v) \<and> sv_heap v' = sv_heap v \<and>
     m_removedVidToRid v' = m_removedVidToRid v \<and> new_operation H {} v v' \<and>
     counts_effect {} v v' (\<lambda>X. int (count_list (obj_oids o1) X)) (set (obj_oids o1))"
proof -
  let ?t = "so_getObjectType o1" and ?id = "m_str_object_id o1"
  let ?v = "v\<lparr>m_asicOperationId := Suc (m_asicOperationId v)\<rparr>"
  have "\<exists>w w1 w2. same_but_tables ?v w \<and> m_soAll w = AList.update ?id p (m_soAll v) \<and>
     count_change w w1 (\<lambda>X. int (count_list (key_oids o1) X)) (set (key_oids o1)) \<and>
     bindNewLinks o1 w1 = (Inr (), w2) \<and>
     push_operation (operation_vid o1) False (object_kco o1 ''create'' (create_fields o1)) '''' w2 = (Inr (), v')"
  proof (cases "isOidObject o1")
    case True
    let ?w = "sot_insert ?t ?id p (insert_oid_object o1 p ?v)"
    have "same_but_tables ?v ?w \<and> m_soAll ?w = AList.update ?id p (m_soAll v)"
      by (simp add: same_but_tables_def sot_insert_def insert_oid_object_def Let_def)
    with call o1 True declare_change [of ?w "object_id (m_meta_key o1)"] show ?thesis
      by (auto simp: asicCreateObject_def seq_Inr deref_Inr next_operation_def modify_def key_oids_def)
  next
    case False
    with call o1 obtain e where e: "entry_table h ?t = Some e"
      by (auto simp: asicCreateObject_def seq_Inr deref_Inr next_operation_def modify_def raise_def split: option.splits)
    let ?w = "sot_insert ?t ?id p (?v\<lparr>m_soEntries := AList.update (e, ?id) p (m_soEntries v)\<rparr>)"
    have w: "same_but_tables ?v ?w \<and> m_soAll ?w = AList.update ?id p (m_soAll v)"
      by (simp add: same_but_tables_def sot_insert_def Let_def)
    have "count_change ?w (fold (update_member_reference 1) (so_members o1) ?w)
       (\<lambda>X. 1 * int (count_list (so_members o1) X)) (set (so_members o1))"
      using not_below w False
      by (intro members_change) (auto simp: not_below_def same_but_tables_def ref_count_def obj_oids_def key_oids_def)
    with call o1 False e w show ?thesis
      by (auto simp: asicCreateObject_def seq_Inr deref_Inr next_operation_def modify_def members_loop key_oids_def)
  qed
  then obtain w w1 w2 where w: "same_but_tables ?v w" "m_soAll w = AList.update ?id p (m_soAll v)"
    and w1: "count_change w w1 (\<lambda>X. int (count_list (key_oids o1) X)) (set (key_oids o1))"
    and bind: "bindNewLinks o1 w1 = (Inr (), w2)"
    and push: "push_operation (operation_vid o1) False (object_kco o1 ''create'' (create_fields o1)) '''' w2 = (Inr (), v')"
    by blast
  have same: "ref_count w X = ref_count v X" "last_release w X = last_release v X" for X
    using w(1) by (simp_all add: same_but_tables_def ref_count_def last_release_def)
  have "not_below w1 (set (attrs_oids o1))"
    using not_below same by (intro not_below_change [OF w1]) (auto simp: not_below_def obj_oids_def)
  from count_change_trans [OF w1 bind_links_change [OF bind this]]
  have change: "count_change w w2 (\<lambda>X. int (count_list (obj_oids o1) X)) (set (obj_oids o1))"
    by (simp add: obj_oids_def)
  from push_operation_Inr [OF push] obtain a where a: "m_opId a = m_asicOperationId w2" "\<not> m_isRemove a"
    and v': "v' = w2\<lparr>m_asicOperations := m_asicOperations w2 @ [a]\<rparr>" by auto
  note frame = count_change_frame [OF change]
  have "counts_effect {} v v' (\<lambda>X. int (count_list (obj_oids o1) X)) (set (obj_oids o1))"
    by (rule counts_effect_change [OF change])
      (use w(1) in \<open>simp_all add: fun_eq_iff same v' view_counts_def same_but_tables_def\<close>)
  with a show ?thesis using frame w by (auto simp: v' new_operation_def same_but_tables_def)
qed

section \<open>Removing an object\<close>

definition gone_ids :: "sai_obj \<Rightarrow> oid set" where
  "gone_ids o1 = (if isOidObject o1 then {object_id (m_meta_key o1)} else {})"

definition push_remove :: "sai_obj \<Rightarrow> (asic_view, unit) op" where
  "push_remove o1 =
     (let k = object_kco o1 ''remove'' []
      in if isOidObject o1 then push_operation (operation_vid o1) True k ''''
         else modify (\<lambda>v. v\<lparr>m_asicRemoveOperationsNonObjectId := m_asicRemoveOperationsNonObjectId v @
           [\<lparr>m_opId = m_asicOperationId v, m_vid = operation_vid o1, m_isRemove = True, m_op = k, m_currentValue = ''''\<rparr>]\<rparr>))"

lemma push_remove_Inr:
  assumes "push_remove o1 w = (Inr (), v')"
  shows "\<exists>a. m_opId a = m_asicOperationId w \<and> m_isRemove a \<and>
     v' = w\<lparr>m_asicOperations := m_asicOperations w @ (if isOidObject o1 then [a] else []),
       m_asicRemoveOperationsNonObjectId := m_asicRemoveOperationsNonObjectId w @ (if isOidObject o1 then [] else [a])\<rparr> \<and>
     (isOidObject o1 \<longrightarrow> m_vid a = object_id (m_meta_key o1))"
proof (cases "isOidObject o1")
  case True
  with push_operation_Inr [of "operation_vid o1" True "object_kco o1 ''remove'' []" "''''" w v'] assms
  show ?thesis by (auto simp: push_remove_def operation_vid_def Let_def)
next
  case False
  with assms show ?thesis
    by (intro exI [of _ "\<lparr>m_opId = m_asicOperationId w, m_vid = operation_vid o1, m_isRemove = True,
          m_op = object_kco o1 ''remove'' [], m_currentValue = ''''\<rparr>"])
      (simp add: push_remove_def modify_def Let_def)
qed

lemma sot_erase_Inr:
  assumes "sot_erase t key v = (Inr (), v')"
  shows "same_but_tables v v' \<and> m_soAll v' = AList.delete key (m_soAll v) \<and> m_vidToRid v' = m_vidToRid v"
  using assms by (auto simp: sot_erase_def seq_Inr modify_def gets_def raise_def same_but_tables_def split: option.splits)

definition without_gone :: "sai_obj \<Rightarrow> asic_view \<Rightarrow> asic_view \<Rightarrow> bool" where
  "without_gone o1 v w \<longleftrightarrow> sv_heap w = sv_heap v \<and> m_soAll w = AList.delete (m_str_object_id o1) (m_soAll v) \<and>
     m_vidToAsicOperationId w = m_vidToAsicOperationId v \<and> m_asicOperationId w = m_asicOperationId v \<and>
     m_asicOperations w = m_asicOperations v \<and>
     m_asicRemoveOperationsNonObjectId w = m_asicRemoveOperationsNonObjectId v \<and>
     (\<forall>X. ref_count w X = ref_count v X - (if X \<in> gone_ids o1 then 1 else 0)) \<and>
     (\<forall>X. removed w X \<longleftrightarrow> removed v X \<or> X \<in> gone_ids o1)"

lemma asicRemoveObject_effect:
  assumes call: "asicRemoveObject h p v = (Inr (), v')" and o1: "map_of (sv_heap v) p = Some o1"
    and enough: "\<And>X. X \<in> set (key_oids o1) \<Longrightarrow> X \<noteq> 0 \<Longrightarrow> int (count_list (key_oids o1) X) \<le> ref_count v X"
    and type: "isOidObject o1 \<Longrightarrow> \<exists>t. vid_objectTypeQuery H (object_id (m_meta_key o1)) = Inr t"
  shows "(isOidObject o1 \<longrightarrow> getVidReferenceCount v (object_id (m_meta_key o1)) = 0) \<and>
     m_soAll v' = AList.delete (m_str_object_id o1) (m_soAll v) \<and> sv_heap v' = sv_heap v \<and>
     (\<forall>X. removed v' X \<longleftrightarrow> removed v X \<or> X \<in> gone_ids o1) \<and> new_operation H (gone_ids o1) v v' \<and>
     counts_effect (gone_ids o1) v v' (\<lambda>X. - int (count_list (obj_oids o1) X)) (set (obj_oids o1))"
proof -
  let ?t = "so_getObjectType o1" and ?id = "m_str_object_id o1" and ?vid = "object_id (m_meta_key o1)"
  let ?v = "v\<lparr>m_asicOperationId := Suc (m_asicOperationId v)\<rparr>"
  have "\<exists>w w1 w2. without_gone o1 ?v w \<and> (isOidObject o1 \<longrightarrow> getVidReferenceCount v ?vid = 0) \<and>
     count_change w w1 (\<lambda>X. - int (count_list (key_oids o1) X)) (set (key_oids o1)) \<and>
     releaseExistingLinks o1 w1 = (Inr (), w2) \<and> push_remove o1 w2 = (Inr (), v')"
  proof (cases "isOidObject o1")
    case True
    with call o1 obtain u1 u2 rid w2 where count: "getVidReferenceCount ?v ?vid = 0"
      and u1: "sot_erase ?t ?id (?v\<lparr>m_soOids := AList.delete ?id (m_soOids ?v), m_oOids := AList.delete ?vid (m_oOids ?v)\<rparr>) = (Inr (), u1)"
      and u2: "u2 = (add_reference ?vid (- 1) u1)\<lparr>m_ridToVid := AList.delete rid (m_ridToVid (add_reference ?vid (- 1) u1)),
                 m_vidToRid := AList.delete ?vid (m_vidToRid (add_reference ?vid (- 1) u1)),
                 m_removedVidToRid := AList.update ?vid rid (m_removedVidToRid (add_reference ?vid (- 1) u1))\<rparr>"
      and w2: "releaseExistingLinks o1 u2 = (Inr (), w2)" "push_remove o1 w2 = (Inr (), v')"
      by (auto simp: asicRemoveObject_def seq_Inr deref_Inr next_operation_def modify_def gets_def raise_def ret_def
          push_remove_def Let_def split: if_splits option.splits)
    have "without_gone o1 ?v u2"
      using sot_erase_Inr [OF u1] True
      by (auto simp: without_gone_def same_but_tables_def u2 add_reference_def ref_count_def removed_def gone_ids_def Let_def)
    moreover have "count_change u2 u2 (\<lambda>X. - int (count_list (key_oids o1) X)) (set (key_oids o1))"
      using True count_change_refl by (simp add: key_oids_def)
    moreover have "getVidReferenceCount v ?vid = 0" using count by (simp add: getVidReferenceCount_def)
    ultimately show ?thesis using w2 by blast
  next
    case False
    with call o1 obtain e u1 w2 where u1: "sot_erase ?t ?id (?v\<lparr>m_soEntries := AList.delete (e, ?id) (m_soEntries ?v)\<rparr>) = (Inr (), u1)"
      and w2: "releaseExistingLinks o1 (fold (update_member_reference (- 1)) (so_members o1) u1) = (Inr (), w2)"
      "push_remove o1 w2 = (Inr (), v')"
      by (auto simp: asicRemoveObject_def seq_Inr deref_Inr next_operation_def modify_def gets_def raise_def ret_def
          push_remove_def members_loop Let_def split: if_splits option.splits)
    have u: "without_gone o1 ?v u1"
      using sot_erase_Inr [OF u1] False
      by (auto simp: without_gone_def same_but_tables_def ref_count_def removed_def gone_ids_def)
    have "count_change u1 (fold (update_member_reference (- 1)) (so_members o1) u1)
       (\<lambda>X. (- 1) * int (count_list (so_members o1) X)) (set (so_members o1))"
    proof (rule members_change)
      fix X assume "X \<noteq> 0" "X \<in> set (so_members o1)"
      with enough [of X] u False show "(if - 1 = (1 :: int) then 0 else int (count_list (so_members o1) X)) \<le> ref_count u1 X"
        by (simp add: without_gone_def key_oids_def gone_ids_def ref_count_def)
    qed simp
    then have "count_change u1 (fold (update_member_reference (- 1)) (so_members o1) u1)
       (\<lambda>X. - int (count_list (key_oids o1) X)) (set (key_oids o1))" using False by (simp add: key_oids_def)
    with u w2 False show ?thesis by blast
  qed
  then obtain w w1 w2 where w: "without_gone o1 ?v w" and zero: "isOidObject o1 \<longrightarrow> getVidReferenceCount v ?vid = 0"
    and w1: "count_change w w1 (\<lambda>X. - int (count_list (key_oids o1) X)) (set (key_oids o1))"
    and rel: "releaseExistingLinks o1 w1 = (Inr (), w2)" and push: "push_remove o1 w2 = (Inr (), v')" by blast
  from count_change_trans [OF w1 release_links_change [OF rel]]
  have change: "count_change w w2 (\<lambda>X. - int (count_list (obj_oids o1) X)) (set (obj_oids o1))"
    by (simp add: obj_oids_def)
  from push_remove_Inr [OF push] obtain a where a: "m_opId a = m_asicOperationId w2" "m_isRemove a"
    "isOidObject o1 \<longrightarrow> m_vid a = ?vid"
    and v': "v' = w2\<lparr>m_asicOperations := m_asicOperations w2 @ (if isOidObject o1 then [a] else []),
       m_asicRemoveOperationsNonObjectId := m_asicRemoveOperationsNonObjectId w2 @ (if isOidObject o1 then [] else [a])\<rparr>"
    by blast
  note frame = count_change_frame [OF change]
  have w': "ref_count w X = ref_count v X - (if X \<in> gone_ids o1 then 1 else 0)" "last_release w X = last_release v X" for X
    using w by (simp_all add: without_gone_def ref_count_def last_release_def)
  have "counts_effect (gone_ids o1) v v' (\<lambda>X. - int (count_list (obj_oids o1) X)) (set (obj_oids o1))"
    by (rule counts_effect_change [OF change])
      (use w in \<open>simp_all add: fun_eq_iff w' v' view_counts_def without_gone_def\<close>)
  moreover have "removed v' X \<longleftrightarrow> removed v X \<or> X \<in> gone_ids o1" for X
    using w frame(5) by (simp add: without_gone_def removed_def v')
  moreover have "new_operation H (gone_ids o1) v v'"
    unfolding new_operation_def using a type frame w
    by (intro exI [of _ a]) (auto simp: v' without_gone_def gone_ids_def)
  ultimately show ?thesis using frame w zero by (auto simp: v' without_gone_def)
qed

end
