(* ===== verification/Asic_Run.thy ===== *)
theory Asic_Run
  imports Asic_Calls
begin

text \<open>
  A view read from a dump: its counts are the uses of the ids. After it, the views a client reaches from one.
\<close>

section \<open>Dumps\<close>

text \<open>
  The rows of a table with distinct keys: distinct printed ids, new objects at distinct addresses, and the
  attributes of one object with distinct ids.
\<close>

definition row_ok :: "sai_meta \<Rightarrow> nat \<times> sai_obj \<times> sai_attr list \<Rightarrow> bool" where
  "row_ok h row = (case row of (p, o1, attrs) \<Rightarrow>
     m_attrs o1 = [] \<and> (isOidObject o1 \<longrightarrow> object_id (m_meta_key o1) \<noteq> 0) \<and>
     distinct (map (\<lambda>attr. a_id (sa_attr attr)) attrs) \<and> list_all (attr_ok h (so_getObjectType o1)) attrs)"

definition dump_ok :: "sai_meta \<Rightarrow> (nat \<times> sai_obj \<times> sai_attr list) list \<Rightarrow> bool" where
  "dump_ok h dump \<longleftrightarrow> list_all (row_ok h) dump \<and> distinct (map fst dump) \<and>
     distinct (map (\<lambda>row. m_str_object_id (fst (snd row))) dump)"

definition dump_inv :: "sai_meta \<Rightarrow> asic_view \<Rightarrow> bool" where
  "dump_inv h v \<longleftrightarrow> objects_ok h v \<and> (\<forall>X. X \<noteq> 0 \<longrightarrow> ref_count v X = int (uses v X)) \<and>
     0 \<le> ref_count v 0 \<and> m_asicOperationId v = 0 \<and> m_asicOperations v = [] \<and> m_asicRemoveOperationsNonObjectId v = [] \<and>
     m_vidToAsicOperationId v = [] \<and> m_removedVidToRid v = []"

lemma dump_inv_view_inv: "dump_inv h v \<Longrightarrow> view_inv h v []"
  by (auto simp: dump_inv_def view_inv_def counts_ok_def removed_def releases_ok_def last_release_def
      operations_listed_def asicGetOperations_def)

lemma dump_inv_count: "dump_inv h v \<Longrightarrow> 0 \<le> ref_count v X"
  by (cases "X = 0") (auto simp: dump_inv_def)

section \<open>A row\<close>

text \<open>Counting up leaves the last releases alone.\<close>

lemma add_reference_frame:
  "sv_heap (add_reference vid n v) = sv_heap v" "m_soAll (add_reference vid n v) = m_soAll v"
  "m_asicOperationId (add_reference vid n v) = m_asicOperationId v"
  "m_asicOperations (add_reference vid n v) = m_asicOperations v"
  "m_asicRemoveOperationsNonObjectId (add_reference vid n v) = m_asicRemoveOperationsNonObjectId v"
  "m_vidToAsicOperationId (add_reference vid n v) = m_vidToAsicOperationId v"
  "m_removedVidToRid (add_reference vid n v) = m_removedVidToRid v"
  "ref_count (add_reference vid n v) X = ref_count v X + n * one vid X"
  by (auto simp: add_reference_def ref_count_def one_def Let_def)

lemma members_up:
  assumes "\<And>X. 0 \<le> ref_count v X"
  shows "m_vidToAsicOperationId (fold (update_member_reference 1) vids v) = m_vidToAsicOperationId v \<and>
     0 \<le> ref_count (fold (update_member_reference 1) vids v) X"
  using assms
proof (induction vids arbitrary: v)
  case (Cons vid vids)
  have "update_member_reference 1 vid v = add_reference vid 1 v"
    using Cons.prems [of vid]
    by (auto simp: update_member_reference_def add_reference_def ref_count_def Let_def split: option.splits)
  moreover have "0 \<le> ref_count (add_reference vid 1 v) X" for X
    using Cons.prems [of X] by (simp add: add_reference_frame one_def)
  ultimately show ?case using Cons.IH [of "add_reference vid 1 v"] by (simp add: add_reference_frame)
qed simp

lemma uses_new_address:
  assumes "p \<notin> snd ` set (m_soAll v)"
  shows "uses (v\<lparr>sv_heap := AList.update p o1 (sv_heap v)\<rparr>) X = uses v X"
proof -
  have "alist_sum (uses_at (AList.update p o1 heap) X) al = alist_sum (uses_at heap X) al" if "p \<notin> snd ` set al" for al heap
    using that by (induction al) (auto simp: uses_at_def)
  with assms show ?thesis by (simp add: uses_def)
qed

lemma dump_inv_new_address:
  assumes "dump_inv h v" and "p \<notin> snd ` set (m_soAll v)"
  shows "dump_inv h (v\<lparr>sv_heap := AList.update p o1 (sv_heap v)\<rparr>)"
proof -
  have "p' \<noteq> p" if "map_of (m_soAll v) key = Some p'" for key p'
    using assms(2) that by (force dest: map_of_SomeD)
  then have "objects_ok h (v\<lparr>sv_heap := AList.update p o1 (sv_heap v)\<rparr>)"
    using assms(1) by (auto simp: dump_inv_def objects_ok_def)
  with assms(1) uses_new_address [OF assms(2)] show ?thesis by (simp add: dump_inv_def ref_count_def)
qed

text \<open>The null id is counted with the members of keys, and never down while a dump is read.\<close>

lemma objects_ok_insert:
  assumes "objects_ok h v" and "map_of (sv_heap v) p = Some o1" and "obj_ok h o1"
    and "m_soAll v' = AList.update (m_str_object_id o1) p (m_soAll v)" "sv_heap v' = sv_heap v"
  shows "objects_ok h v'"
  using assms by (auto simp: objects_ok_def)

text \<open>The object enters the view with the ids of its key counted.\<close>

lemma dump_inv_insert:
  assumes inv: "dump_inv h v" and p: "map_of (sv_heap v) p = Some o1" and ok: "obj_ok h o1" and attrs: "m_attrs o1 = []"
    and key: "map_of (m_soAll v) (m_str_object_id o1) = None"
    and w: "same_but_tables v w" "m_soAll w = AList.update (m_str_object_id o1) p (m_soAll v)"
    and v': "count_change w v' (\<lambda>X. int (count_list (key_oids o1) X)) M" "m_vidToAsicOperationId v' = m_vidToAsicOperationId w"
      "0 \<le> ref_count v' 0"
  shows "dump_inv h v' \<and> in_view v' p o1"
proof -
  note frame = count_change_frame [OF v'(1)]
  have same: "sv_heap w = sv_heap v" "ref_count w X = ref_count v X" for X
    using w(1) by (simp_all add: same_but_tables_def ref_count_def)
  have "uses v' X = uses v X + count_list (key_oids o1) X" for X
    using uses_insert_object [OF key p, of v'] frame w same attrs by (simp add: obj_oids_def attrs_oids_def)
  moreover have "ref_count v' X = ref_count v X + int (count_list (key_oids o1) X)" if "X \<noteq> 0" for X
    using count_change_eq(1) [OF v'(1) that] same by simp
  moreover have "objects_ok h v'"
    by (rule objects_ok_insert [of h v p o1]) (use inv p ok frame w same in \<open>auto simp: dump_inv_def\<close>)
  ultimately show ?thesis
    using inv frame w same v' p by (auto simp: dump_inv_def same_but_tables_def in_view_def)
qed

text \<open>An attribute is stored and its ids are counted.\<close>

lemma count_attr_oids:
  assumes "forM (\<lambda>vid. if vid \<noteq> SAI_NULL_OBJECT_ID then modify (add_reference vid 1) else ret ()) vids v = (Inr (), v')"
  shows "sv_heap v' = sv_heap v \<and> m_soAll v' = m_soAll v \<and> m_asicOperationId v' = m_asicOperationId v \<and>
     m_asicOperations v' = m_asicOperations v \<and>
     m_asicRemoveOperationsNonObjectId v' = m_asicRemoveOperationsNonObjectId v \<and>
     m_vidToAsicOperationId v' = m_vidToAsicOperationId v \<and> m_removedVidToRid v' = m_removedVidToRid v \<and>
     ref_count v' X = ref_count v X + (if X = 0 then 0 else int (count_list vids X))"
  using assms
proof (induction vids arbitrary: v)
  case Nil
  then show ?case by (simp add: ret_def)
next
  case (Cons vid vids)
  then obtain v1 where v1: "(if vid \<noteq> SAI_NULL_OBJECT_ID then modify (add_reference vid 1) else ret ()) v = (Inr (), v1)"
    "forM (\<lambda>vid. if vid \<noteq> SAI_NULL_OBJECT_ID then modify (add_reference vid 1) else ret ()) vids v1 = (Inr (), v')"
    by (auto simp only: forM_Cons_Inr)
  then have "v1 = (if vid \<noteq> 0 then add_reference vid 1 v else v)" by (auto simp: modify_def ret_def split: if_splits)
  with Cons.IH [OF v1(2)] show ?case by (auto simp: add_reference_frame one_def)
qed

lemma dump_inv_attr:
  assumes inv: "dump_inv h v" and p: "in_view v p o1" and attr: "attr_ok h (so_getObjectType o1) attr"
    and new: "map_of (m_attrs o1) (a_id (sa_attr attr)) = None"
    and run: "seq (update_obj p (so_setAttr attr)) (\<lambda>_. seq (lift (getOidListFromAttribute attr)) (forM (\<lambda>vid.
          if vid \<noteq> SAI_NULL_OBJECT_ID then modify (add_reference vid 1) else ret ()))) v = (Inr (), v')"
  shows "dump_inv h v' \<and> in_view v' p (so_setAttr attr o1)"
proof -
  let ?w = "v\<lparr>sv_heap := AList.update p (so_setAttr attr o1) (sv_heap v)\<rparr>"
  have at: "map_of (sv_heap v) p = Some o1" "map_of (m_soAll v) (m_str_object_id o1) = Some p" using p by (auto simp: in_view_def)
  with run have loop: "forM (\<lambda>vid. if vid \<noteq> SAI_NULL_OBJECT_ID then modify (add_reference vid 1) else ret ()) (sa_oids attr) ?w
     = (Inr (), v')" by (auto simp: seq_Inr update_obj_Inr lift_def sa_oids_def)
  note counts = count_attr_oids [OF loop]
  have o1: "obj_ok h o1" using inv at by (fastforce simp: dump_inv_def objects_ok_def)
  have obj: "obj_ok h (so_setAttr attr o1)" "m_str_object_id (so_setAttr attr o1) = m_str_object_id o1"
    using so_setAttr_ok [OF o1 attr] by simp_all
  have "objects_ok h v"  using inv by (simp add: dump_inv_def)
  then have "objects_ok h v'"
    by (rule objects_ok_update [OF _ p obj]) (use counts in simp_all)
  moreover have "uses v' X = uses v X + count_list (sa_oids attr) X" for X
    using uses_update_object [OF \<open>objects_ok h v\<close> p, of v' "so_setAttr attr o1" X] counts
      obj_oids_setAttr [of attr o1 X] new by (simp add: old_oids_def)
  moreover have "ref_count v' X = ref_count v X + (if X = 0 then 0 else int (count_list (sa_oids attr) X))" for X
    using count_attr_oids [OF loop, of X] by (simp add: ref_count_def)
  ultimately show ?thesis
    using inv at obj counts by (auto simp: dump_inv_def in_view_def)
qed

lemma populate_inv:
  assumes "dump_inv h v" "in_view v p o1" "populateAttributes h p attrs v = (Inr (), v')"
    and "distinct (map (\<lambda>attr. a_id (sa_attr attr)) attrs)" "list_all (attr_ok h (so_getObjectType o1)) attrs"
    and "\<And>attr. attr \<in> set attrs \<Longrightarrow> map_of (m_attrs o1) (a_id (sa_attr attr)) = None"
  shows "dump_inv h v' \<and> m_soAll v' = m_soAll v"
  using assms
proof (induction attrs arbitrary: v o1)
  case Nil
  then show ?case by (simp add: populateAttributes_def ret_def)
next
  case (Cons attr attrs)
  let ?set = "seq (update_obj p (so_setAttr attr)) (\<lambda>_. seq (lift (getOidListFromAttribute attr)) (forM (\<lambda>vid.
          if vid \<noteq> SAI_NULL_OBJECT_ID then modify (add_reference vid 1) else ret ())))"
  have at: "map_of (sv_heap v) p = Some o1" using Cons.prems(2) by (simp add: in_view_def)
  from Cons.prems(3) obtain v1 where rest: "populateAttributes h p attrs v1 = (Inr (), v')"
    and first: "seq (deref p) (\<lambda>o1. if ignored_attribute h (so_getObjectType o1) (md_attrid (sa_meta attr)) then ret () else ?set) v
      = (Inr (), v1)"
    unfolding populateAttributes_def by (auto simp only: forM_Cons_Inr)
  show ?case
  proof (cases "v1 = v")
    case True
    with Cons.IH [OF Cons.prems(1,2), of] rest Cons.prems(4-6) show ?thesis by simp
  next
    case False
    with first at have set: "?set v = (Inr (), v1)" by (auto simp: seq_Inr deref_Inr ret_def split: if_splits)
    have ok: "attr_ok h (so_getObjectType o1) attr" using Cons.prems(5) by simp
    have v1: "dump_inv h v1 \<and> in_view v1 p (so_setAttr attr o1)"
      by (rule dump_inv_attr [OF Cons.prems(1,2) ok _ set]) (use Cons.prems(6) in simp)
    have all: "m_soAll v1 = m_soAll v"
      using set by (auto simp: seq_Inr update_obj_Inr lift_def dest!: count_attr_oids)
    have "dump_inv h v' \<and> m_soAll v' = m_soAll v1"
    proof (rule Cons.IH [OF conjunct1 [OF v1] conjunct2 [OF v1] rest])
      show "list_all (attr_ok h (so_getObjectType (so_setAttr attr o1))) attrs"
        using Cons.prems(5) by (simp add: so_getObjectType_def so_setAttr_def)
      show "map_of (m_attrs (so_setAttr attr o1)) (a_id (sa_attr x)) = None" if "x \<in> set attrs" for x
      proof -
        have "a_id (sa_attr x) \<noteq> a_id (sa_attr attr)"
          using Cons.prems(4) imageI [OF that, of "\<lambda>attr. a_id (sa_attr attr)"] by auto
        with Cons.prems(6) that show ?thesis by (simp add: so_setAttr_def)
      qed
    qed (use Cons.prems(4) in simp)
    with all show ?thesis by simp
  qed
qed

lemma row_inv:
  assumes inv: "dump_inv h v" and row: "row_ok h (p, o1, attrs)" and run: "fromDump_row h (p, o1, attrs) v = (Inr (), v')"
    and p: "p \<notin> snd ` set (m_soAll v)" and key: "map_of (m_soAll v) (m_str_object_id o1) = None"
  shows "dump_inv h v' \<and> m_soAll v' = AList.update (m_str_object_id o1) p (m_soAll v)"
proof -
  let ?v = "v\<lparr>sv_heap := AList.update p o1 (sv_heap v)\<rparr>"
  have v: "dump_inv h ?v" using dump_inv_new_address [OF inv p] .
  have ok: "obj_ok h o1" "m_attrs o1 = []" using row by (auto simp: row_ok_def obj_ok_def)
  from run obtain w1 u where tables: "(case entry_table h (so_getObjectType o1) of
            Some e \<Rightarrow> modify (\<lambda>v. v\<lparr>m_soEntries := AList.update (e, m_str_object_id o1) p (m_soEntries v)\<rparr>)
          | None \<Rightarrow>
              if isnonobjectid (m_info o1) then raise (Throw ''object is non object id, not handled'')
              else modify (insert_oid_object o1 p)) ?v = (Inr (), w1)"
    and u: "(if isnonobjectid (m_info o1) then updateNonObjectIdVidReferenceCountByValue o1 1
          else modify (add_reference (object_id (m_meta_key o1)) 0))
        (sot_insert (so_getObjectType o1) (m_str_object_id o1) p w1) = (Inr (), u)"
    and pop: "populateAttributes h p attrs u = (Inr (), v')"
    by (auto simp: fromDump_row_def seq_Inr modify_def)
  let ?w = "sot_insert (so_getObjectType o1) (m_str_object_id o1) p w1"
  have "same_but_tables ?v w1 \<and> m_soAll w1 = m_soAll v"
    using tables
    by (auto simp: modify_def raise_def same_but_tables_def insert_oid_object_def split: option.splits if_splits)
  then have w: "same_but_tables ?v ?w" "m_soAll ?w = AList.update (m_str_object_id o1) p (m_soAll ?v)"
    by (auto simp: same_but_tables_def sot_insert_def Let_def)
  have count: "0 \<le> ref_count ?w X" for X
    using dump_inv_count [OF v, of X] w(1) by (simp add: ref_count_def same_but_tables_def)
  have "count_change ?w u (\<lambda>X. int (count_list (key_oids o1) X)) (set (key_oids o1)) \<and>
    m_vidToAsicOperationId u = m_vidToAsicOperationId ?w \<and> 0 \<le> ref_count u 0"
  proof (cases "isOidObject o1")
    case True
    with u count declare_change [of ?w "object_id (m_meta_key o1)"] show ?thesis
      by (auto simp: isOidObject_def modify_def key_oids_def add_reference_frame)
  next
    case False
    with u have u': "u = fold (update_member_reference 1) (so_members o1) ?w"
      by (simp add: isOidObject_def members_loop)
    have "count_change ?w u (\<lambda>X. 1 * int (count_list (so_members o1) X)) (set (so_members o1))"
      unfolding u' by (rule members_change) (use count in auto)
    with members_up [of ?w "so_members o1"] count False show ?thesis by (auto simp: key_oids_def u')
  qed
  then have change: "count_change ?w u (\<lambda>X. int (count_list (key_oids o1) X)) (set (key_oids o1))"
    and last: "m_vidToAsicOperationId u = m_vidToAsicOperationId ?w" "0 \<le> ref_count u 0" by blast+
  have u2: "dump_inv h u \<and> in_view u p o1"
    by (rule dump_inv_insert [OF v _ ok _ w change last]) (use key in auto)
  have "m_soAll u = m_soAll ?w" by (rule count_change_frame(2) [OF change])
  moreover have "dump_inv h v' \<and> m_soAll v' = m_soAll u"
    by (rule populate_inv [OF conjunct1 [OF u2] conjunct2 [OF u2] pop]) (use row ok in \<open>auto simp: row_ok_def\<close>)
  ultimately show ?thesis using w(2) by simp
qed

lemma fromDump_rows_inv:
  assumes "dump_inv h v" "dump_ok h dump" "forM (fromDump_row h) dump v = (Inr (), v')"
    and "\<And>row. row \<in> set dump \<Longrightarrow>
      fst row \<notin> snd ` set (m_soAll v) \<and> map_of (m_soAll v) (m_str_object_id (fst (snd row))) = None"
  shows "dump_inv h v'"
  using assms
proof (induction dump arbitrary: v)
  case Nil
  then show ?case by (simp add: ret_def)
next
  case (Cons row dump)
  obtain p o1 attrs where row: "row = (p, o1, attrs)" by (cases row)
  from Cons.prems(3) obtain v1 where v1: "fromDump_row h row v = (Inr (), v1)" "forM (fromDump_row h) dump v1 = (Inr (), v')"
    by (auto simp only: forM_Cons_Inr)
  have inv1: "dump_inv h v1 \<and> m_soAll v1 = AList.update (m_str_object_id o1) p (m_soAll v)"
    by (rule row_inv [OF Cons.prems(1) _ v1(1) [unfolded row]])
      (use Cons.prems(2) Cons.prems(4) [of row] row in \<open>auto simp: dump_ok_def\<close>)
  show ?case
  proof (rule Cons.IH [OF conjunct1 [OF inv1] _ v1(2)])
    show "dump_ok h dump" using Cons.prems(2) by (simp add: dump_ok_def)
    show "fst r \<notin> snd ` set (m_soAll v1) \<and> map_of (m_soAll v1) (m_str_object_id (fst (snd r))) = None" if "r \<in> set dump" for r
    proof -
      have "fst r \<noteq> p" "m_str_object_id (fst (snd r)) \<noteq> m_str_object_id o1"
        using Cons.prems(2) row that by (force simp: dump_ok_def)+
      with Cons.prems(4) [of r] that inv1 show ?thesis by (fastforce dest: set_alist_update)
    qed
  qed
qed

lemma fromDump_inv:
  assumes "dump_ok h dump" and "fromDump h dump asic_view_new = (Inr (), v)"
  shows "view_inv h v []"
proof -
  have "dump_inv h asic_view_new"
    by (simp add: dump_inv_def asic_view_new_def objects_ok_def ref_count_def uses_def)
  moreover from assms(2) have "forM (fromDump_row h) dump asic_view_new = (Inr (), v)"
    by (auto simp: fromDump_def seq_Inr ret_def raise_def split: if_splits)
  ultimately show ?thesis
    using fromDump_rows_inv [OF _ assms(1)] dump_inv_view_inv by (simp add: asic_view_new_def)
qed

text \<open>
  The views a client can reach: read from a dump, then changed by the calls of \<open>AsicView\<close> that return, as
  \<open>ComparisonLogic\<close> makes them, and by what it does to objects and to the maps of ids itself.
\<close>

section \<open>Runs\<close>

text \<open>
  The log of a run has the number of each operation with the ids its call refers to: those of the old and the new
  value of a set, and all of the object that is created or removed. The runs are those of the current view of the
  comparison: its client does not refer to removed ids again, creates objects the view does not have, and changes the
  objects of the view only through the view, but for their status. Of the temporary view \<open>ComparisonLogic\<close> also sets
  attributes of objects past the counts (for the attributes it carries over from the current view and for those
  of the objects it adds), which is not a step of a run.
\<close>

inductive view_run :: "sai_meta \<Rightarrow> asic_view \<Rightarrow> (nat \<times> oid) list \<Rightarrow> bool" for h where
  dump: "dump_ok h dump \<Longrightarrow> fromDump h dump asic_view_new = (Inr (), v) \<Longrightarrow> view_run h v []"
| set: "view_run h v log \<Longrightarrow> in_view v p o1 \<Longrightarrow> attr_ok h (so_getObjectType o1) attr \<Longrightarrow>
     \<forall>X\<in>set (sa_oids attr). X \<noteq> 0 \<longrightarrow> \<not> removed v X \<Longrightarrow> asicSetAttribute ser p attr v = (Inr (), v') \<Longrightarrow>
     view_run h v' (log @ map (Pair (m_asicOperationId v')) (old_oids o1 (a_id (sa_attr attr)) @ sa_oids attr))"
| create: "view_run h v log \<Longrightarrow> map_of (sv_heap v) p = Some o1 \<Longrightarrow> obj_ok h o1 \<Longrightarrow>
     map_of (m_soAll v) (m_str_object_id o1) = None \<Longrightarrow>
     \<forall>X\<in>set (obj_oids o1). X \<noteq> 0 \<longrightarrow> \<not> removed v X \<Longrightarrow> asicCreateObject h p v = (Inr (), v') \<Longrightarrow>
     view_run h v' (log @ map (Pair (m_asicOperationId v')) (obj_oids o1))"
| remove: "view_run h v log \<Longrightarrow> in_view v p o1 \<Longrightarrow>
     isOidObject o1 \<longrightarrow> (\<exists>t. vid_objectTypeQuery (sai_headers.truncate h) (object_id (m_meta_key o1)) = Inr t) \<Longrightarrow>
     asicRemoveObject h p v = (Inr (), v') \<Longrightarrow>
     view_run h v' (log @ map (Pair (m_asicOperationId v')) (obj_oids o1))"
| new_vid: "view_run h v log \<Longrightarrow> insertNewVidReference vid v = (Inr (), v') \<Longrightarrow> view_run h v' log"
| dummy: "view_run h v log \<Longrightarrow> p \<notin> snd ` set (m_soAll v) \<Longrightarrow>
     map_of (m_soAll v) (sai_serialize_object_id vid) = None \<Longrightarrow>
     createDummyExistingObject h print_type rid vid p v = (Inr p, v') \<Longrightarrow>
     map_of (sv_heap v') p = Some o1 \<Longrightarrow> isOidObject o1 \<Longrightarrow> view_run h v' log"
| object: "view_run h v log \<Longrightarrow> p \<notin> snd ` set (m_soAll v) \<Longrightarrow>
     view_run h (v\<lparr>sv_heap := AList.update p o1 (sv_heap v)\<rparr>) log"
| status: "view_run h v log \<Longrightarrow> in_view v p o1 \<Longrightarrow>
     view_run h (v\<lparr>sv_heap := AList.update p (setObjectStatus st o1) (sv_heap v)\<rparr>) log"
| ids: "view_run h v log \<Longrightarrow> view_run h (v\<lparr>m_ridToVid := rv, m_vidToRid := vr\<rparr>) log"

section \<open>Every run keeps the invariant\<close>

lemma view_inv_objects: "view_inv h v log \<Longrightarrow> objects_ok h v"
  by (simp add: view_inv_def)

lemma view_inv_count:
  assumes "view_inv h v log" and "X \<noteq> 0" and "\<not> removed v X"
  shows "ref_count v X = int (uses v X)"
  using assms by (simp add: view_inv_def counts_ok_def)

lemma view_inv_removed: "view_inv h v log \<Longrightarrow> X \<noteq> 0 \<Longrightarrow> removed v X \<Longrightarrow> uses v X = 0"
  by (simp add: view_inv_def counts_ok_def)

lemma uses_of_object:
  assumes "view_inv h v log" and "in_view v p o1"
  shows "count_list (obj_oids o1) X \<le> uses v X"
proof -
  have "uses_at (sv_heap v) X (m_str_object_id o1) p \<le> uses v X"
    unfolding uses_def using assms by (intro alist_sum_ge) (auto simp: view_inv_def objects_ok_def in_view_def)
  with assms(2) show ?thesis by (simp add: uses_at_def in_view_def)
qed

text \<open>An id the objects of the view refer to has not been removed, and its count is at least its uses in each.\<close>

lemma used_not_removed:
  assumes "view_inv h v log" and "in_view v p o1" and "X \<in> set (obj_oids o1)" and "X \<noteq> 0"
  shows "\<not> removed v X" "int (count_list (obj_oids o1) X) \<le> ref_count v X"
proof -
  have "0 < count_list (obj_oids o1) X" using assms(3) by (metis count_list_0_iff gr0I)
  with uses_of_object [OF assms(1,2), of X] show "\<not> removed v X" using view_inv_removed [OF assms(1,4)] by auto
  with view_inv_count [OF assms(1,4)] uses_of_object [OF assms(1,2), of X]
  show "int (count_list (obj_oids o1) X) \<le> ref_count v X" by simp
qed

lemma old_oids_of_object: "set (old_oids o1 a) \<subseteq> set (obj_oids o1)" "count_list (old_oids o1 a) X \<le> count_list (obj_oids o1) X"
proof -
  have at: "count_list (old_oids o1 a) X = at_key (\<lambda>a attr. count_list (sa_oids attr) X) (m_attrs o1) a" for X
    by (simp add: old_oids_def at_key_def split: option.splits)
  have "at_key f al k \<le> alist_sum f al" for f :: "u32 \<Rightarrow> sai_attr \<Rightarrow> nat" and al k
    by (induction al) (auto simp: at_key_Cons at_key_def split: option.splits)
  then show le: "count_list (old_oids o1 a) X \<le> count_list (obj_oids o1) X" for X
    unfolding at obj_oids_def count_list_append attrs_oids_count by (simp add: add_increasing)
  show "set (old_oids o1 a) \<subseteq> set (obj_oids o1)"
    using le by (metis count_list_0_iff le_zero_eq subsetI)
qed

lemma not_oid_attr:
  assumes "attr_ok h t attr" and "\<not> md_isoidattribute (sa_meta attr)"
  shows "sa_oids attr = []"
  using assms
  by (cases "md_attrvaluetype (sa_meta attr)") (auto simp: attr_ok_def sa_oids_def getOidListFromAttribute_def Let_def)

lemma effect_call:
  assumes "counts_effect G v v' \<delta> M" and "new_operation H G v v'" and "\<And>X. X \<noteq> 0 \<Longrightarrow> int (uses v' X) = int (uses v X) + \<delta> X"
    and "\<And>X. X \<noteq> 0 \<Longrightarrow> removed v' X \<longleftrightarrow> removed v X \<or> X \<in> G" and "\<And>X. X \<in> G \<Longrightarrow> X \<noteq> 0 \<and> uses v X = 0 \<and> \<not> removed v X"
    and "\<And>X. X \<in> M \<Longrightarrow> X \<noteq> 0 \<Longrightarrow> \<not> removed v X \<and> X \<notin> G"
  shows "call_effect H v v' \<delta> M G"
  using assms unfolding call_effect_def counts_effect_def by blast

lemma set_effect:
  assumes inv: "view_inv h v log" and p: "in_view v p o1" and attr: "attr_ok h (so_getObjectType o1) attr"
    and ids: "\<forall>X\<in>set (sa_oids attr). X \<noteq> 0 \<longrightarrow> \<not> removed v X" and call: "asicSetAttribute ser p attr v = (Inr (), v')"
  shows "m_soAll v' = m_soAll v \<and> sv_heap v' = AList.update p (so_setAttr attr o1) (sv_heap v) \<and>
     m_removedVidToRid v' = m_removedVidToRid v \<and> new_operation H {} v v' \<and>
     m_asicRemoveOperationsNonObjectId v' = m_asicRemoveOperationsNonObjectId v \<and>
     counts_effect {} v v' (\<lambda>X. int (count_list (sa_oids attr) X) - int (count_list (old_oids o1 (a_id (sa_attr attr))) X))
       (set (old_oids o1 (a_id (sa_attr attr))) \<union> set (sa_oids attr))"
proof -
  let ?k = "a_id (sa_attr attr)"
  have at: "map_of (sv_heap v) p = Some o1" using p by (simp add: in_view_def)
  have ok: "obj_ok h o1" using view_inv_objects [OF inv] p by (fastforce simp: objects_ok_def in_view_def)
  have old: "old_oids o1 ?k = []" if no: "\<not> md_isoidattribute (sa_meta attr)"
  proof (cases "map_of (m_attrs o1) ?k")
    case (Some attr0)
    then have "a_id (sa_attr attr0) = ?k" "attr_ok h (so_getObjectType o1) attr0"
      using ok map_of_SomeD [OF Some] by (auto simp: obj_ok_def)
    with attr no not_oid_attr [of h "so_getObjectType o1" attr0] Some show ?thesis by (auto simp: old_oids_def attr_ok_def)
  qed (simp add: old_oids_def)
  have enough: "int (count_list (old_oids o1 ?k) X) \<le> ref_count v X" if "X \<in> set (sa_oids attr)" "X \<noteq> 0" for X
  proof -
    have "count_list (old_oids o1 ?k) X \<le> uses v X"
      using old_oids_of_object(2) uses_of_object [OF inv p] le_trans by blast
    with view_inv_count [OF inv that(2)] ids that show ?thesis by simp
  qed
  have id: "md_attrid (sa_meta attr) = ?k" using attr by (simp add: attr_ok_def)
  show ?thesis using asicSetAttribute_effect [OF call at id _ enough, of H] old not_oid_attr [OF attr] by blast
qed

lemma set_inv:
  assumes inv: "view_inv h v log" and p: "in_view v p o1" and attr: "attr_ok h (so_getObjectType o1) attr"
    and ids: "\<forall>X\<in>set (sa_oids attr). X \<noteq> 0 \<longrightarrow> \<not> removed v X" and call: "asicSetAttribute ser p attr v = (Inr (), v')"
  shows "view_inv h v' (log @ map (Pair (m_asicOperationId v')) (old_oids o1 (a_id (sa_attr attr)) @ sa_oids attr))"
proof -
  let ?k = "a_id (sa_attr attr)" and ?H = "sai_headers.truncate h"
  have eff: "m_soAll v' = m_soAll v" "sv_heap v' = AList.update p (so_setAttr attr o1) (sv_heap v)"
    "m_removedVidToRid v' = m_removedVidToRid v" "new_operation ?H {} v v'"
    "counts_effect {} v v' (\<lambda>X. int (count_list (sa_oids attr) X) - int (count_list (old_oids o1 ?k) X))
       (set (old_oids o1 ?k) \<union> set (sa_oids attr))"
    using set_effect [OF assms, of ?H] by blast+
  have ok: "obj_ok h o1" using view_inv_objects [OF inv] p by (fastforce simp: objects_ok_def in_view_def)
  note obj = so_setAttr_ok [OF ok attr]
  have "objects_ok h v'"
    by (rule objects_ok_update [OF view_inv_objects [OF inv] p obj(1,2) eff(1,2)])
  moreover have "int (uses v' X) = int (uses v X) + (int (count_list (sa_oids attr) X) - int (count_list (old_oids o1 ?k) X))" for X
    using uses_update_object [OF view_inv_objects [OF inv] p eff(1,2), of X] obj_oids_setAttr [of attr o1 X] by linarith
  moreover have "\<not> removed v X" if "X \<in> set (old_oids o1 ?k)" "X \<noteq> 0" for X
    using used_not_removed(1) [OF inv p] that old_oids_of_object(1) by blast
  ultimately show ?thesis
    by (intro view_inv_call [OF inv effect_call [OF eff(5,4)]]) (use ids eff(3) in \<open>auto simp: removed_def\<close>)
qed

lemma create_inv:
  assumes inv: "view_inv h v log" and o1: "map_of (sv_heap v) p = Some o1" "obj_ok h o1"
    and key: "map_of (m_soAll v) (m_str_object_id o1) = None"
    and ids: "\<forall>X\<in>set (obj_oids o1). X \<noteq> 0 \<longrightarrow> \<not> removed v X" and call: "asicCreateObject h p v = (Inr (), v')"
  shows "view_inv h v' (log @ map (Pair (m_asicOperationId v')) (obj_oids o1))"
proof -
  let ?H = "sai_headers.truncate h"
  have "not_below v (set (obj_oids o1))" using ids view_inv_count [OF inv] by (auto simp: not_below_def)
  note eff = asicCreateObject_effect [OF call o1(1) this, of ?H]
  have "objects_ok h v'"
    by (rule objects_ok_insert [OF view_inv_objects [OF inv] o1]) (use eff in auto)
  moreover have "uses v' X = uses v X + count_list (obj_oids o1) X" for X
    using uses_insert_object [OF key o1(1), of v'] eff by blast
  moreover have "removed v' = removed v" using eff by (simp add: removed_def fun_eq_iff)
  ultimately show ?thesis
    by (intro view_inv_call [OF inv effect_call [where \<delta> = "\<lambda>X. int (count_list (obj_oids o1) X)"
          and M = "set (obj_oids o1)" and G = "{}"]]) (use ids eff in auto)
qed

lemma getVidReferenceCount_zero: "getVidReferenceCount v X = 0 \<Longrightarrow> ref_count v X = 0"
  by (auto simp: getVidReferenceCount_def ref_count_def split: option.splits)

lemma removed_at_zero:
  assumes inv: "view_inv h v log" and "X \<noteq> 0" and "getVidReferenceCount v X = 0"
  shows "uses v X = 0" "\<not> removed v X"
proof -
  have "ref_count v X = int (uses v X) - (if removed v X then 1 else 0)" "removed v X \<longrightarrow> uses v X = 0"
    using inv assms(2) by (simp_all add: view_inv_def counts_ok_def)
  with getVidReferenceCount_zero [OF assms(3)] show "\<not> removed v X" "uses v X = 0" by (auto split: if_splits)
qed

lemma remove_inv:
  assumes inv: "view_inv h v log" and p: "in_view v p o1"
    and type: "isOidObject o1 \<longrightarrow> (\<exists>t. vid_objectTypeQuery (sai_headers.truncate h) (object_id (m_meta_key o1)) = Inr t)"
    and call: "asicRemoveObject h p v = (Inr (), v')"
  shows "view_inv h v' (log @ map (Pair (m_asicOperationId v')) (obj_oids o1))"
proof -
  let ?H = "sai_headers.truncate h"
  have at: "map_of (sv_heap v) p = Some o1" using p by (simp add: in_view_def)
  have ok: "obj_ok h o1" using view_inv_objects [OF inv] p by (fastforce simp: objects_ok_def in_view_def)
  have "int (count_list (key_oids o1) X) \<le> ref_count v X" if "X \<in> set (key_oids o1)" "X \<noteq> 0" for X
  proof -
    have "X \<in> set (obj_oids o1)" "count_list (key_oids o1) X \<le> count_list (obj_oids o1) X"
      using that by (simp_all add: obj_oids_def)
    with used_not_removed(2) [OF inv p _ that(2)] show ?thesis by fastforce
  qed
  note eff = asicRemoveObject_effect [OF call at this, of ?H]
  have eff: "isOidObject o1 \<longrightarrow> getVidReferenceCount v (object_id (m_meta_key o1)) = 0"
    "m_soAll v' = AList.delete (m_str_object_id o1) (m_soAll v)" "sv_heap v' = sv_heap v"
    "removed v' X \<longleftrightarrow> removed v X \<or> X \<in> gone_ids o1" "new_operation ?H (gone_ids o1) v v'"
    "counts_effect (gone_ids o1) v v' (\<lambda>X. - int (count_list (obj_oids o1) X)) (set (obj_oids o1))" for X
    using eff type by blast+
  have gone: "X \<noteq> 0 \<and> uses v X = 0 \<and> \<not> removed v X" if "X \<in> gone_ids o1" for X
    using that ok eff(1) removed_at_zero [OF inv, of X] by (auto simp: gone_ids_def obj_ok_def split: if_splits)
  have kept: "\<not> removed v X \<and> X \<notin> gone_ids o1" if "X \<in> set (obj_oids o1)" "X \<noteq> 0" for X
  proof -
    have "0 < count_list (obj_oids o1) X" using that(1) by (metis count_list_0_iff gr0I)
    with uses_of_object [OF inv p, of X] have "0 < uses v X" by simp
    with used_not_removed(1) [OF inv p that] gone [of X] show ?thesis by auto
  qed
  have "objects_ok h v'" using view_inv_objects [OF inv] eff(2,3) by (auto simp: objects_ok_def split: if_splits)
  moreover have "int (uses v' X) = int (uses v X) + - int (count_list (obj_oids o1) X)" for X
    using uses_delete_object [OF view_inv_objects [OF inv] p eff(2,3), of X] by simp
  ultimately show ?thesis
    by (intro view_inv_call [OF inv effect_call [OF eff(6,5)]]) (use gone kept eff(4) in auto)
qed

text \<open>Steps that leave counts, releases, operations and removed ids alone, and the uses of ids.\<close>

lemma silent_inv:
  assumes inv: "view_inv h v log" and "objects_ok h v'" and "\<And>X. uses v' X = uses v X"
    and "\<And>X. ref_count v' X = ref_count v X" and "m_vidToAsicOperationId v' = m_vidToAsicOperationId v"
    and "m_asicOperationId v' = m_asicOperationId v" and "m_removedVidToRid v' = m_removedVidToRid v"
    and "m_asicOperations v' = m_asicOperations v"
    and "m_asicRemoveOperationsNonObjectId v' = m_asicRemoveOperationsNonObjectId v"
  shows "view_inv h v' log"
  using assms
  by (simp add: view_inv_def counts_ok_def releases_ok_def operations_listed_def removed_def last_release_def
      asicGetOperations_def)

lemma new_vid_inv:
  assumes "view_inv h v log" and "insertNewVidReference vid v = (Inr (), v')"
  shows "view_inv h v' log"
proof -
  from assms(2) have v': "v' = v\<lparr>m_vidReference := AList.update vid 0 (m_vidReference v)\<rparr>"
    and "map_of (m_vidReference v) vid = None" by (auto simp: insertNewVidReference_def has_key_def split: if_splits)
  then have count: "ref_count v' X = ref_count v X" for X by (simp add: ref_count_def)
  have "objects_ok h v'" using view_inv_objects [OF assms(1)] by (simp add: v' objects_ok_def)
  with count show ?thesis by (intro silent_inv [OF assms(1)]) (simp_all add: v' uses_def)
qed

lemma object_inv:
  assumes inv: "view_inv h v log" and p: "p \<notin> snd ` set (m_soAll v)"
  shows "view_inv h (v\<lparr>sv_heap := AList.update p o1 (sv_heap v)\<rparr>) log"
proof (rule silent_inv [OF inv _ uses_new_address [OF p]])
  have "p' \<noteq> p" if "map_of (m_soAll v) key = Some p'" for key p'
    using p that by (force dest: map_of_SomeD)
  then show "objects_ok h (v\<lparr>sv_heap := AList.update p o1 (sv_heap v)\<rparr>)"
    using view_inv_objects [OF inv] by (auto simp: objects_ok_def)
qed (simp_all add: ref_count_def)

lemma status_inv:
  assumes inv: "view_inv h v log" and p: "in_view v p o1"
  shows "view_inv h (v\<lparr>sv_heap := AList.update p (setObjectStatus st o1) (sv_heap v)\<rparr>) log"
proof -
  let ?o = "setObjectStatus st o1" and ?v = "v\<lparr>sv_heap := AList.update p (setObjectStatus st o1) (sv_heap v)\<rparr>"
  have ok: "obj_ok h o1" using view_inv_objects [OF inv] p by (fastforce simp: objects_ok_def in_view_def)
  have o: "obj_ok h ?o" "m_str_object_id ?o = m_str_object_id o1" "obj_oids ?o = obj_oids o1"
    using ok by (simp_all add: setObjectStatus_def obj_ok_def so_getObjectType_def isOidObject_def obj_oids_def key_oids_def
        so_members_def attrs_oids_def)
  have "uses ?v X = uses v X" for X
    using uses_update_object [OF view_inv_objects [OF inv] p, of ?v ?o X] o(3) by simp
  moreover have "objects_ok h ?v" by (rule objects_ok_update [OF view_inv_objects [OF inv] p o(1,2)]) simp_all
  ultimately show ?thesis by (intro silent_inv [OF inv]) (simp_all add: ref_count_def)
qed

lemma dummy_inv:
  assumes inv: "view_inv h v log" and p: "p \<notin> snd ` set (m_soAll v)"
    and key: "map_of (m_soAll v) (sai_serialize_object_id vid) = None"
    and call: "createDummyExistingObject h print_type rid vid p v = (Inr p, v')"
    and o1: "map_of (sv_heap v') p = Some o1" "isOidObject o1"
  shows "view_inv h v' log"
proof -
  let ?id = "sai_serialize_object_id vid"
  from call obtain t info where t: "vid_objectTypeQuery (sai_headers.truncate h) vid = Inr t" "t \<noteq> SAI_OBJECT_TYPE_NULL"
    "get_object_type_info h t = Some info"
    by (auto simp: createDummyExistingObject_def seq_Inr lift_def raise_def split: if_splits option.splits)
  define o2 where "o2 = \<lparr>m_str_object_type = print_type t, m_str_object_id = ?id, m_meta_key = oid_key t vid,
     m_info = info, m_attrs = [], m_createdObject = False, m_objectStatus = NOT_PROCESSED\<rparr>"
  define w where "w = sot_insert t ?id p (add_reference vid 0 (insert_oid_object o2 p
     (v\<lparr>sv_heap := AList.update p o2 (sv_heap v)\<rparr>)))"
  have "v' = w\<lparr>m_ridToVid := AList.update rid vid (m_ridToVid w), m_vidToRid := AList.update vid rid (m_vidToRid w)\<rparr>"
    using call t by (simp add: createDummyExistingObject_def seq_def lift_def modify_def ret_def o2_def w_def Let_def)
  then have v': "sv_heap v' = AList.update p o2 (sv_heap v)" "m_soAll v' = AList.update ?id p (m_soAll v)"
    "m_vidToAsicOperationId v' = m_vidToAsicOperationId v"
    "m_asicOperationId v' = m_asicOperationId v" "m_removedVidToRid v' = m_removedVidToRid v"
    "m_asicOperations v' = m_asicOperations v"
    "m_asicRemoveOperationsNonObjectId v' = m_asicRemoveOperationsNonObjectId v"
    "m_vidReference v' = m_vidReference (add_reference vid 0 v)"
    by (simp_all add: w_def sot_insert_def insert_oid_object_def add_reference_def Let_def)
  have o2: "m_attrs o2 = []" "m_str_object_id o2 = ?id" "object_id (m_meta_key o2) = vid"
    by (simp_all add: o2_def oid_key_def)
  have vid: "vid \<noteq> 0" using t by (auto simp: vid_objectTypeQuery_def)
  have count: "ref_count v' X = ref_count v X" for X
    using v'(8) add_reference_frame(8) [of vid 0 v X] by (simp add: ref_count_def)
  have "o2 = o1" using v'(1) o1(1) by simp
  then have ok: "obj_ok h o2" "obj_oids o2 = []"
    using o1(2) o2 vid by (auto simp: obj_ok_def obj_oids_def key_oids_def attrs_oids_def)
  let ?v = "v\<lparr>sv_heap := AList.update p o2 (sv_heap v)\<rparr>"
  have v: "view_inv h ?v log" by (rule object_inv [OF inv p])
  have "uses v' X = uses ?v X" for X
    using uses_insert_object [of ?v ?id p o2 v' X] key v' ok by simp
  moreover have "objects_ok h v'"
    by (rule objects_ok_insert [OF view_inv_objects [OF v], of p o2]) (use v' ok o2 in simp_all)
  ultimately show ?thesis by (intro silent_inv [OF v]) (use v' count in \<open>simp_all add: ref_count_def\<close>)
qed

lemma view_run_inv: "view_run h v log \<Longrightarrow> view_inv h v log"
proof (induction rule: view_run.induct)
  case (ids v log rv vr)
  show ?case
    by (rule silent_inv [OF ids.IH]) (use view_inv_objects [OF ids.IH] in \<open>simp_all add: objects_ok_def uses_def ref_count_def\<close>)
qed (blast intro: fromDump_inv set_inv create_inv remove_inv new_vid_inv dummy_inv object_inv status_inv)+

end
