(* ===== verification/Asic_Props.thy ===== *)
theory Asic_Props
  imports Meta_Demo Asic_Run
begin

text \<open>
  The properties of the view of a switch: its counts are exact, an object in use is not removed, setting an attribute
  never releases too much, and the order of the operations is safe.
\<close>

section \<open>A concrete run\<close>

text \<open>A switch, a virtual router and a port that refers to it; the port is detached, and the router removed.\<close>

definition demo_oid_obj :: "object_type \<Rightarrow> oid \<Rightarrow> string \<Rightarrow> (u32, sai_attr) alist \<Rightarrow> sai_obj" where
  "demo_oid_obj t vid name attrs = \<lparr>m_str_object_type = [], m_str_object_id = name, m_meta_key = oid_key t vid,
     m_info = \<lparr>isnonobjectid = False, structmembers = [], attrmetadata = []\<rparr>, m_attrs = attrs,
     m_createdObject = False, m_objectStatus = NOT_PROCESSED\<rparr>"

definition demo_vr_attr :: "oid \<Rightarrow> sai_attr" where
  "demo_vr_attr vid = \<lparr>m_str_attr_id = ''VR'', m_str_attr_value = [],
     sa_meta = (demo_md 1 2 ''VR'' VT_OBJECT_ID)\<lparr>md_isoidattribute := True\<rparr>,
     sa_attr = \<lparr>a_id = 2, a_value = demo_value\<lparr>v_oid := vid\<rparr>\<rparr>\<rparr>"

definition demo_dump :: "(nat \<times> sai_obj \<times> sai_attr list) list" where
  "demo_dump = [(1, demo_oid_obj 33 demo_switch ''switch'' [], []), (2, demo_oid_obj 3 demo_vr ''router'' [], []),
     (3, demo_oid_obj 1 demo_port ''port'' [], [demo_vr_attr demo_vr])]"

definition demo_ser :: "object_type \<Rightarrow> sai_attribute \<Rightarrow> string \<times> string" where
  "demo_ser t a = ([], [])"

definition demo_view1 :: asic_view where
  "demo_view1 = asic_view_new\<lparr>
     sv_heap := [(1, demo_oid_obj 33 demo_switch ''switch'' []), (2, demo_oid_obj 3 demo_vr ''router'' []),
       (3, demo_oid_obj 1 demo_port ''port'' [(2, demo_vr_attr demo_vr)])],
     m_soOids := [(''switch'', 1), (''router'', 2), (''port'', 3)],
     m_soAll := [(''switch'', 1), (''router'', 2), (''port'', 3)],
     m_sotAll := [(33, [(''switch'', 1)]), (3, [(''router'', 2)]), (1, [(''port'', 3)])],
     m_oOids := [(demo_switch, 1), (demo_vr, 2), (demo_port, 3)],
     m_vidReference := [(demo_switch, 0), (demo_vr, 1), (demo_port, 0)]\<rparr>"

lemma demo_vr_attr_simps [simp]:
  "getOidListFromAttribute (demo_vr_attr vid) = Inr [vid]" "a_id (sa_attr (demo_vr_attr vid)) = 2"
  "md_attrid (sa_meta (demo_vr_attr vid)) = 2" "md_isoidattribute (sa_meta (demo_vr_attr vid))"
  "sa_oids (demo_vr_attr vid) = [vid]"
  by (simp_all add: demo_vr_attr_def getOidListFromAttribute_def demo_md_def sa_oids_def)

lemma demo_vr_attr_ok: "attr_ok demo_meta 1 (demo_vr_attr vid)"
  unfolding attr_ok_def
  by (simp, simp add: demo_meta_def demo_get_attr_metadata_def demo_attrs_def demo_vr_attr_def demo_md_def)

lemma demo_oid_obj_simps [simp]:
  "so_getObjectType (demo_oid_obj t vid name attrs) = t" "m_str_object_id (demo_oid_obj t vid name attrs) = name"
  "m_info (demo_oid_obj t vid name attrs) = \<lparr>isnonobjectid = False, structmembers = [], attrmetadata = []\<rparr>"
  "m_meta_key (demo_oid_obj t vid name attrs) = oid_key t vid" "m_attrs (demo_oid_obj t vid name attrs) = attrs"
  "isOidObject (demo_oid_obj t vid name attrs)" "m_objectStatus (demo_oid_obj t vid name attrs) = NOT_PROCESSED"
  "so_setAttr attr (demo_oid_obj t vid name attrs) =
     demo_oid_obj t vid name (AList.update (a_id (sa_attr attr)) attr attrs)"
  by (simp_all add: demo_oid_obj_def so_getObjectType_def oid_key_def isOidObject_def so_setAttr_def)

lemma demo_entry_table [simp]: "entry_table demo_meta 33 = None" "entry_table demo_meta 3 = None" "entry_table demo_meta 1 = None"
  by (simp_all add: entry_table_def demo_meta_def)

lemma demo_not_ignored [simp]: "\<not> ignored_attribute demo_meta 1 2"
  by (simp add: ignored_attribute_def demo_meta_def)

lemma demo_oid_key [simp]: "object_id (oid_key t vid) = vid"
  by (simp add: oid_key_def)

lemmas demo_view_ops = op_defs deref_def update_obj_def sot_insert_def insert_oid_object_def add_reference_def

lemma demo_dumped: "fromDump demo_meta demo_dump asic_view_new = (Inr (), demo_view1)"
  by (simp add: fromDump_def demo_dump_def fromDump_row_def populateAttributes_def demo_view_ops asic_view_new_def
      demo_view1_def)

lemma demo_run1: "view_run demo_meta demo_view1 []"
proof (rule view_run.dump [OF _ demo_dumped])
  show "dump_ok demo_meta demo_dump"
    by (simp add: dump_ok_def row_ok_def demo_dump_def demo_vr_attr_ok)
qed

definition demo_view2 :: asic_view where
  "demo_view2 = demo_view1\<lparr>m_ridToVid := [(5, demo_vr)], m_vidToRid := [(demo_vr, 5)]\<rparr>"

definition demo_set_op :: asic_operation where
  "demo_set_op = \<lparr>m_opId = 1, m_vid = demo_port, m_isRemove = False,
     m_op = \<lparr>kco_key = '':port'', kco_op = ''set'', kco_fields = [([], [])]\<rparr>, m_currentValue = []\<rparr>"

definition demo_remove_op :: asic_operation where
  "demo_remove_op = \<lparr>m_opId = 2, m_vid = demo_vr, m_isRemove = True,
     m_op = \<lparr>kco_key = '':router'', kco_op = ''remove'', kco_fields = []\<rparr>, m_currentValue = []\<rparr>"

definition demo_view3 :: asic_view where
  "demo_view3 = demo_view2\<lparr>
     sv_heap := [(1, demo_oid_obj 33 demo_switch ''switch'' []), (2, demo_oid_obj 3 demo_vr ''router'' []),
       (3, demo_oid_obj 1 demo_port ''port'' [(2, demo_vr_attr 0)])],
     m_vidReference := [(demo_switch, 0), (demo_vr, 0), (demo_port, 0)], m_asicOperationId := 1,
     m_vidToAsicOperationId := [(demo_vr, 1)], m_asicOperations := [demo_set_op]\<rparr>"

definition demo_view4 :: asic_view where
  "demo_view4 = demo_view3\<lparr>m_soOids := [(''switch'', 1), (''port'', 3)], m_soAll := [(''switch'', 1), (''port'', 3)],
     m_sotAll := [(33, [(''switch'', 1)]), (3, []), (1, [(''port'', 3)])], m_oOids := [(demo_switch, 1), (demo_port, 3)],
     m_ridToVid := [], m_vidToRid := [], m_removedVidToRid := [(demo_vr, 5)],
     m_vidReference := [(demo_switch, 0), (demo_vr, - 1), (demo_port, 0)], m_asicOperationId := 2,
     m_asicOperations := [demo_set_op, demo_remove_op]\<rparr>"

lemmas demo_views = demo_view4_def demo_view3_def demo_view2_def demo_view1_def asic_view_new_def

lemma demo_oid_obj_more [simp]:
  "m_str_object_type (demo_oid_obj t vid name attrs) = []" "m_str_attr_value (demo_vr_attr vid) = []"
  by (simp_all add: demo_oid_obj_def demo_vr_attr_def)

lemma demo_set_null: "asicSetAttribute demo_ser 3 (demo_vr_attr 0) demo_view2 = (Inr (), demo_view3)"
  by (simp add: asicSetAttribute_def demo_view_ops next_operation_def tryGetSaiAttr_def so_hasAttr_def has_key_def
      getSaiAttr_def releaseExistingLinks_attr_def releaseVidReference_def bindNewLinks_attr_def bindNewVidReference_def
      push_operation_def operation_vid_def object_kco_def demo_ser_def demo_views demo_set_op_def Let_def)

lemma demo_remove_vr: "asicRemoveObject demo_meta 2 demo_view3 = (Inr (), demo_view4)"
  by (simp add: asicRemoveObject_def demo_view_ops next_operation_def getVidReferenceCount_def sot_erase_def
      releaseExistingLinks_def push_operation_def operation_vid_def object_kco_def demo_views demo_remove_op_def
      demo_set_op_def AList.delete_eq Let_def)

lemma demo_in_view:
  "in_view demo_view1 2 (demo_oid_obj 3 demo_vr ''router'' [])"
  "in_view demo_view2 3 (demo_oid_obj 1 demo_port ''port'' [(2, demo_vr_attr demo_vr)])"
  "in_view demo_view3 2 (demo_oid_obj 3 demo_vr ''router'' [])"
  by (simp_all add: in_view_def demo_views)

lemma demo_run2: "view_run demo_meta demo_view2 []"
  unfolding demo_view2_def by (rule view_run.ids [OF demo_run1])

lemma demo_run3: "view_run demo_meta demo_view3 [(1, demo_vr), (1, 0)]"
  using view_run.set [OF demo_run2 demo_in_view(2), of "demo_vr_attr 0" demo_ser demo_view3] demo_vr_attr_ok demo_set_null
  by (simp add: old_oids_def demo_view3_def)

lemma demo_vr_type: "vid_objectTypeQuery (sai_headers.truncate demo_meta) demo_vr = Inr 3"
  by code_simp

lemma demo_run4: "view_run demo_meta demo_view4 [(1, demo_vr), (1, 0)]"
  using view_run.remove [OF demo_run3 demo_in_view(3), of demo_view4] demo_vr_type demo_remove_vr
  by (simp add: obj_oids_def key_oids_def attrs_oids_def)

section \<open>Counts\<close>

text \<open>
C26 the counts of the view that is changed are exact. In every state of a view that was loaded from a dump and then
changed by asicSetAttribute, asicCreateObject and asicRemoveObject, by new ids, existing objects added to it, and changes of status
(all that the comparison does to the current view, the one operations are recorded for), the count of every non-null id
is the number of times the objects of the view refer to it, in attributes of all kinds that hold ids and in the keys of
entries, less one if the id has been removed; nothing refers to an id that has been removed, so its count is \<open>-1\<close>. The
condition of a run is that no call brings in a removed id. The temporary view, whose objects the comparison also gives attributes
past its counts, is not such a view, and its counts are not asked for.
\<close>
theorem view_counts_exact:
  assumes "view_run h v log" and "X \<noteq> 0"
  shows "ref_count v X = int (uses v X) - (if removed v X then 1 else 0) \<and> (removed v X \<longrightarrow> ref_count v X = -1)"
  using view_run_inv [OF assms(1)] assms(2) by (auto simp: view_inv_def counts_ok_def)

theorem view_counts_exact_witness:
  "ref_count demo_view2 demo_vr = int (uses demo_view2 demo_vr) \<and> uses demo_view2 demo_vr = 1 \<and> ref_count demo_view4 demo_vr = -1"
proof -
  have "removed demo_view4 demo_vr" by (simp add: removed_def has_key_def demo_views)
  then show ?thesis
    using view_counts_exact [OF demo_run2, of demo_vr] view_counts_exact [OF demo_run4, of demo_vr]
    by (simp add: removed_def has_key_def demo_views uses_def uses_at_def obj_oids_def key_oids_def attrs_oids_def)
qed

text \<open>
C27 an object in use is not removed. The removal of an object some object of the view refers to, itself included,
throws, leaves the object in the view and adds no operation.
\<close>
theorem view_remove_refused:
  assumes "view_run h v log" and "in_view v p o1" and "isOidObject o1" and "0 < uses v (object_id (m_meta_key o1))"
  shows "\<exists>e v'. asicRemoveObject h p v = (Inl e, v') \<and> m_soAll v' = m_soAll v \<and>
     asicGetOperations v' = asicGetOperations v \<and> m_vidReference v' = m_vidReference v"
proof -
  note inv = view_run_inv [OF assms(1)]
  have "object_id (m_meta_key o1) \<noteq> 0"
    using view_inv_objects [OF inv] assms(2,3) by (fastforce simp: objects_ok_def in_view_def obj_ok_def)
  with removed_at_zero [OF inv] assms(4) have "getVidReferenceCount v (object_id (m_meta_key o1)) \<noteq> 0" by fastforce
  with assms(2,3) show ?thesis
    by (auto simp: asicRemoveObject_def seq_def deref_def gets_def raise_def ret_def next_operation_def modify_def
        in_view_def getVidReferenceCount_def asicGetOperations_def Let_def)
qed

theorem view_remove_refused_witness:
  "\<exists>e v'. asicRemoveObject demo_meta 2 demo_view1 = (Inl e, v') \<and> m_soAll v' = m_soAll demo_view1 \<and>
     asicGetOperations v' = asicGetOperations demo_view1 \<and> m_vidReference v' = m_vidReference demo_view1"
  by (rule view_remove_refused [OF demo_run1 demo_in_view(1)])
    (simp_all add: demo_views uses_def uses_at_def obj_oids_def key_oids_def attrs_oids_def)

section \<open>Setting an attribute\<close>

lemma release_all_total:
  assumes "\<And>X. X \<in> set vids \<Longrightarrow> X \<noteq> 0 \<Longrightarrow> int (count_list vids X) \<le> ref_count v X"
  shows "\<exists>v'. forM releaseVidReference vids v = (Inr (), v') \<and> set (keys (m_vidReference v)) \<subseteq> set (keys (m_vidReference v'))"
  using assms
proof (induction vids arbitrary: v)
  case Nil
  then show ?case by (simp add: ret_def)
next
  case (Cons vid vids)
  have "\<exists>v1. releaseVidReference vid v = (Inr (), v1) \<and> set (keys (m_vidReference v)) \<subseteq> set (keys (m_vidReference v1))"
  proof (cases "vid = 0")
    case True
    then show ?thesis by (simp add: releaseVidReference_def)
  next
    case False
    with Cons.prems [of vid] have "1 \<le> ref_count v vid" by auto
    then obtain n where "map_of (m_vidReference v) vid = Some n" "0 \<le> n - 1"
      by (auto simp: ref_count_def split: option.splits)
    with False show ?thesis by (auto simp: releaseVidReference_def Let_def set_keys)
  qed
  then obtain v1 where v1: "releaseVidReference vid v = (Inr (), v1)"
    "set (keys (m_vidReference v)) \<subseteq> set (keys (m_vidReference v1))" by blast
  have "int (count_list vids X) \<le> ref_count v1 X" if "X \<in> set vids" "X \<noteq> 0" for X
    using Cons.prems [of X] count_change_eq(1) [OF release_change [OF v1(1)] that(2)] that by (auto simp: one_def split: if_splits)
  from Cons.IH [OF this] v1 show ?case by (auto simp: seq_def)
qed

lemma bind_all_total:
  assumes "\<And>X. X \<in> set vids \<Longrightarrow> X \<noteq> 0 \<Longrightarrow> has_key (m_vidReference v) X"
  shows "\<exists>v'. forM bindNewVidReference vids v = (Inr (), v')"
  using assms
proof (induction vids arbitrary: v)
  case (Cons vid vids)
  have "\<exists>v1. bindNewVidReference vid v = (Inr (), v1) \<and> (\<forall>X. has_key (m_vidReference v) X \<longrightarrow> has_key (m_vidReference v1) X)"
    using Cons.prems [of vid] by (cases "vid = 0") (auto simp: bindNewVidReference_def has_key_def split: option.splits)
  then obtain v1 where v1: "bindNewVidReference vid v = (Inr (), v1)"
    "\<And>X. has_key (m_vidReference v) X \<Longrightarrow> has_key (m_vidReference v1) X" by blast
  have "has_key (m_vidReference v1) X" if "X \<in> set vids" "X \<noteq> 0" for X using Cons.prems [of X] v1(2) that by simp
  from Cons.IH [OF this] v1(1) show ?case by (auto simp: seq_def)
qed (simp add: ret_def)

text \<open>
C28 setting an attribute never fails. In every view a client reaches, setting an attribute of an object of the view
to a value whose ids are null or known to the view returns: no count is decreased too many times and none is missing.
The attribute has the new value, the other attributes and objects theirs, and one operation is recorded.
\<close>
theorem view_set_returns:
  assumes "view_run h v log" and "in_view v p o1" and "attr_ok h (so_getObjectType o1) attr"
    and "\<forall>X\<in>set (sa_oids attr). X \<noteq> 0 \<longrightarrow> has_key (m_vidReference v) X \<and> \<not> removed v X"
  shows "\<exists>v' a. asicSetAttribute ser p attr v = (Inr (), v') \<and>
     sv_heap v' = AList.update p (so_setAttr attr o1) (sv_heap v) \<and> m_soAll v' = m_soAll v \<and>
     m_asicOperations v' = m_asicOperations v @ [a] \<and> m_opId a = m_asicOperationId v + 1 \<and> \<not> m_isRemove a"
proof -
  note inv = view_run_inv [OF assms(1)]
  let ?k = "a_id (sa_attr attr)" and ?w = "v\<lparr>m_asicOperationId := Suc (m_asicOperationId v)\<rparr>"
  have at: "map_of (sv_heap v) p = Some o1" and ok: "obj_ok h o1"
    using view_inv_objects [OF inv] assms(2) by (fastforce simp: objects_ok_def in_view_def)+
  have id: "md_attrid (sa_meta attr) = ?k" and vids: "getOidListFromAttribute attr = Inr (sa_oids attr)"
    using assms(3) by (auto simp: attr_ok_def sa_oids_def)
  have old: "getOidListFromAttribute a0 = Inr (old_oids o1 ?k)" if "map_of (m_attrs o1) ?k = Some a0" for a0
    using ok map_of_SomeD [OF that] that by (auto simp: obj_ok_def attr_ok_def old_oids_def sa_oids_def)
  have "\<exists>v1. forM releaseVidReference (old_oids o1 ?k) ?w = (Inr (), v1) \<and>
      set (keys (m_vidReference ?w)) \<subseteq> set (keys (m_vidReference v1))"
  proof (rule release_all_total)
    fix X assume X: "X \<in> set (old_oids o1 ?k)" "X \<noteq> 0"
    with old_oids_of_object [of o1 ?k] used_not_removed(2) [OF inv assms(2), of X]
    have "int (count_list (old_oids o1 ?k) X) \<le> ref_count v X" by (meson of_nat_le_iff order_trans subsetD)
    then show "int (count_list (old_oids o1 ?k) X) \<le> ref_count ?w X" by (simp add: ref_count_def)
  qed
  then obtain v1 where v1: "forM releaseVidReference (old_oids o1 ?k) ?w = (Inr (), v1)"
    "set (keys (m_vidReference v)) \<subseteq> set (keys (m_vidReference v1))" by auto
  note frame = count_change_frame [OF release_all_change [OF v1(1)]]
  let ?v1 = "v1\<lparr>sv_heap := AList.update p (so_setAttr attr o1) (sv_heap v1)\<rparr>"
  have "\<exists>v2. forM bindNewVidReference (sa_oids attr) ?v1 = (Inr (), v2)"
    by (rule bind_all_total) (use assms(4) v1(2) in \<open>auto simp: has_key_iff\<close>)
  then obtain v2 where v2: "forM bindNewVidReference (sa_oids attr) ?v1 = (Inr (), v2)" by blast
  have "\<exists>v'. asicSetAttribute ser p attr v = (Inr (), v')"
  proof (cases "md_isoidattribute (sa_meta attr)")
    case True
    have rel: "(if so_hasAttr o1 ?k then seq (lift (getSaiAttr o1 ?k)) releaseExistingLinks_attr else ret ()) ?w = (Inr (), v1)"
      using v1(1) old by (auto simp: so_hasAttr_def has_key_def getSaiAttr_def seq_def lift_def releaseExistingLinks_attr_def
          old_oids_def ret_def split: option.splits)
    with True at frame vids v2 show ?thesis
      by (simp add: asicSetAttribute_def seq_def deref_def gets_def ret_def next_operation_def modify_def update_obj_def
          push_operation_def bindNewLinks_attr_def lift_def getSaiAttr_def so_setAttr_def id Let_def)
  next
    case False
    with at show ?thesis
      by (simp add: asicSetAttribute_def seq_def deref_def gets_def ret_def next_operation_def modify_def update_obj_def
          push_operation_def id Let_def)
  qed
  then obtain v' where v': "asicSetAttribute ser p attr v = (Inr (), v')" by blast
  have ids: "\<forall>X\<in>set (sa_oids attr). X \<noteq> 0 \<longrightarrow> \<not> removed v X" using assms(4) by blast
  from set_effect [OF inv assms(2,3) ids v'] show ?thesis
    using v' by (auto simp: new_operation_def)
qed

theorem view_set_returns_witness:
  "\<exists>v' a. asicSetAttribute demo_ser 3 (demo_vr_attr 0) demo_view2 = (Inr (), v') \<and>
     sv_heap v' = AList.update 3 (so_setAttr (demo_vr_attr 0) (demo_oid_obj 1 demo_port ''port'' [(2, demo_vr_attr demo_vr)]))
       (sv_heap demo_view2) \<and> m_soAll v' = m_soAll demo_view2 \<and>
     m_asicOperations v' = m_asicOperations demo_view2 @ [a] \<and> m_opId a = m_asicOperationId demo_view2 + 1 \<and> \<not> m_isRemove a"
  by (rule view_set_returns [OF demo_run2 demo_in_view(2)]) (simp_all add: demo_vr_attr_ok)

section \<open>The order of operations\<close>

text \<open>
C29 the order of the operations is safe. For every view a client reaches, the list with the removals moved up is
made without the error of a list that misses an operation, holds the recorded operations and no other, keeps creates and
sets in the order they were recorded in, and has each removal of an object after every operation whose call referred to that object.
\<close>
theorem removals_moved_safely:
  assumes "view_run h v log"
  shows "\<exists>l. asicGetWithOptimizedRemoveOperations (sai_headers.truncate h) v = Inr l \<and>
     mset l = mset (asicGetOperations v) \<and>
     filter (\<lambda>a. \<not> m_isRemove a) l = filter (\<lambda>a. \<not> m_isRemove a) (m_asicOperations v) \<and>
     (\<forall>r\<in>set (m_asicOperations v). m_isRemove r \<longrightarrow>
        (\<forall>a\<in>set l. (m_opId a, m_vid r) \<in> set log \<longrightarrow> precedes l a r))"
proof -
  let ?H = "sai_headers.truncate h" and ?refers = "\<lambda>a X. (m_opId a, X) \<in> set log"
  note inv = view_run_inv [OF assms]
  have listed: "operations_listed ?H v" and rel: "releases_ok v log" and counts: "counts_ok v"
    using inv by (simp_all add: view_inv_def)
  have "operations_ok ?H (m_vidToAsicOperationId v) ?refers (m_asicRemoveOperationsNonObjectId v) (m_asicOperations v)"
    unfolding operations_ok_def
  proof (intro conjI ballI impI)
    fix r assume r: "r \<in> set (m_asicOperations v)" "m_isRemove r"
    then have vid: "m_vid r \<noteq> 0" "removed v (m_vid r)" "\<exists>t. vid_objectTypeQuery ?H (m_vid r) = Inr t"
      and less: "\<forall>j. last_release v (m_vid r) = Some j \<longrightarrow> j < m_opId r"
      using listed by (auto simp: operations_listed_def)
    show "m_vid r \<noteq> 0" "\<exists>t. vid_objectTypeQuery ?H (m_vid r) = Inr t" using vid by blast+
    show "\<forall>i. map_of (m_vidToAsicOperationId v) (m_vid r) = Some i \<longrightarrow>
        i \<in> m_opId ` set (m_asicRemoveOperationsNonObjectId v @ m_asicOperations v) \<and> i < m_opId r"
      using less rel listed vid(1) by (auto simp: last_release_def releases_ok_def operations_listed_def asicGetOperations_def)
    have "ref_count v (m_vid r) \<le> 0" using counts vid by (simp add: counts_ok_def)
    then show "\<exists>i. map_of (m_vidToAsicOperationId v) (m_vid r) = Some i \<and> m_opId a \<le> i"
      if "(m_opId a, m_vid r) \<in> set log" for a
      using rel that vid(1) by (fastforce simp: releases_ok_def last_release_def)
  qed (use listed in \<open>auto simp: operations_listed_def asicGetOperations_def\<close>)
  from optimized_operations [OF this] obtain l where l:
    "optimize_loop ?H (m_vidToAsicOperationId v) (m_asicOperations v)
       (m_asicRemoveOperationsNonObjectId v, length (m_asicRemoveOperationsNonObjectId v)) = Inr l"
    "mset l = mset (asicGetOperations v)"
    "filter (\<lambda>a. \<not> m_isRemove a) l = filter (\<lambda>a. \<not> m_isRemove a) (m_asicOperations v)"
    "\<forall>r\<in>set l. m_isRemove r \<and> r \<in> set (m_asicOperations v) \<longrightarrow> (\<forall>a\<in>set l. ?refers a (m_vid r) \<longrightarrow> precedes l a r)"
    by (auto simp: asicGetOperations_def)
  moreover have "set l = set (asicGetOperations v)" using l(2) by (rule mset_eq_setD)
  ultimately show ?thesis
    by (auto simp: asicGetWithOptimizedRemoveOperations_def asicGetOperations_def Let_def)
qed

theorem removals_moved_safely_witness:
  "\<exists>l. asicGetWithOptimizedRemoveOperations (sai_headers.truncate demo_meta) demo_view4 = Inr l \<and>
     precedes l demo_set_op demo_remove_op"
proof -
  have ops: "m_asicOperations demo_view4 = [demo_set_op, demo_remove_op]" "m_asicRemoveOperationsNonObjectId demo_view4 = []"
    by (simp_all add: demo_views)
  from removals_moved_safely [OF demo_run4] obtain l where l:
    "asicGetWithOptimizedRemoveOperations (sai_headers.truncate demo_meta) demo_view4 = Inr l"
    "mset l = mset (asicGetOperations demo_view4)"
    "\<forall>r\<in>set (m_asicOperations demo_view4). m_isRemove r \<longrightarrow>
        (\<forall>a\<in>set l. (m_opId a, m_vid r) \<in> set [(1, demo_vr), (1, 0)] \<longrightarrow> precedes l a r)" by blast
  have "demo_set_op \<in> set l" using mset_eq_setD [OF l(2)] ops by (simp add: asicGetOperations_def)
  with l(3) ops have "precedes l demo_set_op demo_remove_op" by (simp add: demo_remove_op_def demo_set_op_def)
  with l(1) show ?thesis by blast
qed

end
