(* ===== verification/Ser_Text.thy ===== *)
theory Ser_Text
  imports Rid_Store
begin

text \<open>
  Numbers as text in \<open>meta/SaiSerialize.cpp\<close>: \<open>sai_serialize_number\<close> and \<open>sai_deserialize_number\<close> with the
  functions of the C library they call; and the characters of texts.
\<close>

section \<open>Reading numbers\<close>

text \<open>
  \<open>strtoull\<close>: white space, a sign, for base 16 a prefix, and digits; the value modulo \<open>2 ^ 64\<close>, the characters
  after it, and whether \<open>errno\<close> is set. With no digits the value is 0 and nothing is consumed.
\<close>

definition c_space :: "char \<Rightarrow> bool" where
  "c_space c = (let n = of_char c :: nat in n = 32 \<or> 9 \<le> n \<and> n \<le> 13)"

definition digit_value :: "nat \<Rightarrow> char \<Rightarrow> nat option" where
  "digit_value base c = (case hex_digit c of None \<Rightarrow> None | Some d \<Rightarrow> if d < base then Some d else None)"

fun read_digits :: "nat \<Rightarrow> nat \<Rightarrow> string \<Rightarrow> nat \<times> string" where
  "read_digits base a [] = (a, [])"
| "read_digits base a (c # cs) =
     (case digit_value base c of None \<Rightarrow> (a, c # cs) | Some d \<Rightarrow> read_digits base (base * a + d) cs)"

definition starts_digit :: "nat \<Rightarrow> string \<Rightarrow> bool" where
  "starts_digit base s = (case s of [] \<Rightarrow> False | c # cs \<Rightarrow> digit_value base c \<noteq> None)"

definition read_sign :: "string \<Rightarrow> bool \<times> string" where
  "read_sign s = (case s of [] \<Rightarrow> (False, [])
     | c # cs \<Rightarrow> if c = CHR ''-'' then (True, cs) else if c = CHR ''+'' then (False, cs) else (False, c # cs))"

definition skip_prefix :: "nat \<Rightarrow> string \<Rightarrow> string" where
  "skip_prefix base s =
     (if base = 16 \<and> (take 2 s = ''0x'' \<or> take 2 s = ''0X'') \<and> starts_digit 16 (drop 2 s) then drop 2 s else s)"

definition strtoull :: "nat \<Rightarrow> string \<Rightarrow> u64 \<times> string \<times> bool" where
  "strtoull base s =
     (case read_sign (dropWhile c_space s) of (neg, s1) \<Rightarrow>
        let s2 = skip_prefix base s1
        in if \<not> starts_digit base s2 then (0, s, False)
           else case read_digits base 0 s2 of (n, rest) \<Rightarrow>
             if 2 ^ 64 \<le> n then (- 1, rest, True)
             else (if neg then - of_nat n else of_nat n, rest, False))"

text \<open>A string up to the first null character.\<close>

definition c_str :: "string \<Rightarrow> string" where
  "c_str s = takeWhile (\<lambda>c. c \<noteq> CHR 0x00) s"

text \<open>
  The template, for all integer types: the cast to a narrower type, signed or not, keeps the low bits. The end of
  what was read is to be the end of the string.
\<close>

definition sai_deserialize_number :: "bool \<Rightarrow> string \<Rightarrow> fault + 'a::len word" where
  "sai_deserialize_number hex s =
     (case strtoull (if hex then 16 else 10) (c_str s) of (n, rest, errno) \<Rightarrow>
        if errno \<or> rest \<noteq> [] \<or> c_str s \<noteq> s then Inl (Throw ''invalid number'') else Inr (ucast n))"

section \<open>Printing numbers\<close>

text \<open>The template at an unsigned and at a signed type; in base 16 through \<open>uint64_t\<close>.\<close>

definition print_int :: "int \<Rightarrow> string" where
  "print_int k = (if k < 0 then CHR ''-'' # print_nat 10 (nat (- k)) else print_nat 10 (nat k))"

definition sai_serialize_number :: "bool \<Rightarrow> 'a::len word \<Rightarrow> string" where
  "sai_serialize_number hex w = (if hex then ''0x'' @ print_nat 16 (unat (ucast w :: u64)) else print_nat 10 (unat w))"

definition sai_serialize_signed :: "bool \<Rightarrow> 'a::len word \<Rightarrow> string" where
  "sai_serialize_signed hex w = (if hex then ''0x'' @ print_nat 16 (unat (scast w :: u64)) else print_int (sint w))"

section \<open>What is read from printed digits\<close>

lemma print_nat_step: "2 \<le> base \<Longrightarrow> \<not> n < base \<Longrightarrow>
    print_nat base n = print_nat base (n div base) @ [digit_char (n mod base)]"
  by (subst print_nat.simps) simp

lemma print_nat_digit: "n < base \<Longrightarrow> print_nat base n = [digit_char (n mod 16)]"
  by (subst print_nat.simps) simp

lemma digit_value_char: "base \<le> 16 \<Longrightarrow> d < base \<Longrightarrow> digit_value base (digit_char d) = Some d"
  by (simp add: digit_value_def hex_digit_char)

lemma print_nat_digits:
  assumes "2 \<le> base" "base \<le> 16" "c \<in> set (print_nat base n)"
  shows "\<exists>d<base. c = digit_char d"
  using assms(3)
proof (induction n rule: less_induct)
  case (less n)
  show ?case
  proof (cases "n < base")
    case True
    with less.prems assms(2) show ?thesis by (auto simp: print_nat_digit)
  next
    case False
    with assms(1) have "n div base < n" by (intro div_less_dividend) auto
    have "c = digit_char (n mod base) \<or> c \<in> set (print_nat base (n div base))"
      using less.prems False assms(1) by (auto simp: print_nat_step)
    moreover have "n mod base < base" using assms(1) by simp
    ultimately show ?thesis using less.IH \<open>n div base < n\<close> by blast
  qed
qed

lemma print_nat_nonempty': "print_nat base n \<noteq> []"
  by (subst print_nat.simps) simp

lemma read_digits_append:
  assumes "list_all (\<lambda>c. digit_value base c \<noteq> None) xs"
  shows "read_digits base a (xs @ ys) = read_digits base (fst (read_digits base a xs)) ys"
  using assms by (induction xs arbitrary: a) (auto split: option.split)

lemma read_digits_print:
  assumes "2 \<le> base" "base \<le> 16"
  shows "read_digits base 0 (print_nat base n) = (n, [])"
proof (induction n rule: less_induct)
  case (less n)
  show ?case
  proof (cases "n < base")
    case True
    with assms(2) show ?thesis by (simp add: print_nat_digit digit_value_char)
  next
    case False
    with assms(1) have "n div base < n" by (intro div_less_dividend) auto
    with less have "read_digits base 0 (print_nat base (n div base)) = (n div base, [])" by blast
    moreover have "list_all (\<lambda>c. digit_value base c \<noteq> None) (print_nat base (n div base))"
      using print_nat_digits [OF assms] digit_value_char [OF assms(2)] by (fastforce simp: list_all_iff)
    ultimately show ?thesis
      using False assms by (subst print_nat_step) (simp_all add: read_digits_append digit_value_char)
  qed
qed

lemma starts_digit_print:
  assumes "2 \<le> base" "base \<le> 16"
  shows "starts_digit base (print_nat base n)"
proof (cases "print_nat base n")
  case (Cons c cs)
  with print_nat_digits [OF assms, of c n] digit_value_char [OF assms(2)] show ?thesis by (auto simp: starts_digit_def)
qed (simp add: print_nat_nonempty')

text \<open>Digits are neither white space nor signs nor null characters.\<close>

lemma digit_char_plain:
  assumes "d < 16"
  shows "\<not> c_space (digit_char d)" "digit_char d \<noteq> CHR ''-''" "digit_char d \<noteq> CHR ''+''" "digit_char d \<noteq> CHR 0x00"
    "digit_char d \<noteq> CHR ''x''" "digit_char d \<noteq> CHR ''X''" "digit_char d \<noteq> CHR '',''" "digit_char d \<noteq> CHR '':''"
    "digit_char d \<noteq> CHR ''&''" "digit_char d \<noteq> CHR ''/''" "digit_char d \<noteq> CHR ''|''"
    "digit_char d \<noteq> CHR ''n''"
  using less_16_cases [OF assms] by (auto simp: digit_char_def c_space_def)

lemma print_nat_plain:
  assumes "2 \<le> base" "base \<le> 16" "c \<in> set (print_nat base n)"
  shows "\<not> c_space c" "c \<noteq> CHR ''-''" "c \<noteq> CHR ''+''" "c \<noteq> CHR 0x00" "c \<noteq> CHR ''x''" "c \<noteq> CHR ''X''"
    "c \<noteq> CHR '',''" "c \<noteq> CHR '':''" "c \<noteq> CHR ''&''" "c \<noteq> CHR ''/''" "c \<noteq> CHR ''|''"
    "c \<noteq> CHR ''n''"
  using print_nat_digits [OF assms] digit_char_plain assms(2) by fastforce+

lemma c_str_id: "CHR 0x00 \<notin> set s \<Longrightarrow> c_str s = s"
  by (auto simp: c_str_def takeWhile_eq_all_conv)

lemma c_str_print: "2 \<le> base \<Longrightarrow> base \<le> 16 \<Longrightarrow> c_str (print_nat base n) = print_nat base n"
  by (intro c_str_id) (auto dest: print_nat_plain(4))

lemma dropWhile_print: "2 \<le> base \<Longrightarrow> base \<le> 16 \<Longrightarrow> dropWhile c_space (print_nat base n) = print_nat base n"
  using print_nat_plain(1) [of base _ n] print_nat_nonempty' [of base n] by (cases "print_nat base n") auto

lemma read_sign_print: "2 \<le> base \<Longrightarrow> base \<le> 16 \<Longrightarrow> read_sign (print_nat base n) = (False, print_nat base n)"
  using print_nat_plain(2,3) [of base _ n] by (cases "print_nat base n") (auto simp: read_sign_def)

lemma skip_prefix_print: "2 \<le> base \<Longrightarrow> base \<le> 16 \<Longrightarrow> skip_prefix base (print_nat base n) = print_nat base n"
  using print_nat_plain(5,6) [of base _ n]
  by (cases "print_nat base n"; cases "tl (print_nat base n)") (auto simp: skip_prefix_def)

lemma strtoull_print:
  assumes "2 \<le> base" "base \<le> 16"
  shows "strtoull base (print_nat base n) = (if 2 ^ 64 \<le> n then (- 1, [], True) else (of_nat n, [], False))"
  using assms
  by (simp add: strtoull_def dropWhile_print read_sign_print skip_prefix_print starts_digit_print read_digits_print)

lemma strtoull_prefix:
  shows "strtoull 16 (''0x'' @ print_nat 16 n) = (if 2 ^ 64 \<le> n then (- 1, [], True) else (of_nat n, [], False))"
  by (simp add: strtoull_def c_space_def read_sign_def skip_prefix_def starts_digit_print read_digits_print)

lemma strtoull_minus:
  "n < 2 ^ 64 \<Longrightarrow> strtoull 10 (CHR ''-'' # print_nat 10 n) = (- of_nat n, [], False)"
  by (simp add: strtoull_def c_space_def read_sign_def skip_prefix_print starts_digit_print read_digits_print)

section \<open>Round trips\<close>

lemma ucast_low: "LENGTH('a::len) \<le> 64 \<Longrightarrow> (ucast (word_of_int k :: u64) :: 'a word) = word_of_int k"
  by transfer (simp add: min_def)

lemma ucast_low_nat: "LENGTH('a::len) \<le> 64 \<Longrightarrow> (ucast (of_nat n :: u64) :: 'a word) = of_nat n"
  using ucast_low [of "int n"] by (simp add: word_of_int_nat)

text \<open>Exactly the low bits of the printed number are read, whatever the type.\<close>

lemma deserialize_printed:
  assumes "LENGTH('a::len) \<le> 64"
  shows "sai_deserialize_number False (print_nat 10 n) =
     (if 2 ^ 64 \<le> n then Inl (Throw ''invalid number'') else Inr (of_nat n :: 'a word))"
  using assms by (simp add: sai_deserialize_number_def c_str_print strtoull_print ucast_low_nat)

lemma number_roundtrip:
  assumes "LENGTH('a::len) \<le> 64"
  shows "sai_deserialize_number hex (sai_serialize_number hex (w :: 'a word)) = Inr w"
proof (cases hex)
  case True
  let ?n = "unat (ucast w :: u64)"
  have "?n < 2 ^ 64" using unsigned_less [of "ucast w :: u64"] by simp
  moreover have "c_str (''0x'' @ print_nat 16 ?n) = ''0x'' @ print_nat 16 ?n"
    by (rule c_str_id) (auto dest: print_nat_plain(4) [rotated 2])
  moreover have "(ucast (ucast w :: u64) :: 'a word) = w"
    using assms by transfer (simp add: min_def)
  ultimately show ?thesis
    using True by (simp add: sai_deserialize_number_def sai_serialize_number_def strtoull_prefix [simplified])
next
  case False
  have "unat w < 2 ^ LENGTH('a)" by (rule unsigned_less)
  also have "\<dots> \<le> (2 :: nat) ^ 64" using assms by (intro power_increasing) auto
  finally show ?thesis using False deserialize_printed [OF assms, of "unat w"] by (simp add: sai_serialize_number_def)
qed

lemma signed_roundtrip:
  assumes "LENGTH('a::len) \<le> 64"
  shows "sai_deserialize_number hex (sai_serialize_signed hex (w :: 'a word)) = Inr w"
proof (cases hex)
  case True
  let ?n = "unat (scast w :: u64)"
  have "?n < 2 ^ 64" using unsigned_less [of "scast w :: u64"] by simp
  moreover have "c_str (''0x'' @ print_nat 16 ?n) = ''0x'' @ print_nat 16 ?n"
    by (rule c_str_id) (auto dest: print_nat_plain(4) [rotated 2])
  moreover have "(ucast (scast w :: u64) :: 'a word) = w"
    using ucast_low [OF assms, of "sint w"] by simp
  ultimately show ?thesis
    using True by (simp add: sai_deserialize_number_def sai_serialize_signed_def strtoull_prefix [simplified])
next
  case False
  have "- (2 ^ (LENGTH('a) - 1)) \<le> sint w" "sint w < 2 ^ (LENGTH('a) - 1)"
    using sint_ge [of w] sint_less [of w] by simp_all
  moreover have "(2 :: int) ^ (LENGTH('a) - 1) \<le> 2 ^ 63" using assms by (intro power_increasing) auto
  ultimately have bound: "- (2 ^ 63) \<le> sint w" "sint w < 2 ^ 63" by linarith+
  show ?thesis
  proof (cases "sint w < 0")
    case True
    let ?n = "nat (- sint w)"
    have "?n < 2 ^ 64" using bound(1) by simp
    moreover have "(- of_nat ?n :: u64) = word_of_int (sint w)" using True by (simp add: of_nat_nat)
    moreover have "c_str (CHR ''-'' # print_nat 10 ?n) = CHR ''-'' # print_nat 10 ?n"
      by (rule c_str_id) (auto dest: print_nat_plain(4) [rotated 2])
    ultimately show ?thesis
      using False True ucast_low [OF assms, of "sint w"]
      by (simp add: sai_deserialize_number_def sai_serialize_signed_def print_int_def strtoull_minus)
  next
    case nonneg: False
    have "nat (sint w) < 2 ^ 64" using bound(2) by simp
    with False nonneg deserialize_printed [OF assms, of "nat (sint w)"] show ?thesis
      by (simp add: sai_serialize_signed_def print_int_def)
  qed
qed

text \<open>
  Booleans, character data, MAC addresses and binary data as text in \<open>meta/SaiSerialize.cpp\<close>. Arrays of bytes are
  lists of \<open>8 word\<close>, strings lists of characters with the same codes.
\<close>

section \<open>Characters and bytes\<close>

definition byte_of :: "char \<Rightarrow> 8 word" where
  "byte_of c = of_nat (of_char c)"

definition char_of_byte :: "8 word \<Rightarrow> char" where
  "char_of_byte b = char_of (unat b)"

lemma byte_of_char_of_byte [simp]: "byte_of (char_of_byte b) = b"
proof -
  have "unat b < 256" using unsigned_less [of b] by simp
  then have "(of_char (char_of (unat b)) :: nat) = unat b" by (simp add: of_char_of)
  then show ?thesis by (simp add: byte_of_def char_of_byte_def del: of_char_of)
qed

text \<open>A loop over a list whose rounds may throw.\<close>

fun mapE :: "('a \<Rightarrow> fault + 'b) \<Rightarrow> 'a list \<Rightarrow> fault + 'b list" where
  "mapE f [] = Inr []"
| "mapE f (x # xs) = bindE (f x) (\<lambda>y. bindE (mapE f xs) (\<lambda>ys. Inr (y # ys)))"

lemma mapE_Inr: "(\<And>x. x \<in> set xs \<Longrightarrow> f x = Inr (g x)) \<Longrightarrow> mapE f xs = Inr (map g xs)"
  by (induction xs) auto

definition char_to_int :: "char \<Rightarrow> fault + nat" where
  "char_to_int c = (case hex_digit c of None \<Rightarrow> Inl (Throw ''unable to convert char to int'') | Some d \<Rightarrow> Inr d)"

text \<open>\<open>%02X\<close>.\<close>

definition upper_digit :: "nat \<Rightarrow> char" where
  "upper_digit d = ''0123456789ABCDEF'' ! d"

definition hex_byte :: "8 word \<Rightarrow> string" where
  "hex_byte b = [upper_digit (unat b div 16), upper_digit (unat b mod 16)]"

text \<open>Two digits as a byte: \<open>(h << 4) | l\<close>.\<close>

definition byte_of_digits :: "char \<Rightarrow> char \<Rightarrow> fault + 8 word" where
  "byte_of_digits h l = bindE (char_to_int h) (\<lambda>a. bindE (char_to_int l) (\<lambda>b. Inr (of_nat (16 * a + b))))"

lemma upper_digit_char: "d < 16 \<Longrightarrow> hex_digit (upper_digit d) = Some d"
  by (drule less_16_cases) (auto simp: hex_digit_def upper_digit_def)

lemma upper_digit_to_int: "d < 16 \<Longrightarrow> char_to_int (upper_digit d) = Inr d"
  by (simp add: char_to_int_def upper_digit_char)

lemma unat_byte: "unat (b :: 8 word) < 256"
  using unsigned_less [of b] by simp

lemma byte_digits: "unat (b :: 8 word) div 16 < 16" "unat b mod 16 < 16"
  using unat_byte [of b] by auto

lemma byte_of_hex_byte: "byte_of_digits (upper_digit (unat b div 16)) (upper_digit (unat b mod 16)) = Inr b"
proof -
  have "(of_nat (16 * (unat b div 16) + unat b mod 16) :: 8 word) = of_nat (unat b)"
    by (rule arg_cong [of _ _ of_nat]) (rule mult_div_mod_eq)
  then show ?thesis by (simp add: byte_of_digits_def upper_digit_to_int byte_digits del: of_nat_add of_nat_mult)
qed

lemma upper_digit_plain:
  assumes "d < 16"
  shows "upper_digit d \<noteq> CHR '',''" "upper_digit d \<noteq> CHR ''&''" "upper_digit d \<noteq> CHR 0x00" "\<not> c_space (upper_digit d)"
    "upper_digit d \<noteq> CHR ''-''" "upper_digit d \<noteq> CHR ''+''" "upper_digit d \<noteq> CHR ''x''" "upper_digit d \<noteq> CHR ''X''"
  using less_16_cases [OF assms] by (auto simp: upper_digit_def c_space_def)

section \<open>Booleans\<close>

definition sai_serialize_bool :: "bool \<Rightarrow> string" where
  "sai_serialize_bool b = (if b then ''true'' else ''false'')"

definition sai_deserialize_bool :: "string \<Rightarrow> fault + bool" where
  "sai_deserialize_bool s =
     (if s = ''true'' then Inr True else if s = ''false'' then Inr False else Inl (Throw ''failed to deserialize as bool''))"

lemma bool_roundtrip: "sai_deserialize_bool (sai_serialize_bool b) = Inr b"
  by (simp add: sai_deserialize_bool_def sai_serialize_bool_def)

section \<open>Character data\<close>

definition CHAR_LEN :: nat where
  "CHAR_LEN = 32"

definition alnum :: "nat \<Rightarrow> bool" where
  "alnum n \<longleftrightarrow> 48 \<le> n \<and> n \<le> 57 \<or> 97 \<le> n \<and> n \<le> 122 \<or> 65 \<le> n \<and> n \<le> 90"

definition escape_char :: "8 word \<Rightarrow> string" where
  "escape_char b =
     (if alnum (unat b) then [char_of_byte b]
      else if b = 92 then [char_of_byte 92, char_of_byte 92]
      else char_of_byte 92 # CHR ''x'' # hex_byte b)"

definition sai_serialize_chardata :: "8 word list \<Rightarrow> string" where
  "sai_serialize_chardata data = concat (map escape_char (takeWhile (\<lambda>b. b \<noteq> 0) (take CHAR_LEN data)))"

fun unescape :: "string \<Rightarrow> fault + 8 word list" where
  "unescape [] = Inr []"
| "unescape (c # cs) =
     (if byte_of c = 92 then
        (case cs of
           [] \<Rightarrow> Inl (Throw ''invalid chardata'')
         | d # ds \<Rightarrow>
             if byte_of d = 92 then bindE (unescape ds) (\<lambda>bs. Inr (92 # bs))
             else if d = CHR ''x'' then
               (case ds of
                  h # l # rest \<Rightarrow> bindE (byte_of_digits h l) (\<lambda>b. bindE (unescape rest) (\<lambda>bs. Inr (b # bs)))
                | _ \<Rightarrow> Inl (Throw ''invalid chardata''))
             else Inl (Throw ''invalid chardata''))
      else bindE (unescape cs) (\<lambda>bs. Inr (byte_of c # bs)))"

definition sai_deserialize_chardata :: "string \<Rightarrow> fault + 8 word list" where
  "sai_deserialize_chardata s =
     bindE (unescape s) (\<lambda>bs. if CHAR_LEN < length bs then Inl (Throw ''invalid chardata'')
       else Inr (bs @ replicate (CHAR_LEN - length bs) 0))"

lemma unescape_escape: "unescape (escape_char b @ s) = bindE (unescape s) (\<lambda>bs. Inr (b # bs))"
proof -
  have "\<not> alnum 92" by (simp add: alnum_def)
  then have "b \<noteq> 92" if "alnum (unat b)" using that by auto
  moreover have "byte_of CHR ''x'' \<noteq> 92" by (simp add: byte_of_def)
  ultimately show ?thesis by (auto simp: escape_char_def hex_byte_def byte_of_hex_byte)
qed

lemma unescape_escapes: "unescape (concat (map escape_char bs)) = Inr bs"
  by (induction bs) (simp_all add: unescape_escape)

lemma chardata_roundtrip:
  "sai_deserialize_chardata (sai_serialize_chardata data) =
     (let bs = takeWhile (\<lambda>b. b \<noteq> 0) (take CHAR_LEN data) in Inr (bs @ replicate (CHAR_LEN - length bs) 0))"
proof -
  have "length (takeWhile (\<lambda>b. b \<noteq> 0) (take CHAR_LEN data)) \<le> CHAR_LEN"
    using length_takeWhile_le [of "\<lambda>b. b \<noteq> 0" "take CHAR_LEN data"] by simp
  then show ?thesis
    by (simp add: sai_deserialize_chardata_def sai_serialize_chardata_def unescape_escapes Let_def)
qed

section \<open>MAC addresses\<close>

text \<open>\<open>sai_mac_t\<close> is six bytes. The characters between the digits are not looked at.\<close>

fun join :: "string \<Rightarrow> string list \<Rightarrow> string" where
  "join sep [] = []"
| "join sep [s] = s"
| "join sep (s # t # ss) = s @ sep @ join sep (t # ss)"

definition sai_serialize_mac :: "8 word list \<Rightarrow> string" where
  "sai_serialize_mac mac = join '':'' (map hex_byte mac)"

definition sai_deserialize_mac :: "string \<Rightarrow> fault + 8 word list" where
  "sai_deserialize_mac s =
     (if length s \<noteq> 6 * 2 + 5 then Inl (Throw ''invalid mac address'')
      else mapE (\<lambda>j. byte_of_digits (s ! (3 * j)) (s ! (3 * j + 1))) [0..<6])"

lemma length_6: "length xs = 6 \<Longrightarrow> \<exists>a b c d e f. xs = [a, b, c, d, e, f]"
  by (auto simp: numeral_eq_Suc length_Suc_conv)

lemma mac_roundtrip: "length mac = 6 \<Longrightarrow> sai_deserialize_mac (sai_serialize_mac mac) = Inr mac"
  by (drule length_6)
    (auto simp: sai_deserialize_mac_def sai_serialize_mac_def hex_byte_def upt_rec byte_of_hex_byte)

section \<open>Binary data\<close>

text \<open>
  \<open>sscanf\<close> with \<open>%X\<close> on two characters: like \<open>strtoul\<close>, but that a prefix without digits is a failure. A character
  after the first that is no digit ends the number without an error.
\<close>

definition scan_hex :: "string \<Rightarrow> u32 option" where
  "scan_hex s =
     (case strtoull 16 (c_str s) of (n, rest, errno) \<Rightarrow>
        if rest = c_str s \<or> s = ''0x'' \<or> s = ''0X'' then None else Some (ucast n))"

definition sai_serialize_hex_binary :: "8 word list \<Rightarrow> string" where
  "sai_serialize_hex_binary bs = concat (map hex_byte bs)"

fun hex_binary_loop :: "string \<Rightarrow> fault + 8 word list" where
  "hex_binary_loop (h # l # s) =
     (case scan_hex [h, l] of
        None \<Rightarrow> Inl (Throw ''Invalid hex string'')
      | Some v \<Rightarrow> if 0xFF < v then Inl (Throw ''Invalid hex string'')
          else bindE (hex_binary_loop s) (\<lambda>bs. Inr (ucast v # bs)))"
| "hex_binary_loop s = Inr []"

text \<open>The buffer has \<open>length\<close> bytes, which are zero where nothing is written.\<close>

definition sai_deserialize_hex_binary :: "nat \<Rightarrow> string \<Rightarrow> fault + 8 word list" where
  "sai_deserialize_hex_binary len s =
     (if length s mod 2 \<noteq> 0 then Inl (Throw ''Invalid hex string'')
      else if len * 2 < length s then Inl (Throw ''Buffer length isn't sufficient'')
      else bindE (hex_binary_loop s) (\<lambda>bs. Inr (bs @ replicate (len - length bs) 0)))"

lemma scan_hex_byte: "scan_hex (hex_byte b) = Some (ucast b)"
proof -
  let ?h = "unat b div 16" and ?l = "unat b mod 16"
  note d = byte_digits [of b]
  note ph = upper_digit_plain [OF d(1)] and pl = upper_digit_plain [OF d(2)]
  have v: "digit_value 16 (upper_digit ?h) = Some ?h" "digit_value 16 (upper_digit ?l) = Some ?l"
    using d by (simp_all add: digit_value_def upper_digit_char)
  have "16 * ?h + ?l = unat b" by (rule mult_div_mod_eq)
  moreover have "unat b < 2 ^ 64" using unat_byte [of b] by simp
  moreover have "c_str (hex_byte b) = hex_byte b" by (rule c_str_id) (use ph pl in \<open>auto simp: hex_byte_def\<close>)
  moreover have "(ucast (ucast b :: u64) :: u32) = ucast b" by transfer simp
  ultimately show ?thesis
    using ph pl v
    by (simp add: scan_hex_def hex_byte_def strtoull_def read_sign_def skip_prefix_def starts_digit_def)
qed

lemma hex_binary_loop_print: "hex_binary_loop (sai_serialize_hex_binary bs) = Inr bs"
proof (induction bs)
  case (Cons b bs)
  have "(ucast (ucast b :: u32) :: 8 word) = b" by transfer simp
  moreover have "\<not> 0xFF < (ucast b :: u32)"
  proof -
    have "unat b < 2 ^ 32" using unat_byte [of b] by simp
    then have "unat (ucast b :: u32) = unat b" by (simp add: unsigned_ucast_eq take_bit_nat_eq_self)
    with unat_byte [of b] show ?thesis by (simp add: word_less_nat_alt)
  qed
  ultimately show ?case using Cons scan_hex_byte [of b] by (simp add: sai_serialize_hex_binary_def hex_byte_def)
qed (simp add: sai_serialize_hex_binary_def)

lemma hex_binary_roundtrip:
  "sai_deserialize_hex_binary (length bs) (sai_serialize_hex_binary bs) = Inr bs"
proof -
  have "length (sai_serialize_hex_binary bs) = 2 * length bs"
    by (induction bs) (simp_all add: sai_serialize_hex_binary_def hex_byte_def)
  then show ?thesis by (simp add: sai_deserialize_hex_binary_def hex_binary_loop_print)
qed

end
