(* ===== verification/Ser_Lib.thy ===== *)
theory Ser_Lib
  imports Ser_Text
begin

text \<open>
  What \<open>meta/SaiSerialize.cpp\<close> takes from libraries that are not in the repository: JSON values with their printer
  and parser, \<open>swss::tokenize\<close>, the textual form of IPv6 addresses and the tables of enum names of the SAI metadata.
  The functions are the fields of the record \<open>text_lib\<close>, what the code relies on is the predicate \<open>text_lib_ok\<close>.
\<close>

section \<open>JSON values\<close>

text \<open>
  \<open>nlohmann::json\<close> as far as the code uses it: an object is a \<open>std::map\<close>, so the list of its members is ordered by
  the key, byte by byte. \<open>JDec n\<close> is the double nearest to a hundredth of \<open>n\<close>.
\<close>

datatype json = JNull | JNum int | JDec int | JStr string | JArr "json list" | JObj "(string \<times> json) list"

fun str_less :: "string \<Rightarrow> string \<Rightarrow> bool" where
  "str_less s [] = False"
| "str_less [] (c # cs) = True"
| "str_less (a # as) (b # bs) =
     ((of_char a :: nat) < of_char b \<or> (of_char a :: nat) = of_char b \<and> str_less as bs)"

fun json_put :: "string \<Rightarrow> 'v \<Rightarrow> (string \<times> 'v) list \<Rightarrow> (string \<times> 'v) list" where
  "json_put k v [] = [(k, v)]"
| "json_put k v ((k', v') # kvs) =
     (if k = k' then (k, v) # kvs
      else if str_less k k' then (k, v) # (k', v') # kvs
      else (k', v') # json_put k v kvs)"

text \<open>A new value to which members are assigned one after the other: \<open>j[k] = v\<close>.\<close>

definition json_members :: "(string \<times> 'v) list \<Rightarrow> (string \<times> 'v) list" where
  "json_members kvs = fold (\<lambda>(k, v). json_put k v) kvs []"

definition json_object :: "(string \<times> json) list \<Rightarrow> json" where
  "json_object kvs = JObj (json_members kvs)"

text \<open>
  \<open>j[k]\<close> of a value that is not constant: a missing member is null, and a value that is neither null nor an object
  throws. Then the implicit conversions to a string and to an integer of a width.
\<close>

definition json_at :: "json \<Rightarrow> string \<Rightarrow> fault + json" where
  "json_at j k =
     (case j of
        JObj kvs \<Rightarrow> Inr (case map_of kvs k of None \<Rightarrow> JNull | Some v \<Rightarrow> v)
      | JNull \<Rightarrow> Inr JNull
      | _ \<Rightarrow> Inl (Throw ''json type_error''))"

text \<open>\<open>j[k]\<close> of a constant value: a missing member is undefined behaviour.\<close>

definition json_cat :: "json \<Rightarrow> string \<Rightarrow> fault + json" where
  "json_cat j k =
     (case j of
        JObj kvs \<Rightarrow> (case map_of kvs k of None \<Rightarrow> Inl (Null_Deref ''json'') | Some v \<Rightarrow> Inr v)
      | _ \<Rightarrow> Inl (Throw ''json type_error''))"

definition json_string :: "json \<Rightarrow> fault + string" where
  "json_string j = (case j of JStr s \<Rightarrow> Inr s | _ \<Rightarrow> Inl (Throw ''json type_error''))"

definition json_number :: "json \<Rightarrow> fault + 'a::len word" where
  "json_number j = (case j of JNum n \<Rightarrow> Inr (word_of_int n) | _ \<Rightarrow> Inl (Throw ''json type_error''))"

text \<open>\<open>j.size()\<close> and \<open>j[i]\<close> for the values of an array.\<close>

definition json_elements :: "json \<Rightarrow> json list" where
  "json_elements j = (case j of JArr js \<Rightarrow> js | JObj kvs \<Rightarrow> map snd kvs | JNull \<Rightarrow> [] | _ \<Rightarrow> [j])"

definition member_string :: "json \<Rightarrow> string \<Rightarrow> fault + string" where
  "member_string j k = bindE (json_at j k) json_string"

definition member_cstring :: "json \<Rightarrow> string \<Rightarrow> fault + string" where
  "member_cstring j k = bindE (json_cat j k) json_string"

definition member_cnumber :: "json \<Rightarrow> string \<Rightarrow> fault + 'a::len word" where
  "member_cnumber j k = bindE (json_cat j k) json_number"

text \<open>Values the printer can print and the parser reads back: text of ASCII characters, 64-bit numbers, ordered keys.\<close>

definition ascii :: "string \<Rightarrow> bool" where
  "ascii s = list_all (\<lambda>c. (of_char c :: nat) < 128) s"

fun sorted_keys :: "string list \<Rightarrow> bool" where
  "sorted_keys (k # k' # ks) = (str_less k k' \<and> sorted_keys (k' # ks))"
| "sorted_keys ks = True"

fun json_wf :: "json \<Rightarrow> bool" where
  "json_wf JNull = True"
| "json_wf (JNum n) = (- (2 ^ 63) \<le> n \<and> n < 2 ^ 64)"
| "json_wf (JDec n) = (\<bar>n\<bar> < 2 ^ 31)"
| "json_wf (JStr s) = ascii s"
| "json_wf (JArr js) = list_all json_wf js"
| "json_wf (JObj kvs) = (sorted_keys (map fst kvs) \<and> list_all ascii (map fst kvs) \<and> list_all json_wf (map snd kvs))"

section \<open>Lookups in values the code builds\<close>

lemma map_of_json_put: "map_of (json_put k v kvs) k' = (if k' = k then Some v else map_of kvs k')"
  by (induction k v kvs rule: json_put.induct) auto

lemma map_of_fold_put: "map_of (fold (\<lambda>(k, v). json_put k v) kvs m) k = (case map_of (rev kvs) k of None \<Rightarrow> map_of m k | Some v \<Rightarrow> Some v)"
  by (induction kvs arbitrary: m) (auto simp: map_of_json_put map_add_def split: option.splits)

lemma map_of_members: "map_of (json_members kvs) k = map_of (rev kvs) k"
  by (simp add: json_members_def map_of_fold_put split: option.split)

lemma json_at_object: "json_at (json_object kvs) k = Inr (case map_of (rev kvs) k of None \<Rightarrow> JNull | Some v \<Rightarrow> v)"
  by (simp add: json_at_def json_object_def map_of_members)

lemma json_cat_object:
  "json_cat (json_object kvs) k = (case map_of (rev kvs) k of None \<Rightarrow> Inl (Null_Deref ''json'') | Some v \<Rightarrow> Inr v)"
  by (simp add: json_cat_def json_object_def map_of_members)

lemmas json_reads = json_at_object json_cat_object json_string_def json_number_def member_string_def
  member_cstring_def member_cnumber_def

lemma json_elements_arr [simp]: "json_elements (JArr js) = js"
  by (simp add: json_elements_def)

subsection \<open>The values the code builds can be printed\<close>

lemma str_less_irrefl [simp]: "\<not> str_less s s"
  by (induction s) auto

lemma str_less_trans: "str_less a b \<Longrightarrow> str_less b c \<Longrightarrow> str_less a c"
proof (induction a b arbitrary: c rule: str_less.induct)
  case (2 b bs)
  then show ?case by (cases c) auto
next
  case (3 a as b bs)
  then show ?case by (cases c) auto
qed simp

lemma str_less_linear: "str_less a b \<or> a = b \<or> str_less b a"
proof (induction a b rule: str_less.induct)
  case (1 s)
  then show ?case by (cases s) auto
next
  case (3 a as b bs)
  then show ?case by (auto simp: of_char_eq_iff)
qed auto

lemma sorted_keys_Cons: "sorted_keys (k # ks) \<longleftrightarrow> (\<forall>k' \<in> set ks. str_less k k') \<and> sorted_keys ks"
  by (induction ks arbitrary: k) (auto intro: str_less_trans)

lemma json_put_keys: "fst ` set (json_put k v kvs) = insert k (fst ` set kvs)"
  by (induction k v kvs rule: json_put.induct) auto

lemma sorted_json_put: "sorted_keys (map fst kvs) \<Longrightarrow> sorted_keys (map fst (json_put k v kvs))"
proof (induction k v kvs rule: json_put.induct)
  case (2 k v k' v' kvs)
  then have sub: "\<forall>x \<in> fst ` set kvs. str_less k' x" "sorted_keys (map fst kvs)"
    by (simp_all add: sorted_keys_Cons)
  consider "k = k'" | "str_less k k'" "k \<noteq> k'" | "k \<noteq> k'" "\<not> str_less k k'" "str_less k' k"
    using str_less_linear [of k k'] by blast
  then show ?case
  proof cases
    case 3
    have "set (map fst (json_put k v kvs)) = insert k (fst ` set kvs)" by (simp add: json_put_keys)
    with 2 3 sub show ?thesis by (auto simp: sorted_keys_Cons)
  qed (use sub in \<open>auto simp: sorted_keys_Cons intro: str_less_trans\<close>)
qed simp

lemma json_put_all:
  "list_all P (map snd kvs) \<Longrightarrow> P v \<Longrightarrow> list_all P (map snd (json_put k v kvs))"
  "list_all Q (map fst kvs) \<Longrightarrow> Q k \<Longrightarrow> list_all Q (map fst (json_put k v kvs))"
  by (induction k v kvs rule: json_put.induct) auto

lemma json_wf_put: "json_wf (JObj kvs) \<Longrightarrow> ascii k \<Longrightarrow> json_wf v \<Longrightarrow> json_wf (JObj (json_put k v kvs))"
  by (simp add: sorted_json_put json_put_all)

lemma json_wf_fold:
  "json_wf (JObj m) \<Longrightarrow> list_all (\<lambda>(k, v). ascii k \<and> json_wf v) kvs \<Longrightarrow> json_wf (JObj (fold (\<lambda>(k, v). json_put k v) kvs m))"
proof (induction kvs arbitrary: m)
  case (Cons kv kvs)
  then show ?case by (cases kv) (simp del: json_wf.simps add: json_wf_put)
qed simp

lemma json_wf_object: "list_all (\<lambda>(k, v). ascii k \<and> json_wf v) kvs \<Longrightarrow> json_wf (json_object kvs)"
  unfolding json_object_def json_members_def by (rule json_wf_fold) auto

section \<open>ASCII text\<close>

lemma ascii_simps [simp]: "ascii []" "ascii (c # s) \<longleftrightarrow> (of_char c :: nat) < 128 \<and> ascii s" "ascii (s @ t) \<longleftrightarrow> ascii s \<and> ascii t"
  by (simp_all add: ascii_def)

lemma ascii_digit_char: "d < 16 \<Longrightarrow> (of_char (digit_char d) :: nat) < 128"
  by (drule less_16_cases) (auto simp: digit_char_def)

lemma ascii_print_nat [simp]: "2 \<le> base \<Longrightarrow> base \<le> 16 \<Longrightarrow> ascii (print_nat base n)"
  unfolding ascii_def list_all_iff using print_nat_digits [of base _ n] ascii_digit_char by fastforce

lemma ascii_upper_digit: "d < 16 \<Longrightarrow> (of_char (upper_digit d) :: nat) < 128"
  by (drule less_16_cases) (auto simp: upper_digit_def)

lemma ascii_hex_byte [simp]: "ascii (hex_byte b)"
  by (simp add: hex_byte_def ascii_upper_digit byte_digits)

lemma ascii_join: "ascii sep \<Longrightarrow> list_all ascii ss \<Longrightarrow> ascii (join sep ss)"
  by (induction sep ss rule: join.induct) auto

lemma ascii_number [simp]: "ascii (sai_serialize_number hex w)" "ascii (sai_serialize_signed hex w)"
  by (simp_all add: sai_serialize_number_def sai_serialize_signed_def print_int_def)

lemma ascii_mac [simp]: "ascii (sai_serialize_mac mac)"
  by (auto simp: sai_serialize_mac_def list_all_iff intro!: ascii_join)

lemma ascii_bool [simp]: "ascii (sai_serialize_bool b)"
  by (simp add: sai_serialize_bool_def)

lemma ascii_oid [simp]: "ascii (sai_serialize_object_id oid)"
  by (simp add: sai_serialize_object_id_def)

section \<open>Plain text\<close>

text \<open>
  Text that can be an item of a list, a field of an access control list and a JSON string: ASCII, without the start of
  the separator of the mask, and none of the words with a meaning of their own.
\<close>

definition plain :: "string \<Rightarrow> bool" where
  "plain s \<longleftrightarrow> s \<noteq> [] \<and> ascii s \<and> CHR ''&'' \<notin> set s \<and> s \<noteq> ''disabled'' \<and> s \<noteq> ''null''"

lemma plainD:
  assumes "plain s"
  shows "s \<noteq> []" "ascii s" "CHR ''&'' \<notin> set s" "s \<noteq> ''disabled''" "s \<noteq> ''null''"
  using assms by (simp_all add: plain_def)

lemma plain_colon: "CHR '':'' \<in> set s \<Longrightarrow> ascii s \<Longrightarrow> CHR ''&'' \<notin> set s \<Longrightarrow> plain s"
  by (auto simp: plain_def)

lemma plain_start: "c \<noteq> CHR ''d'' \<Longrightarrow> c \<noteq> CHR ''n'' \<Longrightarrow> ascii (c # s) \<Longrightarrow> CHR ''&'' \<notin> set (c # s) \<Longrightarrow> plain (c # s)"
  by (auto simp: plain_def)

lemma decimal_char: "d < 10 \<Longrightarrow> digit_char d \<noteq> CHR ''n'' \<and> digit_char d \<noteq> CHR ''d'' \<and> digit_char d \<noteq> CHR ''S''"
  using less_16_cases [of d] by (auto simp: digit_char_def)

lemma plain_print_nat [simp]: "plain (print_nat 10 n)"
proof (cases "print_nat 10 n")
  case (Cons c s)
  with print_nat_digits [of 10 c n] obtain d where "d < 10" "c = digit_char d" by auto
  then have "c \<noteq> CHR ''d''" "c \<noteq> CHR ''n''" using decimal_char [of d] by simp_all
  moreover have "ascii (print_nat 10 n)" "CHR ''&'' \<notin> set (print_nat 10 n)" by (auto dest: print_nat_plain(9) [rotated 2])
  ultimately show ?thesis unfolding Cons by (rule plain_start)
qed (simp add: print_nat_nonempty')

lemma plain_number [simp]: "plain (sai_serialize_number hex w)" "plain (sai_serialize_signed hex w)"
proof -
  have hex: "plain (''0x'' @ print_nat 16 n)" for n
    using plain_start [of "CHR ''0''" "CHR ''x'' # print_nat 16 n"] print_nat_plain(9) [of 16 "CHR ''&''" n] by auto
  have minus: "plain (CHR ''-'' # print_nat 10 n)" for n
    using plain_start [of "CHR ''-''" "print_nat 10 n"] print_nat_plain(9) [of 10 "CHR ''&''" n] by auto
  show "plain (sai_serialize_number hex w)" "plain (sai_serialize_signed hex w)"
    using hex minus by (auto simp: sai_serialize_number_def sai_serialize_signed_def print_int_def)
qed

lemma plain_bool [simp]: "plain (sai_serialize_bool b)"
  by (simp add: plain_def sai_serialize_bool_def)

lemma plain_oid [simp]: "plain (sai_serialize_object_id oid)"
  using print_nat_plain(9) [of 16 "CHR ''&''" "unat oid"]
  by (intro plain_colon) (auto simp: sai_serialize_object_id_def)

lemma mac_chars: "c \<in> set (sai_serialize_mac mac) \<Longrightarrow> c = CHR '':'' \<or> (\<exists>d < 16. c = upper_digit d)"
proof (unfold sai_serialize_mac_def, induction mac)
  case (Cons b mac)
  then show ?case by (cases mac) (use byte_digits [of b] in \<open>auto simp: hex_byte_def simp del: mod_less_divisor\<close>)
qed simp

lemma plain_mac: "length mac = 6 \<Longrightarrow> plain (sai_serialize_mac mac)"
proof (rule plain_colon)
  show "length mac = 6 \<Longrightarrow> CHR '':'' \<in> set (sai_serialize_mac mac)"
    by (auto dest!: length_6 simp: sai_serialize_mac_def)
  show "CHR ''&'' \<notin> set (sai_serialize_mac mac)" by (auto dest!: mac_chars upper_digit_plain(2))
qed simp

section \<open>Enum tables\<close>

text \<open>
  \<open>sai_enum_metadata_t\<close>: whether the values are flags, the values with their names, and the names of earlier releases
  that are still read, with their values.
\<close>

record enum_md =
  em_strict_flags :: bool
  em_entries :: "(32 word \<times> string) list"
  em_ignored :: "(string \<times> 32 word) list"

text \<open>The tables \<open>sai_metadata_enum_*\<close> the entries and the attribute values are printed with.\<close>

datatype enum_name =
    EN_packet_color | EN_acl_stage | EN_acl_bind_point_type | EN_acl_action_type | EN_object_type
  | EN_port_ilt_lane_training_status | EN_poe_port_active_channel_type | EN_poe_port_class_method_type
  | EN_poe_port_signature_type | EN_ipmc_entry_type | EN_l2mc_entry_type | EN_nat_type
  | EN_fdb_event | EN_nat_event | EN_port_oper_status | EN_port_error_status | EN_port_host_tx_ready_status
  | EN_queue_pfc_deadlock_event_type | EN_bfd_session_state | EN_icmp_echo_session_state | EN_ha_set_event
  | EN_ha_scope_event | EN_dash_ha_role | EN_dash_ha_state | EN_switch_oper_status | EN_switch_macsec_post_status
  | EN_macsec_post_status | EN_twamp_session_state | EN_twamp_session_stat | EN_flow_bulk_get_session_event
  | EN_switch_asic_sdk_health_severity | EN_switch_asic_sdk_health_category | EN_health_data_type

text \<open>The names of the SAI headers are identifiers with the prefix \<open>SAI_\<close>; a flag has at most one bit.\<close>

definition ident_char :: "char \<Rightarrow> bool" where
  "ident_char c = (alnum (of_char c) \<or> c = CHR ''_'')"

definition ident :: "string \<Rightarrow> bool" where
  "ident s = (take 4 s = ''SAI_'' \<and> list_all ident_char s)"

definition flag_word :: "32 word \<Rightarrow> bool" where
  "flag_word v = (v = 0 \<or> list_ex (\<lambda>k. v = push_bit k 1) [0..<32])"

definition enum_ok :: "enum_md \<Rightarrow> bool" where
  "enum_ok md \<longleftrightarrow>
     em_entries md \<noteq> [] \<and> list_all (\<lambda>(v, n). ident n) (em_entries md) \<and> distinct (map snd (em_entries md)) \<and>
     list_all (\<lambda>(n, v). ident n) (em_ignored md) \<and>
     (em_strict_flags md \<longrightarrow> list_all (\<lambda>(v, n). flag_word v) (em_entries md))"

section \<open>The libraries\<close>

text \<open>
  \<open>swss::tokenize\<close>, \<open>dump\<close> and \<open>parse\<close> of the JSON library (a text that is no JSON value is an exception),
  \<open>inet_ntop\<close> and \<open>inet_pton\<close> for IPv6, the enum tables.
\<close>

record text_lib =
  tokenize :: "string \<Rightarrow> char \<Rightarrow> string list"
  json_dump :: "json \<Rightarrow> string"
  json_parse :: "string \<Rightarrow> json option"
  inet_ntop6 :: "8 word list \<Rightarrow> string"
  inet_pton6 :: "string \<Rightarrow> 8 word list option"
  enum_table :: "enum_name \<Rightarrow> enum_md"

definition parse_json :: "'x text_lib_scheme \<Rightarrow> string \<Rightarrow> fault + json" where
  "parse_json L s = (case json_parse L s of None \<Rightarrow> Inl (Throw ''json parse_error'') | Some j \<Rightarrow> Inr j)"

text \<open>
  The documented behaviour: items without the separator are split as they were joined, a printed value is read back,
  an IPv6 address is printed with hexadecimal digits, colons (one at least) and dots and read back, and the enum
  tables are as the generator of the SAI metadata makes them.
\<close>

definition item :: "char \<Rightarrow> string \<Rightarrow> bool" where
  "item sep s \<longleftrightarrow> s \<noteq> [] \<and> sep \<notin> set s"

definition ip6_char :: "char \<Rightarrow> bool" where
  "ip6_char c = (hex_digit c \<noteq> None \<or> c = CHR '':'' \<or> c = CHR ''.'')"

definition tokens_ok :: "'x text_lib_scheme \<Rightarrow> bool" where
  "tokens_ok L \<longleftrightarrow> (\<forall>sep items. list_all (item sep) items \<longrightarrow> tokenize L (join [sep] items) sep = items)"

definition json_ok :: "'x text_lib_scheme \<Rightarrow> bool" where
  "json_ok L \<longleftrightarrow> (\<forall>j. json_wf j \<longrightarrow> json_parse L (json_dump L j) = Some j)"

definition inet6_ok :: "'x text_lib_scheme \<Rightarrow> bool" where
  "inet6_ok L \<longleftrightarrow>
     (\<forall>a. length a = 16 \<longrightarrow> inet_pton6 L (inet_ntop6 L a) = Some a \<and> CHR '':'' \<in> set (inet_ntop6 L a) \<and>
        list_all ip6_char (inet_ntop6 L a))"

definition text_lib_ok :: "'x text_lib_scheme \<Rightarrow> bool" where
  "text_lib_ok L \<longleftrightarrow> tokens_ok L \<and> json_ok L \<and> inet6_ok L \<and> (\<forall>e. enum_ok (enum_table L e))"

lemma text_lib_okD:
  assumes "text_lib_ok L"
  shows "tokens_ok L" "json_ok L" "inet6_ok L" "enum_ok (enum_table L e)"
  using assms by (simp_all add: text_lib_ok_def)

lemma tokenize_join: "tokens_ok L \<Longrightarrow> list_all (item sep) items \<Longrightarrow> tokenize L (join [sep] items) sep = items"
  by (simp add: tokens_ok_def)

lemma parse_dump: "json_ok L \<Longrightarrow> json_wf j \<Longrightarrow> parse_json L (json_dump L j) = Inr j"
  by (simp add: json_ok_def parse_json_def)

end
