(* ===== verification/Ser_Enum.thy ===== *)
theory Ser_Enum
  imports Ser_Lib
begin

text \<open>
  Enum values and flags as text in \<open>meta/SaiSerialize.cpp\<close>: \<open>sai_serialize_enum\<close>, \<open>sai_deserialize_enum\<close> and the
  functions for flags they call. A null pointer to a table is \<open>None\<close>.
\<close>

section \<open>Printing\<close>

text \<open>The loop over the values of a flags enum: the bits left, and the text.\<close>

fun flags_loop :: "(32 word \<times> string) list \<Rightarrow> 32 word \<Rightarrow> string \<Rightarrow> 32 word \<times> string" where
  "flags_loop [] value s = (value, s)"
| "flags_loop ((v, n) # es) value s =
     (if value AND v \<noteq> 0 then flags_loop es (value AND NOT v) ((if s = [] then s else s @ ''|'') @ n)
      else flags_loop es value s)"

definition sai_serialize_flags :: "32 word \<Rightarrow> enum_md \<Rightarrow> fault + string" where
  "sai_serialize_flags value md =
     (if value = 0 then
        (case em_entries md of
           [] \<Rightarrow> Inl (Null_Deref ''meta->values[0]'')
         | (v, n) # _ \<Rightarrow> Inr (if v \<noteq> 0 then ''0x0'' else n))
      else
        (case flags_loop (em_entries md) value [] of (rest, s) \<Rightarrow>
           Inr (if rest = 0 then s
                else (if s = [] then s else s @ ''|'') @ sai_serialize_number True rest)))"

fun find_value :: "(32 word \<times> string) list \<Rightarrow> 32 word \<Rightarrow> string option" where
  "find_value [] value = None"
| "find_value ((v, n) # es) value = (if v = value then Some n else find_value es value)"

definition sai_serialize_enum :: "32 word \<Rightarrow> enum_md option \<Rightarrow> fault + string" where
  "sai_serialize_enum value meta =
     (case meta of
        None \<Rightarrow> Inr (sai_serialize_signed False value)
      | Some md \<Rightarrow>
          if em_strict_flags md then sai_serialize_flags value md
          else (case find_value (em_entries md) value of
                  Some n \<Rightarrow> Inr n
                | None \<Rightarrow> Inr (sai_serialize_signed False value)))"

section \<open>Reading\<close>

fun find_name :: "(32 word \<times> string) list \<Rightarrow> string \<Rightarrow> 32 word option" where
  "find_name [] s = None"
| "find_name ((v, n) # es) s = (if s = n then Some v else find_name es s)"

text \<open>Names that are not known are passed over.\<close>

fun flags_tokens :: "enum_md \<Rightarrow> 32 word \<Rightarrow> string list \<Rightarrow> fault + 32 word" where
  "flags_tokens md value [] = Inr value"
| "flags_tokens md value (t # ts) =
     (if take 1 t = ''0'' then
        bindE (sai_deserialize_number True t) (\<lambda>v :: 32 word. flags_tokens md (value OR v) ts)
      else (case find_name (em_entries md) t of
              Some v \<Rightarrow> flags_tokens md (value OR v) ts
            | None \<Rightarrow> flags_tokens md value ts))"

definition sai_deserialize_flags :: "'x text_lib_scheme \<Rightarrow> string \<Rightarrow> enum_md \<Rightarrow> fault + 32 word" where
  "sai_deserialize_flags L s md = flags_tokens md 0 (tokenize L s CHR ''|'')"

definition sai_deserialize_enum :: "'x text_lib_scheme \<Rightarrow> string \<Rightarrow> enum_md option \<Rightarrow> fault + 32 word" where
  "sai_deserialize_enum L s meta =
     (case meta of
        None \<Rightarrow> sai_deserialize_number False s
      | Some md \<Rightarrow>
          if em_strict_flags md then sai_deserialize_flags L s md
          else (case find_name (em_entries md) (c_str s) of
                  Some v \<Rightarrow> Inr v
                | None \<Rightarrow> (case map_of (em_ignored md) (c_str s) of
                     Some v \<Rightarrow> Inr v
                   | None \<Rightarrow> sai_deserialize_number False s)))"

section \<open>What is printed\<close>

fun flag_items :: "(32 word \<times> string) list \<Rightarrow> 32 word \<Rightarrow> string list" where
  "flag_items [] value = []"
| "flag_items ((v, n) # es) value =
     (if value AND v \<noteq> 0 then n # flag_items es (value AND NOT v) else flag_items es value)"

fun flag_rest :: "(32 word \<times> string) list \<Rightarrow> 32 word \<Rightarrow> 32 word" where
  "flag_rest [] value = value"
| "flag_rest ((v, n) # es) value = (if value AND v \<noteq> 0 then flag_rest es (value AND NOT v) else flag_rest es value)"

lemma join_append: "xs \<noteq> [] \<Longrightarrow> ys \<noteq> [] \<Longrightarrow> join sep (xs @ ys) = join sep xs @ sep @ join sep ys"
  by (induction sep xs rule: join.induct) (auto simp: neq_Nil_conv)

lemma join_Cons: "xs \<noteq> [] \<Longrightarrow> join sep (x # xs) = x @ sep @ join sep xs"
  by (cases xs) simp_all

lemma join_Nil: "list_all (item c) xs \<Longrightarrow> join sep xs = [] \<longleftrightarrow> xs = []"
  by (induction sep xs rule: join.induct) (auto simp: item_def)

lemma flags_loop_items:
  assumes "list_all (\<lambda>(v, n). n \<noteq> []) es"
  shows "flags_loop es w s =
     (flag_rest es w, if flag_items es w = [] then s
        else (if s = [] then s else s @ ''|'') @ join ''|'' (flag_items es w))"
  using assms
proof (induction es w s rule: flags_loop.induct)
  case (2 v n es w s)
  then show ?case by (cases "flag_items es (w AND NOT v) = []") (auto simp: join_Cons)
qed simp

lemma identD: "ident s \<Longrightarrow> s \<noteq> []" "ident s \<Longrightarrow> list_all ident_char s"
  by (auto simp: ident_def)

lemma ident_start: "ident s \<Longrightarrow> \<exists>t. s = CHR ''S'' # t"
  by (cases s) (auto simp: ident_def)

lemma ident_char_plain:
  "ident_char c \<Longrightarrow> c \<noteq> CHR '',''" "ident_char c \<Longrightarrow> c \<noteq> CHR ''|''" "ident_char c \<Longrightarrow> c \<noteq> CHR 0x00"
  "ident_char c \<Longrightarrow> c \<noteq> CHR '':''" "ident_char c \<Longrightarrow> c \<noteq> CHR ''&''" "ident_char c \<Longrightarrow> (of_char c :: nat) < 128"
  by (auto simp: ident_char_def alnum_def)

lemma ident_plain: "ident s \<Longrightarrow> CHR '','' \<notin> set s" "ident s \<Longrightarrow> CHR ''|'' \<notin> set s" "ident s \<Longrightarrow> CHR '':'' \<notin> set s"
    "ident s \<Longrightarrow> CHR ''&'' \<notin> set s" "ident s \<Longrightarrow> CHR 0x00 \<notin> set s"
  by (drule identD(2); force simp: list_all_iff dest: ident_char_plain)+

lemma ident_ascii: "ident s \<Longrightarrow> ascii s"
  by (drule identD(2)) (auto simp: ascii_def list_all_iff ident_char_plain)

lemma ident_c_str: "ident s \<Longrightarrow> c_str s = s"
  by (drule identD(2), rule c_str_id) (auto simp: list_all_iff dest: ident_char_plain(3))

lemma number_prefix: "sai_serialize_number True w = CHR ''0'' # CHR ''x'' # print_nat 16 (unat (ucast w :: u64))"
  by (simp add: sai_serialize_number_def)

lemma number_hex_item: "sep \<notin> {CHR ''0'', CHR ''x''} \<Longrightarrow> (\<And>d. d < 16 \<Longrightarrow> sep \<noteq> digit_char d) \<Longrightarrow>
    item sep (sai_serialize_number True w)"
  using print_nat_digits [of 16 sep "unat (ucast w :: u64)"] by (auto simp: item_def number_prefix)

section \<open>Flags\<close>

lemma bit_flag: "k < 32 \<Longrightarrow> bit (push_bit k 1 :: 32 word) n \<longleftrightarrow> n = k"
  by (auto simp: bit_exp_iff)

lemma flag_word_bits: "flag_word v \<Longrightarrow> bit v n \<Longrightarrow> bit v m \<Longrightarrow> n = m"
  by (auto simp: flag_word_def list_ex_iff bit_exp_iff)

lemma flag_word_and:
  assumes "flag_word v" "w AND v \<noteq> 0"
  shows "w AND v = v"
proof -
  obtain k where "bit w k" "bit v k" using assms(2) by (auto simp: bit_eq_iff bit_and_iff)
  then have "bit v n \<longleftrightarrow> n = k" for n :: nat using flag_word_bits [OF assms(1)] by blast
  with \<open>bit w k\<close> show ?thesis by (intro bit_word_eqI) (auto simp: bit_and_iff)
qed

lemma flag_rest_sub: "flag_rest es w AND w = flag_rest es w"
proof (induction es w rule: flag_rest.induct)
  case (2 v n es w)
  then show ?case by (auto simp: bit_eq_iff bit_simps)
qed simp

lemma find_name_mem: "(v, n) \<in> set es \<Longrightarrow> distinct (map snd es) \<Longrightarrow> find_name es n = Some v"
  by (induction es n rule: find_name.induct) (auto simp: image_iff)

lemma flag_items_sub: "set (flag_items es w) \<subseteq> snd ` set es"
  by (induction es w rule: flag_items.induct) auto

lemma ident_head: "ident s \<Longrightarrow> take 1 s \<noteq> ''0''"
  by (drule ident_start) auto

lemma word_split_or: "w AND v = v \<Longrightarrow> v OR (w AND NOT v) = (w :: 32 word)"
  by (auto simp: bit_eq_iff bit_simps)

lemma flags_tokens_items:
  assumes "list_all (\<lambda>(v, n). ident n \<and> flag_word v) es" "set es \<subseteq> set (em_entries md)" "distinct (map snd (em_entries md))"
  shows "flags_tokens md a (flag_items es w @ ts) = flags_tokens md (a OR (w AND NOT (flag_rest es w))) ts"
  using assms(1,2)
proof (induction es w arbitrary: a rule: flag_items.induct)
  case (2 v n es w)
  show ?case
  proof (cases "w AND v = 0")
    case False
    with 2 have "w AND v = v" by (auto intro: flag_word_and)
    moreover have "find_name (em_entries md) n = Some v" using 2 assms(3) by (auto intro: find_name_mem)
    moreover have "a OR (w AND NOT (flag_rest es (w AND NOT v))) =
        a OR v OR (w AND NOT v AND NOT (flag_rest es (w AND NOT v)))"
      using flag_rest_sub [of es "w AND NOT v"] \<open>w AND v = v\<close> by (auto simp: bit_eq_iff bit_simps)
    moreover have "take (Suc 0) n \<noteq> ''0''" using 2 ident_head [of n] by auto
    ultimately show ?thesis using 2 False by (simp add: ac_simps)
  qed (use 2 in simp)
qed (simp add: bit_eq_iff)

text \<open>The items the text of flags is joined of.\<close>

definition printed_flags :: "enum_md \<Rightarrow> 32 word \<Rightarrow> string list" where
  "printed_flags md w =
     (if w = 0 then (case em_entries md of [] \<Rightarrow> [] | (v, n) # _ \<Rightarrow> [if v \<noteq> 0 then sai_serialize_number True (0 :: 32 word) else n])
      else (let rest = flag_rest (em_entries md) w in
        flag_items (em_entries md) w @ (if rest = 0 then [] else [sai_serialize_number True rest])))"

definition flag_item :: "string \<Rightarrow> bool" where
  "flag_item t \<longleftrightarrow> t \<noteq> [] \<and> list_all ident_char t \<and> t \<noteq> ''null'' \<and> t \<noteq> ''disabled''"

lemma flag_item_ident: "ident s \<Longrightarrow> flag_item s"
  using ident_start [of s] identD(2) [of s] by (auto simp: flag_item_def)

lemma ident_char_digit: "d < 16 \<Longrightarrow> ident_char (digit_char d)"
  by (drule less_16_cases) (auto simp: digit_char_def ident_char_def alnum_def)

lemma print_nat_chars: "2 \<le> base \<Longrightarrow> base \<le> 16 \<Longrightarrow> list_all ident_char (print_nat base n)"
  unfolding list_all_iff using print_nat_digits [of base _ n] ident_char_digit by fastforce

lemma hex_text: "list_all ident_char (sai_serialize_number True w)"
  using print_nat_chars [of 16 "unat (ucast w :: u64)"]
  by (simp add: number_prefix) (simp add: ident_char_def alnum_def)

lemma flag_item_hex: "flag_item (sai_serialize_number True w)"
  using hex_text [of w] by (simp add: flag_item_def number_prefix)

lemma flag_item_bar: "flag_item t \<Longrightarrow> item CHR ''|'' t"
  by (auto simp: flag_item_def item_def list_all_iff dest: ident_char_plain(2))

lemma flag_rest_id: "flag_items es w = [] \<Longrightarrow> flag_rest es w = w"
  by (induction es w rule: flag_items.induct) (auto split: if_splits)

lemma printed_flags_items:
  assumes "enum_ok md"
  shows "list_all flag_item (printed_flags md w)" "printed_flags md w \<noteq> []"
proof -
  have es: "list_all (\<lambda>(v, n). ident n) (em_entries md)" "em_entries md \<noteq> []" using assms by (simp_all add: enum_ok_def)
  have "list_all flag_item (flag_items (em_entries md) w)"
    using flag_items_sub [of "em_entries md" w] es(1) flag_item_ident by (fastforce simp: list_all_iff)
  then show "list_all flag_item (printed_flags md w)"
    using es flag_item_hex flag_item_ident by (cases "em_entries md") (auto simp: printed_flags_def Let_def)
  show "printed_flags md w \<noteq> []"
    using es(2) flag_rest_id [of "em_entries md" w] by (cases "em_entries md") (auto simp: printed_flags_def Let_def)
qed

lemma serialize_flags_printed:
  assumes "enum_ok md"
  shows "sai_serialize_flags w md = Inr (join ''|'' (printed_flags md w))"
proof (cases "w = 0")
  case True
  have "em_entries md \<noteq> []" using assms by (simp add: enum_ok_def)
  with True show ?thesis
    by (cases "em_entries md")
      (auto simp: sai_serialize_flags_def printed_flags_def number_prefix print_nat.simps digit_char_def)
next
  case False
  let ?es = "em_entries md"
  have names: "list_all (\<lambda>(v, n). n \<noteq> []) ?es" using assms by (auto simp: enum_ok_def list_all_iff dest: identD)
  have "list_all (item CHR ''|'') (flag_items ?es w)"
    using printed_flags_items(1) [OF assms, of w] False by (auto simp: printed_flags_def Let_def list_all_iff flag_item_bar)
  then have "join ''|'' (flag_items ?es w) = [] \<longleftrightarrow> flag_items ?es w = []" by (rule join_Nil)
  with False show ?thesis
    by (simp add: sai_serialize_flags_def flags_loop_items [OF names] printed_flags_def Let_def join_append)
qed

lemma flags_roundtrip:
  assumes "tokens_ok L" "enum_ok md" "em_strict_flags md"
  shows "\<exists>s. sai_serialize_flags w md = Inr s \<and> sai_deserialize_flags L s md = Inr w"
proof -
  let ?es = "em_entries md"
  have es: "list_all (\<lambda>(v, n). ident n \<and> flag_word v) ?es" "distinct (map snd ?es)" "?es \<noteq> []"
    using assms(2,3) by (auto simp: enum_ok_def list_all_iff)
  have "list_all (item CHR ''|'') (printed_flags md w)"
    using printed_flags_items(1) [OF assms(2)] by (auto simp: list_all_iff flag_item_bar)
  then have tok: "tokenize L (join ''|'' (printed_flags md w)) CHR ''|'' = printed_flags md w"
    by (intro tokenize_join assms(1))
  have "flags_tokens md 0 (printed_flags md w) = Inr w"
  proof (cases "w = 0")
    case True
    obtain v n r where e: "?es = (v, n) # r" using es(3) by (cases ?es) auto
    have "take (Suc 0) (sai_serialize_number True (0 :: 32 word)) = ''0''" by (simp add: number_prefix)
    then have "flags_tokens md 0 [sai_serialize_number True (0 :: 32 word)] = Inr 0" by (simp add: number_roundtrip)
    moreover have "flags_tokens md 0 [n] = Inr 0" if "v = 0" using that ident_head [of n] es(1) e by simp
    ultimately show ?thesis using True e by (simp add: printed_flags_def del: flags_tokens.simps)
  next
    case False
    let ?rest = "flag_rest ?es w"
    have "flags_tokens md 0 (printed_flags md w) =
        flags_tokens md (w AND NOT ?rest) (if ?rest = 0 then [] else [sai_serialize_number True ?rest])"
      using False by (simp add: printed_flags_def Let_def flags_tokens_items [OF es(1) subset_refl es(2)])
    also have "\<dots> = Inr ((w AND NOT ?rest) OR ?rest)"
      by (simp add: number_roundtrip) (simp add: number_prefix)
    also have "(w AND NOT ?rest) OR ?rest = w"
      using flag_rest_sub [of ?es w] by (auto simp: bit_eq_iff bit_simps)
    finally show ?thesis .
  qed
  with tok show ?thesis by (simp add: serialize_flags_printed [OF assms(2)] sai_deserialize_flags_def)
qed

section \<open>Enum values\<close>

text \<open>A printed number is no name.\<close>

lemma signed_head: "sai_serialize_signed False w = c # cs \<Longrightarrow> c = CHR ''-'' \<or> (\<exists>d < 10. c = digit_char d)"
  using print_nat_digits [of 10 c "nat (- sint w)"] print_nat_digits [of 10 c "nat (sint w)"]
  by (auto simp: sai_serialize_signed_def print_int_def split: if_splits)

lemma ident_not_number: "\<not> ident (sai_serialize_signed False w)"
proof
  assume s: "ident (sai_serialize_signed False w)"
  then obtain cs where c: "sai_serialize_signed False w = CHR ''S'' # cs" using ident_start by blast
  then have "CHR ''S'' = CHR ''-'' \<or> (\<exists>d < 10. CHR ''S'' = digit_char d)" by (rule signed_head)
  then obtain d where "d < 10" "digit_char d = CHR ''S''" by auto
  with decimal_char [of d] show False by simp
qed

lemma find_name_none: "list_all (\<lambda>(v, n). n \<noteq> s) es \<Longrightarrow> find_name es s = None"
  by (induction es s rule: find_name.induct) auto

lemma find_value_mem: "find_value es w = Some n \<Longrightarrow> (w, n) \<in> set es"
  by (induction es w rule: find_value.induct) (auto split: if_splits)

lemma signed_c_str: "c_str (sai_serialize_signed False w) = sai_serialize_signed False w"
  by (rule c_str_id) (auto simp: sai_serialize_signed_def print_int_def dest: print_nat_plain(4) [rotated 2])

text \<open>Every value, in the table or not, is read back from what is printed.\<close>

lemma enum_roundtrip:
  assumes "tokens_ok L" "\<And>md. meta = Some md \<Longrightarrow> enum_ok md"
  shows "\<exists>s. sai_serialize_enum w meta = Inr s \<and> sai_deserialize_enum L s meta = Inr w"
proof (cases meta)
  case None
  then show ?thesis by (simp add: sai_serialize_enum_def sai_deserialize_enum_def signed_roundtrip)
next
  case (Some md)
  note ok = assms(2) [OF Some]
  show ?thesis
  proof (cases "em_strict_flags md")
    case True
    with flags_roundtrip [OF assms(1) ok True] Some show ?thesis
      by (simp add: sai_serialize_enum_def sai_deserialize_enum_def)
  next
    case False
    show ?thesis
    proof (cases "find_value (em_entries md) w")
      case None
      let ?s = "sai_serialize_signed False w"
      have "find_name (em_entries md) ?s = None"
        using ok ident_not_number [of w] by (intro find_name_none) (auto simp: enum_ok_def list_all_iff)
      moreover have "map_of (em_ignored md) ?s = None"
        using ok ident_not_number [of w] by (auto simp: enum_ok_def list_all_iff map_of_eq_None_iff)
      ultimately show ?thesis
        using Some False None
        by (simp add: sai_serialize_enum_def sai_deserialize_enum_def signed_c_str signed_roundtrip)
    next
      case (Some n)
      then have "(w, n) \<in> set (em_entries md)" by (rule find_value_mem)
      moreover from this ok have "find_name (em_entries md) n = Some w" "ident n"
        by (auto simp: enum_ok_def list_all_iff intro: find_name_mem)
      ultimately show ?thesis
        using \<open>meta = Some md\<close> False Some
        by (simp add: sai_serialize_enum_def sai_deserialize_enum_def ident_c_str)
    qed
  qed
qed

section \<open>The characters of what is printed\<close>

definition enum_char :: "char \<Rightarrow> bool" where
  "enum_char c = (ident_char c \<or> c = CHR ''|'' \<or> c = CHR ''-'')"

definition enum_text :: "string \<Rightarrow> bool" where
  "enum_text s \<longleftrightarrow> s \<noteq> [] \<and> list_all enum_char s \<and> s \<noteq> ''null'' \<and> s \<noteq> ''disabled''"

lemma enum_textD:
  assumes "enum_text s"
  shows "CHR '','' \<notin> set s" "CHR '':'' \<notin> set s" "plain s"
proof -
  have c: "c \<noteq> CHR '','' \<and> c \<noteq> CHR ''&'' \<and> c \<noteq> CHR '':'' \<and> (of_char c :: nat) < 128" if "c \<in> set s" for c
    using assms that ident_char_plain [of c] by (auto simp: enum_text_def list_all_iff enum_char_def)
  show "CHR '','' \<notin> set s" "CHR '':'' \<notin> set s" using c by auto
  show "plain s" using assms c by (auto simp: plain_def enum_text_def ascii_def list_all_iff)
qed

lemma ident_text: "ident s \<Longrightarrow> enum_text s"
  using ident_start [of s] identD(2) [of s] by (auto simp: enum_text_def enum_char_def list_all_iff)

lemma signed_text: "enum_text (sai_serialize_signed False w)"
proof -
  have "list_all enum_char (print_nat 10 n)" for n
    using print_nat_chars [of 10 n] by (auto simp: list_all_iff enum_char_def)
  moreover have "sai_serialize_signed False w \<noteq> CHR ''n'' # t" "sai_serialize_signed False w \<noteq> CHR ''d'' # t" for t
    using signed_head [of w "CHR ''n''" t] signed_head [of w "CHR ''d''" t] decimal_char by fastforce+
  ultimately show ?thesis
    by (simp add: enum_text_def sai_serialize_signed_def print_int_def print_nat_nonempty') (simp add: enum_char_def)
qed

lemma join_chars: "list_all P sep \<Longrightarrow> list_all (list_all P) ss \<Longrightarrow> list_all P (join sep ss)"
  by (induction sep ss rule: join.induct) auto

lemma join_bar_not: "list_all (\<lambda>s. s \<noteq> t) ss \<Longrightarrow> CHR ''|'' \<notin> set t \<Longrightarrow> t \<noteq> [] \<Longrightarrow> join ''|'' ss \<noteq> t"
proof (cases ss)
  case (Cons u us)
  have "CHR ''|'' \<in> set (join ''|'' ss)" if "us \<noteq> []" using that by (simp add: Cons join_Cons)
  then show "list_all (\<lambda>s. s \<noteq> t) ss \<Longrightarrow> CHR ''|'' \<notin> set t \<Longrightarrow> ?thesis" by (cases "us = []") (auto simp: Cons)
qed simp

lemma flags_text:
  assumes "enum_ok md" "sai_serialize_flags w md = Inr s"
  shows "enum_text s"
proof -
  let ?ss = "printed_flags md w"
  note ss = printed_flags_items [OF assms(1), of w]
  have "list_all enum_char (join ''|'' ?ss)"
    using ss(1) by (intro join_chars) (auto simp: flag_item_def enum_char_def list_all_iff)
  moreover have "join ''|'' ?ss \<noteq> ''null''" "join ''|'' ?ss \<noteq> ''disabled''"
    using ss(1) by (intro join_bar_not; auto simp: flag_item_def list_all_iff)+
  moreover have "join ''|'' ?ss \<noteq> []"
    using ss join_Nil [of "CHR ''|''" ?ss] by (auto simp: list_all_iff flag_item_bar)
  ultimately show ?thesis using assms by (simp add: enum_text_def serialize_flags_printed)
qed

lemma enum_printed: "(\<And>md. meta = Some md \<Longrightarrow> enum_ok md) \<Longrightarrow> sai_serialize_enum w meta = Inr s \<Longrightarrow> enum_text s"
  by (auto simp: sai_serialize_enum_def signed_text split: option.splits if_splits intro: flags_text
      dest!: find_value_mem) (auto simp: enum_ok_def list_all_iff intro: ident_text)

end
