(* ===== verification/Ser_Ip.thy ===== *)
theory Ser_Ip
  imports Ser_Enum
begin

text \<open>
  IP addresses, masks and prefixes as text in \<open>meta/SaiSerialize.cpp\<close>. Addresses and masks are lists of bytes in
  network order, 4 or 16 of them.
\<close>

section \<open>IPv4 addresses\<close>

text \<open>
  \<open>inet_ntop\<close> and \<open>inet_pton\<close> for IPv4: four decimal numbers up to 255 without leading zeros, with dots between. The
  arguments of the loop are the numbers read and the number being read.
\<close>

definition inet_ntop4 :: "8 word list \<Rightarrow> string" where
  "inet_ntop4 ip = join ''.'' (map (\<lambda>b. print_nat 10 (unat b)) ip)"

fun pton4_loop :: "string \<Rightarrow> 8 word list \<Rightarrow> nat option \<Rightarrow> 8 word list option" where
  "pton4_loop [] bs cur = (case cur of Some n \<Rightarrow> if length bs = 3 then Some (bs @ [of_nat n]) else None | None \<Rightarrow> None)"
| "pton4_loop (c # cs) bs cur =
     (case digit_value 10 c of
        Some d \<Rightarrow>
          (case cur of
             None \<Rightarrow> pton4_loop cs bs (Some d)
           | Some n \<Rightarrow> if n = 0 \<or> 255 < 10 * n + d then None else pton4_loop cs bs (Some (10 * n + d)))
      | None \<Rightarrow>
          (case cur of
             Some n \<Rightarrow> if c = CHR ''.'' \<and> length bs < 3 then pton4_loop cs (bs @ [of_nat n]) None else None
           | None \<Rightarrow> None))"

definition inet_pton4 :: "string \<Rightarrow> 8 word list option" where
  "inet_pton4 s = pton4_loop (c_str s) [] None"

lemma print_byte:
  assumes "n < 256"
  shows "n < 10 \<and> print_nat 10 n = [digit_char n] \<or>
     10 \<le> n \<and> n < 100 \<and> print_nat 10 n = [digit_char (n div 10), digit_char (n mod 10)] \<or>
     100 \<le> n \<and> print_nat 10 n = [digit_char (n div 100), digit_char (n div 10 mod 10), digit_char (n mod 10)]"
proof -
  have "n div 10 div 10 = n div 100" by (simp add: div_mult2_eq [symmetric])
  then show ?thesis
    using assms print_nat_step [of 10 n] print_nat_digit [of n 10] print_nat_step [of 10 "n div 10"]
      print_nat_digit [of "n div 10" 10] print_nat_digit [of "n div 100" 10]
    by (cases "n < 10"; cases "n < 100") auto
qed

lemma pton4_number:
  assumes "n < 256"
  shows "pton4_loop (print_nat 10 n @ rest) bs None = pton4_loop rest bs (Some n)"
proof -
  note d = digit_value_char [of 10]
  from print_byte [OF assms] show ?thesis
  proof (elim disjE conjE)
    assume n: "100 \<le> n" "print_nat 10 n = [digit_char (n div 100), digit_char (n div 10 mod 10), digit_char (n mod 10)]"
    have "10 * (n div 100) + n div 10 mod 10 = n div 10" by (simp add: div_mult2_eq [of n 10 10, simplified])
    moreover have "10 * (n div 10) + n mod 10 = n" by simp
    moreover have "0 < n div 100" "n div 100 < 10" "n div 10 \<le> 255" using n(1) assms by auto
    ultimately show ?thesis using n assms by (simp add: d)
  next
    assume n: "10 \<le> n" "n < 100" "print_nat 10 n = [digit_char (n div 10), digit_char (n mod 10)]"
    moreover have "n div 10 \<noteq> 0" using n(1) by auto
    ultimately show ?thesis using assms by (simp add: d)
  qed (simp add: d)
qed

lemma pton4_ntop4: "length ip = 4 \<Longrightarrow> inet_pton4 (inet_ntop4 ip) = Some ip"
proof -
  assume "length ip = 4"
  then obtain a b c e where ip: "ip = [a, b, c, e]" by (auto simp: numeral_eq_Suc length_Suc_conv)
  have num: "pton4_loop (print_nat 10 (unat x) @ r) bs None = pton4_loop r bs (Some (unat x))" for x :: "8 word" and r bs
    by (rule pton4_number [OF unat_byte])
  have last: "pton4_loop (print_nat 10 (unat x)) bs None = pton4_loop [] bs (Some (unat x))" for x :: "8 word" and bs
    using num [of x "[]" bs] by simp
  have dot: "digit_value 10 CHR ''.'' = None" by (simp add: digit_value_def hex_digit_def)
  have "CHR 0x00 \<notin> set (inet_ntop4 ip)"
    by (auto simp: inet_ntop4_def ip dest: print_nat_plain(4) [rotated 2])
  then show ?thesis
    by (simp add: inet_pton4_def c_str_id) (simp add: inet_ntop4_def ip num last dot del: pton4_loop.simps(1), simp)
qed

lemma pton4_colon: "CHR '':'' \<in> set s \<Longrightarrow> pton4_loop s bs cur = None"
proof (induction s bs cur rule: pton4_loop.induct)
  case (2 c cs bs cur)
  have "digit_value 10 CHR '':'' = None" by (simp add: digit_value_def hex_digit_def)
  with 2 show ?case by (auto split: option.splits)
qed simp

section \<open>Masks\<close>

definition mask_bit :: "8 word list \<Rightarrow> nat \<Rightarrow> bool" where
  "mask_bit m i = bit (m ! (i div 8)) (7 - i mod 8)"

definition ip_len :: "bool \<Rightarrow> nat" where
  "ip_len ipv6 = (if ipv6 then 16 else 4)"

fun mask_loop :: "bool list \<Rightarrow> bool \<Rightarrow> nat \<Rightarrow> fault + nat" where
  "mask_loop [] zeros ones = Inr ones"
| "mask_loop (b # bs) zeros ones =
     (if zeros \<and> b then Inl (Throw ''FATAL: invalid ip mask'')
      else mask_loop bs (zeros \<or> \<not> b) (if b then ones + 1 else ones))"

definition get_ip_mask :: "8 word list \<Rightarrow> bool \<Rightarrow> fault + nat" where
  "get_ip_mask m ipv6 = mask_loop (map (mask_bit m) [0..<8 * ip_len ipv6]) False 0"

text \<open>The bytes of the mask: full ones, a last one with the remaining bits, zeros.\<close>

definition sai_populate_ip_mask :: "nat \<Rightarrow> bool \<Rightarrow> fault + 8 word list" where
  "sai_populate_ip_mask bits ipv6 =
     (if 8 * ip_len ipv6 < bits then Inl (Throw ''invalid ip mask bits'')
      else Inr (map (\<lambda>i. if i < bits div 8 then 0xFF
                     else if i = bits div 8 \<and> bits mod 8 \<noteq> 0 then push_bit (8 - bits mod 8) 0xFF
                     else 0) [0..<ip_len ipv6]))"

lemma mask_loop_zeros: "mask_loop bs True n = (if list_all Not bs then Inr n else Inl (Throw ''FATAL: invalid ip mask''))"
  by (induction bs) auto

lemma mask_loop_ones:
  "mask_loop bs False n =
     (let j = length (takeWhile id bs) in if list_all Not (drop j bs) then Inr (n + j) else Inl (Throw ''FATAL: invalid ip mask''))"
  by (induction bs arbitrary: n) (auto simp: mask_loop_zeros Let_def)

lemma get_ip_mask_Inr:
  "get_ip_mask m v6 = Inr n \<longleftrightarrow> n \<le> 8 * ip_len v6 \<and> (\<forall>i < 8 * ip_len v6. mask_bit m i \<longleftrightarrow> i < n)" (is "?l \<longleftrightarrow> ?r")
proof -
  let ?bs = "map (mask_bit m) [0..<8 * ip_len v6]"
  let ?j = "length (takeWhile id ?bs)"
  have len: "?j \<le> 8 * ip_len v6" using length_takeWhile_le [of id ?bs] by simp
  have ones: "mask_bit m i" if "i < ?j" for i
    using that len nth_mem [of i "takeWhile id ?bs"] set_takeWhileD [of "takeWhile id ?bs ! i" id ?bs]
    by (auto simp: takeWhile_nth)
  have stop: "\<not> mask_bit m ?j" if "?j < 8 * ip_len v6"
    using that nth_length_takeWhile [of id ?bs] by simp
  have zeros: "list_all Not (drop ?j ?bs) \<longleftrightarrow> (\<forall>i < 8 * ip_len v6. ?j \<le> i \<longrightarrow> \<not> mask_bit m i)"
    by (auto simp: list_all_length) (metis add_diff_inverse_nat diff_less_mono not_less)
  have "?l \<longleftrightarrow> list_all Not (drop ?j ?bs) \<and> n = ?j"
    by (auto simp: get_ip_mask_def mask_loop_ones Let_def)
  also have "\<dots> \<longleftrightarrow> ?r"
  proof
    assume l: "list_all Not (drop ?j ?bs) \<and> n = ?j"
    then have "mask_bit m i \<longleftrightarrow> i < n" if "i < 8 * ip_len v6" for i
      using that ones [of i] unfolding zeros by (cases "i < ?j") auto
    with l len show ?r by blast
  next
    assume r: ?r
    have "?j = n"
    proof (rule linorder_cases [of ?j n])
      assume "?j < n"
      with r stop show ?thesis by auto
    next
      assume "n < ?j"
      with ones [of n] r len show ?thesis by auto
    qed
    with r show "list_all Not (drop ?j ?bs) \<and> n = ?j" unfolding zeros by auto
  qed
  finally show ?thesis .
qed

lemma bit_FF: "bit (0xFF :: 8 word) n \<longleftrightarrow> n < 8"
proof -
  have "(0xFF :: 8 word) = mask 8" by (simp add: mask_eq_exp_minus_1)
  then show ?thesis by (simp only: bit_mask_iff) auto
qed

lemma bit_push_FF: "k < 8 \<Longrightarrow> bit (push_bit r (0xFF :: 8 word)) k \<longleftrightarrow> r \<le> k"
  by (simp only: bit_push_bit_iff bit_FF) auto

lemma populate_bits:
  assumes "sai_populate_ip_mask n v6 = Inr m" "i < 8 * ip_len v6"
  shows "mask_bit m i \<longleftrightarrow> i < n"
proof -
  let ?b = "n div 8" and ?r = "n mod 8"
  have n: "n = 8 * ?b + ?r" "?r < 8" by simp_all
  have i: "i = 8 * (i div 8) + i mod 8" "i mod 8 < 8" "i div 8 < ip_len v6" using assms(2) by auto
  have "m ! (i div 8) = (if i div 8 < ?b then 0xFF else if i div 8 = ?b \<and> ?r \<noteq> 0 then push_bit (8 - ?r) 0xFF else 0)"
    using assms(1) i(3) by (auto simp: sai_populate_ip_mask_def split: if_splits)
  moreover have "bit (push_bit (8 - ?r) (0xFF :: 8 word)) (7 - i mod 8) \<longleftrightarrow> i mod 8 < ?r" if "?r \<noteq> 0"
    using that i(2) n(2) by (subst bit_push_FF) auto
  ultimately have "mask_bit m i \<longleftrightarrow> i div 8 < ?b \<or> i div 8 = ?b \<and> i mod 8 < ?r"
    using bit_FF [of "7 - i mod 8"] by (auto simp: mask_bit_def)
  also have "\<dots> \<longleftrightarrow> i < n" using n i(1,2) by linarith
  finally show ?thesis .
qed

lemma populate_length: "sai_populate_ip_mask n v6 = Inr m \<Longrightarrow> length m = ip_len v6"
  by (auto simp: sai_populate_ip_mask_def split: if_splits)

lemma populate_get: "sai_populate_ip_mask n v6 = Inr m \<Longrightarrow> get_ip_mask m v6 = Inr n"
  by (auto simp: get_ip_mask_Inr populate_bits) (auto simp: sai_populate_ip_mask_def split: if_splits)

lemma mask_eqI:
  assumes "length m = k" "length m' = k" "\<And>i. i < 8 * k \<Longrightarrow> mask_bit m i = mask_bit m' i"
  shows "m = m'"
proof (rule nth_equalityI)
  fix j assume j: "j < length m"
  show "m ! j = m' ! j"
  proof (rule bit_word_eqI)
    fix n assume "n < LENGTH(8)"
    then have n: "n < 8" by simp
    with j assms(1) have "8 * j + (7 - n) < 8 * k" by simp
    moreover have "(8 * j + (7 - n)) div 8 = j" "(8 * j + (7 - n)) mod 8 = 7 - n" by simp_all
    ultimately show "bit (m ! j) n = bit (m' ! j) n"
      using assms(3) [of "8 * j + (7 - n)"] n by (simp only: mask_bit_def) simp
  qed
qed (simp add: assms)

lemma get_populate:
  assumes "get_ip_mask m v6 = Inr n" "length m = ip_len v6"
  shows "sai_populate_ip_mask n v6 = Inr m"
proof -
  from assms(1) have n: "n \<le> 8 * ip_len v6" "\<forall>i < 8 * ip_len v6. mask_bit m i \<longleftrightarrow> i < n"
    by (simp_all add: get_ip_mask_Inr)
  then obtain m' where m': "sai_populate_ip_mask n v6 = Inr m'" by (auto simp: sai_populate_ip_mask_def)
  then have "m' = m"
    using n(2) assms(2) by (intro mask_eqI [of _ "ip_len v6"]) (auto simp: populate_bits populate_length)
  with m' show ?thesis by simp
qed

section \<open>Addresses\<close>

text \<open>
  \<open>sai_ip_address_t\<close> and \<open>sai_ip_prefix_t\<close>: the address family selects the member of the union; a family that is
  neither of the two is kept as its number.
\<close>

datatype sai_ip_address = Ip4 "8 word list" | Ip6 "8 word list" | Ip_Other u32

datatype sai_ip_prefix = Prefix4 "8 word list" "8 word list" | Prefix6 "8 word list" "8 word list" | Prefix_Other u32

definition sai_serialize_ipv4 :: "8 word list \<Rightarrow> string" where
  "sai_serialize_ipv4 ip = inet_ntop4 ip"

definition sai_serialize_ipv6 :: "'x text_lib_scheme \<Rightarrow> 8 word list \<Rightarrow> string" where
  "sai_serialize_ipv6 L ip = inet_ntop6 L ip"

definition sai_serialize_ip_address :: "'x text_lib_scheme \<Rightarrow> sai_ip_address \<Rightarrow> fault + string" where
  "sai_serialize_ip_address L ip =
     (case ip of
        Ip4 a \<Rightarrow> Inr (sai_serialize_ipv4 a)
      | Ip6 a \<Rightarrow> Inr (sai_serialize_ipv6 L a)
      | Ip_Other f \<Rightarrow> Inl (Throw ''FATAL: invalid ip address family''))"

definition sai_serialize_ip_prefix :: "'x text_lib_scheme \<Rightarrow> sai_ip_prefix \<Rightarrow> fault + string" where
  "sai_serialize_ip_prefix L p =
     (case p of
        Prefix4 a m \<Rightarrow> bindE (get_ip_mask m False) (\<lambda>n. Inr (sai_serialize_ipv4 a @ ''/'' @ print_nat 10 n))
      | Prefix6 a m \<Rightarrow> bindE (get_ip_mask m True) (\<lambda>n. Inr (sai_serialize_ipv6 L a @ ''/'' @ print_nat 10 n))
      | Prefix_Other f \<Rightarrow> Inl (Throw ''FATAL: invalid ip prefix address family''))"

definition sai_deserialize_ipv4 :: "string \<Rightarrow> fault + 8 word list" where
  "sai_deserialize_ipv4 s = (case inet_pton4 s of None \<Rightarrow> Inl (Throw ''invalid ip address'') | Some a \<Rightarrow> Inr a)"

definition sai_deserialize_ipv6 :: "'x text_lib_scheme \<Rightarrow> string \<Rightarrow> fault + 8 word list" where
  "sai_deserialize_ipv6 L s = (case inet_pton6 L (c_str s) of None \<Rightarrow> Inl (Throw ''invalid ip address'') | Some a \<Rightarrow> Inr a)"

definition sai_deserialize_ip_address :: "'x text_lib_scheme \<Rightarrow> string \<Rightarrow> fault + sai_ip_address" where
  "sai_deserialize_ip_address L s =
     (case inet_pton4 s of
        Some a \<Rightarrow> Inr (Ip4 a)
      | None \<Rightarrow> (case inet_pton6 L (c_str s) of
           Some a \<Rightarrow> Inr (Ip6 a)
         | None \<Rightarrow> Inl (Throw ''invalid ip address'')))"

text \<open>The length of the prefix is read into a byte.\<close>

definition sai_deserialize_ip_prefix :: "'x text_lib_scheme \<Rightarrow> string \<Rightarrow> fault + sai_ip_prefix" where
  "sai_deserialize_ip_prefix L s =
     (case tokenize L s CHR ''/'' of
        [ip, len] \<Rightarrow>
          bindE (sai_deserialize_number False len) (\<lambda>n :: 8 word.
            case inet_pton4 ip of
              Some a \<Rightarrow> bindE (sai_populate_ip_mask (unat n) False) (\<lambda>m. Inr (Prefix4 a m))
            | None \<Rightarrow> (case inet_pton6 L (c_str ip) of
                 Some a \<Rightarrow> bindE (sai_populate_ip_mask (unat n) True) (\<lambda>m. Inr (Prefix6 a m))
               | None \<Rightarrow> Inl (Throw ''invalid ip prefix'')))
      | _ \<Rightarrow> Inl (Throw ''invalid ip prefix''))"

section \<open>Round trips\<close>

definition ip_ok :: "sai_ip_address \<Rightarrow> bool" where
  "ip_ok ip = (case ip of Ip4 a \<Rightarrow> length a = 4 | Ip6 a \<Rightarrow> length a = 16 | Ip_Other f \<Rightarrow> False)"

text \<open>A prefix whose mask is ones followed by zeros.\<close>

definition prefix_ok :: "sai_ip_prefix \<Rightarrow> bool" where
  "prefix_ok p =
     (case p of
        Prefix4 a m \<Rightarrow> length a = 4 \<and> length m = 4 \<and> (\<exists>n \<le> 32. get_ip_mask m False = Inr n)
      | Prefix6 a m \<Rightarrow> length a = 16 \<and> length m = 16 \<and> (\<exists>n \<le> 128. get_ip_mask m True = Inr n)
      | Prefix_Other f \<Rightarrow> False)"

lemma ntop4_chars: "c \<in> set (inet_ntop4 a) \<Longrightarrow> c = CHR ''.'' \<or> (\<exists>d < 10. c = digit_char d)"
proof (unfold inet_ntop4_def, induction a)
  case (Cons b a)
  then show ?case by (cases a) (auto dest: print_nat_digits [of 10, simplified])
qed simp

lemma ntop4_char_plain:
  assumes "c \<in> set (inet_ntop4 a)"
  shows "c \<noteq> CHR '','' \<and> c \<noteq> CHR ''/'' \<and> c \<noteq> CHR ''&'' \<and> c \<noteq> CHR '':'' \<and> c \<noteq> CHR 0x00 \<and> c \<noteq> CHR ''n'' \<and> (of_char c :: nat) < 128"
  using ntop4_chars [OF assms]
proof (elim disjE exE conjE)
  fix d assume "d < (10 :: nat)" "c = digit_char d"
  then show ?thesis using digit_char_plain [of d] ascii_digit_char [of d] by simp
qed simp

lemma ntop4_plain: "CHR '','' \<notin> set (inet_ntop4 a)" "CHR ''/'' \<notin> set (inet_ntop4 a)" "CHR ''&'' \<notin> set (inet_ntop4 a)"
    "CHR '':'' \<notin> set (inet_ntop4 a)" "CHR 0x00 \<notin> set (inet_ntop4 a)"
  by (auto dest: ntop4_char_plain)

lemma ascii_ntop4 [simp]: "ascii (inet_ntop4 a)"
  by (auto simp: ascii_def list_all_iff dest: ntop4_char_plain)

lemma ntop4_nonempty: "length a = 4 \<Longrightarrow> inet_ntop4 a \<noteq> []"
  by (auto simp: inet_ntop4_def numeral_eq_Suc length_Suc_conv print_nat_nonempty')

lemma ip6_char_plain: "ip6_char c \<Longrightarrow> c \<noteq> CHR '','' \<and> c \<noteq> CHR ''/'' \<and> c \<noteq> CHR ''&'' \<and> c \<noteq> CHR 0x00 \<and> (of_char c :: nat) < 128"
  by (auto simp: ip6_char_def hex_digit_def Let_def split: if_splits)

lemma ntop6:
  assumes "inet6_ok L" "length a = 16"
  shows "inet_pton6 L (inet_ntop6 L a) = Some a" "inet_pton4 (inet_ntop6 L a) = None" "inet_ntop6 L a \<noteq> []"
    "CHR '','' \<notin> set (inet_ntop6 L a)" "CHR ''/'' \<notin> set (inet_ntop6 L a)" "CHR ''&'' \<notin> set (inet_ntop6 L a)"
    "CHR 0x00 \<notin> set (inet_ntop6 L a)" "ascii (inet_ntop6 L a)"
proof -
  have h: "inet_pton6 L (inet_ntop6 L a) = Some a" "CHR '':'' \<in> set (inet_ntop6 L a)" "\<forall>c \<in> set (inet_ntop6 L a). ip6_char c"
    using assms by (auto simp: inet6_ok_def list_all_iff)
  show "inet_pton6 L (inet_ntop6 L a) = Some a" by (rule h)
  have "CHR 0x00 \<notin> set (inet_ntop6 L a)" using h(3) by (auto dest: ip6_char_plain)
  then show "inet_pton4 (inet_ntop6 L a) = None" using h(2) by (simp add: inet_pton4_def c_str_id pton4_colon)
  show "inet_ntop6 L a \<noteq> []" using h(2) by auto
  show "CHR '','' \<notin> set (inet_ntop6 L a)" "CHR ''/'' \<notin> set (inet_ntop6 L a)" "CHR ''&'' \<notin> set (inet_ntop6 L a)"
    "CHR 0x00 \<notin> set (inet_ntop6 L a)" "ascii (inet_ntop6 L a)"
    using h(3) by (auto simp: ascii_def list_all_iff dest: ip6_char_plain)
qed

lemma plain_ipv4: "length a = 4 \<Longrightarrow> plain (inet_ntop4 a)"
proof (cases "inet_ntop4 a")
  case (Cons c s)
  have "c \<noteq> CHR ''d'' \<and> c \<noteq> CHR ''n''" using ntop4_chars [of c a] decimal_char Cons by fastforce
  moreover have "ascii (inet_ntop4 a)" "CHR ''&'' \<notin> set (inet_ntop4 a)" by (simp_all add: ntop4_plain)
  ultimately show ?thesis unfolding Cons using plain_start by blast
qed (simp add: ntop4_nonempty)

lemma plain_ipv6: "inet6_ok L \<Longrightarrow> length a = 16 \<Longrightarrow> plain (inet_ntop6 L a)"
  by (rule plain_colon) (simp_all add: ntop6, simp add: inet6_ok_def)

lemma plain_serialize_ip [simp]:
  "length a = 4 \<Longrightarrow> plain (sai_serialize_ipv4 a)" "inet6_ok L \<Longrightarrow> length a = 16 \<Longrightarrow> plain (sai_serialize_ipv6 L a)"
  by (simp_all add: sai_serialize_ipv4_def sai_serialize_ipv6_def plain_ipv4 plain_ipv6)

lemma plain_prefix: "plain a \<Longrightarrow> plain (a @ CHR ''/'' # print_nat 10 n)"
  using print_nat_plain(9) [of 10 "CHR ''&''" n] by (auto simp: plain_def append_eq_Cons_conv)

lemma ipv4_roundtrip: "length a = 4 \<Longrightarrow> sai_deserialize_ipv4 (sai_serialize_ipv4 a) = Inr a"
  by (simp add: sai_deserialize_ipv4_def sai_serialize_ipv4_def pton4_ntop4)

lemma ipv6_roundtrip: "inet6_ok L \<Longrightarrow> length a = 16 \<Longrightarrow> sai_deserialize_ipv6 L (sai_serialize_ipv6 L a) = Inr a"
  by (simp add: sai_deserialize_ipv6_def sai_serialize_ipv6_def ntop6 c_str_id)

lemma ip_address_roundtrip:
  assumes "inet6_ok L" "ip_ok ip"
  obtains s where "sai_serialize_ip_address L ip = Inr s" "sai_deserialize_ip_address L s = Inr ip" "CHR '','' \<notin> set s" "plain s"
proof (cases ip)
  case (Ip4 a)
  with assms that [of "inet_ntop4 a"] show ?thesis
    by (simp add: ip_ok_def sai_serialize_ip_address_def sai_deserialize_ip_address_def sai_serialize_ipv4_def
        pton4_ntop4 ntop4_plain plain_ipv4)
next
  case (Ip6 a)
  with assms that [of "inet_ntop6 L a"] show ?thesis
    by (simp add: ip_ok_def sai_serialize_ip_address_def sai_deserialize_ip_address_def sai_serialize_ipv6_def
        ntop6 c_str_id plain_ipv6)
qed (use assms in \<open>simp add: ip_ok_def\<close>)

lemma number_item:
  assumes "\<And>d. d < 16 \<Longrightarrow> sep \<noteq> digit_char d"
  shows "item sep (print_nat 10 n)"
proof -
  have "sep \<noteq> c" if c: "c \<in> set (print_nat 10 n)" for c
  proof -
    obtain d where "d < 10" "c = digit_char d" using print_nat_digits [of 10 c n] c by auto
    then show ?thesis using assms [of d] by simp
  qed
  then show ?thesis by (auto simp: item_def print_nat_nonempty')
qed

lemma prefix_text:
  assumes "tokens_ok L" "item CHR ''/'' a"
  shows "tokenize L (a @ CHR ''/'' # print_nat 10 n) CHR ''/'' = [a, print_nat 10 n]"
proof -
  have "item CHR ''/'' (print_nat 10 n)" by (rule number_item) (auto dest: digit_char_plain(10))
  with assms tokenize_join [of L "CHR ''/''" "[a, print_nat 10 n]"] show ?thesis by simp
qed

lemma prefix_length: "n \<le> 128 \<Longrightarrow> sai_deserialize_number False (print_nat 10 n) = Inr (of_nat n :: 8 word)"
  "n \<le> 128 \<Longrightarrow> unat (of_nat n :: 8 word) = n"
  by (simp_all add: deserialize_printed unsigned_of_nat take_bit_nat_eq_self)

lemma ip_prefix_roundtrip:
  assumes "tokens_ok L" "inet6_ok L" "prefix_ok p"
  obtains s where "sai_serialize_ip_prefix L p = Inr s" "sai_deserialize_ip_prefix L s = Inr p" "CHR '','' \<notin> set s" "plain s"
proof (cases p)
  case (Prefix4 a m)
  with assms(3) obtain n where n: "length a = 4" "length m = 4" "n \<le> 32" "get_ip_mask m False = Inr n"
    by (auto simp: prefix_ok_def)
  then have m: "sai_populate_ip_mask n False = Inr m" by (intro get_populate) (simp_all add: ip_len_def)
  have "item CHR ''/'' (inet_ntop4 a)" using n by (simp add: item_def ntop4_plain ntop4_nonempty)
  note t = prefix_text [OF assms(1) this]
  from that [of "inet_ntop4 a @ CHR ''/'' # print_nat 10 n"] show ?thesis
    using n m print_nat_plain(7) [of 10 "CHR '',''" n]
    by (auto simp: Prefix4 sai_serialize_ip_prefix_def sai_deserialize_ip_prefix_def sai_serialize_ipv4_def t
        prefix_length pton4_ntop4 ntop4_plain plain_ipv4 plain_prefix)
next
  case (Prefix6 a m)
  with assms(3) obtain n where n: "length a = 16" "length m = 16" "n \<le> 128" "get_ip_mask m True = Inr n"
    by (auto simp: prefix_ok_def)
  then have m: "sai_populate_ip_mask n True = Inr m" by (intro get_populate) (simp_all add: ip_len_def)
  have "item CHR ''/'' (inet_ntop6 L a)" using n assms(2) by (simp add: item_def ntop6)
  note t = prefix_text [OF assms(1) this]
  from that [of "inet_ntop6 L a @ CHR ''/'' # print_nat 10 n"] show ?thesis
    using n m print_nat_plain(7) [of 10 "CHR '',''" n] assms(2)
    by (auto simp: Prefix6 sai_serialize_ip_prefix_def sai_deserialize_ip_prefix_def sai_serialize_ipv6_def t
        prefix_length ntop6 c_str_id plain_ipv6 plain_prefix)
qed (use assms in \<open>simp add: prefix_ok_def\<close>)

text \<open>A mask with a hole is refused.\<close>

lemma prefix_hole_refused:
  "get_ip_mask m False = Inl e \<Longrightarrow> sai_serialize_ip_prefix L (Prefix4 a m) = Inl e"
  "get_ip_mask m True = Inl e \<Longrightarrow> sai_serialize_ip_prefix L (Prefix6 a m) = Inl e"
  by (simp_all add: sai_serialize_ip_prefix_def)

text \<open>A prefix length is read modulo 256, so a length of 264 is taken for 8.\<close>

lemma prefix_length_wraps:
  assumes "tokens_ok L" "length a = 4" "n < 2 ^ 64"
  shows "sai_deserialize_ip_prefix L (inet_ntop4 a @ ''/'' @ print_nat 10 n) =
     bindE (sai_populate_ip_mask (n mod 256) False) (\<lambda>m. Inr (Prefix4 a m))"
proof -
  have "item CHR ''/'' (inet_ntop4 a)" using assms(2) by (simp add: item_def ntop4_plain ntop4_nonempty)
  note t = prefix_text [OF assms(1) this]
  have "sai_deserialize_number False (print_nat 10 n) = Inr (of_nat n :: 8 word)"
    using assms(3) by (simp add: deserialize_printed)
  moreover have "unat (of_nat n :: 8 word) = n mod 256" by (simp add: unsigned_of_nat take_bit_eq_mod)
  ultimately show ?thesis by (simp add: sai_deserialize_ip_prefix_def t pton4_ntop4 assms)
qed

end
