(* ===== verification/Ser_List.thy ===== *)
theory Ser_List
  imports Ser_Ip
begin

text \<open>
  Lists as text in \<open>meta/SaiSerialize.cpp\<close>: the templates \<open>sai_serialize_list\<close> and \<open>sai_deserialize_list\<close> with their
  instances, and lists of ranges, whose items hold the separator. A list that is read with \<open>countOnly\<close>, or as
  \<open>null\<close>, has a null pointer, which the structure had before.
\<close>

section \<open>The templates\<close>

definition sai_serialize_list :: "bool \<Rightarrow> ('a \<Rightarrow> fault + string) \<Rightarrow> 'a sai_list \<Rightarrow> fault + string" where
  "sai_serialize_list countOnly put l =
     (let s = print_nat 10 (list_count l) in
      if countOnly then Inr s
      else (case l of
          Null_List n \<Rightarrow> Inr (s @ '':null'')
        | Sai_List xs \<Rightarrow>
            if xs = [] then Inr (s @ '':null'')
            else bindE (mapE put xs) (\<lambda>ss. Inr (s @ '':'' @ join '','' ss))))"

text \<open>\<open>s.find(c)\<close>: what is before the first occurrence, and after it.\<close>

definition find_split :: "char \<Rightarrow> string \<Rightarrow> (string \<times> string) option" where
  "find_split c s = (if c \<in> set s then Some (takeWhile (\<lambda>d. d \<noteq> c) s, tl (dropWhile (\<lambda>d. d \<noteq> c) s)) else None)"

definition sai_deserialize_list ::
  "'x text_lib_scheme \<Rightarrow> bool \<Rightarrow> (string \<Rightarrow> fault + 'a) \<Rightarrow> string \<Rightarrow> fault + 'a sai_list" where
  "sai_deserialize_list L countOnly get s =
     (if countOnly then bindE (sai_deserialize_number False s) (\<lambda>n :: u32. Inr (Null_List n))
      else (case find_split CHR '':'' s of
          None \<Rightarrow> Inl (Throw ''invalid list'')
        | Some (scount, slist) \<Rightarrow>
            bindE (sai_deserialize_number False scount) (\<lambda>n :: u32.
              if slist = ''null'' then Inr (Null_List n)
              else (let tokens = tokenize L slist CHR '','' in
                if length tokens \<noteq> unat n then Inl (Throw ''invalid list count'')
                else bindE (mapE get tokens) (\<lambda>xs. Inr (Sai_List xs))))))"

text \<open>A list without elements is written like a null pointer.\<close>

definition list_norm :: "'a sai_list \<Rightarrow> 'a sai_list" where
  "list_norm l = (case l of Null_List n \<Rightarrow> Null_List n | Sai_List xs \<Rightarrow> if xs = [] then Null_List 0 else Sai_List xs)"

definition list_all_good :: "('a \<Rightarrow> bool) \<Rightarrow> 'a sai_list \<Rightarrow> bool" where
  "list_all_good good l = (case l of Null_List n \<Rightarrow> True | Sai_List xs \<Rightarrow> length xs < 2 ^ 32 \<and> list_all good xs)"

lemma find_split_append: "c \<notin> set a \<Longrightarrow> find_split c (a @ c # b) = Some (a, b)"
  by (induction a) (auto simp: find_split_def)

lemma deserialize_count: "sai_deserialize_number False (print_nat 10 (unat n)) = Inr (n :: u32)"
  using number_roundtrip [of False n] by (simp add: sai_serialize_number_def)

lemma deserialize_length: "n < 2 ^ 32 \<Longrightarrow> sai_deserialize_number False (print_nat 10 n) = Inr (of_nat n :: u32)"
  by (simp add: deserialize_printed)

lemma unat_length: "n < 2 ^ 32 \<Longrightarrow> unat (of_nat n :: u32) = n"
  by (simp add: unsigned_of_nat take_bit_nat_eq_self)

lemma list_count_range: "list_all_good good l \<Longrightarrow> list_count l < 2 ^ 32"
proof (cases l)
  case (Null_List n)
  then show ?thesis using unsigned_less [of n] by simp
qed (simp add: list_all_good_def)

lemma list_count_only: "sai_serialize_list True put l = Inr (print_nat 10 (list_count l))"
  by (simp add: sai_serialize_list_def)

lemma list_count_roundtrip:
  assumes "list_count l < 2 ^ 32"
  shows "sai_deserialize_list L True get (print_nat 10 (list_count l)) = Inr (Null_List (of_nat (list_count l)))"
  using assms by (simp add: sai_deserialize_list_def deserialize_length)

lemma join_not_null:
  assumes "ss \<noteq> []" "list_all (\<lambda>s. s \<noteq> ''null'') ss"
  shows "join '','' ss \<noteq> ''null''"
proof (cases ss)
  case (Cons s ts)
  show ?thesis
  proof (cases "ts = []")
    case False
    then have "CHR '','' \<in> set (join '','' ss)" by (simp add: Cons join_Cons)
    then show ?thesis by auto
  qed (use assms Cons in simp)
qed (use assms in simp)

lemma plain_list: "list_all plain ss \<Longrightarrow> plain (print_nat 10 n @ CHR '':'' # join '','' ss)"
proof (rule plain_colon)
  assume "list_all plain ss"
  then have "list_all (\<lambda>c. c \<noteq> CHR ''&'') (join '','' ss)"
    by (intro join_chars) (auto simp: list_all_iff plain_def)
  then show "CHR ''&'' \<notin> set (print_nat 10 n @ CHR '':'' # join '','' ss)"
    using print_nat_plain(9) [of 10 "CHR ''&''" n] by (auto simp: list_all_iff)
  show "list_all plain ss \<Longrightarrow> ascii (print_nat 10 n @ CHR '':'' # join '','' ss)"
    by (simp add: ascii_join list_all_iff plain_def)
qed simp

lemma plain_null_list: "plain (print_nat 10 n @ '':null'')"
  using print_nat_plain(9) [of 10 "CHR ''&''" n] by (intro plain_colon) auto

section \<open>The contract of an item\<close>

text \<open>
  What the templates need of the two functions they are given: what is printed for a good item is read back, is not
  empty and holds no comma.
\<close>

locale codec =
  fixes put :: "'a \<Rightarrow> fault + string" and get :: "string \<Rightarrow> fault + 'a" and good :: "'a \<Rightarrow> bool"
  assumes item_roundtrip: "good x \<Longrightarrow> \<exists>s. put x = Inr s \<and> get s = Inr x \<and> CHR '','' \<notin> set s \<and> plain s"
begin

lemma items_roundtrip:
  "list_all good xs \<Longrightarrow> \<exists>ss. mapE put xs = Inr ss \<and> mapE get ss = Inr xs \<and> list_all (item CHR '','') ss \<and> list_all plain ss \<and>
     length ss = length xs"
proof (induction xs)
  case (Cons x xs)
  moreover from Cons.prems item_roundtrip [of x] obtain s where
    "put x = Inr s" "get s = Inr x" "CHR '','' \<notin> set s" "plain s" by auto
  moreover from calculation obtain ss where
    "mapE put xs = Inr ss" "mapE get ss = Inr xs" "list_all (item CHR '','') ss" "list_all plain ss" "length ss = length xs"
    by auto
  ultimately show ?case by (intro exI [of _ "s # ss"]) (simp add: item_def plainD(1))
qed simp

lemma list_roundtrip:
  assumes "tokens_ok L" "list_all_good good l"
  shows "\<exists>s. sai_serialize_list False put l = Inr s \<and> sai_deserialize_list L False get s = Inr (list_norm l) \<and> plain s"
proof (cases l)
  case (Null_List n)
  have "CHR '':'' \<notin> set (print_nat 10 (unat n))" by (auto dest: print_nat_plain(8) [rotated 2])
  from find_split_append [OF this, of "''null''"] Null_List show ?thesis
    by (simp add: sai_serialize_list_def sai_deserialize_list_def list_norm_def deserialize_count plain_null_list [simplified])
next
  case (Sai_List xs)
  let ?n = "print_nat 10 (length xs)"
  have xs: "length xs < 2 ^ 32" "list_all good xs" using assms(2) by (simp_all add: Sai_List list_all_good_def)
  have colon: "CHR '':'' \<notin> set ?n" by (auto dest: print_nat_plain(8) [rotated 2])
  show ?thesis
  proof (cases "xs = []")
    case True
    then show ?thesis using Sai_List find_split_append [OF colon, of "''null''"]
      by (simp add: sai_serialize_list_def sai_deserialize_list_def list_norm_def deserialize_length [of 0, simplified]
          plain_null_list [simplified])
  next
    case False
    from items_roundtrip [OF xs(2)] obtain ss where ss: "mapE put xs = Inr ss" "mapE get ss = Inr xs" "length ss = length xs"
      "list_all (item CHR '','') ss" "list_all plain ss" by blast
    have "ss \<noteq> []" using ss(3) False by auto
    then have "join '','' ss \<noteq> ''null''" using ss(5) by (intro join_not_null) (auto simp: list_all_iff plain_def)
    moreover have "plain (?n @ CHR '':'' # join '','' ss)" using ss(5) by (rule plain_list)
    ultimately show ?thesis
      using ss False xs(1) Sai_List find_split_append [OF colon, of "join '','' ss"] tokenize_join [OF assms(1) ss(4)]
      by (simp add: sai_serialize_list_def sai_deserialize_list_def list_norm_def deserialize_length unat_length Let_def)
  qed
qed

end

section \<open>Instances\<close>

definition sai_serialize_number_list :: "'a::len word sai_list \<Rightarrow> bool \<Rightarrow> bool \<Rightarrow> fault + string" where
  "sai_serialize_number_list l countOnly hex = sai_serialize_list countOnly (\<lambda>w. Inr (sai_serialize_number hex w)) l"

definition sai_serialize_signed_list :: "'a::len word sai_list \<Rightarrow> bool \<Rightarrow> bool \<Rightarrow> fault + string" where
  "sai_serialize_signed_list l countOnly hex = sai_serialize_list countOnly (\<lambda>w. Inr (sai_serialize_signed hex w)) l"

definition sai_deserialize_number_list ::
  "'x text_lib_scheme \<Rightarrow> string \<Rightarrow> bool \<Rightarrow> bool \<Rightarrow> fault + 'a::len word sai_list" where
  "sai_deserialize_number_list L s countOnly hex = sai_deserialize_list L countOnly (sai_deserialize_number hex) s"

definition sai_serialize_oid_list :: "oid sai_list \<Rightarrow> bool \<Rightarrow> fault + string" where
  "sai_serialize_oid_list l countOnly = sai_serialize_list countOnly (\<lambda>oid. Inr (sai_serialize_object_id oid)) l"

definition sai_deserialize_oid_list :: "'x text_lib_scheme \<Rightarrow> string \<Rightarrow> bool \<Rightarrow> fault + oid sai_list" where
  "sai_deserialize_oid_list L s countOnly = sai_deserialize_list L countOnly sai_deserialize_object_id s"

definition sai_serialize_enum_list :: "32 word sai_list \<Rightarrow> enum_md option \<Rightarrow> bool \<Rightarrow> fault + string" where
  "sai_serialize_enum_list l meta countOnly = sai_serialize_list countOnly (\<lambda>w. sai_serialize_enum w meta) l"

definition sai_deserialize_enum_list ::
  "'x text_lib_scheme \<Rightarrow> string \<Rightarrow> enum_md option \<Rightarrow> bool \<Rightarrow> fault + 32 word sai_list" where
  "sai_deserialize_enum_list L s meta countOnly = sai_deserialize_list L countOnly (\<lambda>t. sai_deserialize_enum L t meta) s"

definition sai_serialize_ip_address_list :: "'x text_lib_scheme \<Rightarrow> sai_ip_address sai_list \<Rightarrow> bool \<Rightarrow> fault + string" where
  "sai_serialize_ip_address_list L l countOnly = sai_serialize_list countOnly (sai_serialize_ip_address L) l"

definition sai_deserialize_ip_address_list ::
  "'x text_lib_scheme \<Rightarrow> string \<Rightarrow> bool \<Rightarrow> fault + sai_ip_address sai_list" where
  "sai_deserialize_ip_address_list L s countOnly = sai_deserialize_list L countOnly (sai_deserialize_ip_address L) s"

definition sai_serialize_ip_prefix_list :: "'x text_lib_scheme \<Rightarrow> sai_ip_prefix sai_list \<Rightarrow> bool \<Rightarrow> fault + string" where
  "sai_serialize_ip_prefix_list L l countOnly = sai_serialize_list countOnly (sai_serialize_ip_prefix L) l"

definition sai_deserialize_ip_prefix_list ::
  "'x text_lib_scheme \<Rightarrow> string \<Rightarrow> bool \<Rightarrow> fault + sai_ip_prefix sai_list" where
  "sai_deserialize_ip_prefix_list L s countOnly = sai_deserialize_list L countOnly (sai_deserialize_ip_prefix L) s"

text \<open>Two further functions have the text of the templates with IPv6 addresses as items.\<close>

definition sai_serialize_segment_list :: "'x text_lib_scheme \<Rightarrow> 8 word list sai_list \<Rightarrow> bool \<Rightarrow> fault + string" where
  "sai_serialize_segment_list L l countOnly = sai_serialize_list countOnly (\<lambda>a. Inr (sai_serialize_ipv6 L a)) l"

definition sai_deserialize_segment_list ::
  "'x text_lib_scheme \<Rightarrow> string \<Rightarrow> bool \<Rightarrow> fault + 8 word list sai_list" where
  "sai_deserialize_segment_list L s countOnly = sai_deserialize_list L countOnly (sai_deserialize_ipv6 L) s"

subsection \<open>The items keep the contract\<close>

lemma printed_number_item:
  "CHR '','' \<notin> set (sai_serialize_number hex w)" "CHR '','' \<notin> set (sai_serialize_signed hex w)"
  "sai_serialize_number hex w \<noteq> []" "sai_serialize_signed hex w \<noteq> []"
  by (auto simp: sai_serialize_number_def sai_serialize_signed_def print_int_def print_nat_nonempty'
      dest: print_nat_plain(7) [rotated 2])

interpretation num: codec "\<lambda>w :: 'a::len word. Inr (sai_serialize_number hex w)" "sai_deserialize_number hex" "\<lambda>w. LENGTH('a) \<le> 64"
  for hex
  by unfold_locales (simp add: number_roundtrip printed_number_item)

interpretation snum: codec "\<lambda>w :: 'a::len word. Inr (sai_serialize_signed hex w)" "sai_deserialize_number hex" "\<lambda>w. LENGTH('a) \<le> 64"
  for hex
  by unfold_locales (simp add: signed_roundtrip printed_number_item)

interpretation oids: codec "\<lambda>oid. Inr (sai_serialize_object_id oid)" sai_deserialize_object_id "\<lambda>oid. True"
proof unfold_locales
  fix oid :: oid
  have "CHR '','' \<notin> set (print_nat 16 (unat oid))" by (auto dest: print_nat_plain(7) [rotated 2])
  then show "\<exists>s. Inr (sai_serialize_object_id oid) = Inr s \<and> sai_deserialize_object_id s = Inr oid \<and> CHR '','' \<notin> set s \<and> plain s"
    by (simp add: object_id_roundtrip) (simp add: sai_serialize_object_id_def)
qed

interpretation enums: codec "\<lambda>w. sai_serialize_enum w meta" "\<lambda>t. sai_deserialize_enum L t meta"
  "\<lambda>w. tokens_ok L \<and> (\<forall>md. meta = Some md \<longrightarrow> enum_ok md)" for L :: "'x text_lib_scheme" and meta
proof unfold_locales
  fix w assume ok: "tokens_ok L \<and> (\<forall>md. meta = Some md \<longrightarrow> enum_ok md)"
  then obtain s where s: "sai_serialize_enum w meta = Inr s" "sai_deserialize_enum L s meta = Inr w"
    using enum_roundtrip [of L meta w] by blast
  have "enum_text s" using ok s(1) by (intro enum_printed) auto
  with s show "\<exists>s. sai_serialize_enum w meta = Inr s \<and> sai_deserialize_enum L s meta = Inr w \<and> CHR '','' \<notin> set s \<and> plain s"
    by (auto dest: enum_textD)
qed

interpretation ips: codec "sai_serialize_ip_address L" "sai_deserialize_ip_address L" "\<lambda>ip. inet6_ok L \<and> ip_ok ip"
  for L :: "'x text_lib_scheme"
  by unfold_locales (blast elim: ip_address_roundtrip)

interpretation prefixes: codec "sai_serialize_ip_prefix L" "sai_deserialize_ip_prefix L"
  "\<lambda>p. tokens_ok L \<and> inet6_ok L \<and> prefix_ok p" for L :: "'x text_lib_scheme"
  by unfold_locales (blast elim: ip_prefix_roundtrip)

interpretation segments: codec "\<lambda>a. Inr (sai_serialize_ipv6 L a)" "sai_deserialize_ipv6 L" "\<lambda>a. inet6_ok L \<and> length a = 16"
  for L :: "'x text_lib_scheme"
  by unfold_locales (simp add: ipv6_roundtrip, simp add: sai_serialize_ipv6_def ntop6 plain_ipv6)

section \<open>Ranges\<close>

text \<open>\<open>sai_u16_range_t\<close> and the like: a pair.\<close>

definition sai_serialize_range :: "'a::len word \<times> 'a word \<Rightarrow> string" where
  "sai_serialize_range r = sai_serialize_number False (fst r) @ '','' @ sai_serialize_number False (snd r)"

definition sai_deserialize_range :: "'x text_lib_scheme \<Rightarrow> string \<Rightarrow> fault + 'a::len word \<times> 'a word" where
  "sai_deserialize_range L s =
     (case tokenize L s CHR '','' of
        [a, b] \<Rightarrow>
          bindE (sai_deserialize_number False a) (\<lambda>lo. bindE (sai_deserialize_number False b) (\<lambda>hi. Inr (lo, hi)))
      | _ \<Rightarrow> Inl (Throw ''invalid range''))"

definition sai_serialize_range_list :: "('a::len word \<times> 'a word) sai_list \<Rightarrow> bool \<Rightarrow> fault + string" where
  "sai_serialize_range_list l countOnly = sai_serialize_list countOnly (\<lambda>r. Inr (sai_serialize_range r)) l"

text \<open>
  Pairs of tokens are put together again and read as ranges. The number of tokens is compared with \<open>list.count * 2\<close> at
  32 bits; when the product wraps, elements of the new array are not written.
\<close>

fun range_items :: "'x text_lib_scheme \<Rightarrow> string list \<Rightarrow> fault + ('a::len word \<times> 'a word) list" where
  "range_items L (a # b # ts) =
     bindE (sai_deserialize_range L (a @ '','' @ b)) (\<lambda>r. bindE (range_items L ts) (\<lambda>rs. Inr (r # rs)))"
| "range_items L ts = Inr []"

definition sai_deserialize_range_list ::
  "'x text_lib_scheme \<Rightarrow> string \<Rightarrow> bool \<Rightarrow> fault + ('a::len word \<times> 'a word) sai_list" where
  "sai_deserialize_range_list L s countOnly =
     (if countOnly then bindE (sai_deserialize_number False s) (\<lambda>n :: u32. Inr (Null_List n))
      else (case find_split CHR '':'' s of
          None \<Rightarrow> Inl (Throw ''invalid list'')
        | Some (scount, slist) \<Rightarrow>
            bindE (sai_deserialize_number False scount) (\<lambda>n :: u32.
              if slist = ''null'' then Inr (Null_List n)
              else (let tokens = tokenize L slist CHR '','' in
                if length tokens \<noteq> unat (n * 2) then Inl (Throw ''invalid range_list count'')
                else bindE (range_items L tokens) (\<lambda>rs.
                  if unat n = length rs then Inr (Sai_List rs)
                  else Inl (Null_Deref ''list elements that were never written''))))))"

definition range_tokens :: "'a::len word \<times> 'a word \<Rightarrow> string list" where
  "range_tokens r = [sai_serialize_number False (fst r), sai_serialize_number False (snd r)]"

lemma range_tokens_item: "list_all (item CHR '','') (range_tokens r)" "list_all plain (range_tokens r)"
  by (simp_all add: range_tokens_def item_def printed_number_item)

lemma serialize_range_join: "sai_serialize_range r = join '','' (range_tokens r)"
  by (simp add: sai_serialize_range_def range_tokens_def)

lemma range_roundtrip:
  fixes r :: "'a::len word \<times> 'a word"
  assumes "tokens_ok L" "LENGTH('a) \<le> 64"
  shows "sai_deserialize_range L (sai_serialize_range r) = Inr r"
  using tokenize_join [OF assms(1) range_tokens_item(1), of r] assms(2)
  by (simp add: sai_deserialize_range_def serialize_range_join) (simp add: range_tokens_def number_roundtrip)

lemma range_items_tokens:
  fixes rs :: "('a::len word \<times> 'a word) list"
  assumes "tokens_ok L" "LENGTH('a) \<le> 64"
  shows "range_items L (concat (map range_tokens rs)) = Inr rs"
proof (induction rs)
  case (Cons r rs)
  with range_roundtrip [OF assms, of r] show ?case by (simp add: range_tokens_def sai_serialize_range_def)
qed simp

lemma join_concat_ranges: "join '','' (map sai_serialize_range rs) = join '','' (concat (map range_tokens rs))"
proof (induction rs)
  case (Cons r rs)
  then show ?case by (cases rs) (simp_all add: serialize_range_join join_Cons join_append range_tokens_def)
qed simp

lemma mapE_total: "mapE (\<lambda>x. Inr (f x)) xs = Inr (map f xs)"
  by (induction xs) auto

lemma range_list_roundtrip:
  fixes l :: "('a::len word \<times> 'a word) sai_list"
  assumes "tokens_ok L" "LENGTH('a) \<le> 64" "list_count l < 2 ^ 31" 
  shows "\<exists>s. sai_serialize_range_list l False = Inr s \<and> sai_deserialize_range_list L s False = Inr (list_norm l) \<and> plain s"
proof (cases l)
  case (Null_List n)
  have "CHR '':'' \<notin> set (print_nat 10 (unat n))" by (auto dest: print_nat_plain(8) [rotated 2])
  from find_split_append [OF this, of "''null''"] Null_List show ?thesis
    by (simp add: sai_serialize_range_list_def sai_serialize_list_def sai_deserialize_range_list_def list_norm_def deserialize_count plain_null_list [simplified])
next
  case (Sai_List rs)
  let ?n = "print_nat 10 (length rs)" and ?ts = "concat (map range_tokens rs)"
  have colon: "CHR '':'' \<notin> set ?n" by (auto dest: print_nat_plain(8) [rotated 2])
  have n: "length rs < 2 ^ 31" using assms(3) Sai_List by simp
  show ?thesis
  proof (cases "rs = []")
    case True
    then show ?thesis using Sai_List find_split_append [OF colon, of "''null''"]
      by (simp add: sai_serialize_range_list_def sai_serialize_list_def sai_deserialize_range_list_def list_norm_def
          deserialize_length [of 0, simplified] plain_null_list [simplified])
  next
    case False
    have items: "list_all (item CHR '','') ?ts" "list_all plain ?ts"
      by (induction rs) (simp_all add: range_tokens_item)
    have "?ts \<noteq> []" using False by (cases rs) (simp_all add: range_tokens_def)
    moreover have "list_all (\<lambda>s. s \<noteq> ''null'') ?ts"
      using items(2) by (auto simp: list_all_iff plain_def)
    ultimately have "join '','' ?ts \<noteq> ''null''" by (rule join_not_null)
    moreover have "length ?ts = 2 * length rs" by (induction rs) (simp_all add: range_tokens_def)
    moreover have "unat (of_nat (length rs) * 2 :: u32) = 2 * length rs"
      using n by (simp add: unat_word_ariths unat_length)
    moreover have "plain (?n @ CHR '':'' # join '','' ?ts)" using items(2) by (rule plain_list)
    ultimately show ?thesis
      using False n Sai_List find_split_append [OF colon, of "join '','' ?ts"] tokenize_join [OF assms(1) items(1)]
      by (simp add: sai_serialize_range_list_def sai_serialize_list_def sai_deserialize_range_list_def list_norm_def mapE_total
          join_concat_ranges deserialize_length unat_length range_items_tokens [OF assms(1,2)] Let_def)
  qed
qed

end
