(* ===== verification/Ser_Acl.thy ===== *)
theory Ser_Acl
  imports Ser_List
begin

text \<open>
  Fields, actions and capabilities of access control lists as text in \<open>meta/SaiSerialize.cpp\<close>. A field or action that
  is not enabled is \<open>None\<close>: its data are neither printed nor read.
\<close>

section \<open>Data\<close>

text \<open>The suffix of \<open>SAI_ATTR_VALUE_TYPE_ACL_FIELD_DATA_*\<close> and \<open>SAI_ATTR_VALUE_TYPE_ACL_ACTION_DATA_*\<close>.\<close>

datatype acl_suffix =
    AS_BOOL | AS_UINT8 | AS_INT8 | AS_UINT16 | AS_INT16 | AS_UINT32 | AS_INT32 | AS_UINT64
  | AS_MAC | AS_IPV4 | AS_IPV6 | AS_IP_ADDRESS | AS_OBJECT_ID | AS_OBJECT_LIST | AS_UINT8_LIST

text \<open>The member of the unions of data and mask, and of the union of parameters, that the type selects.\<close>

datatype field_data =
    FD_bool bool
  | FD_u8 "8 word" "8 word"
  | FD_u16 "16 word" "16 word"
  | FD_u32 u32 u32
  | FD_s32 "32 word" "32 word"
  | FD_u64 u64 u64
  | FD_mac "8 word list" "8 word list"
  | FD_ip4 "8 word list" "8 word list"
  | FD_ip6 "8 word list" "8 word list"
  | FD_oid oid
  | FD_objlist "oid sai_list"
  | FD_u8list "8 word sai_list" "8 word sai_list"

datatype action_data =
    AC_bool bool
  | AC_u8 "8 word"
  | AC_u16 "16 word"
  | AC_u32 u32
  | AC_s32 "32 word"
  | AC_mac "8 word list"
  | AC_ip4 "8 word list"
  | AC_ip6 "8 word list"
  | AC_ipaddr sai_ip_address
  | AC_oid oid
  | AC_objlist "oid sai_list"

fun field_suffix :: "field_data \<Rightarrow> acl_suffix" where
  "field_suffix (FD_bool b) = AS_BOOL"
| "field_suffix (FD_u8 d m) = AS_UINT8"
| "field_suffix (FD_u16 d m) = AS_UINT16"
| "field_suffix (FD_u32 d m) = AS_UINT32"
| "field_suffix (FD_s32 d m) = AS_INT32"
| "field_suffix (FD_u64 d m) = AS_UINT64"
| "field_suffix (FD_mac d m) = AS_MAC"
| "field_suffix (FD_ip4 d m) = AS_IPV4"
| "field_suffix (FD_ip6 d m) = AS_IPV6"
| "field_suffix (FD_oid d) = AS_OBJECT_ID"
| "field_suffix (FD_objlist d) = AS_OBJECT_LIST"
| "field_suffix (FD_u8list d m) = AS_UINT8_LIST"

fun action_suffix :: "action_data \<Rightarrow> acl_suffix" where
  "action_suffix (AC_bool b) = AS_BOOL"
| "action_suffix (AC_u8 d) = AS_UINT8"
| "action_suffix (AC_u16 d) = AS_UINT16"
| "action_suffix (AC_u32 d) = AS_UINT32"
| "action_suffix (AC_s32 d) = AS_INT32"
| "action_suffix (AC_mac d) = AS_MAC"
| "action_suffix (AC_ip4 d) = AS_IPV4"
| "action_suffix (AC_ip6 d) = AS_IPV6"
| "action_suffix (AC_ipaddr d) = AS_IP_ADDRESS"
| "action_suffix (AC_oid d) = AS_OBJECT_ID"
| "action_suffix (AC_objlist d) = AS_OBJECT_LIST"

section \<open>Printing\<close>

definition and_mask :: "fault + string \<Rightarrow> fault + string \<Rightarrow> fault + string" where
  "and_mask d m = bindE d (\<lambda>sd. bindE m (\<lambda>sm. Inr (sd @ ''&mask:'' @ sm)))"

text \<open>The type of the metadata is that of the value; \<open>enummetadata\<close> is used for \<open>INT32\<close>.\<close>

definition sai_serialize_acl_field ::
  "'x text_lib_scheme \<Rightarrow> enum_md option \<Rightarrow> field_data option \<Rightarrow> bool \<Rightarrow> fault + string" where
  "sai_serialize_acl_field L meta field countOnly =
     (case field of None \<Rightarrow> Inr ''disabled''
      | Some fd \<Rightarrow> (case fd of
          FD_bool b \<Rightarrow> Inr (sai_serialize_bool b)
        | FD_u8 d m \<Rightarrow> and_mask (Inr (sai_serialize_number False d)) (Inr (sai_serialize_number True m))
        | FD_u16 d m \<Rightarrow> and_mask (Inr (sai_serialize_number False d)) (Inr (sai_serialize_number True m))
        | FD_u32 d m \<Rightarrow> and_mask (Inr (sai_serialize_number False d)) (Inr (sai_serialize_number True m))
        | FD_s32 d m \<Rightarrow> and_mask (sai_serialize_enum d meta) (Inr (sai_serialize_signed True m))
        | FD_u64 d m \<Rightarrow> and_mask (Inr (sai_serialize_number False d)) (Inr (sai_serialize_number True m))
        | FD_mac d m \<Rightarrow> and_mask (Inr (sai_serialize_mac d)) (Inr (sai_serialize_mac m))
        | FD_ip4 d m \<Rightarrow> and_mask (Inr (sai_serialize_ipv4 d)) (Inr (sai_serialize_ipv4 m))
        | FD_ip6 d m \<Rightarrow> and_mask (Inr (sai_serialize_ipv6 L d)) (Inr (sai_serialize_ipv6 L m))
        | FD_oid d \<Rightarrow> Inr (sai_serialize_object_id d)
        | FD_objlist d \<Rightarrow> sai_serialize_oid_list d countOnly
        | FD_u8list d m \<Rightarrow>
            and_mask (sai_serialize_number_list d countOnly False) (sai_serialize_number_list m countOnly True)))"

definition sai_serialize_acl_action ::
  "'x text_lib_scheme \<Rightarrow> enum_md option \<Rightarrow> action_data option \<Rightarrow> bool \<Rightarrow> fault + string" where
  "sai_serialize_acl_action L meta action countOnly =
     (case action of None \<Rightarrow> Inr ''disabled''
      | Some ad \<Rightarrow> (case ad of
          AC_bool b \<Rightarrow> Inr (sai_serialize_bool b)
        | AC_u8 d \<Rightarrow> Inr (sai_serialize_number False d)
        | AC_u16 d \<Rightarrow> Inr (sai_serialize_number False d)
        | AC_u32 d \<Rightarrow> Inr (sai_serialize_number False d)
        | AC_s32 d \<Rightarrow> sai_serialize_enum d meta
        | AC_mac d \<Rightarrow> Inr (sai_serialize_mac d)
        | AC_ip4 d \<Rightarrow> Inr (sai_serialize_ipv4 d)
        | AC_ip6 d \<Rightarrow> Inr (sai_serialize_ipv6 L d)
        | AC_ipaddr d \<Rightarrow> sai_serialize_ip_address L d
        | AC_oid d \<Rightarrow> Inr (sai_serialize_object_id d)
        | AC_objlist d \<Rightarrow> sai_serialize_oid_list d countOnly))"

text \<open>\<open>sai_acl_capability_t\<close>: whether the list is mandatory on create, and the list of actions.\<close>

definition sai_serialize_acl_capability ::
  "'x text_lib_scheme \<Rightarrow> bool \<times> 32 word sai_list \<Rightarrow> bool \<Rightarrow> fault + string" where
  "sai_serialize_acl_capability L cap countOnly =
     bindE (sai_serialize_enum_list (snd cap) (Some (enum_table L EN_acl_action_type)) countOnly) (\<lambda>list.
       Inr (sai_serialize_bool (fst cap) @ '':'' @ list))"

section \<open>Reading\<close>

text \<open>\<open>s.find(sub)\<close>: what is before the first occurrence, and after it.\<close>

fun find_text :: "string \<Rightarrow> string \<Rightarrow> (string \<times> string) option" where
  "find_text sub [] = (if sub = [] then Some ([], []) else None)"
| "find_text sub (c # cs) =
     (if take (length sub) (c # cs) = sub then Some ([], drop (length sub) (c # cs))
      else map_option (\<lambda>(a, b). (c # a, b)) (find_text sub cs))"

definition sai_deserialize_acl_field ::
  "'x text_lib_scheme \<Rightarrow> acl_suffix \<Rightarrow> enum_md option \<Rightarrow> string \<Rightarrow> bool \<Rightarrow> fault + field_data option" where
  "sai_deserialize_acl_field L ty meta s countOnly =
     (if s = ''disabled'' then Inr None
      else (case (case find_text ''&mask:'' s of None \<Rightarrow> (s, []) | Some p \<Rightarrow> p) of (sfield, smask) \<Rightarrow>
        (case ty of
           AS_BOOL \<Rightarrow> bindE (sai_deserialize_bool sfield) (\<lambda>b. Inr (Some (FD_bool b)))
         | AS_UINT8 \<Rightarrow> bindE (sai_deserialize_number False sfield) (\<lambda>d.
             bindE (sai_deserialize_number True smask) (\<lambda>m. Inr (Some (FD_u8 d m))))
         | AS_UINT16 \<Rightarrow> bindE (sai_deserialize_number False sfield) (\<lambda>d.
             bindE (sai_deserialize_number True smask) (\<lambda>m. Inr (Some (FD_u16 d m))))
         | AS_UINT32 \<Rightarrow> bindE (sai_deserialize_number False sfield) (\<lambda>d.
             bindE (sai_deserialize_number True smask) (\<lambda>m. Inr (Some (FD_u32 d m))))
         | AS_INT32 \<Rightarrow> bindE (sai_deserialize_enum L sfield meta) (\<lambda>d.
             bindE (sai_deserialize_number True smask) (\<lambda>m. Inr (Some (FD_s32 d m))))
         | AS_UINT64 \<Rightarrow> bindE (sai_deserialize_number False sfield) (\<lambda>d.
             bindE (sai_deserialize_number True smask) (\<lambda>m. Inr (Some (FD_u64 d m))))
         | AS_MAC \<Rightarrow> bindE (sai_deserialize_mac sfield) (\<lambda>d.
             bindE (sai_deserialize_mac smask) (\<lambda>m. Inr (Some (FD_mac d m))))
         | AS_IPV4 \<Rightarrow> bindE (sai_deserialize_ipv4 sfield) (\<lambda>d.
             bindE (sai_deserialize_ipv4 smask) (\<lambda>m. Inr (Some (FD_ip4 d m))))
         | AS_IPV6 \<Rightarrow> bindE (sai_deserialize_ipv6 L sfield) (\<lambda>d.
             bindE (sai_deserialize_ipv6 L smask) (\<lambda>m. Inr (Some (FD_ip6 d m))))
         | AS_OBJECT_ID \<Rightarrow> bindE (sai_deserialize_object_id sfield) (\<lambda>d. Inr (Some (FD_oid d)))
         | AS_OBJECT_LIST \<Rightarrow> bindE (sai_deserialize_oid_list L sfield countOnly) (\<lambda>d. Inr (Some (FD_objlist d)))
         | AS_UINT8_LIST \<Rightarrow> bindE (sai_deserialize_number_list L sfield countOnly False) (\<lambda>d.
             bindE (sai_deserialize_number_list L smask countOnly True) (\<lambda>m. Inr (Some (FD_u8list d m))))
         | _ \<Rightarrow> Inl (Throw ''sai attr value is not implemented, FIXME''))))"

definition sai_deserialize_acl_action ::
  "'x text_lib_scheme \<Rightarrow> acl_suffix \<Rightarrow> enum_md option \<Rightarrow> string \<Rightarrow> bool \<Rightarrow> fault + action_data option" where
  "sai_deserialize_acl_action L ty meta s countOnly =
     (if s = ''disabled'' then Inr None
      else (case ty of
          AS_BOOL \<Rightarrow> bindE (sai_deserialize_bool s) (\<lambda>b. Inr (Some (AC_bool b)))
        | AS_UINT8 \<Rightarrow> bindE (sai_deserialize_number False s) (\<lambda>d. Inr (Some (AC_u8 d)))
        | AS_UINT16 \<Rightarrow> bindE (sai_deserialize_number False s) (\<lambda>d. Inr (Some (AC_u16 d)))
        | AS_UINT32 \<Rightarrow> bindE (sai_deserialize_number False s) (\<lambda>d. Inr (Some (AC_u32 d)))
        | AS_INT32 \<Rightarrow> bindE (sai_deserialize_enum L s meta) (\<lambda>d. Inr (Some (AC_s32 d)))
        | AS_MAC \<Rightarrow> bindE (sai_deserialize_mac s) (\<lambda>d. Inr (Some (AC_mac d)))
        | AS_IPV4 \<Rightarrow> bindE (sai_deserialize_ipv4 s) (\<lambda>d. Inr (Some (AC_ip4 d)))
        | AS_IPV6 \<Rightarrow> bindE (sai_deserialize_ipv6 L s) (\<lambda>d. Inr (Some (AC_ip6 d)))
        | AS_OBJECT_ID \<Rightarrow> bindE (sai_deserialize_object_id s) (\<lambda>d. Inr (Some (AC_oid d)))
        | AS_OBJECT_LIST \<Rightarrow> bindE (sai_deserialize_oid_list L s countOnly) (\<lambda>d. Inr (Some (AC_objlist d)))
        | AS_IP_ADDRESS \<Rightarrow> bindE (sai_deserialize_ip_address L s) (\<lambda>d. Inr (Some (AC_ipaddr d)))
        | _ \<Rightarrow> Inl (Throw ''sai attr value is not implemented, FIXME'')))"

text \<open>The list of a capability is read with its elements, whatever was printed.\<close>

definition sai_deserialize_acl_capability :: "'x text_lib_scheme \<Rightarrow> string \<Rightarrow> fault + bool \<times> 32 word sai_list" where
  "sai_deserialize_acl_capability L s =
     (case find_split CHR '':'' s of
        None \<Rightarrow> Inl (Throw ''Invalid acl capability'')
      | Some (mandatory, list) \<Rightarrow>
          bindE (sai_deserialize_bool mandatory) (\<lambda>b.
            bindE (sai_deserialize_enum_list L list (Some (enum_table L EN_acl_action_type)) False) (\<lambda>l. Inr (b, l))))"

section \<open>Round trips\<close>

lemma find_text_append: "CHR ''&'' \<notin> set a \<Longrightarrow> find_text ''&mask:'' (a @ ''&mask:'' @ b) = Some (a, b)"
  by (induction a) auto

lemma find_text_none: "CHR ''&'' \<notin> set a \<Longrightarrow> find_text ''&mask:'' a = None"
  by (induction a) auto

text \<open>Values the types of the SAI headers admit: six bytes of a MAC address, four and sixteen of an IP address.\<close>

definition field_ok :: "field_data \<Rightarrow> bool" where
  "field_ok fd =
     (case fd of
        FD_mac d m \<Rightarrow> length d = 6 \<and> length m = 6
      | FD_ip4 d m \<Rightarrow> length d = 4 \<and> length m = 4
      | FD_ip6 d m \<Rightarrow> length d = 16 \<and> length m = 16
      | FD_objlist l \<Rightarrow> list_count l < 2 ^ 32
      | FD_u8list d m \<Rightarrow> list_count d < 2 ^ 32 \<and> list_count m < 2 ^ 32
      | _ \<Rightarrow> True)"

definition action_ok :: "action_data \<Rightarrow> bool" where
  "action_ok ad =
     (case ad of
        AC_mac d \<Rightarrow> length d = 6
      | AC_ip4 d \<Rightarrow> length d = 4
      | AC_ip6 d \<Rightarrow> length d = 16
      | AC_ipaddr d \<Rightarrow> ip_ok d
      | AC_objlist l \<Rightarrow> list_count l < 2 ^ 32
      | _ \<Rightarrow> True)"

definition field_norm :: "field_data \<Rightarrow> field_data" where
  "field_norm fd = (case fd of FD_objlist l \<Rightarrow> FD_objlist (list_norm l) | FD_u8list d m \<Rightarrow> FD_u8list (list_norm d) (list_norm m) | _ \<Rightarrow> fd)"

definition action_norm :: "action_data \<Rightarrow> action_data" where
  "action_norm ad = (case ad of AC_objlist l \<Rightarrow> AC_objlist (list_norm l) | _ \<Rightarrow> ad)"

text \<open>What is printed for the parts, with the reading of it.\<close>

lemma list_all_good_True: "list_count l < 4294967296 \<Longrightarrow> list_all_good (\<lambda>w. True) l"
  by (cases l) (simp_all add: list_all_good_def list_all_iff)

lemma number_list_roundtrip:
  fixes l :: "'a::len word sai_list"
  assumes "tokens_ok L" "LENGTH('a) \<le> 64" "list_count l < 2 ^ 32"
  obtains s where "sai_serialize_number_list l False hex = Inr s"
    "sai_deserialize_number_list L s False hex = Inr (list_norm l)" "plain s"
  using num.list_roundtrip [OF assms(1), of l hex] assms(2,3)
  by (auto simp: sai_serialize_number_list_def sai_deserialize_number_list_def list_all_good_True)

lemma signed_list_roundtrip:
  fixes l :: "'a::len word sai_list"
  assumes "tokens_ok L" "LENGTH('a) \<le> 64" "list_count l < 2 ^ 32"
  obtains s where "sai_serialize_signed_list l False hex = Inr s"
    "sai_deserialize_number_list L s False hex = Inr (list_norm l)" "plain s"
  using snum.list_roundtrip [OF assms(1), of l hex] assms(2,3)
  by (auto simp: sai_serialize_signed_list_def sai_deserialize_number_list_def list_all_good_True)

lemma oid_list_roundtrip:
  assumes "tokens_ok L" "list_count l < 2 ^ 32"
  obtains s where "sai_serialize_oid_list l False = Inr s" "sai_deserialize_oid_list L s False = Inr (list_norm l)" "plain s"
  using oids.list_roundtrip [OF assms(1), of l] assms(2)
  by (cases l) (auto simp: sai_serialize_oid_list_def sai_deserialize_oid_list_def list_all_good_def list_all_iff)

lemma enum_list_roundtrip:
  assumes "tokens_ok L" "list_count l < 2 ^ 32" "\<And>md. meta = Some md \<Longrightarrow> enum_ok md"
  obtains s where "sai_serialize_enum_list l meta False = Inr s" "sai_deserialize_enum_list L s meta False = Inr (list_norm l)" "plain s"
  using enums.list_roundtrip [OF assms(1), where l = l and meta = meta] assms
  by (cases l) (auto simp: sai_serialize_enum_list_def sai_deserialize_enum_list_def list_all_good_def list_all_iff)

lemma enum_reads:
  assumes "tokens_ok L" "\<And>md. meta = Some md \<Longrightarrow> enum_ok md"
  obtains s where "sai_serialize_enum w meta = Inr s" "sai_deserialize_enum L s meta = Inr w" "plain s" "CHR '':'' \<notin> set s"
  using enum_roundtrip [OF assms, of meta w] enum_printed [OF assms(2), of meta w] by (auto dest: enum_textD)

lemma field_with_mask:
  assumes "plain d"
  shows "find_text ''&mask:'' (d @ ''&mask:'' @ m) = Some (d, m)" "d @ ''&mask:'' @ m \<noteq> ''disabled''"
proof -
  show "find_text ''&mask:'' (d @ ''&mask:'' @ m) = Some (d, m)" using assms by (intro find_text_append) (simp add: plainD)
  have "CHR ''&'' \<in> set (d @ ''&mask:'' @ m)" by simp
  moreover have "CHR ''&'' \<notin> set ''disabled''" by simp
  ultimately show "d @ ''&mask:'' @ m \<noteq> ''disabled''" by metis
qed

lemma field_without_mask: "plain d \<Longrightarrow> find_text ''&mask:'' d = None"
  by (simp add: find_text_none plainD)

lemma acl_field_roundtrip:
  assumes "text_lib_ok L" "\<And>md. meta = Some md \<Longrightarrow> enum_ok md" "field_ok fd"
  shows "\<exists>s. sai_serialize_acl_field L meta (Some fd) False = Inr s \<and>
     sai_deserialize_acl_field L (field_suffix fd) meta s False = Inr (Some (field_norm fd))"
proof (cases fd)
  case (FD_s32 d m)
  from enum_reads [OF text_lib_okD(1) [OF assms(1)] assms(2)] obtain s where
    "sai_serialize_enum d meta = Inr s" "sai_deserialize_enum L s meta = Inr d" "plain s" .
  with field_with_mask [of s] show ?thesis
    by (simp add: FD_s32 sai_serialize_acl_field_def sai_deserialize_acl_field_def and_mask_def signed_roundtrip field_norm_def)
next
  case (FD_objlist l)
  with assms(3) oid_list_roundtrip [OF text_lib_okD(1) [OF assms(1)], of l] obtain s where
    "sai_serialize_oid_list l False = Inr s" "sai_deserialize_oid_list L s False = Inr (list_norm l)" "plain s"
    by (auto simp: field_ok_def)
  with FD_objlist field_without_mask [of s] show ?thesis
    by (simp add: sai_serialize_acl_field_def sai_deserialize_acl_field_def field_norm_def plainD)
next
  case (FD_u8list d m)
  with assms(3) number_list_roundtrip [OF text_lib_okD(1) [OF assms(1)], of d False] obtain s where
    s: "sai_serialize_number_list d False False = Inr s" "sai_deserialize_number_list L s False False = Inr (list_norm d)" "plain s"
    by (auto simp: field_ok_def)
  from FD_u8list assms(3) number_list_roundtrip [OF text_lib_okD(1) [OF assms(1)], of m True] obtain t where
    "sai_serialize_number_list m False True = Inr t" "sai_deserialize_number_list L t False True = Inr (list_norm m)"
    by (auto simp: field_ok_def)
  with s FD_u8list field_with_mask [of s] show ?thesis
    by (simp add: sai_serialize_acl_field_def sai_deserialize_acl_field_def and_mask_def field_norm_def)
qed (use assms text_lib_okD(3) [OF assms(1)] in \<open>simp_all add: sai_serialize_acl_field_def sai_deserialize_acl_field_def
    and_mask_def field_with_mask [simplified] field_without_mask number_roundtrip plain_mac mac_roundtrip bool_roundtrip
    ipv4_roundtrip ipv6_roundtrip object_id_roundtrip field_ok_def field_norm_def plainD\<close>)

lemma acl_action_roundtrip:
  assumes "text_lib_ok L" "\<And>md. meta = Some md \<Longrightarrow> enum_ok md" "action_ok ad"
  shows "\<exists>s. sai_serialize_acl_action L meta (Some ad) False = Inr s \<and>
     sai_deserialize_acl_action L (action_suffix ad) meta s False = Inr (Some (action_norm ad))"
proof (cases ad)
  case (AC_s32 d)
  from enum_reads [OF text_lib_okD(1) [OF assms(1)] assms(2)] obtain s where
    "sai_serialize_enum d meta = Inr s" "sai_deserialize_enum L s meta = Inr d" "plain s" .
  then show ?thesis
    by (simp add: AC_s32 sai_serialize_acl_action_def sai_deserialize_acl_action_def action_norm_def plainD)
next
  case (AC_objlist l)
  with assms(3) oid_list_roundtrip [OF text_lib_okD(1) [OF assms(1)], of l] obtain s where
    "sai_serialize_oid_list l False = Inr s" "sai_deserialize_oid_list L s False = Inr (list_norm l)" "plain s"
    by (auto simp: action_ok_def)
  with AC_objlist show ?thesis
    by (simp add: sai_serialize_acl_action_def sai_deserialize_acl_action_def action_norm_def plainD)
next
  case (AC_ipaddr d)
  with assms(3) ip_address_roundtrip [OF text_lib_okD(3) [OF assms(1)], of d] obtain s where
    "sai_serialize_ip_address L d = Inr s" "sai_deserialize_ip_address L s = Inr d" "plain s"
    by (auto simp: action_ok_def)
  with AC_ipaddr show ?thesis
    by (simp add: sai_serialize_acl_action_def sai_deserialize_acl_action_def action_norm_def plainD)
qed (use assms text_lib_okD(3) [OF assms(1)] in \<open>simp_all add: sai_serialize_acl_action_def sai_deserialize_acl_action_def
    number_roundtrip plain_mac mac_roundtrip bool_roundtrip ipv4_roundtrip ipv6_roundtrip object_id_roundtrip
    action_ok_def action_norm_def plainD\<close>)

lemma disabled_roundtrip:
  "sai_deserialize_acl_field L ty meta ''disabled'' countOnly = Inr None"
  "sai_deserialize_acl_action L ty meta ''disabled'' countOnly = Inr None"
  by (simp_all add: sai_deserialize_acl_field_def sai_deserialize_acl_action_def)

lemma find_bool: "find_split CHR '':'' (sai_serialize_bool b @ CHR '':'' # s) = Some (sai_serialize_bool b, s)"
  by (rule find_split_append) (simp add: sai_serialize_bool_def)

lemma acl_capability_roundtrip:
  assumes "text_lib_ok L" "list_count (snd cap) < 2 ^ 32"
  shows "\<exists>s. sai_serialize_acl_capability L cap False = Inr s \<and>
     sai_deserialize_acl_capability L s = Inr (fst cap, list_norm (snd cap))"
proof -
  from enum_list_roundtrip [OF text_lib_okD(1) [OF assms(1)] assms(2), of "Some (enum_table L EN_acl_action_type)"]
    text_lib_okD(4) [OF assms(1)]
  obtain s where
    "sai_serialize_enum_list (snd cap) (Some (enum_table L EN_acl_action_type)) False = Inr s"
    "sai_deserialize_enum_list L s (Some (enum_table L EN_acl_action_type)) False = Inr (list_norm (snd cap))" by auto
  then show ?thesis
    by (simp add: sai_serialize_acl_capability_def sai_deserialize_acl_capability_def find_bool bool_roundtrip)
qed

text \<open>A capability of which only the count was printed cannot be read.\<close>

lemma acl_capability_count_only:
  "sai_serialize_acl_capability L cap True = Inr (sai_serialize_bool (fst cap) @ '':'' @ print_nat 10 (list_count (snd cap)))"
  "sai_deserialize_acl_capability L (sai_serialize_bool b @ '':'' @ print_nat 10 n) = Inl (Throw ''invalid list'')"
proof -
  have "CHR '':'' \<notin> set (print_nat 10 n)" by (auto dest: print_nat_plain(8) [rotated 2])
  then show "sai_deserialize_acl_capability L (sai_serialize_bool b @ '':'' @ print_nat 10 n) = Inl (Throw ''invalid list'')"
    by (simp add: sai_deserialize_acl_capability_def find_bool bool_roundtrip sai_deserialize_enum_list_def
        sai_deserialize_list_def) (simp add: find_split_def)
qed (simp add: sai_serialize_acl_capability_def sai_serialize_enum_list_def list_count_only)

end
