(* ===== verification/Ser_Maps.thy ===== *)
theory Ser_Maps
  imports Ser_Acl
begin

text \<open>
  The structured attribute values \<open>meta/SaiSerialize.cpp\<close> writes as JSON: maps of the quality of service, maps, resources of
  access control lists, system ports, power consumption, the status of lanes and the taps of a port.
\<close>

section \<open>Objects\<close>

text \<open>The assignments \<open>j[k] = v\<close> in order; computing a value may throw.\<close>

definition json_fields :: "(string \<times> (fault + json)) list \<Rightarrow> fault + json" where
  "json_fields kvs = bindE (mapE (\<lambda>(k, r). bindE r (\<lambda>v. Inr (k, v))) kvs) (\<lambda>l. Inr (json_object l))"

definition text_field :: "fault + string \<Rightarrow> fault + json" where
  "text_field r = bindE r (\<lambda>s. Inr (JStr s))"

definition number_field :: "'a::len word \<Rightarrow> fault + json" where
  "number_field w = Inr (JNum (uint w))"

lemma text_field_Inr [simp]: "text_field (Inr s) = Inr (JStr s)"
  by (simp add: text_field_def)

lemma number_range [simp]: "- 9223372036854775808 \<le> uint (w :: 8 word)" "uint (w :: 8 word) < 18446744073709551616"
    "- 9223372036854775808 \<le> uint (v :: u32)" "uint (v :: u32) < 18446744073709551616"
    "- 9223372036854775808 \<le> sint v" "sint v < 18446744073709551616"
  using uint_lt2p [of w] uint_lt2p [of v] sint_lt [of v] sint_ge [of v] by (simp_all add: order_trans [of _ 0])

subsection \<open>Lists in an object\<close>

text \<open>
  \<open>sai_serialize_qos_map_list\<close> and four further functions: an object with the count, and with the elements or null.
\<close>

definition json_list :: "bool \<Rightarrow> ('a \<Rightarrow> fault + json) \<Rightarrow> 'a sai_list \<Rightarrow> fault + json" where
  "json_list countOnly put l =
     (let count = (''count'', JNum (int (list_count l))) in
      case l of
        Null_List n \<Rightarrow> Inr (json_object [count, (''list'', JNull)])
      | Sai_List xs \<Rightarrow>
          if countOnly then Inr (json_object [count, (''list'', JNull)])
          else bindE (mapE put xs) (\<lambda>js. Inr (json_object [count, (''list'', JArr js)])))"

definition json_unlist :: "bool \<Rightarrow> (json \<Rightarrow> fault + 'a) \<Rightarrow> json \<Rightarrow> fault + 'a sai_list" where
  "json_unlist countOnly get j =
     bindE (bindE (json_at j ''count'') json_number) (\<lambda>n :: u32.
       if countOnly then Inr (Null_List n)
       else bindE (json_at j ''list'') (\<lambda>arr.
         if arr = JNull then Inr (Null_List n)
         else if length (json_elements arr) \<noteq> unat n then Inl (Throw ''list count mismatch'')
         else bindE (mapE get (json_elements arr)) (\<lambda>xs. Inr (Sai_List xs))))"

text \<open>The contract of the elements: a good one is written as a printable value, which is read back.\<close>

locale json_codec =
  fixes put :: "'a \<Rightarrow> fault + json" and get :: "json \<Rightarrow> fault + 'a" and good :: "'a \<Rightarrow> bool"
  assumes element_roundtrip: "good x \<Longrightarrow> \<exists>j. put x = Inr j \<and> get j = Inr x \<and> json_wf j"
begin

lemma elements_roundtrip:
  "list_all good xs \<Longrightarrow> \<exists>js. mapE put xs = Inr js \<and> mapE get js = Inr xs \<and> list_all json_wf js \<and> length js = length xs"
proof (induction xs)
  case (Cons x xs)
  moreover from Cons.prems element_roundtrip [of x] obtain j where "put x = Inr j" "get j = Inr x" "json_wf j" by auto
  moreover from calculation obtain js where
    "mapE put xs = Inr js" "mapE get js = Inr xs" "list_all json_wf js" "length js = length xs" by auto
  ultimately show ?case by (intro exI [of _ "j # js"]) simp
qed simp

lemma json_list_roundtrip:
  assumes "list_all_good good l"
  shows "\<exists>j. json_list False put l = Inr j \<and> json_unlist False get j = Inr l \<and> json_wf j"
proof (cases l)
  case (Null_List n)
  then show ?thesis
    by (simp add: json_list_def json_unlist_def json_reads json_wf_object)
next
  case (Sai_List xs)
  then have xs: "length xs < 2 ^ 32" "list_all good xs" using assms by (simp_all add: list_all_good_def)
  from elements_roundtrip [OF xs(2)] obtain js where
    "mapE put xs = Inr js" "mapE get js = Inr xs" "list_all json_wf js" "length js = length xs" by blast
  then show ?thesis
    using xs(1) Sai_List by (simp add: json_list_def json_unlist_def json_reads json_wf_object unat_length)
qed

end

text \<open>The count alone, and a null list whatever the flag.\<close>

lemma json_list_count:
  assumes "list_count l < 2 ^ 32"
  shows "\<exists>j. json_list True put l = Inr j \<and> json_unlist countOnly get j = Inr (Null_List (of_nat (list_count l))) \<and> json_wf j"
  using assms by (cases l) (simp_all add: json_list_def json_unlist_def json_reads json_wf_object)

section \<open>Maps of the quality of service\<close>

record qos_params =
  qp_tc :: "8 word"
  qp_dscp :: "8 word"
  qp_dot1p :: "8 word"
  qp_prio :: "8 word"
  qp_pg :: "8 word"
  qp_queue_index :: "8 word"
  qp_color :: "32 word"
  qp_mpls_exp :: "8 word"
  qp_fc :: "8 word"

definition sai_serialize_qos_map_params :: "'x text_lib_scheme \<Rightarrow> qos_params \<Rightarrow> fault + json" where
  "sai_serialize_qos_map_params L p =
     json_fields
       [(''tc'', number_field (qp_tc p)), (''dscp'', number_field (qp_dscp p)), (''dot1p'', number_field (qp_dot1p p)),
        (''prio'', number_field (qp_prio p)), (''pg'', number_field (qp_pg p)), (''qidx'', number_field (qp_queue_index p)),
        (''mpls_exp'', number_field (qp_mpls_exp p)),
        (''color'', text_field (sai_serialize_enum (qp_color p) (Some (enum_table L EN_packet_color)))),
        (''fc'', number_field (qp_fc p))]"

definition sai_serialize_qos_map :: "'x text_lib_scheme \<Rightarrow> qos_params \<times> qos_params \<Rightarrow> fault + json" where
  "sai_serialize_qos_map L q =
     json_fields [(''key'', sai_serialize_qos_map_params L (fst q)), (''value'', sai_serialize_qos_map_params L (snd q))]"

definition sai_serialize_qos_map_list ::
  "'x text_lib_scheme \<Rightarrow> (qos_params \<times> qos_params) sai_list \<Rightarrow> bool \<Rightarrow> fault + string" where
  "sai_serialize_qos_map_list L l countOnly =
     bindE (json_list countOnly (sai_serialize_qos_map L) l) (\<lambda>j. Inr (json_dump L j))"

text \<open>\<open>j.find(k) == j.end()\<close>: two fields older releases did not write.\<close>

definition json_missing :: "json \<Rightarrow> string \<Rightarrow> bool" where
  "json_missing j k = (case j of JObj kvs \<Rightarrow> map_of kvs k = None | _ \<Rightarrow> True)"

definition sai_deserialize_qos_map_params :: "'x text_lib_scheme \<Rightarrow> json \<Rightarrow> fault + qos_params" where
  "sai_deserialize_qos_map_params L j =
     bindE (member_cnumber j ''tc'') (\<lambda>tc.
     bindE (member_cnumber j ''dscp'') (\<lambda>dscp.
     bindE (member_cnumber j ''dot1p'') (\<lambda>dot1p.
     bindE (member_cnumber j ''prio'') (\<lambda>prio.
     bindE (member_cnumber j ''pg'') (\<lambda>pg.
     bindE (member_cnumber j ''qidx'') (\<lambda>qidx.
     bindE (if json_missing j ''mpls_exp'' then Inr 0 else member_cnumber j ''mpls_exp'') (\<lambda>mpls_exp.
     bindE (if json_missing j ''fc'' then Inr 0 else member_cnumber j ''fc'') (\<lambda>fc.
     bindE (member_cstring j ''color'') (\<lambda>s.
     bindE (sai_deserialize_enum L s (Some (enum_table L EN_packet_color))) (\<lambda>color.
       Inr \<lparr>qp_tc = tc, qp_dscp = dscp, qp_dot1p = dot1p, qp_prio = prio, qp_pg = pg, qp_queue_index = qidx,
            qp_color = color, qp_mpls_exp = mpls_exp, qp_fc = fc\<rparr>))))))))))"

definition sai_deserialize_qos_map :: "'x text_lib_scheme \<Rightarrow> json \<Rightarrow> fault + qos_params \<times> qos_params" where
  "sai_deserialize_qos_map L j =
     bindE (bindE (json_cat j ''key'') (sai_deserialize_qos_map_params L)) (\<lambda>k.
     bindE (bindE (json_cat j ''value'') (sai_deserialize_qos_map_params L)) (\<lambda>v. Inr (k, v)))"

definition sai_deserialize_qos_map_list ::
  "'x text_lib_scheme \<Rightarrow> string \<Rightarrow> bool \<Rightarrow> fault + (qos_params \<times> qos_params) sai_list" where
  "sai_deserialize_qos_map_list L s countOnly =
     bindE (parse_json L s) (json_unlist countOnly (sai_deserialize_qos_map L))"

lemma missing_object: "json_missing (json_object kvs) k \<longleftrightarrow> map_of (rev kvs) k = None"
  by (simp add: json_missing_def json_object_def map_of_members)

lemma qos_params_roundtrip:
  assumes "text_lib_ok L"
  shows "\<exists>j. sai_serialize_qos_map_params L p = Inr j \<and> sai_deserialize_qos_map_params L j = Inr p \<and> json_wf j"
proof -
  from enum_reads [OF text_lib_okD(1) [OF assms], of "Some (enum_table L EN_packet_color)" "qp_color p"] text_lib_okD(4) [OF assms]
  obtain s where s: "sai_serialize_enum (qp_color p) (Some (enum_table L EN_packet_color)) = Inr s"
    "sai_deserialize_enum L s (Some (enum_table L EN_packet_color)) = Inr (qp_color p)" "plain s" by auto
  then show ?thesis
    by (simp add: sai_serialize_qos_map_params_def json_fields_def number_field_def json_wf_object plainD)
      (simp add: sai_deserialize_qos_map_params_def json_reads missing_object)
qed

interpretation qos: json_codec "sai_serialize_qos_map L" "sai_deserialize_qos_map L" "\<lambda>q. text_lib_ok L" for L :: "'x text_lib_scheme"
proof unfold_locales
  fix q :: "qos_params \<times> qos_params"
  assume L: "text_lib_ok L"
  obtain k where "sai_serialize_qos_map_params L (fst q) = Inr k" "sai_deserialize_qos_map_params L k = Inr (fst q)" "json_wf k"
    using qos_params_roundtrip [OF L] by blast
  moreover obtain v where
    "sai_serialize_qos_map_params L (snd q) = Inr v" "sai_deserialize_qos_map_params L v = Inr (snd q)" "json_wf v"
    using qos_params_roundtrip [OF L] by blast
  ultimately show "\<exists>j. sai_serialize_qos_map L q = Inr j \<and> sai_deserialize_qos_map L j = Inr q \<and> json_wf j"
    by (simp add: sai_serialize_qos_map_def sai_deserialize_qos_map_def json_fields_def json_reads json_wf_object)
qed

lemma list_roundtrip_dump:
  assumes "json_ok L" "\<exists>j. r = Inr j \<and> f j = Inr x \<and> json_wf j"
  shows "\<exists>s. bindE r (\<lambda>j. Inr (json_dump L j)) = Inr s \<and> bindE (parse_json L s) f = Inr x"
  using assms by (auto simp: parse_dump)

lemma qos_map_list_roundtrip:
  assumes "text_lib_ok L" "list_count l < 2 ^ 32"
  shows "\<exists>s. sai_serialize_qos_map_list L l False = Inr s \<and> sai_deserialize_qos_map_list L s False = Inr l"
  unfolding sai_serialize_qos_map_list_def sai_deserialize_qos_map_list_def
  using assms by (intro list_roundtrip_dump text_lib_okD qos.json_list_roundtrip) (simp_all add: list_all_good_True)

section \<open>Maps\<close>

text \<open>\<open>sai_map_t\<close>: an unsigned key and a signed value of 32 bits.\<close>

definition sai_serialize_map :: "u32 \<times> 32 word \<Rightarrow> fault + json" where
  "sai_serialize_map m = json_fields [(''key'', number_field (fst m)), (''value'', Inr (JNum (sint (snd m))))]"

definition sai_deserialize_map :: "json \<Rightarrow> fault + u32 \<times> 32 word" where
  "sai_deserialize_map j =
     bindE (member_cnumber j ''key'') (\<lambda>k. bindE (member_cnumber j ''value'') (\<lambda>v. Inr (k, v)))"

definition sai_serialize_map_list :: "'x text_lib_scheme \<Rightarrow> (u32 \<times> 32 word) sai_list \<Rightarrow> bool \<Rightarrow> fault + string" where
  "sai_serialize_map_list L l countOnly = bindE (json_list countOnly sai_serialize_map l) (\<lambda>j. Inr (json_dump L j))"

definition sai_deserialize_map_list ::
  "'x text_lib_scheme \<Rightarrow> string \<Rightarrow> bool \<Rightarrow> fault + (u32 \<times> 32 word) sai_list" where
  "sai_deserialize_map_list L s countOnly = bindE (parse_json L s) (json_unlist countOnly sai_deserialize_map)"

interpretation maps: json_codec sai_serialize_map sai_deserialize_map "\<lambda>m. True"
  by unfold_locales
    (auto simp: sai_serialize_map_def sai_deserialize_map_def json_fields_def number_field_def json_reads json_wf_object)

lemma map_list_roundtrip:
  assumes "json_ok L" "list_count l < 2 ^ 32"
  shows "\<exists>s. sai_serialize_map_list L l False = Inr s \<and> sai_deserialize_map_list L s False = Inr l"
  unfolding sai_serialize_map_list_def sai_deserialize_map_list_def
  using assms by (intro list_roundtrip_dump maps.json_list_roundtrip) (simp_all add: list_all_good_True)

section \<open>Resources of access control lists\<close>

record acl_resource =
  ar_stage :: "32 word"
  ar_bind_point :: "32 word"
  ar_avail_num :: u32

definition sai_serialize_acl_resource :: "'x text_lib_scheme \<Rightarrow> acl_resource \<Rightarrow> fault + json" where
  "sai_serialize_acl_resource L r =
     json_fields
       [(''stage'', text_field (sai_serialize_enum (ar_stage r) (Some (enum_table L EN_acl_stage)))),
        (''bind_point'', text_field (sai_serialize_enum (ar_bind_point r) (Some (enum_table L EN_acl_bind_point_type)))),
        (''avail_num'', text_field (Inr (sai_serialize_number False (ar_avail_num r))))]"

definition sai_deserialize_acl_resource :: "'x text_lib_scheme \<Rightarrow> json \<Rightarrow> fault + acl_resource" where
  "sai_deserialize_acl_resource L j =
     bindE (bindE (member_cstring j ''stage'') (\<lambda>s. sai_deserialize_enum L s (Some (enum_table L EN_acl_stage)))) (\<lambda>st.
     bindE (bindE (member_cstring j ''bind_point'')
       (\<lambda>s. sai_deserialize_enum L s (Some (enum_table L EN_acl_bind_point_type)))) (\<lambda>bp.
     bindE (bindE (member_cstring j ''avail_num'') (sai_deserialize_number False)) (\<lambda>n.
       Inr \<lparr>ar_stage = st, ar_bind_point = bp, ar_avail_num = n\<rparr>)))"

definition sai_serialize_acl_resource_list :: "'x text_lib_scheme \<Rightarrow> acl_resource sai_list \<Rightarrow> bool \<Rightarrow> fault + string" where
  "sai_serialize_acl_resource_list L l countOnly =
     bindE (json_list countOnly (sai_serialize_acl_resource L) l) (\<lambda>j. Inr (json_dump L j))"

definition sai_deserialize_acl_resource_list ::
  "'x text_lib_scheme \<Rightarrow> string \<Rightarrow> bool \<Rightarrow> fault + acl_resource sai_list" where
  "sai_deserialize_acl_resource_list L s countOnly =
     bindE (parse_json L s) (json_unlist countOnly (sai_deserialize_acl_resource L))"

text \<open>An enum value by the table of its type, and back.\<close>

lemma enum_field:
  assumes "text_lib_ok L"
  obtains s where "sai_serialize_enum w (Some (enum_table L e)) = Inr s"
    "sai_deserialize_enum L s (Some (enum_table L e)) = Inr w" "plain s"
  using enum_reads [OF text_lib_okD(1) [OF assms], of "Some (enum_table L e)" w] text_lib_okD(4) [OF assms, of e]
  by (metis option.sel)

interpretation resources: json_codec "sai_serialize_acl_resource L" "sai_deserialize_acl_resource L" "\<lambda>r. text_lib_ok L"
  for L :: "'x text_lib_scheme"
proof unfold_locales
  fix r :: acl_resource
  assume L: "text_lib_ok L"
  from enum_field [OF L] obtain a where a: "sai_serialize_enum (ar_stage r) (Some (enum_table L EN_acl_stage)) = Inr a"
    "sai_deserialize_enum L a (Some (enum_table L EN_acl_stage)) = Inr (ar_stage r)" "plain a" .
  from enum_field [OF L] obtain b where
    "sai_serialize_enum (ar_bind_point r) (Some (enum_table L EN_acl_bind_point_type)) = Inr b"
    "sai_deserialize_enum L b (Some (enum_table L EN_acl_bind_point_type)) = Inr (ar_bind_point r)" "plain b" .
  with a show "\<exists>j. sai_serialize_acl_resource L r = Inr j \<and> sai_deserialize_acl_resource L j = Inr r \<and> json_wf j"
    by (simp add: sai_serialize_acl_resource_def sai_deserialize_acl_resource_def json_fields_def json_reads json_wf_object
        plainD number_roundtrip)
qed

lemma acl_resource_list_roundtrip:
  assumes "text_lib_ok L" "list_count l < 2 ^ 32"
  shows "\<exists>s. sai_serialize_acl_resource_list L l False = Inr s \<and> sai_deserialize_acl_resource_list L s False = Inr l"
  unfolding sai_serialize_acl_resource_list_def sai_deserialize_acl_resource_list_def
  using assms by (intro list_roundtrip_dump text_lib_okD resources.json_list_roundtrip) (simp_all add: list_all_good_True)

section \<open>System ports\<close>

record system_port =
  sp_port_id :: u32
  sp_attached_switch_id :: u32
  sp_attached_core_index :: u32
  sp_attached_core_port_index :: u32
  sp_speed :: u32
  sp_num_voq :: u32

definition sai_serialize_system_port_cfg_list_item :: "system_port \<Rightarrow> fault + json" where
  "sai_serialize_system_port_cfg_list_item c =
     json_fields
       [(''port_id'', text_field (Inr (sai_serialize_number False (sp_port_id c)))),
        (''attached_switch_id'', text_field (Inr (sai_serialize_number False (sp_attached_switch_id c)))),
        (''attached_core_index'', text_field (Inr (sai_serialize_number False (sp_attached_core_index c)))),
        (''attached_core_port_index'', text_field (Inr (sai_serialize_number False (sp_attached_core_port_index c)))),
        (''speed'', text_field (Inr (sai_serialize_number False (sp_speed c)))),
        (''num_voq'', text_field (Inr (sai_serialize_number False (sp_num_voq c))))]"

text \<open>A number in a member: of a value that is not constant, or constant.\<close>

definition member_text_number :: "json \<Rightarrow> string \<Rightarrow> fault + 'a::len word" where
  "member_text_number j k = bindE (member_string j k) (sai_deserialize_number False)"

definition member_ctext_number :: "json \<Rightarrow> string \<Rightarrow> fault + 'a::len word" where
  "member_ctext_number j k = bindE (member_cstring j k) (sai_deserialize_number False)"

definition sai_deserialize_system_port_cfg_list_item :: "json \<Rightarrow> fault + system_port" where
  "sai_deserialize_system_port_cfg_list_item j =
     bindE (member_ctext_number j ''port_id'') (\<lambda>p.
     bindE (member_ctext_number j ''attached_switch_id'') (\<lambda>s.
     bindE (member_ctext_number j ''attached_core_index'') (\<lambda>c.
     bindE (member_ctext_number j ''attached_core_port_index'') (\<lambda>cp.
     bindE (member_ctext_number j ''speed'') (\<lambda>sp.
     bindE (member_ctext_number j ''num_voq'') (\<lambda>v.
       Inr \<lparr>sp_port_id = p, sp_attached_switch_id = s, sp_attached_core_index = c, sp_attached_core_port_index = cp,
            sp_speed = sp, sp_num_voq = v\<rparr>))))))"

definition sai_serialize_system_port_config :: "'x text_lib_scheme \<Rightarrow> system_port \<Rightarrow> fault + string" where
  "sai_serialize_system_port_config L c =
     bindE (json_fields
       [(''port_id'', text_field (Inr (sai_serialize_number False (sp_port_id c)))),
        (''attached_switch_id'', text_field (Inr (sai_serialize_number False (sp_attached_switch_id c)))),
        (''attached_core_index'', text_field (Inr (sai_serialize_number False (sp_attached_core_index c)))),
        (''attached_core_port_index'', text_field (Inr (sai_serialize_number False (sp_attached_core_port_index c)))),
        (''speed'', text_field (Inr (sai_serialize_number False (sp_speed c)))),
        (''num_voq'', text_field (Inr (sai_serialize_number False (sp_num_voq c))))]) (\<lambda>j. Inr (json_dump L j))"

definition sai_deserialize_system_port_config :: "'x text_lib_scheme \<Rightarrow> string \<Rightarrow> fault + system_port" where
  "sai_deserialize_system_port_config L t =
     bindE (parse_json L t) (\<lambda>j.
     bindE (member_text_number j ''port_id'') (\<lambda>p.
     bindE (member_text_number j ''attached_switch_id'') (\<lambda>s.
     bindE (member_text_number j ''attached_core_index'') (\<lambda>c.
     bindE (member_text_number j ''attached_core_port_index'') (\<lambda>cp.
     bindE (member_text_number j ''speed'') (\<lambda>sp.
     bindE (member_text_number j ''num_voq'') (\<lambda>v.
       Inr \<lparr>sp_port_id = p, sp_attached_switch_id = s, sp_attached_core_index = c, sp_attached_core_port_index = cp,
            sp_speed = sp, sp_num_voq = v\<rparr>)))))))"

definition sai_serialize_system_port_config_list :: "'x text_lib_scheme \<Rightarrow> system_port sai_list \<Rightarrow> bool \<Rightarrow> fault + string" where
  "sai_serialize_system_port_config_list L l countOnly =
     bindE (json_list countOnly sai_serialize_system_port_cfg_list_item l) (\<lambda>j. Inr (json_dump L j))"

definition sai_deserialize_system_port_config_list ::
  "'x text_lib_scheme \<Rightarrow> string \<Rightarrow> bool \<Rightarrow> fault + system_port sai_list" where
  "sai_deserialize_system_port_config_list L s countOnly =
     bindE (parse_json L s) (json_unlist countOnly sai_deserialize_system_port_cfg_list_item)"

interpretation system_ports: json_codec sai_serialize_system_port_cfg_list_item sai_deserialize_system_port_cfg_list_item "\<lambda>c. True"
  by unfold_locales
    (simp add: sai_serialize_system_port_cfg_list_item_def sai_deserialize_system_port_cfg_list_item_def
      member_ctext_number_def json_fields_def json_reads json_wf_object number_roundtrip)

lemma system_port_list_roundtrip:
  assumes "json_ok L" "list_count l < 2 ^ 32"
  shows "\<exists>s. sai_serialize_system_port_config_list L l False = Inr s \<and> sai_deserialize_system_port_config_list L s False = Inr l"
  unfolding sai_serialize_system_port_config_list_def sai_deserialize_system_port_config_list_def
  using assms by (intro list_roundtrip_dump system_ports.json_list_roundtrip) (simp_all add: list_all_good_True)

lemma system_port_roundtrip:
  assumes "json_ok L"
  shows "\<exists>s. sai_serialize_system_port_config L c = Inr s \<and> sai_deserialize_system_port_config L s = Inr c"
  using assms
  by (simp add: sai_serialize_system_port_config_def sai_deserialize_system_port_config_def json_fields_def json_wf_object
      parse_dump member_text_number_def json_reads number_roundtrip)

end
