(* ===== verification/Ser_Lanes.thy ===== *)
theory Ser_Lanes
  imports Ser_Maps "HOL-Library.Multiset"
begin

text \<open>
  Attribute values of ports in \<open>meta/SaiSerialize.cpp\<close>: the power consumption, the latch status of a signal, and the lists
  with an entry for each lane, which are written as objects with the lanes as keys and read in the order of the keys.
\<close>

section \<open>JSON attributes\<close>

text \<open>\<open>sai_json_t\<close> is a list of signed bytes.\<close>

definition sai_serialize_json :: "'x text_lib_scheme \<Rightarrow> 8 word sai_list \<Rightarrow> fault + string" where
  "sai_serialize_json L js =
     bindE (json_fields [(''json'', text_field (sai_serialize_signed_list js False False))]) (\<lambda>j. Inr (json_dump L j))"

definition sai_deserialize_json :: "'x text_lib_scheme \<Rightarrow> string \<Rightarrow> fault + 8 word sai_list" where
  "sai_deserialize_json L s =
     bindE (parse_json L s) (\<lambda>j. bindE (member_string j ''json'') (\<lambda>t. sai_deserialize_number_list L t False False))"

lemma json_roundtrip:
  assumes "text_lib_ok L" "list_count js < 2 ^ 32"
  shows "\<exists>s. sai_serialize_json L js = Inr s \<and> sai_deserialize_json L s = Inr (list_norm js)"
proof -
  from signed_list_roundtrip [OF text_lib_okD(1) [OF assms(1)] _ assms(2), of False] obtain s where
    "sai_serialize_signed_list js False False = Inr s" "sai_deserialize_number_list L s False False = Inr (list_norm js)" "plain s"
    by auto
  then show ?thesis
    using text_lib_okD(2) [OF assms(1)]
    by (simp add: sai_serialize_json_def sai_deserialize_json_def json_fields_def json_wf_object parse_dump json_reads plainD)
qed

section \<open>Power consumption\<close>

record poe_consumption =
  pc_active_channel :: "32 word"
  pc_voltage :: u32
  pc_current :: u32
  pc_consumption :: u32
  pc_signature_type :: "32 word"
  pc_class_method :: "32 word"
  pc_measured_class_a :: "8 word"
  pc_assigned_class_a :: "8 word"
  pc_measured_class_b :: "8 word"
  pc_assigned_class_b :: "8 word"

definition enum_text_field :: "'x text_lib_scheme \<Rightarrow> enum_name \<Rightarrow> 32 word \<Rightarrow> fault + json" where
  "enum_text_field L e w = text_field (sai_serialize_enum w (Some (enum_table L e)))"

definition number_text_field :: "'a::len word \<Rightarrow> fault + json" where
  "number_text_field w = text_field (Inr (sai_serialize_number False w))"

definition member_enum :: "'x text_lib_scheme \<Rightarrow> enum_name \<Rightarrow> json \<Rightarrow> string \<Rightarrow> fault + 32 word" where
  "member_enum L e j k = bindE (member_string j k) (\<lambda>s. sai_deserialize_enum L s (Some (enum_table L e)))"

definition sai_serialize_poe_port_power_consumption :: "'x text_lib_scheme \<Rightarrow> poe_consumption \<Rightarrow> fault + string" where
  "sai_serialize_poe_port_power_consumption L p =
     bindE (json_fields
       [(''active_channel'', enum_text_field L EN_poe_port_active_channel_type (pc_active_channel p)),
        (''voltage'', number_text_field (pc_voltage p)), (''current'', number_text_field (pc_current p)),
        (''consumption'', number_text_field (pc_consumption p)),
        (''signature_type'', enum_text_field L EN_poe_port_signature_type (pc_signature_type p)),
        (''class_method'', enum_text_field L EN_poe_port_class_method_type (pc_class_method p)),
        (''measured_class_a'', number_text_field (pc_measured_class_a p)),
        (''assigned_class_a'', number_text_field (pc_assigned_class_a p)),
        (''measured_class_b'', number_text_field (pc_measured_class_b p)),
        (''assigned_class_b'', number_text_field (pc_assigned_class_b p))]) (\<lambda>j. Inr (json_dump L j))"

definition sai_deserialize_poe_port_power_consumption :: "'x text_lib_scheme \<Rightarrow> string \<Rightarrow> fault + poe_consumption" where
  "sai_deserialize_poe_port_power_consumption L s =
     bindE (parse_json L s) (\<lambda>j.
     bindE (member_enum L EN_poe_port_active_channel_type j ''active_channel'') (\<lambda>ac.
     bindE (member_text_number j ''voltage'') (\<lambda>v.
     bindE (member_text_number j ''current'') (\<lambda>c.
     bindE (member_text_number j ''consumption'') (\<lambda>co.
     bindE (member_enum L EN_poe_port_class_method_type j ''class_method'') (\<lambda>cm.
     bindE (member_enum L EN_poe_port_signature_type j ''signature_type'') (\<lambda>st.
     bindE (member_text_number j ''measured_class_a'') (\<lambda>ma.
     bindE (member_text_number j ''assigned_class_a'') (\<lambda>aa.
     bindE (member_text_number j ''measured_class_b'') (\<lambda>mb.
     bindE (member_text_number j ''assigned_class_b'') (\<lambda>ab.
       Inr \<lparr>pc_active_channel = ac, pc_voltage = v, pc_current = c, pc_consumption = co, pc_signature_type = st,
            pc_class_method = cm, pc_measured_class_a = ma, pc_assigned_class_a = aa, pc_measured_class_b = mb,
            pc_assigned_class_b = ab\<rparr>)))))))))))"

text \<open>How the fields behave: what \<open>json_fields\<close> needs, and what reading gives.\<close>

lemma number_text_field [simp]: "number_text_field w = Inr (JStr (sai_serialize_number False w))"
  by (simp add: number_text_field_def)

lemma member_text_number_object:
  fixes w :: "'a::len word"
  assumes "LENGTH('a) \<le> 64" "map_of (rev kvs) k = Some (JStr (sai_serialize_number False w))"
  shows "member_text_number (json_object kvs) k = Inr w"
  using assms by (simp add: member_text_number_def json_reads number_roundtrip)

lemma enum_member:
  assumes "text_lib_ok L"
  obtains s where "enum_text_field L e w = Inr (JStr s)" "plain s"
    "\<And>kvs k. map_of (rev kvs) k = Some (JStr s) \<Longrightarrow> member_enum L e (json_object kvs) k = Inr w"
proof -
  obtain s where "sai_serialize_enum w (Some (enum_table L e)) = Inr s"
    "sai_deserialize_enum L s (Some (enum_table L e)) = Inr w" "plain s" using enum_field [OF assms] .
  then show ?thesis by (intro that [of s]) (simp_all add: enum_text_field_def member_enum_def json_reads)
qed

lemma poe_roundtrip:
  assumes "text_lib_ok L"
  shows "\<exists>s. sai_serialize_poe_port_power_consumption L p = Inr s \<and> sai_deserialize_poe_port_power_consumption L s = Inr p"
proof -
  from enum_member [OF assms] obtain a where a: "enum_text_field L EN_poe_port_active_channel_type (pc_active_channel p) = Inr (JStr a)"
    "plain a" "\<And>kvs k. map_of (rev kvs) k = Some (JStr a) \<Longrightarrow>
      member_enum L EN_poe_port_active_channel_type (json_object kvs) k = Inr (pc_active_channel p)" by blast
  from enum_member [OF assms] obtain b where b: "enum_text_field L EN_poe_port_signature_type (pc_signature_type p) = Inr (JStr b)"
    "plain b" "\<And>kvs k. map_of (rev kvs) k = Some (JStr b) \<Longrightarrow>
      member_enum L EN_poe_port_signature_type (json_object kvs) k = Inr (pc_signature_type p)" by blast
  from enum_member [OF assms] obtain c where c: "enum_text_field L EN_poe_port_class_method_type (pc_class_method p) = Inr (JStr c)"
    "plain c" "\<And>kvs k. map_of (rev kvs) k = Some (JStr c) \<Longrightarrow>
      member_enum L EN_poe_port_class_method_type (json_object kvs) k = Inr (pc_class_method p)" by blast
  show ?thesis
    using text_lib_okD(2) [OF assms] a b c
    by (simp add: sai_serialize_poe_port_power_consumption_def json_fields_def)
      (simp add: sai_deserialize_poe_port_power_consumption_def parse_dump json_wf_object plainD member_text_number_object)
qed

section \<open>Latch status\<close>

text \<open>\<open>sai_latch_status_t\<close>: whether the status changed, and the current status.\<close>

definition sai_serialize_latch_status :: "bool \<times> bool \<Rightarrow> string" where
  "sai_serialize_latch_status ls = sai_serialize_bool (fst ls) @ '':'' @ sai_serialize_bool (snd ls)"

definition sai_deserialize_latch_status :: "string \<Rightarrow> fault + bool \<times> bool" where
  "sai_deserialize_latch_status s =
     (case find_split CHR '':'' s of
        None \<Rightarrow> Inl (Throw ''Invalid latch status'')
      | Some (changed, current_status) \<Rightarrow>
          bindE (sai_deserialize_bool changed) (\<lambda>c. bindE (sai_deserialize_bool current_status) (\<lambda>t. Inr (c, t))))"

lemma latch_status_roundtrip: "sai_deserialize_latch_status (sai_serialize_latch_status ls) = Inr ls"
  by (simp add: sai_serialize_latch_status_def sai_deserialize_latch_status_def find_bool bool_roundtrip)

section \<open>Lists by lane\<close>

text \<open>\<open>std::stoul\<close>: characters after the number are passed over.\<close>

definition stoul :: "string \<Rightarrow> fault + u64" where
  "stoul s =
     (case strtoull 10 (c_str s) of (n, rest, errno) \<Rightarrow>
        if rest = c_str s then Inl (Throw ''std::invalid_argument'')
        else if errno then Inl (Throw ''std::out_of_range'')
        else Inr n)"

definition lane_key :: "u32 \<Rightarrow> string" where
  "lane_key lane = print_nat 10 (unat lane)"

text \<open>\<open>j.empty() || !j.is_object()\<close>, or a text that is no JSON value.\<close>

definition parsed_members :: "'x text_lib_scheme \<Rightarrow> string \<Rightarrow> (string \<times> json) list" where
  "parsed_members L s = (case json_parse L s of Some (JObj kvs) \<Rightarrow> kvs | _ \<Rightarrow> [])"

text \<open>
  The loop over the members, in the order of the keys. An exception is caught and gives the empty list with a null
  pointer.
\<close>

definition lane_list :: "'x text_lib_scheme \<Rightarrow> bool \<Rightarrow> (string \<times> json \<Rightarrow> fault + 'a) \<Rightarrow> string \<Rightarrow> 'a sai_list" where
  "lane_list L countOnly get s =
     (let kvs = parsed_members L s in
      if kvs = [] then Null_List 0
      else if countOnly then Null_List (of_nat (length kvs))
      else (case mapE get kvs of Inl e \<Rightarrow> Null_List 0 | Inr xs \<Rightarrow> Sai_List xs))"

definition lane_text :: "'x text_lib_scheme \<Rightarrow> bool \<Rightarrow> ('a \<Rightarrow> fault + string \<times> json) \<Rightarrow> 'a sai_list \<Rightarrow> fault + string" where
  "lane_text L countOnly put l =
     (case l of
        Null_List n \<Rightarrow> Inr (json_dump L (JObj []))
      | Sai_List xs \<Rightarrow>
          if countOnly then Inr (json_dump L (JObj []))
          else bindE (mapE put xs) (\<lambda>kvs. Inr (json_dump L (json_object kvs))))"

lemma stoul_print: "n < 2 ^ 64 \<Longrightarrow> stoul (print_nat 10 n) = Inr (of_nat n)"
  by (simp add: stoul_def c_str_print strtoull_print print_nat_nonempty' print_nat_nonempty' [symmetric])

lemma stoul_lane: "bindE (stoul (lane_key lane)) (\<lambda>n. Inr (ucast n :: u32)) = Inr lane"
proof -
  have "unat lane < 2 ^ 64" using unsigned_less [of lane, where 'a = nat] by simp
  then show ?thesis by (simp add: lane_key_def stoul_print)
qed

lemma lane_key_inj: "lane_key a = lane_key b \<longleftrightarrow> a = b"
  by (metis stoul_lane sum.inject(2))

lemma ascii_lane_key [simp]: "ascii (lane_key lane)"
  by (simp add: lane_key_def)

lemma json_put_new: "k \<notin> fst ` set kvs \<Longrightarrow> mset (json_put k v kvs) = add_mset (k, v) (mset kvs)"
  by (induction k v kvs rule: json_put.induct) auto

lemma fold_put_mset:
  "distinct (map fst kvs) \<Longrightarrow> fst ` set kvs \<inter> fst ` set m = {} \<Longrightarrow>
     mset (fold (\<lambda>(k, v). json_put k v) kvs m) = mset kvs + mset m"
proof (induction kvs arbitrary: m)
  case (Cons kv kvs)
  then show ?case by (cases kv) (auto simp: json_put_new json_put_keys)
qed simp

lemma json_members_mset: "distinct (map fst kvs) \<Longrightarrow> mset (json_members kvs) = mset kvs"
  by (simp add: json_members_def fold_put_mset)

text \<open>Entries with different lanes are read back as \<open>g\<close> of them, in the order of the keys.\<close>

lemma lane_list_reads:
  assumes "json_ok L" "xs \<noteq> []" "distinct (map lane xs)"
    and put: "\<And>x. x \<in> set xs \<Longrightarrow> \<exists>v. put x = Inr (lane_key (lane x), v) \<and> json_wf v \<and> get (lane_key (lane x), v) = Inr (g x)"
  shows "\<exists>s ys. lane_text L False put (Sai_List xs) = Inr s \<and> lane_list L False get s = Sai_List ys \<and>
    mapE get (parsed_members L s) = Inr ys \<and> mset ys = mset (map g xs)"
proof -
  define val where "val x = (SOME v. put x = Inr (lane_key (lane x), v) \<and> json_wf v \<and> get (lane_key (lane x), v) = Inr (g x))" for x
  have val: "put x = Inr (lane_key (lane x), val x) \<and> json_wf (val x) \<and> get (lane_key (lane x), val x) = Inr (g x)" if "x \<in> set xs" for x
    unfolding val_def by (rule someI_ex [OF put [OF that]])
  define kvs where "kvs = map (\<lambda>x. (lane_key (lane x), val x)) xs"
  have p: "mapE put xs = Inr kvs" unfolding kvs_def using val by (intro mapE_Inr) simp
  have d: "distinct (map fst kvs)"
    using assms(3) by (simp add: kvs_def distinct_map inj_on_def lane_key_inj)
  have m: "mset (json_members kvs) = mset kvs" by (rule json_members_mset [OF d])
  have wf: "json_wf (json_object kvs)"
    using val by (intro json_wf_object) (auto simp: kvs_def list_all_iff)
  have r: "json_parse L (json_dump L (json_object kvs)) = Some (json_object kvs)"
    using assms(1) wf by (simp add: json_ok_def)
  define src where "src kv = (SOME x. x \<in> set xs \<and> kv = (lane_key (lane x), val x))" for kv
  have src: "get kv = Inr (g (src kv)) \<and> src kv \<in> set xs \<and> kv = (lane_key (lane (src kv)), val (src kv))" if "kv \<in> set kvs" for kv
  proof -
    from that have "\<exists>x. x \<in> set xs \<and> kv = (lane_key (lane x), val x)" by (auto simp: kvs_def)
    from someI_ex [OF this] have w: "src kv \<in> set xs" "kv = (lane_key (lane (src kv)), val (src kv))"
      by (auto simp only: src_def)
    then have "get (lane_key (lane (src kv)), val (src kv)) = Inr (g (src kv))" using val by blast
    then have "get kv = Inr (g (src kv))" by (simp only: w(2) [symmetric])
    with w show ?thesis by blast
  qed
  have same: "src (lane_key (lane x), val x) = x" if "x \<in> set xs" for x
    using src [of "(lane_key (lane x), val x)"] that assms(3)
    by (auto simp: kvs_def distinct_map lane_key_inj dest: inj_onD)
  have set_eq: "set (json_members kvs) = set kvs" using m by (metis set_mset_mset)
  let ?ys = "map (\<lambda>kv. g (src kv)) (json_members kvs)"
  have g: "mapE get (json_members kvs) = Inr ?ys"
    using src set_eq by (intro mapE_Inr) simp
  have "mset ?ys = mset (map (\<lambda>kv. g (src kv)) kvs)" by (simp only: mset_map m)
  also have "map (\<lambda>kv. g (src kv)) kvs = map g xs" unfolding kvs_def by (simp add: same cong: map_cong)
  finally have "mset ?ys = mset (map g xs)" .
  moreover have "json_members kvs \<noteq> []" using m assms(2) by (auto simp: kvs_def)
  ultimately show ?thesis
    using p g r by (simp add: lane_text_def lane_list_def parsed_members_def Let_def) (simp add: json_object_def)
qed

lemma lane_list_roundtrip:
  assumes "json_ok L" "xs \<noteq> []" "distinct (map lane xs)"
    and put: "\<And>x. x \<in> set xs \<Longrightarrow> \<exists>v. put x = Inr (lane_key (lane x), v) \<and> json_wf v \<and> get (lane_key (lane x), v) = Inr x"
  shows "\<exists>s ys. lane_text L False put (Sai_List xs) = Inr s \<and> lane_list L False get s = Sai_List ys \<and> mset ys = mset xs"
  using lane_list_reads [OF assms(1-3), of put get "\<lambda>x. x"] put by auto

text \<open>A list without elements is the object without members, which is read as a null pointer.\<close>

lemma lane_list_empty:
  assumes "json_ok L" "l = Sai_List [] \<or> l = Null_List 0"
  shows "\<exists>s. lane_text L False put l = Inr s \<and> lane_list L False get s = Null_List 0 \<and> parsed_members L s = []"
proof -
  have "json_parse L (json_dump L (JObj [])) = Some (JObj [])" using assms(1) by (simp add: json_ok_def)
  moreover have "json_object [] = JObj []" by (simp add: json_object_def json_members_def)
  ultimately show ?thesis using assms(2) by (auto simp: lane_text_def lane_list_def parsed_members_def Let_def)
qed

subsection \<open>Latch status of lanes\<close>

definition latch_entry :: "u32 \<times> bool \<times> bool \<Rightarrow> fault + string \<times> json" where
  "latch_entry e =
     (case e of (lane, changed, current_status) \<Rightarrow>
        Inr (lane_key lane, JStr ((if current_status then ''T'' else ''F'') @ (if changed then ''*'' else []))))"

definition sai_serialize_port_lane_latch_status_list ::
  "'x text_lib_scheme \<Rightarrow> (u32 \<times> bool \<times> bool) sai_list \<Rightarrow> bool \<Rightarrow> fault + string" where
  "sai_serialize_port_lane_latch_status_list L l countOnly = lane_text L countOnly latch_entry l"

text \<open>An entry with a bad value stays as \<open>new\<close> left it: \<open>None\<close>.\<close>

definition latch_of_entry :: "string \<times> json \<Rightarrow> fault + (u32 \<times> bool \<times> bool) option" where
  "latch_of_entry kv =
     (case kv of (k, v) \<Rightarrow>
        (case v of
           JStr t \<Rightarrow>
             if t = [] \<or> hd t \<noteq> CHR ''T'' \<and> hd t \<noteq> CHR ''F'' then Inr None
             else bindE (stoul k) (\<lambda>n. Inr (Some (ucast n, last t = CHR ''*'', hd t = CHR ''T'')))
         | _ \<Rightarrow> Inr None))"

definition sai_deserialize_port_lane_latch_status_list ::
  "'x text_lib_scheme \<Rightarrow> string \<Rightarrow> bool \<Rightarrow> (u32 \<times> bool \<times> bool) option sai_list" where
  "sai_deserialize_port_lane_latch_status_list L s countOnly = lane_list L countOnly latch_of_entry s"

lemma latch_of_latch_entry:
  "\<exists>v. latch_entry e = Inr (lane_key (fst e), v) \<and> json_wf v \<and> latch_of_entry (lane_key (fst e), v) = Inr (Some e)"
proof (cases e)
  case (fields lane ch cur)
  have "bindE (stoul (lane_key lane)) (\<lambda>n. Inr (Some (ucast n :: u32, ch, cur))) = Inr (Some (lane, ch, cur))"
    using stoul_lane [of lane] by (cases "stoul (lane_key lane)") auto
  then show ?thesis by (cases ch; cases cur) (simp_all add: fields latch_entry_def latch_of_entry_def)
qed

subsection \<open>Training status of lanes\<close>

definition ilt_entry :: "'x text_lib_scheme \<Rightarrow> u32 \<times> 32 word \<Rightarrow> fault + string \<times> json" where
  "ilt_entry L e =
     bindE (sai_serialize_enum (snd e) (Some (enum_table L EN_port_ilt_lane_training_status))) (\<lambda>s.
       Inr (lane_key (fst e), JStr s))"

definition sai_serialize_port_ilt_lane_training_status_list ::
  "'x text_lib_scheme \<Rightarrow> (u32 \<times> 32 word) sai_list \<Rightarrow> bool \<Rightarrow> fault + string" where
  "sai_serialize_port_ilt_lane_training_status_list L l countOnly = lane_text L countOnly (ilt_entry L) l"

text \<open>The status of an entry with a bad value is \<open>SAI_PORT_ILT_LANE_TRAINING_STATUS_RESERVED\<close>.\<close>

definition ilt_of_entry :: "'x text_lib_scheme \<Rightarrow> 32 word \<Rightarrow> string \<times> json \<Rightarrow> fault + u32 \<times> 32 word" where
  "ilt_of_entry L reserved kv =
     (case kv of (k, v) \<Rightarrow>
        bindE (stoul k) (\<lambda>n.
          (case v of
             JStr t \<Rightarrow>
               bindE (sai_deserialize_enum L t (Some (enum_table L EN_port_ilt_lane_training_status))) (\<lambda>w. Inr (ucast n, w))
           | _ \<Rightarrow> Inr (ucast n, reserved))))"

definition sai_deserialize_port_ilt_lane_training_status_list ::
  "'x text_lib_scheme \<Rightarrow> 32 word \<Rightarrow> string \<Rightarrow> bool \<Rightarrow> (u32 \<times> 32 word) sai_list" where
  "sai_deserialize_port_ilt_lane_training_status_list L reserved s countOnly = lane_list L countOnly (ilt_of_entry L reserved) s"

lemma ilt_of_ilt_entry:
  assumes "text_lib_ok L"
  shows "\<exists>v. ilt_entry L e = Inr (lane_key (fst e), v) \<and> json_wf v \<and> ilt_of_entry L reserved (lane_key (fst e), v) = Inr e"
proof -
  from enum_field [OF assms] obtain s where
    "sai_serialize_enum (snd e) (Some (enum_table L EN_port_ilt_lane_training_status)) = Inr s"
    "sai_deserialize_enum L s (Some (enum_table L EN_port_ilt_lane_training_status)) = Inr (snd e)" "plain s" .
  moreover have "bindE (stoul (lane_key (fst e))) (\<lambda>n. Inr (ucast n :: u32, snd e)) = Inr e"
    using stoul_lane [of "fst e"] by (cases "stoul (lane_key (fst e))") (auto simp: prod_eq_iff)
  ultimately show ?thesis by (simp add: ilt_entry_def ilt_of_entry_def plainD)
qed

lemma ilt_list_roundtrip:
  assumes "text_lib_ok L" "xs \<noteq> []" "distinct (map fst xs)"
  shows "\<exists>s ys. sai_serialize_port_ilt_lane_training_status_list L (Sai_List xs) False = Inr s \<and>
     sai_deserialize_port_ilt_lane_training_status_list L reserved s False = Sai_List ys \<and> mset ys = mset xs"
  unfolding sai_serialize_port_ilt_lane_training_status_list_def sai_deserialize_port_ilt_lane_training_status_list_def
  using text_lib_okD(2) [OF assms(1)] assms(2,3) by (rule lane_list_roundtrip) (rule ilt_of_ilt_entry [OF assms(1)])

text \<open>A read entry that is not \<open>None\<close> is the entry: the latch list through the same lemma, at the type with \<open>Some\<close>.\<close>

lemma latch_list_roundtrip:
  assumes "json_ok L" "xs \<noteq> []" "distinct (map fst xs)"
  shows "\<exists>s ys. sai_serialize_port_lane_latch_status_list L (Sai_List xs) False = Inr s \<and>
     sai_deserialize_port_lane_latch_status_list L s False = Sai_List ys \<and> mset ys = mset (map Some xs)"
proof -
  let ?put = "\<lambda>e. latch_entry (the e)"
  have "mapE ?put (map Some xs) = mapE latch_entry xs" by (induction xs) simp_all
  then have "lane_text L False latch_entry (Sai_List xs) = lane_text L False ?put (Sai_List (map Some xs))"
    by (simp add: lane_text_def)
  moreover have "\<exists>s ys. lane_text L False ?put (Sai_List (map Some xs)) = Inr s \<and>
      lane_list L False latch_of_entry s = Sai_List ys \<and> mset ys = mset (map Some xs)"
  proof (rule lane_list_roundtrip [where lane = "\<lambda>e. fst (the e)", OF assms(1)])
    fix e assume "e \<in> set (map Some xs)"
    then show "\<exists>v. latch_entry (the e) = Inr (lane_key (fst (the e)), v) \<and> json_wf v \<and>
        latch_of_entry (lane_key (fst (the e)), v) = Inr e"
      using latch_of_latch_entry [of "the e"] by auto
  qed (use assms in \<open>simp_all add: o_def\<close>)
  ultimately show ?thesis
    by (simp add: sai_serialize_port_lane_latch_status_list_def sai_deserialize_port_lane_latch_status_list_def)
qed

subsection \<open>Signal to noise ratio of lanes\<close>

text \<open>
  The raw value is in units of 1/256 dB. \<open>std::round(raw / 256.0 * 100.0) / 100.0\<close> is written: the quotient and the
  product are exact in doubles, so it is the double nearest to the rounded number of hundredths. On the way back
  \<open>std::round(dB * 256.0)\<close> is the rounded exact value, as \<open>64 / 25\<close> of an integer is at least 1/50 from a half. The
  conversion to 16 bits of a value out of range is undefined.
\<close>

definition snr_hundredths :: "16 word \<Rightarrow> int" where
  "snr_hundredths raw = (uint raw * 100 + 128) div 256"

definition snr_entry :: "u32 \<times> 16 word \<Rightarrow> fault + string \<times> json" where
  "snr_entry e = Inr (lane_key (fst e), JDec (snr_hundredths (snd e)))"

definition sai_serialize_port_snr_list :: "'x text_lib_scheme \<Rightarrow> (u32 \<times> 16 word) sai_list \<Rightarrow> bool \<Rightarrow> fault + string" where
  "sai_serialize_port_snr_list L l countOnly = lane_text L countOnly snr_entry l"

definition snr_raw :: "int \<Rightarrow> int" where
  "snr_raw n = (if n < 0 then - ((- n * 256 + 50) div 100) else (n * 256 + 50) div 100)"

definition snr_of_entry :: "string \<times> json \<Rightarrow> fault + (u32 \<times> 16 word) option" where
  "snr_of_entry kv =
     (case kv of (k, v) \<Rightarrow>
        (case (case v of JDec n \<Rightarrow> Some (snr_raw n) | JNum n \<Rightarrow> Some (n * 256) | _ \<Rightarrow> None) of
           None \<Rightarrow> Inr None
         | Some raw \<Rightarrow> bindE (stoul k) (\<lambda>n.
             if raw < 0 \<or> 2 ^ 16 \<le> raw then Inl Signed_Overflow else Inr (Some (ucast n, word_of_int raw)))))"

text \<open>What is undefined is not caught.\<close>

definition sai_deserialize_port_snr_list :: "'x text_lib_scheme \<Rightarrow> string \<Rightarrow> bool \<Rightarrow> fault + (u32 \<times> 16 word) option sai_list" where
  "sai_deserialize_port_snr_list L s countOnly =
     (if \<not> countOnly \<and> mapE snr_of_entry (parsed_members L s) = Inl Signed_Overflow then Inl Signed_Overflow
      else Inr (lane_list L countOnly snr_of_entry s))"

text \<open>The value read back differs from the raw value by at most one; only the largest value is out of range.\<close>

lemma div_bounds: "(0 :: int) < d \<Longrightarrow> d * (n div d) \<le> n" "(0 :: int) < d \<Longrightarrow> n < d * (n div d) + d"
  using mult_div_mod_eq [of d n] pos_mod_bound [of d n] pos_mod_sign [of d n] by linarith+

lemma snr_error: "\<bar>snr_raw (snr_hundredths raw) - uint raw\<bar> \<le> 1"
proof -
  let ?h = "snr_hundredths raw"
  have k: "0 \<le> uint raw" by simp
  then have h: "0 \<le> ?h" by (simp add: snr_hundredths_def pos_imp_zdiv_nonneg_iff)
  have "256 * ?h \<le> uint raw * 100 + 128" "uint raw * 100 + 128 < 256 * ?h + 256"
    unfolding snr_hundredths_def by (rule div_bounds; simp)+
  moreover have "100 * snr_raw ?h \<le> ?h * 256 + 50" "?h * 256 + 50 < 100 * snr_raw ?h + 100"
    using h unfolding snr_raw_def by (simp_all add: div_bounds(2))
  ultimately show ?thesis by linarith
qed

lemma snr_arith:
  fixes h k r :: int
  assumes "256 * h \<le> k * 100 + 128" "k * 100 + 128 < 256 * h + 256" "100 * r \<le> h * 256 + 50" "h * 256 + 50 < 100 * r + 100"
    "k < 65536"
  shows "r = 65536 \<longleftrightarrow> k = 65535"
proof
  assume "r = 65536"
  with assms have "\<not> h \<le> 25599" by linarith
  with assms have "\<not> k \<le> 65534" by linarith
  with assms show "k = 65535" by linarith
next
  assume "k = 65535"
  with assms have "\<not> h \<le> 25599" "\<not> 25601 \<le> h" by linarith+
  then have "h = 25600" by linarith
  with assms have "\<not> r \<le> 65535" "\<not> 65537 \<le> r" by linarith+
  then show "r = 65536" by linarith
qed

lemma snr_largest: "snr_raw (snr_hundredths raw) = 2 ^ 16 \<longleftrightarrow> uint raw = 2 ^ 16 - 1"
proof -
  let ?h = "snr_hundredths raw"
  have k: "0 \<le> uint raw" "uint raw < 2 ^ 16" using uint_lt2p [of raw] by simp_all
  then have h: "0 \<le> ?h" by (simp add: snr_hundredths_def pos_imp_zdiv_nonneg_iff)
  have "256 * ?h \<le> uint raw * 100 + 128" "uint raw * 100 + 128 < 256 * ?h + 256"
    unfolding snr_hundredths_def by (rule div_bounds; simp)+
  moreover have "100 * snr_raw ?h \<le> ?h * 256 + 50" "?h * 256 + 50 < 100 * snr_raw ?h + 100"
    using h unfolding snr_raw_def by (simp_all add: div_bounds(2))
  ultimately have "snr_raw ?h = 65536 \<longleftrightarrow> uint raw = 65535"
    using k by (intro snr_arith [of ?h "uint raw"]) simp_all
  then show ?thesis by simp
qed

text \<open>An entry as it is read back, and the round trip of a list without the largest value.\<close>

definition snr_read :: "u32 \<times> 16 word \<Rightarrow> (u32 \<times> 16 word) option" where
  "snr_read e = Some (fst e, word_of_int (snr_raw (snr_hundredths (snd e))))"

lemma snr_in_range:
  assumes "raw \<noteq> 65535"
  shows "0 \<le> snr_raw (snr_hundredths raw)" "snr_raw (snr_hundredths raw) < 2 ^ 16"
proof -
  have h: "0 \<le> snr_hundredths raw" by (simp add: snr_hundredths_def pos_imp_zdiv_nonneg_iff)
  then show "0 \<le> snr_raw (snr_hundredths raw)" by (simp add: snr_raw_def pos_imp_zdiv_nonneg_iff)
  have "uint raw \<noteq> 2 ^ 16 - 1" using assms by (simp add: word_uint_eq_iff)
  with snr_largest [of raw] have "snr_raw (snr_hundredths raw) \<noteq> 2 ^ 16" by blast
  moreover have "uint raw < 2 ^ 16" using uint_lt2p [of raw] by simp
  ultimately show "snr_raw (snr_hundredths raw) < 2 ^ 16"
    using snr_error [of raw] \<open>uint raw \<noteq> 2 ^ 16 - 1\<close> by linarith
qed

lemma snr_read_close:
  assumes "snd e \<noteq> 65535"
  shows "\<exists>raw. snr_read e = Some (fst e, raw) \<and> \<bar>uint raw - uint (snd e)\<bar> \<le> 1"
  using snr_error [of "snd e"] snr_in_range [OF assms]
  by (simp add: snr_read_def uint_word_of_int_eq take_bit_int_eq_self)

lemma snr_of_snr_entry:
  assumes "snd e \<noteq> 65535"
  shows "\<exists>v. snr_entry e = Inr (lane_key (fst e), v) \<and> json_wf v \<and> snr_of_entry (lane_key (fst e), v) = Inr (snr_read e)"
proof -
  obtain n where n: "stoul (lane_key (fst e)) = Inr n" "ucast n = fst e"
    using stoul_lane [of "fst e"] by (cases "stoul (lane_key (fst e))") auto
  have "256 * snr_hundredths (snd e) \<le> uint (snd e) * 100 + 128"
    unfolding snr_hundredths_def by (rule div_bounds) simp
  moreover have "uint (snd e) < 65536" using uint_lt2p [of "snd e"] by simp
  ultimately have "snr_hundredths (snd e) < 25601" by linarith
  moreover have "0 \<le> snr_hundredths (snd e)" by (simp add: snr_hundredths_def pos_imp_zdiv_nonneg_iff)
  ultimately have "\<bar>snr_hundredths (snd e)\<bar> < 2 ^ 31" by simp
  with n snr_in_range [OF assms] show ?thesis by (simp add: snr_entry_def snr_of_entry_def snr_read_def)
qed

lemma snr_list_roundtrip:
  assumes "json_ok L" "xs \<noteq> []" "distinct (map fst xs)" "65535 \<notin> snd ` set xs"
  shows "\<exists>s ys. sai_serialize_port_snr_list L (Sai_List xs) False = Inr s \<and>
     sai_deserialize_port_snr_list L s False = Inr (Sai_List ys) \<and> mset ys = mset (map snr_read xs)"
proof -
  have "\<exists>v. snr_entry x = Inr (lane_key (fst x), v) \<and> json_wf v \<and> snr_of_entry (lane_key (fst x), v) = Inr (snr_read x)"
    if "x \<in> set xs" for x
    using that assms(4) by (intro snr_of_snr_entry) force
  from lane_list_reads [OF assms(1-3) this] show ?thesis
    by (fastforce simp: sai_serialize_port_snr_list_def sai_deserialize_port_snr_list_def)
qed

section \<open>Taps\<close>

text \<open>
  \<open>sai_taps_list_t\<close>: for each tap the list of its values on the lanes. It is written by lane: for each lane an array
  with an object for each tap, empty where the tap has no value for the lane.
\<close>

definition tap_key :: "nat \<Rightarrow> string" where
  "tap_key i = ''tap'' @ print_nat 10 i"

definition tap_object :: "32 word sai_list \<Rightarrow> nat \<Rightarrow> nat \<Rightarrow> json" where
  "tap_object tap i lane =
     (case tap of
        Sai_List vs \<Rightarrow> if lane < length vs then json_object [(tap_key i, JNum (sint (vs ! lane)))] else JObj []
      | Null_List n \<Rightarrow> JObj [])"

definition taps_json :: "32 word sai_list sai_list \<Rightarrow> json" where
  "taps_json taps =
     (case taps of
        Null_List n \<Rightarrow> JObj []
      | Sai_List ts \<Rightarrow>
          if ts = [] then JObj []
          else (case ts ! 0 of
              Null_List n \<Rightarrow> JObj []
            | Sai_List vs \<Rightarrow>
                json_object (map (\<lambda>lane. (print_nat 10 lane, JArr (map (\<lambda>i. tap_object (ts ! i) i lane) [0..<length ts])))
                  [0..<length vs])))"

definition sai_serialize_taps_list :: "'x text_lib_scheme \<Rightarrow> 32 word sai_list sai_list \<Rightarrow> bool \<Rightarrow> string" where
  "sai_serialize_taps_list L taps countOnly =
     (if countOnly then print_nat 10 (list_count taps) else json_dump L (taps_json taps))"

definition read_tap :: "(string \<times> json) list \<Rightarrow> nat \<Rightarrow> nat \<Rightarrow> fault + 32 word" where
  "read_tap kvs i lane =
     (case map_of kvs (print_nat 10 lane) of
        None \<Rightarrow> Inl (Throw ''json out_of_range'')
      | Some (JArr js) \<Rightarrow>
          if length js \<le> i then Inl (Throw ''Tap index out of bounds'')
          else (case js ! i of
              JObj m \<Rightarrow> (case map_of m (tap_key i) of None \<Rightarrow> Inl (Throw ''Missing tap key'') | Some v \<Rightarrow> json_number v)
            | _ \<Rightarrow> Inl (Throw ''Tap is not an object''))
      | Some _ \<Rightarrow> Inl (Throw ''Lane is not an array''))"

text \<open>The number of lanes is that of the members, the number of taps that of the first lane. An exception gives the empty list.\<close>

definition sai_deserialize_taps_list :: "'x text_lib_scheme \<Rightarrow> string \<Rightarrow> bool \<Rightarrow> fault + 32 word sai_list sai_list" where
  "sai_deserialize_taps_list L s countOnly =
     (if countOnly then bindE (sai_deserialize_number False s) (\<lambda>n. Inr (Null_List n))
      else (let kvs = parsed_members L s in
        case map_of kvs ''0'' of
          Some (JArr js) \<Rightarrow>
            if js = [] then Inr (Null_List 0)
            else (case mapE (\<lambda>i. mapE (read_tap kvs i) [0..<length kvs]) [0..<length js] of
                Inl e \<Rightarrow> Inr (Null_List 0)
              | Inr rows \<Rightarrow> Inr (Sai_List (map Sai_List rows)))
        | _ \<Rightarrow> Inr (Null_List 0)))"

lemma print_nat_inj: "print_nat 10 a = print_nat 10 b \<longleftrightarrow> a = b"
proof
  assume eq: "print_nat 10 a = print_nat 10 b"
  have "read_digits 10 0 (print_nat 10 a) = (a, [])" by (rule read_digits_print) simp_all
  moreover have "read_digits 10 0 (print_nat 10 b) = (b, [])" by (rule read_digits_print) simp_all
  ultimately have "(a, []) = (b, [] :: string)" by (simp only: eq)
  then show "a = b" by simp
qed simp

text \<open>The members by lane of a list whose first tap has values for \<open>n\<close> lanes.\<close>

definition taps_members :: "32 word sai_list list \<Rightarrow> nat \<Rightarrow> (string \<times> json) list" where
  "taps_members ts n =
     json_members (map (\<lambda>lane. (print_nat 10 lane, JArr (map (\<lambda>i. tap_object (ts ! i) i lane) [0..<length ts]))) [0..<n])"

lemma distinct_lane_keys: "distinct (map fst (map (\<lambda>lane. (print_nat 10 lane, f lane)) [0..<n]))"
  by (simp add: distinct_map inj_on_def print_nat_inj o_def)

lemma taps_members_length: "length (taps_members ts n) = n"
  using arg_cong [OF json_members_mset [OF distinct_lane_keys], of size] by (simp add: taps_members_def)

lemma taps_members_lane:
  assumes "lane < n"
  shows "map_of (taps_members ts n) (print_nat 10 lane) = Some (JArr (map (\<lambda>i. tap_object (ts ! i) i lane) [0..<length ts]))"
proof -
  let ?kvs = "map (\<lambda>lane. (print_nat 10 lane, JArr (map (\<lambda>i. tap_object (ts ! i) i lane) [0..<length ts]))) [0..<n]"
  have "distinct (map fst (rev ?kvs))" by (simp only: rev_map [symmetric] distinct_rev distinct_lane_keys)
  then have "map_of (rev ?kvs) (print_nat 10 lane) = Some (JArr (map (\<lambda>i. tap_object (ts ! i) i lane) [0..<length ts]))"
    using assms by (subst map_of_eq_Some_iff) auto
  then show ?thesis by (simp only: taps_members_def map_of_members)
qed

lemma taps_printed:
  assumes "json_ok L" "ts \<noteq> []" "ts ! 0 = Sai_List vs" "length vs = n"
  shows "parsed_members L (sai_serialize_taps_list L (Sai_List ts) False) = taps_members ts n"
proof -
  have "taps_json (Sai_List ts) = JObj (taps_members ts n)"
    using assms by (simp add: taps_json_def taps_members_def json_object_def)
  moreover have "json_wf (JObj (taps_members ts n))"
    unfolding taps_members_def json_object_def [symmetric]
  proof (rule json_wf_object)
    have "json_wf (tap_object t i lane)" for t i lane
      by (cases t) (simp_all add: tap_object_def json_wf_object tap_key_def)
    then show "list_all (\<lambda>(k, v). ascii k \<and> json_wf v)
        (map (\<lambda>lane. (print_nat 10 lane, JArr (map (\<lambda>i. tap_object (ts ! i) i lane) [0..<length ts]))) [0..<n])"
      by (auto simp: list_all_iff)
  qed
  ultimately show ?thesis
    using assms(1) by (simp add: sai_serialize_taps_list_def parsed_members_def json_ok_def del: json_wf.simps)
qed

lemma deserialize_taps:
  assumes "parsed_members L s = taps_members ts n" "ts \<noteq> []" "n \<noteq> 0"
  shows "sai_deserialize_taps_list L s False =
     (case mapE (\<lambda>i. mapE (read_tap (taps_members ts n) i) [0..<n]) [0..<length ts] of
        Inl e \<Rightarrow> Inr (Null_List 0) | Inr rows \<Rightarrow> Inr (Sai_List (map Sai_List rows)))"
proof -
  have "map_of (taps_members ts n) ''0'' = Some (JArr (map (\<lambda>i. tap_object (ts ! i) i 0) [0..<length ts]))"
    using taps_members_lane [of 0 n ts] assms(3) by (simp add: print_nat.simps digit_char_def)
  then show ?thesis using assms(1,2) by (simp add: sai_deserialize_taps_list_def taps_members_length Let_def)
qed

text \<open>Taps with a value for every lane are read back as they were.\<close>

lemma taps_roundtrip:
  assumes "json_ok L" "rows \<noteq> []" "n \<noteq> 0" "\<forall>vs \<in> set rows. length vs = n"
  shows "sai_deserialize_taps_list L (sai_serialize_taps_list L (Sai_List (map Sai_List rows)) False) False =
     Inr (Sai_List (map Sai_List rows))"
proof -
  let ?ts = "map Sai_List rows"
  have row: "length (rows ! i) = n" if "i < length rows" for i using assms(4) that by simp
  have "read_tap (taps_members ?ts n) i lane = Inr (rows ! i ! lane)" if "i < length rows" "lane < n" for i lane
  proof -
    have "tap_object (?ts ! i) i lane = json_object [(tap_key i, JNum (sint (rows ! i ! lane)))]"
      using that row by (simp add: tap_object_def)
    then show ?thesis
      using that by (simp add: read_tap_def taps_members_lane) (simp add: json_object_def map_of_members json_number_def)
  qed
  then have "mapE (\<lambda>i. mapE (read_tap (taps_members ?ts n) i) [0..<n]) [0..<length ?ts] =
      Inr (map (\<lambda>i. map (\<lambda>lane. rows ! i ! lane) [0..<n]) [0..<length rows])"
    by (subst mapE_Inr [where g = "\<lambda>i. map (\<lambda>lane. rows ! i ! lane) [0..<n]"])
      (auto intro!: mapE_Inr)
  also have "map (\<lambda>i. map (\<lambda>lane. rows ! i ! lane) [0..<n]) [0..<length rows] = rows"
    using row by (intro nth_equalityI) (auto intro: nth_equalityI)
  finally have "mapE (\<lambda>i. mapE (read_tap (taps_members ?ts n) i) [0..<n]) [0..<length ?ts] = Inr rows" .
  moreover have "?ts ! 0 = Sai_List (rows ! 0)" "length (rows ! 0) = n" using assms(2) row [of 0] by auto
  ultimately show ?thesis
    using assms by (simp add: deserialize_taps [OF taps_printed [OF assms(1)], of ?ts "rows ! 0" n])
qed

text \<open>A tap without a value for one of the lanes loses the whole list.\<close>

lemma mapE_Inl: "x \<in> set xs \<Longrightarrow> f x = Inl e \<Longrightarrow> \<exists>e'. mapE f xs = Inl e'"
proof (induction xs)
  case (Cons y ys)
  then show ?case by (cases "f y") auto
qed simp

lemma taps_hole:
  assumes "json_ok L" "ts ! 0 = Sai_List vs" "i < length ts" "lane < length vs"
    and hole: "ts ! i = Null_List m \<or> (\<exists>ws. ts ! i = Sai_List ws \<and> length ws \<le> lane)"
  shows "sai_deserialize_taps_list L (sai_serialize_taps_list L (Sai_List ts) False) False = Inr (Null_List 0)"
proof -
  let ?n = "length vs"
  have "tap_object (ts ! i) i lane = JObj []" using hole by (auto simp: tap_object_def)
  then have "read_tap (taps_members ts ?n) i lane = Inl (Throw ''Missing tap key'')"
    using assms(3,4) by (simp add: read_tap_def taps_members_lane)
  then obtain e where "mapE (read_tap (taps_members ts ?n) i) [0..<?n] = Inl e"
    using mapE_Inl [of lane "[0..<?n]" "read_tap (taps_members ts ?n) i"] assms(4) by auto
  then obtain e' where "mapE (\<lambda>i. mapE (read_tap (taps_members ts ?n) i) [0..<?n]) [0..<length ts] = Inl e'"
    using mapE_Inl [of i "[0..<length ts]" "\<lambda>i. mapE (read_tap (taps_members ts ?n) i) [0..<?n]"] assms(3) by auto
  then show ?thesis
    using assms by (subst deserialize_taps [OF taps_printed [OF assms(1) _ assms(2) refl]]) auto
qed

end
