(* ===== verification/Ser_Attr.thy ===== *)
theory Ser_Attr
  imports Ser_Lanes
begin

text \<open>
  Attribute values as text: \<open>sai_serialize_attr_value\<close> and \<open>sai_deserialize_attr_value\<close> of \<open>meta/SaiSerialize.cpp\<close>, which
  select the functions of the theories before by the type of the attribute; and lists of attributes,
  \<open>meta/SaiAttributeList.cpp\<close>.
\<close>

section \<open>Types and values\<close>

text \<open>\<open>sai_attr_value_type_t\<close>, without its prefix; \<open>T_OTHER\<close> is any type the two functions refuse.\<close>

datatype (plugins only: size) ser_type =
    T_BOOL | T_CHARDATA | T_UINT8 | T_INT8 | T_UINT16 | T_JSON | T_INT16 | T_UINT32 | T_INT32 | T_UINT64 | T_INT64 | T_MAC
  | T_IPV4 | T_IPV6 | T_POINTER | T_IP_ADDRESS | T_IP_PREFIX | T_OBJECT_ID | T_OBJECT_LIST | T_UINT8_LIST | T_INT8_LIST
  | T_LATCH_STATUS | T_PORT_LANE_LATCH_STATUS_LIST | T_PORT_ILT_LANE_TRAINING_STATUS_LIST | T_PORT_SNR_LIST | T_TAPS_LIST
  | T_UINT16_LIST | T_UINT32_LIST | T_INT32_LIST | T_UINT16_RANGE | T_UINT32_RANGE | T_UINT16_RANGE_LIST | T_UINT64_RANGE
  | T_UINT64_RANGE_LIST | T_VLAN_LIST | T_QOS_MAP_LIST | T_MAP_LIST | T_ACL_RESOURCE_LIST | T_IP_ADDRESS_LIST | T_SEGMENT_LIST
  | T_ACL_FIELD_DATA acl_suffix | T_ACL_ACTION_DATA acl_suffix | T_ACL_CAPABILITY | T_AUTH_KEY | T_ENCRYPT_KEY | T_MACSEC_SAK
  | T_MACSEC_AUTH_KEY | T_MACSEC_SALT | T_SYSTEM_PORT_CONFIG | T_SYSTEM_PORT_CONFIG_LIST | T_IP_PREFIX_LIST
  | T_POE_PORT_POWER_CONSUMPTION | T_OTHER nat

text \<open>The members of \<open>sai_attribute_value_t\<close>, by their names; entries of lists by lane that are not written are \<open>None\<close>.\<close>

datatype (plugins only: size) ser_value =
    V_booldata bool | V_chardata "8 word list" | V_u8 "8 word" | V_s8 "8 word" | V_u16 "16 word" | V_json "8 word sai_list"
  | V_s16 "16 word" | V_u32 u32 | V_s32 "32 word" | V_u64 u64 | V_s64 u64 | V_mac "8 word list" | V_ip4 "8 word list"
  | V_ip6 "8 word list" | V_ptr u64 | V_ipaddr sai_ip_address | V_ipprefix sai_ip_prefix | V_oid oid | V_objlist "oid sai_list"
  | V_u8list "8 word sai_list" | V_s8list "8 word sai_list" | V_latchstatus "bool \<times> bool"
  | V_portlanelatchstatuslist "(u32 \<times> bool \<times> bool) option sai_list"
  | V_port_ilt_lane_training_status_list "(u32 \<times> 32 word) sai_list" | V_portsnrlist "(u32 \<times> 16 word) option sai_list"
  | V_portserdestaps "32 word sai_list sai_list" | V_u16list "16 word sai_list" | V_u32list "u32 sai_list"
  | V_s32list "32 word sai_list" | V_u16range "16 word \<times> 16 word" | V_u32range "u32 \<times> u32"
  | V_u16rangelist "(16 word \<times> 16 word) sai_list" | V_u64range "u64 \<times> u64" | V_u64rangelist "(u64 \<times> u64) sai_list"
  | V_vlanlist "16 word sai_list" | V_qosmap "(qos_params \<times> qos_params) sai_list" | V_maplist "(u32 \<times> 32 word) sai_list"
  | V_aclresource "acl_resource sai_list" | V_ipaddrlist "sai_ip_address sai_list" | V_segmentlist "8 word list sai_list"
  | V_aclfield "field_data option" | V_aclaction "action_data option" | V_aclcapability "bool \<times> 32 word sai_list"
  | V_authkey "8 word list" | V_encrypt_key "8 word list" | V_macsecsak "8 word list" | V_macsecauthkey "8 word list"
  | V_macsecsalt "8 word list" | V_sysportconfig system_port | V_sysportconfiglist "system_port sai_list"
  | V_ipprefixlist "sai_ip_prefix sai_list" | V_portpowerconsumption poe_consumption

text \<open>
  What the functions take from the metadata of the attribute and the headers: the type, the enum table or a null
  pointer, the sizes of the arrays of bytes by type, and the reserved training status.
\<close>

record ser_md =
  sm_type :: ser_type
  sm_enum :: "enum_md option"
  sm_size :: "ser_type \<Rightarrow> nat"
  sm_reserved :: "32 word"

text \<open>Reading another member of the union than the type of the attribute selects is not modelled.\<close>

definition wrong_member :: "fault + 'a" where
  "wrong_member = Inl (Null_Deref ''another member of the union'')"

definition dispatch :: "bool \<Rightarrow> fault + 'a \<Rightarrow> fault + 'a" where
  "dispatch selected r = (if selected then r else wrong_member)"

text \<open>The elements of a list by lane that have been written.\<close>

definition written :: "'a option sai_list \<Rightarrow> 'a sai_list" where
  "written l = (case l of Null_List n \<Rightarrow> Null_List n | Sai_List xs \<Rightarrow> Sai_List (map the xs))"

definition all_written :: "'a option sai_list \<Rightarrow> bool" where
  "all_written l = (case l of Null_List n \<Rightarrow> True | Sai_List xs \<Rightarrow> list_all (\<lambda>x. x \<noteq> None) xs)"

text \<open>
  \<open>case\<close> over the values, each with the type that selects its member. The types of the fields and actions of access
  control lists select by their suffix; an element that was not written is read as it happens to be, which is refused here.
\<close>

definition sai_serialize_attr_value :: "'x text_lib_scheme \<Rightarrow> ser_md \<Rightarrow> ser_value \<Rightarrow> bool \<Rightarrow> fault + string" where
  "sai_serialize_attr_value L md v countOnly =
     (let ty = sm_type md in
      case v of
        V_booldata b \<Rightarrow> dispatch (ty = T_BOOL) (Inr (sai_serialize_bool b))
      | V_chardata cs \<Rightarrow> dispatch (ty = T_CHARDATA) (Inr (sai_serialize_chardata cs))
      | V_u8 w \<Rightarrow> dispatch (ty = T_UINT8) (Inr (sai_serialize_number False w))
      | V_s8 w \<Rightarrow> dispatch (ty = T_INT8) (Inr (sai_serialize_signed False w))
      | V_u16 w \<Rightarrow> dispatch (ty = T_UINT16) (Inr (sai_serialize_number False w))
      | V_json js \<Rightarrow> dispatch (ty = T_JSON) (sai_serialize_json L js)
      | V_s16 w \<Rightarrow> dispatch (ty = T_INT16) (Inr (sai_serialize_signed False w))
      | V_u32 w \<Rightarrow> dispatch (ty = T_UINT32) (Inr (sai_serialize_number False w))
      | V_s32 w \<Rightarrow> dispatch (ty = T_INT32) (sai_serialize_enum w (sm_enum md))
      | V_u64 w \<Rightarrow> dispatch (ty = T_UINT64) (Inr (sai_serialize_number False w))
      | V_s64 w \<Rightarrow> dispatch (ty = T_INT64) (Inr (sai_serialize_signed False w))
      | V_mac m \<Rightarrow> dispatch (ty = T_MAC) (Inr (sai_serialize_mac m))
      | V_ip4 a \<Rightarrow> dispatch (ty = T_IPV4) (Inr (sai_serialize_ipv4 a))
      | V_ip6 a \<Rightarrow> dispatch (ty = T_IPV6) (Inr (sai_serialize_ipv6 L a))
      | V_ptr p \<Rightarrow> dispatch (ty = T_POINTER) (Inr (sai_serialize_number True p))
      | V_ipaddr a \<Rightarrow> dispatch (ty = T_IP_ADDRESS) (sai_serialize_ip_address L a)
      | V_ipprefix p \<Rightarrow> dispatch (ty = T_IP_PREFIX) (sai_serialize_ip_prefix L p)
      | V_oid oid \<Rightarrow> dispatch (ty = T_OBJECT_ID) (Inr (sai_serialize_object_id oid))
      | V_objlist l \<Rightarrow> dispatch (ty = T_OBJECT_LIST) (sai_serialize_oid_list l countOnly)
      | V_u8list l \<Rightarrow> dispatch (ty = T_UINT8_LIST) (sai_serialize_number_list l countOnly False)
      | V_s8list l \<Rightarrow> dispatch (ty = T_INT8_LIST) (sai_serialize_signed_list l countOnly False)
      | V_latchstatus ls \<Rightarrow> dispatch (ty = T_LATCH_STATUS) (Inr (sai_serialize_latch_status ls))
      | V_portlanelatchstatuslist l \<Rightarrow> dispatch (ty = T_PORT_LANE_LATCH_STATUS_LIST \<and> all_written l)
          (sai_serialize_port_lane_latch_status_list L (written l) countOnly)
      | V_port_ilt_lane_training_status_list l \<Rightarrow> dispatch (ty = T_PORT_ILT_LANE_TRAINING_STATUS_LIST)
          (sai_serialize_port_ilt_lane_training_status_list L l countOnly)
      | V_portsnrlist l \<Rightarrow> dispatch (ty = T_PORT_SNR_LIST \<and> all_written l) (sai_serialize_port_snr_list L (written l) countOnly)
      | V_portserdestaps l \<Rightarrow> dispatch (ty = T_TAPS_LIST) (Inr (sai_serialize_taps_list L l countOnly))
      | V_u16list l \<Rightarrow> dispatch (ty = T_UINT16_LIST) (sai_serialize_number_list l countOnly False)
      | V_u32list l \<Rightarrow> dispatch (ty = T_UINT32_LIST) (sai_serialize_number_list l countOnly False)
      | V_s32list l \<Rightarrow> dispatch (ty = T_INT32_LIST) (sai_serialize_enum_list l (sm_enum md) countOnly)
      | V_u16range r \<Rightarrow> dispatch (ty = T_UINT16_RANGE) (Inr (sai_serialize_range r))
      | V_u32range r \<Rightarrow> dispatch (ty = T_UINT32_RANGE) (Inr (sai_serialize_range r))
      | V_u16rangelist l \<Rightarrow> dispatch (ty = T_UINT16_RANGE_LIST) (sai_serialize_range_list l countOnly)
      | V_u64range r \<Rightarrow> dispatch (ty = T_UINT64_RANGE) (Inr (sai_serialize_range r))
      | V_u64rangelist l \<Rightarrow> dispatch (ty = T_UINT64_RANGE_LIST) (sai_serialize_range_list l countOnly)
      | V_vlanlist l \<Rightarrow> dispatch (ty = T_VLAN_LIST) (sai_serialize_number_list l countOnly False)
      | V_qosmap l \<Rightarrow> dispatch (ty = T_QOS_MAP_LIST) (sai_serialize_qos_map_list L l countOnly)
      | V_maplist l \<Rightarrow> dispatch (ty = T_MAP_LIST) (sai_serialize_map_list L l countOnly)
      | V_aclresource l \<Rightarrow> dispatch (ty = T_ACL_RESOURCE_LIST) (sai_serialize_acl_resource_list L l countOnly)
      | V_ipaddrlist l \<Rightarrow> dispatch (ty = T_IP_ADDRESS_LIST) (sai_serialize_ip_address_list L l countOnly)
      | V_segmentlist l \<Rightarrow> dispatch (ty = T_SEGMENT_LIST) (sai_serialize_segment_list L l countOnly)
      | V_aclfield f \<Rightarrow>
          dispatch (case ty of T_ACL_FIELD_DATA t \<Rightarrow> (case f of None \<Rightarrow> True | Some fd \<Rightarrow> field_suffix fd = t) | _ \<Rightarrow> False)
            (sai_serialize_acl_field L (sm_enum md) f countOnly)
      | V_aclaction a \<Rightarrow>
          dispatch (case ty of T_ACL_ACTION_DATA t \<Rightarrow> (case a of None \<Rightarrow> True | Some ad \<Rightarrow> action_suffix ad = t) | _ \<Rightarrow> False)
            (sai_serialize_acl_action L (sm_enum md) a countOnly)
      | V_aclcapability c \<Rightarrow> dispatch (ty = T_ACL_CAPABILITY) (sai_serialize_acl_capability L c countOnly)
      | V_authkey bs \<Rightarrow> dispatch (ty = T_AUTH_KEY) (Inr (sai_serialize_hex_binary bs))
      | V_encrypt_key bs \<Rightarrow> dispatch (ty = T_ENCRYPT_KEY) (Inr (sai_serialize_hex_binary bs))
      | V_macsecsak bs \<Rightarrow> dispatch (ty = T_MACSEC_SAK) (Inr (sai_serialize_hex_binary bs))
      | V_macsecauthkey bs \<Rightarrow> dispatch (ty = T_MACSEC_AUTH_KEY) (Inr (sai_serialize_hex_binary bs))
      | V_macsecsalt bs \<Rightarrow> dispatch (ty = T_MACSEC_SALT) (Inr (sai_serialize_hex_binary bs))
      | V_sysportconfig c \<Rightarrow> dispatch (ty = T_SYSTEM_PORT_CONFIG) (sai_serialize_system_port_config L c)
      | V_sysportconfiglist l \<Rightarrow> dispatch (ty = T_SYSTEM_PORT_CONFIG_LIST) (sai_serialize_system_port_config_list L l countOnly)
      | V_ipprefixlist l \<Rightarrow> dispatch (ty = T_IP_PREFIX_LIST) (sai_serialize_ip_prefix_list L l countOnly)
      | V_portpowerconsumption p \<Rightarrow> dispatch (ty = T_POE_PORT_POWER_CONSUMPTION) (sai_serialize_poe_port_power_consumption L p))"

definition as :: "('a \<Rightarrow> ser_value) \<Rightarrow> fault + 'a \<Rightarrow> fault + ser_value" where
  "as member r = bindE r (\<lambda>x. Inr (member x))"

definition sai_deserialize_attr_value :: "'x text_lib_scheme \<Rightarrow> ser_md \<Rightarrow> string \<Rightarrow> bool \<Rightarrow> fault + ser_value" where
  "sai_deserialize_attr_value L md s countOnly =
     (case sm_type md of
        T_BOOL \<Rightarrow> as V_booldata (sai_deserialize_bool s)
      | T_CHARDATA \<Rightarrow> as V_chardata (sai_deserialize_chardata s)
      | T_UINT8 \<Rightarrow> as V_u8 (sai_deserialize_number False s)
      | T_INT8 \<Rightarrow> as V_s8 (sai_deserialize_number False s)
      | T_UINT16 \<Rightarrow> as V_u16 (sai_deserialize_number False s)
      | T_JSON \<Rightarrow> as V_json (sai_deserialize_json L s)
      | T_INT16 \<Rightarrow> as V_s16 (sai_deserialize_number False s)
      | T_UINT32 \<Rightarrow> as V_u32 (sai_deserialize_number False s)
      | T_INT32 \<Rightarrow> as V_s32 (sai_deserialize_enum L s (sm_enum md))
      | T_UINT64 \<Rightarrow> as V_u64 (sai_deserialize_number False s)
      | T_INT64 \<Rightarrow> as V_s64 (sai_deserialize_number False s)
      | T_MAC \<Rightarrow> as V_mac (sai_deserialize_mac s)
      | T_IPV4 \<Rightarrow> as V_ip4 (sai_deserialize_ipv4 s)
      | T_IPV6 \<Rightarrow> as V_ip6 (sai_deserialize_ipv6 L s)
      | T_POINTER \<Rightarrow> as V_ptr (sai_deserialize_number True s)
      | T_IP_ADDRESS \<Rightarrow> as V_ipaddr (sai_deserialize_ip_address L s)
      | T_IP_PREFIX \<Rightarrow> as V_ipprefix (sai_deserialize_ip_prefix L s)
      | T_OBJECT_ID \<Rightarrow> as V_oid (sai_deserialize_object_id s)
      | T_OBJECT_LIST \<Rightarrow> as V_objlist (sai_deserialize_oid_list L s countOnly)
      | T_UINT8_LIST \<Rightarrow> as V_u8list (sai_deserialize_number_list L s countOnly False)
      | T_INT8_LIST \<Rightarrow> as V_s8list (sai_deserialize_number_list L s countOnly False)
      | T_LATCH_STATUS \<Rightarrow> as V_latchstatus (sai_deserialize_latch_status s)
      | T_PORT_LANE_LATCH_STATUS_LIST \<Rightarrow>
          Inr (V_portlanelatchstatuslist (sai_deserialize_port_lane_latch_status_list L s countOnly))
      | T_PORT_ILT_LANE_TRAINING_STATUS_LIST \<Rightarrow> Inr (V_port_ilt_lane_training_status_list
          (sai_deserialize_port_ilt_lane_training_status_list L (sm_reserved md) s countOnly))
      | T_PORT_SNR_LIST \<Rightarrow> as V_portsnrlist (sai_deserialize_port_snr_list L s countOnly)
      | T_TAPS_LIST \<Rightarrow> as V_portserdestaps (sai_deserialize_taps_list L s countOnly)
      | T_UINT16_LIST \<Rightarrow> as V_u16list (sai_deserialize_number_list L s countOnly False)
      | T_UINT32_LIST \<Rightarrow> as V_u32list (sai_deserialize_number_list L s countOnly False)
      | T_INT32_LIST \<Rightarrow> as V_s32list (sai_deserialize_enum_list L s (sm_enum md) countOnly)
      | T_UINT16_RANGE \<Rightarrow> as V_u16range (sai_deserialize_range L s)
      | T_UINT32_RANGE \<Rightarrow> as V_u32range (sai_deserialize_range L s)
      | T_UINT16_RANGE_LIST \<Rightarrow> as V_u16rangelist (sai_deserialize_range_list L s countOnly)
      | T_UINT64_RANGE \<Rightarrow> as V_u64range (sai_deserialize_range L s)
      | T_UINT64_RANGE_LIST \<Rightarrow> as V_u64rangelist (sai_deserialize_range_list L s countOnly)
      | T_VLAN_LIST \<Rightarrow> as V_vlanlist (sai_deserialize_number_list L s countOnly False)
      | T_QOS_MAP_LIST \<Rightarrow> as V_qosmap (sai_deserialize_qos_map_list L s countOnly)
      | T_MAP_LIST \<Rightarrow> as V_maplist (sai_deserialize_map_list L s countOnly)
      | T_ACL_RESOURCE_LIST \<Rightarrow> as V_aclresource (sai_deserialize_acl_resource_list L s countOnly)
      | T_IP_ADDRESS_LIST \<Rightarrow> as V_ipaddrlist (sai_deserialize_ip_address_list L s countOnly)
      | T_SEGMENT_LIST \<Rightarrow> as V_segmentlist (sai_deserialize_segment_list L s countOnly)
      | T_ACL_FIELD_DATA t \<Rightarrow> as V_aclfield (sai_deserialize_acl_field L t (sm_enum md) s countOnly)
      | T_ACL_ACTION_DATA t \<Rightarrow> as V_aclaction (sai_deserialize_acl_action L t (sm_enum md) s countOnly)
      | T_ACL_CAPABILITY \<Rightarrow> as V_aclcapability (sai_deserialize_acl_capability L s)
      | T_AUTH_KEY \<Rightarrow> as V_authkey (sai_deserialize_hex_binary (sm_size md T_AUTH_KEY) s)
      | T_ENCRYPT_KEY \<Rightarrow> as V_encrypt_key (sai_deserialize_hex_binary (sm_size md T_ENCRYPT_KEY) s)
      | T_MACSEC_SAK \<Rightarrow> as V_macsecsak (sai_deserialize_hex_binary (sm_size md T_MACSEC_SAK) s)
      | T_MACSEC_AUTH_KEY \<Rightarrow> as V_macsecauthkey (sai_deserialize_hex_binary (sm_size md T_MACSEC_AUTH_KEY) s)
      | T_MACSEC_SALT \<Rightarrow> as V_macsecsalt (sai_deserialize_hex_binary (sm_size md T_MACSEC_SALT) s)
      | T_SYSTEM_PORT_CONFIG \<Rightarrow> as V_sysportconfig (sai_deserialize_system_port_config L s)
      | T_SYSTEM_PORT_CONFIG_LIST \<Rightarrow> as V_sysportconfiglist (sai_deserialize_system_port_config_list L s countOnly)
      | T_IP_PREFIX_LIST \<Rightarrow> as V_ipprefixlist (sai_deserialize_ip_prefix_list L s countOnly)
      | T_POE_PORT_POWER_CONSUMPTION \<Rightarrow> as V_portpowerconsumption (sai_deserialize_poe_port_power_consumption L s)
      | T_OTHER t \<Rightarrow> Inl (Throw ''deserialize type is not supported yet FIXME''))"

section \<open>Round trip\<close>

text \<open>The type selects the member.\<close>

definition ser_value_type :: "ser_value \<Rightarrow> ser_type \<Rightarrow> bool" where
  "ser_value_type v ty =
     (case v of
        V_booldata _ \<Rightarrow> ty = T_BOOL | V_chardata _ \<Rightarrow> ty = T_CHARDATA | V_u8 _ \<Rightarrow> ty = T_UINT8 | V_s8 _ \<Rightarrow> ty = T_INT8
      | V_u16 _ \<Rightarrow> ty = T_UINT16 | V_json _ \<Rightarrow> ty = T_JSON | V_s16 _ \<Rightarrow> ty = T_INT16 | V_u32 _ \<Rightarrow> ty = T_UINT32
      | V_s32 _ \<Rightarrow> ty = T_INT32 | V_u64 _ \<Rightarrow> ty = T_UINT64 | V_s64 _ \<Rightarrow> ty = T_INT64 | V_mac _ \<Rightarrow> ty = T_MAC
      | V_ip4 _ \<Rightarrow> ty = T_IPV4 | V_ip6 _ \<Rightarrow> ty = T_IPV6 | V_ptr _ \<Rightarrow> ty = T_POINTER | V_ipaddr _ \<Rightarrow> ty = T_IP_ADDRESS
      | V_ipprefix _ \<Rightarrow> ty = T_IP_PREFIX | V_oid _ \<Rightarrow> ty = T_OBJECT_ID | V_objlist _ \<Rightarrow> ty = T_OBJECT_LIST
      | V_u8list _ \<Rightarrow> ty = T_UINT8_LIST | V_s8list _ \<Rightarrow> ty = T_INT8_LIST | V_latchstatus _ \<Rightarrow> ty = T_LATCH_STATUS
      | V_portlanelatchstatuslist _ \<Rightarrow> ty = T_PORT_LANE_LATCH_STATUS_LIST
      | V_port_ilt_lane_training_status_list _ \<Rightarrow> ty = T_PORT_ILT_LANE_TRAINING_STATUS_LIST
      | V_portsnrlist _ \<Rightarrow> ty = T_PORT_SNR_LIST | V_portserdestaps _ \<Rightarrow> ty = T_TAPS_LIST | V_u16list _ \<Rightarrow> ty = T_UINT16_LIST
      | V_u32list _ \<Rightarrow> ty = T_UINT32_LIST | V_s32list _ \<Rightarrow> ty = T_INT32_LIST | V_u16range _ \<Rightarrow> ty = T_UINT16_RANGE
      | V_u32range _ \<Rightarrow> ty = T_UINT32_RANGE | V_u16rangelist _ \<Rightarrow> ty = T_UINT16_RANGE_LIST | V_u64range _ \<Rightarrow> ty = T_UINT64_RANGE
      | V_u64rangelist _ \<Rightarrow> ty = T_UINT64_RANGE_LIST | V_vlanlist _ \<Rightarrow> ty = T_VLAN_LIST | V_qosmap _ \<Rightarrow> ty = T_QOS_MAP_LIST
      | V_maplist _ \<Rightarrow> ty = T_MAP_LIST | V_aclresource _ \<Rightarrow> ty = T_ACL_RESOURCE_LIST | V_ipaddrlist _ \<Rightarrow> ty = T_IP_ADDRESS_LIST
      | V_segmentlist _ \<Rightarrow> ty = T_SEGMENT_LIST
      | V_aclfield f \<Rightarrow> (case ty of T_ACL_FIELD_DATA t \<Rightarrow> f = None \<or> map_option field_suffix f = Some t | _ \<Rightarrow> False)
      | V_aclaction a \<Rightarrow> (case ty of T_ACL_ACTION_DATA t \<Rightarrow> a = None \<or> map_option action_suffix a = Some t | _ \<Rightarrow> False)
      | V_aclcapability _ \<Rightarrow> ty = T_ACL_CAPABILITY | V_authkey _ \<Rightarrow> ty = T_AUTH_KEY | V_encrypt_key _ \<Rightarrow> ty = T_ENCRYPT_KEY
      | V_macsecsak _ \<Rightarrow> ty = T_MACSEC_SAK | V_macsecauthkey _ \<Rightarrow> ty = T_MACSEC_AUTH_KEY | V_macsecsalt _ \<Rightarrow> ty = T_MACSEC_SALT
      | V_sysportconfig _ \<Rightarrow> ty = T_SYSTEM_PORT_CONFIG | V_sysportconfiglist _ \<Rightarrow> ty = T_SYSTEM_PORT_CONFIG_LIST
      | V_ipprefixlist _ \<Rightarrow> ty = T_IP_PREFIX_LIST | V_portpowerconsumption _ \<Rightarrow> ty = T_POE_PORT_POWER_CONSUMPTION)"

text \<open>
  The values that can be read back: those the types of the headers admit, strings that are zero after their end,
  prefixes with masks without holes (printing the others throws), lanes that are different, taps with values for the same
  lanes, and ratios other than the largest, whose conversion back is undefined.
\<close>

text \<open>A list by lane: the entries are for different lanes.\<close>

definition lane_entries :: "'a sai_list \<Rightarrow> 'a list" where
  "lane_entries l = (case l of Sai_List xs \<Rightarrow> xs | Null_List n \<Rightarrow> [])"

lemma lane_entries_simps [simp]: "lane_entries (Sai_List xs) = xs" "lane_entries (Null_List n) = []"
  by (simp_all add: lane_entries_def)

definition lanes_ok :: "('a \<Rightarrow> u32) \<Rightarrow> 'a sai_list \<Rightarrow> bool" where
  "lanes_ok lane l = (case l of Sai_List xs \<Rightarrow> distinct (map lane xs) | Null_List n \<Rightarrow> n = 0)"

definition short_list :: "'a sai_list \<Rightarrow> bool" where
  "short_list l \<longleftrightarrow> list_count l < 2 ^ 31"

definition ser_value_ok :: "ser_md \<Rightarrow> ser_value \<Rightarrow> bool" where
  "ser_value_ok md v =
     (case v of
        V_chardata cs \<Rightarrow> length cs = CHAR_LEN \<and> list_all (\<lambda>b. b = 0) (dropWhile (\<lambda>b. b \<noteq> 0) cs)
      | V_json l \<Rightarrow> short_list l
      | V_mac m \<Rightarrow> length m = 6
      | V_ip4 a \<Rightarrow> length a = 4
      | V_ip6 a \<Rightarrow> length a = 16
      | V_ipaddr a \<Rightarrow> ip_ok a
      | V_ipprefix p \<Rightarrow> prefix_ok p
      | V_objlist l \<Rightarrow> short_list l | V_u8list l \<Rightarrow> short_list l | V_s8list l \<Rightarrow> short_list l
      | V_u16list l \<Rightarrow> short_list l | V_u32list l \<Rightarrow> short_list l | V_s32list l \<Rightarrow> short_list l
      | V_u16rangelist l \<Rightarrow> short_list l | V_u64rangelist l \<Rightarrow> short_list l | V_vlanlist l \<Rightarrow> short_list l
      | V_qosmap l \<Rightarrow> short_list l | V_maplist l \<Rightarrow> short_list l | V_aclresource l \<Rightarrow> short_list l
      | V_ipaddrlist l \<Rightarrow> list_all_good ip_ok l
      | V_ipprefixlist l \<Rightarrow> list_all_good prefix_ok l
      | V_segmentlist l \<Rightarrow> list_all_good (\<lambda>a. length a = 16) l
      | V_portlanelatchstatuslist l \<Rightarrow>
          lanes_ok (fst \<circ> the) l \<and> list_all (\<lambda>x. x \<noteq> None) (lane_entries l)
      | V_port_ilt_lane_training_status_list l \<Rightarrow> lanes_ok fst l
      | V_portsnrlist l \<Rightarrow>
          lanes_ok (fst \<circ> the) l \<and> list_all (\<lambda>x. \<exists>lane raw. x = Some (lane, raw) \<and> raw \<noteq> 65535) (lane_entries l)
      | V_portserdestaps l \<Rightarrow>
          (\<exists>rows n. l = Sai_List (map Sai_List rows) \<and> rows \<noteq> [] \<and> n \<noteq> 0 \<and> (\<forall>vs \<in> set rows. length vs = n))
      | V_aclfield (Some fd) \<Rightarrow> field_ok fd
      | V_aclaction (Some ad) \<Rightarrow> action_ok ad
      | V_aclcapability c \<Rightarrow> short_list (snd c)
      | V_authkey bs \<Rightarrow> length bs = sm_size md T_AUTH_KEY
      | V_encrypt_key bs \<Rightarrow> length bs = sm_size md T_ENCRYPT_KEY
      | V_macsecsak bs \<Rightarrow> length bs = sm_size md T_MACSEC_SAK
      | V_macsecauthkey bs \<Rightarrow> length bs = sm_size md T_MACSEC_AUTH_KEY
      | V_macsecsalt bs \<Rightarrow> length bs = sm_size md T_MACSEC_SALT
      | V_sysportconfiglist l \<Rightarrow> short_list l
      | _ \<Rightarrow> True)"

text \<open>The value read back: the same, with a null pointer for a list without elements.\<close>

definition ser_value_norm :: "ser_value \<Rightarrow> ser_value" where
  "ser_value_norm v =
     (case v of
        V_json l \<Rightarrow> V_json (list_norm l) | V_objlist l \<Rightarrow> V_objlist (list_norm l) | V_u8list l \<Rightarrow> V_u8list (list_norm l)
      | V_s8list l \<Rightarrow> V_s8list (list_norm l) | V_u16list l \<Rightarrow> V_u16list (list_norm l) | V_u32list l \<Rightarrow> V_u32list (list_norm l)
      | V_s32list l \<Rightarrow> V_s32list (list_norm l) | V_u16rangelist l \<Rightarrow> V_u16rangelist (list_norm l)
      | V_u64rangelist l \<Rightarrow> V_u64rangelist (list_norm l) | V_vlanlist l \<Rightarrow> V_vlanlist (list_norm l)
      | V_ipaddrlist l \<Rightarrow> V_ipaddrlist (list_norm l) | V_ipprefixlist l \<Rightarrow> V_ipprefixlist (list_norm l)
      | V_segmentlist l \<Rightarrow> V_segmentlist (list_norm l) | V_aclfield f \<Rightarrow> V_aclfield (map_option field_norm f)
      | V_aclaction a \<Rightarrow> V_aclaction (map_option action_norm a) | V_aclcapability c \<Rightarrow> V_aclcapability (fst c, list_norm (snd c))
      | _ \<Rightarrow> v)"

text \<open>
  The entries of a list by lane come in the order of the keys, and ratios within one unit, 1/256 dB, of what they were. A
  list without elements comes back with a null pointer.
\<close>

definition same_lanes :: "('a \<Rightarrow> 'a \<Rightarrow> bool) \<Rightarrow> 'a sai_list \<Rightarrow> 'a sai_list \<Rightarrow> bool" where
  "same_lanes near l m \<longleftrightarrow>
     (if lane_entries l = [] then m = Null_List 0
      else (\<exists>xs ys. m = Sai_List ys \<and> mset ys = mset xs \<and> list_all2 near (lane_entries l) xs))"

definition near_ratio :: "(u32 \<times> 16 word) option \<Rightarrow> (u32 \<times> 16 word) option \<Rightarrow> bool" where
  "near_ratio x y \<longleftrightarrow> (\<exists>lane a b. x = Some (lane, a) \<and> y = Some (lane, b) \<and> \<bar>uint b - uint a\<bar> \<le> 1)"

definition same_ser_value :: "ser_value \<Rightarrow> ser_value \<Rightarrow> bool" where
  "same_ser_value v w =
     (case (v, w) of
        (V_portlanelatchstatuslist l, V_portlanelatchstatuslist m) \<Rightarrow> same_lanes (=) l m
      | (V_port_ilt_lane_training_status_list l, V_port_ilt_lane_training_status_list m) \<Rightarrow> same_lanes (=) l m
      | (V_portsnrlist l, V_portsnrlist m) \<Rightarrow> same_lanes near_ratio l m
      | _ \<Rightarrow> w = ser_value_norm v)"

text \<open>The types whose values are lists by lane.\<close>

definition by_lane :: "ser_value \<Rightarrow> bool" where
  "by_lane v \<longleftrightarrow> (\<exists>l. v = V_portlanelatchstatuslist l) \<or> (\<exists>l. v = V_port_ilt_lane_training_status_list l) \<or> (\<exists>l. v = V_portsnrlist l)"

text \<open>One reading after a printing, with the member put around.\<close>

definition reads :: "fault + string \<Rightarrow> (string \<Rightarrow> fault + 'a) \<Rightarrow> 'a \<Rightarrow> bool" where
  "reads r f y \<longleftrightarrow> (\<exists>s. r = Inr s \<and> f s = Inr y)"

lemma reads_as: "reads r f y \<Longrightarrow> reads r (\<lambda>s. as m (f s)) (m y)"
  by (auto simp: reads_def as_def)

lemma readsI: "r = Inr s \<Longrightarrow> f s = Inr y \<Longrightarrow> reads r f y"
  by (auto simp: reads_def)

named_theorems ser_reads

lemma simple_reads [ser_reads]:
  "reads (Inr (sai_serialize_bool b)) sai_deserialize_bool b"
  "reads (Inr (sai_serialize_object_id oid)) sai_deserialize_object_id oid"
  "reads (Inr (sai_serialize_latch_status ls)) sai_deserialize_latch_status ls"
  "LENGTH('a) \<le> 64 \<Longrightarrow> reads (Inr (sai_serialize_number hex (w :: 'a::len word))) (sai_deserialize_number hex) w"
  "LENGTH('a) \<le> 64 \<Longrightarrow> reads (Inr (sai_serialize_signed hex (w :: 'a::len word))) (sai_deserialize_number hex) w"
  "length mac = 6 \<Longrightarrow> reads (Inr (sai_serialize_mac mac)) sai_deserialize_mac mac"
  "length ip = 4 \<Longrightarrow> reads (Inr (sai_serialize_ipv4 ip)) sai_deserialize_ipv4 ip"
  "n = length bs \<Longrightarrow> reads (Inr (sai_serialize_hex_binary bs)) (sai_deserialize_hex_binary n) bs"
  by (auto intro!: readsI simp: bool_roundtrip object_id_roundtrip latch_status_roundtrip number_roundtrip signed_roundtrip
      mac_roundtrip ipv4_roundtrip hex_binary_roundtrip)

lemma chardata_reads [ser_reads]:
  assumes "length cs = CHAR_LEN" "list_all (\<lambda>b. b = 0) (dropWhile (\<lambda>b. b \<noteq> 0) cs)"
  shows "reads (Inr (sai_serialize_chardata cs)) sai_deserialize_chardata cs"
proof -
  let ?t = "takeWhile (\<lambda>b. b \<noteq> 0) cs" and ?d = "dropWhile (\<lambda>b. b \<noteq> 0) cs"
  have "\<forall>b \<in> set ?d. b = 0" using assms(2) unfolding list_all_iff .
  then have d: "replicate (length ?d) 0 = ?d" by (rule replicate_length_same)
  have "length ?t + length ?d = CHAR_LEN"
    using assms(1) by (simp only: length_append [symmetric] takeWhile_dropWhile_id)
  then have "length ?d = CHAR_LEN - length ?t" by linarith
  with d have "replicate (CHAR_LEN - length ?t) 0 = ?d" by simp
  then have "?t @ replicate (CHAR_LEN - length ?t) 0 = cs"
    using takeWhile_dropWhile_id [of "\<lambda>b. b \<noteq> 0" cs] by simp
  moreover have "take CHAR_LEN cs = cs" using assms(1) by simp
  ultimately show ?thesis by (intro readsI [OF refl]) (simp add: chardata_roundtrip Let_def)
qed

lemma lib_reads [ser_reads]:
  "inet6_ok L \<Longrightarrow> length ip = 16 \<Longrightarrow> reads (Inr (sai_serialize_ipv6 L ip)) (sai_deserialize_ipv6 L) ip"
  "inet6_ok L \<Longrightarrow> ip_ok a \<Longrightarrow> reads (sai_serialize_ip_address L a) (sai_deserialize_ip_address L) a"
  "tokens_ok L \<Longrightarrow> inet6_ok L \<Longrightarrow> prefix_ok p \<Longrightarrow> reads (sai_serialize_ip_prefix L p) (sai_deserialize_ip_prefix L) p"
  "tokens_ok L \<Longrightarrow> LENGTH('a) \<le> 64 \<Longrightarrow> reads (Inr (sai_serialize_range r)) (sai_deserialize_range L) (r :: 'a::len word \<times> 'a word)"
  by (auto simp: reads_def ipv6_roundtrip range_roundtrip elim: ip_address_roundtrip ip_prefix_roundtrip)

lemma enum_reads' [ser_reads]:
  "tokens_ok L \<Longrightarrow> (\<And>md. meta = Some md \<Longrightarrow> enum_ok md) \<Longrightarrow> reads (sai_serialize_enum w meta) (\<lambda>s. sai_deserialize_enum L s meta) w"
  by (simp add: reads_def enum_roundtrip)

lemma short_list_count: "short_list l \<Longrightarrow> list_count l < 2 ^ 32" "short_list l \<Longrightarrow> list_count l < 2 ^ 31"
    "short_list l \<Longrightarrow> list_count l < 4294967296"
  by (simp_all add: short_list_def)

lemma number_list_reads [ser_reads]:
  fixes l :: "'a::len word sai_list"
  assumes "tokens_ok L" "short_list l" "LENGTH('a) \<le> 64"
  shows "reads (sai_serialize_number_list l False hex) (\<lambda>s. sai_deserialize_number_list L s False hex) (list_norm l)"
    "reads (sai_serialize_signed_list l False hex) (\<lambda>s. sai_deserialize_number_list L s False hex) (list_norm l)"
  by (rule number_list_roundtrip [OF assms(1,3) short_list_count(1) [OF assms(2)], of hex], erule (1) readsI)
    (rule signed_list_roundtrip [OF assms(1,3) short_list_count(1) [OF assms(2)], of hex], erule (1) readsI)

lemma oid_list_reads [ser_reads]:
  assumes "tokens_ok L" "short_list l"
  shows "reads (sai_serialize_oid_list l False) (\<lambda>s. sai_deserialize_oid_list L s False) (list_norm l)"
  by (rule oid_list_roundtrip [OF assms(1) short_list_count(1) [OF assms(2)]], erule (1) readsI)

lemma enum_list_reads [ser_reads]:
  assumes "tokens_ok L" "short_list l" "\<And>md. meta = Some md \<Longrightarrow> enum_ok md"
  shows "reads (sai_serialize_enum_list l meta False) (\<lambda>s. sai_deserialize_enum_list L s meta False) (list_norm l)"
  by (rule enum_list_roundtrip [OF assms(1) short_list_count(1) [OF assms(2)] assms(3)]) (assumption, erule (1) readsI)

lemma address_list_reads [ser_reads]:
  "tokens_ok L \<Longrightarrow> inet6_ok L \<Longrightarrow> list_all_good ip_ok l \<Longrightarrow>
     reads (sai_serialize_ip_address_list L l False) (\<lambda>s. sai_deserialize_ip_address_list L s False) (list_norm l)"
  "tokens_ok L \<Longrightarrow> inet6_ok L \<Longrightarrow> list_all_good prefix_ok pl \<Longrightarrow>
     reads (sai_serialize_ip_prefix_list L pl False) (\<lambda>s. sai_deserialize_ip_prefix_list L s False) (list_norm pl)"
  "tokens_ok L \<Longrightarrow> inet6_ok L \<Longrightarrow> list_all_good (\<lambda>a. length a = 16) sl \<Longrightarrow>
     reads (sai_serialize_segment_list L sl False) (\<lambda>s. sai_deserialize_segment_list L s False) (list_norm sl)"
  using ips.list_roundtrip [of L L l] prefixes.list_roundtrip [of L L pl] segments.list_roundtrip [of L L sl]
  by (auto simp: reads_def sai_serialize_ip_address_list_def sai_deserialize_ip_address_list_def
      sai_serialize_ip_prefix_list_def sai_deserialize_ip_prefix_list_def sai_serialize_segment_list_def
      sai_deserialize_segment_list_def list_all_good_def list_all_iff split: sai_list.splits)

lemma range_list_reads [ser_reads]:
  fixes l :: "('a::len word \<times> 'a word) sai_list"
  assumes "tokens_ok L" "short_list l" "LENGTH('a) \<le> 64"
  shows "reads (sai_serialize_range_list l False) (\<lambda>s. sai_deserialize_range_list L s False) (list_norm l)"
  using range_list_roundtrip [OF assms(1,3) short_list_count(2) [OF assms(2)]] by (auto simp: reads_def)

lemma json_reads_all [ser_reads]:
  "text_lib_ok L \<Longrightarrow> short_list js \<Longrightarrow> reads (sai_serialize_json L js) (sai_deserialize_json L) (list_norm js)"
  "text_lib_ok L \<Longrightarrow> short_list ql \<Longrightarrow>
     reads (sai_serialize_qos_map_list L ql False) (\<lambda>s. sai_deserialize_qos_map_list L s False) ql"
  "json_ok L \<Longrightarrow> short_list ml \<Longrightarrow> reads (sai_serialize_map_list L ml False) (\<lambda>s. sai_deserialize_map_list L s False) ml"
  "text_lib_ok L \<Longrightarrow> short_list rl \<Longrightarrow>
     reads (sai_serialize_acl_resource_list L rl False) (\<lambda>s. sai_deserialize_acl_resource_list L s False) rl"
  "json_ok L \<Longrightarrow> reads (sai_serialize_system_port_config L sp) (sai_deserialize_system_port_config L) sp"
  "json_ok L \<Longrightarrow> short_list spl \<Longrightarrow>
     reads (sai_serialize_system_port_config_list L spl False) (\<lambda>s. sai_deserialize_system_port_config_list L s False) spl"
  "text_lib_ok L \<Longrightarrow>
     reads (sai_serialize_poe_port_power_consumption L pc) (sai_deserialize_poe_port_power_consumption L) pc"
  by (simp_all add: reads_def json_roundtrip qos_map_list_roundtrip map_list_roundtrip acl_resource_list_roundtrip
      system_port_roundtrip system_port_list_roundtrip poe_roundtrip short_list_count)

lemma acl_reads [ser_reads]:
  "text_lib_ok L \<Longrightarrow> (\<And>md. meta = Some md \<Longrightarrow> enum_ok md) \<Longrightarrow> field_ok fd \<Longrightarrow>
     reads (sai_serialize_acl_field L meta (Some fd) False)
       (\<lambda>s. sai_deserialize_acl_field L (field_suffix fd) meta s False) (Some (field_norm fd))"
  "text_lib_ok L \<Longrightarrow> (\<And>md. meta = Some md \<Longrightarrow> enum_ok md) \<Longrightarrow> action_ok ad \<Longrightarrow>
     reads (sai_serialize_acl_action L meta (Some ad) False)
       (\<lambda>s. sai_deserialize_acl_action L (action_suffix ad) meta s False) (Some (action_norm ad))"
  "reads (sai_serialize_acl_field L meta None False) (\<lambda>s. sai_deserialize_acl_field L t meta s False) None"
  "reads (sai_serialize_acl_action L meta None False) (\<lambda>s. sai_deserialize_acl_action L t meta s False) None"
  "text_lib_ok L \<Longrightarrow> short_list (snd c) \<Longrightarrow>
     reads (sai_serialize_acl_capability L c False) (sai_deserialize_acl_capability L) (fst c, list_norm (snd c))"
proof (simp_all add: reads_def acl_field_roundtrip acl_action_roundtrip acl_capability_roundtrip short_list_count)
qed (simp_all add: sai_serialize_acl_field_def sai_serialize_acl_action_def disabled_roundtrip)

text \<open>The members that are read back exactly, up to \<open>ser_value_norm\<close>.\<close>

lemmas attr_value_defs = sai_serialize_attr_value_def sai_deserialize_attr_value_def ser_value_type_def ser_value_ok_def ser_value_norm_def
  dispatch_def Let_def

lemma attr_value_reads:
  assumes "text_lib_ok L" "\<And>em. sm_enum md = Some em \<Longrightarrow> enum_ok em" "ser_value_type v (sm_type md)" "ser_value_ok md v"
    and "\<not> by_lane v"
  shows "reads (sai_serialize_attr_value L md v False) (\<lambda>s. sai_deserialize_attr_value L md s False) (ser_value_norm v)"
proof -
  note ok = assms(1) text_lib_okD [OF assms(1)] assms(2)
  show ?thesis
  proof (cases v)
    case (V_portserdestaps l)
    with assms(4) obtain rows n where "l = Sai_List (map Sai_List rows)" "rows \<noteq> []" "n \<noteq> 0" "\<forall>vs \<in> set rows. length vs = n"
      by (auto simp: ser_value_ok_def)
    with taps_roundtrip [OF text_lib_okD(2) [OF assms(1)]] V_portserdestaps assms(3) show ?thesis
      by (simp add: attr_value_defs as_def reads_def)
  next
    case (V_aclfield f)
    then show ?thesis using assms(3,4) ok
      by (cases f) (auto simp: attr_value_defs intro!: reads_as ser_reads split: ser_type.splits)
  next
    case (V_aclaction a)
    then show ?thesis using assms(3,4) ok
      by (cases a) (auto simp: attr_value_defs intro!: reads_as ser_reads split: ser_type.splits)
  qed (use assms(3-5) ok in \<open>auto simp: attr_value_defs by_lane_def intro!: reads_as ser_reads\<close>)
qed

text \<open>The members that are lists by lane.\<close>

lemma sai_list_cases:
  obtains "l = Sai_List [] \<or> l = Null_List 0" | n where "l = Null_List n" "n \<noteq> 0" | xs where "l = Sai_List xs" "xs \<noteq> []"
  by (cases l) auto

lemma same_lanes_empty: "l = Sai_List [] \<or> l = Null_List 0 \<Longrightarrow> same_lanes near l (Null_List 0)"
  by (auto simp: same_lanes_def)

lemma written_list:
  assumes "list_all (\<lambda>x. x \<noteq> None) xs"
  shows "written (Sai_List xs) = Sai_List (map the xs)" "all_written (Sai_List xs)" "map (Some \<circ> the) xs = xs"
  using assms by (auto simp: written_def all_written_def list_all_iff intro: map_idI)

lemma written_empty:
  "l = Sai_List [] \<or> l = Null_List 0 \<Longrightarrow> (written l = Sai_List [] \<or> written l = Null_List 0) \<and> all_written l"
  by (auto simp: written_def all_written_def)

lemma latch_value_returns:
  assumes "json_ok L" "lanes_ok (fst \<circ> the) l" "list_all (\<lambda>x. x \<noteq> None) (lane_entries l)"
  shows "\<exists>s m. all_written l \<and> sai_serialize_port_lane_latch_status_list L (written l) False = Inr s \<and>
    sai_deserialize_port_lane_latch_status_list L s False = m \<and> same_lanes (=) l m"
proof (cases l rule: sai_list_cases)
  case 1
  note w = written_empty [OF 1]
  obtain s where "lane_text L False latch_entry (written l) = Inr s" "lane_list L False latch_of_entry s = Null_List 0"
    using lane_list_empty [OF assms(1) conjunct1 [OF w]] by metis
  with w same_lanes_empty [OF 1, of "(=)"] show ?thesis
    by (simp add: sai_serialize_port_lane_latch_status_list_def sai_deserialize_port_lane_latch_status_list_def)
next
  case (3 xs)
  then have w: "list_all (\<lambda>x. x \<noteq> None) xs" using assms(3) by simp
  obtain s ys where "sai_serialize_port_lane_latch_status_list L (Sai_List (map the xs)) False = Inr s"
      "sai_deserialize_port_lane_latch_status_list L s False = Sai_List ys" "mset ys = mset (map Some (map the xs))"
    using latch_list_roundtrip [OF assms(1), of "map the xs"] 3 assms(2) by (auto simp: lanes_ok_def)
  then show ?thesis using written_list [OF w] 3 by (auto simp: same_lanes_def list.rel_eq)
qed (use assms(2) in \<open>simp add: lanes_ok_def\<close>)

lemma ilt_value_returns:
  assumes "text_lib_ok L" "lanes_ok fst l"
  shows "\<exists>s m. sai_serialize_port_ilt_lane_training_status_list L l False = Inr s \<and>
    sai_deserialize_port_ilt_lane_training_status_list L reserved s False = m \<and> same_lanes (=) l m"
proof (cases l rule: sai_list_cases)
  case 1
  obtain s where "lane_text L False (ilt_entry L) l = Inr s" "lane_list L False (ilt_of_entry L reserved) s = Null_List 0"
    using lane_list_empty [OF text_lib_okD(2) [OF assms(1)] 1] by metis
  with same_lanes_empty [OF 1, of "(=)"] show ?thesis
    by (simp add: sai_serialize_port_ilt_lane_training_status_list_def sai_deserialize_port_ilt_lane_training_status_list_def)
next
  case (3 xs)
  with ilt_list_roundtrip [OF assms(1) 3(2), of reserved] assms(2) show ?thesis
    by (fastforce simp: lanes_ok_def same_lanes_def list.rel_eq)
qed (use assms(2) in \<open>simp add: lanes_ok_def\<close>)

lemma snr_value_returns:
  assumes "json_ok L" "lanes_ok (fst \<circ> the) l" "list_all (\<lambda>x. \<exists>lane raw. x = Some (lane, raw) \<and> raw \<noteq> 65535) (lane_entries l)"
  shows "\<exists>s m. all_written l \<and> sai_serialize_port_snr_list L (written l) False = Inr s \<and>
    sai_deserialize_port_snr_list L s False = Inr m \<and> same_lanes near_ratio l m"
proof (cases l rule: sai_list_cases)
  case 1
  note w = written_empty [OF 1]
  obtain s where "lane_text L False snr_entry (written l) = Inr s" "lane_list L False snr_of_entry s = Null_List 0"
      "parsed_members L s = []"
    using lane_list_empty [OF assms(1) conjunct1 [OF w]] by metis
  with w same_lanes_empty [OF 1, of near_ratio] show ?thesis
    by (simp add: sai_serialize_port_snr_list_def sai_deserialize_port_snr_list_def)
next
  case (3 xs)
  then have w: "list_all (\<lambda>x. \<exists>lane raw. x = Some (lane, raw) \<and> raw \<noteq> 65535) xs" using assms(3) by simp
  then have some: "list_all (\<lambda>x. x \<noteq> None) xs" by (auto simp: list_all_iff)
  obtain s ys where r: "sai_serialize_port_snr_list L (Sai_List (map the xs)) False = Inr s"
      "sai_deserialize_port_snr_list L s False = Inr (Sai_List ys)" "mset ys = mset (map snr_read (map the xs))"
    using snr_list_roundtrip [OF assms(1), of "map the xs"] 3 assms(2) w by (fastforce simp: lanes_ok_def list_all_iff)
  have "list_all2 near_ratio xs (map snr_read (map the xs))"
    using w
  proof (induction xs)
    case (Cons x xs)
    then obtain lane raw where x: "x = Some (lane, raw)" "raw \<noteq> 65535" by auto
    with snr_read_close [of "(lane, raw)"] Cons show ?case by (auto simp: near_ratio_def)
  qed simp
  with r(3) have "\<exists>zs. mset ys = mset zs \<and> list_all2 near_ratio xs zs" by blast
  then have "same_lanes near_ratio l (Sai_List ys)" by (simp add: same_lanes_def 3)
  with r(1,2) written_list [OF some] 3 show ?thesis by simp
qed (use assms(2) in \<open>simp add: lanes_ok_def\<close>)

text \<open>All members.\<close>

lemma attr_value_returns:
  assumes "text_lib_ok L" "\<And>em. sm_enum md = Some em \<Longrightarrow> enum_ok em" "ser_value_type v (sm_type md)" "ser_value_ok md v"
  shows "\<exists>s w. sai_serialize_attr_value L md v False = Inr s \<and> sai_deserialize_attr_value L md s False = Inr w \<and> same_ser_value v w"
proof (cases "by_lane v")
  case False
  then have "reads (sai_serialize_attr_value L md v False) (\<lambda>s. sai_deserialize_attr_value L md s False) (ser_value_norm v)"
    using attr_value_reads [OF assms] by blast
  moreover have "same_ser_value v (ser_value_norm v)"
    using False by (auto simp: same_ser_value_def ser_value_norm_def by_lane_def split: ser_value.splits)
  ultimately show ?thesis unfolding reads_def by blast
next
  case True
  note json = text_lib_okD(2) [OF assms(1)]
  from True show ?thesis unfolding by_lane_def
  proof (elim disjE exE)
    fix l assume v: "v = V_portlanelatchstatuslist l"
    with latch_value_returns [OF json, of l] assms(3,4) show ?thesis
      by (auto simp: attr_value_defs same_ser_value_def)
  next
    fix l assume v: "v = V_port_ilt_lane_training_status_list l"
    with ilt_value_returns [OF assms(1), of l "sm_reserved md"] assms(3,4) show ?thesis
      by (auto simp: attr_value_defs same_ser_value_def)
  next
    fix l assume v: "v = V_portsnrlist l"
    with snr_value_returns [OF json, of l] assms(3,4) show ?thesis
      by (auto simp: attr_value_defs same_ser_value_def as_def)
  qed
qed

text \<open>
  \<open>meta/SaiAttributeList.cpp\<close>: lists of attributes as fields and values of text, as they are sent over redis.
\<close>

section \<open>Attributes of the metadata library\<close>

text \<open>
  The name and the metadata of an attribute of an object type, if the library knows it, and the attribute by its name
  or by a name of earlier releases.
\<close>

record attr_lib = text_lib +
  attr_md :: "32 word \<Rightarrow> u32 \<Rightarrow> (string \<times> ser_md) option"
  attr_by_name :: "string \<Rightarrow> (u32 \<times> ser_md) option"
  ignored_attr_by_name :: "string \<Rightarrow> (u32 \<times> ser_md) option"

definition sai_deserialize_attr_id :: "'x attr_lib_scheme \<Rightarrow> string \<Rightarrow> fault + u32 \<times> ser_md" where
  "sai_deserialize_attr_id L s =
     (case attr_by_name L s of
        Some m \<Rightarrow> Inr m
      | None \<Rightarrow>
          (case ignored_attr_by_name L s of
             Some m \<Rightarrow> Inr m
           | None \<Rightarrow> Inl (Throw ''invalid attr id'')))"

text \<open>A name the library gives is found again, and no name is the word for an empty list.\<close>

definition attr_lib_ok :: "'x attr_lib_scheme \<Rightarrow> bool" where
  "attr_lib_ok L \<longleftrightarrow>
     text_lib_ok L \<and>
     (\<forall>ty i name md. attr_md L ty i = Some (name, md) \<longrightarrow>
        ascii name \<and> name \<noteq> ''NULL'' \<and> attr_by_name L name = Some (i, md) \<and> (\<forall>em. sm_enum md = Some em \<longrightarrow> enum_ok em))"

lemma attr_lib_okD:
  assumes "attr_lib_ok L"
  shows "text_lib_ok L"
    "attr_md L ty i = Some (name, md) \<Longrightarrow> ascii name"
    "attr_md L ty i = Some (name, md) \<Longrightarrow> name \<noteq> ''NULL''"
    "attr_md L ty i = Some (name, md) \<Longrightarrow> sai_deserialize_attr_id L name = Inr (i, md)"
    "attr_md L ty i = Some (name, md) \<Longrightarrow> sm_enum md = Some em \<Longrightarrow> enum_ok em"
  using assms unfolding attr_lib_ok_def sai_deserialize_attr_id_def by auto

section \<open>Lists of attributes\<close>

definition serialize_attr :: "'x attr_lib_scheme \<Rightarrow> 32 word \<Rightarrow> bool \<Rightarrow> u32 \<times> ser_value \<Rightarrow> fault + string \<times> string" where
  "serialize_attr L ty countOnly a =
     (case attr_md L ty (fst a) of
        None \<Rightarrow> Inl (Throw ''FATAL: failed to find metadata for object type'')
      | Some (name, md) \<Rightarrow> bindE (sai_serialize_attr_value L md (snd a) countOnly) (\<lambda>s. Inr (name, s)))"

definition serialize_attr_list ::
  "'x attr_lib_scheme \<Rightarrow> 32 word \<Rightarrow> (u32 \<times> ser_value) list \<Rightarrow> bool \<Rightarrow> fault + (string \<times> string) list" where
  "serialize_attr_list L ty attrs countOnly = mapE (serialize_attr L ty countOnly) attrs"

definition deserialize_attr :: "'x attr_lib_scheme \<Rightarrow> 32 word \<Rightarrow> bool \<Rightarrow> string \<times> string \<Rightarrow> fault + u32 \<times> ser_value" where
  "deserialize_attr L ty countOnly fv =
     bindE (sai_deserialize_attr_id L (fst fv)) (\<lambda>(i, m).
       case attr_md L ty i of
         None \<Rightarrow> Inl (Throw ''FATAL: failed to find metadata for object type'')
       | Some (name, md) \<Rightarrow> bindE (sai_deserialize_attr_value L md (snd fv) countOnly) (\<lambda>v. Inr (i, v)))"

text \<open>The constructor: a field with the name \<open>NULL\<close> is passed over. The one from a hash has the same loop.\<close>

definition SaiAttributeList :: "'x attr_lib_scheme \<Rightarrow> 32 word \<Rightarrow> (string \<times> string) list \<Rightarrow> bool \<Rightarrow> fault + (u32 \<times> ser_value) list" where
  "SaiAttributeList L ty fvs countOnly = mapE (deserialize_attr L ty countOnly) (filter (\<lambda>fv. fst fv \<noteq> ''NULL'') fvs)"

text \<open>An attribute that can be sent.\<close>

definition attr_ok :: "'x attr_lib_scheme \<Rightarrow> 32 word \<Rightarrow> u32 \<times> ser_value \<Rightarrow> bool" where
  "attr_ok L ty a \<longleftrightarrow>
     (case attr_md L ty (fst a) of
        None \<Rightarrow> False
      | Some (name, md) \<Rightarrow> ser_value_type (snd a) (sm_type md) \<and> ser_value_ok md (snd a))"

definition same_attr :: "u32 \<times> ser_value \<Rightarrow> u32 \<times> ser_value \<Rightarrow> bool" where
  "same_attr a b \<longleftrightarrow> fst b = fst a \<and> same_ser_value (snd a) (snd b)"

lemma attr_returns:
  assumes "attr_lib_ok L" "attr_ok L ty a"
  shows "\<exists>fv b. serialize_attr L ty False a = Inr fv \<and> fst fv \<noteq> ''NULL'' \<and> deserialize_attr L ty False fv = Inr b \<and> same_attr a b"
proof -
  obtain name md where a: "attr_md L ty (fst a) = Some (name, md)" "ser_value_type (snd a) (sm_type md)" "ser_value_ok md (snd a)"
    using assms(2) by (auto simp: attr_ok_def split: option.splits)
  note L = attr_lib_okD [OF assms(1)]
  obtain s w where "sai_serialize_attr_value L md (snd a) False = Inr s" "sai_deserialize_attr_value L md s False = Inr w"
      "same_ser_value (snd a) w"
    using attr_value_returns [OF L(1) L(5) [OF a(1)] a(2,3)] by blast
  then show ?thesis using a(1) L(3,4) [OF a(1)]
    by (intro exI [of _ "(name, s)"] exI [of _ "(fst a, w)"]) (simp add: serialize_attr_def deserialize_attr_def same_attr_def)
qed

lemma attr_list_returns:
  assumes "attr_lib_ok L" "list_all (attr_ok L ty) attrs"
  shows "\<exists>fvs bs. serialize_attr_list L ty attrs False = Inr fvs \<and> list_all (\<lambda>fv. fst fv \<noteq> ''NULL'') fvs \<and>
    SaiAttributeList L ty fvs False = Inr bs \<and> list_all2 same_attr attrs bs"
  using assms(2)
proof (induction attrs)
  case (Cons a attrs)
  then obtain fvs bs where "serialize_attr_list L ty attrs False = Inr fvs" "list_all (\<lambda>fv. fst fv \<noteq> ''NULL'') fvs"
    "SaiAttributeList L ty fvs False = Inr bs" "list_all2 same_attr attrs bs" by auto
  moreover obtain fv b where "serialize_attr L ty False a = Inr fv" "fst fv \<noteq> ''NULL''" "deserialize_attr L ty False fv = Inr b"
    "same_attr a b"
    using attr_returns [OF assms(1), of ty a] Cons.prems by auto
  ultimately show ?case
    by (intro exI [of _ "fv # fvs"] exI [of _ "b # bs"]) (simp add: serialize_attr_list_def SaiAttributeList_def)
qed (simp add: serialize_attr_list_def SaiAttributeList_def)

end
