(* ===== verification/Ser_Demo.thy ===== *)
theory Ser_Demo
  imports Ser_Attr
begin

text \<open>
  A concrete instance of the text libraries, which shows that what is asked of them can hold: a splitter, a printer and
  a parser of JSON values, full IPv6 addresses, and tables with two values each.
\<close>

section \<open>Tokens\<close>

fun demo_split :: "char \<Rightarrow> string \<Rightarrow> string \<Rightarrow> string list" where
  "demo_split sep [] acc = (if acc = [] then [] else [acc])"
| "demo_split sep (c # cs) acc = (if c = sep then acc # demo_split sep cs [] else demo_split sep cs (acc @ [c]))"

lemma demo_split_item: "sep \<notin> set s \<Longrightarrow> demo_split sep (s @ r) acc = demo_split sep r (acc @ s)"
  by (induction s arbitrary: acc) auto

lemma demo_split_join: "list_all (item sep) items \<Longrightarrow> demo_split sep (join [sep] items) [] = items"
proof (induction "[sep]" items rule: join.induct)
  case (2 s)
  then show ?case using demo_split_item [of sep s "[]" "[]"] by (simp add: item_def)
next
  case (3 s t ss)
  then show ?case using demo_split_item [of sep s "sep # join [sep] (t # ss)" "[]"] by (simp add: item_def)
qed simp

section \<open>JSON values\<close>

text \<open>Each value starts with a letter of its kind; numbers of elements and characters come before them.\<close>

definition code_nat :: "nat \<Rightarrow> string" where
  "code_nat n = print_nat 10 n @ '';''"

definition decode_nat :: "string \<Rightarrow> nat \<times> string" where
  "decode_nat s = (fst (read_digits 10 0 (takeWhile (\<lambda>c. c \<noteq> CHR '';'') s)), tl (dropWhile (\<lambda>c. c \<noteq> CHR '';'') s))"

definition code_int :: "int \<Rightarrow> string" where
  "code_int k = (if k < 0 then ''-'' else ''+'') @ code_nat (nat \<bar>k\<bar>)"

definition decode_int :: "string \<Rightarrow> int \<times> string" where
  "decode_int s = (case decode_nat (tl s) of (n, r) \<Rightarrow> (if take 1 s = ''-'' then - int n else int n, r))"

definition code_string :: "string \<Rightarrow> string" where
  "code_string s = code_nat (length s) @ s"

definition decode_string :: "string \<Rightarrow> string \<times> string" where
  "decode_string s = (case decode_nat s of (n, r) \<Rightarrow> (take n r, drop n r))"

fun demo_json_dump :: "json \<Rightarrow> string" where
  "demo_json_dump JNull = ''n''"
| "demo_json_dump (JNum k) = CHR ''i'' # code_int k"
| "demo_json_dump (JDec k) = CHR ''d'' # code_int k"
| "demo_json_dump (JStr s) = CHR ''s'' # code_string s"
| "demo_json_dump (JArr js) = CHR ''a'' # code_nat (length js) @ concat (map demo_json_dump js)"
| "demo_json_dump (JObj kvs) = CHR ''o'' # code_nat (length kvs) @ concat (map (\<lambda>(k, v). code_string k @ demo_json_dump v) kvs)"

text \<open>A number of values one after the other.\<close>

fun decode_many :: "(string \<Rightarrow> ('a \<times> string) option) \<Rightarrow> nat \<Rightarrow> string \<Rightarrow> ('a list \<times> string) option" where
  "decode_many d 0 s = Some ([], s)"
| "decode_many d (Suc n) s =
     (case d s of None \<Rightarrow> None
      | Some (x, r) \<Rightarrow> (case decode_many d n r of None \<Rightarrow> None | Some (xs, r') \<Rightarrow> Some (x # xs, r')))"

definition decode_member :: "(string \<Rightarrow> (json \<times> string) option) \<Rightarrow> string \<Rightarrow> ((string \<times> json) \<times> string) option" where
  "decode_member d s =
     (case decode_string s of (k, r) \<Rightarrow> (case d r of None \<Rightarrow> None | Some (v, r') \<Rightarrow> Some ((k, v), r')))"

primrec decode_json :: "nat \<Rightarrow> string \<Rightarrow> (json \<times> string) option" where
  "decode_json 0 s = None"
| "decode_json (Suc f) s =
     (case s of [] \<Rightarrow> None
      | c # r \<Rightarrow>
          if c = CHR ''n'' then Some (JNull, r)
          else if c = CHR ''i'' then (case decode_int r of (k, r') \<Rightarrow> Some (JNum k, r'))
          else if c = CHR ''d'' then (case decode_int r of (k, r') \<Rightarrow> Some (JDec k, r'))
          else if c = CHR ''s'' then (case decode_string r of (t, r') \<Rightarrow> Some (JStr t, r'))
          else if c = CHR ''a'' then
            (case decode_nat r of (n, r') \<Rightarrow> map_option (\<lambda>(js, r''). (JArr js, r'')) (decode_many (decode_json f) n r'))
          else if c = CHR ''o'' then
            (case decode_nat r of (n, r') \<Rightarrow>
               map_option (\<lambda>(kvs, r''). (JObj kvs, r'')) (decode_many (decode_member (decode_json f)) n r'))
          else None)"

definition demo_parse :: "string \<Rightarrow> json option" where
  "demo_parse s = (case decode_json (length s) s of Some (j, []) \<Rightarrow> Some j | _ \<Rightarrow> None)"

lemma decode_code_nat [simp]: "decode_nat (code_nat n @ r) = (n, r)"
proof -
  have "c \<noteq> CHR '';''" if c: "c \<in> set (print_nat 10 n)" for c
  proof -
    obtain d where "d < 10" "c = digit_char d" using print_nat_digits [of 10 c n] c by auto
    with less_16_cases [of d] show ?thesis by (auto simp: digit_char_def)
  qed
  then have "takeWhile (\<lambda>c. c \<noteq> CHR '';'') (print_nat 10 n @ '';'' @ r) = print_nat 10 n"
    "dropWhile (\<lambda>c. c \<noteq> CHR '';'') (print_nat 10 n @ '';'' @ r) = '';'' @ r"
    by (simp_all add: takeWhile_append2 dropWhile_append2)
  then show ?thesis by (simp add: decode_nat_def code_nat_def read_digits_print)
qed

lemma decode_code_int [simp]: "decode_int (code_int k @ r) = (k, r)"
  by (simp add: decode_int_def code_int_def)

lemma decode_code_string [simp]: "decode_string (code_string s @ r) = (s, r)"
  by (simp add: decode_string_def code_string_def)

lemma decode_many_concat:
  assumes "\<And>x r. x \<in> set xs \<Longrightarrow> d (e x @ r) = Some (x, r)"
  shows "decode_many d (length xs) (concat (map e xs) @ r) = Some (xs, r)"
  using assms by (induction xs) auto

lemma length_concat_member: "x \<in> set xs \<Longrightarrow> length (e x) \<le> length (concat (map e xs))"
  by (induction xs) auto

lemma decode_dump: "length (demo_json_dump j) \<le> f \<Longrightarrow> decode_json f (demo_json_dump j @ r) = Some (j, r)"
proof (induction j arbitrary: f r)
  case (JArr js)
  then obtain f' where f: "f = Suc f'" by (cases f) auto
  have "decode_json f' (demo_json_dump x @ r) = Some (x, r)" if "x \<in> set js" for x r
    using JArr.IH [OF that] JArr.prems length_concat_member [OF that, of demo_json_dump] f by simp
  then show ?case using f by (simp add: decode_many_concat)
next
  case (JObj kvs)
  then obtain f' where f: "f = Suc f'" by (cases f) auto
  let ?e = "\<lambda>(k, v). code_string k @ demo_json_dump v"
  have "decode_member (decode_json f') (?e kv @ r) = Some (kv, r)" if "kv \<in> set kvs" for kv r
  proof -
    obtain k v where kv: "kv = (k, v)" by (cases kv)
    have "length (demo_json_dump v) \<le> f'" using JObj.prems length_concat_member [OF that, of ?e] f kv by simp
    then have "decode_json f' (demo_json_dump v @ r) = Some (v, r)" using JObj.IH [OF that, of v] kv by simp
    then show ?thesis by (simp add: kv decode_member_def)
  qed
  then show ?case using f by (simp add: decode_many_concat [of kvs "decode_member (decode_json f')" ?e])
next
  case (JNum k)
  then show ?case by (cases f) auto
next
  case (JDec k)
  then show ?case by (cases f) auto
next
  case (JStr s)
  then show ?case by (cases f) auto
next
  case JNull
  then show ?case by (cases f) auto
qed

lemma demo_parse_dump: "demo_parse (demo_json_dump j) = Some j"
  using decode_dump [of j "length (demo_json_dump j)" "[]"] by (simp add: demo_parse_def)

section \<open>IPv6 addresses\<close>

text \<open>Eight groups of four hexadecimal digits.\<close>

fun ip6_groups :: "8 word list \<Rightarrow> string list" where
  "ip6_groups (a # b # bs) = (hex_byte a @ hex_byte b) # ip6_groups bs"
| "ip6_groups bs = []"

definition demo_ntop6 :: "8 word list \<Rightarrow> string" where
  "demo_ntop6 a = join '':'' (ip6_groups a)"

definition digits_to_byte :: "char \<Rightarrow> char \<Rightarrow> 8 word option" where
  "digits_to_byte h l = (case byte_of_digits h l of Inr b \<Rightarrow> Some b | Inl e \<Rightarrow> None)"

fun groups_to_ip6 :: "string list \<Rightarrow> 8 word list option" where
  "groups_to_ip6 [] = Some []"
| "groups_to_ip6 ([a, b, c, d] # gs) =
     (case (digits_to_byte a b, digits_to_byte c d, groups_to_ip6 gs) of
        (Some x, Some y, Some xs) \<Rightarrow> Some (x # y # xs)
      | _ \<Rightarrow> None)"
| "groups_to_ip6 _ = None"

definition demo_pton6 :: "string \<Rightarrow> 8 word list option" where
  "demo_pton6 s = (if length s = 39 then groups_to_ip6 (demo_split CHR '':'' s []) else None)"

lemma length_16: "length xs = 16 \<Longrightarrow>
    \<exists>a b c d e f g h i j k l m n p q. xs = [a, b, c, d, e, f, g, h, i, j, k, l, m, n, p, q]"
  by (auto simp: numeral_eq_Suc length_Suc_conv)

lemma groups_read: "even (length a) \<Longrightarrow> groups_to_ip6 (ip6_groups a) = Some a"
  by (induction a rule: ip6_groups.induct) (auto simp: hex_byte_def digits_to_byte_def byte_of_hex_byte)

lemma groups_items: "list_all (item CHR '':'') (ip6_groups a)"
proof (induction a rule: ip6_groups.induct)
  case (1 a b bs)
  have "CHR '':'' \<noteq> upper_digit d" if "d < 16" for d
    using less_16_cases [OF that] by (auto simp: upper_digit_def)
  then show ?case using 1 byte_digits [of a] byte_digits [of b] by (auto simp: item_def hex_byte_def)
qed simp_all

lemma hex_byte_chars: "list_all ip6_char (hex_byte b)"
  using byte_digits [of b] by (simp add: hex_byte_def ip6_char_def upper_digit_char)

lemma demo_ntop6_chars: "list_all ip6_char (demo_ntop6 a)"
proof -
  have "list_all (list_all ip6_char) (ip6_groups a)"
    by (induction a rule: ip6_groups.induct) (simp_all add: hex_byte_chars)
  then show ?thesis unfolding demo_ntop6_def by (intro join_chars) (simp_all add: ip6_char_def)
qed

lemma demo_pton6_ntop6:
  assumes "length a = 16"
  shows "demo_pton6 (demo_ntop6 a) = Some a" "CHR '':'' \<in> set (demo_ntop6 a)"
proof -
  have "length (demo_ntop6 a) = 39"
    using length_16 [OF assms] by (auto simp: demo_ntop6_def hex_byte_def)
  then show "demo_pton6 (demo_ntop6 a) = Some a"
    using demo_split_join [OF groups_items, of a] groups_read [of a] assms
    by (simp add: demo_pton6_def) (simp add: demo_ntop6_def)
  show "CHR '':'' \<in> set (demo_ntop6 a)"
    using length_16 [OF assms] by (auto simp: demo_ntop6_def)
qed

section \<open>The instance\<close>

definition demo_enum :: "enum_name \<Rightarrow> enum_md" where
  "demo_enum e = \<lparr>em_strict_flags = False, em_entries = [(0, ''SAI_FIRST''), (1, ''SAI_SECOND'')], em_ignored = []\<rparr>"

definition demo_flags :: enum_md where
  "demo_flags = \<lparr>em_strict_flags = True, em_entries = [(1, ''SAI_ONE''), (2, ''SAI_TWO''), (4, ''SAI_FOUR'')], em_ignored = []\<rparr>"

definition demo_text :: text_lib where
  "demo_text = \<lparr>tokenize = (\<lambda>s sep. demo_split sep s []), json_dump = demo_json_dump, json_parse = demo_parse,
     inet_ntop6 = demo_ntop6, inet_pton6 = demo_pton6, enum_table = demo_enum\<rparr>"

lemma flag_word_bit:
  assumes "k < 32"
  shows "flag_word (push_bit k 1)"
proof -
  have "k \<in> set [0..<32]" using assms by simp
  then show ?thesis unfolding flag_word_def list_ex_iff by blast
qed

lemma demo_flag_words: "flag_word 1" "flag_word 2" "flag_word 4"
  using flag_word_bit [of 0] flag_word_bit [of 1] flag_word_bit [of 2] by simp_all

lemma demo_enum_ok: "enum_ok (demo_enum e)" "enum_ok demo_flags"
  by (simp_all add: enum_ok_def demo_enum_def demo_flags_def ident_def ident_char_def alnum_def demo_flag_words)

lemma demo_text_ok: "text_lib_ok demo_text"
  using demo_split_join
  by (simp add: text_lib_ok_def tokens_ok_def json_ok_def inet6_ok_def demo_text_def demo_parse_dump demo_pton6_ntop6
      demo_ntop6_chars demo_enum_ok)

end
