(* ===== verification/Ser_Entry.thy ===== *)
theory Ser_Entry
  imports Ser_Attr
begin

text \<open>
  Entries as text: the keys of objects without an object id, and \<open>sai_object_meta_key_t\<close>, in \<open>meta/SaiSerialize.cpp\<close>.
\<close>

section \<open>Members that are text\<close>

text \<open>The assignments \<open>j[k] = s\<close> and \<open>j.dump()\<close>; a function called for the text of a member may throw.\<close>

definition entry_text :: "'x text_lib_scheme \<Rightarrow> (string \<times> (fault + string)) list \<Rightarrow> fault + string" where
  "entry_text L kvs = bindE (json_fields (map (\<lambda>(k, r). (k, text_field r)) kvs)) (\<lambda>j. Inr (json_dump L j))"

definition member_text :: "json \<Rightarrow> string \<Rightarrow> (string \<Rightarrow> fault + 'a) \<Rightarrow> fault + 'a" where
  "member_text j k f = bindE (member_string j k) f"

text \<open>A field that can be printed, and read back from ASCII text.\<close>

definition prints :: "fault + string \<Rightarrow> (string \<Rightarrow> fault + 'a) \<Rightarrow> 'a \<Rightarrow> bool" where
  "prints r f x \<longleftrightarrow> (\<exists>s. r = Inr s \<and> f s = Inr x \<and> ascii s)"

definition printed :: "fault + string \<Rightarrow> bool" where
  "printed r \<longleftrightarrow> (\<exists>s. r = Inr s \<and> ascii s)"

lemma prints_printed: "prints r f x \<Longrightarrow> printed r"
  by (auto simp: prints_def printed_def)

lemma prints_bind: "prints r f x \<Longrightarrow> bindE r f = Inr x"
  by (auto simp: prints_def)

named_theorems field_prints

lemma simple_prints [field_prints]:
  "prints (Inr (sai_serialize_object_id oid)) sai_deserialize_object_id oid"
  "LENGTH('a) \<le> 64 \<Longrightarrow> prints (Inr (sai_serialize_number hex (w :: 'a::len word))) (sai_deserialize_number hex) w"
  "length mac = 6 \<Longrightarrow> prints (Inr (sai_serialize_mac mac)) sai_deserialize_mac mac"
  "length ip = 4 \<Longrightarrow> prints (Inr (sai_serialize_ipv4 ip)) sai_deserialize_ipv4 ip"
  by (simp_all add: prints_def object_id_roundtrip number_roundtrip mac_roundtrip ipv4_roundtrip plainD)

lemma lib_prints [field_prints]:
  assumes "text_lib_ok L"
  shows "length ip = 16 \<Longrightarrow> prints (Inr (sai_serialize_ipv6 L ip)) (sai_deserialize_ipv6 L) ip"
    "ip_ok a \<Longrightarrow> prints (sai_serialize_ip_address L a) (sai_deserialize_ip_address L) a"
    "prefix_ok p \<Longrightarrow> prints (sai_serialize_ip_prefix L p) (sai_deserialize_ip_prefix L) p"
    "LENGTH('a) \<le> 64 \<Longrightarrow> prints (Inr (sai_serialize_range r)) (sai_deserialize_range L) (r :: 'a::len word \<times> 'a word)"
    "prints (sai_serialize_enum w (Some (enum_table L n))) (\<lambda>s. sai_deserialize_enum L s (Some (enum_table L n))) w"
proof -
  note L = text_lib_okD [OF assms]
  show "length ip = 16 \<Longrightarrow> prints (Inr (sai_serialize_ipv6 L ip)) (sai_deserialize_ipv6 L) ip"
    using L(3) by (simp add: prints_def ipv6_roundtrip plainD)
  show "prints (sai_serialize_ip_address L a) (sai_deserialize_ip_address L) a" if "ip_ok a"
    using ip_address_roundtrip [OF L(3) that] unfolding prints_def by (metis plainD(2))
  show "prints (sai_serialize_ip_prefix L p) (sai_deserialize_ip_prefix L) p" if "prefix_ok p"
    using ip_prefix_roundtrip [OF L(1,3) that] unfolding prints_def by (metis plainD(2))
  show "LENGTH('a) \<le> 64 \<Longrightarrow> prints (Inr (sai_serialize_range r)) (sai_deserialize_range L) (r :: 'a::len word \<times> 'a word)"
    using L(1) by (simp add: prints_def range_roundtrip) (simp add: sai_serialize_range_def)
  show "prints (sai_serialize_enum w (Some (enum_table L n))) (\<lambda>s. sai_deserialize_enum L s (Some (enum_table L n))) w"
    using enum_reads [of L "Some (enum_table L n)" w] L(1,4) unfolding prints_def by (metis option.inject plainD(2))
qed

text \<open>Members with different names that can be printed are all found again.\<close>

lemma text_fields: "list_all (\<lambda>(k, r). printed r) kvs \<Longrightarrow>
    \<exists>ts. mapE (\<lambda>(k, r). bindE r (\<lambda>v. Inr (k, v))) (map (\<lambda>(k, r). (k, text_field r)) kvs) = Inr (map (\<lambda>(k, s). (k, JStr s)) ts) \<and>
      kvs = map (\<lambda>(k, s). (k, Inr s)) ts \<and> list_all (\<lambda>(k, s). ascii s) ts"
proof (induction kvs)
  case (Cons kv kvs)
  obtain k r where kv: "kv = (k, r)" by (cases kv)
  with Cons obtain s ts where "r = Inr s" "ascii s"
    "mapE (\<lambda>(k, r). bindE r (\<lambda>v. Inr (k, v))) (map (\<lambda>(k, r). (k, text_field r)) kvs) = Inr (map (\<lambda>(k, s). (k, JStr s)) ts)"
    "kvs = map (\<lambda>(k, s). (k, Inr s)) ts" "list_all (\<lambda>(k, s). ascii s) ts"
    by (auto simp: printed_def)
  then show ?case by (intro exI [of _ "(k, s) # ts"]) (simp add: kv)
qed simp

lemma entry_fields:
  assumes "distinct (map fst kvs)" "list_all ascii (map fst kvs)" "list_all (\<lambda>(k, r). printed r) kvs"
  obtains j where "json_fields (map (\<lambda>(k, r). (k, text_field r)) kvs) = Inr j" "json_wf j"
    "list_all (\<lambda>(k, r). member_string j k = r) kvs"
proof -
  from text_fields [OF assms(3)] obtain ts where ts:
    "mapE (\<lambda>(k, r). bindE r (\<lambda>v. Inr (k, v))) (map (\<lambda>(k, r). (k, text_field r)) kvs) = Inr (map (\<lambda>(k, s). (k, JStr s)) ts)"
    "kvs = map (\<lambda>(k, s). (k, Inr s)) ts" "list_all (\<lambda>(k, s). ascii s) ts" by blast
  let ?j = "json_object (map (\<lambda>(k, s). (k, JStr s)) ts)"
  have fst: "map fst (map (\<lambda>(k, s). (k, JStr s)) ts) = map fst ts" "map fst kvs = map fst ts"
    by (simp_all add: ts(2) comp_def case_prod_unfold)
  have "member_string ?j k = Inr s" if "(k, s) \<in> set ts" for k s
  proof -
    have "distinct (map fst (rev (map (\<lambda>(k, s). (k, JStr s)) ts)))"
      using assms(1) fst by (metis distinct_rev rev_map)
    moreover have "(k, JStr s) \<in> set (rev (map (\<lambda>(k, s). (k, JStr s)) ts))" using that by force
    ultimately have "map_of (rev (map (\<lambda>(k, s). (k, JStr s)) ts)) k = Some (JStr s)" by (rule map_of_is_SomeI)
    then show ?thesis by (simp add: json_reads)
  qed
  then have "list_all (\<lambda>(k, r). member_string ?j k = r) kvs" by (auto simp: ts(2) list_all_iff)
  moreover have "json_wf ?j"
    using assms(2) ts(3) fst by (intro json_wf_object) (auto simp: list_all_iff)
  ultimately show ?thesis using ts(1) that [of ?j] by (simp add: json_fields_def)
qed

lemma entry_text_reads:
  assumes "text_lib_ok L" "distinct (map fst kvs)" "list_all ascii (map fst kvs)" "list_all (\<lambda>(k, r). printed r) kvs"
    and "\<And>j. list_all (\<lambda>(k, r). member_string j k = r) kvs \<Longrightarrow> get j = Inr x"
  shows "reads (entry_text L kvs) (\<lambda>s. bindE (parse_json L s) get) x"
proof -
  from entry_fields [OF assms(2-4)] obtain j where "json_fields (map (\<lambda>(k, r). (k, text_field r)) kvs) = Inr j" "json_wf j"
    "list_all (\<lambda>(k, r). member_string j k = r) kvs" .
  then show ?thesis
    using assms(5) parse_dump [OF text_lib_okD(2) [OF assms(1)]] by (simp add: reads_def entry_text_def)
qed

text \<open>For the simplifier: what is printed is printed, and read back after \<open>bindE\<close>.\<close>

lemma printed_text [simp]: "printed (Inr s) \<longleftrightarrow> ascii s"
  by (simp add: printed_def)

lemma printed_simple [field_prints]:
  "sai_deserialize_object_id (sai_serialize_object_id oid) = Inr oid"
  "LENGTH('a) \<le> 64 \<Longrightarrow> sai_deserialize_number hex (sai_serialize_number hex (w :: 'a::len word)) = Inr w"
  "length mac = 6 \<Longrightarrow> sai_deserialize_mac (sai_serialize_mac mac) = Inr mac"
  "length ip = 4 \<Longrightarrow> sai_deserialize_ipv4 (sai_serialize_ipv4 ip) = Inr ip"
  "length ip = 4 \<Longrightarrow> ascii (sai_serialize_ipv4 ip)"
  by (simp_all add: object_id_roundtrip number_roundtrip mac_roundtrip ipv4_roundtrip plainD)

lemma printed_lib [field_prints]:
  assumes "text_lib_ok L"
  shows "length ip = 16 \<Longrightarrow> ascii (sai_serialize_ipv6 L ip)"
    "length ip = 16 \<Longrightarrow> sai_deserialize_ipv6 L (sai_serialize_ipv6 L ip) = Inr ip"
    "ip_ok a \<Longrightarrow> printed (sai_serialize_ip_address L a)"
    "ip_ok a \<Longrightarrow> bindE (sai_serialize_ip_address L a) (sai_deserialize_ip_address L) = Inr a"
    "prefix_ok p \<Longrightarrow> printed (sai_serialize_ip_prefix L p)"
    "prefix_ok p \<Longrightarrow> bindE (sai_serialize_ip_prefix L p) (sai_deserialize_ip_prefix L) = Inr p"
    "ascii (sai_serialize_range (r :: 'a::len word \<times> 'a word))"
    "LENGTH('a) \<le> 64 \<Longrightarrow> sai_deserialize_range L (sai_serialize_range (r :: 'a::len word \<times> 'a word)) = Inr r"
    "printed (sai_serialize_enum w (Some (enum_table L n)))"
    "bindE (sai_serialize_enum w (Some (enum_table L n))) (\<lambda>s. sai_deserialize_enum L s (Some (enum_table L n))) = Inr w"
proof -
  note L = text_lib_okD [OF assms] and P = lib_prints [OF assms]
  show "length ip = 16 \<Longrightarrow> ascii (sai_serialize_ipv6 L ip)"
    "length ip = 16 \<Longrightarrow> sai_deserialize_ipv6 L (sai_serialize_ipv6 L ip) = Inr ip"
    using L(3) by (simp_all add: ipv6_roundtrip plainD)
  show "ip_ok a \<Longrightarrow> printed (sai_serialize_ip_address L a)"
    "ip_ok a \<Longrightarrow> bindE (sai_serialize_ip_address L a) (sai_deserialize_ip_address L) = Inr a"
    "prefix_ok p \<Longrightarrow> printed (sai_serialize_ip_prefix L p)"
    "prefix_ok p \<Longrightarrow> bindE (sai_serialize_ip_prefix L p) (sai_deserialize_ip_prefix L) = Inr p"
    "printed (sai_serialize_enum w (Some (enum_table L n)))"
    "bindE (sai_serialize_enum w (Some (enum_table L n))) (\<lambda>s. sai_deserialize_enum L s (Some (enum_table L n))) = Inr w"
    by (rule prints_printed prints_bind; rule P; assumption?)+
  show "ascii (sai_serialize_range (r :: 'a word \<times> 'a word))" by (simp add: sai_serialize_range_def)
  show "LENGTH('a) \<le> 64 \<Longrightarrow> sai_deserialize_range L (sai_serialize_range r) = Inr r"
    using L(1) by (rule range_roundtrip)
qed

named_theorems entry_reads

section \<open>Entries of which every member is text\<close>

record sai_fdb_entry =
  fe_switch_id :: oid
  fe_mac_address :: "8 word list"
  fe_bv_id :: oid

definition sai_serialize_fdb_entry :: "'x text_lib_scheme \<Rightarrow> sai_fdb_entry \<Rightarrow> fault + string" where
  "sai_serialize_fdb_entry L e =
     entry_text L
       [(''switch_id'', Inr (sai_serialize_object_id (fe_switch_id e))),
        (''mac'', Inr (sai_serialize_mac (fe_mac_address e))), (''bvid'', Inr (sai_serialize_object_id (fe_bv_id e)))]"

definition sai_deserialize_fdb_entry :: "'x text_lib_scheme \<Rightarrow> string \<Rightarrow> fault + sai_fdb_entry" where
  "sai_deserialize_fdb_entry L s =
     bindE (parse_json L s) (\<lambda>j.
     bindE (member_text j ''switch_id'' sai_deserialize_object_id) (\<lambda>x0.
     bindE (member_text j ''mac'' sai_deserialize_mac) (\<lambda>x1.
     bindE (member_text j ''bvid'' sai_deserialize_object_id) (\<lambda>x2.
       Inr \<lparr>fe_switch_id = x0, fe_mac_address = x1, fe_bv_id = x2\<rparr>))))"

lemma fdb_entry_reads [entry_reads]:
  assumes "text_lib_ok L" "length (fe_mac_address e) = 6"
  shows "reads (sai_serialize_fdb_entry L e) (sai_deserialize_fdb_entry L) e"
  unfolding sai_serialize_fdb_entry_def sai_deserialize_fdb_entry_def
  by (cases e, rule entry_text_reads) (use assms in \<open>simp_all add: member_text_def field_prints\<close>)

record sai_neighbor_entry =
  ne_switch_id :: oid
  ne_rif_id :: oid
  ne_ip_address :: sai_ip_address

definition sai_serialize_neighbor_entry :: "'x text_lib_scheme \<Rightarrow> sai_neighbor_entry \<Rightarrow> fault + string" where
  "sai_serialize_neighbor_entry L e =
     entry_text L
       [(''switch_id'', Inr (sai_serialize_object_id (ne_switch_id e))),
        (''rif'', Inr (sai_serialize_object_id (ne_rif_id e))), (''ip'', sai_serialize_ip_address L (ne_ip_address e))]"

definition sai_deserialize_neighbor_entry :: "'x text_lib_scheme \<Rightarrow> string \<Rightarrow> fault + sai_neighbor_entry" where
  "sai_deserialize_neighbor_entry L s =
     bindE (parse_json L s) (\<lambda>j.
     bindE (member_text j ''switch_id'' sai_deserialize_object_id) (\<lambda>x0.
     bindE (member_text j ''rif'' sai_deserialize_object_id) (\<lambda>x1.
     bindE (member_text j ''ip'' (sai_deserialize_ip_address L)) (\<lambda>x2.
       Inr \<lparr>ne_switch_id = x0, ne_rif_id = x1, ne_ip_address = x2\<rparr>))))"

lemma neighbor_entry_reads [entry_reads]:
  assumes "text_lib_ok L" "ip_ok (ne_ip_address e)"
  shows "reads (sai_serialize_neighbor_entry L e) (sai_deserialize_neighbor_entry L) e"
  unfolding sai_serialize_neighbor_entry_def sai_deserialize_neighbor_entry_def
  by (cases e, rule entry_text_reads) (use assms in \<open>simp_all add: member_text_def field_prints\<close>)

record sai_ipmc_entry =
  ie_switch_id :: oid
  ie_vr_id :: oid
  ie_type :: "32 word"
  ie_destination :: sai_ip_address
  ie_source :: sai_ip_address

definition sai_serialize_ipmc_entry :: "'x text_lib_scheme \<Rightarrow> sai_ipmc_entry \<Rightarrow> fault + string" where
  "sai_serialize_ipmc_entry L e =
     entry_text L
       [(''switch_id'', Inr (sai_serialize_object_id (ie_switch_id e))),
        (''vr_id'', Inr (sai_serialize_object_id (ie_vr_id e))),
        (''type'', sai_serialize_enum (ie_type e) (Some (enum_table L EN_ipmc_entry_type))),
        (''destination'', sai_serialize_ip_address L (ie_destination e)),
        (''source'', sai_serialize_ip_address L (ie_source e))]"

definition sai_deserialize_ipmc_entry :: "'x text_lib_scheme \<Rightarrow> string \<Rightarrow> fault + sai_ipmc_entry" where
  "sai_deserialize_ipmc_entry L s =
     bindE (parse_json L s) (\<lambda>j.
     bindE (member_text j ''switch_id'' sai_deserialize_object_id) (\<lambda>x0.
     bindE (member_text j ''vr_id'' sai_deserialize_object_id) (\<lambda>x1.
     bindE (member_text j ''type'' (\<lambda>s. sai_deserialize_enum L s (Some (enum_table L EN_ipmc_entry_type)))) (\<lambda>x2.
     bindE (member_text j ''destination'' (sai_deserialize_ip_address L)) (\<lambda>x3.
     bindE (member_text j ''source'' (sai_deserialize_ip_address L)) (\<lambda>x4.
       Inr \<lparr>ie_switch_id = x0, ie_vr_id = x1, ie_type = x2, ie_destination = x3, ie_source = x4\<rparr>))))))"

lemma ipmc_entry_reads [entry_reads]:
  assumes "text_lib_ok L" "ip_ok (ie_destination e)" "ip_ok (ie_source e)"
  shows "reads (sai_serialize_ipmc_entry L e) (sai_deserialize_ipmc_entry L) e"
  unfolding sai_serialize_ipmc_entry_def sai_deserialize_ipmc_entry_def
  by (cases e, rule entry_text_reads) (use assms in \<open>simp_all add: member_text_def field_prints\<close>)

record sai_l2mc_entry =
  le_switch_id :: oid
  le_bv_id :: oid
  le_type :: "32 word"
  le_destination :: sai_ip_address
  le_source :: sai_ip_address

definition sai_serialize_l2mc_entry :: "'x text_lib_scheme \<Rightarrow> sai_l2mc_entry \<Rightarrow> fault + string" where
  "sai_serialize_l2mc_entry L e =
     entry_text L
       [(''switch_id'', Inr (sai_serialize_object_id (le_switch_id e))),
        (''bv_id'', Inr (sai_serialize_object_id (le_bv_id e))),
        (''type'', sai_serialize_enum (le_type e) (Some (enum_table L EN_l2mc_entry_type))),
        (''destination'', sai_serialize_ip_address L (le_destination e)),
        (''source'', sai_serialize_ip_address L (le_source e))]"

definition sai_deserialize_l2mc_entry :: "'x text_lib_scheme \<Rightarrow> string \<Rightarrow> fault + sai_l2mc_entry" where
  "sai_deserialize_l2mc_entry L s =
     bindE (parse_json L s) (\<lambda>j.
     bindE (member_text j ''switch_id'' sai_deserialize_object_id) (\<lambda>x0.
     bindE (member_text j ''bv_id'' sai_deserialize_object_id) (\<lambda>x1.
     bindE (member_text j ''type'' (\<lambda>s. sai_deserialize_enum L s (Some (enum_table L EN_l2mc_entry_type)))) (\<lambda>x2.
     bindE (member_text j ''destination'' (sai_deserialize_ip_address L)) (\<lambda>x3.
     bindE (member_text j ''source'' (sai_deserialize_ip_address L)) (\<lambda>x4.
       Inr \<lparr>le_switch_id = x0, le_bv_id = x1, le_type = x2, le_destination = x3, le_source = x4\<rparr>))))))"

lemma l2mc_entry_reads [entry_reads]:
  assumes "text_lib_ok L" "ip_ok (le_destination e)" "ip_ok (le_source e)"
  shows "reads (sai_serialize_l2mc_entry L e) (sai_deserialize_l2mc_entry L) e"
  unfolding sai_serialize_l2mc_entry_def sai_deserialize_l2mc_entry_def
  by (cases e, rule entry_text_reads) (use assms in \<open>simp_all add: member_text_def field_prints\<close>)

record sai_mcast_fdb_entry =
  mf_switch_id :: oid
  mf_bv_id :: oid
  mf_mac_address :: "8 word list"

definition sai_serialize_mcast_fdb_entry :: "'x text_lib_scheme \<Rightarrow> sai_mcast_fdb_entry \<Rightarrow> fault + string" where
  "sai_serialize_mcast_fdb_entry L e =
     entry_text L
       [(''switch_id'', Inr (sai_serialize_object_id (mf_switch_id e))),
        (''bv_id'', Inr (sai_serialize_object_id (mf_bv_id e))),
        (''mac_address'', Inr (sai_serialize_mac (mf_mac_address e)))]"

definition sai_deserialize_mcast_fdb_entry :: "'x text_lib_scheme \<Rightarrow> string \<Rightarrow> fault + sai_mcast_fdb_entry" where
  "sai_deserialize_mcast_fdb_entry L s =
     bindE (parse_json L s) (\<lambda>j.
     bindE (member_text j ''switch_id'' sai_deserialize_object_id) (\<lambda>x0.
     bindE (member_text j ''bv_id'' sai_deserialize_object_id) (\<lambda>x1.
     bindE (member_text j ''mac_address'' sai_deserialize_mac) (\<lambda>x2.
       Inr \<lparr>mf_switch_id = x0, mf_bv_id = x1, mf_mac_address = x2\<rparr>))))"

lemma mcast_fdb_entry_reads [entry_reads]:
  assumes "text_lib_ok L" "length (mf_mac_address e) = 6"
  shows "reads (sai_serialize_mcast_fdb_entry L e) (sai_deserialize_mcast_fdb_entry L) e"
  unfolding sai_serialize_mcast_fdb_entry_def sai_deserialize_mcast_fdb_entry_def
  by (cases e, rule entry_text_reads) (use assms in \<open>simp_all add: member_text_def field_prints\<close>)

record sai_inseg_entry =
  is_switch_id :: oid
  is_label :: u32

definition sai_serialize_inseg_entry :: "'x text_lib_scheme \<Rightarrow> sai_inseg_entry \<Rightarrow> fault + string" where
  "sai_serialize_inseg_entry L e =
     entry_text L
       [(''switch_id'', Inr (sai_serialize_object_id (is_switch_id e))),
        (''label'', Inr (sai_serialize_number False (is_label e)))]"

definition sai_deserialize_inseg_entry :: "'x text_lib_scheme \<Rightarrow> string \<Rightarrow> fault + sai_inseg_entry" where
  "sai_deserialize_inseg_entry L s =
     bindE (parse_json L s) (\<lambda>j.
     bindE (member_text j ''switch_id'' sai_deserialize_object_id) (\<lambda>x0.
     bindE (member_text j ''label'' (sai_deserialize_number False)) (\<lambda>x1.
       Inr \<lparr>is_switch_id = x0, is_label = x1\<rparr>)))"

lemma inseg_entry_reads [entry_reads]:
  assumes "text_lib_ok L"
  shows "reads (sai_serialize_inseg_entry L e) (sai_deserialize_inseg_entry L) e"
  unfolding sai_serialize_inseg_entry_def sai_deserialize_inseg_entry_def
  by (cases e, rule entry_text_reads) (use assms in \<open>simp_all add: member_text_def field_prints\<close>)

record sai_my_sid_entry =
  my_switch_id :: oid
  my_vr_id :: oid
  my_locator_block_len :: "8 word"
  my_locator_node_len :: "8 word"
  my_function_len :: "8 word"
  my_args_len :: "8 word"
  my_sid :: "8 word list"

definition sai_serialize_my_sid_entry :: "'x text_lib_scheme \<Rightarrow> sai_my_sid_entry \<Rightarrow> fault + string" where
  "sai_serialize_my_sid_entry L e =
     entry_text L
       [(''switch_id'', Inr (sai_serialize_object_id (my_switch_id e))),
        (''vr_id'', Inr (sai_serialize_object_id (my_vr_id e))),
        (''locator_block_len'', Inr (sai_serialize_number False (my_locator_block_len e))),
        (''locator_node_len'', Inr (sai_serialize_number False (my_locator_node_len e))),
        (''function_len'', Inr (sai_serialize_number False (my_function_len e))),
        (''args_len'', Inr (sai_serialize_number False (my_args_len e))),
        (''sid'', Inr (sai_serialize_ipv6 L (my_sid e)))]"

definition sai_deserialize_my_sid_entry :: "'x text_lib_scheme \<Rightarrow> string \<Rightarrow> fault + sai_my_sid_entry" where
  "sai_deserialize_my_sid_entry L s =
     bindE (parse_json L s) (\<lambda>j.
     bindE (member_text j ''switch_id'' sai_deserialize_object_id) (\<lambda>x0.
     bindE (member_text j ''vr_id'' sai_deserialize_object_id) (\<lambda>x1.
     bindE (member_text j ''locator_block_len'' (sai_deserialize_number False)) (\<lambda>x2.
     bindE (member_text j ''locator_node_len'' (sai_deserialize_number False)) (\<lambda>x3.
     bindE (member_text j ''function_len'' (sai_deserialize_number False)) (\<lambda>x4.
     bindE (member_text j ''args_len'' (sai_deserialize_number False)) (\<lambda>x5.
     bindE (member_text j ''sid'' (sai_deserialize_ipv6 L)) (\<lambda>x6.
       Inr \<lparr>my_switch_id = x0, my_vr_id = x1, my_locator_block_len = x2, my_locator_node_len = x3,
            my_function_len = x4, my_args_len = x5, my_sid = x6\<rparr>))))))))"

lemma my_sid_entry_reads [entry_reads]:
  assumes "text_lib_ok L" "length (my_sid e) = 16"
  shows "reads (sai_serialize_my_sid_entry L e) (sai_deserialize_my_sid_entry L) e"
  unfolding sai_serialize_my_sid_entry_def sai_deserialize_my_sid_entry_def
  by (cases e, rule entry_text_reads) (use assms in \<open>simp_all add: member_text_def field_prints\<close>)

record sai_prefix_compression_entry =
  pe_switch_id :: oid
  pe_prefix_table_id :: oid
  pe_prefix :: sai_ip_prefix

definition sai_serialize_prefix_compression_entry :: "'x text_lib_scheme \<Rightarrow> sai_prefix_compression_entry \<Rightarrow> fault + string" where
  "sai_serialize_prefix_compression_entry L e =
     entry_text L
       [(''switch_id'', Inr (sai_serialize_object_id (pe_switch_id e))),
        (''prefix_table_id'', Inr (sai_serialize_object_id (pe_prefix_table_id e))),
        (''prefix'', sai_serialize_ip_prefix L (pe_prefix e))]"

definition sai_deserialize_prefix_compression_entry :: "'x text_lib_scheme \<Rightarrow> string \<Rightarrow> fault + sai_prefix_compression_entry" where
  "sai_deserialize_prefix_compression_entry L s =
     bindE (parse_json L s) (\<lambda>j.
     bindE (member_text j ''switch_id'' sai_deserialize_object_id) (\<lambda>x0.
     bindE (member_text j ''prefix_table_id'' sai_deserialize_object_id) (\<lambda>x1.
     bindE (member_text j ''prefix'' (sai_deserialize_ip_prefix L)) (\<lambda>x2.
       Inr \<lparr>pe_switch_id = x0, pe_prefix_table_id = x1, pe_prefix = x2\<rparr>))))"

lemma prefix_compression_entry_reads [entry_reads]:
  assumes "text_lib_ok L" "prefix_ok (pe_prefix e)"
  shows "reads (sai_serialize_prefix_compression_entry L e) (sai_deserialize_prefix_compression_entry L) e"
  unfolding sai_serialize_prefix_compression_entry_def sai_deserialize_prefix_compression_entry_def
  by (cases e, rule entry_text_reads) (use assms in \<open>simp_all add: member_text_def field_prints\<close>)

record sai_meter_bucket_entry =
  mb_switch_id :: oid
  mb_eni_id :: oid
  mb_meter_class :: u32

definition sai_serialize_meter_bucket_entry :: "'x text_lib_scheme \<Rightarrow> sai_meter_bucket_entry \<Rightarrow> fault + string" where
  "sai_serialize_meter_bucket_entry L e =
     entry_text L
       [(''switch_id'', Inr (sai_serialize_object_id (mb_switch_id e))),
        (''eni_id'', Inr (sai_serialize_object_id (mb_eni_id e))),
        (''meter_class'', Inr (sai_serialize_number False (mb_meter_class e)))]"

definition sai_deserialize_meter_bucket_entry :: "'x text_lib_scheme \<Rightarrow> string \<Rightarrow> fault + sai_meter_bucket_entry" where
  "sai_deserialize_meter_bucket_entry L s =
     bindE (parse_json L s) (\<lambda>j.
     bindE (member_text j ''switch_id'' sai_deserialize_object_id) (\<lambda>x0.
     bindE (member_text j ''eni_id'' sai_deserialize_object_id) (\<lambda>x1.
     bindE (member_text j ''meter_class'' (sai_deserialize_number False)) (\<lambda>x2.
       Inr \<lparr>mb_switch_id = x0, mb_eni_id = x1, mb_meter_class = x2\<rparr>))))"

lemma meter_bucket_entry_reads [entry_reads]:
  assumes "text_lib_ok L"
  shows "reads (sai_serialize_meter_bucket_entry L e) (sai_deserialize_meter_bucket_entry L) e"
  unfolding sai_serialize_meter_bucket_entry_def sai_deserialize_meter_bucket_entry_def
  by (cases e, rule entry_text_reads) (use assms in \<open>simp_all add: member_text_def field_prints\<close>)

record sai_flow_entry =
  fl_switch_id :: oid
  fl_eni_mac :: "8 word list"
  fl_vnet_id :: "16 word"
  fl_ip_proto :: "8 word"
  fl_src_ip :: sai_ip_address
  fl_dst_ip :: sai_ip_address
  fl_src_port :: "16 word"
  fl_dst_port :: "16 word"

definition sai_serialize_flow_entry :: "'x text_lib_scheme \<Rightarrow> sai_flow_entry \<Rightarrow> fault + string" where
  "sai_serialize_flow_entry L e =
     entry_text L
       [(''switch_id'', Inr (sai_serialize_object_id (fl_switch_id e))),
        (''eni_mac'', Inr (sai_serialize_mac (fl_eni_mac e))),
        (''vnet_id'', Inr (sai_serialize_number False (fl_vnet_id e))),
        (''ip_proto'', Inr (sai_serialize_number False (fl_ip_proto e))),
        (''src_ip'', sai_serialize_ip_address L (fl_src_ip e)),
        (''dst_ip'', sai_serialize_ip_address L (fl_dst_ip e)),
        (''src_port'', Inr (sai_serialize_number False (fl_src_port e))),
        (''dst_port'', Inr (sai_serialize_number False (fl_dst_port e)))]"

definition sai_deserialize_flow_entry :: "'x text_lib_scheme \<Rightarrow> string \<Rightarrow> fault + sai_flow_entry" where
  "sai_deserialize_flow_entry L s =
     bindE (parse_json L s) (\<lambda>j.
     bindE (member_text j ''switch_id'' sai_deserialize_object_id) (\<lambda>x0.
     bindE (member_text j ''eni_mac'' sai_deserialize_mac) (\<lambda>x1.
     bindE (member_text j ''vnet_id'' (sai_deserialize_number False)) (\<lambda>x2.
     bindE (member_text j ''ip_proto'' (sai_deserialize_number False)) (\<lambda>x3.
     bindE (member_text j ''src_ip'' (sai_deserialize_ip_address L)) (\<lambda>x4.
     bindE (member_text j ''dst_ip'' (sai_deserialize_ip_address L)) (\<lambda>x5.
     bindE (member_text j ''src_port'' (sai_deserialize_number False)) (\<lambda>x6.
     bindE (member_text j ''dst_port'' (sai_deserialize_number False)) (\<lambda>x7.
       Inr \<lparr>fl_switch_id = x0, fl_eni_mac = x1, fl_vnet_id = x2, fl_ip_proto = x3, fl_src_ip = x4, fl_dst_ip = x5,
            fl_src_port = x6, fl_dst_port = x7\<rparr>)))))))))"

lemma flow_entry_reads [entry_reads]:
  assumes "text_lib_ok L" "length (fl_eni_mac e) = 6" "ip_ok (fl_src_ip e)" "ip_ok (fl_dst_ip e)"
  shows "reads (sai_serialize_flow_entry L e) (sai_deserialize_flow_entry L) e"
  unfolding sai_serialize_flow_entry_def sai_deserialize_flow_entry_def
  by (cases e, rule entry_text_reads) (use assms in \<open>simp_all add: member_text_def field_prints\<close>)

record sai_direction_lookup_entry =
  dl_switch_id :: oid
  dl_vni :: u32

definition sai_serialize_direction_lookup_entry :: "'x text_lib_scheme \<Rightarrow> sai_direction_lookup_entry \<Rightarrow> fault + string" where
  "sai_serialize_direction_lookup_entry L e =
     entry_text L
       [(''switch_id'', Inr (sai_serialize_object_id (dl_switch_id e))),
        (''vni'', Inr (sai_serialize_number False (dl_vni e)))]"

definition sai_deserialize_direction_lookup_entry :: "'x text_lib_scheme \<Rightarrow> string \<Rightarrow> fault + sai_direction_lookup_entry" where
  "sai_deserialize_direction_lookup_entry L s =
     bindE (parse_json L s) (\<lambda>j.
     bindE (member_text j ''switch_id'' sai_deserialize_object_id) (\<lambda>x0.
     bindE (member_text j ''vni'' (sai_deserialize_number False)) (\<lambda>x1.
       Inr \<lparr>dl_switch_id = x0, dl_vni = x1\<rparr>)))"

lemma direction_lookup_entry_reads [entry_reads]:
  assumes "text_lib_ok L"
  shows "reads (sai_serialize_direction_lookup_entry L e) (sai_deserialize_direction_lookup_entry L) e"
  unfolding sai_serialize_direction_lookup_entry_def sai_deserialize_direction_lookup_entry_def
  by (cases e, rule entry_text_reads) (use assms in \<open>simp_all add: member_text_def field_prints\<close>)

record sai_eni_ether_address_map_entry =
  em_switch_id :: oid
  em_address :: "8 word list"

definition sai_serialize_eni_ether_address_map_entry :: "'x text_lib_scheme \<Rightarrow> sai_eni_ether_address_map_entry \<Rightarrow> fault + string" where
  "sai_serialize_eni_ether_address_map_entry L e =
     entry_text L
       [(''switch_id'', Inr (sai_serialize_object_id (em_switch_id e))),
        (''address'', Inr (sai_serialize_mac (em_address e)))]"

definition sai_deserialize_eni_ether_address_map_entry :: "'x text_lib_scheme \<Rightarrow> string \<Rightarrow> fault + sai_eni_ether_address_map_entry" where
  "sai_deserialize_eni_ether_address_map_entry L s =
     bindE (parse_json L s) (\<lambda>j.
     bindE (member_text j ''switch_id'' sai_deserialize_object_id) (\<lambda>x0.
     bindE (member_text j ''address'' sai_deserialize_mac) (\<lambda>x1.
       Inr \<lparr>em_switch_id = x0, em_address = x1\<rparr>)))"

lemma eni_ether_address_map_entry_reads [entry_reads]:
  assumes "text_lib_ok L" "length (em_address e) = 6"
  shows "reads (sai_serialize_eni_ether_address_map_entry L e) (sai_deserialize_eni_ether_address_map_entry L) e"
  unfolding sai_serialize_eni_ether_address_map_entry_def sai_deserialize_eni_ether_address_map_entry_def
  by (cases e, rule entry_text_reads) (use assms in \<open>simp_all add: member_text_def field_prints\<close>)

record sai_vip_entry =
  vi_switch_id :: oid
  vi_vip :: sai_ip_address

definition sai_serialize_vip_entry :: "'x text_lib_scheme \<Rightarrow> sai_vip_entry \<Rightarrow> fault + string" where
  "sai_serialize_vip_entry L e =
     entry_text L
       [(''switch_id'', Inr (sai_serialize_object_id (vi_switch_id e))),
        (''vip'', sai_serialize_ip_address L (vi_vip e))]"

definition sai_deserialize_vip_entry :: "'x text_lib_scheme \<Rightarrow> string \<Rightarrow> fault + sai_vip_entry" where
  "sai_deserialize_vip_entry L s =
     bindE (parse_json L s) (\<lambda>j.
     bindE (member_text j ''switch_id'' sai_deserialize_object_id) (\<lambda>x0.
     bindE (member_text j ''vip'' (sai_deserialize_ip_address L)) (\<lambda>x1.
       Inr \<lparr>vi_switch_id = x0, vi_vip = x1\<rparr>)))"

lemma vip_entry_reads [entry_reads]:
  assumes "text_lib_ok L" "ip_ok (vi_vip e)"
  shows "reads (sai_serialize_vip_entry L e) (sai_deserialize_vip_entry L) e"
  unfolding sai_serialize_vip_entry_def sai_deserialize_vip_entry_def
  by (cases e, rule entry_text_reads) (use assms in \<open>simp_all add: member_text_def field_prints\<close>)

record sai_inbound_routing_entry =
  ir_switch_id :: oid
  ir_eni_id :: oid
  ir_vni :: u32
  ir_sip :: sai_ip_address
  ir_sip_mask :: sai_ip_address
  ir_priority :: u32

definition sai_serialize_inbound_routing_entry :: "'x text_lib_scheme \<Rightarrow> sai_inbound_routing_entry \<Rightarrow> fault + string" where
  "sai_serialize_inbound_routing_entry L e =
     entry_text L
       [(''switch_id'', Inr (sai_serialize_object_id (ir_switch_id e))),
        (''eni_id'', Inr (sai_serialize_object_id (ir_eni_id e))),
        (''vni'', Inr (sai_serialize_number False (ir_vni e))), (''sip'', sai_serialize_ip_address L (ir_sip e)),
        (''sip_mask'', sai_serialize_ip_address L (ir_sip_mask e)),
        (''priority'', Inr (sai_serialize_number False (ir_priority e)))]"

definition sai_deserialize_inbound_routing_entry :: "'x text_lib_scheme \<Rightarrow> string \<Rightarrow> fault + sai_inbound_routing_entry" where
  "sai_deserialize_inbound_routing_entry L s =
     bindE (parse_json L s) (\<lambda>j.
     bindE (member_text j ''switch_id'' sai_deserialize_object_id) (\<lambda>x0.
     bindE (member_text j ''eni_id'' sai_deserialize_object_id) (\<lambda>x1.
     bindE (member_text j ''vni'' (sai_deserialize_number False)) (\<lambda>x2.
     bindE (member_text j ''sip'' (sai_deserialize_ip_address L)) (\<lambda>x3.
     bindE (member_text j ''sip_mask'' (sai_deserialize_ip_address L)) (\<lambda>x4.
     bindE (member_text j ''priority'' (sai_deserialize_number False)) (\<lambda>x5.
       Inr \<lparr>ir_switch_id = x0, ir_eni_id = x1, ir_vni = x2, ir_sip = x3, ir_sip_mask = x4, ir_priority = x5\<rparr>)))))))"

lemma inbound_routing_entry_reads [entry_reads]:
  assumes "text_lib_ok L" "ip_ok (ir_sip e)" "ip_ok (ir_sip_mask e)"
  shows "reads (sai_serialize_inbound_routing_entry L e) (sai_deserialize_inbound_routing_entry L) e"
  unfolding sai_serialize_inbound_routing_entry_def sai_deserialize_inbound_routing_entry_def
  by (cases e, rule entry_text_reads) (use assms in \<open>simp_all add: member_text_def field_prints\<close>)

record sai_pa_validation_entry =
  pv_switch_id :: oid
  pv_vnet_id :: oid
  pv_sip :: sai_ip_address

definition sai_serialize_pa_validation_entry :: "'x text_lib_scheme \<Rightarrow> sai_pa_validation_entry \<Rightarrow> fault + string" where
  "sai_serialize_pa_validation_entry L e =
     entry_text L
       [(''switch_id'', Inr (sai_serialize_object_id (pv_switch_id e))),
        (''vnet_id'', Inr (sai_serialize_object_id (pv_vnet_id e))), (''sip'', sai_serialize_ip_address L (pv_sip e))]"

definition sai_deserialize_pa_validation_entry :: "'x text_lib_scheme \<Rightarrow> string \<Rightarrow> fault + sai_pa_validation_entry" where
  "sai_deserialize_pa_validation_entry L s =
     bindE (parse_json L s) (\<lambda>j.
     bindE (member_text j ''switch_id'' sai_deserialize_object_id) (\<lambda>x0.
     bindE (member_text j ''vnet_id'' sai_deserialize_object_id) (\<lambda>x1.
     bindE (member_text j ''sip'' (sai_deserialize_ip_address L)) (\<lambda>x2.
       Inr \<lparr>pv_switch_id = x0, pv_vnet_id = x1, pv_sip = x2\<rparr>))))"

lemma pa_validation_entry_reads [entry_reads]:
  assumes "text_lib_ok L" "ip_ok (pv_sip e)"
  shows "reads (sai_serialize_pa_validation_entry L e) (sai_deserialize_pa_validation_entry L) e"
  unfolding sai_serialize_pa_validation_entry_def sai_deserialize_pa_validation_entry_def
  by (cases e, rule entry_text_reads) (use assms in \<open>simp_all add: member_text_def field_prints\<close>)

record sai_outbound_routing_entry =
  or_switch_id :: oid
  or_destination :: sai_ip_prefix
  or_outbound_routing_group_id :: oid

definition sai_serialize_outbound_routing_entry :: "'x text_lib_scheme \<Rightarrow> sai_outbound_routing_entry \<Rightarrow> fault + string" where
  "sai_serialize_outbound_routing_entry L e =
     entry_text L
       [(''switch_id'', Inr (sai_serialize_object_id (or_switch_id e))),
        (''destination'', sai_serialize_ip_prefix L (or_destination e)),
        (''outbound_routing_group_id'', Inr (sai_serialize_object_id (or_outbound_routing_group_id e)))]"

definition sai_deserialize_outbound_routing_entry :: "'x text_lib_scheme \<Rightarrow> string \<Rightarrow> fault + sai_outbound_routing_entry" where
  "sai_deserialize_outbound_routing_entry L s =
     bindE (parse_json L s) (\<lambda>j.
     bindE (member_text j ''switch_id'' sai_deserialize_object_id) (\<lambda>x0.
     bindE (member_text j ''destination'' (sai_deserialize_ip_prefix L)) (\<lambda>x1.
     bindE (member_text j ''outbound_routing_group_id'' sai_deserialize_object_id) (\<lambda>x2.
       Inr \<lparr>or_switch_id = x0, or_destination = x1, or_outbound_routing_group_id = x2\<rparr>))))"

lemma outbound_routing_entry_reads [entry_reads]:
  assumes "text_lib_ok L" "prefix_ok (or_destination e)"
  shows "reads (sai_serialize_outbound_routing_entry L e) (sai_deserialize_outbound_routing_entry L) e"
  unfolding sai_serialize_outbound_routing_entry_def sai_deserialize_outbound_routing_entry_def
  by (cases e, rule entry_text_reads) (use assms in \<open>simp_all add: member_text_def field_prints\<close>)

record sai_outbound_ca_to_pa_entry =
  oc_switch_id :: oid
  oc_dst_vnet_id :: oid
  oc_dip :: sai_ip_address

definition sai_serialize_outbound_ca_to_pa_entry :: "'x text_lib_scheme \<Rightarrow> sai_outbound_ca_to_pa_entry \<Rightarrow> fault + string" where
  "sai_serialize_outbound_ca_to_pa_entry L e =
     entry_text L
       [(''switch_id'', Inr (sai_serialize_object_id (oc_switch_id e))),
        (''dst_vnet_id'', Inr (sai_serialize_object_id (oc_dst_vnet_id e))),
        (''dip'', sai_serialize_ip_address L (oc_dip e))]"

definition sai_deserialize_outbound_ca_to_pa_entry :: "'x text_lib_scheme \<Rightarrow> string \<Rightarrow> fault + sai_outbound_ca_to_pa_entry" where
  "sai_deserialize_outbound_ca_to_pa_entry L s =
     bindE (parse_json L s) (\<lambda>j.
     bindE (member_text j ''switch_id'' sai_deserialize_object_id) (\<lambda>x0.
     bindE (member_text j ''dst_vnet_id'' sai_deserialize_object_id) (\<lambda>x1.
     bindE (member_text j ''dip'' (sai_deserialize_ip_address L)) (\<lambda>x2.
       Inr \<lparr>oc_switch_id = x0, oc_dst_vnet_id = x1, oc_dip = x2\<rparr>))))"

lemma outbound_ca_to_pa_entry_reads [entry_reads]:
  assumes "text_lib_ok L" "ip_ok (oc_dip e)"
  shows "reads (sai_serialize_outbound_ca_to_pa_entry L e) (sai_deserialize_outbound_ca_to_pa_entry L) e"
  unfolding sai_serialize_outbound_ca_to_pa_entry_def sai_deserialize_outbound_ca_to_pa_entry_def
  by (cases e, rule entry_text_reads) (use assms in \<open>simp_all add: member_text_def field_prints\<close>)

record sai_outbound_port_map_port_range_entry =
  op_switch_id :: oid
  op_outbound_port_map_id :: oid
  op_dst_port_range :: "u32 \<times> u32"

definition sai_serialize_outbound_port_map_port_range_entry :: "'x text_lib_scheme \<Rightarrow> sai_outbound_port_map_port_range_entry \<Rightarrow> fault + string" where
  "sai_serialize_outbound_port_map_port_range_entry L e =
     entry_text L
       [(''switch_id'', Inr (sai_serialize_object_id (op_switch_id e))),
        (''outbound_port_map_id'', Inr (sai_serialize_object_id (op_outbound_port_map_id e))),
        (''dst_port_range'', Inr (sai_serialize_range (op_dst_port_range e)))]"

definition sai_deserialize_outbound_port_map_port_range_entry :: "'x text_lib_scheme \<Rightarrow> string \<Rightarrow> fault + sai_outbound_port_map_port_range_entry" where
  "sai_deserialize_outbound_port_map_port_range_entry L s =
     bindE (parse_json L s) (\<lambda>j.
     bindE (member_text j ''switch_id'' sai_deserialize_object_id) (\<lambda>x0.
     bindE (member_text j ''outbound_port_map_id'' sai_deserialize_object_id) (\<lambda>x1.
     bindE (member_text j ''dst_port_range'' (sai_deserialize_range L)) (\<lambda>x2.
       Inr \<lparr>op_switch_id = x0, op_outbound_port_map_id = x1, op_dst_port_range = x2\<rparr>))))"

lemma outbound_port_map_port_range_entry_reads [entry_reads]:
  assumes "text_lib_ok L"
  shows "reads (sai_serialize_outbound_port_map_port_range_entry L e) (sai_deserialize_outbound_port_map_port_range_entry L) e"
  unfolding sai_serialize_outbound_port_map_port_range_entry_def sai_deserialize_outbound_port_map_port_range_entry_def
  by (cases e, rule entry_text_reads) (use assms in \<open>simp_all add: member_text_def field_prints\<close>)

record sai_global_trusted_vni_entry =
  gt_switch_id :: oid
  gt_vni_range :: "u32 \<times> u32"

definition sai_serialize_global_trusted_vni_entry :: "'x text_lib_scheme \<Rightarrow> sai_global_trusted_vni_entry \<Rightarrow> fault + string" where
  "sai_serialize_global_trusted_vni_entry L e =
     entry_text L
       [(''switch_id'', Inr (sai_serialize_object_id (gt_switch_id e))),
        (''vni_range'', Inr (sai_serialize_range (gt_vni_range e)))]"

definition sai_deserialize_global_trusted_vni_entry :: "'x text_lib_scheme \<Rightarrow> string \<Rightarrow> fault + sai_global_trusted_vni_entry" where
  "sai_deserialize_global_trusted_vni_entry L s =
     bindE (parse_json L s) (\<lambda>j.
     bindE (member_text j ''switch_id'' sai_deserialize_object_id) (\<lambda>x0.
     bindE (member_text j ''vni_range'' (sai_deserialize_range L)) (\<lambda>x1.
       Inr \<lparr>gt_switch_id = x0, gt_vni_range = x1\<rparr>)))"

lemma global_trusted_vni_entry_reads [entry_reads]:
  assumes "text_lib_ok L"
  shows "reads (sai_serialize_global_trusted_vni_entry L e) (sai_deserialize_global_trusted_vni_entry L) e"
  unfolding sai_serialize_global_trusted_vni_entry_def sai_deserialize_global_trusted_vni_entry_def
  by (cases e, rule entry_text_reads) (use assms in \<open>simp_all add: member_text_def field_prints\<close>)

record sai_eni_trusted_vni_entry =
  et_switch_id :: oid
  et_eni_id :: oid
  et_vni_range :: "u32 \<times> u32"

definition sai_serialize_eni_trusted_vni_entry :: "'x text_lib_scheme \<Rightarrow> sai_eni_trusted_vni_entry \<Rightarrow> fault + string" where
  "sai_serialize_eni_trusted_vni_entry L e =
     entry_text L
       [(''switch_id'', Inr (sai_serialize_object_id (et_switch_id e))),
        (''eni_id'', Inr (sai_serialize_object_id (et_eni_id e))),
        (''vni_range'', Inr (sai_serialize_range (et_vni_range e)))]"

definition sai_deserialize_eni_trusted_vni_entry :: "'x text_lib_scheme \<Rightarrow> string \<Rightarrow> fault + sai_eni_trusted_vni_entry" where
  "sai_deserialize_eni_trusted_vni_entry L s =
     bindE (parse_json L s) (\<lambda>j.
     bindE (member_text j ''switch_id'' sai_deserialize_object_id) (\<lambda>x0.
     bindE (member_text j ''eni_id'' sai_deserialize_object_id) (\<lambda>x1.
     bindE (member_text j ''vni_range'' (sai_deserialize_range L)) (\<lambda>x2.
       Inr \<lparr>et_switch_id = x0, et_eni_id = x1, et_vni_range = x2\<rparr>))))"

lemma eni_trusted_vni_entry_reads [entry_reads]:
  assumes "text_lib_ok L"
  shows "reads (sai_serialize_eni_trusted_vni_entry L e) (sai_deserialize_eni_trusted_vni_entry L) e"
  unfolding sai_serialize_eni_trusted_vni_entry_def sai_deserialize_eni_trusted_vni_entry_def
  by (cases e, rule entry_text_reads) (use assms in \<open>simp_all add: member_text_def field_prints\<close>)

section \<open>Entries of address translation\<close>

text \<open>The keys and the masks have the same members; their JSON objects are members of the object of the entry.\<close>

record sai_nat_entry_key =
  nk_src_ip :: "8 word list"
  nk_dst_ip :: "8 word list"
  nk_proto :: "8 word"
  nk_l4_src_port :: "16 word"
  nk_l4_dst_port :: "16 word"

record sai_nat_entry_data =
  nd_key :: sai_nat_entry_key
  nd_mask :: sai_nat_entry_key

record sai_nat_entry =
  na_switch_id :: oid
  na_vr_id :: oid
  na_nat_type :: "32 word"
  na_data :: sai_nat_entry_data

definition sai_serialize_nat_entry_key :: "sai_nat_entry_key \<Rightarrow> fault + json" where
  "sai_serialize_nat_entry_key k =
     json_fields
       [(''src_ip'', text_field (Inr (sai_serialize_ipv4 (nk_src_ip k)))),
        (''dst_ip'', text_field (Inr (sai_serialize_ipv4 (nk_dst_ip k)))),
        (''proto'', text_field (Inr (sai_serialize_number False (nk_proto k)))),
        (''l4_src_port'', text_field (Inr (sai_serialize_number False (nk_l4_src_port k)))),
        (''l4_dst_port'', text_field (Inr (sai_serialize_number False (nk_l4_dst_port k))))]"

definition sai_serialize_nat_entry_mask :: "sai_nat_entry_key \<Rightarrow> fault + json" where
  "sai_serialize_nat_entry_mask k =
     json_fields
       [(''src_ip'', text_field (Inr (sai_serialize_ipv4 (nk_src_ip k)))),
        (''dst_ip'', text_field (Inr (sai_serialize_ipv4 (nk_dst_ip k)))),
        (''proto'', text_field (Inr (sai_serialize_number False (nk_proto k)))),
        (''l4_src_port'', text_field (Inr (sai_serialize_number False (nk_l4_src_port k)))),
        (''l4_dst_port'', text_field (Inr (sai_serialize_number False (nk_l4_dst_port k))))]"

definition sai_serialize_nat_entry_data :: "sai_nat_entry_data \<Rightarrow> fault + json" where
  "sai_serialize_nat_entry_data d =
     json_fields [(''key'', sai_serialize_nat_entry_key (nd_key d)), (''mask'', sai_serialize_nat_entry_mask (nd_mask d))]"

definition sai_serialize_nat_entry :: "'x text_lib_scheme \<Rightarrow> sai_nat_entry \<Rightarrow> fault + string" where
  "sai_serialize_nat_entry L e =
     bindE (json_fields
       [(''switch_id'', text_field (Inr (sai_serialize_object_id (na_switch_id e)))),
        (''vr'', text_field (Inr (sai_serialize_object_id (na_vr_id e)))),
        (''nat_type'', enum_text_field L EN_nat_type (na_nat_type e)),
        (''nat_data'', sai_serialize_nat_entry_data (na_data e))]) (\<lambda>j. Inr (json_dump L j))"

definition member_ctext :: "json \<Rightarrow> string \<Rightarrow> (string \<Rightarrow> fault + 'a) \<Rightarrow> fault + 'a" where
  "member_ctext j k f = bindE (member_cstring j k) f"

definition sai_deserialize_nat_entry_key :: "json \<Rightarrow> fault + sai_nat_entry_key" where
  "sai_deserialize_nat_entry_key j =
     bindE (member_ctext j ''src_ip'' sai_deserialize_ipv4) (\<lambda>src.
     bindE (member_ctext j ''dst_ip'' sai_deserialize_ipv4) (\<lambda>dst.
     bindE (member_ctext j ''proto'' (sai_deserialize_number False)) (\<lambda>proto.
     bindE (member_ctext j ''l4_src_port'' (sai_deserialize_number False)) (\<lambda>sp.
     bindE (member_ctext j ''l4_dst_port'' (sai_deserialize_number False)) (\<lambda>dp.
       Inr \<lparr>nk_src_ip = src, nk_dst_ip = dst, nk_proto = proto, nk_l4_src_port = sp, nk_l4_dst_port = dp\<rparr>)))))"

definition sai_deserialize_nat_entry_mask :: "json \<Rightarrow> fault + sai_nat_entry_key" where
  "sai_deserialize_nat_entry_mask j =
     bindE (member_ctext j ''src_ip'' sai_deserialize_ipv4) (\<lambda>src.
     bindE (member_ctext j ''dst_ip'' sai_deserialize_ipv4) (\<lambda>dst.
     bindE (member_ctext j ''proto'' (sai_deserialize_number False)) (\<lambda>proto.
     bindE (member_ctext j ''l4_src_port'' (sai_deserialize_number False)) (\<lambda>sp.
     bindE (member_ctext j ''l4_dst_port'' (sai_deserialize_number False)) (\<lambda>dp.
       Inr \<lparr>nk_src_ip = src, nk_dst_ip = dst, nk_proto = proto, nk_l4_src_port = sp, nk_l4_dst_port = dp\<rparr>)))))"

definition sai_deserialize_nat_entry_data :: "json \<Rightarrow> fault + sai_nat_entry_data" where
  "sai_deserialize_nat_entry_data j =
     bindE (bindE (json_cat j ''key'') sai_deserialize_nat_entry_key) (\<lambda>k.
     bindE (bindE (json_cat j ''mask'') sai_deserialize_nat_entry_mask) (\<lambda>m. Inr \<lparr>nd_key = k, nd_mask = m\<rparr>))"

definition sai_deserialize_nat_entry :: "'x text_lib_scheme \<Rightarrow> string \<Rightarrow> fault + sai_nat_entry" where
  "sai_deserialize_nat_entry L s =
     bindE (parse_json L s) (\<lambda>j.
     bindE (member_text j ''switch_id'' sai_deserialize_object_id) (\<lambda>sw.
     bindE (member_text j ''vr'' sai_deserialize_object_id) (\<lambda>vr.
     bindE (member_text j ''nat_type'' (\<lambda>s. sai_deserialize_enum L s (Some (enum_table L EN_nat_type)))) (\<lambda>ty.
     bindE (bindE (json_at j ''nat_data'') sai_deserialize_nat_entry_data) (\<lambda>d.
       Inr \<lparr>na_switch_id = sw, na_vr_id = vr, na_nat_type = ty, na_data = d\<rparr>)))))"

definition nat_key_ok :: "sai_nat_entry_key \<Rightarrow> bool" where
  "nat_key_ok k = (length (nk_src_ip k) = 4 \<and> length (nk_dst_ip k) = 4)"

lemmas nat_key_defs = sai_serialize_nat_entry_key_def sai_serialize_nat_entry_mask_def sai_deserialize_nat_entry_key_def
  sai_deserialize_nat_entry_mask_def member_ctext_def json_fields_def

lemma nat_key_roundtrip:
  assumes "nat_key_ok k"
  shows "\<exists>j. sai_serialize_nat_entry_key k = Inr j \<and> sai_deserialize_nat_entry_key j = Inr k \<and> json_wf j"
    "\<exists>j. sai_serialize_nat_entry_mask k = Inr j \<and> sai_deserialize_nat_entry_mask j = Inr k \<and> json_wf j"
  using assms
  by (cases k; simp add: nat_key_defs json_wf_object json_reads field_prints nat_key_ok_def)+

lemma nat_data_roundtrip:
  assumes "nat_key_ok (nd_key d)" "nat_key_ok (nd_mask d)"
  shows "\<exists>j. sai_serialize_nat_entry_data d = Inr j \<and> sai_deserialize_nat_entry_data j = Inr d \<and> json_wf j"
proof -
  from nat_key_roundtrip(1) [OF assms(1)] nat_key_roundtrip(2) [OF assms(2)] show ?thesis
    by (cases d) (auto simp: sai_serialize_nat_entry_data_def sai_deserialize_nat_entry_data_def json_fields_def json_wf_object
        json_reads)
qed

lemma nat_entry_reads [entry_reads]:
  assumes "text_lib_ok L" "nat_key_ok (nd_key (na_data e))" "nat_key_ok (nd_mask (na_data e))"
  shows "reads (sai_serialize_nat_entry L e) (sai_deserialize_nat_entry L) e"
proof -
  from nat_data_roundtrip [OF assms(2,3)] obtain d where
    d: "sai_serialize_nat_entry_data (na_data e) = Inr d" "sai_deserialize_nat_entry_data d = Inr (na_data e)" "json_wf d" by blast
  have "printed (sai_serialize_enum (na_nat_type e) (Some (enum_table L EN_nat_type)))"
    by (rule printed_lib(9) [OF assms(1)])
  then obtain t where t: "sai_serialize_enum (na_nat_type e) (Some (enum_table L EN_nat_type)) = Inr t" "ascii t"
    by (auto simp: printed_def)
  moreover have "sai_deserialize_enum L t (Some (enum_table L EN_nat_type)) = Inr (na_nat_type e)"
    using printed_lib(10) [OF assms(1), of "na_nat_type e" EN_nat_type] t by simp
  ultimately show ?thesis using d
    by (cases e) (simp add: reads_def sai_serialize_nat_entry_def sai_deserialize_nat_entry_def json_fields_def enum_text_field_def
        parse_dump text_lib_okD(2) [OF assms(1)] json_wf_object json_reads member_text_def field_prints)
qed

end
