(* ===== verification/Ser_Key.thy ===== *)
theory Ser_Key
  imports Ser_Entry Ser_Attr
begin

text \<open>
  Routes, whose text \<open>meta/SaiSerialize.cpp\<close> puts together and takes apart itself, and the keys of all objects.
\<close>

section \<open>The functions of the metadata library\<close>

text \<open>The kinds of entries, in the order the code has them.\<close>

datatype key_kind =
  KT_fdb | KT_route | KT_neighbor | KT_nat | KT_inseg | KT_my_sid | KT_l2mc | KT_ipmc | KT_mcast_fdb |
  KT_prefix_compression | KT_direction_lookup | KT_eni_ether_address_map | KT_vip | KT_inbound_routing |
  KT_pa_validation | KT_outbound_routing | KT_outbound_ca_to_pa | KT_flow | KT_meter_bucket |
  KT_outbound_port_map_port_range | KT_global_trusted_vni | KT_eni_trusted_vni

text \<open>
  The conversions of the metadata library to and from a buffer, \<open>None\<close> for a negative result: they answer the text
  written, or the value and the number of characters read. \<open>md_char_allowed\<close> is \<open>sai_serialize_is_char_allowed\<close>. Then, of
  an object type: the entry it is the type of, by its constant in the headers, whether the library knows it, and
  \<open>isnonobjectid\<close> of its information.
\<close>

record key_lib = attr_lib +
  md_ser_ip_prefix :: "sai_ip_prefix \<Rightarrow> string option"
  md_ser_object_id :: "oid \<Rightarrow> string option"
  md_des_ip_prefix :: "string \<Rightarrow> (sai_ip_prefix \<times> nat) option"
  md_char_allowed :: "char \<Rightarrow> bool"
  entry_kind :: "32 word \<Rightarrow> key_kind option"
  md_type_valid :: "32 word \<Rightarrow> bool"
  md_type_nonobjectid :: "32 word \<Rightarrow> bool"

definition quote :: char where
  "quote = CHR 0x22"

definition key_lib_ok :: "'x key_lib_scheme \<Rightarrow> bool" where
  "key_lib_ok L \<longleftrightarrow>
     text_lib_ok L \<and> md_char_allowed L quote \<and> (\<forall>oid. md_ser_object_id L oid = Some (sai_serialize_object_id oid)) \<and>
     (\<forall>p. prefix_ok p \<longrightarrow>
        (\<exists>s. md_ser_ip_prefix L p = Some s \<and> length s \<le> 64 \<and> CHR 0x00 \<notin> set s \<and>
           (\<forall>r. md_des_ip_prefix L (s @ quote # r) = Some (p, length s))))"

section \<open>Routes\<close>

record sai_route_entry =
  re_destination :: sai_ip_prefix
  re_switch_id :: oid
  re_vr_id :: oid

text \<open>\<open>EMIT\<close> and its variants write to a buffer of 256 characters, which they do not check.\<close>

definition quoted :: "string \<Rightarrow> string" where
  "quoted s = quote # s @ [quote]"

definition emit_key :: "string \<Rightarrow> string" where
  "emit_key k = quoted k @ '':''"

definition emit_check :: "string option \<Rightarrow> fault + string" where
  "emit_check r = (case r of None \<Rightarrow> Inl (Throw ''failed to serialize'') | Some s \<Rightarrow> Inr (quoted s))"

definition sai_serialize_route_entry :: "'x key_lib_scheme \<Rightarrow> sai_route_entry \<Rightarrow> fault + string" where
  "sai_serialize_route_entry L e =
     bindE (emit_check (md_ser_ip_prefix L (re_destination e))) (\<lambda>dest.
     bindE (emit_check (md_ser_object_id L (re_switch_id e))) (\<lambda>sw.
     bindE (emit_check (md_ser_object_id L (re_vr_id e))) (\<lambda>vr.
       let s = ''{'' @ emit_key ''dest'' @ dest @ '','' @ emit_key ''switch_id'' @ sw @ '','' @ emit_key ''vr'' @ vr @ ''}''
       in if 256 \<le> length s then Inl (Null_Deref ''beyond the buffer'') else Inr s)))"

definition expect :: "string \<Rightarrow> string \<Rightarrow> fault + string" where
  "expect x buf = (if take (length x) buf = x then Inr (drop (length x) buf) else Inl (Throw ''failed to expect''))"

text \<open>\<open>EXPECT_QUOTE_CHECK\<close>: the value between two quotes and the characters after it.\<close>

definition expect_quoted :: "(string \<Rightarrow> fault + 'a \<times> nat) \<Rightarrow> string \<Rightarrow> fault + 'a \<times> string" where
  "expect_quoted f buf =
     bindE (expect [quote] buf) (\<lambda>b.
     bindE (f b) (\<lambda>(x, n).
     bindE (expect [quote] (drop n b)) (\<lambda>b'. Inr (x, b'))))"

definition sai_deserialize_object_id_buf :: "'x key_lib_scheme \<Rightarrow> string \<Rightarrow> fault + oid \<times> nat" where
  "sai_deserialize_object_id_buf L buf =
     (if take 6 buf \<noteq> ''oid:0x'' then Inl (Throw ''invalid oid'')
      else case strtoull 16 (drop 4 buf) of (oid, rest, errno) \<Rightarrow>
        if errno \<or> \<not> md_char_allowed L (case rest of [] \<Rightarrow> CHR 0x00 | c # cs \<Rightarrow> c) then Inl (Throw ''invalid oid'')
        else Inr (oid, length buf - length rest))"

definition des_prefix_buf :: "'x key_lib_scheme \<Rightarrow> string \<Rightarrow> fault + sai_ip_prefix \<times> nat" where
  "des_prefix_buf L buf = (case md_des_ip_prefix L buf of None \<Rightarrow> Inl (Throw ''failed to deserialize'') | Some r \<Rightarrow> Inr r)"

definition sai_deserialize_route_entry :: "'x key_lib_scheme \<Rightarrow> string \<Rightarrow> fault + sai_route_entry" where
  "sai_deserialize_route_entry L s =
     bindE (expect ''{'' (c_str s)) (\<lambda>b.
     bindE (expect (emit_key ''dest'') b) (\<lambda>b.
     bindE (expect_quoted (des_prefix_buf L) b) (\<lambda>(dest, b).
     bindE (expect '','' b) (\<lambda>b.
     bindE (expect (emit_key ''switch_id'') b) (\<lambda>b.
     bindE (expect_quoted (sai_deserialize_object_id_buf L) b) (\<lambda>(sw, b).
     bindE (expect '','' b) (\<lambda>b.
     bindE (expect (emit_key ''vr'') b) (\<lambda>b.
     bindE (expect_quoted (sai_deserialize_object_id_buf L) b) (\<lambda>(vr, b).
     bindE (expect ''}'' b) (\<lambda>b. Inr \<lparr>re_destination = dest, re_switch_id = sw, re_vr_id = vr\<rparr>))))))))))"

lemma expect_prefix [simp]: "expect x (x @ r) = Inr r"
  by (simp add: expect_def)

lemma expect_Cons [simp]: "expect [c] (c # r) = Inr r"
  by (simp add: expect_def)

lemma expect_quoted_text: "f (s @ quote # r) = Inr (x, length s) \<Longrightarrow> expect_quoted f (quoted s @ r) = Inr (x, r)"
  by (simp add: expect_quoted_def quoted_def)

lemma quote_no_digit: "digit_value base quote = None"
  by (simp add: digit_value_def quote_def hex_digit_def)

lemma strtoull_quote:
  assumes "n < 2 ^ 64"
  shows "strtoull 16 (CHR ''0'' # CHR ''x'' # print_nat 16 n @ quote # r) = (of_nat n, quote # r, False)"
proof -
  have "list_all (\<lambda>c. digit_value 16 c \<noteq> None) (print_nat 16 n)"
    using print_nat_digits [of 16 _ n] digit_value_char [of 16] by (fastforce simp: list_all_iff)
  then have "read_digits 16 0 (print_nat 16 n @ quote # r) = (n, quote # r)"
    by (simp add: read_digits_append read_digits_print quote_no_digit)
  moreover have "starts_digit 16 (print_nat 16 n @ quote # r)"
    using starts_digit_print [of 16 n] by (cases "print_nat 16 n") (auto simp: starts_digit_def)
  ultimately show ?thesis using assms by (simp add: strtoull_def c_space_def read_sign_def skip_prefix_def)
qed

lemma object_id_buf:
  assumes "key_lib_ok L"
  shows "sai_deserialize_object_id_buf L (sai_serialize_object_id oid @ quote # r) =
     Inr (oid, length (sai_serialize_object_id oid))"
proof -
  have "unat oid < 2 ^ 64" using unsigned_less [of oid] by simp
  from strtoull_quote [OF this, of r] show ?thesis
    using assms by (simp add: sai_deserialize_object_id_buf_def sai_serialize_object_id_def key_lib_ok_def)
qed

lemma length_print_nat: "2 \<le> base \<Longrightarrow> n < base ^ Suc k \<Longrightarrow> length (print_nat base n) \<le> Suc k"
proof (induction k arbitrary: n)
  case 0
  then show ?case by (simp add: print_nat.simps)
next
  case (Suc k)
  have "n div base < base ^ Suc k" using Suc.prems by (simp add: less_mult_imp_div_less mult.commute)
  then have "length (print_nat base (n div base)) \<le> Suc k" using Suc by blast
  then show ?case by (subst print_nat.simps) simp
qed

lemma length_object_id: "length (sai_serialize_object_id oid) \<le> 22"
  using length_print_nat [of 16 "unat oid" 15] unsigned_less [of oid] by (simp add: sai_serialize_object_id_def)

lemma route_entry_reads:
  assumes "key_lib_ok L" "prefix_ok (re_destination e)"
  shows "reads (sai_serialize_route_entry L e) (sai_deserialize_route_entry L) e"
proof -
  obtain s where s: "md_ser_ip_prefix L (re_destination e) = Some s" "length s \<le> 64" "CHR 0x00 \<notin> set s"
    "\<And>r. md_des_ip_prefix L (s @ quote # r) = Some (re_destination e, length s)"
    using assms unfolding key_lib_ok_def by blast
  have oid: "md_ser_object_id L x = Some (sai_serialize_object_id x)" for x using assms(1) by (simp add: key_lib_ok_def)
  let ?t = "''{'' @ emit_key ''dest'' @ quoted s @ '','' @ emit_key ''switch_id'' @ quoted (sai_serialize_object_id (re_switch_id e)) @
    '','' @ emit_key ''vr'' @ quoted (sai_serialize_object_id (re_vr_id e)) @ ''}''"
  have "length ?t < 256"
    using s(2) length_object_id [of "re_switch_id e"] length_object_id [of "re_vr_id e"] by (simp add: emit_key_def quoted_def)
  then have print: "sai_serialize_route_entry L e = Inr ?t"
    by (simp add: sai_serialize_route_entry_def emit_check_def s oid Let_def)
  have "c_str ?t = ?t"
  proof (rule c_str_id)
    have "CHR 0x00 \<notin> set (sai_serialize_object_id x)" for x
      by (auto simp: sai_serialize_object_id_def dest: print_nat_plain(4) [rotated 2])
    then show "CHR 0x00 \<notin> set ?t" using s(3) by (simp add: emit_key_def quoted_def quote_def)
  qed
  moreover have "expect_quoted (des_prefix_buf L) (quoted s @ r) = Inr (re_destination e, r)" for r
    by (rule expect_quoted_text) (simp add: des_prefix_buf_def s)
  moreover have "expect_quoted (sai_deserialize_object_id_buf L) (quoted (sai_serialize_object_id x) @ r) = Inr (x, r)" for x r
    by (rule expect_quoted_text) (rule object_id_buf [OF assms(1)])
  ultimately have "sai_deserialize_route_entry L ?t = Inr e"
    by (simp add: sai_deserialize_route_entry_def)
  with print show ?thesis by (simp add: reads_def)
qed

section \<open>Keys\<close>

text \<open>The union of the keys, by the type of the object.\<close>

datatype (plugins only: size) entry_key =
  EK_object_id oid | EK_fdb sai_fdb_entry | EK_route sai_route_entry | EK_neighbor sai_neighbor_entry |
  EK_nat sai_nat_entry | EK_inseg sai_inseg_entry | EK_my_sid sai_my_sid_entry | EK_l2mc sai_l2mc_entry |
  EK_ipmc sai_ipmc_entry | EK_mcast_fdb sai_mcast_fdb_entry | EK_prefix_compression sai_prefix_compression_entry |
  EK_direction_lookup sai_direction_lookup_entry | EK_eni_ether_address_map sai_eni_ether_address_map_entry |
  EK_vip sai_vip_entry | EK_inbound_routing sai_inbound_routing_entry | EK_pa_validation sai_pa_validation_entry |
  EK_outbound_routing sai_outbound_routing_entry | EK_outbound_ca_to_pa sai_outbound_ca_to_pa_entry |
  EK_flow sai_flow_entry | EK_meter_bucket sai_meter_bucket_entry |
  EK_outbound_port_map_port_range sai_outbound_port_map_port_range_entry |
  EK_global_trusted_vni sai_global_trusted_vni_entry | EK_eni_trusted_vni sai_eni_trusted_vni_entry

record ser_meta_key =
  smk_objecttype :: "32 word"
  smk_objectkey :: entry_key

text \<open>\<open>None\<close> where the code returns false, because the type is not one of the switch.\<close>

definition sai_serialize_object_entry :: "'x key_lib_scheme \<Rightarrow> 32 word \<Rightarrow> entry_key \<Rightarrow> (fault + string) option" where
  "sai_serialize_object_entry L ty key =
     (case entry_kind L ty of
        Some KT_fdb \<Rightarrow> Some (case key of EK_fdb e \<Rightarrow> sai_serialize_fdb_entry L e | _ \<Rightarrow> wrong_member)
      | Some KT_route \<Rightarrow> Some (case key of EK_route e \<Rightarrow> sai_serialize_route_entry L e | _ \<Rightarrow> wrong_member)
      | Some KT_neighbor \<Rightarrow> Some (case key of EK_neighbor e \<Rightarrow> sai_serialize_neighbor_entry L e | _ \<Rightarrow> wrong_member)
      | Some KT_nat \<Rightarrow> Some (case key of EK_nat e \<Rightarrow> sai_serialize_nat_entry L e | _ \<Rightarrow> wrong_member)
      | Some KT_inseg \<Rightarrow> Some (case key of EK_inseg e \<Rightarrow> sai_serialize_inseg_entry L e | _ \<Rightarrow> wrong_member)
      | Some KT_my_sid \<Rightarrow> Some (case key of EK_my_sid e \<Rightarrow> sai_serialize_my_sid_entry L e | _ \<Rightarrow> wrong_member)
      | Some KT_l2mc \<Rightarrow> Some (case key of EK_l2mc e \<Rightarrow> sai_serialize_l2mc_entry L e | _ \<Rightarrow> wrong_member)
      | Some KT_ipmc \<Rightarrow> Some (case key of EK_ipmc e \<Rightarrow> sai_serialize_ipmc_entry L e | _ \<Rightarrow> wrong_member)
      | Some KT_mcast_fdb \<Rightarrow> Some (case key of EK_mcast_fdb e \<Rightarrow> sai_serialize_mcast_fdb_entry L e | _ \<Rightarrow> wrong_member)
      | Some KT_prefix_compression \<Rightarrow> Some (case key of EK_prefix_compression e \<Rightarrow> sai_serialize_prefix_compression_entry L e | _ \<Rightarrow> wrong_member)
      | _ \<Rightarrow> None)"

definition sai_serialize_object_extension_entry :: "'x key_lib_scheme \<Rightarrow> 32 word \<Rightarrow> entry_key \<Rightarrow> (fault + string) option" where
  "sai_serialize_object_extension_entry L ty key =
     (case entry_kind L ty of
        Some KT_direction_lookup \<Rightarrow> Some (case key of EK_direction_lookup e \<Rightarrow> sai_serialize_direction_lookup_entry L e | _ \<Rightarrow> wrong_member)
      | Some KT_eni_ether_address_map \<Rightarrow> Some (case key of EK_eni_ether_address_map e \<Rightarrow> sai_serialize_eni_ether_address_map_entry L e | _ \<Rightarrow> wrong_member)
      | Some KT_vip \<Rightarrow> Some (case key of EK_vip e \<Rightarrow> sai_serialize_vip_entry L e | _ \<Rightarrow> wrong_member)
      | Some KT_inbound_routing \<Rightarrow> Some (case key of EK_inbound_routing e \<Rightarrow> sai_serialize_inbound_routing_entry L e | _ \<Rightarrow> wrong_member)
      | Some KT_pa_validation \<Rightarrow> Some (case key of EK_pa_validation e \<Rightarrow> sai_serialize_pa_validation_entry L e | _ \<Rightarrow> wrong_member)
      | Some KT_outbound_routing \<Rightarrow> Some (case key of EK_outbound_routing e \<Rightarrow> sai_serialize_outbound_routing_entry L e | _ \<Rightarrow> wrong_member)
      | Some KT_outbound_ca_to_pa \<Rightarrow> Some (case key of EK_outbound_ca_to_pa e \<Rightarrow> sai_serialize_outbound_ca_to_pa_entry L e | _ \<Rightarrow> wrong_member)
      | Some KT_flow \<Rightarrow> Some (case key of EK_flow e \<Rightarrow> sai_serialize_flow_entry L e | _ \<Rightarrow> wrong_member)
      | Some KT_meter_bucket \<Rightarrow> Some (case key of EK_meter_bucket e \<Rightarrow> sai_serialize_meter_bucket_entry L e | _ \<Rightarrow> wrong_member)
      | Some KT_outbound_port_map_port_range \<Rightarrow> Some (case key of EK_outbound_port_map_port_range e \<Rightarrow> sai_serialize_outbound_port_map_port_range_entry L e | _ \<Rightarrow> wrong_member)
      | Some KT_global_trusted_vni \<Rightarrow> Some (case key of EK_global_trusted_vni e \<Rightarrow> sai_serialize_global_trusted_vni_entry L e | _ \<Rightarrow> wrong_member)
      | Some KT_eni_trusted_vni \<Rightarrow> Some (case key of EK_eni_trusted_vni e \<Rightarrow> sai_serialize_eni_trusted_vni_entry L e | _ \<Rightarrow> wrong_member)
      | _ \<Rightarrow> None)"

definition sai_serialize_object_meta_key :: "'x key_lib_scheme \<Rightarrow> ser_meta_key \<Rightarrow> fault + string" where
  "sai_serialize_object_meta_key L mk =
     (let ty = smk_objecttype mk in
      if \<not> md_type_valid L ty then Inl (Throw ''invalid object type value'')
      else bindE (case sai_serialize_object_entry L ty (smk_objectkey mk) of
                    Some r \<Rightarrow> r
                  | None \<Rightarrow>
                      (case sai_serialize_object_extension_entry L ty (smk_objectkey mk) of
                         Some r \<Rightarrow> r
                       | None \<Rightarrow>
                           if md_type_nonobjectid L ty then Inl (Throw ''object is non object id, not supported yet'')
                           else (case smk_objectkey mk of EK_object_id oid \<Rightarrow> Inr (sai_serialize_object_id oid) | _ \<Rightarrow> wrong_member)))
             (\<lambda>key. bindE (sai_serialize_enum ty (Some (enum_table L EN_object_type))) (\<lambda>t. Inr (t @ '':'' @ key))))"

definition key_as :: "('a \<Rightarrow> entry_key) \<Rightarrow> fault + 'a \<Rightarrow> fault + entry_key" where
  "key_as member r = bindE r (\<lambda>x. Inr (member x))"

definition sai_deserialize_object_entry :: "'x key_lib_scheme \<Rightarrow> string \<Rightarrow> 32 word \<Rightarrow> (fault + entry_key) option" where
  "sai_deserialize_object_entry L s ty =
     (case entry_kind L ty of
        Some KT_fdb \<Rightarrow> Some (key_as EK_fdb (sai_deserialize_fdb_entry L s))
      | Some KT_route \<Rightarrow> Some (key_as EK_route (sai_deserialize_route_entry L s))
      | Some KT_neighbor \<Rightarrow> Some (key_as EK_neighbor (sai_deserialize_neighbor_entry L s))
      | Some KT_nat \<Rightarrow> Some (key_as EK_nat (sai_deserialize_nat_entry L s))
      | Some KT_inseg \<Rightarrow> Some (key_as EK_inseg (sai_deserialize_inseg_entry L s))
      | Some KT_my_sid \<Rightarrow> Some (key_as EK_my_sid (sai_deserialize_my_sid_entry L s))
      | Some KT_l2mc \<Rightarrow> Some (key_as EK_l2mc (sai_deserialize_l2mc_entry L s))
      | Some KT_ipmc \<Rightarrow> Some (key_as EK_ipmc (sai_deserialize_ipmc_entry L s))
      | Some KT_mcast_fdb \<Rightarrow> Some (key_as EK_mcast_fdb (sai_deserialize_mcast_fdb_entry L s))
      | Some KT_prefix_compression \<Rightarrow> Some (key_as EK_prefix_compression (sai_deserialize_prefix_compression_entry L s))
      | _ \<Rightarrow> None)"

definition sai_deserialize_object_extension_entry :: "'x key_lib_scheme \<Rightarrow> string \<Rightarrow> 32 word \<Rightarrow> (fault + entry_key) option" where
  "sai_deserialize_object_extension_entry L s ty =
     (case entry_kind L ty of
        Some KT_direction_lookup \<Rightarrow> Some (key_as EK_direction_lookup (sai_deserialize_direction_lookup_entry L s))
      | Some KT_eni_ether_address_map \<Rightarrow> Some (key_as EK_eni_ether_address_map (sai_deserialize_eni_ether_address_map_entry L s))
      | Some KT_vip \<Rightarrow> Some (key_as EK_vip (sai_deserialize_vip_entry L s))
      | Some KT_inbound_routing \<Rightarrow> Some (key_as EK_inbound_routing (sai_deserialize_inbound_routing_entry L s))
      | Some KT_pa_validation \<Rightarrow> Some (key_as EK_pa_validation (sai_deserialize_pa_validation_entry L s))
      | Some KT_outbound_routing \<Rightarrow> Some (key_as EK_outbound_routing (sai_deserialize_outbound_routing_entry L s))
      | Some KT_outbound_ca_to_pa \<Rightarrow> Some (key_as EK_outbound_ca_to_pa (sai_deserialize_outbound_ca_to_pa_entry L s))
      | Some KT_flow \<Rightarrow> Some (key_as EK_flow (sai_deserialize_flow_entry L s))
      | Some KT_meter_bucket \<Rightarrow> Some (key_as EK_meter_bucket (sai_deserialize_meter_bucket_entry L s))
      | Some KT_outbound_port_map_port_range \<Rightarrow> Some (key_as EK_outbound_port_map_port_range (sai_deserialize_outbound_port_map_port_range_entry L s))
      | Some KT_global_trusted_vni \<Rightarrow> Some (key_as EK_global_trusted_vni (sai_deserialize_global_trusted_vni_entry L s))
      | Some KT_eni_trusted_vni \<Rightarrow> Some (key_as EK_eni_trusted_vni (sai_deserialize_eni_trusted_vni_entry L s))
      | _ \<Rightarrow> None)"

text \<open>\<open>s.substr (0, s.find (c))\<close> and \<open>s.substr (s.find (c) + 1)\<close>; without the character both are the whole string.\<close>

definition before_char :: "char \<Rightarrow> string \<Rightarrow> string" where
  "before_char c s = takeWhile (\<lambda>d. d \<noteq> c) s"

definition after_char :: "char \<Rightarrow> string \<Rightarrow> string" where
  "after_char c s = (if c \<in> set s then tl (dropWhile (\<lambda>d. d \<noteq> c) s) else s)"

definition sai_deserialize_object_meta_key :: "'x key_lib_scheme \<Rightarrow> string \<Rightarrow> fault + ser_meta_key" where
  "sai_deserialize_object_meta_key L s =
     bindE (sai_deserialize_enum L (before_char CHR '':'' s) (Some (enum_table L EN_object_type))) (\<lambda>ty.
       let str = after_char CHR '':'' s in
       if \<not> md_type_valid L ty then Inl (Throw ''invalid object type value'')
       else bindE (case sai_deserialize_object_entry L str ty of
                     Some r \<Rightarrow> r
                   | None \<Rightarrow>
                       (case sai_deserialize_object_extension_entry L str ty of
                          Some r \<Rightarrow> r
                        | None \<Rightarrow>
                            if md_type_nonobjectid L ty then Inl (Throw ''object is non object id, not supported yet'')
                            else key_as EK_object_id (sai_deserialize_object_id str)))
              (\<lambda>key. Inr \<lparr>smk_objecttype = ty, smk_objectkey = key\<rparr>))"

text \<open>The kind of entry a key is, and the keys that can be printed.\<close>

definition key_kind_of :: "entry_key \<Rightarrow> key_kind option" where
  "key_kind_of key =
     (case key of
        EK_object_id oid \<Rightarrow> None
      | EK_fdb e \<Rightarrow> Some KT_fdb
      | EK_route e \<Rightarrow> Some KT_route
      | EK_neighbor e \<Rightarrow> Some KT_neighbor
      | EK_nat e \<Rightarrow> Some KT_nat
      | EK_inseg e \<Rightarrow> Some KT_inseg
      | EK_my_sid e \<Rightarrow> Some KT_my_sid
      | EK_l2mc e \<Rightarrow> Some KT_l2mc
      | EK_ipmc e \<Rightarrow> Some KT_ipmc
      | EK_mcast_fdb e \<Rightarrow> Some KT_mcast_fdb
      | EK_prefix_compression e \<Rightarrow> Some KT_prefix_compression
      | EK_direction_lookup e \<Rightarrow> Some KT_direction_lookup
      | EK_eni_ether_address_map e \<Rightarrow> Some KT_eni_ether_address_map
      | EK_vip e \<Rightarrow> Some KT_vip
      | EK_inbound_routing e \<Rightarrow> Some KT_inbound_routing
      | EK_pa_validation e \<Rightarrow> Some KT_pa_validation
      | EK_outbound_routing e \<Rightarrow> Some KT_outbound_routing
      | EK_outbound_ca_to_pa e \<Rightarrow> Some KT_outbound_ca_to_pa
      | EK_flow e \<Rightarrow> Some KT_flow
      | EK_meter_bucket e \<Rightarrow> Some KT_meter_bucket
      | EK_outbound_port_map_port_range e \<Rightarrow> Some KT_outbound_port_map_port_range
      | EK_global_trusted_vni e \<Rightarrow> Some KT_global_trusted_vni
      | EK_eni_trusted_vni e \<Rightarrow> Some KT_eni_trusted_vni)"

definition entry_key_ok :: "entry_key \<Rightarrow> bool" where
  "entry_key_ok key =
     (case key of
        EK_fdb e \<Rightarrow> length (fe_mac_address e) = 6
      | EK_route e \<Rightarrow> prefix_ok (re_destination e)
      | EK_neighbor e \<Rightarrow> ip_ok (ne_ip_address e)
      | EK_nat e \<Rightarrow> nat_key_ok (nd_key (na_data e)) \<and> nat_key_ok (nd_mask (na_data e))
      | EK_my_sid e \<Rightarrow> length (my_sid e) = 16
      | EK_l2mc e \<Rightarrow> ip_ok (le_destination e) \<and> ip_ok (le_source e)
      | EK_ipmc e \<Rightarrow> ip_ok (ie_destination e) \<and> ip_ok (ie_source e)
      | EK_mcast_fdb e \<Rightarrow> length (mf_mac_address e) = 6
      | EK_prefix_compression e \<Rightarrow> prefix_ok (pe_prefix e)
      | EK_eni_ether_address_map e \<Rightarrow> length (em_address e) = 6
      | EK_vip e \<Rightarrow> ip_ok (vi_vip e)
      | EK_inbound_routing e \<Rightarrow> ip_ok (ir_sip e) \<and> ip_ok (ir_sip_mask e)
      | EK_pa_validation e \<Rightarrow> ip_ok (pv_sip e)
      | EK_outbound_routing e \<Rightarrow> prefix_ok (or_destination e)
      | EK_outbound_ca_to_pa e \<Rightarrow> ip_ok (oc_dip e)
      | EK_flow e \<Rightarrow> length (fl_eni_mac e) = 6 \<and> ip_ok (fl_src_ip e) \<and> ip_ok (fl_dst_ip e)
      | _ \<Rightarrow> True)"

section \<open>Round trip\<close>

lemma split_colon:
  assumes "c \<notin> set t"
  shows "before_char c (t @ [c] @ k) = t" "after_char c (t @ [c] @ k) = k"
  proof -
  have "\<forall>d \<in> set t. d \<noteq> c" using assms by blast
  then show "before_char c (t @ [c] @ k) = t" "after_char c (t @ [c] @ k) = k"
    by (simp_all add: before_char_def after_char_def takeWhile_append2 dropWhile_append2)
qed

text \<open>The text of a key, without its type, is read back as the key.\<close>

definition key_text :: "'x key_lib_scheme \<Rightarrow> 32 word \<Rightarrow> entry_key \<Rightarrow> fault + string" where
  "key_text L ty key =
     (case sai_serialize_object_entry L ty key of
        Some r \<Rightarrow> r
      | None \<Rightarrow>
          (case sai_serialize_object_extension_entry L ty key of
             Some r \<Rightarrow> r
           | None \<Rightarrow>
               if md_type_nonobjectid L ty then Inl (Throw ''object is non object id, not supported yet'')
               else (case key of EK_object_id oid \<Rightarrow> Inr (sai_serialize_object_id oid) | _ \<Rightarrow> wrong_member)))"

definition text_key :: "'x key_lib_scheme \<Rightarrow> 32 word \<Rightarrow> string \<Rightarrow> fault + entry_key" where
  "text_key L ty =
     (\<lambda>str. case sai_deserialize_object_entry L str ty of
        Some r \<Rightarrow> r
      | None \<Rightarrow>
          (case sai_deserialize_object_extension_entry L str ty of
             Some r \<Rightarrow> r
           | None \<Rightarrow>
               if md_type_nonobjectid L ty then Inl (Throw ''object is non object id, not supported yet'')
               else key_as EK_object_id (sai_deserialize_object_id str)))"

lemmas object_entry_defs = sai_serialize_object_entry_def sai_serialize_object_extension_entry_def
  sai_deserialize_object_entry_def sai_deserialize_object_extension_entry_def key_text_def text_key_def

lemma reads_key_as: "reads r f x \<Longrightarrow> reads r (\<lambda>s. key_as m (f s)) (m x)"
  by (auto simp: reads_def key_as_def)

lemma key_text_reads:
  assumes "key_lib_ok L" "entry_key_ok key" "entry_kind L ty = key_kind_of key"
    and "key_kind_of key = None \<Longrightarrow> \<not> md_type_nonobjectid L ty"
  shows "reads (key_text L ty key) (text_key L ty) key"
proof -
  have L: "text_lib_ok L" using assms(1) by (simp add: key_lib_ok_def)
  show ?thesis
  proof (cases key)
    case (EK_object_id oid)
    then show ?thesis using assms(3,4)
      by (simp add: object_entry_defs key_kind_of_def reads_def key_as_def object_id_roundtrip)
  next
    case (EK_route e)
    then show ?thesis using assms
      by (simp add: object_entry_defs key_kind_of_def entry_key_ok_def reads_key_as route_entry_reads)
  qed (use assms(2,3) L in \<open>simp add: object_entry_defs key_kind_of_def entry_key_ok_def reads_key_as entry_reads\<close>)+
qed

lemma meta_key_text:
  "md_type_valid L (smk_objecttype mk) \<Longrightarrow> sai_serialize_object_meta_key L mk =
     bindE (key_text L (smk_objecttype mk) (smk_objectkey mk))
       (\<lambda>key. bindE (sai_serialize_enum (smk_objecttype mk) (Some (enum_table L EN_object_type))) (\<lambda>t. Inr (t @ '':'' @ key)))"
  by (simp only: sai_serialize_object_meta_key_def key_text_def Let_def simp_thms if_False)

lemma text_meta_key:
  "sai_deserialize_enum L (before_char CHR '':'' s) (Some (enum_table L EN_object_type)) = Inr ty \<Longrightarrow> md_type_valid L ty \<Longrightarrow>
     sai_deserialize_object_meta_key L s =
     bindE (text_key L ty (after_char CHR '':'' s)) (\<lambda>key. Inr \<lparr>smk_objecttype = ty, smk_objectkey = key\<rparr>)"
  unfolding sai_deserialize_object_meta_key_def by (simp add: text_key_def Let_def)

lemma object_meta_key_reads:
  assumes "key_lib_ok L" "md_type_valid L (smk_objecttype mk)" "entry_key_ok (smk_objectkey mk)"
    and "entry_kind L (smk_objecttype mk) = key_kind_of (smk_objectkey mk)"
    and "key_kind_of (smk_objectkey mk) = None \<Longrightarrow> \<not> md_type_nonobjectid L (smk_objecttype mk)"
  shows "reads (sai_serialize_object_meta_key L mk) (sai_deserialize_object_meta_key L) mk"
proof -
  have L: "text_lib_ok L" using assms(1) by (simp add: key_lib_ok_def)
  obtain k where k: "key_text L (smk_objecttype mk) (smk_objectkey mk) = Inr k" "text_key L (smk_objecttype mk) k = Inr (smk_objectkey mk)"
    using key_text_reads [OF assms(1,3-5)] by (auto simp: reads_def)
  obtain t where t: "sai_serialize_enum (smk_objecttype mk) (Some (enum_table L EN_object_type)) = Inr t"
    "sai_deserialize_enum L t (Some (enum_table L EN_object_type)) = Inr (smk_objecttype mk)" "CHR '':'' \<notin> set t"
    by (rule enum_reads [OF text_lib_okD(1) [OF L], of "Some (enum_table L EN_object_type)" "smk_objecttype mk"])
      (use text_lib_okD(4) [OF L] in auto)
  have "sai_serialize_object_meta_key L mk = Inr (t @ '':'' @ k)"
    using k(1) t(1) by (simp add: meta_key_text [OF assms(2)])
  moreover have "sai_deserialize_object_meta_key L (t @ '':'' @ k) = Inr mk"
    using text_meta_key [of L "t @ '':'' @ k", unfolded split_colon [OF t(3)], OF t(2) assms(2)] k(2) by simp
  ultimately show ?thesis by (simp add: reads_def)
qed

end
