(* ===== verification/Query_Channel.thy ===== *)
theory Query_Channel
  imports Ser_Key
begin

text \<open>
  Requests and responses between the client library and syncd: the messages, waiting for a response
  (\<open>lib/RedisChannel.cpp\<close>, \<open>lib/ZeroMQChannel.cpp\<close>), and lists of numbers separated by commas.
\<close>

section \<open>Messages\<close>

text \<open>\<open>swss::KeyOpFieldsValuesTuple\<close>. The key of a response is the text of a status.\<close>

record message =
  kfv_key :: string
  kfv_op :: string
  kfv_values :: "(string \<times> string) list"

text \<open>
  What the calls take from the metadata library and the headers: the table of \<open>sai_status_t\<close>, four of its values,
  and of an object type its table of counters.
\<close>

record query_lib = key_lib +
  status_table :: enum_md
  status_SUCCESS :: "32 word"
  status_FAILURE :: "32 word"
  status_INVALID_PARAMETER :: "32 word"
  status_BUFFER_OVERFLOW :: "32 word"
  stat_table :: "32 word \<Rightarrow> enum_md"

definition query_lib_ok :: "'x query_lib_scheme \<Rightarrow> bool" where
  "query_lib_ok L \<longleftrightarrow>
     key_lib_ok L \<and> attr_lib_ok L \<and> enum_ok (status_table L) \<and> (\<forall>ty. enum_ok (stat_table L ty)) \<and>
     distinct [status_SUCCESS L, status_FAILURE L, status_INVALID_PARAMETER L, status_BUFFER_OVERFLOW L]"

definition sai_serialize_status :: "'x query_lib_scheme \<Rightarrow> 32 word \<Rightarrow> fault + string" where
  "sai_serialize_status L st = sai_serialize_enum st (Some (status_table L))"

definition sai_deserialize_status :: "'x query_lib_scheme \<Rightarrow> string \<Rightarrow> fault + 32 word" where
  "sai_deserialize_status L s = sai_deserialize_enum L s (Some (status_table L))"

definition sai_serialize_object_type :: "'x query_lib_scheme \<Rightarrow> 32 word \<Rightarrow> fault + string" where
  "sai_serialize_object_type L ty = sai_serialize_enum ty (Some (enum_table L EN_object_type))"

definition sai_deserialize_object_type :: "'x query_lib_scheme \<Rightarrow> string \<Rightarrow> fault + 32 word" where
  "sai_deserialize_object_type L s = sai_deserialize_enum L s (Some (enum_table L EN_object_type))"

lemma status_text:
  assumes "query_lib_ok L"
  obtains s where "sai_serialize_status L st = Inr s" "sai_deserialize_status L s = Inr st"
proof -
  have "tokens_ok L" "enum_ok (status_table L)"
    using assms attr_lib_okD(1) text_lib_okD(1) unfolding query_lib_ok_def by blast+
  then show ?thesis
    using enum_roundtrip [of L "Some (status_table L)" st] that
    by (auto simp: sai_serialize_status_def sai_deserialize_status_def)
qed

lemma object_type_text:
  assumes "query_lib_ok L"
  obtains s where "sai_serialize_object_type L ty = Inr s" "sai_deserialize_object_type L s = Inr ty" "CHR '':'' \<notin> set s"
proof (rule enum_reads [of L "Some (enum_table L EN_object_type)" ty])
  have L: "text_lib_ok L" using assms attr_lib_okD(1) unfolding query_lib_ok_def by blast
  then show "tokens_ok L" by (rule text_lib_okD)
  show "enum_ok md" if "Some (enum_table L EN_object_type) = Some md" for md using that text_lib_okD(4) [OF L] by auto
qed (rule that; simp add: sai_serialize_object_type_def sai_deserialize_object_type_def)

section \<open>Waiting for a response\<close>

text \<open>
  \<open>RedisChannel::wait\<close>, over the messages that arrive before the timeout: those of another command are ignored. Without
  one of the command the answer is \<open>SAI_STATUS_FAILURE\<close>. The messages left are those the next call will see first.
\<close>

fun channel_wait :: "'x query_lib_scheme \<Rightarrow> string \<Rightarrow> message list \<Rightarrow> fault + (32 word \<times> (string \<times> string) list) \<times> message list" where
  "channel_wait L command [] = Inr ((status_FAILURE L, []), [])"
| "channel_wait L command (m # ms) =
     (if kfv_op m \<noteq> command then channel_wait L command ms
      else bindE (sai_deserialize_status L (kfv_key m)) (\<lambda>st. Inr ((st, kfv_values m), ms)))"

text \<open>\<open>ZeroMQChannel::wait\<close> after the poll: one message, which has to be of the command.\<close>

definition zmq_wait :: "'x query_lib_scheme \<Rightarrow> string \<Rightarrow> message list \<Rightarrow> fault + (32 word \<times> (string \<times> string) list) \<times> message list" where
  "zmq_wait L command ms =
     (case ms of
        [] \<Rightarrow> Inr ((status_FAILURE L, []), [])
      | m # ms' \<Rightarrow>
          if kfv_op m \<noteq> command then Inl (Throw ''got not expected response'')
          else bindE (sai_deserialize_status L (kfv_key m)) (\<lambda>st. Inr ((st, kfv_values m), ms')))"

lemma wait_skips: "\<forall>m \<in> set old. kfv_op m \<noteq> command \<Longrightarrow> channel_wait L command (old @ ms) = channel_wait L command ms"
  by (induction old) auto

text \<open>The two channels agree when there is nothing but the response.\<close>

lemma zmq_wait_redis: "kfv_op m = command \<Longrightarrow> zmq_wait L command (m # ms) = channel_wait L command (m # ms)"
  by (simp add: zmq_wait_def)

text \<open>
  Calls of one command one after the other: before each wait its response arrives, behind what is left of earlier ones.
  A response says nothing of the call it answers.
\<close>

fun calls :: "'x query_lib_scheme \<Rightarrow> string \<Rightarrow> message list \<Rightarrow> message list \<Rightarrow> fault + (32 word \<times> (string \<times> string) list) list" where
  "calls L command pending [] = Inr []"
| "calls L command pending (r # rs) =
     bindE (channel_wait L command (pending @ [r])) (\<lambda>(x, pending').
     bindE (calls L command pending' rs) (\<lambda>xs. Inr (x # xs)))"

definition response_of :: "'x query_lib_scheme \<Rightarrow> message \<Rightarrow> fault + 32 word \<times> (string \<times> string) list" where
  "response_of L m = bindE (sai_deserialize_status L (kfv_key m)) (\<lambda>st. Inr (st, kfv_values m))"

lemma calls_take:
  "\<forall>m \<in> set (pending @ rs). kfv_op m = command \<Longrightarrow>
     calls L command pending rs = mapE (response_of L) (take (length rs) (pending @ rs))"
proof (induction rs arbitrary: pending)
  case (Cons r rs)
  show ?case
  proof (cases pending)
    case Nil
    with Cons show ?thesis by (cases "sai_deserialize_status L (kfv_key r)") (simp_all add: response_of_def)
  next
    case (Cons q qs)
    with Cons.IH [of "qs @ [r]"] Cons.prems show ?thesis
      by (cases "sai_deserialize_status L (kfv_key q)") (simp_all add: response_of_def)
  qed
qed simp

section \<open>Numbers separated by commas\<close>

text \<open>\<open>std::stoi\<close> and \<open>std::stoull\<close>: characters after the number are passed over.\<close>

definition stoi :: "string \<Rightarrow> fault + 32 word" where
  "stoi s =
     (case read_sign (dropWhile c_space (c_str s)) of (neg, d) \<Rightarrow>
        if \<not> starts_digit 10 d then Inl (Throw ''std::invalid_argument'')
        else let n = int (fst (read_digits 10 0 d)); k = (if neg then - n else n)
          in if k < - (2 ^ 31) \<or> 2 ^ 31 \<le> k then Inl (Throw ''std::out_of_range'') else Inr (word_of_int k))"

lemma stoi_print: "stoi (print_nat 10 n) = (if n < 2 ^ 31 then Inr (of_nat n) else Inl (Throw ''std::out_of_range''))"
  by (simp add: stoi_def c_str_print dropWhile_print read_sign_print starts_digit_print read_digits_print)

lemma stoi_number: "stoi (sai_serialize_number False (w :: u32)) = (if unat w < 2 ^ 31 then Inr w else Inl (Throw ''std::out_of_range''))"
  by (simp add: sai_serialize_number_def stoi_print)

lemma stoi_signed: "stoi (sai_serialize_signed False (w :: 32 word)) = Inr w"
proof -
  have b: "- 2147483648 \<le> sint w" "sint w < 2147483648" using sint_ge [of w] sint_lt [of w] by simp_all
  show ?thesis
  proof (cases "sint w < 0")
    case True
    have m: "c_str (CHR ''-'' # print_nat 10 n) = CHR ''-'' # print_nat 10 n" for n
      by (rule c_str_id) (auto dest: print_nat_plain(4) [rotated 2])
    have "stoi (CHR ''-'' # print_nat 10 (nat (- sint w))) = Inr (word_of_int (sint w))"
      using True b by (simp add: stoi_def m c_space_def read_sign_def starts_digit_print read_digits_print)
    with True show ?thesis by (simp add: sai_serialize_signed_def print_int_def)
  next
    case False
    with b have "nat (sint w) < 2 ^ 31" by simp
    with False show ?thesis
      by (simp add: sai_serialize_signed_def print_int_def stoi_print)
  qed
qed

text \<open>
  \<open>s.find (",", p)\<close> and \<open>s.substr (p, find - p)\<close>, on the characters from the position \<open>p\<close>: the text before the next
  comma or the end, and the characters after it, \<open>None\<close> for \<open>npos\<close>.
\<close>

definition comma_item :: "string \<Rightarrow> string" where
  "comma_item s = takeWhile (\<lambda>c. c \<noteq> CHR '','') s"

definition comma_rest :: "string \<Rightarrow> string option" where
  "comma_rest s = (if CHR '','' \<in> set s then Some (tl (dropWhile (\<lambda>c. c \<noteq> CHR '','') s)) else None)"

text \<open>\<open>std::ostream_iterator\<close> puts the separator after each element, the last one too.\<close>

definition comma_text :: "string list \<Rightarrow> string" where
  "comma_text ss = concat (map (\<lambda>s. s @ '','') ss)"

lemma comma_text_Cons:
  assumes "CHR '','' \<notin> set s"
  shows "comma_item (comma_text (s # ss)) = s" "comma_rest (comma_text (s # ss)) = Some (comma_text ss)"
proof -
  have "\<forall>c \<in> set s. c \<noteq> CHR '',''" using assms by blast
  then show "comma_item (comma_text (s # ss)) = s" "comma_rest (comma_text (s # ss)) = Some (comma_text ss)"
    by (simp_all add: comma_item_def comma_rest_def comma_text_def takeWhile_append2 dropWhile_append2)
qed

lemma number_comma: "CHR '','' \<notin> set (sai_serialize_number False w)" "CHR '','' \<notin> set (sai_serialize_signed False w)"
  using print_nat_plain(7) [of 10 "CHR '',''"] by (auto simp: sai_serialize_number_def sai_serialize_signed_def print_int_def)

end
