(* ===== verification/Query_Caps.thy ===== *)
theory Query_Caps
  imports Query_Channel
begin

text \<open>
  The queries of capabilities over redis: the calls of \<open>lib/RedisRemoteSaiInterface.cpp\<close> and the handlers of
  \<open>syncd/Syncd.cpp\<close> and \<open>lib/ServerSai.cpp\<close>, which answer them.
\<close>

section \<open>Reading lists of capabilities\<close>

text \<open>The list a caller passes: its count, and the array with the elements it was allocated with, or a null pointer.\<close>

type_synonym 'a caps = "u32 \<times> 'a list option"

text \<open>
  The first \<open>n\<close> elements of the array are overwritten. The count is the one of the response, and nothing compares it
  with the size of the array.
\<close>

definition fill_array :: "('a list \<Rightarrow> fault + 'a list) \<Rightarrow> nat \<Rightarrow> 'a list option \<Rightarrow> fault + 'a list option" where
  "fill_array f n arr =
     (case arr of
        None \<Rightarrow> if n = 0 then Inr None else Inl (Null_Deref ''list'')
      | Some xs \<Rightarrow>
          if length xs < n then Inl (Null_Deref ''beyond the list'')
          else bindE (f (take n xs)) (\<lambda>ys. Inr (Some (ys @ drop n xs))))"

text \<open>\<open>sai_deserialize_stats_capability_list\<close>: after the last number of a text the elements that are left are a fault.\<close>

fun stats_capability_loop :: "string \<Rightarrow> string \<Rightarrow> (32 word \<times> 32 word) list \<Rightarrow> fault + (32 word \<times> 32 word) list" where
  "stats_capability_loop es ms [] = Inr []"
| "stats_capability_loop es ms (c # cs) =
     bindE (stoi (comma_item es)) (\<lambda>e.
       case comma_rest es of
         None \<Rightarrow> if cs \<noteq> [] then Inl (Throw ''Lesser stat_enums than expected'') else Inr [(e, snd c)]
       | Some es' \<Rightarrow>
           bindE (stoi (comma_item ms)) (\<lambda>m.
             case comma_rest ms of
               None \<Rightarrow> if cs \<noteq> [] then Inl (Throw ''Lesser stat_modes than expected'') else Inr [(e, m)]
             | Some ms' \<Rightarrow> bindE (stats_capability_loop es' ms' cs) (\<lambda>rs. Inr ((e, m) # rs))))"

definition sai_deserialize_stats_capability_list ::
  "string \<Rightarrow> string \<Rightarrow> nat \<Rightarrow> (32 word \<times> 32 word) list option \<Rightarrow> fault + (32 word \<times> 32 word) list option" where
  "sai_deserialize_stats_capability_list es ms = fill_array (stats_capability_loop es ms)"

text \<open>
  \<open>sai_deserialize_stats_st_capability_list\<close>: the position in the intervals is not compared with \<open>npos\<close> before it is
  incremented, so after the last interval the loop goes on with the first.
\<close>

fun stats_st_capability_loop ::
  "string \<Rightarrow> string \<Rightarrow> string \<Rightarrow> string \<Rightarrow> (32 word \<times> 32 word \<times> u64) list \<Rightarrow> fault + (32 word \<times> 32 word \<times> u64) list" where
  "stats_st_capability_loop all es ms is [] = Inr []"
| "stats_st_capability_loop all es ms is (c # cs) =
     bindE (stoi (comma_item es)) (\<lambda>e.
       case comma_rest es of
         None \<Rightarrow> if cs \<noteq> [] then Inl (Throw ''Lesser stat_enums than expected'') else Inr [(e, snd c)]
       | Some es' \<Rightarrow>
           bindE (stoi (comma_item ms)) (\<lambda>m.
             case comma_rest ms of
               None \<Rightarrow> if cs \<noteq> [] then Inl (Throw ''Lesser stat_modes than expected'') else Inr [(e, m, snd (snd c))]
             | Some ms' \<Rightarrow>
                 bindE (stoul (comma_item is)) (\<lambda>i.
                 bindE (stats_st_capability_loop all es' ms' (case comma_rest is of None \<Rightarrow> all | Some is' \<Rightarrow> is') cs)
                   (\<lambda>rs. Inr ((e, m, i) # rs)))))"

definition sai_deserialize_stats_st_capability_list ::
  "string \<Rightarrow> string \<Rightarrow> string \<Rightarrow> nat \<Rightarrow> (32 word \<times> 32 word \<times> u64) list option \<Rightarrow> fault + (32 word \<times> 32 word \<times> u64) list option" where
  "sai_deserialize_stats_st_capability_list es ms is = fill_array (stats_st_capability_loop is es ms is)"

text \<open>The loop over the values of an enum: fewer than the count are only logged.\<close>

fun enum_capability_loop :: "string \<Rightarrow> 32 word list \<Rightarrow> fault + 32 word list" where
  "enum_capability_loop s [] = Inr []"
| "enum_capability_loop s (c # cs) =
     bindE (stoi (comma_item s)) (\<lambda>v.
       case comma_rest s of
         None \<Rightarrow> Inr (v # cs)
       | Some s' \<Rightarrow> bindE (enum_capability_loop s' cs) (\<lambda>rs. Inr (v # rs)))"

section \<open>The calls of the client\<close>

text \<open>
  The response to a query of a list: with success the columns of the list and the count, with an overflow the count
  alone. \<open>k\<close> is the number of columns.
\<close>

definition wait_caps ::
  "'x query_lib_scheme \<Rightarrow> string \<Rightarrow> nat \<Rightarrow> (string list \<Rightarrow> nat \<Rightarrow> 'a list option \<Rightarrow> fault + 'a list option) \<Rightarrow> message list \<Rightarrow> 'a caps
     \<Rightarrow> fault + 32 word \<times> 'a caps" where
  "wait_caps L command k parse msgs caps =
     bindE (channel_wait L command msgs) (\<lambda>((st, fvs), rest).
       let vals = map snd fvs in
       if st = status_SUCCESS L then
         if length vals \<noteq> k + 1 then Inr (status_FAILURE L, caps)
         else bindE (stoi (last vals)) (\<lambda>n.
              bindE (parse (butlast vals) (unat n) (snd caps)) (\<lambda>arr. Inr (st, (n, arr))))
       else if st = status_BUFFER_OVERFLOW L then
         if length vals \<noteq> 1 then Inr (status_FAILURE L, caps)
         else bindE (stoi (hd vals)) (\<lambda>n. Inr (st, (n, snd caps)))
       else Inr (st, caps))"

definition stats_capability_response :: string where
  "stats_capability_response = ''stats_capability_response''"

definition stats_st_capability_response :: string where
  "stats_st_capability_response = ''stats_st_capability_response''"

definition enum_capability_response :: string where
  "enum_capability_response = ''attr_enum_values_capability_response''"

definition waitForQueryStatsCapabilityResponse ::
  "'x query_lib_scheme \<Rightarrow> message list \<Rightarrow> (32 word \<times> 32 word) caps \<Rightarrow> fault + 32 word \<times> (32 word \<times> 32 word) caps" where
  "waitForQueryStatsCapabilityResponse L msgs caps =
     wait_caps L stats_capability_response 2 (\<lambda>vals. sai_deserialize_stats_capability_list (vals ! 0) (vals ! 1)) msgs caps"

definition waitForQueryStatsStCapabilityResponse ::
  "'x query_lib_scheme \<Rightarrow> message list \<Rightarrow> (32 word \<times> 32 word \<times> u64) caps \<Rightarrow> fault + 32 word \<times> (32 word \<times> 32 word \<times> u64) caps" where
  "waitForQueryStatsStCapabilityResponse L msgs caps =
     wait_caps L stats_st_capability_response 3
       (\<lambda>vals. sai_deserialize_stats_st_capability_list (vals ! 0) (vals ! 1) (vals ! 2)) msgs caps"

definition waitForQueryAttributeEnumValuesCapabilityResponse ::
  "'x query_lib_scheme \<Rightarrow> message list \<Rightarrow> 32 word caps \<Rightarrow> fault + 32 word \<times> 32 word caps" where
  "waitForQueryAttributeEnumValuesCapabilityResponse L msgs caps =
     wait_caps L enum_capability_response 1 (\<lambda>vals. fill_array (enum_capability_loop (vals ! 0))) msgs caps"

text \<open>\<open>std::to_string (caps->count)\<close>, and the elements set to zero before the request.\<close>

definition count_text :: "u32 \<Rightarrow> string" where
  "count_text n = sai_serialize_number False n"

definition clear_caps :: "'a \<Rightarrow> 'a caps \<Rightarrow> 'a caps" where
  "clear_caps z caps = (fst caps, map_option (\<lambda>xs. replicate (min (unat (fst caps)) (length xs)) z @ drop (unat (fst caps)) xs) (snd caps))"

text \<open>
  The calls: the request, and the wait for the response among the messages the other side sends, \<open>serve\<close>. A null
  pointer for the list is refused by two of them; the third reads its count.
\<close>

definition queryStatsCapability ::
  "'x query_lib_scheme \<Rightarrow> (message \<Rightarrow> fault + message list) \<Rightarrow> oid \<Rightarrow> 32 word \<Rightarrow> (32 word \<times> 32 word) caps option
     \<Rightarrow> fault + 32 word \<times> (32 word \<times> 32 word) caps option" where
  "queryStatsCapability L serve switchId ty caps =
     bindE (sai_serialize_object_type L ty) (\<lambda>tyStr.
       case caps of
         None \<Rightarrow> Inr (status_INVALID_PARAMETER L, None)
       | Some c \<Rightarrow>
           bindE (serve \<lparr>kfv_key = sai_serialize_object_id switchId, kfv_op = ''stats_capability_query'',
                         kfv_values = [(''OBJECT_TYPE'', tyStr), (''LIST_SIZE'', count_text (fst c))]\<rparr>) (\<lambda>msgs.
           bindE (waitForQueryStatsCapabilityResponse L msgs (clear_caps (0, 0) c)) (\<lambda>(st, c'). Inr (st, Some c'))))"

definition queryStatsStCapability ::
  "'x query_lib_scheme \<Rightarrow> (message \<Rightarrow> fault + message list) \<Rightarrow> oid \<Rightarrow> 32 word \<Rightarrow> (32 word \<times> 32 word \<times> u64) caps option
     \<Rightarrow> fault + 32 word \<times> (32 word \<times> 32 word \<times> u64) caps option" where
  "queryStatsStCapability L serve switchId ty caps =
     bindE (sai_serialize_object_type L ty) (\<lambda>tyStr.
       case caps of
         None \<Rightarrow> Inr (status_INVALID_PARAMETER L, None)
       | Some c \<Rightarrow>
           bindE (serve \<lparr>kfv_key = sai_serialize_object_id switchId, kfv_op = ''stats_st_capability_query'',
                         kfv_values = [(''OBJECT_TYPE'', tyStr), (''LIST_SIZE'', count_text (fst c))]\<rparr>) (\<lambda>msgs.
           bindE (waitForQueryStatsStCapabilityResponse L msgs (clear_caps (0, 0, 0) c)) (\<lambda>(st, c'). Inr (st, Some c'))))"

definition query_enum_values ::
  "'x query_lib_scheme \<Rightarrow> (message list \<Rightarrow> 32 word caps \<Rightarrow> fault + 32 word \<times> 32 word caps) \<Rightarrow> (message \<Rightarrow> fault + message list) \<Rightarrow> oid
     \<Rightarrow> 32 word \<Rightarrow> u32 \<Rightarrow> 32 word caps option \<Rightarrow> fault + 32 word \<times> 32 word caps option" where
  "query_enum_values L wait serve switchId ty attrId caps =
     bindE (sai_serialize_object_type L ty) (\<lambda>tyStr.
       case attr_md L ty attrId of
         None \<Rightarrow> Inr (status_INVALID_PARAMETER L, map_option (clear_caps 0) caps)
       | Some (name, md) \<Rightarrow>
           (case caps of
              None \<Rightarrow> Inl (Null_Deref ''enumValuesCapability'')
            | Some c \<Rightarrow>
                bindE (serve \<lparr>kfv_key = sai_serialize_object_id switchId, kfv_op = ''attr_enum_values_capability_query'',
                              kfv_values = [(''OBJECT_TYPE'', tyStr), (''ATTR_ID'', name), (''LIST_SIZE'', count_text (fst c))]\<rparr>) (\<lambda>msgs.
                bindE (wait msgs (clear_caps 0 c)) (\<lambda>(st, c'). Inr (st, Some c')))))"

definition queryAttributeEnumValuesCapability where
  "queryAttributeEnumValuesCapability L serve switchId ty attrId caps =
     query_enum_values L (waitForQueryAttributeEnumValuesCapabilityResponse L) serve switchId ty attrId caps"

text \<open>The call of \<open>ClientSai\<close>, the client of the server: it leaves the count as it is after an overflow.\<close>

definition ClientSai_waitForQueryAattributeEnumValuesCapabilityResponse ::
  "'x query_lib_scheme \<Rightarrow> message list \<Rightarrow> 32 word caps \<Rightarrow> fault + 32 word \<times> 32 word caps" where
  "ClientSai_waitForQueryAattributeEnumValuesCapabilityResponse L msgs caps =
     bindE (channel_wait L enum_capability_response msgs) (\<lambda>((st, fvs), rest).
       if st = status_SUCCESS L then
         (case map snd fvs of
            [s, cnt] \<Rightarrow>
              bindE (stoi cnt) (\<lambda>n.
              bindE (fill_array (enum_capability_loop s) (unat n) (snd caps)) (\<lambda>arr. Inr (st, (n, arr))))
          | _ \<Rightarrow> Inr (status_FAILURE L, caps))
       else Inr (st, caps))"

definition ClientSai_queryAttributeEnumValuesCapability where
  "ClientSai_queryAttributeEnumValuesCapability L serve switchId ty attrId caps =
     query_enum_values L (ClientSai_waitForQueryAattributeEnumValuesCapabilityResponse L) serve switchId ty attrId caps"

section \<open>The handlers\<close>

text \<open>\<open>m_selectableChannel->set\<close>, and the head of the handlers: the switch of the request, translated, and the number of arguments.\<close>

definition respond :: "'x query_lib_scheme \<Rightarrow> 32 word \<Rightarrow> (string \<times> string) list \<Rightarrow> string \<Rightarrow> fault + message list" where
  "respond L st entry command =
     bindE (sai_serialize_status L st) (\<lambda>s. Inr [\<lparr>kfv_key = s, kfv_op = command, kfv_values = entry\<rparr>])"

definition query_head ::
  "'x query_lib_scheme \<Rightarrow> (oid \<Rightarrow> fault + oid) \<Rightarrow> nat \<Rightarrow> string \<Rightarrow> message \<Rightarrow> (oid \<Rightarrow> string list \<Rightarrow> fault + message list) \<Rightarrow> fault + message list" where
  "query_head L tr k command m body =
     bindE (sai_deserialize_object_id (kfv_key m)) (\<lambda>vid.
     bindE (tr vid) (\<lambda>rid.
       if length (kfv_values m) \<noteq> k then respond L (status_INVALID_PARAMETER L) [] command
       else body rid (map snd (kfv_values m))))"

text \<open>
  The answer of the vendor to a query with a list of a size: the status, the count, and the elements of the list, of
  which there are as many as the size. Reading more is beyond the array.
\<close>

definition counted :: "u32 \<Rightarrow> 'a list \<Rightarrow> fault + 'a list" where
  "counted n xs = (if length xs < unat n then Inl (Null_Deref ''beyond the list'') else Inr (take (unat n) xs))"

definition column :: "('a \<Rightarrow> string) \<Rightarrow> 'a list \<Rightarrow> string" where
  "column f xs = comma_text (map f xs)"

definition process_stats_query ::
  "'x query_lib_scheme \<Rightarrow> (oid \<Rightarrow> fault + oid) \<Rightarrow> (oid \<Rightarrow> 32 word \<Rightarrow> u32 \<Rightarrow> 32 word \<times> u32 \<times> (32 word \<times> 32 word) list) \<Rightarrow> message
     \<Rightarrow> fault + message list" where
  "process_stats_query L tr vendor m =
     query_head L tr 2 stats_capability_response m (\<lambda>rid vals.
     bindE (sai_deserialize_object_type L (vals ! 0)) (\<lambda>ty.
     bindE (stoi (vals ! 1)) (\<lambda>size.
       case vendor rid ty size of (st, n, xs) \<Rightarrow>
         if st = status_SUCCESS L then
           bindE (counted n xs) (\<lambda>cs.
             respond L st [(''STAT_ENUM'', column (\<lambda>c. sai_serialize_number False (fst c)) cs),
                           (''STAT_MODES'', column (\<lambda>c. sai_serialize_number False (snd c)) cs),
                           (''STAT_COUNT'', count_text n)] stats_capability_response)
         else respond L st (if st = status_BUFFER_OVERFLOW L then [(''STAT_COUNT'', count_text n)] else []) stats_capability_response)))"

definition process_stats_st_query ::
  "'x query_lib_scheme \<Rightarrow> (oid \<Rightarrow> fault + oid) \<Rightarrow> (oid \<Rightarrow> 32 word \<Rightarrow> u32 \<Rightarrow> 32 word \<times> u32 \<times> (32 word \<times> 32 word \<times> u64) list) \<Rightarrow> message
     \<Rightarrow> fault + message list" where
  "process_stats_st_query L tr vendor m =
     query_head L tr 2 stats_st_capability_response m (\<lambda>rid vals.
     bindE (sai_deserialize_object_type L (vals ! 0)) (\<lambda>ty.
     bindE (stoi (vals ! 1)) (\<lambda>size.
       case vendor rid ty size of (st, n, xs) \<Rightarrow>
         if st = status_SUCCESS L then
           bindE (counted n xs) (\<lambda>cs.
             respond L st [(''STAT_ENUM'', column (\<lambda>c. sai_serialize_number False (fst c)) cs),
                           (''STAT_MODES'', column (\<lambda>c. sai_serialize_number False (fst (snd c))) cs),
                           (''MINIMAL_POLLING_INTERVALS'', column (\<lambda>c. sai_serialize_number False (snd (snd c))) cs),
                           (''STAT_COUNT'', count_text n)] stats_st_capability_response)
         else respond L st (if st = status_BUFFER_OVERFLOW L then [(''STAT_COUNT'', count_text n)] else []) stats_st_capability_response)))"

text \<open>Of syncd, and of the server of the client library, which leaves the ids as they are.\<close>

definition Syncd_processStatsCapabilityQuery where
  "Syncd_processStatsCapabilityQuery L tr vendor m = process_stats_query L tr vendor m"

definition ServerSai_processStatsCapabilityQuery where
  "ServerSai_processStatsCapabilityQuery L sai m = process_stats_query L Inr sai m"

definition Syncd_processStatsStCapabilityQuery where
  "Syncd_processStatsStCapabilityQuery L tr vendor m = process_stats_st_query L tr vendor m"

definition ServerSai_processStatsStCapabilityQuery where
  "ServerSai_processStatsStCapabilityQuery L sai m = process_stats_st_query L Inr sai m"

text \<open>The handler of the server for enum values answers an overflow without the count.\<close>

definition process_enum_query ::
  "'x query_lib_scheme \<Rightarrow> bool \<Rightarrow> (oid \<Rightarrow> fault + oid) \<Rightarrow> (oid \<Rightarrow> 32 word \<Rightarrow> u32 \<Rightarrow> u32 \<Rightarrow> 32 word \<times> u32 \<times> 32 word list) \<Rightarrow> message
     \<Rightarrow> fault + message list" where
  "process_enum_query L overflowCount tr vendor m =
     query_head L tr 3 enum_capability_response m (\<lambda>rid vals.
     bindE (sai_deserialize_object_type L (vals ! 0)) (\<lambda>ty.
     bindE (sai_deserialize_attr_id L (vals ! 1)) (\<lambda>(attrId, md).
     bindE (stoi (vals ! 2)) (\<lambda>size.
       case vendor rid ty attrId size of (st, n, xs) \<Rightarrow>
         if st = status_SUCCESS L then
           bindE (counted n xs) (\<lambda>cs.
             respond L st [(''ENUM_CAPABILITIES'', column (sai_serialize_signed False) cs),
                           (''ENUM_COUNT'', count_text n)] enum_capability_response)
         else respond L st (if overflowCount \<and> st = status_BUFFER_OVERFLOW L then [(''ENUM_COUNT'', count_text n)] else [])
                enum_capability_response))))"

definition Syncd_processAttrEnumValuesCapabilityQuery where
  "Syncd_processAttrEnumValuesCapabilityQuery L tr vendor m = process_enum_query L True tr vendor m"

definition ServerSai_processAttrEnumValuesCapabilityQuery where
  "ServerSai_processAttrEnumValuesCapabilityQuery L sai m = process_enum_query L False Inr sai m"

end
