(* ===== verification/Query_Correct.thy ===== *)
theory Query_Correct
  imports Query_Caps
begin

text \<open>
  That a query over redis answers what the vendor answers: the loops that read the columns, and the way of a query
  through the handler and back.
\<close>

section \<open>The columns are read back\<close>

lemma column_simps [simp]:
  "comma_item (column f (x # xs)) = f x" "comma_rest (column f (x # xs)) = Some (column f xs)"
  if "CHR '','' \<notin> set (f x)"
  using comma_text_Cons [OF that] by (simp_all add: column_def)

text \<open>Counters and modes are printed as unsigned numbers, and read as signed ones.\<close>

definition small :: "32 word \<Rightarrow> bool" where
  "small w \<longleftrightarrow> unat w < 2 ^ 31"

lemma stats_loop:
  assumes "length cs = length xs"
  shows "stats_capability_loop (column (\<lambda>c. sai_serialize_number False (fst c)) xs) (column (\<lambda>c. sai_serialize_number False (snd c)) xs) cs =
    (if list_all (\<lambda>c. small (fst c) \<and> small (snd c)) xs then Inr xs else Inl (Throw ''std::out_of_range''))"
  using assms
proof (induction xs arbitrary: cs)
  case (Cons x xs)
  then obtain c cs' where "cs = c # cs'" "length cs' = length xs" by (cases cs) auto
  then show ?case using Cons.IH [of cs'] by (simp add: number_comma stoi_number small_def)
qed simp

lemma stoul_number: "stoul (sai_serialize_number False (w :: u64)) = Inr w"
  using stoul_print [of "unat w"] unsigned_less [of w] by (simp add: sai_serialize_number_def)

lemma stats_st_loop:
  assumes "length cs = length xs"
  shows "stats_st_capability_loop all (column (\<lambda>c. sai_serialize_number False (fst c)) xs)
      (column (\<lambda>c. sai_serialize_number False (fst (snd c))) xs) (column (\<lambda>c. sai_serialize_number False (snd (snd c))) xs) cs =
    (if list_all (\<lambda>c. small (fst c) \<and> small (fst (snd c))) xs then Inr xs else Inl (Throw ''std::out_of_range''))"
  using assms
proof (induction xs arbitrary: cs)
  case (Cons x xs)
  then obtain c cs' where "cs = c # cs'" "length cs' = length xs" by (cases cs) auto
  then show ?case using Cons.IH [of cs'] by (simp add: number_comma stoi_number stoul_number small_def)
qed simp

lemma enum_loop: "length cs = length xs \<Longrightarrow> enum_capability_loop (column (sai_serialize_signed False) xs) cs = Inr xs"
proof (induction xs arbitrary: cs)
  case (Cons x xs)
  then obtain c cs' where "cs = c # cs'" "length cs' = length xs" by (cases cs) auto
  then show ?case using Cons.IH [of cs'] by (simp add: number_comma stoi_signed)
qed simp

section \<open>The way of a query\<close>

lemma bindE_assoc: "bindE (bindE r f) g = bindE r (\<lambda>x. bindE (f x) g)"
  by (cases r) simp_all

text \<open>
  What the caller finds after the answer of the vendor: with success the elements and zeros after them, with an
  overflow the count that is needed, and else the list as it was cleared.
\<close>

definition answered :: "'x query_lib_scheme \<Rightarrow> 'a \<Rightarrow> u32 \<Rightarrow> 32 word \<times> u32 \<times> 'a list \<Rightarrow> 32 word \<times> 'a caps" where
  "answered L z room ans =
     (case ans of (st, n, ys) \<Rightarrow>
        (st, if st = status_SUCCESS L then (n, Some (take (unat n) ys @ replicate (unat room - unat n) z))
             else if st = status_BUFFER_OVERFLOW L then (n, Some (replicate (unat room) z))
             else (room, Some (replicate (unat room) z))))"

text \<open>The contract of the vendor: it fills the list it is given, and a count it answers is one a list can have.\<close>

definition vendor_caps_ok :: "'x query_lib_scheme \<Rightarrow> u32 \<Rightarrow> 32 word \<times> u32 \<times> 'a list \<Rightarrow> bool" where
  "vendor_caps_ok L room ans =
     (case ans of (st, n, ys) \<Rightarrow>
        length ys = unat room \<and> unat n < 2 ^ 31 \<and> (st = status_SUCCESS L \<longrightarrow> unat n \<le> unat room))"

text \<open>The response as the handlers make it: the columns and the count, or the count, or nothing.\<close>

definition caps_response :: "'x query_lib_scheme \<Rightarrow> (string \<times> string) list \<Rightarrow> string \<Rightarrow> string \<Rightarrow> 32 word \<Rightarrow> u32 \<Rightarrow> fault + message list" where
  "caps_response L columns count_name command st n =
     respond L st (if st = status_SUCCESS L then columns @ [(count_name, count_text n)]
                   else if st = status_BUFFER_OVERFLOW L then [(count_name, count_text n)] else []) command"

lemma stoi_count: "unat n < 2 ^ 31 \<Longrightarrow> stoi (count_text n) = Inr n"
  by (simp add: count_text_def stoi_number)

lemma wait_after_response:
  assumes "query_lib_ok L" "unat n < 2 ^ 31"
  shows "bindE (caps_response L columns count_name command st n) (\<lambda>msgs. wait_caps L command (length columns) parse msgs caps) =
    (if st = status_SUCCESS L then bindE (parse (map snd columns) (unat n) (snd caps)) (\<lambda>arr. Inr (st, (n, arr)))
     else if st = status_BUFFER_OVERFLOW L then Inr (st, (n, snd caps))
     else Inr (st, caps))"
proof -
  obtain s where s: "sai_serialize_status L st = Inr s" "sai_deserialize_status L s = Inr st" by (rule status_text [OF assms(1)])
  then show ?thesis using stoi_count [OF assms(2)]
    by (simp add: caps_response_def respond_def wait_caps_def Let_def butlast_append)
qed

lemma clear_whole: "length xs = unat room \<Longrightarrow> clear_caps z (room, Some xs) = (room, Some (replicate (unat room) z))"
  by (simp add: clear_caps_def)

lemma counted_take: "unat n \<le> length xs \<Longrightarrow> counted n xs = Inr (take (unat n) xs)"
  by (simp add: counted_def)

lemma query_lib_okD:
  assumes "query_lib_ok L"
  shows "attr_lib_ok L" "text_lib_ok L" "status_SUCCESS L \<noteq> status_BUFFER_OVERFLOW L" "status_BUFFER_OVERFLOW L \<noteq> status_SUCCESS L"
  using assms attr_lib_okD(1) by (auto simp: query_lib_ok_def)

text \<open>The handler on the request of the client.\<close>

lemma stats_handler:
  assumes "query_lib_ok L" "tr switchId = Inr rid" "vendor rid ty room = (st, n, ys)" "unat room < 2 ^ 31"
    "vendor_caps_ok L room (st, n, ys)" "sai_deserialize_object_type L tyStr = Inr ty"
  shows "process_stats_query L tr vendor \<lparr>kfv_key = sai_serialize_object_id switchId, kfv_op = op,
      kfv_values = [(''OBJECT_TYPE'', tyStr), (''LIST_SIZE'', count_text room)]\<rparr> =
    caps_response L [(''STAT_ENUM'', column (\<lambda>c. sai_serialize_number False (fst c)) (take (unat n) ys)),
      (''STAT_MODES'', column (\<lambda>c. sai_serialize_number False (snd c)) (take (unat n) ys))] ''STAT_COUNT'' stats_capability_response st n"
  using assms query_lib_okD(3,4) [OF assms(1)]
  by (auto simp: process_stats_query_def query_head_def object_id_roundtrip stoi_count caps_response_def vendor_caps_ok_def counted_take)

lemma stats_st_handler:
  assumes "query_lib_ok L" "tr switchId = Inr rid" "vendor rid ty room = (st, n, ys)" "unat room < 2 ^ 31"
    "vendor_caps_ok L room (st, n, ys)" "sai_deserialize_object_type L tyStr = Inr ty"
  shows "process_stats_st_query L tr vendor \<lparr>kfv_key = sai_serialize_object_id switchId, kfv_op = op,
      kfv_values = [(''OBJECT_TYPE'', tyStr), (''LIST_SIZE'', count_text room)]\<rparr> =
    caps_response L [(''STAT_ENUM'', column (\<lambda>c. sai_serialize_number False (fst c)) (take (unat n) ys)),
      (''STAT_MODES'', column (\<lambda>c. sai_serialize_number False (fst (snd c))) (take (unat n) ys)),
      (''MINIMAL_POLLING_INTERVALS'', column (\<lambda>c. sai_serialize_number False (snd (snd c))) (take (unat n) ys))]
      ''STAT_COUNT'' stats_st_capability_response st n"
  using assms query_lib_okD(3,4) [OF assms(1)]
  by (auto simp: process_stats_st_query_def query_head_def object_id_roundtrip stoi_count caps_response_def vendor_caps_ok_def counted_take)

lemma enum_handler:
  assumes "query_lib_ok L" "tr switchId = Inr rid" "vendor rid ty attrId room = (st, n, ys)" "unat room < 2 ^ 31"
    "vendor_caps_ok L room (st, n, ys)" "sai_deserialize_object_type L tyStr = Inr ty" "sai_deserialize_attr_id L name = Inr (attrId, md)"
  shows "process_enum_query L True tr vendor \<lparr>kfv_key = sai_serialize_object_id switchId, kfv_op = op,
      kfv_values = [(''OBJECT_TYPE'', tyStr), (''ATTR_ID'', name), (''LIST_SIZE'', count_text room)]\<rparr> =
    caps_response L [(''ENUM_CAPABILITIES'', column (sai_serialize_signed False) (take (unat n) ys))] ''ENUM_COUNT''
      enum_capability_response st n"
  using assms query_lib_okD(3,4) [OF assms(1)]
  by (auto simp: process_enum_query_def query_head_def object_id_roundtrip stoi_count caps_response_def vendor_caps_ok_def counted_take)

section \<open>Queries over redis and answers of the vendor\<close>

text \<open>The part the queries share: the response read into a cleared list, by loops that give the elements or throw.\<close>

lemma answered_caps:
  assumes "query_lib_ok L" "vendor_caps_ok L room (st, n, ys)"
    and "st = status_SUCCESS L \<Longrightarrow>
      f (map snd columns) (replicate (unat n) z) = (if good then Inr (take (unat n) ys) else Inl e)"
  shows "bindE (caps_response L columns count_name command st n)
      (\<lambda>msgs. wait_caps L command (length columns) (\<lambda>vals. fill_array (f vals)) msgs (room, Some (replicate (unat room) z))) =
    (if st = status_SUCCESS L \<and> \<not> good then Inl e else Inr (answered L z room (st, n, ys)))"
proof -
  have n: "unat n < 2 ^ 31" "st = status_SUCCESS L \<Longrightarrow> unat n \<le> unat room \<and> length ys = unat room"
    using assms(2) by (simp_all add: vendor_caps_ok_def)
  show ?thesis
    using n(2) assms(3) by (simp add: wait_after_response [OF assms(1) n(1)]) (auto simp: answered_def fill_array_def min_def)
qed

lemma stats_query_direct:
  assumes "query_lib_ok L" "tr switchId = Inr rid" "length xs = unat room" "unat room < 2 ^ 31"
    "vendor_caps_ok L room (vendor rid ty room)"
  shows "queryStatsCapability L (Syncd_processStatsCapabilityQuery L tr vendor) switchId ty (Some (room, Some xs)) =
    (case vendor rid ty room of (st, n, ys) \<Rightarrow>
       if st = status_SUCCESS L \<and> \<not> list_all (\<lambda>c. small (fst c) \<and> small (snd c)) (take (unat n) ys)
       then Inl (Throw ''std::out_of_range'')
       else Inr (apsnd Some (answered L (0, 0) room (st, n, ys))))"
proof -
  obtain st n ys where v: "vendor rid ty room = (st, n, ys)" by (cases "vendor rid ty room")
  obtain tyStr where ty: "sai_serialize_object_type L ty = Inr tyStr" "sai_deserialize_object_type L tyStr = Inr ty"
    by (rule object_type_text [OF assms(1)])
  note ok = assms(5) [unfolded v]
  note h = stats_handler [of L tr switchId rid vendor ty room st n ys tyStr, OF assms(1,2) v assms(4) ok ty(2)]
  let ?columns = "[(''STAT_ENUM'', column (\<lambda>c. sai_serialize_number False (fst c)) (take (unat n) ys)),
    (''STAT_MODES'', column (\<lambda>c. sai_serialize_number False (snd c)) (take (unat n) ys))]"
  let ?good = "list_all (\<lambda>c. small (fst c) \<and> small (snd c)) (take (unat n) ys)"
  let ?f = "\<lambda>vals. stats_capability_loop (vals ! 0) (vals ! 1)"
  have "?f (map snd ?columns) (replicate (unat n) (0, 0)) = (if ?good then Inr (take (unat n) ys) else Inl (Throw ''std::out_of_range''))"
    if "st = status_SUCCESS L"
    using that ok by (simp add: stats_loop vendor_caps_ok_def min_def)
  then show ?thesis
    using answered_caps [OF assms(1) ok, of ?f ?columns "(0, 0)" ?good "Throw ''std::out_of_range''" "''STAT_COUNT''" stats_capability_response]
      ty(1) h v
    by (cases "answered L (0, 0) room (st, n, ys)") (simp add: queryStatsCapability_def Syncd_processStatsCapabilityQuery_def clear_whole [OF assms(3)] bindE_assoc [symmetric]
        waitForQueryStatsCapabilityResponse_def sai_deserialize_stats_capability_list_def numeral_2_eq_2)
qed

lemma stats_st_query_direct:
  assumes "query_lib_ok L" "tr switchId = Inr rid" "length xs = unat room" "unat room < 2 ^ 31"
    "vendor_caps_ok L room (vendor rid ty room)"
  shows "queryStatsStCapability L (Syncd_processStatsStCapabilityQuery L tr vendor) switchId ty (Some (room, Some xs)) =
    (case vendor rid ty room of (st, n, ys) \<Rightarrow>
       if st = status_SUCCESS L \<and> \<not> list_all (\<lambda>c. small (fst c) \<and> small (fst (snd c))) (take (unat n) ys)
       then Inl (Throw ''std::out_of_range'')
       else Inr (apsnd Some (answered L (0, 0, 0) room (st, n, ys))))"
proof -
  obtain st n ys where v: "vendor rid ty room = (st, n, ys)" by (cases "vendor rid ty room")
  obtain tyStr where ty: "sai_serialize_object_type L ty = Inr tyStr" "sai_deserialize_object_type L tyStr = Inr ty"
    by (rule object_type_text [OF assms(1)])
  note ok = assms(5) [unfolded v]
  note h = stats_st_handler [of L tr switchId rid vendor ty room st n ys tyStr, OF assms(1,2) v assms(4) ok ty(2)]
  let ?columns = "[(''STAT_ENUM'', column (\<lambda>c. sai_serialize_number False (fst c)) (take (unat n) ys)),
    (''STAT_MODES'', column (\<lambda>c. sai_serialize_number False (fst (snd c))) (take (unat n) ys)),
    (''MINIMAL_POLLING_INTERVALS'', column (\<lambda>c. sai_serialize_number False (snd (snd c))) (take (unat n) ys))]"
  let ?good = "list_all (\<lambda>c. small (fst c) \<and> small (fst (snd c))) (take (unat n) ys)"
  let ?f = "\<lambda>vals. stats_st_capability_loop (vals ! 2) (vals ! 0) (vals ! 1) (vals ! 2)"
  have "?f (map snd ?columns) (replicate (unat n) (0, 0, 0)) = (if ?good then Inr (take (unat n) ys) else Inl (Throw ''std::out_of_range''))"
    if "st = status_SUCCESS L"
    using that ok by (simp add: stats_st_loop vendor_caps_ok_def min_def)
  then show ?thesis
    using answered_caps [OF assms(1) ok, of ?f ?columns "(0, 0, 0)" ?good "Throw ''std::out_of_range''" "''STAT_COUNT''"
        stats_st_capability_response] ty(1) h v
    by (cases "answered L (0, 0, 0) room (st, n, ys)") (simp add: queryStatsStCapability_def Syncd_processStatsStCapabilityQuery_def
        clear_whole [OF assms(3)] bindE_assoc [symmetric] waitForQueryStatsStCapabilityResponse_def
        sai_deserialize_stats_st_capability_list_def numeral_2_eq_2 numeral_3_eq_3)
qed

text \<open>Enum values are signed on both sides, so nothing is out of range.\<close>

lemma enum_query_direct:
  assumes "query_lib_ok L" "tr switchId = Inr rid" "length xs = unat room" "unat room < 2 ^ 31"
    "vendor_caps_ok L room (vendor rid ty attrId room)" "attr_md L ty attrId = Some (name, md)"
  shows "queryAttributeEnumValuesCapability L (Syncd_processAttrEnumValuesCapabilityQuery L tr vendor) switchId ty attrId (Some (room, Some xs)) =
    Inr (apsnd Some (answered L 0 room (vendor rid ty attrId room)))"
proof -
  obtain st n ys where v: "vendor rid ty attrId room = (st, n, ys)" by (cases "vendor rid ty attrId room")
  obtain tyStr where ty: "sai_serialize_object_type L ty = Inr tyStr" "sai_deserialize_object_type L tyStr = Inr ty"
    by (rule object_type_text [OF assms(1)])
  note ok = assms(5) [unfolded v]
  have name: "sai_deserialize_attr_id L name = Inr (attrId, md)"
    by (rule attr_lib_okD(4) [OF query_lib_okD(1) [OF assms(1)] assms(6)])
  note h = enum_handler [of L tr switchId rid vendor ty attrId room st n ys tyStr name md, OF assms(1,2) v assms(4) ok ty(2) name]
  let ?columns = "[(''ENUM_CAPABILITIES'', column (sai_serialize_signed False) (take (unat n) ys))]"
  let ?f = "\<lambda>vals. enum_capability_loop (vals ! 0)"
  have "?f (map snd ?columns) (replicate (unat n) 0) = (if True then Inr (take (unat n) ys) else Inl Out_Of_Fuel)"
    if "st = status_SUCCESS L"
    using that ok by (simp add: enum_loop vendor_caps_ok_def min_def)
  then show ?thesis
    using answered_caps [OF assms(1) ok, of ?f ?columns 0 True "Out_Of_Fuel" "''ENUM_COUNT''" enum_capability_response] ty(1) h v assms(6)
    by (cases "answered L 0 room (st, n, ys)") (simp add: queryAttributeEnumValuesCapability_def query_enum_values_def
        Syncd_processAttrEnumValuesCapabilityQuery_def clear_whole [OF assms(3)] bindE_assoc [symmetric]
        waitForQueryAttributeEnumValuesCapabilityResponse_def)
qed

text \<open>Through the server of the client library an overflow does not tell the count that is needed.\<close>

lemma server_enum_overflow:
  assumes "query_lib_ok L" "unat room < 2 ^ 31" "sai sw ty attrId room = (status_BUFFER_OVERFLOW L, n, ys)"
    "attr_md L ty attrId = Some (name, md)"
  shows "ClientSai_queryAttributeEnumValuesCapability L (ServerSai_processAttrEnumValuesCapabilityQuery L sai) sw ty attrId (Some (room, arr)) =
    Inr (status_BUFFER_OVERFLOW L, Some (clear_caps 0 (room, arr)))"
proof -
  obtain tyStr where ty: "sai_serialize_object_type L ty = Inr tyStr" "sai_deserialize_object_type L tyStr = Inr ty"
    by (rule object_type_text [OF assms(1)])
  obtain s where s: "sai_serialize_status L (status_BUFFER_OVERFLOW L) = Inr s" "sai_deserialize_status L s = Inr (status_BUFFER_OVERFLOW L)"
    by (rule status_text [OF assms(1)])
  have name: "sai_deserialize_attr_id L name = Inr (attrId, md)"
    by (rule attr_lib_okD(4) [OF query_lib_okD(1) [OF assms(1)] assms(4)])
  show ?thesis
    using ty s name assms query_lib_okD(4) [OF assms(1)]
    by (simp add: ClientSai_queryAttributeEnumValuesCapability_def query_enum_values_def process_enum_query_def query_head_def
        ServerSai_processAttrEnumValuesCapabilityQuery_def object_id_roundtrip stoi_count respond_def
        ClientSai_waitForQueryAattributeEnumValuesCapabilityResponse_def)
qed

text \<open>Fewer intervals than counters are not noticed: the loop starts again with the first.\<close>

lemma intervals_start_again:
  assumes "list_all (\<lambda>c. small (fst c) \<and> small (snd c)) xs" "length cs = length xs"
  shows "stats_st_capability_loop (sai_serialize_number False i) (column (\<lambda>c. sai_serialize_number False (fst c)) xs)
      (column (\<lambda>c. sai_serialize_number False (snd c)) xs) (sai_serialize_number False i) cs = Inr (map (\<lambda>c. (fst c, snd c, i)) xs)"
  using assms
proof (induction xs arbitrary: cs)
  case (Cons x xs)
  obtain c cs' where c: "cs = c # cs'" "length cs' = length xs" using Cons.prems(2) by (cases cs) auto
  have "comma_item (sai_serialize_number False i) = sai_serialize_number False i" "comma_rest (sai_serialize_number False i) = None"
    using number_comma(1) [of i] by (auto simp: comma_item_def comma_rest_def takeWhile_eq_all_conv)
  then show ?case using c Cons.IH [of cs'] Cons.prems(1) by (simp add: number_comma stoi_number stoul_number small_def)
qed simp

end
