(* ===== verification/Query_More.thy ===== *)
theory Query_More
  imports Query_Correct
begin

text \<open>
  The capability of an attribute, the availability of an object type and the counters of an object over redis, and the
  selection of the handler by the command of a request (\<open>Syncd::processSingleEvent\<close>).
\<close>

section \<open>The capability of an attribute\<close>

record attr_capability =
  create_implemented :: bool
  set_implemented :: bool
  get_implemented :: bool

definition truth :: "bool \<Rightarrow> string" where
  "truth b = (if b then ''true'' else ''false'')"

definition attr_capability_response :: string where
  "attr_capability_response = ''attribute_capability_response''"

definition waitForQueryAttributeCapabilityResponse ::
  "'x query_lib_scheme \<Rightarrow> message list \<Rightarrow> attr_capability \<Rightarrow> fault + 32 word \<times> attr_capability" where
  "waitForQueryAttributeCapabilityResponse L msgs cap =
     bindE (channel_wait L attr_capability_response msgs) (\<lambda>((st, fvs), rest).
       if st = status_SUCCESS L then
         (case map snd fvs of
            [c, s, g] \<Rightarrow> Inr (st, \<lparr>create_implemented = (c = ''true''), set_implemented = (s = ''true''), get_implemented = (g = ''true'')\<rparr>)
          | _ \<Rightarrow> Inr (status_FAILURE L, cap))
       else Inr (st, cap))"

definition queryAttributeCapability ::
  "'x query_lib_scheme \<Rightarrow> (message \<Rightarrow> fault + message list) \<Rightarrow> oid \<Rightarrow> 32 word \<Rightarrow> u32 \<Rightarrow> attr_capability \<Rightarrow> fault + 32 word \<times> attr_capability" where
  "queryAttributeCapability L serve switchId ty attrId cap =
     bindE (sai_serialize_object_type L ty) (\<lambda>tyStr.
       case attr_md L ty attrId of
         None \<Rightarrow> Inr (status_INVALID_PARAMETER L, cap)
       | Some (name, md) \<Rightarrow>
           bindE (serve \<lparr>kfv_key = sai_serialize_object_id switchId, kfv_op = ''attribute_capability_query'',
                         kfv_values = [(''OBJECT_TYPE'', tyStr), (''ATTR_ID'', name)]\<rparr>) (\<lambda>msgs.
             waitForQueryAttributeCapabilityResponse L msgs cap))"

definition process_attr_capability ::
  "'x query_lib_scheme \<Rightarrow> (oid \<Rightarrow> fault + oid) \<Rightarrow> (oid \<Rightarrow> 32 word \<Rightarrow> u32 \<Rightarrow> 32 word \<times> attr_capability) \<Rightarrow> message \<Rightarrow> fault + message list" where
  "process_attr_capability L tr vendor m =
     query_head L tr 2 attr_capability_response m (\<lambda>rid vals.
     bindE (sai_deserialize_object_type L (vals ! 0)) (\<lambda>ty.
     bindE (sai_deserialize_attr_id L (vals ! 1)) (\<lambda>(attrId, md).
       case vendor rid ty attrId of (st, cap) \<Rightarrow>
         respond L st
           (if st = status_SUCCESS L then
              [(''CREATE_IMPLEMENTED'', truth (create_implemented cap)), (''SET_IMPLEMENTED'', truth (set_implemented cap)),
               (''GET_IMPLEMENTED'', truth (get_implemented cap))]
            else []) attr_capability_response)))"

definition Syncd_processAttrCapabilityQuery where
  "Syncd_processAttrCapabilityQuery L tr vendor m = process_attr_capability L tr vendor m"

definition ServerSai_processAttrCapabilityQuery where
  "ServerSai_processAttrCapabilityQuery L sai m = process_attr_capability L Inr sai m"

text \<open>A response of a handler is the response the client waits for.\<close>

lemma wait_respond:
  assumes "query_lib_ok L"
  shows "bindE (respond L st entry command) (\<lambda>msgs. bindE (channel_wait L command msgs) f) = f ((st, entry), [])"
proof -
  obtain s where "sai_serialize_status L st = Inr s" "sai_deserialize_status L s = Inr st" by (rule status_text [OF assms])
  then show ?thesis by (simp add: respond_def)
qed

lemma truth_iff [simp]: "(truth b = ''true'') = b"
  by (simp add: truth_def)

lemma attr_capability_direct:
  assumes "query_lib_ok L" "tr switchId = Inr rid" "attr_md L ty attrId = Some (name, md)"
  shows "queryAttributeCapability L (Syncd_processAttrCapabilityQuery L tr vendor) switchId ty attrId cap =
    (case vendor rid ty attrId of (st, c) \<Rightarrow> Inr (st, if st = status_SUCCESS L then attr_capability.truncate c else cap))"
proof -
  obtain st c where v: "vendor rid ty attrId = (st, c)" by (cases "vendor rid ty attrId")
  obtain tyStr where ty: "sai_serialize_object_type L ty = Inr tyStr" "sai_deserialize_object_type L tyStr = Inr ty"
    by (rule object_type_text [OF assms(1)])
  have name: "sai_deserialize_attr_id L name = Inr (attrId, md)"
    by (rule attr_lib_okD(4) [OF query_lib_okD(1) [OF assms(1)] assms(3)])
  show ?thesis
    using ty name v assms
    by (simp add: queryAttributeCapability_def Syncd_processAttrCapabilityQuery_def process_attr_capability_def query_head_def
        object_id_roundtrip waitForQueryAttributeCapabilityResponse_def wait_respond attr_capability.truncate_def)
qed

section \<open>The availability of an object type\<close>

definition availability_response :: string where
  "availability_response = ''object_type_get_availability_response''"

text \<open>Here a response without exactly one value is an exception.\<close>

definition waitForObjectTypeGetAvailabilityResponse :: "'x query_lib_scheme \<Rightarrow> message list \<Rightarrow> u64 \<Rightarrow> fault + 32 word \<times> u64" where
  "waitForObjectTypeGetAvailabilityResponse L msgs cnt =
     bindE (channel_wait L availability_response msgs) (\<lambda>((st, fvs), rest).
       if st = status_SUCCESS L then
         (case map snd fvs of [s] \<Rightarrow> bindE (stoul s) (\<lambda>n. Inr (st, n)) | _ \<Rightarrow> Inl (Throw ''Invalid response from syncd''))
       else Inr (st, cnt))"

definition objectTypeGetAvailability ::
  "'x query_lib_scheme \<Rightarrow> (message \<Rightarrow> fault + message list) \<Rightarrow> oid \<Rightarrow> 32 word \<Rightarrow> (u32 \<times> ser_value) list \<Rightarrow> u64 \<Rightarrow> fault + 32 word \<times> u64" where
  "objectTypeGetAvailability L serve switchId ty attrs cnt =
     bindE (serialize_attr_list L ty attrs False) (\<lambda>entry.
     bindE (sai_serialize_object_type L ty) (\<lambda>tyStr.
     bindE (serve \<lparr>kfv_key = sai_serialize_object_id switchId, kfv_op = ''object_type_get_availability_query'',
                   kfv_values = entry @ [(''OBJECT_TYPE'', tyStr)]\<rparr>) (\<lambda>msgs.
       waitForObjectTypeGetAvailabilityResponse L msgs cnt)))"

text \<open>The object type is the last value; of no values the handler reads the last one all the same.\<close>

definition process_availability ::
  "'x query_lib_scheme \<Rightarrow> (oid \<Rightarrow> fault + oid) \<Rightarrow> (32 word \<Rightarrow> (u32 \<times> ser_value) list \<Rightarrow> fault + (u32 \<times> ser_value) list)
     \<Rightarrow> (oid \<Rightarrow> 32 word \<Rightarrow> (u32 \<times> ser_value) list \<Rightarrow> 32 word \<times> u64) \<Rightarrow> message \<Rightarrow> fault + message list" where
  "process_availability L tr tra vendor m =
     bindE (sai_deserialize_object_id (kfv_key m)) (\<lambda>vid.
     bindE (tr vid) (\<lambda>rid.
       if kfv_values m = [] then Inl (Null_Deref ''values.back()'')
       else bindE (sai_deserialize_object_type L (snd (last (kfv_values m)))) (\<lambda>ty.
            bindE (SaiAttributeList L ty (butlast (kfv_values m)) False) (\<lambda>attrs.
            bindE (tra ty attrs) (\<lambda>rattrs.
              case vendor rid ty rattrs of (st, n) \<Rightarrow>
                respond L st (if st = status_SUCCESS L then [(''OBJECT_COUNT'', sai_serialize_number False n)] else [])
                  availability_response)))))"

definition Syncd_processObjectTypeGetAvailabilityQuery where
  "Syncd_processObjectTypeGetAvailabilityQuery L tr tra vendor m = process_availability L tr tra vendor m"

definition ServerSai_processObjectTypeGetAvailabilityQuery where
  "ServerSai_processObjectTypeGetAvailabilityQuery L sai m = process_availability L Inr (\<lambda>ty attrs. Inr attrs) sai m"

lemma availability_direct:
  assumes "query_lib_ok L" "tr switchId = Inr rid" "list_all (attr_ok L ty) attrs"
    and tra: "\<And>bs. list_all2 same_attr attrs bs \<Longrightarrow> tra ty bs = Inr (f bs)"
  shows "\<exists>bs. list_all2 same_attr attrs bs \<and>
    objectTypeGetAvailability L (Syncd_processObjectTypeGetAvailabilityQuery L tr tra vendor) switchId ty attrs cnt =
    (case vendor rid ty (f bs) of (st, n) \<Rightarrow> Inr (st, if st = status_SUCCESS L then n else cnt))"
proof -
  obtain tyStr where ty: "sai_serialize_object_type L ty = Inr tyStr" "sai_deserialize_object_type L tyStr = Inr ty"
    by (rule object_type_text [OF assms(1)])
  obtain fvs bs where b: "serialize_attr_list L ty attrs False = Inr fvs" "SaiAttributeList L ty fvs False = Inr bs"
    "list_all2 same_attr attrs bs"
    using attr_list_returns [OF query_lib_okD(1) [OF assms(1)] assms(3)] by blast
  obtain st n where v: "vendor rid ty (f bs) = (st, n)" by (cases "vendor rid ty (f bs)")
  show ?thesis
    using ty b v assms(2) tra [OF b(3)]
    by (intro exI [of _ bs]) (simp add: objectTypeGetAvailability_def Syncd_processObjectTypeGetAvailabilityQuery_def
        process_availability_def object_id_roundtrip waitForObjectTypeGetAvailabilityResponse_def wait_respond [OF assms(1)]
        stoul_number)
qed

section \<open>Counters\<close>

definition get_response :: string where
  "get_response = ''getresponse''"

text \<open>\<open>serialize_counter_id_list\<close>: the name of each counter, which the table has to know, with an empty value.\<close>

definition serialize_counter_id_list :: "enum_md \<Rightarrow> 32 word list \<Rightarrow> fault + (string \<times> string) list" where
  "serialize_counter_id_list md ids =
     mapE (\<lambda>i. case find_value (em_entries md) i of
                 None \<Rightarrow> Inl (Throw ''failed to find enum'')
               | Some name \<Rightarrow> Inr (name, [])) ids"

definition waitForGetStatsResponse :: "'x query_lib_scheme \<Rightarrow> message list \<Rightarrow> nat \<Rightarrow> u64 list \<Rightarrow> fault + 32 word \<times> u64 list" where
  "waitForGetStatsResponse L msgs number_of_counters counters =
     bindE (channel_wait L get_response msgs) (\<lambda>((st, fvs), rest).
       if st = status_SUCCESS L then
         if length fvs \<noteq> number_of_counters then Inl (Throw ''wrong number of counters'')
         else bindE (mapE (\<lambda>fv. stoul (snd fv)) fvs) (\<lambda>cs. Inr (st, cs))
       else Inr (st, counters))"

definition object_key_text :: "'x query_lib_scheme \<Rightarrow> 32 word \<Rightarrow> oid \<Rightarrow> fault + string" where
  "object_key_text L ty oid = bindE (sai_serialize_object_type L ty) (\<lambda>t. Inr (t @ '':'' @ sai_serialize_object_id oid))"

definition getStats ::
  "'x query_lib_scheme \<Rightarrow> (message \<Rightarrow> fault + message list) \<Rightarrow> 32 word \<Rightarrow> oid \<Rightarrow> 32 word list \<Rightarrow> u64 list \<Rightarrow> fault + 32 word \<times> u64 list" where
  "getStats L serve ty oid ids counters =
     bindE (serialize_counter_id_list (stat_table L ty) ids) (\<lambda>entry.
     bindE (object_key_text L ty oid) (\<lambda>key.
     bindE (serve \<lparr>kfv_key = key, kfv_op = ''get_stats'', kfv_values = entry\<rparr>) (\<lambda>msgs.
       waitForGetStatsResponse L msgs (length ids) counters)))"

definition clearStats ::
  "'x query_lib_scheme \<Rightarrow> (message \<Rightarrow> fault + message list) \<Rightarrow> 32 word \<Rightarrow> oid \<Rightarrow> 32 word list \<Rightarrow> fault + 32 word" where
  "clearStats L serve ty oid ids =
     bindE (serialize_counter_id_list (stat_table L ty) ids) (\<lambda>entry.
     bindE (object_key_text L ty oid) (\<lambda>key.
     bindE (serve \<lparr>kfv_key = key, kfv_op = ''clear_stats'', kfv_values = entry\<rparr>) (\<lambda>msgs.
     bindE (channel_wait L get_response msgs) (\<lambda>((st, fvs), rest). Inr st))))"

text \<open>
  The handlers of syncd. Objects created since the switch to the initial view, of which the vendor knows nothing, are
  refused with \<open>SAI_STATUS_INVALID_OBJECT_ID\<close>; the translation of the get throws on an unknown object, the one of the
  clear refuses it.
\<close>

record stats_syncd =
  sy_init_view :: bool
  sy_created_in_init_view :: "oid list"
  sy_translate :: "entry_key \<Rightarrow> fault + entry_key"
  sy_try_translate :: "entry_key \<Rightarrow> entry_key option"
  sy_INVALID_OBJECT_ID :: "32 word"
  sy_union_oid :: "entry_key \<Rightarrow> oid"

text \<open>The object id is a member of the union of the keys; what it holds for an entry is \<open>sy_union_oid\<close>.\<close>

definition created_in_view :: "stats_syncd \<Rightarrow> entry_key \<Rightarrow> bool" where
  "created_in_view S key \<longleftrightarrow>
     sy_init_view S \<and> (case key of EK_object_id oid \<Rightarrow> oid | _ \<Rightarrow> sy_union_oid S key) \<in> set (sy_created_in_init_view S)"

definition counter_ids :: "'x query_lib_scheme \<Rightarrow> 32 word \<Rightarrow> (string \<times> string) list \<Rightarrow> fault + 32 word list" where
  "counter_ids L ty fvs = mapE (\<lambda>fv. sai_deserialize_enum L (fst fv) (Some (stat_table L ty))) fvs"

definition stats_object :: "'x query_lib_scheme \<Rightarrow> 32 word \<Rightarrow> entry_key \<Rightarrow> fault + oid" where
  "stats_object L ty key =
     (if md_type_nonobjectid L ty then Inl (Throw ''non object id not supported'')
      else case key of EK_object_id oid \<Rightarrow> Inr oid | _ \<Rightarrow> wrong_member)"

definition processGetStatsEvent ::
  "'x query_lib_scheme \<Rightarrow> stats_syncd \<Rightarrow> (32 word \<Rightarrow> oid \<Rightarrow> 32 word list \<Rightarrow> 32 word \<times> u64 list) \<Rightarrow> message \<Rightarrow> fault + message list" where
  "processGetStatsEvent L S vendor m =
     bindE (sai_deserialize_object_meta_key L (kfv_key m)) (\<lambda>mk.
       if created_in_view S (smk_objectkey mk) then respond L (sy_INVALID_OBJECT_ID S) [] get_response
       else bindE (sy_translate S (smk_objectkey mk)) (\<lambda>rkey.
            bindE (stats_object L (smk_objecttype mk) rkey) (\<lambda>rid.
            bindE (counter_ids L (smk_objecttype mk) (kfv_values m)) (\<lambda>ids.
              case vendor (smk_objecttype mk) rid ids of (st, result) \<Rightarrow>
                respond L st
                  (if st \<noteq> status_SUCCESS L then []
                   else map2 (\<lambda>fv r. (fst fv, sai_serialize_number False r)) (kfv_values m) result) get_response))))"

definition processClearStatsEvent ::
  "'x query_lib_scheme \<Rightarrow> stats_syncd \<Rightarrow> (32 word \<Rightarrow> oid \<Rightarrow> 32 word list \<Rightarrow> 32 word) \<Rightarrow> message \<Rightarrow> fault + message list" where
  "processClearStatsEvent L S vendor m =
     bindE (sai_deserialize_object_meta_key L (kfv_key m)) (\<lambda>mk.
       if created_in_view S (smk_objectkey mk) then respond L (sy_INVALID_OBJECT_ID S) [] get_response
       else (case sy_try_translate S (smk_objectkey mk) of
               None \<Rightarrow> respond L (sy_INVALID_OBJECT_ID S) [] get_response
             | Some rkey \<Rightarrow>
                 bindE (stats_object L (smk_objecttype mk) rkey) (\<lambda>rid.
                 bindE (counter_ids L (smk_objecttype mk) (kfv_values m)) (\<lambda>ids.
                   respond L (vendor (smk_objecttype mk) rid ids) [] get_response))))"

subsection \<open>Counters over redis\<close>

lemma counter_names:
  assumes "query_lib_ok L" "\<not> em_strict_flags (stat_table L ty)"
    and "\<forall>i \<in> set ids. i \<in> fst ` set (em_entries (stat_table L ty))"
  shows "\<exists>entry. serialize_counter_id_list (stat_table L ty) ids = Inr entry \<and> counter_ids L ty entry = Inr ids \<and>
    length entry = length ids"
  using assms(3)
proof (induction ids)
  case (Cons i ids)
  let ?md = "stat_table L ty"
  have "find_value es i \<noteq> None" if "i \<in> fst ` set es" for es using that by (induction es i rule: find_value.induct) auto
  then obtain n where n: "find_value (em_entries ?md) i = Some n" using Cons.prems by fastforce
  have "tokens_ok L" "enum_ok ?md"
    using assms(1) query_lib_okD(2) [OF assms(1)] text_lib_okD(1) by (auto simp: query_lib_ok_def)
  then have "\<exists>s. sai_serialize_enum i (Some ?md) = Inr s \<and> sai_deserialize_enum L s (Some ?md) = Inr i"
    by (intro enum_roundtrip) auto
  then have "sai_deserialize_enum L n (Some ?md) = Inr i" using n assms(2) by (simp add: sai_serialize_enum_def)
  moreover obtain entry where "serialize_counter_id_list ?md ids = Inr entry" "counter_ids L ty entry = Inr ids" "length entry = length ids"
    using Cons by auto
  ultimately show ?case using n
    by (intro exI [of _ "(n, []) # entry"]) (simp add: serialize_counter_id_list_def counter_ids_def)
qed (simp add: serialize_counter_id_list_def counter_ids_def)

lemma object_key_read:
  assumes "query_lib_ok L" "md_type_valid L ty" "entry_kind L ty = None" "\<not> md_type_nonobjectid L ty"
  obtains key where "object_key_text L ty oid = Inr key"
    "sai_deserialize_object_meta_key L key = Inr \<lparr>smk_objecttype = ty, smk_objectkey = EK_object_id oid\<rparr>"
proof -
  let ?mk = "\<lparr>smk_objecttype = ty, smk_objectkey = EK_object_id oid\<rparr>"
  have "reads (sai_serialize_object_meta_key L ?mk) (sai_deserialize_object_meta_key L) ?mk"
    using assms by (intro object_meta_key_reads) (simp_all add: query_lib_ok_def entry_key_ok_def key_kind_of_def)
  moreover have "sai_serialize_object_meta_key L ?mk = object_key_text L ty oid"
    using assms(2-4) by (simp add: meta_key_text key_text_def sai_serialize_object_entry_def sai_serialize_object_extension_entry_def
        object_key_text_def sai_serialize_object_type_def)
  ultimately show ?thesis using that by (auto simp: reads_def)
qed

lemma stoul_results: "length entry = length rs \<Longrightarrow>
    mapE (\<lambda>fv. stoul (snd fv)) (map2 (\<lambda>fv r. (fst fv, sai_serialize_number False r)) entry rs) = Inr (rs :: u64 list)"
proof (induction entry rs rule: list_induct2)
  case (Cons fv entry r rs)
  then show ?case by (simp add: stoul_number)
qed simp

lemma get_stats_direct:
  assumes "query_lib_ok L" "\<not> em_strict_flags (stat_table L ty)" "\<forall>i \<in> set ids. i \<in> fst ` set (em_entries (stat_table L ty))"
    and "md_type_valid L ty" "entry_kind L ty = None" "\<not> md_type_nonobjectid L ty"
    and "\<not> created_in_view S (EK_object_id oid)" "sy_translate S (EK_object_id oid) = Inr (EK_object_id rid)"
    and "length (snd (vendor ty rid ids)) = length ids"
  shows "getStats L (processGetStatsEvent L S vendor) ty oid ids counters =
    (case vendor ty rid ids of (st, rs) \<Rightarrow> Inr (st, if st = status_SUCCESS L then rs else counters))"
proof -
  obtain st rs where v: "vendor ty rid ids = (st, rs)" by (cases "vendor ty rid ids")
  obtain entry where e: "serialize_counter_id_list (stat_table L ty) ids = Inr entry" "counter_ids L ty entry = Inr ids"
    "length entry = length ids"
    using counter_names [OF assms(1-3)] by blast
  obtain key where k: "object_key_text L ty oid = Inr key"
    "sai_deserialize_object_meta_key L key = Inr \<lparr>smk_objecttype = ty, smk_objectkey = EK_object_id oid\<rparr>"
    by (rule object_key_read [OF assms(1,4-6)])
  have rs: "length rs = length entry" using assms(9) v e(3) by simp
  show ?thesis
    using e k v rs assms(6-8) stoul_results [of entry rs]
    by (simp add: getStats_def processGetStatsEvent_def stats_object_def waitForGetStatsResponse_def wait_respond [OF assms(1)])
qed

text \<open>An object created since the switch to the initial view is refused, whatever the vendor would answer.\<close>

lemma get_stats_refused:
  assumes "query_lib_ok L" "\<not> em_strict_flags (stat_table L ty)" "\<forall>i \<in> set ids. i \<in> fst ` set (em_entries (stat_table L ty))"
    and "md_type_valid L ty" "entry_kind L ty = None" "\<not> md_type_nonobjectid L ty"
    and "sy_init_view S" "oid \<in> set (sy_created_in_init_view S)" "sy_INVALID_OBJECT_ID S \<noteq> status_SUCCESS L"
  shows "getStats L (processGetStatsEvent L S vendor) ty oid ids counters = Inr (sy_INVALID_OBJECT_ID S, counters)"
proof -
  obtain entry where e: "serialize_counter_id_list (stat_table L ty) ids = Inr entry" "length entry = length ids"
    using counter_names [OF assms(1-3)] by blast
  obtain key where k: "object_key_text L ty oid = Inr key"
    "sai_deserialize_object_meta_key L key = Inr \<lparr>smk_objecttype = ty, smk_objectkey = EK_object_id oid\<rparr>"
    by (rule object_key_read [OF assms(1,4-6)])
  show ?thesis
    using e k assms(7-9)
    by (simp add: getStats_def processGetStatsEvent_def created_in_view_def waitForGetStatsResponse_def wait_respond [OF assms(1)])
qed

section \<open>The handler of a request\<close>

text \<open>
  \<open>Syncd::processSingleEvent\<close>: the handlers by their names. A request without a key is passed over; a command without
  a handler is an exception.
\<close>

datatype handler =
    H_create | H_remove | H_set | H_get | H_bulk_create | H_bulk_remove | H_bulk_set | H_bulk_get | H_notify | H_get_stats
  | H_clear_stats | H_flush | H_attr_capability | H_enum_capability | H_availability | H_damping | H_start_poll | H_stop_poll
  | H_set_group | H_del_group | H_stats_capability | H_stats_st_capability

definition handlers :: "(string \<times> handler) list" where
  "handlers =
     [(''create'', H_create), (''remove'', H_remove), (''set'', H_set), (''get'', H_get), (''bulkcreate'', H_bulk_create),
      (''bulkremove'', H_bulk_remove), (''bulkset'', H_bulk_set), (''bulkget'', H_bulk_get), (''notify'', H_notify),
      (''get_stats'', H_get_stats), (''clear_stats'', H_clear_stats), (''flush'', H_flush),
      (''attribute_capability_query'', H_attr_capability), (''attr_enum_values_capability_query'', H_enum_capability),
      (''object_type_get_availability_query'', H_availability), (''link_event_damping_config_set'', H_damping),
      (''start_poll'', H_start_poll), (''stop_poll'', H_stop_poll), (''set_counter_group'', H_set_group),
      (''del_counter_group'', H_del_group), (''stats_capability_query'', H_stats_capability),
      (''stats_st_capability_query'', H_stats_st_capability)]"

definition processSingleEvent :: "(handler \<Rightarrow> message \<Rightarrow> fault + message list) \<Rightarrow> message \<Rightarrow> fault + message list" where
  "processSingleEvent run m =
     (if kfv_key m = [] then Inr []
      else (case map_of handlers (kfv_op m) of
              None \<Rightarrow> Inl (Throw ''event op is not implemented, FIXME'')
            | Some h \<Rightarrow> run h m))"

text \<open>No command hides another one, so each handler runs for exactly one command.\<close>

lemma handlers_distinct: "distinct (map fst handlers)" "distinct (map snd handlers)"
  by (simp_all add: handlers_def)

end
