(* ===== verification/Ser_Ntf.thy ===== *)
theory Ser_Ntf
  imports Ser_Entry Ser_Attr
begin

text \<open>
  Notifications as text: arrays of JSON objects, and single objects, in \<open>meta/SaiSerialize.cpp\<close>.
\<close>

section \<open>Arrays of items\<close>

definition entry_json :: "(string \<times> (fault + string)) list \<Rightarrow> fault + json" where
  "entry_json kvs = json_fields (map (\<lambda>(k, r). (k, text_field r)) kvs)"

text \<open>
  The notifications with a count and a pointer, which may be null; the count is the length of the array when read. An
  element of a value that is no array throws, and null has no elements.
\<close>

definition array_text :: "'x text_lib_scheme \<Rightarrow> ('a \<Rightarrow> fault + json) \<Rightarrow> 'a sai_list \<Rightarrow> fault + string" where
  "array_text L put data =
     (case data of
        Null_List n \<Rightarrow> Inl (Throw ''pointer is null'')
      | Sai_List xs \<Rightarrow> bindE (mapE put xs) (\<lambda>js. Inr (json_dump L (JArr js))))"

definition json_items :: "json \<Rightarrow> fault + json list" where
  "json_items j =
     (case j of JArr js \<Rightarrow> Inr js | JNull \<Rightarrow> Inr [] | JObj [] \<Rightarrow> Inr [] | _ \<Rightarrow> Inl (Throw ''json type_error''))"

definition read_array :: "'x text_lib_scheme \<Rightarrow> (json \<Rightarrow> fault + 'a) \<Rightarrow> string \<Rightarrow> fault + 'a list" where
  "read_array L get s = bindE (parse_json L s) (\<lambda>j. bindE (json_items j) (mapE get))"

lemma json_items_arr [simp]: "json_items (JArr js) = Inr js"
  by (simp add: json_items_def)

lemma entry_json_reads:
  assumes "distinct (map fst kvs)" "list_all ascii (map fst kvs)" "list_all (\<lambda>(k, r). printed r) kvs"
    and "\<And>j. list_all (\<lambda>(k, r). member_string j k = r) kvs \<Longrightarrow> get j = Inr x"
  shows "\<exists>j. entry_json kvs = Inr j \<and> get j = Inr x \<and> json_wf j"
proof -
  from entry_fields [OF assms(1-3)] obtain j where "json_fields (map (\<lambda>(k, r). (k, text_field r)) kvs) = Inr j" "json_wf j"
    "list_all (\<lambda>(k, r). member_string j k = r) kvs" .
  then show ?thesis using assms(4) by (auto simp: entry_json_def)
qed

context json_codec
begin

lemma array_reads:
  assumes "json_ok L" "list_all good xs"
  shows "reads (array_text L put (Sai_List xs)) (read_array L get) xs"
proof -
  from elements_roundtrip [OF assms(2)] obtain js where
    js: "mapE put xs = Inr js" "mapE get js = Inr xs" "list_all json_wf js" by blast
  then show ?thesis using parse_dump [OF assms(1), of "JArr js"] by (simp add: reads_def array_text_def read_array_def)
qed

end

section \<open>Items of which every member is text\<close>

record sai_port_oper_status_notification =
  po_port_id :: oid
  po_port_state :: "32 word"
  po_port_error_status :: "32 word"

definition port_oper_status_item :: "'x text_lib_scheme \<Rightarrow> sai_port_oper_status_notification \<Rightarrow> fault + json" where
  "port_oper_status_item L e =
     entry_json
       [(''port_id'', Inr (sai_serialize_object_id (po_port_id e))),
        (''port_state'', sai_serialize_enum (po_port_state e) (Some (enum_table L EN_port_oper_status))),
        (''port_error_status'', sai_serialize_enum (po_port_error_status e) (Some (enum_table L EN_port_error_status)))]"

definition port_oper_status_of_item :: "'x text_lib_scheme \<Rightarrow> json \<Rightarrow> fault + sai_port_oper_status_notification" where
  "port_oper_status_of_item L j =
     bindE (member_text j ''port_id'' sai_deserialize_object_id) (\<lambda>x0.
     bindE (member_text j ''port_state'' (\<lambda>s. sai_deserialize_enum L s (Some (enum_table L EN_port_oper_status)))) (\<lambda>x1.
     bindE (member_text j ''port_error_status'' (\<lambda>s. sai_deserialize_enum L s (Some (enum_table L EN_port_error_status)))) (\<lambda>x2.
       Inr \<lparr>po_port_id = x0, po_port_state = x1, po_port_error_status = x2\<rparr>)))"

definition sai_serialize_port_oper_status_ntf :: "'x text_lib_scheme \<Rightarrow> sai_port_oper_status_notification sai_list \<Rightarrow> fault + string" where
  "sai_serialize_port_oper_status_ntf L data = array_text L (port_oper_status_item L) data"

definition sai_deserialize_port_oper_status_ntf :: "'x text_lib_scheme \<Rightarrow> string \<Rightarrow> fault + sai_port_oper_status_notification list" where
  "sai_deserialize_port_oper_status_ntf L s = read_array L (port_oper_status_of_item L) s"

interpretation port_oper_status: json_codec "port_oper_status_item L" "port_oper_status_of_item L" "\<lambda>e. text_lib_ok L" for L :: "'x text_lib_scheme"
  unfolding port_oper_status_item_def port_oper_status_of_item_def
  by (unfold_locales, rule entry_json_reads) (auto simp: member_text_def field_prints)

record sai_queue_deadlock_notification_data =
  qd_queue_id :: oid
  qd_event :: "32 word"

definition queue_deadlock_item :: "'x text_lib_scheme \<Rightarrow> sai_queue_deadlock_notification_data \<Rightarrow> fault + json" where
  "queue_deadlock_item L e =
     entry_json
       [(''queue_id'', Inr (sai_serialize_object_id (qd_queue_id e))),
        (''event'', sai_serialize_enum (qd_event e) (Some (enum_table L EN_queue_pfc_deadlock_event_type)))]"

definition queue_deadlock_of_item :: "'x text_lib_scheme \<Rightarrow> json \<Rightarrow> fault + sai_queue_deadlock_notification_data" where
  "queue_deadlock_of_item L j =
     bindE (member_text j ''queue_id'' sai_deserialize_object_id) (\<lambda>x0.
     bindE (member_text j ''event'' (\<lambda>s. sai_deserialize_enum L s (Some (enum_table L EN_queue_pfc_deadlock_event_type)))) (\<lambda>x1.
       Inr \<lparr>qd_queue_id = x0, qd_event = x1\<rparr>))"

definition sai_serialize_queue_deadlock_ntf :: "'x text_lib_scheme \<Rightarrow> sai_queue_deadlock_notification_data sai_list \<Rightarrow> fault + string" where
  "sai_serialize_queue_deadlock_ntf L data = array_text L (queue_deadlock_item L) data"

definition sai_deserialize_queue_deadlock_ntf :: "'x text_lib_scheme \<Rightarrow> string \<Rightarrow> fault + sai_queue_deadlock_notification_data list" where
  "sai_deserialize_queue_deadlock_ntf L s = read_array L (queue_deadlock_of_item L) s"

interpretation queue_deadlock: json_codec "queue_deadlock_item L" "queue_deadlock_of_item L" "\<lambda>e. text_lib_ok L" for L :: "'x text_lib_scheme"
  unfolding queue_deadlock_item_def queue_deadlock_of_item_def
  by (unfold_locales, rule entry_json_reads) (auto simp: member_text_def field_prints)

record sai_bfd_session_state_notification =
  bs_bfd_session_id :: oid
  bs_session_state :: "32 word"

definition bfd_session_state_item :: "'x text_lib_scheme \<Rightarrow> sai_bfd_session_state_notification \<Rightarrow> fault + json" where
  "bfd_session_state_item L e =
     entry_json
       [(''bfd_session_id'', Inr (sai_serialize_object_id (bs_bfd_session_id e))),
        (''session_state'', sai_serialize_enum (bs_session_state e) (Some (enum_table L EN_bfd_session_state)))]"

definition bfd_session_state_of_item :: "'x text_lib_scheme \<Rightarrow> json \<Rightarrow> fault + sai_bfd_session_state_notification" where
  "bfd_session_state_of_item L j =
     bindE (member_text j ''bfd_session_id'' sai_deserialize_object_id) (\<lambda>x0.
     bindE (member_text j ''session_state'' (\<lambda>s. sai_deserialize_enum L s (Some (enum_table L EN_bfd_session_state)))) (\<lambda>x1.
       Inr \<lparr>bs_bfd_session_id = x0, bs_session_state = x1\<rparr>))"

definition sai_serialize_bfd_session_state_ntf :: "'x text_lib_scheme \<Rightarrow> sai_bfd_session_state_notification sai_list \<Rightarrow> fault + string" where
  "sai_serialize_bfd_session_state_ntf L data = array_text L (bfd_session_state_item L) data"

definition sai_deserialize_bfd_session_state_ntf :: "'x text_lib_scheme \<Rightarrow> string \<Rightarrow> fault + sai_bfd_session_state_notification list" where
  "sai_deserialize_bfd_session_state_ntf L s = read_array L (bfd_session_state_of_item L) s"

interpretation bfd_session_state: json_codec "bfd_session_state_item L" "bfd_session_state_of_item L" "\<lambda>e. text_lib_ok L" for L :: "'x text_lib_scheme"
  unfolding bfd_session_state_item_def bfd_session_state_of_item_def
  by (unfold_locales, rule entry_json_reads) (auto simp: member_text_def field_prints)

record sai_icmp_echo_session_state_notification =
  ic_icmp_echo_session_id :: oid
  ic_session_state :: "32 word"

definition icmp_echo_session_state_item :: "'x text_lib_scheme \<Rightarrow> sai_icmp_echo_session_state_notification \<Rightarrow> fault + json" where
  "icmp_echo_session_state_item L e =
     entry_json
       [(''icmp_echo_session_id'', Inr (sai_serialize_object_id (ic_icmp_echo_session_id e))),
        (''session_state'', sai_serialize_enum (ic_session_state e) (Some (enum_table L EN_icmp_echo_session_state)))]"

definition icmp_echo_session_state_of_item :: "'x text_lib_scheme \<Rightarrow> json \<Rightarrow> fault + sai_icmp_echo_session_state_notification" where
  "icmp_echo_session_state_of_item L j =
     bindE (member_text j ''icmp_echo_session_id'' sai_deserialize_object_id) (\<lambda>x0.
     bindE (member_text j ''session_state'' (\<lambda>s. sai_deserialize_enum L s (Some (enum_table L EN_icmp_echo_session_state)))) (\<lambda>x1.
       Inr \<lparr>ic_icmp_echo_session_id = x0, ic_session_state = x1\<rparr>))"

definition sai_serialize_icmp_echo_session_state_ntf :: "'x text_lib_scheme \<Rightarrow> sai_icmp_echo_session_state_notification sai_list \<Rightarrow> fault + string" where
  "sai_serialize_icmp_echo_session_state_ntf L data = array_text L (icmp_echo_session_state_item L) data"

definition sai_deserialize_icmp_echo_session_state_ntf :: "'x text_lib_scheme \<Rightarrow> string \<Rightarrow> fault + sai_icmp_echo_session_state_notification list" where
  "sai_deserialize_icmp_echo_session_state_ntf L s = read_array L (icmp_echo_session_state_of_item L) s"

interpretation icmp_echo_session_state: json_codec "icmp_echo_session_state_item L" "icmp_echo_session_state_of_item L" "\<lambda>e. text_lib_ok L" for L :: "'x text_lib_scheme"
  unfolding icmp_echo_session_state_item_def icmp_echo_session_state_of_item_def
  by (unfold_locales, rule entry_json_reads) (auto simp: member_text_def field_prints)

record sai_ha_set_event_data =
  hs_event_type :: "32 word"
  hs_ha_set_id :: oid

definition ha_set_event_item :: "'x text_lib_scheme \<Rightarrow> sai_ha_set_event_data \<Rightarrow> fault + json" where
  "ha_set_event_item L e =
     entry_json
       [(''event_type'', sai_serialize_enum (hs_event_type e) (Some (enum_table L EN_ha_set_event))),
        (''ha_set_id'', Inr (sai_serialize_object_id (hs_ha_set_id e)))]"

definition ha_set_event_of_item :: "'x text_lib_scheme \<Rightarrow> json \<Rightarrow> fault + sai_ha_set_event_data" where
  "ha_set_event_of_item L j =
     bindE (member_text j ''event_type'' (\<lambda>s. sai_deserialize_enum L s (Some (enum_table L EN_ha_set_event)))) (\<lambda>x0.
     bindE (member_text j ''ha_set_id'' sai_deserialize_object_id) (\<lambda>x1.
       Inr \<lparr>hs_event_type = x0, hs_ha_set_id = x1\<rparr>))"

definition sai_serialize_ha_set_event_ntf :: "'x text_lib_scheme \<Rightarrow> sai_ha_set_event_data sai_list \<Rightarrow> fault + string" where
  "sai_serialize_ha_set_event_ntf L data = array_text L (ha_set_event_item L) data"

definition sai_deserialize_ha_set_event_ntf :: "'x text_lib_scheme \<Rightarrow> string \<Rightarrow> fault + sai_ha_set_event_data list" where
  "sai_deserialize_ha_set_event_ntf L s = read_array L (ha_set_event_of_item L) s"

interpretation ha_set_event: json_codec "ha_set_event_item L" "ha_set_event_of_item L" "\<lambda>e. text_lib_ok L" for L :: "'x text_lib_scheme"
  unfolding ha_set_event_item_def ha_set_event_of_item_def
  by (unfold_locales, rule entry_json_reads) (auto simp: member_text_def field_prints)

record sai_ha_scope_event_data =
  hc_event_type :: "32 word"
  hc_ha_scope_id :: oid
  hc_ha_role :: "32 word"
  hc_flow_version :: u32
  hc_ha_state :: "32 word"

definition ha_scope_event_item :: "'x text_lib_scheme \<Rightarrow> sai_ha_scope_event_data \<Rightarrow> fault + json" where
  "ha_scope_event_item L e =
     entry_json
       [(''event_type'', sai_serialize_enum (hc_event_type e) (Some (enum_table L EN_ha_scope_event))),
        (''ha_scope_id'', Inr (sai_serialize_object_id (hc_ha_scope_id e))),
        (''ha_role'', sai_serialize_enum (hc_ha_role e) (Some (enum_table L EN_dash_ha_role))),
        (''flow_version'', Inr (sai_serialize_number False (hc_flow_version e))),
        (''ha_state'', sai_serialize_enum (hc_ha_state e) (Some (enum_table L EN_dash_ha_state)))]"

definition ha_scope_event_of_item :: "'x text_lib_scheme \<Rightarrow> json \<Rightarrow> fault + sai_ha_scope_event_data" where
  "ha_scope_event_of_item L j =
     bindE (member_text j ''event_type'' (\<lambda>s. sai_deserialize_enum L s (Some (enum_table L EN_ha_scope_event)))) (\<lambda>x0.
     bindE (member_text j ''ha_scope_id'' sai_deserialize_object_id) (\<lambda>x1.
     bindE (member_text j ''ha_role'' (\<lambda>s. sai_deserialize_enum L s (Some (enum_table L EN_dash_ha_role)))) (\<lambda>x2.
     bindE (member_text j ''flow_version'' (sai_deserialize_number False)) (\<lambda>x3.
     bindE (member_text j ''ha_state'' (\<lambda>s. sai_deserialize_enum L s (Some (enum_table L EN_dash_ha_state)))) (\<lambda>x4.
       Inr \<lparr>hc_event_type = x0, hc_ha_scope_id = x1, hc_ha_role = x2, hc_flow_version = x3, hc_ha_state = x4\<rparr>)))))"

definition sai_serialize_ha_scope_event_ntf :: "'x text_lib_scheme \<Rightarrow> sai_ha_scope_event_data sai_list \<Rightarrow> fault + string" where
  "sai_serialize_ha_scope_event_ntf L data = array_text L (ha_scope_event_item L) data"

definition sai_deserialize_ha_scope_event_ntf :: "'x text_lib_scheme \<Rightarrow> string \<Rightarrow> fault + sai_ha_scope_event_data list" where
  "sai_deserialize_ha_scope_event_ntf L s = read_array L (ha_scope_event_of_item L) s"

interpretation ha_scope_event: json_codec "ha_scope_event_item L" "ha_scope_event_of_item L" "\<lambda>e. text_lib_ok L" for L :: "'x text_lib_scheme"
  unfolding ha_scope_event_item_def ha_scope_event_of_item_def
  by (unfold_locales, rule entry_json_reads) (auto simp: member_text_def field_prints)

text \<open>One element, whatever follows it.\<close>

definition json_first :: "json \<Rightarrow> fault + json" where
  "json_first j =
     (case j of
        JArr js \<Rightarrow> Inr (case js of [] \<Rightarrow> JNull | x # xs \<Rightarrow> x)
      | JNull \<Rightarrow> Inr JNull
      | _ \<Rightarrow> Inl (Throw ''json type_error''))"

definition sai_serialize_port_host_tx_ready_ntf :: "'x text_lib_scheme \<Rightarrow> oid \<Rightarrow> oid \<Rightarrow> 32 word \<Rightarrow> fault + string" where
  "sai_serialize_port_host_tx_ready_ntf L switch_id port_id st =
     bindE (entry_json
       [(''port_id'', Inr (sai_serialize_object_id port_id)),
        (''switch_id'', Inr (sai_serialize_object_id switch_id)),
        (''host_tx_ready_status'', sai_serialize_enum st (Some (enum_table L EN_port_host_tx_ready_status)))])
       (\<lambda>item. Inr (json_dump L (JArr [item])))"

definition host_tx_of_item :: "'x text_lib_scheme \<Rightarrow> json \<Rightarrow> fault + oid \<times> oid \<times> 32 word" where
  "host_tx_of_item L j =
     bindE (member_text j ''port_id'' sai_deserialize_object_id) (\<lambda>port_id.
     bindE (member_text j ''switch_id'' sai_deserialize_object_id) (\<lambda>switch_id.
     bindE (member_text j ''host_tx_ready_status''
         (\<lambda>s. sai_deserialize_enum L s (Some (enum_table L EN_port_host_tx_ready_status)))) (\<lambda>st.
       Inr (switch_id, port_id, st))))"

definition sai_deserialize_port_host_tx_ready_ntf :: "'x text_lib_scheme \<Rightarrow> string \<Rightarrow> fault + oid \<times> oid \<times> 32 word" where
  "sai_deserialize_port_host_tx_ready_ntf L s =
     bindE (parse_json L s) (\<lambda>j. bindE (json_first j) (host_tx_of_item L))"

lemma host_tx_ready_roundtrip:
  assumes "text_lib_ok L"
  shows "reads (sai_serialize_port_host_tx_ready_ntf L sw port st) (sai_deserialize_port_host_tx_ready_ntf L) (sw, port, st)"
proof -
  have "\<exists>j. entry_json
       [(''port_id'', Inr (sai_serialize_object_id port)), (''switch_id'', Inr (sai_serialize_object_id sw)),
        (''host_tx_ready_status'', sai_serialize_enum st (Some (enum_table L EN_port_host_tx_ready_status)))] = Inr j \<and>
       host_tx_of_item L j = Inr (sw, port, st) \<and> json_wf j"
    by (rule entry_json_reads) (use assms in \<open>simp_all add: host_tx_of_item_def member_text_def field_prints\<close>)
  then obtain j where "entry_json
       [(''port_id'', Inr (sai_serialize_object_id port)), (''switch_id'', Inr (sai_serialize_object_id sw)),
        (''host_tx_ready_status'', sai_serialize_enum st (Some (enum_table L EN_port_host_tx_ready_status)))] = Inr j"
       "host_tx_of_item L j = Inr (sw, port, st)" "json_wf j" by blast
  then show ?thesis
    by (simp add: reads_def sai_serialize_port_host_tx_ready_ntf_def sai_deserialize_port_host_tx_ready_ntf_def json_first_def
        parse_dump [OF text_lib_okD(2) [OF assms]])
qed

section \<open>Sessions of the two way active measurement protocol\<close>

record sai_twamp_session_event =
  tw_session_id :: oid
  tw_session_state :: "32 word"
  tw_index :: u32
  tw_counters :: "(32 word \<times> u64) list"

definition twamp_counter :: "'x text_lib_scheme \<Rightarrow> 32 word \<times> u64 \<Rightarrow> fault + json" where
  "twamp_counter L c =
     entry_json
       [(''counters_ids'', sai_serialize_enum (fst c) (Some (enum_table L EN_twamp_session_stat))),
        (''counters'', Inr (sai_serialize_number False (snd c)))]"

definition sai_serialize_json_twamp_session_event_notification_data ::
  "'x text_lib_scheme \<Rightarrow> sai_twamp_session_event \<Rightarrow> fault + json" where
  "sai_serialize_json_twamp_session_event_notification_data L t =
     json_fields
       [(''twamp_session_id'', text_field (Inr (sai_serialize_object_id (tw_session_id t)))),
        (''session_state'', enum_text_field L EN_twamp_session_state (tw_session_state t)),
        (''index'', text_field (Inr (sai_serialize_number False (tw_index t)))),
        (''list'', bindE (mapE (twamp_counter L) (tw_counters t)) (\<lambda>js. Inr (JArr js)))]"

definition twamp_of_counter :: "'x text_lib_scheme \<Rightarrow> json \<Rightarrow> fault + 32 word \<times> u64" where
  "twamp_of_counter L j =
     bindE (member_ctext j ''counters_ids'' (\<lambda>s. sai_deserialize_enum L s (Some (enum_table L EN_twamp_session_stat)))) (\<lambda>i.
     bindE (member_ctext j ''counters'' (sai_deserialize_number False)) (\<lambda>c. Inr (i, c)))"

definition sai_deserialize_json_twamp_session_event_notification_data ::
  "'x text_lib_scheme \<Rightarrow> json \<Rightarrow> fault + sai_twamp_session_event" where
  "sai_deserialize_json_twamp_session_event_notification_data L j =
     bindE (member_ctext j ''twamp_session_id'' sai_deserialize_object_id) (\<lambda>sid.
     bindE (member_ctext j ''session_state'' (\<lambda>s. sai_deserialize_enum L s (Some (enum_table L EN_twamp_session_state)))) (\<lambda>st.
     bindE (member_ctext j ''index'' (sai_deserialize_number False)) (\<lambda>i.
     bindE (json_cat j ''list'') (\<lambda>arr.
     bindE (bindE (json_items arr) (mapE (twamp_of_counter L))) (\<lambda>cs.
       Inr \<lparr>tw_session_id = sid, tw_session_state = st, tw_index = i, tw_counters = cs\<rparr>)))))"

definition sai_serialize_twamp_session_event_ntf :: "'x text_lib_scheme \<Rightarrow> sai_twamp_session_event sai_list \<Rightarrow> fault + string" where
  "sai_serialize_twamp_session_event_ntf L data =
     array_text L (sai_serialize_json_twamp_session_event_notification_data L) data"

definition sai_deserialize_twamp_session_event_ntf :: "'x text_lib_scheme \<Rightarrow> string \<Rightarrow> fault + sai_twamp_session_event list" where
  "sai_deserialize_twamp_session_event_ntf L s =
     read_array L (sai_deserialize_json_twamp_session_event_notification_data L) s"

text \<open>A constant object with the member answers as one that is not constant.\<close>

lemma member_cstring: "member_string j k = Inr s \<Longrightarrow> member_cstring j k = Inr s"
  by (auto simp: member_string_def member_cstring_def json_at_def json_cat_def json_string_def bindE_def
      split: json.splits option.splits sum.splits)

lemma member_ctext: "member_text j k f = Inr x \<Longrightarrow> member_ctext j k f = Inr x"
  by (cases "member_string j k") (simp_all add: member_text_def member_ctext_def member_cstring)

interpretation twamp_counters: json_codec "twamp_counter L" "twamp_of_counter L" "\<lambda>c. text_lib_ok L" for L :: "'x text_lib_scheme"
proof (unfold_locales, unfold twamp_counter_def, rule entry_json_reads)
  fix c :: "32 word \<times> u64" and j
  assume L: "text_lib_ok L" and "list_all (\<lambda>(k, r). member_string j k = r)
        [(''counters_ids'', sai_serialize_enum (fst c) (Some (enum_table L EN_twamp_session_stat))),
         (''counters'', Inr (sai_serialize_number False (snd c)))]"
  then have "member_text j ''counters_ids'' (\<lambda>s. sai_deserialize_enum L s (Some (enum_table L EN_twamp_session_stat))) = Inr (fst c)"
    "member_text j ''counters'' (sai_deserialize_number False) = Inr (snd c)"
    by (simp_all add: member_text_def field_prints)
  then show "twamp_of_counter L j = Inr c" by (simp add: twamp_of_counter_def member_ctext)
qed (simp_all add: field_prints)

lemma enum_text_fieldE:
  assumes "text_lib_ok L"
  obtains s where "enum_text_field L n w = Inr (JStr s)" "ascii s" "sai_deserialize_enum L s (Some (enum_table L n)) = Inr w"
proof (rule enum_reads [OF text_lib_okD(1) [OF assms], of "Some (enum_table L n)" w])
  show "enum_ok md" if "Some (enum_table L n) = Some md" for md using that text_lib_okD(4) [OF assms, of n] by simp
  fix s
  assume "sai_serialize_enum w (Some (enum_table L n)) = Inr s" "sai_deserialize_enum L s (Some (enum_table L n)) = Inr w" "plain s"
  then show thesis by (intro that [of s]) (simp_all add: enum_text_field_def plainD)
qed

interpretation twamps: json_codec "sai_serialize_json_twamp_session_event_notification_data L"
    "sai_deserialize_json_twamp_session_event_notification_data L" "\<lambda>t. text_lib_ok L" for L :: "'x text_lib_scheme"
proof unfold_locales
  fix t :: sai_twamp_session_event
  assume L: "text_lib_ok L"
  obtain s where s: "enum_text_field L EN_twamp_session_state (tw_session_state t) = Inr (JStr s)" "ascii s"
    "sai_deserialize_enum L s (Some (enum_table L EN_twamp_session_state)) = Inr (tw_session_state t)"
    by (rule enum_text_fieldE [OF L])
  obtain js where js: "mapE (twamp_counter L) (tw_counters t) = Inr js" "mapE (twamp_of_counter L) js = Inr (tw_counters t)"
    "list_all json_wf js"
    using twamp_counters.elements_roundtrip [of L "tw_counters t"] L by (auto simp: list_all_iff)
  show "\<exists>j. sai_serialize_json_twamp_session_event_notification_data L t = Inr j \<and>
      sai_deserialize_json_twamp_session_event_notification_data L j = Inr t \<and> json_wf j"
    using s js
    by (cases t) (simp add: sai_serialize_json_twamp_session_event_notification_data_def json_fields_def
        sai_deserialize_json_twamp_session_event_notification_data_def json_wf_object json_reads member_ctext_def field_prints)
qed

section \<open>Address translation\<close>

record sai_nat_event_data =
  nv_event_type :: "32 word"
  nv_nat_entry :: sai_nat_entry

text \<open>The entry is a text in the text, so its printed form has to be ASCII as well.\<close>

definition dump_ascii :: "'x text_lib_scheme \<Rightarrow> bool" where
  "dump_ascii L \<longleftrightarrow> (\<forall>j. json_wf j \<longrightarrow> ascii (json_dump L j))"

definition sai_serialize_json_nat_event_notification_data :: "'x text_lib_scheme \<Rightarrow> sai_nat_event_data \<Rightarrow> fault + json" where
  "sai_serialize_json_nat_event_notification_data L n =
     entry_json
       [(''nat_event'', sai_serialize_enum (nv_event_type n) (Some (enum_table L EN_nat_event))),
        (''nat_entry'', sai_serialize_nat_entry L (nv_nat_entry n))]"

definition sai_deserialize_json_nat_event_notification_data :: "'x text_lib_scheme \<Rightarrow> json \<Rightarrow> fault + sai_nat_event_data" where
  "sai_deserialize_json_nat_event_notification_data L j =
     bindE (member_ctext j ''nat_event'' (\<lambda>s. sai_deserialize_enum L s (Some (enum_table L EN_nat_event)))) (\<lambda>ev.
     bindE (member_ctext j ''nat_entry'' (sai_deserialize_nat_entry L)) (\<lambda>e. Inr \<lparr>nv_event_type = ev, nv_nat_entry = e\<rparr>))"

definition sai_serialize_nat_event_ntf :: "'x text_lib_scheme \<Rightarrow> sai_nat_event_data sai_list \<Rightarrow> fault + string" where
  "sai_serialize_nat_event_ntf L data = array_text L (sai_serialize_json_nat_event_notification_data L) data"

definition sai_deserialize_nat_event_ntf :: "'x text_lib_scheme \<Rightarrow> string \<Rightarrow> fault + sai_nat_event_data list" where
  "sai_deserialize_nat_event_ntf L s = read_array L (sai_deserialize_json_nat_event_notification_data L) s"

text \<open>The text of an entry is a printed JSON value.\<close>

definition dumped :: "'x text_lib_scheme \<Rightarrow> fault + string \<Rightarrow> bool" where
  "dumped L r \<longleftrightarrow> (\<exists>j. r = Inr (json_dump L j) \<and> json_wf j)"

lemma dumped_printed: "dump_ascii L \<Longrightarrow> dumped L r \<Longrightarrow> printed r"
  by (auto simp: dumped_def dump_ascii_def printed_def)

lemma entry_text_dumped:
  "distinct (map fst kvs) \<Longrightarrow> list_all ascii (map fst kvs) \<Longrightarrow> list_all (\<lambda>(k, r). printed r) kvs \<Longrightarrow> dumped L (entry_text L kvs)"
  by (rule entry_fields) (auto simp: dumped_def entry_text_def)

lemma nat_entry_dumped:
  assumes "text_lib_ok L" "nat_key_ok (nd_key (na_data e))" "nat_key_ok (nd_mask (na_data e))"
  shows "dumped L (sai_serialize_nat_entry L e)"
proof -
  obtain d where d: "sai_serialize_nat_entry_data (na_data e) = Inr d" "json_wf d"
    using nat_data_roundtrip [OF assms(2,3)] by blast
  obtain t where "enum_text_field L EN_nat_type (na_nat_type e) = Inr (JStr t)" "ascii t"
    by (rule enum_text_fieldE [OF assms(1)])
  then show ?thesis
    using d by (simp add: dumped_def sai_serialize_nat_entry_def json_fields_def)
      (rule exI, rule conjI, rule refl, simp add: json_wf_object)
qed

definition nat_event_ok :: "sai_nat_event_data \<Rightarrow> bool" where
  "nat_event_ok n = (nat_key_ok (nd_key (na_data (nv_nat_entry n))) \<and> nat_key_ok (nd_mask (na_data (nv_nat_entry n))))"

lemma reads_bind: "reads r f x \<Longrightarrow> bindE r f = Inr x"
  by (auto simp: reads_def)

interpretation nats: json_codec "sai_serialize_json_nat_event_notification_data L"
    "sai_deserialize_json_nat_event_notification_data L" "\<lambda>n. text_lib_ok L \<and> dump_ascii L \<and> nat_event_ok n"
  for L :: "'x text_lib_scheme"
proof (unfold_locales, unfold sai_serialize_json_nat_event_notification_data_def, rule entry_json_reads)
  fix n :: sai_nat_event_data and j
  assume ok: "text_lib_ok L \<and> dump_ascii L \<and> nat_event_ok n"
    and j: "list_all (\<lambda>(k, r). member_string j k = r)
        [(''nat_event'', sai_serialize_enum (nv_event_type n) (Some (enum_table L EN_nat_event))),
         (''nat_entry'', sai_serialize_nat_entry L (nv_nat_entry n))]"
  have "reads (sai_serialize_nat_entry L (nv_nat_entry n)) (sai_deserialize_nat_entry L) (nv_nat_entry n)"
    using ok by (intro nat_entry_reads) (simp_all add: nat_event_ok_def)
  then have "member_text j ''nat_entry'' (sai_deserialize_nat_entry L) = Inr (nv_nat_entry n)"
    using j by (simp add: member_text_def reads_bind)
  moreover have "member_text j ''nat_event'' (\<lambda>s. sai_deserialize_enum L s (Some (enum_table L EN_nat_event))) = Inr (nv_event_type n)"
    using j ok by (simp add: member_text_def field_prints)
  ultimately show "sai_deserialize_json_nat_event_notification_data L j = Inr n"
    by (simp add: sai_deserialize_json_nat_event_notification_data_def member_ctext)
qed (use dumped_printed nat_entry_dumped in \<open>auto simp: field_prints nat_event_ok_def\<close>)

section \<open>Addresses learned and aged\<close>

record sai_fdb_event_data =
  fv_event_type :: "32 word"
  fv_fdb_entry :: sai_fdb_entry
  fv_attr :: "(u32 \<times> ser_value) list"

text \<open>Two constants of the headers: \<open>SAI_OBJECT_TYPE_FDB_ENTRY\<close> and \<open>SAI_FLOW_BULK_GET_SESSION_EVENT_FINISHED\<close>.\<close>

record ntf_lib = attr_lib +
  type_fdb_entry :: "32 word"
  event_finished :: "32 word"

definition fdb_attr_item :: "'x ntf_lib_scheme \<Rightarrow> u32 \<times> ser_value \<Rightarrow> fault + json" where
  "fdb_attr_item L a =
     (case attr_md L (type_fdb_entry L) (fst a) of
        None \<Rightarrow> Inl (Throw ''unable to get metadata for object type'')
      | Some (name, md) \<Rightarrow> entry_json [(''id'', Inr name), (''value'', sai_serialize_attr_value L md (snd a) False)])"

definition sai_serialize_json_fdb_event_notification_data :: "'x ntf_lib_scheme \<Rightarrow> sai_fdb_event_data \<Rightarrow> fault + json" where
  "sai_serialize_json_fdb_event_notification_data L n =
     json_fields
       [(''fdb_event'', enum_text_field L EN_fdb_event (fv_event_type n)),
        (''fdb_entry'', text_field (sai_serialize_fdb_entry L (fv_fdb_entry n))),
        (''list'', bindE (mapE (fdb_attr_item L) (fv_attr n)) (\<lambda>js. Inr (JArr js)))]"

definition fdb_attr_of_item :: "'x ntf_lib_scheme \<Rightarrow> json \<Rightarrow> fault + u32 \<times> ser_value" where
  "fdb_attr_of_item L j =
     bindE (member_ctext j ''id'' (sai_deserialize_attr_id L)) (\<lambda>(i, md).
     bindE (member_ctext j ''value'' (\<lambda>s. sai_deserialize_attr_value L md s False)) (\<lambda>v. Inr (i, v)))"

definition sai_deserialize_json_fdb_event_notification_data :: "'x ntf_lib_scheme \<Rightarrow> json \<Rightarrow> fault + sai_fdb_event_data" where
  "sai_deserialize_json_fdb_event_notification_data L j =
     bindE (member_ctext j ''fdb_event'' (\<lambda>s. sai_deserialize_enum L s (Some (enum_table L EN_fdb_event)))) (\<lambda>ev.
     bindE (member_ctext j ''fdb_entry'' (sai_deserialize_fdb_entry L)) (\<lambda>e.
     bindE (json_cat j ''list'') (\<lambda>arr.
     bindE (bindE (json_items arr) (mapE (fdb_attr_of_item L))) (\<lambda>attrs.
       Inr \<lparr>fv_event_type = ev, fv_fdb_entry = e, fv_attr = attrs\<rparr>))))"

definition sai_serialize_fdb_event_ntf :: "'x ntf_lib_scheme \<Rightarrow> sai_fdb_event_data sai_list \<Rightarrow> fault + string" where
  "sai_serialize_fdb_event_ntf L data = array_text L (sai_serialize_json_fdb_event_notification_data L) data"

definition sai_deserialize_fdb_event_ntf :: "'x ntf_lib_scheme \<Rightarrow> string \<Rightarrow> fault + sai_fdb_event_data list" where
  "sai_deserialize_fdb_event_ntf L s = read_array L (sai_deserialize_json_fdb_event_notification_data L) s"

definition ntf_lib_ok :: "'x ntf_lib_scheme \<Rightarrow> bool" where
  "ntf_lib_ok L \<longleftrightarrow> attr_lib_ok L \<and> dump_ascii L"

text \<open>The attributes that come back as they were: known ones, with values as they are after a round trip, of ASCII text.\<close>

definition fdb_attr_ok :: "'x ntf_lib_scheme \<Rightarrow> u32 \<times> ser_value \<Rightarrow> bool" where
  "fdb_attr_ok L a \<longleftrightarrow>
     (\<exists>name md. attr_md L (type_fdb_entry L) (fst a) = Some (name, md) \<and> ser_value_type (snd a) (sm_type md) \<and> ser_value_ok md (snd a) \<and>
        ser_value_norm (snd a) = snd a \<and> \<not> by_lane (snd a) \<and> printed (sai_serialize_attr_value L md (snd a) False))"

definition fdb_event_ok :: "'x ntf_lib_scheme \<Rightarrow> sai_fdb_event_data \<Rightarrow> bool" where
  "fdb_event_ok L n = (length (fe_mac_address (fv_fdb_entry n)) = 6 \<and> list_all (fdb_attr_ok L) (fv_attr n))"

interpretation fdb_attrs: json_codec "fdb_attr_item L" "fdb_attr_of_item L" "\<lambda>a. ntf_lib_ok L \<and> fdb_attr_ok L a"
  for L :: "'x ntf_lib_scheme"
proof unfold_locales
  fix a :: "u32 \<times> ser_value"
  assume ok: "ntf_lib_ok L \<and> fdb_attr_ok L a"
  then obtain name md where a: "attr_md L (type_fdb_entry L) (fst a) = Some (name, md)" "ser_value_type (snd a) (sm_type md)"
    "ser_value_ok md (snd a)" "ser_value_norm (snd a) = snd a" "printed (sai_serialize_attr_value L md (snd a) False)"
    "\<not> by_lane (snd a)"
    by (auto simp: fdb_attr_ok_def)
  have al: "attr_lib_ok L" using ok by (simp add: ntf_lib_ok_def)
  have L: "text_lib_ok L" "ascii name" "sai_deserialize_attr_id L name = Inr (fst a, md)" "\<And>em. sm_enum md = Some em \<Longrightarrow> enum_ok em"
    using attr_lib_okD [OF al] a(1) by blast+
  have v: "reads (sai_serialize_attr_value L md (snd a) False) (\<lambda>s. sai_deserialize_attr_value L md s False) (snd a)"
    using attr_value_reads [OF L(1,4) a(2,3,6)] a(4) by simp
  have "\<exists>j. entry_json [(''id'', Inr name), (''value'', sai_serialize_attr_value L md (snd a) False)] = Inr j \<and>
      fdb_attr_of_item L j = Inr a \<and> json_wf j"
  proof (rule entry_json_reads)
    fix j assume j: "list_all (\<lambda>(k, r). member_string j k = r)
        [(''id'', Inr name), (''value'', sai_serialize_attr_value L md (snd a) False)]"
    then have "member_text j ''id'' (sai_deserialize_attr_id L) = Inr (fst a, md)"
      "member_text j ''value'' (\<lambda>s. sai_deserialize_attr_value L md s False) = Inr (snd a)"
      using L(3) reads_bind [OF v] by (simp_all add: member_text_def)
    then show "fdb_attr_of_item L j = Inr a" by (simp add: fdb_attr_of_item_def member_ctext)
  qed (use L(2) a(5) in simp_all)
  then show "\<exists>j. fdb_attr_item L a = Inr j \<and> fdb_attr_of_item L j = Inr a \<and> json_wf j"
    using a(1) by (simp add: fdb_attr_item_def)
qed

lemma fdb_entry_dumped: "length (fe_mac_address e) = 6 \<Longrightarrow> dumped L (sai_serialize_fdb_entry L e)"
  unfolding sai_serialize_fdb_entry_def by (rule entry_text_dumped) (simp_all add: field_prints)

interpretation fdbs: json_codec "sai_serialize_json_fdb_event_notification_data L"
    "sai_deserialize_json_fdb_event_notification_data L" "\<lambda>n. ntf_lib_ok L \<and> fdb_event_ok L n"
  for L :: "'x ntf_lib_scheme"
proof unfold_locales
  fix n :: sai_fdb_event_data
  assume ok: "ntf_lib_ok L \<and> fdb_event_ok L n"
  then have L: "text_lib_ok L" "dump_ascii L" and mac: "length (fe_mac_address (fv_fdb_entry n)) = 6"
    by (simp_all add: ntf_lib_ok_def fdb_event_ok_def attr_lib_okD(1))
  obtain t where t: "enum_text_field L EN_fdb_event (fv_event_type n) = Inr (JStr t)" "ascii t"
    "sai_deserialize_enum L t (Some (enum_table L EN_fdb_event)) = Inr (fv_event_type n)"
    by (rule enum_text_fieldE [OF L(1)])
  obtain e where e: "sai_serialize_fdb_entry L (fv_fdb_entry n) = Inr e" "ascii e" "sai_deserialize_fdb_entry L e = Inr (fv_fdb_entry n)"
    using fdb_entry_reads [OF L(1) mac] dumped_printed [OF L(2) fdb_entry_dumped [OF mac]] by (auto simp: reads_def printed_def)
  obtain js where js: "mapE (fdb_attr_item L) (fv_attr n) = Inr js" "mapE (fdb_attr_of_item L) js = Inr (fv_attr n)"
    "list_all json_wf js"
    using fdb_attrs.elements_roundtrip [of L "fv_attr n"] ok by (auto simp: list_all_iff fdb_event_ok_def)
  show "\<exists>j. sai_serialize_json_fdb_event_notification_data L n = Inr j \<and>
      sai_deserialize_json_fdb_event_notification_data L j = Inr n \<and> json_wf j"
    using t e js
    by (cases n) (simp add: sai_serialize_json_fdb_event_notification_data_def json_fields_def
        sai_deserialize_json_fdb_event_notification_data_def json_wf_object json_reads member_ctext_def)
qed

section \<open>The end of a bulk session\<close>

text \<open>Of the events of a session, which may come without an array, only the last that says it has finished is sent.\<close>

definition sai_serialize_flow_bulk_get_session_event_ntf :: "'x ntf_lib_scheme \<Rightarrow> oid \<Rightarrow> 32 word sai_list \<Rightarrow> fault + string" where
  "sai_serialize_flow_bulk_get_session_event_ntf L session_id data =
     (let arr = (case data of
                   Null_List n \<Rightarrow> Inr []
                 | Sai_List events \<Rightarrow>
                     (case find (\<lambda>e. e = event_finished L) (rev events) of
                        None \<Rightarrow> Inr []
                      | Some e \<Rightarrow>
                          bindE (entry_json [(''event_type'', sai_serialize_enum e (Some (enum_table L EN_flow_bulk_get_session_event)))])
                            (\<lambda>item. Inr [item])))
      in bindE (json_fields
           [(''bulk_session_id'', text_field (Inr (sai_serialize_object_id session_id))),
            (''data'', bindE arr (\<lambda>js. Inr (JArr js)))]) (\<lambda>j. Inr (json_dump L j)))"

definition flow_event_of_item :: "'x ntf_lib_scheme \<Rightarrow> json \<Rightarrow> fault + 32 word" where
  "flow_event_of_item L j =
     member_text j ''event_type'' (\<lambda>s. sai_deserialize_enum L s (Some (enum_table L EN_flow_bulk_get_session_event)))"

definition sai_deserialize_flow_bulk_get_session_event_ntf :: "'x ntf_lib_scheme \<Rightarrow> string \<Rightarrow> fault + oid \<times> 32 word list" where
  "sai_deserialize_flow_bulk_get_session_event_ntf L s =
     bindE (parse_json L s) (\<lambda>j.
     bindE (member_text j ''bulk_session_id'' sai_deserialize_object_id) (\<lambda>sid.
     bindE (json_at j ''data'') (\<lambda>arr.
     bindE (bindE (json_items arr) (mapE (flow_event_of_item L))) (\<lambda>events. Inr (sid, events)))))"

lemma find_value: "find (\<lambda>e. e = c) xs = (if c \<in> set xs then Some c else None)"
  by (induction xs) auto

lemma flow_bulk_read:
  assumes "text_lib_ok L"
  shows "reads (sai_serialize_flow_bulk_get_session_event_ntf L sid (Sai_List events))
    (sai_deserialize_flow_bulk_get_session_event_ntf L) (sid, if event_finished L \<in> set events then [event_finished L] else [])"
proof -
  have f: "find (\<lambda>e. e = event_finished L) (rev events) = (if event_finished L \<in> set events then Some (event_finished L) else None)"
    by (simp add: find_value)
  have "\<exists>j. entry_json [(''event_type'', sai_serialize_enum e (Some (enum_table L EN_flow_bulk_get_session_event)))] = Inr j \<and>
      flow_event_of_item L j = Inr e \<and> json_wf j" for e
    by (rule entry_json_reads) (use assms in \<open>simp_all add: flow_event_of_item_def member_text_def field_prints\<close>)
  then obtain j where "entry_json [(''event_type'', sai_serialize_enum (event_finished L) (Some (enum_table L EN_flow_bulk_get_session_event)))] = Inr j"
    "flow_event_of_item L j = Inr (event_finished L)" "json_wf j" by blast
  then show ?thesis
    by (simp add: reads_def sai_serialize_flow_bulk_get_session_event_ntf_def sai_deserialize_flow_bulk_get_session_event_ntf_def
        f json_fields_def json_wf_object json_reads member_text_def object_id_roundtrip parse_dump [OF text_lib_okD(2) [OF assms]])
qed

end
