(* ===== verification/Ser_Status.thy ===== *)
theory Ser_Status
  imports Ser_Ntf
begin

text \<open>
  Single objects of \<open>meta/SaiSerialize.cpp\<close>: the notifications of one switch, and the values of the attributes that
  sairedis adds to those of SAI.
\<close>

section \<open>Notifications of a switch\<close>

definition sai_serialize_switch_oper_status :: "'x text_lib_scheme \<Rightarrow> oid \<times> 32 word \<Rightarrow> fault + string" where
  "sai_serialize_switch_oper_status L n =
     entry_text L
       [(''switch_id'', Inr (sai_serialize_object_id (fst n))),
        (''status'', sai_serialize_enum (snd n) (Some (enum_table L EN_switch_oper_status)))]"

definition sai_deserialize_switch_oper_status :: "'x text_lib_scheme \<Rightarrow> string \<Rightarrow> fault + oid \<times> 32 word" where
  "sai_deserialize_switch_oper_status L s =
     bindE (parse_json L s) (\<lambda>j.
     bindE (member_text j ''switch_id'' sai_deserialize_object_id) (\<lambda>sw.
     bindE (member_text j ''status'' (\<lambda>s. sai_deserialize_enum L s (Some (enum_table L EN_switch_oper_status)))) (\<lambda>st.
       Inr (sw, st))))"

definition sai_serialize_switch_shutdown_request :: "'x text_lib_scheme \<Rightarrow> oid \<Rightarrow> fault + string" where
  "sai_serialize_switch_shutdown_request L sw = entry_text L [(''switch_id'', Inr (sai_serialize_object_id sw))]"

definition sai_deserialize_switch_shutdown_request :: "'x text_lib_scheme \<Rightarrow> string \<Rightarrow> fault + oid" where
  "sai_deserialize_switch_shutdown_request L s =
     bindE (parse_json L s) (\<lambda>j. member_text j ''switch_id'' sai_deserialize_object_id)"

definition sai_serialize_switch_macsec_post_status_ntf :: "'x text_lib_scheme \<Rightarrow> oid \<times> 32 word \<Rightarrow> fault + string" where
  "sai_serialize_switch_macsec_post_status_ntf L n =
     entry_text L
       [(''switch_id'', Inr (sai_serialize_object_id (fst n))),
        (''macsec_post_status'', sai_serialize_enum (snd n) (Some (enum_table L EN_switch_macsec_post_status)))]"

definition sai_deserialize_switch_macsec_post_status_ntf :: "'x text_lib_scheme \<Rightarrow> string \<Rightarrow> fault + oid \<times> 32 word" where
  "sai_deserialize_switch_macsec_post_status_ntf L s =
     bindE (parse_json L s) (\<lambda>j.
     bindE (member_text j ''switch_id'' sai_deserialize_object_id) (\<lambda>sw.
     bindE (member_text j ''macsec_post_status''
         (\<lambda>s. sai_deserialize_enum L s (Some (enum_table L EN_switch_macsec_post_status)))) (\<lambda>st.
       Inr (sw, st))))"

definition sai_serialize_macsec_post_status_ntf :: "'x text_lib_scheme \<Rightarrow> oid \<times> 32 word \<Rightarrow> fault + string" where
  "sai_serialize_macsec_post_status_ntf L n =
     entry_text L
       [(''macsec_id'', Inr (sai_serialize_object_id (fst n))),
        (''macsec_post_status'', sai_serialize_enum (snd n) (Some (enum_table L EN_macsec_post_status)))]"

definition sai_deserialize_macsec_post_status_ntf :: "'x text_lib_scheme \<Rightarrow> string \<Rightarrow> fault + oid \<times> 32 word" where
  "sai_deserialize_macsec_post_status_ntf L s =
     bindE (parse_json L s) (\<lambda>j.
     bindE (member_text j ''macsec_id'' sai_deserialize_object_id) (\<lambda>m.
     bindE (member_text j ''macsec_post_status''
         (\<lambda>s. sai_deserialize_enum L s (Some (enum_table L EN_macsec_post_status)))) (\<lambda>st.
       Inr (m, st))))"

named_theorems status_reads

lemma switch_oper_status_reads [status_reads]:
  assumes "text_lib_ok L"
  shows "reads (sai_serialize_switch_oper_status L n) (sai_deserialize_switch_oper_status L) n"
  unfolding sai_serialize_switch_oper_status_def sai_deserialize_switch_oper_status_def
  by (rule entry_text_reads) (use assms in \<open>simp_all add: member_text_def field_prints\<close>)

lemma switch_shutdown_request_reads [status_reads]:
  assumes "text_lib_ok L"
  shows "reads (sai_serialize_switch_shutdown_request L sw) (sai_deserialize_switch_shutdown_request L) sw"
  unfolding sai_serialize_switch_shutdown_request_def sai_deserialize_switch_shutdown_request_def
  by (rule entry_text_reads) (use assms in \<open>simp_all add: member_text_def field_prints\<close>)

lemma macsec_post_status_reads [status_reads]:
  assumes "text_lib_ok L"
  shows "reads (sai_serialize_switch_macsec_post_status_ntf L n) (sai_deserialize_switch_macsec_post_status_ntf L) n"
    "reads (sai_serialize_macsec_post_status_ntf L n) (sai_deserialize_macsec_post_status_ntf L) n"
  unfolding sai_serialize_switch_macsec_post_status_ntf_def sai_deserialize_switch_macsec_post_status_ntf_def
    sai_serialize_macsec_post_status_ntf_def sai_deserialize_macsec_post_status_ntf_def
  by (rule entry_text_reads; use assms in \<open>simp_all add: member_text_def field_prints\<close>)+

section \<open>Health of the switch\<close>

record sai_health_event =
  he_switch_id :: oid
  he_severity :: "32 word"
  he_tv_sec :: u64
  he_tv_nsec :: u32
  he_category :: "32 word"
  he_data_type :: "32 word"
  he_description :: "8 word sai_list"

definition sai_serialize_timespec :: "'x text_lib_scheme \<Rightarrow> u64 \<times> u32 \<Rightarrow> fault + string" where
  "sai_serialize_timespec L t =
     entry_text L
       [(''tv_sec'', Inr (sai_serialize_number False (fst t))), (''tv_nsec'', Inr (sai_serialize_number False (snd t)))]"

definition sai_deserialize_timespec :: "'x text_lib_scheme \<Rightarrow> string \<Rightarrow> fault + u64 \<times> u32" where
  "sai_deserialize_timespec L s =
     bindE (parse_json L s) (\<lambda>j.
     bindE (member_text j ''tv_sec'' (sai_deserialize_number False)) (\<lambda>sec.
     bindE (member_text j ''tv_nsec'' (sai_deserialize_number False)) (\<lambda>nsec. Inr (sec, nsec))))"

definition sai_serialize_switch_asic_sdk_health_event :: "'x text_lib_scheme \<Rightarrow> sai_health_event \<Rightarrow> fault + string" where
  "sai_serialize_switch_asic_sdk_health_event L h =
     entry_text L
       [(''switch_id'', Inr (sai_serialize_object_id (he_switch_id h))),
        (''severity'', sai_serialize_enum (he_severity h) (Some (enum_table L EN_switch_asic_sdk_health_severity))),
        (''timestamp'', sai_serialize_timespec L (he_tv_sec h, he_tv_nsec h)),
        (''category'', sai_serialize_enum (he_category h) (Some (enum_table L EN_switch_asic_sdk_health_category))),
        (''data.data_type'', sai_serialize_enum (he_data_type h) (Some (enum_table L EN_health_data_type))),
        (''description'', sai_serialize_number_list (he_description h) False False)]"

text \<open>The type of the data is read, and then replaced by \<open>SAI_HEALTH_DATA_TYPE_GENERAL\<close>.\<close>

definition sai_deserialize_switch_asic_sdk_health_event ::
  "'x text_lib_scheme \<Rightarrow> 32 word \<Rightarrow> string \<Rightarrow> fault + sai_health_event" where
  "sai_deserialize_switch_asic_sdk_health_event L general s =
     bindE (parse_json L s) (\<lambda>j.
     bindE (member_text j ''switch_id'' sai_deserialize_object_id) (\<lambda>sw.
     bindE (member_text j ''severity'' (\<lambda>s. sai_deserialize_enum L s (Some (enum_table L EN_switch_asic_sdk_health_severity)))) (\<lambda>sev.
     bindE (member_text j ''timestamp'' (sai_deserialize_timespec L)) (\<lambda>t.
     bindE (member_text j ''category'' (\<lambda>s. sai_deserialize_enum L s (Some (enum_table L EN_switch_asic_sdk_health_category)))) (\<lambda>cat.
     bindE (member_text j ''data.data_type'' (\<lambda>s. sai_deserialize_enum L s (Some (enum_table L EN_health_data_type)))) (\<lambda>ty.
     bindE (member_text j ''description'' (\<lambda>s. sai_deserialize_number_list L s False False)) (\<lambda>d.
       Inr \<lparr>he_switch_id = sw, he_severity = sev, he_tv_sec = fst t, he_tv_nsec = snd t, he_category = cat,
            he_data_type = general, he_description = d\<rparr>)))))))"

lemma timespec_reads:
  assumes "text_lib_ok L"
  shows "reads (sai_serialize_timespec L t) (sai_deserialize_timespec L) t" "dumped L (sai_serialize_timespec L t)"
  unfolding sai_serialize_timespec_def sai_deserialize_timespec_def
  by (rule entry_text_reads entry_text_dumped; use assms in \<open>simp_all add: member_text_def field_prints\<close>)+

text \<open>Everything but the type of the data comes back.\<close>

lemma health_event_reads:
  assumes "text_lib_ok L" "dump_ascii L" "short_list (he_description h)"
  shows "reads (sai_serialize_switch_asic_sdk_health_event L h) (sai_deserialize_switch_asic_sdk_health_event L general)
    (h\<lparr>he_data_type := general, he_description := list_norm (he_description h)\<rparr>)"
proof -
  obtain d where d: "sai_serialize_number_list (he_description h) False False = Inr d" "ascii d"
    "sai_deserialize_number_list L d False False = Inr (list_norm (he_description h))"
    by (rule number_list_roundtrip [OF text_lib_okD(1) [OF assms(1)] _ short_list_count(1) [OF assms(3)], of False])
      (simp_all add: plainD)
  note t = timespec_reads [OF assms(1), of "(he_tv_sec h, he_tv_nsec h)"]
  show ?thesis
    unfolding sai_serialize_switch_asic_sdk_health_event_def sai_deserialize_switch_asic_sdk_health_event_def
    by (cases h, rule entry_text_reads)
      (use assms d t in \<open>simp_all add: member_text_def field_prints dumped_printed reads_bind\<close>)
qed

section \<open>Attributes of sairedis\<close>

text \<open>\<open>sai_redis_notify_syncd_t\<close>, whose values the enum counts from 0, and the words for them.\<close>

definition sai_serialize_redis_notify_syncd :: "32 word \<Rightarrow> fault + string" where
  "sai_serialize_redis_notify_syncd value =
     (if value = 0 then Inr ''INIT_VIEW''
      else if value = 1 then Inr ''APPLY_VIEW''
      else if value = 2 then Inr ''SYNCD_INSPECT_ASIC''
      else if value = 3 then Inr ''SYNCD_INVOKE_DUMP''
      else Inl (Throw ''unknown value on sai_redis_notify_syncd_t''))"

definition sai_deserialize_redis_notify_syncd :: "string \<Rightarrow> fault + 32 word" where
  "sai_deserialize_redis_notify_syncd s =
     (if s = ''INIT_VIEW'' then Inr 0
      else if s = ''APPLY_VIEW'' then Inr 1
      else if s = ''SYNCD_INSPECT_ASIC'' then Inr 2
      else if s = ''SYNCD_INVOKE_DUMP'' then Inr 3
      else Inl (Throw ''enum not found in sai_redis_notify_syncd_t''))"

definition sai_serialize_redis_communication_mode :: "32 word \<Rightarrow> fault + string" where
  "sai_serialize_redis_communication_mode value =
     (if value = 0 then Inr ''redis_async''
      else if value = 1 then Inr ''redis_sync''
      else if value = 2 then Inr ''zmq_sync''
      else Inl (Throw ''unknown value on sai_redis_communication_mode_t''))"

definition sai_deserialize_redis_communication_mode :: "string \<Rightarrow> fault + 32 word" where
  "sai_deserialize_redis_communication_mode s =
     (if s = ''redis_async'' then Inr 0
      else if s = ''redis_sync'' then Inr 1
      else if s = ''zmq_sync'' then Inr 2
      else Inl (Throw ''enum not found in sai_redis_communication_mode_t''))"

lemma redis_words_reads [status_reads]:
  "sai_serialize_redis_notify_syncd v = Inr s \<longleftrightarrow> sai_deserialize_redis_notify_syncd s = Inr v"
  "sai_serialize_redis_communication_mode v = Inr s \<longleftrightarrow> sai_deserialize_redis_communication_mode s = Inr v"
  by (auto simp: sai_serialize_redis_notify_syncd_def sai_deserialize_redis_notify_syncd_def
      sai_serialize_redis_communication_mode_def sai_deserialize_redis_communication_mode_def split: if_splits)

text \<open>
  The tables of two entries, searched by the value, and by the name in any order. The start of the range for custom
  attributes is a constant of the SAI headers.
\<close>

definition damping_algorithm_to_name_map :: "(u32 \<times> string) list" where
  "damping_algorithm_to_name_map =
     [(0, ''SAI_REDIS_LINK_EVENT_DAMPING_ALGORITHM_DISABLED''), (1, ''SAI_REDIS_LINK_EVENT_DAMPING_ALGORITHM_AIED'')]"

definition redis_port_attr_to_name_map :: "u32 \<Rightarrow> (u32 \<times> string) list" where
  "redis_port_attr_to_name_map custom =
     [(custom, ''SAI_REDIS_PORT_ATTR_LINK_EVENT_DAMPING_ALGORITHM''),
      (custom + 1, ''SAI_REDIS_PORT_ATTR_LINK_EVENT_DAMPING_ALGO_AIED_CONFIG'')]"

definition name_or_number :: "(u32 \<times> string) list \<Rightarrow> u32 \<Rightarrow> string" where
  "name_or_number m v = (case map_of m v of Some n \<Rightarrow> n | None \<Rightarrow> sai_serialize_number False v)"

definition value_or_number :: "(u32 \<times> string) list \<Rightarrow> string \<Rightarrow> fault + u32" where
  "value_or_number m s =
     (case find (\<lambda>e. s = snd e) m of Some e \<Rightarrow> Inr (fst e) | None \<Rightarrow> sai_deserialize_number False s)"

definition sai_serialize_redis_port_attr_id :: "u32 \<Rightarrow> u32 \<Rightarrow> string" where
  "sai_serialize_redis_port_attr_id custom v = name_or_number (redis_port_attr_to_name_map custom) v"

definition sai_deserialize_redis_port_attr_id :: "u32 \<Rightarrow> string \<Rightarrow> fault + u32" where
  "sai_deserialize_redis_port_attr_id custom s = value_or_number (redis_port_attr_to_name_map custom) s"

definition sai_serialize_redis_link_event_damping_algorithm :: "u32 \<Rightarrow> string" where
  "sai_serialize_redis_link_event_damping_algorithm v = name_or_number damping_algorithm_to_name_map v"

definition sai_deserialize_redis_link_event_damping_algorithm :: "string \<Rightarrow> fault + u32" where
  "sai_deserialize_redis_link_event_damping_algorithm s = value_or_number damping_algorithm_to_name_map s"

lemma number_not_word: "CHR ''S'' \<notin> set (sai_serialize_number False v)"
proof
  assume "CHR ''S'' \<in> set (sai_serialize_number False v)"
  then obtain d where "d < 10" "CHR ''S'' = digit_char d"
    using print_nat_digits [of 10 "CHR ''S''" "unat v"] by (auto simp: sai_serialize_number_def)
  with decimal_char [of d] show False by simp
qed

lemma name_or_number_reads:
  assumes "distinct (map snd m)" "\<forall>e \<in> set m. CHR ''S'' \<in> set (snd e)"
  shows "value_or_number m (name_or_number m v) = Inr v"
proof (cases "map_of m v")
  case None
  have "find (\<lambda>e. sai_serialize_number False v = snd e) m = None"
    using assms(2) number_not_word [of v] by (auto simp: find_None_iff)
  with None show ?thesis by (simp add: name_or_number_def value_or_number_def number_roundtrip)
next
  case (Some n)
  then have "(v, n) \<in> set m" by (rule map_of_SomeD)
  with assms(1) have "find (\<lambda>e. n = snd e) m = Some (v, n)" by (induction m) (force)+
  with Some show ?thesis by (simp add: name_or_number_def value_or_number_def)
qed

lemma redis_names_read [status_reads]:
  "sai_deserialize_redis_port_attr_id custom (sai_serialize_redis_port_attr_id custom v) = Inr v"
  "sai_deserialize_redis_link_event_damping_algorithm (sai_serialize_redis_link_event_damping_algorithm v) = Inr v"
  by (simp_all add: sai_serialize_redis_port_attr_id_def sai_deserialize_redis_port_attr_id_def
      sai_serialize_redis_link_event_damping_algorithm_def sai_deserialize_redis_link_event_damping_algorithm_def
      name_or_number_reads redis_port_attr_to_name_map_def damping_algorithm_to_name_map_def)

record aied_config =
  ac_max_suppress_time :: u32
  ac_suppress_threshold :: u32
  ac_reuse_threshold :: u32
  ac_decay_half_life :: u32
  ac_flap_penalty :: u32

definition sai_serialize_redis_link_event_damping_aied_config :: "'x text_lib_scheme \<Rightarrow> aied_config \<Rightarrow> fault + string" where
  "sai_serialize_redis_link_event_damping_aied_config L v =
     entry_text L
       [(''max_suppress_time'', Inr (sai_serialize_number False (ac_max_suppress_time v))),
        (''suppress_threshold'', Inr (sai_serialize_number False (ac_suppress_threshold v))),
        (''reuse_threshold'', Inr (sai_serialize_number False (ac_reuse_threshold v))),
        (''decay_half_life'', Inr (sai_serialize_number False (ac_decay_half_life v))),
        (''flap_penalty'', Inr (sai_serialize_number False (ac_flap_penalty v)))]"

definition sai_deserialize_redis_link_event_damping_aied_config :: "'x text_lib_scheme \<Rightarrow> string \<Rightarrow> fault + aied_config" where
  "sai_deserialize_redis_link_event_damping_aied_config L s =
     bindE (parse_json L s) (\<lambda>j.
     bindE (member_text j ''max_suppress_time'' (sai_deserialize_number False)) (\<lambda>m.
     bindE (member_text j ''suppress_threshold'' (sai_deserialize_number False)) (\<lambda>st.
     bindE (member_text j ''reuse_threshold'' (sai_deserialize_number False)) (\<lambda>rt.
     bindE (member_text j ''decay_half_life'' (sai_deserialize_number False)) (\<lambda>d.
     bindE (member_text j ''flap_penalty'' (sai_deserialize_number False)) (\<lambda>f.
       Inr \<lparr>ac_max_suppress_time = m, ac_suppress_threshold = st, ac_reuse_threshold = rt, ac_decay_half_life = d,
            ac_flap_penalty = f\<rparr>))))))"

lemma aied_config_reads [status_reads]:
  assumes "text_lib_ok L"
  shows "reads (sai_serialize_redis_link_event_damping_aied_config L v) (sai_deserialize_redis_link_event_damping_aied_config L) v"
  unfolding sai_serialize_redis_link_event_damping_aied_config_def sai_deserialize_redis_link_event_damping_aied_config_def
  by (cases v, rule entry_text_reads) (use assms in \<open>simp_all add: member_text_def field_prints\<close>)

end
