(* ===== verification/Query_Demo.thy ===== *)
theory Query_Demo
  imports Ser_Demo Query_More Ser_Status
begin

text \<open>
  A concrete instance of what the conversions and the queries take from the libraries, on which the witnesses evaluate.
\<close>

section \<open>Entries and attributes\<close>

lemma demo_fields_ok: "text_lib.truncate L = demo_text \<Longrightarrow> text_lib_ok L"
  using demo_split_join
  by (auto simp: text_lib.truncate_def demo_text_def text_lib_ok_def tokens_ok_def json_ok_def inet6_ok_def demo_parse_dump
      demo_pton6_ntop6 demo_ntop6_chars demo_enum_ok)

lemma ascii_code: "ascii (code_nat n)" "ascii (code_int k)" "ascii s \<Longrightarrow> ascii (code_string s)"
  by (simp_all add: code_nat_def code_int_def code_string_def)

lemma ascii_concat: "list_all ascii ss \<Longrightarrow> ascii (concat ss)"
  by (induction ss) simp_all

lemma demo_dump_ascii: "json_wf j \<Longrightarrow> ascii (demo_json_dump j)"
proof (induction j)
  case (JArr js)
  then have "list_all ascii (map demo_json_dump js)" by (auto simp: list_all_iff)
  then show ?case by (simp add: ascii_code ascii_concat)
next
  case (JObj kvs)
  have "ascii (code_string k @ demo_json_dump v)" if "(k, v) \<in> set kvs" for k v
    using JObj that by (auto simp: list_all_iff ascii_code)
  then have "list_all ascii (map (\<lambda>(k, v). code_string k @ demo_json_dump v) kvs)" by (auto simp: list_all_iff)
  then show ?case by (simp add: ascii_code ascii_concat)
qed (simp_all add: ascii_code)

text \<open>One attribute of the object type 1: a number of 32 bits; no counters are flags.\<close>

definition demo_md :: ser_md where
  "demo_md = \<lparr>sm_type = T_UINT32, sm_enum = None, sm_size = (\<lambda>t. 0), sm_reserved = 0\<rparr>"

definition demo_attr_md :: "32 word \<Rightarrow> u32 \<Rightarrow> (string \<times> ser_md) option" where
  "demo_attr_md ty i =
     (if ty = 1 \<and> i = 1 then Some (''SAI_DEMO_ATTR'', demo_md)
      else if ty = 1 \<and> i = 2 then Some (''SAI_DEMO_SNR'', demo_md\<lparr>sm_type := T_PORT_SNR_LIST\<rparr>)
      else None)"

definition demo_attr_name :: "string \<Rightarrow> (u32 \<times> ser_md) option" where
  "demo_attr_name s =
     (if s = ''SAI_DEMO_ATTR'' then Some (1, demo_md)
      else if s = ''SAI_DEMO_SNR'' then Some (2, demo_md\<lparr>sm_type := T_PORT_SNR_LIST\<rparr>)
      else None)"

text \<open>The prefix of a route up to the quote.\<close>

definition demo_ser_prefix :: "sai_ip_prefix \<Rightarrow> string option" where
  "demo_ser_prefix p = (case sai_serialize_ip_prefix demo_text p of Inr s \<Rightarrow> Some s | Inl e \<Rightarrow> None)"

definition demo_des_prefix :: "string \<Rightarrow> (sai_ip_prefix \<times> nat) option" where
  "demo_des_prefix s =
     (let t = takeWhile (\<lambda>c. c \<noteq> quote) s
      in case sai_deserialize_ip_prefix demo_text t of Inr p \<Rightarrow> Some (p, length t) | Inl e \<Rightarrow> None)"

definition demo_query :: query_lib where
  "demo_query = \<lparr>tokenize = (\<lambda>s sep. demo_split sep s []), json_dump = demo_json_dump, json_parse = demo_parse,
     inet_ntop6 = demo_ntop6, inet_pton6 = demo_pton6, enum_table = demo_enum,
     attr_md = demo_attr_md, attr_by_name = demo_attr_name, ignored_attr_by_name = (\<lambda>s. None),
     md_ser_ip_prefix = demo_ser_prefix, md_ser_object_id = (\<lambda>oid. Some (sai_serialize_object_id oid)),
     md_des_ip_prefix = demo_des_prefix, md_char_allowed = (\<lambda>c. c = quote),
     entry_kind = (\<lambda>ty. if ty = 2 then Some KT_route else if ty = 3 then Some KT_nat else None), md_type_valid = (\<lambda>ty. ty < 4),
     md_type_nonobjectid = (\<lambda>ty. ty = 2 \<or> ty = 3),
     status_table = demo_enum EN_object_type, status_SUCCESS = 0, status_FAILURE = 1, status_INVALID_PARAMETER = 5,
     status_BUFFER_OVERFLOW = 3, stat_table = (\<lambda>ty. demo_enum EN_object_type)\<rparr>"

definition demo_ntf :: ntf_lib where
  "demo_ntf = \<lparr>tokenize = (\<lambda>s sep. demo_split sep s []), json_dump = demo_json_dump, json_parse = demo_parse,
     inet_ntop6 = demo_ntop6, inet_pton6 = demo_pton6, enum_table = demo_enum,
     attr_md = demo_attr_md, attr_by_name = demo_attr_name, ignored_attr_by_name = (\<lambda>s. None),
     type_fdb_entry = 1, event_finished = 1\<rparr>"

lemma demo_query_truncate: "text_lib.truncate demo_query = demo_text" "text_lib.truncate demo_ntf = demo_text"
  by (simp_all add: text_lib.truncate_def demo_query_def demo_ntf_def demo_text_def)

lemma demo_attrs_ok: "attr_lib_ok demo_query" "attr_lib_ok demo_ntf"
  unfolding attr_lib_ok_def
  by (simp_all add: demo_fields_ok demo_query_truncate)
    (simp_all add: demo_query_def demo_ntf_def demo_attr_md_def demo_attr_name_def demo_md_def split: if_splits)

lemma demo_ntf_ok: "ntf_lib_ok demo_ntf" "dump_ascii demo_ntf"
  by (simp_all add: ntf_lib_ok_def demo_attrs_ok dump_ascii_def) (simp_all add: demo_ntf_def demo_dump_ascii)

lemma print_byte_length: "n < 1000 \<Longrightarrow> length (print_nat 10 n) \<le> 3"
  using length_print_nat [of 10 n 2] by simp

lemma demo_ntop6_length: "length a = 16 \<Longrightarrow> length (demo_ntop6 a) = 39"
  by (auto dest!: length_16 simp: demo_ntop6_def hex_byte_def)

lemma prefix_chars:
  assumes "prefix_ok p" "sai_serialize_ip_prefix demo_text p = Inr s"
  shows "list_all (\<lambda>c. ip6_char c \<or> c = CHR ''/'') s" "length s \<le> 64"
proof -
  have digits: "list_all (\<lambda>c. ip6_char c \<or> c = CHR ''/'') (print_nat 10 n)" for n
    using print_nat_digits [of 10 _ n] by (fastforce simp: list_all_iff ip6_char_def hex_digit_char)
  have "list_all (\<lambda>c. ip6_char c \<or> c = CHR ''/'') s \<and> length s \<le> 64"
  proof (cases p)
    case (Prefix4 a m)
    with assms obtain n where n: "length a = 4" "n \<le> 32" "s = inet_ntop4 a @ ''/'' @ print_nat 10 n"
      by (auto simp: prefix_ok_def sai_serialize_ip_prefix_def sai_serialize_ipv4_def)
    have "list_all (\<lambda>c. ip6_char c \<or> c = CHR ''/'') (inet_ntop4 a)"
      using ntop4_chars [of _ a] by (fastforce simp: list_all_iff ip6_char_def hex_digit_char)
    moreover have "length (inet_ntop4 a) \<le> 15"
    proof -
      have b: "length (print_nat 10 (unat (x :: 8 word))) \<le> 3" for x
      proof (rule print_byte_length)
        have "unat x < 2 ^ 8" using unsigned_less [of x] by simp
        then show "unat x < 1000" by simp
      qed
      obtain w x y z where "a = [w, x, y, z]" using n(1) by (auto simp: numeral_eq_Suc length_Suc_conv)
      with b [of w] b [of x] b [of y] b [of z] show ?thesis by (simp add: inet_ntop4_def)
    qed
    ultimately show ?thesis using n digits [of n] print_byte_length [of n] by simp
  next
    case (Prefix6 a m)
    with assms obtain n where n: "length a = 16" "n \<le> 128" "s = demo_ntop6 a @ ''/'' @ print_nat 10 n"
      by (auto simp: prefix_ok_def sai_serialize_ip_prefix_def sai_serialize_ipv6_def demo_text_def)
    have "list_all (\<lambda>c. ip6_char c \<or> c = CHR ''/'') (demo_ntop6 a)"
      using demo_ntop6_chars [of a] by (auto simp: list_all_iff)
    then show ?thesis using n digits [of n] print_byte_length [of n] demo_ntop6_length [of a] by simp
  qed (use assms(1) in \<open>simp add: prefix_ok_def\<close>)
  then show "list_all (\<lambda>c. ip6_char c \<or> c = CHR ''/'') s" "length s \<le> 64" by blast+
qed

lemma prefix_plain: "list_all (\<lambda>c. ip6_char c \<or> c = CHR ''/'') s \<Longrightarrow> quote \<notin> set s \<and> CHR 0x00 \<notin> set s"
  by (auto simp: list_all_iff ip6_char_def quote_def hex_digit_def)

lemma demo_prefix:
  assumes "prefix_ok p"
  shows "\<exists>s. demo_ser_prefix p = Some s \<and> length s \<le> 64 \<and> CHR 0x00 \<notin> set s \<and>
    (\<forall>r. demo_des_prefix (s @ quote # r) = Some (p, length s))"
proof -
  obtain s where s: "sai_serialize_ip_prefix demo_text p = Inr s" "sai_deserialize_ip_prefix demo_text s = Inr p"
    by (rule ip_prefix_roundtrip [OF text_lib_okD(1,3) [OF demo_text_ok] assms])
  note c = prefix_chars [OF assms s(1)]
  have "\<forall>c \<in> set s. c \<noteq> quote" using prefix_plain [OF c(1)] by blast
  then have "takeWhile (\<lambda>c. c \<noteq> quote) (s @ quote # r) = s" for r by (simp add: takeWhile_append2)
  then show ?thesis using s c prefix_plain [OF c(1)]
    by (intro exI [of _ s]) (simp add: demo_ser_prefix_def demo_des_prefix_def Let_def)
qed

lemma demo_query_ok: "query_lib_ok demo_query"
proof -
  have "key_lib_ok demo_query"
    unfolding key_lib_ok_def using demo_prefix by (simp add: demo_fields_ok demo_query_truncate) (simp add: demo_query_def)
  moreover have "enum_ok (status_table demo_query)" "\<forall>ty. enum_ok (stat_table demo_query ty)"
    by (simp_all add: demo_query_def demo_enum_ok)
  moreover have "distinct [status_SUCCESS demo_query, status_FAILURE demo_query, status_INVALID_PARAMETER demo_query,
      status_BUFFER_OVERFLOW demo_query]"
    by (simp add: demo_query_def)
  ultimately show ?thesis by (simp add: query_lib_ok_def demo_attrs_ok)
qed

end
