(* ===== verification/Ser_Props.thy ===== *)
theory Ser_Props
  imports Query_Demo
begin

text \<open>
  The properties of the conversion to text and back, with instances on the libraries of theory \<open>Query_Demo\<close>.
\<close>

section \<open>Attributes\<close>

text \<open>
C12 A list of attributes that \<open>SaiAttributeList::serialize_attr_list\<close> prints is read back by the constructor of
  \<open>SaiAttributeList\<close> as the same attributes, for all types of \<open>sai_serialize_attr_value\<close>: neither side throws, no attribute
  is dropped, and the values are the same, but for null pointers in place of lists without elements, the order of the
  entries of lists by lane, and signal to noise ratios, which come back within 1/256 dB. The values (\<open>ser_value_ok\<close>) are
  those that can be printed and read: addresses and prefixes of a known family, masks of prefixes without holes (printing others
  throws), text that is zero after its end, binary data of the size of its type, fewer than \<open>2 ^ 31\<close> elements in a list, lists by
  lane whose entries are written and for different lanes, ratios other than the largest of the 16 bits, taps with
  the same, non-zero number of values each.
\<close>

theorem attribute_list_roundtrip:
  assumes "attr_lib_ok L" "list_all (attr_ok L ty) attrs"
  shows "\<exists>fvs bs. serialize_attr_list L ty attrs False = Inr fvs \<and> SaiAttributeList L ty fvs False = Inr bs \<and>
    list_all2 same_attr attrs bs"
  using attr_list_returns [OF assms] by blast

theorem attribute_list_roundtrip_witness:
  "\<exists>fvs bs. serialize_attr_list demo_query 1 [(1, V_u32 7), (2, V_portsnrlist (Sai_List [Some (3, 1000), Some (1, 0)]))] False = Inr fvs \<and>
    SaiAttributeList demo_query 1 fvs False = Inr bs \<and>
    list_all2 same_attr [(1, V_u32 7), (2, V_portsnrlist (Sai_List [Some (3, 1000), Some (1, 0)]))] bs"
proof (rule attribute_list_roundtrip)
  show "attr_lib_ok demo_query" by (rule demo_attrs_ok)
  show "list_all (attr_ok demo_query 1) [(1, V_u32 7), (2, V_portsnrlist (Sai_List [Some (3, 1000), Some (1, 0)]))]"
    by (simp add: attr_ok_def demo_query_def demo_attr_md_def demo_md_def ser_value_type_def ser_value_ok_def lanes_ok_def)
qed

section \<open>Keys\<close>

text \<open>
C13 \<open>sai_deserialize_object_meta_key\<close> reads every key \<open>sai_serialize_object_meta_key\<close> prints back as the same key: for
  object ids and for the 22 kinds of entries, routes included, whose text the code puts together in a buffer and
  takes apart itself.
\<close>

theorem object_meta_key_roundtrip:
  assumes "key_lib_ok L" "md_type_valid L (smk_objecttype mk)" "entry_key_ok (smk_objectkey mk)"
    and "entry_kind L (smk_objecttype mk) = key_kind_of (smk_objectkey mk)"
    and "key_kind_of (smk_objectkey mk) = None \<longrightarrow> \<not> md_type_nonobjectid L (smk_objecttype mk)"
  shows "\<exists>s. sai_serialize_object_meta_key L mk = Inr s \<and> sai_deserialize_object_meta_key L s = Inr mk"
  using object_meta_key_reads [OF assms(1-4)] assms(5) by (auto simp: reads_def)

definition demo_route :: ser_meta_key where
  "demo_route = \<lparr>smk_objecttype = 2, smk_objectkey =
     EK_route \<lparr>re_destination = Prefix4 [10, 0, 0, 0] [255, 0, 0, 0], re_switch_id = 0x21000000000000, re_vr_id = 0x3000000000022\<rparr>\<rparr>"

theorem object_meta_key_roundtrip_witness:
  "\<exists>s. sai_serialize_object_meta_key demo_query demo_route = Inr s \<and> sai_deserialize_object_meta_key demo_query s = Inr demo_route"
proof (rule object_meta_key_roundtrip)
  show "key_lib_ok demo_query" using demo_query_ok by (simp add: query_lib_ok_def)
  have "get_ip_mask [255, 0, 0, 0] False = Inr 8" by code_simp
  then show "entry_key_ok (smk_objectkey demo_route)"
    by (simp add: demo_route_def entry_key_ok_def prefix_ok_def)
qed (simp_all add: demo_route_def demo_query_def key_kind_of_def)

section \<open>Notifications\<close>

text \<open>
C36 The FDB events a switch reports reach the other side as they are: \<open>sai_deserialize_fdb_event_ntf\<close> reads the text
  of \<open>sai_serialize_fdb_event_ntf\<close> back as the same events with the same attributes, in the same order.
\<close>

theorem fdb_event_ntf_roundtrip:
  assumes "ntf_lib_ok L" "list_all (fdb_event_ok L) events"
  shows "\<exists>s. sai_serialize_fdb_event_ntf L (Sai_List events) = Inr s \<and> sai_deserialize_fdb_event_ntf L s = Inr events"
proof -
  have "json_ok L" using assms(1) attr_lib_okD(1) text_lib_okD(2) unfolding ntf_lib_ok_def by blast
  then show ?thesis
    using fdbs.array_reads [of L L events] assms
    by (auto simp: reads_def list_all_iff sai_serialize_fdb_event_ntf_def sai_deserialize_fdb_event_ntf_def)
qed

definition demo_event :: sai_fdb_event_data where
  "demo_event = \<lparr>fv_event_type = 1, fv_fdb_entry = \<lparr>fe_switch_id = 0x21000000000000, fe_mac_address = [0, 1, 2, 3, 4, 5], fe_bv_id = 0x26000000000001\<rparr>,
     fv_attr = [(1, V_u32 7)]\<rparr>"

theorem fdb_event_ntf_roundtrip_witness:
  "\<exists>s. sai_serialize_fdb_event_ntf demo_ntf (Sai_List [demo_event]) = Inr s \<and> sai_deserialize_fdb_event_ntf demo_ntf s = Inr [demo_event]"
proof (rule fdb_event_ntf_roundtrip)
  show "ntf_lib_ok demo_ntf" by (rule demo_ntf_ok)
  show "list_all (fdb_event_ok demo_ntf) [demo_event]"
    by (simp add: fdb_event_ok_def demo_event_def fdb_attr_ok_def by_lane_def)
      (simp add: demo_ntf_def demo_attr_md_def demo_md_def ser_value_type_def ser_value_ok_def ser_value_norm_def
        sai_serialize_attr_value_def dispatch_def)
qed

section \<open>Limits\<close>

text \<open>
The length of a prefix is read modulo 256, so \<open>sai_deserialize_ip_prefix\<close> takes a text with a length no address
  has, as 264, for the prefix of length 8.
\<close>

theorem ip_prefix_length_modulo:
  assumes "tokens_ok L" "length a = 4" "n < 2 ^ 64"
  shows "sai_deserialize_ip_prefix L (inet_ntop4 a @ ''/'' @ print_nat 10 n) =
     bindE (sai_populate_ip_mask (n mod 256) False) (\<lambda>m. Inr (Prefix4 a m))"
  by (rule prefix_length_wraps [OF assms])

theorem ip_prefix_length_modulo_witness:
  "sai_deserialize_ip_prefix demo_text (inet_ntop4 [10, 0, 0, 0] @ ''/'' @ print_nat 10 264) = Inr (Prefix4 [10, 0, 0, 0] [255, 0, 0, 0])"
proof -
  have "sai_populate_ip_mask 8 False = Inr [255, 0, 0, 0]" by code_simp
  then show ?thesis
    using ip_prefix_length_modulo [of demo_text "[10, 0, 0, 0]" 264] text_lib_okD(1) [OF demo_text_ok] by simp
qed

text \<open>
A signal to noise ratio of 16 bits is printed in hundredths of a 256th and comes back with an error of at most one, but
  the largest one comes back as \<open>2 ^ 16\<close>, which no longer fits.
\<close>

theorem snr_precision:
  "\<bar>snr_raw (snr_hundredths raw) - uint raw\<bar> \<le> 1 \<and> (snr_raw (snr_hundredths raw) = 2 ^ 16 \<longleftrightarrow> uint raw = 2 ^ 16 - 1)"
  using snr_error snr_largest by blast

end
