(* ===== verification/Query_Props.thy ===== *)
theory Query_Props
  imports Query_Demo
begin

text \<open>
  The properties of the queries over redis: what a caller of the client library gets is what the vendor answers to syncd.
\<close>

text \<open>
C14 \<open>RedisRemoteSaiInterface::queryStatsCapability\<close> with the handler of syncd at the other end is the call of the vendor:
  the caller gets the status, the count and the elements the vendor answers, zeros after them, the count alone after an
  overflow; it throws exactly when a counter or its modes do not fit a signed integer, which the code reads them as.
\<close>

theorem stats_query_remote:
  assumes "query_lib_ok L" "tr switchId = Inr rid" "length xs = unat room" "unat room < 2 ^ 31"
    "vendor_caps_ok L room (vendor rid ty room)"
  shows "queryStatsCapability L (Syncd_processStatsCapabilityQuery L tr vendor) switchId ty (Some (room, Some xs)) =
    (case vendor rid ty room of (st, n, ys) \<Rightarrow>
       if st = status_SUCCESS L \<and> \<not> list_all (\<lambda>c. small (fst c) \<and> small (snd c)) (take (unat n) ys)
       then Inl (Throw ''std::out_of_range'')
       else Inr (apsnd Some (answered L (0, 0) room (st, n, ys))))"
  using assms by (rule stats_query_direct)

theorem stats_query_remote_witness:
  "queryStatsCapability demo_query (Syncd_processStatsCapabilityQuery demo_query Inr (\<lambda>rid ty room. (0, 1, [(4, 3), (0, 0)]))) 7 1
      (Some (2, Some [(9, 9), (9, 9)])) = Inr (0, Some (1, Some [(4, 3), (0, 0)]))"
  using stats_query_remote [of demo_query Inr 7 7 "[(9, 9), (9, 9)]" 2 "\<lambda>rid ty room. (0, 1, [(4, 3), (0, 0)])" 1] demo_query_ok
  by (simp add: vendor_caps_ok_def small_def) (simp add: answered_def demo_query_def)

text \<open>
C15 \<open>RedisRemoteSaiInterface::getStats\<close> with \<open>Syncd::processGetStatsEvent\<close> at the other end is the call of the vendor
  for the real id: the caller gets the status, and after success the counters in the order it asked for them.
\<close>

theorem get_stats_remote:
  assumes "query_lib_ok L" "\<not> em_strict_flags (stat_table L ty)" "set ids \<subseteq> fst ` set (em_entries (stat_table L ty))"
    and "md_type_valid L ty" "entry_kind L ty = None" "\<not> md_type_nonobjectid L ty"
    and "\<not> created_in_view S (EK_object_id oid)" "sy_translate S (EK_object_id oid) = Inr (EK_object_id rid)"
    and "length (snd (vendor ty rid ids)) = length ids"
  shows "getStats L (processGetStatsEvent L S vendor) ty oid ids counters =
    (case vendor ty rid ids of (st, rs) \<Rightarrow> Inr (st, if st = status_SUCCESS L then rs else counters))"
proof -
  have "\<forall>i \<in> set ids. i \<in> fst ` set (em_entries (stat_table L ty))" using assms(3) by blast
  with assms show ?thesis by (intro get_stats_direct) auto
qed

definition demo_syncd :: stats_syncd where
  "demo_syncd = \<lparr>sy_init_view = True, sy_created_in_init_view = [5],
     sy_translate = (\<lambda>k. case k of EK_object_id oid \<Rightarrow> Inr (EK_object_id (oid + 1)) | _ \<Rightarrow> Inl (Throw ''unknown'')),
     sy_try_translate = (\<lambda>k. None), sy_INVALID_OBJECT_ID = 6, sy_union_oid = (\<lambda>k. 0)\<rparr>"

theorem get_stats_remote_witness:
  "getStats demo_query (processGetStatsEvent demo_query demo_syncd (\<lambda>ty rid ids. (0, map (\<lambda>i. ucast rid) ids))) 1 7 [1, 0] [0, 0] =
    Inr (0, [8, 8])"
  using get_stats_remote [of demo_query 1 "[1, 0]" demo_syncd 7 8 "\<lambda>ty rid ids. (0, map (\<lambda>i. ucast rid) ids)" "[0, 0]"] demo_query_ok
  by (simp add: demo_syncd_def created_in_view_def) (simp add: demo_query_def demo_enum_def c_str_def)

text \<open>
C40 A response that comes after the timeout of its call is taken for the response of the next call of the same command,
  and so on for all later ones: \<open>RedisChannel::wait\<close> looks at the command only. With \<open>k\<close> responses left over each call
  gets the response of the call \<open>k\<close> before it; with none it gets its own.
\<close>

theorem late_responses_shift:
  assumes "\<forall>m \<in> set (pending @ responses). kfv_op m = command"
  shows "calls L command pending responses = mapE (response_of L) (take (length responses) (pending @ responses))"
  by (rule calls_take [OF assms])

theorem late_responses_shift_witness:
  "calls demo_query ''getresponse'' [\<lparr>kfv_key = ''SAI_SECOND'', kfv_op = ''getresponse'', kfv_values = []\<rparr>]
     [\<lparr>kfv_key = ''SAI_FIRST'', kfv_op = ''getresponse'', kfv_values = [(''a'', ''1'')]\<rparr>] = Inr [(1, [])]"
proof -
  have "sai_deserialize_status demo_query ''SAI_SECOND'' = Inr 1"
    by (simp add: sai_deserialize_status_def sai_deserialize_enum_def) (simp add: demo_query_def demo_enum_def c_str_def)
  then show ?thesis
    using late_responses_shift [of "[\<lparr>kfv_key = ''SAI_SECOND'', kfv_op = ''getresponse'', kfv_values = []\<rparr>]"
        "[\<lparr>kfv_key = ''SAI_FIRST'', kfv_op = ''getresponse'', kfv_values = [(''a'', ''1'')]\<rparr>]" "''getresponse''" demo_query]
    by (simp add: response_of_def)
qed

end
