(* ===== verification/Damping.thy ===== *)
theory Damping
  imports Query_Caps Ser_Status
begin

text \<open>
  Link event damping in \<open>syncd/Syncd.cpp\<close>: changes of the state of a port that flaps are not sent to the client while a
  penalty that decays with time is high. The notification thread applies the algorithm to each change
  (\<open>applyLinkEventDamping\<close>), a timer thread ends the damping of ports whose time is over (\<open>checkDampedPortsTimeout\<close>), and the
  main loop sends the states the client has missed (\<open>processPendingDampingSync\<close>, \<open>flushPendingDampingNotifications\<close>).
  After the functions, the invariant of the state of a port, which each of them keeps.
\<close>

section \<open>State\<close>

text \<open>The row of a port in the table of counters of the state database; the code writes each field as text.\<close>

record damping_row =
  row_pre_transitions :: u64
  row_pre_up :: u64
  row_pre_down :: u64
  row_post_up :: u64
  row_post_down :: u64
  row_post_transitions :: u64
  row_active :: bool
  row_penalty :: u32
  row_start :: u64
  row_physical :: "32 word"
  row_advertised :: "32 word"

text \<open>\<open>LinkEventDampingPortState\<close>, with the row of the port in the state database at the end.\<close>

record damping_port =
  dp_algorithm :: "32 word"
  dp_config :: aied_config
  dp_penalty :: u32
  dp_last_transition :: u64
  dp_last_decay :: u64
  dp_start :: u64
  dp_active :: bool
  dp_physical :: "32 word"
  dp_advertised :: "32 word"
  dp_last_suppressed :: "32 word"
  dp_pending :: bool
  dp_pre_transitions :: u64
  dp_pre_up :: u64
  dp_pre_down :: u64
  dp_post_up :: u64
  dp_post_down :: u64
  dp_post_transitions :: u64
  dp_row :: "damping_row option"

text \<open>
  The values of \<open>sai_port_oper_status_t\<close> and the two expressions over doubles. \<open>de_decay\<close> is
  \<open>(uint32_t)(penalty * std::pow(0.5, elapsed / half_life))\<close> and \<open>de_ceiling\<close> is
  \<open>(uint32_t)(std::pow(2.0, max_suppress_time / half_life) * reuse_threshold)\<close>, \<open>None\<close> where the product does not fit
  32 bits and the cast is undefined. Nothing is assumed of how they round.
\<close>

record damping_env =
  de_UNKNOWN :: "32 word"
  de_UP :: "32 word"
  de_DOWN :: "32 word"
  de_decay :: "u32 \<Rightarrow> u64 \<Rightarrow> u32 \<Rightarrow> u32"
  de_ceiling :: "u32 \<Rightarrow> u32 \<Rightarrow> u32 \<Rightarrow> u32 option"

definition ALGORITHM_DISABLED :: "32 word" where
  "ALGORITHM_DISABLED = 0"

definition ALGORITHM_AIED :: "32 word" where
  "ALGORITHM_AIED = 1"

definition damping_port_new :: "damping_env \<Rightarrow> damping_port" where
  "damping_port_new E =
     \<lparr>dp_algorithm = ALGORITHM_DISABLED,
      dp_config = \<lparr>ac_max_suppress_time = 0, ac_suppress_threshold = 0, ac_reuse_threshold = 0, ac_decay_half_life = 0,
        ac_flap_penalty = 0\<rparr>,
      dp_penalty = 0, dp_last_transition = 0, dp_last_decay = 0, dp_start = 0, dp_active = False,
      dp_physical = de_UNKNOWN E, dp_advertised = de_UNKNOWN E, dp_last_suppressed = de_UNKNOWN E, dp_pending = False,
      dp_pre_transitions = 0, dp_pre_up = 0, dp_pre_down = 0, dp_post_up = 0, dp_post_down = 0, dp_post_transitions = 0,
      dp_row = None\<rparr>"

section \<open>The algorithm\<close>

definition writeDampingCountersToStateDb :: "damping_port \<Rightarrow> damping_port" where
  "writeDampingCountersToStateDb st = st\<lparr>dp_row := Some
     \<lparr>row_pre_transitions = dp_pre_transitions st, row_pre_up = dp_pre_up st, row_pre_down = dp_pre_down st,
      row_post_up = dp_post_up st, row_post_down = dp_post_down st, row_post_transitions = dp_post_transitions st,
      row_active = dp_active st, row_penalty = dp_penalty st, row_start = dp_start st,
      row_physical = dp_physical st, row_advertised = dp_advertised st\<rparr>\<rparr>"

text \<open>The time that has passed is a difference of unsigned numbers, so only zero stops the decay.\<close>

definition decayPenalty :: "damping_env \<Rightarrow> damping_port \<Rightarrow> u64 \<Rightarrow> damping_port" where
  "decayPenalty E st now =
     (if dp_penalty st = 0 then st
      else if ac_decay_half_life (dp_config st) = 0 then st
      else let base = (if dp_last_decay st = 0 then dp_last_transition st else dp_last_decay st);
               elapsed = now - base
           in if elapsed = 0 then st
              else let decayed = de_decay E (dp_penalty st) elapsed (ac_decay_half_life (dp_config st))
                   in if decayed < dp_penalty st then st\<lparr>dp_penalty := decayed, dp_last_decay := now\<rparr>
                      else if dp_last_decay st = 0 then st\<lparr>dp_last_decay := now\<rparr> else st)"

definition damping_config_valid :: "aied_config \<Rightarrow> bool" where
  "damping_config_valid c \<longleftrightarrow>
     \<not> (ac_decay_half_life c = 0 \<or> ac_max_suppress_time c = 0 \<or> ac_max_suppress_time c < ac_decay_half_life c) \<and>
     \<not> (ac_suppress_threshold c = 0 \<or> ac_reuse_threshold c = 0 \<or> ac_suppress_threshold c \<le> ac_reuse_threshold c)"

text \<open>The counters of a change, and the timer of a damping that is on, which a port that goes down starts again.\<close>

definition count_transition :: "damping_env \<Rightarrow> damping_port \<Rightarrow> 32 word \<Rightarrow> u64 \<Rightarrow> damping_port" where
  "count_transition E st newStatus now =
     (let st = st\<lparr>dp_pre_transitions := dp_pre_transitions st + 1\<rparr>
      in if newStatus = de_UP E then st\<lparr>dp_pre_up := dp_pre_up st + 1\<rparr>
         else if newStatus = de_DOWN E then
           (let st = st\<lparr>dp_pre_down := dp_pre_down st + 1\<rparr>
            in if dp_active st then st\<lparr>dp_start := now\<rparr> else st)
         else st)"

text \<open>The penalty for going down. The sum wraps around before it is compared with the ceiling.\<close>

definition add_penalty :: "damping_env \<Rightarrow> damping_port \<Rightarrow> fault + damping_port" where
  "add_penalty E st =
     (let c = dp_config st; p = dp_penalty st + ac_flap_penalty c
      in case de_ceiling E (ac_max_suppress_time c) (ac_decay_half_life c) (ac_reuse_threshold c) of
           None \<Rightarrow> Inl Signed_Overflow
         | Some ceiling \<Rightarrow> Inr (st\<lparr>dp_penalty := (if ceiling < p then ceiling else p)\<rparr>))"

definition enter_damping :: "damping_port \<Rightarrow> u64 \<Rightarrow> damping_port" where
  "enter_damping st now =
     (if ac_suppress_threshold (dp_config st) \<le> dp_penalty st \<and> \<not> dp_active st
      then st\<lparr>dp_active := True, dp_start := now\<rparr> else st)"

definition link_transition :: "damping_env \<Rightarrow> damping_port \<Rightarrow> 32 word \<Rightarrow> u64 \<Rightarrow> fault + damping_port" where
  "link_transition E st newStatus now =
     (let st = count_transition E st newStatus now
      in bindE (if dp_physical st = de_UP E \<and> newStatus = de_DOWN E then add_penalty E st else Inr st) (\<lambda>st.
           let st = st\<lparr>dp_physical := newStatus, dp_last_transition := now\<rparr>;
               st = (if dp_last_decay st = 0 then st\<lparr>dp_last_decay := now\<rparr> else st)
           in Inr (writeDampingCountersToStateDb (enter_damping st now))))"

text \<open>The end of a damping: a state the client has missed is marked.\<close>

definition leave_damping :: "damping_port \<Rightarrow> damping_port" where
  "leave_damping st =
     (let st = st\<lparr>dp_active := False, dp_start := 0\<rparr>
      in if dp_advertised st \<noteq> dp_physical st then st\<lparr>dp_pending := True\<rparr> else st)"

definition damping_exit :: "damping_port \<Rightarrow> u64 \<Rightarrow> damping_port" where
  "damping_exit st now =
     (let left = (let st' = leave_damping st in writeDampingCountersToStateDb (st'\<lparr>dp_advertised := dp_physical st'\<rparr>))
      in if dp_active st then
           if ucast (ac_max_suppress_time (dp_config st)) \<le> now - dp_start st then left
           else if dp_penalty st < ac_reuse_threshold (dp_config st) then left
           else st
         else st)"

definition propagate_event :: "damping_env \<Rightarrow> damping_port \<Rightarrow> 32 word \<Rightarrow> damping_port" where
  "propagate_event E st newStatus =
     (let st = (if newStatus = de_UP E then st\<lparr>dp_post_up := dp_post_up st + 1\<rparr>
                else if newStatus = de_DOWN E then st\<lparr>dp_post_down := dp_post_down st + 1\<rparr> else st);
          st = st\<lparr>dp_post_transitions := dp_post_transitions st + 1, dp_advertised := newStatus\<rparr>;
          st = (if dp_pending st \<and> newStatus = dp_physical st then st\<lparr>dp_pending := False\<rparr> else st)
      in writeDampingCountersToStateDb st)"

definition decide_suppress :: "damping_env \<Rightarrow> damping_port \<Rightarrow> bool \<Rightarrow> 32 word \<Rightarrow> u64 \<Rightarrow> bool \<times> damping_port" where
  "decide_suppress E st was_active newStatus now =
     (if dp_active st \<and> was_active then
        if now - dp_start st < ucast (ac_max_suppress_time (dp_config st))
        then (True, st\<lparr>dp_last_suppressed := newStatus\<rparr>) else (False, st)
      else (False, propagate_event E st newStatus))"

definition applyAiedAlgorithm :: "damping_env \<Rightarrow> damping_port \<Rightarrow> 32 word \<Rightarrow> u64 \<Rightarrow> fault + bool \<times> damping_port" where
  "applyAiedAlgorithm E st newStatus now =
     (if \<not> damping_config_valid (dp_config st) then Inr (False, st)
      else let st = decayPenalty E st now; was_active = dp_active st
           in bindE (if dp_physical st \<noteq> newStatus then link_transition E st newStatus now else Inr st) (\<lambda>st.
                Inr (decide_suppress E (damping_exit st now) was_active newStatus now)))"

section \<open>The ports\<close>

type_synonym damping_ports = "(oid \<times> damping_port) list"

definition applyLinkEventDamping :: "damping_env \<Rightarrow> damping_ports \<Rightarrow> oid \<Rightarrow> 32 word \<Rightarrow> u64 \<Rightarrow> fault + bool \<times> damping_ports" where
  "applyLinkEventDamping E ports portVid newStatus now =
     (case map_of ports portVid of
        None \<Rightarrow> Inr (False, ports)
      | Some st \<Rightarrow>
          if dp_algorithm st = ALGORITHM_AIED then
            bindE (applyAiedAlgorithm E st newStatus now) (\<lambda>(suppress, st'). Inr (suppress, AList.update portVid st' ports))
          else Inr (False, ports))"

definition check_damped_port :: "damping_env \<Rightarrow> damping_port \<Rightarrow> u64 \<Rightarrow> damping_port" where
  "check_damped_port E st now =
     (if \<not> dp_active st then st
      else if dp_algorithm st \<noteq> ALGORITHM_AIED then st
      else let st = decayPenalty E st now
           in if dp_penalty st < ac_reuse_threshold (dp_config st) then writeDampingCountersToStateDb (leave_damping st)
              else if ucast (ac_max_suppress_time (dp_config st)) \<le> now - dp_start st
              then writeDampingCountersToStateDb (leave_damping st)
              else st)"

definition checkDampedPortsTimeout :: "damping_env \<Rightarrow> damping_ports \<Rightarrow> u64 \<Rightarrow> damping_ports" where
  "checkDampedPortsTimeout E ports now = map (\<lambda>(vid, st). (vid, check_damped_port E st now)) ports"

text \<open>
  The ports, the batches of notifications the main loop has queued, and, as a history, the batches that were sent to the
  client.
\<close>

type_synonym port_batch = "(oid \<times> 32 word) list"

record damping_sys =
  ds_ports :: damping_ports
  ds_queue :: "port_batch list"
  ds_sent :: "port_batch list"

text \<open>
  \<open>NotificationProcessor::process_on_port_state_change\<close>: each change with the time at which the damping is applied to it;
  \<open>tr\<close> gives the virtual id of the port, null for a port that is not known. The text of the notification is that of theory
  \<open>Ser_Ntf\<close>.
\<close>

fun filter_changes :: "damping_env \<Rightarrow> (oid \<Rightarrow> oid) \<Rightarrow> (oid \<times> 32 word \<times> u64) list \<Rightarrow> damping_ports \<Rightarrow> fault + port_batch \<times> damping_ports" where
  "filter_changes E tr [] ports = Inr ([], ports)"
| "filter_changes E tr ((rid, state, now) # cs) ports =
     (let vid = tr rid
      in bindE (if vid \<noteq> 0 then applyLinkEventDamping E ports vid state now else Inr (False, ports)) (\<lambda>(suppress, ports).
         bindE (filter_changes E tr cs ports) (\<lambda>(ns, ports).
           Inr (if suppress then ns else (vid, state) # ns, ports))))"

definition process_on_port_state_change ::
  "damping_env \<Rightarrow> (oid \<Rightarrow> oid) \<Rightarrow> (oid \<times> 32 word \<times> u64) list \<Rightarrow> damping_sys \<Rightarrow> fault + damping_sys" where
  "process_on_port_state_change E tr data s =
     bindE (filter_changes E tr data (ds_ports s)) (\<lambda>(ns, ports).
       Inr (s\<lparr>ds_ports := ports, ds_sent := (if ns = [] then ds_sent s else ds_sent s @ [ns])\<rparr>))"

definition missed_states :: "damping_ports \<Rightarrow> port_batch" where
  "missed_states ports =
     map (\<lambda>(vid, st). (vid, dp_physical st))
       (filter (\<lambda>(vid, st). dp_pending st \<and> dp_advertised st \<noteq> dp_physical st) ports)"

definition processPendingDampingSync :: "damping_sys \<Rightarrow> damping_sys" where
  "processPendingDampingSync s =
     (let ns = missed_states (ds_ports s)
      in if ns = [] then s
         else s\<lparr>ds_queue := (if 1000 \<le> length (ds_queue s) then tl (ds_queue s) else ds_queue s) @ [ns]\<rparr>)"

definition mark_sent :: "oid \<times> 32 word \<Rightarrow> damping_ports \<Rightarrow> damping_ports" where
  "mark_sent n ports =
     (case map_of ports (fst n) of
        None \<Rightarrow> ports
      | Some st \<Rightarrow>
          AList.update (fst n) (writeDampingCountersToStateDb (st\<lparr>dp_pending := False, dp_advertised := snd n\<rparr>)) ports)"

text \<open>\<open>sends ns\<close>: whether printing and sending the batch \<open>ns\<close> does not throw.\<close>

fun flush_loop :: "(port_batch \<Rightarrow> bool) \<Rightarrow> port_batch list \<Rightarrow> damping_sys \<Rightarrow> damping_sys" where
  "flush_loop sends [] s = s"
| "flush_loop sends (ns # q) s =
     flush_loop sends q
       (if sends ns then s\<lparr>ds_sent := ds_sent s @ [ns], ds_ports := fold mark_sent ns (ds_ports s)\<rparr> else s)"

definition flushPendingDampingNotifications :: "(port_batch \<Rightarrow> bool) \<Rightarrow> damping_sys \<Rightarrow> damping_sys" where
  "flushPendingDampingNotifications sends s = flush_loop sends (ds_queue s) (s\<lparr>ds_queue := []\<rparr>)"

section \<open>The configuration\<close>

text \<open>
  The loop over the attributes. An unknown attribute leaves the status of the call at \<open>INVALID_PARAMETER\<close> only if it is the
  last one; no status the loop sets ends it.
\<close>

fun config_loop ::
  "'x text_lib_scheme \<Rightarrow> 32 word \<times> 32 word \<Rightarrow> u32 \<Rightarrow> (string \<times> string) list \<Rightarrow> 32 word \<Rightarrow> damping_port \<Rightarrow>
     (fault + 32 word) \<times> damping_port" where
  "config_loop L (success, invalid) custom [] r st = (Inr r, st)"
| "config_loop L (success, invalid) custom ((a, v) # fvs) r st =
     (case sai_deserialize_redis_port_attr_id custom a of
        Inl e \<Rightarrow> (Inl e, st)
      | Inr attrId \<Rightarrow>
          if attrId = custom then
            (case sai_deserialize_redis_link_event_damping_algorithm v of
               Inl e \<Rightarrow> (Inl e, st)
             | Inr algo \<Rightarrow> config_loop L (success, invalid) custom fvs success (st\<lparr>dp_algorithm := algo\<rparr>))
          else if attrId = custom + 1 then
            (case sai_deserialize_redis_link_event_damping_aied_config L v of
               Inl e \<Rightarrow> (Inl e, st)
             | Inr c \<Rightarrow> config_loop L (success, invalid) custom fvs success (st\<lparr>dp_config := c\<rparr>))
          else config_loop L (success, invalid) custom fvs invalid st)"

text \<open>The response, which is only sent in synchronous mode.\<close>

definition sendLinkEventDampingConfigResponse :: "'x query_lib_scheme \<Rightarrow> bool \<Rightarrow> 32 word \<Rightarrow> fault + message list" where
  "sendLinkEventDampingConfigResponse L sync st =
     (if \<not> sync then Inr [] else respond L st [] ''link_event_damping_config_set'')"

text \<open>\<open>port_type\<close> is \<open>SAI_OBJECT_TYPE_PORT\<close>; \<open>tr\<close> is \<open>tryTranslateVidToRid\<close>.\<close>

definition processLinkEventDampingConfigSet ::
  "'x query_lib_scheme \<Rightarrow> damping_env \<Rightarrow> bool \<Rightarrow> u32 \<Rightarrow> 32 word \<Rightarrow> (oid \<Rightarrow> oid option) \<Rightarrow> message \<Rightarrow> damping_ports \<Rightarrow>
     (fault + message list) \<times> damping_ports" where
  "processLinkEventDampingConfigSet L E sync custom port_type tr m ports =
     (case find_split (CHR '':'') (kfv_key m) of
        None \<Rightarrow> (sendLinkEventDampingConfigResponse L sync (status_INVALID_PARAMETER L), ports)
      | Some (strType, strId) \<Rightarrow>
          (case sai_deserialize_object_type L strType of
             Inl e \<Rightarrow> (Inl e, ports)
           | Inr ty \<Rightarrow>
               if ty \<noteq> port_type then (sendLinkEventDampingConfigResponse L sync (status_INVALID_PARAMETER L), ports)
               else (case sai_deserialize_object_id strId of
                       Inl e \<Rightarrow> (Inl e, ports)
                     | Inr vid \<Rightarrow>
                         if vid = 0 \<or> tr vid = None then (sendLinkEventDampingConfigResponse L sync (status_INVALID_PARAMETER L), ports)
                         else
                           let st = (case map_of ports vid of None \<Rightarrow> damping_port_new E | Some st \<Rightarrow> st)
                           in (case config_loop L (status_SUCCESS L, status_INVALID_PARAMETER L) custom (kfv_values m)
                                      (status_SUCCESS L) st of
                                 (r, st') \<Rightarrow> (bindE r (sendLinkEventDampingConfigResponse L sync), AList.update vid st' ports)))))"

text \<open>
  The client: \<open>RedisRemoteSaiInterface::setLinkEventDampingConfig\<close> and \<open>setRedisPortExtensionAttribute\<close>, with the handler
  \<open>serve\<close> of the other side. The attribute is its id, its number and the structure its pointer points to.
\<close>

definition setLinkEventDampingConfig ::
  "'x query_lib_scheme \<Rightarrow> bool \<Rightarrow> (message \<Rightarrow> 's \<Rightarrow> (fault + message list) \<times> 's) \<Rightarrow> 32 word \<Rightarrow> oid \<Rightarrow>
     (string \<times> string) list \<Rightarrow> 's \<Rightarrow> (fault + 32 word) \<times> 's" where
  "setLinkEventDampingConfig L sync serve ty oid fvs s =
     (case sai_serialize_object_type L ty of
        Inl e \<Rightarrow> (Inl e, s)
      | Inr t \<Rightarrow>
          (case serve \<lparr>kfv_key = t @ '':'' @ sai_serialize_object_id oid, kfv_op = ''link_event_damping_config_set'', kfv_values = fvs\<rparr> s of
             (r, s') \<Rightarrow>
               (bindE r (\<lambda>msgs.
                  if sync then bindE (channel_wait L ''link_event_damping_config_set'' msgs) (\<lambda>((st, fvs), rest). Inr st)
                  else Inr (status_SUCCESS L)), s')))"

record port_extension_attr =
  pe_id :: u32
  pe_s32 :: "32 word"
  pe_ptr :: "aied_config option"

definition setRedisPortExtensionAttribute ::
  "'x query_lib_scheme \<Rightarrow> u32 \<Rightarrow> bool \<Rightarrow> (message \<Rightarrow> 's \<Rightarrow> (fault + message list) \<times> 's) \<Rightarrow> 32 word \<Rightarrow> oid \<Rightarrow>
     port_extension_attr option \<Rightarrow> 's \<Rightarrow> (fault + 32 word) \<times> 's" where
  "setRedisPortExtensionAttribute L custom sync serve ty oid attr s =
     (case attr of
        None \<Rightarrow> (Inr (status_INVALID_PARAMETER L), s)
      | Some a \<Rightarrow>
          let name = sai_serialize_redis_port_attr_id custom (pe_id a)
          in if pe_id a = custom then
               setLinkEventDampingConfig L sync serve ty oid
                 [(name, sai_serialize_redis_link_event_damping_algorithm (pe_s32 a))] s
             else if pe_id a = custom + 1 then
               (case pe_ptr a of
                  None \<Rightarrow> (Inr (status_INVALID_PARAMETER L), s)
                | Some c \<Rightarrow>
                    (case sai_serialize_redis_link_event_damping_aied_config L c of
                       Inl e \<Rightarrow> (Inl e, s)
                     | Inr v \<Rightarrow> setLinkEventDampingConfig L sync serve ty oid [(name, v)] s))
             else (Inr (status_INVALID_PARAMETER L), s))"

text \<open>
  What a change of the state of a port does to its damping, and the invariant of a port with a valid configuration, which
  changes and the checks of the timer keep.
\<close>

named_theorems damping_defs

lemmas [damping_defs] = count_transition_def enter_damping_def leave_damping_def damping_exit_def propagate_event_def
  decide_suppress_def writeDampingCountersToStateDb_def Let_def

section \<open>What the parts of the algorithm change\<close>

lemma decay_keeps [simp]:
  "dp_algorithm (decayPenalty E st now) = dp_algorithm st" "dp_config (decayPenalty E st now) = dp_config st"
  "dp_start (decayPenalty E st now) = dp_start st" "dp_active (decayPenalty E st now) = dp_active st"
  "dp_physical (decayPenalty E st now) = dp_physical st" "dp_advertised (decayPenalty E st now) = dp_advertised st"
  "dp_pending (decayPenalty E st now) = dp_pending st"
  by (simp_all add: decayPenalty_def Let_def)

lemma decay_le: "dp_penalty (decayPenalty E st now) \<le> dp_penalty st"
  by (auto simp: decayPenalty_def Let_def intro: less_imp_le)

lemma write_keeps [simp]:
  "dp_algorithm (writeDampingCountersToStateDb st) = dp_algorithm st" "dp_config (writeDampingCountersToStateDb st) = dp_config st"
  "dp_penalty (writeDampingCountersToStateDb st) = dp_penalty st" "dp_start (writeDampingCountersToStateDb st) = dp_start st"
  "dp_active (writeDampingCountersToStateDb st) = dp_active st" "dp_physical (writeDampingCountersToStateDb st) = dp_physical st"
  "dp_advertised (writeDampingCountersToStateDb st) = dp_advertised st" "dp_pending (writeDampingCountersToStateDb st) = dp_pending st"
  by (simp_all add: writeDampingCountersToStateDb_def)

lemma count_keeps [simp]:
  "dp_algorithm (count_transition E st a now) = dp_algorithm st" "dp_config (count_transition E st a now) = dp_config st"
  "dp_penalty (count_transition E st a now) = dp_penalty st" "dp_active (count_transition E st a now) = dp_active st"
  "dp_physical (count_transition E st a now) = dp_physical st" "dp_advertised (count_transition E st a now) = dp_advertised st"
  "dp_pending (count_transition E st a now) = dp_pending st"
  "dp_start (count_transition E st a now) =
     (if dp_active st \<and> a \<noteq> de_UP E \<and> a = de_DOWN E then now else dp_start st)"
  by (simp_all add: count_transition_def Let_def)

lemma enter_keeps [simp]:
  "dp_algorithm (enter_damping st now) = dp_algorithm st" "dp_config (enter_damping st now) = dp_config st"
  "dp_penalty (enter_damping st now) = dp_penalty st" "dp_physical (enter_damping st now) = dp_physical st"
  "dp_advertised (enter_damping st now) = dp_advertised st" "dp_pending (enter_damping st now) = dp_pending st"
  "dp_active (enter_damping st now) \<longleftrightarrow> dp_active st \<or> ac_suppress_threshold (dp_config st) \<le> dp_penalty st"
  "dp_start (enter_damping st now) =
     (if ac_suppress_threshold (dp_config st) \<le> dp_penalty st \<and> \<not> dp_active st then now else dp_start st)"
  by (auto simp: enter_damping_def)

lemma add_penalty_form:
  "add_penalty E st = Inr st' \<Longrightarrow> \<exists>q. st' = st\<lparr>dp_penalty := q\<rparr>"
  by (auto simp: add_penalty_def Let_def split: option.splits)

text \<open>A change of state sets the penalty to some value and then does the same for every change.\<close>

definition settle :: "damping_port \<Rightarrow> 32 word \<Rightarrow> u64 \<Rightarrow> damping_port" where
  "settle st newStatus now =
     (let st = st\<lparr>dp_physical := newStatus, dp_last_transition := now\<rparr>
      in enter_damping (if dp_last_decay st = 0 then st\<lparr>dp_last_decay := now\<rparr> else st) now)"

lemma settle_keeps [simp]:
  "dp_algorithm (settle st a now) = dp_algorithm st" "dp_config (settle st a now) = dp_config st"
  "dp_penalty (settle st a now) = dp_penalty st" "dp_physical (settle st a now) = a"
  "dp_advertised (settle st a now) = dp_advertised st" "dp_pending (settle st a now) = dp_pending st"
  "dp_active (settle st a now) \<longleftrightarrow> dp_active st \<or> ac_suppress_threshold (dp_config st) \<le> dp_penalty st"
  "dp_start (settle st a now) =
     (if ac_suppress_threshold (dp_config st) \<le> dp_penalty st \<and> \<not> dp_active st then now else dp_start st)"
  by (auto simp: settle_def Let_def)

lemma transition_form:
  "link_transition E st newStatus now =
     bindE (if dp_physical st = de_UP E \<and> newStatus = de_DOWN E then add_penalty E (count_transition E st newStatus now)
            else Inr (count_transition E st newStatus now))
       (\<lambda>st. Inr (writeDampingCountersToStateDb (settle st newStatus now)))"
  by (simp add: link_transition_def settle_def Let_def)

lemma transition_settles:
  assumes "link_transition E st newStatus now = Inr st'"
  obtains q where "st' = writeDampingCountersToStateDb (settle ((count_transition E st newStatus now)\<lparr>dp_penalty := q\<rparr>) newStatus now)"
proof (cases "dp_physical st = de_UP E \<and> newStatus = de_DOWN E")
  case True
  with assms obtain s where "add_penalty E (count_transition E st newStatus now) = Inr s"
    and "st' = writeDampingCountersToStateDb (settle s newStatus now)"
    by (auto simp: transition_form bindE_def split: sum.splits)
  with add_penalty_form that show thesis by blast
next
  case False
  with assms have eq: "st' = writeDampingCountersToStateDb (settle (count_transition E st newStatus now) newStatus now)"
    by (auto simp: transition_form split: if_splits)
  have same: "(count_transition E st newStatus now)\<lparr>dp_penalty := dp_penalty st\<rparr> = count_transition E st newStatus now"
    by (simp add: damping_port.equality)
  show thesis by (rule that [of "dp_penalty st"]) (simp only: eq same)
qed

lemma transition_changes:
  assumes "link_transition E st newStatus now = Inr st'"
  shows "dp_algorithm st' = dp_algorithm st" "dp_config st' = dp_config st" "dp_physical st' = newStatus"
    "dp_advertised st' = dp_advertised st" "dp_pending st' = dp_pending st"
    "dp_active st' \<longleftrightarrow> dp_active st \<or> ac_suppress_threshold (dp_config st) \<le> dp_penalty st'"
    "dp_start st' = (if dp_active st' \<and> (\<not> dp_active st \<or> newStatus \<noteq> de_UP E \<and> newStatus = de_DOWN E) then now else dp_start st)"
proof -
  obtain q where "st' = writeDampingCountersToStateDb (settle ((count_transition E st newStatus now)\<lparr>dp_penalty := q\<rparr>) newStatus now)"
    by (rule transition_settles [OF assms])
  then show "dp_algorithm st' = dp_algorithm st" "dp_config st' = dp_config st" "dp_physical st' = newStatus"
    "dp_advertised st' = dp_advertised st" "dp_pending st' = dp_pending st"
    "dp_active st' \<longleftrightarrow> dp_active st \<or> ac_suppress_threshold (dp_config st) \<le> dp_penalty st'"
    "dp_start st' = (if dp_active st' \<and> (\<not> dp_active st \<or> newStatus \<noteq> de_UP E \<and> newStatus = de_DOWN E) then now else dp_start st)"
    by (simp, simp, simp, simp, simp, simp, auto)
qed

lemma transition_returns:
  assumes "de_ceiling E (ac_max_suppress_time (dp_config st)) (ac_decay_half_life (dp_config st)) (ac_reuse_threshold (dp_config st)) \<noteq> None"
  shows "\<exists>st'. link_transition E st newStatus now = Inr st'"
  using assms by (auto simp: transition_form add_penalty_def Let_def)

lemma exit_changes [simp]:
  "dp_algorithm (damping_exit st now) = dp_algorithm st" "dp_config (damping_exit st now) = dp_config st"
  "dp_physical (damping_exit st now) = dp_physical st" "dp_penalty (damping_exit st now) = dp_penalty st"
  by (simp_all add: damping_defs)

definition damping_over :: "damping_port \<Rightarrow> u64 \<Rightarrow> bool" where
  "damping_over st now \<longleftrightarrow> ucast (ac_max_suppress_time (dp_config st)) \<le> now - dp_start st \<or>
     dp_penalty st < ac_reuse_threshold (dp_config st)"

lemma exit_active: "dp_active (damping_exit st now) \<longleftrightarrow> dp_active st \<and> \<not> damping_over st now"
  by (simp add: damping_defs damping_over_def)

lemma exit_stays: "\<not> (dp_active st \<and> damping_over st now) \<Longrightarrow> damping_exit st now = st"
  by (auto simp: damping_exit_def damping_over_def Let_def)

lemma suppress_changes:
  "dp_algorithm (snd (decide_suppress E st was newStatus now)) = dp_algorithm st"
  "dp_config (snd (decide_suppress E st was newStatus now)) = dp_config st"
  "dp_physical (snd (decide_suppress E st was newStatus now)) = dp_physical st"
  "dp_active (snd (decide_suppress E st was newStatus now)) = dp_active st"
  "dp_start (snd (decide_suppress E st was newStatus now)) = dp_start st"
  "dp_penalty (snd (decide_suppress E st was newStatus now)) = dp_penalty st"
  by (simp_all add: damping_defs)

section \<open>One change\<close>

text \<open>The state of the port before the decision, and what comes out of it.\<close>

definition after_change :: "damping_env \<Rightarrow> damping_port \<Rightarrow> 32 word \<Rightarrow> u64 \<Rightarrow> fault + damping_port" where
  "after_change E st newStatus now =
     (let st = decayPenalty E st now in if dp_physical st \<noteq> newStatus then link_transition E st newStatus now else Inr st)"

lemma apply_after_change:
  "damping_config_valid (dp_config st) \<Longrightarrow>
   applyAiedAlgorithm E st newStatus now =
     bindE (after_change E st newStatus now) (\<lambda>st'. Inr (decide_suppress E (damping_exit st' now) (dp_active st) newStatus now))"
  by (simp add: applyAiedAlgorithm_def after_change_def Let_def)

lemma after_change_facts:
  assumes "after_change E st newStatus now = Inr st'"
  shows "dp_algorithm st' = dp_algorithm st" "dp_config st' = dp_config st" "dp_physical st' = newStatus"
    "dp_advertised st' = dp_advertised st" "dp_pending st' = dp_pending st" "dp_active st \<Longrightarrow> dp_active st'"
    "dp_start st' = dp_start st \<or> dp_start st' = now" "dp_active st' \<Longrightarrow> \<not> dp_active st \<Longrightarrow> dp_start st' = now"
  using assms transition_changes [of E "decayPenalty E st now" newStatus now st']
  by (auto simp: after_change_def Let_def split: if_splits)

text \<open>The penalty after a change, and when the change starts the damping.\<close>

lemma transition_penalty:
  assumes "link_transition E st newStatus now = Inr st'"
    and "de_ceiling E (ac_max_suppress_time (dp_config st)) (ac_decay_half_life (dp_config st)) (ac_reuse_threshold (dp_config st)) = Some k"
    and "dp_penalty st \<le> k"
  shows "dp_penalty st' \<le> k"
  using assms by (auto simp: transition_form add_penalty_def Let_def split: if_splits)

lemma after_change_penalty:
  assumes "after_change E st newStatus now = Inr st'"
    and "de_ceiling E (ac_max_suppress_time (dp_config st)) (ac_decay_half_life (dp_config st)) (ac_reuse_threshold (dp_config st)) = Some k"
    and "dp_penalty st \<le> k"
  shows "dp_penalty st' \<le> k"
proof -
  have "dp_penalty (decayPenalty E st now) \<le> k" using decay_le assms(3) by (rule order_trans)
  with assms transition_penalty [of E "decayPenalty E st now" newStatus now st' k] show ?thesis
    by (auto simp: after_change_def Let_def split: if_splits)
qed

lemma after_change_enters:
  assumes "after_change E st newStatus now = Inr st'" "\<not> dp_active st" "dp_active st'"
  shows "ac_suppress_threshold (dp_config st) \<le> dp_penalty st'"
  using assms transition_changes(6) [of E "decayPenalty E st now" newStatus now st']
  by (auto simp: after_change_def Let_def split: if_splits)

section \<open>The invariant of a port\<close>

text \<open>
  The port has the algorithm and the configuration \<open>c\<close>; while it is damped the timer has started and no state waits to be
  sent; and a state the client has not been told is either suppressed at the moment or waits to be sent.
\<close>

definition damping_ok :: "aied_config \<Rightarrow> u64 \<Rightarrow> damping_port \<Rightarrow> bool" where
  "damping_ok c t st \<longleftrightarrow>
     dp_algorithm st = ALGORITHM_AIED \<and> dp_config st = c \<and> (dp_active st \<longrightarrow> dp_start st \<le> t \<and> \<not> dp_pending st) \<and>
     (dp_advertised st \<noteq> dp_physical st \<longrightarrow> dp_active st \<or> dp_pending st)"

lemma damping_ok_later: "damping_ok c t st \<Longrightarrow> t \<le> now \<Longrightarrow> damping_ok c now st"
  by (auto simp: damping_ok_def)

lemma exit_then_decide:
  "\<not> dp_active st \<or> \<not> was \<Longrightarrow> decide_suppress E st was newStatus now = (False, propagate_event E st newStatus)"
  by (auto simp: decide_suppress_def)

lemma propagate_changes [simp]:
  "dp_algorithm (propagate_event E st a) = dp_algorithm st" "dp_config (propagate_event E st a) = dp_config st"
  "dp_start (propagate_event E st a) = dp_start st" "dp_active (propagate_event E st a) = dp_active st"
  "dp_physical (propagate_event E st a) = dp_physical st" "dp_advertised (propagate_event E st a) = a"
  "dp_penalty (propagate_event E st a) = dp_penalty st"
  "dp_pending (propagate_event E st a) \<longleftrightarrow> dp_pending st \<and> a \<noteq> dp_physical st"
  by (auto simp: damping_defs)

text \<open>
  A change is suppressed exactly when the port was damped before it and is not over the time or below the threshold after
  it; then the client is told nothing. Otherwise the client is told the new state.
\<close>

lemma apply_result:
  assumes "damping_config_valid (dp_config st)" "after_change E st newStatus now = Inr st'"
  shows "applyAiedAlgorithm E st newStatus now =
    Inr (if dp_active st \<and> \<not> damping_over st' now then (True, st'\<lparr>dp_last_suppressed := newStatus\<rparr>)
         else (False, propagate_event E (damping_exit st' now) newStatus))"
proof (cases "dp_active st \<and> \<not> damping_over st' now")
  case True
  then have "dp_active st'" using after_change_facts(6) [OF assms(2)] by blast
  moreover have "damping_exit st' now = st'" using True by (simp add: exit_stays)
  moreover have "now - dp_start st' < ucast (ac_max_suppress_time (dp_config st'))" using True by (auto simp: damping_over_def)
  ultimately show ?thesis using assms True by (simp add: apply_after_change decide_suppress_def)
next
  case False
  then have "\<not> dp_active (damping_exit st' now) \<or> \<not> dp_active st" by (auto simp: exit_active)
  with False show ?thesis using assms by (simp add: apply_after_change exit_then_decide)
qed

lemma exit_pending:
  "dp_active st \<Longrightarrow> \<not> dp_pending st \<Longrightarrow> dp_pending (damping_exit st now) \<Longrightarrow> damping_over st now"
  by (auto simp: damping_defs damping_over_def split: if_splits)

lemma exit_start: "dp_active (damping_exit st now) \<Longrightarrow> dp_start (damping_exit st now) = dp_start st"
  by (auto simp: exit_active exit_stays)

lemma apply_keeps:
  assumes "damping_config_valid c" "damping_ok c t st" "t \<le> now" "applyAiedAlgorithm E st newStatus now = Inr (suppress, st')"
  shows "damping_ok c now st'" "dp_physical st' = newStatus"
    "dp_advertised st' = (if suppress then dp_advertised st else newStatus)" "suppress \<Longrightarrow> dp_active st \<and> dp_active st'"
proof -
  have c: "dp_config st = c" "dp_algorithm st = ALGORITHM_AIED" using assms(2) by (simp_all add: damping_ok_def)
  obtain s where s: "after_change E st newStatus now = Inr s"
    using assms(1,4) c by (cases "after_change E st newStatus now") (simp_all add: apply_after_change)
  note f = after_change_facts [OF s]
  have r: "(suppress, st') = (if dp_active st \<and> \<not> damping_over s now then (True, s\<lparr>dp_last_suppressed := newStatus\<rparr>)
      else (False, propagate_event E (damping_exit s now) newStatus))"
    using apply_result [OF _ s] assms(1,4) c by simp
  have start: "dp_start s \<le> now" if "dp_active s"
    using that assms(2,3) f(7,8) by (auto simp: damping_ok_def)
  have "damping_ok c now st' \<and> dp_physical st' = newStatus \<and>
    dp_advertised st' = (if suppress then dp_advertised st else newStatus) \<and> (suppress \<longrightarrow> dp_active st \<and> dp_active st')"
  proof (cases "dp_active st \<and> \<not> damping_over s now")
    case True
    with r f start assms(2) c show ?thesis by (auto simp: damping_ok_def)
  next
    case False
    with r f start c show ?thesis by (auto simp: damping_ok_def exit_start exit_active)
  qed
  then show "damping_ok c now st'" "dp_physical st' = newStatus"
    "dp_advertised st' = (if suppress then dp_advertised st else newStatus)" "suppress \<Longrightarrow> dp_active st \<and> dp_active st'"
    by auto
qed

lemma check_keeps:
  assumes "damping_ok c t st" "t \<le> now"
  shows "damping_ok c now (check_damped_port E st now)" "dp_physical (check_damped_port E st now) = dp_physical st"
    "dp_advertised (check_damped_port E st now) = dp_advertised st"
    "ucast (ac_max_suppress_time c) \<le> now - dp_start st \<Longrightarrow> \<not> dp_active (check_damped_port E st now)"
    "\<not> dp_active st \<Longrightarrow> check_damped_port E st now = st"
  using assms by (auto simp: check_damped_port_def damping_ok_def leave_damping_def Let_def)

end
