(* ===== verification/Damping_Run.thy ===== *)
theory Damping_Run
  imports Damping Query_Correct
begin

text \<open>
  Runs of the damping: changes of ports, checks of the timer and rounds of the main loop, in any order, with times that do
  not go back. Every run keeps the invariant of a port with a valid configuration, knows what the client was told last, and
  does not fault where the ceiling of the penalty fits 32 bits. A batch of changes with the send of its notification, a check
  and a round of the main loop are one step each: the code holds no lock from the first to the second half of a round nor from
  a change to its send, and what can come between is stated separately, by \<open>stale_flush_sticks\<close> of theory \<open>Damping_Props\<close>. The
  configuration of the ports does not change in a run.
\<close>

section \<open>Runs\<close>

datatype damping_step = Changes "(oid \<times> 32 word \<times> u64) list" | Check u64 | Main "port_batch \<Rightarrow> bool"

text \<open>A round of the main loop calls the two functions one after the other.\<close>

definition main_round :: "(port_batch \<Rightarrow> bool) \<Rightarrow> damping_sys \<Rightarrow> damping_sys" where
  "main_round sends s = flushPendingDampingNotifications sends (processPendingDampingSync s)"

fun take_step :: "damping_env \<Rightarrow> (oid \<Rightarrow> oid) \<Rightarrow> damping_step \<Rightarrow> damping_sys \<Rightarrow> fault + damping_sys" where
  "take_step E tr (Changes data) s = process_on_port_state_change E tr data s"
| "take_step E tr (Check now) s = Inr (s\<lparr>ds_ports := checkDampedPortsTimeout E (ds_ports s) now\<rparr>)"
| "take_step E tr (Main sends) s = Inr (main_round sends s)"

fun damping_run :: "damping_env \<Rightarrow> (oid \<Rightarrow> oid) \<Rightarrow> damping_step list \<Rightarrow> damping_sys \<Rightarrow> fault + damping_sys" where
  "damping_run E tr [] s = Inr s"
| "damping_run E tr (x # xs) s = bindE (take_step E tr x s) (damping_run E tr xs)"

fun step_times :: "damping_step \<Rightarrow> u64 list" where
  "step_times (Changes data) = map (\<lambda>(rid, state, now). now) data"
| "step_times (Check now) = [now]"
| "step_times (Main sends) = []"

definition run_times :: "damping_step list \<Rightarrow> u64 list" where
  "run_times xs = concat (map step_times xs)"

text \<open>What the client was told last of a port, and the last state the vendor reported of it.\<close>

definition told :: "oid \<Rightarrow> port_batch list \<Rightarrow> 32 word option" where
  "told v sent = map_of (rev (concat sent)) v"

definition step_reports :: "(oid \<Rightarrow> oid) \<Rightarrow> damping_step \<Rightarrow> (oid \<times> 32 word) list" where
  "step_reports tr x = (case x of Changes data \<Rightarrow> map (\<lambda>(rid, state, now). (tr rid, state)) data | _ \<Rightarrow> [])"

definition reported :: "(oid \<Rightarrow> oid) \<Rightarrow> oid \<Rightarrow> damping_step list \<Rightarrow> 32 word option" where
  "reported tr v xs = map_of (rev (concat (map (step_reports tr) xs))) v"

lemma told_simps [simp]:
  "told v [] = None" "told v (sent @ [ns]) = (case map_of (rev ns) v of None \<Rightarrow> told v sent | Some a \<Rightarrow> Some a)"
  by (auto simp: told_def map_add_def split: option.splits)

definition informed :: "oid \<Rightarrow> port_batch list \<Rightarrow> damping_port \<Rightarrow> bool" where
  "informed v sent st \<longleftrightarrow>
     (case told v sent of
        None \<Rightarrow> dp_advertised st = dp_physical st \<and> \<not> dp_active st \<and> \<not> dp_pending st
      | Some a \<Rightarrow> dp_advertised st = a)"

subsection \<open>Changes\<close>

lemma apply_one:
  assumes "damping_config_valid c" "damping_ok c t st" "t \<le> now" "map_of ports v = Some st"
    and "applyLinkEventDamping E ports v state now = Inr (suppress, ports')"
  shows "\<exists>st'. map_of ports' v = Some st' \<and> applyAiedAlgorithm E st state now = Inr (suppress, st') \<and>
    ports' = AList.update v st' ports"
  using assms by (auto simp: applyLinkEventDamping_def damping_ok_def bindE_def split: sum.splits prod.splits)

lemma apply_other:
  assumes "applyLinkEventDamping E ports u state now = Inr (suppress, ports')" "v \<noteq> u"
  shows "map_of ports' v = map_of ports v"
  using assms by (auto simp: applyLinkEventDamping_def bindE_def split: option.splits sum.splits if_splits prod.splits)

lemma filter_changes_ok:
  assumes "damping_config_valid c" "v \<noteq> 0" "filter_changes E tr cs ports = Inr (ns, ports')"
    and "sorted (t # map (\<lambda>(rid, state, now). now) cs)" "map_of ports v = Some st" "damping_ok c t st"
  shows "\<exists>st'. map_of ports' v = Some st' \<and> damping_ok c (last (t # map (\<lambda>(rid, state, now). now) cs)) st' \<and>
    (case map_of (rev ns) v of None \<Rightarrow> dp_advertised st' = dp_advertised st \<and>
         (\<not> dp_active st \<longrightarrow> st' = st \<and> map_of (rev (map (\<lambda>(rid, state, now). (tr rid, state)) cs)) v = None)
       | Some a \<Rightarrow> dp_advertised st' = a) \<and>
    dp_physical st' = (case map_of (rev (map (\<lambda>(rid, state, now). (tr rid, state)) cs)) v of None \<Rightarrow> dp_physical st | Some a \<Rightarrow> a)"
  using assms(3-)
proof (induction cs arbitrary: ports ns t st)
  case Nil
  then show ?case by auto
next
  case (Cons x cs)
  obtain rid state now where x: "x = (rid, state, now)" by (cases x)
  obtain suppress ports1 ns1 where one: "(if tr rid \<noteq> 0 then applyLinkEventDamping E ports (tr rid) state now else Inr (False, ports)) =
      Inr (suppress, ports1)"
    and rest: "filter_changes E tr cs ports1 = Inr (ns1, ports')"
    and ns: "ns = (if suppress then ns1 else (tr rid, state) # ns1)"
    using Cons.prems(1) by (auto simp: x Let_def bindE_def split: sum.splits prod.splits if_splits)
  have times: "t \<le> now" "sorted (now # map (\<lambda>(rid, state, now). now) cs)" using Cons.prems(2) by (auto simp: x)
  show ?case
  proof (cases "tr rid = v")
    case True
    with one assms(2) have ap: "applyLinkEventDamping E ports v state now = Inr (suppress, ports1)" by simp
    from apply_one [OF assms(1) Cons.prems(4) times(1) Cons.prems(3) ap]
    obtain st1 where st1: "map_of ports1 v = Some st1" "applyAiedAlgorithm E st state now = Inr (suppress, st1)" by blast
    note k = apply_keeps [OF assms(1) Cons.prems(4) times(1) st1(2)]
    from Cons.IH [OF rest times(2) st1(1) k(1)] obtain st' where
      st': "map_of ports' v = Some st'" "damping_ok c (last (now # map (\<lambda>(rid, state, now). now) cs)) st'"
      "case map_of (rev ns1) v of None \<Rightarrow> dp_advertised st' = dp_advertised st1 \<and>
          (\<not> dp_active st1 \<longrightarrow> st' = st1 \<and> map_of (rev (map (\<lambda>(rid, state, now). (tr rid, state)) cs)) v = None)
        | Some a \<Rightarrow> dp_advertised st' = a"
      "dp_physical st' = (case map_of (rev (map (\<lambda>(rid, state, now). (tr rid, state)) cs)) v of None \<Rightarrow> dp_physical st1 | Some a \<Rightarrow> a)"
      by blast
    then show ?thesis using k(2-4) True
      by (auto simp: x ns map_add_def split: option.splits)
  next
    case False
    have "map_of ports1 v = Some st"
      using one False apply_other [of E ports "tr rid" state now suppress ports1 v] Cons.prems(3) by (auto split: if_splits)
    from Cons.IH [OF rest times(2) this damping_ok_later [OF Cons.prems(4) times(1)]] False show ?thesis
      by (auto simp: x ns map_add_def split: option.splits)
  qed
qed

subsection \<open>Rounds of the main loop\<close>

lemma mark_sent_map_of:
  "map_of (mark_sent n ports) v =
     (if v = fst n then map_option (\<lambda>st. writeDampingCountersToStateDb (st\<lparr>dp_pending := False, dp_advertised := snd n\<rparr>)) (map_of ports v)
      else map_of ports v)"
  by (auto simp: mark_sent_def split: option.splits)

lemma mark_sent_keys: "distinct (map fst ports) \<Longrightarrow> distinct (map fst (mark_sent n ports))"
  by (auto simp: mark_sent_def distinct_update split: option.splits)

lemma fold_mark_sent_other: "v \<notin> fst ` set ns \<Longrightarrow> map_of (fold mark_sent ns ports) v = map_of ports v"
  by (induction ns arbitrary: ports) (auto simp: mark_sent_map_of)

lemma fold_mark_sent:
  "distinct (map fst ns) \<Longrightarrow> map_of ns v = Some a \<Longrightarrow>
   map_of (fold mark_sent ns ports) v =
     map_option (\<lambda>st. writeDampingCountersToStateDb (st\<lparr>dp_pending := False, dp_advertised := a\<rparr>)) (map_of ports v)"
proof (induction ns arbitrary: ports)
  case (Cons n ns)
  show ?case
  proof (cases "fst n = v")
    case True
    with Cons.prems have "v \<notin> fst ` set ns" "snd n = a" by (cases n; auto)+
    then show ?thesis by (simp add: fold_mark_sent_other mark_sent_map_of True)
  next
    case False
    with Cons show ?thesis by (cases n) (simp add: mark_sent_map_of)
  qed
qed simp

lemma fold_mark_sent_keys: "distinct (map fst ports) \<Longrightarrow> distinct (map fst (fold mark_sent ns ports))"
  by (induction ns arbitrary: ports) (auto simp: mark_sent_keys)

lemma missed_map_of:
  assumes "distinct (map fst ports)"
  shows "map_of (missed_states ports) v =
    (case map_of ports v of None \<Rightarrow> None
     | Some st \<Rightarrow> if dp_pending st \<and> dp_advertised st \<noteq> dp_physical st then Some (dp_physical st) else None)"
  using assms
proof (induction ports)
  case (Cons p ports)
  have "map_of ports (fst p) = None" using Cons.prems by (simp add: map_of_eq_None_iff)
  with Cons show ?case by (cases p) (auto simp: missed_states_def)
qed (simp add: missed_states_def)

lemma missed_distinct: "distinct (map fst ports) \<Longrightarrow> distinct (map fst (missed_states ports))"
  unfolding missed_states_def by (induction ports) (auto simp: split_beta)

lemma main_round_eq:
  assumes "ds_queue s = []"
  shows "main_round sends s =
    (let ns = missed_states (ds_ports s)
     in if ns = [] \<or> \<not> sends ns then s
        else s\<lparr>ds_ports := fold mark_sent ns (ds_ports s), ds_sent := ds_sent s @ [ns]\<rparr>)"
  using assms
  by (cases s) (auto simp: main_round_def flushPendingDampingNotifications_def processPendingDampingSync_def Let_def)

section \<open>The invariant of the system\<close>

text \<open>\<open>p\<close> is the last state the vendor reported, and \<open>u\<close> the one the port had before there was any.\<close>

definition damped_sys_ok :: "aied_config \<Rightarrow> oid \<Rightarrow> u64 \<Rightarrow> 32 word \<Rightarrow> 32 word option \<Rightarrow> damping_sys \<Rightarrow> bool" where
  "damped_sys_ok c v t u p s \<longleftrightarrow>
     ds_queue s = [] \<and> distinct (map fst (ds_ports s)) \<and>
     (\<exists>st. map_of (ds_ports s) v = Some st \<and> damping_ok c t st \<and> informed v (ds_sent s) st \<and>
        dp_physical st = (case p of None \<Rightarrow> u | Some a \<Rightarrow> a)) \<and>
     (told v (ds_sent s) = None \<longrightarrow> p = None)"

lemma apply_distinct:
  "applyLinkEventDamping E ports u state now = Inr (suppress, ports') \<Longrightarrow> distinct (map fst ports) \<Longrightarrow> distinct (map fst ports')"
  by (auto simp: applyLinkEventDamping_def bindE_def distinct_update split: option.splits sum.splits if_splits prod.splits)

lemma filter_changes_distinct:
  "filter_changes E tr cs ports = Inr (ns, ports') \<Longrightarrow> distinct (map fst ports) \<Longrightarrow> distinct (map fst ports')"
proof (induction cs arbitrary: ports ns)
  case (Cons x cs)
  then show ?case
    by (cases x) (auto simp: Let_def bindE_def apply_distinct split: sum.splits prod.splits if_splits)
qed simp

lemma changes_keep:
  assumes "damping_config_valid c" "v \<noteq> 0" "damped_sys_ok c v t u p s" "sorted (t # step_times (Changes cs))"
    and "process_on_port_state_change E tr cs s = Inr s'"
  shows "damped_sys_ok c v (last (t # step_times (Changes cs))) u
    (case map_of (rev (step_reports tr (Changes cs))) v of None \<Rightarrow> p | Some a \<Rightarrow> Some a) s'"
proof -
  obtain st where st: "map_of (ds_ports s) v = Some st" "damping_ok c t st" "informed v (ds_sent s) st" "dp_physical st = (case p of None \<Rightarrow> u | Some a \<Rightarrow> a)"
    "told v (ds_sent s) = None \<longrightarrow> p = None"
    using assms(3) by (auto simp: damped_sys_ok_def)
  obtain ns ports where f: "filter_changes E tr cs (ds_ports s) = Inr (ns, ports)"
    and s': "s' = s\<lparr>ds_ports := ports, ds_sent := (if ns = [] then ds_sent s else ds_sent s @ [ns])\<rparr>"
    using assms(5) by (auto simp: process_on_port_state_change_def bindE_def split: sum.splits)
  have reports: "step_reports tr (Changes cs) = map (\<lambda>(rid, state, now). (tr rid, state)) cs" by (simp add: step_reports_def)
  have "sorted (t # map (\<lambda>(rid, state, now). now) cs)" using assms(4) by simp
  from filter_changes_ok [OF assms(1,2) f this st(1,2)] obtain st' where st': "map_of ports v = Some st'"
    "damping_ok c (last (t # step_times (Changes cs))) st'"
    "case map_of (rev ns) v of None \<Rightarrow> dp_advertised st' = dp_advertised st \<and>
         (\<not> dp_active st \<longrightarrow> st' = st \<and> map_of (rev (step_reports tr (Changes cs))) v = None)
       | Some a \<Rightarrow> dp_advertised st' = a"
    "dp_physical st' = (case map_of (rev (step_reports tr (Changes cs))) v of None \<Rightarrow> dp_physical st | Some a \<Rightarrow> a)"
    unfolding reports step_times.simps by blast
  have "informed v (ds_sent s') st'"
    using st(3) st'(3) by (auto simp: informed_def s' split: option.splits)
  moreover have "map_of (rev (step_reports tr (Changes cs))) v = None \<and> p = None" if "told v (ds_sent s') = None"
    using that st(3,5) st'(3) by (auto simp: informed_def s' split: if_splits option.splits)
  ultimately show ?thesis using st' st(4) filter_changes_distinct [OF f] assms(3)
    by (auto simp: damped_sys_ok_def s' split: option.splits)
qed

lemma check_map_of: "map_of (checkDampedPortsTimeout E ports now) v = map_option (\<lambda>st. check_damped_port E st now) (map_of ports v)"
  by (induction ports) (auto simp: checkDampedPortsTimeout_def)

lemma check_distinct: "distinct (map fst ports) \<Longrightarrow> distinct (map fst (checkDampedPortsTimeout E ports now))"
  by (simp add: checkDampedPortsTimeout_def split_beta comp_def)

lemma check_step_keeps:
  assumes "damped_sys_ok c v t u p s" "t \<le> now"
  shows "damped_sys_ok c v now u p (s\<lparr>ds_ports := checkDampedPortsTimeout E (ds_ports s) now\<rparr>)"
proof -
  obtain st where st: "map_of (ds_ports s) v = Some st" "damping_ok c t st" "informed v (ds_sent s) st" "dp_physical st = (case p of None \<Rightarrow> u | Some a \<Rightarrow> a)"
    "told v (ds_sent s) = None \<longrightarrow> p = None"
    using assms(1) by (auto simp: damped_sys_ok_def)
  have "informed v (ds_sent s) (check_damped_port E st now)"
    using st(3) check_keeps(3,5) [OF st(2) assms(2), of E] by (auto simp: informed_def split: option.splits)
  with st check_keeps(1,2) [OF st(2) assms(2), of E] assms(1) show ?thesis
    by (auto simp: damped_sys_ok_def check_map_of check_distinct)
qed

lemma main_keeps:
  assumes "damped_sys_ok c v t u p s"
  shows "damped_sys_ok c v t u p (main_round sends s)"
proof -
  obtain st where st: "map_of (ds_ports s) v = Some st" "damping_ok c t st" "informed v (ds_sent s) st" "dp_physical st = (case p of None \<Rightarrow> u | Some a \<Rightarrow> a)"
    "told v (ds_sent s) = None \<longrightarrow> p = None"
    and q: "ds_queue s = []" and d: "distinct (map fst (ds_ports s))"
    using assms by (auto simp: damped_sys_ok_def)
  let ?ns = "missed_states (ds_ports s)"
  show ?thesis
  proof (cases "?ns = [] \<or> \<not> sends ?ns")
    case True
    with assms show ?thesis by (auto simp: main_round_eq [OF q] Let_def)
  next
    case False
    have m: "map_of ?ns v = (if dp_pending st \<and> dp_advertised st \<noteq> dp_physical st then Some (dp_physical st) else None)"
      by (simp add: missed_map_of [OF d] st)
    have r: "map_of (rev ?ns) v = map_of ?ns v"
      using missed_distinct [OF d] map_of_inject_set [of "rev ?ns" ?ns] by (simp add: rev_map [symmetric])
    show ?thesis
    proof (cases "dp_pending st \<and> dp_advertised st \<noteq> dp_physical st")
      case True
      with m have "map_of ?ns v = Some (dp_physical st)" by simp
      from fold_mark_sent [OF missed_distinct [OF d] this] r this st d False q show ?thesis
        by (auto simp: main_round_eq damped_sys_ok_def damping_ok_def informed_def Let_def fold_mark_sent_keys)
    next
      case False
      with m have none: "map_of ?ns v = None" by simp
      then have "v \<notin> fst ` set ?ns" by (simp add: map_of_eq_None_iff)
      then have "map_of (ds_ports (main_round sends s)) v = Some st"
        using fold_mark_sent_other st(1) by (simp add: main_round_eq [OF q] Let_def)
      moreover have "informed v (ds_sent (main_round sends s)) st"
        using st(3) r none by (simp add: main_round_eq [OF q] Let_def informed_def)
      moreover have "ds_queue (main_round sends s) = []" "distinct (map fst (ds_ports (main_round sends s)))"
        using q d by (simp_all add: main_round_eq [OF q] Let_def fold_mark_sent_keys)
      moreover have "told v (ds_sent (main_round sends s)) = told v (ds_sent s)"
        using r none by (simp add: main_round_eq [OF q] Let_def)
      ultimately show ?thesis using st(2,4,5) by (auto simp: damped_sys_ok_def)
    qed
  qed
qed

lemma run_keeps:
  assumes "damping_config_valid c" "v \<noteq> 0"
  shows "damped_sys_ok c v t u p s \<Longrightarrow> sorted (t # run_times xs) \<Longrightarrow> damping_run E tr xs s = Inr s' \<Longrightarrow>
    damped_sys_ok c v (last (t # run_times xs)) u (case reported tr v xs of None \<Rightarrow> p | Some a \<Rightarrow> Some a) s'"
proof (induction xs arbitrary: s t p)
  case Nil
  then show ?case by (simp add: run_times_def reported_def)
next
  case (Cons x xs)
  obtain s1 where s1: "take_step E tr x s = Inr s1" "damping_run E tr xs s1 = Inr s'"
    using Cons.prems(3) by (auto simp: bindE_def split: sum.splits)
  have times: "run_times (x # xs) = step_times x @ run_times xs" by (simp add: run_times_def)
  let ?t = "last (t # step_times x)"
  have sorted: "sorted (t # step_times x)" "sorted (?t # run_times xs)"
    using Cons.prems(2) by (auto simp: times sorted_append)
  have "damped_sys_ok c v ?t u (case map_of (rev (step_reports tr x)) v of None \<Rightarrow> p | Some a \<Rightarrow> Some a) s1"
  proof (cases x)
    case (Changes cs)
    then show ?thesis using changes_keep [OF assms Cons.prems(1)] sorted(1) s1(1) by simp
  next
    case (Check now)
    with check_step_keeps [OF Cons.prems(1)] sorted(1) s1(1) show ?thesis by (auto simp: step_reports_def)
  next
    case (Main sends)
    with main_keeps [OF Cons.prems(1)] s1(1) show ?thesis by (auto simp: step_reports_def)
  qed
  from Cons.IH [OF this sorted(2) s1(2)] show ?case
    by (auto simp: times reported_def map_add_def last_append split: option.splits)
qed

section \<open>No faults\<close>

definition ceilings_fit :: "damping_env \<Rightarrow> damping_ports \<Rightarrow> bool" where
  "ceilings_fit E ports \<longleftrightarrow>
     (\<forall>u st. map_of ports u = Some st \<longrightarrow>
        de_ceiling E (ac_max_suppress_time (dp_config st)) (ac_decay_half_life (dp_config st)) (ac_reuse_threshold (dp_config st)) \<noteq> None)"

lemma apply_fits:
  assumes "ceilings_fit E ports"
  shows "\<exists>suppress ports'. applyLinkEventDamping E ports u state now = Inr (suppress, ports') \<and> ceilings_fit E ports'"
proof (cases "map_of ports u")
  case (Some st)
  show ?thesis
  proof (cases "dp_algorithm st = ALGORITHM_AIED \<and> damping_config_valid (dp_config st)")
    case True
    have fit: "de_ceiling E (ac_max_suppress_time (dp_config st)) (ac_decay_half_life (dp_config st))
        (ac_reuse_threshold (dp_config st)) \<noteq> None" using assms Some by (auto simp: ceilings_fit_def)
    then obtain st1 where "after_change E st state now = Inr st1"
      using transition_returns [of E "decayPenalty E st now" state now]
      by (cases "dp_physical st = state") (auto simp: after_change_def Let_def)
    with True have ap: "applyAiedAlgorithm E st state now = Inr (decide_suppress E (damping_exit st1 now) (dp_active st) state now)"
      and "dp_config (snd (decide_suppress E (damping_exit st1 now) (dp_active st) state now)) = dp_config st"
      using after_change_facts(2) by (auto simp: apply_after_change suppress_changes)
    with True Some assms show ?thesis
      by (cases "decide_suppress E (damping_exit st1 now) (dp_active st) state now")
        (auto simp: applyLinkEventDamping_def ceilings_fit_def)
  next
    case False
    with Some assms show ?thesis
      by (auto simp: applyLinkEventDamping_def applyAiedAlgorithm_def ceilings_fit_def)
  qed
qed (use assms in \<open>auto simp: applyLinkEventDamping_def\<close>)

lemma filter_changes_fits:
  "ceilings_fit E ports \<Longrightarrow> \<exists>ns ports'. filter_changes E tr cs ports = Inr (ns, ports') \<and> ceilings_fit E ports'"
proof (induction cs arbitrary: ports)
  case (Cons x cs)
  obtain rid state now where x: "x = (rid, state, now)" by (cases x)
  obtain suppress ports1 where
    "(if tr rid \<noteq> 0 then applyLinkEventDamping E ports (tr rid) state now else Inr (False, ports)) = Inr (suppress, ports1)"
    "ceilings_fit E ports1"
    using apply_fits [OF Cons.prems, of "tr rid" state now] Cons.prems by (cases "tr rid = 0") auto
  with Cons.IH [of ports1] show ?case by (auto simp: x Let_def)
qed simp

lemma check_port_config [simp]: "dp_config (check_damped_port E st now) = dp_config st"
  by (simp add: check_damped_port_def leave_damping_def Let_def)

lemma fold_mark_fits: "ceilings_fit E ports \<Longrightarrow> ceilings_fit E (fold mark_sent ns ports)"
proof (induction ns arbitrary: ports)
  case (Cons n ns)
  have "ceilings_fit E (mark_sent n ports)" using Cons.prems by (auto simp: ceilings_fit_def mark_sent_map_of)
  then show ?case using Cons.IH by simp
qed simp

lemma flush_fits: "ceilings_fit E (ds_ports s) \<Longrightarrow> ceilings_fit E (ds_ports (flush_loop sends q s))"
  by (induction sends q s rule: flush_loop.induct) (simp_all add: fold_mark_fits)

lemma step_fits:
  assumes "ceilings_fit E (ds_ports s)"
  shows "\<exists>s'. take_step E tr x s = Inr s' \<and> ceilings_fit E (ds_ports s')"
proof (cases x)
  case (Changes cs)
  with filter_changes_fits [OF assms, of tr cs] show ?thesis by (auto simp: process_on_port_state_change_def)
next
  case (Check now)
  with assms show ?thesis by (auto simp: ceilings_fit_def check_map_of)
next
  case (Main sends)
  with assms show ?thesis
    by (auto simp: main_round_def flushPendingDampingNotifications_def processPendingDampingSync_def Let_def flush_fits)
qed

lemma run_fits: "ceilings_fit E (ds_ports s) \<Longrightarrow> \<exists>s'. damping_run E tr xs s = Inr s' \<and> ceilings_fit E (ds_ports s')"
proof (induction xs arbitrary: s)
  case (Cons x xs)
  obtain s1 where "take_step E tr x s = Inr s1" "ceilings_fit E (ds_ports s1)" using step_fits [OF Cons.prems] by blast
  with Cons.IH show ?case by auto
qed simp

section \<open>The penalty over a run\<close>

text \<open>
  A port whose penalty is within its ceiling; if \<open>idle\<close>, the ceiling is below the threshold of suppression, and the port is
  not damped.
\<close>

definition within_ceiling :: "aied_config \<Rightarrow> u32 \<Rightarrow> bool \<Rightarrow> damping_port \<Rightarrow> bool" where
  "within_ceiling c k idle st \<longleftrightarrow>
     dp_config st = c \<and> dp_penalty st \<le> k \<and> (idle \<longrightarrow> k < ac_suppress_threshold c \<and> \<not> dp_active st)"

lemma apply_within:
  assumes "damping_config_valid c" "applyAiedAlgorithm E st a now = Inr (suppress, st')" "within_ceiling c k idle st"
    and "de_ceiling E (ac_max_suppress_time c) (ac_decay_half_life c) (ac_reuse_threshold c) = Some k"
  shows "within_ceiling c k idle st' \<and> (idle \<longrightarrow> \<not> suppress)"
proof -
  have c: "dp_config st = c" and p: "dp_penalty st \<le> k" and idle: "idle \<Longrightarrow> k < ac_suppress_threshold c \<and> \<not> dp_active st"
    using assms(3) by (auto simp: within_ceiling_def)
  obtain s where s: "after_change E st a now = Inr s"
    using assms(1,2) c by (cases "after_change E st a now") (simp_all add: apply_after_change)
  have v: "damping_config_valid (dp_config st)" using assms(1) c by simp
  have r: "(suppress, st') = (if dp_active st \<and> \<not> damping_over s now then (True, s\<lparr>dp_last_suppressed := a\<rparr>)
      else (False, propagate_event E (damping_exit s now) a))"
    using apply_result [OF v s] assms(2) by simp
  have le: "dp_penalty s \<le> k" using after_change_penalty [OF s _ p] assms(4) c by simp
  have "\<not> dp_active s" if "idle"
    using after_change_enters [OF s] that le idle c by (auto simp: not_le)
  with r after_change_facts(2) [OF s] le c idle show ?thesis
    by (auto simp: within_ceiling_def exit_active split: if_splits)
qed

lemma check_within: "within_ceiling c k idle st \<Longrightarrow> within_ceiling c k idle (check_damped_port E st now)"
  using decay_le [of E st now]
  by (auto simp: within_ceiling_def check_damped_port_def leave_damping_def Let_def intro: order_trans)

lemma mark_within:
  "within_ceiling c k idle st \<Longrightarrow> within_ceiling c k idle (writeDampingCountersToStateDb (st\<lparr>dp_pending := False, dp_advertised := a\<rparr>))"
  by (simp add: within_ceiling_def)

definition port_within :: "aied_config \<Rightarrow> u32 \<Rightarrow> bool \<Rightarrow> oid \<Rightarrow> damping_ports \<Rightarrow> bool" where
  "port_within c k idle v ports \<longleftrightarrow> (\<exists>st. map_of ports v = Some st \<and> within_ceiling c k idle st)"

lemma changes_within:
  assumes "damping_config_valid c" "de_ceiling E (ac_max_suppress_time c) (ac_decay_half_life c) (ac_reuse_threshold c) = Some k"
  shows "port_within c k idle v ports \<Longrightarrow> filter_changes E tr cs ports = Inr (ns, ports') \<Longrightarrow> port_within c k idle v ports'"
proof (induction cs arbitrary: ports ns)
  case (Cons x cs)
  obtain rid state now where x: "x = (rid, state, now)" by (cases x)
  obtain suppress ports1 ns1 where one: "(if tr rid \<noteq> 0 then applyLinkEventDamping E ports (tr rid) state now else Inr (False, ports)) =
      Inr (suppress, ports1)"
    and rest: "filter_changes E tr cs ports1 = Inr (ns1, ports')"
    using Cons.prems(2) by (auto simp: x Let_def bindE_def split: sum.splits prod.splits if_splits)
  have "port_within c k idle v ports1"
  proof (cases "tr rid = v \<and> tr rid \<noteq> 0")
    case True
    then have "tr rid = v" "v \<noteq> 0" by auto
    with one have ap: "applyLinkEventDamping E ports v state now = Inr (suppress, ports1)" by simp
    obtain st where st: "map_of ports v = Some st" "within_ceiling c k idle st" using Cons.prems(1) by (auto simp: port_within_def)
    show ?thesis
    proof (cases "dp_algorithm st = ALGORITHM_AIED")
      case True
      with ap st(1) obtain st' where "applyAiedAlgorithm E st state now = Inr (suppress, st')" "ports1 = AList.update v st' ports"
        by (auto simp: applyLinkEventDamping_def bindE_def split: sum.splits prod.splits)
      with apply_within [OF assms(1) _ st(2) assms(2)] show ?thesis by (auto simp: port_within_def)
    next
      case False
      with ap st Cons.prems(1) show ?thesis by (simp add: applyLinkEventDamping_def)
    qed
  next
    case False
    with one apply_other [of E ports "tr rid" state now suppress ports1 v] Cons.prems(1) show ?thesis
      by (auto simp: port_within_def split: if_splits)
  qed
  from Cons.IH [OF this rest] show ?case .
qed simp

lemma fold_mark_within: "port_within c k idle v ports \<Longrightarrow> port_within c k idle v (fold mark_sent ns ports)"
proof (induction ns arbitrary: ports)
  case (Cons n ns)
  have "port_within c k idle v (mark_sent n ports)" using Cons.prems mark_within by (auto simp: port_within_def mark_sent_map_of)
  then show ?case using Cons.IH by simp
qed simp

lemma flush_within: "port_within c k idle v (ds_ports s) \<Longrightarrow> port_within c k idle v (ds_ports (flush_loop sends q s))"
  by (induction sends q s rule: flush_loop.induct) (simp_all add: fold_mark_within)

lemma run_within:
  assumes "damping_config_valid c" "de_ceiling E (ac_max_suppress_time c) (ac_decay_half_life c) (ac_reuse_threshold c) = Some k"
  shows "port_within c k idle v (ds_ports s) \<Longrightarrow> damping_run E tr xs s = Inr s' \<Longrightarrow> port_within c k idle v (ds_ports s')"
proof (induction xs arbitrary: s)
  case (Cons x xs)
  obtain s1 where s1: "take_step E tr x s = Inr s1" "damping_run E tr xs s1 = Inr s'"
    using Cons.prems(2) by (auto simp: bindE_def split: sum.splits)
  have "port_within c k idle v (ds_ports s1)"
  proof (cases x)
    case (Changes cs)
    with s1(1) changes_within [OF assms Cons.prems(1), of tr cs] show ?thesis
      by (auto simp: process_on_port_state_change_def bindE_def split: sum.splits)
  next
    case (Check now)
    with s1(1) Cons.prems(1) check_within show ?thesis by (fastforce simp: port_within_def check_map_of)
  next
    case (Main sends)
    have "port_within c k idle v (ds_ports (processPendingDampingSync s))"
      using Cons.prems(1) by (simp add: processPendingDampingSync_def Let_def)
    with s1(1) Main show ?thesis
      by (auto simp: main_round_def flushPendingDampingNotifications_def flush_within)
  qed
  from Cons.IH [OF this s1(2)] show ?case .
qed simp

text \<open>
  Ports nothing happens to any more, and the configuration of the damping from the client to the state of the port.
\<close>

section \<open>Quiet ports\<close>

text \<open>A port no check of the timer and no round of the main loop does anything about.\<close>

definition quiet :: "damping_port \<Rightarrow> bool" where
  "quiet st \<longleftrightarrow> \<not> dp_pending st \<and> (\<not> dp_active st \<or> dp_algorithm st \<noteq> ALGORITHM_AIED)"

fun quiet_step :: "damping_step \<Rightarrow> bool" where
  "quiet_step (Changes data) = False"
| "quiet_step (Check now) = True"
| "quiet_step (Main sends) = True"

definition stays :: "oid \<Rightarrow> damping_port \<Rightarrow> 32 word option \<Rightarrow> damping_sys \<Rightarrow> bool" where
  "stays v st a s \<longleftrightarrow> ds_queue s = [] \<and> distinct (map fst (ds_ports s)) \<and> map_of (ds_ports s) v = Some st \<and> quiet st \<and>
     told v (ds_sent s) = a"

lemma quiet_check: "quiet st \<Longrightarrow> check_damped_port E st now = st"
  by (auto simp: quiet_def check_damped_port_def)

lemma stays_step:
  assumes "stays v st a s" "quiet_step x" "take_step E tr x s = Inr s'"
  shows "stays v st a s'"
proof (cases x)
  case (Check now)
  with assms show ?thesis by (auto simp: stays_def check_map_of check_distinct quiet_check)
next
  case (Main sends)
  let ?ns = "missed_states (ds_ports s)"
  have d: "distinct (map fst (ds_ports s))" and q: "ds_queue s = []" using assms(1) by (simp_all add: stays_def)
  have none: "map_of ?ns v = None" using assms(1) by (simp add: missed_map_of [OF d] stays_def quiet_def)
  then have "v \<notin> fst ` set ?ns" by (simp add: map_of_eq_None_iff)
  moreover from this have "map_of (rev ?ns) v = None" by (simp add: map_of_eq_None_iff)
  ultimately have "map_of (ds_ports (main_round sends s)) v = map_of (ds_ports s) v"
    "told v (ds_sent (main_round sends s)) = told v (ds_sent s)"
    "ds_queue (main_round sends s) = []" "distinct (map fst (ds_ports (main_round sends s)))"
    using d q by (simp_all add: main_round_eq [OF q] Let_def fold_mark_sent_other fold_mark_sent_keys)
  with assms Main show ?thesis by (simp add: stays_def)
qed (use assms in auto)

lemma stays_run:
  "stays v st a s \<Longrightarrow> list_all quiet_step xs \<Longrightarrow> \<exists>s'. damping_run E tr xs s = Inr s' \<and> stays v st a s'"
proof (induction xs arbitrary: s)
  case (Cons x xs)
  then obtain s1 where s1: "take_step E tr x s = Inr s1" by (cases x) auto
  with Cons stays_step [of v st a s x E tr s1] show ?case by simp
qed simp

section \<open>A change between the two halves of the round\<close>

text \<open>A change to a state that is not down is propagated when the port is not damped and below the threshold.\<close>

lemma apply_up:
  assumes "damping_config_valid (dp_config st)" "\<not> dp_active st" "dp_penalty st < ac_suppress_threshold (dp_config st)"
    "dp_physical st \<noteq> a" "a \<noteq> de_DOWN E"
  shows "\<exists>st'. applyAiedAlgorithm E st a now = Inr (False, st') \<and> dp_physical st' = a \<and> dp_advertised st' = a \<and>
    \<not> dp_active st' \<and> \<not> dp_pending st' \<and> dp_algorithm st' = dp_algorithm st \<and> dp_config st' = dp_config st"
proof -
  let ?d = "decayPenalty E st now"
  let ?s = "writeDampingCountersToStateDb (settle (count_transition E ?d a now) a now)"
  have s: "after_change E st a now = Inr ?s"
    using assms(4,5) by (simp add: after_change_def Let_def transition_form)
  have "\<not> dp_active ?s"
    using assms(2,3) decay_le [of E st now] by (simp add: not_le le_less_trans)
  then have "damping_exit ?s now = ?s" by (simp add: exit_stays)
  with apply_result [OF assms(1) s] assms(2) \<open>\<not> dp_active ?s\<close> show ?thesis by simp
qed

lemma stale_flush:
  assumes "ds_queue s = []" "distinct (map fst (ds_ports s))" "map_of (ds_ports s) v = Some st"
    and "damping_config_valid (dp_config st)" "dp_algorithm st = ALGORITHM_AIED"
    and "\<not> dp_active st" "dp_pending st" "dp_advertised st \<noteq> dp_physical st"
    and "dp_penalty st < ac_suppress_threshold (dp_config st)" "dp_physical st \<noteq> a" "a \<noteq> de_DOWN E"
    and "v \<noteq> 0" "tr rid = v"
  shows "\<exists>s1 st1. process_on_port_state_change E tr [(rid, a, now)] (processPendingDampingSync s) = Inr s1 \<and>
    stays v st1 (Some (dp_physical st)) (flushPendingDampingNotifications (\<lambda>ns. True) s1) \<and> dp_physical st1 = a"
proof -
  let ?ns = "missed_states (ds_ports s)"
  from apply_up [OF assms(4,6,9,10,11)] obtain st' where
    st': "applyAiedAlgorithm E st a now = Inr (False, st')" "dp_physical st' = a" "\<not> dp_active st'" "\<not> dp_pending st'"
    by blast
  have m: "map_of ?ns v = Some (dp_physical st)" using assms(3,7,8) by (simp add: missed_map_of [OF assms(2)])
  then have sync: "processPendingDampingSync s = s\<lparr>ds_queue := [?ns]\<rparr>"
    using assms(1) by (auto simp: processPendingDampingSync_def Let_def)
  let ?ports = "AList.update v st' (ds_ports s)"
  let ?s1 = "s\<lparr>ds_queue := [?ns], ds_ports := ?ports, ds_sent := ds_sent s @ [[(v, a)]]\<rparr>"
  have p: "process_on_port_state_change E tr [(rid, a, now)] (processPendingDampingSync s) = Inr ?s1"
    using assms(3,5,12,13) st'(1)
    by (simp add: sync process_on_port_state_change_def applyLinkEventDamping_def)
  let ?st1 = "writeDampingCountersToStateDb (st'\<lparr>dp_pending := False, dp_advertised := dp_physical st\<rparr>)"
  have "map_of (fold mark_sent ?ns ?ports) v = Some ?st1"
    using fold_mark_sent [OF missed_distinct [OF assms(2)] m] by simp
  moreover have "told v (ds_sent s @ [[(v, a)], ?ns]) = Some (dp_physical st)"
    using m missed_distinct [OF assms(2)] map_of_inject_set [of "rev ?ns" ?ns]
    by (simp add: told_def rev_map [symmetric] map_add_def)
  ultimately have "stays v ?st1 (Some (dp_physical st)) (flushPendingDampingNotifications (\<lambda>ns. True) ?s1)"
    using assms(2) st'(3)
    by (simp add: stays_def quiet_def flushPendingDampingNotifications_def fold_mark_sent_keys distinct_update)
  with p st'(2) show ?thesis by (intro exI conjI) (assumption, assumption, simp)
qed

section \<open>The configuration from the client\<close>

lemma response_received:
  assumes "query_lib_ok L"
  shows "bindE (respond L st [] command) (\<lambda>msgs. bindE (channel_wait L command msgs) (\<lambda>((r, fvs), rest). Inr r)) = Inr st"
proof -
  obtain s where "sai_serialize_status L st = Inr s" "sai_deserialize_status L s = Inr st" by (rule status_text [OF assms])
  then show ?thesis by (simp add: respond_def)
qed

lemma config_set_remote:
  assumes "query_lib_ok L" "v \<noteq> 0" "tr v = Some rid"
    and "config_loop L (status_SUCCESS L, status_INVALID_PARAMETER L) custom fvs (status_SUCCESS L)
      (case map_of ports v of None \<Rightarrow> damping_port_new E | Some st \<Rightarrow> st) = (Inr r, st')"
  shows "setLinkEventDampingConfig L sync (processLinkEventDampingConfigSet L E sync custom ty tr) ty v fvs ports =
    (Inr (if sync then r else status_SUCCESS L), AList.update v st' ports)"
proof -
  obtain t where t: "sai_serialize_object_type L ty = Inr t" "sai_deserialize_object_type L t = Inr ty" "CHR '':'' \<notin> set t"
    by (rule object_type_text [OF assms(1)])
  have key: "find_split (CHR '':'') (t @ CHR '':'' # sai_serialize_object_id v) = Some (t, sai_serialize_object_id v)"
    by (rule find_split_append [OF t(3)])
  have oid: "sai_deserialize_object_id (sai_serialize_object_id v) = Inr v" by (rule printed_oid_roundtrip)
  show ?thesis
  proof (cases sync)
    case True
    with t key oid assms response_received [OF assms(1), of r] show ?thesis
      by (simp add: setLinkEventDampingConfig_def processLinkEventDampingConfigSet_def sendLinkEventDampingConfigResponse_def)
  next
    case False
    with t key oid assms show ?thesis
      by (simp add: setLinkEventDampingConfig_def processLinkEventDampingConfigSet_def sendLinkEventDampingConfigResponse_def)
  qed
qed

text \<open>The state of the port after one of the two attributes.\<close>

definition with_attribute :: "u32 \<Rightarrow> port_extension_attr \<Rightarrow> damping_port \<Rightarrow> damping_port" where
  "with_attribute custom a st =
     (if pe_id a = custom then st\<lparr>dp_algorithm := pe_s32 a\<rparr> else st\<lparr>dp_config := the (pe_ptr a)\<rparr>)"

lemma extension_attribute_remote:
  assumes "query_lib_ok L" "v \<noteq> 0" "tr v = Some rid"
    and "pe_id a = custom \<or> pe_id a = custom + 1 \<and> pe_ptr a \<noteq> None"
  shows "setRedisPortExtensionAttribute L custom sync (processLinkEventDampingConfigSet L E sync custom ty tr) ty v (Some a) ports =
    (Inr (status_SUCCESS L),
     AList.update v (with_attribute custom a (case map_of ports v of None \<Rightarrow> damping_port_new E | Some st \<Rightarrow> st)) ports)"
proof (cases "pe_id a = custom")
  case True
  then show ?thesis
    using config_set_remote [of L v tr rid custom "[(sai_serialize_redis_port_attr_id custom custom,
        sai_serialize_redis_link_event_damping_algorithm (pe_s32 a))]" E ports "status_SUCCESS L" _ sync ty] assms(1-3)
    by (simp add: setRedisPortExtensionAttribute_def Let_def redis_names_read with_attribute_def)
next
  case False
  with assms(4) obtain c where c: "pe_ptr a = Some c" and id: "pe_id a = custom + 1" by auto
  have "text_lib_ok L" by (rule query_lib_okD(2) [OF assms(1)])
  from aied_config_reads [OF this, of c] obtain s where
    s: "sai_serialize_redis_link_event_damping_aied_config L c = Inr s" "sai_deserialize_redis_link_event_damping_aied_config L s = Inr c"
    by (auto simp: reads_def)
  show ?thesis
    using config_set_remote [of L v tr rid custom "[(sai_serialize_redis_port_attr_id custom (custom + 1), s)]" E ports
        "status_SUCCESS L" _ sync ty] assms(1-3) s c id
    by (simp add: setRedisPortExtensionAttribute_def Let_def redis_names_read with_attribute_def)
qed

end
