(* ===== verification/Damping_Props.thy ===== *)
theory Damping_Props
  imports Damping_Run Query_Demo
begin

text \<open>
  The properties of link event damping: what the client is told of a port that flaps, what is suppressed, how the
  configuration reaches the port, and two runs after which the client is left with a wrong state.
\<close>

text \<open>
  An instance: times and thresholds for which the powers are of whole numbers, rounded down.
\<close>

definition demo_damping :: damping_env where
  "demo_damping = \<lparr>de_UNKNOWN = 0, de_UP = 1, de_DOWN = 2,
     de_decay = (\<lambda>p elapsed h. drop_bit (unat elapsed div unat h) p),
     de_ceiling = (\<lambda>m h r. if unat r * 2 ^ (unat m div unat h) < 2 ^ 32 then Some (r * 2 ^ (unat m div unat h)) else None)\<rparr>"

definition demo_config :: aied_config where
  "demo_config = \<lparr>ac_max_suppress_time = 40, ac_suppress_threshold = 15, ac_reuse_threshold = 10, ac_decay_half_life = 20,
     ac_flap_penalty = 10\<rparr>"

definition demo_port :: damping_port where
  "demo_port = (damping_port_new demo_damping)\<lparr>dp_algorithm := ALGORITHM_AIED, dp_config := demo_config\<rparr>"

definition demo_ports :: damping_sys where
  "demo_ports = \<lparr>ds_ports = [(7, demo_port)], ds_queue = [], ds_sent = []\<rparr>"

lemmas demo_damping_defs = demo_damping_def demo_config_def demo_port_def demo_ports_def damping_port_new_def ALGORITHM_AIED_def
  ALGORITHM_DISABLED_def

lemma demo_config_valid: "damping_config_valid demo_config"
  by (simp add: damping_config_valid_def demo_config_def)

section \<open>What the client is told\<close>

text \<open>A port that has just been configured, before the client was told anything of it.\<close>

definition damping_start :: "damping_env \<Rightarrow> aied_config \<Rightarrow> oid \<Rightarrow> damping_sys \<Rightarrow> bool" where
  "damping_start E c v s \<longleftrightarrow>
     ds_queue s = [] \<and> ds_sent s = [] \<and> distinct (map fst (ds_ports s)) \<and>
     map_of (ds_ports s) v = Some ((damping_port_new E)\<lparr>dp_algorithm := ALGORITHM_AIED, dp_config := c\<rparr>)"

lemma start_ok: "damping_start E c v s \<Longrightarrow> damped_sys_ok c v 0 (de_UNKNOWN E) None s"
  by (auto simp: damping_start_def damped_sys_ok_def damping_ok_def informed_def damping_port_new_def)

lemma longer_wait:
  assumes "start \<le> t" "t \<le> (now :: u64)"
  shows "now - t \<le> now - start"
  using assms by (simp add: word_le_nat_alt unat_sub)

lemma quiet_then_told:
  assumes "damped_sys_ok c v t u (Some a) s" "t \<le> now" "ucast (ac_max_suppress_time c) \<le> now - t"
  shows "\<exists>s'. damping_run E tr [Check now, Main (\<lambda>ns. True)] s = Inr s' \<and> told v (ds_sent s') = Some a"
proof -
  let ?s1 = "s\<lparr>ds_ports := checkDampedPortsTimeout E (ds_ports s) now\<rparr>"
  obtain st where st: "map_of (ds_ports s) v = Some st" "damping_ok c t st" "dp_physical st = a"
    and told: "told v (ds_sent s) = Some (dp_advertised st)"
    using assms(1) by (auto simp: damped_sys_ok_def informed_def split: option.splits)
  let ?st = "check_damped_port E st now"
  note k = check_keeps [OF st(2) assms(2), of E]
  have inactive: "\<not> dp_active ?st"
  proof (cases "dp_active st")
    case True
    then have "dp_start st \<le> t" using st(2) by (simp add: damping_ok_def)
    with longer_wait [OF this assms(2)] assms(3) k(4) show ?thesis by (meson order_trans)
  qed (use k(5) in simp)
  have d: "distinct (map fst (ds_ports ?s1))" and q: "ds_queue ?s1 = []"
    using assms(1) by (simp_all add: damped_sys_ok_def check_distinct)
  let ?ns = "missed_states (ds_ports ?s1)"
  have "map_of (ds_ports ?s1) v = Some ?st" using st(1) by (simp add: check_map_of)
  then have m: "map_of ?ns v = (if dp_pending ?st \<and> dp_advertised ?st \<noteq> dp_physical ?st then Some a else None)"
    using missed_map_of [OF d, of v] k(2) st(3) by simp
  have r: "map_of (rev ?ns) v = map_of ?ns v"
    using missed_distinct [OF d] map_of_inject_set [of "rev ?ns" ?ns] by (simp add: rev_map [symmetric])
  have "dp_advertised ?st = a \<or> dp_pending ?st" using k(1,2) st(3) inactive by (auto simp: damping_ok_def)
  then have "told v (ds_sent (main_round (\<lambda>ns. True) ?s1)) = Some a"
    using m r told k(2,3) st(3) by (auto simp: main_round_eq [OF q] Let_def)
  then show ?thesis by simp
qed

text \<open>
C10 Once a port has been quiet for the longest time of suppression, the client knows its state, whatever happened before: after
  any run of changes, checks and rounds of the main loop, a check of the timer and a round of the main loop leave the client
  with the last state the vendor reported. The run does not fault, as the ceilings of the penalties fit their 32 bits. The runs
  start at a port that has just been configured, under one valid configuration, with each batch of changes and each round of the
  main loop done as a whole.
\<close>

theorem damping_converges:
  assumes "damping_config_valid c" "v \<noteq> 0" "damping_start E c v s" "ceilings_fit E (ds_ports s)"
    and "sorted (run_times xs @ [now])" "reported tr v xs = Some a" "ucast (ac_max_suppress_time c) \<le> now - last (0 # run_times xs)"
  shows "\<exists>s1 s2. damping_run E tr xs s = Inr s1 \<and> damping_run E tr [Check now, Main (\<lambda>ns. True)] s1 = Inr s2 \<and>
    told v (ds_sent s2) = Some a"
proof -
  obtain s1 where s1: "damping_run E tr xs s = Inr s1" using run_fits [OF assms(4)] by blast
  have "sorted (0 # run_times xs)" using assms(5) by (simp add: sorted_append)
  from run_keeps [OF assms(1,2) start_ok [OF assms(3)] this s1] assms(6)
  have "damped_sys_ok c v (last (0 # run_times xs)) (de_UNKNOWN E) (Some a) s1" by simp
  moreover have "last (0 # run_times xs) \<le> now" using assms(5) by (auto simp: sorted_append)
  ultimately show ?thesis using quiet_then_told assms(7) s1 by blast
qed

lemma demo_ports_start: "damping_start demo_damping demo_config 7 demo_ports" "ceilings_fit demo_damping (ds_ports demo_ports)"
  by (simp_all add: damping_start_def ceilings_fit_def demo_damping_defs)

theorem damping_converges_witness:
  "\<exists>s1 s2. damping_run demo_damping id [Changes [(7, 1, 5), (7, 2, 6)], Changes [(7, 1, 7), (7, 2, 8), (7, 1, 9)]] demo_ports = Inr s1 \<and>
     damping_run demo_damping id [Check 60, Main (\<lambda>ns. True)] s1 = Inr s2 \<and> told 7 (ds_sent s2) = Some 1"
  by (rule damping_converges [OF demo_config_valid _ demo_ports_start])
    (simp_all add: run_times_def reported_def step_reports_def demo_config_def)

text \<open>
C11 For a port that has just been configured for damping, as long as its valid configuration is not changed and each batch of
  changes with its send and each round of the main loop is done as a whole: in every run of changes, checks and rounds, whichever
  of the sends fail, the state syncd keeps as advertised is what the client was told last, and it is the state of the port unless
  the port is damped or the state waits for the main loop. (Between the halves of a round this can fail, see C38, and so it can
  after damping is disabled, see C39.)
\<close>

theorem damping_client_informed:
  assumes "damping_config_valid c" "v \<noteq> 0" "damping_start E c v s" "sorted (run_times xs)" "damping_run E tr xs s = Inr s'"
    and "reported tr v xs = Some a"
  shows "\<exists>st. map_of (ds_ports s') v = Some st \<and> dp_physical st = a \<and> told v (ds_sent s') = Some (dp_advertised st) \<and>
    (dp_advertised st = a \<or> dp_active st \<or> dp_pending st)"
proof -
  have "sorted (0 # run_times xs)" using assms(4) by simp
  from run_keeps [OF assms(1,2) start_ok [OF assms(3)] this assms(5)] assms(6) show ?thesis
    by (auto simp: damped_sys_ok_def damping_ok_def informed_def split: option.splits)
qed

theorem damping_client_informed_witness:
  "\<exists>s' st. damping_run demo_damping id [Changes [(7, 1, 5), (7, 2, 6), (7, 1, 7), (7, 2, 8), (7, 1, 9)]] demo_ports = Inr s' \<and>
     map_of (ds_ports s') 7 = Some st \<and> dp_physical st = 1 \<and> told 7 (ds_sent s') = Some (dp_advertised st) \<and>
     (dp_advertised st = 1 \<or> dp_active st \<or> dp_pending st)"
proof -
  obtain s' where "damping_run demo_damping id [Changes [(7, 1, 5), (7, 2, 6), (7, 1, 7), (7, 2, 8), (7, 1, 9)]] demo_ports = Inr s'"
    using run_fits [OF demo_ports_start(2)] by blast
  with damping_client_informed [OF demo_config_valid _ demo_ports_start(1) _ this, of 1] show ?thesis
    by (simp add: run_times_def reported_def step_reports_def)
qed

section \<open>One change\<close>

lemma damped_verdict:
  assumes "damping_config_valid (dp_config st)" "applyAiedAlgorithm E st a now = Inr (suppress, st')"
  shows "suppress = (dp_active st \<and> dp_active st')" "dp_physical st' = a"
    "dp_advertised st' = (if suppress then dp_advertised st else a)"
    "suppress \<Longrightarrow> now - dp_start st' < ucast (ac_max_suppress_time (dp_config st)) \<and> ac_reuse_threshold (dp_config st) \<le> dp_penalty st'"
proof -
  obtain s where s: "after_change E st a now = Inr s"
    using assms by (cases "after_change E st a now") (simp_all add: apply_after_change)
  note f = after_change_facts [OF s]
  have r: "(suppress, st') = (if dp_active st \<and> \<not> damping_over s now then (True, s\<lparr>dp_last_suppressed := a\<rparr>)
      else (False, propagate_event E (damping_exit s now) a))"
    using apply_result [OF assms(1) s] assms(2) by simp
  then show "suppress = (dp_active st \<and> dp_active st')" "dp_physical st' = a"
    "dp_advertised st' = (if suppress then dp_advertised st else a)"
    "suppress \<Longrightarrow> now - dp_start st' < ucast (ac_max_suppress_time (dp_config st)) \<and> ac_reuse_threshold (dp_config st) \<le> dp_penalty st'"
    using f by (auto simp: exit_active damping_over_def word_gt_0 split: if_splits)
qed

text \<open>
C20 A change is suppressed exactly when the port was damped before it and still is after it. The port then has been damped for
  less than the longest time, with a penalty not below the threshold of reuse, and the client is told nothing; otherwise
  the new state is advertised. The state of the port is recorded in both cases.
\<close>

theorem suppressed_while_damped:
  assumes "damping_config_valid (dp_config st)" "applyAiedAlgorithm E st a now = Inr (suppress, st')"
  shows "suppress = (dp_active st \<and> dp_active st') \<and> dp_physical st' = a \<and>
     dp_advertised st' = (if suppress then dp_advertised st else a) \<and>
     (suppress \<longrightarrow> now - dp_start st' < ucast (ac_max_suppress_time (dp_config st)) \<and>
        ac_reuse_threshold (dp_config st) \<le> dp_penalty st')"
  using damped_verdict [OF assms] by blast

definition demo_damped :: damping_port where
  "demo_damped = demo_port\<lparr>dp_active := True, dp_start := 50, dp_penalty := 16, dp_last_decay := 50, dp_last_transition := 50,
     dp_physical := 2, dp_advertised := 2\<rparr>"

lemma demo_damped_up: "\<exists>st'. applyAiedAlgorithm demo_damping demo_damped 1 60 = Inr (True, st') \<and> dp_active st'"
proof -
  have s: "after_change demo_damping demo_damped 1 60 =
      Inr (writeDampingCountersToStateDb (settle (count_transition demo_damping (decayPenalty demo_damping demo_damped 60) 1 60) 1 60))"
    by (simp add: after_change_def Let_def transition_form demo_damped_def demo_damping_def)
  have p: "dp_penalty (decayPenalty demo_damping demo_damped 60) = 16"
    by (simp add: decayPenalty_def Let_def demo_damped_def demo_damping_defs)
  let ?s = "writeDampingCountersToStateDb (settle (count_transition demo_damping (decayPenalty demo_damping demo_damped 60) 1 60) 1 60)"
  have v: "damping_config_valid (dp_config demo_damped)" using demo_config_valid by (simp add: demo_damped_def demo_port_def)
  have a: "dp_active demo_damped" by (simp add: demo_damped_def)
  have "\<not> damping_over ?s 60"
    by (simp add: damping_over_def p a) (simp add: demo_damped_def demo_damping_defs)
  then show ?thesis using apply_result [OF v s] a by simp
qed

theorem suppressed_while_damped_witness:
  "\<exists>st'. applyAiedAlgorithm demo_damping demo_damped 1 60 = Inr (True, st') \<and> dp_physical st' = 1 \<and> dp_advertised st' = 2 \<and>
     60 - dp_start st' < 40 \<and> 10 \<le> dp_penalty st'"
proof -
  obtain st' where st': "applyAiedAlgorithm demo_damping demo_damped 1 60 = Inr (True, st')" using demo_damped_up by blast
  have "damping_config_valid (dp_config demo_damped)" using demo_config_valid by (simp add: demo_damped_def demo_port_def)
  from suppressed_while_damped [OF this st'] st' show ?thesis
    by (auto simp: demo_damped_def demo_port_def demo_config_def)
qed

text \<open>
C37 The penalty does not exceed its ceiling, whatever sums it is cut from, as long as the configuration is not changed: from a
  state in which the penalty of a port is within the ceiling of its valid configuration, as it is for a port that has just been
  configured, it is so after every run of changes, checks and rounds of the main loop. If the ceiling is below the threshold of
  suppression and the port was not damped, it never is, and no change of it is suppressed.
\<close>

theorem penalty_bounded:
  assumes "damping_config_valid (dp_config st)" "map_of (ds_ports s) v = Some st"
    and "de_ceiling E (ac_max_suppress_time (dp_config st)) (ac_decay_half_life (dp_config st)) (ac_reuse_threshold (dp_config st)) = Some k"
    and "dp_penalty st \<le> k" "damping_run E tr xs s = Inr s'"
  shows "\<exists>st'. map_of (ds_ports s') v = Some st' \<and> dp_config st' = dp_config st \<and> dp_penalty st' \<le> k \<and>
    (k < ac_suppress_threshold (dp_config st) \<and> \<not> dp_active st \<longrightarrow> \<not> dp_active st' \<and>
       (\<forall>a now suppress st2. applyAiedAlgorithm E st' a now = Inr (suppress, st2) \<longrightarrow> \<not> suppress))"
proof -
  let ?idle = "k < ac_suppress_threshold (dp_config st) \<and> \<not> dp_active st"
  have "port_within (dp_config st) k ?idle v (ds_ports s)" using assms(2,4) by (simp add: port_within_def within_ceiling_def)
  from run_within [OF assms(1,3) this assms(5)] obtain st' where
    st': "map_of (ds_ports s') v = Some st'" "within_ceiling (dp_config st) k ?idle st'" by (auto simp: port_within_def)
  have "dp_config st' = dp_config st" "dp_penalty st' \<le> k" "?idle \<Longrightarrow> \<not> dp_active st'"
    using st'(2) by (auto simp: within_ceiling_def)
  with st'(1) apply_within [OF assms(1) _ st'(2) assms(3)] show ?thesis by blast
qed

lemma demo_damped_fits: "de_ceiling demo_damping 40 20 10 = Some 40"
  by (simp add: demo_damping_def)

theorem penalty_bounded_witness:
  "\<exists>s' st'. damping_run demo_damping id [Changes [(7, 1, 5), (7, 2, 6)], Changes [(7, 1, 7), (7, 2, 8), (7, 1, 9)], Check 60] demo_ports = Inr s' \<and>
     map_of (ds_ports s') 7 = Some st' \<and> dp_penalty st' \<le> 40"
proof -
  obtain s' where s': "damping_run demo_damping id
      [Changes [(7, 1, 5), (7, 2, 6)], Changes [(7, 1, 7), (7, 2, 8), (7, 1, 9)], Check 60] demo_ports = Inr s'"
    using run_fits [OF demo_ports_start(2)] by blast
  from penalty_bounded [of demo_port demo_ports 7 demo_damping 40, OF _ _ _ _ s'] demo_config_valid demo_damped_fits s'
  show ?thesis by (auto simp: demo_ports_def demo_port_def demo_config_def damping_port_new_def)
qed

section \<open>States the client never learns\<close>

text \<open>
C38 A race: a change of the port that comes after the main loop has put the state the client missed into its queue, and before
  it sends it, reaches the client first. The client is then left with the older state, syncd takes it for the advertised one,
  nothing is pending, and no check and no round of the main loop ever corrects it.
\<close>

theorem stale_flush_sticks:
  assumes "ds_queue s = []" "distinct (map fst (ds_ports s))" "map_of (ds_ports s) v = Some st"
    and "damping_config_valid (dp_config st)" "dp_algorithm st = ALGORITHM_AIED"
    and "\<not> dp_active st" "dp_pending st" "dp_advertised st \<noteq> dp_physical st"
    and "dp_penalty st < ac_suppress_threshold (dp_config st)" "dp_physical st \<noteq> a" "a \<noteq> de_DOWN E"
    and "v \<noteq> 0" "tr rid = v" "list_all quiet_step xs"
  shows "\<exists>s1 s2 st2. process_on_port_state_change E tr [(rid, a, now)] (processPendingDampingSync s) = Inr s1 \<and>
    damping_run E tr xs (flushPendingDampingNotifications (\<lambda>ns. True) s1) = Inr s2 \<and>
    map_of (ds_ports s2) v = Some st2 \<and> dp_physical st2 = a \<and> told v (ds_sent s2) = Some (dp_physical st)"
proof -
  from stale_flush [of s v st a E tr rid, OF assms(1-13)] obtain s1 st1 where
    "process_on_port_state_change E tr [(rid, a, now)] (processPendingDampingSync s) = Inr s1"
    "stays v st1 (Some (dp_physical st)) (flushPendingDampingNotifications (\<lambda>ns. True) s1)" "dp_physical st1 = a"
    by blast
  with stays_run [OF this(2) assms(14), of E tr] show ?thesis by (auto simp: stays_def)
qed

definition demo_missed :: damping_sys where
  "demo_missed = demo_ports\<lparr>ds_ports := [(7, demo_port\<lparr>dp_pending := True, dp_physical := 2, dp_advertised := 1, dp_penalty := 9\<rparr>)]\<rparr>"

theorem stale_flush_sticks_witness:
  "\<exists>s1 s2 st2. process_on_port_state_change demo_damping id [(7, 1, 80)] (processPendingDampingSync demo_missed) = Inr s1 \<and>
    damping_run demo_damping id [Check 90, Main (\<lambda>ns. True)] (flushPendingDampingNotifications (\<lambda>ns. True) s1) = Inr s2 \<and>
    map_of (ds_ports s2) 7 = Some st2 \<and> dp_physical st2 = 1 \<and> told 7 (ds_sent s2) = Some 2"
  using stale_flush_sticks [of demo_missed 7 "demo_port\<lparr>dp_pending := True, dp_physical := 2, dp_advertised := 1, dp_penalty := 9\<rparr>"
      1 demo_damping id 7 "[Check 90, Main (\<lambda>ns. True)]" 80] demo_config_valid
  by (simp add: demo_missed_def demo_damping_defs)

section \<open>The configuration\<close>

text \<open>
C21 An attribute of link event damping the client sets on a port syncd knows arrives as it is: the call answers success, in
  synchronous mode with the response of syncd, and the port has the algorithm or the configuration of the attribute, which
  crossed the channel as text; nothing else of the port and no other port changes.
\<close>

theorem damping_config_remote:
  assumes "query_lib_ok L" "v \<noteq> 0" "tr v = Some rid" "pe_id a = custom \<or> pe_id a = custom + 1 \<and> pe_ptr a \<noteq> None"
  shows "setRedisPortExtensionAttribute L custom sync (processLinkEventDampingConfigSet L E sync custom ty tr) ty v (Some a) ports =
    (Inr (status_SUCCESS L),
     AList.update v (with_attribute custom a (case map_of ports v of None \<Rightarrow> damping_port_new E | Some st \<Rightarrow> st)) ports)"
  using assms by (rule extension_attribute_remote)

theorem damping_config_remote_witness:
  "setRedisPortExtensionAttribute demo_query 0x10000000 True
     (processLinkEventDampingConfigSet demo_query demo_damping True 0x10000000 1 Some) 1 7
     (Some \<lparr>pe_id = 0x10000001, pe_s32 = 0, pe_ptr = Some demo_config\<rparr>) [] =
   (Inr 0, [(7, (damping_port_new demo_damping)\<lparr>dp_config := demo_config\<rparr>)])"
  using damping_config_remote [of demo_query 7 Some 7 "\<lparr>pe_id = 0x10000001, pe_s32 = 0, pe_ptr = Some demo_config\<rparr>" "0x10000000"
      True demo_damping 1 "[]"] demo_query_ok
  by (simp add: with_attribute_def demo_query_def)

text \<open>
C39 Damping that is switched off while it holds a state back loses it: the port keeps the flag that it is damped, the checks of
  the timer skip it, and the client is left with the state it was told before, until the port changes again.
\<close>

theorem disabled_while_damped:
  assumes "query_lib_ok L" "v \<noteq> 0" "tr v = Some rid"
    and "ds_queue s = []" "distinct (map fst (ds_ports s))" "map_of (ds_ports s) v = Some st"
    and "dp_active st" "\<not> dp_pending st" "dp_advertised st \<noteq> dp_physical st" "told v (ds_sent s) = Some (dp_advertised st)"
    and "list_all quiet_step xs"
    and "setRedisPortExtensionAttribute L custom sync (processLinkEventDampingConfigSet L E sync custom ty tr) ty v
      (Some \<lparr>pe_id = custom, pe_s32 = ALGORITHM_DISABLED, pe_ptr = None\<rparr>) (ds_ports s) = (r, ports)"
  shows "r = Inr (status_SUCCESS L) \<and> (\<exists>s' st'. damping_run E rids xs (s\<lparr>ds_ports := ports\<rparr>) = Inr s' \<and>
    map_of (ds_ports s') v = Some st' \<and> dp_physical st' = dp_physical st \<and> told v (ds_sent s') = Some (dp_advertised st))"
proof -
  let ?st = "st\<lparr>dp_algorithm := ALGORITHM_DISABLED\<rparr>"
  have r: "r = Inr (status_SUCCESS L)" "ports = AList.update v ?st (ds_ports s)"
    using assms(6,12) extension_attribute_remote [of L v tr rid, OF assms(1-3),
        of "\<lparr>pe_id = custom, pe_s32 = ALGORITHM_DISABLED, pe_ptr = None\<rparr>" custom sync E ty "ds_ports s"]
    by (simp_all add: with_attribute_def)
  have "stays v ?st (Some (dp_advertised st)) (s\<lparr>ds_ports := ports\<rparr>)"
    using assms(4,5,8,10) r(2)
    by (simp add: stays_def quiet_def distinct_update ALGORITHM_AIED_def ALGORITHM_DISABLED_def)
  from stays_run [OF this assms(11), of E rids] r(1) show ?thesis by (auto simp: stays_def)
qed

definition demo_held :: damping_sys where
  "demo_held = \<lparr>ds_ports = [(7, demo_damped\<lparr>dp_physical := 1\<rparr>)], ds_queue = [], ds_sent = [[(7, 2)]]\<rparr>"

theorem disabled_while_damped_witness:
  "\<exists>r ports s' st'. setRedisPortExtensionAttribute demo_query 0x10000000 True
      (processLinkEventDampingConfigSet demo_query demo_damping True 0x10000000 1 Some) 1 7
      (Some \<lparr>pe_id = 0x10000000, pe_s32 = ALGORITHM_DISABLED, pe_ptr = None\<rparr>) (ds_ports demo_held) = (r, ports) \<and>
    damping_run demo_damping id [Check 500, Main (\<lambda>ns. True)] (demo_held\<lparr>ds_ports := ports\<rparr>) = Inr s' \<and>
    map_of (ds_ports s') 7 = Some st' \<and> dp_physical st' = 1 \<and> told 7 (ds_sent s') = Some 2"
proof -
  obtain r ports where call: "setRedisPortExtensionAttribute demo_query 0x10000000 True
      (processLinkEventDampingConfigSet demo_query demo_damping True 0x10000000 1 Some) 1 7
      (Some \<lparr>pe_id = 0x10000000, pe_s32 = ALGORITHM_DISABLED, pe_ptr = None\<rparr>) (ds_ports demo_held) = (r, ports)"
    by fastforce
  show ?thesis
    using disabled_while_damped [of demo_query 7 Some 7 demo_held "demo_damped\<lparr>dp_physical := 1\<rparr>"
        "[Check 500, Main (\<lambda>ns. True)]", OF _ _ _ _ _ _ _ _ _ _ _ call, of id] call demo_query_ok
    by (auto simp: demo_held_def demo_damped_def demo_port_def damping_port_new_def told_def)
qed

end
