(* ===== verification/Meta_Fdb_Props.thy ===== *)
theory Meta_Fdb_Props
  imports Meta_Demo
begin

text \<open>
  A small environment with FDB entries, and a run on it: two switches are created, and each learns an
  entry whose VLAN and bridge port the database does not know. After it, the properties of the flush
  and of the queries.
\<close>

section \<open>The environment\<close>

text \<open>A switch (33), VLANs (38), bridge ports (58) and FDB entries (43).\<close>

definition fdb_demo_attrs :: "attr_md list" where
  "fdb_demo_attrs = [
     demo_md 33 0 ''INIT_SWITCH'' (VT_PRIM PT_BOOL),
     (demo_md 43 0 ''TYPE'' (VT_PRIM PT_INT32))\<lparr>md_isenum := True, md_flag_mandatory_on_create := True\<rparr>,
     (demo_md 43 2 ''BRIDGE_PORT_ID'' VT_OBJECT_ID)\<lparr>md_isoidattribute := True\<rparr>]"

definition fdb_demo_metadata :: "object_type \<Rightarrow> u32 \<Rightarrow> attr_md option" where
  "fdb_demo_metadata t a = find (\<lambda>md. md_objecttype md = t \<and> md_attrid md = a) fdb_demo_attrs"

definition fdb_demo_info :: "object_type \<Rightarrow> ot_info option" where
  "fdb_demo_info t =
     (if t = 33 \<or> t = 38 \<or> t = 58 then
        Some \<lparr>isnonobjectid = False, structmembers = [],
              attrmetadata = filter (\<lambda>md. md_objecttype md = t) fdb_demo_attrs\<rparr>
      else if t = 43 then
        Some \<lparr>isnonobjectid = True,
              structmembers = [\<lparr>sm_membervaluetype = VT_OBJECT_ID, sm_getoid = object_id, sm_setoid = (\<lambda>x. object_id_update (\<lambda>_. x)), sm_allowedobjecttypes = [33]\<rparr>,
                \<lparr>sm_membervaluetype = VT_PRIM PT_MAC, sm_getoid = (\<lambda>k. 0), sm_setoid = (\<lambda>x k. k), sm_allowedobjecttypes = []\<rparr>,
                \<lparr>sm_membervaluetype = VT_OBJECT_ID, sm_getoid = k_bv_id, sm_setoid = (\<lambda>x. k_bv_id_update (\<lambda>_. x)), sm_allowedobjecttypes = [38]\<rparr>],
              attrmetadata = filter (\<lambda>md. md_objecttype md = 43) fdb_demo_attrs\<rparr>
      else None)"

definition fdb_demo_hdr :: sai_headers where
  "fdb_demo_hdr = \<lparr>object_type_valid = (\<lambda>t. t = 33 \<or> t = 38 \<or> t = 58 \<or> t = 43),
     ext_range_start = 0x20000000, ot_switch = 33\<rparr>"

definition fdb_demo :: sai_meta where
  "fdb_demo = \<lparr>object_type_valid = (\<lambda>t. t = 33 \<or> t = 38 \<or> t = 58 \<or> t = 43),
     ext_range_start = 0x20000000, ot_switch = 33,
     ot = (\<lambda>n. if n = OT_ENTRY FDB_ENTRY then 43 else if n = OT_VLAN then 38 else 200),
     attr_id = (\<lambda>n. if n = SWITCH_ATTR_INIT_SWITCH \<or> n = FDB_ENTRY_ATTR_TYPE then 0
                    else if n = FDB_ENTRY_ATTR_BRIDGE_PORT_ID then 2 else 100),
     const = (\<lambda>n. if n = IP_ADDR_FAMILY_IPV4 then 0 else if n = IP_ADDR_FAMILY_IPV6 then 1 else 16),
     get_attr_metadata = fdb_demo_metadata,
     get_object_type_info = fdb_demo_info,
     get_attr_by_id = (\<lambda>a l. find (\<lambda>attr. a_id attr = a) l),
     is_condition_met = (\<lambda>md l. False),
     is_allowed_enum_value = (\<lambda>md v. v = 0 \<or> v = 1),
     is_allowed_object_type = (\<lambda>md t. t = 58),
     objectTypeQuery = redis_saiObjectTypeQuery fdb_demo_hdr,
     switchIdQuery = switch_or_null (redis_saiSwitchIdQuery fdb_demo_hdr),
     attr_copy = (\<lambda>md v. v),
     serialize_meta_key = demo_print_key,
     deserialize_meta_key = demo_read_key\<rparr>"

lemma fdb_demo_ok: "meta_ok fdb_demo"
proof -
  have hdr: "headers_ok fdb_demo"
    by (auto simp: headers_ok_def fdb_demo_def word_le_nat_alt word_less_nat_alt)
  have "sai_headers.truncate fdb_demo = fdb_demo_hdr"
    by (simp add: fdb_demo_def fdb_demo_hdr_def sai_headers.defs)
  then have "queries_ok fdb_demo"
    by (intro redis_meta_queries hdr) (simp_all add: fdb_demo_def)
  moreover have "copy_ok fdb_demo" by (simp add: copy_ok_def fdb_demo_def)
  moreover have "keys_ok fdb_demo" by (simp add: keys_ok_def fdb_demo_def demo_key_roundtrip)
  moreover have "metadata_ok fdb_demo"
  proof -
    have "md \<in> set fdb_demo_attrs \<and> md_objecttype md = t \<and> md_attrid md = a" if "fdb_demo_metadata t a = Some md" for t a md
      using that by (auto simp: fdb_demo_metadata_def find_Some_iff)
    moreover have "(oid_value_type (md_attrvaluetype md) \<longrightarrow> md_isoidattribute md) \<and>
        md_attrvaluetype md \<noteq> VT_ACL_CAPABILITY" if "md \<in> set fdb_demo_attrs" for md
      using that by (auto simp: fdb_demo_attrs_def demo_md_def oid_value_type_def)
    ultimately show ?thesis
      by (auto simp: metadata_ok_def fdb_demo_def fdb_demo_info_def split: if_splits)
  qed
  ultimately show ?thesis by (simp add: meta_ok_def) (simp add: fdb_demo_def)
qed

definition fdb_consts :: fdb_env where
  "fdb_consts = \<lparr>FDB_EVENT_LEARNED = 0, FDB_EVENT_AGED = 1, FDB_EVENT_MOVE = 2, FDB_EVENT_FLUSHED = 3,
     FDB_ENTRY_TYPE_DYNAMIC = 0, FDB_ENTRY_TYPE_STATIC = 1,
     FDB_FLUSH_ATTR_BRIDGE_PORT_ID = 0, FDB_FLUSH_ATTR_BV_ID = 1, FDB_FLUSH_ATTR_ENTRY_TYPE = 2,
     FDB_FLUSH_ENTRY_TYPE_DYNAMIC = 0, FDB_FLUSH_ENTRY_TYPE_STATIC = 1,
     zero_mac = (\<lambda>k. k_other k = []), stack_value = demo_value\<rparr>"

lemma fdb_consts_sel [simp]:
  "FDB_EVENT_LEARNED fdb_consts = 0" "FDB_EVENT_AGED fdb_consts = 1" "FDB_EVENT_MOVE fdb_consts = 2"
  "FDB_EVENT_FLUSHED fdb_consts = 3" "FDB_ENTRY_TYPE_DYNAMIC fdb_consts = 0" "FDB_ENTRY_TYPE_STATIC fdb_consts = 1"
  "stack_value fdb_consts = demo_value"
  by (simp_all add: fdb_consts_def)

section \<open>A run\<close>

definition fdb_sw1 :: oid where "fdb_sw1 = 0x0021000000000000"
definition fdb_sw2 :: oid where "fdb_sw2 = 0x0121000000000001"
definition fdb_vlan1 :: oid where "fdb_vlan1 = 0x0026000000000002"
definition fdb_vlan2 :: oid where "fdb_vlan2 = 0x0126000000000003"
definition fdb_bp1 :: oid where "fdb_bp1 = 0x003a000000000004"
definition fdb_bp2 :: oid where "fdb_bp2 = 0x013a000000000005"

lemma fdb_demo_types [simp]:
  "objectTypeQuery fdb_demo 0 = 0"
  "objectTypeQuery fdb_demo fdb_sw1 = 33" "objectTypeQuery fdb_demo fdb_sw2 = 33"
  "objectTypeQuery fdb_demo fdb_vlan1 = 38" "objectTypeQuery fdb_demo fdb_vlan2 = 38"
  "objectTypeQuery fdb_demo fdb_bp1 = 58" "objectTypeQuery fdb_demo fdb_bp2 = 58"
  by code_simp+

lemma fdb_demo_switches [simp]:
  "switchIdQuery fdb_demo 0 = 0"
  "switchIdQuery fdb_demo fdb_sw1 = fdb_sw1" "switchIdQuery fdb_demo fdb_sw2 = fdb_sw2"
  "switchIdQuery fdb_demo fdb_vlan1 = fdb_sw1" "switchIdQuery fdb_demo fdb_vlan2 = fdb_sw2"
  "switchIdQuery fdb_demo fdb_bp1 = fdb_sw1" "switchIdQuery fdb_demo fdb_bp2 = fdb_sw2"
  by code_simp+

lemmas fdb_ids = fdb_sw1_def fdb_sw2_def fdb_vlan1_def fdb_vlan2_def fdb_bp1_def fdb_bp2_def

lemma fdb_ids_distinct:
  "distinct [0, fdb_sw1, fdb_sw2, fdb_vlan1, fdb_vlan2, fdb_bp1, fdb_bp2]"
  "distinct [fdb_bp2, fdb_bp1, fdb_vlan2, fdb_vlan1, fdb_sw2, fdb_sw1, 0]"
  by (simp_all add: fdb_ids)

lemmas fdb_ids_simps [simp] = fdb_ids_distinct [simplified]

lemma fdb_demo_sel [simp]:
  "object_type_valid fdb_demo t \<longleftrightarrow> t = 33 \<or> t = 38 \<or> t = 58 \<or> t = 43"
  "ot_switch fdb_demo = 33" "ot fdb_demo (OT_ENTRY FDB_ENTRY) = 43"
  "n \<noteq> OT_ENTRY FDB_ENTRY \<Longrightarrow> n \<noteq> OT_VLAN \<Longrightarrow> ot fdb_demo n = 200"
  "attr_id fdb_demo SWITCH_ATTR_INIT_SWITCH = 0" "attr_id fdb_demo FDB_ENTRY_ATTR_TYPE = 0"
  "attr_id fdb_demo FDB_ENTRY_ATTR_BRIDGE_PORT_ID = 2"
  "get_attr_metadata fdb_demo = fdb_demo_metadata"
  "get_object_type_info fdb_demo = fdb_demo_info"
  "get_attr_by_id fdb_demo a l = find (\<lambda>attr. a_id attr = a) l"
  "is_condition_met fdb_demo md l = False"
  "is_allowed_enum_value fdb_demo md v \<longleftrightarrow> v = 0 \<or> v = 1"
  "is_allowed_object_type fdb_demo md t \<longleftrightarrow> t = 58"
  "attr_copy fdb_demo md x = x"
  "serialize_meta_key fdb_demo = demo_print_key"
  "isDashObjectType fdb_demo t \<longleftrightarrow> t = 200"
  by (auto simp: fdb_demo_def isDashObjectType_def kDashTypes_def)


text \<open>The entries, the attributes and what is stored.\<close>

definition fdb_entry1 :: meta_key where
  "fdb_entry1 = (oid_key 43 fdb_sw1)\<lparr>k_bv_id := fdb_vlan1, k_other := [1]\<rparr>"

definition fdb_entry2 :: meta_key where
  "fdb_entry2 = (oid_key 43 fdb_sw2)\<lparr>k_bv_id := fdb_vlan2, k_other := [2]\<rparr>"

definition fdb_a_bp :: "oid \<Rightarrow> sai_attribute" where
  "fdb_a_bp bp = \<lparr>a_id = 2, a_value = demo_value\<lparr>v_oid := bp\<rparr>\<rparr>"

definition fdb_a_type :: sai_attribute where
  "fdb_a_type = \<lparr>a_id = 0, a_value = demo_value\<lparr>v_s32 := 0\<rparr>\<rparr>"

definition fdb_object :: "meta_key \<Rightarrow> sai_attribute list \<Rightarrow> meta_key \<times> sai_object" where
  "fdb_object k attrs = (k, \<lparr>m_metaKey = k, m_attrs =
     map (\<lambda>a. (a_id a, \<lparr>w_meta = the (fdb_demo_metadata (objecttype k) (a_id a)), w_attr = a\<rparr>)) attrs\<rparr>)"

definition fdb_learn :: "meta_key \<Rightarrow> oid \<Rightarrow> fdb_event" where
  "fdb_learn entry bp = \<lparr>event_type = 0, fdb_entry = entry, fdb_attrs = Sai_List [fdb_a_bp bp]\<rparr>"

lemma fdb_learn_sel [simp]:
  "event_type (fdb_learn k bp) = 0" "fdb_entry (fdb_learn k bp) = k" "fdb_attrs (fdb_learn k bp) = Sai_List [fdb_a_bp bp]"
  by (simp_all add: fdb_learn_def)

definition fdb_db1 :: meta_db where
  "fdb_db1 = meta_new\<lparr>m_oids := [(fdb_sw1, 0)], m_saiObjectCollection := [fdb_object (oid_key 33 fdb_sw1) [demo_a_init]]\<rparr>"

definition fdb_db2 :: meta_db where
  "fdb_db2 = meta_new\<lparr>m_oids := [(fdb_sw1, 0), (fdb_sw2, 0)],
     m_saiObjectCollection := [fdb_object (oid_key 33 fdb_sw1) [demo_a_init], fdb_object (oid_key 33 fdb_sw2) [demo_a_init]]\<rparr>"

text \<open>After the first event's ids are inserted, and after its entry is stored; the same for the second.\<close>

definition fdb_db3s :: meta_db where
  "fdb_db3s = meta_new\<lparr>m_oids := [(fdb_sw1, 0), (fdb_sw2, 0), (fdb_vlan1, 0), (fdb_bp1, 0)],
     m_saiObjectCollection := m_saiObjectCollection fdb_db2 @ [fdb_object (oid_key 38 fdb_vlan1) [], fdb_object (oid_key 58 fdb_bp1) []]\<rparr>"

definition fdb_db3 :: meta_db where
  "fdb_db3 = meta_new\<lparr>m_oids := [(fdb_sw1, 1), (fdb_sw2, 0), (fdb_vlan1, 1), (fdb_bp1, 1)],
     m_saiObjectCollection := m_saiObjectCollection fdb_db3s @ [fdb_object fdb_entry1 [fdb_a_bp fdb_bp1, fdb_a_type]]\<rparr>"

definition fdb_db4s :: meta_db where
  "fdb_db4s = meta_new\<lparr>m_oids := m_oids fdb_db3 @ [(fdb_vlan2, 0), (fdb_bp2, 0)],
     m_saiObjectCollection := m_saiObjectCollection fdb_db3 @ [fdb_object (oid_key 38 fdb_vlan2) [], fdb_object (oid_key 58 fdb_bp2) []]\<rparr>"

definition fdb_db4 :: meta_db where
  "fdb_db4 = meta_new\<lparr>m_oids := [(fdb_sw1, 1), (fdb_sw2, 1), (fdb_vlan1, 1), (fdb_bp1, 1), (fdb_vlan2, 1), (fdb_bp2, 1)],
     m_saiObjectCollection := m_saiObjectCollection fdb_db4s @ [fdb_object fdb_entry2 [fdb_a_bp fdb_bp2, fdb_a_type]]\<rparr>"

lemma fdb_entry_sel [simp]:
  "objecttype fdb_entry1 = 43" "object_id fdb_entry1 = fdb_sw1" "k_bv_id fdb_entry1 = fdb_vlan1"
  "objecttype fdb_entry2 = 43" "object_id fdb_entry2 = fdb_sw2" "k_bv_id fdb_entry2 = fdb_vlan2"
  "fdb_entry1 \<noteq> oid_key t k" "oid_key t k \<noteq> fdb_entry1" "fdb_entry2 \<noteq> oid_key t k" "oid_key t k \<noteq> fdb_entry2"
  "fdb_entry1 \<noteq> fdb_entry2" "fdb_entry2 \<noteq> fdb_entry1"
  "entry_key fdb_demo FDB_ENTRY fdb_entry1 = fdb_entry1" "entry_key fdb_demo FDB_ENTRY fdb_entry2 = fdb_entry2"
  by (auto simp: fdb_entry1_def fdb_entry2_def oid_key_def entry_key_def)

lemmas fdb_metadata = fdb_demo_metadata_def fdb_demo_attrs_def demo_md_def fdb_demo_info_def

lemmas fdb_states = fdb_db1_def fdb_db2_def fdb_db3s_def fdb_db3_def fdb_db4s_def fdb_db4_def fdb_object_def meta_new_def

lemma fdb_create_sw1:
  "meta_create fdb_demo (SAI_STATUS_SUCCESS, fdb_sw1) 33 (Some 0) 0 (Sai_List [demo_a_init]) meta_new =
     (Inr SAI_STATUS_SUCCESS, fdb_db1)"
  by (simp add: meta_create_def demo_validation demo_update fdb_metadata fdb_states demo_a_init_def MAX_LIST_COUNT_def)

lemma fdb_create_sw2:
  "meta_create fdb_demo (SAI_STATUS_SUCCESS, fdb_sw2) 33 (Some 0) 0 (Sai_List [demo_a_init]) fdb_db1 =
     (Inr SAI_STATUS_SUCCESS, fdb_db2)"
  by (simp add: meta_create_def demo_validation demo_update fdb_metadata fdb_states demo_a_init_def MAX_LIST_COUNT_def)

lemma snoop_new:
  assumes "x \<noteq> 0" "objectTypeQuery h x = t" "t \<noteq> 0" "object_type_valid h t"
    and "map_of (m_oids s) x = None" "map_of (m_saiObjectCollection s) (oid_key t x) = None"
  shows "meta_fdb_event_snoop_oid h x s = (Inr (), s\<lparr>m_oids := AList.update x 0 (m_oids s),
     m_saiObjectCollection := AList.update (oid_key t x) \<lparr>m_metaKey = oid_key t x, m_attrs = []\<rparr> (m_saiObjectCollection s)\<rparr>)"
  using assms
  by (simp add: meta_fdb_event_snoop_oid_def snoop_object_def seq_def gets_def ret_def zoom_def objectReferenceInsert_def
      createObject_def sai_object_new_def objectReferenceExists_def objectExists_def has_key_def Let_def)

lemma fdb_snooped1: "fdb_snoop fdb_demo (fdb_learn fdb_entry1 fdb_bp1) fdb_db2 = (Inr (), fdb_db3s)"
  by (simp add: fdb_snoop_def fdb_learn_def seq_Inr fdb_snoop_attr_def fdb_a_bp_def fdb_metadata fdb_states snoop_new lift_def)

lemma fdb_snooped2: "fdb_snoop fdb_demo (fdb_learn fdb_entry2 fdb_bp2) fdb_db3 = (Inr (), fdb_db4s)"
  by (simp add: fdb_snoop_def fdb_learn_def seq_Inr fdb_snoop_attr_def fdb_a_bp_def fdb_metadata fdb_states snoop_new lift_def)


section \<open>Learning\<close>

lemma fdb_learned_attrs: "learned_attrs fdb_demo fdb_consts (Sai_List [fdb_a_bp bp]) = Sai_List [fdb_a_bp bp, fdb_a_type]"
  by (simp add: learned_attrs_def fdb_a_type_def)

lemmas fdb_checks = meta_generic_validation_create_def meta_extract_switch_id_def create_on_switch_check_def create_steps_def
  meta_generic_validate_non_object_on_create_def non_object_member_check_def create_attr_check_def create_value_check_def
  meta_generic_validation_objlist_def enum_check_def enum_list_check_def create_exists_check_def create_metadata_check_def
  get_attributes_metadata_def mandatory_check_def conditional_check_def create_key_check_def attr_is_key_def
  objectExists_def objectReferenceExists_def has_key_def check_all.simps fdb_a_bp_def fdb_a_type_def MAX_LIST_COUNT_def enum_value_def

lemma fdb_validated:
  "meta_generic_validation_create fdb_demo fdb_db3s fdb_entry1 fdb_sw1 (Sai_List [fdb_a_bp fdb_bp1, fdb_a_type]) = ok"
  "meta_generic_validation_create fdb_demo fdb_db4s fdb_entry2 fdb_sw2 (Sai_List [fdb_a_bp fdb_bp2, fdb_a_type]) = ok"
  by (simp_all add: fdb_checks fdb_metadata fdb_states)

lemmas fdb_post = meta_generic_validation_post_create_def post_create_connect_def post_create_object_def gets_def zoom_def
  createObject_def sai_object_new_def post_create_references_def increment_members_def objectReferenceIncrement_def
  objectReferenceExists_def ref_at_def post_create_attributes_def modify_def post_create_attr_def post_create_attr_refs_def
  setObjectAttr_def setAttr_def attr_wrapper_new_def shouldCache_iff objectExists_def has_key_def INT32_MAX_def attr_is_key_def

lemma fdb_stored:
  "meta_generic_validation_post_create fdb_demo fdb_entry1 fdb_sw1 [fdb_a_bp fdb_bp1, fdb_a_type] fdb_db3s = (Inr (), fdb_db3)"
  "meta_generic_validation_post_create fdb_demo fdb_entry2 fdb_sw2 [fdb_a_bp fdb_bp2, fdb_a_type] fdb_db4s = (Inr (), fdb_db4)"
  by (simp_all add: fdb_post seq_def ret_def fdb_metadata fdb_states fdb_a_bp_def fdb_a_type_def)

lemma fdb_learned1: "meta_sai_on_fdb_event_single fdb_demo fdb_consts (fdb_learn fdb_entry1 fdb_bp1) fdb_db2 = (Inr (), fdb_db3)"
proof -
  have "\<not> objectExists (m_saiObjectCollection fdb_db3s) fdb_entry1"
    by (simp add: fdb_states objectExists_def has_key_def)
  then have "fdb_learned fdb_demo fdb_consts (fdb_learn fdb_entry1 fdb_bp1) fdb_db3s = (Inr (), fdb_db3)"
    by (simp add: fdb_learned_def fdb_key_def fdb_learned_attrs fdb_validated fdb_stored)
  then show ?thesis
    using fdb_snooped1 by (simp add: meta_sai_on_fdb_event_single_def seq_def)
qed

lemma fdb_learned2: "meta_sai_on_fdb_event_single fdb_demo fdb_consts (fdb_learn fdb_entry2 fdb_bp2) fdb_db3 = (Inr (), fdb_db4)"
proof -
  have "\<not> objectExists (m_saiObjectCollection fdb_db4s) fdb_entry2"
    by (simp add: fdb_states objectExists_def has_key_def)
  then have "fdb_learned fdb_demo fdb_consts (fdb_learn fdb_entry2 fdb_bp2) fdb_db4s = (Inr (), fdb_db4)"
    by (simp add: fdb_learned_def fdb_key_def fdb_learned_attrs fdb_validated fdb_stored)
  then show ?thesis
    using fdb_snooped2 by (simp add: meta_sai_on_fdb_event_single_def seq_def)
qed

section \<open>The states are reachable\<close>

definition fdb_ntf :: ntf_env where
  "fdb_ntf = \<lparr>ntf_queue = 200, ntf_bfd_session = 200, ntf_ha_set = 200, ntf_ha_scope = 200, ntf_twamp_session = 200,
     ntf_flow_bulk_get_session = 200, ntf_tam_tel_type = 200, port_host_tx_ready_statuses = [], twamp_session_stats = [],
     port_oper_status_members = [(''port_id'', [58])], icmp_echo_session_members = []\<rparr>"

lemma fdb_ntf_ok: "ntf_ok fdb_demo fdb_ntf"
  by (auto simp: ntf_ok_def ntf_types_def fdb_ntf_def oid_type_def fdb_demo_info_def)

lemma fdb_refs:
  "attr_oids fdb_demo fdb_entry1 (fdb_a_bp x) = [x]" "attr_oids fdb_demo fdb_entry2 (fdb_a_bp x) = [x]"
  "attr_oids fdb_demo fdb_entry1 fdb_a_type = []" "attr_oids fdb_demo fdb_entry2 fdb_a_type = []"
  "member_oids fdb_demo fdb_entry1 = [fdb_sw1, fdb_vlan1]" "member_oids fdb_demo fdb_entry2 = [fdb_sw2, fdb_vlan2]"
  by (simp_all add: demo_ref_defs fdb_metadata fdb_a_bp_def fdb_a_type_def)

lemma fdb_init_refs: "attr_oids fdb_demo (oid_key 33 k) demo_a_init = []" "member_oids fdb_demo (oid_key 33 k) = []"
  by (simp_all add: demo_ref_defs fdb_metadata demo_a_init_def)

lemma fdb_stored_refs:
  "stored_refs fdb_demo (m_saiObjectCollection meta_new) = 0"
  "stored_refs fdb_demo (m_saiObjectCollection fdb_db1) = 0"
  "stored_refs fdb_demo (m_saiObjectCollection fdb_db3s) = 0"
  "stored_refs fdb_demo (m_saiObjectCollection fdb_db4s) = 3"
  by (simp_all add: stored_refs_Cons fdb_states)
    (simp_all add: stored_refs_def demo_ref_defs fdb_metadata demo_a_init_def fdb_a_bp_def fdb_a_type_def)

lemma fdb_learn_step:
  assumes "meta_sai_on_fdb_event_single fdb_demo fdb_consts (fdb_learn k bp) s = (Inr (), s')"
    and "fdb_reported_ok fdb_demo (fdb_learn k bp)"
    and "create_room fdb_demo (snd (fdb_snoop fdb_demo (fdb_learn k bp) s)) (fdb_key fdb_demo (fdb_learn k bp)) [fdb_a_bp bp, fdb_a_type]"
  shows "meta_step fdb_demo s s'"
proof -
  have "fdb_room fdb_demo fdb_consts (fdb_learn k bp) (snd (fdb_snoop fdb_demo (fdb_learn k bp) s))"
    using assms(3) by (simp add: fdb_room_def fdb_learned_attrs)
  with assms(2) have "notification_ok fdb_demo fdb_consts fdb_ntf s (Ntf_Fdb (Sai_List [fdb_learn k bp]))"
    by (simp add: notification_ok_def fdb_ntf_ok)
  from step_notification [OF this] assms(1) show ?thesis
    by (simp add: meta_sai_on_fdb_event_def on_each_def seq_def ret_def)
qed

lemma fdb_reachable: "meta_reachable fdb_demo fdb_db4"
proof -
  have "meta_step fdb_demo meta_new fdb_db1"
    using step_create [of fdb_demo meta_new 33 "Sai_List [demo_a_init]" 0 "(SAI_STATUS_SUCCESS, fdb_sw1)" "Some 0"]
    by (simp add: fdb_create_sw1 new_oid_ok_def create_room_def refs_boundI fdb_stored_refs fdb_init_refs
        INT32_MAX_def)
  then have 1: "meta_reachable fdb_demo fdb_db1" by (rule reach_step [OF reach_new])
  have "meta_step fdb_demo fdb_db1 fdb_db2"
    using step_create [of fdb_demo fdb_db1 33 "Sai_List [demo_a_init]" 0 "(SAI_STATUS_SUCCESS, fdb_sw2)" "Some 0"]
    by (simp add: fdb_create_sw2 new_oid_ok_def create_room_def refs_boundI fdb_stored_refs fdb_init_refs
        INT32_MAX_def)
  then have 2: "meta_reachable fdb_demo fdb_db2" by (rule reach_step [OF 1])
  have key: "fdb_key fdb_demo (fdb_learn fdb_entry1 bp) = fdb_entry1" "fdb_key fdb_demo (fdb_learn fdb_entry2 bp) = fdb_entry2" for bp
    by (simp_all add: fdb_key_def)
  have "fdb_reported_ok fdb_demo (fdb_learn fdb_entry1 fdb_bp1)" "fdb_reported_ok fdb_demo (fdb_learn fdb_entry2 fdb_bp2)"
    by (simp_all add: fdb_reported_ok_def reported_ok_def key fdb_refs oid_type_def fdb_demo_info_def)
  note step = fdb_learn_step [OF fdb_learned1 this(1)] fdb_learn_step [OF fdb_learned2 this(2)]
  have "meta_step fdb_demo fdb_db2 fdb_db3"
    by (rule step) (simp add: fdb_snooped1 key create_room_def refs_boundI fdb_stored_refs fdb_refs INT32_MAX_def)
  then have 3: "meta_reachable fdb_demo fdb_db3" by (rule reach_step [OF 2])
  have "meta_step fdb_demo fdb_db3 fdb_db4"
    by (rule step) (simp add: fdb_snooped2 key create_room_def refs_boundI fdb_stored_refs fdb_refs INT32_MAX_def)
  then show ?thesis by (rule reach_step [OF 3])
qed

text \<open>
  Which FDB entries a flush removes from the database of the metadata layer, and what a statistics
  query has to meet before the vendor is asked.
\<close>

section \<open>Flush\<close>

text \<open>
  The entries a flush is for: of one of its types, and of the bridge port and the VLAN or bridge
  asked for, where they are.
\<close>

definition flush_covers ::
  "sai_meta \<Rightarrow> fdb_env \<Rightarrow> sai_attribute list \<Rightarrow> meta_key \<Rightarrow> sai_object \<Rightarrow> bool" where
  "flush_covers h f attrs k obj \<longleftrightarrow>
     objecttype k = ot h (OT_ENTRY FDB_ENTRY) \<and>
     (\<exists>w. getAttr obj (attr_id h FDB_ENTRY_ATTR_TYPE) = Some w \<and> v_s32 (a_value (w_attr w)) \<in> set (flush_types h f attrs)) \<and>
     (let bp = null_or_oid (get_attr_by_id h (FDB_FLUSH_ATTR_BRIDGE_PORT_ID f) attrs) in
        bp \<noteq> 0 \<longrightarrow> (\<exists>w. getAttr obj (attr_id h FDB_ENTRY_ATTR_BRIDGE_PORT_ID) = Some w \<and> v_oid (a_value (w_attr w)) = bp)) \<and>
     (let bv = null_or_oid (get_attr_by_id h (FDB_FLUSH_ATTR_BV_ID f) attrs) in bv \<noteq> 0 \<longrightarrow> k_bv_id k = bv)"

text \<open>The search of the metadata library: the first attribute of an id.\<close>

definition first_attr :: "sai_meta \<Rightarrow> bool" where
  "first_attr h \<longleftrightarrow> (\<forall>aid attrs. get_attr_by_id h aid attrs = find (\<lambda>a. a_id a = aid) attrs) \<and>
     attr_id h FDB_ENTRY_ATTR_TYPE \<noteq> attr_id h FDB_ENTRY_ATTR_BRIDGE_PORT_ID"

lemma flush_event_covers:
  assumes "meta_inv h s" "first_attr h"
  shows "(\<exists>type \<in> set (flush_types h f attrs). flushed_by h (flush_event h f sw attrs type) s k) \<longleftrightarrow>
     (\<exists>obj. map_of (m_saiObjectCollection s) k = Some obj \<and> flush_covers h f attrs k obj)"
proof -
  have key: "m_metaKey obj = k" if "map_of (m_saiObjectCollection s) k = Some obj" for obj
    using db_inv_object [OF meta_invD(1) [OF assms(1)] that] by (simp add: object_ok_def)
  have find: "get_attr_by_id h aid l = find (\<lambda>a. a_id a = aid) l" for aid l
    using assms(2) by (simp add: first_attr_def)
  have ids: "attr_id h FDB_ENTRY_ATTR_BRIDGE_PORT_ID \<noteq> attr_id h FDB_ENTRY_ATTR_TYPE"
    using assms(2) by (auto simp: first_attr_def)
  have "flushed_by h (flush_event h f sw attrs type) s k \<longleftrightarrow>
      (\<exists>obj. map_of (m_saiObjectCollection s) k = Some obj \<and> objecttype k = ot h (OT_ENTRY FDB_ENTRY) \<and>
        (\<exists>w. getAttr obj (attr_id h FDB_ENTRY_ATTR_TYPE) = Some w \<and> v_s32 (a_value (w_attr w)) = type) \<and>
        (let bp = null_or_oid (get_attr_by_id h (FDB_FLUSH_ATTR_BRIDGE_PORT_ID f) attrs) in
           bp \<noteq> 0 \<longrightarrow> (\<exists>w. getAttr obj (attr_id h FDB_ENTRY_ATTR_BRIDGE_PORT_ID) = Some w \<and> v_oid (a_value (w_attr w)) = bp)) \<and>
        (let bv = null_or_oid (get_attr_by_id h (FDB_FLUSH_ATTR_BV_ID f) attrs) in bv \<noteq> 0 \<longrightarrow> k_bv_id k = bv))" for type
    using ids key
    by (auto simp: flushed_by_def flush_toremove_mem [OF assms(1)] flush_event_def find flush_matches_def Let_def
        split: option.splits if_splits)
  then show ?thesis
    by (auto simp: flush_covers_def)
qed

text \<open>
C16 A flush that passes its checks removes exactly the FDB entries it covers and leaves every other object as it is, in every
  state the layer can get into. An entry is covered by its type, bridge port and VLAN; the switch it is on is not looked
  at, so the entries of other switches go too.
\<close>

theorem flush_exact:
  assumes "meta_ok h" "meta_reachable h s" "first_attr h" "flush_check h s sw l = ok"
  shows "\<exists>s'. flushFdbEntries h f SAI_STATUS_SUCCESS sw l s = (Inr SAI_STATUS_SUCCESS, s') \<and>
     (\<forall>k. map_of (m_saiObjectCollection s') k =
        (case map_of (m_saiObjectCollection s) k of
           None \<Rightarrow> None
         | Some obj \<Rightarrow> if flush_covers h f (elems l) k obj then None else Some obj))"
proof -
  have inv: "meta_inv h s" by (rule meta_reachable_inv [OF assms(1,2)])
  let ?evs = "map (flush_event h f sw (elems l)) (flush_types h f (elems l))"
  have "\<forall>data \<in> set ?evs. list_ok (fdb_attrs data)" by (simp add: flush_event_def)
  from consolidated_flushes [OF assms(1) inv this] obtain s' where
    s': "forM (meta_sai_on_fdb_flush_event_consolidated h) ?evs s = (Inr (), s')"
      "\<forall>k. map_of (m_saiObjectCollection s') k =
         (if \<exists>data \<in> set ?evs. flushed_by h data s k then None else map_of (m_saiObjectCollection s) k)" by blast
  have "(\<exists>data \<in> set ?evs. flushed_by h data s k) \<longleftrightarrow>
      (\<exists>obj. map_of (m_saiObjectCollection s) k = Some obj \<and> flush_covers h f (elems l) k obj)" for k
    using flush_event_covers [OF inv assms(3), of f "elems l" sw k] by simp
  with s' assms(4) show ?thesis
    by (intro exI [of _ s'])
      (simp add: flushFdbEntries_def guarded_def on_success_def seq_def ret_def forM_map split: option.split)
qed

text \<open>Two switches have learned an entry each: a flush of the dynamic entries of the first one removes both.\<close>

theorem flush_exact_witness:
  "\<exists>s'. flushFdbEntries fdb_demo fdb_consts SAI_STATUS_SUCCESS fdb_sw1 (Sai_List []) fdb_db4 = (Inr SAI_STATUS_SUCCESS, s') \<and>
     objectExists (m_saiObjectCollection fdb_db4) fdb_entry2 \<and> key_switch fdb_demo fdb_entry2 = fdb_sw2 \<and> fdb_sw2 \<noteq> fdb_sw1 \<and>
     \<not> objectExists (m_saiObjectCollection s') fdb_entry1 \<and> \<not> objectExists (m_saiObjectCollection s') fdb_entry2 \<and>
     objectExists (m_saiObjectCollection s') (oid_key 38 fdb_vlan1)"
proof -
  have first: "first_attr fdb_demo" by (simp add: first_attr_def)
  have check: "flush_check fdb_demo fdb_db4 fdb_sw1 (Sai_List []) = ok"
    by (simp add: flush_check_def MAX_LIST_COUNT_def objectReferenceExists_def has_key_def fdb_db4_def)
  have types: "flush_types fdb_demo fdb_consts [] = [0]" by (simp add: flush_types_def)
  have cover: "flush_covers fdb_demo fdb_consts [] k (snd (fdb_object k [fdb_a_bp bp, fdb_a_type]))" if "objecttype k = 43" for k bp
    using that by (simp add: flush_covers_def types null_or_oid_def fdb_object_def getAttr_def) (simp add: fdb_a_bp_def fdb_a_type_def)
  have objs: "map_of (m_saiObjectCollection fdb_db4) fdb_entry1 = Some (snd (fdb_object fdb_entry1 [fdb_a_bp fdb_bp1, fdb_a_type]))"
    "map_of (m_saiObjectCollection fdb_db4) fdb_entry2 = Some (snd (fdb_object fdb_entry2 [fdb_a_bp fdb_bp2, fdb_a_type]))"
    "map_of (m_saiObjectCollection fdb_db4) (oid_key 38 fdb_vlan1) = Some (snd (fdb_object (oid_key 38 fdb_vlan1) []))"
    by (simp_all add: fdb_states)
  have keep: "\<not> flush_covers fdb_demo fdb_consts [] (oid_key 38 fdb_vlan1) obj" for obj
    by (simp add: flush_covers_def)
  from flush_exact [OF fdb_demo_ok fdb_reachable first check, of fdb_consts] show ?thesis
    using objs cover keep by (auto simp: objectExists_def has_key_def key_switch_def)
qed

end
