(* ===== verification/Meta_Queries.thy ===== *)
theory Meta_Queries
  imports Meta_Api
begin

text \<open>
  The queries of the metadata layer (\<open>meta/Meta.cpp\<close>): resources, capabilities and statistics. They
  check their arguments on the database, hand the call to the interface below, and store nothing.
\<close>

section \<open>The environment and the shape of a query\<close>

text \<open>Further metadata: resource attributes, the statistics of a type (if it has any) and the modes.\<close>

record query_env =
  isresourcetype :: "attr_md \<Rightarrow> bool"
  stat_enum :: "object_type \<Rightarrow> u32 list option"
  stats_modes :: "u32 list"
  STATS_MODE_READ :: u32

definition META_COUNTERS_COUNT_MSB :: u32 where
  "META_COUNTERS_COUNT_MSB = 0x80000000"

text \<open>
  The answer of a query: its status, and what the interface below gave when it was asked. The answer
  of the interface below is an argument, looked at only when the checks pass.
\<close>

definition passed :: "checked \<Rightarrow> sai_status \<times> 'a \<Rightarrow> fault + (sai_status \<times> 'a option)" where
  "passed c answer =
     (case c of
        Inl e \<Rightarrow> Inl e
      | Inr st \<Rightarrow> Inr (if st = SAI_STATUS_SUCCESS then (fst answer, Some (snd answer)) else (st, None)))"

text \<open>
  The checks they start with. That the switch exists, which the code looks up next, is only logged.
\<close>

definition switch_and_type_check :: "sai_meta \<Rightarrow> oid \<Rightarrow> object_type \<Rightarrow> checked" where
  "switch_and_type_check h switchId objectType =
     (if objectTypeQuery h switchId \<noteq> ot_switch h then INVALID
      else if \<not> object_type_valid h objectType then INVALID
      else ok)"

definition not_null :: "bool \<Rightarrow> checked" where
  "not_null p = (if p then ok else INVALID)"

section \<open>Availability of resources\<close>

definition availability_attr_check ::
  "sai_meta \<Rightarrow> query_env \<Rightarrow> object_type \<Rightarrow> u32 list \<Rightarrow> sai_attribute \<Rightarrow> checked" where
  "availability_attr_check h q objectType attrs attr =
     (case get_attr_metadata h objectType (a_id attr) of
        None \<Rightarrow> INVALID
      | Some md \<Rightarrow>
          if a_id attr \<in> set attrs then INVALID
          else if \<not> isresourcetype q md then INVALID
          else case md_attrvaluetype md of
            VT_PRIM PT_INT32 \<Rightarrow>
              (if md_isenum md \<and> \<not> is_allowed_enum_value h md (v_s32 (a_value attr)) then INVALID else ok)
          | VT_OBJECT_ID \<Rightarrow>
              (if \<not> object_type_valid h (objectTypeQuery h (v_oid (a_value attr))) then INVALID else ok)
          | _ \<Rightarrow> Inl (Throw ''value type not supported yet, FIXME!''))"

fun availability_attrs_check ::
  "sai_meta \<Rightarrow> query_env \<Rightarrow> object_type \<Rightarrow> u32 list \<Rightarrow> sai_attribute list \<Rightarrow> checked" where
  "availability_attrs_check h q objectType attrs [] = ok"
| "availability_attrs_check h q objectType attrs (attr # rest) =
     check_then (availability_attr_check h q objectType attrs attr)
       (availability_attrs_check h q objectType (a_id attr # attrs) rest)"

definition meta_objectTypeGetAvailability ::
  "sai_meta \<Rightarrow> query_env \<Rightarrow> sai_status \<times> u64 \<Rightarrow> oid \<Rightarrow> object_type \<Rightarrow> sai_attribute sai_list \<Rightarrow> bool \<Rightarrow>
     fault + (sai_status \<times> u64 option)" where
  "meta_objectTypeGetAvailability h q answer switchId objectType attrList count_ptr =
     passed
       (check_then (switch_and_type_check h switchId objectType)
         (check_then (not_null (list_count attrList = 0 \<or> \<not> list_null attrList))
           (check_then (not_null count_ptr)
             (check_then (not_null (get_object_type_info h objectType \<noteq> None))
               (availability_attrs_check h q objectType [] (elems attrList))))))
       answer"

section \<open>Capabilities of attributes\<close>

definition meta_queryAttributeCapability ::
  "sai_meta \<Rightarrow> sai_status \<times> 'a \<Rightarrow> oid \<Rightarrow> object_type \<Rightarrow> u32 \<Rightarrow> bool \<Rightarrow> fault + (sai_status \<times> 'a option)" where
  "meta_queryAttributeCapability h answer switchId objectType attrId capability_ptr =
     passed
       (check_then (switch_and_type_check h switchId objectType)
         (check_then (not_null (get_attr_metadata h objectType attrId \<noteq> None))
           (not_null capability_ptr)))
       answer"

text \<open>The list for the values is in and out; the values it comes back with are only logged.\<close>

definition meta_queryAttributeEnumValuesCapability ::
  "sai_meta \<Rightarrow> sai_status \<times> 'a \<Rightarrow> oid \<Rightarrow> object_type \<Rightarrow> u32 \<Rightarrow> 32 word sai_list option \<Rightarrow>
     fault + (sai_status \<times> 'a option)" where
  "meta_queryAttributeEnumValuesCapability h answer switchId objectType attrId enumValuesCapability =
     passed
       (check_then (switch_and_type_check h switchId objectType)
         (case get_attr_metadata h objectType attrId of
            None \<Rightarrow> INVALID
          | Some md \<Rightarrow>
              if \<not> md_isenum md \<and> \<not> md_isenumlist md then INVALID
              else case enumValuesCapability of
                None \<Rightarrow> INVALID
              | Some l \<Rightarrow> VALIDATION_LIST l))
       answer"

section \<open>Statistics\<close>

text \<open>
  The number of counters is an argument of its own, beside the pointer to their ids: a null pointer
  is \<open>None\<close>, and reading past the end is a fault.
\<close>

fun stat_ids_check :: "u32 list \<Rightarrow> nat \<Rightarrow> u32 list \<Rightarrow> checked" where
  "stat_ids_check en 0 ids = ok"
| "stat_ids_check en (Suc n) [] = Inl (Null_Deref ''counter_ids'')"
| "stat_ids_check en (Suc n) (x # ids) = (if x \<notin> set en then INVALID else stat_ids_check en n ids)"

definition stats_number :: "meta_db \<Rightarrow> u32 \<Rightarrow> u32" where
  "stats_number s number_of_counters =
     (if m_unittestsEnabled s then number_of_counters AND NOT META_COUNTERS_COUNT_MSB else number_of_counters)"

definition meta_validate_stats ::
  "sai_meta \<Rightarrow> query_env \<Rightarrow> meta_db \<Rightarrow> object_type \<Rightarrow> oid \<Rightarrow> u32 \<Rightarrow> u32 list option \<Rightarrow> bool \<Rightarrow> u32 \<Rightarrow> checked" where
  "meta_validate_stats h q s object_type x number_of_counters counter_ids counters_ptr mode =
     (let n = stats_number s number_of_counters in
      if \<not> object_type_valid h object_type then INVALID
      else if objectTypeQuery h x \<noteq> object_type then INVALID
      else if n = 0 then INVALID
      else case counter_ids of
        None \<Rightarrow> INVALID
      | Some ids \<Rightarrow>
          if \<not> counters_ptr then INVALID
          else check_then (meta_sai_validate_oid h s object_type (Some x) False)
            (if get_object_type_info h object_type = None then INVALID
             else case stat_enum q object_type of
               None \<Rightarrow> INVALID
             | Some statenum \<Rightarrow>
                 check_then (stat_ids_check statenum (unat n) ids)
                   (if mode \<notin> set (stats_modes q) then INVALID else ok)))"

definition meta_getStats ::
  "sai_meta \<Rightarrow> query_env \<Rightarrow> sai_status \<times> u64 list \<Rightarrow> meta_db \<Rightarrow> object_type \<Rightarrow> oid \<Rightarrow> u32 \<Rightarrow> u32 list option \<Rightarrow> bool \<Rightarrow>
     fault + (sai_status \<times> u64 list option)" where
  "meta_getStats h q answer s object_type x number_of_counters counter_ids counters_ptr =
     passed (meta_validate_stats h q s object_type x number_of_counters counter_ids counters_ptr
       (STATS_MODE_READ q)) answer"

definition meta_getStatsExt ::
  "sai_meta \<Rightarrow> query_env \<Rightarrow> sai_status \<times> u64 list \<Rightarrow> meta_db \<Rightarrow> object_type \<Rightarrow> oid \<Rightarrow> u32 \<Rightarrow> u32 list option \<Rightarrow>
     u32 \<Rightarrow> bool \<Rightarrow> fault + (sai_status \<times> u64 list option)" where
  "meta_getStatsExt h q answer s object_type x number_of_counters counter_ids mode counters_ptr =
     passed (meta_validate_stats h q s object_type x number_of_counters counter_ids counters_ptr mode) answer"

definition meta_clearStats ::
  "sai_meta \<Rightarrow> query_env \<Rightarrow> sai_status \<Rightarrow> meta_db \<Rightarrow> object_type \<Rightarrow> oid \<Rightarrow> u32 \<Rightarrow> u32 list option \<Rightarrow>
     fault + sai_status" where
  "meta_clearStats h q answer s object_type x number_of_counters counter_ids =
     bindE (passed (meta_validate_stats h q s object_type x number_of_counters counter_ids True
       (STATS_MODE_READ q)) (answer, ())) (\<lambda>r. Inr (fst r))"

definition VALIDATION_STATS_LIST :: "'a sai_list \<Rightarrow> checked" where
  "VALIDATION_STATS_LIST l =
     (if MAX_LIST_COUNT < list_count l \<or> list_count l = 0 \<and> \<not> list_null l \<or> 0 < list_count l \<and> list_null l
      then INVALID else ok)"

text \<open>The two queries for the statistics a type has differ in the call below and in their list.\<close>

definition stats_capability_check ::
  "sai_meta \<Rightarrow> query_env \<Rightarrow> oid \<Rightarrow> object_type \<Rightarrow> 'a sai_list option \<Rightarrow> checked" where
  "stats_capability_check h q switchId objectType stats_capability =
     check_then (switch_and_type_check h switchId objectType)
       (case stats_capability of
          None \<Rightarrow> INVALID
        | Some l \<Rightarrow>
            check_then (VALIDATION_STATS_LIST l)
              (if get_object_type_info h objectType = None then INVALID
               else if stat_enum q objectType = None then INVALID
               else ok))"

definition meta_queryStatsCapability ::
  "sai_meta \<Rightarrow> query_env \<Rightarrow> sai_status \<times> 'a sai_list \<Rightarrow> oid \<Rightarrow> object_type \<Rightarrow> 'a sai_list option \<Rightarrow>
     fault + (sai_status \<times> 'a sai_list option)" where
  "meta_queryStatsCapability h q answer switchId objectType stats_capability =
     passed (stats_capability_check h q switchId objectType stats_capability) answer"

definition meta_queryStatsStCapability ::
  "sai_meta \<Rightarrow> query_env \<Rightarrow> sai_status \<times> 'a sai_list \<Rightarrow> oid \<Rightarrow> object_type \<Rightarrow> 'a sai_list option \<Rightarrow>
     fault + (sai_status \<times> 'a sai_list option)" where
  "meta_queryStatsStCapability h q answer switchId objectType stats_capability =
     passed (stats_capability_check h q switchId objectType stats_capability) answer"

definition meta_bulkGetStats :: sai_status where
  "meta_bulkGetStats = SAI_STATUS_NOT_IMPLEMENTED"

definition meta_bulkClearStats :: sai_status where
  "meta_bulkClearStats = SAI_STATUS_NOT_IMPLEMENTED"

section \<open>What a statistics query has established\<close>

lemma stat_ids_ok:
  "stat_ids_check en n ids = ok \<longleftrightarrow> n \<le> length ids \<and> (\<forall>i < n. ids ! i \<in> set en)"
proof (induction en n ids rule: stat_ids_check.induct)
  case (3 en n x ids)
  have "(\<forall>i < Suc n. (x # ids) ! i \<in> set en) \<longleftrightarrow> x \<in> set en \<and> (\<forall>i < n. ids ! i \<in> set en)"
    using less_Suc_eq_0_disj by (auto simp: nth_Cons split: nat.splits)
  with 3 show ?case by auto
qed auto

end
