(* ===== verification/Meta_Populate_Props.thy ===== *)
theory Meta_Populate_Props
  imports Meta_Demo Meta_Populate
begin

text \<open>
  A client that connects to a running switch gets the database of the client before it: populating an
  empty database from the dump of a database the layer has reached restores its objects and counters.
\<close>

section \<open>Populating\<close>

text \<open>The id that is not one is counted as soon as a dump refers to it.\<close>

lemma populate_null_counter:
  "populate_reference 0 m = (Inr (), if has_key m 0 then m else AList.update 0 0 m)"
  by (simp add: populate_reference_def populate_insert_def seq_def gets_def ret_def objectReferenceExists_def
      objectReferenceInsert_def objectReferenceIncrement_def)

section \<open>The dump of a database\<close>

definition stored_attributes :: "sai_object \<Rightarrow> sai_attribute list" where
  "stored_attributes obj = map (\<lambda>p. w_attr (snd p)) (m_attrs obj)"

definition database_dump :: "object_collection \<Rightarrow> (meta_key \<times> sai_attribute list) list" where
  "database_dump c = map (\<lambda>(k, obj). (k, stored_attributes obj)) c"

text \<open>
  What a dump has to keep: attributes with object ids are of the types the layer takes ids from, stored
  values are the same after they were printed and read, and the key of an object with key attributes
  can be printed.
\<close>

definition dump_faithful :: "sai_meta \<Rightarrow> object_collection \<Rightarrow> bool" where
  "dump_faithful h c \<longleftrightarrow>
     (\<forall>(k, obj) \<in> set c.
        (\<forall>(a, w) \<in> set (m_attrs obj).
           (md_isoidattribute (w_meta w) \<longrightarrow> oid_value_type (md_attrvaluetype (w_meta w))) \<and>
           attr_copy h (w_meta w) (a_value (w_attr w)) = a_value (w_attr w)) \<and>
        ((\<exists>(a, w) \<in> set (m_attrs obj). attr_is_key h (objecttype k) (w_attr w)) \<longrightarrow>
           (case constructKey h (switchIdQuery h (object_id k)) k (stored_attributes obj) of
              Inl e \<Rightarrow> False | Inr key \<Rightarrow> True)))"

lemma dump_keys: "map fst (database_dump c) = map fst c"
  by (simp add: database_dump_def split_def)

lemma dump_lookup:
  "map_of (database_dump c) k = map_option stored_attributes (map_of c k)"
  by (induction c) (auto simp: database_dump_def)

lemma stored_wrapper:
  assumes "object_ok h m k obj" "(a, w) \<in> set (m_attrs obj)"
  shows "wrapper_ok h k a w"
  using assms map_of_mem_wf [of "m_attrs obj" a w] by (auto simp: object_ok_def)

lemma stored_refs_entry:
  assumes "object_ok h m k obj"
  shows "entry_refs h (k, stored_attributes obj) = object_oids h k obj"
proof -
  have "attr_oids h k (w_attr w) = wrapper_refs w" if "(a, w) \<in> set (m_attrs obj)" for a w
    using stored_wrapper [OF assms that] by (auto simp: wrapper_ok_def attr_oids_def wrapper_refs_def)
  then have "map (attr_oids h k) (stored_attributes obj) = map (\<lambda>(a, w). wrapper_refs w) (m_attrs obj)"
    by (auto simp: stored_attributes_def)
  then show ?thesis by (simp add: entry_refs_def object_oids_def)
qed

lemma dump_entry_faithful:
  assumes "dump_faithful h c" "(k, obj) \<in> set c" "object_ok h m k obj"
  shows "dump_entry_ok h [] (k, stored_attributes obj)"
proof -
  let ?as = "stored_attributes obj"
  note w = stored_wrapper [OF assms(3)]
  have "map a_id ?as = map fst (m_attrs obj)"
    using w by (fastforce simp: wrapper_ok_def stored_attributes_def)
  then have dist: "distinct (map a_id ?as)" using assms(3) by (simp add: object_ok_def keys_def)
  have refs: "\<forall>r \<in> set (object_oids h k obj). r \<noteq> 0 \<longrightarrow> switchIdQuery h r = key_switch h k"
    using assms(3) by (simp add: object_ok_def refs_local_def)
  have attr: "dump_attr_ok h k (w_attr x)" if "(a, x) \<in> set (m_attrs obj)" for a x
  proof -
    have "set (wrapper_refs x) \<subseteq> set (object_oids h k obj)" using that by (force simp: object_oids_def)
    then show ?thesis
      using w [OF that] refs assms(1,2) that
      by (fastforce simp: dump_attr_ok_def wrapper_ok_def wrapper_refs_def dump_faithful_def)
  qed
  have mem: "set (member_oids h k) \<subseteq> set (object_oids h k obj)" by (simp add: object_oids_def)
  have as: "\<forall>x \<in> set ?as. \<exists>a w. (a, w) \<in> set (m_attrs obj) \<and> x = w_attr w"
    unfolding stored_attributes_def by force
  have key: "\<exists>s. constructKey h (switchIdQuery h (object_id k)) k ?as = Inr s"
    if "\<exists>x \<in> set ?as. attr_is_key h (objecttype k) x"
  proof -
    from that as have "\<exists>(a, w) \<in> set (m_attrs obj). attr_is_key h (objecttype k) (w_attr w)" by fast
    then have "case constructKey h (switchIdQuery h (object_id k)) k (stored_attributes obj) of Inl e \<Rightarrow> False | Inr key \<Rightarrow> True"
      using assms(1,2) unfolding dump_faithful_def by fast
    then show ?thesis by (auto split: sum.splits)
  qed
  have "\<forall>x \<in> set ?as. dump_attr_ok h k x"
  proof
    fix x assume "x \<in> set ?as"
    with as obtain a w where "(a, w) \<in> set (m_attrs obj)" "x = w_attr w" by blast
    with attr show "dump_attr_ok h k x" by simp
  qed
  with dist mem refs key assms(3) show ?thesis by (auto simp: dump_entry_ok_def object_ok_def)
qed

lemma dump_stored_same:
  assumes "dump_faithful h c" "(k, obj) \<in> set c" "object_ok h m k obj"
  shows "\<lparr>m_metaKey = k, m_attrs = dump_stored h k (stored_attributes obj)\<rparr> = obj"
proof -
  have "a_id (w_attr w) = a \<and> attr_wrapper_new h (the (get_attr_metadata h (objecttype k) a)) (w_attr w) = w"
    if "(a, w) \<in> set (m_attrs obj)" for a w
    using stored_wrapper [OF assms(3) that] assms(1,2) that
    by (fastforce simp: wrapper_ok_def attr_wrapper_new_def dump_faithful_def)
  then have "dump_stored h k (stored_attributes obj) = m_attrs obj"
    by (auto simp: dump_stored_def stored_attributes_def intro!: map_idI)
  moreover have "m_metaKey obj = k" using assms(3) by (simp add: object_ok_def)
  ultimately show ?thesis by simp
qed

lemma dump_total:
  assumes "\<And>k obj. (k, obj) \<in> set c \<Longrightarrow> entry_refs h (k, stored_attributes obj) = object_oids h k obj"
  shows "count_list (concat (map (entry_refs h) (database_dump c))) x = total_refs h c x"
  using assms
  by (induction c) (auto simp: database_dump_def total_refs_def object_refs_count_oids)

text \<open>The ids a database has a counter for as far as its objects show: own ids, and the ids referred to.\<close>

definition counted_ids :: "sai_meta \<Rightarrow> object_collection \<Rightarrow> oid list" where
  "counted_ids h c = concat (map (\<lambda>(k, obj). own_ids h k @ object_oids h k obj) c)"

lemma dump_ids:
  assumes "\<And>k obj. (k, obj) \<in> set c \<Longrightarrow> entry_refs h (k, stored_attributes obj) = object_oids h k obj"
  shows "concat (map (entry_ids h) (database_dump c)) = counted_ids h c"
  using assms by (induction c) (auto simp: database_dump_def counted_ids_def entry_ids_def)

lemma populated_counter:
  assumes "db_inv h (no_null s)" "x \<noteq> 0"
  shows "map_of (m_oids s) x =
    (if has_key (m_oids s) x then Some (int (total_refs h (m_saiObjectCollection s) x)) else None)"
proof (cases "map_of (m_oids s) x")
  case None
  then show ?thesis by (simp add: has_key_def)
next
  case (Some n)
  with assms(2) have "map_of (m_oids (no_null s)) x = Some n" by (simp add: no_null_def AList.delete_conv)
  then have "n = int (total_refs h (m_saiObjectCollection s) x)"
    using db_inv_counted [OF assms(1)] by (simp add: counted_def)
  with Some show ?thesis by (simp add: has_key_def)
qed

text \<open>
C17 A client that connects to a running switch gets the database of its predecessor: populating an empty
  database from the dump of a database in any state the layer can get into ends, restores exactly the
  objects with their attributes, and leaves exactly these counters of non-null ids: the id of every stored
  object with an object id and every id that is referred to has one, it is the number of times the id is
  referred to, and it is the counter the id had. This is for dumps that lose nothing (\<open>dump_faithful\<close>:
  stored values are unchanged by printing and reading them, keys of objects can be printed); the null id is
  left out, since populating gives it a counter of zero as soon as an attribute has it.
\<close>

theorem populate_restores:
  assumes "meta_ok h" "meta_reachable h s" "dump_faithful h (m_saiObjectCollection s)"
    and "\<forall>x. x \<noteq> 0 \<longrightarrow> total_refs h (m_saiObjectCollection s) x \<le> nat INT32_MAX"
  shows "\<exists>s'. meta_populate h (map Inr (database_dump (m_saiObjectCollection s))) meta_new = (Inr (), s') \<and>
     (\<forall>k. map_of (m_saiObjectCollection s') k = map_of (m_saiObjectCollection s) k) \<and>
     (\<forall>x. x \<noteq> 0 \<longrightarrow> map_of (m_oids s') x =
        (if x \<in> set (counted_ids h (m_saiObjectCollection s))
         then Some (int (total_refs h (m_saiObjectCollection s) x)) else None)) \<and>
     (\<forall>x n m. x \<noteq> 0 \<longrightarrow> map_of (m_oids s') x = Some n \<longrightarrow> map_of (m_oids s) x = Some m \<longrightarrow> n = m)"
proof -
  let ?c = "m_saiObjectCollection s"
  have inv: "meta_inv h s" by (rule meta_reachable_inv [OF assms(1,2)])
  have ok: "object_ok h (m_oids s) k obj" if "(k, obj) \<in> set ?c" for k obj
    using db_inv_object [OF meta_invD(1) [OF inv]] map_of_mem_wf [OF meta_invD(4) [OF inv] that] by blast
  have new: "meta_inv h meta_new" by (rule meta_inv_empty) (simp_all add: meta_new_def)
  have objs: "m_saiObjectCollection meta_new = []" by (simp add: meta_new_def)
  have "\<forall>entry \<in> set (database_dump ?c). dump_entry_ok h (m_saiObjectCollection meta_new) entry"
    using dump_entry_faithful [OF assms(3) _ ok] by (auto simp: database_dump_def objs)
  moreover have "distinct (map fst (database_dump ?c))"
    using meta_invD(4) [OF inv] by (simp add: dump_keys keys_def)
  moreover have total: "count_list (concat (map (entry_refs h) (database_dump ?c))) x = total_refs h ?c x" for x
    using stored_refs_entry [OF ok] by (rule dump_total)
  then have "refs_bound h (m_saiObjectCollection meta_new) (concat (map (entry_refs h) (database_dump ?c)))"
    using assms(4) by (simp add: refs_bound_def objs total_refs_def)
  moreover have ids: "concat (map (entry_ids h) (database_dump ?c)) = counted_ids h ?c"
    using stored_refs_entry [OF ok] by (rule dump_ids)
  moreover have none: "has_key (m_oids meta_new) x \<longleftrightarrow> False" for x by (simp add: meta_new_def has_key_def)
  ultimately obtain s' where s': "meta_populate h (map Inr (database_dump ?c)) meta_new = (Inr (), s')" "meta_inv h (no_null s')"
      "\<forall>k. map_of (m_saiObjectCollection s') k = (case map_of (database_dump ?c) k of
         None \<Rightarrow> None | Some attrs \<Rightarrow> Some \<lparr>m_metaKey = k, m_attrs = dump_stored h k attrs\<rparr>)"
      "\<forall>x. total_refs h (m_saiObjectCollection s') x = total_refs h ?c x"
      "\<forall>x. has_key (m_oids s') x \<longleftrightarrow> x \<in> set (counted_ids h ?c)"
    using populate_run [OF assms(1) meta_inv_populate [OF new], of "database_dump ?c"] total
    by (auto simp: none ids objs populate_eq populate_inv_def total_refs_def [of _ "[]"] cong: option.case_cong)
  have same: "map_of (m_saiObjectCollection s') k = map_of ?c k" for k
    using s'(3) dump_stored_same [OF assms(3) _ ok]
    by (auto simp: dump_lookup dest: map_of_SomeD split: option.splits)
  have at: "map_of (m_oids s') x = (if x \<in> set (counted_ids h ?c) then Some (int (total_refs h ?c x)) else None)"
    if "x \<noteq> 0" for x
    using populated_counter [OF meta_invD(1) [OF s'(2)] that] s'(4,5) by simp
  have "n = m" if "x \<noteq> 0" "map_of (m_oids s') x = Some n" "map_of (m_oids s) x = Some m" for x n m
    using at [OF that(1)] that(2,3) db_inv_counted [OF meta_invD(1) [OF inv]] by (auto simp: counted_def split: if_splits)
  with s'(1) same at show ?thesis by blast
qed

lemma total_refs_Cons: "total_refs h (p # c) x = count_list (object_oids h (fst p) (snd p)) x + total_refs h c x"
  by (cases p) (simp add: total_refs_def object_refs_count_oids)

lemma demo_total4: "total_refs demo_meta (m_saiObjectCollection demo_db4) x \<le> 4"
proof -
  have "stored_refs demo_meta (m_saiObjectCollection demo_db4) = 4"
    by (simp add: demo_db4_def demo_db3_def stored_refs_Cons demo_object_oids) (simp add: stored_refs_def)
  with total_le_stored [of demo_meta "m_saiObjectCollection demo_db4" x] show ?thesis by simp
qed

text \<open>A switch, a virtual router, a port with a key and a reference, and a route that refers to two objects and to none.\<close>

theorem populate_restores_witness:
  "\<exists>s'. meta_populate demo_meta (map Inr (database_dump (m_saiObjectCollection demo_db4))) meta_new = (Inr (), s') \<and>
     objectExists (m_saiObjectCollection s') demo_route \<and> map_of (m_oids s') demo_vr = Some 2 \<and>
     getObjectAttr (m_saiObjectCollection s') (oid_key 1 demo_port) 2 = Some (snd (demo_stored 1 demo_a_vr))"
proof -
  have c: "m_saiObjectCollection demo_db4 = [demo_object (oid_key 33 demo_switch) [demo_a_init],
       demo_object (oid_key 3 demo_vr) [demo_a_init], demo_object (oid_key 1 demo_port) [demo_a_lanes, demo_a_vr],
       demo_object demo_route [demo_a_hop]]"
    by (simp add: demo_db4_def demo_db3_def)
  have attrs: "stored_attributes (snd (demo_object k as)) = as" for k as
    by (simp add: stored_attributes_def demo_object_def demo_stored_def o_def)
  have md: "\<not> md_isoidattribute (the (demo_get_attr_metadata 33 (a_id demo_a_init)))"
    "\<not> md_isoidattribute (the (demo_get_attr_metadata 3 (a_id demo_a_init)))"
    "\<not> md_isoidattribute (the (demo_get_attr_metadata 1 (a_id demo_a_lanes)))"
    "md_attrvaluetype (the (demo_get_attr_metadata 1 (a_id demo_a_vr))) = VT_OBJECT_ID"
    "md_attrvaluetype (the (demo_get_attr_metadata 27 (a_id demo_a_hop))) = VT_OBJECT_ID"
    by (simp_all add: demo_metadata demo_a_defs)
  have nokey: "\<not> attr_is_key demo_meta 33 demo_a_init" "\<not> attr_is_key demo_meta 3 demo_a_init" "\<not> attr_is_key demo_meta 27 demo_a_hop"
    by (simp_all add: attr_is_key_def demo_metadata demo_a_defs)
  have "dump_faithful demo_meta (m_saiObjectCollection demo_db4)"
    using md nokey attrs [of "oid_key 1 demo_port" "[demo_a_lanes, demo_a_vr]"]
    by (simp add: c dump_faithful_def demo_object_def demo_stored_def demo_port_key oid_value_type_def)
  moreover have "total_refs demo_meta (m_saiObjectCollection demo_db4) x \<le> nat INT32_MAX" for x
    using demo_total4 [of x] by (simp add: INT32_MAX_def)
  ultimately obtain s' where s': "meta_populate demo_meta (map Inr (database_dump (m_saiObjectCollection demo_db4))) meta_new = (Inr (), s')"
    "\<forall>k. map_of (m_saiObjectCollection s') k = map_of (m_saiObjectCollection demo_db4) k"
    "map_of (m_oids s') demo_vr = (if demo_vr \<in> set (counted_ids demo_meta (m_saiObjectCollection demo_db4))
       then Some (int (total_refs demo_meta (m_saiObjectCollection demo_db4) demo_vr)) else None)"
    using populate_restores [OF demo_meta_ok demo_reachable(4)] demo_ids_simps(2) by blast
  have "demo_vr \<in> set (counted_ids demo_meta (m_saiObjectCollection demo_db4))"
    "total_refs demo_meta (m_saiObjectCollection demo_db4) demo_vr = 2"
    by (simp_all add: c counted_ids_def total_refs_Cons demo_object_oids split_def) (simp add: total_refs_def)
  with s'(3) have vr: "map_of (m_oids s') demo_vr = Some 2" by simp
  have route: "map_of (m_saiObjectCollection demo_db4) demo_route = Some (snd (demo_object demo_route [demo_a_hop]))"
    and port: "map_of (m_saiObjectCollection demo_db4) (oid_key 1 demo_port) = Some (snd (demo_object (oid_key 1 demo_port) [demo_a_lanes, demo_a_vr]))"
    by (simp_all add: c demo_object_def)
  have "getAttr (snd (demo_object (oid_key 1 demo_port) [demo_a_lanes, demo_a_vr])) 2 = Some (snd (demo_stored 1 demo_a_vr))"
    by (simp add: getAttr_def demo_object_def demo_stored_def) (simp add: demo_a_defs)
  with s' route port vr show ?thesis
    by (simp add: objectExists_def has_key_def getObjectAttr_def)
qed

end
