(* ===== verification/Spec2Isabelle.thy ===== *)
theory Spec2Isabelle
  imports Meta_Value_Props Meta_Fault_Props Vid_Translator_Props Notification_Worker Asic_Props Ser_Props Query_Props Damping_Props Meta_Fdb_Props Meta_Queries Meta_Populate_Props
begin

text \<open>
  A model of sonic-sairedis, the layer of SONiC that carries the calls of the Switch Abstraction Interface (SAI) from
  the orchestration agent to the library of a switch vendor, with the properties that make its parts correct.

  \<^bold>\<open>The program.\<close> The client library (\<open>lib/\<close>) gives every object a virtual id (VID) and writes the calls to redis.
  The daemon \<open>syncd\<close> reads them there, translates the virtual ids to the real ids (RID) of the vendor and back
  (\<open>syncd/VirtualOidTranslator.cpp\<close>), calls the vendor and sends the notifications of the vendor the other way, through
  a queue and a thread of their own (\<open>syncd/NotificationQueue.cpp\<close>, \<open>NotificationProcessor.cpp\<close>). On both sides the
  calls go through a layer that validates them and keeps a database of the objects with reference counts
  (\<open>meta/Meta.cpp\<close> with its containers). After a restart \<open>syncd\<close> compares the view of the switch before with the view
  it is to have, and executes the difference (\<open>syncd/AsicView.cpp\<close>, \<open>ComparisonLogic.cpp\<close>). The virtual switch
  (\<open>vslib/\<close>) stands for a vendor and allocates real ids. Everything that crosses a process is text: attributes, keys
  and notifications are printed and read by \<open>meta/SaiSerialize.cpp\<close>, and a call waits on a channel for the message that
  answers it (\<open>lib/RedisChannel.cpp\<close>).

  \<^bold>\<open>How code becomes definitions.\<close> A member function that changes \<open>this\<close> and may throw is a value of type \<open>op\<close>
  (theory \<open>Prelude\<close>): it returns a value or a fault, and in both cases the state it leaves behind. \<open>SWSS_LOG_THROW\<close> and
  the exceptions of the standard containers are the fault \<open>Throw\<close>; reading through a null pointer is \<open>Null_Deref\<close>, the
  overflow of a signed integer \<open>Signed_Overflow\<close>. The containers are association lists, whose order the properties do
  not rely on, object ids 64-bit words, and a function that holds a mutex from its first to its last line is one step.
  Constants of the SAI headers and functions of the SAI metadata library, which are not in the repository, are the
  fields of the records \<open>sai_headers\<close> (theory \<open>Sai_Types\<close>) and \<open>sai_meta\<close> (theory \<open>Meta_Types\<close>); the answers of the
  vendor and of redis are arguments of the operations. A union is a record from which the code reads the member it
  selects. A list the code updates in place is a list it returns.

  \<^bold>\<open>The theories.\<close>
  \<^item> \<open>Prelude\<close>: faults, operations, Hoare triples, association lists and sums over them.
  \<^item> \<open>Sai_Types\<close>, \<open>Oid_Layout\<close>, \<open>Oid_Index\<close>: words of ids and the index generators (\<open>NumberOidIndexGenerator\<close>,
    \<open>RedisVidIndexGenerator\<close>); \<open>Switch_Config\<close>: \<open>SwitchConfigContainer\<close>; \<open>Virtual_Oid\<close>: \<open>VirtualObjectIdManager\<close> and
    \<open>VidManager\<close>; \<open>Real_Oid\<close>: \<open>RealObjectIdManager\<close>. The properties: allocated ids are pairwise distinct, and decode to
    what they were allocated for; updating an index.
  \<^item> \<open>Ref_Counter\<close>, \<open>Object_Store\<close>: \<open>OidRefCounter\<close>, \<open>SaiObject\<close>, \<open>SaiObjectCollection\<close>, \<open>AttrKeyMap\<close>,
    \<open>PortRelatedSet\<close>; \<open>Meta_Types\<close>, \<open>Meta_Db\<close>: the data of \<open>Meta\<close>.
  \<^item> \<open>Meta_Validate\<close>, \<open>Meta_Generic\<close>, \<open>Meta_Get\<close>, \<open>Meta_Post\<close>, \<open>Meta_Remove\<close>, \<open>Meta_Api\<close>: the checks before a call, the
    updates after it, and the calls themselves, single, entry and bulk, as in \<open>Meta.cpp\<close>.
  \<^item> \<open>Meta_Inv\<close>, \<open>Meta_Keep\<close>, \<open>Meta_Correct\<close>, \<open>Meta_Reach\<close>: what the metadata library is
    to satisfy, the invariant of the database, that every call keeps it, and the reachable databases; \<open>Meta_Demo\<close> is a
    concrete metadata library and a run, on which the witnesses evaluate.
  \<^item> \<open>Meta_Notify\<close>: the flush of FDB entries and the handlers of the notifications of the vendor;
    \<open>Meta_Queries\<close>: the queries of resources, capabilities and statistics; \<open>Meta_Populate\<close>: filling the database from a
    dump of the ASIC database, and that it keeps the invariant; \<open>Meta_Bulk_Inv\<close>: that the bulk calls keep it, whatever
    statuses the interface below answers for the objects; \<open>Meta_Fdb_Inv\<close>: the handlers keep it. So the reachable databases
    (\<open>meta_reachable\<close> in \<open>Meta_Reach\<close>) are those after single and bulk calls, flushes, notifications and populating in any order. \<open>Meta_Fdb_Props\<close>, with a library with FDB entries and a run, and
    \<open>Meta_Populate_Props\<close>: a flush removes exactly the entries it covers, of whichever switch, and a
    populated database has the objects that were dumped and the counters of their ids.
  \<^item> \<open>Meta_Props\<close>, \<open>Meta_Fault_Props\<close>, \<open>Meta_Value_Props\<close>: the properties. Counts are exact, references never dangle, a
    removal in use is refused, alone or in a bulk call, calls that answer an error change nothing, a create stores the
    attributes it was given, and which lists and strings are accepted.
  \<^item> \<open>Rid_Store\<close>, \<open>Vid_Translator\<close> and the theories named after it: \<open>RedisClient\<close> and \<open>VirtualOidTranslator\<close>; the local
    caches and the hashes of redis stay inverse to each other, and translation of attribute lists is invertible.
  \<^item> \<open>Notification_Queue\<close>, \<open>Notification_Worker\<close>: the queue as a lossy first in, first out queue with a bound, and the
    thread that empties it, as a step relation in which callbacks, signals and the thread interleave.
  \<^item> \<open>Asic_View\<close>: \<open>AsicView\<close> with \<open>SaiObj\<close>, \<open>SaiAttr\<close> and \<open>AsicOperation\<close>; \<open>Asic_Refs\<close>: what its counts count;
    \<open>Asic_Order\<close>: the loop that moves removals up; \<open>Asic_Inv\<close>, \<open>Asic_Calls\<close>, \<open>Asic_Run\<close>: the invariant, that
    each call and the reading of a dump keep it, and the states of the view operations are recorded for, with a log of the
    ids each operation refers to; \<open>Asic_Props\<close>: exact counts, refused removals, sets that never fail, and the safe order of operations.

  \<^item> \<open>Ser_Text\<close>, \<open>Ser_Lib\<close>, \<open>Ser_Enum\<close>, \<open>Ser_Ip\<close>, \<open>Ser_List\<close>, \<open>Ser_Acl\<close>, \<open>Ser_Maps\<close>, \<open>Ser_Lanes\<close>: the text of
    numbers (\<open>strtoull\<close> included), names, addresses, lists and records, as in \<open>meta/SaiSerialize.cpp\<close>, each with the lemma
    that reading undoes printing; \<open>Ser_Attr\<close>: values of attributes of any type, and \<open>SaiAttributeList\<close>;
    \<open>Ser_Entry\<close>, \<open>Ser_Key\<close>: entry structures and object keys; \<open>Ser_Ntf\<close>, \<open>Ser_Status\<close>: notifications, statuses and
    configurations. \<open>Ser_Demo\<close> is a concrete JSON library, on which witnesses evaluate; \<open>Ser_Props\<close>: the properties.
  \<^item> \<open>Query_Channel\<close>: messages and the wait for a response; \<open>Query_Caps\<close>, \<open>Query_More\<close>: the queries and statistics calls
    of \<open>RedisRemoteSaiInterface\<close> with the handlers of \<open>Syncd\<close> and \<open>ServerSai\<close> that answer them; \<open>Query_Correct\<close>: both ends
    together; \<open>Query_Demo\<close>, \<open>Query_Props\<close>: the properties, which state that a call over the channel is the call of the
    vendor, and what a late response does.

  \<^item> \<open>Damping\<close>: link event damping in \<open>syncd/Syncd.cpp\<close>, the filter of \<open>NotificationProcessor.cpp\<close> that applies it, and
    the attributes the client configures it with, and the invariant of a port; \<open>Damping_Run\<close>: runs in which
    changes, the timer and the main loop take turns, ports nothing happens to any more, and the way of
    an attribute; \<open>Damping_Props\<close>: the client learns the state of a port that is quiet long enough, and two runs after
    which it never does, and the penalty stays within its ceiling.

  \<^bold>\<open>Fuel.\<close> The removal of a port removes its related objects through the function it is called from. The recursion is
  given the number of objects plus one as its depth; each level removes an object, and \<open>post_remove_terminates\<close> shows
  that the depth is never exhausted and that a larger one changes nothing. All other recursions are structural or have a
  measure.

  \<^bold>\<open>Interfaces.\<close> The locales \<open>translation\<close> and \<open>id_translation\<close> state what the translation of attributes needs of the
  translation of one id, and are interpreted on the translator; the locale \<open>lossy_queue\<close> states the contract of the
  notification queue and is interpreted on it; the locales \<open>codec\<close> and \<open>json_codec\<close> state that a reader undoes a printer,
  give the same for lists and arrays of them, and are interpreted on the printers and readers of the code.

  \<^bold>\<open>Limits.\<close> Queries of the interface below the metadata layer answer the same while a call runs. Pointers to the
  arrays of bulk calls are not null. The batch translation is given distinct real ids, as its callers pass a set. The
  counts of an \<open>AsicView\<close> do not overflow: each reference they count is in memory. Spurious wakeups of the notification
  thread are steps of the model. An object type is an object id type exactly when it is no type with an entry structure.

  A notification may name ids the database does not know yet: the properties of reachable databases ask that such an id
  is of an object id type and that counters have room for the references (\<open>notification_ok\<close>). The dump \<open>populate\<close> reads is given deserialized. It counts the null id when a dump
  refers to it: a run of the layer populates from dumps that do not (\<open>dump_ready\<close>), and the round trip of a whole
  database states the counters of all other ids. What the layer stores of an attribute is the copy \<open>SaiAttrWrapper\<close> makes by
  printing and reading it, the parameter \<open>attr_copy\<close>: of it the invariant needs that it keeps the object ids, and
  \<open>create_stores\<close> and \<open>populate_restores\<close> that it keeps the values they are about; for the printers and readers themselves that is
  \<open>attribute_list_roundtrip\<close>, over values with all their members, which are not identified with those of the layer.

  The runs of the damping do a batch of changes with its send, and a round of the main loop, as a whole, under one
  configuration; \<open>stale_flush_sticks\<close> and \<open>disabled_while_damped\<close> state what comes of the interleaving and of the change that are left out.
  The runs of an \<open>AsicView\<close> are those of the current view; the temporary one also gets attributes past its counts.

  The JSON library, \<open>inet_ntop\<close> and \<open>inet_pton\<close> for IPv6 and the tokenizer are fields of the record \<open>text_lib\<close>, with
  what the code relies on in \<open>text_lib_ok\<close>. The two powers the damping computes over doubles are parameters of which
  nothing is assumed. A message of a channel is in the list of the messages to come or never comes.

  \<^bold>\<open>Not modelled.\<close> Input and output (redis, ZeroMQ, recording, logging), the command line tools, the Python binding and
  the proxy; the dispatch by object type of \<open>SaiInterface\<close> and of the client library; the comparison of two views and the
  start of the switches; the data planes of the virtual switch, which drive the kernel and VPP; the polling of counters;
  the freeing of the memory of attributes.
\<close>

end
